(* ===== verification/Prelude.thy ===== *)
theory Prelude
  imports Complex_Main "HOL-Library.List_Lexorder"
begin

text \<open>
  Shared vocabulary of the development.

  \<^item> Python text is a list of code points (\<open>pystr\<close>); \<open>lit\<close> turns an ASCII literal into one.
    \<open>strip\<close>, the white-space test and the UTF-8 sizes follow CPython's \<open>str\<close>.
  \<^item> Fixed ASCII codes (error codes, reason codes, event types) are HOL strings.
  \<^item> A function that may raise returns \<open>'e + 'a\<close>, the exception on the left. A method that
    mutates its object and may raise half way returns the pair of that and the object's new state.
  \<^item> Time stamps are integers (microseconds); monotonic clock readings are rationals.
  \<^item> A lease (a handle whose \<open>release\<close> is idempotent) is its position in the list of handles
    made so far: the position is the identity of the Python object.
\<close>

named_theorems step_defs "definitions of the operations of a component"
named_theorems inv_defs "definitions of invariants"

section \<open>Text\<close>

type_synonym pystr = "nat list"

definition lit :: "string \<Rightarrow> pystr" where
  "lit s = map of_char s"

definition py_isspace :: "nat \<Rightarrow> bool" where
  "py_isspace c \<longleftrightarrow>
     (9 \<le> c \<and> c \<le> 13) \<or> (28 \<le> c \<and> c \<le> 32) \<or> c = 133 \<or> c = 160 \<or> c = 5760
     \<or> (8192 \<le> c \<and> c \<le> 8202) \<or> c = 8232 \<or> c = 8233 \<or> c = 8239 \<or> c = 8287 \<or> c = 12288"

definition strip :: "pystr \<Rightarrow> pystr" where
  "strip s = rev (dropWhile py_isspace (rev (dropWhile py_isspace s)))"

definition is_surrogate :: "nat \<Rightarrow> bool" where
  "is_surrogate c \<longleftrightarrow> 55296 \<le> c \<and> c \<le> 57343"

definition utf8_size :: "nat \<Rightarrow> nat" where
  "utf8_size c = (if c < 128 then 1 else if c < 2048 then 2 else if c < 65536 then 3 else 4)"

definition utf8_len :: "pystr \<Rightarrow> nat" where
  "utf8_len s = sum_list (map utf8_size s)"

definition encodable :: "pystr \<Rightarrow> bool" where
  "encodable s \<longleftrightarrow> list_all (\<lambda>c. \<not> is_surrogate c) s"

section \<open>Results\<close>

definition bindR :: "'e + 'a \<Rightarrow> ('a \<Rightarrow> 'e + 'b) \<Rightarrow> 'e + 'b" where
  "bindR m f = (case m of Inl e \<Rightarrow> Inl e | Inr x \<Rightarrow> f x)"

fun mapR :: "('a \<Rightarrow> 'e + 'b) \<Rightarrow> 'a list \<Rightarrow> 'e + 'b list" where
  "mapR f [] = Inr []"
| "mapR f (x # xs) = bindR (f x) (\<lambda>y. bindR (mapR f xs) (\<lambda>ys. Inr (y # ys)))"

section \<open>Leases\<close>

record 'k lease =
  lease_key :: 'k
  lease_released :: bool

definition held :: "'k lease list \<Rightarrow> nat \<Rightarrow> 'k option" where
  "held ls i =
     (if i < length ls \<and> \<not> lease_released (ls ! i) then Some (lease_key (ls ! i)) else None)"

definition mark_released :: "'k lease list \<Rightarrow> nat \<Rightarrow> 'k lease list" where
  "mark_released ls i =
     (if i < length ls then ls[i := (ls ! i)\<lparr>lease_released := True\<rparr>] else ls)"

definition open_leases :: "'k lease list \<Rightarrow> 'k list" where
  "open_leases ls = map lease_key (filter (\<lambda>l. \<not> lease_released l) ls)"

section \<open>Lemmas on text\<close>

lemma utf8_size_pos [simp]: "0 < utf8_size c" "Suc 0 \<le> utf8_size c"
  by (simp_all add: utf8_size_def)

lemma utf8_size_le_4: "utf8_size c \<le> 4"
  by (simp add: utf8_size_def)

lemma utf8_len_simps [simp]:
  "utf8_len [] = 0"
  "utf8_len (c # s) = utf8_size c + utf8_len s"
  "utf8_len (s @ t) = utf8_len s + utf8_len t"
  by (simp_all add: utf8_len_def)

lemma length_le_utf8_len: "length s \<le> utf8_len s"
proof (induction s)
  case (Cons c s)
  have "Suc 0 \<le> utf8_size c" by simp
  with Cons.IH show ?case by (simp del: utf8_size_pos)
qed simp

lemma encodable_simps [simp]:
  "encodable []"
  "encodable (c # s) \<longleftrightarrow> \<not> is_surrogate c \<and> encodable s"
  "encodable (s @ t) \<longleftrightarrow> encodable s \<and> encodable t"
  by (simp_all add: encodable_def)

lemma dropWhile_idem: "dropWhile P (dropWhile P xs) = dropWhile P xs"
  by (induction xs) auto

lemma strip_Nil [simp]: "strip [] = []"
  by (simp add: strip_def)

lemma strip_eq_Nil_iff: "strip s = [] \<longleftrightarrow> list_all py_isspace s"
proof -
  have "strip s = [] \<longleftrightarrow> (\<forall>c \<in> set (dropWhile py_isspace s). py_isspace c)"
    by (simp add: strip_def)
  also have "\<dots> \<longleftrightarrow> list_all py_isspace s"
    by (induction s) (auto simp: list_all_iff)
  finally show ?thesis .
qed

lemma dropWhile_rev_dropWhile:
  "dropWhile P (rev (dropWhile P (rev (dropWhile P s)))) = rev (dropWhile P (rev (dropWhile P s)))"
proof (cases "\<forall>x \<in> set s. P x")
  case True
  then have "dropWhile P s = []" by (simp add: dropWhile_eq_Nil_conv)
  show ?thesis unfolding \<open>dropWhile P s = []\<close> by simp
next
  case False
  define t where "t = dropWhile P s"
  from False have "t \<noteq> []" and hd: "\<not> P (hd t)"
    by (auto simp: t_def dropWhile_eq_Nil_conv hd_dropWhile)
  then obtain a u where t: "t = a # u" and a: "\<not> P a" by (cases t) auto
  have "dropWhile P (rev t) = dropWhile P (rev u) @ [a] \<or> dropWhile P (rev t) = [a]"
    using a by (simp add: t dropWhile_append)
  then have "dropWhile P (rev (dropWhile P (rev t))) = rev (dropWhile P (rev t))"
    using a by (elim disjE) simp_all
  then show ?thesis by (simp add: t_def)
qed

lemma strip_idem [simp]: "strip (strip s) = strip s"
  by (simp add: strip_def dropWhile_rev_dropWhile dropWhile_idem)

section \<open>Lemmas on results\<close>

lemma bindR_simps [simp]:
  "bindR (Inl e) f = Inl e"
  "bindR (Inr x) f = f x"
  by (simp_all add: bindR_def)

lemma bindR_Inr_iff: "bindR m f = Inr y \<longleftrightarrow> (\<exists>x. m = Inr x \<and> f x = Inr y)"
  by (cases m) auto

lemma bindR_Inl_iff:
  "bindR m f = Inl e \<longleftrightarrow> m = Inl e \<or> (\<exists>x. m = Inr x \<and> f x = Inl e)"
  by (cases m) auto

lemmas bindR_iffs = bindR_Inr_iff bindR_Inl_iff

lemma mapR_Inr_length: "mapR f xs = Inr ys \<Longrightarrow> length ys = length xs"
  by (induction xs arbitrary: ys) (auto simp: bindR_iffs)

lemma mapR_Inr_iff: "mapR f xs = Inr ys \<longleftrightarrow> list_all2 (\<lambda>x y. f x = Inr y) xs ys"
  by (induction xs arbitrary: ys) (auto simp: bindR_iffs list_all2_Cons1)

lemma mapR_Inl_ex: "mapR f xs = Inl e \<Longrightarrow> \<exists>x \<in> set xs. f x = Inl e"
  by (induction xs) (auto simp: bindR_iffs)

lemma mapR_total: "(\<And>x. x \<in> set xs \<Longrightarrow> \<exists>y. f x = Inr y) \<Longrightarrow> \<exists>ys. mapR f xs = Inr ys"
  by (induction xs) (fastforce simp: bindR_iffs)+

section \<open>Lemmas on leases\<close>

lemma held_append:
  "held (ls @ [l]) i =
     (if i = length ls then (if lease_released l then None else Some (lease_key l)) else held ls i)"
  by (auto simp: held_def nth_append)

lemma held_append_open:
  "held (ls @ [\<lparr>lease_key = k, lease_released = False\<rparr>]) = (held ls)(length ls \<mapsto> k)"
  by (rule ext) (simp add: held_append)

lemma held_mark_released: "held (mark_released ls i) = (held ls)(i := None)"
  by (auto simp: held_def mark_released_def fun_eq_iff nth_list_update)

lemma held_upd_None: "held ls i = None \<Longrightarrow> (held ls)(i := None) = held ls"
  by (rule fun_upd_idem)

lemma held_length [simp]: "held ls (length ls) = None"
  by (simp add: held_def)

lemma held_Nil [simp]: "held [] i = None"
  by (simp add: held_def)

lemma held_Some_D: "held ls i = Some k \<Longrightarrow> i < length ls \<and> k = lease_key (ls ! i)"
  by (auto simp: held_def split: if_splits)

lemma open_leases_append [simp]:
  "open_leases (ls @ [l]) = open_leases ls @ (if lease_released l then [] else [lease_key l])"
  by (simp add: open_leases_def)

lemma open_leases_Nil [simp]: "open_leases [] = []"
  by (simp add: open_leases_def)

lemma mark_released_noop: "held ls i = None \<Longrightarrow> mark_released ls i = ls"
  by (auto simp: held_def mark_released_def list_update_same_conv split: if_splits)

lemma mark_released_split:
  assumes "held ls i = Some k"
  obtains xs ys where "ls = xs @ \<lparr>lease_key = k, lease_released = False\<rparr> # ys"
    and "length xs = i"
    and "mark_released ls i = xs @ \<lparr>lease_key = k, lease_released = True\<rparr> # ys"
proof -
  from assms have i: "i < length ls" and k: "ls ! i = \<lparr>lease_key = k, lease_released = False\<rparr>"
    by (auto simp: held_def split: if_splits)
  have ls: "ls = take i ls @ ls ! i # drop (Suc i) ls"
    using i by (simp add: id_take_nth_drop)
  show ?thesis
  proof (rule that [of "take i ls" "drop (Suc i) ls"])
    show "ls = take i ls @ \<lparr>lease_key = k, lease_released = False\<rparr> # drop (Suc i) ls"
      using ls k by simp
    show "mark_released ls i = take i ls @ \<lparr>lease_key = k, lease_released = True\<rparr> # drop (Suc i) ls"
      using i k by (simp add: mark_released_def upd_conv_take_nth_drop)
  qed (use i in simp)
qed

lemma count_open_mark_released:
  assumes "held ls i = Some k"
  shows "count_list (open_leases (mark_released ls i)) k' =
           count_list (open_leases ls) k' - (if k' = k then 1 else 0)"
    and "length (open_leases (mark_released ls i)) = length (open_leases ls) - 1"
    and "0 < count_list (open_leases ls) k"
    and "0 < length (open_leases ls)"
proof -
  from assms obtain xs ys where "ls = xs @ \<lparr>lease_key = k, lease_released = False\<rparr> # ys"
    and "mark_released ls i = xs @ \<lparr>lease_key = k, lease_released = True\<rparr> # ys"
    by (rule mark_released_split)
  then show "count_list (open_leases (mark_released ls i)) k' =
           count_list (open_leases ls) k' - (if k' = k then 1 else 0)"
    and "length (open_leases (mark_released ls i)) = length (open_leases ls) - 1"
    and "0 < count_list (open_leases ls) k"
    and "0 < length (open_leases ls)"
    by (auto simp: open_leases_def)
qed

lemma set_open_leases: "set (open_leases ls) = {k. \<exists>i. held ls i = Some k}"
  by (fastforce simp: open_leases_def held_def in_set_conv_nth split: if_splits)


section \<open>Strictly sorted lists\<close>

lemma filter_after_drop:
  assumes "sorted_wrt R xs" and "n < length xs" and asym: "\<And>x y. R x y \<Longrightarrow> \<not> R y x"
  shows "filter (R (xs ! n)) xs = drop (Suc n) xs"
proof -
  have "xs = take (Suc n) xs @ drop (Suc n) xs" by simp
  moreover have "\<not> R (xs ! n) x" if "x \<in> set (take (Suc n) xs)" for x
  proof -
    from that obtain i where i: "i < Suc n" "i < length xs" "x = xs ! i"
      by (auto simp: in_set_conv_nth)
    then show ?thesis
      using sorted_wrt_nth_less [OF assms(1), of i n] assms(2) asym by (cases "i = n") auto
  qed
  moreover have "R (xs ! n) x" if "x \<in> set (drop (Suc n) xs)" for x
  proof -
    from that obtain i where "i < length xs - Suc n" "x = xs ! (Suc n + i)"
      by (auto simp: in_set_conv_nth)
    then show ?thesis
      using sorted_wrt_nth_less [OF assms(1), of n "Suc n + i"] assms(2) by simp
  qed
  ultimately show ?thesis
    by (metis (no_types, lifting) append_Nil filter_False filter_True filter_append)
qed

lemma strictly_sorted_unique:
  assumes "sorted_wrt R xs" "sorted_wrt R ys" "set xs = set ys" and asym: "\<And>x y. R x y \<Longrightarrow> \<not> R y x"
  shows "xs = ys"
  using assms(1-3)
proof (induction xs arbitrary: ys)
  case (Cons x xs)
  then obtain y zs where ys: "ys = y # zs" by (cases ys) auto
  have "x = y"
  proof (rule ccontr)
    assume "x \<noteq> y"
    then have "y \<in> set xs" "x \<in> set zs" using Cons.prems ys by auto
    then show False using Cons.prems ys asym by auto
  qed
  moreover have "\<not> R x x" "\<not> R y y" using asym by blast+
  then have "x \<notin> set xs" "y \<notin> set zs" using Cons.prems ys by auto
  moreover from this \<open>x = y\<close> have "set xs = set zs" using Cons.prems(3) ys by (auto simp: insert_eq_iff)
  ultimately show ?case using Cons ys by simp
qed simp

end
