(* ===== verification/Irreversible.thy ===== *)
theory Irreversible
  imports Prelude
begin

text \<open>
  The interface of what no step can undo: a fact of a state that every step keeps (\<open>sealed\<close>) and that
  rules an event out (\<open>breached\<close>). The stores interpret it on their own steps.
\<close>

locale irreversible =
  fixes step :: "'s \<Rightarrow> 's \<Rightarrow> bool"
    and sealed :: "'k \<Rightarrow> 's \<Rightarrow> bool"
    and breached :: "'k \<Rightarrow> 's \<Rightarrow> bool"
  assumes sealed_step: "sealed k s \<Longrightarrow> step s s' \<Longrightarrow> sealed k s'"
    and sealed_safe: "sealed k s \<Longrightarrow> \<not> breached k s"
begin

lemma sealed_steps: "step\<^sup>*\<^sup>* s s' \<Longrightarrow> sealed k s \<Longrightarrow> sealed k s'"
  by (induction rule: rtranclp_induct) (auto intro: sealed_step)

lemma never_breached: "sealed k s \<Longrightarrow> step\<^sup>*\<^sup>* s s' \<Longrightarrow> \<not> breached k s'"
  using sealed_steps sealed_safe by blast

end

end
