(* ===== verification/Table.thy ===== *)
theory Table
  imports Prelude
begin

text \<open>
  A database table is a list of rows with their primary key, in insertion order. The operations
  are the statements the stores issue: \<open>SELECT ... WHERE\<close> (first row), \<open>UPDATE ... WHERE\<close> with its
  row count, \<open>DELETE ... WHERE\<close>, and an \<open>INSERT\<close> that fails on a primary-key or unique violation.
\<close>

type_synonym ('k, 'r) table = "('k \<times> 'r) list"

definition sel_first :: "('k \<Rightarrow> 'r \<Rightarrow> bool) \<Rightarrow> ('k, 'r) table \<Rightarrow> ('k \<times> 'r) option" where
  "sel_first P t = find (\<lambda>(k, r). P k r) t"

definition upd_where ::
  "('k \<Rightarrow> 'r \<Rightarrow> bool) \<Rightarrow> ('r \<Rightarrow> 'r) \<Rightarrow> ('k, 'r) table \<Rightarrow> ('k, 'r) table" where
  "upd_where P f t = map (\<lambda>(k, r). (k, if P k r then f r else r)) t"

definition count_where :: "('k \<Rightarrow> 'r \<Rightarrow> bool) \<Rightarrow> ('k, 'r) table \<Rightarrow> nat" where
  "count_where P t = length (filter (\<lambda>(k, r). P k r) t)"

definition del_where :: "('k \<Rightarrow> 'r \<Rightarrow> bool) \<Rightarrow> ('k, 'r) table \<Rightarrow> ('k, 'r) table" where
  "del_where P t = filter (\<lambda>(k, r). \<not> P k r) t"

definition insert_row ::
  "('r \<Rightarrow> 'r \<Rightarrow> bool) \<Rightarrow> 'k \<Rightarrow> 'r \<Rightarrow> ('k, 'r) table \<Rightarrow> ('k, 'r) table option" where
  "insert_row clash k r t =
     (if list_ex (\<lambda>(k', r'). k' = k \<or> clash r' r) t then None else Some (t @ [(k, r)]))"

definition keys_ok :: "('k, 'r) table \<Rightarrow> bool" where
  "keys_ok t \<longleftrightarrow> distinct (map fst t)"

lemma map_of_upd_where:
  "map_of (upd_where P f t) k = map_option (\<lambda>r. if P k r then f r else r) (map_of t k)"
  by (induction t) (auto simp: upd_where_def)

lemma map_of_upd_key:
  "map_of (upd_where (\<lambda>k' _. k' = k) f t) = (map_of t)(k := map_option f (map_of t k))"
  by (rule ext) (simp add: map_of_upd_where option.map_ident)

lemma map_of_upd_one:
  assumes "map_of t k = Some r" and "P k r" and "\<And>k' r'. P k' r' \<Longrightarrow> k' = k"
  shows "map_of (upd_where P f t) = (map_of t)(k \<mapsto> f r)"
proof (rule ext)
  fix k'
  have "\<not> P k' r'" if "k' \<noteq> k" for r' using assms(3) that by blast
  then show "map_of (upd_where P f t) k' = ((map_of t)(k \<mapsto> f r)) k'"
    using assms(1,2) by (cases "map_of t k'") (auto simp: map_of_upd_where)
qed

lemma keys_upd_where [simp]: "map fst (upd_where P f t) = map fst t"
  by (induction t) (auto simp: upd_where_def)

lemma keys_ok_upd_where [simp]: "keys_ok (upd_where P f t) = keys_ok t"
  by (simp add: keys_ok_def)

lemma map_of_del_where:
  "keys_ok t \<Longrightarrow> map_of (del_where P t) k =
     (case map_of t k of None \<Rightarrow> None | Some r \<Rightarrow> if P k r then None else Some r)"
proof (induction t)
  case (Cons a t)
  obtain k' r' where a: "a = (k', r')" by fastforce
  from Cons.prems have "k' \<notin> fst ` set t" and "keys_ok t"
    by (auto simp: a keys_ok_def)
  moreover then have "map_of t k' = None" by (simp add: map_of_eq_None_iff)
  ultimately show ?case
    using Cons.IH by (auto simp: a del_where_def)
qed (simp add: del_where_def)

lemma keys_ok_del_where: "keys_ok t \<Longrightarrow> keys_ok (del_where P t)"
  by (simp add: keys_ok_def del_where_def distinct_map_filter)

lemma sel_first_Some: "sel_first P t = Some (k, r) \<Longrightarrow> (k, r) \<in> set t \<and> P k r"
  by (auto simp: sel_first_def find_Some_iff in_set_conv_nth)

lemma sel_first_map_of:
  "keys_ok t \<Longrightarrow> sel_first P t = Some (k, r) \<Longrightarrow> map_of t k = Some r \<and> P k r"
  by (auto dest: sel_first_Some simp: keys_ok_def)

lemma sel_first_None: "sel_first P t = None \<longleftrightarrow> (\<forall>(k, r) \<in> set t. \<not> P k r)"
  by (auto simp: sel_first_def find_None_iff)

lemma sel_first_None_map_of: "sel_first P t = None \<Longrightarrow> map_of t k = Some r \<Longrightarrow> \<not> P k r"
  by (auto simp: sel_first_None dest: map_of_SomeD)

lemma sel_first_key:
  assumes "keys_ok t" and "map_of t k = Some r" and "P k r" and "\<And>k' r'. P k' r' \<Longrightarrow> k' = k"
  shows "sel_first P t = Some (k, r)"
proof (cases "sel_first P t")
  case None
  with assms(2,3) show ?thesis by (blast dest: sel_first_None_map_of)
next
  case (Some kr)
  obtain k' r' where kr: "kr = (k', r')" by fastforce
  with Some have "map_of t k' = Some r' \<and> P k' r'" using sel_first_map_of [OF assms(1)] by blast
  with assms show ?thesis by (metis Some kr option.inject)
qed

lemma insert_row_Some:
  assumes "insert_row clash k r t = Some t'"
  shows "map_of t k = None" and "map_of t' = (map_of t)(k \<mapsto> r)" and "keys_ok t \<Longrightarrow> keys_ok t'"
    and "\<And>k' r'. map_of t k' = Some r' \<Longrightarrow> \<not> clash r' r"
proof -
  from assms have t': "t' = t @ [(k, r)]" and "\<forall>(k', r') \<in> set t. k' \<noteq> k \<and> \<not> clash r' r"
    by (auto simp: insert_row_def list_ex_iff split: if_splits)
  then have k: "k \<notin> fst ` set t" and c: "\<And>k' r'. (k', r') \<in> set t \<Longrightarrow> \<not> clash r' r" by auto
  then show n: "map_of t k = None" by (simp add: map_of_eq_None_iff)
  show "map_of t' = (map_of t)(k \<mapsto> r)"
    using n by (auto simp: t' map_add_def fun_eq_iff split: option.split)
  show "keys_ok t \<Longrightarrow> keys_ok t'" using k by (simp add: keys_ok_def t')
  show "\<And>k' r'. map_of t k' = Some r' \<Longrightarrow> \<not> clash r' r"
    using c by (blast dest: map_of_SomeD)
qed

lemma count_where_map_of:
  "keys_ok t \<Longrightarrow> (\<And>k' r. P k' r \<Longrightarrow> k' = k) \<Longrightarrow>
     count_where P t = (case map_of t k of None \<Rightarrow> 0 | Some r \<Rightarrow> if P k r then 1 else 0)"
proof (induction t)
  case (Cons a t)
  obtain k' r' where a: "a = (k', r')" by fastforce
  from Cons.prems have "k' \<notin> fst ` set t" and ok: "keys_ok t"
    by (auto simp: a keys_ok_def)
  then have "map_of t k' = None" by (simp add: map_of_eq_None_iff)
  then show ?case
    using Cons.IH [OF ok Cons.prems(2)] Cons.prems(2) by (auto simp: a count_where_def)
qed (simp add: count_where_def)

lemma count_where_one:
  assumes "keys_ok t" and "count_where P t = 1" and "\<And>k' r. P k' r \<Longrightarrow> k' = k"
  obtains r where "map_of t k = Some r" and "P k r"
  using assms(2) by (auto simp: count_where_map_of [OF assms(1,3)] split: option.splits if_splits)

lemma map_of_keys_ok: "keys_ok t \<Longrightarrow> (k, r) \<in> set t \<longleftrightarrow> map_of t k = Some r"
  by (auto simp: keys_ok_def dest: map_of_SomeD)

end
