(* ===== verification/Json.thy ===== *)
theory Json
  imports Prelude
begin

text \<open>
  JSON values as the program handles them (a \<open>dict\<close> keeps its insertion order; a number that
  is not an \<open>int\<close> is kept as the text \<open>json\<close> prints for it) and the serialisation
  \<open>json.dumps(..., ensure_ascii=False, separators=(",", ":"))\<close> of the standard library.
\<close>

datatype json =
    JNull
  | JBool bool
  | JInt int
  | JFloat pystr
  | JStr pystr
  | JArr "json list"
  | JObj "(pystr \<times> json) list"

definition obj_get :: "(pystr \<times> json) list \<Rightarrow> pystr \<Rightarrow> json option" where
  "obj_get kvs k = map_of kvs k"

fun nat_text :: "nat \<Rightarrow> pystr" where
  "nat_text n = (if n < 10 then [48 + n] else nat_text (n div 10) @ [48 + n mod 10])"

declare nat_text.simps [simp del]

definition int_text :: "int \<Rightarrow> pystr" where
  "int_text i = (if i < 0 then 45 # nat_text (nat (- i)) else nat_text (nat i))"

definition hex_digit :: "nat \<Rightarrow> nat" where
  "hex_digit d = (if d < 10 then 48 + d else 87 + d)"

definition escape_char :: "nat \<Rightarrow> pystr" where
  "escape_char c =
     (if c = 34 then [92, 34] else if c = 92 then [92, 92]
      else if c = 8 then [92, 98] else if c = 9 then [92, 116]
      else if c = 10 then [92, 110] else if c = 12 then [92, 102]
      else if c = 13 then [92, 114]
      else if c < 32 then [92, 117, 48, 48, hex_digit (c div 16), hex_digit (c mod 16)]
      else [c])"

definition escape :: "pystr \<Rightarrow> pystr" where
  "escape s = concat (map escape_char s)"

definition quote :: "pystr \<Rightarrow> pystr" where
  "quote s = 34 # escape s @ [34]"

fun join :: "pystr \<Rightarrow> pystr list \<Rightarrow> pystr" where
  "join sep [] = []"
| "join sep [x] = x"
| "join sep (x # y # zs) = x @ sep @ join sep (y # zs)"

fun dumps :: "json \<Rightarrow> pystr" where
  "dumps JNull = lit ''null''"
| "dumps (JBool b) = (if b then lit ''true'' else lit ''false'')"
| "dumps (JInt i) = int_text i"
| "dumps (JFloat t) = t"
| "dumps (JStr s) = quote s"
| "dumps (JArr xs) = 91 # join [44] (map dumps xs) @ [93]"
| "dumps (JObj kvs) = 123 # join [44] (map (\<lambda>(k, v). quote k @ 58 # dumps v) kvs) @ [125]"

section \<open>Sizes of serialised values\<close>

definition escaped_size :: "nat \<Rightarrow> nat" where
  "escaped_size c =
     (if c = 34 \<or> c = 92 \<or> c = 8 \<or> c = 9 \<or> c = 10 \<or> c = 12 \<or> c = 13 then 2
      else if c < 32 then 6 else utf8_size c)"

lemma utf8_size_small [simp]: "c < 128 \<Longrightarrow> utf8_size c = 1"
  by (simp add: utf8_size_def)

lemma hex_digit_size [simp]: "d < 16 \<Longrightarrow> utf8_size (hex_digit d) = 1"
  by (simp add: hex_digit_def utf8_size_def)

lemma utf8_len_escape_char: "utf8_len (escape_char c) = escaped_size c"
proof -
  have "c div 16 < 16" if "c < 32" using that by simp
  then show ?thesis by (simp add: escape_char_def escaped_size_def)
qed

lemma escape_simps [simp]:
  "escape [] = []" "escape (c # s) = escape_char c @ escape s" "escape (s @ t) = escape s @ escape t"
  by (simp_all add: escape_def)

lemma utf8_len_escape: "utf8_len (escape s) = sum_list (map escaped_size s)"
  by (induction s) (simp_all add: utf8_len_escape_char)

lemma utf8_len_quote: "utf8_len (quote s) = utf8_len (escape s) + 2"
  by (simp add: quote_def)

lemma utf8_len_join:
  "utf8_len (join [44] xs) = sum_list (map utf8_len xs) + (length xs - 1)"
  by (induction "[44::nat]" xs rule: join.induct) simp_all

lemma nat_text_nonempty [simp]: "nat_text n \<noteq> []"
  by (subst nat_text.simps) simp

end
