(* ===== verification/Store_Model.thy ===== *)
theory Store_Model
  imports Table Json
begin

text \<open>
  The control database of the history and execution stores: the rows of
  \<open>database/control/004 .. 007\<close> and the execution rows' operations of
  \<open>chatbi_control/execution.py\<close>. A transaction is a function from the database to an error or a
  result with the new database; an error rolls the transaction back, so no database is returned.
  \<open>CURRENT_TIMESTAMP\<close> is the argument \<open>now\<close>; a fresh \<open>uuid4()\<close> is an argument too, and an
  \<open>INSERT\<close> whose key is taken fails as the primary key does.
\<close>

type_synonym uid = pystr
type_synonym time = int

datatype kind = Query | Analysis

datatype turn_status = TurnAccepted | TurnSucceeded | TurnFailed | TurnUnconfirmed

datatype exec_status =
  Accepted | Running | Stopping | Succeeded | Failed | Cancelled | TimedOut | Unconfirmed

datatype stop_reason =
  USER_CANCELLED | DEADLINE_EXCEEDED | AUTHORIZATION_REVOKED | AUTHORIZATION_UNAVAILABLE

datatype operation_kind =
  OpQuery | OpAnalysisResume | OpHistoryRequery | OpSavedResultRequery

datatype run_status = RunActive | RunCompleted | RunExpired

record public_error =
  pe_request :: pystr
  pe_code :: string
  pe_message :: pystr

type_synonym snapshot = "(pystr \<times> json) list"

record history_row =
  hs_owner :: int
  hs_kind :: kind
  hs_title :: pystr
  hs_question :: pystr
  hs_creation_op :: uid
  hs_creation_hash :: pystr
  hs_created_at :: time
  hs_updated_at :: time
  hs_context_revision :: int
  hs_record_revision :: int
  hs_next_ordinal :: int
  hs_last_success :: "uid option"
  hs_active :: "uid option"
  hs_generation :: int
  hs_run :: "uid option"
  hs_deleted :: "time option"

record turn_row =
  tn_history :: uid
  tn_ordinal :: int
  tn_op :: uid
  tn_hash :: pystr
  tn_question :: pystr
  tn_request :: pystr
  tn_status :: turn_status
  tn_epoch :: uid
  tn_generation :: int
  tn_completed_at :: "time option"
  tn_error :: "public_error option"
  tn_input :: "snapshot option"
  tn_snapshot :: "snapshot option"

record exec_row =
  ex_owner :: int
  ex_history :: uid
  ex_turn :: uid
  ex_op :: uid
  ex_hash :: pystr
  ex_mode :: kind
  ex_kind :: operation_kind
  ex_status :: exec_status
  ex_stop_reason :: "stop_reason option"
  ex_epoch :: uid
  ex_generation :: int
  ex_created_at :: time
  ex_started_at :: "time option"
  ex_deadline_at :: time
  ex_stop_requested_at :: "time option"
  ex_finished_at :: "time option"
  ex_error :: "public_error option"

record run_row =
  run_owner :: pystr
  run_question_hash :: pystr
  run_status_of :: run_status
  run_updated_at :: time
  run_expires_at :: time

record saved_row =
  sv_owner :: int
  sv_kind :: kind
  sv_title :: pystr
  sv_revision :: int
  sv_created_at :: time
  sv_updated_at :: time
  sv_source_history :: uid
  sv_source_turn :: uid
  sv_snapshot :: snapshot

record db =
  db_records :: "(uid, history_row) table"
  db_turns :: "(uid, turn_row) table"
  db_execs :: "(uid, exec_row) table"
  db_runs :: "(uid, run_row) table"
  db_saved :: "(uid, saved_row) table"
  db_epoch :: "uid option"

datatype store_error =
  HistoryError string | ExecutionStopped stop_reason | StopReasonValueError

type_synonym 'a tx = "store_error + 'a \<times> db"

abbreviation "unavailable \<equiv> HistoryError ''HISTORY_UNAVAILABLE''"
abbreviation "busy \<equiv> HistoryError ''HISTORY_BUSY''"
abbreviation "stale \<equiv> HistoryError ''HISTORY_STALE''"
abbreviation "storage_unavailable \<equiv> HistoryError ''HISTORY_STORAGE_UNAVAILABLE''"
abbreviation "save_unconfirmed \<equiv> HistoryError ''HISTORY_SAVE_UNCONFIRMED''"
abbreviation "operation_conflict \<equiv> HistoryError ''HISTORY_OPERATION_CONFLICT''"
abbreviation "invalid_request \<equiv> HistoryError ''INVALID_REQUEST''"
abbreviation "not_savable \<equiv> HistoryError ''HISTORY_RESULT_NOT_SAVABLE''"

section \<open>Execution rows\<close>

definition stopped_error :: "stop_reason option \<Rightarrow> store_error" where
  "stopped_error r = (case r of Some r' \<Rightarrow> ExecutionStopped r' | None \<Rightarrow> StopReasonValueError)"

definition exec_live :: "exec_status \<Rightarrow> bool" where
  "exec_live s \<longleftrightarrow> s \<in> {Accepted, Running, Stopping}"

definition find_execution :: "db \<Rightarrow> int \<Rightarrow> uid \<Rightarrow> pystr \<Rightarrow> store_error + (uid \<times> exec_row) option" where
  "find_execution d own op hash =
     (case sel_first (\<lambda>_ e. ex_owner e = own \<and> ex_op e = op) (db_execs d) of
        None \<Rightarrow> Inr None
      | Some (x, e) \<Rightarrow>
          if strip (ex_hash e) \<noteq> hash then Inl operation_conflict else Inr (Some (x, e)))"

definition exec_clash :: "exec_row \<Rightarrow> exec_row \<Rightarrow> bool" where
  "exec_clash e' e \<longleftrightarrow>
     (ex_owner e' = ex_owner e \<and> ex_op e' = ex_op e)
     \<or> (ex_history e' = ex_history e \<and> ex_turn e' = ex_turn e)"

definition insert_execution ::
  "time \<Rightarrow> db \<Rightarrow> uid \<Rightarrow> int \<Rightarrow> uid \<Rightarrow> uid \<Rightarrow> uid \<Rightarrow> pystr \<Rightarrow> kind \<Rightarrow> operation_kind \<Rightarrow> uid \<Rightarrow> int
     \<Rightarrow> int \<Rightarrow> exec_row tx" where
  "insert_execution now d x own h t op hash mode okind epoch gen deadline_seconds =
     (let e = \<lparr>ex_owner = own, ex_history = h, ex_turn = t, ex_op = op, ex_hash = hash,
               ex_mode = mode, ex_kind = okind, ex_status = Accepted, ex_stop_reason = None,
               ex_epoch = epoch, ex_generation = gen, ex_created_at = now, ex_started_at = None,
               ex_deadline_at = now + deadline_seconds * 1000000, ex_stop_requested_at = None,
               ex_finished_at = None, ex_error = None\<rparr>
      in case insert_row exec_clash x e (db_execs d) of
           None \<Rightarrow> Inl storage_unavailable
         | Some t' \<Rightarrow> Inr (e, d\<lparr>db_execs := t'\<rparr>))"

definition running_match :: "db \<Rightarrow> int \<Rightarrow> uid \<Rightarrow> uid \<Rightarrow> exec_row \<Rightarrow> bool" where
  "running_match d own x x' e \<longleftrightarrow>
     x' = x \<and> ex_owner e = own \<and> ex_status e = Accepted
     \<and> (case map_of (db_records d) (ex_history e) of
          None \<Rightarrow> False
        | Some h \<Rightarrow> hs_owner h = ex_owner e \<and> hs_active h = Some (ex_turn e)
            \<and> hs_generation h = ex_generation e)
     \<and> (case map_of (db_turns d) (ex_turn e) of
          None \<Rightarrow> False
        | Some t \<Rightarrow> tn_history t = ex_history e \<and> tn_status t = TurnAccepted
            \<and> tn_epoch t = ex_epoch e)
     \<and> db_epoch d = Some (ex_epoch e)"

definition mark_running :: "time \<Rightarrow> db \<Rightarrow> int \<Rightarrow> uid \<Rightarrow> unit tx" where
  "mark_running now d own x =
     (if count_where (running_match d own x) (db_execs d) = 1
      then Inr ((), d\<lparr>db_execs := upd_where (running_match d own x)
             (\<lambda>e. e\<lparr>ex_status := Running,
                     ex_started_at := (case ex_started_at e of None \<Rightarrow> Some now | s \<Rightarrow> s)\<rparr>)
             (db_execs d)\<rparr>)
      else case sel_first (\<lambda>x' e. x' = x \<and> ex_owner e = own) (db_execs d) of
             None \<Rightarrow> Inl unavailable
           | Some (_, e) \<Rightarrow>
               (case ex_status e of
                  Stopping \<Rightarrow> Inl (stopped_error (ex_stop_reason e))
                | Running \<Rightarrow> Inr ((), d)
                | _ \<Rightarrow> Inl save_unconfirmed))"

definition locked_execution :: "db \<Rightarrow> int \<Rightarrow> uid \<Rightarrow> store_error + exec_row" where
  "locked_execution d own x =
     (case sel_first (\<lambda>x' e. x' = x \<and> ex_owner e = own) (db_execs d) of
        None \<Rightarrow> Inl unavailable | Some (_, e) \<Rightarrow> Inr e)"

definition request_stop_row :: "time \<Rightarrow> db \<Rightarrow> uid \<Rightarrow> exec_row \<Rightarrow> stop_reason \<Rightarrow> exec_row tx" where
  "request_stop_row now d x row r =
     (if ex_status row \<notin> {Accepted, Running} then Inr (row, d)
      else
        let P = (\<lambda>x' e. x' = x \<and> ex_status e \<in> {Accepted, Running});
            f = (\<lambda>e. e\<lparr>ex_status := Stopping, ex_stop_reason := Some r,
                        ex_stop_requested_at := Some now\<rparr>)
        in case sel_first P (db_execs d) of
             None \<Rightarrow> Inl storage_unavailable
           | Some (_, e) \<Rightarrow> Inr (f e, d\<lparr>db_execs := upd_where P f (db_execs d)\<rparr>))"

definition finish_row ::
  "(exec_status \<Rightarrow> bool) \<Rightarrow> time \<Rightarrow> db \<Rightarrow> int \<Rightarrow> uid \<Rightarrow> exec_status \<Rightarrow> public_error option \<Rightarrow> unit tx" where
  "finish_row from now d own x s err =
     (let P = (\<lambda>x' e. x' = x \<and> ex_owner e = own \<and> from (ex_status e)) in
      if count_where P (db_execs d) \<noteq> 1 then Inl save_unconfirmed
      else Inr ((), d\<lparr>db_execs := upd_where P
             (\<lambda>e. e\<lparr>ex_status := s, ex_error := err, ex_finished_at := Some now\<rparr>)
             (db_execs d)\<rparr>))"

definition finish_stop_row ::
  "time \<Rightarrow> db \<Rightarrow> int \<Rightarrow> uid \<Rightarrow> exec_status \<Rightarrow> public_error \<Rightarrow> unit tx" where
  "finish_stop_row now d own x s err = finish_row (\<lambda>st. st = Stopping) now d own x s (Some err)"

definition finish_exec_row ::
  "time \<Rightarrow> db \<Rightarrow> int \<Rightarrow> uid \<Rightarrow> exec_status \<Rightarrow> public_error option \<Rightarrow> unit tx" where
  "finish_exec_row = finish_row (\<lambda>st. st \<in> {Accepted, Running})"

definition get_execution :: "db \<Rightarrow> int \<Rightarrow> uid \<Rightarrow> store_error + exec_row" where
  "get_execution = locked_execution"

definition execution_by_operation ::
  "db \<Rightarrow> int \<Rightarrow> uid \<Rightarrow> pystr option \<Rightarrow> store_error + (uid \<times> exec_row) option" where
  "execution_by_operation d own op hash =
     (case sel_first (\<lambda>_ e. ex_owner e = own \<and> ex_op e = op) (db_execs d) of
        None \<Rightarrow> Inr None
      | Some (x, e) \<Rightarrow>
          (case hash of
             Some h \<Rightarrow> if strip (ex_hash e) \<noteq> h then Inl operation_conflict else Inr (Some (x, e))
           | None \<Rightarrow> Inr (Some (x, e))))"

end
