(* ===== verification/History_Store.thy ===== *)
theory History_Store
  imports Store_Model
begin

text \<open>
  The transactions of \<open>chatbi_control/history.py\<close> on the control database: creating a history,
  accepting an attempt (a turn), the background executions around it, finishing, stopping,
  renaming, deleting and copying; and the start-up recovery and \<open>_reconcile\<close> of
  \<open>query_api/history_runtime.py\<close>. \<open>locked\<close> says whether another transaction holds the row a
  \<open>FOR UPDATE NOWAIT\<close> wants (PostgreSQL answers 55P03, \<open>_database_errors\<close> makes it HISTORY_BUSY).
  \<open>sha\<close> is the digest of an operation's JSON; \<open>codec\<close> stands for the two checks of the history
  codec on a stored snapshot and returns its query state.
\<close>

section \<open>Operation digests and results\<close>

datatype op_value =
    CreateOp kind pystr
  | QueryOp pystr int
  | ResumeOp int
  | RequeryOp pystr uid "uid option"

record token =
  tk_history :: uid
  tk_turn :: uid
  tk_epoch :: uid
  tk_generation :: int

record accepted =
  acc_token :: "token option"
  acc_turn :: "uid \<times> turn_row"
  acc_base :: "json option"
  acc_source :: "snapshot option"

section \<open>Reading a history\<close>

definition owned :: "db \<Rightarrow> int \<Rightarrow> uid \<Rightarrow> store_error + history_row" where
  "owned d own h =
     (case map_of (db_records d) h of
        Some r \<Rightarrow> if hs_owner r = own \<and> hs_deleted r = None then Inr r else Inl unavailable
      | None \<Rightarrow> Inl unavailable)"

definition owned_nowait :: "bool \<Rightarrow> db \<Rightarrow> int \<Rightarrow> uid \<Rightarrow> store_error + history_row" where
  "owned_nowait locked d own h = bindR (owned d own h) (\<lambda>r. if locked then Inl busy else Inr r)"

definition owned_saved :: "bool \<Rightarrow> db \<Rightarrow> int \<Rightarrow> uid \<Rightarrow> store_error + saved_row" where
  "owned_saved locked d own s =
     (case map_of (db_saved d) s of
        Some r \<Rightarrow> if sv_owner r = own then (if locked then Inl busy else Inr r) else Inl unavailable
      | None \<Rightarrow> Inl unavailable)"

definition create_history ::
  "(op_value \<Rightarrow> pystr) \<Rightarrow> time \<Rightarrow> db \<Rightarrow> int \<Rightarrow> kind \<Rightarrow> pystr \<Rightarrow> uid \<Rightarrow> uid \<Rightarrow> uid
     \<Rightarrow> (uid \<times> history_row) tx" where
  "create_history sha now d own knd question op new_id new_run =
     (let digest = sha (CreateOp knd question);
          row = \<lparr>hs_owner = own, hs_kind = knd, hs_title = take 120 question,
                 hs_question = question, hs_creation_op = op, hs_creation_hash = digest,
                 hs_created_at = now, hs_updated_at = now, hs_context_revision = 0,
                 hs_record_revision = 0, hs_next_ordinal = 1, hs_last_success = None,
                 hs_active = None, hs_generation = 0,
                 hs_run = (if knd = Analysis then Some new_run else None), hs_deleted = None\<rparr>;
          same = (\<lambda>_ r. hs_owner r = own \<and> hs_creation_op r = op);
          inserted =
            (case sel_first same (db_records d) of
               Some _ \<Rightarrow> Inr d
             | None \<Rightarrow>
                 (case insert_row (\<lambda>r' r. hs_run r' = hs_run r \<and> hs_run r \<noteq> None) new_id row
                         (db_records d) of
                    None \<Rightarrow> Inl storage_unavailable
                  | Some t' \<Rightarrow> Inr (d\<lparr>db_records := t'\<rparr>)))
      in bindR inserted (\<lambda>d1.
           case sel_first same (db_records d1) of
             None \<Rightarrow> Inl storage_unavailable
           | Some (h, r) \<Rightarrow>
               if hs_deleted r \<noteq> None then Inl unavailable
               else if hs_creation_hash r \<noteq> digest then Inl operation_conflict
               else Inr ((h, r), d1)))"

section \<open>Accepting an attempt\<close>

definition base_state ::
  "(snapshot \<Rightarrow> string + unit) \<Rightarrow> db \<Rightarrow> uid \<Rightarrow> history_row \<Rightarrow> store_error + json option" where
  "base_state codec d h r =
     (case hs_last_success r of
        None \<Rightarrow> Inr None
      | Some t \<Rightarrow>
          (case map_of (db_turns d) t of
             Some tr \<Rightarrow>
               (if tn_history tr = h \<and> tn_status tr = TurnSucceeded then
                  (case tn_snapshot tr of
                     Some snap \<Rightarrow>
                       (if hs_kind r = Query then
                          (case codec snap of
                             Inl e \<Rightarrow> Inl (HistoryError e)
                           | Inr _ \<Rightarrow> Inr (obj_get snap (lit ''query_state'')))
                        else Inr None)
                   | None \<Rightarrow> Inl storage_unavailable)
                else Inl storage_unavailable)
           | None \<Rightarrow> Inl storage_unavailable))"

definition turn_clash :: "turn_row \<Rightarrow> turn_row \<Rightarrow> bool" where
  "turn_clash t' t \<longleftrightarrow> tn_history t' = tn_history t
     \<and> (tn_ordinal t' = tn_ordinal t \<or> tn_op t' = tn_op t)"

definition begin_turn ::
  "(snapshot \<Rightarrow> string + unit) \<Rightarrow> (kind \<Rightarrow> store_error option) \<Rightarrow> bool \<Rightarrow> time \<Rightarrow> db \<Rightarrow> int \<Rightarrow> uid
     \<Rightarrow> pystr \<Rightarrow> uid \<Rightarrow> int \<Rightarrow> pystr \<Rightarrow> uid \<Rightarrow> pystr \<Rightarrow> uid \<Rightarrow> accepted tx" where
  "begin_turn codec before_accept locked now d own h question op revision request epoch digest new_id =
     bindR (owned_nowait locked d own h) (\<lambda>r.
     case sel_first (\<lambda>_ t. tn_history t = h \<and> tn_op t = op) (db_turns d) of
       Some (tid, t) \<Rightarrow>
         if tn_hash t \<noteq> digest then Inl operation_conflict
         else if tn_status t = TurnAccepted then Inl busy
         else if tn_status t = TurnUnconfirmed then Inl save_unconfirmed
         else Inr (\<lparr>acc_token = None, acc_turn = (tid, t), acc_base = None, acc_source = None\<rparr>, d)
     | None \<Rightarrow>
         if hs_active r \<noteq> None then Inl busy
         else if hs_context_revision r \<noteq> revision then Inl stale
         else if db_epoch d \<noteq> Some epoch then Inl storage_unavailable
         else case before_accept (hs_kind r) of
           Some e \<Rightarrow> Inl e
         | None \<Rightarrow>
             let gen = hs_generation r + 1;
                 t = \<lparr>tn_history = h, tn_ordinal = hs_next_ordinal r, tn_op = op, tn_hash = digest,
                      tn_question = question, tn_request = request, tn_status = TurnAccepted,
                      tn_epoch = epoch, tn_generation = gen, tn_completed_at = None,
                      tn_error = None, tn_input = None, tn_snapshot = None\<rparr>
             in case insert_row turn_clash new_id t (db_turns d) of
                  None \<Rightarrow> Inl storage_unavailable
                | Some turns \<Rightarrow>
                    let d1 = d\<lparr>db_turns := turns,
                               db_records := upd_where (\<lambda>h' _. h' = h)
                                 (\<lambda>x. x\<lparr>hs_active := Some new_id, hs_generation := gen,
                                        hs_next_ordinal := hs_next_ordinal x + 1,
                                        hs_record_revision := hs_record_revision x + 1,
                                        hs_updated_at := now\<rparr>) (db_records d)\<rparr>
                    in bindR (base_state codec d1 h r) (\<lambda>b.
                         Inr (\<lparr>acc_token = Some \<lparr>tk_history = h, tk_turn = new_id,
                                   tk_epoch = epoch, tk_generation = gen\<rparr>,
                               acc_turn = (new_id, t), acc_base = b, acc_source = None\<rparr>, d1)))"

definition begin_attempt ::
  "(op_value \<Rightarrow> pystr) \<Rightarrow> (snapshot \<Rightarrow> string + unit) \<Rightarrow> (kind \<Rightarrow> store_error option) \<Rightarrow> bool \<Rightarrow> time
     \<Rightarrow> db \<Rightarrow> int \<Rightarrow> uid \<Rightarrow> pystr \<Rightarrow> uid \<Rightarrow> int \<Rightarrow> pystr \<Rightarrow> uid \<Rightarrow> uid \<Rightarrow> accepted tx" where
  "begin_attempt sha codec before_accept locked now d own h question op revision request epoch new_id =
     begin_turn codec before_accept locked now d own h question op revision request epoch
       (sha (QueryOp question revision)) new_id"

definition begin_analysis_attempt ::
  "(op_value \<Rightarrow> pystr) \<Rightarrow> (snapshot \<Rightarrow> string + unit) \<Rightarrow> (kind \<Rightarrow> store_error option) \<Rightarrow> bool \<Rightarrow> time
     \<Rightarrow> db \<Rightarrow> int \<Rightarrow> uid \<Rightarrow> uid \<Rightarrow> int \<Rightarrow> pystr \<Rightarrow> uid \<Rightarrow> uid \<Rightarrow> accepted tx" where
  "begin_analysis_attempt sha codec before_accept locked now d own h op revision request epoch new_id =
     bindR (owned_nowait locked d own h) (\<lambda>r.
       if sel_first (\<lambda>_ t. tn_history t = h \<and> tn_op t = op) (db_turns d) = None
          \<and> hs_record_revision r \<noteq> revision then Inl stale
       else begin_turn codec before_accept locked now d own h (hs_question r) op
              (hs_context_revision r) request epoch (sha (ResumeOp revision)) new_id)"

datatype acceptance = ExecutionAcceptance "uid \<times> exec_row" "accepted option" bool

definition begin_execution_attempt ::
  "(op_value \<Rightarrow> pystr) \<Rightarrow> (snapshot \<Rightarrow> string + unit) \<Rightarrow> bool \<Rightarrow> time \<Rightarrow> db \<Rightarrow> int \<Rightarrow> uid \<Rightarrow> pystr \<Rightarrow> uid
     \<Rightarrow> pystr \<Rightarrow> int option \<Rightarrow> pystr \<Rightarrow> uid \<Rightarrow> kind \<Rightarrow> operation_kind \<Rightarrow> int \<Rightarrow> int option \<Rightarrow> uid \<Rightarrow> uid
     \<Rightarrow> acceptance tx" where
  "begin_execution_attempt sha codec locked now d own h question op request_hash revision request
       epoch mode okind deadline_seconds expected_record_revision new_turn new_exec =
     bindR (find_execution d own op request_hash) (\<lambda>existing.
     case existing of
       Some xe \<Rightarrow> Inr (ExecutionAcceptance xe None False, d)
     | None \<Rightarrow>
         bindR (owned_nowait locked d own h) (\<lambda>r.
         if hs_kind r \<noteq> mode then Inl invalid_request
         else
           bindR
             (if mode = Analysis then
                (case expected_record_revision of
                   None \<Rightarrow> Inl invalid_request
                 | Some rv \<Rightarrow>
                     if hs_record_revision r \<noteq> rv then Inl stale
                     else begin_turn codec (\<lambda>_. None) locked now d own h (hs_question r) op
                            (hs_context_revision r) request epoch (sha (ResumeOp rv)) new_turn)
              else
                (case revision of
                   None \<Rightarrow> Inl invalid_request
                 | Some rv \<Rightarrow>
                     begin_turn codec (\<lambda>_. None) locked now d own h question op rv request epoch
                       (sha (QueryOp question rv)) new_turn))
             (\<lambda>(acc, d1).
                case acc_token acc of
                  None \<Rightarrow> Inl operation_conflict
                | Some tok \<Rightarrow>
                    bindR (insert_execution now d1 new_exec own h (fst (acc_turn acc)) op
                             request_hash mode okind epoch (tk_generation tok) deadline_seconds)
                      (\<lambda>(e, d2). Inr (ExecutionAcceptance (new_exec, e) (Some acc) True, d2)))))"

section \<open>Finishing an attempt\<close>

definition token_current :: "db \<Rightarrow> history_row \<Rightarrow> token \<Rightarrow> bool" where
  "token_current d r tok \<longleftrightarrow> hs_active r = Some (tk_turn tok)
     \<and> hs_generation r = tk_generation tok \<and> db_epoch d = Some (tk_epoch tok)"

definition turn_match :: "token \<Rightarrow> uid \<Rightarrow> turn_row \<Rightarrow> bool" where
  "turn_match tok k t \<longleftrightarrow> k = tk_turn tok \<and> tn_history t = tk_history tok
     \<and> tn_status t = TurnAccepted \<and> tn_epoch t = tk_epoch tok
     \<and> tn_generation t = tk_generation tok"

definition finish_attempt ::
  "time \<Rightarrow> db \<Rightarrow> int \<Rightarrow> token \<Rightarrow> snapshot option \<Rightarrow> public_error option \<Rightarrow> uid option
     \<Rightarrow> turn_row tx" where
  "finish_attempt now d own tok snap err exec_id =
     bindR (owned d own (tk_history tok)) (\<lambda>r.
     bindR (case exec_id of
              None \<Rightarrow> Inr ()
            | Some x \<Rightarrow>
                bindR (locked_execution d own x) (\<lambda>e.
                  if ex_status e = Stopping then Inl (stopped_error (ex_stop_reason e))
                  else if ex_status e \<notin> {Accepted, Running} then Inl save_unconfirmed
                  else Inr ())) (\<lambda>_.
     if \<not> token_current d r tok then Inl save_unconfirmed
     else
       let status = (if snap \<noteq> None then TurnSucceeded else TurnFailed);
           f = (\<lambda>t. t\<lparr>tn_status := status, tn_snapshot := snap, tn_error := err,
                       tn_completed_at := Some now\<rparr>)
       in case sel_first (turn_match tok) (db_turns d) of
            None \<Rightarrow> Inl save_unconfirmed
          | Some (_, t) \<Rightarrow>
              let d1 = d\<lparr>db_turns := upd_where (turn_match tok) f (db_turns d),
                         db_records := upd_where (\<lambda>h' _. h' = tk_history tok)
                           (\<lambda>x. x\<lparr>hs_active := None,
                                  hs_record_revision := hs_record_revision x + 1,
                                  hs_context_revision := hs_context_revision x
                                    + (if snap \<noteq> None then 1 else 0),
                                  hs_last_success := (if snap \<noteq> None then Some (tk_turn tok)
                                                      else hs_last_success x),
                                  hs_updated_at := now\<rparr>) (db_records d)\<rparr>
              in (case exec_id of
                    None \<Rightarrow> Inr (f t, d1)
                  | Some x \<Rightarrow>
                      bindR (finish_exec_row now d1 own x
                               (if snap \<noteq> None then Succeeded else Failed) err)
                        (\<lambda>(_, d2). Inr (f t, d2)))))"

definition finish_execution_attempt ::
  "time \<Rightarrow> db \<Rightarrow> int \<Rightarrow> token \<Rightarrow> snapshot option \<Rightarrow> public_error option \<Rightarrow> uid \<Rightarrow> turn_row tx" where
  "finish_execution_attempt now d own tok snap err x = finish_attempt now d own tok snap err (Some x)"

section \<open>Stopping an execution\<close>

definition expire_cancelled_run ::
  "(pystr \<Rightarrow> pystr) \<Rightarrow> time \<Rightarrow> db \<Rightarrow> history_row \<Rightarrow> pystr option \<Rightarrow> store_error + db" where
  "expire_cancelled_run qsha now d r subject =
     (case (hs_run r, subject) of
        (Some run, Some s) \<Rightarrow>
          if s = [] then Inl save_unconfirmed
          else
            let qh = qsha (strip (hs_question r)) in
            (case map_of (db_runs d) run of
               None \<Rightarrow>
                 Inr (d\<lparr>db_runs := db_runs d @
                        [(run, \<lparr>run_owner = s, run_question_hash = qh, run_status_of = RunExpired,
                                run_updated_at = now,
                                run_expires_at = hs_created_at r + 24 * 3600 * 1000000\<rparr>)]\<rparr>)
             | Some row \<Rightarrow>
                 if run_owner row \<noteq> s \<or> run_question_hash row \<noteq> qh then Inl save_unconfirmed
                 else Inr (d\<lparr>db_runs := upd_where (\<lambda>k _. k = run)
                        (\<lambda>x. x\<lparr>run_status_of := RunExpired, run_updated_at := now\<rparr>)
                        (db_runs d)\<rparr>))
      | _ \<Rightarrow> Inl save_unconfirmed)"

definition request_execution_stop ::
  "(pystr \<Rightarrow> pystr) \<Rightarrow> time \<Rightarrow> db \<Rightarrow> int \<Rightarrow> uid \<Rightarrow> stop_reason \<Rightarrow> pystr option \<Rightarrow> exec_row tx" where
  "request_execution_stop qsha now d own x reason subject =
     (case sel_first (\<lambda>x' e. x' = x \<and> ex_owner e = own) (db_execs d) of
        None \<Rightarrow> Inl unavailable
      | Some (_, ident) \<Rightarrow>
          bindR (owned d own (ex_history ident)) (\<lambda>r.
          bindR (locked_execution d own x) (\<lambda>e.
          if ex_status e = Stopping then Inr (e, d)
          else if ex_status e \<notin> {Accepted, Running} then Inr (e, d)
          else if hs_active r \<noteq> Some (ex_turn e) \<or> hs_generation r \<noteq> ex_generation e
                  \<or> db_epoch d \<noteq> Some (ex_epoch e) then Inl save_unconfirmed
          else bindR (if reason = USER_CANCELLED \<and> ex_mode e = Analysis
                      then expire_cancelled_run qsha now d r subject else Inr d)
                 (\<lambda>d1. request_stop_row now d1 x e reason))))"

definition finish_execution_stopped ::
  "time \<Rightarrow> db \<Rightarrow> int \<Rightarrow> token \<Rightarrow> uid \<Rightarrow> exec_status \<Rightarrow> public_error \<Rightarrow> turn_row tx" where
  "finish_execution_stopped now d own tok x status err =
     bindR (owned d own (tk_history tok)) (\<lambda>r.
     if \<not> token_current d r tok then Inl save_unconfirmed
     else
     bindR (locked_execution d own x) (\<lambda>e.
     if ex_history e \<noteq> tk_history tok \<or> ex_turn e \<noteq> tk_turn tok
        \<or> ex_generation e \<noteq> tk_generation tok \<or> ex_status e \<noteq> Stopping
     then Inl save_unconfirmed
     else
       let f = (\<lambda>t. t\<lparr>tn_status := TurnFailed, tn_snapshot := None, tn_error := Some err,
                       tn_completed_at := Some now\<rparr>);
           P = (\<lambda>k y. k = tk_history tok \<and> hs_active y = Some (tk_turn tok)
                  \<and> hs_generation y = tk_generation tok)
       in case sel_first (turn_match tok) (db_turns d) of
            None \<Rightarrow> Inl save_unconfirmed
          | Some (_, t) \<Rightarrow>
              if count_where P (db_records d) \<noteq> 1 then Inl save_unconfirmed
              else
                let d1 = d\<lparr>db_turns := upd_where (turn_match tok) f (db_turns d),
                           db_records := upd_where P
                             (\<lambda>y. y\<lparr>hs_active := None,
                                    hs_record_revision := hs_record_revision y + 1,
                                    hs_updated_at := now\<rparr>) (db_records d)\<rparr>
                in bindR (finish_stop_row now d1 own x status err) (\<lambda>(_, d2). Inr (f t, d2))))"

section \<open>Start-up recovery and reconciliation\<close>

definition unconfirm_turn :: "time \<Rightarrow> turn_row \<Rightarrow> turn_row" where
  "unconfirm_turn now t = t\<lparr>tn_status := TurnUnconfirmed, tn_completed_at := Some now\<rparr>"

definition unconfirm_exec :: "time \<Rightarrow> exec_row \<Rightarrow> exec_row" where
  "unconfirm_exec now e = e\<lparr>ex_status := Unconfirmed, ex_finished_at := Some now\<rparr>"

definition clear_active :: "time \<Rightarrow> history_row \<Rightarrow> history_row" where
  "clear_active now r = r\<lparr>hs_active := None, hs_generation := hs_generation r + 1,
     hs_record_revision := hs_record_revision r + 1, hs_updated_at := now\<rparr>"

definition runtime_start :: "time \<Rightarrow> uid \<Rightarrow> db \<Rightarrow> db" where
  "runtime_start now epoch d =
     d\<lparr>db_epoch := Some epoch,
       db_turns := upd_where (\<lambda>_ t. tn_status t = TurnAccepted) (unconfirm_turn now) (db_turns d),
       db_execs := upd_where (\<lambda>_ e. exec_live (ex_status e)) (unconfirm_exec now) (db_execs d),
       db_records := upd_where (\<lambda>_ r. hs_active r \<noteq> None) (clear_active now) (db_records d)\<rparr>"

definition reconcile :: "bool \<Rightarrow> bool \<Rightarrow> time \<Rightarrow> uid \<Rightarrow> db \<Rightarrow> uid \<Rightarrow> store_error + db" where
  "reconcile running_here locked now epoch d h =
     (if running_here then Inr d
      else case map_of (db_records d) h of
        None \<Rightarrow> Inr d
      | Some r \<Rightarrow>
          if locked then Inl busy
          else (case hs_active r of
            None \<Rightarrow> Inr d
          | Some t \<Rightarrow>
              let P = (\<lambda>k y. k = t \<and> tn_status y = TurnAccepted \<and> tn_epoch y = epoch) in
              if count_where P (db_turns d) \<noteq> 1 then Inl storage_unavailable
              else Inr (d\<lparr>db_turns := upd_where P (unconfirm_turn now) (db_turns d),
                     db_execs := upd_where (\<lambda>_ e. ex_history e = h \<and> ex_turn e = t
                         \<and> ex_epoch e = epoch \<and> exec_live (ex_status e))
                       (unconfirm_exec now) (db_execs d),
                     db_records := upd_where (\<lambda>k _. k = h) (clear_active now) (db_records d)\<rparr>)))"

section \<open>Renaming, deleting, copying\<close>

definition rename_history ::
  "bool \<Rightarrow> time \<Rightarrow> db \<Rightarrow> int \<Rightarrow> uid \<Rightarrow> pystr \<Rightarrow> int \<Rightarrow> history_row tx" where
  "rename_history locked now d own h title revision =
     bindR (owned_nowait locked d own h) (\<lambda>r.
       if hs_record_revision r \<noteq> revision then Inl stale
       else let f = (\<lambda>x. x\<lparr>hs_title := title, hs_record_revision := hs_record_revision x + 1,
                           hs_updated_at := now\<rparr>)
            in Inr (f r, d\<lparr>db_records := upd_where (\<lambda>k _. k = h) f (db_records d)\<rparr>))"

definition delete_history ::
  "(pystr \<Rightarrow> pystr) \<Rightarrow> bool \<Rightarrow> time \<Rightarrow> db \<Rightarrow> int \<Rightarrow> uid \<Rightarrow> int \<Rightarrow> pystr \<Rightarrow> unit tx" where
  "delete_history qsha locked now d own h revision subject =
     bindR (owned_nowait locked d own h) (\<lambda>r.
       if hs_active r \<noteq> None then Inl busy
       else if hs_record_revision r \<noteq> revision then Inl stale
       else
         let runs =
               (case hs_run r of
                  Some run \<Rightarrow>
                    if hs_kind r = Analysis then
                      (case map_of (db_runs d) run of
                         None \<Rightarrow> db_runs d @
                           [(run, \<lparr>run_owner = subject, run_question_hash = qsha (hs_question r),
                                   run_status_of = RunExpired, run_updated_at = now,
                                   run_expires_at = now\<rparr>)]
                       | Some _ \<Rightarrow> upd_where (\<lambda>k _. k = run)
                           (\<lambda>x. x\<lparr>run_status_of := RunExpired, run_expires_at := now,
                                  run_updated_at := now\<rparr>) (db_runs d))
                    else db_runs d
                | None \<Rightarrow> db_runs d)
         in Inr ((),
              d\<lparr>db_runs := runs,
                db_records := upd_where (\<lambda>k _. k = h)
                  (\<lambda>x. x\<lparr>hs_title := [], hs_question := [], hs_last_success := None,
                         hs_active := None, hs_deleted := Some now,
                         hs_generation := hs_generation x + 1,
                         hs_record_revision := hs_record_revision x + 1,
                         hs_updated_at := now\<rparr>) (db_records d),
                db_turns := del_where (\<lambda>_ t. tn_history t = h) (db_turns d),
                db_execs := del_where (\<lambda>_ e. ex_history e = h
                    \<and> (\<exists>t \<in> fst ` set (filter (\<lambda>(_, t). tn_history t = h) (db_turns d)).
                         ex_turn e = t)) (db_execs d)\<rparr>))"

definition copy_result ::
  "(snapshot \<Rightarrow> string + unit) \<Rightarrow> bool \<Rightarrow> time \<Rightarrow> db \<Rightarrow> int \<Rightarrow> uid \<Rightarrow> uid \<Rightarrow> pystr \<Rightarrow> uid
     \<Rightarrow> saved_row tx" where
  "copy_result codec locked now d own h turn title new_id =
     bindR (owned_nowait locked d own h) (\<lambda>r.
     case sel_first (\<lambda>k t. k = turn \<and> tn_history t = h \<and> tn_status t = TurnSucceeded) (db_turns d) of
       Some (_, t) \<Rightarrow>
         (case tn_snapshot t of
            Some snap \<Rightarrow>
              (case codec snap of
                 Inl e \<Rightarrow> Inl (HistoryError e)
               | Inr _ \<Rightarrow>
                   let s = \<lparr>sv_owner = own, sv_kind = hs_kind r, sv_title = title, sv_revision = 0,
                            sv_created_at = now, sv_updated_at = now, sv_source_history = h,
                            sv_source_turn = turn, sv_snapshot = snap\<rparr>
                   in (case insert_row (\<lambda>_ _. False) new_id s (db_saved d) of
                         None \<Rightarrow> Inl storage_unavailable
                       | Some t' \<Rightarrow> Inr (s, d\<lparr>db_saved := t'\<rparr>)))
          | None \<Rightarrow> Inl not_savable)
     | None \<Rightarrow> Inl not_savable)"

definition saved_result :: "db \<Rightarrow> int \<Rightarrow> uid \<Rightarrow> store_error + saved_row" where
  "saved_result d own s = owned_saved False d own s"

definition rename_saved_result ::
  "bool \<Rightarrow> time \<Rightarrow> db \<Rightarrow> int \<Rightarrow> uid \<Rightarrow> pystr \<Rightarrow> int \<Rightarrow> saved_row tx" where
  "rename_saved_result locked now d own s title revision =
     bindR (owned_saved locked d own s) (\<lambda>r.
       if sv_revision r \<noteq> revision then Inl stale
       else let f = (\<lambda>x. x\<lparr>sv_title := title, sv_revision := sv_revision x + 1,
                           sv_updated_at := now\<rparr>)
            in Inr (f r, d\<lparr>db_saved := upd_where (\<lambda>k _. k = s) f (db_saved d)\<rparr>))"

definition delete_saved_result :: "bool \<Rightarrow> db \<Rightarrow> int \<Rightarrow> uid \<Rightarrow> int \<Rightarrow> unit tx" where
  "delete_saved_result locked d own s revision =
     bindR (owned_saved locked d own s) (\<lambda>r.
       if sv_revision r \<noteq> revision then Inl stale
       else Inr ((), d\<lparr>db_saved := del_where (\<lambda>k _. k = s) (db_saved d)\<rparr>))"

section \<open>Headers and turns\<close>

definition retryable_code :: "string \<Rightarrow> bool" where
  "retryable_code c \<longleftrightarrow> c \<in> {''LLM_ERROR'', ''CONTEXT_ERROR'', ''DATABASE_ERROR'', ''QUERY_TIMEOUT'',
     ''AUTHENTICATION_UNAVAILABLE'', ''HISTORY_BUSY''}"

fun latest_turn :: "(uid, turn_row) table \<Rightarrow> uid \<Rightarrow> turn_row option" where
  "latest_turn [] h = None"
| "latest_turn ((k, t) # ts) h =
     (if tn_history t \<noteq> h then latest_turn ts h
      else case latest_turn ts h of
             None \<Rightarrow> Some t
           | Some t' \<Rightarrow> if tn_ordinal t' > tn_ordinal t then Some t' else Some t)"

definition history_header :: "time \<Rightarrow> db \<Rightarrow> int \<Rightarrow> uid \<Rightarrow> store_error + (history_row \<times> bool)" where
  "history_header now d own h =
     bindR (owned d own h) (\<lambda>r.
       if hs_kind r \<noteq> Analysis then Inr (r, True)
       else
         let run = (case hs_run r of None \<Rightarrow> None | Some k \<Rightarrow> map_of (db_runs d) k);
             retryable =
               (case latest_turn (db_turns d) h of
                  None \<Rightarrow> True
                | Some t \<Rightarrow> tn_status t \<noteq> TurnFailed
                    \<or> (case tn_error t of None \<Rightarrow> False | Some e \<Rightarrow> retryable_code (pe_code e)))
         in Inr (r, retryable \<and>
              (case run of None \<Rightarrow> True
               | Some x \<Rightarrow> run_status_of x \<noteq> RunExpired \<and> run_expires_at x > now)))"

definition read_turn :: "db \<Rightarrow> int \<Rightarrow> uid \<Rightarrow> uid \<Rightarrow> store_error + (turn_row \<times> uid option)" where
  "read_turn d own h t =
     bindR (owned d own h) (\<lambda>_.
       case sel_first (\<lambda>k y. k = t \<and> tn_history y = h) (db_turns d) of
         None \<Rightarrow> Inl unavailable
       | Some (_, y) \<Rightarrow>
           Inr (y, map_option fst (sel_first (\<lambda>_ e. ex_history e = h \<and> ex_turn e = t) (db_execs d))))"

definition read_turns ::
  "db \<Rightarrow> int \<Rightarrow> uid \<Rightarrow> nat \<Rightarrow> int \<Rightarrow> store_error + ((uid \<times> turn_row) list \<times> int option)" where
  "read_turns d own h limit cursor =
     bindR (owned d own h) (\<lambda>_.
       let rows = take (limit + 1) (sort_key (\<lambda>(k, t). tn_ordinal t)
                    (filter (\<lambda>(k, t). tn_history t = h \<and> tn_ordinal t > cursor) (db_turns d)))
       in Inr (take limit rows,
               if length rows > limit then Some (tn_ordinal (snd (rows ! (limit - 1)))) else None))"

end
