(* ===== verification/Store_Invariant.thy ===== *)
theory Store_Invariant
  imports History_Store
begin

text \<open>
  The consistency of histories, turns and executions, that every transaction of
  \<open>History_Store\<close> keeps it, and the step relation \<open>store_step\<close> of all of them interleaved.
  The invariant is stated on the three tables as maps; a handful of lemmas say what a new turn,
  an ended turn, a changed execution row and a changed history row need to keep it, and each
  transaction is an instance of one of them.
\<close>

definition exec_keys :: "(uid \<rightharpoonup> exec_row) \<Rightarrow> bool" where
  "exec_keys E \<longleftrightarrow> (\<forall>x y e e'. E x = Some e \<and> E y = Some e' \<and> ex_owner e = ex_owner e'
     \<and> ex_op e = ex_op e' \<longrightarrow> x = y)"

definition turn_keys :: "(uid \<rightharpoonup> turn_row) \<Rightarrow> bool" where
  "turn_keys T \<longleftrightarrow> (\<forall>t u a b. T t = Some a \<and> T u = Some b \<and> tn_history a = tn_history b
     \<and> (tn_op a = tn_op b \<or> tn_ordinal a = tn_ordinal b) \<longrightarrow> t = u)"

definition hist_inv ::
  "(uid \<rightharpoonup> history_row) \<Rightarrow> (uid \<rightharpoonup> turn_row) \<Rightarrow> (uid \<rightharpoonup> exec_row) \<Rightarrow> bool" where
  "hist_inv R T E \<longleftrightarrow>
     (\<forall>h r t. R h = Some r \<and> hs_active r = Some t \<longrightarrow>
        (\<exists>tr. T t = Some tr \<and> tn_history tr = h \<and> tn_status tr = TurnAccepted
              \<and> tn_generation tr = hs_generation r))
   \<and> (\<forall>t tr. T t = Some tr \<longrightarrow>
        (\<exists>r. R (tn_history tr) = Some r \<and> hs_deleted r = None
             \<and> tn_generation tr \<le> hs_generation r \<and> tn_ordinal tr < hs_next_ordinal r
             \<and> (tn_status tr = TurnAccepted \<longrightarrow> hs_active r = Some t)))
   \<and> (\<forall>t tr. T t = Some tr \<longrightarrow> (tn_status tr = TurnSucceeded \<longleftrightarrow> tn_snapshot tr \<noteq> None))
   \<and> (\<forall>h r t. R h = Some r \<and> hs_last_success r = Some t \<longrightarrow>
        (\<exists>tr. T t = Some tr \<and> tn_history tr = h \<and> tn_status tr = TurnSucceeded))
   \<and> (\<forall>x e. E x = Some e \<longrightarrow>
        (\<exists>tr. T (ex_turn e) = Some tr \<and> tn_history tr = ex_history e
              \<and> tn_generation tr = ex_generation e \<and> tn_epoch tr = ex_epoch e
              \<and> (exec_live (ex_status e) \<longrightarrow> tn_status tr = TurnAccepted)))
   \<and> (\<forall>x e. E x = Some e \<and> ex_status e = Stopping \<longrightarrow> ex_stop_reason e \<noteq> None)
   \<and> (\<forall>x y e e'. E x = Some e \<and> E y = Some e' \<and> ex_turn e = ex_turn e' \<longrightarrow> x = y)
   \<and> exec_keys E \<and> turn_keys T"

definition db_ok :: "db \<Rightarrow> bool" where
  "db_ok d \<longleftrightarrow> keys_ok (db_records d) \<and> keys_ok (db_turns d) \<and> keys_ok (db_execs d)
     \<and> hist_inv (map_of (db_records d)) (map_of (db_turns d)) (map_of (db_execs d))"

definition empty_db :: db where
  "empty_db = \<lparr>db_records = [], db_turns = [], db_execs = [], db_runs = [], db_saved = [],
     db_epoch = None\<rparr>"

section \<open>Reading the invariant\<close>

lemma inv_active:
  "hist_inv R T E \<Longrightarrow> R h = Some r \<Longrightarrow> hs_active r = Some t \<Longrightarrow>
   \<exists>tr. T t = Some tr \<and> tn_history tr = h \<and> tn_status tr = TurnAccepted
        \<and> tn_generation tr = hs_generation r"
  by (simp add: hist_inv_def)

lemma inv_turn:
  "hist_inv R T E \<Longrightarrow> T t = Some tr \<Longrightarrow>
   \<exists>r. R (tn_history tr) = Some r \<and> hs_deleted r = None \<and> tn_generation tr \<le> hs_generation r
       \<and> tn_ordinal tr < hs_next_ordinal r \<and> (tn_status tr = TurnAccepted \<longrightarrow> hs_active r = Some t)"
  by (simp add: hist_inv_def)

lemma inv_snapshot:
  "hist_inv R T E \<Longrightarrow> T t = Some tr \<Longrightarrow> tn_status tr = TurnSucceeded \<longleftrightarrow> tn_snapshot tr \<noteq> None"
  unfolding hist_inv_def by (elim conjE) blast

lemma inv_last_success:
  "hist_inv R T E \<Longrightarrow> R h = Some r \<Longrightarrow> hs_last_success r = Some t \<Longrightarrow>
   \<exists>tr. T t = Some tr \<and> tn_history tr = h \<and> tn_status tr = TurnSucceeded"
  by (simp add: hist_inv_def)

lemma inv_exec:
  "hist_inv R T E \<Longrightarrow> E x = Some e \<Longrightarrow>
   \<exists>tr. T (ex_turn e) = Some tr \<and> tn_history tr = ex_history e
        \<and> tn_generation tr = ex_generation e \<and> tn_epoch tr = ex_epoch e
        \<and> (exec_live (ex_status e) \<longrightarrow> tn_status tr = TurnAccepted)"
  by (simp add: hist_inv_def)

lemma inv_stop_reason:
  "hist_inv R T E \<Longrightarrow> E x = Some e \<Longrightarrow> ex_status e = Stopping \<Longrightarrow> ex_stop_reason e \<noteq> None"
  unfolding hist_inv_def by (elim conjE) blast

lemma inv_exec_unique:
  "hist_inv R T E \<Longrightarrow> E x = Some e \<Longrightarrow> E y = Some e' \<Longrightarrow> ex_turn e = ex_turn e' \<Longrightarrow> x = y"
  unfolding hist_inv_def by (elim conjE) blast

lemma inv_exec_op:
  "hist_inv R T E \<Longrightarrow> E x = Some e \<Longrightarrow> E y = Some e' \<Longrightarrow> ex_owner e = ex_owner e' \<Longrightarrow>
     ex_op e = ex_op e' \<Longrightarrow> x = y"
proof -
  assume "hist_inv R T E"
  then have "exec_keys E" by (simp add: hist_inv_def)
  then show "E x = Some e \<Longrightarrow> E y = Some e' \<Longrightarrow> ex_owner e = ex_owner e' \<Longrightarrow> ex_op e = ex_op e' \<Longrightarrow> x = y"
    unfolding exec_keys_def by blast
qed

lemma inv_turn_key:
  "hist_inv R T E \<Longrightarrow> T t = Some a \<Longrightarrow> T u = Some b \<Longrightarrow> tn_history a = tn_history b \<Longrightarrow>
     tn_op a = tn_op b \<or> tn_ordinal a = tn_ordinal b \<Longrightarrow> t = u"
proof -
  assume "hist_inv R T E"
  then have "turn_keys T" by (simp add: hist_inv_def)
  then show "T t = Some a \<Longrightarrow> T u = Some b \<Longrightarrow> tn_history a = tn_history b \<Longrightarrow>
     tn_op a = tn_op b \<or> tn_ordinal a = tn_ordinal b \<Longrightarrow> t = u"
    unfolding turn_keys_def by blast
qed

lemma hist_invI:
  assumes "\<And>h r t. R h = Some r \<Longrightarrow> hs_active r = Some t \<Longrightarrow>
        \<exists>tr. T t = Some tr \<and> tn_history tr = h \<and> tn_status tr = TurnAccepted
              \<and> tn_generation tr = hs_generation r"
    and "\<And>t tr. T t = Some tr \<Longrightarrow>
        \<exists>r. R (tn_history tr) = Some r \<and> hs_deleted r = None
             \<and> tn_generation tr \<le> hs_generation r \<and> tn_ordinal tr < hs_next_ordinal r
             \<and> (tn_status tr = TurnAccepted \<longrightarrow> hs_active r = Some t)"
    and "\<And>t tr. T t = Some tr \<Longrightarrow> tn_status tr = TurnSucceeded \<longleftrightarrow> tn_snapshot tr \<noteq> None"
    and "\<And>h r t. R h = Some r \<Longrightarrow> hs_last_success r = Some t \<Longrightarrow>
        \<exists>tr. T t = Some tr \<and> tn_history tr = h \<and> tn_status tr = TurnSucceeded"
    and "\<And>x e. E x = Some e \<Longrightarrow>
        \<exists>tr. T (ex_turn e) = Some tr \<and> tn_history tr = ex_history e
              \<and> tn_generation tr = ex_generation e \<and> tn_epoch tr = ex_epoch e
              \<and> (exec_live (ex_status e) \<longrightarrow> tn_status tr = TurnAccepted)"
    and "\<And>x e. E x = Some e \<Longrightarrow> ex_status e = Stopping \<Longrightarrow> ex_stop_reason e \<noteq> None"
    and "\<And>x y e e'. E x = Some e \<Longrightarrow> E y = Some e' \<Longrightarrow> ex_turn e = ex_turn e' \<Longrightarrow> x = y"
    and "\<And>x y e e'. E x = Some e \<Longrightarrow> E y = Some e' \<Longrightarrow> ex_owner e = ex_owner e' \<Longrightarrow>
        ex_op e = ex_op e' \<Longrightarrow> x = y"
    and "\<And>t u a b. T t = Some a \<Longrightarrow> T u = Some b \<Longrightarrow> tn_history a = tn_history b \<Longrightarrow>
        tn_op a = tn_op b \<or> tn_ordinal a = tn_ordinal b \<Longrightarrow> t = u"
  shows "hist_inv R T E"
proof -
  have "exec_keys E" unfolding exec_keys_def using assms(8) by blast
  moreover have "turn_keys T" unfolding turn_keys_def using assms(9) by blast
  ultimately show ?thesis
    unfolding hist_inv_def by (intro conjI; (use assms(1-7) in blast)?)
qed

section \<open>What a change needs to keep the invariant\<close>

lemma inv_begin:
  assumes inv: "hist_inv R T E" and R: "R h = Some r" and act: "hs_active r = None"
    and del: "hs_deleted r = None" and T: "T t = None"
    and op: "\<And>u y. T u = Some y \<Longrightarrow> tn_history y = h \<Longrightarrow> tn_op y \<noteq> tn_op tr"
    and tr: "tn_history tr = h" "tn_status tr = TurnAccepted" "tn_snapshot tr = None"
      "tn_generation tr = hs_generation r + 1" "tn_ordinal tr = hs_next_ordinal r"
    and r': "hs_active r' = Some t" "hs_generation r' = hs_generation r + 1"
      "hs_next_ordinal r' = hs_next_ordinal r + 1" "hs_deleted r' = None"
      "hs_last_success r' = hs_last_success r"
  shows "hist_inv (R(h \<mapsto> r')) (T(t \<mapsto> tr)) E"
proof (rule hist_invI, goal_cases)
  case (1 h' x t')
  show ?case
  proof (cases "h' = h")
    case True
    with 1 r' tr show ?thesis by auto
  next
    case False
    with 1 have "R h' = Some x" by simp
    from inv_active [OF inv this 1(2)] T show ?thesis by auto
  qed
next
  case (2 t' y)
  show ?case
  proof (cases "t' = t")
    case True
    with 2 tr r' show ?thesis by auto
  next
    case False
    with 2 have "T t' = Some y" by simp
    from inv_turn [OF inv this] show ?thesis using R act r' by auto
  qed
next
  case (3 t' y)
  then show ?case using tr inv_snapshot [OF inv] by (cases "t' = t") auto
next
  case (4 h' x t')
  then have "\<exists>z. R h' = Some z \<and> hs_last_success z = Some t'"
    using R r' by (cases "h' = h") auto
  then show ?case using inv_last_success [OF inv] T by fastforce
next
  case (5 x e)
  then show ?case using inv_exec [OF inv] T by fastforce
next
  case (6 x e)
  then show ?case by (rule inv_stop_reason [OF inv])
next
  case (7 x y e e')
  then show ?case using inv_exec_unique [OF inv] by blast
next
  case (8 x y e e')
  then show ?case using inv_exec_op [OF inv] by blast
next
  case (9 t1 u a b)
  have new: False if "T v = Some y" "tn_history y = h" "tn_op y = tn_op tr \<or> tn_ordinal y = tn_ordinal tr" for v y
    using op [OF that(1,2)] inv_turn [OF inv that(1)] that R tr by auto
  show ?case
  proof (cases "t1 = t"; cases "u = t")
    assume "t1 \<noteq> t" "u \<noteq> t"
    with 9 show ?case using inv_turn_key [OF inv, of t1 a u b] by simp
  next
    assume "t1 = t" "u \<noteq> t"
    with 9 tr show ?case using new [of u b] by auto
  next
    assume "t1 \<noteq> t" "u = t"
    with 9 tr show ?case using new [of t1 a] by auto
  qed simp
qed

lemma inv_end:
  assumes inv: "hist_inv R T E" and R: "R h = Some r" and act: "hs_active r = Some t"
    and T: "T t = Some tr"
    and tr': "tn_history tr' = tn_history tr" "tn_status tr' \<noteq> TurnAccepted"
      "tn_status tr' = TurnSucceeded \<longleftrightarrow> tn_snapshot tr' \<noteq> None"
      "tn_generation tr' = tn_generation tr" "tn_ordinal tr' = tn_ordinal tr"
      "tn_epoch tr' = tn_epoch tr" "tn_op tr' = tn_op tr"
    and r': "hs_active r' = None" "hs_generation r \<le> hs_generation r'"
      "hs_next_ordinal r' = hs_next_ordinal r" "hs_deleted r' = hs_deleted r"
      "hs_last_success r' = hs_last_success r
       \<or> (hs_last_success r' = Some t \<and> tn_status tr' = TurnSucceeded)"
    and E': "\<And>x e'. E' x = Some e' \<Longrightarrow>
        (\<exists>e. E x = Some e \<and> ex_turn e' = ex_turn e \<and> ex_history e' = ex_history e
           \<and> ex_generation e' = ex_generation e \<and> ex_epoch e' = ex_epoch e
           \<and> ex_owner e' = ex_owner e \<and> ex_op e' = ex_op e
           \<and> (exec_live (ex_status e') \<longrightarrow> e' = e \<and> ex_turn e \<noteq> t))"
  shows "hist_inv (R(h \<mapsto> r')) (T(t \<mapsto> tr')) E'"
proof (rule hist_invI, goal_cases)
  case (1 h' x t')
  then have "R h' = Some x" "h' \<noteq> h" using r' by (auto split: if_splits)
  from inv_active [OF inv this(1) 1(2)] obtain y
    where y: "T t' = Some y" "tn_history y = h'" "tn_status y = TurnAccepted"
      "tn_generation y = hs_generation x" by blast
  have "t' \<noteq> t"
  proof
    assume "t' = t"
    with inv_active [OF inv R act] y show False using \<open>h' \<noteq> h\<close> by auto
  qed
  with y show ?case by simp
next
  case (2 t' y)
  have h: "tn_history tr = h" using inv_active [OF inv R act] T by auto
  show ?case
  proof (cases "t' = t")
    case True
    with 2 inv_turn [OF inv T] tr' r' R h show ?thesis by auto
  next
    case False
    with 2 have "T t' = Some y" by simp
    from inv_turn [OF inv this] show ?thesis using R act r' False by auto
  qed
next
  case (3 t' y)
  then show ?case using tr' inv_snapshot [OF inv] by (cases "t' = t") auto
next
  case (4 h' x t')
  have h: "tn_history tr = h" "tn_status tr = TurnAccepted"
    using inv_active [OF inv R act] T by auto
  show ?case
  proof (cases "h' = h \<and> t' = t")
    case True
    with 4 have "hs_last_success r' = Some t" by auto
    moreover have "hs_last_success r \<noteq> Some t" using inv_last_success [OF inv R] T h by fastforce
    ultimately have "tn_status tr' = TurnSucceeded" using r'(5) by auto
    with tr' h True show ?thesis by simp
  next
    case False
    then have "\<exists>z. R h' = Some z \<and> hs_last_success z = Some t'"
      using R r' 4 by (cases "h' = h") auto
    then obtain y where "T t' = Some y" "tn_history y = h'" "tn_status y = TurnSucceeded"
      using inv_last_success [OF inv] by blast
    moreover have "t' \<noteq> t" using calculation T h by auto
    ultimately show ?thesis by simp
  qed
next
  case (5 x e')
  from E' [OF 5] obtain e where e: "E x = Some e" "ex_turn e' = ex_turn e"
    "ex_history e' = ex_history e" "ex_generation e' = ex_generation e" "ex_epoch e' = ex_epoch e"
    "exec_live (ex_status e') \<Longrightarrow> e' = e \<and> ex_turn e \<noteq> t" by blast
  from inv_exec [OF inv e(1)] show ?case using e tr' T by (cases "ex_turn e = t") auto
next
  case (6 x e')
  from E' [OF 6(1)] 6(2) have "E x = Some e'" by (auto simp: exec_live_def)
  then show ?case using 6(2) by (rule inv_stop_reason [OF inv])
next
  case (7 x y e e')
  then show ?case using E' [OF 7(1)] E' [OF 7(2)] inv_exec_unique [OF inv] by metis
next
  case (8 x y e e')
  then show ?case using E' [OF 8(1)] E' [OF 8(2)] inv_exec_op [OF inv] by metis
next
  case (9 t1 u a b)
  have "\<exists>a0. T v = Some a0 \<and> tn_history a0 = tn_history a \<and> tn_op a0 = tn_op a \<and> tn_ordinal a0 = tn_ordinal a"
    if "(T(t \<mapsto> tr')) v = Some a" for v a
    using that T tr' by (cases "v = t") auto
  from this [OF 9(1)] this [OF 9(2)] 9(3,4) show ?case using inv_turn_key [OF inv] by metis
qed

lemma inv_exec_update:
  assumes inv: "hist_inv R T E" and E: "E x = Some e"
    and e': "ex_turn e' = ex_turn e" "ex_history e' = ex_history e"
      "ex_generation e' = ex_generation e" "ex_epoch e' = ex_epoch e"
      "ex_owner e' = ex_owner e" "ex_op e' = ex_op e"
      "exec_live (ex_status e') \<Longrightarrow> exec_live (ex_status e)"
      "ex_status e' = Stopping \<Longrightarrow> ex_stop_reason e' \<noteq> None"
  shows "hist_inv R T (E(x \<mapsto> e'))"
proof (rule hist_invI, goal_cases)
  case (5 y f)
  then show ?case using inv_exec [OF inv] E e' by (cases "y = x") fastforce+
next
  case (6 y f)
  then show ?case using inv_stop_reason [OF inv] e' by (cases "y = x") auto
next
  case (7 y z f f')
  then have "\<exists>g. E y = Some g \<and> ex_turn g = ex_turn f" "\<exists>g. E z = Some g \<and> ex_turn g = ex_turn f'"
    using E e' by (auto split: if_splits)
  then show ?case using inv_exec_unique [OF inv] 7(3) by metis
next
  case (8 y z f f')
  then have "\<exists>g. E y = Some g \<and> ex_owner g = ex_owner f \<and> ex_op g = ex_op f"
    "\<exists>g. E z = Some g \<and> ex_owner g = ex_owner f' \<and> ex_op g = ex_op f'"
    using E e' by (auto split: if_splits)
  then show ?case using inv_exec_op [OF inv] 8(3,4) by metis
next
  case (9 t u a b)
  then show ?case by (rule inv_turn_key [OF inv])
qed (use inv in \<open>auto dest: inv_active inv_turn inv_snapshot inv_last_success\<close>)

lemma inv_exec_insert:
  assumes inv: "hist_inv R T E" and T: "T (ex_turn e) = Some tr"
    and e: "tn_history tr = ex_history e" "tn_generation tr = ex_generation e"
      "tn_epoch tr = ex_epoch e" "tn_status tr = TurnAccepted" "ex_status e = Accepted"
    and new: "\<And>y f. E y = Some f \<Longrightarrow> ex_turn f \<noteq> ex_turn e"
      "\<And>y f. E y = Some f \<Longrightarrow> \<not> (ex_owner f = ex_owner e \<and> ex_op f = ex_op e)"
  shows "hist_inv R T (E(x \<mapsto> e))"
proof (rule hist_invI, goal_cases)
  case (5 y f)
  then show ?case using inv_exec [OF inv] T e by (cases "y = x") auto
next
  case (6 y f)
  then show ?case using inv_stop_reason [OF inv] e by (cases "y = x") auto
next
  case (7 y z f f')
  then show ?case using inv_exec_unique [OF inv, of y f z f'] new(1) [of y f] new(1) [of z f']
    by (auto split: if_splits)
next
  case (8 y z f f')
  then show ?case using inv_exec_op [OF inv, of y f z f'] new(2) [of y f] new(2) [of z f']
    by (auto split: if_splits)
next
  case (9 t u a b)
  then show ?case by (rule inv_turn_key [OF inv])
qed (use inv in \<open>auto dest: inv_active inv_turn inv_snapshot inv_last_success\<close>)

lemma inv_record:
  assumes inv: "hist_inv R T E" and R: "R h = Some r"
    and r': "hs_active r' = hs_active r" "hs_generation r' = hs_generation r"
      "hs_next_ordinal r' = hs_next_ordinal r" "hs_deleted r' = hs_deleted r"
      "hs_last_success r' = hs_last_success r"
  shows "hist_inv (R(h \<mapsto> r')) T E"
proof (rule hist_invI, goal_cases)
  case (1 h' x t)
  then have "\<exists>z. R h' = Some z \<and> hs_active z = Some t \<and> hs_generation z = hs_generation x"
    using R r' by (cases "h' = h") auto
  then show ?case using inv_active [OF inv] by metis
next
  case (2 t y)
  then show ?case using inv_turn [OF inv] R r' by fastforce
next
  case (4 h' x t)
  then have "\<exists>z. R h' = Some z \<and> hs_last_success z = Some t"
    using R r' by (cases "h' = h") auto
  then show ?case using inv_last_success [OF inv] by metis
next
  case (8 y z f f')
  then show ?case by (rule inv_exec_op [OF inv])
next
  case (9 t u a b)
  then show ?case by (rule inv_turn_key [OF inv])
qed (use inv in \<open>auto dest: inv_snapshot inv_exec inv_stop_reason inv_exec_unique\<close>)

lemma inv_record_insert:
  assumes inv: "hist_inv R T E" and R: "R h = None"
    and r: "hs_active r = None" "hs_last_success r = None"
  shows "hist_inv (R(h \<mapsto> r)) T E"
proof (rule hist_invI, goal_cases)
  case (1 h' x t)
  then show ?case using r inv_active [OF inv] by (auto split: if_splits)
next
  case (2 t y)
  then show ?case using inv_turn [OF inv] R by fastforce
next
  case (4 h' x t)
  then show ?case using r inv_last_success [OF inv] by (auto split: if_splits)
next
  case (8 y z f f')
  then show ?case by (rule inv_exec_op [OF inv])
next
  case (9 t u a b)
  then show ?case by (rule inv_turn_key [OF inv])
qed (use inv in \<open>auto dest: inv_snapshot inv_exec inv_stop_reason inv_exec_unique\<close>)

lemma inv_delete:
  assumes inv: "hist_inv R T E" and R: "R h = Some r" and act: "hs_active r = None"
    and r': "hs_active r' = None" "hs_last_success r' = None"
    and T': "\<And>t. T' t = (case T t of None \<Rightarrow> None
                 | Some y \<Rightarrow> if tn_history y = h then None else Some y)"
    and E': "\<And>x. E' x = (case E x of None \<Rightarrow> None
                 | Some e \<Rightarrow> if ex_history e = h then None else Some e)"
  shows "hist_inv (R(h \<mapsto> r')) T' E'"
proof -
  have T'D: "T t = Some y \<and> tn_history y \<noteq> h" if "T' t = Some y" for t y
    using that by (auto simp: T' split: option.splits if_splits)
  have T'I: "T' t = Some y" if "T t = Some y" "tn_history y \<noteq> h" for t y
    using that by (simp add: T')
  have E'D: "E x = Some e \<and> ex_history e \<noteq> h" if "E' x = Some e" for x e
    using that by (auto simp: E' split: option.splits if_splits)
  show ?thesis
  proof (rule hist_invI, goal_cases)
    case (1 h' x t)
    then have "R h' = Some x" "h' \<noteq> h" using r' by (auto split: if_splits)
    then show ?case using inv_active [OF inv _ 1(2)] T'I by metis
  next
    case (2 t y)
    then show ?case using inv_turn [OF inv] T'D by fastforce
  next
    case (3 t y)
    then show ?case using inv_snapshot [OF inv] T'D by blast
  next
    case (4 h' x t)
    then have "R h' = Some x" "h' \<noteq> h" using r' by (auto split: if_splits)
    then show ?case using inv_last_success [OF inv _ 4(2)] T'I by metis
  next
    case (5 x e)
    then have "E x = Some e" "ex_history e \<noteq> h" using E'D by auto
    from inv_exec [OF inv this(1)] show ?case using T'I \<open>ex_history e \<noteq> h\<close> by metis
  next
    case (6 x e)
    then show ?case using inv_stop_reason [OF inv] E'D by blast
  next
    case (7 x y e e')
    then show ?case using inv_exec_unique [OF inv] E'D by blast
  next
    case (8 x y e e')
    then show ?case using inv_exec_op [OF inv] E'D by blast
  next
    case (9 t u a b)
    then show ?case using inv_turn_key [OF inv] T'D by metis
  qed
qed

end
