(* ===== verification/Store_Abstract.thy ===== *)
theory Store_Abstract
  imports Irreversible Store_Invariant
begin

text \<open>
  What the history store promises, as a step relation on the three tables seen as maps: a history
  is opened, touched, erased; a turn is accepted and settled; an execution row is scheduled and
  advanced; a start-up recovers everything at once. The relation says which fields may change and
  how; the transactions of \<open>History_Store\<close> refine it in \<open>Store_Steps\<close>. Proved here once for all
  of them: the invariant, and what no sequence of steps can undo.
\<close>

type_synonym tables = "(uid \<rightharpoonup> history_row) \<times> (uid \<rightharpoonup> turn_row) \<times> (uid \<rightharpoonup> exec_row)"

fun tables_ok :: "tables \<Rightarrow> bool" where
  "tables_ok (R, T, E) = hist_inv R T E"

fun lifecycle :: "exec_status \<Rightarrow> exec_status \<Rightarrow> bool" where
  "lifecycle Accepted s = (s \<in> {Running, Stopping, Succeeded, Failed, Unconfirmed})"
| "lifecycle Running s = (s \<in> {Stopping, Succeeded, Failed, Unconfirmed})"
| "lifecycle Stopping s = (s \<in> {Cancelled, TimedOut, Failed, Unconfirmed})"
| "lifecycle _ s = False"

definition same_exec :: "exec_row \<Rightarrow> exec_row \<Rightarrow> bool" where
  "same_exec e e' \<longleftrightarrow> ex_owner e' = ex_owner e \<and> ex_history e' = ex_history e
     \<and> ex_turn e' = ex_turn e \<and> ex_op e' = ex_op e \<and> ex_hash e' = ex_hash e
     \<and> ex_mode e' = ex_mode e \<and> ex_kind e' = ex_kind e \<and> ex_epoch e' = ex_epoch e
     \<and> ex_generation e' = ex_generation e \<and> ex_deadline_at e' = ex_deadline_at e"

definition advance :: "exec_row \<Rightarrow> exec_row \<Rightarrow> bool" where
  "advance e e' \<longleftrightarrow> same_exec e e' \<and> lifecycle (ex_status e) (ex_status e')
     \<and> (ex_status e' = Stopping \<longrightarrow> ex_stop_reason e' \<noteq> None)
     \<and> (ex_status e' \<noteq> Stopping \<longrightarrow> ex_stop_reason e' = ex_stop_reason e)"

definition end_execs :: "uid \<Rightarrow> (uid \<rightharpoonup> exec_row) \<Rightarrow> (uid \<rightharpoonup> exec_row) \<Rightarrow> bool" where
  "end_execs t E E' \<longleftrightarrow> dom E' = dom E \<and>
     (\<forall>x e e'. E x = Some e \<and> E' x = Some e' \<longrightarrow>
        (if exec_live (ex_status e) \<and> ex_turn e = t
         then advance e e' \<and> \<not> exec_live (ex_status e') else e' = e))"

definition settles :: "turn_row \<Rightarrow> turn_row \<Rightarrow> bool" where
  "settles tr tr' \<longleftrightarrow> tn_history tr' = tn_history tr \<and> tn_ordinal tr' = tn_ordinal tr
     \<and> tn_op tr' = tn_op tr \<and> tn_hash tr' = tn_hash tr
     \<and> tn_generation tr' = tn_generation tr \<and> tn_epoch tr' = tn_epoch tr
     \<and> tn_status tr' \<noteq> TurnAccepted
     \<and> (tn_status tr' = TurnSucceeded \<longleftrightarrow> tn_snapshot tr' \<noteq> None)"

definition free_record :: "time \<Rightarrow> history_row \<Rightarrow> history_row" where
  "free_record now r = (if hs_active r \<noteq> None then clear_active now r else r)"

definition free_turn :: "time \<Rightarrow> turn_row \<Rightarrow> turn_row" where
  "free_turn now t = (if tn_status t = TurnAccepted then unconfirm_turn now t else t)"

definition free_exec :: "time \<Rightarrow> exec_row \<Rightarrow> exec_row" where
  "free_exec now e = (if exec_live (ex_status e) then unconfirm_exec now e else e)"

inductive hstep :: "tables \<Rightarrow> tables \<Rightarrow> bool" where
  open_history:
    "R h = None \<Longrightarrow> hs_active r = None \<Longrightarrow> hs_last_success r = None \<Longrightarrow>
     hstep (R, T, E) (R(h \<mapsto> r), T, E)"
| touch_history:
    "R h = Some r \<Longrightarrow> hs_owner r' = hs_owner r \<Longrightarrow> hs_active r' = hs_active r \<Longrightarrow>
     hs_generation r' = hs_generation r \<Longrightarrow> hs_next_ordinal r' = hs_next_ordinal r \<Longrightarrow>
     hs_deleted r' = hs_deleted r \<Longrightarrow> hs_last_success r' = hs_last_success r \<Longrightarrow>
     hs_creation_op r' = hs_creation_op r \<Longrightarrow>
     hstep (R, T, E) (R(h \<mapsto> r'), T, E)"
| accept_turn:
    "R h = Some r \<Longrightarrow> hs_active r = None \<Longrightarrow> hs_deleted r = None \<Longrightarrow> T t = None \<Longrightarrow>
     (\<forall>u y. T u = Some y \<and> tn_history y = h \<longrightarrow> tn_op y \<noteq> tn_op tr) \<Longrightarrow>
     tn_history tr = h \<Longrightarrow> tn_status tr = TurnAccepted \<Longrightarrow> tn_snapshot tr = None \<Longrightarrow>
     tn_generation tr = hs_generation r + 1 \<Longrightarrow> tn_ordinal tr = hs_next_ordinal r \<Longrightarrow>
     hs_active r' = Some t \<Longrightarrow> hs_generation r' = hs_generation r + 1 \<Longrightarrow>
     hs_next_ordinal r' = hs_next_ordinal r + 1 \<Longrightarrow> hs_deleted r' = None \<Longrightarrow>
     hs_owner r' = hs_owner r \<Longrightarrow> hs_last_success r' = hs_last_success r \<Longrightarrow>
     hs_creation_op r' = hs_creation_op r \<Longrightarrow>
     hstep (R, T, E) (R(h \<mapsto> r'), T(t \<mapsto> tr), E)"
| settle_turn:
    "R h = Some r \<Longrightarrow> hs_active r = Some t \<Longrightarrow> T t = Some tr \<Longrightarrow> settles tr tr' \<Longrightarrow>
     hs_active r' = None \<Longrightarrow> hs_generation r \<le> hs_generation r' \<Longrightarrow>
     hs_next_ordinal r' = hs_next_ordinal r \<Longrightarrow> hs_deleted r' = hs_deleted r \<Longrightarrow>
     hs_owner r' = hs_owner r \<Longrightarrow>
     (hs_last_success r' = hs_last_success r
       \<or> (hs_last_success r' = Some t \<and> tn_status tr' = TurnSucceeded)) \<Longrightarrow>
     end_execs t E E' \<Longrightarrow>
     hs_creation_op r' = hs_creation_op r \<Longrightarrow>
     hstep (R, T, E) (R(h \<mapsto> r'), T(t \<mapsto> tr'), E')"
| schedule_exec:
    "E x = None \<Longrightarrow> T (ex_turn e) = Some tr \<Longrightarrow> tn_history tr = ex_history e \<Longrightarrow>
     tn_generation tr = ex_generation e \<Longrightarrow> tn_epoch tr = ex_epoch e \<Longrightarrow>
     tn_status tr = TurnAccepted \<Longrightarrow> ex_status e = Accepted \<Longrightarrow>
     (\<forall>y f. E y = Some f \<longrightarrow> ex_turn f \<noteq> ex_turn e) \<Longrightarrow>
     (\<forall>y f. E y = Some f \<longrightarrow> \<not> (ex_owner f = ex_owner e \<and> ex_op f = ex_op e)) \<Longrightarrow>
     hstep (R, T, E) (R, T, E(x \<mapsto> e))"
| advance_exec:
    "E x = Some e \<Longrightarrow> advance e e' \<Longrightarrow> ex_status e' \<in> {Running, Stopping} \<Longrightarrow>
     hstep (R, T, E) (R, T, E(x \<mapsto> e'))"
| erase_history:
    "R h = Some r \<Longrightarrow> hs_active r = None \<Longrightarrow> hs_active r' = None \<Longrightarrow>
     hs_last_success r' = None \<Longrightarrow> hs_deleted r' \<noteq> None \<Longrightarrow> hs_owner r' = hs_owner r \<Longrightarrow>
     hs_generation r' = hs_generation r + 1 \<Longrightarrow> hs_next_ordinal r' = hs_next_ordinal r \<Longrightarrow>
     hs_creation_op r' = hs_creation_op r \<Longrightarrow>
     hstep (R, T, E)
       (R(h \<mapsto> r'),
        (\<lambda>t. case T t of None \<Rightarrow> None | Some y \<Rightarrow> if tn_history y = h then None else Some y),
        (\<lambda>x. case E x of None \<Rightarrow> None | Some e \<Rightarrow> if ex_history e = h then None else Some e))"
| recover:
    "hstep (R, T, E)
       (map_option (free_record now) \<circ> R,
        map_option (free_turn now) \<circ> T,
        map_option (free_exec now) \<circ> E)"

section \<open>The invariant\<close>

lemma advance_live: "advance e e' \<Longrightarrow> exec_live (ex_status e)"
  by (cases "ex_status e") (auto simp: advance_def exec_live_def)

lemma same_exec_fields:
  "same_exec e e' \<Longrightarrow> ex_turn e' = ex_turn e" "same_exec e e' \<Longrightarrow> ex_history e' = ex_history e"
  "same_exec e e' \<Longrightarrow> ex_generation e' = ex_generation e" "same_exec e e' \<Longrightarrow> ex_epoch e' = ex_epoch e"
  by (simp_all add: same_exec_def)

lemma free_record_simps [simp]:
  "hs_active (free_record now r) = None" "hs_deleted (free_record now r) = hs_deleted r"
  "hs_owner (free_record now r) = hs_owner r"
  "hs_next_ordinal (free_record now r) = hs_next_ordinal r"
  "hs_last_success (free_record now r) = hs_last_success r"
  "hs_generation (free_record now r) = hs_generation r + (if hs_active r = None then 0 else 1)"
  by (simp_all add: free_record_def clear_active_def)

lemma free_turn_simps [simp]:
  "tn_history (free_turn now t) = tn_history t" "tn_generation (free_turn now t) = tn_generation t"
  "tn_ordinal (free_turn now t) = tn_ordinal t" "tn_epoch (free_turn now t) = tn_epoch t"
  "tn_op (free_turn now t) = tn_op t" "tn_hash (free_turn now t) = tn_hash t"
  "tn_snapshot (free_turn now t) = tn_snapshot t"
  "tn_status (free_turn now t) =
     (if tn_status t = TurnAccepted then TurnUnconfirmed else tn_status t)"
  by (simp_all add: free_turn_def unconfirm_turn_def)

lemma free_exec_simps [simp]:
  "ex_turn (free_exec now e) = ex_turn e" "ex_history (free_exec now e) = ex_history e"
  "ex_generation (free_exec now e) = ex_generation e" "ex_epoch (free_exec now e) = ex_epoch e"
  "ex_owner (free_exec now e) = ex_owner e" "ex_op (free_exec now e) = ex_op e"
  "ex_stop_reason (free_exec now e) = ex_stop_reason e" "same_exec e (free_exec now e)"
  "ex_status (free_exec now e) = (if exec_live (ex_status e) then Unconfirmed else ex_status e)"
  by (simp_all add: free_exec_def unconfirm_exec_def same_exec_def)

lemma inv_recover:
  assumes inv: "hist_inv R T E"
  shows "hist_inv (map_option (free_record now) \<circ> R) (map_option (free_turn now) \<circ> T)
           (map_option (free_exec now) \<circ> E)"
proof (rule hist_invI, goal_cases)
  case (2 t tr)
  then obtain y where y: "T t = Some y" "tr = free_turn now y" by auto
  from inv_turn [OF inv y(1)] show ?case using y(2) by auto
next
  case (3 t tr)
  then obtain y where y: "T t = Some y" "tr = free_turn now y" by auto
  from inv_snapshot [OF inv y(1)] y(2) show ?case by auto
next
  case (4 h r t)
  then obtain z where "R h = Some z" "hs_last_success z = Some t" by auto
  from inv_last_success [OF inv this] show ?case by auto
next
  case (5 x e)
  then obtain f where f: "E x = Some f" "e = free_exec now f" by auto
  from inv_exec [OF inv f(1)] f(2) show ?case by (auto simp: exec_live_def)
next
  case (6 x e)
  then obtain f where f: "E x = Some f" "e = free_exec now f" by auto
  with 6(2) have "ex_status f = Stopping" by (auto split: if_splits)
  from inv_stop_reason [OF inv f(1) this] f(2) show ?case by simp
next
  case (7 x y e e')
  then obtain f f' where "E x = Some f" "E y = Some f'" "ex_turn f = ex_turn f'" by auto
  then show ?case by (rule inv_exec_unique [OF inv])
next
  case (8 x y e e')
  then show ?case using inv_exec_op [OF inv] by auto
next
  case (9 t u a b)
  then show ?case using inv_turn_key [OF inv] by auto
qed auto

lemma end_execsD:
  assumes "end_execs t E E'" and "E' x = Some e'"
  obtains e where "E x = Some e" "ex_turn e' = ex_turn e" "ex_history e' = ex_history e"
    "ex_generation e' = ex_generation e" "ex_epoch e' = ex_epoch e"
    "ex_owner e' = ex_owner e" "ex_op e' = ex_op e" "e' = e \<or> advance e e'"
    "exec_live (ex_status e') \<Longrightarrow> e' = e \<and> ex_turn e \<noteq> t"
proof -
  from assms have "x \<in> dom E" unfolding end_execs_def by blast
  then obtain e where e: "E x = Some e" by blast
  with assms have c: "if exec_live (ex_status e) \<and> ex_turn e = t
         then advance e e' \<and> \<not> exec_live (ex_status e') else e' = e"
    unfolding end_execs_def by blast
  then have "e' = e \<or> advance e e'" by (auto split: if_splits)
  with c e show ?thesis
    by (intro that [of e]) (auto simp: advance_def same_exec_def split: if_splits)
qed

lemma hstep_inv: "hstep s s' \<Longrightarrow> tables_ok s \<Longrightarrow> tables_ok s'"
proof (induction rule: hstep.induct)
  case (open_history R h r T E)
  then show ?case by (simp add: inv_record_insert)
next
  case (touch_history R h r r' T E)
  then show ?case by (auto intro: inv_record)
next
  case (accept_turn R h r T t tr r' E)
  then have "hist_inv (R(h \<mapsto> r')) (T(t \<mapsto> tr)) E" by (intro inv_begin) simp_all
  then show ?case by simp
next
  case (settle_turn R h r t T tr tr' r' E E')
  then have "hist_inv R T E" by simp
  then have "hist_inv (R(h \<mapsto> r')) (T(t \<mapsto> tr')) E'"
  proof (rule inv_end [where r = r and tr = tr])
    fix x e' assume x: "E' x = Some e'"
    have "end_execs t E E'" using settle_turn by simp
    from end_execsD [OF this x] obtain e where e: "E x = Some e" "ex_turn e' = ex_turn e" "ex_history e' = ex_history e"
      "ex_generation e' = ex_generation e" "ex_epoch e' = ex_epoch e" "ex_owner e' = ex_owner e" "ex_op e' = ex_op e"
      and l: "exec_live (ex_status e') \<Longrightarrow> e' = e \<and> ex_turn e \<noteq> t" by metis
    show "\<exists>e. E x = Some e \<and> ex_turn e' = ex_turn e \<and> ex_history e' = ex_history e
           \<and> ex_generation e' = ex_generation e \<and> ex_epoch e' = ex_epoch e
           \<and> ex_owner e' = ex_owner e \<and> ex_op e' = ex_op e
           \<and> (exec_live (ex_status e') \<longrightarrow> e' = e \<and> ex_turn e \<noteq> t)"
      by (intro exI [of _ e] conjI impI l e)
  qed (use settle_turn in \<open>simp_all add: settles_def\<close>)
  then show ?case by simp
next
  case (schedule_exec E x T e tr R)
  then show ?case by (auto intro: inv_exec_insert)
next
  case (advance_exec E x e e' R T)
  then have "hist_inv R T E" by simp
  then have "hist_inv R T (E(x \<mapsto> e'))"
    by (rule inv_exec_update [where e = e])
      (use advance_exec advance_live in \<open>auto simp: advance_def same_exec_def\<close>)
  then show ?case by simp
next
  case (erase_history R h r r' T E)
  then have "hist_inv R T E" by simp
  then show ?case unfolding tables_ok.simps
    by (rule inv_delete [where r = r]) (use erase_history in simp_all)
next
  case (recover R T E now)
  then show ?case by (simp only: tables_ok.simps inv_recover)
qed

lemma hsteps_inv: "hstep\<^sup>*\<^sup>* s s' \<Longrightarrow> tables_ok s \<Longrightarrow> tables_ok s'"
  by (induction rule: rtranclp_induct) (auto intro: hstep_inv)

section \<open>What no step can undo\<close>

definition ok_step :: "tables \<Rightarrow> tables \<Rightarrow> bool" where
  "ok_step s s' \<longleftrightarrow> tables_ok s \<and> tables_ok s' \<and> hstep s s'"

lemma ok_steps: "hstep\<^sup>*\<^sup>* s s' \<Longrightarrow> tables_ok s \<Longrightarrow> ok_step\<^sup>*\<^sup>* s s'"
proof (induction rule: rtranclp_induct)
  case (step s' s'')
  then have "tables_ok s'" using hsteps_inv by blast
  with step have "ok_step s' s''" by (auto simp: ok_step_def intro: hstep_inv)
  with step show ?case by (auto intro: rtranclp.rtrancl_into_rtrancl)
qed simp

fun token_spent :: "token \<Rightarrow> tables \<Rightarrow> bool" where
  "token_spent tok (R, T, E) = (\<exists>r. R (tk_history tok) = Some r \<and>
     (tk_generation tok < hs_generation r
      \<or> (tk_generation tok = hs_generation r \<and> hs_active r = None)))"

fun token_valid :: "token \<Rightarrow> tables \<Rightarrow> bool" where
  "token_valid tok (R, T, E) = (\<exists>r. R (tk_history tok) = Some r
     \<and> hs_active r = Some (tk_turn tok) \<and> hs_generation r = tk_generation tok)"

fun history_gone :: "uid \<Rightarrow> tables \<Rightarrow> bool" where
  "history_gone h (R, T, E) = (\<exists>r. R h = Some r \<and> hs_deleted r \<noteq> None)"

fun history_visible :: "uid \<Rightarrow> tables \<Rightarrow> bool" where
  "history_visible h (R, T, E) = (\<exists>r. R h = Some r \<and> hs_deleted r = None)"

fun turn_fixed :: "uid \<times> turn_row \<Rightarrow> tables \<Rightarrow> bool" where
  "turn_fixed (t, tr) (R, T, E) =
     (tables_ok (R, T, E) \<and>
     ((T t = Some tr \<and> tn_status tr \<noteq> TurnAccepted) \<or> history_gone (tn_history tr) (R, T, E)))"

fun turn_rewritten :: "uid \<times> turn_row \<Rightarrow> tables \<Rightarrow> bool" where
  "turn_rewritten (t, tr) (R, T, E) =
     (\<exists>y. T t = Some y \<and> tn_history y = tn_history tr \<and> y \<noteq> tr)"

fun exec_fixed :: "uid \<times> exec_row \<Rightarrow> tables \<Rightarrow> bool" where
  "exec_fixed (x, e) (R, T, E) =
     (tables_ok (R, T, E) \<and>
     ((E x = Some e \<and> \<not> exec_live (ex_status e)) \<or> history_gone (ex_history e) (R, T, E)))"

fun exec_rewritten :: "uid \<times> exec_row \<Rightarrow> tables \<Rightarrow> bool" where
  "exec_rewritten (x, e) (R, T, E) =
     (\<exists>y. E x = Some y \<and> ex_history y = ex_history e \<and> y \<noteq> e)"

fun stop_won :: "uid \<times> uid \<times> stop_reason \<Rightarrow> tables \<Rightarrow> bool" where
  "stop_won (x, h, r) (R, T, E) =
     (tables_ok (R, T, E) \<and>
     ((\<exists>e. E x = Some e \<and> ex_history e = h \<and> ex_stop_reason e = Some r
          \<and> ex_status e \<notin> {Accepted, Running, Succeeded}) \<or> history_gone h (R, T, E)))"

fun stop_lost :: "uid \<times> uid \<times> stop_reason \<Rightarrow> tables \<Rightarrow> bool" where
  "stop_lost (x, h, r) (R, T, E) =
     (\<exists>e. E x = Some e \<and> ex_history e = h
        \<and> (ex_stop_reason e \<noteq> Some r \<or> ex_status e \<in> {Accepted, Running, Succeeded}))"

lemma gone_step: "history_gone h s \<Longrightarrow> hstep s s' \<Longrightarrow> history_gone h s'"
proof -
  assume "hstep s s'" "history_gone h s"
  then show ?thesis by (induction rule: hstep.induct) (auto split: if_splits)
qed

lemma gone_turn: "history_gone (tn_history tr) (R, T, E) \<Longrightarrow> hist_inv R T E \<Longrightarrow> T t \<noteq> Some tr"
  by (auto dest: inv_turn)

lemma gone_exec: "history_gone (ex_history e) (R, T, E) \<Longrightarrow> hist_inv R T E \<Longrightarrow> E x \<noteq> Some e"
proof
  assume "history_gone (ex_history e) (R, T, E)" "hist_inv R T E" "E x = Some e"
  moreover from this obtain tr where "T (ex_turn e) = Some tr" "tn_history tr = ex_history e"
    using inv_exec by blast
  ultimately show False using gone_turn [of tr] by simp
qed

lemma token_spent_step: "token_spent tok s \<Longrightarrow> hstep s s' \<Longrightarrow> token_spent tok s'"
proof -
  assume "hstep s s'" "token_spent tok s"
  then show ?thesis by (induction rule: hstep.induct) (auto split: if_splits)
qed

interpretation token: irreversible ok_step token_spent token_valid
  by unfold_locales (auto simp: ok_step_def intro: token_spent_step)

interpretation deletion: irreversible ok_step history_gone history_visible
  by unfold_locales (auto simp: ok_step_def intro: gone_step)

text \<open>How one step treats one turn and one execution row.\<close>

lemma hstep_turn:
  assumes "hstep (R, T, E) (R', T', E')" and "T t = Some tr" and "hist_inv R T E"
  shows "T' t = Some tr
    \<or> (tn_status tr = TurnAccepted \<and> (\<exists>tr'. T' t = Some tr' \<and> settles tr tr'))
    \<or> (T' t = None \<and> history_gone (tn_history tr) (R', T', E'))"
  using assms
proof (induction "(R, T, E)" "(R', T', E')" rule: hstep.induct)
  case (settle_turn h r t' tr0 r' tr')
  have "tn_status tr0 = TurnAccepted"
    using inv_active [OF settle_turn.prems(2), of h r t'] settle_turn by auto
  with settle_turn show ?case by (cases "t = t'") auto
next
  case (recover now)
  then show ?case using inv_snapshot [OF recover.prems(2), of t tr]
    by (cases "tn_status tr = TurnAccepted") (auto simp: settles_def free_turn_def unconfirm_turn_def)
qed (auto split: if_splits)

lemma hstep_exec:
  assumes "hstep (R, T, E) (R', T', E')" and "E x = Some e" and "hist_inv R T E"
  shows "E' x = Some e
    \<or> (\<exists>e'. E' x = Some e' \<and> advance e e')
    \<or> (E' x = None \<and> history_gone (ex_history e) (R', T', E'))"
  using assms
proof (induction "(R, T, E)" "(R', T', E')" rule: hstep.induct)
  case (settle_turn h r t tr tr' r')
  then have "x \<in> dom E'" unfolding end_execs_def by blast
  then obtain e' where "E' x = Some e'" by blast
  with settle_turn show ?case by (auto elim: end_execsD)
next
  case (recover now)
  then show ?case
    by (cases "ex_status e") (auto simp: advance_def exec_live_def free_exec_def unconfirm_exec_def same_exec_def)
qed (auto split: if_splits)

lemma turn_fixed_step: "turn_fixed (t, tr) s \<Longrightarrow> ok_step s s' \<Longrightarrow> turn_fixed (t, tr) s'"
proof -
  assume a: "turn_fixed (t, tr) s" "ok_step s s'"
  obtain R T E where s: "s = (R, T, E)" by (cases s)
  obtain R' T' E' where s': "s' = (R', T', E')" by (cases s')
  note b = a [unfolded s s' ok_step_def]
  show ?thesis
    using gone_step [of "tn_history tr" s s'] hstep_turn [of R T E R' T' E' t tr] b
    unfolding s s' by auto
qed

lemma exec_fixed_step: "exec_fixed (x, e) s \<Longrightarrow> ok_step s s' \<Longrightarrow> exec_fixed (x, e) s'"
proof -
  assume a: "exec_fixed (x, e) s" "ok_step s s'"
  obtain R T E where s: "s = (R, T, E)" by (cases s)
  obtain R' T' E' where s': "s' = (R', T', E')" by (cases s')
  note b = a [unfolded s s' ok_step_def]
  show ?thesis
    using gone_step [of "ex_history e" s s'] hstep_exec [of R T E R' T' E' x e] b advance_live [of e]
    unfolding s s' by auto
qed

lemma stop_kept:
  "advance e e' \<Longrightarrow> ex_status e \<notin> {Accepted, Running, Succeeded} \<Longrightarrow>
     ex_history e' = ex_history e \<and> ex_stop_reason e' = ex_stop_reason e
     \<and> ex_status e' \<notin> {Accepted, Running, Succeeded}"
  by (cases "ex_status e") (auto simp: advance_def same_exec_def)

lemma stop_won_step: "stop_won (x, h, r) s \<Longrightarrow> ok_step s s' \<Longrightarrow> stop_won (x, h, r) s'"
proof -
  assume a: "stop_won (x, h, r) s" "ok_step s s'"
  obtain R T E where s: "s = (R, T, E)" by (cases s)
  obtain R' T' E' where s': "s' = (R', T', E')" by (cases s')
  note b = a [unfolded s s' ok_step_def]
  show ?thesis
  proof (cases "history_gone h s")
    case True
    with gone_step [of h s s'] b show ?thesis unfolding s s' by auto
  next
    case False
    with b obtain e where e: "E x = Some e" "ex_history e = h" "ex_stop_reason e = Some r"
      "ex_status e \<notin> {Accepted, Running, Succeeded}" by (auto simp: s)
    have "E' x = Some e \<or> (\<exists>e'. E' x = Some e' \<and> advance e e') \<or> history_gone h s'"
      using hstep_exec [of R T E R' T' E' x e] b e by (auto simp: s')
    then show ?thesis
    proof (elim disjE exE conjE)
      fix e' assume "E' x = Some e'" "advance e e'"
      with stop_kept [of e e'] e b show ?thesis unfolding s' by simp
    qed (use e b s' in auto)
  qed
qed

lemma gone_turn_at:
  "history_gone h (R, T, E) \<Longrightarrow> hist_inv R T E \<Longrightarrow> T t = Some tr \<Longrightarrow> tn_history tr \<noteq> h"
  using gone_turn by blast

lemma gone_exec_at:
  "history_gone h (R, T, E) \<Longrightarrow> hist_inv R T E \<Longrightarrow> E x = Some e \<Longrightarrow> ex_history e \<noteq> h"
  using gone_exec by blast

lemma turn_fixed_safe: "turn_fixed (t, tr) (R, T, E) \<Longrightarrow> \<not> turn_rewritten (t, tr) (R, T, E)"
  by (auto simp del: history_gone.simps dest: gone_turn_at)

lemma exec_fixed_safe: "exec_fixed (x, e) (R, T, E) \<Longrightarrow> \<not> exec_rewritten (x, e) (R, T, E)"
  by (auto simp del: history_gone.simps dest: gone_exec_at)

lemma stop_won_safe: "stop_won (x, h, r) (R, T, E) \<Longrightarrow> \<not> stop_lost (x, h, r) (R, T, E)"
  by (auto simp del: history_gone.simps dest: gone_exec_at)

interpretation turn: irreversible ok_step turn_fixed turn_rewritten
proof unfold_locales
  fix k s s'
  show "turn_fixed k s \<Longrightarrow> ok_step s s' \<Longrightarrow> turn_fixed k s'"
    by (cases k) (simp only: turn_fixed_step)
  show "turn_fixed k s \<Longrightarrow> \<not> turn_rewritten k s"
    by (cases k; cases s) (simp only: turn_fixed_safe not_False_eq_True)
qed

interpretation execution: irreversible ok_step exec_fixed exec_rewritten
proof unfold_locales
  fix k s s'
  show "exec_fixed k s \<Longrightarrow> ok_step s s' \<Longrightarrow> exec_fixed k s'"
    by (cases k) (simp only: exec_fixed_step)
  show "exec_fixed k s \<Longrightarrow> \<not> exec_rewritten k s"
    by (cases k; cases s) (simp only: exec_fixed_safe not_False_eq_True)
qed

interpretation stopping: irreversible ok_step stop_won stop_lost
proof unfold_locales
  fix k s s'
  show "stop_won k s \<Longrightarrow> ok_step s s' \<Longrightarrow> stop_won k s'"
    by (cases k rule: prod_cases3) (simp only: stop_won_step)
  show "stop_won k s \<Longrightarrow> \<not> stop_lost k s"
    by (cases k rule: prod_cases3; cases s) (simp only: stop_won_safe not_False_eq_True)
qed

section \<open>Monotone fields\<close>

definition record_le :: "history_row \<Rightarrow> history_row \<Rightarrow> bool" where
  "record_le r r' \<longleftrightarrow> hs_owner r' = hs_owner r \<and> hs_generation r \<le> hs_generation r'
     \<and> hs_next_ordinal r \<le> hs_next_ordinal r' \<and> (hs_deleted r \<noteq> None \<longrightarrow> hs_deleted r' \<noteq> None)"

lemma record_le_refl [simp]: "record_le r r"
  by (simp add: record_le_def)

lemma record_le_trans: "record_le a b \<Longrightarrow> record_le b c \<Longrightarrow> record_le a c"
  by (auto simp: record_le_def)

lemma hstep_record:
  "hstep (R, T, E) (R', T', E') \<Longrightarrow> R h = Some r \<Longrightarrow> \<exists>r'. R' h = Some r' \<and> record_le r r'"
  by (induction "(R, T, E)" "(R', T', E')" rule: hstep.induct) (auto simp: record_le_def)

lemma hsteps_record:
  assumes "hstep\<^sup>*\<^sup>* s s'" and "fst s h = Some r"
  shows "\<exists>r'. fst s' h = Some r' \<and> record_le r r'"
  using assms
proof (induction rule: rtranclp_induct)
  case (step y z)
  then obtain r1 where r1: "fst y h = Some r1" "record_le r r1" by blast
  obtain R T E R' T' E' where "y = (R, T, E)" "z = (R', T', E')" by (metis surj_pair)
  with step(2) r1(1) obtain r2 where "fst z h = Some r2" "record_le r1 r2"
    using hstep_record [of R T E R' T' E' h r1] by auto
  with r1(2) show ?case by (blast intro: record_le_trans)
qed simp

end
