(* ===== verification/History_Requery.thy ===== *)
theory History_Requery
  imports History_Store
begin

text \<open>
  Repeating an old question (\<open>begin_requery\<close>, \<open>begin_execution_requery\<close>), the lists of histories and saved
  results (\<open>_list\<close>) and the projection for an export (\<open>export_snapshot\<close>) of
  \<open>chatbi_control/history.py\<close>. \<open>public\<close> is the check \<open>public_snapshot\<close> of the history codec.
\<close>

section \<open>Repeating a question\<close>

datatype requery_source = FromHistory uid "uid option" | FromSaved uid

text \<open>An error that is no \<open>HistoryError\<close>: a key or a type the stored snapshot lacks.\<close>

datatype requery_error = RqStore store_error | RqSnapshot

type_synonym 'a rq_tx = "requery_error + 'a \<times> db"

text \<open>\<open>execution_data\<close>: what a background execution adds. The run of an analysis is the caller's or new.\<close>

record execution_data =
  xd_hash :: pystr
  xd_kind :: operation_kind
  xd_deadline :: int
  xd_run :: "uid option"

record requery_ids =
  ri_history :: uid
  ri_turn :: uid
  ri_execution :: uid
  ri_run :: uid

record requery_result =
  rr_history :: "uid \<times> history_row"
  rr_attempt :: accepted
  rr_execution :: "(uid \<times> exec_row) option"
  rr_created :: bool

definition store_rq :: "store_error + 'a \<Rightarrow> requery_error + 'a" where
  "store_rq r = map_sum RqStore id r"

definition requery_value :: "requery_source \<Rightarrow> op_value" where
  "requery_value s =
     (case s of
        FromHistory h t \<Rightarrow> RequeryOp (lit ''history'') h t | FromSaved s \<Rightarrow> RequeryOp (lit ''saved'') s None)"

text \<open>\<open>dict.get\<close>: a stored null reads as \<open>None\<close>.\<close>

definition dict_get :: "snapshot \<Rightarrow> string \<Rightarrow> json option" where
  "dict_get snap k = (case obj_get snap (lit k) of Some JNull \<Rightarrow> None | r \<Rightarrow> r)"

text \<open>The default question of a saved query.\<close>

definition saved_question_text :: pystr where
  "saved_question_text = [26681, 25454, 24050, 20445, 23384, 30340, 23436, 25972, 26597, 35810, 26465, 20214,
     37325, 26032, 26597, 35810]"

definition json_falsy :: "json \<Rightarrow> bool" where
  "json_falsy v \<longleftrightarrow> v \<in> {JNull, JBool False, JInt 0, JStr [], JArr [], JObj []}"

text \<open>The question and the title of the new history, and what is repeated. \<open>None\<close> for the question is a
  value that is no text.\<close>

record source_row =
  sr_kind :: kind
  sr_question :: "pystr option"
  sr_title :: pystr
  sr_snapshot :: snapshot

definition json_text :: "json \<Rightarrow> pystr option" where
  "json_text v = (case v of JStr s \<Rightarrow> Some s | _ \<Rightarrow> None)"

definition history_source :: "bool \<Rightarrow> db \<Rightarrow> int \<Rightarrow> uid \<Rightarrow> uid option \<Rightarrow> store_error + source_row" where
  "history_source locked d own h turn =
     bindR (owned_nowait locked d own h) (\<lambda>r.
       if hs_kind r = Analysis then
         Inr \<lparr>sr_kind = Analysis, sr_question = Some (hs_question r), sr_title = [],
              sr_snapshot = [(lit ''original_question'', JStr (hs_question r))]\<rparr>
       else case sel_first (\<lambda>k t. tn_history t = h \<and> Some k = turn \<and> tn_status t = TurnSucceeded) (db_turns d) of
              None \<Rightarrow> Inl not_savable
            | Some (_, t) \<Rightarrow>
                (case tn_snapshot t of
                   None \<Rightarrow> Inl storage_unavailable
                 | Some snap \<Rightarrow> Inr \<lparr>sr_kind = Query, sr_question = Some (tn_question t), sr_title = [],
                                     sr_snapshot = snap\<rparr>))"

definition saved_source :: "bool \<Rightarrow> db \<Rightarrow> int \<Rightarrow> uid \<Rightarrow> requery_error + source_row" where
  "saved_source locked d own s =
     bindR (store_rq (owned_saved locked d own s)) (\<lambda>r.
       bindR (if sv_kind r = Query
              then Inr (case obj_get (sv_snapshot r) (lit ''source_question'') of
                          None \<Rightarrow> Some saved_question_text
                        | Some v \<Rightarrow> if json_falsy v then Some saved_question_text else json_text v)
              else case obj_get (sv_snapshot r) (lit ''original_question'') of
                     None \<Rightarrow> Inl RqSnapshot | Some v \<Rightarrow> Inr (json_text v))
         (\<lambda>q. Inr \<lparr>sr_kind = sv_kind r, sr_question = q, sr_title = sv_title r, sr_snapshot = sv_snapshot r\<rparr>))"

definition read_source :: "bool \<Rightarrow> db \<Rightarrow> int \<Rightarrow> requery_source \<Rightarrow> requery_error + source_row" where
  "read_source locked d own src =
     (case src of
        FromHistory h t \<Rightarrow> store_rq (history_source locked d own h t) | FromSaved s \<Rightarrow> saved_source locked d own s)"

text \<open>A repeated request: the execution of the operation, or the history it created.\<close>

definition replay_execution ::
  "db \<Rightarrow> int \<Rightarrow> uid \<Rightarrow> execution_data option \<Rightarrow> store_error + requery_result option" where
  "replay_execution d own op xd =
     (case xd of
        None \<Rightarrow> Inr None
      | Some x \<Rightarrow>
          bindR (find_execution d own op (xd_hash x)) (\<lambda>found.
            case found of
              None \<Rightarrow> Inr None
            | Some (xid, e) \<Rightarrow>
                bindR (owned d own (ex_history e)) (\<lambda>r.
                  case sel_first (\<lambda>k t. k = ex_turn e \<and> tn_history t = ex_history e) (db_turns d) of
                    None \<Rightarrow> Inl storage_unavailable
                  | Some kt \<Rightarrow>
                      Inr (Some \<lparr>rr_history = (ex_history e, r),
                                 rr_attempt = \<lparr>acc_token = None, acc_turn = kt, acc_base = None, acc_source = None\<rparr>,
                                 rr_execution = Some (xid, e), rr_created = False\<rparr>))))"

definition replay_history ::
  "(op_value \<Rightarrow> pystr) \<Rightarrow> bool \<Rightarrow> db \<Rightarrow> int \<Rightarrow> requery_source \<Rightarrow> uid \<Rightarrow> execution_data option
   \<Rightarrow> store_error + requery_result option" where
  "replay_history sha locked d own src op xd =
     (case sel_first (\<lambda>_ r. hs_owner r = own \<and> hs_creation_op r = op) (db_records d) of
        None \<Rightarrow> Inr None
      | Some (h, r) \<Rightarrow>
          if locked then Inl busy
          else if xd \<noteq> None then Inl operation_conflict
          else if hs_creation_hash r \<noteq> sha (requery_value src) then Inl operation_conflict
          else if hs_deleted r \<noteq> None then Inl unavailable
          else case sel_first (\<lambda>_ t. tn_history t = h \<and> tn_op t = op) (db_turns d) of
                 None \<Rightarrow> Inl storage_unavailable
               | Some (k, t) \<Rightarrow>
                   if tn_status t = TurnAccepted then Inl busy
                   else if tn_status t = TurnUnconfirmed then Inl save_unconfirmed
                   else Inr (Some \<lparr>rr_history = (h, r),
                                   rr_attempt = \<lparr>acc_token = None, acc_turn = (k, t), acc_base = None,
                                                 acc_source = None\<rparr>,
                                   rr_execution = None, rr_created = False\<rparr>))"

definition requery_record ::
  "(op_value \<Rightarrow> pystr) \<Rightarrow> time \<Rightarrow> int \<Rightarrow> requery_source \<Rightarrow> uid \<Rightarrow> source_row \<Rightarrow> pystr \<Rightarrow> uid \<Rightarrow> history_row" where
  "requery_record sha now own src op s question run =
     \<lparr>hs_owner = own, hs_kind = sr_kind s,
      hs_title = (if sr_title s = [] then take 120 question else sr_title s), hs_question = question,
      hs_creation_op = op, hs_creation_hash = sha (requery_value src), hs_created_at = now,
      hs_updated_at = now, hs_context_revision = 0, hs_record_revision = 0, hs_next_ordinal = 1,
      hs_last_success = None, hs_active = None, hs_generation = 0,
      hs_run = (if sr_kind s = Analysis then Some run else None), hs_deleted = None\<rparr>"

text \<open>The new history with its first turn; the snapshot it repeats is stored with the turn.\<close>

definition open_requery ::
  "(op_value \<Rightarrow> pystr) \<Rightarrow> (snapshot \<Rightarrow> string + unit) \<Rightarrow> time \<Rightarrow> db \<Rightarrow> int \<Rightarrow> requery_source \<Rightarrow> uid \<Rightarrow> pystr \<Rightarrow> uid
   \<Rightarrow> requery_ids \<Rightarrow> execution_data option \<Rightarrow> source_row \<Rightarrow> pystr \<Rightarrow> requery_result tx" where
  "open_requery sha codec now d own src op request epoch ids xd s question =
     (let run = (case xd of None \<Rightarrow> ri_run ids
                 | Some x \<Rightarrow> (case xd_run x of None \<Rightarrow> ri_run ids | Some r \<Rightarrow> if r = [] then ri_run ids else r));
          row = requery_record sha now own src op s question run
      in case insert_row (\<lambda>r' r. hs_run r' = hs_run r \<and> hs_run r \<noteq> None) (ri_history ids) row (db_records d) of
           None \<Rightarrow> Inl storage_unavailable
         | Some records \<Rightarrow>
             bindR (begin_turn codec (\<lambda>_. None) False now (d\<lparr>db_records := records\<rparr>) own (ri_history ids) question
                      op 0 request epoch (sha (requery_value src)) (ri_turn ids)) (\<lambda>(acc, d1).
             let d2 = d1\<lparr>db_turns := upd_where (\<lambda>k _. k = fst (acc_turn acc))
                           (\<lambda>t. t\<lparr>tn_input := Some (sr_snapshot s)\<rparr>) (db_turns d1)\<rparr>;
                 att = acc\<lparr>acc_base := dict_get (sr_snapshot s) ''query_state'', acc_source := Some (sr_snapshot s)\<rparr>
             in case (acc_token acc, xd) of
                  (None, Some _) \<Rightarrow> Inl storage_unavailable
                | (_, None) \<Rightarrow>
                    bindR (owned d2 own (ri_history ids)) (\<lambda>r.
                      Inr (\<lparr>rr_history = (ri_history ids, r), rr_attempt = att, rr_execution = None,
                             rr_created = True\<rparr>, d2))
                | (Some tok, Some x) \<Rightarrow>
                    bindR (insert_execution now d2 (ri_execution ids) own (ri_history ids) (fst (acc_turn acc)) op
                             (xd_hash x) (sr_kind s) (xd_kind x) epoch (tk_generation tok) (xd_deadline x))
                      (\<lambda>(e, d3). bindR (owned d3 own (ri_history ids)) (\<lambda>r.
                        Inr (\<lparr>rr_history = (ri_history ids, r), rr_attempt = att,
                               rr_execution = Some (ri_execution ids, e), rr_created = True\<rparr>, d3)))))"

text \<open>\<open>locked\<close> and \<open>source_locked\<close>: the row of an earlier request and the row of the source are held by
  another transaction. The branch of a lost race between the two statements is not reachable when a
  transaction is one step.\<close>

definition begin_requery ::
  "(op_value \<Rightarrow> pystr) \<Rightarrow> (snapshot \<Rightarrow> string + unit) \<Rightarrow> (snapshot \<Rightarrow> string + unit)
   \<Rightarrow> (kind \<Rightarrow> store_error option) \<Rightarrow> bool \<Rightarrow> bool \<Rightarrow> time \<Rightarrow> db \<Rightarrow> int \<Rightarrow> requery_source \<Rightarrow> uid \<Rightarrow> pystr \<Rightarrow> uid
   \<Rightarrow> requery_ids \<Rightarrow> execution_data option \<Rightarrow> requery_result rq_tx" where
  "begin_requery sha codec public before_accept locked source_locked now d own src op request epoch ids xd =
     bindR (store_rq (replay_execution d own op xd)) (\<lambda>again.
     case again of
       Some r \<Rightarrow> Inr (r, d)
     | None \<Rightarrow>
         bindR (store_rq (replay_history sha locked d own src op xd)) (\<lambda>known.
         case known of
           Some r \<Rightarrow> Inr (r, d)
         | None \<Rightarrow>
             bindR (read_source source_locked d own src) (\<lambda>s.
             bindR (if sr_kind s = Query \<or> (\<exists>x. src = FromSaved x)
                    then store_rq (map_sum HistoryError id (public (sr_snapshot s))) else Inr ()) (\<lambda>_.
             case before_accept (sr_kind s) of
               Some e \<Rightarrow> Inl (RqStore e)
             | None \<Rightarrow>
                 (case sr_question s of
                    None \<Rightarrow> Inl RqSnapshot
                  | Some q \<Rightarrow> store_rq (open_requery sha codec now d own src op request epoch ids xd s q))))))"

text \<open>\<open>begin_execution_requery\<close>: always with an execution, without an admission callback.\<close>

definition begin_execution_requery ::
  "(op_value \<Rightarrow> pystr) \<Rightarrow> (snapshot \<Rightarrow> string + unit) \<Rightarrow> (snapshot \<Rightarrow> string + unit) \<Rightarrow> bool \<Rightarrow> bool \<Rightarrow> time \<Rightarrow> db
   \<Rightarrow> int \<Rightarrow> requery_source \<Rightarrow> uid \<Rightarrow> pystr \<Rightarrow> uid \<Rightarrow> requery_ids \<Rightarrow> execution_data \<Rightarrow> requery_result rq_tx" where
  "begin_execution_requery sha codec public locked source_locked now d own src op request epoch ids x =
     begin_requery sha codec public (\<lambda>_. None) locked source_locked now d own src op request epoch ids (Some x)"

section \<open>Lists\<close>

text \<open>The cursor: the sort key of the last row shown, and a digest of the filter it was made for.\<close>

record list_cursor =
  lc_updated :: time
  lc_id :: uid
  lc_filter :: pystr

record list_filter =
  lf_kind :: "kind option"
  lf_text :: pystr
  lf_saved :: bool

text \<open>The search pattern: the percent sign (37), the backslash (92) and the underscore (95) of the user's text
  are escaped.\<close>

definition escape_like :: "pystr \<Rightarrow> pystr" where
  "escape_like q = concat (map (\<lambda>c. if c \<in> {37, 92, 95} then [92, c] else [c]) q)"

definition like_pattern :: "pystr \<Rightarrow> pystr" where
  "like_pattern q = 37 # escape_like q @ [37]"

text \<open>The row value \<open>(updated_at, id)\<close>; identifiers compare as the database compares them.\<close>

definition before_boundary :: "(uid \<Rightarrow> uid \<Rightarrow> bool) \<Rightarrow> time \<times> uid \<Rightarrow> time \<times> uid \<Rightarrow> bool" where
  "before_boundary lt a b \<longleftrightarrow> fst a < fst b \<or> (fst a = fst b \<and> lt (snd a) (snd b))"

fun insert_desc :: "(uid \<Rightarrow> uid \<Rightarrow> bool) \<Rightarrow> ('r \<Rightarrow> time) \<Rightarrow> uid \<times> 'r \<Rightarrow> (uid \<times> 'r) list \<Rightarrow> (uid \<times> 'r) list" where
  "insert_desc lt upd r [] = [r]"
| "insert_desc lt upd r (x # xs) =
     (if before_boundary lt (upd (snd r), fst r) (upd (snd x), fst x)
      then x # insert_desc lt upd r xs else r # x # xs)"

definition order_desc :: "(uid \<Rightarrow> uid \<Rightarrow> bool) \<Rightarrow> ('r \<Rightarrow> time) \<Rightarrow> (uid \<times> 'r) list \<Rightarrow> (uid \<times> 'r) list" where
  "order_desc lt upd rows = foldr (insert_desc lt upd) rows []"

text \<open>\<open>_list\<close>: one row more than the limit decides whether there is a next page. The cursor is what the text
  of the client decodes to, \<open>None\<close> inside when it is malformed.\<close>

definition list_page ::
  "(uid \<Rightarrow> uid \<Rightarrow> bool) \<Rightarrow> (list_filter \<Rightarrow> pystr) \<Rightarrow> ('r \<Rightarrow> time) \<Rightarrow> (uid \<Rightarrow> 'r \<Rightarrow> bool) \<Rightarrow> (uid, 'r) table
   \<Rightarrow> list_filter \<Rightarrow> nat \<Rightarrow> list_cursor option option \<Rightarrow> store_error + ((uid \<times> 'r) list \<times> list_cursor option)" where
  "list_page lt fsha upd visible rows flt limit cursor =
     bindR (case cursor of
              None \<Rightarrow> Inr (\<lambda>_. True)
            | Some None \<Rightarrow> Inl invalid_request
            | Some (Some c) \<Rightarrow>
                if lc_filter c \<noteq> fsha flt then Inl invalid_request
                else Inr (\<lambda>(k, r). before_boundary lt (upd r, k) (lc_updated c, lc_id c))) (\<lambda>below.
       let found = take (limit + 1) (order_desc lt upd (filter (\<lambda>(k, r). visible k r \<and> below (k, r)) rows));
           items = take limit found
       in if length found > limit then
            (case last items of
               (k, r) \<Rightarrow> Inr (items, Some \<lparr>lc_updated = upd r, lc_id = k, lc_filter = fsha flt\<rparr>))
          else Inr (items, None))"

definition list_histories ::
  "(uid \<Rightarrow> uid \<Rightarrow> bool) \<Rightarrow> (list_filter \<Rightarrow> pystr) \<Rightarrow> (pystr \<Rightarrow> pystr \<Rightarrow> bool) \<Rightarrow> db \<Rightarrow> int \<Rightarrow> kind option \<Rightarrow> nat
   \<Rightarrow> list_cursor option option \<Rightarrow> pystr \<Rightarrow> store_error + ((uid \<times> history_row) list \<times> list_cursor option)" where
  "list_histories lt fsha ilike d own knd limit cursor q =
     list_page lt fsha hs_updated_at
       (\<lambda>_ r. hs_owner r = own \<and> hs_deleted r = None \<and> (case knd of None \<Rightarrow> True | Some k \<Rightarrow> hs_kind r = k)
          \<and> (q = [] \<or> ilike (hs_title r) (like_pattern q)))
       (db_records d) \<lparr>lf_kind = knd, lf_text = q, lf_saved = False\<rparr> limit cursor"

definition list_saved_results ::
  "(uid \<Rightarrow> uid \<Rightarrow> bool) \<Rightarrow> (list_filter \<Rightarrow> pystr) \<Rightarrow> (pystr \<Rightarrow> pystr \<Rightarrow> bool) \<Rightarrow> db \<Rightarrow> int \<Rightarrow> kind option \<Rightarrow> nat
   \<Rightarrow> list_cursor option option \<Rightarrow> pystr \<Rightarrow> store_error + ((uid \<times> saved_row) list \<times> list_cursor option)" where
  "list_saved_results lt fsha ilike d own knd limit cursor q =
     list_page lt fsha sv_updated_at
       (\<lambda>_ r. sv_owner r = own \<and> (case knd of None \<Rightarrow> True | Some k \<Rightarrow> sv_kind r = k)
          \<and> (q = [] \<or> ilike (sv_title r) (like_pattern q)))
       (db_saved d) \<lparr>lf_kind = knd, lf_text = q, lf_saved = True\<rparr> limit cursor"

section \<open>Export\<close>

record export_source =
  es_kind :: json
  es_title :: pystr
  es_question :: "pystr option"
  es_result_time :: "time option"
  es_saved_time :: "time option"
  es_result :: "(pystr \<times> json) list"

text \<open>What leaves the store: of a query everything but its SQL.\<close>

definition export_view ::
  "(snapshot \<Rightarrow> string + (pystr \<times> json) list) \<Rightarrow> snapshot \<Rightarrow> pystr \<Rightarrow> pystr option \<Rightarrow> time option \<Rightarrow> time option
   \<Rightarrow> store_error + export_source" where
  "export_view public snap title question completed saved =
     bindR (map_sum HistoryError id (public snap)) (\<lambda>result.
       case obj_get snap (lit ''kind'') of
         None \<Rightarrow> Inl storage_unavailable
       | Some k \<Rightarrow>
           let is_query = (k = JStr (lit ''query''));
               asked = (case question of
                          Some q \<Rightarrow> Some q
                        | None \<Rightarrow> (case obj_get snap (lit (if is_query then ''source_question''
                                                          else ''original_question'')) of
                                     Some v \<Rightarrow> json_text v | None \<Rightarrow> None))
           in Inr \<lparr>es_kind = k, es_title = title, es_question = asked, es_result_time = completed,
                   es_saved_time = saved,
                   es_result = (if is_query then filter (\<lambda>(k, _). k \<noteq> lit ''sql'') result else result)\<rparr>)"

datatype export_request = ExportTurn uid "uid option" | ExportSaved uid | ExportOther

definition export_snapshot ::
  "(snapshot \<Rightarrow> string + (pystr \<times> json) list) \<Rightarrow> db \<Rightarrow> int \<Rightarrow> export_request \<Rightarrow> store_error + export_source" where
  "export_snapshot public d own req =
     (case req of
        ExportTurn h turn \<Rightarrow>
          bindR (owned d own h) (\<lambda>r.
            case sel_first (\<lambda>k t. tn_history t = h \<and> Some k = turn) (db_turns d) of
              None \<Rightarrow> Inl unavailable
            | Some (_, t) \<Rightarrow>
                (case tn_snapshot t of
                   None \<Rightarrow> Inl unavailable
                 | Some snap \<Rightarrow>
                     if tn_status t \<noteq> TurnSucceeded then Inl unavailable
                     else export_view public snap (hs_title r) (Some (tn_question t)) (tn_completed_at t) None))
      | ExportSaved s \<Rightarrow>
          bindR (owned_saved False d own s) (\<lambda>r.
            export_view public (sv_snapshot r) (sv_title r) None None (Some (sv_created_at r)))
      | ExportOther \<Rightarrow> Inl unavailable)"

end
