(* ===== verification/Store_Steps.thy ===== *)
theory Store_Steps
  imports Store_Abstract History_Requery
begin

text \<open>
  Every transaction of \<open>History_Store\<close> refines the step relation of \<open>Store_Abstract\<close> (a committed
  transaction is a sequence of abstract steps on the tables it leaves), so it keeps the invariant
  and undoes nothing. \<open>store_step\<close> interleaves all of them.
\<close>

definition tables_of :: "db \<Rightarrow> tables" where
  "tables_of d = (map_of (db_records d), map_of (db_turns d), map_of (db_execs d))"

definition refined :: "db \<Rightarrow> db \<Rightarrow> bool" where
  "refined d d' \<longleftrightarrow> db_ok d' \<and> hstep\<^sup>*\<^sup>* (tables_of d) (tables_of d')"

lemma db_ok_tables: "db_ok d \<longleftrightarrow> keys_ok (db_records d) \<and> keys_ok (db_turns d)
    \<and> keys_ok (db_execs d) \<and> tables_ok (tables_of d)"
  by (simp add: db_ok_def tables_of_def)

lemma refined_refl: "db_ok d \<Longrightarrow> refined d d"
  by (simp add: refined_def)

lemma refined_trans: "refined a b \<Longrightarrow> refined b c \<Longrightarrow> refined a c"
  by (auto simp: refined_def)

lemma refined_ok: "refined d d' \<Longrightarrow> db_ok d'"
  by (simp add: refined_def)

lemma refinedI:
  assumes "db_ok d" and "keys_ok (db_records d')" "keys_ok (db_turns d')" "keys_ok (db_execs d')"
    and "hstep (tables_of d) (tables_of d')"
  shows "refined d d'"
  using assms hstep_inv by (auto simp: refined_def db_ok_tables)

lemma refined_same:
  "db_ok d \<Longrightarrow> db_records d' = db_records d \<Longrightarrow> db_turns d' = db_turns d \<Longrightarrow> db_execs d' = db_execs d
     \<Longrightarrow> refined d d'"
  by (simp add: refined_def db_ok_def tables_of_def)

section \<open>Shared facts on single statements\<close>

lemma owned_Inr: "owned d own h = Inr r \<longleftrightarrow>
    map_of (db_records d) h = Some r \<and> hs_owner r = own \<and> hs_deleted r = None"
  by (auto simp: owned_def split: option.splits)

lemma owned_nowait_Inr: "owned_nowait locked d own h = Inr r \<longleftrightarrow> owned d own h = Inr r \<and> \<not> locked"
  by (auto simp: owned_nowait_def bindR_iffs)

lemma locked_execution_Inr:
  "db_ok d \<Longrightarrow> locked_execution d own x = Inr e \<longleftrightarrow> map_of (db_execs d) x = Some e \<and> ex_owner e = own"
proof -
  assume ok: "db_ok d"
  let ?P = "\<lambda>x' e. x' = x \<and> ex_owner e = own"
  have k: "keys_ok (db_execs d)" using ok by (simp add: db_ok_def)
  show ?thesis
  proof (cases "sel_first ?P (db_execs d)")
    case None
    then show ?thesis using sel_first_None_map_of [OF None]
      by (auto simp: locked_execution_def)
  next
    case (Some p)
    obtain x' e' where p: "p = (x', e')" by fastforce
    with Some sel_first_map_of [OF k, of ?P x' e'] show ?thesis
      by (auto simp: locked_execution_def)
  qed
qed

lemma select_execution:
  "db_ok d \<Longrightarrow> sel_first (\<lambda>x' e. x' = x \<and> ex_owner e = own) (db_execs d) = Some (x', e) \<Longrightarrow>
     x' = x \<and> map_of (db_execs d) x = Some e \<and> ex_owner e = own"
  using sel_first_map_of [of "db_execs d" "\<lambda>x' e. x' = x \<and> ex_owner e = own" x' e]
  by (auto simp: db_ok_def)

lemma refined_exec_row:
  assumes ok: "db_ok d" and x: "map_of (db_execs d) x = Some e" and P: "P x e"
    and only: "\<And>x' e'. P x' e' \<Longrightarrow> x' = x"
    and f: "advance e (f e)" "ex_status (f e) \<in> {Running, Stopping}"
  shows "refined d (d\<lparr>db_execs := upd_where P f (db_execs d)\<rparr>)"
    and "map_of (upd_where P f (db_execs d)) = (map_of (db_execs d))(x \<mapsto> f e)"
proof -
  show m: "map_of (upd_where P f (db_execs d)) = (map_of (db_execs d))(x \<mapsto> f e)"
    using x P only by (rule map_of_upd_one)
  show "refined d (d\<lparr>db_execs := upd_where P f (db_execs d)\<rparr>)"
    by (rule refinedI) (use ok m x f in \<open>auto simp: db_ok_def tables_of_def intro: advance_exec\<close>)
qed

section \<open>Accepting\<close>

lemma begin_turn_Inr:
  assumes ok: "db_ok d"
    and res: "begin_turn codec ba locked now d own h q op rv rq ep dg nid = Inr (acc, d')"
  obtains (replay) t where "acc_token acc = None" "d' = d"
      "acc_turn acc = t" "map_of (db_turns d) (fst t) = Some (snd t)"
      "tn_history (snd t) = h" "tn_op (snd t) = op" "tn_hash (snd t) = dg"
      "tn_status (snd t) \<in> {TurnSucceeded, TurnFailed}"
  | (fresh) r t where "owned d own h = Inr r" "hs_active r = None" "hs_context_revision r = rv"
      "db_epoch d = Some ep" "map_of (db_turns d) nid = None"
      "acc_token acc = Some \<lparr>tk_history = h, tk_turn = nid, tk_epoch = ep,
         tk_generation = hs_generation r + 1\<rparr>"
      "acc_turn acc = (nid, t)" "tn_history t = h" "tn_status t = TurnAccepted" "tn_epoch t = ep"
      "tn_generation t = hs_generation r + 1" "tn_ordinal t = hs_next_ordinal r" "tn_op t = op"
      "map_of (db_turns d') = (map_of (db_turns d))(nid \<mapsto> t)"
      "map_of (db_records d') = (map_of (db_records d))(h \<mapsto> r\<lparr>hs_active := Some nid,
         hs_generation := hs_generation r + 1, hs_next_ordinal := hs_next_ordinal r + 1,
         hs_record_revision := hs_record_revision r + 1, hs_updated_at := now\<rparr>)"
      "db_execs d' = db_execs d" "db_epoch d' = db_epoch d" "db_runs d' = db_runs d"
      "db_saved d' = db_saved d" "refined d d'" "tn_question t = q"
proof -
  from res obtain r where r: "owned d own h = Inr r"
    by (auto simp: begin_turn_def bindR_iffs owned_nowait_Inr)
  have k: "keys_ok (db_turns d)" using ok by (simp add: db_ok_def)
  show thesis
  proof (cases "sel_first (\<lambda>_ t. tn_history t = h \<and> tn_op t = op) (db_turns d)")
    case (Some p)
    obtain tid t where p: "p = (tid, t)" by fastforce
    have t: "map_of (db_turns d) tid = Some t" "tn_history t = h" "tn_op t = op"
      using sel_first_map_of [OF k] Some p by blast+
    from res r Some p have "tn_hash t = dg" "tn_status t \<in> {TurnSucceeded, TurnFailed}"
      "acc_token acc = None" "acc_turn acc = (tid, t)" "d' = d"
      by (auto simp: begin_turn_def bindR_iffs owned_nowait_Inr split: if_splits)
        (metis turn_status.exhaust)+
    with t show ?thesis by (intro replay [of "(tid, t)"]) auto
  next
    case None
    define t :: turn_row where "t = \<lparr>tn_history = h, tn_ordinal = hs_next_ordinal r, tn_op = op, tn_hash = dg,
                      tn_question = q, tn_request = rq, tn_status = TurnAccepted,
                      tn_epoch = ep, tn_generation = hs_generation r + 1, tn_completed_at = None,
                      tn_error = None, tn_input = None, tn_snapshot = None\<rparr>"
    define f :: "history_row \<Rightarrow> history_row" where "f = (\<lambda>x. x\<lparr>hs_active := Some nid, hs_generation := hs_generation r + 1,
                                 hs_next_ordinal := hs_next_ordinal x + 1,
                                 hs_record_revision := hs_record_revision x + 1,
                                 hs_updated_at := now\<rparr>)"
    from res r None obtain turns where
      act: "hs_active r = None" and rv: "hs_context_revision r = rv" and ep: "db_epoch d = Some ep"
      and ins: "insert_row turn_clash nid t (db_turns d) = Some turns"
      and d': "d' = d\<lparr>db_turns := turns, db_records := upd_where (\<lambda>h' _. h' = h) f (db_records d)\<rparr>"
      and acc: "acc_token acc = Some \<lparr>tk_history = h, tk_turn = nid, tk_epoch = ep,
         tk_generation = hs_generation r + 1\<rparr>" "acc_turn acc = (nid, t)"
      by (auto simp: begin_turn_def bindR_iffs owned_nowait_Inr Let_def t_def f_def
          split: if_splits option.splits)
    note ins = insert_row_Some [OF ins]
    have R: "map_of (db_records d) h = Some r" "hs_deleted r = None" using r by (auto simp: owned_Inr)
    have mr: "map_of (db_records d') = (map_of (db_records d))(h \<mapsto> f r)"
      by (simp add: d' map_of_upd_key R)
    have mt: "map_of (db_turns d') = (map_of (db_turns d))(nid \<mapsto> t)"
      by (simp add: d' ins)
    have fresh_op: "\<forall>u y. map_of (db_turns d) u = Some y \<and> tn_history y = h \<longrightarrow> tn_op y \<noteq> op"
      using sel_first_None_map_of [OF None] by blast
    have "hstep (tables_of d) (tables_of d')"
      unfolding tables_of_def mr mt using ins(1) act R
      by (simp add: d') (rule accept_turn [where h = h]; use fresh_op in \<open>simp add: t_def f_def\<close>)
    then have "refined d d'" using ok ins(3) by (intro refinedI) (simp_all add: d' db_ok_def)
    with r act rv ep ins(1) acc mt mr show ?thesis
      by (intro fresh [of r t]) (simp_all add: t_def f_def d')
  qed
qed

lemma begin_turn_refines:
  assumes "db_ok d" and "begin_turn codec ba locked now d own h q op rv rq ep dg nid = Inr (acc, d')"
  shows "refined d d'"
  using assms by (rule begin_turn_Inr) (use assms in \<open>auto intro: refined_refl\<close>)

lemma begin_attempt_refines:
  "db_ok d \<Longrightarrow> begin_attempt sha codec ba locked now d own h q op rv rq ep nid = Inr (acc, d')
     \<Longrightarrow> refined d d'"
  unfolding begin_attempt_def by (rule begin_turn_refines)

lemma begin_analysis_attempt_refines:
  "db_ok d \<Longrightarrow> begin_analysis_attempt sha codec ba locked now d own h op rv rq ep nid = Inr (acc, d')
     \<Longrightarrow> refined d d'"
  by (auto simp: begin_analysis_attempt_def bindR_iffs split: if_splits intro: begin_turn_refines)

lemma insert_execution_Inr:
  assumes "insert_execution now d x own h t op hash mode okind ep gen dl = Inr (e, d')"
  shows "ex_owner e = own" "ex_history e = h" "ex_turn e = t" "ex_status e = Accepted"
    "ex_epoch e = ep" "ex_generation e = gen" "ex_op e = op" "ex_hash e = hash" "ex_mode e = mode"
    and "map_of (db_execs d) x = None"
    and "map_of (db_execs d') = (map_of (db_execs d))(x \<mapsto> e)"
    and "keys_ok (db_execs d) \<Longrightarrow> keys_ok (db_execs d')"
    and "\<And>y f. map_of (db_execs d) y = Some f \<Longrightarrow> \<not> (ex_owner f = own \<and> ex_op f = op)"
    and "db_records d' = db_records d" "db_turns d' = db_turns d" "db_epoch d' = db_epoch d"
  using assms
  by (auto simp: insert_execution_def Let_def exec_clash_def split: option.splits
      dest: insert_row_Some)

lemma insert_execution_saved:
  assumes "insert_execution now d x own h t op hash mode okind ep gen dl = Inr (e, d')"
  shows "db_saved d' = db_saved d" "db_runs d' = db_runs d"
  using assms by (auto simp: insert_execution_def Let_def split: option.splits)

text \<open>The execution row of a turn that was accepted a moment ago.\<close>

lemma insert_execution_refines:
  assumes ok: "db_ok d1" and ie: "insert_execution now d1 x own h t op hash mode okind ep gen dl = Inr (e, d')"
    and t: "map_of (db_turns d1) t = Some tr" "tn_history tr = h" "tn_generation tr = gen" "tn_epoch tr = ep"
      "tn_status tr = TurnAccepted"
    and new: "\<And>y f. map_of (db_execs d1) y = Some f \<Longrightarrow> ex_turn f \<noteq> t"
  shows "refined d1 d'"
proof -
  note i = insert_execution_Inr [OF ie]
  have "hstep (tables_of d1) (map_of (db_records d1), map_of (db_turns d1), (map_of (db_execs d1))(x \<mapsto> e))"
    unfolding tables_of_def using i t new by (intro schedule_exec [where tr = tr]) auto
  then show ?thesis
    using i ok by (intro refinedI) (simp_all add: db_ok_def tables_of_def)
qed

lemma begin_execution_attempt_Inr:
  assumes ok: "db_ok d"
    and res: "begin_execution_attempt sha codec locked now d own h q op hash rv rq ep mode okind dl
                rr nt nx = Inr (ExecutionAcceptance xe acc created, d')"
  obtains (existing) "\<not> created" "acc = None" "d' = d" "map_of (db_execs d) (fst xe) = Some (snd xe)"
      "ex_owner (snd xe) = own" "ex_op (snd xe) = op" "strip (ex_hash (snd xe)) = hash"
  | (new) a r where "created" "acc = Some a" "refined d d'" "owned d own h = Inr r" "hs_active r = None"
      "hs_kind r = mode" "fst xe = nx" "ex_status (snd xe) = Accepted"
      "map_of (db_execs d') = (map_of (db_execs d))(nx \<mapsto> snd xe)"
      "acc_token a = Some \<lparr>tk_history = h, tk_turn = nt, tk_epoch = ep,
         tk_generation = hs_generation r + 1\<rparr>"
      "ex_turn (snd xe) = nt" "ex_generation (snd xe) = hs_generation r + 1" "ex_history (snd xe) = h"
      "ex_owner (snd xe) = own" "ex_op (snd xe) = op" "ex_hash (snd xe) = hash"
proof (cases "find_execution d own op hash")
  case (Inl e)
  with res show ?thesis by (simp add: begin_execution_attempt_def)
next
  case (Inr fe)
  have kx: "keys_ok (db_execs d)" using ok by (simp add: db_ok_def)
  show ?thesis
  proof (cases fe)
    case (Some p)
    then have sel: "sel_first (\<lambda>_ e. ex_owner e = own \<and> ex_op e = op) (db_execs d) = Some p"
      and hs: "strip (ex_hash (snd p)) = hash"
      using Inr by (auto simp: find_execution_def split: option.splits prod.splits if_splits)
    have "map_of (db_execs d) (fst p) = Some (snd p)" "ex_owner (snd p) = own" "ex_op (snd p) = op"
      using sel_first_map_of [OF kx, of _ "fst p" "snd p"] sel by auto
    with res Inr Some hs show ?thesis
      by (intro existing) (auto simp: begin_execution_attempt_def)
  next
    case None
    from res Inr None obtain r a d1 q' rv' dg e where
      r: "owned d own h = Inr r" "hs_kind r = mode"
      and bt: "begin_turn codec (\<lambda>_. None) locked now d own h q' op rv' rq ep dg nt = Inr (a, d1)"
      and acc: "acc = Some a" "created"
      and xe: "xe = (nx, e)"
      and tok: "acc_token a \<noteq> None"
      and ie: "insert_execution now d1 nx own h (fst (acc_turn a)) op hash mode okind ep
                 (tk_generation (the (acc_token a))) dl = Inr (e, d')"
      by (auto simp: begin_execution_attempt_def bindR_iffs owned_nowait_Inr
          split: if_splits option.splits)
    from bt show ?thesis
    proof (cases rule: begin_turn_Inr [OF ok, consumes 1, case_names replay fresh])
      case (replay t)
      with tok show ?thesis by simp
    next
      case (fresh r1 t)
      note i = insert_execution_Inr [OF ie]
      have r1: "r1 = r" using fresh r by simp
      have "refined d1 d'"
        by (rule insert_execution_refines [OF refined_ok [OF fresh(20)] ie, where tr = t])
          (use fresh in \<open>simp_all\<close>, use ok in \<open>auto simp: db_ok_def dest: inv_exec\<close>)
      with fresh have "refined d d'" by (blast intro: refined_trans)
      then show ?thesis
        using fresh i r1 r acc xe by (intro new [of a r]) auto
    qed
  qed
qed

lemma begin_execution_attempt_refines:
  assumes "db_ok d" and "begin_execution_attempt sha codec locked now d own h q op hash rv rq ep mode
    okind dl rr nt nx = Inr (acc, d')"
  shows "refined d d'"
proof (cases acc)
  case (ExecutionAcceptance xe a c)
  show ?thesis
    using assms(2) unfolding ExecutionAcceptance
    by (rule begin_execution_attempt_Inr [OF assms(1)]) (use assms in \<open>auto intro: refined_refl\<close>)
qed

section \<open>Repeating a question\<close>

lemma open_requery_Inr:
  assumes ok: "db_ok d"
    and res: "open_requery sha codec now d own src op rq ep ids xd s q = Inr (res, d')"
  obtains z t where "map_of (db_records d) (ri_history ids) = None" "map_of (db_turns d) (ri_turn ids) = None"
    "map_of (db_records d') = (map_of (db_records d))(ri_history ids \<mapsto> z)"
    "hs_owner z = own" "hs_creation_op z = op" "hs_kind z = sr_kind s" "hs_question z = q"
    "hs_active z = Some (ri_turn ids)" "hs_generation z = 1" "hs_deleted z = None"
    "map_of (db_turns d') = (map_of (db_turns d))(ri_turn ids \<mapsto> t)"
    "tn_question t = q" "tn_status t = TurnAccepted" "tn_input t = Some (sr_snapshot s)"
    "db_saved d' = db_saved d" "db_runs d' = db_runs d" "db_epoch d' = db_epoch d" "db_epoch d = Some ep"
    "rr_created res" "rr_history res = (ri_history ids, z)"
    "acc_token (rr_attempt res) = Some \<lparr>tk_history = ri_history ids, tk_turn = ri_turn ids, tk_epoch = ep,
       tk_generation = 1\<rparr>"
    "acc_source (rr_attempt res) = Some (sr_snapshot s)"
    "acc_base (rr_attempt res) = dict_get (sr_snapshot s) ''query_state''" "refined d d'"
proof -
  let ?upd = "\<lambda>acc d1. d1\<lparr>db_turns := upd_where (\<lambda>k _. k = fst (acc_turn acc))
                           (\<lambda>t. t\<lparr>tn_input := Some (sr_snapshot s)\<rparr>) (db_turns d1)\<rparr>"
  obtain row records acc d1 where
    ins: "insert_row (\<lambda>r' r. hs_run r' = hs_run r \<and> hs_run r \<noteq> None) (ri_history ids) row (db_records d) = Some records"
    and row: "hs_active row = None" "hs_last_success row = None" "hs_generation row = 0" "hs_deleted row = None"
      "hs_owner row = own" "hs_creation_op row = op" "hs_kind row = sr_kind s" "hs_question row = q"
    and bt: "begin_turn codec (\<lambda>_. None) False now (d\<lparr>db_records := records\<rparr>) own (ri_history ids) q op 0 rq ep
               (sha (requery_value src)) (ri_turn ids) = Inr (acc, d1)"
    and rest: "(case (acc_token acc, xd) of
        (None, Some _) \<Rightarrow> False
      | (_, None) \<Rightarrow> d' = ?upd acc d1
      | (Some tok, Some x) \<Rightarrow> \<exists>e. insert_execution now (?upd acc d1) (ri_execution ids) own
                 (ri_history ids) (fst (acc_turn acc)) op (xd_hash x) (sr_kind s) (xd_kind x) ep (tk_generation tok)
                 (xd_deadline x) = Inr (e, d'))"
    and out: "rr_created res" "fst (rr_history res) = ri_history ids"
      "owned d' own (ri_history ids) = Inr (snd (rr_history res))"
      "acc_token (rr_attempt res) = acc_token acc" "acc_source (rr_attempt res) = Some (sr_snapshot s)"
      "acc_base (rr_attempt res) = dict_get (sr_snapshot s) ''query_state''"
    using res
    by (auto simp: open_requery_def Let_def bindR_iffs requery_record_def split: option.splits)
  let ?dr = "d\<lparr>db_records := records\<rparr>"
  note i = insert_row_Some [OF ins]
  have "hstep (tables_of d) (tables_of ?dr)"
    unfolding tables_of_def using i row by (simp add: open_history)
  then have r1: "refined d ?dr" by (rule refinedI [OF ok, rotated -1]) (use ok i in \<open>simp_all add: db_ok_def\<close>)
  have okr: "db_ok ?dr" using r1 by (rule refined_ok)
  have inv: "hist_inv (map_of (db_records d)) (map_of (db_turns d)) (map_of (db_execs d))"
    using ok by (simp add: db_ok_def)
  have no_turn: "tn_history t \<noteq> ri_history ids" if "map_of (db_turns d) k = Some t" for k t
    using inv_turn [OF inv that] i(1) by auto
  from bt show ?thesis
  proof (cases rule: begin_turn_Inr [OF okr, consumes 1, case_names replay fresh])
    case (replay t)
    then show ?thesis using no_turn [of "fst t" "snd t"] by simp
  next
    case (fresh z t)
    let ?t' = "t\<lparr>tn_input := Some (sr_snapshot s)\<rparr>"
    let ?d2 = "?upd acc d1"
    have ok1: "db_ok d1" using fresh(20) by (rule refined_ok)
    have snap: "tn_snapshot t = None"
      using inv_snapshot [of "map_of (db_records d1)" "map_of (db_turns d1)" "map_of (db_execs d1)" "ri_turn ids" t]
        ok1 fresh by (auto simp: db_ok_def)
    have mt: "map_of (db_turns ?d2) = (map_of (db_turns d))(ri_turn ids \<mapsto> ?t')"
      using fresh by (simp add: map_of_upd_key)
    have z: "z = row" using fresh i by (simp add: owned_Inr)
    have "hstep (tables_of ?dr) (tables_of ?d2)"
      unfolding tables_of_def mt using fresh snap no_turn
      by (simp add: owned_Inr) (rule accept_turn [where r = z]; simp; blast?)
    then have r2: "refined ?dr ?d2"
      by (rule refinedI [OF okr, rotated -1]) (use ok1 in \<open>simp_all add: db_ok_def\<close>)
    have r3: "refined d ?d2" using r1 r2 by (rule refined_trans)
    have fin: "refined d d' \<and> db_records d' = db_records d1 \<and> db_turns d' = db_turns ?d2
        \<and> db_saved d' = db_saved d1 \<and> db_runs d' = db_runs d1 \<and> db_epoch d' = db_epoch d1"
    proof (cases xd)
      case None
      then show ?thesis using rest r3 by (cases "acc_token acc") auto
    next
      case (Some x)
      obtain e where ie: "insert_execution now ?d2 (ri_execution ids) own (ri_history ids) (ri_turn ids) op (xd_hash x)
          (sr_kind s) (xd_kind x) ep (hs_generation z + 1) (xd_deadline x) = Inr (e, d')"
        using rest Some fresh by auto
      have "ex_turn f \<noteq> ri_turn ids" if "map_of (db_execs ?d2) y = Some f" for y f
        using inv_exec [OF inv, of y f] that fresh by auto
      then have "refined ?d2 d'"
        by (intro insert_execution_refines [OF refined_ok [OF r3] ie, where tr = ?t'])
          (use mt fresh in \<open>simp_all\<close>)
      with r3 have "refined d d'" by (rule refined_trans)
      with insert_execution_Inr [OF ie] ie show ?thesis
        by (auto simp: insert_execution_saved [OF ie])
    qed
    let ?z = "row\<lparr>hs_active := Some (ri_turn ids), hs_generation := 1, hs_next_ordinal := hs_next_ordinal row + 1,
         hs_record_revision := hs_record_revision row + 1, hs_updated_at := now\<rparr>"
    have recs: "map_of (db_records d') = (map_of (db_records d))(ri_history ids \<mapsto> ?z)"
      using fin fresh i z row by simp
    have "rr_history res = (ri_history ids, ?z)"
      using out(2,3) recs by (auto simp: owned_Inr prod_eq_iff)
    then show ?thesis
      using fin fresh i z row out mt recs by (intro that [of ?z ?t']) simp_all
  qed
qed

lemma open_requery_refines:
  assumes "db_ok d" and "open_requery sha codec now d own src op rq ep ids xd s q = Inr (r, d')"
  shows "refined d d'"
  using assms by (rule open_requery_Inr)

lemma store_rq_Inr: "store_rq r = Inr x \<longleftrightarrow> r = Inr x"
  by (cases r) (auto simp: store_rq_def)

lemma begin_requery_refines:
  assumes ok: "db_ok d"
    and res: "begin_requery sha codec public ba locked slocked now d own src op rq ep ids xd = Inr (r, d')"
  shows "refined d d'"
proof -
  have "d' = d \<or> (\<exists>s q. open_requery sha codec now d own src op rq ep ids xd s q = Inr (r, d'))"
    using res by (auto simp: begin_requery_def bindR_iffs store_rq_Inr split: option.splits)
  then show ?thesis using open_requery_refines [OF ok] refined_refl [OF ok] by blast
qed

section \<open>Running, stopping, finishing\<close>

lemma mark_running_refines:
  assumes ok: "db_ok d" and res: "mark_running now d own x = Inr (u, d')"
  shows "refined d d'"
proof (cases "count_where (running_match d own x) (db_execs d) = 1")
  case True
  have k: "keys_ok (db_execs d)" using ok by (simp add: db_ok_def)
  obtain e where e: "map_of (db_execs d) x = Some e" "running_match d own x x e"
    using k True by (rule count_where_one [of _ _ x]) (simp add: running_match_def)
  let ?f = "\<lambda>e. e\<lparr>ex_status := Running,
       ex_started_at := (case ex_started_at e of None \<Rightarrow> Some now | s \<Rightarrow> s)\<rparr>"
  have "refined d (d\<lparr>db_execs := upd_where (running_match d own x) ?f (db_execs d)\<rparr>)"
    by (rule refined_exec_row(1) [where P = "running_match d own x" and x = x and e = e])
      (use ok e in \<open>auto simp: running_match_def advance_def same_exec_def\<close>)
  with res True show ?thesis by (simp add: mark_running_def)
next
  case False
  with res have "d' = d"
    by (auto simp: mark_running_def split: option.splits exec_status.splits)
  with ok show ?thesis by (simp add: refined_refl)
qed

lemma expire_cancelled_run_tables:
  "expire_cancelled_run qsha now d r s = Inr d' \<Longrightarrow>
     db_records d' = db_records d \<and> db_turns d' = db_turns d \<and> db_execs d' = db_execs d
     \<and> db_epoch d' = db_epoch d"
  by (auto simp: expire_cancelled_run_def Let_def split: option.splits if_splits)

lemma request_stop_row_Inr:
  assumes ok: "db_ok d" and x: "map_of (db_execs d) x = Some e"
    and live: "ex_status e \<in> {Accepted, Running}"
    and res: "request_stop_row now d x e r = Inr (e', d')"
  shows "refined d d'"
    and "e' = e\<lparr>ex_status := Stopping, ex_stop_reason := Some r, ex_stop_requested_at := Some now\<rparr>"
    and "map_of (db_execs d') = (map_of (db_execs d))(x \<mapsto> e')"
proof -
  let ?P = "\<lambda>x' e. x' = x \<and> ex_status e \<in> {Accepted, Running}"
  let ?f = "\<lambda>e. e\<lparr>ex_status := Stopping, ex_stop_reason := Some r, ex_stop_requested_at := Some now\<rparr>"
  have k: "keys_ok (db_execs d)" using ok by (simp add: db_ok_def)
  have "sel_first ?P (db_execs d) = Some (x, e)"
    by (rule sel_first_key [OF k x]) (use live in auto)
  with res live have d': "d' = d\<lparr>db_execs := upd_where ?P ?f (db_execs d)\<rparr>" and e': "e' = ?f e"
    unfolding request_stop_row_def Let_def by (simp_all del: insert_iff)
  have adv: "advance e (?f e)" using live by (auto simp: advance_def same_exec_def)
  show "refined d d'" unfolding d'
    by (rule refined_exec_row(1) [OF ok x]) (use live adv in auto)
  have "map_of (upd_where ?P ?f (db_execs d)) = (map_of (db_execs d))(x \<mapsto> ?f e)"
    by (rule refined_exec_row(2) [OF ok x]) (use live adv in auto)
  then show "map_of (db_execs d') = (map_of (db_execs d))(x \<mapsto> e')" by (simp add: d' e')
  show "e' = ?f e" by (fact e')
qed

lemma request_execution_stop_Inr:
  assumes ok: "db_ok d" and res: "request_execution_stop qsha now d own x reason subject = Inr (e', d')"
  obtains e where "map_of (db_execs d) x = Some e" "ex_owner e = own"
    "ex_status e \<notin> {Accepted, Running}" "e' = e" "d' = d"
  | e where "map_of (db_execs d) x = Some e" "ex_owner e = own" "ex_status e \<in> {Accepted, Running}"
    "e' = e\<lparr>ex_status := Stopping, ex_stop_reason := Some reason, ex_stop_requested_at := Some now\<rparr>"
    "map_of (db_execs d') x = Some e'" "refined d d'"
proof -
  from res obtain y where y: "sel_first (\<lambda>x' e. x' = x \<and> ex_owner e = own) (db_execs d) = Some y"
    by (auto simp: request_execution_stop_def split: option.splits)
  obtain y1 y2 where yy: "y = (y1, y2)" by fastforce
  note sel = select_execution [OF ok y [unfolded yy]]
  with y yy have y2: "sel_first (\<lambda>x' e. x' = x \<and> ex_owner e = own) (db_execs d) = Some (x, y2)"
      "map_of (db_execs d) x = Some y2" "ex_owner y2 = own" by simp_all
  from res y2(1) obtain r where r: "owned d own (ex_history y2) = Inr r"
    by (cases "owned d own (ex_history y2)") (simp_all add: request_execution_stop_def)
  with res y2(1) obtain e where le: "locked_execution d own x = Inr e"
    by (cases "locked_execution d own x") (simp_all add: request_execution_stop_def)
  from le y2 have e: "e = y2" by (simp add: locked_execution_Inr [OF ok])
  show thesis
  proof (cases "ex_status e \<in> {Accepted, Running}")
    case False
    with res y2 r le e have "e' = e" "d' = d"
      by (auto simp: request_execution_stop_def split: if_splits)
    with False y2 e show ?thesis by (intro that(1) [of e]) auto
  next
    case True
    with res y2 r le e obtain d1 where
      d1: "d1 = d \<or> expire_cancelled_run qsha now d r subject = Inr d1"
      and rs: "request_stop_row now d1 x e reason = Inr (e', d')"
      by (auto simp: request_execution_stop_def bindR_iffs split: if_splits)
    have same: "db_records d1 = db_records d" "db_turns d1 = db_turns d" "db_execs d1 = db_execs d"
      using d1 expire_cancelled_run_tables by blast+
    then have ref1: "refined d d1" by (rule refined_same [OF ok])
    have x1: "map_of (db_execs d1) x = Some e" using y2 e same by simp
    note s = request_stop_row_Inr [OF refined_ok [OF ref1] x1 True rs]
    show ?thesis
      using s y2 e True by (intro that(2) [of e]) (auto intro: refined_trans [OF ref1])
  qed
qed

lemma request_execution_stop_refines:
  "db_ok d \<Longrightarrow> request_execution_stop qsha now d own x reason subject = Inr (e', d') \<Longrightarrow> refined d d'"
proof -
  assume ok: "db_ok d" and "request_execution_stop qsha now d own x reason subject = Inr (e', d')"
  then show ?thesis by (rule request_execution_stop_Inr) (simp_all add: refined_refl ok)
qed

text \<open>The common part of the two ways to end an attempt.\<close>

lemma end_one_exec:
  assumes inv: "hist_inv R T E" and x: "E x = Some e" and t: "ex_turn e = t"
    and e': "advance e e'" "\<not> exec_live (ex_status e')"
  shows "end_execs t E (E(x \<mapsto> e'))"
proof -
  have "y = x" if "E y = Some f" "ex_turn f = t" for y f
    using inv_exec_unique [OF inv that(1) x] that(2) t by simp
  then have "E y = Some f \<Longrightarrow> ex_turn f = t \<Longrightarrow> y = x" for y f .
  moreover have "dom (E(x \<mapsto> e')) = dom E" using x by auto
  ultimately show ?thesis unfolding end_execs_def
    using x t e' advance_live [OF e'(1)] by (metis fun_upd_apply option.inject)
qed

lemma end_no_exec:
  "(\<And>y f. E y = Some f \<Longrightarrow> ex_turn f \<noteq> t) \<Longrightarrow> end_execs t E E"
  by (auto simp: end_execs_def)

lemma turn_match_Inr:
  assumes ok: "db_ok d" and s: "sel_first (turn_match tok) (db_turns d) = Some (k, t)"
  shows "k = tk_turn tok" "map_of (db_turns d) (tk_turn tok) = Some t" "turn_match tok (tk_turn tok) t"
    and "map_of (upd_where (turn_match tok) f (db_turns d)) = (map_of (db_turns d))(tk_turn tok \<mapsto> f t)"
proof -
  have k: "keys_ok (db_turns d)" using ok by (simp add: db_ok_def)
  note m = sel_first_map_of [OF k s]
  then show a: "k = tk_turn tok" by (simp add: turn_match_def)
  with m show b: "map_of (db_turns d) (tk_turn tok) = Some t" "turn_match tok (tk_turn tok) t"
    by simp_all
  show "map_of (upd_where (turn_match tok) f (db_turns d)) = (map_of (db_turns d))(tk_turn tok \<mapsto> f t)"
    using b by (rule map_of_upd_one) (simp add: turn_match_def)
qed

lemma finish_row_Inr:
  assumes k: "keys_ok (db_execs d)" and res: "finish_row from now d own x s err = Inr (u, d')"
  obtains e X where "map_of (db_execs d) x = Some e" "ex_owner e = own" "from (ex_status e)"
    "d' = d\<lparr>db_execs := X\<rparr>" "keys_ok X"
    "map_of X = (map_of (db_execs d))(x \<mapsto>
       e\<lparr>ex_status := s, ex_error := err, ex_finished_at := Some now\<rparr>)"
proof -
  let ?P = "\<lambda>x' e. x' = x \<and> ex_owner e = own \<and> from (ex_status e)"
  let ?f = "\<lambda>e. e\<lparr>ex_status := s, ex_error := err, ex_finished_at := Some now\<rparr>"
  from res have c: "count_where ?P (db_execs d) = 1"
    and d': "d' = d\<lparr>db_execs := upd_where ?P ?f (db_execs d)\<rparr>"
    by (auto simp: finish_row_def Let_def split: if_splits)
  obtain e where e: "map_of (db_execs d) x = Some e" "?P x e"
    using k c by (rule count_where_one [of _ _ x]) simp
  have "map_of (upd_where ?P ?f (db_execs d)) = (map_of (db_execs d))(x \<mapsto> ?f e)"
    using e by (rule map_of_upd_one) simp
  with e k show thesis by (intro that [OF _ _ _ d']) simp_all
qed

text \<open>
  The execution a token's attempt runs under, as the callers pair them: the row named is the one
  scheduled for the token's turn, and none is named only where none was scheduled.
\<close>

definition paired :: "db \<Rightarrow> token \<Rightarrow> uid option \<Rightarrow> bool" where
  "paired d tok exec_id \<longleftrightarrow>
     (\<forall>y f. map_of (db_execs d) y = Some f \<longrightarrow>
        (ex_turn f = tk_turn tok \<longleftrightarrow> exec_id = Some y))"

definition settled_turn :: "time \<Rightarrow> snapshot option \<Rightarrow> public_error option \<Rightarrow> turn_row \<Rightarrow> turn_row" where
  "settled_turn now snap err t =
     t\<lparr>tn_status := (if snap \<noteq> None then TurnSucceeded else TurnFailed), tn_snapshot := snap,
       tn_error := err, tn_completed_at := Some now\<rparr>"

definition settled_record :: "time \<Rightarrow> snapshot option \<Rightarrow> uid \<Rightarrow> history_row \<Rightarrow> history_row" where
  "settled_record now snap t x =
     x\<lparr>hs_active := None, hs_record_revision := hs_record_revision x + 1,
       hs_context_revision := hs_context_revision x + (if snap \<noteq> None then 1 else 0),
       hs_last_success := (if snap \<noteq> None then Some t else hs_last_success x),
       hs_updated_at := now\<rparr>"

lemma finish_attempt_unfold:
  "finish_attempt now d own tok snap err exec_id =
     bindR (owned d own (tk_history tok)) (\<lambda>r.
     bindR (case exec_id of
              None \<Rightarrow> Inr ()
            | Some x \<Rightarrow>
                bindR (locked_execution d own x) (\<lambda>e.
                  if ex_status e = Stopping then Inl (stopped_error (ex_stop_reason e))
                  else if ex_status e \<notin> {Accepted, Running} then Inl save_unconfirmed
                  else Inr ())) (\<lambda>_.
     if \<not> token_current d r tok then Inl save_unconfirmed
     else case sel_first (turn_match tok) (db_turns d) of
            None \<Rightarrow> Inl save_unconfirmed
          | Some (_, t) \<Rightarrow>
              let d1 = d\<lparr>db_turns := upd_where (turn_match tok) (settled_turn now snap err) (db_turns d),
                         db_records := upd_where (\<lambda>h' _. h' = tk_history tok)
                           (settled_record now snap (tk_turn tok)) (db_records d)\<rparr>
              in (case exec_id of
                    None \<Rightarrow> Inr (settled_turn now snap err t, d1)
                  | Some x \<Rightarrow>
                      bindR (finish_exec_row now d1 own x
                               (if snap \<noteq> None then Succeeded else Failed) err)
                        (\<lambda>(_, d2). Inr (settled_turn now snap err t, d2)))))"
  unfolding finish_attempt_def settled_turn_def [abs_def] settled_record_def [abs_def] Let_def ..

lemma finish_attempt_Inr:
  assumes ok: "db_ok d" and res: "finish_attempt now d own tok snap err exec_id = Inr (t', d')"
  obtains r t where "owned d own (tk_history tok) = Inr r" "token_current d r tok"
    "map_of (db_turns d) (tk_turn tok) = Some t" "turn_match tok (tk_turn tok) t"
    "t' = settled_turn now snap err t"
    "map_of (db_turns d') = (map_of (db_turns d))(tk_turn tok \<mapsto> t')"
    "map_of (db_records d') = (map_of (db_records d))(tk_history tok \<mapsto>
       settled_record now snap (tk_turn tok) r)"
    "db_epoch d' = db_epoch d" "paired d tok exec_id \<Longrightarrow> refined d d'"
    "\<And>x. exec_id = Some x \<Longrightarrow> \<exists>e. map_of (db_execs d) x = Some e \<and> ex_owner e = own
       \<and> map_of (db_execs d') x = Some (e\<lparr>ex_status := (if snap \<noteq> None then Succeeded else Failed),
            ex_error := err, ex_finished_at := Some now\<rparr>)"
proof -
  from res obtain r where r: "owned d own (tk_history tok) = Inr r"
    by (cases "owned d own (tk_history tok)") (simp_all add: finish_attempt_def)
  let ?chk = "case exec_id of None \<Rightarrow> Inr () | Some x \<Rightarrow>
                bindR (locked_execution d own x) (\<lambda>e.
                  if ex_status e = Stopping then Inl (stopped_error (ex_stop_reason e))
                  else if ex_status e \<notin> {Accepted, Running} then Inl save_unconfirmed
                  else Inr ())"
  from res r have chk: "?chk = Inr ()"
    by (cases ?chk) (simp_all add: finish_attempt_unfold)
  from res r chk have tc: "token_current d r tok"
    by (simp add: finish_attempt_unfold split: if_splits)
  from res r chk tc obtain k t where s: "sel_first (turn_match tok) (db_turns d) = Some (k, t)"
    by (cases "sel_first (turn_match tok) (db_turns d)") (auto simp: finish_attempt_unfold)
  note tm = turn_match_Inr [OF ok s]
  let ?d1 = "d\<lparr>db_turns := upd_where (turn_match tok) (settled_turn now snap err) (db_turns d),
               db_records := upd_where (\<lambda>h' _. h' = tk_history tok)
                 (settled_record now snap (tk_turn tok)) (db_records d)\<rparr>"
  let ?r' = "settled_record now snap (tk_turn tok) r" and ?t' = "settled_turn now snap err t"
  have R: "map_of (db_records d) (tk_history tok) = Some r" using r by (simp add: owned_Inr)
  have mr: "map_of (db_records ?d1) = (map_of (db_records d))(tk_history tok \<mapsto> ?r')"
    by (simp add: map_of_upd_key R)
  have mt: "map_of (db_turns ?d1) = (map_of (db_turns d))(tk_turn tok \<mapsto> ?t')"
    using tm(4) by simp
  have inv: "hist_inv (map_of (db_records d)) (map_of (db_turns d)) (map_of (db_execs d))"
    and kx: "keys_ok (db_execs d)" using ok by (simp_all add: db_ok_def)
  have st: "settles t ?t'" by (simp add: settles_def settled_turn_def)
  have core: "hstep (tables_of d) (map_of (db_records ?d1), map_of (db_turns ?d1), E')"
    if "end_execs (tk_turn tok) (map_of (db_execs d)) E'" for E'
    unfolding mr mt tables_of_def
    by (rule settle_turn [where r = r and tr = t])
      (use tc R tm(2) st that in \<open>auto simp: token_current_def settled_record_def settled_turn_def\<close>)
  have fin: "t' = ?t' \<and> map_of (db_turns d') = map_of (db_turns ?d1)
      \<and> map_of (db_records d') = map_of (db_records ?d1) \<and> db_epoch d' = db_epoch d
      \<and> (paired d tok exec_id \<longrightarrow> refined d d')
      \<and> (\<forall>x. exec_id = Some x \<longrightarrow> (\<exists>e. map_of (db_execs d) x = Some e \<and> ex_owner e = own
       \<and> map_of (db_execs d') x = Some (e\<lparr>ex_status := (if snap \<noteq> None then Succeeded else Failed),
            ex_error := err, ex_finished_at := Some now\<rparr>)))"
  proof (cases exec_id)
    case None
    with res r tc s have e: "t' = ?t'" "d' = ?d1" by (simp_all add: finish_attempt_unfold)
    have "refined d d'" if "paired d tok None" unfolding e
      by (rule refinedI [OF ok])
        (use ok that core [OF end_no_exec] in \<open>auto simp: db_ok_def paired_def tables_of_def\<close>)
    with e None show ?thesis by simp
  next
    case (Some x)
    with res r chk tc s obtain u where e: "t' = ?t'"
      and f: "finish_exec_row now ?d1 own x (if snap \<noteq> None then Succeeded else Failed) err = Inr (u, d')"
      by (cases "finish_exec_row now ?d1 own x (if snap \<noteq> None then Succeeded else Failed) err")
        (auto simp: finish_attempt_unfold)
    from f obtain ex X where ex: "map_of (db_execs d) x = Some ex" "ex_status ex \<in> {Accepted, Running}"
      "d' = ?d1\<lparr>db_execs := X\<rparr>" "keys_ok X"
      "map_of X = (map_of (db_execs d))(x \<mapsto>
         ex\<lparr>ex_status := (if snap \<noteq> None then Succeeded else Failed), ex_error := err,
            ex_finished_at := Some now\<rparr>)"
      "ex_owner ex = own"
      unfolding finish_exec_row_def by (rule finish_row_Inr [rotated]) (use kx in simp_all)
    have "refined d d'" if p: "paired d tok (Some x)"
    proof (rule refinedI [OF ok])
      have tx: "ex_turn ex = tk_turn tok" using p ex(1) by (simp add: paired_def)
      have "end_execs (tk_turn tok) (map_of (db_execs d)) (map_of X)"
        unfolding ex(5) by (rule end_one_exec [OF inv ex(1) tx])
          (use ex(2) in \<open>auto simp: advance_def same_exec_def exec_live_def\<close>)
      from core [OF this] show "hstep (tables_of d) (tables_of d')"
        by (simp add: tables_of_def ex(3))
    qed (use ok ex(4) in \<open>simp_all add: db_ok_def ex(3)\<close>)
    with e Some ex(1,3,5,6) show ?thesis by simp
  qed
  show thesis
    using r tc tm(2,3) fin mr mt by (intro that [of r t]) simp_all
qed

definition stopped_record :: "time \<Rightarrow> history_row \<Rightarrow> history_row" where
  "stopped_record now y = y\<lparr>hs_active := None, hs_record_revision := hs_record_revision y + 1,
     hs_updated_at := now\<rparr>"

lemma finish_execution_stopped_Inr:
  assumes ok: "db_ok d" and res: "finish_execution_stopped now d own tok x st err = Inr (t', d')"
  obtains r t e X where "owned d own (tk_history tok) = Inr r" "token_current d r tok"
    "map_of (db_execs d) x = Some e" "ex_owner e = own" "ex_status e = Stopping"
    "ex_turn e = tk_turn tok"
    "map_of (db_turns d) (tk_turn tok) = Some t" "t' = settled_turn now None (Some err) t"
    "map_of (db_turns d') = (map_of (db_turns d))(tk_turn tok \<mapsto> t')"
    "map_of (db_records d') = (map_of (db_records d))(tk_history tok \<mapsto> stopped_record now r)"
    "map_of (db_execs d') = (map_of (db_execs d))(x \<mapsto>
       e\<lparr>ex_status := st, ex_error := Some err, ex_finished_at := Some now\<rparr>)"
    "st \<in> {Cancelled, TimedOut, Failed} \<Longrightarrow> refined d d'"
proof -
  from res obtain r where r: "owned d own (tk_history tok) = Inr r"
    by (cases "owned d own (tk_history tok)") (simp_all add: finish_execution_stopped_def)
  with res have tc: "token_current d r tok"
    by (simp add: finish_execution_stopped_def split: if_splits)
  with res r obtain e where le: "locked_execution d own x = Inr e"
    by (cases "locked_execution d own x") (simp_all add: finish_execution_stopped_def)
  with res r tc have ce: "ex_history e = tk_history tok" "ex_turn e = tk_turn tok" "ex_status e = Stopping"
    by (simp_all add: finish_execution_stopped_def split: if_splits)
  from le have e: "map_of (db_execs d) x = Some e" "ex_owner e = own"
    by (simp_all add: locked_execution_Inr [OF ok])
  let ?f = "\<lambda>t. t\<lparr>tn_status := TurnFailed, tn_snapshot := None, tn_error := Some err,
                       tn_completed_at := Some now\<rparr>"
  let ?P = "\<lambda>k y. k = tk_history tok \<and> hs_active y = Some (tk_turn tok)
                  \<and> hs_generation y = tk_generation tok"
  let ?d1 = "d\<lparr>db_turns := upd_where (turn_match tok) ?f (db_turns d),
               db_records := upd_where ?P
                 (\<lambda>y. y\<lparr>hs_active := None, hs_record_revision := hs_record_revision y + 1,
                        hs_updated_at := now\<rparr>) (db_records d)\<rparr>"
  from res r tc le ce obtain k t where s: "sel_first (turn_match tok) (db_turns d) = Some (k, t)"
    by (cases "sel_first (turn_match tok) (db_turns d)")
      (auto simp: finish_execution_stopped_def Let_def split: if_splits)
  note tm = turn_match_Inr [OF ok s]
  from res r tc le ce s obtain u where fr: "finish_stop_row now ?d1 own x st err = Inr (u, d')"
    and t': "t' = ?f t"
    by (cases "finish_stop_row now ?d1 own x st err")
      (auto simp: finish_execution_stopped_def Let_def split: if_splits)
  have inv: "hist_inv (map_of (db_records d)) (map_of (db_turns d)) (map_of (db_execs d))"
    and kx: "keys_ok (db_execs d)" using ok by (simp_all add: db_ok_def)
  from fr obtain f X where f: "map_of (db_execs d) x = Some f" and d': "d' = ?d1\<lparr>db_execs := X\<rparr>"
    and X: "keys_ok X" "map_of X = (map_of (db_execs d))(x \<mapsto>
         f\<lparr>ex_status := st, ex_error := Some err, ex_finished_at := Some now\<rparr>)"
    unfolding finish_stop_row_def by (rule finish_row_Inr [rotated]) (use kx in simp_all)
  have fe: "f = e" using f e by simp
  have ft: "?f t = settled_turn now None (Some err) t" by (simp add: settled_turn_def)
  have R: "map_of (db_records d) (tk_history tok) = Some r" using r by (simp add: owned_Inr)
  have mr: "map_of (db_records d') = (map_of (db_records d))(tk_history tok \<mapsto> stopped_record now r)"
    using map_of_upd_one [OF R, of ?P] tc by (simp add: d' token_current_def stopped_record_def)
  have mt: "map_of (db_turns d') = (map_of (db_turns d))(tk_turn tok \<mapsto> t')"
    using tm(4) by (simp add: d' t')
  have "refined d d'" if st: "st \<in> {Cancelled, TimedOut, Failed}"
  proof (rule refinedI [OF ok])
    have "end_execs (tk_turn tok) (map_of (db_execs d)) (map_of X)"
      unfolding X(2) fe by (rule end_one_exec [OF inv e(1) ce(2)])
        (use ce st in \<open>auto simp: advance_def same_exec_def exec_live_def\<close>)
    then show "hstep (tables_of d) (tables_of d')"
      unfolding tables_of_def mr mt
      by (intro settle_turn [where r = r and tr = t])
        (use tc R tm(2) in \<open>auto simp: token_current_def stopped_record_def settles_def t' d'\<close>)
  qed (use ok X in \<open>simp_all add: db_ok_def d'\<close>)
  then show thesis
    using r tc e ce tm(2) mr mt X(2) fe t' ft by (intro that [of r e t]) (simp_all add: d')
qed

section \<open>Recovery\<close>

lemma map_of_upd_free:
  "map_of (upd_where (\<lambda>_ r. hs_active r \<noteq> None) (clear_active now) R) = map_option (free_record now) \<circ> map_of R"
  "map_of (upd_where (\<lambda>_ t. tn_status t = TurnAccepted) (unconfirm_turn now) T) =
     map_option (free_turn now) \<circ> map_of T"
  "map_of (upd_where (\<lambda>_ e. exec_live (ex_status e)) (unconfirm_exec now) E) =
     map_option (free_exec now) \<circ> map_of E"
  by (rule ext, simp add: map_of_upd_where free_record_def [abs_def] free_turn_def [abs_def]
        free_exec_def [abs_def])+

lemma tables_of_runtime_start:
  "tables_of (runtime_start now epoch d) =
     (map_option (free_record now) \<circ> map_of (db_records d),
      map_option (free_turn now) \<circ> map_of (db_turns d),
      map_option (free_exec now) \<circ> map_of (db_execs d))"
proof -
  have "db_records (runtime_start now epoch d) =
      upd_where (\<lambda>_ r. hs_active r \<noteq> None) (clear_active now) (db_records d)"
    and "db_turns (runtime_start now epoch d) =
      upd_where (\<lambda>_ t. tn_status t = TurnAccepted) (unconfirm_turn now) (db_turns d)"
    and "db_execs (runtime_start now epoch d) =
      upd_where (\<lambda>_ e. exec_live (ex_status e)) (unconfirm_exec now) (db_execs d)"
    by (simp_all add: runtime_start_def)
  then show ?thesis by (simp only: tables_of_def map_of_upd_free)
qed

lemma runtime_start_refines:
  assumes ok: "db_ok d"
  shows "refined d (runtime_start now epoch d)"
proof (rule refinedI [OF ok])
  show "hstep (tables_of d) (tables_of (runtime_start now epoch d))"
    unfolding tables_of_runtime_start by (simp add: tables_of_def recover)
qed (use ok in \<open>simp_all add: runtime_start_def db_ok_def\<close>)

lemma unconfirm_advances:
  "exec_live (ex_status f) \<Longrightarrow>
     advance f (unconfirm_exec now f) \<and> \<not> exec_live (ex_status (unconfirm_exec now f))"
  by (cases "ex_status f") (auto simp: advance_def same_exec_def unconfirm_exec_def exec_live_def)

lemma end_execs_unconfirm:
  assumes "\<And>y f. E y = Some f \<Longrightarrow> exec_live (ex_status f) \<and> ex_turn f = t \<longleftrightarrow> Q y f"
    and "\<And>y. E' y = map_option (\<lambda>f. if Q y f then unconfirm_exec now f else f) (E y)"
  shows "end_execs t E E'"
  unfolding end_execs_def
proof (intro conjI allI impI)
  show "dom E' = dom E" by (auto simp: assms(2) dom_def)
  fix y f f' assume a: "E y = Some f \<and> E' y = Some f'"
  then have f': "f' = (if exec_live (ex_status f) \<and> ex_turn f = t then unconfirm_exec now f else f)"
    using assms(1) [of y f] by (auto simp: assms(2))
  show "if exec_live (ex_status f) \<and> ex_turn f = t then advance f f' \<and> \<not> exec_live (ex_status f')
        else f' = f"
    unfolding f' using unconfirm_advances [of f now] by simp
qed

lemma reconcile_Inr:
  assumes ok: "db_ok d" and res: "reconcile rh locked now epoch d h = Inr d'"
  obtains "d' = d"
  | r t tr where "map_of (db_records d) h = Some r" "hs_active r = Some t"
    "map_of (db_turns d) t = Some tr" "tn_epoch tr = epoch"
    "map_of (db_records d') = (map_of (db_records d))(h \<mapsto> clear_active now r)"
    "map_of (db_turns d') = (map_of (db_turns d))(t \<mapsto> unconfirm_turn now tr)" "refined d d'"
proof (cases "d' = d")
  case False
  with res obtain r where r: "map_of (db_records d) h = Some r" "\<not> rh" "\<not> locked"
    by (auto simp: reconcile_def split: if_splits option.splits)
  with res False obtain t where t: "hs_active r = Some t"
    by (cases "hs_active r") (simp_all add: reconcile_def)
  let ?P = "\<lambda>k y. k = t \<and> tn_status y = TurnAccepted \<and> tn_epoch y = epoch"
  let ?Q = "\<lambda>_ e. ex_history e = h \<and> ex_turn e = t \<and> ex_epoch e = epoch \<and> exec_live (ex_status e)"
  from res r t have c: "count_where ?P (db_turns d) = 1"
    and d': "d' = d\<lparr>db_turns := upd_where ?P (unconfirm_turn now) (db_turns d),
                db_execs := upd_where ?Q (unconfirm_exec now) (db_execs d),
                db_records := upd_where (\<lambda>k _. k = h) (clear_active now) (db_records d)\<rparr>"
    by (simp_all add: reconcile_def Let_def split: if_splits)
  have kt: "keys_ok (db_turns d)"
    and inv: "hist_inv (map_of (db_records d)) (map_of (db_turns d)) (map_of (db_execs d))"
    using ok by (simp_all add: db_ok_def)
  obtain tr where tr: "map_of (db_turns d) t = Some tr" "?P t tr"
    using kt c by (rule count_where_one [of _ _ t]) simp
  have mt: "map_of (db_turns d') = (map_of (db_turns d))(t \<mapsto> unconfirm_turn now tr)"
    unfolding d' using map_of_upd_one [of "db_turns d" t tr ?P "unconfirm_turn now"] tr by simp
  have mr: "map_of (db_records d') = (map_of (db_records d))(h \<mapsto> clear_active now r)"
    by (simp add: d' map_of_upd_key r)
  have snap: "tn_snapshot tr = None" using inv_snapshot [OF inv tr(1)] tr(2) by auto
  have ee: "end_execs t (map_of (db_execs d)) (map_of (db_execs d'))"
  proof (rule end_execs_unconfirm [where Q = ?Q])
    fix y f assume "map_of (db_execs d) y = Some f"
    with inv_exec [OF inv this] tr inv_active [OF inv r(1) t]
    show "exec_live (ex_status f) \<and> ex_turn f = t \<longleftrightarrow> ?Q y f" by auto
  qed (simp add: d' map_of_upd_where)
  have "hstep (tables_of d) (tables_of d')" unfolding tables_of_def mr mt
    by (rule settle_turn [where r = r and tr = tr])
      (use r t tr ee snap in \<open>auto simp: clear_active_def unconfirm_turn_def settles_def\<close>)
  then have "refined d d'"
    by (rule refinedI [OF ok, rotated -1]) (use ok in \<open>simp_all add: d' db_ok_def\<close>)
  with r t tr mt mr show ?thesis by (intro that(2) [of r t tr]) simp_all
qed (rule that(1))

lemma reconcile_refines: "db_ok d \<Longrightarrow> reconcile rh locked now epoch d h = Inr d' \<Longrightarrow> refined d d'"
  using reconcile_Inr refined_refl by metis

section \<open>Creating, renaming, deleting, copying\<close>

lemma create_history_refines:
  assumes ok: "db_ok d" and res: "create_history sha now d own knd q op nid nrun = Inr (x, d')"
  shows "refined d d'"
proof (cases "d' = d")
  case False
  let ?row = "\<lparr>hs_owner = own, hs_kind = knd, hs_title = take 120 q, hs_question = q,
      hs_creation_op = op, hs_creation_hash = sha (CreateOp knd q), hs_created_at = now,
      hs_updated_at = now, hs_context_revision = 0, hs_record_revision = 0, hs_next_ordinal = 1,
      hs_last_success = None, hs_active = None, hs_generation = 0,
      hs_run = (if knd = Analysis then Some nrun else None), hs_deleted = None\<rparr>"
  from res False obtain R where
    ins: "insert_row (\<lambda>r' r. hs_run r' = hs_run r \<and> hs_run r \<noteq> None) nid ?row (db_records d) = Some R"
    and d': "d' = d\<lparr>db_records := R\<rparr>"
    by (auto simp: create_history_def Let_def bindR_iffs split: option.splits if_splits)
  note i = insert_row_Some [OF ins]
  have "hstep (tables_of d) (tables_of d')"
    unfolding tables_of_def d' using i by (simp add: open_history)
  then show ?thesis by (rule refinedI [OF ok, rotated -1]) (use ok i in \<open>simp_all add: d' db_ok_def\<close>)
qed (use ok in \<open>simp add: refined_refl\<close>)

lemma rename_history_refines:
  assumes ok: "db_ok d" and res: "rename_history locked now d own h title rv = Inr (x, d')"
  shows "refined d d'"
proof -
  let ?f = "\<lambda>x. x\<lparr>hs_title := title, hs_record_revision := hs_record_revision x + 1, hs_updated_at := now\<rparr>"
  from res obtain r where r: "map_of (db_records d) h = Some r"
    and d': "d' = d\<lparr>db_records := upd_where (\<lambda>k _. k = h) ?f (db_records d)\<rparr>"
    by (auto simp: rename_history_def bindR_iffs owned_nowait_Inr owned_Inr Let_def split: if_splits)
  have "hstep (tables_of d) (tables_of d')"
    unfolding tables_of_def d' using r by (simp add: map_of_upd_key touch_history)
  then show ?thesis by (rule refinedI [OF ok, rotated -1]) (use ok in \<open>simp_all add: d' db_ok_def\<close>)
qed

lemma delete_history_Inr:
  assumes ok: "db_ok d" and res: "delete_history qsha locked now d own h rv subj = Inr (x, d')"
  obtains r where "owned d own h = Inr r" "hs_active r = None" "hs_record_revision r = rv"
    "history_gone h (tables_of d')" "refined d d'"
    "\<And>t. map_of (db_turns d') t = (case map_of (db_turns d) t of None \<Rightarrow> None
        | Some y \<Rightarrow> if tn_history y = h then None else Some y)"
proof -
  let ?f = "\<lambda>x. x\<lparr>hs_title := [], hs_question := [], hs_last_success := None,
                         hs_active := None, hs_deleted := Some now,
                         hs_generation := hs_generation x + 1,
                         hs_record_revision := hs_record_revision x + 1,
                         hs_updated_at := now\<rparr>"
  from res obtain r where r: "owned d own h = Inr r"
    by (auto simp: delete_history_def bindR_iffs owned_nowait_Inr)
  from res r have g: "hs_active r = None" "hs_record_revision r = rv"
    by (auto simp: delete_history_def bindR_iffs owned_nowait_Inr split: if_splits)
  from res r g obtain runs where d': "d' = d\<lparr>db_runs := runs,
      db_records := upd_where (\<lambda>k _. k = h) ?f (db_records d),
      db_turns := del_where (\<lambda>_ t. tn_history t = h) (db_turns d),
      db_execs := del_where (\<lambda>_ e. ex_history e = h
         \<and> (\<exists>t \<in> fst ` set (filter (\<lambda>(_, t). tn_history t = h) (db_turns d)). ex_turn e = t)) (db_execs d)\<rparr>"
    by (auto simp: delete_history_def bindR_iffs owned_nowait_Inr Let_def split: if_splits)
  have R: "map_of (db_records d) h = Some r" using r by (simp add: owned_Inr)
  have k: "keys_ok (db_turns d)" "keys_ok (db_execs d)"
    and inv: "hist_inv (map_of (db_records d)) (map_of (db_turns d)) (map_of (db_execs d))"
    using ok by (simp_all add: db_ok_def)
  have T: "map_of (db_turns d') = (\<lambda>t. case map_of (db_turns d) t of None \<Rightarrow> None
        | Some y \<Rightarrow> if tn_history y = h then None else Some y)"
    by (rule ext) (simp add: d' map_of_del_where k)
  have E: "map_of (db_execs d') = (\<lambda>x. case map_of (db_execs d) x of None \<Rightarrow> None
        | Some e \<Rightarrow> if ex_history e = h then None else Some e)"
  proof (rule ext)
    fix x
    have "\<exists>t \<in> fst ` set (filter (\<lambda>(_, t). tn_history t = h) (db_turns d)). ex_turn e = t"
      if "map_of (db_execs d) x = Some e" "ex_history e = h" for e
    proof -
      from inv_exec [OF inv that(1)] that(2) obtain tr
        where "map_of (db_turns d) (ex_turn e) = Some tr" "tn_history tr = h" by auto
      then have "(ex_turn e, tr) \<in> set (filter (\<lambda>(_, t). tn_history t = h) (db_turns d))"
        by (simp add: map_of_SomeD)
      then show ?thesis by force
    qed
    note mem = this
    have dx: "db_execs d' = del_where (\<lambda>_ e. ex_history e = h
         \<and> (\<exists>t \<in> fst ` set (filter (\<lambda>(_, t). tn_history t = h) (db_turns d)). ex_turn e = t)) (db_execs d)"
      by (simp add: d')
    note del = map_of_del_where [OF k(2)]
    show "map_of (db_execs d') x = (case map_of (db_execs d) x of None \<Rightarrow> None
        | Some e \<Rightarrow> if ex_history e = h then None else Some e)"
    proof (cases "map_of (db_execs d) x")
      case None
      then show ?thesis unfolding dx del by simp
    next
      case (Some e)
      then show ?thesis unfolding dx del using mem [OF Some] by (cases "ex_history e = h") simp_all
    qed
  qed
  have mr: "map_of (db_records d') = (map_of (db_records d))(h \<mapsto> ?f r)"
    by (simp add: d' map_of_upd_key R)
  have "hstep (tables_of d) (map_of (db_records d'), map_of (db_turns d'), map_of (db_execs d'))"
    unfolding T E mr tables_of_def by (rule erase_history [where r = r]) (use R g in simp_all)
  then have "hstep (tables_of d) (tables_of d')" by (simp only: tables_of_def)
  then have "refined d d'"
    by (rule refinedI [OF ok, rotated -1])
      (use ok in \<open>simp_all add: d' db_ok_def keys_ok_del_where\<close>)
  moreover have "history_gone h (tables_of d')" by (simp add: tables_of_def mr)
  ultimately show thesis using r g T by (intro that [of r]) simp_all
qed

lemma copy_result_Inr:
  assumes res: "copy_result codec locked now d own h t title nid = Inr (x, d')"
  obtains r tr snap X where "owned d own h = Inr r" "(t, tr) \<in> set (db_turns d)"
    "tn_history tr = h" "tn_status tr = TurnSucceeded" "tn_snapshot tr = Some snap"
    "x = \<lparr>sv_owner = own, sv_kind = hs_kind r, sv_title = title, sv_revision = 0,
          sv_created_at = now, sv_updated_at = now, sv_source_history = h,
          sv_source_turn = t, sv_snapshot = snap\<rparr>"
    "d' = d\<lparr>db_saved := X\<rparr>" "map_of X = (map_of (db_saved d))(nid \<mapsto> x)"
    "map_of (db_saved d) nid = None"
proof -
  let ?P = "\<lambda>k tr. k = t \<and> tn_history tr = h \<and> tn_status tr = TurnSucceeded"
  from res obtain r where r: "owned_nowait locked d own h = Inr r"
    by (cases "owned_nowait locked d own h") (simp_all add: copy_result_def)
  from res r obtain k tr where s: "sel_first ?P (db_turns d) = Some (k, tr)"
    by (cases "sel_first ?P (db_turns d)") (auto simp: copy_result_def)
  from res r s obtain snap where sn: "tn_snapshot tr = Some snap"
    by (cases "tn_snapshot tr") (simp_all add: copy_result_def)
  from res r s sn obtain u where "codec snap = Inr u"
    by (cases "codec snap") (simp_all add: copy_result_def)
  let ?row = "\<lparr>sv_owner = own, sv_kind = hs_kind r, sv_title = title, sv_revision = 0,
          sv_created_at = now, sv_updated_at = now, sv_source_history = h,
          sv_source_turn = t, sv_snapshot = snap\<rparr>"
  from res r s sn \<open>codec snap = Inr u\<close> obtain X
    where X: "insert_row (\<lambda>_ _. False) nid ?row (db_saved d) = Some X"
    and x: "x = ?row" "d' = d\<lparr>db_saved := X\<rparr>"
    by (cases "insert_row (\<lambda>_ _. False) nid ?row (db_saved d)") (simp_all add: copy_result_def)
  show thesis
    using sel_first_Some [OF s] insert_row_Some(1,2) [OF X] x r sn
    by (intro that [of r tr snap X]) (auto simp: owned_nowait_Inr)
qed

lemma copy_result_tables:
  assumes "copy_result codec locked now d own h t title nid = Inr (x, d')"
  shows "db_records d' = db_records d \<and> db_turns d' = db_turns d \<and> db_execs d' = db_execs d"
  using assms by (rule copy_result_Inr) simp

lemma rename_saved_tables:
  "rename_saved_result locked now d own s title rv = Inr (x, d') \<Longrightarrow>
     db_records d' = db_records d \<and> db_turns d' = db_turns d \<and> db_execs d' = db_execs d"
  by (auto simp: rename_saved_result_def bindR_iffs Let_def split: if_splits)

lemma delete_saved_tables:
  "delete_saved_result locked d own s rv = Inr (x, d') \<Longrightarrow>
     db_records d' = db_records d \<and> db_turns d' = db_turns d \<and> db_execs d' = db_execs d"
  by (auto simp: delete_saved_result_def bindR_iffs split: if_splits)

section \<open>All transactions interleaved\<close>

inductive store_step :: "db \<Rightarrow> db \<Rightarrow> bool" where
  st_create: "create_history sha now d own knd q op nid nrun = Inr (x, d') \<Longrightarrow> store_step d d'"
| st_begin: "begin_attempt sha codec ba locked now d own h q op rv rq ep nid = Inr (acc, d') \<Longrightarrow>
    store_step d d'"
| st_resume: "begin_analysis_attempt sha codec ba locked now d own h op rv rq ep nid = Inr (acc, d') \<Longrightarrow>
    store_step d d'"
| st_begin_execution: "begin_execution_attempt sha codec locked now d own h q op hash orv rq ep mode
    okind dl err nt nx = Inr (res, d') \<Longrightarrow> store_step d d'"
| st_requery: "begin_requery sha codec public ba locked slocked now d own src op rq ep ids xd = Inr (res', d') \<Longrightarrow>
    store_step d d'"
| st_running: "mark_running now d own x = Inr (u, d') \<Longrightarrow> store_step d d'"
| st_finish: "finish_attempt now d own tok snap perr exec_id = Inr (t, d') \<Longrightarrow> paired d tok exec_id \<Longrightarrow>
    store_step d d'"
| st_request_stop: "request_execution_stop qsha now d own x reason subject = Inr (e, d') \<Longrightarrow>
    store_step d d'"
| st_finish_stopped: "finish_execution_stopped now d own tok x st serr = Inr (t, d') \<Longrightarrow>
    st \<in> {Cancelled, TimedOut, Failed} \<Longrightarrow> store_step d d'"
| st_start: "store_step d (runtime_start now epoch d)"
| st_reconcile: "reconcile rh locked now epoch d h = Inr d' \<Longrightarrow> store_step d d'"
| st_rename: "rename_history locked now d own h title rv = Inr (r, d') \<Longrightarrow> store_step d d'"
| st_delete: "delete_history qsha locked now d own h rv subj = Inr (u, d') \<Longrightarrow> store_step d d'"
| st_copy: "copy_result codec locked now d own h turn_id title nid = Inr (s, d') \<Longrightarrow> store_step d d'"
| st_rename_saved: "rename_saved_result locked now d own sid title rv = Inr (s, d') \<Longrightarrow> store_step d d'"
| st_delete_saved: "delete_saved_result locked d own sid rv = Inr (u, d') \<Longrightarrow> store_step d d'"

lemma store_step_refines: "store_step d d' \<Longrightarrow> db_ok d \<Longrightarrow> refined d d'"
proof (induction rule: store_step.induct)
  case (st_finish now d own tok snap perr exec_id t d')
  from finish_attempt_Inr [OF st_finish(3,1)] st_finish(2) show ?case by blast
next
  case (st_finish_stopped now d own tok x st serr t d')
  from finish_execution_stopped_Inr [OF st_finish_stopped(3,1)] st_finish_stopped(2) show ?case by blast
next
  case (st_delete qsha locked now d own h rv subj u d')
  from delete_history_Inr [OF st_delete(2,1)] show ?case by blast
next
  case (st_copy codec locked now d own h turn_id title nid s d')
  then show ?case using copy_result_tables refined_same by blast
next
  case (st_rename_saved locked now d own sid title rv s d')
  then show ?case using rename_saved_tables refined_same by blast
next
  case (st_delete_saved locked d own sid rv u d')
  then show ?case using delete_saved_tables refined_same by blast
qed (blast intro: create_history_refines begin_attempt_refines begin_analysis_attempt_refines
    begin_execution_attempt_refines begin_requery_refines mark_running_refines request_execution_stop_refines
    runtime_start_refines reconcile_refines rename_history_refines)+

lemma store_steps_refine: "store_step\<^sup>*\<^sup>* d d' \<Longrightarrow> db_ok d \<Longrightarrow> refined d d'"
proof (induction rule: rtranclp_induct)
  case (step y z)
  then have "refined d y" by blast
  moreover from this have "refined y z" using step(2) by (blast intro: store_step_refines refined_ok)
  ultimately show ?case by (rule refined_trans)
qed (rule refined_refl)

lemma store_steps_ok: "store_step\<^sup>*\<^sup>* d d' \<Longrightarrow> db_ok d \<Longrightarrow> ok_step\<^sup>*\<^sup>* (tables_of d) (tables_of d')"
  using store_steps_refine [of d d'] ok_steps by (auto simp: refined_def db_ok_tables)

lemma empty_db_ok: "db_ok empty_db"
  by (simp add: db_ok_def empty_db_def keys_ok_def hist_inv_def exec_keys_def turn_keys_def)

end
