(* ===== verification/Store_Properties.thy ===== *)
theory Store_Properties
  imports Store_Steps
begin

text \<open>
  What the history store guarantees whatever the order of requests, background work, restarts and
  user actions: the claims on \<open>chatbi_control/history.py\<close>, \<open>chatbi_control/execution.py\<close> and the
  start-up recovery of \<open>query_api/history_runtime.py\<close>. \<open>demo_db\<close>, reached from the empty database
  by the transactions themselves, is the state the witnesses evaluate.
\<close>

section \<open>A reachable state with one execution under way\<close>

definition demo_sha :: "op_value \<Rightarrow> pystr" where
  "demo_sha v = (case v of CreateOp k q \<Rightarrow> 1 # q | QueryOp q r \<Rightarrow> 2 # q | _ \<Rightarrow> [3])"

definition demo_epoch :: uid where "demo_epoch = [9]"
definition demo_history :: uid where "demo_history = [1]"
definition demo_turn :: uid where "demo_turn = [2]"
definition demo_exec :: uid where "demo_exec = [3]"

definition demo_token :: token where
  "demo_token = \<lparr>tk_history = demo_history, tk_turn = demo_turn, tk_epoch = demo_epoch, tk_generation = 1\<rparr>"

definition demo_history_row :: history_row where
  "demo_history_row = \<lparr>hs_owner = 7, hs_kind = Query, hs_title = [65], hs_question = [65],
     hs_creation_op = [4], hs_creation_hash = [1, 65], hs_created_at = 10, hs_updated_at = 10,
     hs_context_revision = 0, hs_record_revision = 0, hs_next_ordinal = 1, hs_last_success = None,
     hs_active = None, hs_generation = 0, hs_run = None, hs_deleted = None\<rparr>"

definition demo_turn_row :: turn_row where
  "demo_turn_row = \<lparr>tn_history = demo_history, tn_ordinal = 1, tn_op = [5], tn_hash = [2, 65],
     tn_question = [65], tn_request = [8], tn_status = TurnAccepted, tn_epoch = demo_epoch,
     tn_generation = 1, tn_completed_at = None, tn_error = None, tn_input = None, tn_snapshot = None\<rparr>"

definition demo_exec_row :: exec_row where
  "demo_exec_row = \<lparr>ex_owner = 7, ex_history = demo_history, ex_turn = demo_turn, ex_op = [5],
     ex_hash = [6], ex_mode = Query, ex_kind = OpQuery, ex_status = Accepted, ex_stop_reason = None,
     ex_epoch = demo_epoch, ex_generation = 1, ex_created_at = 20, ex_started_at = None,
     ex_deadline_at = 60000020, ex_stop_requested_at = None, ex_finished_at = None, ex_error = None\<rparr>"

definition idle_db :: db where
  "idle_db = empty_db\<lparr>db_epoch := Some demo_epoch, db_records := [(demo_history, demo_history_row)]\<rparr>"

definition demo_db :: db where
  "demo_db = idle_db\<lparr>db_turns := [(demo_turn, demo_turn_row)],
     db_records := [(demo_history, demo_history_row\<lparr>hs_active := Some demo_turn, hs_generation := 1,
        hs_next_ordinal := 2, hs_record_revision := 1, hs_updated_at := 20\<rparr>)],
     db_execs := [(demo_exec, demo_exec_row)]\<rparr>"

lemmas demo_defs = demo_sha_def demo_epoch_def demo_history_def demo_turn_def demo_exec_def
  demo_token_def demo_history_row_def demo_turn_row_def demo_exec_row_def idle_db_def demo_db_def
  empty_db_def

lemmas store_defs = owned_def owned_nowait_def sel_first_def upd_where_def count_where_def
  insert_row_def del_where_def find_execution_def begin_turn_def base_state_def turn_clash_def
  insert_execution_def exec_clash_def locked_execution_def token_current_def turn_match_def
  begin_execution_attempt_def finish_attempt_def finish_exec_row_def finish_row_def
  request_execution_stop_def request_stop_row_def finish_execution_stopped_def finish_stop_row_def Let_def

lemma idle_db_steps: "store_step\<^sup>*\<^sup>* empty_db idle_db"
proof -
  have s1: "store_step empty_db (runtime_start 5 demo_epoch empty_db)" by (rule st_start)
  have "create_history demo_sha 10 (runtime_start 5 demo_epoch empty_db) 7 Query [65] [4] demo_history [0]
      = Inr ((demo_history, demo_history_row), idle_db)"
    by (simp add: create_history_def runtime_start_def demo_defs store_defs)
  from st_create [OF this] s1 show ?thesis by (meson r_into_rtranclp rtranclp.rtrancl_into_rtrancl)
qed

lemma demo_begin:
  "begin_execution_attempt demo_sha (\<lambda>_. Inr ()) False 20 idle_db 7 demo_history [65] [5] [6] (Some 0) [8]
     demo_epoch Query OpQuery 60 None demo_turn demo_exec =
   Inr (ExecutionAcceptance (demo_exec, demo_exec_row)
          (Some \<lparr>acc_token = Some demo_token, acc_turn = (demo_turn, demo_turn_row), acc_base = None,
                 acc_source = None\<rparr>) True, demo_db)"
  by (simp add: demo_defs store_defs)

lemma demo_db_steps: "store_step\<^sup>*\<^sup>* empty_db demo_db"
  using idle_db_steps st_begin_execution [OF demo_begin] by (rule rtranclp.rtrancl_into_rtrancl)

lemma idle_db_ok: "db_ok idle_db" and demo_db_ok: "db_ok demo_db"
  using store_steps_refine [OF idle_db_steps empty_db_ok] store_steps_refine [OF demo_db_steps empty_db_ok]
  by (auto dest: refined_ok)

lemma demo_paired: "paired demo_db demo_token (Some demo_exec)"
  by (simp add: paired_def demo_defs)

section \<open>One attempt at a time\<close>

text \<open>C3: In every state the store can reach, a history has at most one accepted (unfinished) turn:
  it is the one \<open>active_turn_id\<close> names, the history is not deleted, and it carries the history's
  current generation.\<close>

theorem single_active_attempt:
  assumes "store_step\<^sup>*\<^sup>* empty_db d"
    and "map_of (db_turns d) t = Some a" "tn_status a = TurnAccepted"
  shows "\<exists>r. map_of (db_records d) (tn_history a) = Some r \<and> hs_active r = Some t
             \<and> hs_deleted r = None \<and> hs_generation r = tn_generation a
             \<and> (\<forall>u b. map_of (db_turns d) u = Some b \<and> tn_history b = tn_history a
                    \<and> tn_status b = TurnAccepted \<longrightarrow> u = t)"
proof -
  have inv: "hist_inv (map_of (db_records d)) (map_of (db_turns d)) (map_of (db_execs d))"
    using store_steps_refine [OF assms(1) empty_db_ok] by (auto dest: refined_ok simp: db_ok_def)
  obtain r where r: "map_of (db_records d) (tn_history a) = Some r" "hs_deleted r = None"
    "hs_active r = Some t" using inv_turn [OF inv assms(2)] assms(3) by blast
  moreover have "hs_generation r = tn_generation a" using inv_active [OF inv r(1,3)] assms(2) by simp
  moreover have "u = t" if "map_of (db_turns d) u = Some b" "tn_history b = tn_history a"
      "tn_status b = TurnAccepted" for u b
    using inv_turn [OF inv that(1)] that(2,3) r by simp
  ultimately show ?thesis by blast
qed

lemma single_active_attempt_witness:
  "\<exists>r. map_of (db_records demo_db) demo_history = Some r \<and> hs_active r = Some demo_turn"
  using single_active_attempt [OF demo_db_steps, of demo_turn demo_turn_row]
  by (simp add: demo_db_def demo_turn_row_def)

section \<open>A result is committed at most once\<close>

lemma token_current_valid:
  "owned d own (tk_history tok) = Inr r \<Longrightarrow> token_current d r tok \<Longrightarrow> token_valid tok (tables_of d)"
  by (auto simp: owned_Inr token_current_def tables_of_def)

lemma invalid_token_commits_nothing:
  assumes "\<not> token_valid tok (tables_of d)"
  shows "\<exists>e. finish_attempt now d own tok snap err x = Inl e"
    and "\<exists>e. finish_execution_stopped now d own tok y st serr = Inl e"
proof -
  have a: "owned d own (tk_history tok) \<noteq> Inr r \<or> \<not> token_current d r tok" for r
    using assms token_current_valid by blast
  show "\<exists>e. finish_execution_stopped now d own tok y st serr = Inl e"
    using a by (cases "owned d own (tk_history tok)") (auto simp: finish_execution_stopped_def)
  show "\<exists>e. finish_attempt now d own tok snap err x = Inl e"
  proof (cases "owned d own (tk_history tok)")
    case (Inr r)
    let ?chk = "case x of None \<Rightarrow> Inr () | Some x \<Rightarrow>
                bindR (locked_execution d own x) (\<lambda>e.
                  if ex_status e = Stopping then Inl (stopped_error (ex_stop_reason e))
                  else if ex_status e \<notin> {Accepted, Running} then Inl save_unconfirmed
                  else Inr ())"
    show ?thesis using a [of r] Inr by (cases ?chk) (simp_all add: finish_attempt_unfold)
  qed (simp add: finish_attempt_def)
qed

lemma spent_token_stays:
  assumes "db_ok d" "token_spent tok (tables_of d)" "store_step\<^sup>*\<^sup>* d d2"
  shows "\<not> token_valid tok (tables_of d2)"
  using token.never_breached [OF assms(2) store_steps_ok [OF assms(3,1)]] .

text \<open>C6: Once a token's attempt has been finished, no later call with that token commits anything,
  whatever requests, restarts, deletions and reconciliations happened in between: the result of an
  attempt is stored at most once.\<close>

theorem commit_at_most_once:
  assumes ok: "db_ok d" and pair: "paired d tok x"
    and fin: "finish_attempt now d own tok snap err x = Inr (t, d1)"
    and later: "store_step\<^sup>*\<^sup>* d1 d2"
  shows "(\<exists>e. finish_attempt now2 d2 own2 tok snap2 err2 x2 = Inl e)
       \<and> (\<exists>e. finish_execution_stopped now2 d2 own2 tok y st serr = Inl e)"
proof -
  have "token_spent tok (tables_of d1) \<and> db_ok d1"
    using ok fin by (rule finish_attempt_Inr)
      (use pair in \<open>auto simp: tables_of_def token_current_def settled_record_def dest: refined_ok\<close>)
  then show ?thesis
    using invalid_token_commits_nothing [OF spent_token_stays [OF _ _ later]] by blast
qed

definition demo_done :: db where
  "demo_done = demo_db\<lparr>db_turns := [(demo_turn, settled_turn 30 (Some []) None demo_turn_row)],
     db_records := [(demo_history, settled_record 30 (Some []) demo_turn
        (demo_history_row\<lparr>hs_active := Some demo_turn, hs_generation := 1,
        hs_next_ordinal := 2, hs_record_revision := 1, hs_updated_at := 20\<rparr>))],
     db_execs := [(demo_exec, demo_exec_row\<lparr>ex_status := Succeeded, ex_finished_at := Some 30\<rparr>)]\<rparr>"

lemma demo_finish:
  "finish_attempt 30 demo_db 7 demo_token (Some []) None (Some demo_exec)
     = Inr (settled_turn 30 (Some []) None demo_turn_row, demo_done)"
  by (simp add: finish_attempt_unfold demo_done_def demo_defs store_defs settled_turn_def settled_record_def)

lemma commit_at_most_once_witness:
  "\<exists>e. finish_attempt 31 demo_done 7 demo_token (Some []) None (Some demo_exec) = Inl e"
  using commit_at_most_once [OF demo_db_ok demo_paired demo_finish rtranclp.rtrancl_refl] by blast

section \<open>The race between finishing and stopping\<close>

lemma tables_of_history:
  "map_of (db_execs d) x = Some e \<Longrightarrow> \<not> stop_lost (x, ex_history e, r) (tables_of d) \<Longrightarrow>
     ex_stop_reason e = Some r \<and> ex_status e \<notin> {Accepted, Running, Succeeded}"
  by (auto simp: tables_of_def)

lemma finish_needs_running:
  assumes "db_ok d" and "finish_attempt now d own tok snap err (Some x) = Inr (t, d')"
  shows "\<exists>e. map_of (db_execs d) x = Some e \<and> ex_status e \<in> {Accepted, Running} \<and> ex_owner e = own"
proof -
  from assms(2) obtain e where e: "locked_execution d own x = Inr e" "ex_status e \<in> {Accepted, Running}"
    by (cases "locked_execution d own x")
      (auto simp: finish_attempt_unfold bindR_iffs split: if_splits)
  then show ?thesis using locked_execution_Inr [OF assms(1)] by blast
qed

text \<open>C7: When a stop request has won (the execution is \<open>stopping\<close>), the execution keeps the first
  stop reason for ever, it never runs or succeeds afterwards, and no result of its attempt is
  stored any more, however late the worker finishes.\<close>

theorem stop_wins_for_good:
  assumes ok: "db_ok d" and stop: "request_execution_stop qsha now d own x reason subject = Inr (e, d1)"
    and stopping: "ex_status e = Stopping" and later: "store_step\<^sup>*\<^sup>* d1 d2"
    and same: "tk_history tok = ex_history e"
  shows "(\<forall>e2. map_of (db_execs d2) x = Some e2 \<and> ex_history e2 = ex_history e \<longrightarrow>
            ex_stop_reason e2 = ex_stop_reason e \<and> ex_status e2 \<notin> {Accepted, Running, Succeeded})
       \<and> (\<exists>f. finish_attempt now2 d2 own tok snap err (Some x) = Inl f)"
proof -
  have d1: "map_of (db_execs d1) x = Some e \<and> refined d d1"
    using ok stop by (rule request_execution_stop_Inr) (auto simp: refined_refl ok)
  have ok1: "db_ok d1" using d1 refined_ok by blast
  then have inv: "hist_inv (map_of (db_records d1)) (map_of (db_turns d1)) (map_of (db_execs d1))"
    by (simp add: db_ok_def)
  obtain r where r: "ex_stop_reason e = Some r"
    using inv_stop_reason [OF inv _ stopping] d1 by blast
  have won: "stop_won (x, ex_history e, r) (tables_of d1)"
    using d1 r stopping inv by (simp add: tables_of_def)
  have safe: "\<not> stop_lost (x, ex_history e, r) (tables_of d2)"
    using stopping.never_breached [OF won store_steps_ok [OF later ok1]] .
  have won2: "stop_won (x, ex_history e, r) (tables_of d2)"
    using stopping.sealed_steps [OF store_steps_ok [OF later ok1] won] .
  have ok2: "db_ok d2" using store_steps_refine [OF later ok1] refined_ok by blast
  have "finish_attempt now2 d2 own tok snap err (Some x) \<noteq> Inr z" for z
  proof
    assume f: "finish_attempt now2 d2 own tok snap err (Some x) = Inr z"
    obtain t d3 where z: "z = (t, d3)" by fastforce
    obtain e2 where e2: "map_of (db_execs d2) x = Some e2" "ex_status e2 \<in> {Accepted, Running}"
      using finish_needs_running [OF ok2] f z by blast
    obtain r2 where "owned d2 own (tk_history tok) = Inr r2"
      using finish_attempt_Inr [OF ok2] f z by blast
    then have "\<not> history_gone (ex_history e) (tables_of d2)"
      using same by (auto simp: owned_Inr tables_of_def)
    then have "ex_history e2 = ex_history e" using won2 e2 by (auto simp: tables_of_def)
    with safe e2 show False by (auto simp: tables_of_def)
  qed
  then have "\<exists>f. finish_attempt now2 d2 own tok snap err (Some x) = Inl f"
    by (cases "finish_attempt now2 d2 own tok snap err (Some x)") blast+
  moreover have "ex_stop_reason e2 = Some r \<and> ex_status e2 \<notin> {Accepted, Running, Succeeded}"
    if "map_of (db_execs d2) x = Some e2" "ex_history e2 = ex_history e" for e2
    using tables_of_history [OF that(1)] safe that(2) by simp
  ultimately show ?thesis using r by auto
qed

definition demo_stopping_row :: exec_row where
  "demo_stopping_row = demo_exec_row\<lparr>ex_status := Stopping, ex_stop_reason := Some DEADLINE_EXCEEDED,
     ex_stop_requested_at := Some 25\<rparr>"

definition demo_stopping :: db where
  "demo_stopping = demo_db\<lparr>db_execs := [(demo_exec, demo_stopping_row)]\<rparr>"

lemma demo_stop:
  "request_execution_stop (\<lambda>q. q) 25 demo_db 7 demo_exec DEADLINE_EXCEEDED None
     = Inr (demo_stopping_row, demo_stopping)"
  by (simp add: demo_stopping_def demo_stopping_row_def demo_defs store_defs)

lemma stop_wins_for_good_witness:
  "\<exists>f. finish_attempt 31 demo_stopping 7 demo_token (Some []) None (Some demo_exec) = Inl f"
  using stop_wins_for_good [OF demo_db_ok demo_stop _ rtranclp.rtrancl_refl, of demo_token]
  by (simp add: demo_stopping_row_def demo_token_def demo_exec_row_def)

lemma finish_ok:
  assumes "db_ok d" and "paired d tok (Some x)" and "finish_attempt now d own tok snap err (Some x) = Inr (t, d1)"
  shows "db_ok d1"
  using assms(1,3) by (rule finish_attempt_Inr) (use assms(2) in \<open>auto dest: refined_ok\<close>)

lemma no_exec_left:
  "db_ok d \<Longrightarrow> history_gone h (tables_of d) \<Longrightarrow> map_of (db_execs d) y = Some e \<Longrightarrow> ex_history e \<noteq> h"
  unfolding tables_of_def db_ok_def by (blast dest: gone_exec_at)

lemma no_exec_no_stop:
  assumes "db_ok d" and "map_of (db_execs d) x = None"
  shows "request_execution_stop qsha now d own x reason subject = Inl unavailable"
proof (cases "sel_first (\<lambda>x' e. x' = x \<and> ex_owner e = own) (db_execs d)")
  case (Some p)
  obtain x' e where "p = (x', e)" by fastforce
  with select_execution [OF assms(1), of x own x' e] Some assms(2) show ?thesis by simp
qed (simp add: request_execution_stop_def)

lemma finished_answers_stop:
  assumes ok: "db_ok d" and pair: "paired d tok (Some x)"
    and fin: "finish_attempt now d own tok snap err (Some x) = Inr (t, d1)"
    and later: "store_step\<^sup>*\<^sup>* d1 d2"
    and alive: "\<not> history_gone (tk_history tok) (tables_of d2)"
  shows "\<exists>e. request_execution_stop qsha now2 d2 own x reason subject = Inr (e, d2)
           \<and> ex_status e = (if snap \<noteq> None then Succeeded else Failed) \<and> ex_error e = err"
proof -
  let ?st = "if snap \<noteq> None then Succeeded else Failed"
  from ok fin obtain r where r: "owned d own (tk_history tok) = Inr r" and ref: "refined d d1"
    and R1: "map_of (db_records d1) (tk_history tok) = Some (settled_record now snap (tk_turn tok) r)"
    and ex: "\<exists>e. map_of (db_execs d) x = Some e \<and> ex_owner e = own
       \<and> map_of (db_execs d1) x = Some (e\<lparr>ex_status := ?st, ex_error := err, ex_finished_at := Some now\<rparr>)"
    by (rule finish_attempt_Inr) (use pair in auto)
  obtain e where e: "map_of (db_execs d) x = Some e" "ex_owner e = own"
    "map_of (db_execs d1) x = Some (e\<lparr>ex_status := ?st, ex_error := err, ex_finished_at := Some now\<rparr>)"
    using ex by blast
  let ?e = "e\<lparr>ex_status := ?st, ex_error := err, ex_finished_at := Some now\<rparr>"
  have ok1: "db_ok d1" using ref by (rule refined_ok)
  have ref2: "refined d1 d2" using store_steps_refine [OF later ok1] .
  have ok2: "db_ok d2" using ref2 by (rule refined_ok)
  have hist: "ex_history e = tk_history tok"
  proof -
    have inv: "hist_inv (map_of (db_records d)) (map_of (db_turns d)) (map_of (db_execs d))"
      using ok by (simp add: db_ok_def)
    have "ex_turn e = tk_turn tok" using pair e(1) by (simp add: paired_def)
    moreover obtain t where "map_of (db_turns d) (tk_turn tok) = Some t" "tn_history t = tk_history tok"
      using ok fin by (rule finish_attempt_Inr) (auto simp: turn_match_def)
    ultimately show ?thesis using inv_exec [OF inv e(1)] by auto
  qed
  have "exec_fixed (x, ?e) (tables_of d1)"
    using e(3) ok1 by (simp add: tables_of_def db_ok_def exec_live_def)
  then have "exec_fixed (x, ?e) (tables_of d2)"
    using execution.sealed_steps [OF store_steps_ok [OF later ok1]] by blast
  then have X2: "map_of (db_execs d2) x = Some ?e"
    using alive hist by (auto simp: tables_of_def)
  have "\<exists>r2. map_of (db_records d2) (tk_history tok) = Some r2 \<and> hs_owner r2 = own"
    using hsteps_record [of "tables_of d1" "tables_of d2" "tk_history tok"] ref2 R1 r
    by (auto simp: refined_def tables_of_def record_le_def settled_record_def owned_Inr)
  then obtain r2 where "owned d2 own (tk_history tok) = Inr r2"
    using alive by (auto simp: owned_Inr tables_of_def)
  moreover have "sel_first (\<lambda>x' e. x' = x \<and> ex_owner e = own) (db_execs d2) = Some (x, ?e)"
    using ok2 X2 e(2) by (intro sel_first_key) (auto simp: db_ok_def)
  moreover have "locked_execution d2 own x = Inr ?e"
    using locked_execution_Inr [OF ok2] X2 e(2) by simp
  ultimately have "request_execution_stop qsha now2 d2 own x reason subject = Inr (?e, d2)"
    using hist by (simp add: request_execution_stop_def)
  then show ?thesis by simp
qed

text \<open>C12: When finishing has won, a later stop request changes nothing: as long as the history exists it
  returns the execution's terminal row and leaves the database as it is. Once the history is deleted, no
  execution of it is left and a stop request for the execution's identifier is answered with
  HISTORY_UNAVAILABLE (unless an execution of another history has drawn the same identifier since).\<close>

theorem finish_wins_for_good:
  assumes ok: "db_ok d" and pair: "paired d tok (Some x)"
    and fin: "finish_attempt now d own tok snap err (Some x) = Inr (t, d1)"
    and later: "store_step\<^sup>*\<^sup>* d1 d2"
  shows "if history_gone (tk_history tok) (tables_of d2)
         then (\<forall>y e. map_of (db_execs d2) y = Some e \<longrightarrow> ex_history e \<noteq> tk_history tok)
           \<and> (map_of (db_execs d2) x = None \<longrightarrow>
                request_execution_stop qsha now2 d2 own x reason subject = Inl unavailable)
         else \<exists>e. request_execution_stop qsha now2 d2 own x reason subject = Inr (e, d2)
                \<and> ex_status e = (if snap \<noteq> None then Succeeded else Failed) \<and> ex_error e = err"
proof (cases "history_gone (tk_history tok) (tables_of d2)")
  case True
  have ok2: "db_ok d2"
    using refined_ok [OF store_steps_refine [OF later finish_ok [OF ok pair fin]]] .
  then show ?thesis
    using True no_exec_left [OF ok2 True] no_exec_no_stop [OF ok2] by simp
next
  case False
  then show ?thesis using finished_answers_stop [OF ok pair fin later False] by simp
qed

lemma finish_wins_for_good_witness:
  "\<exists>e. request_execution_stop (\<lambda>q. q) 40 demo_done 7 demo_exec USER_CANCELLED None = Inr (e, demo_done)
     \<and> ex_status e = Succeeded"
proof -
  have "\<not> history_gone (tk_history demo_token) (tables_of demo_done)"
    by (simp add: tables_of_def demo_done_def settled_record_def demo_defs)
  with finish_wins_for_good [OF demo_db_ok demo_paired demo_finish rtranclp.rtrancl_refl,
      of "\<lambda>q. q" 40 USER_CANCELLED None]
  show ?thesis by auto
qed

section \<open>Retries of a request\<close>

lemma find_execution_hit:
  assumes "db_ok d" "map_of (db_execs d) x = Some e" "ex_owner e = own" "ex_op e = op"
  shows "find_execution d own op hash =
    (if strip (ex_hash e) \<noteq> hash then Inl operation_conflict else Inr (Some (x, e)))"
proof -
  let ?P = "\<lambda>_ e. ex_owner e = own \<and> ex_op e = op"
  have k: "keys_ok (db_execs d)" using assms(1) by (simp add: db_ok_def)
  have inv: "hist_inv (map_of (db_records d)) (map_of (db_turns d)) (map_of (db_execs d))"
    using assms(1) by (simp add: db_ok_def)
  have "sel_first ?P (db_execs d) = Some (x, e)"
  proof (cases "sel_first ?P (db_execs d)")
    case None
    with sel_first_None_map_of [OF None assms(2)] assms(3,4) show ?thesis by simp
  next
    case (Some p)
    obtain y f where p: "p = (y, f)" by fastforce
    with Some sel_first_map_of [OF k, of ?P y f]
    have f: "map_of (db_execs d) y = Some f" "ex_owner f = own" "ex_op f = op" by auto
    then have "y = x" using inv_exec_op [OF inv f(1) assms(2)] assms(3,4) by simp
    with f(1) assms(2) Some p show ?thesis by simp
  qed
  then show ?thesis by (simp add: find_execution_def)
qed

lemma exec_persists:
  assumes "ok_step\<^sup>*\<^sup>* s s'" and "snd (snd s) x = Some e" and "\<not> history_gone (ex_history e) s'"
  shows "\<exists>e'. snd (snd s') x = Some e' \<and> same_exec e e' \<and> lifecycle\<^sup>*\<^sup>* (ex_status e) (ex_status e')"
  using assms
proof (induction rule: rtranclp_induct)
  case base
  then show ?case by (auto simp: same_exec_def)
next
  case (step y z)
  obtain R T E R' T' E' where y: "y = (R, T, E)" and z: "z = (R', T', E')" by (metis surj_pair)
  have "\<not> history_gone (ex_history e) y"
    using step(2,5) gone_step [of "ex_history e" y z] unfolding ok_step_def by blast
  with step obtain e1 where e1: "snd (snd y) x = Some e1" "same_exec e e1"
    "lifecycle\<^sup>*\<^sup>* (ex_status e) (ex_status e1)" by blast
  have hh: "ex_history e1 = ex_history e" using e1(2) by (simp add: same_exec_def)
  have "E' x = Some e1 \<or> (\<exists>e'. E' x = Some e' \<and> advance e1 e')"
    using hstep_exec [of R T E R' T' E' x e1] step(2,5) e1(1) hh by (auto simp: y z ok_step_def)
  then show ?case
  proof (elim disjE exE conjE)
    fix e' assume a: "E' x = Some e'" "advance e1 e'"
    then have "lifecycle\<^sup>*\<^sup>* (ex_status e) (ex_status e')"
      using e1(3) by (auto simp: advance_def intro: rtranclp.rtrancl_into_rtrancl)
    moreover have "same_exec e e'" using a(2) e1(2) by (simp add: advance_def same_exec_def)
    ultimately show ?case using a(1) by (simp add: z)
  qed (use e1 in \<open>simp add: z\<close>)
qed

text \<open>C25: Retrying an accepted execution request is idempotent: as long as its history is not
  deleted, a request with the same operation id and the same request hash gets the execution that was
  created, accepts no second attempt and changes nothing; with another hash it is refused as a
  conflict.\<close>

theorem request_replay_is_idempotent:
  assumes ok: "db_ok d" and hash: "strip hash = hash"
    and first: "begin_execution_attempt sha codec locked now d own h q op hash rv rq ep mode okind dl
                  err nt nx = Inr (ExecutionAcceptance (x, e) (Some a) True, d1)"
    and later: "store_step\<^sup>*\<^sup>* d1 d2" and alive: "\<not> history_gone h (tables_of d2)"
  shows "\<exists>e2. begin_execution_attempt sha codec locked2 now2 d2 own h q2 op hash rv2 rq2 ep2 mode2
                 okind2 dl2 err2 nt2 nx2 = Inr (ExecutionAcceptance (x, e2) None False, d2)
            \<and> same_exec e e2
            \<and> (\<forall>other. other \<noteq> hash \<longrightarrow> begin_execution_attempt sha codec locked2 now2 d2 own h q2 op
                 other rv2 rq2 ep2 mode2 okind2 dl2 err2 nt2 nx2 = Inl operation_conflict)"
proof -
  have e: "map_of (db_execs d1) x = Some e" and ref: "refined d d1" and hist: "ex_history e = h"
    using ok first by (rule begin_execution_attempt_Inr, auto)+
  have base: "ex_owner e = own \<and> ex_op e = op \<and> ex_hash e = hash"
    using ok first by (rule begin_execution_attempt_Inr) auto
  have ok1: "db_ok d1" using ref by (rule refined_ok)
  have ok2: "db_ok d2" using store_steps_refine [OF later ok1] refined_ok by blast
  obtain e2 where e2: "map_of (db_execs d2) x = Some e2" "same_exec e e2"
    using exec_persists [OF store_steps_ok [OF later ok1], of x e] e alive hist
    by (auto simp: tables_of_def)
  have own: "ex_owner e2 = own" "ex_op e2 = op" "strip (ex_hash e2) = hash"
    using e2(2) base hash by (simp_all add: same_exec_def)
  have "begin_execution_attempt sha codec locked2 now2 d2 own h q2 op other rv2 rq2 ep2 mode2
      okind2 dl2 err2 nt2 nx2 = (if hash \<noteq> other then Inl operation_conflict
        else Inr (ExecutionAcceptance (x, e2) None False, d2))" for other
    using find_execution_hit [OF ok2 e2(1) own(1,2)] own(3)
    by (simp add: begin_execution_attempt_def)
  with e2(2) show ?thesis by auto
qed

lemma request_replay_is_idempotent_witness:
  "begin_execution_attempt demo_sha (\<lambda>_. Inr ()) False 50 demo_db 7 demo_history [66] [5] [7] (Some 3) [8]
     demo_epoch Query OpQuery 60 None [70] [71] = Inl operation_conflict"
proof -
  have "strip [6] = [6]" by (simp add: strip_def py_isspace_def)
  moreover have "\<not> history_gone demo_history (tables_of demo_db)"
    by (simp add: tables_of_def demo_defs)
  ultimately show ?thesis
    using request_replay_is_idempotent [OF idle_db_ok _ demo_begin rtranclp.rtrancl_refl, of False 50 "[66]"
        "Some 3" "[8]" demo_epoch Query OpQuery 60 None "[70]" "[71]"] by auto
qed

section \<open>Start-up recovery\<close>

lemma free_ended: "tn_status (free_turn now t) \<noteq> TurnAccepted" "\<not> exec_live (ex_status (free_exec now e))"
  by (simp_all add: exec_live_def)

lemma free_ended_map:
  "map_option (free_turn now) m = Some a \<Longrightarrow> tn_status a \<noteq> TurnAccepted"
  "map_option (free_exec now) p = Some e \<Longrightarrow> \<not> exec_live (ex_status e)"
  using free_ended by (auto simp del: free_turn_simps free_exec_simps)

lemma free_same: "tn_status t \<noteq> TurnAccepted \<Longrightarrow> free_turn now t = t"
  by (simp add: free_turn_def)

text \<open>Starting the service leaves nothing under way: no turn is accepted, no execution is live, no
  history has an active turn, outcomes that were stored stay as they were, and no attempt accepted
  before the start ever commits afterwards.\<close>

theorem startup_leaves_nothing_live:
  assumes ok: "db_ok d" and later: "store_step\<^sup>*\<^sup>* (runtime_start now epoch d) d2"
    and old: "token_valid tok (tables_of d)"
  shows "(\<forall>t a. map_of (db_turns (runtime_start now epoch d)) t = Some a \<longrightarrow> tn_status a \<noteq> TurnAccepted
            \<and> (\<forall>b. map_of (db_turns d) t = Some b \<and> tn_status b \<noteq> TurnAccepted \<longrightarrow> a = b))
       \<and> (\<forall>x e. map_of (db_execs (runtime_start now epoch d)) x = Some e \<longrightarrow> \<not> exec_live (ex_status e))
       \<and> (\<forall>h r. map_of (db_records (runtime_start now epoch d)) h = Some r \<longrightarrow> hs_active r = None)
       \<and> (\<exists>e. finish_attempt now2 d2 own tok snap err x2 = Inl e)"
proof -
  let ?s = "runtime_start now epoch d"
  have t: "map_of (db_records ?s) = map_option (free_record now) \<circ> map_of (db_records d)"
    "map_of (db_turns ?s) = map_option (free_turn now) \<circ> map_of (db_turns d)"
    "map_of (db_execs ?s) = map_option (free_exec now) \<circ> map_of (db_execs d)"
    using tables_of_runtime_start [of now epoch d] by (simp_all add: tables_of_def)
  have "token_spent tok (tables_of ?s)"
    using old by (auto simp: t tables_of_def)
  then have "\<exists>e. finish_attempt now2 d2 own tok snap err x2 = Inl e"
    using invalid_token_commits_nothing(1) [OF spent_token_stays [OF _ _ later]]
      refined_ok [OF runtime_start_refines [OF ok]] by blast
  moreover have "a = b" if "map_of (db_turns ?s) t = Some a" "map_of (db_turns d) t = Some b"
      "tn_status b \<noteq> TurnAccepted" for t a b
    using that by (simp add: t free_same)
  moreover have "hs_active r = None" if "map_of (db_records ?s) h = Some r" for h r
    using that by (auto simp: t)
  moreover have "tn_status a \<noteq> TurnAccepted" if "map_of (db_turns ?s) t = Some a" for t a
    using that by (intro free_ended_map(1)) (simp add: t)
  moreover have "\<not> exec_live (ex_status e)" if "map_of (db_execs ?s) x = Some e" for x e
    using that by (intro free_ended_map(2)) (simp add: t)
  ultimately show ?thesis by blast
qed

lemma startup_leaves_nothing_live_witness:
  "\<exists>e. finish_attempt 60 (runtime_start 55 [99] demo_db) 7 demo_token None None (Some demo_exec) = Inl e"
proof -
  have "token_valid demo_token (tables_of demo_db)" by (simp add: tables_of_def demo_defs)
  from startup_leaves_nothing_live [OF demo_db_ok rtranclp.rtrancl_refl this] show ?thesis by blast
qed

section \<open>Deletion and ownership\<close>

text \<open>C29: A deleted history is gone for good: after any later transactions no user can read it, its
  turns no longer exist, and no attempt on it is accepted or finished.\<close>

theorem deletion_is_final:
  assumes ok: "db_ok d" and del: "delete_history qsha locked now d own h rv subj = Inr (u, d1)"
    and later: "store_step\<^sup>*\<^sup>* d1 d2"
  shows "owned d2 own2 h = Inl unavailable \<and> read_turn d2 own2 h t = Inl unavailable
       \<and> read_turns d2 own2 h limit cursor = Inl unavailable
       \<and> history_header now2 d2 own2 h = Inl unavailable
       \<and> (\<forall>t a. map_of (db_turns d2) t = Some a \<longrightarrow> tn_history a \<noteq> h)
       \<and> (\<forall>x e. map_of (db_execs d2) x = Some e \<longrightarrow> ex_history e \<noteq> h)
       \<and> begin_attempt sha codec ba locked2 now2 d2 own2 h q op rvn rq ep nid = Inl unavailable
       \<and> (tk_history tok = h \<longrightarrow> finish_attempt now2 d2 own2 tok snap err x2 = Inl unavailable)"
proof -
  have gone1: "history_gone h (tables_of d1)" and ref: "refined d d1"
    using ok del by (rule delete_history_Inr, auto)+
  have ok1: "db_ok d1" using ref by (rule refined_ok)
  have gone: "history_gone h (tables_of d2)"
    using deletion.sealed_steps [OF store_steps_ok [OF later ok1] gone1] .
  have inv: "hist_inv (map_of (db_records d2)) (map_of (db_turns d2)) (map_of (db_execs d2))"
    using store_steps_refine [OF later ok1] by (auto dest: refined_ok simp: db_ok_def)
  have own: "owned d2 own2 h = Inl unavailable"
    using gone by (auto simp: owned_def tables_of_def)
  have "tn_history a \<noteq> h" if "map_of (db_turns d2) t = Some a" for t a
    using gone_turn_at [OF gone [unfolded tables_of_def] inv that] .
  moreover have "ex_history e \<noteq> h" if "map_of (db_execs d2) x = Some e" for x e
    using gone_exec_at [OF gone [unfolded tables_of_def] inv that] .
  ultimately show ?thesis
    using own by (auto simp: read_turn_def read_turns_def history_header_def begin_attempt_def
        begin_turn_def owned_nowait_def finish_attempt_def)
qed

lemma deletion_is_final_witness:
  "owned (idle_db\<lparr>db_records := [(demo_history, demo_history_row\<lparr>hs_title := [], hs_question := [],
     hs_last_success := None, hs_active := None, hs_deleted := Some 70, hs_generation := 1,
     hs_record_revision := 1, hs_updated_at := 70\<rparr>)]\<rparr>) 7 demo_history = Inl unavailable"
proof -
  have "delete_history (\<lambda>q. q) False 70 idle_db 7 demo_history 0 [] =
     Inr ((), idle_db\<lparr>db_records := [(demo_history, demo_history_row\<lparr>hs_title := [], hs_question := [],
       hs_last_success := None, hs_active := None, hs_deleted := Some 70, hs_generation := 1,
       hs_record_revision := 1, hs_updated_at := 70\<rparr>)]\<rparr>)"
    by (simp add: delete_history_def demo_defs store_defs)
  from deletion_is_final [OF idle_db_ok this rtranclp.rtrancl_refl] show ?thesis by blast
qed



















section \<open>Outcomes are final, executions only move forward\<close>

text \<open>The stored outcome of a finished turn (its status, snapshot, error and completion time) is
  never rewritten; it disappears only with its history.\<close>

theorem finished_turn_is_immutable:
  assumes ok: "db_ok d" and t: "map_of (db_turns d) t = Some a" "tn_status a \<noteq> TurnAccepted"
    and later: "store_step\<^sup>*\<^sup>* d d2" and alive: "\<not> history_gone (tn_history a) (tables_of d2)"
  shows "map_of (db_turns d2) t = Some a"
proof -
  have "turn_fixed (t, a) (tables_of d)" using t ok by (simp add: tables_of_def db_ok_def)
  then have "turn_fixed (t, a) (tables_of d2)"
    using turn.sealed_steps [OF store_steps_ok [OF later ok]] by blast
  with alive show ?thesis by (auto simp: tables_of_def)
qed

lemma demo_done_ok: "db_ok demo_done"
  using demo_db_ok demo_finish by (rule finish_attempt_Inr) (use demo_paired in \<open>auto dest: refined_ok\<close>)

lemma finished_turn_is_immutable_witness:
  "map_of (db_turns (runtime_start 80 [99] demo_done)) demo_turn
     = Some (settled_turn 30 (Some []) None demo_turn_row)"
proof (rule finished_turn_is_immutable [OF demo_done_ok])
  show "store_step\<^sup>*\<^sup>* demo_done (runtime_start 80 [99] demo_done)" using st_start by (rule r_into_rtranclp)
qed (simp_all add: tables_of_def demo_done_def runtime_start_def demo_defs settled_turn_def
      settled_record_def upd_where_def)

lemma exec_kept:
  assumes ok: "db_ok d" and x: "map_of (db_execs d) x = Some e" and later: "store_step\<^sup>*\<^sup>* d d2"
    and alive: "\<not> history_gone (ex_history e) (tables_of d2)"
  shows "\<exists>e2. map_of (db_execs d2) x = Some e2 \<and> same_exec e e2
            \<and> lifecycle\<^sup>*\<^sup>* (ex_status e) (ex_status e2) \<and> (\<not> exec_live (ex_status e) \<longrightarrow> e2 = e)"
proof -
  note st = store_steps_ok [OF later ok]
  obtain e2 where e2: "map_of (db_execs d2) x = Some e2" "same_exec e e2"
    "lifecycle\<^sup>*\<^sup>* (ex_status e) (ex_status e2)"
    using exec_persists [OF st, of x e] x alive by (auto simp: tables_of_def)
  moreover have "e2 = e" if "\<not> exec_live (ex_status e)"
  proof -
    have "exec_fixed (x, e) (tables_of d)" using x ok that by (simp add: tables_of_def db_ok_def)
    then have "exec_fixed (x, e) (tables_of d2)" using execution.sealed_steps [OF st] by blast
    with alive e2(1) show ?thesis by (auto simp: tables_of_def)
  qed
  ultimately show ?thesis by blast
qed

text \<open>C30: An execution row only moves along the life cycle accepted, running, stopping, terminal: after
  any transactions the row has kept its identity (owner, history, turn, operation, hash, deadline) and
  its status is reachable from the old one; a terminal row is never touched again. The only way a row
  ends is the deletion of its history, and then no execution of that history is left.\<close>

theorem execution_follows_lifecycle:
  assumes ok: "db_ok d" and x: "map_of (db_execs d) x = Some e" and later: "store_step\<^sup>*\<^sup>* d d2"
  shows "if history_gone (ex_history e) (tables_of d2)
         then \<forall>y e2. map_of (db_execs d2) y = Some e2 \<longrightarrow> ex_history e2 \<noteq> ex_history e
         else \<exists>e2. map_of (db_execs d2) x = Some e2 \<and> same_exec e e2
            \<and> lifecycle\<^sup>*\<^sup>* (ex_status e) (ex_status e2) \<and> (\<not> exec_live (ex_status e) \<longrightarrow> e2 = e)"
proof (cases "history_gone (ex_history e) (tables_of d2)")
  case True
  then show ?thesis using no_exec_left [OF refined_ok [OF store_steps_refine [OF later ok]] True] by simp
next
  case False
  then show ?thesis using exec_kept [OF ok x later False] by simp
qed

lemma execution_follows_lifecycle_witness:
  "\<exists>e2. map_of (db_execs demo_stopping) demo_exec = Some e2 \<and> same_exec demo_exec_row e2
     \<and> lifecycle\<^sup>*\<^sup>* Accepted (ex_status e2)"
proof -
  have x: "map_of (db_execs demo_db) demo_exec = Some demo_exec_row" by (simp add: demo_defs)
  have s: "store_step\<^sup>*\<^sup>* demo_db demo_stopping" using st_request_stop [OF demo_stop] by (rule r_into_rtranclp)
  have "\<not> history_gone (ex_history demo_exec_row) (tables_of demo_stopping)"
    by (simp add: tables_of_def demo_stopping_def demo_defs)
  with execution_follows_lifecycle [OF demo_db_ok x s] show ?thesis
    by (auto simp: demo_exec_row_def)
qed

section \<open>Acceptance\<close>

text \<open>A new query attempt is accepted exactly when the caller owns the undeleted history, nobody
  else holds its row, the operation id is new to the history, no attempt is active, the caller's
  context revision and runtime epoch are current, the pre-acceptance check passes, the row can be
  inserted and the base state can be read; the token then carries the next generation.\<close>

theorem begin_attempt_accepts_iff:
  "(\<exists>acc d'. begin_attempt sha codec ba locked now d own h q op rv rq ep nid = Inr (acc, d')
        \<and> acc_token acc = Some tok)
   \<longleftrightarrow> (\<exists>r turns b. map_of (db_records d) h = Some r \<and> hs_owner r = own \<and> hs_deleted r = None
        \<and> \<not> locked \<and> list_all (\<lambda>(_, t). \<not> (tn_history t = h \<and> tn_op t = op)) (db_turns d)
        \<and> hs_active r = None \<and> hs_context_revision r = rv \<and> db_epoch d = Some ep
        \<and> ba (hs_kind r) = None
        \<and> insert_row turn_clash nid
            \<lparr>tn_history = h, tn_ordinal = hs_next_ordinal r, tn_op = op, tn_hash = sha (QueryOp q rv),
             tn_question = q, tn_request = rq, tn_status = TurnAccepted, tn_epoch = ep,
             tn_generation = hs_generation r + 1, tn_completed_at = None, tn_error = None,
             tn_input = None, tn_snapshot = None\<rparr> (db_turns d) = Some turns
        \<and> base_state codec (d\<lparr>db_turns := turns\<rparr>) h r = Inr b
        \<and> tok = \<lparr>tk_history = h, tk_turn = nid, tk_epoch = ep, tk_generation = hs_generation r + 1\<rparr>)"
proof -
  let ?t = "\<lambda>r. \<lparr>tn_history = h, tn_ordinal = hs_next_ordinal r, tn_op = op, tn_hash = sha (QueryOp q rv),
             tn_question = q, tn_request = rq, tn_status = TurnAccepted, tn_epoch = ep,
             tn_generation = hs_generation r + 1, tn_completed_at = None, tn_error = None,
             tn_input = None, tn_snapshot = None\<rparr>"
  let ?P = "\<lambda>_ t. tn_history t = h \<and> tn_op t = op"
  have none: "sel_first ?P (db_turns d) = None
      \<longleftrightarrow> list_all (\<lambda>(_, t). \<not> (tn_history t = h \<and> tn_op t = op)) (db_turns d)"
    by (simp add: sel_first_None list_all_iff)
  have some: "sel_first ?P (db_turns d) = Some p \<Longrightarrow> (\<nexists>acc d'. begin_attempt sha codec ba locked now d own h q op
      rv rq ep nid = Inr (acc, d') \<and> acc_token acc = Some tok)" for p
    by (cases p) (auto simp: begin_attempt_def begin_turn_def bindR_iffs split: if_splits)
  have base: "base_state codec (d\<lparr>db_turns := T, db_records := R\<rparr>) h r = base_state codec (d\<lparr>db_turns := T\<rparr>) h r"
    for T R r by (cases "hs_last_success r") (simp_all add: base_state_def)
  show ?thesis
  proof (cases "sel_first ?P (db_turns d)")
    case None
    show ?thesis (is "?lhs \<longleftrightarrow> ?rhs")
    proof
      assume ?lhs
      then obtain acc d' where res: "begin_attempt sha codec ba locked now d own h q op rv rq ep nid = Inr (acc, d')"
        and tok: "acc_token acc = Some tok" by blast
      from res obtain r where r: "owned d own h = Inr r" "\<not> locked"
        by (auto simp: begin_attempt_def begin_turn_def bindR_iffs owned_nowait_Inr)
      with res None have g: "hs_active r = None" "hs_context_revision r = rv" "db_epoch d = Some ep"
          "ba (hs_kind r) = None"
        by (auto simp: begin_attempt_def begin_turn_def bindR_iffs owned_nowait_Inr
            split: if_splits option.splits)
      from res r g None obtain T where T: "insert_row turn_clash nid (?t r) (db_turns d) = Some T"
        by (cases "insert_row turn_clash nid (?t r) (db_turns d)")
          (auto simp: begin_attempt_def begin_turn_def bindR_iffs owned_nowait_Inr Let_def)
      have "list_all (\<lambda>(_, t). \<not> (tn_history t = h \<and> tn_op t = op)) (db_turns d)"
        using None none by blast
      with res r g None T tok show ?rhs
        by (intro exI [of _ r] exI [of _ T])
          (auto simp: begin_attempt_def begin_turn_def bindR_iffs owned_nowait_Inr owned_Inr Let_def base)
    next
      assume ?rhs
      then obtain r T b where "owned_nowait locked d own h = Inr r" "hs_active r = None"
        "hs_context_revision r = rv" "db_epoch d = Some ep" "ba (hs_kind r) = None"
        "insert_row turn_clash nid (?t r) (db_turns d) = Some T"
        "base_state codec (d\<lparr>db_turns := T\<rparr>) h r = Inr b"
        "tok = \<lparr>tk_history = h, tk_turn = nid, tk_epoch = ep, tk_generation = hs_generation r + 1\<rparr>"
        by (auto simp: owned_nowait_Inr owned_Inr)
      with None show ?lhs
        by (simp add: begin_attempt_def begin_turn_def Let_def base)
    qed
  next
    case (Some p)
    with some [OF Some] none show ?thesis by auto
  qed
qed

section \<open>Paging through a history\<close>

definition turns_after :: "db \<Rightarrow> uid \<Rightarrow> int \<Rightarrow> (uid \<times> turn_row) list" where
  "turns_after d h cursor = sort_key (\<lambda>(k, t). tn_ordinal t)
     (filter (\<lambda>(k, t). tn_history t = h \<and> tn_ordinal t > cursor) (db_turns d))"

lemma filter_greater_drop:
  assumes "sorted_wrt (<) (map f xs)" and "n < length xs"
  shows "filter (\<lambda>x. f x > (f (xs ! n) :: int)) xs = drop (Suc n) xs"
  using filter_after_drop [of "\<lambda>x y. f x < f y" xs n] assms by (simp add: sorted_wrt_map)

lemma turns_after_sorted:
  assumes "db_ok d"
  shows "sorted_wrt (<) (map (\<lambda>(k, t). tn_ordinal t) (turns_after d h c))"
proof -
  let ?f = "\<lambda>(k, t). tn_ordinal t" and ?P = "\<lambda>(k, t). tn_history t = h \<and> tn_ordinal t > c"
  have k: "distinct (map fst (db_turns d))"
    and inv: "hist_inv (map_of (db_records d)) (map_of (db_turns d)) (map_of (db_execs d))"
    using assms by (simp_all add: db_ok_def keys_ok_def)
  have "inj_on ?f (set (filter ?P (db_turns d)))"
  proof (rule inj_onI)
    fix p q assume a: "p \<in> set (filter ?P (db_turns d))" "q \<in> set (filter ?P (db_turns d))" "?f p = ?f q"
    obtain t x u y where pq: "p = (t, x)" "q = (u, y)" by fastforce
    have m: "map_of (db_turns d) t = Some x" "map_of (db_turns d) u = Some y"
      using a k by (auto simp: pq)
    have "tn_history x = tn_history y" "tn_ordinal x = tn_ordinal y" using a by (simp_all add: pq)
    then have "t = u" by (intro inv_turn_key [OF inv m]) simp_all
    with m show "p = q" by (simp add: pq)
  qed
  moreover have "distinct (filter ?P (db_turns d))" using k by (simp add: distinct_map)
  ultimately have "distinct (map ?f (filter ?P (db_turns d)))" by (simp add: distinct_map)
  then have "distinct (map ?f (turns_after d h c))" by (simp add: turns_after_def distinct_map)
  moreover have "sorted (map ?f (turns_after d h c))" by (simp add: turns_after_def)
  ultimately show ?thesis by (simp add: strict_sorted_iff)
qed

text \<open>Reading a history page by page loses and repeats nothing: a page holds at most \<open>limit\<close>
  turns in strictly increasing ordinal order, and the page followed by everything after the returned
  cursor is everything after the given cursor; without a cursor the page is all of it.\<close>

theorem paging_is_complete:
  assumes ok: "db_ok d" and "0 < limit"
    and res: "read_turns d own h limit cursor = Inr (page, next_cursor)"
  shows "length page \<le> limit \<and> sorted_wrt (<) (map (\<lambda>(k, t). tn_ordinal t) page)
       \<and> turns_after d h cursor = page @
           (case next_cursor of None \<Rightarrow> [] | Some c \<Rightarrow> turns_after d h c)"
proof -
  let ?f = "\<lambda>(k, t). tn_ordinal t"
  let ?L = "turns_after d h cursor"
  have sorted: "sorted_wrt (<) (map ?f ?L)" using turns_after_sorted [OF ok] .
  from res have page: "page = take limit ?L"
    and nxt: "next_cursor = (if length ?L > limit then Some (?f (?L ! (limit - 1))) else None)"
    by (auto simp: read_turns_def bindR_iffs Let_def turns_after_def [symmetric] min_def
        case_prod_beta split: if_splits)
  have "sorted_wrt (<) (map ?f page)"
    using sorted by (simp add: page take_map [symmetric] sorted_wrt_take)
  moreover have "?L = page @ (case next_cursor of None \<Rightarrow> [] | Some c \<Rightarrow> turns_after d h c)"
  proof (cases "length ?L > limit")
    case True
    define c where "c = ?f (?L ! (limit - 1))"
    have "?L ! (limit - 1) \<in> set ?L" using True by (intro nth_mem) simp
    then have less: "cursor < c" by (auto simp: turns_after_def c_def)
    have "filter (\<lambda>p. ?f p > c) ?L = sort_key ?f (filter (\<lambda>p. ?f p > c)
          (filter (\<lambda>(k, t). tn_history t = h \<and> tn_ordinal t > cursor) (db_turns d)))"
      unfolding turns_after_def [of d h cursor] filter_sort ..
    also have "filter (\<lambda>p. ?f p > c) (filter (\<lambda>(k, t). tn_history t = h \<and> tn_ordinal t > cursor) (db_turns d))
          = filter (\<lambda>(k, t). tn_history t = h \<and> tn_ordinal t > c) (db_turns d)"
      unfolding filter_filter using less by (intro filter_cong) (auto simp: case_prod_beta)
    finally have "turns_after d h c = filter (\<lambda>p. ?f p > c) ?L"
      unfolding turns_after_def [of d h c] by (rule sym)
    also have "\<dots> = drop (Suc (limit - 1)) ?L"
      unfolding c_def using True by (intro filter_greater_drop [OF sorted]) simp
    also have "Suc (limit - 1) = limit" using \<open>0 < limit\<close> by simp
    finally have "page @ turns_after d h c = ?L" by (simp add: page)
    then show ?thesis using True by (simp add: nxt c_def)
  qed (simp add: nxt page)
  moreover have "length page \<le> limit" by (simp add: page)
  ultimately show ?thesis by (intro conjI)
qed

lemma paging_is_complete_witness:
  "turns_after demo_db demo_history 0 = [(demo_turn, demo_turn_row)]"
proof -
  have "read_turns demo_db 7 demo_history 1 0 = Inr ([(demo_turn, demo_turn_row)], None)"
    by (simp add: read_turns_def demo_defs store_defs)
  from paging_is_complete [OF demo_db_ok _ this] show ?thesis by simp
qed

end
