(* ===== verification/Lease_Registry.thy ===== *)
theory Lease_Registry
  imports Prelude
begin

text \<open>
  The two registries of exclusive leases of the API process: the analysis-run guard
  (\<open>business_analysis/run_execution.py\<close>) and the in-process part of the history runtime
  (\<open>query_api/history_runtime.py\<close>: \<open>check\<close>, \<open>reserve\<close>, \<open>_release\<close>, \<open>executing\<close>, \<open>drain\<close>,
  \<open>close\<close> and \<open>_HistoryLease\<close>). Each method body runs under the registry's lock, so an
  operation here is one atomic step. The locale \<open>exclusive_lease\<close> is the contract the
  execution runtime relies on; both registries are interpretations of it.
  The release of an analysis lease takes two locks in turn, the lease's own to mark itself and the
  guard's to drop the key; \<open>guard_release\<close> is the step that ends with the second. In between the key is
  still reserved, so the run can only be refused for longer.
\<close>

section \<open>The analysis execution guard\<close>

type_synonym run_key = "pystr \<times> pystr \<times> pystr"

record guard =
  guard_running :: "run_key set"
  guard_accepting :: bool
  guard_leases :: "run_key lease list"

datatype guard_error = AnalysisExecutionBusy

definition guard_init :: guard where
  "guard_init = \<lparr>guard_running = {}, guard_accepting = True, guard_leases = []\<rparr>"

definition guard_reserve :: "guard \<Rightarrow> run_key \<Rightarrow> guard_error + (guard \<times> nat)" where
  "guard_reserve g k =
     (if \<not> guard_accepting g \<or> k \<in> guard_running g then Inl AnalysisExecutionBusy
      else Inr (g\<lparr>guard_running := insert k (guard_running g),
                  guard_leases := guard_leases g @ [\<lparr>lease_key = k, lease_released = False\<rparr>]\<rparr>,
                length (guard_leases g)))"

definition guard_discard :: "guard \<Rightarrow> run_key \<Rightarrow> guard" where
  "guard_discard g k = g\<lparr>guard_running := guard_running g - {k}\<rparr>"

definition guard_release :: "guard \<Rightarrow> nat \<Rightarrow> guard" where
  "guard_release g i =
     (case held (guard_leases g) i of
        None \<Rightarrow> g
      | Some k \<Rightarrow> guard_discard (g\<lparr>guard_leases := mark_released (guard_leases g) i\<rparr>) k)"

definition guard_executing ::
  "guard \<Rightarrow> run_key \<Rightarrow> (guard \<Rightarrow> 'r \<times> guard) \<Rightarrow> (guard_error + 'r) \<times> guard" where
  "guard_executing g k body =
     (case guard_reserve g k of
        Inl e \<Rightarrow> (Inl e, g)
      | Inr (g1, i) \<Rightarrow> (let (r, g2) = body g1 in (Inr r, guard_release g2 i)))"

definition guard_drain :: "guard \<Rightarrow> guard \<times> bool" where
  "guard_drain g =
     (let g1 = g\<lparr>guard_accepting := False\<rparr> in (g1, guard_running g1 = {}))"

section \<open>The history runtime\<close>

type_synonym history_code = string

record history_rt =
  hr_valid :: bool
  hr_accepting :: bool
  hr_running :: "pystr set"
  hr_leases :: "pystr lease list"

definition hr_init :: history_rt where
  "hr_init = \<lparr>hr_valid = True, hr_accepting = True, hr_running = {}, hr_leases = []\<rparr>"

definition hr_check :: "bool \<Rightarrow> history_rt \<Rightarrow> (history_code + unit) \<times> history_rt" where
  "hr_check ping h =
     (if \<not> hr_valid h then (Inl ''HISTORY_STORAGE_UNAVAILABLE'', h)
      else if ping then (Inr (), h)
      else (Inl ''HISTORY_STORAGE_UNAVAILABLE'', h\<lparr>hr_valid := False\<rparr>))"

definition hr_reserve ::
  "bool \<Rightarrow> history_rt \<Rightarrow> pystr \<Rightarrow> (history_code + nat) \<times> history_rt" where
  "hr_reserve ping h k =
     (case hr_check ping h of
        (Inl e, h1) \<Rightarrow> (Inl e, h1)
      | (Inr _, h1) \<Rightarrow>
          if \<not> hr_valid h1 \<or> \<not> hr_accepting h1 then (Inl ''HISTORY_STORAGE_UNAVAILABLE'', h1)
          else if k \<in> hr_running h1 then (Inl ''HISTORY_BUSY'', h1)
          else (Inr (length (hr_leases h1)),
                h1\<lparr>hr_running := insert k (hr_running h1),
                   hr_leases := hr_leases h1 @ [\<lparr>lease_key = k, lease_released = False\<rparr>]\<rparr>))"

definition hr_remove :: "history_rt \<Rightarrow> pystr \<Rightarrow> history_rt" where
  "hr_remove h k = (if k \<notin> hr_running h then h else h\<lparr>hr_running := hr_running h - {k}\<rparr>)"

definition hr_release :: "history_rt \<Rightarrow> nat \<Rightarrow> history_rt" where
  "hr_release h i =
     (case held (hr_leases h) i of
        None \<Rightarrow> h
      | Some k \<Rightarrow> hr_remove (h\<lparr>hr_leases := mark_released (hr_leases h) i\<rparr>) k)"

definition hr_executing ::
  "bool \<Rightarrow> history_rt \<Rightarrow> pystr \<Rightarrow> (history_rt \<Rightarrow> 'r \<times> history_rt)
     \<Rightarrow> (history_code + 'r) \<times> history_rt" where
  "hr_executing ping h k body =
     (case hr_reserve ping h k of
        (Inl e, h1) \<Rightarrow> (Inl e, h1)
      | (Inr i, h1) \<Rightarrow> (let (r, h2) = body h1 in (Inr r, hr_release h2 i)))"

definition hr_drain :: "history_rt \<Rightarrow> history_rt \<times> bool" where
  "hr_drain h = (let h1 = h\<lparr>hr_accepting := False\<rparr> in (h1, hr_running h1 = {}))"

definition hr_close :: "history_rt \<Rightarrow> history_rt option" where
  "hr_close h =
     (case hr_drain h of (h1, done) \<Rightarrow> if done then Some (h1\<lparr>hr_valid := False\<rparr>) else None)"

section \<open>The contract\<close>

locale exclusive_lease =
  fixes reserve :: "'env \<Rightarrow> 's \<Rightarrow> 'k \<Rightarrow> ('e + nat) \<times> 's"
    and release :: "'s \<Rightarrow> nat \<Rightarrow> 's"
    and running :: "'s \<Rightarrow> 'k set"
    and holder :: "'s \<Rightarrow> nat \<Rightarrow> 'k option"
    and ok :: "'s \<Rightarrow> bool"
  assumes reserve_Inr:
      "ok s \<Longrightarrow> reserve env s k = (Inr i, s') \<Longrightarrow>
         ok s' \<and> k \<notin> running s \<and> running s' = insert k (running s)
         \<and> holder s i = None \<and> holder s' = (holder s)(i \<mapsto> k)"
    and reserve_Inl:
      "ok s \<Longrightarrow> reserve env s k = (Inl e, s') \<Longrightarrow>
         ok s' \<and> running s' = running s \<and> holder s' = holder s"
    and release_eff:
      "ok s \<Longrightarrow> ok (release s i) \<and> holder (release s i) = (holder s)(i := None)
         \<and> running (release s i) =
             (case holder s i of None \<Rightarrow> running s | Some k \<Rightarrow> running s - {k})"
    and release_None: "holder s i = None \<Longrightarrow> release s i = s"
    and running_held: "ok s \<Longrightarrow> running s = {k. \<exists>i. holder s i = Some k}"
    and held_unique: "ok s \<Longrightarrow> holder s i = Some k \<Longrightarrow> holder s j = Some k \<Longrightarrow> i = j"
begin

lemma release_idem: "ok s \<Longrightarrow> release (release s i) i = release s i"
  by (rule release_None) (simp add: release_eff)

lemma reserve_busy: "ok s \<Longrightarrow> k \<in> running s \<Longrightarrow> \<exists>e s'. reserve env s k = (Inl e, s')"
  by (cases "reserve env s k"; cases "fst (reserve env s k)") (auto dest: reserve_Inr)

lemma second_holder_excluded:
  assumes "ok s" and "reserve env s k = (Inr i, s')"
  shows "\<exists>e s''. reserve env' s' k = (Inl e, s'')"
  using reserve_Inr [OF assms] by (intro reserve_busy) auto

lemma reserve_release:
  assumes "ok s" and "reserve env s k = (Inr i, s')"
  shows "running (release s' i) = running s \<and> holder (release s' i) = holder s"
  using reserve_Inr [OF assms] release_eff [of s' i] by (auto simp: fun_eq_iff)

text \<open>A holder's lease survives whatever the other leases do.\<close>

lemma release_other:
  assumes "ok s" and "holder s i = Some k" and "j \<noteq> i"
  shows "holder (release s j) i = Some k" and "k \<in> running (release s j)"
proof -
  show h: "holder (release s j) i = Some k"
    using release_eff [OF assms(1)] assms(2,3) by simp
  then show "k \<in> running (release s j)"
    using release_eff [OF assms(1)] running_held [of "release s j"] by blast
qed

end

section \<open>The guard keeps the contract\<close>

definition guard_ok :: "guard \<Rightarrow> bool" where
  "guard_ok g \<longleftrightarrow> guard_running g = set (open_leases (guard_leases g))
     \<and> distinct (open_leases (guard_leases g))"

definition guard_reserve_step :: "unit \<Rightarrow> guard \<Rightarrow> run_key \<Rightarrow> (guard_error + nat) \<times> guard" where
  "guard_reserve_step u g k =
     (case guard_reserve g k of Inl e \<Rightarrow> (Inl e, g) | Inr (g1, i) \<Rightarrow> (Inr i, g1))"

lemma count_list_distinct_le: "distinct xs \<Longrightarrow> count_list xs k \<le> 1"
  by (induction xs) (auto simp: count_notin)

lemma held_inj:
  assumes "distinct (open_leases ls)" and "held ls i = Some k" and "held ls j = Some k"
  shows "i = j"
proof (rule ccontr)
  assume ne: "i \<noteq> j"
  have "0 < count_list (open_leases (mark_released ls i)) k"
    using assms(3) ne
    by (intro count_open_mark_released(3) [of _ j]) (simp add: held_mark_released)
  then have "2 \<le> count_list (open_leases ls) k"
    using count_open_mark_released(1) [OF assms(2), of k] by simp
  moreover have "count_list (open_leases ls) k \<le> 1"
    using assms(1) by (rule count_list_distinct_le)
  ultimately show False by simp
qed

lemma open_leases_mark_distinct:
  assumes "distinct (open_leases ls)" and "held ls i = Some k"
  shows "distinct (open_leases (mark_released ls i))"
    and "set (open_leases (mark_released ls i)) = set (open_leases ls) - {k}"
proof -
  from assms(2) obtain xs ys where "ls = xs @ \<lparr>lease_key = k, lease_released = False\<rparr> # ys"
    and "mark_released ls i = xs @ \<lparr>lease_key = k, lease_released = True\<rparr> # ys"
    by (rule mark_released_split)
  with assms(1) show "distinct (open_leases (mark_released ls i))"
    and "set (open_leases (mark_released ls i)) = set (open_leases ls) - {k}"
    by (auto simp: open_leases_def)
qed

interpretation run_guard: exclusive_lease guard_reserve_step guard_release guard_running
  "\<lambda>g. held (guard_leases g)" guard_ok
proof (unfold_locales, goal_cases)
  case (1 s env k i s')
  then have "k \<notin> guard_running s" and i: "i = length (guard_leases s)"
    and s': "s' = s\<lparr>guard_running := insert k (guard_running s),
               guard_leases := guard_leases s @ [\<lparr>lease_key = k, lease_released = False\<rparr>]\<rparr>"
    by (auto simp: guard_reserve_step_def guard_reserve_def split: if_splits)
  with 1(1) show ?case
    by (simp add: guard_ok_def held_append_open)
next
  case (2 s env k e s')
  then show ?case
    by (auto simp: guard_reserve_step_def guard_reserve_def split: if_splits)
next
  case (3 s i)
  then show ?case
    by (cases "held (guard_leases s) i")
      (auto simp: guard_release_def guard_discard_def guard_ok_def open_leases_mark_distinct
        held_mark_released held_upd_None)
next
  case (4 s i)
  then show ?case by (simp add: guard_release_def)
next
  case (5 s)
  then show ?case unfolding guard_ok_def by (metis set_open_leases)
next
  case (6 s i k j)
  then show ?case by (auto simp: guard_ok_def dest: held_inj)
qed

lemma guard_ok_init: "guard_ok guard_init"
  by (simp add: guard_ok_def guard_init_def)

lemma guard_ok_drain: "guard_ok g \<Longrightarrow> guard_ok (fst (guard_drain g))"
  by (simp add: guard_drain_def guard_ok_def Let_def)

section \<open>The history runtime keeps the contract\<close>

definition hr_ok :: "history_rt \<Rightarrow> bool" where
  "hr_ok h \<longleftrightarrow> hr_running h = set (open_leases (hr_leases h))
     \<and> distinct (open_leases (hr_leases h))"

lemma hr_check_cases:
  "hr_check ping h = (r, h') \<Longrightarrow>
     hr_running h' = hr_running h \<and> hr_leases h' = hr_leases h \<and> hr_accepting h' = hr_accepting h
     \<and> (r = Inr () \<longleftrightarrow> hr_valid h \<and> ping) \<and> (r = Inr () \<longrightarrow> h' = h)"
  by (auto simp: hr_check_def split: if_splits)

interpretation history: exclusive_lease hr_reserve hr_release hr_running
  "\<lambda>h. held (hr_leases h)" hr_ok
proof (unfold_locales, goal_cases)
  case (1 s env k i s')
  then have "k \<notin> hr_running s" and i: "i = length (hr_leases s)"
    and s': "s' = s\<lparr>hr_running := insert k (hr_running s),
               hr_leases := hr_leases s @ [\<lparr>lease_key = k, lease_released = False\<rparr>]\<rparr>"
    by (auto simp: hr_reserve_def hr_check_def split: if_splits)
  with 1(1) show ?case
    by (simp add: hr_ok_def held_append_open)
next
  case (2 s env k e s')
  then show ?case
    by (auto simp: hr_reserve_def hr_ok_def split: prod.splits sum.splits if_splits
        dest!: hr_check_cases)
next
  case (3 s i)
  show ?case
  proof (cases "held (hr_leases s) i")
    case None
    with 3 show ?thesis by (simp add: hr_release_def held_upd_None)
  next
    case (Some k)
    with 3 have "k \<in> hr_running s" by (auto simp: hr_ok_def set_open_leases)
    with 3 Some show ?thesis
      by (simp add: hr_release_def hr_remove_def hr_ok_def open_leases_mark_distinct
          held_mark_released)
  qed
next
  case (4 s i)
  then show ?case by (simp add: hr_release_def)
next
  case (5 s)
  then show ?case unfolding hr_ok_def by (metis set_open_leases)
next
  case (6 s i k j)
  then show ?case by (auto simp: hr_ok_def dest: held_inj)
qed

lemma hr_ok_init: "hr_ok hr_init"
  by (simp add: hr_ok_def hr_init_def)

lemma hr_reserve_iff:
  "(\<exists>i h'. hr_reserve ping h k = (Inr i, h')) \<longleftrightarrow>
     hr_valid h \<and> ping \<and> hr_accepting h \<and> k \<notin> hr_running h"
  by (auto simp: hr_reserve_def hr_check_def)

lemma guard_reserve_iff:
  "(\<exists>i g'. guard_reserve g k = Inr (g', i)) \<longleftrightarrow> guard_accepting g \<and> k \<notin> guard_running g"
  by (auto simp: guard_reserve_def)

section \<open>Properties\<close>

text \<open>Only one execution occupies a history at a time: once a lease on it is handed out every
  further reservation is refused, releasing any other handle (or releasing this one twice) does not
  affect it, and releasing it frees exactly this history.\<close>

theorem history_occupied_once:
  assumes ok: "hr_ok h" and res: "hr_reserve ping h k = (Inr i, h1)"
  shows "(\<exists>e h2. hr_reserve ping2 h1 k = (Inl e, h2))
       \<and> (j \<noteq> i \<longrightarrow> k \<in> hr_running (hr_release h1 j) \<and> held (hr_leases (hr_release h1 j)) i = Some k)
       \<and> hr_running (hr_release h1 i) = hr_running h \<and> k \<notin> hr_running h
       \<and> hr_release (hr_release h1 i) i = hr_release h1 i"
proof -
  note r = history.reserve_Inr [OF ok res]
  have "held (hr_leases h1) i = Some k" using r by simp
  then show ?thesis
    using r history.second_holder_excluded [OF ok res, of ping2] history.reserve_release [OF ok res]
      history.release_other [of h1 i k j] history.release_idem [of h1 i] by blast
qed

lemma history_occupied_once_witness:
  "\<exists>e h2. hr_reserve True \<lparr>hr_valid = True, hr_accepting = True, hr_running = {[1]},
      hr_leases = [\<lparr>lease_key = [1], lease_released = False\<rparr>]\<rparr> [1] = (Inl e, h2)"
proof -
  have "hr_reserve True hr_init [1] = (Inr 0, \<lparr>hr_valid = True, hr_accepting = True, hr_running = {[1]},
      hr_leases = [\<lparr>lease_key = [1], lease_released = False\<rparr>]\<rparr>)"
    by (simp add: hr_reserve_def hr_check_def hr_init_def)
  from history_occupied_once [OF hr_ok_init this] show ?thesis by blast
qed

text \<open>An analysis run is executed by one request at a time, per user and run id; a refused
  reservation leaves the guard as it was, and after the holder releases the run can be taken again.\<close>

theorem analysis_run_exclusive:
  assumes ok: "guard_ok g" and res: "guard_reserve g k = Inr (g1, i)"
  shows "guard_reserve g1 k = Inl AnalysisExecutionBusy
       \<and> (j \<noteq> i \<longrightarrow> k \<in> guard_running (guard_release g1 j))
       \<and> guard_running (guard_release g1 i) = guard_running g
       \<and> (\<exists>g2 i2. guard_reserve (guard_release g1 i) k = Inr (g2, i2))"
proof -
  have step: "guard_reserve_step () g k = (Inr i, g1)" using res by (simp add: guard_reserve_step_def)
  note r = run_guard.reserve_Inr [OF ok step]
  have acc: "guard_accepting g1" and busy: "guard_reserve g1 k = Inl AnalysisExecutionBusy"
    using res by (auto simp: guard_reserve_def split: if_splits)
  have "held (guard_leases g1) i = Some k" using r by simp
  moreover have "\<exists>g2 i2. guard_reserve (guard_release g1 i) k = Inr (g2, i2)"
    using guard_reserve_iff [of "guard_release g1 i" k] run_guard.reserve_release [OF ok step] r acc
    by (auto simp: guard_release_def guard_discard_def)
  ultimately show ?thesis
    using r busy run_guard.reserve_release [OF ok step] run_guard.release_other [of g1 i k j] by blast
qed

lemma analysis_run_exclusive_witness:
  "\<exists>g1. guard_reserve guard_init (lit ''idp'', lit ''u'', lit ''r'') = Inr (g1, 0)
      \<and> guard_reserve g1 (lit ''idp'', lit ''u'', lit ''r'') = Inl AnalysisExecutionBusy"
proof -
  obtain g1 where g1: "guard_reserve guard_init (lit ''idp'', lit ''u'', lit ''r'') = Inr (g1, 0)"
    by (simp add: guard_reserve_def guard_init_def)
  from analysis_run_exclusive [OF guard_ok_init g1] g1 show ?thesis by blast
qed

end
