(* ===== verification/Capacity.thy ===== *)
theory Capacity
  imports Prelude
begin

text \<open>
  The shared execution quota of \<open>query_api/execution_runtime.py\<close> (the constructor's checks,
  \<open>reserve_owner\<close>, \<open>_release_owner\<close>, \<open>OwnerCapacityLease\<close>, \<open>capacity_snapshot\<close>,
  \<open>close_admission\<close>, \<open>drain\<close>) and the admission guard of \<open>query_api/admission.py\<close>. A method
  body that holds the runtime's condition lock is one atomic step; \<open>cap_step\<close> interleaves the
  steps of any number of threads. \<open>OwnerCapacityLease.release\<close> holds two locks in turn, its own to mark
  itself and then the runtime's to give the slot back; \<open>cap_release\<close> is the step that ends with the
  second. In between the lease is marked while its slot is still counted, so nothing is admitted that
  the single step would refuse, and a second release of the same lease returns at once either way.
\<close>

section \<open>Definitions\<close>

datatype owner_id = OwnerInt int | OwnerBool bool | OwnerTuple "pystr option list" | OwnerOther

fun valid_owner :: "owner_id \<Rightarrow> bool" where
  "valid_owner (OwnerInt n) \<longleftrightarrow> n > 0"
| "valid_owner (OwnerBool b) \<longleftrightarrow> False"
| "valid_owner (OwnerTuple xs) \<longleftrightarrow>
     length xs = 2 \<and> list_all (\<lambda>x. case x of None \<Rightarrow> False | Some s \<Rightarrow> s \<noteq> []) xs"
| "valid_owner OwnerOther \<longleftrightarrow> False"

record capacity =
  cap_max_per_user :: int
  cap_max_total :: int
  cap_by_user :: "owner_id \<rightharpoonup> int"
  cap_total :: int
  cap_accepting :: bool
  cap_leases :: "owner_id lease list"

datatype runtime_error =
    RuntimeValueError
  | ExecutionCapacityExceeded string
  | ExecutionRuntimeClosed
  | DoubleRelease

datatype limit_arg = LimitInt int | LimitBool bool | LimitOther

definition new_capacity :: "limit_arg \<Rightarrow> limit_arg \<Rightarrow> rat \<Rightarrow> runtime_error + capacity" where
  "new_capacity max_user max_all monitor_interval =
     (case (max_user, max_all) of
        (LimitInt u, LimitInt t) \<Rightarrow>
          if u < 1 \<or> t < 1 \<or> u > t \<or> monitor_interval \<le> 0 then Inl RuntimeValueError
          else Inr \<lparr>cap_max_per_user = u, cap_max_total = t, cap_by_user = Map.empty,
                    cap_total = 0, cap_accepting = True, cap_leases = []\<rparr>
      | _ \<Rightarrow> Inl RuntimeValueError)"

definition owner_active :: "capacity \<Rightarrow> owner_id \<Rightarrow> int" where
  "owner_active c o' = (case cap_by_user c o' of None \<Rightarrow> 0 | Some n \<Rightarrow> n)"

definition reserve_owner :: "capacity \<Rightarrow> owner_id \<Rightarrow> runtime_error + (capacity \<times> nat)" where
  "reserve_owner c o' =
     (if \<not> valid_owner o' then Inl RuntimeValueError
      else if \<not> cap_accepting c then Inl ExecutionRuntimeClosed
      else if owner_active c o' \<ge> cap_max_per_user c then Inl (ExecutionCapacityExceeded ''user'')
      else if cap_total c \<ge> cap_max_total c then Inl (ExecutionCapacityExceeded ''process'')
      else Inr (c\<lparr>cap_by_user := (cap_by_user c)(o' \<mapsto> owner_active c o' + 1),
                  cap_total := cap_total c + 1,
                  cap_leases := cap_leases c @ [\<lparr>lease_key = o', lease_released = False\<rparr>]\<rparr>,
                length (cap_leases c)))"

definition release_owner :: "capacity \<Rightarrow> owner_id \<Rightarrow> runtime_error + capacity" where
  "release_owner c o' =
     (let active = owner_active c o' in
      if active \<le> 0 \<or> cap_total c \<le> 0 then Inl DoubleRelease
      else Inr (c\<lparr>cap_by_user :=
                    (if active = 1 then (cap_by_user c)(o' := None)
                     else (cap_by_user c)(o' \<mapsto> active - 1)),
                  cap_total := cap_total c - 1\<rparr>))"

definition cap_release :: "capacity \<Rightarrow> nat \<Rightarrow> (runtime_error + unit) \<times> capacity" where
  "cap_release c i =
     (case held (cap_leases c) i of
        None \<Rightarrow> (Inr (), c)
      | Some o' \<Rightarrow>
          let c1 = c\<lparr>cap_leases := mark_released (cap_leases c) i\<rparr> in
          (case release_owner c1 o' of Inl e \<Rightarrow> (Inl e, c1) | Inr c2 \<Rightarrow> (Inr (), c2)))"

definition close_admission :: "capacity \<Rightarrow> capacity" where
  "close_admission c = c\<lparr>cap_accepting := False\<rparr>"

definition drain :: "capacity \<Rightarrow> capacity \<times> bool" where
  "drain c = (let c1 = close_admission c in (c1, cap_total c1 = 0))"

definition capacity_snapshot :: "capacity \<Rightarrow> int \<times> int \<times> int \<times> bool" where
  "capacity_snapshot c = (cap_total c, cap_max_total c, cap_max_per_user c, cap_accepting c)"

inductive cap_step :: "capacity \<Rightarrow> capacity \<Rightarrow> bool" where
  step_reserve: "reserve_owner c o' = Inr (c', i) \<Longrightarrow> cap_step c c'"
| step_release: "cap_release c i = (r, c') \<Longrightarrow> cap_step c c'"
| step_close: "cap_step c (close_admission c)"

inductive cap_reachable :: "capacity \<Rightarrow> bool" where
  reach_new: "new_capacity u t m = Inr c \<Longrightarrow> cap_reachable c"
| reach_step: "cap_reachable c \<Longrightarrow> cap_step c c' \<Longrightarrow> cap_reachable c'"

text \<open>Admission of a synchronous request.\<close>

datatype admission_code = SERVICE_NOT_READY | EXECUTION_LIMIT_REACHED

definition capacity_owner :: "int option \<Rightarrow> pystr \<Rightarrow> pystr \<Rightarrow> owner_id" where
  "capacity_owner user_id identity_provider subject_id =
     (case user_id of Some n \<Rightarrow> OwnerInt n
      | None \<Rightarrow> OwnerTuple [Some identity_provider, Some subject_id])"

datatype admit_error = AdmissionRejected admission_code | AdmitRuntimeError runtime_error

definition admit_owner ::
  "owner_id \<Rightarrow> bool option \<Rightarrow> capacity option \<Rightarrow> (capacity \<Rightarrow> 'r \<times> capacity)
     \<Rightarrow> (admit_error + 'r) \<times> capacity option" where
  "admit_owner o' operations_ready runtime body =
     (case (operations_ready, runtime) of
        (Some True, Some c) \<Rightarrow>
          (case reserve_owner c o' of
             Inl (ExecutionCapacityExceeded s) \<Rightarrow>
               (Inl (AdmissionRejected EXECUTION_LIMIT_REACHED), Some c)
           | Inl ExecutionRuntimeClosed \<Rightarrow> (Inl (AdmissionRejected SERVICE_NOT_READY), Some c)
           | Inl e \<Rightarrow> (Inl (AdmitRuntimeError e), Some c)
           | Inr (c1, i) \<Rightarrow>
               (let (r, c2) = body c1 in
                case cap_release c2 i of
                  (Inl e, c3) \<Rightarrow> (Inl (AdmitRuntimeError e), Some c3)
                | (Inr _, c3) \<Rightarrow> (Inr r, Some c3)))
      | _ \<Rightarrow> (Inl (AdmissionRejected SERVICE_NOT_READY), runtime))"

definition sync_checkpoint :: "rat \<Rightarrow> rat \<Rightarrow> string + unit" where
  "sync_checkpoint deadline now =
     (if now \<ge> deadline then Inl ''deadline_exceeded'' else Inr ())"

section \<open>The quota invariant\<close>

definition open_count :: "capacity \<Rightarrow> owner_id \<Rightarrow> nat" where
  "open_count c o' = count_list (open_leases (cap_leases c)) o'"

definition cap_ok :: "capacity \<Rightarrow> bool" where
  "cap_ok c \<longleftrightarrow>
     1 \<le> cap_max_per_user c \<and> cap_max_per_user c \<le> cap_max_total c
     \<and> (\<forall>o'. cap_by_user c o' = (if open_count c o' = 0 then None else Some (int (open_count c o'))))
     \<and> cap_total c = int (length (open_leases (cap_leases c)))
     \<and> (\<forall>o'. int (open_count c o') \<le> cap_max_per_user c)
     \<and> cap_total c \<le> cap_max_total c"

lemma owner_active_ok: "cap_ok c \<Longrightarrow> owner_active c o' = int (open_count c o')"
  by (simp add: owner_active_def cap_ok_def)

lemma new_capacity_ok: "new_capacity u t m = Inr c \<Longrightarrow> cap_ok c"
  by (auto simp: new_capacity_def cap_ok_def open_count_def split: limit_arg.splits if_splits)

lemma reserve_owner_ok:
  assumes ok: "cap_ok c" and res: "reserve_owner c o' = Inr (c', i)"
  shows "cap_ok c'"
    and "i = length (cap_leases c)" and "held (cap_leases c') = (held (cap_leases c))(i \<mapsto> o')"
    and "open_count c' o'' = open_count c o'' + (if o'' = o' then 1 else 0)"
    and "cap_total c' = cap_total c + 1" and "cap_accepting c'"
proof -
  from res have i: "i = length (cap_leases c)"
    and c': "c' = c\<lparr>cap_by_user := (cap_by_user c)(o' \<mapsto> owner_active c o' + 1),
                  cap_total := cap_total c + 1,
                  cap_leases := cap_leases c @ [\<lparr>lease_key = o', lease_released = False\<rparr>]\<rparr>"
    and lim: "owner_active c o' < cap_max_per_user c" "cap_total c < cap_max_total c"
    and acc: "cap_accepting c"
    by (auto simp: reserve_owner_def split: if_splits)
  have cnt: "open_count c' x = open_count c x + (if x = o' then 1 else 0)" for x
    by (simp add: open_count_def c')
  show "cap_ok c'"
    using ok lim unfolding cap_ok_def cnt owner_active_ok [OF ok]
    by (auto simp: c' owner_active_ok [OF ok])
  show "i = length (cap_leases c)" by (rule i)
  show "held (cap_leases c') = (held (cap_leases c))(i \<mapsto> o')"
    by (simp add: c' i held_append_open)
  show "open_count c' o'' = open_count c o'' + (if o'' = o' then 1 else 0)" by (rule cnt)
  show "cap_total c' = cap_total c + 1" "cap_accepting c'" by (simp_all add: c' acc)
qed

lemma cap_release_ok:
  assumes ok: "cap_ok c" and rel: "cap_release c i = (r, c')"
  shows "cap_ok c'" and "r = Inr ()"
    and "cap_leases c' = mark_released (cap_leases c) i"
    and "open_count c' o'' = open_count c o'' - (if held (cap_leases c) i = Some o'' then 1 else 0)"
    and "cap_total c' = cap_total c - (if held (cap_leases c) i = None then 0 else 1)"
    and "cap_max_per_user c' = cap_max_per_user c" and "cap_max_total c' = cap_max_total c"
    and "cap_accepting c' = cap_accepting c"
proof -
  have main: "cap_ok c' \<and> r = Inr () \<and> cap_leases c' = mark_released (cap_leases c) i
    \<and> (\<forall>x. open_count c' x = open_count c x - (if held (cap_leases c) i = Some x then 1 else 0))
    \<and> cap_total c' = cap_total c - (if held (cap_leases c) i = None then 0 else 1)
    \<and> cap_max_per_user c' = cap_max_per_user c \<and> cap_max_total c' = cap_max_total c
    \<and> cap_accepting c' = cap_accepting c"
  proof (cases "held (cap_leases c) i")
    case None
    with rel ok show ?thesis by (simp add: cap_release_def mark_released_noop)
  next
    case (Some o')
    let ?c1 = "c\<lparr>cap_leases := mark_released (cap_leases c) i\<rparr>"
    note cnt = count_open_mark_released [OF Some]
    have act: "owner_active ?c1 o' = int (open_count c o')"
      using owner_active_ok [OF ok, of o'] by (simp add: owner_active_def)
    have pos: "0 < open_count c o'" "0 < cap_total c"
      using cnt(3,4) ok by (auto simp: open_count_def cap_ok_def)
    have c': "c' = ?c1\<lparr>cap_by_user :=
                    (if open_count c o' = 1 then (cap_by_user c)(o' := None)
                     else (cap_by_user c)(o' \<mapsto> int (open_count c o') - 1)),
                  cap_total := cap_total c - 1\<rparr>" and r: "r = Inr ()"
      using rel pos by (auto simp: cap_release_def Some release_owner_def act Let_def)
    have cnt': "open_count c' x = open_count c x - (if x = o' then 1 else 0)" for x
      using cnt(1) by (simp add: open_count_def c')
    have len: "int (length (open_leases (cap_leases c'))) = cap_total c - 1"
      using cnt(2,4) ok by (simp add: c' cap_ok_def Suc_le_eq of_nat_diff flip: length_greater_0_conv)
    have bound: "int (open_count c' x) \<le> cap_max_per_user c" for x
    proof -
      have "int (open_count c' x) \<le> int (open_count c x)" by (simp add: cnt')
      also have "\<dots> \<le> cap_max_per_user c" using ok by (simp add: cap_ok_def)
      finally show ?thesis .
    qed
    have by_user: "cap_by_user c' x =
        (if open_count c' x = 0 then None else Some (int (open_count c' x)))" for x
      using ok pos(1) unfolding cnt' by (auto simp: cap_ok_def c' of_nat_diff)
    have "cap_ok c'"
      using ok by_user len bound unfolding cap_ok_def by (simp add: c')
    moreover have "cap_leases c' = mark_released (cap_leases c) i"
      and "cap_total c' = cap_total c - 1" and "cap_max_per_user c' = cap_max_per_user c"
      and "cap_max_total c' = cap_max_total c" and "cap_accepting c' = cap_accepting c"
      by (simp_all add: c')
    ultimately show ?thesis
      using r cnt' Some by auto
  qed
  then show "cap_ok c'" and "r = Inr ()"
    and "cap_leases c' = mark_released (cap_leases c) i"
    and "open_count c' o'' = open_count c o'' - (if held (cap_leases c) i = Some o'' then 1 else 0)"
    and "cap_total c' = cap_total c - (if held (cap_leases c) i = None then 0 else 1)"
    and "cap_max_per_user c' = cap_max_per_user c" and "cap_max_total c' = cap_max_total c"
    and "cap_accepting c' = cap_accepting c"
    by blast+
qed

lemma close_admission_ok: "cap_ok c \<Longrightarrow> cap_ok (close_admission c)"
  by (simp add: cap_ok_def close_admission_def open_count_def)

inductive_cases cap_stepE: "cap_step c c'"

lemma cap_step_ok: "cap_step c c' \<Longrightarrow> cap_ok c \<Longrightarrow> cap_ok c'"
  by (elim cap_stepE) (auto intro: reserve_owner_ok(1) cap_release_ok(1) close_admission_ok)

lemma cap_reachable_ok: "cap_reachable c \<Longrightarrow> cap_ok c"
  by (induction rule: cap_reachable.induct) (auto intro: new_capacity_ok cap_step_ok)

lemma reserve_owner_Inr_iff:
  "cap_ok c \<Longrightarrow>
   (\<exists>c' i. reserve_owner c o' = Inr (c', i)) \<longleftrightarrow>
     valid_owner o' \<and> cap_accepting c \<and> int (open_count c o') < cap_max_per_user c
     \<and> cap_total c < cap_max_total c"
  by (auto simp: reserve_owner_def owner_active_ok)

section \<open>Properties\<close>

lemma cap_steps_ok: "cap_step\<^sup>*\<^sup>* c c' \<Longrightarrow> cap_ok c \<Longrightarrow> cap_ok c'"
  by (induction rule: rtranclp_induct) (auto intro: cap_step_ok)

text \<open>C8: Whatever threads reserve, release (any handle, any number of times) and close, the quota
  counters equal the unreleased leases, no owner ever holds more than \<open>max_per_user\<close> and the process
  never more than \<open>max_total\<close>, and releasing never trips the double-release check.\<close>

theorem quota_never_exceeded:
  assumes "cap_reachable c"
  shows "cap_total c = int (length (open_leases (cap_leases c))) \<and> cap_total c \<le> cap_max_total c
       \<and> owner_active c own = int (open_count c own) \<and> owner_active c own \<le> cap_max_per_user c
       \<and> fst (cap_release c i) = Inr ()"
proof -
  have ok: "cap_ok c" using assms by (rule cap_reachable_ok)
  obtain r c' where "cap_release c i = (r, c')" by fastforce
  with cap_release_ok(2) [OF ok this] owner_active_ok [OF ok, of own] ok show ?thesis
    by (simp add: cap_ok_def)
qed

lemma quota_never_exceeded_witness:
  "\<exists>c. new_capacity (LimitInt 1) (LimitInt 4) 1 = Inr c \<and> cap_total c \<le> cap_max_total c"
proof -
  obtain c where c: "new_capacity (LimitInt 1) (LimitInt 4) 1 = Inr c" by (simp add: new_capacity_def)
  with quota_never_exceeded [OF reach_new [OF c]] show ?thesis by blast
qed

text \<open>A slot is granted exactly when the owner is well formed, the runtime still accepts work and
  both limits leave room; the user limit is reported before the process limit.\<close>

theorem reserve_owner_outcome:
  assumes "cap_ok c"
  shows "reserve_owner c own =
     (if \<not> valid_owner own then Inl RuntimeValueError
      else if \<not> cap_accepting c then Inl ExecutionRuntimeClosed
      else if int (open_count c own) \<ge> cap_max_per_user c then Inl (ExecutionCapacityExceeded ''user'')
      else if length (open_leases (cap_leases c)) \<ge> nat (cap_max_total c)
        then Inl (ExecutionCapacityExceeded ''process'')
      else Inr (c\<lparr>cap_by_user := (cap_by_user c)(own \<mapsto> int (open_count c own) + 1),
                  cap_total := cap_total c + 1,
                  cap_leases := cap_leases c @ [\<lparr>lease_key = own, lease_released = False\<rparr>]\<rparr>,
                length (cap_leases c)))"
proof -
  have "cap_total c \<ge> cap_max_total c \<longleftrightarrow> length (open_leases (cap_leases c)) \<ge> nat (cap_max_total c)"
    using assms by (auto simp: cap_ok_def)
  then show ?thesis by (simp add: reserve_owner_def owner_active_ok [OF assms])
qed

definition demo_capacity :: capacity where
  "demo_capacity = \<lparr>cap_max_per_user = 1, cap_max_total = 2, cap_by_user = Map.empty, cap_total = 0,
     cap_accepting = True, cap_leases = []\<rparr>"

lemma demo_capacity_ok: "cap_ok demo_capacity"
  by (simp add: cap_ok_def demo_capacity_def open_count_def)

lemma reserve_owner_outcome_witness:
  "reserve_owner demo_capacity (OwnerInt 0) = Inl RuntimeValueError"
  using reserve_owner_outcome [OF demo_capacity_ok, of "OwnerInt 0"] by simp

text \<open>A synchronous request gives its slot back whatever its body does: after \<open>admit_owner\<close> the
  owner holds one slot less than when the body ended, the body's own result (an error included) is
  what the caller sees, and the quota stays consistent.\<close>

theorem admission_gives_the_slot_back:
  assumes ok: "cap_ok c" and room: "reserve_owner c own = Inr (c1, i)"
    and body: "body c1 = (r, c2)" "cap_step\<^sup>*\<^sup>* c1 c2" "held (cap_leases c2) i = Some own"
  shows "\<exists>c3. admit_owner own (Some True) (Some c) body = (Inr r, Some c3) \<and> cap_ok c3
           \<and> owner_active c3 own = owner_active c2 own - 1 \<and> cap_total c3 = cap_total c2 - 1
           \<and> held (cap_leases c3) i = None"
proof -
  have ok2: "cap_ok c2" using cap_steps_ok [OF body(2)] reserve_owner_ok(1) [OF ok room] by blast
  obtain q c3 where rel: "cap_release c2 i = (q, c3)" by fastforce
  note rok = cap_release_ok [OF ok2 rel]
  have pos: "0 < open_count c2 own"
    unfolding open_count_def by (rule count_open_mark_released(3) [OF body(3)])
  have "owner_active c3 own = owner_active c2 own - 1"
    using rok(1) rok(4) [of own] pos body(3) ok2 by (simp add: owner_active_ok of_nat_diff)
  moreover have "held (cap_leases c3) i = None" using rok(3) by (simp add: held_mark_released)
  moreover have "admit_owner own (Some True) (Some c) body = (Inr r, Some c3)"
    using room body(1) rel rok(2) by (simp add: admit_owner_def)
  ultimately show ?thesis using rok(1,5) body(3) by auto
qed

lemma admission_gives_the_slot_back_witness:
  "\<exists>c3. admit_owner (OwnerInt 5) (Some True) (Some demo_capacity) (\<lambda>c. (''done'', c))
          = (Inr ''done'', Some c3) \<and> owner_active c3 (OwnerInt 5) = 0"
proof -
  let ?c1 = "demo_capacity\<lparr>cap_by_user := [OwnerInt 5 \<mapsto> 1], cap_total := 1,
     cap_leases := [\<lparr>lease_key = OwnerInt 5, lease_released = False\<rparr>]\<rparr>"
  have "reserve_owner demo_capacity (OwnerInt 5) = Inr (?c1, 0)"
    by (simp add: reserve_owner_def demo_capacity_def owner_active_def)
  from admission_gives_the_slot_back [OF demo_capacity_ok this, of "\<lambda>c. (''done'', c)" "''done''" ?c1]
  show ?thesis by (auto simp: held_def owner_active_def)
qed

end
