(* ===== verification/Events.thy ===== *)
theory Events
  imports Json
begin

text \<open>
  The event channel of one background execution (\<open>query_api/execution_events.py\<close>): the bounded
  ring of events, the report draft it accumulates, the subscribers that read a snapshot and then
  the events after it. The channel's methods run under its condition lock, so each is one function
  from the channel to a result and the channel; a method that raises half way returns the channel
  it leaves behind. The three public identifiers are those of the execution.
\<close>

section \<open>State\<close>

datatype pyint = PyInt int | PyBool bool | PyNone | PyOther

datatype event_error =
    InvalidLimits | InvalidStatus | StatusBackward | MissingStopReason | InvalidStage
  | InvalidCount | InvalidField | InvalidOffset | InvalidIndex | EmptyText | InvalidUnicode
  | IndexGap | OffsetMismatch | DraftTooLarge | SnapshotTooLarge | EventTooLarge | CharTooLarge
  | InvalidReset | InvalidFinal | SubscriberLimit | DoubleUnsubscribe | DraftListGap
  | UnicodeEncodeError | KeyMissing | RingUnderflow

record event =
  ev_execution :: pystr
  ev_history :: pystr
  ev_turn :: pystr
  ev_sequence :: int
  ev_generation :: int
  ev_type :: string
  ev_payload :: "(pystr \<times> json) list"

type_synonym part_key = "string \<times> int option"

record channel =
  ch_execution :: pystr
  ch_history :: pystr
  ch_turn :: pystr
  ch_max_events :: int
  ch_max_bytes :: int
  ch_max_subscribers :: int
  ch_sequence :: int
  ch_status :: string
  ch_stage :: "string option"
  ch_completed :: int
  ch_total :: "int option"
  ch_stop_reason :: "pystr option"
  ch_generation :: int
  ch_parts :: "(part_key \<times> pystr) list"
  ch_lengths :: "part_key \<rightharpoonup> int"
  ch_list_lengths :: "string \<rightharpoonup> int"
  ch_fields :: "string set"
  ch_draft_bytes :: int
  ch_snapshot_bytes :: int
  ch_ring :: "(event \<times> int) list"
  ch_ring_bytes :: int
  ch_subscribers :: int
  ch_terminal :: bool

definition text_fields :: "string set" where
  "text_fields = {''title'', ''executive_summary'', ''trend_judgment''}"

definition list_fields :: "string set" where
  "list_fields = {''key_findings'', ''root_causes'', ''action_suggestions''}"

definition draft_fields :: "string set" where
  "draft_fields = text_fields \<union> list_fields"

definition max_draft_bytes :: int where "max_draft_bytes = 5 * 1024 * 1024"
definition max_delta_bytes :: int where "max_delta_bytes = 16 * 1024"

definition running_statuses :: "string set" where
  "running_statuses = {''accepted'', ''running'', ''stopping''}"

definition final_statuses :: "string set" where
  "final_statuses = {''succeeded'', ''failed'', ''cancelled'', ''timed_out'', ''unconfirmed''}"

definition public_stages :: "string set" where
  "public_stages = {''query_understanding'', ''retrieval'', ''sql_generation'', ''sql_validation'',
     ''query_execution'', ''analysis_understanding'', ''analysis_plan_validation'',
     ''analysis_query_tasks'', ''analysis_attribution'', ''analysis_report_generation'',
     ''result_saving''}"

definition new_channel ::
  "pystr \<Rightarrow> pystr \<Rightarrow> pystr \<Rightarrow> string \<Rightarrow> pystr option \<Rightarrow> int \<Rightarrow> int \<Rightarrow> int \<Rightarrow> event_error + channel" where
  "new_channel xid hid tid status reason max_events max_bytes max_subscribers =
     (if min (min max_events max_bytes) max_subscribers < 1 then Inl InvalidLimits
      else Inr \<lparr>ch_execution = xid, ch_history = hid, ch_turn = tid, ch_max_events = max_events,
                ch_max_bytes = max_bytes, ch_max_subscribers = max_subscribers, ch_sequence = 0,
                ch_status = status, ch_stage = None, ch_completed = 0, ch_total = None,
                ch_stop_reason = reason, ch_generation = 0, ch_parts = [], ch_lengths = Map.empty,
                ch_list_lengths = Map.empty, ch_fields = {}, ch_draft_bytes = 0,
                ch_snapshot_bytes = 2, ch_ring = [], ch_ring_bytes = 0, ch_subscribers = 0,
                ch_terminal = (status \<in> final_statuses)\<rparr>)"

section \<open>Events and the ring\<close>

definition event_json :: "event \<Rightarrow> json" where
  "event_json ev = JObj
     [(lit ''version'', JInt 1), (lit ''execution_id'', JStr (ev_execution ev)),
      (lit ''history_id'', JStr (ev_history ev)), (lit ''turn_id'', JStr (ev_turn ev)),
      (lit ''sequence'', JInt (ev_sequence ev)), (lit ''draft_generation'', JInt (ev_generation ev)),
      (lit ''type'', JStr (lit (ev_type ev))), (lit ''payload'', JObj (ev_payload ev))]"

definition encoded_size :: "pystr \<Rightarrow> event_error + int" where
  "encoded_size s = (if encodable s then Inr (int (utf8_len s)) else Inl UnicodeEncodeError)"

definition event_size :: "event \<Rightarrow> event_error + int" where
  "event_size ev = encoded_size (dumps (event_json ev))"

definition make_event :: "channel \<Rightarrow> int \<Rightarrow> string \<Rightarrow> (pystr \<times> json) list \<Rightarrow> event" where
  "make_event ch sequence event_type payload =
     \<lparr>ev_execution = ch_execution ch, ev_history = ch_history ch, ev_turn = ch_turn ch,
      ev_sequence = sequence, ev_generation = ch_generation ch, ev_type = event_type,
      ev_payload = payload\<rparr>"

fun evict :: "int \<Rightarrow> int \<Rightarrow> (event \<times> int) list \<Rightarrow> int \<Rightarrow> event_error + (event \<times> int) list \<times> int" where
  "evict max_events max_bytes ring bytes =
     (if int (length ring) > max_events \<or> bytes > max_bytes then
        (case ring of
           [] \<Rightarrow> Inl RingUnderflow
         | (_, removed) # rest \<Rightarrow> evict max_events max_bytes rest (bytes - removed))
      else Inr (ring, bytes))"

declare evict.simps [simp del]

definition append_locked ::
  "channel \<Rightarrow> string \<Rightarrow> (pystr \<times> json) list \<Rightarrow> (event_error + unit) \<times> channel" where
  "append_locked ch event_type payload =
     (let ch1 = ch\<lparr>ch_sequence := ch_sequence ch + 1\<rparr>;
          ev = make_event ch1 (ch_sequence ch1) event_type payload
      in case event_size ev of
           Inl e \<Rightarrow> (Inl e, ch1)
         | Inr sz \<Rightarrow>
             if sz > ch_max_bytes ch then (Inl EventTooLarge, ch)
             else
               (case evict (ch_max_events ch) (ch_max_bytes ch)
                       (ch_ring ch @ [(ev, sz)]) (ch_ring_bytes ch + sz) of
                  Inl e \<Rightarrow> (Inl e, ch1)
                | Inr (ring, bytes) \<Rightarrow> (Inr (), ch1\<lparr>ch_ring := ring, ch_ring_bytes := bytes\<rparr>)))"

section \<open>Progress\<close>

definition status_order :: "string \<Rightarrow> int option" where
  "status_order s =
     (if s = ''accepted'' then Some 0 else if s = ''running'' then Some 1
      else if s = ''stopping'' then Some 2 else None)"

definition json_opt :: "('a \<Rightarrow> json) \<Rightarrow> 'a option \<Rightarrow> json" where
  "json_opt f x = (case x of None \<Rightarrow> JNull | Some v \<Rightarrow> f v)"

definition progress_payload :: "channel \<Rightarrow> (pystr \<times> json) list" where
  "progress_payload ch =
     [(lit ''stage'', json_opt (\<lambda>s. JStr (lit s)) (ch_stage ch)),
      (lit ''completed_tasks'', JInt (ch_completed ch)),
      (lit ''total_tasks'', json_opt JInt (ch_total ch))]"

definition set_status ::
  "string \<Rightarrow> pystr option \<Rightarrow> channel \<Rightarrow> (event_error + unit) \<times> channel" where
  "set_status status stop_reason ch =
     (if status \<notin> running_statuses then (Inl InvalidStatus, ch)
      else if ch_terminal ch then (Inr (), ch)
      else case (status_order status, status_order (ch_status ch)) of
        (Some new, Some old) \<Rightarrow>
          if new < old then (Inl StatusBackward, ch)
          else
            let ch1 = ch\<lparr>ch_status := status\<rparr> in
            if status = ''stopping'' then
              (case stop_reason of
                 None \<Rightarrow> (Inl MissingStopReason, ch1)
               | Some r \<Rightarrow>
                   append_locked (ch1\<lparr>ch_stop_reason := Some r\<rparr>) ''progress''
                     [(lit ''status'', JStr (lit status)), (lit ''stop_reason'', JStr r)])
            else append_locked ch1 ''progress'' [(lit ''status'', JStr (lit status))]
      | _ \<Rightarrow> (Inl KeyMissing, ch))"

definition set_stage :: "string \<Rightarrow> channel \<Rightarrow> (event_error + unit) \<times> channel" where
  "set_stage stage ch =
     (if stage \<notin> public_stages then (Inl InvalidStage, ch)
      else if ch_terminal ch then (Inr (), ch)
      else let ch1 = ch\<lparr>ch_stage := Some stage\<rparr>
           in append_locked ch1 ''progress'' (progress_payload ch1))"

definition set_task_progress :: "pyint \<Rightarrow> pyint \<Rightarrow> channel \<Rightarrow> (event_error + unit) \<times> channel" where
  "set_task_progress completed total_arg ch =
     (case (completed, total_arg) of
        (PyInt c, PyInt t) \<Rightarrow>
          if t < 1 \<or> c < 0 \<or> c > t then (Inl InvalidCount, ch)
          else if ch_terminal ch then (Inr (), ch)
          else let ch1 = ch\<lparr>ch_completed := c, ch_total := Some t\<rparr>
               in append_locked ch1 ''progress'' (progress_payload ch1)
      | _ \<Rightarrow> (Inl InvalidCount, ch))"

section \<open>The report draft\<close>

fun split_loop :: "int \<Rightarrow> pystr list \<Rightarrow> pystr \<Rightarrow> int \<Rightarrow> pystr \<Rightarrow> event_error + pystr list" where
  "split_loop max_bytes parts current bytes [] =
     Inr (if current \<noteq> [] then parts @ [current] else parts)"
| "split_loop max_bytes parts current bytes (c # cs) =
     (if is_surrogate c then Inl UnicodeEncodeError
      else
        let sz = int (utf8_size c);
            full = current \<noteq> [] \<and> bytes + sz > max_bytes;
            parts1 = (if full then parts @ [current] else parts);
            current1 = (if full then [] else current);
            bytes1 = (if full then 0 else bytes)
        in if sz > max_bytes then Inl CharTooLarge
           else split_loop max_bytes parts1 (current1 @ [c]) (bytes1 + sz) cs)"

definition split_utf8 :: "pystr \<Rightarrow> int \<Rightarrow> event_error + pystr list" where
  "split_utf8 body max_bytes = split_loop max_bytes [] [] 0 body"

definition index_json :: "int option \<Rightarrow> json" where
  "index_json = json_opt JInt"

definition delta_payload :: "string \<Rightarrow> int option \<Rightarrow> int \<Rightarrow> pystr \<Rightarrow> (pystr \<times> json) list" where
  "delta_payload field index offset chunk =
     [(lit ''field'', JStr (lit field)), (lit ''index'', index_json index),
      (lit ''offset'', JInt offset), (lit ''text'', JStr chunk)]"

fun delta_events_fit ::
  "channel \<Rightarrow> string \<Rightarrow> int option \<Rightarrow> int \<Rightarrow> int \<Rightarrow> pystr list \<Rightarrow> event_error + bool" where
  "delta_events_fit ch field index next_offset ordinal [] = Inr True"
| "delta_events_fit ch field index next_offset ordinal (chunk # chunks) =
     (case event_size (make_event ch (ch_sequence ch + ordinal) ''text_delta''
              (delta_payload field index next_offset chunk)) of
        Inl e \<Rightarrow> Inl e
      | Inr sz \<Rightarrow>
          if sz > ch_max_bytes ch then Inr False
          else delta_events_fit ch field index (next_offset + int (length chunk)) (ordinal + 1) chunks)"

function fit_chunks ::
  "channel \<Rightarrow> string \<Rightarrow> int option \<Rightarrow> int \<Rightarrow> pystr \<Rightarrow> int \<Rightarrow> event_error + pystr list" where
  "fit_chunks ch field index offset body chunk_limit =
     bindR (split_utf8 body chunk_limit) (\<lambda>chunks.
     bindR (delta_events_fit ch field index offset 1 chunks) (\<lambda>fits.
       if fits then Inr chunks
       else if chunk_limit \<le> 1 then Inl EventTooLarge
       else fit_chunks ch field index offset body (max 1 (chunk_limit div 2))))"
  by pat_completeness auto
termination by (relation "measure (\<lambda>(_, _, _, _, _, n). nat n)") auto

declare fit_chunks.simps [simp del]

definition escaped_bytes :: "pystr \<Rightarrow> int" where
  "escaped_bytes body = sum_list (map (\<lambda>c. int (escaped_size c)) body)"

definition draft_snapshot_increment ::
  "string \<Rightarrow> int option \<Rightarrow> bool \<Rightarrow> bool \<Rightarrow> int \<Rightarrow> pystr \<Rightarrow> int" where
  "draft_snapshot_increment field index field_exists has_any_field existing_list_length body =
     (if field_exists then
        (case index of
           Some i \<Rightarrow>
             if i = existing_list_length
             then escaped_bytes body + (if existing_list_length \<noteq> 0 then 1 else 0) + 2
             else escaped_bytes body
         | None \<Rightarrow> escaped_bytes body)
      else
        escaped_bytes body + (int (length field) + 2) + 1 + (if index = None then 2 else 4)
          + (if has_any_field then 1 else 0))"

fun write_part :: "part_key \<Rightarrow> pystr \<Rightarrow> (part_key \<times> pystr) list \<Rightarrow> (part_key \<times> pystr) list" where
  "write_part k body [] = [(k, body)]"
| "write_part k body ((k', s) # ps) =
     (if k' = k then (k', s @ body) # ps else (k', s) # write_part k body ps)"

fun append_deltas ::
  "string \<Rightarrow> int option \<Rightarrow> int \<Rightarrow> pystr list \<Rightarrow> channel \<Rightarrow> (event_error + unit) \<times> channel" where
  "append_deltas field index next_offset [] ch = (Inr (), ch)"
| "append_deltas field index next_offset (chunk # chunks) ch =
     (case append_locked ch ''text_delta'' (delta_payload field index next_offset chunk) of
        (Inl e, ch1) \<Rightarrow> (Inl e, ch1)
      | (Inr _, ch1) \<Rightarrow>
          append_deltas field index (next_offset + int (length chunk)) chunks ch1)"

definition list_length :: "channel \<Rightarrow> string \<Rightarrow> int" where
  "list_length ch field = (case ch_list_lengths ch field of None \<Rightarrow> 0 | Some n \<Rightarrow> n)"

definition part_length :: "channel \<Rightarrow> part_key \<Rightarrow> int" where
  "part_length ch key = (case ch_lengths ch key of None \<Rightarrow> 0 | Some n \<Rightarrow> n)"

definition target_index :: "string \<Rightarrow> pyint \<Rightarrow> event_error + int option" where
  "target_index field index =
     (if field \<in> text_fields then (if index \<noteq> PyNone then Inl InvalidIndex else Inr None)
      else (case index of
              PyInt i \<Rightarrow> if i < 0 then Inl InvalidIndex else Inr (Some i)
            | _ \<Rightarrow> Inl InvalidIndex))"

definition record_delta :: "string \<Rightarrow> int option \<Rightarrow> int \<Rightarrow> pystr \<Rightarrow> int \<Rightarrow> channel \<Rightarrow> channel" where
  "record_delta field index offset body increment ch =
     ch\<lparr>ch_parts := write_part (field, index) body (ch_parts ch),
        ch_lengths := (ch_lengths ch)((field, index) \<mapsto> offset + int (length body)),
        ch_fields := insert field (ch_fields ch),
        ch_list_lengths :=
          (case index of
             Some i \<Rightarrow> if i = list_length ch field then (ch_list_lengths ch)(field \<mapsto> i + 1)
                       else ch_list_lengths ch
           | None \<Rightarrow> ch_list_lengths ch),
        ch_draft_bytes := ch_draft_bytes ch + int (utf8_len body),
        ch_snapshot_bytes := ch_snapshot_bytes ch + increment\<rparr>"

definition text_delta ::
  "string \<Rightarrow> pyint \<Rightarrow> pyint \<Rightarrow> pystr \<Rightarrow> channel \<Rightarrow> (event_error + unit) \<times> channel" where
  "text_delta field index offset_arg body ch =
     (if field \<notin> draft_fields then (Inl InvalidField, ch)
      else case offset_arg of
        PyInt offset \<Rightarrow>
          if offset < 0 then (Inl InvalidOffset, ch)
          else (case target_index field index of
            Inl e \<Rightarrow> (Inl e, ch)
          | Inr target \<Rightarrow>
              if body = [] then (Inl EmptyText, ch)
              else if \<not> encodable body then (Inl InvalidUnicode, ch)
              else if ch_terminal ch then (Inr (), ch)
              else if (case target of Some i \<Rightarrow> i > list_length ch field | None \<Rightarrow> False)
                then (Inl IndexGap, ch)
              else if part_length ch (field, target) \<noteq> offset then (Inl OffsetMismatch, ch)
              else if ch_draft_bytes ch + int (utf8_len body) > max_draft_bytes
                then (Inl DraftTooLarge, ch)
              else
                let increment = draft_snapshot_increment field target (field \<in> ch_fields ch)
                      (ch_fields ch \<noteq> {}) (list_length ch field) body
                in if ch_snapshot_bytes ch + increment > max_draft_bytes
                   then (Inl SnapshotTooLarge, ch)
                   else (case fit_chunks ch field target offset body
                                 (min max_delta_bytes (ch_max_bytes ch)) of
                     Inl e \<Rightarrow> (Inl e, ch)
                   | Inr chunks \<Rightarrow>
                       append_deltas field target offset chunks
                         (record_delta field target offset body increment ch)))
      | _ \<Rightarrow> (Inl InvalidOffset, ch))"

definition clear_draft :: "channel \<Rightarrow> channel" where
  "clear_draft ch = ch\<lparr>ch_parts := [], ch_lengths := Map.empty, ch_list_lengths := Map.empty,
     ch_fields := {}, ch_draft_bytes := 0, ch_snapshot_bytes := 2\<rparr>"

definition reset :: "string \<Rightarrow> channel \<Rightarrow> (event_error + unit) \<times> channel" where
  "reset reason ch =
     (if reason \<noteq> ''model_retry'' then (Inl InvalidReset, ch)
      else if ch_terminal ch then (Inr (), ch)
      else append_locked (clear_draft (ch\<lparr>ch_generation := ch_generation ch + 1\<rparr>)) ''draft_reset''
             [(lit ''reason'', JStr (lit reason))])"

definition safe_error :: "(pystr \<times> json) list \<Rightarrow> (pystr \<times> json) list" where
  "safe_error err = concat (map (\<lambda>k. case obj_get err k of Some (JStr s) \<Rightarrow> [(k, JStr s)] | _ \<Rightarrow> [])
     [lit ''error_code'', lit ''error_message''])"

definition finish ::
  "string \<Rightarrow> (pystr \<times> json) list option \<Rightarrow> channel \<Rightarrow> (event_error + unit) \<times> channel" where
  "finish status public_error ch =
     (if status \<notin> final_statuses then (Inl InvalidFinal, ch)
      else if ch_terminal ch then (Inr (), ch)
      else
        let ch1 = (clear_draft (ch\<lparr>ch_status := status\<rparr>))\<lparr>ch_terminal := True\<rparr>;
            safe = (case public_error of None \<Rightarrow> [] | Some e \<Rightarrow> safe_error e);
            payload = (lit ''status'', JStr (lit status)) #
              (if safe = [] then [] else [(lit ''public_error'', JObj safe)])
        in append_locked ch1 ''terminal'' payload)"

section \<open>Snapshots and subscriptions\<close>

definition put_field :: "pystr \<Rightarrow> json \<Rightarrow> (pystr \<times> json) list \<Rightarrow> (pystr \<times> json) list" where
  "put_field k v kvs =
     (if map_of kvs k = None then kvs @ [(k, v)]
      else map (\<lambda>(k', v'). (k', if k' = k then v else v')) kvs)"

fun build_draft ::
  "(part_key \<times> pystr) list \<Rightarrow> (pystr \<times> json) list \<Rightarrow> event_error + (pystr \<times> json) list" where
  "build_draft [] draft = Inr draft"
| "build_draft (((field, None), s) # ps) draft = build_draft ps (put_field (lit field) (JStr s) draft)"
| "build_draft (((field, Some i), s) # ps) draft =
     (case (case obj_get draft (lit field) of None \<Rightarrow> Some [] | Some (JArr vs) \<Rightarrow> Some vs | _ \<Rightarrow> None) of
        None \<Rightarrow> Inl DraftListGap
      | Some vs \<Rightarrow>
          if int (length vs) \<noteq> i then Inl DraftListGap
          else build_draft ps (put_field (lit field) (JArr (vs @ [JStr s])) draft))"

definition current_draft :: "channel \<Rightarrow> event_error + json" where
  "current_draft ch =
     (if ch_parts ch = [] then Inr JNull else bindR (build_draft (ch_parts ch) []) (\<lambda>d. Inr (JObj d)))"

definition state_payload :: "channel \<Rightarrow> json \<Rightarrow> (pystr \<times> json) list" where
  "state_payload ch draft =
     [(lit ''status'', JStr (lit (ch_status ch))),
      (lit ''stage'', json_opt (\<lambda>s. JStr (lit s)) (ch_stage ch)),
      (lit ''completed_tasks'', JInt (ch_completed ch)),
      (lit ''total_tasks'', json_opt JInt (ch_total ch)),
      (lit ''stop_reason'', json_opt JStr (ch_stop_reason ch)),
      (lit ''draft_generation'', JInt (ch_generation ch)),
      (lit ''draft'', draft)]"

definition snapshot_event :: "channel \<Rightarrow> event_error + event" where
  "snapshot_event ch =
     bindR (current_draft ch) (\<lambda>draft.
       Inr (make_event ch (ch_sequence ch) ''snapshot'' (state_payload ch draft)))"

record subscription =
  sub_sequence :: int
  sub_closed :: bool

definition subscribe :: "channel \<Rightarrow> (event_error + event \<times> subscription) \<times> channel" where
  "subscribe ch =
     (if ch_subscribers ch \<ge> ch_max_subscribers ch then (Inl SubscriberLimit, ch)
      else let ch1 = ch\<lparr>ch_subscribers := ch_subscribers ch + 1\<rparr> in
        (case snapshot_event ch1 of
           Inl e \<Rightarrow> (Inl e, ch1)
         | Inr s \<Rightarrow> (Inr (s, \<lparr>sub_sequence = ev_sequence s, sub_closed = False\<rparr>), ch1)))"

definition unsubscribe :: "channel \<Rightarrow> (event_error + unit) \<times> channel" where
  "unsubscribe ch =
     (if ch_subscribers ch \<le> 0 then (Inl DoubleUnsubscribe, ch)
      else (Inr (), ch\<lparr>ch_subscribers := ch_subscribers ch - 1\<rparr>))"

definition read_after :: "channel \<Rightarrow> int \<Rightarrow> event_error + event list \<times> int" where
  "read_after ch sequence =
     (case ch_ring ch of
        [] \<Rightarrow> Inr ([], sequence)
      | (oldest, _) # _ \<Rightarrow>
          if sequence < ev_sequence oldest - 1
          then bindR (snapshot_event ch) (\<lambda>s. Inr ([s], ev_sequence s))
          else
            let events = map fst (filter (\<lambda>(ev, _). ev_sequence ev > sequence) (ch_ring ch))
            in if events \<noteq> [] then Inr (events, ev_sequence (last events)) else Inr ([], sequence))"

definition sub_read ::
  "channel \<Rightarrow> subscription \<Rightarrow> event_error + event list \<times> subscription" where
  "sub_read ch sub =
     (if sub_closed sub then Inr ([], sub)
      else bindR (read_after ch (sub_sequence sub)) (\<lambda>(events, sq).
             Inr (events, sub\<lparr>sub_sequence := sq\<rparr>)))"

definition sub_close ::
  "channel \<Rightarrow> subscription \<Rightarrow> ((event_error + unit) \<times> channel) \<times> subscription" where
  "sub_close ch sub =
     (if sub_closed sub then ((Inr (), ch), sub) else (unsubscribe ch, sub\<lparr>sub_closed := True\<rparr>))"

definition encode_sse :: "event \<Rightarrow> event_error + pystr" where
  "encode_sse ev =
     (let t = lit ''id: '' @ int_text (ev_sequence ev) @ [10] @ lit ''event: '' @ lit (ev_type ev)
              @ [10] @ lit ''data: '' @ dumps (event_json ev) @ [10, 10]
      in if encodable t then Inr t else Inl UnicodeEncodeError)"

end
