(* ===== verification/Events_Ring.thy ===== *)
theory Events_Ring
  imports Events
begin

text \<open>
  The ring of published events: it always holds the most recent events, numbered without a gap up to
  the channel's sequence number, within both limits, with the byte count it claims; and what one
  append does to it.
\<close>

section \<open>Intervals\<close>

lemma upto_snoc: "(i::int) \<le> j \<Longrightarrow> [i..j] = [i..j - 1] @ [j]"
  by (rule upto_rec2)

lemma drop_upto: "drop n [i..j] = [i + int n..j]"
proof (induction n arbitrary: i)
  case (Suc n)
  then show ?case
  proof (cases "i \<le> j")
    case True
    then show ?thesis using Suc [of "i + 1"] by (simp add: upto_rec1 algebra_simps)
  qed simp
qed simp

lemma take_upto: "i + int n \<le> j + 1 \<Longrightarrow> take n [i..j] = [i..i + int n - 1]"
proof (induction n arbitrary: i)
  case (Suc n)
  then have "[i..j] = i # [i + 1..j]" by (intro upto_rec1) simp
  with Suc.IH [of "i + 1"] Suc.prems have "take (Suc n) [i..j] = i # [i + 1..i + int (Suc n) - 1]"
    by (simp add: algebra_simps)
  also have "\<dots> = [i..i + int (Suc n) - 1]" by (rule upto_rec1 [symmetric]) simp
  finally show ?case .
qed simp

lemma upto_append:
  assumes "i \<le> j + 1" "j \<le> k"
  shows "[i..j] @ [j + 1..k] = [i..k::int]"
proof (cases "i \<le> j")
  case False
  with assms have "i = j + 1" by simp
  then show ?thesis by simp
qed (use assms upto_split2 [of i j k] in auto)

lemma filter_upto_gt: "filter (\<lambda>x. x > s) [i..j] = [max i (s + 1)..j::int]"
proof (induction i j rule: upto.induct)
  case (1 i j)
  show ?case
  proof (cases "i \<le> j")
    case True
    show ?thesis
    proof (cases "i > s")
      case True
      then show ?thesis by (intro trans [OF filter_True]) auto
    next
      case False
      have "[i..j] = i # [i + 1..j]" using True by (rule upto_rec1)
      with False 1 True show ?thesis by (simp add: max_def)
    qed
  qed simp
qed

section \<open>What can be serialised\<close>

lemma not_surrogate_small [simp]: "c < 55296 \<Longrightarrow> \<not> is_surrogate c"
  by (simp add: is_surrogate_def)

fun json_encodable :: "json \<Rightarrow> bool" where
  "json_encodable (JFloat t) = encodable t"
| "json_encodable (JStr s) = encodable s"
| "json_encodable (JArr xs) = list_all json_encodable xs"
| "json_encodable (JObj kvs) = list_all (\<lambda>(k, v). encodable k \<and> json_encodable v) kvs"
| "json_encodable _ = True"

lemma encodable_escape_char: "\<not> is_surrogate c \<Longrightarrow> encodable (escape_char c)"
  by (auto simp: escape_char_def is_surrogate_def hex_digit_def)

lemma encodable_quote [simp]: "encodable s \<Longrightarrow> encodable (quote s)"
  by (induction s) (auto simp: quote_def escape_def encodable_escape_char is_surrogate_def)

lemma encodable_lit [simp]: "encodable (lit s)"
proof (induction s)
  case (Cons c s)
  have "(of_char c :: nat) < 256" by (rule nat_of_char_less_256)
  with Cons show ?case by (simp add: lit_def is_surrogate_def del: nat_of_char_less_256)
qed (simp add: lit_def)

lemma encodable_nat_text [simp]: "encodable (nat_text n)"
  by (induction n rule: nat_text.induct) (subst nat_text.simps, auto simp: is_surrogate_def)

lemma encodable_int_text [simp]: "encodable (int_text i)"
  by (simp add: int_text_def is_surrogate_def)

lemma encodable_join: "encodable sep \<Longrightarrow> list_all encodable xs \<Longrightarrow> encodable (join sep xs)"
  by (induction sep xs rule: join.induct) auto

lemma encodable_dumps: "json_encodable j \<Longrightarrow> encodable (dumps j)"
proof (induction j rule: dumps.induct)
  case (6 xs)
  then show ?case by (auto simp: is_surrogate_def list_all_iff intro!: encodable_join)
next
  case (7 kvs)
  then show ?case by (fastforce simp: is_surrogate_def list_all_iff intro!: encodable_join)
qed auto

definition payload_ok :: "(pystr \<times> json) list \<Rightarrow> bool" where
  "payload_ok p \<longleftrightarrow> list_all (\<lambda>(k, v). encodable k \<and> json_encodable v) p"

definition ids_ok :: "channel \<Rightarrow> bool" where
  "ids_ok ch \<longleftrightarrow> encodable (ch_execution ch) \<and> encodable (ch_history ch) \<and> encodable (ch_turn ch)"

lemma event_size_Inr:
  "ids_ok ch \<Longrightarrow> payload_ok p \<Longrightarrow>
     event_size (make_event ch n t p) = Inr (int (utf8_len (dumps (event_json (make_event ch n t p)))))"
proof -
  assume "ids_ok ch" "payload_ok p"
  then have "json_encodable (event_json (make_event ch n t p))"
    by (simp add: event_json_def make_event_def ids_ok_def payload_ok_def)
  then show ?thesis by (simp add: event_size_def encoded_size_def encodable_dumps)
qed

lemma event_size_pos: "event_size ev = Inr n \<Longrightarrow> 0 < n"
  by (auto simp: event_size_def encoded_size_def event_json_def split: if_splits)

section \<open>Eviction\<close>

lemma sum_sizes_nonneg: "(\<And>ev n. (ev, n) \<in> set ring \<Longrightarrow> 0 < n) \<Longrightarrow> (0::int) \<le> sum_list (map snd ring)"
  by (induction ring) (auto, fastforce)

lemma evict_keeps_last:
  assumes "1 \<le> max_events" "n \<le> max_bytes"
  shows "\<exists>k \<le> length ring.
     evict max_events max_bytes (ring @ [(ev, n)]) (sum_list (map snd ring) + n)
       = Inr (drop k ring @ [(ev, n)], sum_list (map snd (drop k ring)) + n)
     \<and> int (length (drop k ring)) + 1 \<le> max_events \<and> sum_list (map snd (drop k ring)) + n \<le> max_bytes"
proof (induction ring)
  case Nil
  then show ?case using assms by (simp add: evict.simps)
next
  case (Cons a ring)
  obtain e m where a: "a = (e, m)" by fastforce
  show ?case
  proof (cases "int (length (a # ring @ [(ev, n)])) > max_events \<or> sum_list (map snd (a # ring)) + n > max_bytes")
    case True
    from Cons obtain k where k: "k \<le> length ring"
      "evict max_events max_bytes (ring @ [(ev, n)]) (sum_list (map snd ring) + n)
        = Inr (drop k ring @ [(ev, n)], sum_list (map snd (drop k ring)) + n)"
      "int (length (drop k ring)) + 1 \<le> max_events" "sum_list (map snd (drop k ring)) + n \<le> max_bytes"
      by blast
    have "m + sum_list (map snd ring) + n - m = sum_list (map snd ring) + n" by simp
    then have "evict max_events max_bytes ((a # ring) @ [(ev, n)]) (sum_list (map snd (a # ring)) + n)
        = evict max_events max_bytes (ring @ [(ev, n)]) (sum_list (map snd ring) + n)"
      using True by (subst evict.simps) (simp add: a)
    with k show ?thesis by (intro exI [of _ "Suc k"]) simp
  next
    case False
    then show ?thesis by (intro exI [of _ 0]) (subst evict.simps, auto)
  qed
qed

section \<open>The ring invariant\<close>

definition ring_seqs :: "channel \<Rightarrow> int list" where
  "ring_seqs ch = map (ev_sequence \<circ> fst) (ch_ring ch)"

definition ring_ok :: "channel \<Rightarrow> bool" where
  "ring_ok ch \<longleftrightarrow> 1 \<le> ch_max_events ch \<and> 1 \<le> ch_max_bytes ch \<and> ids_ok ch
     \<and> ring_seqs ch = [ch_sequence ch - int (length (ch_ring ch)) + 1 .. ch_sequence ch]
     \<and> 0 \<le> ch_sequence ch \<and> (ch_ring ch = [] \<longrightarrow> ch_sequence ch = 0)
     \<and> ch_ring_bytes ch = sum_list (map snd (ch_ring ch))
     \<and> int (length (ch_ring ch)) \<le> ch_max_events ch \<and> ch_ring_bytes ch \<le> ch_max_bytes ch
     \<and> (\<forall>(ev, n) \<in> set (ch_ring ch). event_size ev = Inr n)"

definition same_limits :: "channel \<Rightarrow> channel \<Rightarrow> bool" where
  "same_limits ch ch' \<longleftrightarrow> ch_execution ch' = ch_execution ch \<and> ch_history ch' = ch_history ch
     \<and> ch_turn ch' = ch_turn ch \<and> ch_max_events ch' = ch_max_events ch
     \<and> ch_max_bytes ch' = ch_max_bytes ch \<and> ch_max_subscribers ch' = ch_max_subscribers ch"

definition same_ring :: "channel \<Rightarrow> channel \<Rightarrow> bool" where
  "same_ring ch ch' \<longleftrightarrow> same_limits ch ch' \<and> ch_sequence ch' = ch_sequence ch
     \<and> ch_ring ch' = ch_ring ch \<and> ch_ring_bytes ch' = ch_ring_bytes ch"

lemma ring_ok_same: "ring_ok ch \<Longrightarrow> same_ring ch ch' \<Longrightarrow> ring_ok ch'"
  by (simp add: ring_ok_def same_ring_def same_limits_def ids_ok_def ring_seqs_def)

text \<open>\<open>published ch evs ch'\<close>: the events appended between two states, with the ring the newest part.\<close>

definition published :: "channel \<Rightarrow> event list \<Rightarrow> channel \<Rightarrow> bool" where
  "published ch evs ch' \<longleftrightarrow> same_limits ch ch'
     \<and> ch_sequence ch' = ch_sequence ch + int (length evs)
     \<and> map ev_sequence evs = [ch_sequence ch + 1 .. ch_sequence ch']
     \<and> (\<exists>older. map fst (ch_ring ch) @ evs = older @ map fst (ch_ring ch'))"

lemma append_locked_ok:
  assumes ok: "ring_ok ch" and p: "payload_ok p" and res: "append_locked ch t p = (r, ch')"
  obtains "r = Inl EventTooLarge" "ch' = ch"
  | k n where "r = Inr ()" "ring_ok ch'" "published ch [make_event ch (ch_sequence ch + 1) t p] ch'"
    "ch' = ch\<lparr>ch_sequence := ch_sequence ch + 1, ch_ring := ch_ring ch', ch_ring_bytes := ch_ring_bytes ch'\<rparr>"
proof -
  let ?ch1 = "ch\<lparr>ch_sequence := ch_sequence ch + 1\<rparr>"
  let ?ev = "make_event ch (ch_sequence ch + 1) t p"
  have ev: "make_event ?ch1 (ch_sequence ch + 1) t p = ?ev" by (simp add: make_event_def)
  have ids: "ids_ok ch" and me: "1 \<le> ch_max_events ch" using ok by (simp_all add: ring_ok_def)
  obtain n where n: "event_size ?ev = Inr n" using event_size_Inr [OF ids p] by blast
  show thesis
  proof (cases "n > ch_max_bytes ch")
    case True
    with res n ev that(1) show ?thesis by (simp add: append_locked_def Let_def)
  next
    case False
    let ?R = "ch_ring ch"
    have b: "ch_ring_bytes ch = sum_list (map snd ?R)" using ok by (simp add: ring_ok_def)
    from evict_keeps_last [OF me, of n "ch_max_bytes ch" ?R ?ev] False obtain k where k: "k \<le> length ?R"
      "evict (ch_max_events ch) (ch_max_bytes ch) (?R @ [(?ev, n)]) (ch_ring_bytes ch + n)
         = Inr (drop k ?R @ [(?ev, n)], sum_list (map snd (drop k ?R)) + n)"
      "int (length (drop k ?R)) + 1 \<le> ch_max_events ch"
      "sum_list (map snd (drop k ?R)) + n \<le> ch_max_bytes ch"
      by (auto simp: b)
    with res n ev False have r: "r = Inr ()" and ch': "ch' = ?ch1\<lparr>ch_ring := drop k ?R @ [(?ev, n)],
          ch_ring_bytes := sum_list (map snd (drop k ?R)) + n\<rparr>"
      by (simp_all add: append_locked_def Let_def)
    have sq: "ev_sequence ?ev = ch_sequence ch + 1" by (simp add: make_event_def)
    have "ring_seqs ch' = drop k (ring_seqs ch) @ [ch_sequence ch + 1]"
      by (simp add: ring_seqs_def ch' sq drop_map)
    also have "\<dots> = [ch_sequence ch - int (length ?R) + 1 + int k .. ch_sequence ch] @ [ch_sequence ch + 1]"
      using ok k(1) by (simp add: ring_ok_def drop_upto algebra_simps)
    also have "\<dots> = [ch_sequence ch - int (length ?R) + 1 + int k .. ch_sequence ch + 1]"
      using k(1) by (subst (2) upto_snoc) simp_all
    finally have seqs: "ring_seqs ch' = [ch_sequence ch' - int (length (ch_ring ch')) + 1 .. ch_sequence ch']"
      using k(1) by (simp add: ch' of_nat_diff algebra_simps)
    have "(e, m) \<in> set (ch_ring ch') \<Longrightarrow> event_size e = Inr m" for e m
      using ok n in_set_dropD [of "(e, m)" k ?R] by (auto simp: ring_ok_def ch')
    then have "ring_ok ch'"
      using ok k seqs by (auto simp: ring_ok_def ch' ids_ok_def)
    moreover have "published ch [?ev] ch'"
    proof -
      have "map fst ?R @ [?ev] = map fst (take k ?R) @ map fst (ch_ring ch')"
        by (simp add: ch') (metis append.assoc append_take_drop_id map_append)
      then show ?thesis by (auto simp: published_def same_limits_def ch' sq)
    qed
    ultimately show ?thesis using r by (intro that(2)) (simp_all add: ch')
  qed
qed

lemma published_refl: "published ch [] ch"
  by (simp add: published_def same_limits_def)

lemma published_trans:
  assumes "published a xs b" "published b ys c"
  shows "published a (xs @ ys) c"
proof -
  from assms obtain o1 o2 where o: "map fst (ch_ring a) @ xs = o1 @ map fst (ch_ring b)"
    "map fst (ch_ring b) @ ys = o2 @ map fst (ch_ring c)" by (auto simp: published_def)
  then have "map fst (ch_ring a) @ xs @ ys = (o1 @ o2) @ map fst (ch_ring c)"
    by (metis append.assoc)
  moreover have "[ch_sequence a + 1 .. ch_sequence b] @ [ch_sequence b + 1 .. ch_sequence c]
      = [ch_sequence a + 1 .. ch_sequence c]"
    using assms by (intro upto_append) (simp_all add: published_def)
  ultimately show ?thesis using assms by (auto simp: published_def same_limits_def)
qed

lemma published_same_ring: "same_ring ch ch' \<Longrightarrow> published ch [] ch'"
  by (simp add: published_def same_ring_def)

section \<open>Reading\<close>

lemma ring_first: "ring_ok ch \<Longrightarrow> ch_ring ch = (ev, n) # rest \<Longrightarrow>
    ev_sequence ev = ch_sequence ch - int (length (ch_ring ch)) + 1"
  by (auto simp: ring_ok_def ring_seqs_def upto_rec1)

lemma read_published:
  assumes ok: "ring_ok ch'" and p: "published ch evs ch'" and s: "0 \<le> ch_sequence ch"
  shows "read_after ch' (ch_sequence ch) = Inr (evs, ch_sequence ch')
     \<or> (evs \<noteq> [] \<and> read_after ch' (ch_sequence ch) = bindR (snapshot_event ch') (\<lambda>s. Inr ([s], ev_sequence s)))"
proof (cases "ch_ring ch'")
  case Nil
  then have "ch_sequence ch' = 0" using ok by (simp add: ring_ok_def)
  moreover have "evs = []" using p Nil s calculation by (simp add: published_def)
  ultimately show ?thesis using Nil p s by (simp add: read_after_def published_def)
next
  case (Cons a rest)
  obtain ev n where a: "a = (ev, n)" by fastforce
  have first: "ev_sequence ev = ch_sequence ch' - int (length (ch_ring ch')) + 1"
    using ring_first [OF ok] Cons a by simp
  show ?thesis
  proof (cases "ch_sequence ch < ev_sequence ev - 1")
    case True
    have "evs \<noteq> []"
    proof
      assume "evs = []"
      with p have "ch_sequence ch' = ch_sequence ch" by (simp add: published_def)
      with True first Cons show False by simp
    qed
    with True Cons a show ?thesis by (simp add: read_after_def)
  next
    case False
    let ?E = "map fst (ch_ring ch')"
    have len: "length evs \<le> length ?E"
      using False first p by (simp add: published_def)
    obtain older where o: "map fst (ch_ring ch) @ evs = older @ ?E" using p by (auto simp: published_def)
    obtain front where E: "?E = front @ evs"
      using o len by (auto simp: append_eq_append_conv2 dest: sym)
    have seqE: "map ev_sequence ?E = [ev_sequence ev .. ch_sequence ch']"
      using ok first by (simp add: ring_ok_def ring_seqs_def comp_def)
    have "map ev_sequence (filter (\<lambda>e. ev_sequence e > ch_sequence ch) ?E)
        = filter (\<lambda>x. x > ch_sequence ch) (map ev_sequence ?E)"
      by (simp add: filter_map comp_def)
    have fe: "filter (\<lambda>e. ev_sequence e > ch_sequence ch) ?E = evs"
    proof -
      have low: "\<not> ev_sequence e > ch_sequence ch" if "e \<in> set front" for e
      proof -
        have "length front = length ?E - length evs" using E by simp
        moreover have "map ev_sequence front = take (length front) [ev_sequence ev .. ch_sequence ch']"
          using seqE E by (metis append_eq_conv_conj length_map map_append)
        ultimately have "ev_sequence e \<in> set (take (length ?E - length evs) [ev_sequence ev .. ch_sequence ch'])"
          using that by (metis image_eqI set_map)
        moreover have "take (length ?E - length evs) [ev_sequence ev .. ch_sequence ch']
            = [ev_sequence ev .. ev_sequence ev + int (length ?E - length evs) - 1]"
          using first by (simp add: take_upto)
        ultimately have "ev_sequence e \<le> ev_sequence ev + int (length ?E - length evs) - 1" by auto
        then show ?thesis using first p len by (simp add: published_def of_nat_diff)
      qed
      have high: "ev_sequence e > ch_sequence ch" if "e \<in> set evs" for e
      proof -
        have "ev_sequence e \<in> set (map ev_sequence evs)" using that by simp
        also have "map ev_sequence evs = [ch_sequence ch + 1 .. ch_sequence ch']"
          using p by (simp add: published_def)
        finally show ?thesis by simp
      qed
      show ?thesis unfolding E filter_append using low high
        by (simp add: filter_empty_conv filter_id_conv)
    qed
    have mf: "map fst (filter (\<lambda>(e, _). ev_sequence e > ch_sequence ch) (ch_ring ch')) = evs"
      using fe by (simp add: filter_map comp_def split_def)
    have last: "evs \<noteq> [] \<Longrightarrow> ev_sequence (last evs) = ch_sequence ch'"
    proof -
      assume ne: "evs \<noteq> []"
      then have "ev_sequence (last evs) = last [ch_sequence ch + 1 .. ch_sequence ch']"
        using p by (metis (no_types) last_map published_def)
      also have "\<dots> = ch_sequence ch'" using p ne by (subst upto_snoc) (auto simp: published_def Suc_le_eq)
      finally show ?thesis .
    qed
    have "evs = [] \<Longrightarrow> ch_sequence ch' = ch_sequence ch" using p by (simp add: published_def)
    with mf last False Cons a show ?thesis by (auto simp: read_after_def Let_def)
  qed
qed

end
