(* ===== verification/Events_Draft.thy ===== *)
theory Events_Draft
  imports Events_Ring
begin

text \<open>
  The report draft: what a text delta does to the published draft (\<open>apply_delta\<close>, the reader's
  side), that the channel's accumulated parts always render to that draft, that the incremental
  byte account \<open>_draft_snapshot_bytes\<close> is the exact size of the serialised draft, and that
  splitting a text into events loses nothing.
\<close>

lemma lit_inj [simp]: "lit a = lit b \<longleftrightarrow> a = b"
  unfolding lit_def by (rule inj_map_eq_map) (simp add: inj_def)

lemma lit_Nil [simp]: "lit s = [] \<longleftrightarrow> s = []" "lit [] = []"
  by (simp_all add: lit_def)

section \<open>Splitting a text\<close>

lemma split_loop_Inr:
  assumes "split_loop m parts current bytes body = Inr chunks"
    and "bytes = int (utf8_len current)" "bytes \<le> m" "list_all (\<lambda>p. p \<noteq> [] \<and> int (utf8_len p) \<le> m) parts"
  shows "concat chunks = concat parts @ current @ body"
    and "list_all (\<lambda>p. p \<noteq> [] \<and> int (utf8_len p) \<le> m) chunks"
proof -
  have "concat chunks = concat parts @ current @ body
      \<and> list_all (\<lambda>p. p \<noteq> [] \<and> int (utf8_len p) \<le> m) chunks"
    using assms
  proof (induction m parts current bytes body arbitrary: chunks rule: split_loop.induct)
    case (2 m parts current bytes c cs)
    let ?sz = "int (utf8_size c)"
    let ?full = "current \<noteq> [] \<and> bytes + ?sz > m"
    from 2(2) have ns: "\<not> is_surrogate c" and le: "?sz \<le> m"
      and rec: "split_loop m (if ?full then parts @ [current] else parts)
        ((if ?full then [] else current) @ [c]) ((if ?full then 0 else bytes) + ?sz) cs = Inr chunks"
      by (auto simp: Let_def split: if_splits)
    have pos: "?sz + bytes \<le> m \<or> ?full"
      using 2(3) le by (cases "current = []") auto
    have "concat chunks = concat (if ?full then parts @ [current] else parts)
        @ ((if ?full then [] else current) @ [c]) @ cs
      \<and> list_all (\<lambda>p. p \<noteq> [] \<and> int (utf8_len p) \<le> m) chunks"
      by (rule 2(1) [OF ns refl refl refl refl refl _ rec])
        (use 2(3-5) le pos in \<open>auto simp: list_all_iff\<close>)
    then show ?case by (cases ?full) auto
  qed (auto simp: list_all_iff split: if_splits)
  then show "concat chunks = concat parts @ current @ body"
    and "list_all (\<lambda>p. p \<noteq> [] \<and> int (utf8_len p) \<le> m) chunks" by blast+
qed

lemma split_utf8_Inr:
  assumes "split_utf8 body m = Inr chunks" and "0 \<le> m"
  shows "concat chunks = body" and "list_all (\<lambda>p. p \<noteq> [] \<and> int (utf8_len p) \<le> m) chunks"
  using split_loop_Inr [of m "[]" "[]" 0 body chunks] assms by (simp_all add: split_utf8_def)

lemma split_loop_total:
  "encodable body \<Longrightarrow> 4 \<le> m \<Longrightarrow> \<exists>chunks. split_loop m parts current bytes body = Inr chunks"
proof (induction body arbitrary: parts current bytes)
  case (Cons c cs)
  have "int (utf8_size c) \<le> m" using utf8_size_le_4 [of c] Cons.prems(2) by linarith
  with Cons show ?case by (auto simp: Let_def)
qed simp

section \<open>The reader's draft\<close>

fun append_str :: "pystr \<Rightarrow> json \<Rightarrow> json" where
  "append_str t (JStr s) = JStr (s @ t)"
| "append_str t v = v"

fun upd_val :: "int option \<Rightarrow> pystr \<Rightarrow> json \<Rightarrow> json" where
  "upd_val None t v = append_str t v"
| "upd_val (Some j) t (JArr vs) = JArr (vs[nat j := append_str t (vs ! nat j)])"
| "upd_val (Some j) t v = v"

definition upd_draft :: "pystr \<Rightarrow> int option \<Rightarrow> pystr \<Rightarrow> (pystr \<times> json) list \<Rightarrow> (pystr \<times> json) list" where
  "upd_draft k i t d = map (\<lambda>(k', v). (k', if k' = k then upd_val i t v else v)) d"

definition apply_delta :: "pystr \<Rightarrow> int option \<Rightarrow> pystr \<Rightarrow> (pystr \<times> json) list \<Rightarrow> (pystr \<times> json) list" where
  "apply_delta k i t d =
     (case i of
        None \<Rightarrow> (case map_of d k of None \<Rightarrow> put_field k (JStr t) d | Some _ \<Rightarrow> upd_draft k None t d)
      | Some j \<Rightarrow>
          (case map_of d k of
             None \<Rightarrow> put_field k (JArr [JStr t]) d
           | Some (JArr vs) \<Rightarrow>
               if j = int (length vs) then put_field k (JArr (vs @ [JStr t])) d
               else upd_draft k (Some j) t d
           | Some _ \<Rightarrow> d))"

fun str_length :: "json \<Rightarrow> int" where
  "str_length (JStr s) = int (length s)"
| "str_length _ = 0"

definition delta_offset :: "pystr \<Rightarrow> int option \<Rightarrow> (pystr \<times> json) list \<Rightarrow> int" where
  "delta_offset k i d =
     (case map_of d k of
        None \<Rightarrow> 0
      | Some v \<Rightarrow> (case i of None \<Rightarrow> str_length v
                   | Some j \<Rightarrow> (case v of JArr vs \<Rightarrow> if nat j < length vs then str_length (vs ! nat j) else 0
                                | _ \<Rightarrow> 0)))"

lemma map_of_upd_draft:
  "map_of (upd_draft k i t d) k' =
     (if k' = k then map_option (upd_val i t) (map_of d k') else map_of d k')"
  by (induction d) (auto simp: upd_draft_def)

lemma fst_upd_draft [simp]: "map fst (upd_draft k i t d) = map fst d"
  by (induction d) (auto simp: upd_draft_def)

lemma keys_upd_draft: "fst ` set (upd_draft k i t d) = fst ` set d"
  by (simp only: set_map [symmetric] fst_upd_draft)

lemma map_of_put_field: "map_of (put_field k v d) = (map_of d)(k \<mapsto> v)"
proof (cases "map_of d k")
  case None
  then show ?thesis by (auto simp: put_field_def map_add_def split: option.split)
next
  case (Some w)
  have "map_of (map (\<lambda>(k', v'). (k', if k' = k then v else v')) d) k'
      = (if k' = k then (case map_of d k of None \<Rightarrow> None | Some _ \<Rightarrow> Some v) else map_of d k')" for k'
    by (induction d) auto
  with Some show ?thesis by (auto simp: put_field_def)
qed

lemma fst_put_field: "map fst (put_field k v d) = (if map_of d k = None then map fst d @ [k] else map fst d)"
  by (auto simp: put_field_def)

lemma distinct_put_field: "distinct (map fst d) \<Longrightarrow> distinct (map fst (put_field k v d))"
  by (simp add: fst_put_field map_of_eq_None_iff)

lemma put_field_None: "map_of d k = None \<Longrightarrow> put_field k v d = d @ [(k, v)]"
  by (simp add: put_field_def)

lemma put_field_Some:
  "map_of d k \<noteq> None \<Longrightarrow> put_field k v d = map (\<lambda>(k', v'). (k', if k' = k then v else v')) d"
  by (simp add: put_field_def)

lemma put_field_upd_other:
  assumes "k \<noteq> k'"
  shows "put_field k' v (upd_draft k i t d) = upd_draft k i t (put_field k' v d)"
proof (cases "map_of d k'")
  case None
  with assms show ?thesis
    by (simp add: put_field_None map_of_upd_draft) (simp add: upd_draft_def)
next
  case (Some w)
  with assms show ?thesis
    by (simp add: put_field_Some map_of_upd_draft) (auto simp: upd_draft_def)
qed

lemma put_field_upd_same:
  "map_of d k \<noteq> None \<Longrightarrow> put_field k (upd_val i t v) (upd_draft k i t d) = upd_draft k i t (put_field k v d)"
  by (simp add: put_field_Some map_of_upd_draft) (auto simp: upd_draft_def)

lemma put_field_new_upd:
  "map_of d k = None \<Longrightarrow> put_field k (upd_val i t v) d = upd_draft k i t (put_field k v d)"
proof -
  assume n: "map_of d k = None"
  then have "k \<notin> fst ` set d" by (simp add: map_of_eq_None_iff)
  then have "upd_draft k i t d = d" by (induction d) (auto simp: upd_draft_def)
  with n show ?thesis by (simp add: put_field_None) (simp add: upd_draft_def)
qed

lemma put_field_upd: "put_field k (upd_val i t v) d = upd_draft k i t (put_field k v d)"
proof (cases "map_of d k")
  case (Some w)
  then show ?thesis by (simp add: put_field_Some) (auto simp: upd_draft_def)
qed (rule put_field_new_upd)

lemma put_field_put_field: "put_field k v (put_field k w d) = put_field k v d"
proof (cases "map_of d k")
  case None
  then have "k \<notin> fst ` set d" by (simp add: map_of_eq_None_iff)
  then have "map (\<lambda>(k', v'). (k', if k' = k then v else v')) d = d" by (induction d) auto
  with None show ?thesis
    using put_field_Some [of "put_field k w d" k v]
    by (simp add: map_of_put_field) (simp add: put_field_None)
next
  case (Some x)
  then show ?thesis
    using put_field_Some [of "put_field k w d" k v]
    by (simp add: map_of_put_field) (auto simp: put_field_Some)
qed

section \<open>The parts render to the draft\<close>

fun part_key_ok :: "part_key \<Rightarrow> bool" where
  "part_key_ok (f, None) \<longleftrightarrow> f \<in> text_fields"
| "part_key_ok (f, Some j) \<longleftrightarrow> f \<in> list_fields \<and> 0 \<le> j"

lemma fields_disjoint: "f \<in> text_fields \<Longrightarrow> f \<in> list_fields \<Longrightarrow> False"
  by (auto simp: text_fields_def list_fields_def)

definition field_texts :: "(part_key \<times> pystr) list \<Rightarrow> string \<Rightarrow> pystr list \<Rightarrow> bool" where
  "field_texts ps f ts \<longleftrightarrow>
     (\<forall>j. map_of ps (f, Some j) = (if 0 \<le> j \<and> nat j < length ts then Some (ts ! nat j) else None))"

definition rendered :: "(part_key \<times> pystr) list \<Rightarrow> (pystr \<times> json) list \<Rightarrow> bool" where
  "rendered ps d \<longleftrightarrow> build_draft ps [] = Inr d \<and> distinct (map fst ps) \<and> distinct (map fst d)
     \<and> list_all (part_key_ok \<circ> fst) ps \<and> fst ` set d = (lit \<circ> fst \<circ> fst) ` set ps
     \<and> (\<forall>f \<in> text_fields. map_of d (lit f) = map_option JStr (map_of ps (f, None)))
     \<and> (\<forall>f \<in> list_fields. \<exists>ts. field_texts ps f ts
          \<and> map_of d (lit f) = (if ts = [] then None else Some (JArr (map JStr ts))))"

lemma build_draft_append: "build_draft (xs @ ys) d = bindR (build_draft xs d) (build_draft ys)"
  by (induction xs d rule: build_draft.induct) (auto split: option.splits json.splits if_splits)

lemma write_part_new: "map_of ps k = None \<Longrightarrow> write_part k t ps = ps @ [(k, t)]"
  by (induction k t ps rule: write_part.induct) (auto split: if_splits)

lemma write_part_old:
  "map_of ps k = Some s \<Longrightarrow> distinct (map fst ps) \<Longrightarrow>
     \<exists>qs rs. ps = qs @ (k, s) # rs \<and> write_part k t ps = qs @ (k, s @ t) # rs
       \<and> k \<notin> fst ` set qs \<and> k \<notin> fst ` set rs"
proof (induction k t ps rule: write_part.induct)
  case (2 k t k' s' ps)
  show ?case
  proof (cases "k' = k")
    case True
    with 2 show ?thesis by (intro exI [of _ "[]"] exI [of _ ps]) auto
  next
    case False
    with 2 obtain qs rs where "ps = qs @ (k, s) # rs \<and> write_part k t ps = qs @ (k, s @ t) # rs
       \<and> k \<notin> fst ` set qs \<and> k \<notin> fst ` set rs" by auto
    with False show ?thesis by (intro exI [of _ "(k', s') # qs"] exI [of _ rs]) auto
  qed
qed simp

lemma map_of_write_part:
  "map_of (write_part k t ps) = (map_of ps)(k \<mapsto> (case map_of ps k of None \<Rightarrow> t | Some s \<Rightarrow> s @ t))"
  by (induction k t ps rule: write_part.induct) (auto simp: fun_eq_iff)

lemma fst_write_part:
  "map fst (write_part k t ps) = (if map_of ps k = None then map fst ps @ [k] else map fst ps)"
  by (induction k t ps rule: write_part.induct) auto

fun present :: "pystr \<Rightarrow> int option \<Rightarrow> (pystr \<times> json) list \<Rightarrow> bool" where
  "present k None d \<longleftrightarrow> True"
| "present k (Some j) d \<longleftrightarrow> 0 \<le> j \<and> (\<exists>vs. map_of d k = Some (JArr vs) \<and> nat j < length vs)"

lemma build_draft_upd:
  assumes "build_draft rs d = Inr d'" and "(f, i) \<notin> fst ` set rs" and "part_key_ok (f, i)"
    and "list_all (part_key_ok \<circ> fst) rs" and "present (lit f) i d"
  shows "build_draft rs (upd_draft (lit f) i t d) = Inr (upd_draft (lit f) i t d')"
  using assms
proof (induction rs d arbitrary: d' rule: build_draft.induct)
  case (2 g s ps d)
  have ne: "g \<noteq> f" using 2(3-5) by (cases i) (auto dest: fields_disjoint)
  then have "present (lit f) i (put_field (lit g) (JStr s) d)"
    using 2(6) by (cases i) (auto simp: map_of_put_field)
  with 2 ne show ?case by (simp add: put_field_upd_other)
next
  case (3 g j s ps d)
  let ?upd = "upd_draft (lit f) i t"
  from 3(2) obtain vs where vs: "(case obj_get d (lit g) of None \<Rightarrow> Some [] | Some (JArr vs) \<Rightarrow> Some vs | _ \<Rightarrow> None) = Some vs"
    and j: "int (length vs) = j" and rec: "build_draft ps (put_field (lit g) (JArr (vs @ [JStr s])) d) = Inr d'"
    by (auto split: option.splits json.splits if_splits)
  show ?case
  proof (cases "g = f")
    case False
    then have "present (lit f) i (put_field (lit g) (JArr (vs @ [JStr s])) d)"
      using 3(6) by (cases i) (auto simp: map_of_put_field)
    then have "build_draft ps (?upd (put_field (lit g) (JArr (vs @ [JStr s])) d)) = Inr (?upd d')"
      using 3(1) [OF vs _ rec] j 3(3-5) by simp
    with vs j False show ?thesis
      by (simp add: obj_get_def map_of_upd_draft put_field_upd_other)
  next
    case True
    have "i \<noteq> None" using 3(4,5) True by (cases i) (auto dest: fields_disjoint)
    then obtain j0 where i: "i = Some j0" by blast
    with 3(6) True vs have j0: "0 \<le> j0" "map_of d (lit g) = Some (JArr vs)" "nat j0 < length vs"
      by (auto simp: obj_get_def)
    have "present (lit f) i (put_field (lit g) (JArr (vs @ [JStr s])) d)"
      using j0 True i by (simp add: map_of_put_field)
    then have IH: "build_draft ps (?upd (put_field (lit g) (JArr (vs @ [JStr s])) d)) = Inr (?upd d')"
      using 3(1) [OF vs _ rec] j 3(3-5) by simp
    let ?ws = "vs[nat j0 := append_str t (vs ! nat j0)]"
    have "upd_val i t (JArr (vs @ [JStr s])) = JArr (?ws @ [JStr s])"
      using j0 i by (simp add: list_update_append nth_append)
    then have "put_field (lit g) (JArr (?ws @ [JStr s])) (?upd d) = ?upd (put_field (lit g) (JArr (vs @ [JStr s])) d)"
      using put_field_upd_same [of d "lit f" i t "JArr (vs @ [JStr s])"] j0 True by simp
    with IH j0 j i True show ?thesis by (simp add: obj_get_def map_of_upd_draft)
  qed
qed simp

lemma field_texts_unique: "field_texts ps f ts \<Longrightarrow> field_texts ps f us \<Longrightarrow> ts = us"
proof (rule nth_equalityI)
  assume a: "field_texts ps f ts" "field_texts ps f us"
  have "n < length ts \<longleftrightarrow> n < length us" for n
    using a unfolding field_texts_def by (metis nat_int of_nat_0_le_iff option.distinct(1))
  then show "length ts = length us" by (meson linorder_neq_iff)
  fix n assume "n < length ts"
  then show "ts ! n = us ! n"
    using a unfolding field_texts_def by (metis nat_int of_nat_0_le_iff option.inject option.distinct(1))
qed

lemma field_texts_write_other:
  "field_texts ps f ts \<Longrightarrow> (\<And>j. k \<noteq> (f, Some j)) \<Longrightarrow> field_texts (write_part k t ps) f ts"
  by (auto simp: field_texts_def map_of_write_part)

lemma field_texts_write_new:
  "field_texts ps f ts \<Longrightarrow> field_texts (write_part (f, Some (int (length ts))) t ps) f (ts @ [t])"
  by (auto simp: field_texts_def map_of_write_part nth_append)

lemma field_texts_write_old:
  "field_texts ps f ts \<Longrightarrow> 0 \<le> j \<Longrightarrow> nat j < length ts \<Longrightarrow>
     field_texts (write_part (f, Some j) t ps) f (ts[nat j := ts ! nat j @ t])"
  by (auto simp: field_texts_def map_of_write_part nth_list_update)

lemma rendered_list:
  assumes "rendered ps d" "f \<in> list_fields"
  obtains ts where "field_texts ps f ts"
    "map_of d (lit f) = (if ts = [] then None else Some (JArr (map JStr ts)))"
  using assms by (auto simp: rendered_def)

lemma rendered_text:
  "rendered ps d \<Longrightarrow> f \<in> text_fields \<Longrightarrow> map_of d (lit f) = map_option JStr (map_of ps (f, None))"
  by (simp add: rendered_def)

text \<open>Writing a new part, or more of an old one, keeps the rendering.\<close>

lemma rendered_write_new:
  assumes R: "rendered ps d" and k: "part_key_ok (f, i)" and n: "map_of ps (f, i) = None"
    and gap: "\<And>j ts. i = Some j \<Longrightarrow> field_texts ps f ts \<Longrightarrow> j \<le> int (length ts)"
  shows "rendered (write_part (f, i) t ps) (apply_delta (lit f) i t d)"
proof -
  let ?ps = "write_part (f, i) t ps" and ?d = "apply_delta (lit f) i t d"
  have ps: "?ps = ps @ [((f, i), t)]" using n by (rule write_part_new)
  have b: "build_draft ps [] = Inr d" using R by (simp add: rendered_def)
  have bp: "build_draft ?ps [] = build_draft [((f, i), t)] d"
    by (simp add: ps build_draft_append b)
  have main: "\<exists>v. ?d = put_field (lit f) v d \<and> build_draft ?ps [] = Inr ?d
      \<and> (i = None \<longrightarrow> v = JStr t)
      \<and> (\<forall>j. i = Some j \<longrightarrow> (\<exists>ts. field_texts ps f ts \<and> j = int (length ts) \<and> v = JArr (map JStr (ts @ [t]))))"
  proof (cases i)
    case None
    with k n rendered_text [OF R, of f] show ?thesis
      unfolding bp by (simp add: apply_delta_def)
  next
    case (Some j)
    with k have f: "f \<in> list_fields" "0 \<le> j" by simp_all
    from rendered_list [OF R f(1)] obtain ts where ts: "field_texts ps f ts"
      "map_of d (lit f) = (if ts = [] then None else Some (JArr (map JStr ts)))" .
    have "j = int (length ts)"
      using gap [OF Some ts(1)] ts(1) n Some f(2) by (auto simp: field_texts_def split: if_splits)
    with Some ts show ?thesis
      unfolding bp by (intro exI [of _ "JArr (map JStr (ts @ [t]))"])
        (auto simp: apply_delta_def obj_get_def)
  qed
  then obtain v where v: "?d = put_field (lit f) v d" "build_draft ?ps [] = Inr ?d"
    "i = None \<longrightarrow> v = JStr t"
    "\<forall>j. i = Some j \<longrightarrow> (\<exists>ts. field_texts ps f ts \<and> j = int (length ts) \<and> v = JArr (map JStr (ts @ [t])))"
    by blast
  have "distinct (map fst ?ps)" using R n by (simp add: rendered_def ps map_of_eq_None_iff)
  moreover have "distinct (map fst ?d)" using R by (simp add: v(1) rendered_def distinct_put_field)
  moreover have "list_all (part_key_ok \<circ> fst) ?ps" using R k by (simp add: rendered_def ps)
  moreover have "fst ` set ?d = (lit \<circ> fst \<circ> fst) ` set ?ps"
  proof -
    have "fst ` set ?d = insert (lit f) (fst ` set d)"
      using arg_cong [OF fst_put_field [of "lit f" v d], of set]
      by (auto simp: v(1) map_of_eq_None_iff split: if_splits)
    then show ?thesis using R by (simp add: rendered_def ps)
  qed
  moreover have "map_of ?d (lit g) = map_option JStr (map_of ?ps (g, None))" if "g \<in> text_fields" for g
  proof (cases "g = f")
    case True
    then have "i = None" using k that by (cases i) (auto dest: fields_disjoint)
    with True v n show ?thesis by (simp add: map_of_put_field map_of_write_part)
  next
    case False
    then show ?thesis using rendered_text [OF R that] by (simp add: v(1) map_of_put_field map_of_write_part)
  qed
  moreover have "\<exists>us. field_texts ?ps g us \<and> map_of ?d (lit g) = (if us = [] then None else Some (JArr (map JStr us)))"
    if gl: "g \<in> list_fields" for g
  proof (cases "g = f")
    case True
    then obtain j where i: "i = Some j" using k gl by (cases i) (auto dest: fields_disjoint)
    with v obtain ts where "field_texts ps f ts" "j = int (length ts)" "v = JArr (map JStr (ts @ [t]))" by blast
    moreover have md: "map_of ?d (lit f) = Some v" by (simp add: v(1) map_of_put_field)
    ultimately show ?thesis unfolding True md
      by (intro exI [of _ "ts @ [t]"]) (simp add: i field_texts_write_new)
  next
    case False
    from rendered_list [OF R gl] obtain us where "field_texts ps g us"
      "map_of d (lit g) = (if us = [] then None else Some (JArr (map JStr us)))" .
    with False show ?thesis
      by (intro exI [of _ us]) (simp add: v(1) map_of_put_field field_texts_write_other)
  qed
  ultimately show ?thesis using v(2) by (simp add: rendered_def)
qed

lemma rendered_write_old:
  assumes R: "rendered ps d" and k: "part_key_ok (f, i)" and o: "map_of ps (f, i) = Some s"
  shows "rendered (write_part (f, i) t ps) (apply_delta (lit f) i t d)"
    and "apply_delta (lit f) i t d = upd_draft (lit f) i t d" and "present (lit f) i d"
    and "map_of d (lit f) \<noteq> None"
proof -
  let ?ps = "write_part (f, i) t ps"
  have pr: "apply_delta (lit f) i t d = upd_draft (lit f) i t d \<and> present (lit f) i d \<and> map_of d (lit f) \<noteq> None"
  proof (cases i)
    case None
    with k o rendered_text [OF R, of f] show ?thesis by (simp add: apply_delta_def)
  next
    case (Some j)
    with k have f: "f \<in> list_fields" "0 \<le> j" by simp_all
    from rendered_list [OF R f(1)] obtain ts where "field_texts ps f ts"
      "map_of d (lit f) = (if ts = [] then None else Some (JArr (map JStr ts)))" .
    with Some o f show ?thesis by (auto simp: apply_delta_def field_texts_def split: if_splits)
  qed
  then show d': "apply_delta (lit f) i t d = upd_draft (lit f) i t d" and "present (lit f) i d"
    and some: "map_of d (lit f) \<noteq> None" by blast+
  have b: "build_draft ps [] = Inr d" and dps: "distinct (map fst ps)" and dd: "distinct (map fst d)"
    and ks: "list_all (part_key_ok \<circ> fst) ps" using R by (simp_all add: rendered_def)
  obtain qs rs where qr: "ps = qs @ ((f, i), s) # rs" "?ps = qs @ ((f, i), s @ t) # rs"
    "(f, i) \<notin> fst ` set qs" "(f, i) \<notin> fst ` set rs"
    using write_part_old [OF o dps, of t] by blast
  obtain d1 where d1: "build_draft qs [] = Inr d1"
    and r1: "build_draft (((f, i), s) # rs) d1 = Inr d"
    using b by (auto simp: qr(1) build_draft_append bindR_iffs)
  have "build_draft (((f, i), s @ t) # rs) d1 = Inr (upd_draft (lit f) i t d)"
  proof (cases i)
    case None
    let ?d2 = "put_field (lit f) (JStr s) d1"
    have "put_field (lit f) (JStr (s @ t)) d1 = upd_draft (lit f) None t ?d2"
      using put_field_upd [of "lit f" None t "JStr s" d1] by simp
    moreover have "build_draft rs (upd_draft (lit f) None t ?d2) = Inr (upd_draft (lit f) None t d)"
      using r1 None qr k ks by (intro build_draft_upd) auto
    ultimately show ?thesis using None by simp
  next
    case (Some j)
    from r1 Some obtain vs where vs: "(case obj_get d1 (lit f) of None \<Rightarrow> Some [] | Some (JArr vs) \<Rightarrow> Some vs | _ \<Rightarrow> None) = Some vs"
      and j: "int (length vs) = j" and rec: "build_draft rs (put_field (lit f) (JArr (vs @ [JStr s])) d1) = Inr d"
      by (auto split: option.splits json.splits if_splits)
    let ?d2 = "put_field (lit f) (JArr (vs @ [JStr s])) d1"
    have up: "upd_val (Some j) t (JArr (vs @ [JStr s])) = JArr (vs @ [JStr (s @ t)])"
      using j by auto
    have "put_field (lit f) (JArr (vs @ [JStr (s @ t)])) d1 = upd_draft (lit f) (Some j) t ?d2"
      using put_field_upd [of "lit f" "Some j" t "JArr (vs @ [JStr s])" d1] up by simp
    moreover have "build_draft rs (upd_draft (lit f) (Some j) t ?d2) = Inr (upd_draft (lit f) (Some j) t d)"
      using rec Some qr k ks j by (intro build_draft_upd) (auto simp: map_of_put_field)
    ultimately show ?thesis using vs j Some by simp
  qed
  then have "build_draft ?ps [] = Inr (upd_draft (lit f) i t d)"
    by (simp add: qr(2) build_draft_append d1)
  moreover have "distinct (map fst ?ps)" using dps o by (simp add: fst_write_part)
  moreover have "list_all (part_key_ok \<circ> fst) ?ps" unfolding qr(2) using ks by (simp add: qr(1))
  moreover have "fst ` set (upd_draft (lit f) i t d) = (lit \<circ> fst \<circ> fst) ` set ?ps"
  proof -
    have "(lit \<circ> fst \<circ> fst) ` set qs = (lit \<circ> fst) ` set (map fst qs)" for qs :: "(part_key \<times> pystr) list"
      by (simp add: image_image)
    then have "(lit \<circ> fst \<circ> fst) ` set ?ps = (lit \<circ> fst \<circ> fst) ` set ps"
      using o by (simp only: fst_write_part option.distinct if_False)
    then show ?thesis
      using R by (simp add: rendered_def keys_upd_draft)
  qed
  moreover have "map_of (upd_draft (lit f) i t d) (lit g) = map_option JStr (map_of ?ps (g, None))"
    if "g \<in> text_fields" for g
  proof (cases "g = f")
    case True
    then have "i = None" using k that by (cases i) (auto dest: fields_disjoint)
    with True o rendered_text [OF R that] show ?thesis by (simp add: map_of_upd_draft map_of_write_part)
  next
    case False
    with rendered_text [OF R that] show ?thesis by (simp add: map_of_upd_draft map_of_write_part)
  qed
  moreover have "\<exists>us. field_texts ?ps g us
      \<and> map_of (upd_draft (lit f) i t d) (lit g) = (if us = [] then None else Some (JArr (map JStr us)))"
    if gl: "g \<in> list_fields" for g
  proof -
    from rendered_list [OF R gl] obtain us where us: "field_texts ps g us"
      "map_of d (lit g) = (if us = [] then None else Some (JArr (map JStr us)))" .
    show ?thesis
    proof (cases "g = f")
      case True
      then obtain j where i: "i = Some j" using k gl by (cases i) (auto dest: fields_disjoint)
      with us(1) o True k have j: "0 \<le> j" "nat j < length us" by (auto simp: field_texts_def split: if_splits)
      with True i us show ?thesis
        by (intro exI [of _ "us[nat j := us ! nat j @ t]"])
          (auto simp: map_of_upd_draft field_texts_write_old map_update)
    next
      case False
      with us show ?thesis by (intro exI [of _ us]) (simp add: map_of_upd_draft field_texts_write_other)
    qed
  qed
  ultimately show "rendered ?ps (apply_delta (lit f) i t d)"
    using dd by (simp add: rendered_def d')
qed

definition no_gap :: "(part_key \<times> pystr) list \<Rightarrow> part_key \<Rightarrow> bool" where
  "no_gap ps k \<longleftrightarrow> (\<forall>j ts. snd k = Some j \<and> field_texts ps (fst k) ts \<longrightarrow> j \<le> int (length ts))"

lemma rendered_write:
  "rendered ps d \<Longrightarrow> part_key_ok (f, i) \<Longrightarrow> no_gap ps (f, i) \<Longrightarrow>
     rendered (write_part (f, i) t ps) (apply_delta (lit f) i t d)"
  by (cases "map_of ps (f, i)") (auto intro: rendered_write_new rendered_write_old(1) simp: no_gap_def)

lemma rendered_unique: "rendered ps d \<Longrightarrow> rendered ps d' \<Longrightarrow> d' = d"
  by (simp add: rendered_def)

lemma write_part_twice: "write_part k b (write_part k a ps) = write_part k (a @ b) ps"
  by (induction k a ps rule: write_part.induct) simp_all

lemma no_gap_write:
  assumes "rendered ps d" "part_key_ok (f, i)" "no_gap ps (f, i)"
  shows "no_gap (write_part (f, i) t ps) (f, i)"
  unfolding no_gap_def
proof (intro allI impI)
  fix j us
  assume a: "snd (f, i) = Some j \<and> field_texts (write_part (f, i) t ps) (fst (f, i)) us"
  then have i: "i = Some j" and us: "field_texts (write_part (f, Some j) t ps) f us" by auto
  with assms(2) have j: "0 \<le> j" by simp
  have "map_of (write_part (f, Some j) t ps) (f, Some j) \<noteq> None" by (simp add: map_of_write_part)
  with us j have "nat j < length us" by (auto simp: field_texts_def split: if_splits)
  with j show "j \<le> int (length us)" by linarith
qed

lemma apply_delta_append:
  assumes "rendered ps d" "part_key_ok (f, i)" "no_gap ps (f, i)"
  shows "apply_delta (lit f) i b (apply_delta (lit f) i a d) = apply_delta (lit f) i (a @ b) d"
proof -
  have "rendered (write_part (f, i) b (write_part (f, i) a ps)) (apply_delta (lit f) i b (apply_delta (lit f) i a d))"
    using assms by (intro rendered_write no_gap_write) auto
  moreover have "rendered (write_part (f, i) (a @ b) ps) (apply_delta (lit f) i (a @ b) d)"
    using assms by (rule rendered_write)
  ultimately show ?thesis using rendered_unique by (metis write_part_twice)
qed

lemma rendered_offset:
  assumes R: "rendered ps d" and k: "part_key_ok (f, i)"
  shows "delta_offset (lit f) i d = (case map_of ps (f, i) of None \<Rightarrow> 0 | Some s \<Rightarrow> int (length s))"
proof (cases i)
  case None
  with k rendered_text [OF R, of f] show ?thesis
    by (simp add: delta_offset_def split: option.split)
next
  case (Some j)
  with k have f: "f \<in> list_fields" "0 \<le> j" by simp_all
  from rendered_list [OF R f(1)] obtain ts where "field_texts ps f ts"
    "map_of d (lit f) = (if ts = [] then None else Some (JArr (map JStr ts)))" .
  with Some f show ?thesis by (auto simp: delta_offset_def field_texts_def)
qed

lemma rendered_Nil: "rendered [] []"
  by (simp add: rendered_def field_texts_def)

section \<open>The exact size of the serialised draft\<close>

definition pair_bytes :: "pystr \<times> json \<Rightarrow> int" where
  "pair_bytes p = int (utf8_len (quote (fst p))) + 1 + int (utf8_len (dumps (snd p)))"

definition draft_bytes :: "(pystr \<times> json) list \<Rightarrow> int" where
  "draft_bytes d = int (utf8_len (dumps (JObj d)))"

lemma draft_bytes_eq:
  "draft_bytes d = 2 + sum_list (map pair_bytes d) + (if d = [] then 0 else int (length d) - 1)"
proof -
  have "int (sum_list (map utf8_len (map (\<lambda>(k, v). quote k @ 58 # dumps v) d))) = sum_list (map pair_bytes d)"
    by (induction d) (auto simp: pair_bytes_def)
  moreover have "int (utf8_len (dumps (JObj d))) =
      2 + int (sum_list (map utf8_len (map (\<lambda>(k, v). quote k @ 58 # dumps v) d))) + int (length d - 1)"
    by (simp add: utf8_len_join)
  ultimately show ?thesis by (auto simp: draft_bytes_def of_nat_diff Suc_le_eq)
qed

lemma sum_replace:
  assumes "distinct (map fst d)" "map_of d k = Some v"
  shows "sum_list (map pair_bytes (map (\<lambda>(k', v). (k', if k' = k then g v else v)) d))
     = sum_list (map pair_bytes d) + int (utf8_len (dumps (g v))) - int (utf8_len (dumps v))"
  using assms
proof (induction d)
  case (Cons a d)
  obtain k' v' where a: "a = (k', v')" by fastforce
  show ?case
  proof (cases "k' = k")
    case True
    with Cons.prems have "k \<notin> fst ` set d" by (auto simp: a)
    then have "map (\<lambda>(k', v). (k', if k' = k then g v else v)) d = d" by (induction d) auto
    with True Cons.prems show ?thesis by (simp add: a pair_bytes_def)
  next
    case False
    with Cons show ?thesis by (auto simp: a pair_bytes_def)
  qed
qed simp

lemma draft_bytes_upd:
  "distinct (map fst d) \<Longrightarrow> map_of d k = Some v \<Longrightarrow> draft_bytes (upd_draft k i t d) =
     draft_bytes d + int (utf8_len (dumps (upd_val i t v))) - int (utf8_len (dumps v))"
  using sum_replace [of d k v "upd_val i t"] by (auto simp: draft_bytes_eq upd_draft_def)

lemma draft_bytes_put_old:
  "distinct (map fst d) \<Longrightarrow> map_of d k = Some v \<Longrightarrow> draft_bytes (put_field k w d) =
     draft_bytes d + int (utf8_len (dumps w)) - int (utf8_len (dumps v))"
  using sum_replace [of d k v "\<lambda>_. w"] by (auto simp: draft_bytes_eq put_field_Some)

lemma draft_bytes_put_new:
  "map_of d k = None \<Longrightarrow> draft_bytes (put_field k w d) =
     draft_bytes d + int (utf8_len (quote k)) + 1 + int (utf8_len (dumps w)) + (if d = [] then 0 else 1)"
  by (auto simp: draft_bytes_eq put_field_None pair_bytes_def)

lemma escaped_bytes_eq: "escaped_bytes s = int (utf8_len (escape s))"
  by (simp add: escaped_bytes_def utf8_len_escape comp_def) (induction s, simp_all)

definition strs_bytes :: "pystr list \<Rightarrow> int" where
  "strs_bytes ts = sum_list (map (\<lambda>s. escaped_bytes s + 2) ts)"

lemma dumps_strs: "int (utf8_len (dumps (JArr (map JStr ts)))) = 2 + strs_bytes ts + (if ts = [] then 0 else int (length ts) - 1)"
proof -
  have "int (sum_list (map utf8_len (map dumps (map JStr ts)))) = strs_bytes ts"
    by (induction ts) (auto simp: strs_bytes_def utf8_len_quote escaped_bytes_eq)
  then show ?thesis
    by (auto simp: utf8_len_join of_nat_diff Suc_le_eq simp del: map_map)
qed

lemma strs_bytes_upd: "j < length ts \<Longrightarrow> strs_bytes (ts[j := ts ! j @ t]) = strs_bytes ts + escaped_bytes t"
proof (induction ts arbitrary: j)
  case (Cons a ts)
  then show ?case by (cases j) (auto simp: strs_bytes_def escaped_bytes_def)
qed simp

lemma escape_field: "f \<in> draft_fields \<Longrightarrow> utf8_len (escape (lit f)) = length f"
  unfolding draft_fields_def text_fields_def list_fields_def
  by (auto simp: lit_def escape_def escape_char_def)

lemma snapshot_increment_exact:
  assumes R: "rendered ps d" and k: "part_key_ok (f, i)" and g: "no_gap ps (f, i)"
    and len: "f \<in> list_fields \<Longrightarrow> field_texts ps f ts" and ll: "n = int (length ts)"
    and fields: "fs = (fst \<circ> fst) ` set ps"
  shows "draft_bytes (apply_delta (lit f) i t d) =
           draft_bytes d + draft_snapshot_increment f i (f \<in> fs) (fs \<noteq> {}) n t"
proof -
  have dd: "distinct (map fst d)" using R by (simp add: rendered_def)
  have keys: "lit f \<in> fst ` set d \<longleftrightarrow> f \<in> fs" "d = [] \<longleftrightarrow> fs = {}"
  proof -
    have K: "fst ` set d = lit ` fs" using R fields by (auto simp: rendered_def image_image)
    show "lit f \<in> fst ` set d \<longleftrightarrow> f \<in> fs" unfolding K by auto
    show "d = [] \<longleftrightarrow> fs = {}" using K by (metis image_is_empty set_empty)
  qed
  have fd: "f \<in> draft_fields" using k by (cases i) (auto simp: draft_fields_def)
  show ?thesis
  proof (cases i)
    case None
    with k rendered_text [OF R, of f] have m: "map_of d (lit f) = map_option JStr (map_of ps (f, None))" by simp
    show ?thesis
    proof (cases "map_of ps (f, None)")
      case None
      with m have mn: "map_of d (lit f) = None" by simp
      then have "f \<notin> fs" using keys(1) by (simp add: map_of_eq_None_iff)
      with mn \<open>i = None\<close> keys(2) fd show ?thesis
        by (auto simp: apply_delta_def draft_bytes_put_new escape_field draft_snapshot_increment_def
            utf8_len_quote escaped_bytes_eq)
    next
      case (Some s)
      with m have ms: "map_of d (lit f) = Some (JStr s)" by simp
      then have "f \<in> fs" using keys(1) by (force dest: map_of_SomeD)
      with ms \<open>i = None\<close> dd show ?thesis
        by (auto simp: apply_delta_def draft_bytes_upd draft_snapshot_increment_def utf8_len_quote escaped_bytes_eq)
    qed
  next
    case (Some j)
    with k have f: "f \<in> list_fields" "0 \<le> j" by simp_all
    note ts = len [OF f(1)]
    from rendered_list [OF R f(1)] obtain us where "field_texts ps f us"
      "map_of d (lit f) = (if us = [] then None else Some (JArr (map JStr us)))" .
    then have m: "map_of d (lit f) = (if ts = [] then None else Some (JArr (map JStr ts)))"
      using field_texts_unique [OF ts] by blast
    have jle: "j \<le> int (length ts)" using g ts Some by (simp add: no_gap_def)
    show ?thesis
    proof (cases "ts = []")
      case True
      with m have mn: "map_of d (lit f) = None" by simp
      then have "f \<notin> fs" using keys(1) by (simp add: map_of_eq_None_iff)
      with mn Some keys(2) fd show ?thesis
        by (auto simp: apply_delta_def draft_bytes_put_new escape_field draft_snapshot_increment_def
            utf8_len_quote escaped_bytes_eq)
    next
      case False
      with m have ms: "map_of d (lit f) = Some (JArr (map JStr ts))" by simp
      then have fin: "f \<in> fs" using keys(1) by (force dest: map_of_SomeD)
      show ?thesis
      proof (cases "j = int (length ts)")
        case True
        have "int (utf8_len (dumps (JArr (map JStr (ts @ [t]))))) =
            int (utf8_len (dumps (JArr (map JStr ts)))) + escaped_bytes t + 3"
          unfolding dumps_strs using False by (simp add: strs_bytes_def)
        with True ms Some fin False dd ll show ?thesis
          by (simp add: apply_delta_def draft_bytes_put_old draft_snapshot_increment_def)
      next
        case neq: False
        with jle f(2) have jl: "nat j < length ts" by linarith
        have "upd_val (Some j) t (JArr (map JStr ts)) = JArr (map JStr (ts[nat j := ts ! nat j @ t]))"
          using jl by (simp add: map_update)
        moreover have "int (utf8_len (dumps (JArr (map JStr (ts[nat j := ts ! nat j @ t]))))) =
            int (utf8_len (dumps (JArr (map JStr ts)))) + escaped_bytes t"
          unfolding dumps_strs using False jl by (simp add: strs_bytes_upd)
        ultimately show ?thesis using ms Some fin neq dd ll
          by (simp add: apply_delta_def draft_bytes_upd draft_snapshot_increment_def)
      qed
    qed
  qed
qed

end
