(* ===== verification/Events_Run.thy ===== *)
theory Events_Run
  imports Events_Draft
begin

text \<open>
  Runs of a channel. \<open>apply_event\<close> is what a subscriber does with an event on the state it holds
  (the payload of a snapshot); every operation of the channel publishes events whose application
  turns the state a subscriber held before into the channel's state after. From this and the ring
  lemma: a subscriber that reads is always brought to the channel's current state.
\<close>

section \<open>The subscriber's state\<close>

definition view_draft :: "(pystr \<times> json) list \<Rightarrow> (pystr \<times> json) list" where
  "view_draft v = (case obj_get v (lit ''draft'') of Some (JObj d) \<Rightarrow> d | _ \<Rightarrow> [])"

definition apply_text_delta :: "(pystr \<times> json) list \<Rightarrow> event \<Rightarrow> (pystr \<times> json) list" where
  "apply_text_delta v ev =
     (case (obj_get (ev_payload ev) (lit ''field''), obj_get (ev_payload ev) (lit ''offset''),
            obj_get (ev_payload ev) (lit ''text''), obj_get v (lit ''draft_generation'')) of
        (Some (JStr k), Some (JInt offset), Some (JStr t), Some (JInt g)) \<Rightarrow>
          let i = (case obj_get (ev_payload ev) (lit ''index'') of Some (JInt j) \<Rightarrow> Some j | _ \<Rightarrow> None)
          in if g = ev_generation ev \<and> delta_offset k i (view_draft v) = offset
             then put_field (lit ''draft'') (JObj (apply_delta k i t (view_draft v))) v else v
      | _ \<Rightarrow> v)"

definition apply_event :: "(pystr \<times> json) list \<Rightarrow> event \<Rightarrow> (pystr \<times> json) list" where
  "apply_event v ev =
     (if ev_type ev = ''snapshot'' then ev_payload ev
      else if ev_type ev = ''progress'' then foldl (\<lambda>w (k, x). put_field k x w) v (ev_payload ev)
      else if ev_type ev = ''draft_reset'' then
        put_field (lit ''draft'') JNull (put_field (lit ''draft_generation'') (JInt (ev_generation ev)) v)
      else if ev_type ev = ''text_delta'' then apply_text_delta v ev
      else if ev_type ev = ''terminal'' then
        (case obj_get (ev_payload ev) (lit ''status'') of
           Some s \<Rightarrow> put_field (lit ''draft'') JNull (put_field (lit ''status'') s v)
         | None \<Rightarrow> v)
      else v)"

definition channel_view :: "channel \<Rightarrow> (pystr \<times> json) list" where
  "channel_view ch = state_payload ch (case current_draft ch of Inr j \<Rightarrow> j | Inl _ \<Rightarrow> JNull)"

section \<open>The channel invariant\<close>

definition draft_inv :: "channel \<Rightarrow> bool" where
  "draft_inv ch \<longleftrightarrow> (\<exists>d. rendered (ch_parts ch) d \<and> ch_snapshot_bytes ch = draft_bytes d)
     \<and> ch_lengths ch = (\<lambda>k. map_option (\<lambda>s. int (length s)) (map_of (ch_parts ch) k))
     \<and> ch_fields ch = (fst \<circ> fst) ` set (ch_parts ch)
     \<and> (\<forall>f \<in> list_fields. \<forall>ts. field_texts (ch_parts ch) f ts \<longrightarrow> list_length ch f = int (length ts))
     \<and> ch_snapshot_bytes ch \<le> max_draft_bytes"

definition chan_ok :: "channel \<Rightarrow> bool" where
  "chan_ok ch \<longleftrightarrow> ring_ok ch \<and> draft_inv ch
     \<and> ch_status ch \<in> (if ch_terminal ch then final_statuses else running_statuses)
     \<and> (ch_terminal ch \<longrightarrow> ch_parts ch = [])
     \<and> 0 \<le> ch_subscribers ch \<and> ch_subscribers ch \<le> ch_max_subscribers ch"

lemma draft_inv_cong:
  "draft_inv ch \<Longrightarrow> ch_parts ch' = ch_parts ch \<Longrightarrow> ch_lengths ch' = ch_lengths ch \<Longrightarrow>
   ch_list_lengths ch' = ch_list_lengths ch \<Longrightarrow> ch_fields ch' = ch_fields ch \<Longrightarrow>
   ch_snapshot_bytes ch' = ch_snapshot_bytes ch \<Longrightarrow> draft_inv ch'"
  by (simp add: draft_inv_def list_length_def)

lemma draft_inv_clear: "draft_inv (clear_draft ch)"
proof -
  have "draft_bytes [] = 2" by (simp add: draft_bytes_def)
  moreover have "field_texts [] f ts \<Longrightarrow> ts = []" for f ts
    by (cases ts) (auto simp: field_texts_def dest: spec [of _ 0])
  ultimately show ?thesis
    using rendered_Nil by (auto simp: draft_inv_def clear_draft_def list_length_def max_draft_bytes_def)
qed

lemma rendered_Nil_iff: "rendered ps d \<Longrightarrow> ps = [] \<longleftrightarrow> d = []"
proof -
  assume "rendered ps d"
  then have "fst ` set d = (lit \<circ> fst \<circ> fst) ` set ps" by (simp add: rendered_def)
  then show ?thesis by (metis image_is_empty set_empty)
qed

lemma current_draft_rendered:
  "rendered (ch_parts ch) d \<Longrightarrow> current_draft ch = Inr (if d = [] then JNull else JObj d)"
  using rendered_Nil_iff [of "ch_parts ch" d] by (auto simp: current_draft_def rendered_def)

lemma draft_inv_current: "draft_inv ch \<Longrightarrow> \<exists>j. current_draft ch = Inr j"
  by (auto simp: draft_inv_def dest: current_draft_rendered)

lemma snapshot_event_view:
  "draft_inv ch \<Longrightarrow> snapshot_event ch = Inr (make_event ch (ch_sequence ch) ''snapshot'' (channel_view ch))"
  using draft_inv_current [of ch] by (auto simp: snapshot_event_def channel_view_def)

lemma view_draft_channel:
  "rendered (ch_parts ch) d \<Longrightarrow> view_draft (channel_view ch) = d"
  using current_draft_rendered [of ch d]
  by (simp add: view_draft_def channel_view_def state_payload_def obj_get_def)

text \<open>An operation that changes the state and then appends one event announcing the change.\<close>

definition announces :: "channel \<Rightarrow> event list \<Rightarrow> channel \<Rightarrow> bool" where
  "announces ch evs ch' \<longleftrightarrow> published ch evs ch' \<and> chan_ok ch'
     \<and> foldl apply_event (channel_view ch) evs = channel_view ch'"

lemma announces_refl: "chan_ok ch \<Longrightarrow> announces ch [] ch"
  by (simp add: announces_def published_refl)

lemma announces_trans: "announces a xs b \<Longrightarrow> announces b ys c \<Longrightarrow> announces a (xs @ ys) c"
  by (auto simp: announces_def intro: published_trans)

lemma channel_view_ring:
  "channel_view (ch\<lparr>ch_sequence := n, ch_ring := r, ch_ring_bytes := b\<rparr>) = channel_view ch"
  by (simp add: channel_view_def state_payload_def current_draft_def)

lemma chan_ok_ring:
  "chan_ok ch \<Longrightarrow> ring_ok (ch\<lparr>ch_sequence := n, ch_ring := r, ch_ring_bytes := b\<rparr>) \<Longrightarrow>
     chan_ok (ch\<lparr>ch_sequence := n, ch_ring := r, ch_ring_bytes := b\<rparr>)"
  by (auto simp: chan_ok_def intro: draft_inv_cong)

lemma append_announces:
  assumes ok: "ring_ok ch" and ch1: "chan_ok ch1" "same_ring ch ch1" and p: "payload_ok p"
    and res: "append_locked ch1 t p = (Inr (), ch')"
    and app: "apply_event (channel_view ch) (make_event ch1 (ch_sequence ch1 + 1) t p) = channel_view ch1"
  shows "announces ch [make_event ch1 (ch_sequence ch1 + 1) t p] ch'"
proof -
  have r1: "ring_ok ch1" using ch1 by (simp add: chan_ok_def)
  from append_locked_ok [OF r1 p res] have a: "ring_ok ch'"
    "published ch1 [make_event ch1 (ch_sequence ch1 + 1) t p] ch'"
    and ch': "ch' = ch1\<lparr>ch_sequence := ch_sequence ch1 + 1, ch_ring := ch_ring ch', ch_ring_bytes := ch_ring_bytes ch'\<rparr>"
    by auto
  have "published ch [make_event ch1 (ch_sequence ch1 + 1) t p] ch'"
    using published_trans [OF published_same_ring [OF ch1(2)] a(2)] by simp
  moreover have "chan_ok ch'" using chan_ok_ring [OF ch1(1)] a(1) ch' by metis
  moreover have "channel_view ch' = channel_view ch1" using channel_view_ring ch' by metis
  ultimately show ?thesis using app by (simp add: announces_def)
qed

section \<open>Each operation announces what it did\<close>

lemma payload_ok_simps [simp]:
  "payload_ok []" "payload_ok ((k, v) # p) \<longleftrightarrow> encodable k \<and> json_encodable v \<and> payload_ok p"
  by (simp_all add: payload_ok_def)

lemma json_opt_encodable [simp]:
  "json_encodable (json_opt JInt x)" "json_encodable (json_opt (\<lambda>s. JStr (lit s)) y)"
  by (simp_all add: json_opt_def split: option.splits)

lemma set_status_announces:
  assumes ok: "chan_ok ch" and r: "\<And>x. reason = Some x \<Longrightarrow> encodable x"
    and res: "set_status s reason ch = (Inr (), ch')"
  shows "\<exists>evs. announces ch evs ch'"
proof (cases "ch_terminal ch")
  case True
  with res have "ch' = ch" by (auto simp: set_status_def split: if_splits)
  with ok show ?thesis by (blast intro: announces_refl)
next
  case False
  have ring: "ring_ok ch" using ok by (simp add: chan_ok_def)
  from res False have s: "s \<in> running_statuses" by (auto simp: set_status_def split: if_splits)
  let ?ch1 = "ch\<lparr>ch_status := s\<rparr>"
  have ok1: "chan_ok ?ch1" "same_ring ch ?ch1"
    using ok s False by (auto simp: chan_ok_def same_ring_def same_limits_def
        intro: ring_ok_same draft_inv_cong)
  show ?thesis
  proof (cases "s = ''stopping''")
    case True
    from res s False obtain x where x: "reason = Some x"
      and a: "append_locked (?ch1\<lparr>ch_stop_reason := Some x\<rparr>) ''progress''
                [(lit ''status'', JStr (lit s)), (lit ''stop_reason'', JStr x)] = (Inr (), ch')"
      by (auto simp: set_status_def Let_def True split: option.splits if_splits)
    let ?ch2 = "?ch1\<lparr>ch_stop_reason := Some x\<rparr>"
    have ok2: "chan_ok ?ch2" "same_ring ch ?ch2"
      using ok1 by (auto simp: chan_ok_def same_ring_def same_limits_def
        intro: ring_ok_same draft_inv_cong)
    show ?thesis
      by (rule exI, rule append_announces [OF ring ok2 _ a])
        (use r x in \<open>simp_all add: apply_event_def make_event_def channel_view_def state_payload_def
           current_draft_def put_field_def json_opt_def\<close>)
  next
    case no: False
    with res s False have a: "append_locked ?ch1 ''progress'' [(lit ''status'', JStr (lit s))] = (Inr (), ch')"
      by (auto simp: set_status_def Let_def split: option.splits if_splits)
    show ?thesis
      by (rule exI, rule append_announces [OF ring ok1 _ a])
        (simp_all add: apply_event_def make_event_def channel_view_def state_payload_def
           current_draft_def put_field_def)
  qed
qed

lemma progress_announces:
  assumes ok: "chan_ok ch" and ch1: "ch1 = ch\<lparr>ch_stage := st, ch_completed := c, ch_total := t\<rparr>"
    and a: "append_locked ch1 ''progress'' (progress_payload ch1) = (Inr (), ch')"
  shows "\<exists>evs. announces ch evs ch'"
proof -
  have ring: "ring_ok ch" using ok by (simp add: chan_ok_def)
  have ok1: "chan_ok ch1" "same_ring ch ch1"
    using ok by (auto simp: ch1 chan_ok_def same_ring_def same_limits_def
        intro: ring_ok_same draft_inv_cong)
  show ?thesis
    by (rule exI, rule append_announces [OF ring ok1 _ a])
      (simp_all add: ch1 apply_event_def make_event_def channel_view_def state_payload_def
         current_draft_def put_field_def progress_payload_def)
qed

lemma set_stage_announces:
  assumes ok: "chan_ok ch" and res: "set_stage st ch = (Inr (), ch')"
  shows "\<exists>evs. announces ch evs ch'"
proof (cases "ch_terminal ch")
  case True
  with res have "ch' = ch" by (auto simp: set_stage_def split: if_splits)
  with ok show ?thesis by (blast intro: announces_refl)
next
  case False
  let ?ch1 = "ch\<lparr>ch_stage := Some st\<rparr>"
  have "append_locked ?ch1 ''progress'' (progress_payload ?ch1) = (Inr (), ch')"
    using res False by (auto simp: set_stage_def Let_def split: if_splits)
  then show ?thesis
    by (intro progress_announces [OF ok, where st = "Some st" and c = "ch_completed ch" and t = "ch_total ch"]) auto
qed

lemma set_task_progress_announces:
  assumes ok: "chan_ok ch" and res: "set_task_progress c t ch = (Inr (), ch')"
  shows "\<exists>evs. announces ch evs ch'"
proof (cases "ch_terminal ch")
  case True
  with res have "ch' = ch" by (auto simp: set_task_progress_def split: if_splits pyint.splits)
  with ok show ?thesis by (blast intro: announces_refl)
next
  case False
  with res obtain m n where mn: "append_locked (ch\<lparr>ch_completed := m, ch_total := Some n\<rparr>) ''progress''
      (progress_payload (ch\<lparr>ch_completed := m, ch_total := Some n\<rparr>)) = (Inr (), ch')"
    by (auto simp: set_task_progress_def Let_def split: if_splits pyint.splits)
  then show ?thesis
    by (intro progress_announces [OF ok, where st = "ch_stage ch" and c = m and t = "Some n"]) auto
qed

lemma reset_announces:
  assumes ok: "chan_ok ch" and res: "reset reason ch = (Inr (), ch')"
  shows "\<exists>evs. announces ch evs ch'"
proof (cases "ch_terminal ch")
  case True
  with res have "ch' = ch" by (auto simp: reset_def split: if_splits)
  with ok show ?thesis by (blast intro: announces_refl)
next
  case False
  have ring: "ring_ok ch" using ok by (simp add: chan_ok_def)
  let ?ch1 = "clear_draft (ch\<lparr>ch_generation := ch_generation ch + 1\<rparr>)"
  have a: "append_locked ?ch1 ''draft_reset'' [(lit ''reason'', JStr (lit reason))] = (Inr (), ch')"
    using res False by (auto simp: reset_def split: if_splits)
  have ok1: "same_ring ch ?ch1" by (simp add: same_ring_def same_limits_def clear_draft_def)
  have c1: "chan_ok ?ch1"
    using ok ring_ok_same [OF ring ok1] draft_inv_clear False
    by (simp add: chan_ok_def) (simp add: clear_draft_def)
  show ?thesis
    by (rule exI, rule append_announces [OF ring c1 ok1 _ a])
      (simp_all add: apply_event_def make_event_def channel_view_def state_payload_def
         current_draft_def put_field_def clear_draft_def)
qed

definition error_encodable :: "(pystr \<times> json) list option \<Rightarrow> bool" where
  "error_encodable e = (case e of None \<Rightarrow> True | Some kvs \<Rightarrow> list_all (\<lambda>(_, v). json_encodable v) kvs)"

lemma safe_error_ok: "list_all (\<lambda>(_, v). json_encodable v) kvs \<Longrightarrow> json_encodable (JObj (safe_error kvs))"
proof -
  assume a: "list_all (\<lambda>(_, v). json_encodable v) kvs"
  have "json_encodable v" if "obj_get kvs k = Some v" for k v
    using a that by (auto simp: obj_get_def list_all_iff dest: map_of_SomeD)
  from this [of "lit ''error_code''"] this [of "lit ''error_message''"] show ?thesis
    by (auto simp: safe_error_def split: option.split json.split)
qed

lemma finish_announces:
  assumes ok: "chan_ok ch" and e: "error_encodable err" and res: "finish s err ch = (Inr (), ch')"
  shows "\<exists>evs. announces ch evs ch'"
proof (cases "ch_terminal ch")
  case True
  with res have "ch' = ch" by (auto simp: finish_def split: if_splits)
  with ok show ?thesis by (blast intro: announces_refl)
next
  case False
  have ring: "ring_ok ch" using ok by (simp add: chan_ok_def)
  let ?ch1 = "(clear_draft (ch\<lparr>ch_status := s\<rparr>))\<lparr>ch_terminal := True\<rparr>"
  let ?safe = "case err of None \<Rightarrow> [] | Some e \<Rightarrow> safe_error e"
  let ?p = "(lit ''status'', JStr (lit s)) # (if ?safe = [] then [] else [(lit ''public_error'', JObj ?safe)])"
  have s: "s \<in> final_statuses" and a: "append_locked ?ch1 ''terminal'' ?p = (Inr (), ch')"
    using res False by (auto simp: finish_def Let_def split: if_splits)
  have ok1: "same_ring ch ?ch1" by (simp add: same_ring_def same_limits_def clear_draft_def)
  have "draft_inv ?ch1" using draft_inv_clear [of "ch\<lparr>ch_status := s\<rparr>"] by (rule draft_inv_cong) simp_all
  then have c1: "chan_ok ?ch1"
    using ok ring_ok_same [OF ring ok1] s
    by (simp add: chan_ok_def) (simp add: clear_draft_def)
  have c2: "payload_ok ?p"
    using e safe_error_ok [of "the err"]
    by (cases err) (simp_all add: error_encodable_def)
  show ?thesis
    by (rule exI, rule append_announces [OF ring c1 ok1 c2 a])
      (simp_all add: apply_event_def make_event_def channel_view_def state_payload_def obj_get_def
         current_draft_def put_field_def clear_draft_def)
qed

lemma subscribers_announces:
  assumes ok: "chan_ok ch" and n: "0 \<le> n" "n \<le> ch_max_subscribers ch"
  shows "announces ch [] (ch\<lparr>ch_subscribers := n\<rparr>)"
proof -
  let ?ch' = "ch\<lparr>ch_subscribers := n\<rparr>"
  have ring: "ring_ok ch" and draft: "draft_inv ch" using ok by (simp_all add: chan_ok_def)
  have same: "same_ring ch ?ch'" by (simp add: same_ring_def same_limits_def)
  have "draft_inv ?ch'" using draft by (rule draft_inv_cong) simp_all
  then have "chan_ok ?ch'" using ok n ring_ok_same [OF ring same] by (simp add: chan_ok_def)
  moreover have "channel_view ?ch' = channel_view ch"
    by (simp add: channel_view_def state_payload_def current_draft_def)
  ultimately show ?thesis using published_same_ring [OF same] by (simp add: announces_def)
qed

lemma subscribe_announces:
  assumes ok: "chan_ok ch" and res: "subscribe ch = (r, ch')"
  shows "announces ch [] ch'"
proof -
  have "ch' = ch \<or> (ch' = ch\<lparr>ch_subscribers := ch_subscribers ch + 1\<rparr> \<and> ch_subscribers ch < ch_max_subscribers ch)"
    using res by (auto simp: subscribe_def Let_def split: if_splits sum.splits)
  moreover have "0 \<le> ch_subscribers ch" using ok by (simp add: chan_ok_def)
  ultimately show ?thesis
    using subscribers_announces [OF ok, of "ch_subscribers ch + 1"] announces_refl [OF ok] by auto
qed

lemma unsubscribe_announces:
  assumes ok: "chan_ok ch" and res: "unsubscribe ch = (r, ch')"
  shows "announces ch [] ch'"
proof -
  have "ch' = ch \<or> (ch' = ch\<lparr>ch_subscribers := ch_subscribers ch - 1\<rparr> \<and> 0 < ch_subscribers ch)"
    using res by (auto simp: unsubscribe_def split: if_splits)
  moreover have "ch_subscribers ch \<le> ch_max_subscribers ch" using ok by (simp add: chan_ok_def)
  ultimately show ?thesis
    using subscribers_announces [OF ok, of "ch_subscribers ch - 1"] announces_refl [OF ok] by auto
qed

section \<open>A text delta\<close>

fun delta_events ::
  "channel \<Rightarrow> string \<Rightarrow> int option \<Rightarrow> int \<Rightarrow> int \<Rightarrow> pystr list \<Rightarrow> event list" where
  "delta_events ch f i offset ordinal [] = []"
| "delta_events ch f i offset ordinal (c # cs) =
     make_event ch (ch_sequence ch + ordinal) ''text_delta'' (delta_payload f i offset c)
     # delta_events ch f i (offset + int (length c)) (ordinal + 1) cs"

lemma delta_payload_ok: "encodable c \<Longrightarrow> payload_ok (delta_payload f i offset c)"
  by (simp add: delta_payload_def index_json_def)

lemma fit_chunks_Inr:
  assumes "fit_chunks ch f i offset body limit = Inr chunks" and "1 \<le> limit"
  shows "concat chunks = body \<and> list_all (\<lambda>p. p \<noteq> []) chunks
       \<and> delta_events_fit ch f i offset 1 chunks = Inr True"
  using assms
proof (induction ch f i offset body limit rule: fit_chunks.induct)
  case (1 ch f i offset body limit)
  from 1(2) obtain cs fits where cs: "split_utf8 body limit = Inr cs"
    and fits: "delta_events_fit ch f i offset 1 cs = Inr fits"
    and rest: "(if fits then Inr cs else if limit \<le> 1 then Inl EventTooLarge
       else fit_chunks ch f i offset body (max 1 (limit div 2))) = Inr chunks"
    by (subst (asm) fit_chunks.simps) (auto simp: bindR_iffs)
  show ?case
  proof (cases fits)
    case True
    with rest fits split_utf8_Inr [OF cs] 1(3) show ?thesis by (auto simp: list_all_iff)
  next
    case False
    with rest have "\<not> limit \<le> 1" and "fit_chunks ch f i offset body (max 1 (limit div 2)) = Inr chunks"
      by (auto split: if_splits)
    with 1(1) [OF False] show ?thesis by simp
  qed
qed

lemma append_deltas_ok:
  assumes "ring_ok ch0" "same_limits ch ch0" "ch_generation ch0 = ch_generation ch"
    and "ch_sequence ch0 = ch_sequence ch + ordinal - 1"
    and "delta_events_fit ch f i offset ordinal chunks = Inr True"
    and "list_all encodable chunks"
  shows "\<exists>ch'. append_deltas f i offset chunks ch0 = (Inr (), ch') \<and> ring_ok ch'
     \<and> published ch0 (delta_events ch f i offset ordinal chunks) ch'
     \<and> ch' = ch0\<lparr>ch_sequence := ch_sequence ch', ch_ring := ch_ring ch', ch_ring_bytes := ch_ring_bytes ch'\<rparr>"
  using assms
proof (induction chunks arbitrary: ch0 offset ordinal)
  case Nil
  then show ?case by (simp add: published_refl)
next
  case (Cons c cs)
  let ?ev = "make_event ch (ch_sequence ch + ordinal) ''text_delta'' (delta_payload f i offset c)"
  have ev: "make_event ch0 (ch_sequence ch0 + 1) ''text_delta'' (delta_payload f i offset c) = ?ev"
    using Cons.prems by (simp add: make_event_def same_limits_def)
  from Cons.prems(5) obtain n where n: "event_size ?ev = Inr n" "n \<le> ch_max_bytes ch"
    and rest: "delta_events_fit ch f i (offset + int (length c)) (ordinal + 1) cs = Inr True"
    by (auto split: sum.splits if_splits)
  have p: "payload_ok (delta_payload f i offset c)" using Cons.prems(6) by (simp add: delta_payload_ok)
  obtain r ch1 where a: "append_locked ch0 ''text_delta'' (delta_payload f i offset c) = (r, ch1)" by fastforce
  have "r \<noteq> Inl EventTooLarge"
  proof -
    have "event_size (make_event (ch0\<lparr>ch_sequence := ch_sequence ch0 + 1\<rparr>) (ch_sequence ch0 + 1) ''text_delta''
        (delta_payload f i offset c)) = Inr n"
      using n ev by (simp add: make_event_def)
    moreover have "\<not> n > ch_max_bytes ch0" using n Cons.prems(2) by (simp add: same_limits_def)
    moreover have "ch_ring_bytes ch0 = sum_list (map snd (ch_ring ch0))" "1 \<le> ch_max_events ch0"
      using Cons.prems(1) by (simp_all add: ring_ok_def)
    ultimately show ?thesis
      using a evict_keeps_last [of "ch_max_events ch0" n "ch_max_bytes ch0" "ch_ring ch0" ?ev] ev
      by (auto simp: append_locked_def Let_def make_event_def split: sum.splits prod.splits)
  qed
  from append_locked_ok [OF Cons.prems(1) p a] this have r: "r = Inr ()" and ok1: "ring_ok ch1"
    and pub: "published ch0 [?ev] ch1"
    and ch1: "ch1 = ch0\<lparr>ch_sequence := ch_sequence ch0 + 1, ch_ring := ch_ring ch1, ch_ring_bytes := ch_ring_bytes ch1\<rparr>"
    by (auto simp: ev)
  have g1: "ch_generation ch1 = ch_generation ch" by (subst ch1) (simp add: Cons.prems(3))
  have s1: "ch_sequence ch1 = ch_sequence ch + (ordinal + 1) - 1"
    using pub Cons.prems(4) by (simp add: published_def)
  have l1: "same_limits ch ch1" using Cons.prems(2) pub by (simp add: same_limits_def published_def)
  have e1: "list_all encodable cs" using Cons.prems(6) by simp
  from Cons.IH [OF ok1 l1 g1 s1 rest e1] obtain ch' where ch':
    "append_deltas f i (offset + int (length c)) cs ch1 = (Inr (), ch')" "ring_ok ch'"
    "published ch1 (delta_events ch f i (offset + int (length c)) (ordinal + 1) cs) ch'"
    "ch' = ch1\<lparr>ch_sequence := ch_sequence ch', ch_ring := ch_ring ch', ch_ring_bytes := ch_ring_bytes ch'\<rparr>"
    by blast
  have "ch' = ch0\<lparr>ch_sequence := ch_sequence ch', ch_ring := ch_ring ch', ch_ring_bytes := ch_ring_bytes ch'\<rparr>"
    by (subst ch'(4), subst ch1) simp
  then show ?case
    using ch' a r published_trans [OF pub ch'(3)] by (intro exI [of _ ch']) simp
qed

lemma apply_text_delta_state:
  assumes R: "rendered ps d" "part_key_ok (f, i)" and off: "delta_offset (lit f) i d = offset"
    and v: "v = state_payload st (if d = [] then JNull else JObj d)" and g: "ch_generation st = ch_generation ch"
  shows "apply_event v (make_event ch n ''text_delta'' (delta_payload f i offset c))
     = state_payload st (JObj (apply_delta (lit f) i c d))"
proof -
  have vd: "view_draft v = d" by (simp add: v view_draft_def state_payload_def obj_get_def)
  have gg: "obj_get v (lit ''draft_generation'') = Some (JInt (ch_generation ch))"
    by (simp add: v state_payload_def obj_get_def g)
  have i': "(case obj_get (delta_payload f i offset c) (lit ''index'') of Some (JInt j) \<Rightarrow> Some j | _ \<Rightarrow> None) = i"
    by (cases i) (simp_all add: delta_payload_def obj_get_def index_json_def json_opt_def)
  have pf: "put_field (lit ''draft'') x v = state_payload st x" for x
    by (simp add: v put_field_def state_payload_def)
  show ?thesis
    using i' gg vd off pf
    by (simp add: apply_event_def apply_text_delta_def make_event_def)
      (simp add: delta_payload_def obj_get_def)
qed

lemma apply_delta_nonempty: "rendered ps d \<Longrightarrow> part_key_ok (f, i) \<Longrightarrow> no_gap ps (f, i) \<Longrightarrow>
    apply_delta (lit f) i c d \<noteq> []"
  using rendered_write [of ps d f i c] rendered_Nil_iff [of "write_part (f, i) c ps"]
  by (metis list.distinct(1) map_is_Nil_conv append_is_Nil_conv fst_write_part write_part_new option.exhaust
      fun_upd_same map_of_write_part map_of.simps(1) option.simps(3))

lemma replay_deltas:
  assumes "rendered ps d" "part_key_ok (f, i)" "no_gap ps (f, i)" "delta_offset (lit f) i d = offset"
    and "ch_generation st = ch_generation ch" "chunks \<noteq> []"
  shows "foldl apply_event (state_payload st (if d = [] then JNull else JObj d))
       (delta_events ch f i offset ordinal chunks)
     = state_payload st (JObj (apply_delta (lit f) i (concat chunks) d))"
  using assms
proof (induction chunks arbitrary: ps d offset ordinal)
  case (Cons c cs)
  let ?d = "apply_delta (lit f) i c d" and ?ps = "write_part (f, i) c ps"
  have step: "apply_event (state_payload st (if d = [] then JNull else JObj d))
      (make_event ch (ch_sequence ch + ordinal) ''text_delta'' (delta_payload f i offset c))
      = state_payload st (JObj ?d)"
    by (rule apply_text_delta_state [OF Cons.prems(1,2,4) refl Cons.prems(5)])
  show ?case
  proof (cases "cs = []")
    case True
    with step show ?thesis by simp
  next
    case False
    have R1: "rendered ?ps ?d" using Cons.prems by (intro rendered_write)
    have g1: "no_gap ?ps (f, i)" using Cons.prems by (intro no_gap_write)
    have o1: "delta_offset (lit f) i ?d = offset + int (length c)"
      using rendered_offset [OF R1 Cons.prems(2)] rendered_offset [OF Cons.prems(1,2)] Cons.prems(4)
      by (auto simp: map_of_write_part split: option.splits)
    have ne: "?d \<noteq> []" using Cons.prems by (intro apply_delta_nonempty)
    have "foldl apply_event (state_payload st (JObj ?d)) (delta_events ch f i (offset + int (length c)) (ordinal + 1) cs)
        = state_payload st (JObj (apply_delta (lit f) i (concat cs) ?d))"
      using Cons.IH [OF R1 Cons.prems(2) g1 o1 Cons.prems(5) False, of "ordinal + 1"] ne by simp
    also have "apply_delta (lit f) i (concat cs) ?d = apply_delta (lit f) i (concat (c # cs)) d"
      using apply_delta_append [OF Cons.prems(1-3)] by simp
    finally show ?thesis using step by simp
  qed
qed simp

lemma concat_encodable: "encodable (concat chunks) \<Longrightarrow> list_all encodable chunks"
  by (induction chunks) auto

lemma record_delta_inv:
  assumes inv: "draft_inv ch" and R: "rendered (ch_parts ch) d"
    and k: "part_key_ok (f, i)" and gap: "\<And>j. i = Some j \<Longrightarrow> j \<le> list_length ch f"
    and off: "part_length ch (f, i) = offset"
    and inc: "increment = draft_snapshot_increment f i (f \<in> ch_fields ch) (ch_fields ch \<noteq> {}) (list_length ch f) body"
    and size: "ch_snapshot_bytes ch + increment \<le> max_draft_bytes"
  shows "draft_inv (record_delta f i offset body increment ch)"
    and "no_gap (ch_parts ch) (f, i)" and "delta_offset (lit f) i d = offset"
    and "rendered (write_part (f, i) body (ch_parts ch)) (apply_delta (lit f) i body d)"
proof -
  let ?ps = "ch_parts ch" and ?ch1 = "record_delta f i offset body increment ch"
  have lens: "ch_lengths ch = (\<lambda>k. map_option (\<lambda>s. int (length s)) (map_of ?ps k))"
    and flds: "ch_fields ch = (fst \<circ> fst) ` set ?ps"
    and ll: "\<And>g ts. g \<in> list_fields \<Longrightarrow> field_texts ?ps g ts \<Longrightarrow> list_length ch g = int (length ts)"
    and sb: "ch_snapshot_bytes ch = draft_bytes d"
    using inv rendered_unique [OF R] by (auto simp: draft_inv_def)
  show ng: "no_gap ?ps (f, i)"
    unfolding no_gap_def
  proof (intro allI impI)
    fix j ts assume a: "snd (f, i) = Some j \<and> field_texts ?ps (fst (f, i)) ts"
    then have "i = Some j" "f \<in> list_fields" using k by auto
    with a gap [of j] ll [of f ts] show "j \<le> int (length ts)" by simp
  qed
  show "delta_offset (lit f) i d = offset"
    using rendered_offset [OF R k] off by (auto simp: part_length_def lens split: option.splits)
  show R1: "rendered (write_part (f, i) body ?ps) (apply_delta (lit f) i body d)"
    using R k ng by (rule rendered_write)
  have lens1: "ch_lengths ?ch1 = (\<lambda>k. map_option (\<lambda>s. int (length s)) (map_of (ch_parts ?ch1) k))"
    using off by (auto simp: record_delta_def lens map_of_write_part part_length_def fun_eq_iff split: option.splits)
  have flds1: "ch_fields ?ch1 = (fst \<circ> fst) ` set (ch_parts ?ch1)"
  proof -
    have img: "(fst \<circ> fst) ` set qs = fst ` set (map fst qs)" for qs :: "(part_key \<times> pystr) list"
      by (simp add: image_image)
    have "(fst \<circ> fst) ` set (write_part (f, i) body ?ps) = insert f ((fst \<circ> fst) ` set ?ps)"
    proof (cases "map_of ?ps (f, i)")
      case None
      then show ?thesis unfolding img fst_write_part by simp
    next
      case (Some s)
      then have "(f, i) \<in> set (map fst ?ps)" by (force dest: map_of_SomeD)
      then have "f \<in> fst ` set (map fst ?ps)" by force
      with Some show ?thesis unfolding img fst_write_part by (simp only: option.distinct if_False insert_absorb)
    qed
    then show ?thesis by (simp add: record_delta_def flds)
  qed
  have ll1: "list_length ?ch1 g = int (length us)"
    if g: "g \<in> list_fields" and us: "field_texts (ch_parts ?ch1) g us" for g us
  proof -
    from rendered_list [OF R g] obtain ts where ts: "field_texts ?ps g ts" by metis
    note lts = ll [OF g ts]
    show ?thesis
    proof (cases "g = f \<and> i \<noteq> None")
      case True
      then obtain j where i: "i = Some j" "0 \<le> j" using k by (cases i) auto
      have jle: "j \<le> int (length ts)" using gap [OF i(1)] lts True by simp
      show ?thesis
      proof (cases "j = int (length ts)")
        case True
        with field_texts_write_new [OF ts, of body] i us \<open>g = f \<and> i \<noteq> None\<close>
        have "us = ts @ [body]" using field_texts_unique by (auto simp: record_delta_def)
        with True i lts \<open>g = f \<and> i \<noteq> None\<close> show ?thesis by (simp add: record_delta_def list_length_def)
      next
        case False
        with jle i have "nat j < length ts" by linarith
        from field_texts_write_old [OF ts i(2) this, of body] us i \<open>g = f \<and> i \<noteq> None\<close>
        have "us = ts[nat j := ts ! nat j @ body]" using field_texts_unique by (auto simp: record_delta_def)
        with False i lts \<open>g = f \<and> i \<noteq> None\<close> show ?thesis
          by (auto simp: record_delta_def list_length_def)
      qed
    next
      case False
      then have "field_texts (write_part (f, i) body ?ps) g ts" using ts by (intro field_texts_write_other) auto
      then have "us = ts" using us field_texts_unique by (auto simp: record_delta_def)
      with lts False show ?thesis by (auto simp: record_delta_def list_length_def split: option.splits)
    qed
  qed
  have "ch_snapshot_bytes ?ch1 = draft_bytes (apply_delta (lit f) i body d)"
  proof -
    obtain ts where ts: "f \<in> list_fields \<Longrightarrow> field_texts ?ps f ts" "list_length ch f = int (length ts) \<or> f \<notin> list_fields"
      using rendered_list [OF R, of f] ll [of f] by metis
    show ?thesis
    proof (cases "f \<in> list_fields")
      case True
      with ts show ?thesis
        using snapshot_increment_exact [OF R k ng ts(1) _ flds, of "list_length ch f" body]
        by (simp add: record_delta_def inc sb)
    next
      case False
      then have "i = None" using k by (cases i) auto
      then have "draft_snapshot_increment f i b c n body = draft_snapshot_increment f i b c m body" for b c n m
        by (simp add: draft_snapshot_increment_def)
      then show ?thesis
        using snapshot_increment_exact [OF R k ng _ _ flds, of "[]" 0 body] False
        by (simp add: record_delta_def inc sb)
    qed
  qed
  moreover have "rendered (ch_parts ?ch1) (apply_delta (lit f) i body d)"
    using R1 by (simp add: record_delta_def)
  ultimately show "draft_inv ?ch1"
    using lens1 flds1 ll1 size unfolding draft_inv_def by (auto simp: record_delta_def)
qed

lemma target_index_ok: "f \<in> draft_fields \<Longrightarrow> target_index f idx = Inr i \<Longrightarrow> part_key_ok (f, i)"
  by (auto simp: target_index_def draft_fields_def split: pyint.splits if_splits)

text \<open>A text delta either fails and changes nothing, or is published completely.\<close>

lemma text_delta_cases:
  assumes ok: "chan_ok ch" and res: "text_delta f idx off body ch = (r, ch')"
  obtains e where "r = Inl e" "ch' = ch"
  | "r = Inr ()" "ch' = ch" "ch_terminal ch"
  | i offset chunks increment where "r = Inr ()" "\<not> ch_terminal ch" "off = PyInt offset"
      "target_index f idx = Inr i" "f \<in> draft_fields" "body \<noteq> []" "encodable body"
      "\<And>j. i = Some j \<Longrightarrow> j \<le> list_length ch f" "part_length ch (f, i) = offset"
      "increment = draft_snapshot_increment f i (f \<in> ch_fields ch) (ch_fields ch \<noteq> {}) (list_length ch f) body"
      "ch_snapshot_bytes ch + increment \<le> max_draft_bytes"
      "concat chunks = body" "chunks \<noteq> []" "ring_ok ch'"
      "published (record_delta f i offset body increment ch) (delta_events ch f i offset 1 chunks) ch'"
      "ch' = (record_delta f i offset body increment ch)\<lparr>ch_sequence := ch_sequence ch',
         ch_ring := ch_ring ch', ch_ring_bytes := ch_ring_bytes ch'\<rparr>"
proof -
  have ring: "ring_ok ch" using ok by (simp add: chan_ok_def)
  consider (err) e where "r = Inl e" "ch' = ch" | (fin) "r = Inr ()" "ch' = ch" "ch_terminal ch"
    | (go) i offset chunks where "\<not> ch_terminal ch" "off = PyInt offset" "target_index f idx = Inr i"
      "f \<in> draft_fields" "body \<noteq> []" "encodable body" "\<forall>j. i = Some j \<longrightarrow> j \<le> list_length ch f"
      "part_length ch (f, i) = offset"
      "ch_snapshot_bytes ch + draft_snapshot_increment f i (f \<in> ch_fields ch) (ch_fields ch \<noteq> {}) (list_length ch f) body
         \<le> max_draft_bytes"
      "fit_chunks ch f i offset body (min max_delta_bytes (ch_max_bytes ch)) = Inr chunks"
      "append_deltas f i offset chunks (record_delta f i offset body
         (draft_snapshot_increment f i (f \<in> ch_fields ch) (ch_fields ch \<noteq> {}) (list_length ch f) body) ch) = (r, ch')"
    using res unfolding text_delta_def
    by (auto simp: Let_def split: if_splits pyint.splits sum.splits option.splits)
  then show thesis
  proof cases
    case err
    then show ?thesis by (rule that(1))
  next
    case fin
    then show ?thesis by (rule that(2))
  next
    case go
    let ?inc = "draft_snapshot_increment f i (f \<in> ch_fields ch) (ch_fields ch \<noteq> {}) (list_length ch f) body"
    let ?ch1 = "record_delta f i offset body ?inc ch"
    have lim: "1 \<le> min max_delta_bytes (ch_max_bytes ch)"
      using ring by (simp add: ring_ok_def max_delta_bytes_def)
    note fc = fit_chunks_Inr [OF go(10) lim]
    have same: "same_ring ch ?ch1" by (simp add: same_ring_def same_limits_def record_delta_def)
    have enc: "list_all encodable chunks" using fc go(6) concat_encodable by blast
    have "ring_ok ?ch1" using ring_ok_same [OF ring same] .
    moreover have "same_limits ch ?ch1" "ch_generation ?ch1 = ch_generation ch" "ch_sequence ?ch1 = ch_sequence ch + 1 - 1"
      by (simp_all add: same_limits_def record_delta_def)
    ultimately obtain c2 where c2: "append_deltas f i offset chunks ?ch1 = (Inr (), c2)" "ring_ok c2"
      "published ?ch1 (delta_events ch f i offset 1 chunks) c2"
      "c2 = ?ch1\<lparr>ch_sequence := ch_sequence c2, ch_ring := ch_ring c2, ch_ring_bytes := ch_ring_bytes c2\<rparr>"
      using append_deltas_ok [of ?ch1 ch 1 f i offset chunks] fc enc by blast
    moreover have "r = Inr ()" "ch' = c2" using go(11) c2(1) by simp_all
    moreover have "chunks \<noteq> []" using fc go(5) by auto
    ultimately show ?thesis using go fc
      by (intro that(3) [of offset i ?inc chunks]) simp_all
  qed
qed

lemma text_delta_announces:
  assumes ok: "chan_ok ch" and res: "text_delta f idx off body ch = (r, ch')"
  shows "\<exists>evs. announces ch evs ch'"
  using ok res
proof (cases rule: text_delta_cases)
  case (1 e)
  with ok show ?thesis by (blast intro: announces_refl)
next
  case 2
  with ok show ?thesis by (blast intro: announces_refl)
next
  case (3 i offset chunks increment)
  let ?ch1 = "record_delta f i offset body increment ch"
  have inv: "draft_inv ch" and ring: "ring_ok ch" using ok by (simp_all add: chan_ok_def)
  obtain d where R: "rendered (ch_parts ch) d" using inv by (auto simp: draft_inv_def)
  have k: "part_key_ok (f, i)" using 3 by (intro target_index_ok)
  note rd = record_delta_inv [OF inv R k 3(8-11)]
  have same: "same_ring ch ?ch1" by (simp add: same_ring_def same_limits_def record_delta_def)
  have "chan_ok ?ch1"
    using ok ring_ok_same [OF ring same] rd(1) 3(2) by (simp add: chan_ok_def) (simp add: record_delta_def)
  then have ok': "chan_ok ch'" using chan_ok_ring 3(14,16) by metis
  have view: "channel_view ch = state_payload ch (if d = [] then JNull else JObj d)"
    using current_draft_rendered [OF R] by (simp add: channel_view_def)
  have ne: "apply_delta (lit f) i body d \<noteq> []" using R k rd(2) by (rule apply_delta_nonempty)
  have "rendered (ch_parts ?ch1) (apply_delta (lit f) i body d)" using rd(4) by (simp add: record_delta_def)
  from current_draft_rendered [OF this] ne
  have "channel_view ?ch1 = state_payload ch (JObj (apply_delta (lit f) i body d))"
    by (simp add: channel_view_def state_payload_def record_delta_def)
  moreover have "channel_view ch' = channel_view ?ch1" using channel_view_ring 3(16) by metis
  ultimately have "foldl apply_event (channel_view ch) (delta_events ch f i offset 1 chunks) = channel_view ch'"
    using replay_deltas [OF R k rd(2,3), of ch ch chunks 1] 3(12,13) view by simp
  moreover have "published ch (delta_events ch f i offset 1 chunks) ch'"
    using published_trans [OF published_same_ring [OF same] 3(15)] by simp
  ultimately show ?thesis using ok' by (auto simp: announces_def)
qed

end
