(* ===== verification/Events_Properties.thy ===== *)
theory Events_Properties
  imports Events_Run
begin

text \<open>
  The claims on the event channel: what a subscriber is guaranteed to see, the bounds of the ring
  and of the draft, that a text delta is published completely or not at all, and that a channel
  only moves forward to its terminal event.
\<close>

text \<open>
  A step is a call of any method of the channel with any arguments, accepted or refused. Left out are the
  two ways in which a refused call leaves a change behind without an event: \<open>set_status\<close> with
  \<open>''stopping''\<close> and no reason, and a progress, reset or terminal event larger than the whole buffer.
  Stop reasons and public errors are texts that UTF-8 can encode, as those of the callers are (a fixed
  vocabulary of reasons, codes and messages).
\<close>

inductive chan_step :: "channel \<Rightarrow> channel \<Rightarrow> bool" where
  cs_status: "set_status s reason ch = (r, ch') \<Longrightarrow> r \<notin> {Inl MissingStopReason, Inl EventTooLarge} \<Longrightarrow>
    (\<And>x. reason = Some x \<Longrightarrow> encodable x) \<Longrightarrow> chan_step ch ch'"
| cs_stage: "set_stage st ch = (r, ch') \<Longrightarrow> r \<noteq> Inl EventTooLarge \<Longrightarrow> chan_step ch ch'"
| cs_tasks: "set_task_progress c t ch = (r, ch') \<Longrightarrow> r \<noteq> Inl EventTooLarge \<Longrightarrow> chan_step ch ch'"
| cs_text: "text_delta f idx off body ch = (r, ch') \<Longrightarrow> chan_step ch ch'"
| cs_reset: "reset reason ch = (r, ch') \<Longrightarrow> r \<noteq> Inl EventTooLarge \<Longrightarrow> chan_step ch ch'"
| cs_finish: "finish s err ch = (r, ch') \<Longrightarrow> r \<noteq> Inl EventTooLarge \<Longrightarrow> error_encodable err \<Longrightarrow> chan_step ch ch'"
| cs_subscribe: "subscribe ch = (r2, ch') \<Longrightarrow> chan_step ch ch'"
| cs_unsubscribe: "unsubscribe ch = (r, ch') \<Longrightarrow> chan_step ch ch'"

inductive_cases chan_stepE: "chan_step ch ch'"

section \<open>Refused calls\<close>

lemma append_refused:
  assumes "ring_ok ch" and "payload_ok p" and "append_locked ch t p = (Inl e, ch')"
  shows "e = EventTooLarge"
  using append_locked_ok [OF assms] by auto

text \<open>Under the lock the ring is still the one of the state before.\<close>

lemma append_refused_after:
  assumes "chan_ok ch" and "same_ring ch ch1" and "payload_ok p" and "append_locked ch1 t p = (Inl e, ch')"
  shows "e = EventTooLarge"
  using append_refused [OF ring_ok_same [OF _ assms(2)] assms(3,4)] assms(1) by (simp add: chan_ok_def)

lemma set_status_refused:
  assumes ok: "chan_ok ch" and r: "\<And>x. reason = Some x \<Longrightarrow> encodable x"
    and res: "set_status s reason ch = (Inl e, ch')" and e: "e \<notin> {MissingStopReason, EventTooLarge}"
  shows "ch' = ch"
proof (rule ccontr)
  assume "ch' \<noteq> ch"
  with res e obtain ch1 p where "append_locked ch1 ''progress'' p = (Inl e, ch')" and "same_ring ch ch1" and "payload_ok p"
    by (auto simp: set_status_def Let_def same_ring_def same_limits_def r split: if_splits option.splits)
  with append_refused_after [OF ok] e show False by blast
qed

lemma set_stage_refused:
  assumes ok: "chan_ok ch" and res: "set_stage st ch = (Inl e, ch')" and e: "e \<noteq> EventTooLarge"
  shows "ch' = ch"
proof (rule ccontr)
  assume "ch' \<noteq> ch"
  with res obtain ch1 p where "append_locked ch1 ''progress'' p = (Inl e, ch')" and "same_ring ch ch1" and "payload_ok p"
    by (auto simp: set_stage_def Let_def same_ring_def same_limits_def progress_payload_def split: if_splits)
  with append_refused_after [OF ok] e show False by blast
qed

lemma set_task_progress_refused:
  assumes ok: "chan_ok ch" and res: "set_task_progress c t ch = (Inl e, ch')" and e: "e \<noteq> EventTooLarge"
  shows "ch' = ch"
proof (rule ccontr)
  assume "ch' \<noteq> ch"
  with res obtain ch1 p where "append_locked ch1 ''progress'' p = (Inl e, ch')" and "same_ring ch ch1" and "payload_ok p"
    by (auto simp: set_task_progress_def Let_def same_ring_def same_limits_def progress_payload_def
        split: if_splits pyint.splits)
  with append_refused_after [OF ok] e show False by blast
qed

lemma reset_refused:
  assumes ok: "chan_ok ch" and res: "reset reason ch = (Inl e, ch')" and e: "e \<noteq> EventTooLarge"
  shows "ch' = ch"
proof (rule ccontr)
  assume "ch' \<noteq> ch"
  with res obtain ch1 p where "append_locked ch1 ''draft_reset'' p = (Inl e, ch')" and "same_ring ch ch1" and "payload_ok p"
    by (auto simp: reset_def clear_draft_def same_ring_def same_limits_def split: if_splits)
  with append_refused_after [OF ok] e show False by blast
qed

lemma finish_refused:
  assumes ok: "chan_ok ch" and err: "error_encodable err" and res: "finish s err ch = (Inl e, ch')"
    and e: "e \<noteq> EventTooLarge"
  shows "ch' = ch"
proof (rule ccontr)
  have safe: "json_encodable (JObj (case err of None \<Rightarrow> [] | Some e \<Rightarrow> safe_error e))"
    using err by (auto simp: error_encodable_def intro: safe_error_ok [simplified] split: option.splits)
  assume "ch' \<noteq> ch"
  with res safe obtain ch1 p where "append_locked ch1 ''terminal'' p = (Inl e, ch')" and "same_ring ch ch1" and "payload_ok p"
    by (auto simp: finish_def Let_def clear_draft_def same_ring_def same_limits_def split: if_splits)
  with append_refused_after [OF ok] e show False by blast
qed

lemma refused_announces: "chan_ok ch \<Longrightarrow> ch' = ch \<Longrightarrow> \<exists>evs. announces ch evs ch'"
  by (blast intro: announces_refl)

lemma chan_step_announces: "chan_step ch ch' \<Longrightarrow> chan_ok ch \<Longrightarrow> \<exists>evs. announces ch evs ch'"
proof (induction rule: chan_step.induct)
  case (cs_status s reason ch r ch')
  show ?case
  proof (cases r)
    case (Inl e)
    with cs_status show ?thesis by (intro refused_announces set_status_refused) auto
  next
    case (Inr u)
    with cs_status show ?thesis by (intro set_status_announces) auto
  qed
next
  case (cs_stage st ch r ch')
  show ?case
  proof (cases r)
    case (Inl e)
    with cs_stage show ?thesis by (intro refused_announces set_stage_refused) auto
  next
    case (Inr u)
    with cs_stage show ?thesis by (intro set_stage_announces) auto
  qed
next
  case (cs_tasks c t ch r ch')
  show ?case
  proof (cases r)
    case (Inl e)
    with cs_tasks show ?thesis by (intro refused_announces set_task_progress_refused) auto
  next
    case (Inr u)
    with cs_tasks show ?thesis by (intro set_task_progress_announces) auto
  qed
next
  case (cs_reset reason ch r ch')
  show ?case
  proof (cases r)
    case (Inl e)
    with cs_reset show ?thesis by (intro refused_announces reset_refused) auto
  next
    case (Inr u)
    with cs_reset show ?thesis by (intro reset_announces) auto
  qed
next
  case (cs_finish s err ch r ch')
  show ?case
  proof (cases r)
    case (Inl e)
    with cs_finish show ?thesis by (intro refused_announces finish_refused) auto
  next
    case (Inr u)
    with cs_finish show ?thesis by (intro finish_announces) auto
  qed
qed (blast intro: text_delta_announces subscribe_announces unsubscribe_announces)+

lemma chan_steps_announce: "chan_step\<^sup>*\<^sup>* ch ch' \<Longrightarrow> chan_ok ch \<Longrightarrow> \<exists>evs. announces ch evs ch'"
proof (induction rule: rtranclp_induct)
  case (step y z)
  then obtain xs where xs: "announces ch xs y" by blast
  then have "chan_ok y" by (simp add: announces_def)
  with step(2) obtain ys where "announces y ys z" using chan_step_announces by blast
  with xs show ?case by (blast intro: announces_trans)
qed (blast intro: announces_refl)

lemma chan_steps_ok: "chan_step\<^sup>*\<^sup>* ch ch' \<Longrightarrow> chan_ok ch \<Longrightarrow> chan_ok ch'"
  using chan_steps_announce by (auto simp: announces_def)

lemma new_channel_ok:
  assumes "new_channel x h t s r me mb ms = Inr ch" "encodable x" "encodable h" "encodable t"
    "s \<in> running_statuses \<union> final_statuses"
  shows "chan_ok ch"
proof -
  from assms(1) have lim: "1 \<le> me" "1 \<le> mb" "1 \<le> ms" and ch: "ch = \<lparr>ch_execution = x, ch_history = h, ch_turn = t, ch_max_events = me,
                ch_max_bytes = mb, ch_max_subscribers = ms, ch_sequence = 0,
                ch_status = s, ch_stage = None, ch_completed = 0, ch_total = None,
                ch_stop_reason = r, ch_generation = 0, ch_parts = [], ch_lengths = Map.empty,
                ch_list_lengths = Map.empty, ch_fields = {}, ch_draft_bytes = 0,
                ch_snapshot_bytes = 2, ch_ring = [], ch_ring_bytes = 0, ch_subscribers = 0,
                ch_terminal = (s \<in> final_statuses)\<rparr>"
    by (auto simp: new_channel_def split: if_splits)
  have "draft_inv ch" using draft_inv_clear [of ch] by (rule draft_inv_cong) (simp_all add: ch clear_draft_def)
  with assms(2-5) lim show ?thesis
    by (auto simp: chan_ok_def ring_ok_def ids_ok_def ring_seqs_def ch)
qed

definition demo_channel :: channel where
  "demo_channel = \<lparr>ch_execution = [120], ch_history = [104], ch_turn = [116], ch_max_events = 64,
     ch_max_bytes = 1048576, ch_max_subscribers = 8, ch_sequence = 0, ch_status = ''running'',
     ch_stage = None, ch_completed = 0, ch_total = None, ch_stop_reason = None, ch_generation = 0,
     ch_parts = [], ch_lengths = Map.empty, ch_list_lengths = Map.empty, ch_fields = {},
     ch_draft_bytes = 0, ch_snapshot_bytes = 2, ch_ring = [], ch_ring_bytes = 0, ch_subscribers = 0,
     ch_terminal = False\<rparr>"

lemma demo_channel_ok: "chan_ok demo_channel"
proof (rule new_channel_ok)
  show "new_channel [120] [104] [116] ''running'' None 64 1048576 8 = Inr demo_channel"
    by (simp add: new_channel_def demo_channel_def final_statuses_def)
qed (simp_all add: running_statuses_def)

section \<open>Subscribers\<close>

text \<open>C24: A subscriber never misses a published change: whatever calls the channel has taken since the
  state the subscriber holds (a snapshot, or where its last read left it), accepted or refused, its next
  read returns events that turn exactly that state into the channel's current state, and leaves its
  cursor at the channel's sequence number. If the events it needs were already evicted from the ring it
  gets a fresh snapshot instead. Two kinds of refused calls are excepted, because they change the state
  and publish nothing: a \<open>set_status\<close> with \<open>stopping\<close> and no reason, and a progress, reset or terminal
  event that does not fit into the whole buffer. Stop reasons and public errors are texts UTF-8 can encode.\<close>

theorem subscriber_catches_up:
  assumes ok: "chan_ok ch" and later: "chan_step\<^sup>*\<^sup>* ch ch'"
  shows "\<exists>events. read_after ch' (ch_sequence ch) = Inr (events, ch_sequence ch')
           \<and> foldl apply_event (channel_view ch) events = channel_view ch'"
proof -
  obtain evs where a: "published ch evs ch'" "chan_ok ch'" "foldl apply_event (channel_view ch) evs = channel_view ch'"
    using chan_steps_announce [OF later ok] by (auto simp: announces_def)
  have ring: "ring_ok ch'" and draft: "draft_inv ch'" and s0: "0 \<le> ch_sequence ch"
    using a(2) ok by (simp_all add: chan_ok_def ring_ok_def)
  from read_published [OF ring a(1) s0] show ?thesis
  proof
    assume "read_after ch' (ch_sequence ch) = Inr (evs, ch_sequence ch')"
    with a(3) show ?thesis by blast
  next
    assume "evs \<noteq> [] \<and> read_after ch' (ch_sequence ch) = bindR (snapshot_event ch') (\<lambda>s. Inr ([s], ev_sequence s))"
    then show ?thesis
      using snapshot_event_view [OF draft] by (simp add: make_event_def apply_event_def)
  qed
qed

definition demo_after :: channel where
  "demo_after = snd (set_stage ''retrieval'' demo_channel)"

lemma demo_after_step: "chan_step demo_channel demo_after"
proof -
  have "set_stage ''retrieval'' demo_channel = (Inr (), demo_after)"
    by (simp add: demo_after_def set_stage_def append_locked_def demo_channel_def public_stages_def
        Let_def event_size_def encoded_size_def event_json_def make_event_def progress_payload_def
        json_opt_def quote_def lit_def escape_def escape_char_def int_text_def nat_text.simps evict.simps)
  then show ?thesis by (rule cs_stage) simp
qed

lemma demo_after_steps: "chan_step\<^sup>*\<^sup>* demo_channel demo_after"
  using demo_after_step by (rule r_into_rtranclp)

lemma subscriber_catches_up_witness:
  "\<exists>events. read_after demo_after 0 = Inr (events, ch_sequence demo_after)
     \<and> foldl apply_event (channel_view demo_channel) events = channel_view demo_after"
  using subscriber_catches_up [OF demo_channel_ok demo_after_steps]
  by (simp add: demo_channel_def)

text \<open>The first exception on a concrete channel: the refused call leaves the status changed, and nothing
  is published that would tell a subscriber.\<close>

lemma refused_stop_is_silent:
  "case set_status ''stopping'' None demo_channel of (r, ch') \<Rightarrow>
     r = Inl MissingStopReason \<and> read_after ch' (ch_sequence demo_channel) = Inr ([], ch_sequence demo_channel)
     \<and> channel_view ch' \<noteq> channel_view demo_channel"
  by (simp add: set_status_def running_statuses_def status_order_def demo_channel_def read_after_def
      channel_view_def state_payload_def)

text \<open>The shared buffer is bounded and truthful: in every reachable state the ring holds at most
  \<open>max_events\<close> events and \<open>max_bytes\<close> bytes, the byte count is the sum of the serialised sizes of
  the events it holds, and their numbers run without a gap up to the channel's sequence number.\<close>

theorem ring_is_bounded:
  assumes ok: "chan_ok ch" and later: "chan_step\<^sup>*\<^sup>* ch ch'"
  shows "int (length (ch_ring ch')) \<le> ch_max_events ch' \<and> ch_ring_bytes ch' \<le> ch_max_bytes ch'
       \<and> map (\<lambda>(ev, _). event_size ev) (ch_ring ch') = map (\<lambda>(_, n). Inr n) (ch_ring ch')
       \<and> ch_ring_bytes ch' = sum_list (map snd (ch_ring ch'))
       \<and> map (ev_sequence \<circ> fst) (ch_ring ch') =
           [ch_sequence ch' - int (length (ch_ring ch')) + 1 .. ch_sequence ch']"
  using chan_steps_ok [OF later ok] by (auto simp: chan_ok_def ring_ok_def ring_seqs_def)

lemma ring_is_bounded_witness:
  "map (ev_sequence \<circ> fst) (ch_ring demo_after) =
     [ch_sequence demo_after - int (length (ch_ring demo_after)) + 1 .. ch_sequence demo_after]"
  using ring_is_bounded [OF demo_channel_ok demo_after_steps] by blast

text \<open>The incremental byte account of the report draft is exact: in every reachable state
  \<open>_draft_snapshot_bytes\<close> is the number of UTF-8 bytes of the serialised draft (2 for the empty
  draft), never above the public limit, and the draft can always be rendered.\<close>

theorem draft_account_is_exact:
  assumes ok: "chan_ok ch" and later: "chan_step\<^sup>*\<^sup>* ch ch'"
  shows "\<exists>d. current_draft ch' = Inr (if d = [] then JNull else JObj d)
           \<and> ch_snapshot_bytes ch' = int (utf8_len (dumps (JObj d)))
           \<and> ch_snapshot_bytes ch' \<le> max_draft_bytes"
proof -
  have inv: "draft_inv ch'" using chan_steps_ok [OF later ok] by (simp add: chan_ok_def)
  then obtain d where d: "rendered (ch_parts ch') d" "ch_snapshot_bytes ch' = draft_bytes d"
    by (auto simp: draft_inv_def)
  show ?thesis
    using current_draft_rendered [OF d(1)] d(2) inv
    by (intro exI [of _ d]) (simp add: draft_bytes_def draft_inv_def)
qed

lemma draft_account_is_exact_witness:
  "\<exists>d. current_draft demo_after = Inr (if d = [] then JNull else JObj d)
      \<and> ch_snapshot_bytes demo_after = int (utf8_len (dumps (JObj d)))"
  using draft_account_is_exact [OF demo_channel_ok demo_after_steps] by blast

section \<open>Text deltas\<close>

text \<open>A text delta is all or nothing. If it is refused, the channel is exactly as before. If it is
  accepted on a live channel, the draft has precisely this text appended at this field and index, and
  the events published for it carry the text unchanged, in order, each within the event size limit.\<close>

theorem text_delta_all_or_nothing:
  assumes ok: "chan_ok ch" and res: "text_delta f idx off body ch = (r, ch')"
  shows "(\<forall>e. r = Inl e \<longrightarrow> ch' = ch)
       \<and> (r = Inr () \<and> \<not> ch_terminal ch \<longrightarrow>
            (\<exists>i chunks. target_index f idx = Inr i
               \<and> view_draft (channel_view ch') = apply_delta (lit f) i body (view_draft (channel_view ch))
               \<and> concat chunks = body
               \<and> published ch (delta_events ch f i (part_length ch (f, i)) 1 chunks) ch'
               \<and> ring_ok ch'))"
  using ok res
proof (cases rule: text_delta_cases)
  case (3 i offset chunks increment)
  let ?ch1 = "record_delta f i offset body increment ch"
  have inv: "draft_inv ch" using ok by (simp add: chan_ok_def)
  obtain d where R: "rendered (ch_parts ch) d" using inv by (auto simp: draft_inv_def)
  note rd = record_delta_inv [OF inv R target_index_ok [OF 3(5,4)] 3(8-11)]
  have "ch_parts ch' = write_part (f, i) body (ch_parts ch)" by (subst 3(16)) (simp add: record_delta_def)
  then have "view_draft (channel_view ch') = apply_delta (lit f) i body d"
    using view_draft_channel [of ch' "apply_delta (lit f) i body d"] rd(4) by simp
  moreover have "view_draft (channel_view ch) = d" using view_draft_channel [OF R] .
  moreover have "published ch (delta_events ch f i offset 1 chunks) ch'"
  proof -
    have "same_ring ch ?ch1" by (simp add: same_ring_def same_limits_def record_delta_def)
    from published_trans [OF published_same_ring [OF this] 3(15)] show ?thesis by simp
  qed
  ultimately have "\<exists>i chunks. target_index f idx = Inr i
               \<and> view_draft (channel_view ch') = apply_delta (lit f) i body (view_draft (channel_view ch))
               \<and> concat chunks = body
               \<and> published ch (delta_events ch f i (part_length ch (f, i)) 1 chunks) ch' \<and> ring_ok ch'"
    using 3 by (intro exI [of _ i] exI [of _ chunks]) simp
  with 3(1) show ?thesis by auto
qed simp_all

lemma text_delta_all_or_nothing_witness:
  "snd (text_delta ''title'' PyNone (PyInt 5) [65] demo_channel) = demo_channel"
proof -
  have "text_delta ''title'' PyNone (PyInt 5) [65] demo_channel = (Inl OffsetMismatch, demo_channel)"
    by (simp add: text_delta_def draft_fields_def text_fields_def target_index_def demo_channel_def
        is_surrogate_def part_length_def)
  from text_delta_all_or_nothing [OF demo_channel_ok this] show ?thesis
    using \<open>text_delta _ _ _ _ _ = _\<close> by simp
qed

text \<open>Splitting a text into event-sized pieces loses and reorders nothing: whenever no character
  exceeds the limit the split succeeds, the pieces joined are the text, and every piece is non-empty
  and at most \<open>max_bytes\<close> UTF-8 bytes long, so characters are never cut.\<close>

theorem split_utf8_lossless:
  assumes "encodable body" and "4 \<le> max_bytes"
  shows "\<exists>chunks. split_utf8 body max_bytes = Inr chunks \<and> concat chunks = body
           \<and> (\<forall>c \<in> set chunks. c \<noteq> [] \<and> int (utf8_len c) \<le> max_bytes)"
proof -
  obtain chunks where c: "split_utf8 body max_bytes = Inr chunks"
    using split_loop_total [OF assms, of "[]" "[]" 0] by (auto simp: split_utf8_def)
  have "0 \<le> max_bytes" using assms(2) by simp
  from split_utf8_Inr [OF c this] c show ?thesis by (auto simp: list_all_iff)
qed

lemma split_utf8_lossless_witness:
  "\<exists>chunks. split_utf8 [20320, 22909, 97] 4 = Inr chunks \<and> concat chunks = [20320, 22909, 97]"
proof -
  have "encodable [20320, 22909, 97]" by (simp add: is_surrogate_def)
  from split_utf8_lossless [OF this, of 4] show ?thesis by auto
qed

section \<open>The way to the terminal event\<close>

definition status_rank :: "string \<Rightarrow> int" where
  "status_rank s = (case status_order s of Some n \<Rightarrow> n | None \<Rightarrow> 3)"

lemma append_locked_state:
  "append_locked ch t p = (r, ch') \<Longrightarrow> ch_status ch' = ch_status ch \<and> ch_terminal ch' = ch_terminal ch
     \<and> ch_parts ch' = ch_parts ch \<and> ch_generation ch' = ch_generation ch"
  by (auto simp: append_locked_def Let_def split: sum.splits if_splits)

lemma append_deltas_state:
  "append_deltas f i off cs ch = (r, ch') \<Longrightarrow> ch_status ch' = ch_status ch \<and> ch_terminal ch' = ch_terminal ch"
  by (induction f i off cs ch rule: append_deltas.induct)
    (auto split: sum.splits prod.splits dest: append_locked_state)

lemma chan_step_forward:
  "chan_step ch ch' \<Longrightarrow> chan_ok ch \<Longrightarrow>
     (ch_terminal ch \<longrightarrow> ch_terminal ch' \<and> ch_status ch' = ch_status ch \<and> ch_sequence ch' = ch_sequence ch
        \<and> channel_view ch' = channel_view ch)
     \<and> (\<not> ch_terminal ch \<longrightarrow> status_rank (ch_status ch) \<le> status_rank (ch_status ch'))"
proof (induction rule: chan_step.induct)
  case (cs_status s reason ch r ch')
  then show ?case
    by (auto simp: set_status_def Let_def status_rank_def split: if_splits option.splits dest!: append_locked_state)
next
  case (cs_stage st ch r ch')
  then show ?case by (auto simp: set_stage_def Let_def split: if_splits dest!: append_locked_state)
next
  case (cs_tasks c t ch r ch')
  then show ?case
    by (auto simp: set_task_progress_def Let_def split: if_splits pyint.splits dest!: append_locked_state)
next
  case (cs_text f idx off body ch r ch')
  from cs_text(2,1) show ?case
  proof (cases rule: text_delta_cases)
    case (3 i offset chunks increment)
    have "ch_status ch' = ch_status ch" by (subst 3(16)) (simp add: record_delta_def)
    with 3(2) show ?thesis by simp
  qed simp_all
next
  case (cs_reset reason ch r ch')
  then show ?case
    by (auto simp: reset_def clear_draft_def split: if_splits dest!: append_locked_state)
next
  case (cs_finish s err ch r ch')
  have "status_rank (ch_status ch) \<le> 3" if "\<not> ch_terminal ch" for ch
    by (simp add: status_rank_def status_order_def)
  moreover have "status_rank s = 3" if "s \<in> final_statuses"
    using that by (auto simp: status_rank_def status_order_def final_statuses_def)
  ultimately show ?case using cs_finish
    by (auto simp: finish_def Let_def clear_draft_def split: if_splits dest!: append_locked_state)
next
  case (cs_subscribe ch r2 ch')
  then have "ch' = ch \<or> ch' = ch\<lparr>ch_subscribers := ch_subscribers ch + 1\<rparr>"
    by (auto simp: subscribe_def Let_def split: if_splits sum.splits)
  then show ?case by (auto simp: channel_view_def state_payload_def current_draft_def)
next
  case (cs_unsubscribe ch r ch')
  then have "ch' = ch \<or> ch' = ch\<lparr>ch_subscribers := ch_subscribers ch - 1\<rparr>"
    by (auto simp: unsubscribe_def split: if_splits)
  then show ?case by (auto simp: channel_view_def state_payload_def current_draft_def)
qed

text \<open>A channel only moves forward: its status never goes back (accepted, running, stopping, then
  one final status), and after the terminal event nothing is published any more; the final status and
  everything a subscriber sees stay as they are.\<close>

theorem channel_moves_forward:
  assumes ok: "chan_ok ch" and later: "chan_step\<^sup>*\<^sup>* ch ch'"
  shows "status_rank (ch_status ch) \<le> status_rank (ch_status ch')
       \<and> (ch_terminal ch \<longrightarrow> ch_terminal ch' \<and> ch_status ch' = ch_status ch
            \<and> ch_sequence ch' = ch_sequence ch \<and> channel_view ch' = channel_view ch)"
  using later
proof (induction rule: rtranclp_induct)
  case (step y z)
  have "chan_ok y" using chan_steps_ok [OF step(1) ok] .
  from chan_step_forward [OF step(2) this] step(3) show ?case by (cases "ch_terminal y") auto
qed simp

lemma channel_moves_forward_witness:
  "status_rank (ch_status demo_channel) \<le> status_rank (ch_status demo_after)"
  using channel_moves_forward [OF demo_channel_ok demo_after_steps] by blast

end
