(* ===== verification/Report_Stream.thy ===== *)
theory Report_Stream
  imports Json
begin

text \<open>
  The incremental JSON decoder of \<open>business_analysis/report_stream.py\<close>: a character-level state
  machine that reads the report a model streams and hands out, as they arrive, the characters of the
  six public fields. A method is a function from the decoder to the decoder or the exception it
  raises; \<open>reporting.py\<close> discards the decoder at the first exception, so no state is kept for it.
\<close>

section \<open>State\<close>

definition report_text_fields :: "pystr set" where
  "report_text_fields = {lit ''title'', lit ''executive_summary'', lit ''trend_judgment''}"

definition report_list_fields :: "pystr set" where
  "report_list_fields = {lit ''key_findings'', lit ''root_causes'', lit ''action_suggestions''}"

definition report_draft_fields :: "pystr set" where
  "report_draft_fields = report_text_fields \<union> report_list_fields"

record report_text_delta =
  rd_field :: pystr
  rd_index :: "nat option"
  rd_offset :: nat
  rd_text :: pystr

datatype frame_kind = ObjectFrame | ArrayFrame

datatype frame_state =
  KeyOrEnd | KeyRequired | ExpectColon | ExpectValue | ValueOrEnd | ValueRequired | CommaOrEnd

record frame =
  fr_kind :: frame_kind
  fr_state :: frame_state
  fr_root :: bool
  fr_keys :: "pystr set"
  fr_current_key :: "pystr option"
  fr_draft_field :: "pystr option"
  fr_item_count :: nat

datatype string_role = KeyString | ValueString

datatype expected_low = ExpectSlash | ExpectU

record string_token =
  st_role :: string_role
  st_field :: "pystr option"
  st_index :: "nat option"
  st_key_parts :: pystr
  st_escaped :: bool
  st_digits :: "pystr option"
  st_high :: "nat option"
  st_low :: "expected_low option"

record delta_builder =
  bd_field :: pystr
  bd_index :: "nat option"
  bd_offset :: nat
  bd_text :: pystr
  bd_length :: nat

record decoder =
  dc_max :: nat
  dc_stack :: "frame list"
  dc_started :: bool
  dc_complete :: bool
  dc_string :: "string_token option"
  dc_primitive :: "pystr option"
  dc_lengths :: "(pystr \<times> nat option) \<rightharpoonup> nat"
  dc_bytes :: nat
  dc_deltas :: "delta_builder list"
  dc_finished :: bool

datatype report_error =
    InvalidDraftLimit | DecoderFinished | FinishedTwice | ReportIncomplete | TrailingContent
  | RootNotObject | BadObjectKey | MissingColon | BadObjectSeparator | BadObjectState
  | BadArraySeparator | BadArrayState | BadObjectValuePosition | BadArrayValuePosition | BadValue
  | SurrogatePairIncomplete | BadUnicodeEscape | BadSurrogatePair | LoneLowSurrogate
  | BadEscape | BadStringChar | DraftOverLimit | UnicodeEscapeIncomplete | DuplicateKey
  | BadPrimitive | ObjectIncomplete | ArrayIncomplete

text \<open>The stack's top frame is the head of \<open>dc_stack\<close>.\<close>

definition new_frame :: "frame_kind \<Rightarrow> frame_state \<Rightarrow> frame" where
  "new_frame k s = \<lparr>fr_kind = k, fr_state = s, fr_root = False, fr_keys = {}, fr_current_key = None,
     fr_draft_field = None, fr_item_count = 0\<rparr>"

definition new_string :: "string_role \<Rightarrow> string_token" where
  "new_string r = \<lparr>st_role = r, st_field = None, st_index = None, st_key_parts = [],
     st_escaped = False, st_digits = None, st_high = None, st_low = None\<rparr>"

definition new_decoder :: "int \<Rightarrow> report_error + decoder" where
  "new_decoder max_draft =
     (if max_draft < 1 then Inl InvalidDraftLimit
      else Inr \<lparr>dc_max = nat max_draft, dc_stack = [], dc_started = False, dc_complete = False,
                dc_string = None, dc_primitive = None, dc_lengths = Map.empty, dc_bytes = 0,
                dc_deltas = [], dc_finished = False\<rparr>)"

section \<open>Values, containers\<close>

definition set_top :: "frame \<Rightarrow> decoder \<Rightarrow> decoder" where
  "set_top f d = d\<lparr>dc_stack := f # tl (dc_stack d)\<rparr>"

definition complete_frame :: "frame \<Rightarrow> report_error + frame" where
  "complete_frame f =
     (case fr_kind f of
        ObjectFrame \<Rightarrow>
          if fr_state f \<noteq> ExpectValue then Inl BadObjectState
          else Inr (f\<lparr>fr_state := CommaOrEnd, fr_current_key := None\<rparr>)
      | ArrayFrame \<Rightarrow>
          if fr_state f \<notin> {ValueOrEnd, ValueRequired} then Inl BadArrayState
          else Inr (f\<lparr>fr_state := CommaOrEnd, fr_item_count := fr_item_count f + 1\<rparr>))"

definition complete_value :: "decoder \<Rightarrow> report_error + decoder" where
  "complete_value d = bindR (complete_frame (hd (dc_stack d))) (\<lambda>f. Inr (set_top f d))"

definition close_container :: "decoder \<Rightarrow> report_error + decoder" where
  "close_container d =
     (let f = hd (dc_stack d) in
      if fr_kind f = ObjectFrame \<and> fr_state f \<notin> {KeyOrEnd, CommaOrEnd} then Inl ObjectIncomplete
      else if fr_kind f = ArrayFrame \<and> fr_state f \<notin> {ValueOrEnd, CommaOrEnd} then Inl ArrayIncomplete
      else let d1 = d\<lparr>dc_stack := tl (dc_stack d)\<rparr> in
        if dc_stack d1 = [] then Inr (d1\<lparr>dc_complete := True\<rparr>) else complete_value d1)"

definition push_frame :: "frame \<Rightarrow> decoder \<Rightarrow> decoder" where
  "push_frame f d = d\<lparr>dc_stack := f # dc_stack d\<rparr>"

definition primitive_start :: "nat \<Rightarrow> bool" where
  "primitive_start c \<longleftrightarrow> c \<in> set (lit ''-0123456789tfn'')"

definition start_primitive :: "decoder \<Rightarrow> nat \<Rightarrow> report_error + decoder" where
  "start_primitive d c =
     (if primitive_start c then Inr (d\<lparr>dc_primitive := Some [c]\<rparr>) else Inl BadValue)"

definition start_value :: "decoder \<Rightarrow> nat \<Rightarrow> report_error + decoder" where
  "start_value d c =
     (let p = hd (dc_stack d) in
      case fr_kind p of
        ObjectFrame \<Rightarrow>
          if fr_state p \<noteq> ExpectValue then Inl BadObjectValuePosition
          else
            let root_field = (if fr_root p then fr_current_key p else None) in
            if c = 34 then
              Inr (d\<lparr>dc_string := Some ((new_string ValueString)
                \<lparr>st_field := (case root_field of
                    Some k \<Rightarrow> if k \<in> report_text_fields then Some k else None
                  | None \<Rightarrow> None)\<rparr>)\<rparr>)
            else if c = 123 then Inr (push_frame (new_frame ObjectFrame KeyOrEnd) d)
            else if c = 91 then
              Inr (push_frame ((new_frame ArrayFrame ValueOrEnd)
                \<lparr>fr_draft_field := (case root_field of
                    Some k \<Rightarrow> if k \<in> report_list_fields then Some k else None
                  | None \<Rightarrow> None)\<rparr>) d)
            else start_primitive d c
      | ArrayFrame \<Rightarrow>
          if fr_state p \<notin> {ValueOrEnd, ValueRequired} then Inl BadArrayValuePosition
          else if c = 34 then
            Inr (d\<lparr>dc_string := Some ((new_string ValueString)
              \<lparr>st_field := fr_draft_field p,
               st_index := (if fr_draft_field p \<noteq> None then Some (fr_item_count p) else None)\<rparr>)\<rparr>)
          else if c = 123 then Inr (push_frame (new_frame ObjectFrame KeyOrEnd) d)
          else if c = 91 then Inr (push_frame (new_frame ArrayFrame ValueOrEnd) d)
          else start_primitive d c)"

definition consume_object_char :: "decoder \<Rightarrow> frame \<Rightarrow> nat \<Rightarrow> report_error + decoder" where
  "consume_object_char d f c =
     (if fr_state f \<in> {KeyOrEnd, KeyRequired} then
        (if c = 125 \<and> fr_state f = KeyOrEnd then close_container d
         else if c = 34 then Inr (d\<lparr>dc_string := Some (new_string KeyString)\<rparr>)
         else Inl BadObjectKey)
      else if fr_state f = ExpectColon then
        (if c \<noteq> 58 then Inl MissingColon else Inr (set_top (f\<lparr>fr_state := ExpectValue\<rparr>) d))
      else if fr_state f = ExpectValue then start_value d c
      else if fr_state f = CommaOrEnd then
        (if c = 44 then Inr (set_top (f\<lparr>fr_state := KeyRequired\<rparr>) d)
         else if c = 125 then close_container d
         else Inl BadObjectSeparator)
      else Inl BadObjectState)"

definition consume_array_char :: "decoder \<Rightarrow> frame \<Rightarrow> nat \<Rightarrow> report_error + decoder" where
  "consume_array_char d f c =
     (if fr_state f \<in> {ValueOrEnd, ValueRequired} then
        (if c = 93 \<and> fr_state f = ValueOrEnd then close_container d else start_value d c)
      else if fr_state f = CommaOrEnd then
        (if c = 44 then Inr (set_top (f\<lparr>fr_state := ValueRequired\<rparr>) d)
         else if c = 93 then close_container d
         else Inl BadArraySeparator)
      else Inl BadArrayState)"

definition json_space :: "nat \<Rightarrow> bool" where
  "json_space c \<longleftrightarrow> c = 32 \<or> c = 9 \<or> c = 13 \<or> c = 10"

definition consume_json_char :: "decoder \<Rightarrow> nat \<Rightarrow> report_error + decoder" where
  "consume_json_char d c =
     (if json_space c then Inr d
      else case dc_stack d of
        [] \<Rightarrow>
          if dc_complete d then Inl TrailingContent
          else if dc_started d \<or> c \<noteq> 123 then Inl RootNotObject
          else Inr (d\<lparr>dc_started := True,
                      dc_stack := [(new_frame ObjectFrame KeyOrEnd)\<lparr>fr_root := True\<rparr>]\<rparr>)
      | f # _ \<Rightarrow>
          (case fr_kind f of
             ObjectFrame \<Rightarrow> consume_object_char d f c
           | ArrayFrame \<Rightarrow> consume_array_char d f c))"

section \<open>Strings\<close>

definition push_char :: "delta_builder list \<Rightarrow> pystr \<Rightarrow> nat option \<Rightarrow> nat \<Rightarrow> nat \<Rightarrow> delta_builder list" where
  "push_char bs field index offset c =
     (if bs \<noteq> [] \<and> bd_field (last bs) = field \<and> bd_index (last bs) = index
         \<and> bd_offset (last bs) + bd_length (last bs) = offset
      then butlast bs @ [(last bs)\<lparr>bd_text := bd_text (last bs) @ [c],
                                  bd_length := bd_length (last bs) + 1\<rparr>]
      else bs @ [\<lparr>bd_field = field, bd_index = index, bd_offset = offset, bd_text = [c],
                  bd_length = 1\<rparr>])"

definition drawn :: "decoder \<Rightarrow> pystr \<times> nat option \<Rightarrow> nat" where
  "drawn d key = (case dc_lengths d key of None \<Rightarrow> 0 | Some n \<Rightarrow> n)"

definition put_char :: "decoder \<Rightarrow> (pystr \<times> nat option) \<times> nat \<Rightarrow> decoder" where
  "put_char d kc =
     (let key = fst kc; c = snd kc; offset = drawn d key in
      d\<lparr>dc_lengths := (dc_lengths d)(key \<mapsto> offset + 1),
        dc_bytes := dc_bytes d + utf8_size c,
        dc_deltas := push_char (dc_deltas d) (fst key) (snd key) offset c\<rparr>)"

definition emit_string_char :: "decoder \<Rightarrow> string_token \<Rightarrow> nat \<Rightarrow> report_error + decoder" where
  "emit_string_char d tok c =
     (if st_role tok = KeyString then
        Inr (d\<lparr>dc_string := Some (tok\<lparr>st_key_parts := st_key_parts tok @ [c]\<rparr>)\<rparr>)
      else case st_field tok of
        None \<Rightarrow> Inr (d\<lparr>dc_string := Some tok\<rparr>)
      | Some field \<Rightarrow>
          if dc_bytes d + utf8_size c > dc_max d then Inl DraftOverLimit
          else Inr (put_char (d\<lparr>dc_string := Some tok\<rparr>) ((field, st_index tok), c)))"

definition close_string :: "decoder \<Rightarrow> string_token \<Rightarrow> report_error + decoder" where
  "close_string d tok =
     (if st_high tok \<noteq> None \<or> st_digits tok \<noteq> None then Inl UnicodeEscapeIncomplete
      else
        let d1 = d\<lparr>dc_string := None\<rparr>; p = hd (dc_stack d) in
        if st_role tok = KeyString then
          (if st_key_parts tok \<in> fr_keys p then Inl DuplicateKey
           else Inr (set_top (p\<lparr>fr_keys := insert (st_key_parts tok) (fr_keys p),
                                fr_current_key := Some (st_key_parts tok),
                                fr_state := ExpectColon\<rparr>) d1))
        else complete_value d1)"

definition hex_value :: "nat \<Rightarrow> nat option" where
  "hex_value c =
     (if 48 \<le> c \<and> c \<le> 57 then Some (c - 48)
      else if 97 \<le> c \<and> c \<le> 102 then Some (c - 87)
      else if 65 \<le> c \<and> c \<le> 70 then Some (c - 55)
      else None)"

definition hex_number :: "pystr \<Rightarrow> nat" where
  "hex_number s = foldl (\<lambda>n c. 16 * n + (case hex_value c of None \<Rightarrow> 0 | Some v \<Rightarrow> v)) 0 s"

definition escape_value :: "nat \<Rightarrow> nat option" where
  "escape_value c =
     (if c = 34 then Some 34 else if c = 92 then Some 92 else if c = 47 then Some 47
      else if c = 98 then Some 8 else if c = 102 then Some 12 else if c = 110 then Some 10
      else if c = 114 then Some 13 else if c = 116 then Some 9 else None)"

definition consume_hex_digit :: "decoder \<Rightarrow> string_token \<Rightarrow> pystr \<Rightarrow> nat \<Rightarrow> report_error + decoder" where
  "consume_hex_digit d tok digits c =
     (if hex_value c = None then Inl BadUnicodeEscape
      else
        let ds = digits @ [c] in
        if length ds \<noteq> 4 then Inr (d\<lparr>dc_string := Some (tok\<lparr>st_digits := Some ds\<rparr>)\<rparr>)
        else
          let v = hex_number ds; tok1 = tok\<lparr>st_digits := None\<rparr> in
          case st_high tok of
            Some high \<Rightarrow>
              if \<not> (56320 \<le> v \<and> v \<le> 57343) then Inl BadSurrogatePair
              else emit_string_char d (tok1\<lparr>st_high := None\<rparr>)
                     (65536 + (high - 55296) * 1024 + (v - 56320))
          | None \<Rightarrow>
              if 55296 \<le> v \<and> v \<le> 56319 then
                Inr (d\<lparr>dc_string := Some (tok1\<lparr>st_high := Some v, st_low := Some ExpectSlash\<rparr>)\<rparr>)
              else if 56320 \<le> v \<and> v \<le> 57343 then Inl LoneLowSurrogate
              else emit_string_char d tok1 v)"

definition consume_escape :: "decoder \<Rightarrow> string_token \<Rightarrow> nat \<Rightarrow> report_error + decoder" where
  "consume_escape d tok c =
     (if c = 117 then Inr (d\<lparr>dc_string := Some (tok\<lparr>st_digits := Some []\<rparr>)\<rparr>)
      else case escape_value c of
        Some e \<Rightarrow> emit_string_char d tok e
      | None \<Rightarrow> Inl BadEscape)"

definition consume_string_char :: "decoder \<Rightarrow> string_token \<Rightarrow> nat \<Rightarrow> report_error + decoder" where
  "consume_string_char d tok c =
     (case st_low tok of
        Some ExpectSlash \<Rightarrow>
          if c \<noteq> 92 then Inl SurrogatePairIncomplete
          else Inr (d\<lparr>dc_string := Some (tok\<lparr>st_low := Some ExpectU\<rparr>)\<rparr>)
      | Some ExpectU \<Rightarrow>
          if c \<noteq> 117 then Inl SurrogatePairIncomplete
          else Inr (d\<lparr>dc_string := Some (tok\<lparr>st_low := None, st_digits := Some []\<rparr>)\<rparr>)
      | None \<Rightarrow>
        (case st_digits tok of
           Some digits \<Rightarrow> consume_hex_digit d tok digits c
         | None \<Rightarrow>
             if st_escaped tok then consume_escape d (tok\<lparr>st_escaped := False\<rparr>) c
             else if c = 34 then close_string d tok
             else if c = 92 then Inr (d\<lparr>dc_string := Some (tok\<lparr>st_escaped := True\<rparr>)\<rparr>)
             else if c < 32 \<or> is_surrogate c then Inl BadStringChar
             else emit_string_char d tok c))"

section \<open>Numbers, \<open>feed\<close>, \<open>finish\<close>\<close>

text \<open>
  After a leading zero the source refuses any further \<open>str.isdigit\<close> character; a digit outside
  ASCII is also refused here, by the final test that the whole text was read.
\<close>

definition ascii_digit :: "nat \<Rightarrow> bool" where
  "ascii_digit c \<longleftrightarrow> 48 \<le> c \<and> c \<le> 57"

definition integer_part :: "pystr \<Rightarrow> pystr option" where
  "integer_part s =
     (case s of
        [] \<Rightarrow> None
      | c # cs \<Rightarrow>
          if c = 48 then (if cs \<noteq> [] \<and> ascii_digit (hd cs) then None else Some cs)
          else if 49 \<le> c \<and> c \<le> 57 then Some (dropWhile ascii_digit cs)
          else None)"

definition digits_part :: "pystr \<Rightarrow> pystr option" where
  "digits_part s = (if s \<noteq> [] \<and> ascii_digit (hd s) then Some (dropWhile ascii_digit s) else None)"

definition fraction_part :: "pystr \<Rightarrow> pystr option" where
  "fraction_part s = (if s \<noteq> [] \<and> hd s = 46 then digits_part (tl s) else Some s)"

definition exponent_part :: "pystr \<Rightarrow> pystr option" where
  "exponent_part s =
     (if s \<noteq> [] \<and> hd s \<in> {101, 69} then
        (let t = tl s in digits_part (if t \<noteq> [] \<and> hd t \<in> {43, 45} then tl t else t))
      else Some s)"

definition valid_json_number :: "pystr \<Rightarrow> bool" where
  "valid_json_number s =
     (case integer_part (if s \<noteq> [] \<and> hd s = 45 then tl s else s) of
        None \<Rightarrow> False
      | Some t \<Rightarrow> (case fraction_part t of
                     None \<Rightarrow> False
                   | Some u \<Rightarrow> exponent_part u = Some []))"

definition finish_primitive :: "decoder \<Rightarrow> pystr \<Rightarrow> report_error + decoder" where
  "finish_primitive d p =
     (if p \<notin> {lit ''true'', lit ''false'', lit ''null''} \<and> \<not> valid_json_number p then Inl BadPrimitive
      else complete_value (d\<lparr>dc_primitive := None\<rparr>))"

definition primitive_end :: "nat \<Rightarrow> bool" where
  "primitive_end c \<longleftrightarrow> c = 44 \<or> c = 93 \<or> c = 125 \<or> json_space c"

text \<open>
  One turn of the loop of \<open>feed\<close>. A character that ends a primitive is looked at again after
  \<open>_finish_primitive\<close> has left the decoder outside strings and primitives.
\<close>

definition feed_char :: "decoder \<Rightarrow> nat \<Rightarrow> report_error + decoder" where
  "feed_char d c =
     (case dc_string d of
        Some tok \<Rightarrow> consume_string_char d tok c
      | None \<Rightarrow>
        (case dc_primitive d of
           Some p \<Rightarrow>
             if primitive_end c then bindR (finish_primitive d p) (\<lambda>d1. consume_json_char d1 c)
             else Inr (d\<lparr>dc_primitive := Some (p @ [c])\<rparr>)
         | None \<Rightarrow> consume_json_char d c))"

fun feed_loop :: "decoder \<Rightarrow> pystr \<Rightarrow> report_error + decoder" where
  "feed_loop d [] = Inr d"
| "feed_loop d (c # cs) = bindR (feed_char d c) (\<lambda>d1. feed_loop d1 cs)"

definition to_delta :: "delta_builder \<Rightarrow> report_text_delta" where
  "to_delta b = \<lparr>rd_field = bd_field b, rd_index = bd_index b, rd_offset = bd_offset b,
                 rd_text = bd_text b\<rparr>"

definition feed :: "decoder \<Rightarrow> pystr \<Rightarrow> report_error + (report_text_delta list \<times> decoder)" where
  "feed d s =
     (if dc_finished d then Inl DecoderFinished
      else bindR (feed_loop (d\<lparr>dc_deltas := []\<rparr>) s) (\<lambda>d1.
             Inr (map to_delta (dc_deltas d1), d1\<lparr>dc_deltas := []\<rparr>)))"

definition finish_report :: "decoder \<Rightarrow> report_error + decoder" where
  "finish_report d =
     (if dc_finished d then Inl FinishedTwice
      else
        let d1 = d\<lparr>dc_finished := True\<rparr> in
        bindR (case dc_primitive d1 of Some p \<Rightarrow> finish_primitive d1 p | None \<Rightarrow> Inr d1) (\<lambda>d2.
          if dc_string d2 \<noteq> None \<or> dc_stack d2 \<noteq> [] \<or> \<not> dc_complete d2 then Inl ReportIncomplete
          else Inr d2))"

end
