(* ===== verification/Report_Chunks.thy ===== *)
theory Report_Chunks
  imports Report_Stream
begin

text \<open>
  How the decoder's output depends on the way its input is cut: the algebra of delta lists under
  concatenation (\<open>glue\<close>), and the accounting of offsets and bytes that \<open>feed\<close> keeps.
\<close>

section \<open>Gluing deltas\<close>

definition mergeable :: "delta_builder \<Rightarrow> delta_builder \<Rightarrow> bool" where
  "mergeable a b \<longleftrightarrow> bd_field a = bd_field b \<and> bd_index a = bd_index b
     \<and> bd_offset a + bd_length a = bd_offset b"

definition merged :: "delta_builder \<Rightarrow> delta_builder \<Rightarrow> delta_builder" where
  "merged a b = a\<lparr>bd_text := bd_text a @ bd_text b, bd_length := bd_length a + bd_length b\<rparr>"

definition glue_builders :: "delta_builder list \<Rightarrow> delta_builder list \<Rightarrow> delta_builder list" where
  "glue_builders xs ys =
     (if xs \<noteq> [] \<and> ys \<noteq> [] \<and> mergeable (last xs) (hd ys)
      then butlast xs @ merged (last xs) (hd ys) # tl ys else xs @ ys)"

definition glue :: "report_text_delta list \<Rightarrow> report_text_delta list \<Rightarrow> report_text_delta list" where
  "glue xs ys =
     (if xs \<noteq> [] \<and> ys \<noteq> [] \<and> rd_field (last xs) = rd_field (hd ys)
         \<and> rd_index (last xs) = rd_index (hd ys)
         \<and> rd_offset (last xs) + length (rd_text (last xs)) = rd_offset (hd ys)
      then butlast xs @ (last xs)\<lparr>rd_text := rd_text (last xs) @ rd_text (hd ys)\<rparr> # tl ys
      else xs @ ys)"

lemma glue_builders_Nil [simp]: "glue_builders xs [] = xs" "glue_builders [] ys = ys"
  by (simp_all add: glue_builders_def)

lemma glue_Nil [simp]: "glue xs [] = xs" "glue [] ys = ys"
  by (simp_all add: glue_def)

lemma push_char_glue:
  "push_char (glue_builders xs ys) f i off c = glue_builders xs (push_char ys f i off c)"
proof (cases "ys = []")
  case True
  then show ?thesis
    by (auto simp: glue_builders_def push_char_def mergeable_def merged_def)
next
  case False
  then obtain y zs where ys: "ys = y # zs" by (cases ys) auto
  show ?thesis
  proof (cases "zs = []")
    case True
    then show ?thesis
      by (auto simp: ys glue_builders_def push_char_def mergeable_def merged_def)
  next
    case False
    then show ?thesis
      by (auto simp: ys glue_builders_def push_char_def mergeable_def merged_def butlast_append)
  qed
qed

section \<open>Deltas published earlier do not change what is read later\<close>

definition behind :: "delta_builder list \<Rightarrow> decoder \<Rightarrow> decoder" where
  "behind xs d = d\<lparr>dc_deltas := glue_builders xs (dc_deltas d)\<rparr>"

definition also_behind :: "delta_builder list \<Rightarrow> report_error + decoder \<Rightarrow> report_error + decoder" where
  "also_behind xs r = bindR r (\<lambda>d. Inr (behind xs d))"

lemma behind_simps [simp]:
  "dc_max (behind xs d) = dc_max d" "dc_stack (behind xs d) = dc_stack d"
  "dc_started (behind xs d) = dc_started d" "dc_complete (behind xs d) = dc_complete d"
  "dc_string (behind xs d) = dc_string d" "dc_primitive (behind xs d) = dc_primitive d"
  "dc_lengths (behind xs d) = dc_lengths d" "dc_bytes (behind xs d) = dc_bytes d"
  "dc_finished (behind xs d) = dc_finished d" "drawn (behind xs d) = drawn d"
  by (simp_all add: behind_def drawn_def fun_eq_iff)

lemma behind_upd:
  "(behind xs d)\<lparr>dc_stack := s\<rparr> = behind xs (d\<lparr>dc_stack := s\<rparr>)"
  "(behind xs d)\<lparr>dc_started := b\<rparr> = behind xs (d\<lparr>dc_started := b\<rparr>)"
  "(behind xs d)\<lparr>dc_complete := b\<rparr> = behind xs (d\<lparr>dc_complete := b\<rparr>)"
  "(behind xs d)\<lparr>dc_string := t\<rparr> = behind xs (d\<lparr>dc_string := t\<rparr>)"
  "(behind xs d)\<lparr>dc_primitive := p\<rparr> = behind xs (d\<lparr>dc_primitive := p\<rparr>)"
  by (simp_all add: behind_def)

lemma also_behind_simps [simp]:
  "also_behind xs (Inl e) = Inl e" "also_behind xs (Inr d) = Inr (behind xs d)"
  by (simp_all add: also_behind_def)

lemma also_behind_if: "also_behind xs (if b then p else q) = (if b then also_behind xs p else also_behind xs q)"
  by simp

lemma set_top_behind: "set_top f (behind xs d) = behind xs (set_top f d)"
  by (simp add: set_top_def behind_upd)

lemma push_frame_behind: "push_frame f (behind xs d) = behind xs (push_frame f d)"
  by (simp add: push_frame_def behind_upd)

lemma put_char_behind: "put_char (behind xs d) kc = behind xs (put_char d kc)"
  by (simp add: put_char_def Let_def) (simp add: behind_def push_char_glue)

lemmas behind_moves = behind_upd set_top_behind push_frame_behind put_char_behind

lemma complete_value_behind: "complete_value (behind xs d) = also_behind xs (complete_value d)"
  by (cases "complete_frame (hd (dc_stack d))") (simp_all add: complete_value_def behind_moves)

lemma close_container_behind: "close_container (behind xs d) = also_behind xs (close_container d)"
  by (simp add: close_container_def Let_def behind_moves complete_value_behind)

lemma start_value_behind: "start_value (behind xs d) c = also_behind xs (start_value d c)"
  by (simp add: start_value_def start_primitive_def Let_def behind_moves split: frame_kind.split)

lemma consume_json_char_behind: "consume_json_char (behind xs d) c = also_behind xs (consume_json_char d c)"
  by (simp add: consume_json_char_def consume_object_char_def consume_array_char_def behind_moves
      close_container_behind start_value_behind split: list.split frame_kind.split)

lemma emit_behind: "emit_string_char (behind xs d) t c = also_behind xs (emit_string_char d t c)"
  by (simp add: emit_string_char_def behind_moves split: option.split)

lemma close_string_behind: "close_string (behind xs d) t = also_behind xs (close_string d t)"
  by (simp add: close_string_def Let_def behind_moves complete_value_behind)

lemma consume_hex_digit_behind:
  "consume_hex_digit (behind xs d) t ds c = also_behind xs (consume_hex_digit d t ds c)"
  by (cases "st_high t") (simp_all add: consume_hex_digit_def Let_def behind_moves emit_behind)

lemma consume_escape_behind: "consume_escape (behind xs d) t c = also_behind xs (consume_escape d t c)"
  by (cases "escape_value c") (simp_all add: consume_escape_def behind_moves emit_behind)

lemma consume_string_char_behind:
  "consume_string_char (behind xs d) t c = also_behind xs (consume_string_char d t c)"
proof (cases "st_low t")
  case None
  then show ?thesis
    by (cases "st_digits t")
      (simp_all add: consume_string_char_def behind_moves emit_behind
        close_string_behind consume_hex_digit_behind consume_escape_behind)
next
  case (Some l)
  then show ?thesis by (cases l) (simp_all add: consume_string_char_def behind_moves)
qed

lemma feed_char_behind: "feed_char (behind xs d) c = also_behind xs (feed_char d c)"
proof (cases "dc_string d")
  case None
  show ?thesis
  proof (cases "dc_primitive d")
    case (Some p)
    have "finish_primitive (behind xs d) p = also_behind xs (finish_primitive d p)"
      by (simp add: finish_primitive_def behind_moves complete_value_behind)
    with None Some show ?thesis
      by (cases "finish_primitive d p") (simp_all add: feed_char_def behind_moves consume_json_char_behind)
  qed (simp add: feed_char_def None consume_json_char_behind)
qed (simp add: feed_char_def consume_string_char_behind)

lemma feed_loop_behind: "feed_loop (behind xs d) s = also_behind xs (feed_loop d s)"
proof (induction s arbitrary: d)
  case (Cons c s)
  then show ?case by (cases "feed_char d c") (simp_all add: feed_char_behind)
qed simp

lemma feed_loop_append: "feed_loop d (s @ t) = bindR (feed_loop d s) (\<lambda>d1. feed_loop d1 t)"
proof (induction s arbitrary: d)
  case (Cons c s)
  then show ?case by (cases "feed_char d c") simp_all
qed simp

section \<open>Feeding a decoder chunk by chunk\<close>

fun feed_each :: "decoder \<Rightarrow> pystr list \<Rightarrow> report_error + (report_text_delta list list \<times> decoder)" where
  "feed_each d [] = Inr ([], d)"
| "feed_each d (s # ss) =
     bindR (feed d s) (\<lambda>(xs, d1). bindR (feed_each d1 ss) (\<lambda>(xss, d2). Inr (xs # xss, d2)))"

definition counted :: "delta_builder list \<Rightarrow> bool" where
  "counted bs \<longleftrightarrow> list_all (\<lambda>b. bd_length b = length (bd_text b)) bs"

lemma counted_simps [simp]:
  "counted []" "counted (b # bs) \<longleftrightarrow> bd_length b = length (bd_text b) \<and> counted bs"
  "counted (xs @ ys) \<longleftrightarrow> counted xs \<and> counted ys"
  by (simp_all add: counted_def)

lemma counted_push: "counted bs \<Longrightarrow> counted (push_char bs f i off c)"
  by (cases bs rule: rev_cases) (auto simp: push_char_def)

lemma glue_to_delta:
  assumes "counted xs"
  shows "glue (map to_delta xs) (map to_delta ys) = map to_delta (glue_builders xs ys)"
proof (cases "xs = [] \<or> ys = []")
  case False
  then obtain us u v vs where "xs = us @ [u]" "ys = v # vs"
    by (metis append_butlast_last_id list.exhaust)
  with assms show ?thesis
    by (simp add: glue_def glue_builders_def mergeable_def merged_def to_delta_def)
qed auto

section \<open>Accounting\<close>

definition public_key :: "pystr \<times> nat option \<Rightarrow> bool" where
  "public_key key \<longleftrightarrow>
     (case snd key of None \<Rightarrow> fst key \<in> report_text_fields | Some _ \<Rightarrow> fst key \<in> report_list_fields)"

definition frame_ok :: "frame \<Rightarrow> bool" where
  "frame_ok f \<longleftrightarrow> (case fr_draft_field f of None \<Rightarrow> True | Some k \<Rightarrow> k \<in> report_list_fields)"

definition token_ok :: "string_token \<Rightarrow> bool" where
  "token_ok t \<longleftrightarrow>
     (case st_field t of None \<Rightarrow> True | Some k \<Rightarrow> public_key (k, st_index t))
     \<and> (case st_high t of None \<Rightarrow> True | Some h \<Rightarrow> 55296 \<le> h \<and> h \<le> 56319)"

definition decoder_ok :: "decoder \<Rightarrow> bool" where
  "decoder_ok d \<longleftrightarrow>
     list_all frame_ok (dc_stack d)
     \<and> (case dc_string d of None \<Rightarrow> True | Some t \<Rightarrow> token_ok t \<and> dc_stack d \<noteq> [])
     \<and> (dc_primitive d \<noteq> None \<longrightarrow> dc_stack d \<noteq> [] \<and> dc_string d = None)"

definition same_output :: "decoder \<Rightarrow> decoder \<Rightarrow> bool" where
  "same_output d d' \<longleftrightarrow> dc_lengths d' = dc_lengths d \<and> dc_bytes d' = dc_bytes d
     \<and> dc_deltas d' = dc_deltas d \<and> dc_max d' = dc_max d \<and> dc_finished d' = dc_finished d"

text \<open>A step of the decoder hands out nothing, or one character of a public field.\<close>

definition draws :: "decoder \<Rightarrow> decoder \<Rightarrow> bool" where
  "draws d d' \<longleftrightarrow> same_output d d'
     \<or> (\<exists>key c. public_key key \<and> \<not> is_surrogate c \<and> dc_bytes d + utf8_size c \<le> dc_max d
          \<and> same_output (put_char d (key, c)) d')"

definition sound_step :: "decoder \<Rightarrow> report_error + decoder \<Rightarrow> bool" where
  "sound_step d r \<longleftrightarrow> (case r of Inl e \<Rightarrow> True | Inr d' \<Rightarrow> decoder_ok d' \<and> draws d d')"

lemma sound_step_simps [simp]:
  "sound_step d (Inl e)" "sound_step d (Inr d') \<longleftrightarrow> decoder_ok d' \<and> draws d d'"
  by (simp_all add: sound_step_def)

lemma same_output_refl [simp]: "same_output d d" "draws d d"
  by (simp_all add: same_output_def draws_def)

lemma draws_silent: "same_output d d' \<Longrightarrow> draws d d'"
  by (simp add: draws_def)

lemma drawn_upd [simp]:
  "drawn (d\<lparr>dc_stack := s\<rparr>) = drawn d" "drawn (d\<lparr>dc_string := t\<rparr>) = drawn d"
  "drawn (d\<lparr>dc_primitive := p\<rparr>) = drawn d" "drawn (d\<lparr>dc_complete := b\<rparr>) = drawn d"
  "drawn (d\<lparr>dc_started := b\<rparr>) = drawn d"
  by (simp_all add: drawn_def fun_eq_iff)

lemma complete_value_sound:
  assumes ok: "list_all frame_ok (dc_stack d)" "dc_stack d \<noteq> []" "dc_string d = None" and so: "same_output d0 d"
  shows "sound_step d0 (complete_value d)"
proof (cases "complete_frame (hd (dc_stack d))")
  case (Inr f)
  then have "frame_ok (hd (dc_stack d)) \<longrightarrow> frame_ok f"
    by (auto simp: complete_frame_def frame_ok_def split: frame_kind.splits if_splits)
  with ok so Inr show ?thesis
    by (cases "dc_stack d") (simp_all add: complete_value_def set_top_def decoder_ok_def
        same_output_def draws_silent)
qed (simp add: complete_value_def)

lemma close_container_sound:
  assumes "decoder_ok d" "dc_stack d \<noteq> []" "dc_string d = None" "dc_primitive d = None"
  shows "sound_step d (close_container d)"
proof -
  let ?d1 = "d\<lparr>dc_stack := tl (dc_stack d)\<rparr>"
  have fs: "list_all frame_ok (dc_stack ?d1)" using assms by (cases "dc_stack d") (auto simp: decoder_ok_def)
  have so: "same_output d ?d1" by (simp add: same_output_def)
  show ?thesis
  proof (cases "tl (dc_stack d) = []")
    case True
    with fs so assms show ?thesis
      by (simp add: close_container_def Let_def decoder_ok_def same_output_def draws_silent)
  next
    case False
    with complete_value_sound [OF fs, of d] so assms show ?thesis
      by (simp add: close_container_def Let_def)
  qed
qed

lemma frame_ok_new [simp]: "frame_ok (new_frame k s)" "frame_ok ((new_frame k s)\<lparr>fr_root := b\<rparr>)"
  by (simp_all add: frame_ok_def new_frame_def)

lemma token_ok_new [simp]: "token_ok (new_string r)"
  by (simp add: token_ok_def new_string_def)

lemma token_ok_upd [simp]:
  "token_ok (t\<lparr>st_digits := x\<rparr>) = token_ok t" "token_ok (t\<lparr>st_escaped := b\<rparr>) = token_ok t"
  "token_ok (t\<lparr>st_low := l\<rparr>) = token_ok t"
  by (simp_all add: token_ok_def split: option.split)

lemma draws_char:
  "public_key key \<Longrightarrow> \<not> is_surrogate c \<Longrightarrow> dc_bytes d + utf8_size c \<le> dc_max d \<Longrightarrow>
     same_output (put_char d (key, c)) d' \<Longrightarrow> draws d d'"
  unfolding draws_def by blast

lemma start_value_sound:
  assumes "decoder_ok d" "dc_stack d \<noteq> []" "dc_string d = None" "dc_primitive d = None"
  shows "sound_step d (start_value d c)"
proof -
  have p: "frame_ok (hd (dc_stack d))" using assms by (cases "dc_stack d") (auto simp: decoder_ok_def)
  have start: "sound_step d (start_primitive d c)"
    using assms by (simp add: start_primitive_def decoder_ok_def draws_silent same_output_def)
  show ?thesis
  proof (cases "fr_kind (hd (dc_stack d))")
    case ObjectFrame
    with assms start show ?thesis
      by (auto simp: start_value_def Let_def decoder_ok_def draws_silent same_output_def push_frame_def
          token_ok_def frame_ok_def new_frame_def new_string_def public_key_def split: option.split)
  next
    case ArrayFrame
    with assms start p show ?thesis
      by (auto simp: start_value_def Let_def decoder_ok_def draws_silent same_output_def push_frame_def
          token_ok_def frame_ok_def new_string_def new_frame_def public_key_def split: option.splits)
  qed
qed

lemma set_top_sound:
  assumes "decoder_ok d" "dc_string d = None" "dc_primitive d = None" "dc_stack d = g # gs" "frame_ok f"
  shows "sound_step d (Inr (set_top f d))"
  using assms by (simp add: decoder_ok_def set_top_def draws_silent same_output_def)

lemma consume_json_char_sound:
  assumes ok: "decoder_ok d" "dc_string d = None" "dc_primitive d = None"
  shows "sound_step d (consume_json_char d c)"
proof (cases "dc_stack d")
  case Nil
  with ok show ?thesis
    by (simp add: consume_json_char_def decoder_ok_def draws_silent same_output_def)
next
  case (Cons f fs)
  then have ne: "dc_stack d \<noteq> []" and f: "frame_ok f" using ok by (auto simp: decoder_ok_def)
  have top: "sound_step d (Inr (set_top (f\<lparr>fr_state := s\<rparr>) d))" for s
    using set_top_sound [OF ok Cons] f by (simp add: frame_ok_def)
  have key: "sound_step d (Inr (d\<lparr>dc_string := Some (new_string KeyString)\<rparr>))"
    using ok ne by (simp add: decoder_ok_def draws_silent same_output_def)
  note sub = close_container_sound [OF ok(1) ne ok(2,3)] start_value_sound [OF ok(1) ne ok(2,3)] top key
  show ?thesis
    using sub ok by (cases "fr_kind f")
      (simp_all del: sound_step_simps(2) add: consume_json_char_def Cons consume_object_char_def consume_array_char_def,
       auto)
qed

lemma emit_sound:
  assumes ok: "list_all frame_ok (dc_stack d)" "dc_stack d \<noteq> []" "dc_primitive d = None"
    and t: "token_ok t" "\<not> is_surrogate c"
  shows "sound_step d (emit_string_char d t c)"
proof (cases "st_role t = KeyString \<or> st_field t = None")
  case True
  with assms show ?thesis
    by (auto simp: emit_string_char_def decoder_ok_def draws_silent same_output_def token_ok_def
        split: option.splits)
next
  case False
  then obtain k where k: "st_field t = Some k" "st_role t \<noteq> KeyString" by auto
  have pub: "public_key (k, st_index t)" using t k by (simp add: token_ok_def)
  have so: "same_output (put_char d ((k, st_index t), c))
      (put_char (d\<lparr>dc_string := Some t\<rparr>) ((k, st_index t), c))"
    by (simp add: same_output_def put_char_def Let_def)
  have "decoder_ok (put_char (d\<lparr>dc_string := Some t\<rparr>) ((k, st_index t), c))"
    using assms by (simp add: decoder_ok_def put_char_def Let_def)
  with so pub t k show ?thesis
    by (auto simp: emit_string_char_def intro: draws_char)
qed

lemma close_string_sound:
  assumes ok: "decoder_ok d" "dc_string d = Some t" "dc_primitive d = None"
  shows "sound_step d (close_string d t)"
proof (cases "st_high t \<noteq> None \<or> st_digits t \<noteq> None")
  case True
  then show ?thesis by (simp add: close_string_def)
next
  case False
  let ?d1 = "d\<lparr>dc_string := None\<rparr>"
  obtain f fs where st: "dc_stack d = f # fs" using ok by (cases "dc_stack d") (auto simp: decoder_ok_def)
  have so: "same_output d ?d1" by (simp add: same_output_def)
  have cv: "sound_step d (complete_value ?d1)"
    using ok st by (intro complete_value_sound so) (auto simp: decoder_ok_def)
  have "frame_ok f" "list_all frame_ok fs" using ok st by (auto simp: decoder_ok_def)
  with False cv ok st show ?thesis
    by (auto simp: close_string_def Let_def set_top_def decoder_ok_def draws_silent same_output_def frame_ok_def)
qed

lemma consume_hex_digit_sound:
  assumes ok: "decoder_ok d" "dc_string d = Some t" "dc_primitive d = None"
  shows "sound_step d (consume_hex_digit d t ds c)"
proof -
  have base: "list_all frame_ok (dc_stack d)" "dc_stack d \<noteq> []" "token_ok t"
    using ok by (auto simp: decoder_ok_def)
  have keep: "sound_step d (Inr (d\<lparr>dc_string := Some t'\<rparr>))" if "token_ok t'" for t'
    using that ok base by (simp add: decoder_ok_def draws_silent same_output_def)
  have t1: "token_ok (t\<lparr>st_digits := x\<rparr>)" for x using base by simp
  show ?thesis
  proof (cases "st_high t")
    case None
    have "token_ok (t\<lparr>st_digits := None, st_high := Some v, st_low := Some ExpectSlash\<rparr>)"
      if "55296 \<le> v \<and> v \<le> 56319" for v using that base by (simp add: token_ok_def split: option.splits)
    with None keep t1 show ?thesis
      by (auto simp: consume_hex_digit_def Let_def is_surrogate_def simp del: sound_step_simps(2)
          intro!: emit_sound [OF base(1,2) ok(3)])
  next
    case (Some h)
    have "token_ok (t\<lparr>st_digits := None, st_high := None\<rparr>)"
      using base by (simp add: token_ok_def split: option.splits)
    with Some keep t1 show ?thesis
      by (auto simp: consume_hex_digit_def Let_def is_surrogate_def simp del: sound_step_simps(2)
          intro!: emit_sound [OF base(1,2) ok(3)])
  qed
qed

lemma escape_value_scalar: "escape_value c = Some e \<Longrightarrow> \<not> is_surrogate e"
  by (auto simp: escape_value_def is_surrogate_def split: if_splits)

lemma consume_string_char_sound:
  assumes ok: "decoder_ok d" "dc_string d = Some t" "dc_primitive d = None"
  shows "sound_step d (consume_string_char d t c)"
proof -
  have base: "list_all frame_ok (dc_stack d)" "dc_stack d \<noteq> []" "token_ok t"
    using ok by (auto simp: decoder_ok_def)
  have keep: "sound_step d (Inr (d\<lparr>dc_string := Some t'\<rparr>))" if "token_ok t'" for t'
    using that ok base by (simp add: decoder_ok_def draws_silent same_output_def)
  have esc: "sound_step d (consume_escape d (t\<lparr>st_escaped := False\<rparr>) c)"
  proof (cases "escape_value c")
    case None
    have "token_ok (t\<lparr>st_escaped := False, st_digits := Some []\<rparr>)" using base by simp
    with None keep show ?thesis by (simp add: consume_escape_def del: sound_step_simps(2))
  next
    case (Some e)
    have "token_ok (t\<lparr>st_escaped := False\<rparr>)" "token_ok (t\<lparr>st_escaped := False, st_digits := Some []\<rparr>)"
      using base by simp_all
    with Some keep emit_sound [OF base(1,2) ok(3)] escape_value_scalar [OF Some] show ?thesis
      by (simp add: consume_escape_def del: sound_step_simps(2))
  qed
  have "token_ok (t\<lparr>st_escaped := True\<rparr>)" "token_ok (t\<lparr>st_low := Some ExpectU\<rparr>)"
    "token_ok (t\<lparr>st_low := None, st_digits := Some []\<rparr>)"
    using base by simp_all
  then show ?thesis
    using keep esc close_string_sound [OF ok] consume_hex_digit_sound [OF ok]
      emit_sound [OF base(1,2) ok(3) base(3)]
    by (auto simp: consume_string_char_def simp del: sound_step_simps(2) split: option.split expected_low.split)
qed

lemma feed_char_sound:
  assumes ok: "decoder_ok d"
  shows "sound_step d (feed_char d c)"
proof (cases "dc_string d")
  case (Some t)
  then have "dc_primitive d = None" using ok by (auto simp: decoder_ok_def)
  with Some consume_string_char_sound [OF ok Some] show ?thesis by (simp add: feed_char_def)
next
  case str: None
  show ?thesis
  proof (cases "dc_primitive d")
    case None
    with str consume_json_char_sound [OF ok] show ?thesis by (simp add: feed_char_def)
  next
    case (Some p)
    show ?thesis
    proof (cases "primitive_end c")
      case True
      have fin: "sound_step d (finish_primitive d p)"
        using ok Some str unfolding finish_primitive_def
        by (auto intro!: complete_value_sound simp: decoder_ok_def same_output_def)
      show ?thesis
      proof (cases "finish_primitive d p")
        case (Inr d1)
        then have none: "dc_string d1 = None" "dc_primitive d1 = None"
          using str by (auto simp: finish_primitive_def complete_value_def set_top_def bindR_iffs split: if_splits)
        have so: "same_output d d1"
          using Inr by (auto simp: finish_primitive_def complete_value_def set_top_def bindR_iffs same_output_def
              split: if_splits)
        have "sound_step d1 (consume_json_char d1 c)"
          using consume_json_char_sound [OF _ none] fin Inr by simp
        then have "sound_step d (consume_json_char d1 c)"
          using so by (cases "consume_json_char d1 c")
            (auto simp: draws_def same_output_def put_char_def Let_def drawn_def)
        with str Some True Inr show ?thesis by (simp add: feed_char_def)
      qed (use str Some True in \<open>simp add: feed_char_def\<close>)
    next
      case False
      with str Some ok show ?thesis
        by (simp add: feed_char_def decoder_ok_def draws_silent same_output_def)
    qed
  qed
qed

text \<open>The offsets of a list of deltas continue the lengths \<open>L\<close> already drawn.\<close>

definition length_at :: "(pystr \<times> nat option \<rightharpoonup> nat) \<Rightarrow> pystr \<times> nat option \<Rightarrow> nat" where
  "length_at L key = (case L key of None \<Rightarrow> 0 | Some n \<Rightarrow> n)"

definition delta_key :: "report_text_delta \<Rightarrow> pystr \<times> nat option" where
  "delta_key x = (rd_field x, rd_index x)"

definition delta_wf :: "report_text_delta \<Rightarrow> bool" where
  "delta_wf x \<longleftrightarrow> public_key (delta_key x) \<and> rd_text x \<noteq> [] \<and> encodable (rd_text x)"

fun replay :: "(pystr \<times> nat option \<rightharpoonup> nat) \<Rightarrow> report_text_delta list \<Rightarrow> (pystr \<times> nat option \<rightharpoonup> nat) option" where
  "replay L [] = Some L"
| "replay L (x # xs) =
     (if rd_offset x = length_at L (delta_key x) \<and> delta_wf x
      then replay (L(delta_key x \<mapsto> rd_offset x + length (rd_text x))) xs else None)"

lemma replay_append:
  "replay L (xs @ ys) = Option.bind (replay L xs) (\<lambda>L1. replay L1 ys)"
  by (induction xs arbitrary: L) simp_all

definition delta_bytes :: "report_text_delta list \<Rightarrow> nat" where
  "delta_bytes xs = sum_list (map (\<lambda>x. utf8_len (rd_text x)) xs)"

lemma delta_bytes_simps [simp]:
  "delta_bytes [] = 0" "delta_bytes (x # xs) = utf8_len (rd_text x) + delta_bytes xs"
  "delta_bytes (xs @ ys) = delta_bytes xs + delta_bytes ys"
  by (simp_all add: delta_bytes_def)

lemma replay_push:
  assumes r: "replay L0 (map to_delta bs) = Some L" and n: "counted bs"
    and k: "public_key (f, i)" and c: "\<not> is_surrogate c"
  shows "replay L0 (map to_delta (push_char bs f i (length_at L (f, i)) c))
           = Some (L((f, i) \<mapsto> length_at L (f, i) + 1))"
proof (cases bs rule: rev_cases)
  case Nil
  with assms show ?thesis by (simp add: push_char_def to_delta_def delta_key_def delta_wf_def)
next
  case (snoc us u)
  let ?k = "(bd_field u, bd_index u)"
  from r snoc obtain L1 where L1: "replay L0 (map to_delta us) = Some L1" "bd_offset u = length_at L1 ?k"
    "delta_wf (to_delta u)" "L = L1(?k \<mapsto> bd_offset u + length (bd_text u))"
    by (auto simp: replay_append Option.bind_eq_Some_conv to_delta_def delta_key_def split: if_splits)
  have len: "bd_length u = length (bd_text u)" using n snoc by simp
  show ?thesis
  proof (cases "?k = (f, i)")
    case True
    then have "length_at L (f, i) = bd_offset u + bd_length u" using L1(4) len by (simp add: length_at_def)
    with True L1 len c show ?thesis
      by (simp add: snoc push_char_def replay_append) (simp add: to_delta_def delta_key_def delta_wf_def)
  next
    case False
    then have "push_char bs f i off c = bs @ [\<lparr>bd_field = f, bd_index = i, bd_offset = off, bd_text = [c], bd_length = 1\<rparr>]" for off
      using snoc by (auto simp: push_char_def)
    with r k c show ?thesis by (simp add: replay_append to_delta_def delta_key_def delta_wf_def)
  qed
qed

lemma delta_bytes_push:
  "delta_bytes (map to_delta (push_char bs f i off c)) = delta_bytes (map to_delta bs) + utf8_size c"
  by (cases bs rule: rev_cases) (auto simp: push_char_def to_delta_def)

definition accounted :: "decoder \<Rightarrow> decoder \<Rightarrow> bool" where
  "accounted d0 d \<longleftrightarrow>
     replay (dc_lengths d0) (map to_delta (dc_deltas d)) = Some (dc_lengths d)
     \<and> dc_bytes d = dc_bytes d0 + delta_bytes (map to_delta (dc_deltas d))
     \<and> counted (dc_deltas d) \<and> dc_bytes d \<le> dc_max d \<and> dc_max d = dc_max d0
     \<and> dc_finished d = dc_finished d0"

lemma accounted_draws:
  assumes a: "accounted d0 d" and s: "draws d d'"
  shows "accounted d0 d'"
  using s unfolding draws_def
proof
  assume "\<exists>key c. public_key key \<and> \<not> is_surrogate c \<and> dc_bytes d + utf8_size c \<le> dc_max d
          \<and> same_output (put_char d (key, c)) d'"
  then obtain f i c where c: "public_key (f, i)" "\<not> is_surrogate c" "dc_bytes d + utf8_size c \<le> dc_max d"
    "same_output (put_char d ((f, i), c)) d'" by auto
  have "drawn d (f, i) = length_at (dc_lengths d) (f, i)" by (simp add: drawn_def length_at_def)
  with a c replay_push [OF _ _ c(1,2), of "dc_lengths d0" "dc_deltas d" "dc_lengths d"] show ?thesis
    by (simp add: accounted_def same_output_def put_char_def Let_def delta_bytes_push counted_push)
qed (use a in \<open>simp add: accounted_def same_output_def\<close>)

lemma feed_loop_accounted:
  "feed_loop d s = Inr d' \<Longrightarrow> decoder_ok d \<Longrightarrow> accounted d0 d \<Longrightarrow> decoder_ok d' \<and> accounted d0 d'"
proof (induction s arbitrary: d)
  case (Cons c s)
  then obtain d1 where d1: "feed_char d c = Inr d1" "feed_loop d1 s = Inr d'"
    by (auto simp: bindR_iffs)
  have "decoder_ok d1" "draws d d1" using feed_char_sound [OF Cons.prems(2), of c] d1(1) by auto
  with Cons.IH [OF d1(2)] accounted_draws [OF Cons.prems(3)] show ?case by blast
qed simp

definition idle :: "decoder \<Rightarrow> bool" where
  "idle d \<longleftrightarrow> decoder_ok d \<and> dc_bytes d \<le> dc_max d \<and> dc_deltas d = [] \<and> \<not> dc_finished d"

lemma feed_accounted:
  assumes "feed d s = Inr (xs, d')" and "idle d"
  shows "idle d' \<and> replay (dc_lengths d) xs = Some (dc_lengths d')
       \<and> dc_bytes d' = dc_bytes d + delta_bytes xs \<and> dc_max d' = dc_max d"
proof -
  have e: "d\<lparr>dc_deltas := []\<rparr> = d" using assms(2) by (simp add: idle_def)
  from assms obtain d1 where d1: "feed_loop d s = Inr d1" "xs = map to_delta (dc_deltas d1)"
    "d' = d1\<lparr>dc_deltas := []\<rparr>"
    by (auto simp: feed_def e bindR_iffs split: if_splits)
  have "accounted d d" using assms(2) by (simp add: accounted_def idle_def)
  with feed_loop_accounted [OF d1(1)] assms(2) have "decoder_ok d1" "accounted d d1"
    by (auto simp: idle_def)
  moreover have "decoder_ok (d1\<lparr>dc_deltas := []\<rparr>) = decoder_ok d1"
    by (simp add: decoder_ok_def split: option.split)
  ultimately show ?thesis using assms(2) by (simp add: d1 idle_def accounted_def)
qed

lemma new_decoder_idle: "new_decoder m = Inr d \<Longrightarrow> idle d \<and> dc_lengths d = Map.empty \<and> dc_bytes d = 0 \<and> int (dc_max d) = m"
  by (auto simp: new_decoder_def idle_def decoder_ok_def split: if_splits)

lemma feed_each_accounted:
  "feed_each d ss = Inr (xss, d') \<Longrightarrow> idle d \<Longrightarrow>
     idle d' \<and> replay (dc_lengths d) (concat xss) = Some (dc_lengths d')
     \<and> dc_bytes d' = dc_bytes d + delta_bytes (concat xss) \<and> dc_max d' = dc_max d"
proof (induction ss arbitrary: d xss)
  case (Cons s ss)
  then obtain xs d1 yss where p: "feed d s = Inr (xs, d1)" "feed_each d1 ss = Inr (yss, d')" "xss = xs # yss"
    by (auto simp: bindR_iffs)
  from feed_accounted [OF p(1) Cons.prems(2)] Cons.IH [OF p(2)] show ?case
    by (simp add: p(3) replay_append)
qed auto

lemma replay_wf: "replay L xs = Some L' \<Longrightarrow> list_all delta_wf xs"
  by (induction xs arbitrary: L) (auto split: if_splits)

section \<open>Chunking\<close>

definition joined :: "report_error + (report_text_delta list list \<times> decoder) \<Rightarrow> report_error + (report_text_delta list \<times> decoder)" where
  "joined r = bindR r (\<lambda>(xss, d). Inr (foldr glue xss [], d))"

lemma joined_simps [simp]:
  "joined (Inl e) = Inl e" "joined (Inr (xss, d)) = Inr (foldr glue xss [], d)"
  by (simp_all add: joined_def)

lemma feed_append:
  assumes "idle d"
  shows "feed d (s @ t) = bindR (feed d s) (\<lambda>(xs, d1). bindR (feed d1 t) (\<lambda>(ys, d2). Inr (glue xs ys, d2)))"
proof -
  have e: "d\<lparr>dc_deltas := []\<rparr> = d" and f: "\<not> dc_finished d" using assms by (simp_all add: idle_def)
  show ?thesis
  proof (cases "feed_loop d s")
    case (Inr d1)
    let ?d = "d1\<lparr>dc_deltas := []\<rparr>"
    have "accounted d d" using assms by (simp add: accounted_def idle_def)
    with feed_loop_accounted [OF Inr] assms have acc: "accounted d d1" by (simp add: idle_def)
    then have "d1 = behind (dc_deltas d1) ?d" by (simp add: behind_def)
    then have "feed_loop d1 t = also_behind (dc_deltas d1) (feed_loop ?d t)"
      using feed_loop_behind [of "dc_deltas d1" ?d t] by simp
    with Inr f acc show ?thesis
      by (cases "feed_loop ?d t")
        (simp_all add: feed_def e feed_loop_append accounted_def glue_to_delta, simp_all add: behind_def)
  qed (simp add: feed_def e f feed_loop_append)
qed

lemma feed_each_joined: "idle d \<Longrightarrow> joined (feed_each d ss) = feed d (concat ss)"
proof (induction ss arbitrary: d)
  case Nil
  have "d\<lparr>dc_deltas := []\<rparr> = d" using Nil by (simp add: idle_def)
  with Nil show ?case by (simp add: feed_def idle_def)
next
  case (Cons s ss)
  show ?case
  proof (cases "feed d s")
    case (Inr r)
    obtain xs d1 where r: "feed d s = Inr (xs, d1)" using Inr by (cases r) auto
    have "idle d1" using feed_accounted [OF r Cons.prems] by simp
    from Cons.IH [OF this] have IH: "joined (feed_each d1 ss) = feed d1 (concat ss)" .
    show ?thesis
      unfolding concat.simps feed_append [OF Cons.prems] r bindR_simps prod.case IH [symmetric]
      by (cases "feed_each d1 ss") (auto simp: r)
  qed (simp add: feed_append [OF Cons.prems])
qed

definition field_text :: "pystr \<times> nat option \<Rightarrow> report_text_delta list \<Rightarrow> pystr" where
  "field_text key xs = concat (map rd_text (filter (\<lambda>x. delta_key x = key) xs))"

lemma field_text_simps [simp]:
  "field_text key [] = []"
  "field_text key (x # xs) = (if delta_key x = key then rd_text x @ field_text key xs else field_text key xs)"
  "field_text key (xs @ ys) = field_text key xs @ field_text key ys"
  by (simp_all add: field_text_def)

lemma field_text_glue: "field_text key (glue xs ys) = field_text key xs @ field_text key ys"
proof (cases "xs = [] \<or> ys = []")
  case False
  then obtain us u v vs where "xs = us @ [u]" "ys = v # vs"
    by (metis append_butlast_last_id list.exhaust)
  then show ?thesis by (auto simp: glue_def delta_key_def)
qed auto

lemma field_text_joined: "field_text key (foldr glue xss []) = field_text key (concat xss)"
  by (induction xss) (simp_all add: field_text_glue)

end
