(* ===== verification/Report_Roundtrip.thy ===== *)
theory Report_Roundtrip
  imports Report_Chunks
begin

text \<open>
  The decoder against the serialiser: fed the text \<open>dumps\<close> writes for an object, the state machine
  accepts it and draws exactly the public texts of that object. The lemmas follow the structure
  of the value; \<open>drawn_from f v\<close> is what a value draws when it starts under the frame \<open>f\<close>.
\<close>

section \<open>Numbers\<close>

definition number_char :: "nat \<Rightarrow> bool" where
  "number_char c \<longleftrightarrow> ascii_digit c \<or> c \<in> {43, 45, 46, 69, 101}"

lemma list_all_takeWhile: "list_all P (takeWhile P xs)"
  by (induction xs) auto

lemma list_all_mono: "list_all P xs \<Longrightarrow> (\<And>x. P x \<Longrightarrow> Q x) \<Longrightarrow> list_all Q xs"
  by (induction xs) auto

lemma dropWhile_digits: "\<exists>w. s = w @ dropWhile ascii_digit s \<and> list_all number_char w"
  by (rule exI [of _ "takeWhile ascii_digit s"])
    (auto intro: list_all_mono [OF list_all_takeWhile] simp: number_char_def)

lemma digits_part_prefix: "digits_part s = Some t \<Longrightarrow> \<exists>w. s = w @ t \<and> list_all number_char w"
  using dropWhile_digits [of s] by (auto simp: digits_part_def split: if_splits)

lemma fraction_part_prefix: "fraction_part s = Some t \<Longrightarrow> \<exists>w. s = w @ t \<and> list_all number_char w"
proof (cases "s \<noteq> [] \<and> hd s = 46")
  case True
  assume "fraction_part s = Some t"
  then obtain w where "tl s = w @ t" "list_all number_char w"
    using True digits_part_prefix by (auto simp: fraction_part_def)
  with True show ?thesis
    by (intro exI [of _ "46 # w"]) (cases s; simp add: number_char_def)
qed (simp add: fraction_part_def)

lemma exponent_part_prefix: "exponent_part s = Some t \<Longrightarrow> \<exists>w. s = w @ t \<and> list_all number_char w"
proof (cases "s \<noteq> [] \<and> hd s \<in> {101, 69}")
  case True
  then obtain c u where s: "s = c # u" and c: "number_char c" by (cases s) (auto simp: number_char_def)
  assume e: "exponent_part s = Some t"
  show ?thesis
  proof (cases "u \<noteq> [] \<and> hd u \<in> {43, 45}")
    case True
    then obtain b v where u: "u = b # v" and b: "number_char b" by (cases u) (auto simp: number_char_def)
    have "digits_part v = Some t" using e True s u \<open>s \<noteq> [] \<and> _\<close> by (simp add: exponent_part_def)
    then obtain w where "v = w @ t" "list_all number_char w" using digits_part_prefix by blast
    with s u c b show ?thesis by (intro exI [of _ "c # b # w"]) simp
  next
    case False
    then have "digits_part u = Some t" using e s \<open>s \<noteq> [] \<and> _\<close> by (auto simp: exponent_part_def)
    then obtain w where "u = w @ t" "list_all number_char w" using digits_part_prefix by blast
    with s c show ?thesis by (intro exI [of _ "c # w"]) simp
  qed
qed (auto simp: exponent_part_def)

lemma integer_part_prefix:
  "integer_part s = Some t \<Longrightarrow> \<exists>c w. s = c # w @ t \<and> ascii_digit c \<and> list_all number_char w"
  using dropWhile_digits [of "tl s"]
  by (cases s) (auto simp: integer_part_def ascii_digit_def split: if_splits)

lemma valid_number_chars:
  assumes "valid_json_number s"
  obtains c w where "s = c # w" "c = 45 \<or> ascii_digit c" "list_all number_char w"
proof -
  let ?s = "if s \<noteq> [] \<and> hd s = 45 then tl s else s"
  from assms obtain t u where p: "integer_part ?s = Some t" "fraction_part t = Some u"
    "exponent_part u = Some []"
    by (auto simp: valid_json_number_def split: option.splits)
  from integer_part_prefix [OF p(1)] obtain c w1 where 1: "?s = c # w1 @ t" "ascii_digit c" "list_all number_char w1"
    by blast
  from fraction_part_prefix [OF p(2)] obtain w2 where 2: "t = w2 @ u" "list_all number_char w2" by blast
  from exponent_part_prefix [OF p(3)] have 3: "list_all number_char u" by auto
  have all: "list_all number_char (w1 @ t)" using 1(3) 2 3 by simp
  show thesis
  proof (cases "s \<noteq> [] \<and> hd s = 45")
    case True
    then have "s = 45 # c # w1 @ t" using 1(1) by (cases s) auto
    moreover have "number_char c" using 1(2) by (simp add: number_char_def)
    ultimately show thesis using that [of 45 "c # w1 @ t"] all by simp
  next
    case False
    then have "s = c # w1 @ t" using 1(1) by (simp only: if_False)
    with that [of c "w1 @ t"] 1(2) all show thesis by simp
  qed
qed

lemma nat_text_digits:
  "list_all ascii_digit (nat_text n) \<and> (0 < n \<longrightarrow> 49 \<le> hd (nat_text n))"
proof (induction n rule: nat_text.induct)
  case (1 n)
  show ?case
  proof (cases "n < 10")
    case True
    then show ?thesis by (subst (1 2) nat_text.simps) (auto simp: ascii_digit_def)
  next
    case False
    have "0 < n div 10" using False by simp
    moreover have "ascii_digit (48 + n mod 10)" by (simp add: ascii_digit_def)
    ultimately show ?thesis using 1 [OF False] False
      by (subst (1 2) nat_text.simps) simp
  qed
qed

lemma dropWhile_all: "list_all P xs \<Longrightarrow> dropWhile P xs = []"
  by (induction xs) auto

lemma integer_part_nat_text: "integer_part (nat_text n) = Some []"
proof -
  obtain c cs where c: "nat_text n = c # cs" by (cases "nat_text n") auto
  show ?thesis
  proof (cases "n = 0")
    case True
    then show ?thesis by (subst nat_text.simps) (simp add: integer_part_def)
  next
    case False
    with nat_text_digits [of n] c have "49 \<le> c" "c \<le> 57" "list_all ascii_digit cs"
      by (auto simp: ascii_digit_def)
    with c show ?thesis by (simp add: integer_part_def dropWhile_all)
  qed
qed

lemma int_text_valid: "valid_json_number (int_text i)"
proof -
  have "hd (nat_text n) \<noteq> 45" for n
    using nat_text_digits [of n] by (cases "nat_text n") (auto simp: ascii_digit_def)
  then show ?thesis
    by (simp add: valid_json_number_def int_text_def integer_part_nat_text fraction_part_def exponent_part_def)
qed

section \<open>Strings\<close>

definition put_chars :: "decoder \<Rightarrow> ((pystr \<times> nat option) \<times> nat) list \<Rightarrow> decoder" where
  "put_chars d kcs = foldl put_char d kcs"

definition chars_bytes :: "((pystr \<times> nat option) \<times> nat) list \<Rightarrow> nat" where
  "chars_bytes kcs = utf8_len (map snd kcs)"

lemma put_chars_simps [simp]:
  "put_chars d [] = d" "put_chars d (x # xs) = put_chars (put_char d x) xs"
  "put_chars d (xs @ ys) = put_chars (put_chars d xs) ys"
  by (simp_all add: put_chars_def)

lemma chars_bytes_simps [simp]:
  "chars_bytes [] = 0" "chars_bytes ((k, c) # xs) = utf8_size c + chars_bytes xs"
  "chars_bytes (xs @ ys) = chars_bytes xs + chars_bytes ys" "chars_bytes (map (Pair k) s) = utf8_len s"
  by (simp_all add: chars_bytes_def comp_def)

lemma put_char_keeps [simp]:
  "dc_stack (put_char d kc) = dc_stack d" "dc_string (put_char d kc) = dc_string d"
  "dc_primitive (put_char d kc) = dc_primitive d" "dc_max (put_char d kc) = dc_max d"
  "dc_complete (put_char d kc) = dc_complete d" "dc_started (put_char d kc) = dc_started d"
  "dc_finished (put_char d kc) = dc_finished d"
  "dc_bytes (put_char d kc) = dc_bytes d + utf8_size (snd kc)"
  by (simp_all add: put_char_def Let_def)

lemma put_chars_keeps [simp]:
  "dc_stack (put_chars d kcs) = dc_stack d" "dc_string (put_chars d kcs) = dc_string d"
  "dc_primitive (put_chars d kcs) = dc_primitive d" "dc_max (put_chars d kcs) = dc_max d"
  "dc_complete (put_chars d kcs) = dc_complete d" "dc_started (put_chars d kcs) = dc_started d"
  "dc_finished (put_chars d kcs) = dc_finished d"
  by (induction kcs arbitrary: d) simp_all

lemma put_chars_bytes [simp]: "dc_bytes (put_chars d kcs) = dc_bytes d + chars_bytes kcs"
  by (induction kcs arbitrary: d) auto

lemma put_char_upd:
  "(put_char d kc)\<lparr>dc_stack := s\<rparr> = put_char (d\<lparr>dc_stack := s\<rparr>) kc"
  "(put_char d kc)\<lparr>dc_string := t\<rparr> = put_char (d\<lparr>dc_string := t\<rparr>) kc"
  "(put_char d kc)\<lparr>dc_primitive := p\<rparr> = put_char (d\<lparr>dc_primitive := p\<rparr>) kc"
  "(put_char d kc)\<lparr>dc_complete := b\<rparr> = put_char (d\<lparr>dc_complete := b\<rparr>) kc"
  "(put_char d kc)\<lparr>dc_started := b\<rparr> = put_char (d\<lparr>dc_started := b\<rparr>) kc"
  by (simp_all add: put_char_def Let_def)

lemma put_chars_upd:
  "(put_chars d kcs)\<lparr>dc_stack := s\<rparr> = put_chars (d\<lparr>dc_stack := s\<rparr>) kcs"
  "(put_chars d kcs)\<lparr>dc_string := t\<rparr> = put_chars (d\<lparr>dc_string := t\<rparr>) kcs"
  "(put_chars d kcs)\<lparr>dc_primitive := p\<rparr> = put_chars (d\<lparr>dc_primitive := p\<rparr>) kcs"
  "(put_chars d kcs)\<lparr>dc_complete := b\<rparr> = put_chars (d\<lparr>dc_complete := b\<rparr>) kcs"
  "(put_chars d kcs)\<lparr>dc_started := b\<rparr> = put_chars (d\<lparr>dc_started := b\<rparr>) kcs"
  by (induction kcs arbitrary: d) (simp_all add: put_char_upd)

definition clean :: "string_token \<Rightarrow> bool" where
  "clean t \<longleftrightarrow> \<not> st_escaped t \<and> st_digits t = None \<and> st_high t = None \<and> st_low t = None"

lemma hex_value_digit: "n < 16 \<Longrightarrow> hex_value (hex_digit n) = Some n"
  by (auto simp: hex_value_def hex_digit_def)

lemma hex_value_zero: "hex_value 48 = Some 0"
  by (simp add: hex_value_def)

lemma feed_string_step: "dc_string d = Some t \<Longrightarrow> feed_char d c = consume_string_char d t c"
  by (simp add: feed_char_def)

lemma emit_upd: "emit_string_char (d\<lparr>dc_string := x\<rparr>) t c = emit_string_char d t c"
  by (simp add: emit_string_char_def put_char_def Let_def split: option.split)

lemma feed_escape_char:
  assumes str: "dc_string d = Some t" and t: "clean t" and c: "\<not> is_surrogate c"
  shows "feed_loop d (escape_char c) = emit_string_char d t c"
proof -
  have t': "t\<lparr>st_escaped := False\<rparr> = t" "t\<lparr>st_digits := None\<rparr> = t"
    using t by (simp_all add: clean_def)
  let ?x = "escape_char c"
  have two: "feed_loop d [92, e] = emit_string_char d t v" if "escape_value e = Some v" "e \<noteq> 117" for e v
  proof -
    have "feed_char d 92 = Inr (d\<lparr>dc_string := Some (t\<lparr>st_escaped := True\<rparr>)\<rparr>)"
      using str t by (simp add: feed_string_step consume_string_char_def clean_def)
    moreover have "feed_char (d\<lparr>dc_string := Some (t\<lparr>st_escaped := True\<rparr>)\<rparr>) e = emit_string_char d t v"
      using that t by (simp add: feed_string_step consume_string_char_def consume_escape_def clean_def emit_upd t')
    ultimately show ?thesis by (cases "emit_string_char d t v") simp_all
  qed
  have six: "feed_loop d [92, 117, 48, 48, hex_digit (c div 16), hex_digit (c mod 16)] = emit_string_char d t c"
    if "c < 32"
  proof -
    have h: "hex_value (hex_digit (c div 16)) = Some (c div 16)" "hex_value (hex_digit (c mod 16)) = Some (c mod 16)"
      using that by (simp_all add: hex_value_digit)
    have n: "hex_number [48, 48, hex_digit (c div 16), hex_digit (c mod 16)] = c"
      by (simp add: hex_number_def h hex_value_zero)
    let ?t = "\<lambda>ds. d\<lparr>dc_string := Some (t\<lparr>st_digits := Some ds\<rparr>)\<rparr>"
    have 1: "feed_char d 92 = Inr (d\<lparr>dc_string := Some (t\<lparr>st_escaped := True\<rparr>)\<rparr>)"
      using str t by (simp add: feed_string_step consume_string_char_def clean_def)
    have 2: "feed_char (d\<lparr>dc_string := Some (t\<lparr>st_escaped := True\<rparr>)\<rparr>) 117 = Inr (?t [])"
      using t by (simp add: feed_string_step consume_string_char_def consume_escape_def clean_def t')
    have 3: "feed_char (?t ds) e = Inr (?t (ds @ [e]))" if "length ds < 3" "hex_value e \<noteq> None" for ds e
      using that t by (simp add: feed_string_step consume_string_char_def consume_hex_digit_def clean_def Let_def)
    have 4: "feed_char (?t [48, 48, hex_digit (c div 16)]) (hex_digit (c mod 16)) = emit_string_char d t c"
      using t \<open>c < 32\<close> by (simp add: feed_string_step consume_string_char_def consume_hex_digit_def clean_def
          Let_def h n emit_upd t')
    show ?thesis
      by (cases "emit_string_char d t c") (simp_all add: 1 2 3 4 h hex_value_zero)
  qed
  have one: "feed_loop d [c] = emit_string_char d t c" if "c \<noteq> 34" "c \<noteq> 92" "\<not> c < 32"
    using that c str t by (cases "emit_string_char d t c")
      (simp_all add: feed_string_step consume_string_char_def clean_def)
  show ?thesis using two six one by (simp add: escape_char_def escape_value_def)
qed

definition read_string :: "decoder \<Rightarrow> string_token \<Rightarrow> pystr \<Rightarrow> decoder" where
  "read_string d t s =
     (if st_role t = KeyString then d\<lparr>dc_string := Some (t\<lparr>st_key_parts := st_key_parts t @ s\<rparr>)\<rparr>
      else case st_field t of
        None \<Rightarrow> d
      | Some k \<Rightarrow> put_chars d (map (Pair (k, st_index t)) s))"

definition fits :: "decoder \<Rightarrow> string_token \<Rightarrow> pystr \<Rightarrow> bool" where
  "fits d t s \<longleftrightarrow> st_role t = KeyString \<or> st_field t = None \<or> dc_bytes d + utf8_len s \<le> dc_max d"

lemma feed_escape:
  "dc_string d = Some t \<Longrightarrow> clean t \<Longrightarrow> encodable s \<Longrightarrow> fits d t s \<Longrightarrow>
     feed_loop d (escape s) = Inr (read_string d t s)"
proof (induction s arbitrary: d t)
  case Nil
  then have "d\<lparr>dc_string := Some t\<rparr> = d" by simp
  with Nil show ?case by (simp add: read_string_def split: option.split)
next
  case (Cons c s)
  have e: "d\<lparr>dc_string := Some t\<rparr> = d" using Cons.prems(1) by simp
  have f: "feed_loop d (escape_char c) = emit_string_char d t c"
    using Cons.prems by (intro feed_escape_char) simp_all
  show ?case
  proof (cases "st_role t = KeyString")
    case True
    let ?t = "t\<lparr>st_key_parts := st_key_parts t @ [c]\<rparr>"
    have "clean ?t" using Cons.prems(2) by (simp add: clean_def)
    with True Cons.prems(3) Cons.IH [of "d\<lparr>dc_string := Some ?t\<rparr>" ?t] f show ?thesis
      by (simp add: feed_loop_append emit_string_char_def read_string_def fits_def)
  next
    case val: False
    show ?thesis
    proof (cases "st_field t")
      case None
      with val Cons.prems Cons.IH [of d t] f e show ?thesis
        by (simp add: feed_loop_append emit_string_char_def read_string_def fits_def)
    next
      case (Some k)
      let ?d = "put_char d ((k, st_index t), c)"
      have "fits ?d t s" "dc_bytes d + utf8_size c \<le> dc_max d"
        using val Some Cons.prems(4) by (simp_all add: fits_def)
      with val Some Cons.prems Cons.IH [of ?d t] f e show ?thesis
        by (simp add: feed_loop_append emit_string_char_def read_string_def)
    qed
  qed
qed

section \<open>Values\<close>

fun report_json :: "json \<Rightarrow> bool" where
  "report_json (JFloat t) \<longleftrightarrow> valid_json_number t"
| "report_json (JStr s) \<longleftrightarrow> encodable s"
| "report_json (JArr xs) \<longleftrightarrow> list_all report_json xs"
| "report_json (JObj kvs) \<longleftrightarrow> distinct (map fst kvs) \<and> list_all (\<lambda>(k, v). encodable k \<and> report_json v) kvs"
| "report_json _ \<longleftrightarrow> True"

definition value_pos :: "frame \<Rightarrow> bool" where
  "value_pos f \<longleftrightarrow>
     (case fr_kind f of ObjectFrame \<Rightarrow> fr_state f = ExpectValue
      | ArrayFrame \<Rightarrow> fr_state f \<in> {ValueOrEnd, ValueRequired})"

definition completed :: "frame \<Rightarrow> frame" where
  "completed f =
     (case fr_kind f of
        ObjectFrame \<Rightarrow> f\<lparr>fr_state := CommaOrEnd, fr_current_key := None\<rparr>
      | ArrayFrame \<Rightarrow> f\<lparr>fr_state := CommaOrEnd, fr_item_count := fr_item_count f + 1\<rparr>)"

lemma complete_frame_pos: "value_pos f \<Longrightarrow> complete_frame f = Inr (completed f)"
  by (auto simp: complete_frame_def completed_def value_pos_def split: frame_kind.splits)

definition quiet :: "decoder \<Rightarrow> bool" where
  "quiet d \<longleftrightarrow> dc_string d = None \<and> dc_primitive d = None"

definition root_key :: "frame \<Rightarrow> pystr option" where
  "root_key f = (if fr_kind f = ObjectFrame \<and> fr_root f then fr_current_key f else None)"

definition string_key :: "frame \<Rightarrow> (pystr \<times> nat option) option" where
  "string_key f =
     (case fr_kind f of
        ObjectFrame \<Rightarrow> (case root_key f of
            Some k \<Rightarrow> if k \<in> report_text_fields then Some (k, None) else None | None \<Rightarrow> None)
      | ArrayFrame \<Rightarrow> (case fr_draft_field f of
            Some k \<Rightarrow> Some (k, Some (fr_item_count f)) | None \<Rightarrow> None))"

definition array_frame :: "frame \<Rightarrow> frame" where
  "array_frame f = (new_frame ArrayFrame ValueOrEnd)\<lparr>fr_draft_field :=
     (case root_key f of Some k \<Rightarrow> if k \<in> report_list_fields then Some k else None | None \<Rightarrow> None)\<rparr>"

definition string_from :: "frame \<Rightarrow> json \<Rightarrow> ((pystr \<times> nat option) \<times> nat) list" where
  "string_from f v =
     (case (v, string_key f) of (JStr s, Some key) \<Rightarrow> map (Pair key) s | _ \<Rightarrow> [])"

fun items_from :: "frame \<Rightarrow> json list \<Rightarrow> ((pystr \<times> nat option) \<times> nat) list" where
  "items_from f [] = []"
| "items_from f (x # xs) =
     string_from f x @ items_from (f\<lparr>fr_state := ValueRequired, fr_item_count := fr_item_count f + 1\<rparr>) xs"

definition drawn_from :: "frame \<Rightarrow> json \<Rightarrow> ((pystr \<times> nat option) \<times> nat) list" where
  "drawn_from f v = (case v of JArr xs \<Rightarrow> items_from (array_frame f) xs | _ \<Rightarrow> string_from f v)"

lemma items_from_silent: "fr_kind f = ArrayFrame \<Longrightarrow> fr_draft_field f = None \<Longrightarrow> items_from f xs = []"
  by (induction f xs rule: items_from.induct)
    (simp_all add: string_from_def string_key_def split: json.split)

lemma array_frame_simps [simp]:
  "fr_kind (array_frame f) = ArrayFrame" "fr_state (array_frame f) = ValueOrEnd"
  "fr_item_count (array_frame f) = 0"
  by (simp_all add: array_frame_def new_frame_def)

lemma drawn_from_item: "fr_kind f = ArrayFrame \<Longrightarrow> drawn_from f x = string_from f x"
  by (auto simp: drawn_from_def string_from_def root_key_def array_frame_def new_frame_def items_from_silent
      split: json.split)

lemma drawn_from_silent: "fr_kind f = ObjectFrame \<Longrightarrow> \<not> fr_root f \<Longrightarrow> drawn_from f v = []"
  by (auto simp: drawn_from_def string_from_def string_key_def root_key_def array_frame_def new_frame_def
      items_from_silent split: json.split)

abbreviation with_stack :: "decoder \<Rightarrow> frame list \<Rightarrow> decoder" where
  "with_stack d s \<equiv> d\<lparr>dc_stack := s\<rparr>"

definition reads :: "json \<Rightarrow> bool" where
  "reads v \<longleftrightarrow> (\<forall>d f fs e rest. quiet d \<longrightarrow> dc_stack d = f # fs \<longrightarrow> value_pos f \<longrightarrow>
     dc_bytes d + chars_bytes (drawn_from f v) \<le> dc_max d \<longrightarrow> primitive_end e \<longrightarrow>
     feed_loop d (dumps v @ e # rest) =
       feed_loop (with_stack (put_chars d (drawn_from f v)) (completed f # fs)) (e # rest))"

lemma readsD:
  "reads v \<Longrightarrow> quiet d \<Longrightarrow> dc_stack d = f # fs \<Longrightarrow> value_pos f \<Longrightarrow>
     dc_bytes d + chars_bytes (drawn_from f v) \<le> dc_max d \<Longrightarrow> primitive_end e \<Longrightarrow>
     feed_loop d (dumps v @ e # rest) =
       feed_loop (with_stack (put_chars d (drawn_from f v)) (completed f # fs)) (e # rest)"
  by (simp add: reads_def)

lemma quiet_simps [simp]:
  "quiet (with_stack d s) = quiet d" "quiet (put_char d k) = quiet d" "quiet (put_chars d ks) = quiet d"
  by (simp_all add: quiet_def)

lemma feed_quiet: "quiet d \<Longrightarrow> feed_char d c = consume_json_char d c"
  by (simp add: quiet_def feed_char_def)

lemma consume_value:
  assumes "dc_stack d = f # fs" "value_pos f" "\<not> json_space c" "c \<noteq> 93"
  shows "consume_json_char d c = start_value d c"
  using assms by (auto simp: consume_json_char_def consume_object_char_def consume_array_char_def value_pos_def
      split: frame_kind.splits)

lemma start_other:
  assumes "dc_stack d = f # fs" "value_pos f" "c \<noteq> 34" "c \<noteq> 123" "c \<noteq> 91"
  shows "start_value d c = start_primitive d c"
  using assms by (auto simp: start_value_def value_pos_def Let_def split: frame_kind.splits)

lemma feed_primitive:
  "dc_string d = None \<Longrightarrow> dc_primitive d = Some p \<Longrightarrow> list_all (\<lambda>c. \<not> primitive_end c) s \<Longrightarrow>
     feed_loop d s = Inr (d\<lparr>dc_primitive := Some (p @ s)\<rparr>)"
proof (induction s arbitrary: d p)
  case (Cons c s)
  from Cons.prems Cons.IH [of "d\<lparr>dc_primitive := Some (p @ [c])\<rparr>" "p @ [c]"] show ?case
    by (simp add: feed_char_def)
qed simp

lemma reads_primitive:
  assumes p: "dumps v = c # w" "primitive_start c" "list_all (\<lambda>c. \<not> primitive_end c) w"
    and ok: "dumps v \<in> {lit ''true'', lit ''false'', lit ''null''} \<or> valid_json_number (dumps v)"
    and n: "\<And>f. drawn_from f v = []"
  shows "reads v"
  unfolding reads_def
proof (intro allI impI)
  fix d f fs e rest
  assume d: "quiet d" "dc_stack d = f # fs" "value_pos f" and e: "primitive_end e"
  let ?d1 = "d\<lparr>dc_primitive := Some [c]\<rparr>"
  let ?d2 = "d\<lparr>dc_primitive := Some (dumps v)\<rparr>"
  let ?d3 = "with_stack d (completed f # fs)"
  have c: "\<not> json_space c" "c \<noteq> 93" "c \<noteq> 34" "c \<noteq> 123" "c \<noteq> 91"
    using p(2) by (auto simp: primitive_start_def lit_def json_space_def)
  have 1: "feed_char d c = Inr ?d1"
    using feed_quiet [OF d(1)] consume_value [OF d(2,3) c(1,2)] start_other [OF d(2,3) c(3-5)] p(2)
    by (simp add: start_primitive_def)
  have 2: "feed_loop ?d1 w = Inr ?d2"
    using feed_primitive [of ?d1 "[c]" w] d(1) p by (simp add: quiet_def)
  have "d\<lparr>dc_primitive := None\<rparr> = d" using d(1) by (simp add: quiet_def)
  then have "finish_primitive ?d2 (dumps v) = Inr ?d3"
    using ok d by (auto simp: finish_primitive_def complete_value_def complete_frame_pos set_top_def)
  then have 3: "feed_char ?d2 e = feed_char ?d3 e"
    using d e by (simp add: feed_char_def quiet_def)
  have "feed_loop d (dumps v @ e # rest) = feed_loop ?d2 (e # rest)"
    using 1 2 by (simp add: p(1) feed_loop_append)
  also have "\<dots> = feed_loop ?d3 (e # rest)" using 3 by simp
  finally show "feed_loop d (dumps v @ e # rest) =
      feed_loop (with_stack (put_chars d (drawn_from f v)) (completed f # fs)) (e # rest)"
    by (simp add: n)
qed

lemma reads_number:
  assumes "dumps v = s" "valid_json_number s" "\<And>f. drawn_from f v = []"
  shows "reads v"
proof -
  from valid_number_chars [OF assms(2)] obtain c w where
    c: "s = c # w" "c = 45 \<or> ascii_digit c" "list_all number_char w" .
  have "primitive_start c"
  proof (cases "c = 45")
    case False
    then have "48 \<le> c" "c \<le> 57" using c(2) by (simp_all add: ascii_digit_def)
    then have "c = 48 \<or> c = 49 \<or> c = 50 \<or> c = 51 \<or> c = 52 \<or> c = 53 \<or> c = 54 \<or> c = 55 \<or> c = 56 \<or> c = 57"
      by presburger
    then show ?thesis by (auto simp: primitive_start_def lit_def)
  qed (simp add: primitive_start_def lit_def)
  moreover have "list_all (\<lambda>c. \<not> primitive_end c) w"
    by (rule list_all_mono [OF c(3)])
      (auto simp: number_char_def primitive_end_def json_space_def ascii_digit_def)
  ultimately show ?thesis using assms c(1) by (intro reads_primitive) auto
qed

lemma reads_string:
  assumes "encodable s"
  shows "reads (JStr s)"
  unfolding reads_def
proof (intro allI impI)
  fix d f fs e rest
  assume d: "quiet d" "dc_stack d = f # fs" "value_pos f"
    and b: "dc_bytes d + chars_bytes (drawn_from f (JStr s)) \<le> dc_max d"
  define t where "t = (new_string ValueString)
    \<lparr>st_field := map_option fst (string_key f), st_index := Option.bind (string_key f) snd\<rparr>"
  have cl: "clean t" and role: "st_role t = ValueString"
    by (simp_all add: t_def clean_def new_string_def)
  let ?d1 = "d\<lparr>dc_string := Some t\<rparr>"
  have 1: "feed_char d 34 = Inr ?d1"
  proof -
    have "feed_char d 34 = start_value d 34"
      using feed_quiet [OF d(1)] consume_value [OF d(2,3), of 34] by (simp add: json_space_def)
    also have "\<dots> = Inr ?d1"
      using d(2,3) by (auto simp: start_value_def value_pos_def Let_def t_def string_key_def root_key_def
          new_string_def split: frame_kind.splits option.splits)
    finally show ?thesis .
  qed
  have fit: "fits ?d1 t s"
    using b by (auto simp: fits_def t_def drawn_from_def string_from_def split: option.splits)
  have 2: "feed_loop ?d1 (escape s) = Inr (read_string ?d1 t s)"
    using feed_escape [OF _ cl assms fit] by simp
  let ?k = "drawn_from f (JStr s)"
  have rs: "read_string ?d1 t s = (put_chars d ?k)\<lparr>dc_string := Some t\<rparr>"
    unfolding read_string_def role
    by (auto simp: t_def drawn_from_def string_from_def put_chars_upd split: option.split)
  have "d\<lparr>dc_string := None\<rparr> = d" using d(1) by (simp add: quiet_def)
  then have "(put_chars d ?k)\<lparr>dc_string := None\<rparr> = put_chars d ?k"
    by (simp only: put_chars_upd)
  then have 3: "feed_char (read_string ?d1 t s) 34 = Inr (with_stack (put_chars d ?k) (completed f # fs))"
    using d(2,3) cl by (simp add: rs feed_string_step consume_string_char_def clean_def close_string_def role
        complete_value_def complete_frame_pos set_top_def)
  show "feed_loop d (dumps (JStr s) @ e # rest) =
      feed_loop (with_stack (put_chars d ?k) (completed f # fs)) (e # rest)"
    using 1 2 3 by (simp add: quote_def feed_loop_append)
qed

section \<open>Arrays and objects\<close>

definition after_items :: "frame \<Rightarrow> nat \<Rightarrow> frame" where
  "after_items g n = g\<lparr>fr_state := CommaOrEnd, fr_item_count := fr_item_count g + n\<rparr>"

lemma feed_items:
  "xs \<noteq> [] \<Longrightarrow> (\<And>x. x \<in> set xs \<Longrightarrow> reads x) \<Longrightarrow> quiet d \<Longrightarrow> dc_stack d = g # fs \<Longrightarrow>
     fr_kind g = ArrayFrame \<Longrightarrow> fr_state g \<in> {ValueOrEnd, ValueRequired} \<Longrightarrow>
     dc_bytes d + chars_bytes (items_from g xs) \<le> dc_max d \<Longrightarrow>
     feed_loop d (join [44] (map dumps xs) @ 93 # rest) =
       feed_loop (with_stack (put_chars d (items_from g xs)) (after_items g (length xs) # fs)) (93 # rest)"
proof (induction xs arbitrary: d g)
  case (Cons x xs)
  have pos: "value_pos g" using Cons.prems by (simp add: value_pos_def)
  have x: "drawn_from g x = string_from g x" using Cons.prems by (intro drawn_from_item)
  have g1: "completed g = after_items g 1"
    using Cons.prems by (simp add: completed_def after_items_def)
  have bx: "dc_bytes d + chars_bytes (drawn_from g x) \<le> dc_max d" using Cons.prems by (simp add: x)
  have ends: "primitive_end 44" "primitive_end 93" by (simp_all add: primitive_end_def)
  have "reads x" using Cons.prems(2) by simp
  note rx = readsD [OF this Cons.prems(3,4) pos bx]
  show ?case
  proof (cases xs)
    case Nil
    show ?thesis using rx [OF ends(2), of rest] by (simp add: Nil x g1 del: feed_loop.simps)
  next
    case (Cons y ys)
    let ?d1 = "with_stack (put_chars d (string_from g x)) (after_items g 1 # fs)"
    let ?g = "g\<lparr>fr_state := ValueRequired, fr_item_count := fr_item_count g + 1\<rparr>"
    let ?d2 = "with_stack (put_chars d (string_from g x)) (?g # fs)"
    have split: "join [44] (map dumps (x # xs)) @ 93 # rest
        = dumps x @ 44 # (join [44] (map dumps xs) @ 93 # rest)" by (simp add: Cons)
    have comma: "feed_char ?d1 44 = Inr ?d2"
      using Cons.prems(3,5) by (simp add: feed_quiet consume_json_char_def json_space_def consume_array_char_def
          after_items_def set_top_def)
    have "feed_loop d (join [44] (map dumps (x # xs)) @ 93 # rest)
        = feed_loop ?d1 (44 # join [44] (map dumps xs) @ 93 # rest)"
      unfolding split using rx [OF ends(1), of "join [44] (map dumps xs) @ 93 # rest"]
      by (simp only: x g1)
    also have "\<dots> = feed_loop ?d2 (join [44] (map dumps xs) @ 93 # rest)"
      using comma by (simp del: join.simps)
    also have "\<dots> = feed_loop (with_stack (put_chars ?d2 (items_from ?g xs)) (after_items ?g (length xs) # fs)) (93 # rest)"
      by (rule Cons.IH) (use Cons Cons.prems in \<open>auto simp: x\<close>)
    finally show ?thesis
      by (simp add: put_chars_upd after_items_def)
  qed
qed simp

lemma reads_array:
  assumes sub: "\<And>x. x \<in> set xs \<Longrightarrow> reads x"
  shows "reads (JArr xs)"
  unfolding reads_def
proof (intro allI impI)
  fix d f fs e rest
  assume d: "quiet d" "dc_stack d = f # fs" "value_pos f"
    and b: "dc_bytes d + chars_bytes (drawn_from f (JArr xs)) \<le> dc_max d"
  let ?g = "array_frame f"
  let ?d1 = "with_stack d (?g # f # fs)"
  have k: "drawn_from f (JArr xs) = items_from ?g xs" by (simp add: drawn_from_def)
  have 1: "feed_char d 91 = Inr ?d1"
  proof -
    have "feed_char d 91 = start_value d 91"
      using feed_quiet [OF d(1)] consume_value [OF d(2,3), of 91] by (simp add: json_space_def)
    also have "\<dots> = Inr ?d1"
      using d(2,3) by (auto simp: start_value_def value_pos_def Let_def root_key_def push_frame_def
          array_frame_def new_frame_def split: frame_kind.splits option.splits)
    finally show ?thesis .
  qed
  have close: "feed_char (with_stack (put_chars d ks) (g # f # fs)) 93
      = Inr (with_stack (put_chars d ks) (completed f # fs))"
    if "fr_kind g = ArrayFrame" "fr_state g \<in> {ValueOrEnd, CommaOrEnd}" for g ks
    using that d by (auto simp: feed_quiet consume_json_char_def json_space_def consume_array_char_def
        close_container_def Let_def complete_value_def complete_frame_pos set_top_def)
  show "feed_loop d (dumps (JArr xs) @ e # rest) =
      feed_loop (with_stack (put_chars d (drawn_from f (JArr xs))) (completed f # fs)) (e # rest)"
  proof (cases "xs = []")
    case True
    have "feed_char ?d1 93 = Inr (with_stack d (completed f # fs))"
      using close [of ?g "[]"] by simp
    moreover have "drawn_from f (JArr []) = []" using k True by simp
    ultimately show ?thesis using 1 by (simp add: True del: array_frame_simps)
  next
    case False
    let ?g1 = "after_items ?g (length xs)"
    have "feed_loop ?d1 (join [44] (map dumps xs) @ 93 # e # rest) =
        feed_loop (with_stack (put_chars ?d1 (items_from ?g xs)) (?g1 # f # fs)) (93 # e # rest)"
      using False sub d b by (intro feed_items) (auto simp: k)
    moreover have "with_stack (put_chars ?d1 (items_from ?g xs)) (?g1 # f # fs)
        = with_stack (put_chars d (items_from ?g xs)) (?g1 # f # fs)"
      by (simp add: put_chars_upd)
    ultimately show ?thesis using 1 close [of ?g1 "items_from ?g xs"]
      by (simp add: k after_items_def)
  qed
qed

fun fields_from :: "frame \<Rightarrow> (pystr \<times> json) list \<Rightarrow> ((pystr \<times> nat option) \<times> nat) list" where
  "fields_from f [] = []"
| "fields_from f ((k, v) # kvs) = drawn_from (f\<lparr>fr_current_key := Some k\<rparr>) v @ fields_from f kvs"

lemma drawn_from_cong:
  assumes "fr_kind f = fr_kind g" "fr_root f = fr_root g" "fr_current_key f = fr_current_key g"
    "fr_draft_field f = fr_draft_field g" "fr_item_count f = fr_item_count g"
  shows "drawn_from f v = drawn_from g v"
proof -
  have "root_key f = root_key g" using assms by (simp add: root_key_def)
  then have "string_key f = string_key g" "array_frame f = array_frame g"
    using assms unfolding string_key_def array_frame_def by (simp_all only:)
  then show ?thesis by (simp add: drawn_from_def string_from_def split: json.split)
qed

lemma fields_from_cong:
  assumes "fr_kind f = fr_kind g" "fr_root f = fr_root g" "fr_draft_field f = fr_draft_field g"
    "fr_item_count f = fr_item_count g"
  shows "fields_from f kvs = fields_from g kvs"
proof (induction kvs)
  case (Cons kv kvs)
  obtain k v where kv: "kv = (k, v)" by (cases kv)
  have "drawn_from (f\<lparr>fr_current_key := Some k\<rparr>) v = drawn_from (g\<lparr>fr_current_key := Some k\<rparr>) v"
    using assms by (intro drawn_from_cong) simp_all
  with Cons kv show ?case by simp
qed simp

lemma fields_from_silent: "fr_kind f = ObjectFrame \<Longrightarrow> \<not> fr_root f \<Longrightarrow> fields_from f kvs = []"
  by (induction f kvs rule: fields_from.induct) (simp_all add: drawn_from_silent)

text \<open>A member: the key's string, the colon, the value.\<close>

definition member :: "pystr \<times> json \<Rightarrow> pystr" where
  "member kv = quote (fst kv) @ 58 # dumps (snd kv)"

lemma feed_member:
  assumes v: "reads v" and k: "encodable k" "k \<notin> fr_keys g"
    and d: "quiet d" "dc_stack d = g # fs" "fr_kind g = ObjectFrame" "fr_state g \<in> {KeyOrEnd, KeyRequired}"
    and b: "dc_bytes d + chars_bytes (drawn_from (g\<lparr>fr_current_key := Some k\<rparr>) v) \<le> dc_max d"
    and e: "primitive_end e"
  shows "feed_loop d (member (k, v) @ e # rest) =
     feed_loop (with_stack (put_chars d (drawn_from (g\<lparr>fr_current_key := Some k\<rparr>) v))
       (g\<lparr>fr_state := CommaOrEnd, fr_keys := insert k (fr_keys g), fr_current_key := None\<rparr> # fs)) (e # rest)"
proof -
  let ?t = "new_string KeyString"
  let ?tk = "?t\<lparr>st_key_parts := k\<rparr>"
  let ?g1 = "g\<lparr>fr_state := ExpectColon, fr_keys := insert k (fr_keys g), fr_current_key := Some k\<rparr>"
  let ?g2 = "?g1\<lparr>fr_state := ExpectValue\<rparr>"
  have same: "d\<lparr>dc_string := None\<rparr> = d" using d(1) by (simp add: quiet_def)
  have 1: "feed_char d 34 = Inr (d\<lparr>dc_string := Some ?t\<rparr>)"
    using d by (auto simp: feed_quiet consume_json_char_def json_space_def consume_object_char_def)
  have 2: "feed_loop (d\<lparr>dc_string := Some ?t\<rparr>) (escape k) = Inr (d\<lparr>dc_string := Some ?tk\<rparr>)"
    by (subst feed_escape [of _ ?t])
      (simp_all add: clean_def new_string_def fits_def read_string_def k(1))
  have 3: "feed_char (d\<lparr>dc_string := Some ?tk\<rparr>) 34 = Inr (with_stack d (?g1 # fs))"
  proof -
    show ?thesis
      using d k(2) by (simp add: feed_string_step consume_string_char_def close_string_def new_string_def
          set_top_def same)
  qed
  have 4: "feed_char (with_stack d (?g1 # fs)) 58 = Inr (with_stack d (?g2 # fs))"
    using d by (simp add: feed_quiet consume_json_char_def json_space_def consume_object_char_def set_top_def)
  have dv: "drawn_from ?g2 v = drawn_from (g\<lparr>fr_current_key := Some k\<rparr>) v"
    by (rule drawn_from_cong) simp_all
  have 5: "feed_loop (with_stack d (?g2 # fs)) (dumps v @ e # rest) =
      feed_loop (with_stack (put_chars (with_stack d (?g2 # fs)) (drawn_from ?g2 v)) (completed ?g2 # fs)) (e # rest)"
    using d b dv e by (intro readsD [OF v]) (simp_all add: value_pos_def)
  have "completed ?g2 = g\<lparr>fr_state := CommaOrEnd, fr_keys := insert k (fr_keys g), fr_current_key := None\<rparr>"
    using d by (simp add: completed_def)
  with 1 2 3 4 5 dv show ?thesis
    by (simp add: member_def quote_def feed_loop_append put_chars_upd)
qed

definition after_fields :: "frame \<Rightarrow> (pystr \<times> json) list \<Rightarrow> frame" where
  "after_fields g kvs = g\<lparr>fr_state := CommaOrEnd, fr_keys := fr_keys g \<union> fst ` set kvs,
                          fr_current_key := None\<rparr>"

lemma feed_fields:
  "kvs \<noteq> [] \<Longrightarrow> (\<And>k v. (k, v) \<in> set kvs \<Longrightarrow> reads v \<and> encodable k) \<Longrightarrow> distinct (map fst kvs) \<Longrightarrow>
     fr_keys g \<inter> fst ` set kvs = {} \<Longrightarrow> quiet d \<Longrightarrow> dc_stack d = g # fs \<Longrightarrow>
     fr_kind g = ObjectFrame \<Longrightarrow> fr_state g \<in> {KeyOrEnd, KeyRequired} \<Longrightarrow>
     dc_bytes d + chars_bytes (fields_from g kvs) \<le> dc_max d \<Longrightarrow>
     feed_loop d (join [44] (map member kvs) @ 125 # rest) =
       feed_loop (with_stack (put_chars d (fields_from g kvs)) (after_fields g kvs # fs)) (125 # rest)"
proof (induction kvs arbitrary: d g)
  case (Cons kv kvs)
  obtain k v where kv: "kv = (k, v)" by (cases kv)
  let ?ks = "drawn_from (g\<lparr>fr_current_key := Some k\<rparr>) v"
  let ?g1 = "g\<lparr>fr_state := CommaOrEnd, fr_keys := insert k (fr_keys g), fr_current_key := None\<rparr>"
  let ?d1 = "with_stack (put_chars d ?ks) (?g1 # fs)"
  have ends: "primitive_end 44" "primitive_end 125" by (simp_all add: primitive_end_def)
  have b: "dc_bytes d + chars_bytes ?ks \<le> dc_max d" using Cons.prems(9) by (simp add: kv)
  have "reads v" "encodable k" "k \<notin> fr_keys g" using Cons.prems(2,4) kv by auto
  note m = feed_member [OF this Cons.prems(5-8) b]
  show ?case
  proof (cases kvs)
    case Nil
    have g1: "?g1 = after_fields g [kv]" by (simp add: after_fields_def kv)
    show ?thesis using m [OF ends(2), of rest] unfolding g1 by (simp add: Nil kv del: feed_loop.simps)
  next
    case (Cons y ys)
    let ?g2 = "?g1\<lparr>fr_state := KeyRequired\<rparr>"
    let ?d2 = "with_stack (put_chars d ?ks) (?g2 # fs)"
    have split: "join [44] (map member (kv # kvs)) @ 125 # rest
        = member (k, v) @ 44 # (join [44] (map member kvs) @ 125 # rest)" by (simp add: Cons kv)
    have comma: "feed_char ?d1 44 = Inr ?d2"
      using Cons.prems(5,7) by (simp add: feed_quiet consume_json_char_def json_space_def consume_object_char_def
          set_top_def)
    have f2: "fields_from ?g2 kvs = fields_from g kvs" by (rule fields_from_cong) simp_all
    have "feed_loop d (join [44] (map member (kv # kvs)) @ 125 # rest)
        = feed_loop ?d1 (44 # join [44] (map member kvs) @ 125 # rest)"
      unfolding split by (rule m [OF ends(1)])
    also have "\<dots> = feed_loop ?d2 (join [44] (map member kvs) @ 125 # rest)"
      using comma by (simp del: join.simps)
    also have "\<dots> = feed_loop (with_stack (put_chars ?d2 (fields_from ?g2 kvs)) (after_fields ?g2 kvs # fs)) (125 # rest)"
      by (rule Cons.IH) (use Cons Cons.prems f2 in \<open>auto simp: kv\<close>)
    also have "with_stack (put_chars ?d2 (fields_from ?g2 kvs)) (after_fields ?g2 kvs # fs)
        = with_stack (put_chars d (fields_from g (kv # kvs))) (after_fields g (kv # kvs) # fs)"
      unfolding f2 by (simp add: kv put_chars_upd after_fields_def)
    finally show ?thesis .
  qed
qed simp

lemma dumps_obj: "dumps (JObj kvs) = 123 # join [44] (map member kvs) @ [125]"
proof -
  have "(\<lambda>(k, v). quote k @ 58 # dumps v) = member" by (auto simp: member_def)
  then show ?thesis by simp
qed

lemma reads_object:
  assumes sub: "\<And>k v. (k, v) \<in> set kvs \<Longrightarrow> reads v \<and> encodable k" and dist: "distinct (map fst kvs)"
  shows "reads (JObj kvs)"
  unfolding reads_def
proof (intro allI impI)
  fix d f fs e rest
  assume d: "quiet d" "dc_stack d = f # fs" "value_pos f"
    and b: "dc_bytes d + chars_bytes (drawn_from f (JObj kvs)) \<le> dc_max d"
  let ?g = "new_frame ObjectFrame KeyOrEnd"
  let ?d1 = "with_stack d (?g # f # fs)"
  have k: "drawn_from f (JObj kvs) = []" by (simp add: drawn_from_def string_from_def)
  have g: "fr_kind ?g = ObjectFrame" "\<not> fr_root ?g" "fr_keys ?g = {}" "fr_state ?g = KeyOrEnd"
    by (simp_all add: new_frame_def)
  have 1: "feed_char d 123 = Inr ?d1"
  proof -
    have "feed_char d 123 = start_value d 123"
      using feed_quiet [OF d(1)] consume_value [OF d(2,3), of 123] by (simp add: json_space_def)
    also have "\<dots> = Inr ?d1"
      using d(2,3) by (auto simp: start_value_def value_pos_def Let_def push_frame_def split: frame_kind.splits)
    finally show ?thesis .
  qed
  have close: "feed_char (with_stack d (g # f # fs)) 125 = Inr (with_stack d (completed f # fs))"
    if "fr_kind g = ObjectFrame" "fr_state g \<in> {KeyOrEnd, CommaOrEnd}" for g
    using that d by (auto simp: feed_quiet consume_json_char_def json_space_def consume_object_char_def
        close_container_def Let_def complete_value_def complete_frame_pos set_top_def)
  have "feed_loop d (dumps (JObj kvs) @ e # rest) = feed_loop (with_stack d (completed f # fs)) (e # rest)"
  proof (cases "kvs = []")
    case True
    with 1 close [OF g(1)] g show ?thesis by (simp add: dumps_obj del: dumps.simps)
  next
    case False
    have ff: "fields_from ?g kvs = []" using fields_from_silent [OF g(1,2)] .
    have "feed_loop ?d1 (join [44] (map member kvs) @ 125 # e # rest) =
        feed_loop (with_stack (put_chars ?d1 (fields_from ?g kvs)) (after_fields ?g kvs # f # fs)) (125 # e # rest)"
      using False sub dist d b g ff k by (intro feed_fields) auto
    with 1 close [of "after_fields ?g kvs"] g show ?thesis
      by (simp add: dumps_obj ff after_fields_def del: dumps.simps)
  qed
  then show "feed_loop d (dumps (JObj kvs) @ e # rest) =
      feed_loop (with_stack (put_chars d (drawn_from f (JObj kvs))) (completed f # fs)) (e # rest)"
    by (simp add: k del: dumps.simps)
qed

lemma reads_json: "report_json v \<Longrightarrow> reads v"
proof (induction v rule: dumps.induct)
  case 1
  show ?case by (rule reads_primitive [of _ 110 "lit ''ull''"])
      (simp_all add: lit_def primitive_start_def primitive_end_def json_space_def drawn_from_def string_from_def)
next
  case (2 b)
  show ?case
  proof (cases b)
    case True
    then show ?thesis by (intro reads_primitive [of _ 116 "lit ''rue''"])
        (simp_all add: lit_def primitive_start_def primitive_end_def json_space_def drawn_from_def string_from_def)
  next
    case False
    then show ?thesis by (intro reads_primitive [of _ 102 "lit ''alse''"])
        (simp_all add: lit_def primitive_start_def primitive_end_def json_space_def drawn_from_def string_from_def)
  qed
next
  case (3 i)
  show ?case by (rule reads_number [of _ "int_text i"])
      (simp_all add: int_text_valid drawn_from_def string_from_def)
next
  case (4 t)
  then show ?case by (intro reads_number [of _ t]) (simp_all add: drawn_from_def string_from_def)
next
  case (5 s)
  then show ?case by (simp add: reads_string)
next
  case (6 xs)
  then show ?case by (intro reads_array) (auto simp: list_all_iff)
next
  case (7 kvs)
  then show ?case by (intro reads_object) (fastforce simp: list_all_iff)+
qed

section \<open>The whole document\<close>

definition root_frame :: frame where
  "root_frame = (new_frame ObjectFrame KeyOrEnd)\<lparr>fr_root := True\<rparr>"

lemma feed_document:
  assumes d: "quiet d" "dc_stack d = []" "\<not> dc_started d" "\<not> dc_complete d"
    and v: "report_json (JObj kvs)"
    and b: "dc_bytes d + chars_bytes (fields_from root_frame kvs) \<le> dc_max d"
  shows "feed_loop d (dumps (JObj kvs)) =
     Inr ((put_chars d (fields_from root_frame kvs))\<lparr>dc_started := True, dc_complete := True\<rparr>)"
proof -
  let ?d1 = "d\<lparr>dc_started := True, dc_stack := [root_frame]\<rparr>"
  let ?ks = "fields_from root_frame kvs"
  have g: "fr_kind root_frame = ObjectFrame" "fr_keys root_frame = {}" "fr_state root_frame = KeyOrEnd"
    by (simp_all add: root_frame_def new_frame_def)
  have 1: "feed_char d 123 = Inr ?d1"
    using d by (simp add: feed_quiet consume_json_char_def json_space_def root_frame_def)
  have q: "quiet (d\<lparr>dc_started := True, dc_stack := s\<rparr>)" for s using d(1) by (simp add: quiet_def)
  have put: "put_chars ?d1 ks = (put_chars d ks)\<lparr>dc_started := True, dc_stack := [root_frame]\<rparr>" for ks
    by (simp only: put_chars_upd)
  have stack: "dc_stack (put_chars d ks) = []" for ks using d(2) by simp
  have close: "feed_char ((put_chars d ks)\<lparr>dc_started := True, dc_stack := [g]\<rparr>) 125
      = Inr ((put_chars d ks)\<lparr>dc_started := True, dc_complete := True\<rparr>)"
    if "fr_kind g = ObjectFrame" "fr_state g \<in> {KeyOrEnd, CommaOrEnd}" for g ks
  proof -
    have "quiet ((put_chars d ks)\<lparr>dc_started := True, dc_stack := [g]\<rparr>)"
      using d(1) by (simp add: quiet_def)
    moreover have "(put_chars d ks)\<lparr>dc_started := True, dc_stack := [], dc_complete := True\<rparr>
        = (put_chars d ks)\<lparr>dc_started := True, dc_complete := True\<rparr>"
      using stack [of ks] by (cases "put_chars d ks") simp
    ultimately show ?thesis
      using that by (auto simp: feed_quiet consume_json_char_def json_space_def consume_object_char_def
          close_container_def Let_def)
  qed
  show ?thesis
  proof (cases "kvs = []")
    case True
    with 1 close [OF g(1), of "[]"] g show ?thesis by (simp add: dumps_obj del: dumps.simps)
  next
    case False
    have sub: "\<And>k v. (k, v) \<in> set kvs \<Longrightarrow> reads v \<and> encodable k"
      using v reads_json by (fastforce simp: list_all_iff)
    have "feed_loop ?d1 (join [44] (map member kvs) @ 125 # []) =
        feed_loop (with_stack (put_chars ?d1 ?ks) (after_fields root_frame kvs # [])) (125 # [])"
      using False sub v q b g by (intro feed_fields) auto
    with 1 close [of "after_fields root_frame kvs"] g show ?thesis
      by (simp add: dumps_obj put after_fields_def del: dumps.simps)
  qed
qed

end
