(* ===== verification/Report_Properties.thy ===== *)
theory Report_Properties
  imports Report_Roundtrip
begin

text \<open>
  The claims on the incremental report decoder: independence of the chunking, the account of what
  it hands out, and that it recovers the public texts of a serialised report.
\<close>

text \<open>How the model's output is cut into chunks does not matter: two ways of cutting the same text
  leave the decoder in the same state and publish the same text for every field, or are refused with
  the same error.\<close>

theorem chunking_is_irrelevant:
  assumes new: "new_decoder m = Inr d" and same: "concat ss = concat ts"
  shows "case (feed_each d ss, feed_each d ts) of
      (Inr (xss, d1), Inr (yss, d2)) \<Rightarrow>
        d1 = d2 \<and> (\<forall>key. field_text key (concat xss) = field_text key (concat yss))
    | (Inl e1, Inl e2) \<Rightarrow> e1 = e2
    | _ \<Rightarrow> False"
proof -
  have "idle d" using new_decoder_idle [OF new] by simp
  then have j: "joined (feed_each d ss) = joined (feed_each d ts)"
    using same by (simp add: feed_each_joined)
  show ?thesis
  proof (cases "feed_each d ss")
    case (Inl e)
    with j show ?thesis by (cases "feed_each d ts") auto
  next
    case (Inr r)
    with j obtain r2 where r2: "feed_each d ts = Inr r2" by (cases "feed_each d ts"; cases r) auto
    obtain xss d1 yss d2 where r: "r = (xss, d1)" "r2 = (yss, d2)" by (cases r, cases r2)
    from j Inr r r2 have g: "foldr glue xss [] = foldr glue yss []" "d1 = d2" by auto
    have "field_text key (concat xss) = field_text key (concat yss)" for key
      using g(1) by (simp add: field_text_joined [symmetric])
    with g(2) show ?thesis by (simp add: Inr r2 r)
  qed
qed

definition demo_decoder :: decoder where
  "demo_decoder = \<lparr>dc_max = 5242880, dc_stack = [], dc_started = False, dc_complete = False,
     dc_string = None, dc_primitive = None, dc_lengths = Map.empty, dc_bytes = 0, dc_deltas = [],
     dc_finished = False\<rparr>"

lemma new_demo_decoder: "new_decoder 5242880 = Inr demo_decoder"
  by (simp add: new_decoder_def demo_decoder_def)

lemma chunking_is_irrelevant_witness:
  "case (feed_each demo_decoder [[123], [125]], feed_each demo_decoder [[123, 125]]) of
      (Inr (xss, d1), Inr (yss, d2)) \<Rightarrow>
        d1 = d2 \<and> (\<forall>key. field_text key (concat xss) = field_text key (concat yss))
    | (Inl e1, Inl e2) \<Rightarrow> e1 = e2
    | _ \<Rightarrow> False"
  by (rule chunking_is_irrelevant [OF new_demo_decoder]) simp

text \<open>Whatever text the model streams, the deltas handed out are sound: each belongs to one of the six
  public fields, is non-empty valid text, and starts exactly where the earlier deltas of the same
  field and index ended; together they never exceed the draft limit.\<close>

theorem report_deltas_are_sound:
  assumes new: "new_decoder m = Inr d" and res: "feed_each d ss = Inr (xss, d')"
  shows "replay Map.empty (concat xss) = Some (dc_lengths d')
       \<and> list_all (\<lambda>x. public_key (delta_key x) \<and> rd_text x \<noteq> [] \<and> encodable (rd_text x)) (concat xss)
       \<and> int (delta_bytes (concat xss)) \<le> m"
proof -
  note i = new_decoder_idle [OF new]
  note acc = feed_each_accounted [OF res]
  have r: "replay Map.empty (concat xss) = Some (dc_lengths d')" using i acc by simp
  have "dc_bytes d' \<le> dc_max d'" using i acc by (simp add: idle_def)
  then have "int (delta_bytes (concat xss)) \<le> m" using i acc by simp
  with r replay_wf [OF r] show ?thesis by (simp add: delta_wf_def list_all_iff)
qed

definition demo_report :: "(pystr \<times> json) list" where
  "demo_report = [(lit ''title'', JStr [65, 34, 10]),
                  (lit ''key_findings'', JArr [JStr [20320, 22909], JInt 7, JStr [66]])]"

section \<open>The texts of a report\<close>

text \<open>What the decoder should publish for a report: the specification, read off the JSON value.\<close>

definition item_text :: "json \<Rightarrow> pystr" where
  "item_text v = (case v of JStr s \<Rightarrow> s | _ \<Rightarrow> [])"

definition value_text :: "pystr \<times> nat option \<Rightarrow> json \<Rightarrow> pystr" where
  "value_text key v =
     (case (v, snd key) of
        (JStr s, None) \<Rightarrow> if fst key \<in> report_text_fields then s else []
      | (JArr vs, Some i) \<Rightarrow>
          if fst key \<in> report_list_fields \<and> i < length vs then item_text (vs ! i) else []
      | _ \<Rightarrow> [])"

definition report_text :: "(pystr \<times> json) list \<Rightarrow> pystr \<times> nat option \<Rightarrow> pystr" where
  "report_text kvs key = (case map_of kvs (fst key) of None \<Rightarrow> [] | Some v \<Rightarrow> value_text key v)"

definition value_size :: "pystr \<Rightarrow> json \<Rightarrow> nat" where
  "value_size k v =
     (case v of
        JStr s \<Rightarrow> if k \<in> report_text_fields then utf8_len s else 0
      | JArr vs \<Rightarrow> if k \<in> report_list_fields then sum_list (map (\<lambda>x. utf8_len (item_text x)) vs) else 0
      | _ \<Rightarrow> 0)"

definition report_size :: "(pystr \<times> json) list \<Rightarrow> nat" where
  "report_size kvs = sum_list (map (\<lambda>(k, v). value_size k v) kvs)"

definition chars_of :: "pystr \<times> nat option \<Rightarrow> ((pystr \<times> nat option) \<times> nat) list \<Rightarrow> pystr" where
  "chars_of key kcs = map snd (filter (\<lambda>x. fst x = key) kcs)"

lemma chars_of_simps [simp]:
  "chars_of key [] = []" "chars_of key (x # xs) = (if fst x = key then [snd x] else []) @ chars_of key xs"
  "chars_of key (xs @ ys) = chars_of key xs @ chars_of key ys"
  "chars_of key (map (Pair k) s) = (if k = key then s else [])"
  by (simp_all add: chars_of_def comp_def)

lemma field_text_push:
  "field_text key (map to_delta (push_char bs f i off c))
     = field_text key (map to_delta bs) @ (if (f, i) = key then [c] else [])"
  by (cases bs rule: rev_cases) (auto simp: push_char_def to_delta_def delta_key_def)

lemma field_text_put_chars:
  "field_text key (map to_delta (dc_deltas (put_chars d kcs)))
     = field_text key (map to_delta (dc_deltas d)) @ chars_of key kcs"
proof (induction kcs arbitrary: d)
  case (Cons x xs)
  have "field_text key (map to_delta (dc_deltas (put_char d x)))
      = field_text key (map to_delta (dc_deltas d)) @ (if fst x = key then [snd x] else [])"
    by (simp add: put_char_def Let_def field_text_push)
  with Cons show ?case by simp
qed simp

text \<open>The characters drawn from an array of a list field.\<close>

lemma string_from_item:
  "fr_kind g = ArrayFrame \<Longrightarrow> fr_draft_field g = Some k \<Longrightarrow>
     string_from g x = map (Pair (k, Some (fr_item_count g))) (item_text x)"
  by (simp add: string_from_def string_key_def item_text_def split: json.split)

lemma items_from_text:
  "fr_kind g = ArrayFrame \<Longrightarrow> fr_draft_field g = Some k \<Longrightarrow>
     chars_of (k', i) (items_from g xs) =
       (case i of None \<Rightarrow> [] | Some j \<Rightarrow>
          if k' = k \<and> fr_item_count g \<le> j \<and> j < fr_item_count g + length xs
          then item_text (xs ! (j - fr_item_count g)) else [])"
proof (induction g xs rule: items_from.induct)
  case (2 g x xs)
  then show ?case
    by (auto simp: string_from_item nth_Cons' split: option.split)
qed (auto split: option.split)

lemma items_from_bytes:
  "fr_kind g = ArrayFrame \<Longrightarrow> fr_draft_field g = Some k \<Longrightarrow>
     chars_bytes (items_from g xs) = sum_list (map (\<lambda>x. utf8_len (item_text x)) xs)"
  by (induction g xs rule: items_from.induct) (simp_all add: string_from_item)

lemma root_value:
  assumes g_def: "g = root_frame\<lparr>fr_current_key := Some k\<rparr>"
  shows "chars_of key (drawn_from g v) = (if fst key = k then value_text key v else [])"
    and "chars_bytes (drawn_from g v) = value_size k v"
proof -
  have root: "root_key g = Some k" "fr_kind g = ObjectFrame"
    by (simp_all add: g_def root_key_def root_frame_def new_frame_def)
  have str: "string_from g (JStr s) = (if k \<in> report_text_fields then map (Pair (k, None)) s else [])" for s
    using root by (simp add: string_from_def string_key_def)
  obtain k' i where key: "key = (k', i)" by (cases key)
  have arr: "chars_of key (items_from (array_frame g) vs) = (if k' = k then value_text key (JArr vs) else [])
      \<and> chars_bytes (items_from (array_frame g) vs) = value_size k (JArr vs)" for vs
  proof (cases "k \<in> report_list_fields")
    case True
    then have "fr_draft_field (array_frame g) = Some k" using root by (simp add: array_frame_def)
    from items_from_text [OF array_frame_simps(1) this] items_from_bytes [OF array_frame_simps(1) this] True
    show ?thesis by (simp add: key value_text_def value_size_def split: option.split)
  next
    case False
    then have "fr_draft_field (array_frame g) = None" using root by (simp add: array_frame_def)
    then have "items_from (array_frame g) vs = []" by (intro items_from_silent) simp_all
    with False show ?thesis by (simp add: key value_text_def value_size_def split: option.split)
  qed
  show "chars_of key (drawn_from g v) = (if fst key = k then value_text key v else [])"
    using arr by (cases v) (auto simp: drawn_from_def string_from_def [of g JNull]
        str key value_text_def string_from_def [of _ "JBool _"] string_from_def [of _ "JInt _"]
        string_from_def [of _ "JFloat _"] string_from_def [of _ "JObj _"] split: option.split)
  show "chars_bytes (drawn_from g v) = value_size k v"
    using arr by (cases v) (auto simp: drawn_from_def str value_size_def string_from_def [of _ JNull]
        string_from_def [of _ "JBool _"] string_from_def [of _ "JInt _"]
        string_from_def [of _ "JFloat _"] string_from_def [of _ "JObj _"])
qed

lemma fields_from_text:
  "distinct (map fst kvs) \<Longrightarrow> chars_of key (fields_from root_frame kvs) = report_text kvs key"
proof (induction kvs)
  case (Cons kv kvs)
  obtain k v where kv: "kv = (k, v)" by (cases kv)
  with Cons have "map_of kvs k = None" by (simp add: map_of_eq_None_iff)
  with Cons kv show ?case by (auto simp: root_value(1) [OF refl] report_text_def)
qed (simp add: report_text_def)

lemma fields_from_bytes: "chars_bytes (fields_from root_frame kvs) = report_size kvs"
proof (induction kvs)
  case (Cons kv kvs)
  then show ?case by (cases kv) (simp add: root_value(2) [OF refl] report_size_def)
qed (simp add: report_size_def)

text \<open>C38: The decoder inverts the serialiser. Streamed in any chunks, the JSON text of a report (an object
  with distinct keys and valid text) whose public fields fit the draft limit is accepted, the decoder
  can be finished, and the text published for every field and list item is exactly the report's.\<close>

theorem report_roundtrip:
  assumes new: "new_decoder m = Inr d" and json: "report_json (JObj kvs)"
    and fit: "int (report_size kvs) \<le> m" and cut: "concat ss = dumps (JObj kvs)"
  shows "\<exists>xss d1 d2. feed_each d ss = Inr (xss, d1) \<and> finish_report d1 = Inr d2
           \<and> (\<forall>key. field_text key (concat xss) = report_text kvs key)"
proof -
  note i = new_decoder_idle [OF new]
  have d: "quiet d" "dc_stack d = []" "\<not> dc_started d" "\<not> dc_complete d" "dc_deltas d = []"
    "d\<lparr>dc_deltas := []\<rparr> = d" "\<not> dc_finished d"
    using new by (auto simp: new_decoder_def quiet_def split: if_splits)
  let ?ks = "fields_from root_frame kvs"
  let ?d1 = "(put_chars d ?ks)\<lparr>dc_started := True, dc_complete := True\<rparr>"
  have "feed_loop d (dumps (JObj kvs)) = Inr ?d1"
    using feed_document [OF d(1-4) json] i fit by (simp add: fields_from_bytes)
  then have f: "feed d (concat ss) = Inr (map to_delta (dc_deltas ?d1), ?d1\<lparr>dc_deltas := []\<rparr>)"
    using d(7) by (simp add: feed_def d(6) cut del: dumps.simps)
  moreover have "joined (feed_each d ss) = feed d (concat ss)" using i by (simp add: feed_each_joined)
  ultimately obtain xss where xs: "feed_each d ss = Inr (xss, ?d1\<lparr>dc_deltas := []\<rparr>)"
    "foldr glue xss [] = map to_delta (dc_deltas (put_chars d ?ks))"
    by (cases "feed_each d ss") auto
  have "finish_report (?d1\<lparr>dc_deltas := []\<rparr>) = Inr (?d1\<lparr>dc_deltas := [], dc_finished := True\<rparr>)"
    using d by (simp add: finish_report_def quiet_def)
  moreover have "field_text key (concat xss) = report_text kvs key" for key
    using field_text_put_chars [of key d ?ks] d(5) json
    by (simp add: field_text_joined [symmetric] xs(2) fields_from_text)
  ultimately show ?thesis using xs(1) by blast
qed

lemma demo_report_json: "report_json (JObj demo_report)"
  by (simp add: demo_report_def is_surrogate_def lit_def)

lemma report_roundtrip_witness:
  "\<exists>xss d1 d2. feed_each demo_decoder [dumps (JObj demo_report)] = Inr (xss, d1) \<and> finish_report d1 = Inr d2
     \<and> (\<forall>key. field_text key (concat xss) = report_text demo_report key)"
proof (rule report_roundtrip [OF new_demo_decoder demo_report_json])
  have "report_size demo_report \<le> 20"
    by (simp add: demo_report_def report_size_def value_size_def item_text_def report_text_fields_def
        report_list_fields_def lit_def utf8_size_def)
  then show "int (report_size demo_report) \<le> 5242880" by simp
qed simp

lemma report_deltas_are_sound_witness:
  "\<exists>xss d1. feed_each demo_decoder [dumps (JObj demo_report)] = Inr (xss, d1)
     \<and> replay Map.empty (concat xss) = Some (dc_lengths d1)"
proof -
  have "idle demo_decoder" using new_decoder_idle [OF new_demo_decoder] by simp
  have d: "quiet demo_decoder" "dc_stack demo_decoder = []" "\<not> dc_started demo_decoder"
    "\<not> dc_complete demo_decoder" by (simp_all add: quiet_def demo_decoder_def)
  have "report_size demo_report \<le> 20"
    by (simp add: demo_report_def report_size_def value_size_def item_text_def report_text_fields_def
        report_list_fields_def lit_def utf8_size_def)
  then obtain d2 where "feed_loop demo_decoder (dumps (JObj demo_report)) = Inr d2"
    using feed_document [OF d demo_report_json] by (simp add: fields_from_bytes demo_decoder_def)
  then have "\<exists>r. feed_each demo_decoder [dumps (JObj demo_report)] = Inr r"
    by (simp add: feed_def demo_decoder_def)
  then obtain xss d1 where "feed_each demo_decoder [dumps (JObj demo_report)] = Inr (xss, d1)" by auto
  with report_deltas_are_sound [OF new_demo_decoder this] show ?thesis by blast
qed

end
