(* ===== verification/Report_Publish.thy ===== *)
theory Report_Publish
  imports Report_Properties Events_Properties
begin

text \<open>
  The two ends of the report stream together: \<open>_publish_delta\<close> of \<open>business_analysis/reporting.py\<close>
  hands the decoder's deltas to \<open>text_delta\<close> of the execution's event channel, which keeps its own
  count of the characters of every field.
\<close>

section \<open>Definitions\<close>

definition field_name :: "pystr \<Rightarrow> string" where
  "field_name f = map char_of f"

definition publish_delta :: "report_text_delta \<Rightarrow> channel \<Rightarrow> (event_error + unit) \<times> channel" where
  "publish_delta x ch =
     text_delta (field_name (rd_field x))
       (case rd_index x of None \<Rightarrow> PyNone | Some i \<Rightarrow> PyInt (int i))
       (PyInt (int (rd_offset x))) (rd_text x) ch"

fun publish_all :: "report_text_delta list \<Rightarrow> channel \<Rightarrow> (event_error + unit) \<times> channel" where
  "publish_all [] ch = (Inr (), ch)"
| "publish_all (x # xs) ch =
     (case publish_delta x ch of
        (Inl e, ch1) \<Rightarrow> (Inl e, ch1)
      | (Inr _, ch1) \<Rightarrow> publish_all xs ch1)"

section \<open>Agreement of the two counts\<close>

definition part_of :: "pystr \<times> nat option \<Rightarrow> part_key" where
  "part_of key = (field_name (fst key), map_option int (snd key))"

definition counts_agree :: "(pystr \<times> nat option \<rightharpoonup> nat) \<Rightarrow> channel \<Rightarrow> bool" where
  "counts_agree L ch \<longleftrightarrow> (\<forall>key. public_key key \<longrightarrow> part_length ch (part_of key) = int (length_at L key))"

definition delta_refused :: "event_error \<Rightarrow> bool" where
  "delta_refused e \<longleftrightarrow>
     e \<in> {InvalidField, InvalidOffset, InvalidIndex, EmptyText, InvalidUnicode, OffsetMismatch}"

lemma field_name_lit [simp]: "field_name (lit f) = f"
  by (simp add: field_name_def lit_def comp_def)

lemma report_fields_lit: "report_text_fields = lit ` text_fields" "report_list_fields = lit ` list_fields"
  by (simp_all add: report_text_fields_def report_list_fields_def text_fields_def list_fields_def)

lemma public_key_field:
  assumes "public_key key"
  shows "field_name (fst key) \<in> (case snd key of None \<Rightarrow> text_fields | Some _ \<Rightarrow> list_fields)"
    and "lit (field_name (fst key)) = fst key"
  using assms by (auto simp: public_key_def report_fields_lit split: option.splits)

lemma part_of_inj: "public_key a \<Longrightarrow> public_key b \<Longrightarrow> part_of a = part_of b \<longleftrightarrow> a = b"
proof
  assume pub: "public_key a" "public_key b" and eq: "part_of a = part_of b"
  from eq have f: "field_name (fst a) = field_name (fst b)" and i: "map_option int (snd a) = map_option int (snd b)"
    by (simp_all add: part_of_def)
  have "fst a = fst b" using public_key_field(2) [OF pub(1)] public_key_field(2) [OF pub(2)] f by metis
  moreover have "snd a = snd b" using i by (cases "snd a"; cases "snd b") auto
  ultimately show "a = b" by (simp add: prod_eq_iff)
qed simp

lemma list_not_text: "f \<in> list_fields \<Longrightarrow> f \<notin> text_fields"
  by (auto simp: list_fields_def text_fields_def)

lemma publish_target:
  assumes "public_key (f, i)"
  shows "field_name f \<in> draft_fields"
    and "target_index (field_name f) (case i of None \<Rightarrow> PyNone | Some i \<Rightarrow> PyInt (int i)) = Inr (map_option int i)"
  using public_key_field(1) [OF assms]
  by (auto simp: draft_fields_def target_index_def list_not_text split: option.splits)

lemma split_loop_error:
  "split_loop m ps cur n s = Inl e \<Longrightarrow> e \<in> {UnicodeEncodeError, CharTooLarge}"
  by (induction m ps cur n s rule: split_loop.induct) (auto simp: Let_def split: if_splits)

lemma delta_events_fit_error:
  "delta_events_fit ch f i off n cs = Inl e \<Longrightarrow> e = UnicodeEncodeError"
  by (induction ch f i off n cs rule: delta_events_fit.induct)
    (auto simp: event_size_def encoded_size_def split: if_splits sum.splits)

lemma fit_chunks_error: "fit_chunks ch f i off body m = Inl e \<Longrightarrow> \<not> delta_refused e"
proof (induction ch f i off body m rule: fit_chunks.induct)
  case (1 ch f i off body m)
  show ?case
  proof (cases "split_utf8 body m")
    case (Inl e')
    with 1(2) split_loop_error [of m "[]" "[]" 0 body] show ?thesis
      by (subst (asm) fit_chunks.simps) (auto simp: split_utf8_def delta_refused_def)
  next
    case (Inr chunks)
    show ?thesis
    proof (cases "delta_events_fit ch f i off 1 chunks")
      case (Inl e')
      with Inr 1(2) delta_events_fit_error [OF Inl] show ?thesis
        by (subst (asm) fit_chunks.simps) (auto simp: delta_refused_def)
    next
      case fits: (Inr b)
      show ?thesis
      proof (cases "b \<or> m \<le> 1")
        case True
        with Inr fits 1(2) show ?thesis
          by (subst (asm) fit_chunks.simps) (auto simp: delta_refused_def split: if_splits)
      next
        case False
        then have "fit_chunks ch f i off body (max 1 (m div 2)) = Inl e"
          using Inr fits 1(2) by (subst (asm) fit_chunks.simps) simp
        then show ?thesis by (rule 1(1) [of False, rotated 2]) (use False in simp_all)
      qed
    qed
  qed
qed

lemma publish_delta_result:
  assumes ok: "chan_ok ch" and x: "delta_wf x"
    and agree: "part_length ch (part_of (delta_key x)) = int (rd_offset x)"
    and res: "publish_delta x ch = (r, ch')"
  shows "(\<forall>e. r = Inl e \<longrightarrow> \<not> delta_refused e)
    \<and> (r = Inr () \<longrightarrow> ch_terminal ch' = ch_terminal ch \<and> (\<not> ch_terminal ch \<longrightarrow>
         (\<forall>key. part_length ch' key =
            (if key = part_of (delta_key x) then int (rd_offset x + length (rd_text x))
             else part_length ch key))))"
proof -
  let ?f = "field_name (rd_field x)"
  let ?i = "map_option int (rd_index x)"
  let ?idx = "case rd_index x of None \<Rightarrow> PyNone | Some i \<Rightarrow> PyInt (int i)"
  have pub: "public_key (rd_field x, rd_index x)" and t: "rd_text x \<noteq> []" "encodable (rd_text x)"
    using x by (simp_all add: delta_wf_def delta_key_def)
  note tgt = publish_target [OF pub]
  have key: "part_of (delta_key x) = (?f, ?i)" by (simp add: part_of_def delta_key_def)
  from ok res [unfolded publish_delta_def] show ?thesis
  proof (cases rule: text_delta_cases)
    case (1 e)
    then have "text_delta ?f ?idx (PyInt (int (rd_offset x))) (rd_text x) ch = (Inl e, ch)"
      using res by (simp add: publish_delta_def)
    moreover have "\<not> delta_refused e" if "fit_chunks ch ?f ?i (int (rd_offset x)) (rd_text x)
        (min max_delta_bytes (ch_max_bytes ch)) = Inl e" using fit_chunks_error [OF that] .
    moreover have False if "append_deltas ?f ?i (int (rd_offset x)) chunks
        (record_delta ?f ?i (int (rd_offset x)) (rd_text x) inc ch) = (Inl e, ch)" for chunks inc
    proof -
      have "ch_parts (snd (append_deltas f i off cs c)) = ch_parts c" for f i off cs c
        by (induction f i off cs c rule: append_deltas.induct)
          (auto split: sum.splits prod.splits dest!: append_locked_state)
      from this [of ?f ?i "int (rd_offset x)" chunks "record_delta ?f ?i (int (rd_offset x)) (rd_text x) inc ch"]
      have "write_part (?f, ?i) (rd_text x) (ch_parts ch) = ch_parts ch"
        using that by (simp add: record_delta_def)
      moreover have "write_part k b ps \<noteq> ps" if "b \<noteq> []" for k b ps
        using that by (induction k b ps rule: write_part.induct) auto
      ultimately show False using t by blast
    qed
    ultimately have "\<not> delta_refused e"
      using tgt t agree by (auto simp: text_delta_def key Let_def delta_refused_def split: if_splits sum.splits option.splits)
    with 1 show ?thesis by simp
  next
    case (3 i offset chunks increment)
    have "i = ?i" using 3(4) tgt by simp
    moreover have "offset = int (rd_offset x)" using 3(3) by simp
    moreover have "ch_lengths ch' = (ch_lengths ch)((?f, i) \<mapsto> offset + int (length (rd_text x)))"
      by (subst 3(16)) (simp add: record_delta_def)
    moreover have "ch_terminal ch' = ch_terminal ch" by (subst 3(16)) (simp add: record_delta_def)
    ultimately show ?thesis using 3(1) by (simp add: part_length_def key)
  qed simp
qed

lemma publish_all_agree:
  "replay L xs = Some L' \<Longrightarrow> chan_ok ch \<Longrightarrow> counts_agree L ch \<Longrightarrow> publish_all xs ch = (r, ch') \<Longrightarrow>
     \<not> ch_terminal ch \<Longrightarrow>
     (\<forall>e. r = Inl e \<longrightarrow> \<not> delta_refused e) \<and> (r = Inr () \<longrightarrow> counts_agree L' ch')"
proof (induction xs arbitrary: L ch)
  case (Cons x xs)
  let ?k = "delta_key x"
  from Cons.prems(1) have x: "delta_wf x" "rd_offset x = length_at L ?k"
    and rest: "replay (L(?k \<mapsto> rd_offset x + length (rd_text x))) xs = Some L'"
    by (auto split: if_splits)
  have pk: "public_key ?k" using x(1) by (simp add: delta_wf_def)
  have agree: "part_length ch (part_of ?k) = int (rd_offset x)"
    using Cons.prems(3) pk unfolding counts_agree_def x(2) by blast
  obtain r1 ch1 where r1: "publish_delta x ch = (r1, ch1)" by (cases "publish_delta x ch")
  note res = publish_delta_result [OF Cons.prems(2) x(1) agree r1]
  show ?case
  proof (cases r1)
    case (Inl e)
    with r1 res Cons.prems(4) show ?thesis by auto
  next
    case (Inr u)
    then have u: "r1 = Inr ()" by simp
    have "chan_step ch ch1" using r1 unfolding publish_delta_def by (rule cs_text)
    then have ok1: "chan_ok ch1" using chan_steps_ok [OF r_into_rtranclp [OF _] Cons.prems(2)] by blast
    have after: "\<forall>key. part_length ch1 key = (if key = part_of ?k
        then int (rd_offset x + length (rd_text x)) else part_length ch key)"
      using res u Cons.prems(5) by blast
    have "counts_agree (L(?k \<mapsto> rd_offset x + length (rd_text x))) ch1"
      unfolding counts_agree_def
    proof (intro allI impI)
      fix key assume k: "public_key key"
      have "part_length ch1 (part_of key) = (if key = ?k then int (rd_offset x + length (rd_text x))
          else part_length ch (part_of key))"
        using after [rule_format, of "part_of key"] part_of_inj [OF k pk] by simp
      then show "part_length ch1 (part_of key) = int (length_at (L(?k \<mapsto> rd_offset x + length (rd_text x))) key)"
        using Cons.prems(3) [unfolded counts_agree_def, rule_format, OF k] by (simp add: length_at_def)
    qed
    moreover have "publish_all xs ch1 = (r, ch')" using r1 u Cons.prems(4) by simp
    moreover have "\<not> ch_terminal ch1" using res u Cons.prems(5) by blast
    ultimately show ?thesis using Cons.IH [OF rest ok1] by blast
  qed
qed auto

section \<open>The claim\<close>

text \<open>The decoder and the event channel never disagree on where a field's text stands: when their
  counts agree, publishing the deltas of a \<open>feed\<close> is never refused for a wrong field, index, offset,
  empty or invalid text, and if all are published on a live channel the counts agree again.\<close>

theorem decoder_and_channel_agree:
  assumes ok: "chan_ok ch" and dec: "idle d" and agree: "counts_agree (dc_lengths d) ch"
    and fed: "feed d s = Inr (xs, d')" and pub: "publish_all xs ch = (r, ch')"
  shows "(\<forall>e. r = Inl e \<longrightarrow> \<not> delta_refused e)
    \<and> (r = Inr () \<and> \<not> ch_terminal ch \<longrightarrow> counts_agree (dc_lengths d') ch')"
proof (cases "ch_terminal ch")
  case True
  have stay: "publish_delta x ch = (Inr (), ch)" if "delta_wf x" for x
  proof -
    have "public_key (rd_field x, rd_index x)" using that by (simp add: delta_wf_def delta_key_def)
    from publish_target [OF this] True that show ?thesis
      by (auto simp: publish_delta_def text_delta_def delta_wf_def)
  qed
  have "list_all delta_wf xs" using feed_accounted [OF fed dec] replay_wf by blast
  then have "publish_all xs ch = (Inr (), ch)" using stay by (induction xs) auto
  with pub True show ?thesis by auto
next
  case False
  have "replay (dc_lengths d) xs = Some (dc_lengths d')" using feed_accounted [OF fed dec] by simp
  from publish_all_agree [OF this ok agree pub False] show ?thesis by blast
qed

lemma decoder_and_channel_agree_witness:
  "\<exists>xs d'. feed demo_decoder [123, 125] = Inr (xs, d')
     \<and> counts_agree (dc_lengths d') (snd (publish_all xs demo_channel))"
proof -
  have idle: "idle demo_decoder" using new_decoder_idle [OF new_demo_decoder] by simp
  have agree: "counts_agree (dc_lengths demo_decoder) demo_channel"
    by (simp add: counts_agree_def demo_decoder_def demo_channel_def part_length_def length_at_def)
  have "feed demo_decoder [123, 125] = Inr ([], demo_decoder\<lparr>dc_started := True, dc_complete := True\<rparr>)"
    by (simp add: feed_def demo_decoder_def feed_char_def consume_json_char_def json_space_def
        consume_object_char_def close_container_def new_frame_def)
  then obtain d' where fed: "feed demo_decoder [123, 125] = Inr ([], d')" by blast
  have "publish_all [] demo_channel = (Inr (), demo_channel)" by simp
  from decoder_and_channel_agree [OF demo_channel_ok idle agree fed this]
  have "counts_agree (dc_lengths d') demo_channel" by (simp add: demo_channel_def)
  with fed show ?thesis by auto
qed

end
