(* ===== verification/Planning.thy ===== *)
theory Planning
  imports Json
begin

text \<open>
  The analysis plans of \<open>business_analysis/contracts.py\<close> and \<open>business_analysis/planning.py\<close>:
  parsing of the model's JSON, the semantic catalog, the program-generated comparison plan, and the
  validation of a task graph. An exception is its class and its \<open>reason\<close> code; the Chinese message
  texts are not kept. CPython's Unicode tables (\<open>str.casefold\<close>, the digits of \<open>re\<close>) are
  the argument \<open>u\<close> of the definitions that use them. A mapping from a key to a set of names is
  an association list in insertion order.
\<close>

section \<open>Data\<close>

datatype granularity = GDay | GWeek | GMonth | GQuarter | GYear
datatype filter_op = FEquals | FIn | FGt | FGte | FLt | FLte
datatype task_type = Baseline | Trend | Breakdown | Comparison

datatype plan_error =
    StructureError string
  | CannotAnswer string
  | ClarificationRequired string
  | PlanLimitsInvalid

record time_range =
  tr_text :: pystr
  tr_granularity :: granularity

record analysis_filter =
  af_field :: pystr
  af_operator :: filter_op
  af_values :: "pystr list"

record analysis_task =
  at_id :: pystr
  at_type :: task_type
  at_description :: pystr
  at_metrics :: "pystr list"
  at_dimensions :: "pystr list"
  at_time_range :: "time_range option"
  at_filters :: "analysis_filter list"
  at_depends_on :: "pystr list"
  at_expected_output :: pystr

record request_candidate =
  rc_metric_text :: pystr
  rc_current :: "time_range option"
  rc_comparison :: "time_range option"

record analysis_request =
  ar_metric :: pystr
  ar_current :: time_range
  ar_comparison :: time_range

type_synonym matches = "(pystr \<times> pystr set) list"

record catalog =
  cat_metrics :: matches
  cat_dimensions :: matches

record unicode =
  u_casefold :: "pystr \<Rightarrow> pystr"
  u_digit :: "nat \<Rightarrow> bool"

section \<open>Text\<close>

fun words_from :: "pystr \<Rightarrow> pystr \<Rightarrow> pystr list" where
  "words_from w [] = (if w = [] then [] else [w])"
| "words_from w (c # cs) =
     (if py_isspace c then (if w = [] then words_from [] cs else w # words_from [] cs)
      else words_from (w @ [c]) cs)"

definition py_split :: "pystr \<Rightarrow> pystr list" where
  "py_split s = words_from [] s"

definition lookup_key :: "unicode \<Rightarrow> pystr \<Rightarrow> pystr" where
  "lookup_key u s = join [32] (py_split (u_casefold u (strip s)))"

fun starts_with :: "pystr \<Rightarrow> pystr \<Rightarrow> bool" where
  "starts_with [] s \<longleftrightarrow> True"
| "starts_with (a # p) [] \<longleftrightarrow> False"
| "starts_with (a # p) (c # s) \<longleftrightarrow> a = c \<and> starts_with p s"

fun contains :: "pystr \<Rightarrow> pystr \<Rightarrow> bool" where
  "contains [] p \<longleftrightarrow> p = []"
| "contains (c # s) p \<longleftrightarrow> starts_with p (c # s) \<or> contains s p"

definition squeezed :: "unicode \<Rightarrow> pystr \<Rightarrow> pystr" where
  "squeezed u s = concat (py_split (lookup_key u s))"

section \<open>Parsing the model's JSON\<close>

definition get_field :: "(pystr \<times> json) list \<Rightarrow> string \<Rightarrow> json" where
  "get_field kvs k = (case obj_get kvs (lit k) of Some v \<Rightarrow> v | None \<Rightarrow> JNull)"

definition require_exact_fields :: "(pystr \<times> json) list \<Rightarrow> string set \<Rightarrow> plan_error + unit" where
  "require_exact_fields kvs expected =
     (let fields = fst ` set kvs in
      if \<not> lit ` expected \<subseteq> fields then Inl (StructureError ''FIELD_MISSING'')
      else if \<not> fields \<subseteq> lit ` expected then Inl (StructureError ''FIELD_EXTRA'')
      else Inr ())"

definition required_text :: "json \<Rightarrow> plan_error + pystr" where
  "required_text v =
     (case v of
        JStr s \<Rightarrow> if strip s = [] then Inl (StructureError ''TEXT_REQUIRED'') else Inr (strip s)
      | _ \<Rightarrow> Inl (StructureError ''TEXT_REQUIRED''))"

definition string_list :: "json \<Rightarrow> bool \<Rightarrow> plan_error + pystr list" where
  "string_list v allow_empty =
     (case v of
        JArr xs \<Rightarrow>
          bindR (mapR required_text xs) (\<lambda>ss.
            if \<not> allow_empty \<and> ss = [] then Inl (StructureError ''STRING_LIST_EMPTY'')
            else if \<not> distinct ss then Inl (StructureError ''STRING_LIST_DUPLICATE'')
            else Inr ss)
      | _ \<Rightarrow> Inl (StructureError ''STRING_LIST_INVALID''))"

definition granularity_of :: "json \<Rightarrow> granularity option" where
  "granularity_of v =
     (case v of
        JStr s \<Rightarrow> map_of [(lit ''day'', GDay), (lit ''week'', GWeek), (lit ''month'', GMonth),
                          (lit ''quarter'', GQuarter), (lit ''year'', GYear)] s
      | _ \<Rightarrow> None)"

definition filter_op_of :: "json \<Rightarrow> filter_op option" where
  "filter_op_of v =
     (case v of
        JStr s \<Rightarrow> map_of [(lit ''equals'', FEquals), (lit ''in'', FIn), (lit ''gt'', FGt),
                          (lit ''gte'', FGte), (lit ''lt'', FLt), (lit ''lte'', FLte)] s
      | _ \<Rightarrow> None)"

definition task_type_of :: "pystr \<Rightarrow> task_type option" where
  "task_type_of s = map_of [(lit ''baseline'', Baseline), (lit ''trend'', Trend),
     (lit ''breakdown'', Breakdown), (lit ''comparison'', Comparison)] s"

definition time_range_of :: "json \<Rightarrow> plan_error + time_range option" where
  "time_range_of v =
     (case v of
        JNull \<Rightarrow> Inr None
      | JObj kvs \<Rightarrow>
          bindR (require_exact_fields kvs {''text'', ''granularity''}) (\<lambda>_.
            case granularity_of (get_field kvs ''granularity'') of
              None \<Rightarrow> Inl (StructureError ''TIME_GRANULARITY_INVALID'')
            | Some g \<Rightarrow> bindR (required_text (get_field kvs ''text'')) (\<lambda>t.
                Inr (Some \<lparr>tr_text = t, tr_granularity = g\<rparr>)))
      | _ \<Rightarrow> Inl (StructureError ''TIME_RANGE_INVALID''))"

definition filter_of :: "json \<Rightarrow> plan_error + analysis_filter" where
  "filter_of v =
     (case v of
        JObj kvs \<Rightarrow>
          bindR (require_exact_fields kvs {''field_text'', ''operator'', ''values''}) (\<lambda>_.
            case filter_op_of (get_field kvs ''operator'') of
              None \<Rightarrow> Inl (StructureError ''FILTER_OPERATOR_INVALID'')
            | Some f \<Rightarrow> bindR (string_list (get_field kvs ''values'') True) (\<lambda>vs.
                if vs = [] then Inl (StructureError ''FILTER_VALUES_EMPTY'')
                else if f \<noteq> FIn \<and> length vs \<noteq> 1
                  then Inl (StructureError ''FILTER_VALUE_CARDINALITY_INVALID'')
                else bindR (required_text (get_field kvs ''field_text'')) (\<lambda>t.
                  Inr \<lparr>af_field = t, af_operator = f, af_values = vs\<rparr>)))
      | _ \<Rightarrow> Inl (StructureError ''FILTER_INVALID''))"

definition filters_of :: "json \<Rightarrow> plan_error + analysis_filter list" where
  "filters_of v =
     (case v of JArr xs \<Rightarrow> mapR filter_of xs | _ \<Rightarrow> Inl (StructureError ''FILTERS_INVALID''))"

definition task_fields :: "string set" where
  "task_fields = {''task_id'', ''task_type'', ''description'', ''metrics'', ''dimensions'',
     ''time_range'', ''filters'', ''depends_on'', ''expected_output''}"

definition task_from_payload :: "json \<Rightarrow> plan_error + analysis_task" where
  "task_from_payload v =
     (case v of
        JObj kvs \<Rightarrow>
          bindR (require_exact_fields kvs task_fields) (\<lambda>_.
            case get_field kvs ''task_type'' of
              JStr ty \<Rightarrow>
                (case task_type_of ty of
                   None \<Rightarrow> Inl (StructureError ''TASK_TYPE_UNSUPPORTED'')
                 | Some tt \<Rightarrow>
                     bindR (required_text (get_field kvs ''task_id'')) (\<lambda>i.
                     bindR (required_text (get_field kvs ''description'')) (\<lambda>de.
                     bindR (string_list (get_field kvs ''metrics'') False) (\<lambda>ms.
                     bindR (string_list (get_field kvs ''dimensions'') True) (\<lambda>ds.
                     bindR (time_range_of (get_field kvs ''time_range'')) (\<lambda>tr.
                     bindR (filters_of (get_field kvs ''filters'')) (\<lambda>fs.
                     bindR (string_list (get_field kvs ''depends_on'') True) (\<lambda>deps.
                     bindR (required_text (get_field kvs ''expected_output'')) (\<lambda>ex.
                       Inr \<lparr>at_id = i, at_type = tt, at_description = de, at_metrics = ms,
                            at_dimensions = ds, at_time_range = tr, at_filters = fs,
                            at_depends_on = deps, at_expected_output = ex\<rparr>)))))))))
            | _ \<Rightarrow> Inl (StructureError ''TASK_TYPE_INVALID''))
      | _ \<Rightarrow> Inl (StructureError ''TASK_NOT_OBJECT''))"

definition plan_from_payload :: "json \<Rightarrow> plan_error + analysis_task list" where
  "plan_from_payload v =
     (case v of
        JObj kvs \<Rightarrow>
          bindR (require_exact_fields kvs {''tasks''}) (\<lambda>_.
            case get_field kvs ''tasks'' of
              JArr xs \<Rightarrow> if xs = [] then Inl (StructureError ''TASKS_INVALID'')
                         else mapR task_from_payload xs
            | _ \<Rightarrow> Inl (StructureError ''TASKS_INVALID''))
      | _ \<Rightarrow> Inl (StructureError ''PLAN_NOT_OBJECT''))"

definition request_from_payload :: "json \<Rightarrow> plan_error + request_candidate" where
  "request_from_payload v =
     (case v of
        JObj kvs \<Rightarrow>
          bindR (require_exact_fields kvs {''metric_text'', ''current_period'', ''comparison_period''}) (\<lambda>_.
          bindR (required_text (get_field kvs ''metric_text'')) (\<lambda>m.
          bindR (time_range_of (get_field kvs ''current_period'')) (\<lambda>c.
          bindR (time_range_of (get_field kvs ''comparison_period'')) (\<lambda>p.
            Inr \<lparr>rc_metric_text = m, rc_current = c, rc_comparison = p\<rparr>))))
      | _ \<Rightarrow> Inl (StructureError ''REQUEST_NOT_OBJECT''))"

section \<open>The semantic catalog\<close>

fun add_match :: "pystr \<Rightarrow> pystr \<Rightarrow> matches \<Rightarrow> matches" where
  "add_match k name [] = [(k, {name})]"
| "add_match k name ((k', s) # ms) =
     (if k' = k then (k', insert name s) # ms else (k', s) # add_match k name ms)"

fun add_aliases :: "unicode \<Rightarrow> pystr \<Rightarrow> json list \<Rightarrow> matches \<Rightarrow> plan_error + matches" where
  "add_aliases u name [] ms = Inr ms"
| "add_aliases u name (v # vs) ms =
     bindR (required_text v) (\<lambda>a. add_aliases u name vs (add_match (lookup_key u a) name ms))"

fun add_metrics :: "unicode \<Rightarrow> json list \<Rightarrow> matches \<Rightarrow> plan_error + matches" where
  "add_metrics u [] ms = Inr ms"
| "add_metrics u (r # rs) ms =
     (case r of
        JObj kvs \<Rightarrow>
          bindR (required_text (get_field kvs ''name'')) (\<lambda>name.
            case (case obj_get kvs (lit ''aliases'') of None \<Rightarrow> JArr [] | Some v \<Rightarrow> v) of
              JArr vs \<Rightarrow> bindR (add_aliases u name (JStr name # vs) ms) (\<lambda>ms1. add_metrics u rs ms1)
            | _ \<Rightarrow> Inl (StructureError ''METRIC_ALIASES_INVALID''))
      | _ \<Rightarrow> Inl (StructureError ''METRIC_RECORD_INVALID''))"

fun add_dimensions :: "unicode \<Rightarrow> pystr list \<Rightarrow> matches \<Rightarrow> plan_error + matches" where
  "add_dimensions u [] ms = Inr ms"
| "add_dimensions u (s # ss) ms =
     bindR (required_text (JStr s)) (\<lambda>name. add_dimensions u ss (add_match (lookup_key u name) name ms))"

definition catalog_from_records :: "unicode \<Rightarrow> json list \<Rightarrow> pystr list \<Rightarrow> plan_error + catalog" where
  "catalog_from_records u records dims =
     bindR (add_metrics u records []) (\<lambda>ms.
     bindR (add_dimensions u dims []) (\<lambda>ds. Inr \<lparr>cat_metrics = ms, cat_dimensions = ds\<rparr>))"

definition lookup_matches :: "matches \<Rightarrow> pystr \<Rightarrow> pystr set" where
  "lookup_matches ms k = (case map_of ms k of None \<Rightarrow> {} | Some s \<Rightarrow> s)"

definition resolve_metric :: "unicode \<Rightarrow> catalog \<Rightarrow> pystr \<Rightarrow> plan_error + pystr" where
  "resolve_metric u cat v =
     (let ms = lookup_matches (cat_metrics cat) (lookup_key u v) in
      if card ms \<noteq> 1 then Inl (ClarificationRequired ''METRIC_NOT_UNIQUE'') else Inr (the_elem ms))"

definition resolve_dimension :: "unicode \<Rightarrow> catalog \<Rightarrow> pystr \<Rightarrow> plan_error + pystr" where
  "resolve_dimension u cat v =
     (let ms = lookup_matches (cat_dimensions cat) (lookup_key u v) in
      if card ms \<noteq> 1 then Inl (CannotAnswer ''DIMENSION_NOT_FOUND'') else Inr (the_elem ms))"

end
