(* ===== verification/Plan_Check.thy ===== *)
theory Plan_Check
  imports Planning
begin

text \<open>
  The two ways of \<open>business_analysis/planning.py\<close> to a trusted plan: \<open>build_comparison_plan\<close>, which
  checks an extracted request and generates four fixed tasks, and \<open>validate_analysis_plan\<close>, which
  checks a task graph. The recursive depth-first search \<open>depth\<close> of the latter is \<open>depth\<close> and
  \<open>depths_of\<close> below: the dictionary of known depths is threaded through the calls; the set of tasks
  being visited is the path of the current call, since every call removes its task again.
\<close>

section \<open>The generated comparison plan\<close>

definition gross_profit :: pystr where "gross_profit = [20154, 27665, 24065, 27611, 21033]"
definition net_sales :: pystr where "net_sales = [20154, 27665, 24065, 20928, 38144, 21806, 39069]"
definition sales_quantity :: pystr where "sales_quantity = [24050, 23436, 25104, 38144, 21806, 25968, 37327]"
definition sales_cost :: pystr where "sales_cost = [20154, 27665, 24065, 38144, 21806, 25104, 26412]"
definition product_name :: pystr where "product_name = [20135, 21697]"
definition year_mark :: nat where "year_mark = 24180"
definition month_mark :: nat where "month_mark = 26376"

definition product_metrics :: "pystr \<Rightarrow> pystr list" where
  "product_metrics metric =
     (if metric = gross_profit then [net_sales, sales_quantity, sales_cost] else [net_sales, sales_quantity])"

text \<open>
  The two patterns of \<open>_period_is_grounded\<close>: the whole period is four digits, the year mark, one or
  two digits and the month mark (\<open>fullmatch\<close>, giving the year); the first one or two digits followed
  by the month mark (\<open>search\<close>, the longer match first).
\<close>

definition year_month :: "unicode \<Rightarrow> pystr \<Rightarrow> pystr option" where
  "year_month u s =
     (let y = take 4 s; r = drop 4 s in
      if length y = 4 \<and> list_all (u_digit u) y \<and> r \<noteq> [] \<and> hd r = year_mark
         \<and> length r \<in> {3, 4} \<and> last r = month_mark \<and> list_all (u_digit u) (butlast (tl r))
      then Some y else None)"

fun month_search :: "unicode \<Rightarrow> pystr \<Rightarrow> pystr option" where
  "month_search u [] = None"
| "month_search u (c # s) =
     (if u_digit u c then
        (case s of
           a # b # _ \<Rightarrow> if u_digit u a \<and> b = month_mark then Some [c, a, b]
                        else if a = month_mark then Some [c, a] else month_search u s
         | [a] \<Rightarrow> if a = month_mark then Some [c, a] else month_search u s
         | [] \<Rightarrow> None)
      else month_search u s)"

definition period_grounded :: "unicode \<Rightarrow> time_range \<Rightarrow> pystr \<Rightarrow> bool" where
  "period_grounded u p question =
     (let q = squeezed u question; t = squeezed u (tr_text p) in
      if contains q t then True
      else if tr_granularity p = GMonth then
        (case year_month u t of
           None \<Rightarrow> False
         | Some year \<Rightarrow>
             (case month_search u t of
                None \<Rightarrow> False
              | Some m \<Rightarrow> contains q (year @ [year_mark]) \<and> contains q m))
      else False)"

definition unsupported_dimensions :: "unicode \<Rightarrow> catalog \<Rightarrow> pystr \<Rightarrow> pystr set" where
  "unsupported_dimensions u cat question =
     (let q = squeezed u question in
      Set.filter (\<lambda>dim. dim \<noteq> product_name \<and> contains q (squeezed u dim))
        (\<Union>(snd ` set (cat_dimensions cat))))"

definition comparison_task :: "string \<Rightarrow> pystr \<Rightarrow> pystr list \<Rightarrow> pystr list \<Rightarrow> time_range \<Rightarrow> pystr \<Rightarrow> analysis_task" where
  "comparison_task i de ms ds p ex =
     \<lparr>at_id = lit i, at_type = Comparison, at_description = de, at_metrics = ms, at_dimensions = ds,
      at_time_range = Some p, at_filters = [], at_depends_on = [], at_expected_output = ex\<rparr>"

text \<open>The fixed words of the four descriptions, in the order of the source.\<close>

definition w_query_comparison :: pystr where "w_query_comparison = [26597, 35810, 27604, 36739, 26102, 26399, 32]"
definition w_query_current :: pystr where "w_query_current = [26597, 35810, 24403, 21069, 26102, 26399, 32]"
definition w_products_comparison :: pystr where
  "w_products_comparison = [25353, 20135, 21697, 26597, 35810, 27604, 36739, 26102, 26399, 32]"
definition w_products_current :: pystr where
  "w_products_current = [25353, 20135, 21697, 26597, 35810, 24403, 21069, 26102, 26399, 32]"
definition w_of :: pystr where "w_of = [32, 30340]"
definition w_factors :: pystr where "w_factors = [32, 30340, 24402, 22240, 25351, 26631]"
definition w_baseline_value :: pystr where "w_baseline_value = [25972, 20307, 25351, 26631, 22522, 20934, 20540]"
definition w_current_value :: pystr where "w_current_value = [25972, 20307, 25351, 26631, 24403, 21069, 20540]"
definition w_product_input :: pystr where
  "w_product_input = [21508, 20135, 21697, 30340, 25351, 26631, 24402, 22240, 36755, 20837]"

definition comparison_plan :: "pystr \<Rightarrow> time_range \<Rightarrow> time_range \<Rightarrow> analysis_task list" where
  "comparison_plan metric current comparison =
     [comparison_task ''comparison-overall'' (w_query_comparison @ tr_text comparison @ w_of @ metric)
        [metric] [] comparison w_baseline_value,
      comparison_task ''current-overall'' (w_query_current @ tr_text current @ w_of @ metric)
        [metric] [] current w_current_value,
      comparison_task ''comparison-products'' (w_products_comparison @ tr_text comparison @ w_factors)
        (product_metrics metric) [product_name] comparison w_product_input,
      comparison_task ''current-products'' (w_products_current @ tr_text current @ w_factors)
        (product_metrics metric) [product_name] current w_product_input]"

definition build_comparison_plan ::
  "unicode \<Rightarrow> request_candidate \<Rightarrow> catalog \<Rightarrow> pystr \<Rightarrow> plan_error + (analysis_request \<times> analysis_task list)" where
  "build_comparison_plan u cand cat question =
     (let names = lookup_matches (cat_metrics cat) (lookup_key u (rc_metric_text cand)) in
      if card names \<noteq> 1 then Inl (ClarificationRequired ''METRIC_NOT_UNIQUE'')
      else let metric = the_elem names in
      if metric \<notin> {gross_profit, net_sales} then Inl (CannotAnswer ''METRIC_UNSUPPORTED'')
      else if \<not> contains (lookup_key u question) (lookup_key u (rc_metric_text cand))
        then Inl (ClarificationRequired ''METRIC_NOT_IN_QUESTION'')
      else if unsupported_dimensions u cat question \<noteq> {} then Inl (CannotAnswer ''DIMENSION_UNSUPPORTED'')
      else case (rc_current cand, rc_comparison cand) of
        (Some current, Some comparison) \<Rightarrow>
          if tr_granularity current \<noteq> tr_granularity comparison
            then Inl (ClarificationRequired ''COMPARISON_GRANULARITY_MISMATCH'')
          else if lookup_key u (tr_text current) = lookup_key u (tr_text comparison)
            then Inl (ClarificationRequired ''COMPARISON_PERIOD_DUPLICATE'')
          else if \<not> period_grounded u current question \<or> \<not> period_grounded u comparison question
            then Inl (ClarificationRequired ''COMPARISON_PERIOD_NOT_IN_QUESTION'')
          else if filter (\<lambda>n. map_of (cat_metrics cat) (lookup_key u n) \<noteq> Some {n}) (product_metrics metric) \<noteq> []
            then Inl (CannotAnswer ''REQUIRED_METRIC_NOT_FOUND'')
          else if map_of (cat_dimensions cat) (lookup_key u product_name) \<noteq> Some {product_name}
            then Inl (CannotAnswer ''PRODUCT_DIMENSION_NOT_FOUND'')
          else Inr (\<lparr>ar_metric = metric, ar_current = current, ar_comparison = comparison\<rparr>,
                    comparison_plan metric current comparison)
      | _ \<Rightarrow> Inl (ClarificationRequired ''COMPARISON_PERIOD_REQUIRED''))"

section \<open>Validation of a task graph\<close>

definition max_analysis_depth :: int where "max_analysis_depth = 2"
definition max_analysis_tasks :: int where "max_analysis_tasks = 12"

type_synonym graph = "(pystr \<times> pystr list) list"

definition graph_of :: "analysis_task list \<Rightarrow> graph" where
  "graph_of ts = map (\<lambda>t. (at_id t, at_depends_on t)) ts"

fun check_ids :: "pystr set \<Rightarrow> analysis_task list \<Rightarrow> plan_error + unit" where
  "check_ids seen [] = Inr ()"
| "check_ids seen (t # ts) =
     (if at_id t \<in> seen then Inl (CannotAnswer ''TASK_ID_DUPLICATE'')
      else check_ids (insert (at_id t) seen) ts)"

fun check_dependency_list :: "pystr set \<Rightarrow> pystr \<Rightarrow> pystr list \<Rightarrow> plan_error + unit" where
  "check_dependency_list ids i [] = Inr ()"
| "check_dependency_list ids i (x # xs) =
     (if x \<notin> ids then Inl (CannotAnswer ''DEPENDENCY_NOT_FOUND'')
      else if x = i then Inl (CannotAnswer ''DEPENDENCY_SELF_REFERENCE'')
      else check_dependency_list ids i xs)"

fun check_dependencies :: "pystr set \<Rightarrow> analysis_task list \<Rightarrow> plan_error + unit" where
  "check_dependencies ids [] = Inr ()"
| "check_dependencies ids (t # ts) =
     (if \<not> distinct (at_depends_on t) then Inl (CannotAnswer ''DEPENDENCY_DUPLICATE'')
      else bindR (check_dependency_list ids (at_id t) (at_depends_on t)) (\<lambda>_. check_dependencies ids ts))"

type_synonym depths = "(pystr \<times> int) list"

text \<open>A task id outside the graph does not occur: \<open>check_dependencies\<close> has run; \<open>by_id[task_id]\<close> is
  read as a task without dependencies there.\<close>

definition deps_of :: "graph \<Rightarrow> pystr \<Rightarrow> pystr list" where
  "deps_of g i = (case map_of g i of None \<Rightarrow> [] | Some ds \<Rightarrow> ds)"

definition unvisited :: "graph \<Rightarrow> pystr set \<Rightarrow> nat" where
  "unvisited g visiting = card (fst ` set g - visiting)"

lemma unvisited_insert:
  "i \<in> fst ` set g \<Longrightarrow> i \<notin> visiting \<Longrightarrow> unvisited g (insert i visiting) < unvisited g visiting"
  unfolding unvisited_def by (rule psubset_card_mono) auto

function depth :: "graph \<Rightarrow> pystr set \<Rightarrow> depths \<Rightarrow> pystr \<Rightarrow> plan_error + (int \<times> depths)"
  and depths_of :: "graph \<Rightarrow> pystr set \<Rightarrow> depths \<Rightarrow> pystr list \<Rightarrow> int \<Rightarrow> plan_error + (int \<times> depths)" where
  "depth g visiting known i =
     (case map_of known i of
        Some n \<Rightarrow> Inr (n, known)
      | None \<Rightarrow>
          if i \<in> visiting then Inl (CannotAnswer ''DEPENDENCY_CYCLE'')
          else if i \<notin> fst ` set g then Inr (0, (i, 0) # known)
          else (case depths_of g (insert i visiting) known (deps_of g i) 0 of
                  Inl e \<Rightarrow> Inl e
                | Inr (n, known1) \<Rightarrow> Inr (n, (i, n) # known1)))"
| "depths_of g visiting known [] acc = Inr (acc, known)"
| "depths_of g visiting known (x # xs) acc =
     (case depth g visiting known x of
        Inl e \<Rightarrow> Inl e
      | Inr (n, known1) \<Rightarrow> depths_of g visiting known1 xs (max acc (n + 1)))"
  by pat_completeness auto
termination
  by (relation "measures [\<lambda>x. case x of Inl (g, v, _, _) \<Rightarrow> unvisited g v | Inr (g, v, _, _, _) \<Rightarrow> unvisited g v,
                          \<lambda>x. case x of Inl _ \<Rightarrow> 0 | Inr (_, _, _, xs, _) \<Rightarrow> Suc (length xs)]")
    (auto simp: unvisited_insert)

declare depth.simps [simp del]

fun check_depths :: "graph \<Rightarrow> int \<Rightarrow> depths \<Rightarrow> pystr list \<Rightarrow> plan_error + unit" where
  "check_depths g max_depth known [] = Inr ()"
| "check_depths g max_depth known (i # is) =
     (case depth g {} known i of
        Inl e \<Rightarrow> Inl e
      | Inr (n, known1) \<Rightarrow>
          if n > max_depth then Inl (CannotAnswer ''DEPTH_LIMIT_EXCEEDED'')
          else check_depths g max_depth known1 is)"

definition resolve_task :: "unicode \<Rightarrow> catalog \<Rightarrow> analysis_task \<Rightarrow> plan_error + analysis_task" where
  "resolve_task u cat t =
     bindR (mapR (resolve_metric u cat) (at_metrics t)) (\<lambda>ms.
     bindR (mapR (resolve_dimension u cat) (at_dimensions t)) (\<lambda>ds.
       Inr (t\<lparr>at_metrics := ms, at_dimensions := ds\<rparr>)))"

definition validate_analysis_plan ::
  "unicode \<Rightarrow> analysis_task list \<Rightarrow> catalog \<Rightarrow> int \<Rightarrow> int \<Rightarrow> plan_error + analysis_task list" where
  "validate_analysis_plan u ts cat max_depth max_tasks =
     (if max_depth < 0 \<or> max_tasks \<le> 0 then Inl PlanLimitsInvalid
      else if int (length ts) > max_tasks then Inl (CannotAnswer ''TASK_LIMIT_EXCEEDED'')
      else
        bindR (check_ids {} ts) (\<lambda>_.
        bindR (check_dependencies (set (map at_id ts)) ts) (\<lambda>_.
        bindR (check_depths (graph_of ts) max_depth [] (map at_id ts)) (\<lambda>_.
          mapR (resolve_task u cat) ts))))"

end
