(* ===== verification/Plan_Properties.thy ===== *)
theory Plan_Properties
  imports Plan_Check
begin

text \<open>
  What the plan checks guarantee: the depth search computes a rank of the dependency graph, so a plan
  is accepted exactly when it is acyclic and shallow enough; what parsing and the generated comparison
  plan guarantee.
\<close>

section \<open>The depth search\<close>

definition known_ok :: "graph \<Rightarrow> depths \<Rightarrow> bool" where
  "known_ok g known \<longleftrightarrow>
     (\<forall>i n. map_of known i = Some n \<longrightarrow> 0 \<le> n
        \<and> (\<forall>x \<in> set (deps_of g i). \<exists>m. map_of known x = Some m \<and> m < n))"

definition grows :: "pystr set \<Rightarrow> depths \<Rightarrow> depths \<Rightarrow> bool" where
  "grows V known known' \<longleftrightarrow> map_of known \<subseteq>\<^sub>m map_of known' \<and> (\<forall>k \<in> V. map_of known' k = map_of known k)"

lemma grows_refl [simp]: "grows V k k"
  by (simp add: grows_def)

lemma grows_trans: "grows V a b \<Longrightarrow> grows V b c \<Longrightarrow> grows V a c"
  by (auto simp: grows_def intro: map_le_trans)

lemma grows_Some: "grows V a b \<Longrightarrow> map_of a k = Some n \<Longrightarrow> map_of b k = Some n"
  by (auto simp: grows_def map_le_def dom_def)

lemma known_ok_add:
  assumes ok: "known_ok g known" and i: "map_of known i = None" "0 \<le> n"
    and deps: "\<forall>x \<in> set (deps_of g i). \<exists>m. map_of known x = Some m \<and> m < n"
  shows "known_ok g ((i, n) # known)"
  unfolding known_ok_def
proof (intro allI impI conjI ballI)
  fix j m assume j: "map_of ((i, n) # known) j = Some m"
  then show "0 \<le> m" using ok i by (auto simp: known_ok_def split: if_splits)
  fix x assume x: "x \<in> set (deps_of g j)"
  obtain k where k: "map_of known x = Some k" "k < m"
  proof (cases "j = i")
    case True
    with j deps x that show thesis by auto
  next
    case False
    with j ok x that show thesis unfolding known_ok_def by fastforce
  qed
  with i show "\<exists>k. map_of ((i, n) # known) x = Some k \<and> k < m" by (intro exI [of _ k]) auto
qed

lemma deps_of_outside: "i \<notin> fst ` set g \<Longrightarrow> deps_of g i = []"
  by (simp add: deps_of_def map_of_eq_None_iff [THEN iffD2] image_iff)

lemma depth_sound:
  "depth g V known i = Inr (n, known') \<Longrightarrow> known_ok g known \<Longrightarrow>
     known_ok g known' \<and> grows V known known' \<and> map_of known' i = Some n"
  "depths_of g V known xs acc = Inr (n, known') \<Longrightarrow> known_ok g known \<Longrightarrow> 0 \<le> acc \<Longrightarrow>
     known_ok g known' \<and> grows V known known' \<and> acc \<le> n
     \<and> (\<forall>x \<in> set xs. \<exists>m. map_of known' x = Some m \<and> m < n)"
proof (induction g V known i and g V known xs acc arbitrary: n known' and n known' rule: depth_depths_of.induct)
  case (1 g V known i)
  show ?case
  proof (cases "map_of known i")
    case (Some m)
    with 1 show ?thesis by (auto simp: depth.simps)
  next
    case None
    show ?thesis
    proof (cases "i \<in> V \<or> i \<notin> fst ` set g")
      case True
      with 1 None have r: "i \<notin> V" "i \<notin> fst ` set g" "n = 0" "known' = (i, 0) # known"
        by (auto simp: depth.simps split: if_splits)
      have "known_ok g ((i, 0) # known)"
        by (rule known_ok_add [OF 1(3) None]) (simp_all add: deps_of_outside [OF r(2)])
      moreover have "grows V known ((i, 0) # known)"
        using r(1) None by (auto simp: grows_def map_le_def)
      ultimately show ?thesis using r by simp
    next
      case False
      with 1 None obtain known1 where k1: "depths_of g (insert i V) known (deps_of g i) 0 = Inr (n, known1)"
        "known' = (i, n) # known1"
        by (auto simp: depth.simps split: sum.splits)
      from 1(1) [OF None] False k1(1) 1(3)
      have r: "known_ok g known1" "grows (insert i V) known known1" "0 \<le> n"
        "\<forall>x \<in> set (deps_of g i). \<exists>m. map_of known1 x = Some m \<and> m < n" by auto
      have "map_of known1 i = None" using r(2) None by (simp add: grows_def)
      with known_ok_add [OF r(1) this r(3,4)] r(2) k1(2) False show ?thesis
        by (auto simp: grows_def map_le_def)
    qed
  qed
next
  case (3 g V known x xs acc)
  from 3(3) obtain m known1 where d: "depth g V known x = Inr (m, known1)"
    "depths_of g V known1 xs (max acc (m + 1)) = Inr (n, known')"
    by (auto split: sum.splits)
  from 3(1) [OF d(1) 3(4)] have a: "known_ok g known1" "grows V known known1" "map_of known1 x = Some m" by auto
  from 3(2) [OF d(1) refl d(2) a(1)] 3(5)
  have b: "known_ok g known'" "grows V known1 known'" "max acc (m + 1) \<le> n"
    "\<forall>x \<in> set xs. \<exists>m. map_of known' x = Some m \<and> m < n" by auto
  with a grows_trans [OF a(2) b(2)] grows_Some [OF b(2) a(3)] show ?case by auto
qed auto

definition ranked :: "graph \<Rightarrow> (pystr \<Rightarrow> int) \<Rightarrow> bool" where
  "ranked g r \<longleftrightarrow> (\<forall>i. 0 \<le> r i \<and> (\<forall>x \<in> set (deps_of g i). r x < r i))"

definition below :: "(pystr \<Rightarrow> int) \<Rightarrow> depths \<Rightarrow> bool" where
  "below r known \<longleftrightarrow> (\<forall>i n. map_of known i = Some n \<longrightarrow> n \<le> r i)"

lemma depth_total:
  "ranked g r \<Longrightarrow> below r known \<Longrightarrow> \<forall>v \<in> V. r i < r v \<Longrightarrow>
     \<exists>n known'. depth g V known i = Inr (n, known') \<and> below r known' \<and> n \<le> r i"
  "ranked g r \<Longrightarrow> below r known \<Longrightarrow> \<forall>v \<in> V. \<forall>x \<in> set xs. r x < r v \<Longrightarrow> \<forall>x \<in> set xs. r x < b \<Longrightarrow> acc \<le> b \<Longrightarrow>
     \<exists>n known'. depths_of g V known xs acc = Inr (n, known') \<and> below r known' \<and> n \<le> b"
proof (induction g V known i and g V known xs acc arbitrary: b and b rule: depth_depths_of.induct)
  case (1 g V known i)
  show ?case
  proof (cases "map_of known i")
    case (Some m)
    with 1 show ?thesis by (auto simp: depth.simps below_def)
  next
    case None
    have iV: "i \<notin> V" using 1(4) by auto
    have r: "0 \<le> r i" "\<forall>x \<in> set (deps_of g i). r x < r i" using 1(2) by (auto simp: ranked_def)
    show ?thesis
    proof (cases "i \<in> fst ` set g")
      case False
      with None iV r 1(3) show ?thesis by (auto simp: depth.simps below_def)
    next
      case True
      have "\<forall>v \<in> insert i V. \<forall>x \<in> set (deps_of g i). r x < r v" using r(2) 1(4) by fastforce
      from 1(1) [OF None iV _ 1(2,3) this, of "r i"] True r obtain n known1 where
        "depths_of g (insert i V) known (deps_of g i) 0 = Inr (n, known1)" "below r known1" "n \<le> r i"
        by auto
      with None iV True show ?thesis by (auto simp: depth.simps below_def)
    qed
  qed
next
  case (3 g V known x xs acc)
  have "\<forall>v \<in> V. r x < r v" using 3(5) by auto
  from 3(1) [OF 3(3,4) this] obtain m known1 where d: "depth g V known x = Inr (m, known1)" "below r known1" "m \<le> r x"
    by auto
  have "max acc (m + 1) \<le> b" using 3(6,7) d(3) by fastforce
  with 3(2) [OF d(1) refl 3(3) d(2)] 3(5,6) d(1) show ?case by simp
qed auto

lemma check_depths_sound:
  "check_depths g D known is = Inr () \<Longrightarrow> known_ok g known \<Longrightarrow>
     \<exists>known'. known_ok g known' \<and> grows {} known known' \<and> (\<forall>i \<in> set is. \<exists>n. map_of known' i = Some n \<and> n \<le> D)"
proof (induction "is" arbitrary: known)
  case (Cons i "is")
  then obtain n known1 where d: "depth g {} known i = Inr (n, known1)" "n \<le> D" "check_depths g D known1 is = Inr ()"
    by (auto split: sum.splits if_splits)
  from depth_sound(1) [OF d(1) Cons.prems(2)] have a: "known_ok g known1" "grows {} known known1" "map_of known1 i = Some n"
    by auto
  from Cons.IH [OF d(3) a(1)] obtain known' where b: "known_ok g known'" "grows {} known1 known'"
    "\<forall>i \<in> set is. \<exists>n. map_of known' i = Some n \<and> n \<le> D" by auto
  with grows_trans [OF a(2) b(2)] grows_Some [OF b(2) a(3)] d(2) show ?case by auto
qed auto

lemma check_depths_total:
  "ranked g r \<Longrightarrow> below r known \<Longrightarrow> \<forall>i \<in> set is. r i \<le> D \<Longrightarrow> check_depths g D known is = Inr ()"
proof (induction "is" arbitrary: known)
  case (Cons i "is")
  from depth_total(1) [OF Cons.prems(1,2), of "{}" i] obtain n known1 where
    "depth g {} known i = Inr (n, known1)" "below r known1" "n \<le> r i" by auto
  with Cons show ?case by fastforce
qed simp

lemma check_ids_iff: "check_ids seen ts = Inr () \<longleftrightarrow> distinct (map at_id ts) \<and> seen \<inter> set (map at_id ts) = {}"
  by (induction seen ts rule: check_ids.induct) auto

lemma check_dependency_list_iff: "check_dependency_list ids i xs = Inr () \<longleftrightarrow> set xs \<subseteq> ids \<and> i \<notin> set xs"
  by (induction xs) auto

lemma check_dependencies_iff:
  "check_dependencies ids ts = Inr () \<longleftrightarrow>
     (\<forall>t \<in> set ts. distinct (at_depends_on t) \<and> set (at_depends_on t) \<subseteq> ids \<and> at_id t \<notin> set (at_depends_on t))"
  by (induction ts) (auto simp: bindR_iffs check_dependency_list_iff)

lemma deps_of_graph:
  "distinct (map at_id ts) \<Longrightarrow> t \<in> set ts \<Longrightarrow> deps_of (graph_of ts) (at_id t) = at_depends_on t"
proof -
  assume d: "distinct (map at_id ts)" and t: "t \<in> set ts"
  have "map_of (graph_of ts) (at_id t) = Some (at_depends_on t)"
    by (rule map_of_is_SomeI) (use d t in \<open>auto simp: graph_of_def comp_def\<close>)
  then show ?thesis by (simp add: deps_of_def)
qed

lemma validate_iff:
  "validate_analysis_plan u ts cat D M = Inr plan \<longleftrightarrow>
     0 \<le> D \<and> 0 < M \<and> int (length ts) \<le> M \<and> distinct (map at_id ts)
     \<and> (\<forall>t \<in> set ts. distinct (at_depends_on t) \<and> set (at_depends_on t) \<subseteq> set (map at_id ts))
     \<and> (\<exists>rank. \<forall>t \<in> set ts. 0 \<le> rank (at_id t) \<and> rank (at_id t) \<le> D
          \<and> (\<forall>x \<in> set (at_depends_on t). rank x < rank (at_id t)))
     \<and> mapR (resolve_task u cat) ts = Inr plan"
  (is "?L \<longleftrightarrow> ?R")
proof
  assume L: ?L
  then have lim: "0 \<le> D" "0 < M" "int (length ts) \<le> M" and ids: "check_ids {} ts = Inr ()"
    and deps: "check_dependencies (set (map at_id ts)) ts = Inr ()"
    and dep: "check_depths (graph_of ts) D [] (map at_id ts) = Inr ()"
    and res: "mapR (resolve_task u cat) ts = Inr plan"
    by (auto simp: validate_analysis_plan_def bindR_iffs split: if_splits)
  have dist: "distinct (map at_id ts)" using ids by (simp add: check_ids_iff)
  have "known_ok (graph_of ts) []" by (simp add: known_ok_def)
  from check_depths_sound [OF dep this] obtain known where k: "known_ok (graph_of ts) known"
    "\<forall>i \<in> set (map at_id ts). \<exists>n. map_of known i = Some n \<and> n \<le> D" by blast
  define rank where "rank i = the (map_of known i)" for i
  have "0 \<le> rank (at_id t) \<and> rank (at_id t) \<le> D \<and> (\<forall>x \<in> set (at_depends_on t). rank x < rank (at_id t))"
    if t: "t \<in> set ts" for t
  proof -
    from k(2) t obtain n where n: "map_of known (at_id t) = Some n" "n \<le> D" by auto
    with k(1) have "0 \<le> n" "\<forall>x \<in> set (deps_of (graph_of ts) (at_id t)). \<exists>m. map_of known x = Some m \<and> m < n"
      by (auto simp: known_ok_def)
    with n show ?thesis by (auto simp: rank_def deps_of_graph [OF dist t])
  qed
  then have "\<exists>rank. \<forall>t \<in> set ts. 0 \<le> rank (at_id t) \<and> rank (at_id t) \<le> D
      \<and> (\<forall>x \<in> set (at_depends_on t). rank x < rank (at_id t))" by blast
  with lim dist deps res show ?R by (auto simp: check_dependencies_iff)
next
  assume R: ?R
  then obtain rank where rank: "\<forall>t \<in> set ts. 0 \<le> rank (at_id t) \<and> rank (at_id t) \<le> D
          \<and> (\<forall>x \<in> set (at_depends_on t). rank x < rank (at_id t))" by blast
  from R have dist: "distinct (map at_id ts)" by blast
  define r where "r i = (if i \<in> set (map at_id ts) then rank i else 0)" for i
  have "ranked (graph_of ts) r"
    unfolding ranked_def
  proof (intro allI conjI ballI)
    fix i
    show "0 \<le> r i" using rank by (auto simp: r_def)
    fix x assume x: "x \<in> set (deps_of (graph_of ts) i)"
    show "r x < r i"
    proof (cases "i \<in> set (map at_id ts)")
      case True
      then obtain t where t: "t \<in> set ts" "i = at_id t" by auto
      with x have "x \<in> set (at_depends_on t)" by (simp add: deps_of_graph [OF dist])
      with R rank t show ?thesis by (auto simp: r_def)
    next
      case False
      then have "deps_of (graph_of ts) i = []"
        by (intro deps_of_outside) (auto simp: graph_of_def)
      with x show ?thesis by simp
    qed
  qed
  moreover have "\<forall>i \<in> set (map at_id ts). r i \<le> D" using rank by (auto simp: r_def)
  ultimately have "check_depths (graph_of ts) D [] (map at_id ts) = Inr ()"
    by (intro check_depths_total) (simp_all add: below_def)
  moreover have "at_id t \<notin> set (at_depends_on t)" if "t \<in> set ts" for t
    using rank that by fastforce
  then have "check_dependencies (set (map at_id ts)) ts = Inr ()"
    using R unfolding check_dependencies_iff by blast
  moreover have "check_ids {} ts = Inr ()" using dist by (simp add: check_ids_iff)
  ultimately show ?L using R
    by (simp add: validate_analysis_plan_def del: set_map)
qed

section \<open>The claims\<close>

text \<open>C35: \<open>validate_analysis_plan\<close> accepts a plan exactly when it is within the limits, task ids are
  unique, every task names existing tasks, once each, as dependencies, the tasks can be
  ranked between 0 and the depth limit with every dependency strictly below its task (so there is no
  cycle and no chain deeper than the limit), and every metric and dimension resolves; the plan
  returned is the candidate with the resolved names.\<close>

theorem plan_accepted_iff:
  "validate_analysis_plan u ts cat D M = Inr plan \<longleftrightarrow>
     0 \<le> D \<and> 0 < M \<and> int (length ts) \<le> M \<and> distinct (map at_id ts)
     \<and> (\<forall>t \<in> set ts. distinct (at_depends_on t) \<and> set (at_depends_on t) \<subseteq> set (map at_id ts))
     \<and> (\<exists>rank. \<forall>t \<in> set ts. 0 \<le> rank (at_id t) \<and> rank (at_id t) \<le> D
          \<and> (\<forall>x \<in> set (at_depends_on t). rank x < rank (at_id t)))
     \<and> mapR (resolve_task u cat) ts = Inr plan"
  by (rule validate_iff)

definition demo_unicode :: unicode where
  "demo_unicode = \<lparr>u_casefold = map (\<lambda>c. if 65 \<le> c \<and> c \<le> 90 then c + 32 else c),
                   u_digit = (\<lambda>c. 48 \<le> c \<and> c \<le> 57)\<rparr>"

definition demo_catalog :: catalog where
  "demo_catalog = \<lparr>cat_metrics = [([109], {[77]}), (net_sales, {net_sales}), (sales_quantity, {sales_quantity})],
                   cat_dimensions = [(product_name, {product_name})]\<rparr>"

definition demo_task :: "pystr \<Rightarrow> pystr list \<Rightarrow> analysis_task" where
  "demo_task i deps = \<lparr>at_id = i, at_type = Baseline, at_description = [100], at_metrics = [[77]],
     at_dimensions = [], at_time_range = None, at_filters = [], at_depends_on = deps,
     at_expected_output = [101]\<rparr>"

lemma demo_lookup: "lookup_key demo_unicode [77] = [109]"
  by (simp add: lookup_key_def demo_unicode_def strip_def py_isspace_def py_split_def)

lemma demo_plan_checks:
  "mapR (resolve_task demo_unicode demo_catalog) [demo_task [98] [[97]], demo_task [97] []]
      = Inr [demo_task [98] [[97]], demo_task [97] []]"
  "\<exists>rank :: pystr \<Rightarrow> int. \<forall>t \<in> set [demo_task [98] [[97]], demo_task [97] []]. 0 \<le> rank (at_id t) \<and> rank (at_id t) \<le> 2
      \<and> (\<forall>x \<in> set (at_depends_on t). rank x < rank (at_id t))"
proof -
  show "mapR (resolve_task demo_unicode demo_catalog) [demo_task [98] [[97]], demo_task [97] []]
      = Inr [demo_task [98] [[97]], demo_task [97] []]"
    by (simp add: resolve_task_def demo_task_def resolve_metric_def demo_lookup lookup_matches_def demo_catalog_def)
qed (intro exI [of _ "\<lambda>i. if i = [98] then 1 else 0"], simp add: demo_task_def)

lemma demo_plan_valid:
  "validate_analysis_plan demo_unicode [demo_task [98] [[97]], demo_task [97] []] demo_catalog 2 12
     = Inr [demo_task [98] [[97]], demo_task [97] []]"
  unfolding validate_iff using demo_plan_checks by (simp add: demo_task_def)

lemma plan_accepted_iff_witness:
  "\<exists>rank :: pystr \<Rightarrow> int. \<forall>t \<in> set [demo_task [98] [[97]], demo_task [97] []]. 0 \<le> rank (at_id t) \<and> rank (at_id t) \<le> 2
     \<and> (\<forall>x \<in> set (at_depends_on t). rank x < rank (at_id t))"
  using plan_accepted_iff [THEN iffD1, OF demo_plan_valid] by blast

section \<open>Parsed plans\<close>

definition text_ok :: "pystr \<Rightarrow> bool" where
  "text_ok s \<longleftrightarrow> s \<noteq> [] \<and> strip s = s"

definition texts_ok :: "pystr list \<Rightarrow> bool" where
  "texts_ok ss \<longleftrightarrow> distinct ss \<and> list_all text_ok ss"

definition filter_ok :: "analysis_filter \<Rightarrow> bool" where
  "filter_ok f \<longleftrightarrow> text_ok (af_field f) \<and> texts_ok (af_values f) \<and> af_values f \<noteq> []
     \<and> (af_operator f \<noteq> FIn \<longrightarrow> length (af_values f) = 1)"

definition task_ok :: "analysis_task \<Rightarrow> bool" where
  "task_ok t \<longleftrightarrow> text_ok (at_id t) \<and> text_ok (at_description t) \<and> text_ok (at_expected_output t)
     \<and> texts_ok (at_metrics t) \<and> at_metrics t \<noteq> [] \<and> texts_ok (at_dimensions t) \<and> texts_ok (at_depends_on t)
     \<and> (case at_time_range t of None \<Rightarrow> True | Some r \<Rightarrow> text_ok (tr_text r))
     \<and> list_all filter_ok (at_filters t)"

lemma required_text_ok: "required_text v = Inr s \<Longrightarrow> text_ok s"
  by (auto simp: required_text_def text_ok_def split: json.splits if_splits)

lemma mapR_all: "mapR f xs = Inr ys \<Longrightarrow> (\<And>x y. f x = Inr y \<Longrightarrow> P y) \<Longrightarrow> list_all P ys"
  by (induction xs arbitrary: ys) (auto simp: bindR_iffs)

lemma string_list_ok: "string_list v b = Inr ss \<Longrightarrow> texts_ok ss \<and> (b \<or> ss \<noteq> [])"
  using mapR_all [of required_text _ ss text_ok] required_text_ok
  by (auto simp: string_list_def texts_ok_def bindR_iffs split: json.splits if_splits)

lemma time_range_of_ok: "time_range_of v = Inr r \<Longrightarrow> (case r of None \<Rightarrow> True | Some r \<Rightarrow> text_ok (tr_text r))"
  by (auto simp: time_range_of_def bindR_iffs required_text_ok split: json.splits option.splits)

lemma filter_of_ok: "filter_of v = Inr f \<Longrightarrow> filter_ok f"
  by (auto simp: filter_of_def filter_ok_def bindR_iffs required_text_ok dest!: string_list_ok
      split: json.splits option.splits if_splits)

lemma filters_of_ok: "filters_of v = Inr fs \<Longrightarrow> list_all filter_ok fs"
  by (auto simp: filters_of_def filter_of_ok split: json.splits intro: mapR_all)

lemma task_from_payload_ok: "task_from_payload v = Inr t \<Longrightarrow> task_ok t"
  by (auto simp: task_from_payload_def task_ok_def bindR_iffs required_text_ok filters_of_ok
      dest!: string_list_ok time_range_of_ok split: json.splits option.splits)

text \<open>Every plan that \<open>plan_from_payload\<close> lets through is well formed: at least one task; ids,
  descriptions and outputs are non-blank stripped text; metrics are present; metrics, dimensions and
  dependencies have no duplicates; every filter has values, exactly one unless its operator is \<open>in\<close>.\<close>

theorem parsed_plan_is_well_formed:
  assumes "plan_from_payload v = Inr ts"
  shows "ts \<noteq> [] \<and> list_all task_ok ts"
proof -
  from assms obtain xs where xs: "xs \<noteq> []" "mapR task_from_payload xs = Inr ts"
    by (auto simp: plan_from_payload_def bindR_iffs split: json.splits if_splits)
  with mapR_Inr_length [OF xs(2)] mapR_all [OF xs(2) task_from_payload_ok] show ?thesis by auto
qed

definition demo_payload :: json where
  "demo_payload = JObj [(lit ''tasks'', JArr [JObj [
     (lit ''task_id'', JStr [97]), (lit ''task_type'', JStr (lit ''trend'')),
     (lit ''description'', JStr [100]), (lit ''metrics'', JArr [JStr [109, 32]]),
     (lit ''dimensions'', JArr []), (lit ''time_range'', JNull), (lit ''filters'', JArr []),
     (lit ''depends_on'', JArr []), (lit ''expected_output'', JStr [101])]])]"

lemma demo_payload_parsed: "\<exists>ts. plan_from_payload demo_payload = Inr ts"
  by (simp add: demo_payload_def plan_from_payload_def require_exact_fields_def get_field_def obj_get_def
      task_from_payload_def task_fields_def lit_def task_type_of_def required_text_def strip_def
      py_isspace_def string_list_def time_range_of_def filters_of_def)

lemma parsed_plan_is_well_formed_witness:
  "\<exists>ts. plan_from_payload demo_payload = Inr ts \<and> ts \<noteq> [] \<and> list_all task_ok ts"
  using demo_payload_parsed parsed_plan_is_well_formed by blast

section \<open>The generated plan\<close>

text \<open>A plan generated for a comparison question is safe to run: it has the four fixed tasks with
  distinct ids and no dependencies, the metric is a supported one named in the question, both
  periods are grounded in the question, differ, and have the same granularity, and every metric
  of the product tasks resolves in the catalog to itself and nothing else.\<close>

theorem generated_plan_is_safe:
  assumes "build_comparison_plan u cand cat question = Inr (req, plan)"
  shows "map at_id plan = map lit [''comparison-overall'', ''current-overall'', ''comparison-products'', ''current-products'']
    \<and> distinct (map at_id plan) \<and> (\<forall>t \<in> set plan. at_depends_on t = [])
    \<and> ar_metric req \<in> {gross_profit, net_sales}
    \<and> contains (lookup_key u question) (lookup_key u (rc_metric_text cand))
    \<and> map at_time_range plan = [Some (ar_comparison req), Some (ar_current req), Some (ar_comparison req), Some (ar_current req)]
    \<and> tr_granularity (ar_current req) = tr_granularity (ar_comparison req)
    \<and> lookup_key u (tr_text (ar_current req)) \<noteq> lookup_key u (tr_text (ar_comparison req))
    \<and> period_grounded u (ar_current req) question \<and> period_grounded u (ar_comparison req) question
    \<and> (\<forall>m \<in> set (product_metrics (ar_metric req)). resolve_metric u cat m = Inr m)
    \<and> resolve_dimension u cat product_name = Inr product_name"
proof -
  from assms obtain current comparison where c: "rc_current cand = Some current" "rc_comparison cand = Some comparison"
    by (auto simp: build_comparison_plan_def Let_def split: if_splits option.splits)
  let ?metric = "the_elem (lookup_matches (cat_metrics cat) (lookup_key u (rc_metric_text cand)))"
  have g: "?metric \<in> {gross_profit, net_sales}" "contains (lookup_key u question) (lookup_key u (rc_metric_text cand))"
    "tr_granularity current = tr_granularity comparison"
    "lookup_key u (tr_text current) \<noteq> lookup_key u (tr_text comparison)"
    "period_grounded u current question" "period_grounded u comparison question"
    "filter (\<lambda>n. map_of (cat_metrics cat) (lookup_key u n) \<noteq> Some {n}) (product_metrics ?metric) = []"
    "map_of (cat_dimensions cat) (lookup_key u product_name) = Some {product_name}"
    "req = \<lparr>ar_metric = ?metric, ar_current = current, ar_comparison = comparison\<rparr>"
    "plan = comparison_plan ?metric current comparison"
    using assms c by (simp_all add: build_comparison_plan_def Let_def split: if_splits)
  have "resolve_metric u cat m = Inr m" if "m \<in> set (product_metrics ?metric)" for m
  proof -
    have "map_of (cat_metrics cat) (lookup_key u m) = Some {m}" using g(7) that by (auto simp: filter_empty_conv)
    then show ?thesis by (simp add: resolve_metric_def lookup_matches_def)
  qed
  moreover have "resolve_dimension u cat product_name = Inr product_name"
    by (simp add: resolve_dimension_def lookup_matches_def g(8))
  ultimately show ?thesis
    using g(1-6) by (simp add: g(9,10) comparison_plan_def comparison_task_def lit_def)
qed

definition demo_question :: pystr where
  "demo_question = net_sales @ [32, 50, 48, 50, 52] @ [32, 50, 48, 50, 53]"

definition demo_request :: request_candidate where
  "demo_request = \<lparr>rc_metric_text = net_sales,
     rc_current = Some \<lparr>tr_text = [50, 48, 50, 53], tr_granularity = GYear\<rparr>,
     rc_comparison = Some \<lparr>tr_text = [50, 48, 50, 52], tr_granularity = GYear\<rparr>\<rparr>"

lemma demo_plan_built: "\<exists>req plan. build_comparison_plan demo_unicode demo_request demo_catalog demo_question = Inr (req, plan)"
  by (simp add: build_comparison_plan_def demo_request_def demo_catalog_def demo_question_def demo_unicode_def
      lookup_key_def strip_def py_isspace_def py_split_def lookup_matches_def net_sales_def gross_profit_def
      sales_quantity_def product_name_def unsupported_dimensions_def squeezed_def period_grounded_def
      product_metrics_def Let_def)

lemma generated_plan_is_safe_witness:
  "\<exists>req plan. build_comparison_plan demo_unicode demo_request demo_catalog demo_question = Inr (req, plan)
     \<and> length plan = 4 \<and> (\<forall>t \<in> set plan. at_depends_on t = [])"
proof -
  obtain req plan where b: "build_comparison_plan demo_unicode demo_request demo_catalog demo_question = Inr (req, plan)"
    using demo_plan_built by blast
  have "length (map at_id plan) = 4 \<and> (\<forall>t \<in> set plan. at_depends_on t = [])"
    using generated_plan_is_safe [OF b] by (simp only: list.size length_map) simp
  with b show ?thesis by auto
qed

end
