(* ===== verification/Task_Executor.thy ===== *)
theory Task_Executor
  imports Plan_Properties
begin

text \<open>
  The task executor of \<open>business_analysis/execution.py\<close>: the canonical question of a task, one
  guarded query per task, and the loop that runs the tasks of a plan when their dependencies are
  done. The query service, the semantic validation of another package (\<open>validate_candidate\<close>) and
  the checkpoints of the execution control are the arguments of the record \<open>world\<close>: functions of
  the task and the state \<open>'s\<close> of everything outside this module. Without an execution control
  \<open>w_checkpoint\<close> returns \<open>None\<close>. Error messages with fixed Chinese texts are not kept.
\<close>

section \<open>Data\<close>

datatype task_status = TaskCompleted | TaskFailed | TaskSkipped

record task_error =
  te_code :: string
  te_internal :: "string option"

record 'c task_result =
  res_id :: pystr
  res_status :: task_status
  res_columns :: "pystr list"
  res_rows :: "'c list list"
  res_row_count :: int
  res_truncated :: bool
  res_error :: "task_error option"

datatype 'c query_outcome =
    QuerySuccess "pystr list" "'c list list" int bool
  | QueryFailure string "string option"
  | QueryOther
  | QueryRaises
  | QueryStopped string

record semantic_candidate =
  sc_metrics :: "pystr list"
  sc_dimensions :: "pystr list"
  sc_time :: "time_range option"
  sc_filters :: "analysis_filter list"

datatype 'q adapt_outcome = Validated 'q | NotValidated | SemanticInvalid | AdaptRaises | AdaptStopped string

record 'q query_request =
  qr_question :: pystr
  qr_request_id :: pystr
  qr_semantic :: 'q

record ('s, 'q, 'c) world =
  w_checkpoint :: "'s \<Rightarrow> string option \<times> 's"
  w_validate :: "semantic_candidate \<Rightarrow> pystr \<Rightarrow> 'q adapt_outcome"
  w_query :: "'q query_request \<Rightarrow> 's \<Rightarrow> 'c query_outcome \<times> 's"

datatype exec_error = ExecStopped string | CannotProgress | ResultMissing

section \<open>The question of a task\<close>

definition w_none :: pystr where "w_none = [26080]"
definition w_comma :: pystr where "w_comma = [12289]"
definition w_year_dimension :: pystr where "w_year_dimension = [24180, 20221]"

definition time_candidate :: "analysis_task \<Rightarrow> time_range option" where
  "time_candidate t =
     (case at_time_range t of
        None \<Rightarrow> None
      | Some r \<Rightarrow>
          if at_type t = Comparison \<and> w_year_dimension \<in> set (at_dimensions t)
             \<and> (contains (tr_text r) [21644] \<or> contains (tr_text r) [19982] \<or> contains (tr_text r) w_comma)
          then None else Some r)"

fun granularity_text :: "granularity \<Rightarrow> pystr" where
  "granularity_text GDay = lit ''day''"
| "granularity_text GWeek = lit ''week''"
| "granularity_text GMonth = lit ''month''"
| "granularity_text GQuarter = lit ''quarter''"
| "granularity_text GYear = lit ''year''"

fun operator_text :: "filter_op \<Rightarrow> pystr" where
  "operator_text FEquals = lit ''equals''"
| "operator_text FIn = lit ''in''"
| "operator_text FGt = lit ''gt''"
| "operator_text FGte = lit ''gte''"
| "operator_text FLt = lit ''lt''"
| "operator_text FLte = lit ''lte''"

definition canonical_time_range :: "analysis_task \<Rightarrow> pystr" where
  "canonical_time_range t =
     (case time_candidate t of
        None \<Rightarrow> w_none
      | Some r \<Rightarrow> tr_text r @ [40] @ granularity_text (tr_granularity r) @ [41])"

definition canonical_filter :: "analysis_filter \<Rightarrow> pystr" where
  "canonical_filter f = af_field f @ operator_text (af_operator f) @ join [44] (af_values f)"

definition canonical_question :: "analysis_task \<Rightarrow> pystr" where
  "canonical_question t =
     (let metrics = (if at_metrics t \<noteq> [] then join w_comma (at_metrics t) else w_none);
          dimensions = (if at_dimensions t \<noteq> [] then join w_comma (at_dimensions t) else w_none);
          joined = join w_comma (map canonical_filter (at_filters t));
          filters = (if joined \<noteq> [] then joined else w_none)
      in [25351, 26631, 61] @ metrics @ [65307, 32500, 24230, 61] @ dimensions
         @ [65307, 26102, 38388, 61] @ canonical_time_range t @ [65307, 31579, 36873, 61] @ filters)"

definition task_request_id :: "pystr option \<Rightarrow> pystr \<Rightarrow> pystr" where
  "task_request_id request_id i =
     (case request_id of
        Some r \<Rightarrow> if strip r \<noteq> [] then strip r @ [58] @ i else i
      | None \<Rightarrow> i)"

definition semantic_candidate_of :: "analysis_task \<Rightarrow> semantic_candidate" where
  "semantic_candidate_of t =
     \<lparr>sc_metrics = at_metrics t, sc_dimensions = at_dimensions t, sc_time = time_candidate t,
      sc_filters = at_filters t\<rparr>"

section \<open>One task\<close>

definition bare_result :: "pystr \<Rightarrow> task_status \<Rightarrow> task_error option \<Rightarrow> 'c task_result" where
  "bare_result i st e = \<lparr>res_id = i, res_status = st, res_columns = [], res_rows = [],
     res_row_count = 0, res_truncated = False, res_error = e\<rparr>"

definition failed :: "pystr \<Rightarrow> string \<Rightarrow> 'c task_result" where
  "failed i code = bare_result i TaskFailed (Some \<lparr>te_code = code, te_internal = None\<rparr>)"

definition query_result :: "pystr \<Rightarrow> 'c query_outcome \<Rightarrow> 'c task_result" where
  "query_result i q =
     (case q of
        QuerySuccess cols rows n tr \<Rightarrow>
          \<lparr>res_id = i, res_status = TaskCompleted, res_columns = cols, res_rows = rows,
           res_row_count = n, res_truncated = tr, res_error = None\<rparr>
      | QueryFailure code internal \<Rightarrow>
          bare_result i TaskFailed (Some \<lparr>te_code = code, te_internal = internal\<rparr>)
      | QueryRaises \<Rightarrow> failed i ''TASK_EXECUTION_ERROR''
      | _ \<Rightarrow> failed i ''TASK_RESULT_INVALID'')"

definition run_query ::
  "('s, 'q, 'c) world \<Rightarrow> 's \<Rightarrow> pystr \<Rightarrow> 'q query_request \<Rightarrow> (exec_error + 'c task_result) \<times> 's" where
  "run_query w s i req =
     (case w_checkpoint w s of
        (Some r, s1) \<Rightarrow> (Inl (ExecStopped r), s1)
      | (None, s1) \<Rightarrow>
          (case w_query w req s1 of
             (QueryStopped r, s2) \<Rightarrow> (Inl (ExecStopped r), s2)
           | (QueryRaises, s2) \<Rightarrow> (Inr (query_result i QueryRaises), s2)
           | (q, s2) \<Rightarrow>
               (case w_checkpoint w s2 of
                  (Some r, s3) \<Rightarrow> (Inl (ExecStopped r), s3)
                | (None, s3) \<Rightarrow> (Inr (query_result i q), s3))))"

definition execute_task ::
  "('s, 'q, 'c) world \<Rightarrow> pystr option \<Rightarrow> analysis_task \<Rightarrow> 's \<Rightarrow> (exec_error + 'c task_result) \<times> 's" where
  "execute_task w request_id t s =
     (case w_checkpoint w s of
        (Some r, s1) \<Rightarrow> (Inl (ExecStopped r), s1)
      | (None, s1) \<Rightarrow>
          (case w_validate w (semantic_candidate_of t) (canonical_question t) of
             AdaptStopped r \<Rightarrow> (Inl (ExecStopped r), s1)
           | SemanticInvalid \<Rightarrow> (Inr (failed (at_id t) ''TASK_SEMANTIC_INVALID''), s1)
           | NotValidated \<Rightarrow> (Inr (failed (at_id t) ''TASK_SEMANTIC_INVALID''), s1)
           | AdaptRaises \<Rightarrow> (Inr (failed (at_id t) ''TASK_ADAPTER_ERROR''), s1)
           | Validated q \<Rightarrow>
               (case w_checkpoint w s1 of
                  (Some r, s2) \<Rightarrow> (Inl (ExecStopped r), s2)
                | (None, s2) \<Rightarrow>
                    run_query w s2 (at_id t) \<lparr>qr_question = canonical_question t,
                      qr_request_id = task_request_id request_id (at_id t), qr_semantic = q\<rparr>)))"

section \<open>The loop\<close>

type_synonym 'c results = "(pystr \<times> 'c task_result) list"

definition step_result ::
  "('s, 'q, 'c) world \<Rightarrow> pystr option \<Rightarrow> 'c results \<Rightarrow> analysis_task \<Rightarrow> 's \<Rightarrow> (exec_error + 'c task_result) \<times> 's" where
  "step_result w request_id results t s =
     (if list_ex (\<lambda>d. case map_of results d of Some r \<Rightarrow> res_status r \<noteq> TaskCompleted | None \<Rightarrow> False)
           (at_depends_on t)
      then (Inr (bare_result (at_id t) TaskSkipped
              (Some \<lparr>te_code = ''DEPENDENCY_FAILED'', te_internal = None\<rparr>)), s)
      else execute_task w request_id t s)"

fun run_round ::
  "('s, 'q, 'c) world \<Rightarrow> pystr option \<Rightarrow> analysis_task list \<Rightarrow> 'c results \<Rightarrow> 's
     \<Rightarrow> (exec_error + (analysis_task list \<times> 'c results)) \<times> 's" where
  "run_round w request_id [] results s = (Inr ([], results), s)"
| "run_round w request_id (t # ts) results s =
     (case w_checkpoint w s of
        (Some r, s1) \<Rightarrow> (Inl (ExecStopped r), s1)
      | (None, s1) \<Rightarrow>
          if list_ex (\<lambda>d. map_of results d = None) (at_depends_on t) then
            (case run_round w request_id ts results s1 of
               (Inl e, s2) \<Rightarrow> (Inl e, s2)
             | (Inr (next, results1), s2) \<Rightarrow> (Inr (t # next, results1), s2))
          else
            (case step_result w request_id results t s1 of
               (Inl e, s2) \<Rightarrow> (Inl e, s2)
             | (Inr r, s2) \<Rightarrow> run_round w request_id ts ((at_id t, r) # results) s2))"

text \<open>\<open>progressed\<close> is set exactly when a task leaves the list of pending tasks.\<close>

lemma run_round_length: "run_round w q ts res s = (Inr (nxt, res'), s') \<Longrightarrow> length nxt \<le> length ts"
  by (induction w q ts res s arbitrary: nxt res' s' rule: run_round.induct)
    (auto split: prod.splits option.splits sum.splits if_splits, force+)

function run_pending ::
  "('s, 'q, 'c) world \<Rightarrow> pystr option \<Rightarrow> analysis_task list \<Rightarrow> 'c results \<Rightarrow> 's
     \<Rightarrow> (exec_error + 'c results) \<times> 's" where
  "run_pending w request_id pending results s =
     (if pending = [] then (Inr results, s)
      else case run_round w request_id pending results s of
        (Inl e, s1) \<Rightarrow> (Inl e, s1)
      | (Inr (next, results1), s1) \<Rightarrow>
          if length next = length pending then (Inl CannotProgress, s1)
          else run_pending w request_id next results1 s1)"
  by pat_completeness auto
termination
proof (relation "measure (\<lambda>(w, q, pending, r, s). length pending)")
  fix w :: "('a, 'b, 'c) world" and q pending results s x y a b c d
  assume "(x, y) = run_round w q pending results s" "x = Inr c" "(a, b) = c" "length a \<noteq> length pending"
  then show "((w, q, a, b, y), w, q, pending, results, s) \<in> measure (\<lambda>(w, q, pending, r, s). length pending)"
    using run_round_length [of w q pending results s a b y] by simp
qed simp

declare run_pending.simps [simp del]

definition execute_plan ::
  "('s, 'q, 'c) world \<Rightarrow> pystr option \<Rightarrow> analysis_task list \<Rightarrow> 's \<Rightarrow> (exec_error + 'c task_result list) \<times> 's" where
  "execute_plan w request_id plan s =
     (case w_checkpoint w s of
        (Some r, s1) \<Rightarrow> (Inl (ExecStopped r), s1)
      | (None, s1) \<Rightarrow>
          (case run_pending w request_id plan [] s1 of
             (Inl e, s2) \<Rightarrow> (Inl e, s2)
           | (Inr results, s2) \<Rightarrow>
               (mapR (\<lambda>t. case map_of results (at_id t) of Some r \<Rightarrow> Inr r | None \<Rightarrow> Inl ResultMissing) plan, s2)))"

end
