(* ===== verification/Executor_Properties.thy ===== *)
theory Executor_Properties
  imports Task_Executor
begin

text \<open>
  The executor's loop: on a plan whose dependencies can be ranked it always ends, every task gets
  exactly one result, and a task is skipped exactly when one of its dependencies did not complete.
\<close>

definition explained :: "analysis_task list \<Rightarrow> 'c results \<Rightarrow> bool" where
  "explained plan results \<longleftrightarrow>
     (\<forall>i r. map_of results i = Some r \<longrightarrow>
        (\<exists>t \<in> set plan. at_id t = i \<and> res_id r = i \<and> (\<forall>d \<in> set (at_depends_on t). map_of results d \<noteq> None)
           \<and> (res_status r = TaskSkipped \<longleftrightarrow>
                (\<exists>d \<in> set (at_depends_on t). \<exists>x. map_of results d = Some x \<and> res_status x \<noteq> TaskCompleted))))"

lemma explained_Nil [simp]: "explained plan []"
  by (simp add: explained_def)

lemma bare_result_simps [simp]:
  "res_id (bare_result i st e) = i" "res_status (bare_result i st e) = st"
  "res_id (failed i c) = i" "res_status (failed i c) = TaskFailed"
  by (simp_all add: bare_result_def failed_def)

lemma query_result_simps [simp]: "res_id (query_result i q) = i" "res_status (query_result i q) \<noteq> TaskSkipped"
  by (simp_all add: query_result_def split: query_outcome.split)

lemma run_query_result:
  "run_query w s i req = (Inr r, s') \<Longrightarrow> res_id r = i \<and> res_status r \<noteq> TaskSkipped"
  by (auto simp: run_query_def split: prod.splits option.splits query_outcome.splits)

lemma execute_task_result:
  "execute_task w q t s = (Inr r, s') \<Longrightarrow> res_id r = at_id t \<and> res_status r \<noteq> TaskSkipped"
  by (auto simp: execute_task_def dest: run_query_result split: prod.splits option.splits adapt_outcome.splits)

lemma step_result_result:
  "step_result w q results t s = (Inr r, s') \<Longrightarrow>
     res_id r = at_id t
     \<and> (res_status r = TaskSkipped \<longleftrightarrow>
          (\<exists>d \<in> set (at_depends_on t). \<exists>x. map_of results d = Some x \<and> res_status x \<noteq> TaskCompleted))"
  by (auto simp: step_result_def list_ex_iff dest: execute_task_result split: if_splits option.splits)

lemma explained_add:
  assumes ex: "explained plan results" and t: "t \<in> set plan" and fresh: "map_of results (at_id t) = None"
    and deps: "\<forall>d \<in> set (at_depends_on t). map_of results d \<noteq> None"
    and r: "step_result w q results t s = (Inr r, s')"
  shows "explained plan ((at_id t, r) # results)"
  unfolding explained_def
proof (intro allI impI)
  let ?new = "(at_id t, r) # results"
  have keep: "map_of ?new d = map_of results d" if "map_of results d \<noteq> None" for d
    using that fresh by auto
  fix i x assume x: "map_of ?new i = Some x"
  show "\<exists>u \<in> set plan. at_id u = i \<and> res_id x = i \<and> (\<forall>d \<in> set (at_depends_on u). map_of ?new d \<noteq> None)
      \<and> (res_status x = TaskSkipped \<longleftrightarrow>
           (\<exists>d \<in> set (at_depends_on u). \<exists>y. map_of ?new d = Some y \<and> res_status y \<noteq> TaskCompleted))"
  proof (cases "i = at_id t")
    case True
    then have "x = r" using x by simp
    with True t deps keep step_result_result [OF r] show ?thesis by (intro bexI [of _ t]) auto
  next
    case False
    then have "map_of results i = Some x" using x by simp
    then obtain u where u: "u \<in> set plan" "at_id u = i" "res_id x = i"
      "\<forall>d \<in> set (at_depends_on u). map_of results d \<noteq> None"
      "res_status x = TaskSkipped \<longleftrightarrow>
           (\<exists>d \<in> set (at_depends_on u). \<exists>y. map_of results d = Some y \<and> res_status y \<noteq> TaskCompleted)"
      using ex unfolding explained_def by blast
    with keep show ?thesis by (intro bexI [of _ u]) auto
  qed
qed

definition round_inv :: "analysis_task list \<Rightarrow> analysis_task list \<Rightarrow> 'c results \<Rightarrow> bool" where
  "round_inv plan pending results \<longleftrightarrow>
     explained plan results \<and> set pending \<subseteq> set plan \<and> distinct (map at_id pending)
     \<and> at_id ` set pending \<inter> dom (map_of results) = {}"

lemma run_round_spec:
  "run_round w q ts results s = (Inr (nxt, results'), s') \<Longrightarrow> round_inv plan ts results \<Longrightarrow>
     round_inv plan nxt results' \<and> set nxt \<subseteq> set ts
     \<and> dom (map_of results') \<union> at_id ` set nxt = dom (map_of results) \<union> at_id ` set ts
     \<and> map_of results \<subseteq>\<^sub>m map_of results'
     \<and> (\<forall>t \<in> set nxt. \<exists>d \<in> set (at_depends_on t). map_of results d = None)"
proof (induction ts arbitrary: results s nxt)
  case Nil
  then show ?case by simp
next
  case (Cons t ts)
  obtain s1 where c: "w_checkpoint w s = (None, s1)" using Cons.prems(1) by (auto split: prod.splits option.splits)
  have inv: "explained plan results" "t \<in> set plan" "set ts \<subseteq> set plan" "at_id t \<notin> at_id ` set ts"
    "distinct (map at_id ts)" "map_of results (at_id t) = None" "at_id ` set ts \<inter> dom (map_of results) = {}"
    using Cons.prems(2) by (auto simp: round_inv_def)
  show ?case
  proof (cases "list_ex (\<lambda>d. map_of results d = None) (at_depends_on t)")
    case True
    with Cons.prems(1) c obtain n1 where n1: "run_round w q ts results s1 = (Inr (n1, results'), s')" "nxt = t # n1"
      by (auto split: prod.splits sum.splits)
    have "round_inv plan ts results" using inv by (simp add: round_inv_def)
    note IH = Cons.IH [OF n1(1) this]
    have tn: "at_id t \<notin> at_id ` set n1" using IH inv(4) by blast
    have "at_id t \<notin> dom (map_of results')"
    proof
      assume a: "at_id t \<in> dom (map_of results')"
      then have "at_id t \<in> dom (map_of results) \<union> at_id ` set ts" using IH by blast
      with inv(4,6) show False by auto
    qed
    with IH inv True tn show ?thesis by (auto simp: round_inv_def n1(2) list_ex_iff)
  next
    case False
    with Cons.prems(1) c obtain r s2 where r: "step_result w q results t s1 = (Inr r, s2)"
      "run_round w q ts ((at_id t, r) # results) s2 = (Inr (nxt, results'), s')"
      by (auto split: prod.splits sum.splits)
    have deps: "\<forall>d \<in> set (at_depends_on t). map_of results d \<noteq> None" using False by (auto simp: list_ex_iff)
    have inv1: "round_inv plan ts ((at_id t, r) # results)"
      using explained_add [OF inv(1,2,6) deps r(1)] inv by (auto simp: round_inv_def)
    note IH = Cons.IH [OF r(2) inv1]
    have "map_of results \<subseteq>\<^sub>m map_of ((at_id t, r) # results)"
      using inv(6) by (auto simp: map_le_def)
    then have "map_of results \<subseteq>\<^sub>m map_of results'" using IH map_le_trans by blast
    moreover have "\<exists>d \<in> set (at_depends_on u). map_of results d = None" if "u \<in> set nxt" for u
      using IH that by (auto split: if_splits)
    ultimately show ?thesis using IH by auto
  qed
qed

definition plan_ranked :: "analysis_task list \<Rightarrow> bool" where
  "plan_ranked plan \<longleftrightarrow> distinct (map at_id plan)
     \<and> (\<forall>t \<in> set plan. set (at_depends_on t) \<subseteq> at_id ` set plan)
     \<and> (\<exists>rank :: pystr \<Rightarrow> int. \<forall>t \<in> set plan. 0 \<le> rank (at_id t) \<and> (\<forall>d \<in> set (at_depends_on t). rank d < rank (at_id t)))"

lemma run_pending_spec:
  assumes ranked: "plan_ranked plan"
  shows "round_inv plan pending results \<Longrightarrow> at_id ` set plan \<subseteq> dom (map_of results) \<union> at_id ` set pending \<Longrightarrow>
     run_pending w q pending results s = (r, s') \<Longrightarrow>
     (case r of Inl e \<Rightarrow> \<exists>x. e = ExecStopped x
      | Inr results' \<Rightarrow> explained plan results' \<and> at_id ` set plan \<subseteq> dom (map_of results'))"
proof (induction w q pending results s rule: run_pending.induct)
  case (1 w q pending results s)
  show ?case
  proof (cases "pending = []")
    case True
    with 1 show ?thesis by (auto simp: run_pending.simps round_inv_def)
  next
    case False
    show ?thesis
    proof (cases "run_round w q pending results s")
      case (Pair r1 s1)
      show ?thesis
      proof (cases r1)
        case (Inl e)
        have "\<exists>x. e = ExecStopped x"
          using Pair unfolding Inl
        proof (induction w q pending results s arbitrary: s1 rule: run_round.induct)
          case (2 w q t ts results s)
          have "\<exists>x. e = ExecStopped x" if "step_result w q results t s2 = (Inl e, s3)" for s2 s3
            using that by (auto simp: step_result_def execute_task_def run_query_def
                split: if_splits prod.splits option.splits adapt_outcome.splits query_outcome.splits)
          with 2 show ?case by (auto split: prod.splits option.splits sum.splits if_splits)
        qed simp
        with Inl Pair False 1(4) show ?thesis by (auto simp: run_pending.simps)
      next
        case (Inr p)
        obtain nxt results1 where p: "p = (nxt, results1)" by (cases p)
        note round = Pair [unfolded Inr p]
        note spec = run_round_spec [OF round 1(2)]
        show ?thesis
        proof (cases "length nxt = length pending")
          case True
          have dist: "distinct pending" "distinct nxt" using 1(2) spec by (auto simp: round_inv_def distinct_map)
          then have same: "set nxt = set pending"
            using True spec by (intro card_subset_eq) (auto simp: distinct_card)
          obtain rank :: "pystr \<Rightarrow> int" where rank: "\<forall>t \<in> set plan. 0 \<le> rank (at_id t)
              \<and> (\<forall>d \<in> set (at_depends_on t). rank d < rank (at_id t))"
            using ranked by (auto simp: plan_ranked_def)
          define t where "t = arg_min_on (\<lambda>t. rank (at_id t)) (set pending)"
          have t: "t \<in> set pending" using False by (simp add: t_def arg_min_if_finite)
          have min: "\<not> rank (at_id u) < rank (at_id t)" if "u \<in> set pending" for u
            using arg_min_if_finite(2) [of "set pending" "\<lambda>t. rank (at_id t)"] that False by (auto simp: t_def)
          obtain d where d: "d \<in> set (at_depends_on t)" "map_of results d = None"
            using spec t same by blast
          have "t \<in> set plan" using t 1(2) by (auto simp: round_inv_def)
          then have "d \<in> at_id ` set plan" "rank d < rank (at_id t)"
            using d(1) ranked rank by (auto simp: plan_ranked_def)
          with d(2) 1(3) obtain u where "u \<in> set pending" "at_id u = d" by auto
          with min \<open>rank d < rank (at_id t)\<close> have False by blast
          then show ?thesis ..
        next
          case less: False
          have "at_id ` set plan \<subseteq> dom (map_of results1) \<union> at_id ` set nxt"
            using 1(3) by (simp only: spec)
          moreover have "run_pending w q nxt results1 s1 = (r, s')"
            using 1(4) less unfolding run_pending.simps [of w q pending results s] round
            by (simp only: if_False False sum.case prod.case)
          ultimately show ?thesis
            by (intro 1(1) [OF False round [symmetric] refl refl less]) (simp_all only: spec)
        qed
      qed
    qed
  qed
qed

lemma validated_plan_ranked:
  assumes "validate_analysis_plan u ts cat D M = Inr plan"
  shows "plan_ranked plan"
proof -
  note v = validate_iff [THEN iffD1, OF assms]
  have l2: "list_all2 (\<lambda>t t'. at_id t' = at_id t \<and> at_depends_on t' = at_depends_on t) ts plan"
    using v unfolding mapR_Inr_iff by (auto elim!: list_all2_mono simp: resolve_task_def bindR_iffs)
  have ids: "map at_id plan = map at_id ts"
    using l2 by (induction rule: list_all2_induct) auto
  have mem: "\<exists>t \<in> set ts. at_id t = at_id t' \<and> at_depends_on t = at_depends_on t'" if "t' \<in> set plan" for t'
    using l2 that by (auto simp: list_all2_conv_all_nth in_set_conv_nth) (metis nth_mem)
  have "at_id ` set plan = at_id ` set ts" using ids by (metis set_map)
  with v ids mem show ?thesis unfolding plan_ranked_def by (metis set_map)
qed

section \<open>Results of a whole plan\<close>

lemma execute_plan_spec:
  assumes ranked: "plan_ranked plan" and run: "execute_plan w q plan s = (r, s')"
  shows "case r of Inl e \<Rightarrow> \<exists>x. e = ExecStopped x
      | Inr rs \<Rightarrow> \<exists>results. explained plan results
          \<and> list_all2 (\<lambda>t x. map_of results (at_id t) = Some x) plan rs"
proof (cases "w_checkpoint w s")
  case (Pair c s1)
  show ?thesis
  proof (cases c)
    case None
    obtain r1 s2 where p: "run_pending w q plan [] s1 = (r1, s2)" by (cases "run_pending w q plan [] s1")
    have "round_inv plan plan []" using ranked by (simp add: round_inv_def plan_ranked_def)
    from run_pending_spec [OF ranked this _ p]
    have spec: "case r1 of Inl e \<Rightarrow> \<exists>x. e = ExecStopped x
      | Inr results' \<Rightarrow> explained plan results' \<and> at_id ` set plan \<subseteq> dom (map_of results')" by simp
    show ?thesis
    proof (cases r1)
      case (Inl e)
      with run p Pair None spec show ?thesis by (auto simp: execute_plan_def)
    next
      case (Inr results)
      let ?f = "\<lambda>t. case map_of results (at_id t) of Some x \<Rightarrow> Inr x | None \<Rightarrow> Inl ResultMissing"
      have sp: "explained plan results" "at_id ` set plan \<subseteq> dom (map_of results)" using spec Inr by auto
      have "\<exists>y. ?f t = Inr y" if "t \<in> set plan" for t using sp(2) that by (auto split: option.split)
      then obtain rs where rs: "mapR ?f plan = Inr rs" using mapR_total [of plan ?f] by blast
      then have l2: "list_all2 (\<lambda>t x. map_of results (at_id t) = Some x) plan rs"
        unfolding mapR_Inr_iff by (rule list_all2_mono) (auto split: option.splits)
      have "r = Inr rs" using run p Pair None Inr rs by (simp add: execute_plan_def)
      with sp(1) l2 show ?thesis by auto
    qed
  qed (use run Pair in \<open>auto simp: execute_plan_def\<close>)
qed

text \<open>Nothing outside asks to stop: no checkpoint, validation or query raises \<open>ExecutionStopped\<close>.\<close>

definition never_stops :: "('s, 'q, 'c) world \<Rightarrow> bool" where
  "never_stops w \<longleftrightarrow> (\<forall>s. fst (w_checkpoint w s) = None) \<and> (\<forall>c t x. w_validate w c t \<noteq> AdaptStopped x)
     \<and> (\<forall>req s x. fst (w_query w req s) \<noteq> QueryStopped x)"

lemma step_never_stops: "never_stops w \<Longrightarrow> step_result w q results t s \<noteq> (Inl (ExecStopped x), s')"
proof
  assume n: "never_stops w" and e: "step_result w q results t s = (Inl (ExecStopped x), s')"
  have c: "w_checkpoint w s1 \<noteq> (Some y, s2)" for s1 s2 y
    using n by (metis fst_conv never_stops_def option.distinct(1))
  have v: "w_validate w a b \<noteq> AdaptStopped y" for a b y using n by (simp add: never_stops_def)
  have qq: "w_query w req s1 \<noteq> (QueryStopped y, s2)" for req s1 s2 y
    using n by (metis fst_conv never_stops_def)
  show False using e
    by (auto simp: step_result_def execute_task_def run_query_def c v qq
        split: if_splits prod.splits option.splits adapt_outcome.splits query_outcome.splits)
qed

lemma round_never_stops: "never_stops w \<Longrightarrow> run_round w q ts results s \<noteq> (Inl (ExecStopped x), s')"
proof (induction ts arbitrary: results s s')
  case (Cons t ts)
  obtain s1 where c: "w_checkpoint w s = (None, s1)"
    using Cons.prems by (cases "w_checkpoint w s") (metis fst_conv never_stops_def)
  show ?case
  proof (cases "list_ex (\<lambda>d. map_of results d = None) (at_depends_on t)")
    case True
    with c Cons show ?thesis by (auto split: prod.splits sum.splits)
  next
    case False
    with c Cons step_never_stops [OF Cons.prems] show ?thesis by (auto split: prod.splits sum.splits)
  qed
qed simp

lemma pending_never_stops: "never_stops w \<Longrightarrow> run_pending w q pending results s \<noteq> (Inl (ExecStopped x), s')"
proof (induction w q pending results s rule: run_pending.induct)
  case (1 w q pending results s)
  show ?case
  proof (cases "pending = []")
    case False
    obtain r1 s1 where r: "run_round w q pending results s = (r1, s1)" by (cases "run_round w q pending results s")
    show ?thesis
    proof (cases r1)
      case (Inl e)
      with r False round_never_stops [OF 1(2), of q pending results s x] show ?thesis
        by (subst run_pending.simps) auto
    next
      case (Inr p)
      obtain nxt results1 where p: "p = (nxt, results1)" by (cases p)
      show ?thesis
      proof (cases "length nxt = length pending")
        case True
        with r Inr p False show ?thesis by (subst run_pending.simps) simp
      next
        case less: False
        from 1(1) [OF False r [symmetric, unfolded Inr p] refl refl less 1(2)]
        show ?thesis unfolding run_pending.simps [of w q pending results s] r Inr p
          using False less by simp
      qed
    qed
  qed (simp add: run_pending.simps)
qed

text \<open>C36: Running a validated plan never gets stuck: it either returns one result per task, in the order
  of the plan, or it was stopped from outside; and when nothing asks to stop, it returns the results.\<close>

theorem executor_finishes:
  assumes valid: "validate_analysis_plan u ts cat D M = Inr plan" and run: "execute_plan w q plan s = (r, s')"
  shows "(case r of Inl e \<Rightarrow> \<exists>x. e = ExecStopped x | Inr rs \<Rightarrow> map res_id rs = map at_id plan)
       \<and> (never_stops w \<longrightarrow> (\<exists>rs. r = Inr rs))"
proof
  note spec = execute_plan_spec [OF validated_plan_ranked [OF valid] run]
  show "case r of Inl e \<Rightarrow> \<exists>x. e = ExecStopped x | Inr rs \<Rightarrow> map res_id rs = map at_id plan"
  proof (cases r)
    case (Inr rs)
    with spec obtain results where r: "explained plan results"
      "list_all2 (\<lambda>t x. map_of results (at_id t) = Some x) plan rs" by auto
    have ids: "res_id x = at_id t" if "map_of results (at_id t) = Some x" for t x
      using r(1) that unfolding explained_def by blast
    have "list_all2 (\<lambda>t x. res_id x = at_id t) plan rs" by (rule list_all2_mono [OF r(2) ids])
    then have "map res_id rs = map at_id plan" by (induction rule: list_all2_induct) auto
    with Inr show ?thesis by simp
  qed (use spec in simp)
  show "never_stops w \<longrightarrow> (\<exists>rs. r = Inr rs)"
  proof
    assume n: "never_stops w"
    have c: "w_checkpoint w s1 \<noteq> (Some y, s2)" for s1 s2 y
      using n by (metis fst_conv never_stops_def option.distinct(1))
    have "r \<noteq> Inl (ExecStopped x)" for x
      using run pending_never_stops [OF n]
      by (auto simp: execute_plan_def c dest!: mapR_Inl_ex split: prod.splits option.splits sum.splits)
    with spec show "\<exists>rs. r = Inr rs" by (cases r) auto
  qed
qed

text \<open>A task of a validated plan is skipped exactly when one of its dependencies did not complete.\<close>

theorem skipped_iff_dependency_failed:
  assumes valid: "validate_analysis_plan u ts cat D M = Inr plan" and run: "execute_plan w q plan s = (Inr rs, s')"
    and i: "i < length plan"
  shows "res_status (rs ! i) = TaskSkipped \<longleftrightarrow>
     (\<exists>j < length plan. at_id (plan ! j) \<in> set (at_depends_on (plan ! i)) \<and> res_status (rs ! j) \<noteq> TaskCompleted)"
proof -
  note ranked = validated_plan_ranked [OF valid]
  from execute_plan_spec [OF ranked run] obtain results where r: "explained plan results"
    "list_all2 (\<lambda>t x. map_of results (at_id t) = Some x) plan rs" by auto
  have at: "map_of results (at_id (plan ! j)) = Some (rs ! j)" if "j < length plan" for j
    using r(2) that by (simp add: list_all2_conv_all_nth)
  from at [OF i] r(1) obtain t where t: "t \<in> set plan" "at_id t = at_id (plan ! i)"
    "res_status (rs ! i) = TaskSkipped \<longleftrightarrow>
       (\<exists>d \<in> set (at_depends_on t). \<exists>x. map_of results d = Some x \<and> res_status x \<noteq> TaskCompleted)"
    unfolding explained_def by blast
  have "t = plan ! i"
    using t(1,2) i ranked by (auto simp: plan_ranked_def distinct_map inj_on_def)
  moreover have "\<exists>j < length plan. at_id (plan ! j) = d" if "d \<in> set (at_depends_on (plan ! i))" for d
  proof -
    have "d \<in> at_id ` set plan" using that i ranked nth_mem by (fastforce simp: plan_ranked_def)
    then show ?thesis by (auto simp: in_set_conv_nth)
  qed
  ultimately show ?thesis using t(3) at by fastforce
qed

definition demo_world :: "(nat, unit, nat) world" where
  "demo_world = \<lparr>w_checkpoint = (\<lambda>s. (None, s)), w_validate = (\<lambda>c t. Validated ()),
     w_query = (\<lambda>req s. (if s = 0 then QueryFailure ''DATABASE_ERROR'' None else QuerySuccess [] [] 0 False, s + 1))\<rparr>"

lemma executor_finishes_witness:
  "\<exists>rs. fst (execute_plan demo_world None [demo_task [98] [[97]], demo_task [97] []] 0) = Inr rs
     \<and> map res_id rs = [[98], [97]]"
proof -
  obtain r s' where run: "execute_plan demo_world None [demo_task [98] [[97]], demo_task [97] []] 0 = (r, s')"
    by (cases "execute_plan demo_world None [demo_task [98] [[97]], demo_task [97] []] 0")
  have "never_stops demo_world" by (simp add: never_stops_def demo_world_def)
  moreover have "map at_id [demo_task [98] [[97]], demo_task [97] []] = [[98], [97]]"
    by (simp add: demo_task_def)
  ultimately show ?thesis using executor_finishes [OF demo_plan_valid run] by (auto simp only: run fst_conv sum.case)
qed

lemma demo_plan_run:
  "execute_plan demo_world None [demo_task [98] [[97]], demo_task [97] []] 0 =
     (Inr [bare_result [98] TaskSkipped (Some \<lparr>te_code = ''DEPENDENCY_FAILED'', te_internal = None\<rparr>),
           bare_result [97] TaskFailed (Some \<lparr>te_code = ''DATABASE_ERROR'', te_internal = None\<rparr>)], 1)"
  by (simp add: execute_plan_def run_pending.simps demo_world_def demo_task_def step_result_def execute_task_def
      run_query_def query_result_def task_request_id_def)

lemma skipped_iff_dependency_failed_witness:
  "\<exists>rs s'. execute_plan demo_world None [demo_task [98] [[97]], demo_task [97] []] 0 = (Inr rs, s')
     \<and> (\<exists>j < 2. res_status (rs ! j) \<noteq> TaskCompleted)"
proof -
  have "length [demo_task [98] [[97]], demo_task [97] []] = 2" by simp
  then show ?thesis
    using skipped_iff_dependency_failed [OF demo_plan_valid demo_plan_run, of 0] demo_plan_run
    by (metis bare_result_simps(2) nth_Cons_0 pos2)
qed

end
