(* ===== verification/Auth_Model.thy ===== *)
theory Auth_Model
  imports Table Json
begin

text \<open>
  Accounts and database sessions: \<open>authorization/auth_service.py\<close>, \<open>authorization/passwords.py\<close>,
  \<open>authorization/audit_service.py\<close>, \<open>chatbi_control/username.py\<close> and the rows of
  \<open>chatbi_control/models.py\<close> they use. A method is one transaction: it returns an error, and then
  \<open>session.begin()\<close> has rolled the database back, or a result with the new database. \<open>login\<close> is the
  exception, because it commits the failed attempt before it raises; it returns the error beside
  the new database. Time is in microseconds. SHA-256, Argon2, \<open>str.lower\<close> and \<open>str.casefold\<close>
  are fields of \<open>auth_env\<close>.
\<close>

section \<open>Parameters\<close>

text \<open>
  What \<open>PasswordHasher.verify\<close> does: it returns, raises one of the three errors the code catches,
  or raises something else. \<open>hash\<close> takes the random salt; \<open>None\<close> is an exception.
\<close>

datatype argon = ArgonReturns bool | ArgonRejects | ArgonRaises

record auth_env =
  e_sha :: "pystr \<Rightarrow> pystr"
  e_lower :: "pystr \<Rightarrow> pystr"
  e_casefold :: "pystr \<Rightarrow> pystr"
  e_verify :: "pystr \<Rightarrow> pystr \<Rightarrow> argon"
  e_hash :: "pystr \<Rightarrow> pystr \<Rightarrow> pystr option"

datatype auth_error =
    AuthenticationFailed | SessionExpired | AuditUnavailable | InvalidValue | EncodingError
  | TokenGenerationFailed | DatabaseError | UnexpectedError

section \<open>Constants\<close>

definition idle_ttl :: int where "idle_ttl = 30 * 60 * 1000000"
definition absolute_ttl :: int where "absolute_ttl = 8 * 60 * 60 * 1000000"
definition max_failed_login_attempts :: int where "max_failed_login_attempts = 5"
definition failed_login_lock_duration :: int where "failed_login_lock_duration = 15 * 60 * 1000000"
definition min_password_length :: nat where "min_password_length = 12"

section \<open>Rows\<close>

record user_row =
  au_username :: pystr
  au_hash :: pystr
  au_active :: bool
  au_must_change :: bool
  au_failed :: int
  au_locked_until :: "int option"
  au_updated :: int
  au_roles :: "pystr list"

record session_row =
  ss_user :: int
  ss_created :: int
  ss_last_seen :: int
  ss_expires :: int
  ss_absolute :: int
  ss_revoked :: "int option"

record audit_record =
  ar_event :: pystr
  ar_target_type :: pystr
  ar_target :: "pystr option"
  ar_outcome :: pystr
  ar_request :: "pystr option"
  ar_reason :: "pystr option"
  ar_actor :: "int option"
  ar_details :: json

text \<open>A role is found by its unique name; the row holds the names of its permissions.\<close>

record auth_db =
  ad_users :: "(int, user_row) table"
  ad_roles :: "(pystr, pystr list) table"
  ad_sessions :: "(pystr, session_row) table"
  ad_audit :: "audit_record list"

record auth_context =
  ac_subject :: pystr
  ac_provider :: pystr
  ac_user :: "int option"
  ac_username :: "pystr option"
  ac_permissions :: "pystr list"
  ac_must_change :: bool

section \<open>Identity\<close>

definition make_context ::
  "pystr \<Rightarrow> pystr \<Rightarrow> int option \<Rightarrow> pystr option \<Rightarrow> pystr list \<Rightarrow> bool \<Rightarrow> auth_error + auth_context" where
  "make_context subject provider user username permissions must_change =
     (if strip subject = [] \<or> strip provider = [] then Inl InvalidValue
      else if (case user of None \<Rightarrow> False | Some i \<Rightarrow> i \<le> 0) then Inl InvalidValue
      else if (case username of None \<Rightarrow> False | Some n \<Rightarrow> strip n = []) then Inl InvalidValue
      else if list_ex (\<lambda>p. strip p = []) permissions then Inl InvalidValue
      else Inr \<lparr>ac_subject = strip subject, ac_provider = strip provider, ac_user = user,
                ac_username = map_option strip username, ac_permissions = permissions,
                ac_must_change = must_change\<rparr>)"

definition permissions_of :: "auth_db \<Rightarrow> user_row \<Rightarrow> pystr list" where
  "permissions_of db u =
     concat (map (\<lambda>r. case map_of (ad_roles db) r of None \<Rightarrow> [] | Some ps \<Rightarrow> ps) (au_roles u))"

definition context_for_user :: "auth_db \<Rightarrow> int \<Rightarrow> user_row \<Rightarrow> auth_error + auth_context" where
  "context_for_user db i u =
     make_context (au_username u) (lit ''local'') (Some i) (Some (au_username u))
       (permissions_of db u) (au_must_change u)"

definition can_execute_query :: "auth_context \<Rightarrow> bool" where
  "can_execute_query c \<longleftrightarrow> \<not> ac_must_change c \<and> lit ''query.execute'' \<in> set (ac_permissions c)"

section \<open>User names, passwords and tokens\<close>

definition normalize_username :: "auth_env \<Rightarrow> pystr \<Rightarrow> pystr option" where
  "normalize_username env username =
     (let n = e_lower env (strip username)
      in if n = [] \<or> 128 < length n \<or> list_ex py_isspace n then None else Some n)"

definition validate_password :: "pystr \<Rightarrow> bool" where
  "validate_password p \<longleftrightarrow> min_password_length \<le> length p"

definition hash_password :: "auth_env \<Rightarrow> pystr \<Rightarrow> pystr \<Rightarrow> auth_error + pystr" where
  "hash_password env salt p =
     (if \<not> validate_password p then Inl InvalidValue
      else case e_hash env salt p of None \<Rightarrow> Inl UnexpectedError | Some h \<Rightarrow> Inr h)"

definition verify_password :: "auth_env \<Rightarrow> pystr \<Rightarrow> pystr \<Rightarrow> auth_error + bool" where
  "verify_password env p h =
     (case e_verify env h p of
        ArgonReturns b \<Rightarrow> Inr b
      | ArgonRejects \<Rightarrow> Inr False
      | ArgonRaises \<Rightarrow> Inl UnexpectedError)"

definition hash_token :: "auth_env \<Rightarrow> pystr \<Rightarrow> auth_error + pystr" where
  "hash_token env t = (if encodable t then Inr (e_sha env t) else Inl EncodingError)"

definition hash_token_or_raise :: "auth_env \<Rightarrow> pystr \<Rightarrow> auth_error + pystr" where
  "hash_token_or_raise env t = (if t = [] then Inl SessionExpired else hash_token env t)"

definition new_token :: "pystr option \<Rightarrow> auth_error + pystr" where
  "new_token t =
     (case t of None \<Rightarrow> Inl TokenGenerationFailed
      | Some s \<Rightarrow> if s = [] then Inl TokenGenerationFailed else Inr s)"

section \<open>Audit\<close>

definition sensitive_markers :: "pystr list" where
  "sensitive_markers =
     map lit [''password'', ''secret'', ''token'', ''hash'', ''sql'', ''result'', ''question'']"

fun is_infix :: "pystr \<Rightarrow> pystr \<Rightarrow> bool" where
  "is_infix m [] \<longleftrightarrow> m = []"
| "is_infix m (c # s) \<longleftrightarrow> take (length m) (c # s) = m \<or> is_infix m s"

definition sensitive_key :: "auth_env \<Rightarrow> pystr \<Rightarrow> bool" where
  "sensitive_key env k \<longleftrightarrow> list_ex (\<lambda>m. is_infix m (e_casefold env k)) sensitive_markers"

definition finite_float :: "pystr \<Rightarrow> bool" where
  "finite_float t \<longleftrightarrow> t \<notin> {lit ''NaN'', lit ''Infinity'', lit ''-Infinity''}"

text \<open>
  The loop over the \<open>pending\<close> stack. An entry marked \<open>True\<close> is the exit of a container; it only
  shrinks the set of containers being visited, which a tree value never meets again, so the
  check \<open>identity in active\<close> does not fire on one.
\<close>

function (sequential) sensitive_loop :: "auth_env \<Rightarrow> (json \<times> bool) list \<Rightarrow> bool" where
  "sensitive_loop env [] = False"
| "sensitive_loop env ((v, True) # pending) = sensitive_loop env pending"
| "sensitive_loop env ((JObj kvs, False) # pending) =
     (if list_ex (\<lambda>(k, x). sensitive_key env k) kvs then True
      else sensitive_loop env (rev (map (\<lambda>(k, x). (x, False)) kvs) @ (JObj kvs, True) # pending))"
| "sensitive_loop env ((JArr xs, False) # pending) =
     sensitive_loop env (rev (map (\<lambda>x. (x, False)) xs) @ (JArr xs, True) # pending)"
| "sensitive_loop env ((JFloat t, False) # pending) =
     (if finite_float t then sensitive_loop env pending else True)"
| "sensitive_loop env ((v, False) # pending) = sensitive_loop env pending"
  by pat_completeness auto

fun json_weight :: "json \<Rightarrow> nat" where
  "json_weight (JObj kvs) = 2 + sum_list (map (\<lambda>(k, x). json_weight x) kvs)"
| "json_weight (JArr xs) = 2 + sum_list (map json_weight xs)"
| "json_weight _ = 1"

definition pending_weight :: "(json \<times> bool) list \<Rightarrow> nat" where
  "pending_weight ps = sum_list (map (\<lambda>(v, exiting). if exiting then 1 else json_weight v) ps)"

lemma pending_weight_simps [simp]:
  "pending_weight [] = 0"
  "pending_weight ((v, b) # ps) = (if b then 1 else json_weight v) + pending_weight ps"
  "pending_weight (ps @ qs) = pending_weight ps + pending_weight qs"
  "pending_weight (rev ps) = pending_weight ps"
  "pending_weight (map (\<lambda>x. (x, False)) xs) = sum_list (map json_weight xs)"
  by (simp_all add: pending_weight_def rev_map [symmetric] sum_list_rev o_def)

lemma pending_weight_items [simp]:
  "pending_weight (map (\<lambda>(k, x). (x, False)) kvs) = sum_list (map (\<lambda>(k, x). json_weight x) kvs)"
  by (induction kvs) auto

termination sensitive_loop
  by (relation "measure (\<lambda>(env, ps). pending_weight ps)") auto

definition contains_sensitive_details :: "auth_env \<Rightarrow> json \<Rightarrow> bool" where
  "contains_sensitive_details env d =
     (case d of JObj kvs \<Rightarrow> sensitive_loop env [(d, False)] | _ \<Rightarrow> True)"

definition make_audit_record :: "auth_env \<Rightarrow> audit_record \<Rightarrow> auth_error + audit_record" where
  "make_audit_record env r =
     (if strip (ar_event r) = [] \<or> strip (ar_target_type r) = [] \<or> strip (ar_outcome r) = []
      then Inl InvalidValue
      else if (case ar_actor r of None \<Rightarrow> False | Some i \<Rightarrow> i \<le> 0) then Inl InvalidValue
      else if contains_sensitive_details env (ar_details r) then Inl InvalidValue
      else Inr r)"

text \<open>
  The columns of \<open>audit_events\<close>: \<open>actor_user_id\<close> is a foreign key and the text columns have a
  length. The flush at the end of the transaction checks them.
\<close>

definition audit_row_fits :: "auth_db \<Rightarrow> audit_record \<Rightarrow> bool" where
  "audit_row_fits db r \<longleftrightarrow>
     (case ar_actor r of None \<Rightarrow> True | Some i \<Rightarrow> map_of (ad_users db) i \<noteq> None)
     \<and> length (ar_event r) \<le> 128 \<and> length (ar_target_type r) \<le> 128 \<and> length (ar_outcome r) \<le> 32
     \<and> (case ar_target r of None \<Rightarrow> True | Some t \<Rightarrow> length t \<le> 128)
     \<and> (case ar_request r of None \<Rightarrow> True | Some t \<Rightarrow> length t \<le> 128)
     \<and> (case ar_reason r of None \<Rightarrow> True | Some t \<Rightarrow> length t \<le> 255)"

definition persistent_write :: "auth_env \<Rightarrow> audit_record \<Rightarrow> auth_db \<Rightarrow> auth_error + auth_db" where
  "persistent_write env r db =
     (if contains_sensitive_details env (ar_details r) then Inl AuditUnavailable
      else if \<not> audit_row_fits db r then Inl DatabaseError
      else Inr (db\<lparr>ad_audit := ad_audit db @ [r]\<rparr>))"

text \<open>The configured sink: none, one without a callable \<open>write\<close>, one whose \<open>write\<close> raises, the real one.\<close>

datatype sink = NoSink | NoWriter | FailingWriter | PersistentSink

definition write_security_audit ::
  "auth_env \<Rightarrow> sink \<Rightarrow> audit_record \<Rightarrow> auth_db \<Rightarrow> auth_error + auth_db" where
  "write_security_audit env s r db =
     (case s of
        NoSink \<Rightarrow> Inr db
      | NoWriter \<Rightarrow> Inl AuditUnavailable
      | FailingWriter \<Rightarrow> Inl AuditUnavailable
      | PersistentSink \<Rightarrow> persistent_write env r db)"

definition audit :: "auth_env \<Rightarrow> sink \<Rightarrow> audit_record \<Rightarrow> auth_db \<Rightarrow> auth_error + auth_db" where
  "audit env s r db = bindR (make_audit_record env r) (\<lambda>r. write_security_audit env s r db)"

definition success_record ::
  "string \<Rightarrow> string \<Rightarrow> pystr \<Rightarrow> pystr option \<Rightarrow> string \<Rightarrow> int option \<Rightarrow> audit_record" where
  "success_record event target_type target request reason actor =
     \<lparr>ar_event = lit event, ar_target_type = lit target_type, ar_target = Some target,
      ar_outcome = lit ''success'', ar_request = request, ar_reason = Some (lit reason),
      ar_actor = actor, ar_details = JObj []\<rparr>"

end
