(* ===== verification/Auth_Service.thy ===== *)
theory Auth_Service
  imports Auth_Model
begin

text \<open>
  The operations of \<open>AuthService\<close> and of \<open>LocalSessionIdentityProvider\<close>
  (\<open>authorization/auth_service.py\<close>), one definition per method. \<open>now\<close> is the clock, \<open>salt\<close> the
  randomness of Argon2 and \<open>fresh\<close> what the token factory returns.
\<close>

section \<open>Reading\<close>

definition user_named :: "auth_db \<Rightarrow> pystr \<Rightarrow> (int \<times> user_row) option" where
  "user_named db name = sel_first (\<lambda>_ u. au_username u = name) (ad_users db)"

definition session_expired :: "session_row \<Rightarrow> int \<Rightarrow> bool" where
  "session_expired s now \<longleftrightarrow> now \<ge> ss_expires s \<or> now \<ge> ss_absolute s"

text \<open>
  The row behind a token, its user, and every reason to refuse it. The code also sets
  \<open>revoked_at\<close> on an expired row before it raises; the exception leaves \<open>session.begin()\<close>, whose
  rollback takes that back.
\<close>

definition valid_record :: "auth_db \<Rightarrow> pystr \<Rightarrow> int \<Rightarrow> auth_error + (session_row \<times> user_row)" where
  "valid_record db th now =
     (case map_of (ad_sessions db) th of
        None \<Rightarrow> Inl SessionExpired
      | Some s \<Rightarrow>
          if ss_revoked s \<noteq> None then Inl SessionExpired
          else (case map_of (ad_users db) (ss_user s) of
             None \<Rightarrow> Inl UnexpectedError
           | Some u \<Rightarrow>
               if \<not> au_active u then Inl SessionExpired
               else if session_expired s now then Inl SessionExpired
               else Inr (s, u)))"

section \<open>Writing\<close>

definition set_user :: "int \<Rightarrow> (user_row \<Rightarrow> user_row) \<Rightarrow> auth_db \<Rightarrow> auth_db" where
  "set_user i f db = db\<lparr>ad_users := upd_where (\<lambda>k _. k = i) f (ad_users db)\<rparr>"

definition set_session :: "pystr \<Rightarrow> (session_row \<Rightarrow> session_row) \<Rightarrow> auth_db \<Rightarrow> auth_db" where
  "set_session th f db = db\<lparr>ad_sessions := upd_where (\<lambda>k _. k = th) f (ad_sessions db)\<rparr>"

definition revoke_user_sessions :: "int \<Rightarrow> int \<Rightarrow> auth_db \<Rightarrow> auth_db" where
  "revoke_user_sessions i now db =
     db\<lparr>ad_sessions := upd_where (\<lambda>_ s. ss_user s = i \<and> ss_revoked s = None)
          (\<lambda>s. s\<lparr>ss_revoked := Some now\<rparr>) (ad_sessions db)\<rparr>"

definition new_password :: "pystr \<Rightarrow> bool \<Rightarrow> int \<Rightarrow> user_row \<Rightarrow> user_row" where
  "new_password h must_change now u =
     u\<lparr>au_hash := h, au_must_change := must_change, au_failed := 0, au_locked_until := None,
       au_updated := now\<rparr>"

section \<open>Login\<close>

record login_result =
  lr_token :: pystr
  lr_context :: auth_context

definition locked_at :: "user_row \<Rightarrow> int \<Rightarrow> bool" where
  "locked_at u now \<longleftrightarrow> (case au_locked_until u of None \<Rightarrow> False | Some t \<Rightarrow> t > now)"

definition record_failed_login :: "int \<Rightarrow> user_row \<Rightarrow> user_row" where
  "record_failed_login now u =
     (let n = au_failed u + 1
      in u\<lparr>au_failed := n,
           au_locked_until := (if n \<ge> max_failed_login_attempts
                               then Some (now + failed_login_lock_duration) else au_locked_until u)\<rparr>)"

definition new_session :: "int \<Rightarrow> int \<Rightarrow> session_row" where
  "new_session i now =
     \<lparr>ss_user = i, ss_created = now, ss_last_seen = now, ss_expires = now + idle_ttl,
      ss_absolute = now + absolute_ttl, ss_revoked = None\<rparr>"

definition open_session ::
  "auth_env \<Rightarrow> int \<Rightarrow> pystr option \<Rightarrow> int \<Rightarrow> user_row \<Rightarrow> auth_db \<Rightarrow> auth_error + (login_result \<times> auth_db)" where
  "open_session env now fresh i u db =
     bindR (new_token fresh) (\<lambda>raw.
     bindR (hash_token env raw) (\<lambda>th.
     bindR (context_for_user db i u) (\<lambda>c.
       case insert_row (\<lambda>_ _. False) th (new_session i now) (ad_sessions db) of
         None \<Rightarrow> Inl DatabaseError
       | Some ss \<Rightarrow>
           Inr (\<lparr>lr_token = raw, lr_context = c\<rparr>,
                set_user i (\<lambda>u. u\<lparr>au_failed := 0, au_locked_until := None\<rparr>)
                  (db\<lparr>ad_sessions := ss\<rparr>)))))"

definition login_record :: "pystr \<Rightarrow> string \<Rightarrow> pystr option \<Rightarrow> string \<Rightarrow> int option \<Rightarrow> audit_record" where
  "login_record name outcome request reason actor =
     \<lparr>ar_event = lit ''auth.login'', ar_target_type = lit ''user'', ar_target = Some name,
      ar_outcome = lit outcome, ar_request = request, ar_reason = Some (lit reason),
      ar_actor = actor, ar_details = JObj []\<rparr>"

text \<open>
  A refused attempt is written (the counter and the audit row) and the error raised after the
  commit; every other error leaves the transaction, so nothing of it stays.
\<close>

definition refuse_login ::
  "auth_env \<Rightarrow> sink \<Rightarrow> pystr \<Rightarrow> pystr option \<Rightarrow> string \<Rightarrow> int option \<Rightarrow> auth_db \<Rightarrow> auth_db
   \<Rightarrow> (auth_error + login_result) \<times> auth_db" where
  "refuse_login env sk name request reason actor db' db =
     (case audit env sk (login_record name ''failure'' request reason actor) db' of
        Inl e \<Rightarrow> (Inl e, db)
      | Inr db'' \<Rightarrow> (Inl AuthenticationFailed, db''))"

definition accept_login ::
  "auth_env \<Rightarrow> sink \<Rightarrow> int \<Rightarrow> pystr option \<Rightarrow> pystr \<Rightarrow> pystr option \<Rightarrow> int \<Rightarrow> user_row \<Rightarrow> auth_db
   \<Rightarrow> (auth_error + login_result) \<times> auth_db" where
  "accept_login env sk now fresh name request i u db =
     (case bindR (open_session env now fresh i u db) (\<lambda>(res, db').
             bindR (audit env sk (login_record name ''success'' request ''AUTHENTICATED'' (Some i)) db')
               (\<lambda>db''. Inr (res, db''))) of
        Inl e \<Rightarrow> (Inl e, db)
      | Inr (res, db'') \<Rightarrow> (Inr res, db''))"

definition login ::
  "auth_env \<Rightarrow> sink \<Rightarrow> int \<Rightarrow> pystr option \<Rightarrow> pystr \<Rightarrow> pystr \<Rightarrow> pystr option \<Rightarrow> auth_db
   \<Rightarrow> (auth_error + login_result) \<times> auth_db" where
  "login env sk now fresh username password request db =
     (case normalize_username env username of
        None \<Rightarrow> (Inl AuthenticationFailed, db)
      | Some name \<Rightarrow>
         (case user_named db name of
            None \<Rightarrow> refuse_login env sk name request ''INVALID_CREDENTIALS'' None db db
          | Some (i, u) \<Rightarrow>
             if \<not> au_active u then refuse_login env sk name request ''USER_DISABLED'' (Some i) db db
             else if locked_at u now then refuse_login env sk name request ''LOGIN_LOCKED'' (Some i) db db
             else (case verify_password env password (au_hash u) of
                 Inl e \<Rightarrow> (Inl e, db)
               | Inr False \<Rightarrow> refuse_login env sk name request ''INVALID_CREDENTIALS'' (Some i)
                   (set_user i (record_failed_login now) db) db
               | Inr True \<Rightarrow> accept_login env sk now fresh name request i u db)))"

section \<open>Sessions\<close>

definition authenticate_session ::
  "auth_env \<Rightarrow> int \<Rightarrow> pystr \<Rightarrow> auth_db \<Rightarrow> auth_error + (auth_context \<times> auth_db)" where
  "authenticate_session env now token db =
     bindR (hash_token_or_raise env token) (\<lambda>th.
     bindR (valid_record db th now) (\<lambda>(s, u).
     bindR (context_for_user db (ss_user s) u) (\<lambda>c.
       Inr (c, set_session th (\<lambda>s. s\<lparr>ss_last_seen := now,
                                      ss_expires := min (now + idle_ttl) (ss_absolute s)\<rparr>) db))))"

definition authenticate_session_readonly ::
  "auth_env \<Rightarrow> int \<Rightarrow> pystr \<Rightarrow> auth_db \<Rightarrow> auth_error + auth_context" where
  "authenticate_session_readonly env now token db =
     bindR (hash_token_or_raise env token) (\<lambda>th.
     bindR (valid_record db th now) (\<lambda>(s, u). context_for_user db (ss_user s) u))"

definition logout ::
  "auth_env \<Rightarrow> sink \<Rightarrow> int \<Rightarrow> pystr \<Rightarrow> pystr option \<Rightarrow> auth_db \<Rightarrow> auth_error + (bool \<times> auth_db)" where
  "logout env sk now token request db =
     bindR (hash_token_or_raise env token) (\<lambda>th.
       case map_of (ad_sessions db) th of
         None \<Rightarrow> Inr (False, db)
       | Some s \<Rightarrow>
           if ss_revoked s \<noteq> None then Inr (False, db)
           else bindR (audit env sk
                  (success_record ''auth.logout'' ''session'' (int_text (ss_user s)) request
                     ''LOGOUT'' (Some (ss_user s)))
                  (set_session th (\<lambda>s. s\<lparr>ss_revoked := Some now\<rparr>) db))
                (\<lambda>db'. Inr (True, db')))"

section \<open>Passwords\<close>

text \<open>
  \<open>change_password\<close> reads the session twice: once to learn whose row to lock, and again when it
  holds the lock. Another transaction may commit in between, so the first read is of \<open>seen\<close> and
  everything after the lock of \<open>db\<close>.
\<close>

definition change_password ::
  "auth_env \<Rightarrow> sink \<Rightarrow> int \<Rightarrow> pystr \<Rightarrow> pystr \<Rightarrow> pystr \<Rightarrow> pystr \<Rightarrow> pystr option \<Rightarrow> auth_db \<Rightarrow> auth_db
   \<Rightarrow> auth_error + auth_db" where
  "change_password env sk now salt token current new request seen db =
     bindR (hash_token_or_raise env token) (\<lambda>th.
     bindR (hash_password env salt new) (\<lambda>h.
     bindR (valid_record seen th now) (\<lambda>(s0, _).
       if map_of (ad_users db) (ss_user s0) = None then Inl SessionExpired
       else bindR (valid_record db th now) (\<lambda>(s, u).
            bindR (verify_password env current (au_hash u)) (\<lambda>ok.
              if \<not> ok then Inl AuthenticationFailed
              else audit env sk
                     (success_record ''auth.password_change'' ''user'' (int_text (ss_user s)) request
                        ''PASSWORD_CHANGED'' (Some (ss_user s)))
                     (revoke_user_sessions (ss_user s) now
                        (set_user (ss_user s) (new_password h False now) db)))))))"

definition reset_password ::
  "auth_env \<Rightarrow> sink \<Rightarrow> int \<Rightarrow> pystr \<Rightarrow> int \<Rightarrow> pystr \<Rightarrow> int option \<Rightarrow> pystr option \<Rightarrow> auth_db
   \<Rightarrow> auth_error + auth_db" where
  "reset_password env sk now salt i new actor request db =
     bindR (hash_password env salt new) (\<lambda>h.
       if map_of (ad_users db) i = None then Inl AuthenticationFailed
       else audit env sk
              (success_record ''auth.password_reset'' ''user'' (int_text i) request ''PASSWORD_RESET'' actor)
              (revoke_user_sessions i now (set_user i (new_password h True now) db)))"

definition recovery_record :: "int \<Rightarrow> pystr \<Rightarrow> pystr \<Rightarrow> audit_record" where
  "recovery_record i environment project =
     (success_record ''auth.admin_recovery'' ''user'' (int_text i) None ''LOCAL_ADMIN_RECOVERY'' None)
       \<lparr>ar_details := JObj [(lit ''environment'', JStr environment), (lit ''project'', JStr project),
                            (lit ''source'', JStr (lit ''local_cli''))]\<rparr>"

definition is_administrator :: "auth_db \<Rightarrow> user_row \<Rightarrow> bool" where
  "is_administrator db u \<longleftrightarrow>
     lit ''admin'' \<in> set (au_roles u) \<and> map_of (ad_roles db) (lit ''admin'') \<noteq> None"

definition recover_admin ::
  "auth_env \<Rightarrow> sink \<Rightarrow> int \<Rightarrow> pystr \<Rightarrow> pystr \<Rightarrow> pystr \<Rightarrow> pystr \<Rightarrow> pystr \<Rightarrow> auth_db \<Rightarrow> auth_error + auth_db" where
  "recover_admin env sk now salt username new environment project db =
     (if environment \<noteq> lit ''dev'' \<or> project = [] \<or> 128 < length project then Inl InvalidValue
      else case normalize_username env username of
        None \<Rightarrow> Inl InvalidValue
      | Some name \<Rightarrow>
          bindR (hash_password env salt new) (\<lambda>h.
            if sk \<in> {NoSink, NoWriter} then Inl AuditUnavailable
            else case user_named db name of
              None \<Rightarrow> Inl AuthenticationFailed
            | Some (i, u) \<Rightarrow>
                if \<not> au_active u \<or> \<not> is_administrator db u then Inl AuthenticationFailed
                else audit env sk (recovery_record i environment project)
                       (revoke_user_sessions i now (set_user i (new_password h True now) db))))"

section \<open>Enabling and disabling\<close>

definition disable_user ::
  "auth_env \<Rightarrow> sink \<Rightarrow> int \<Rightarrow> int \<Rightarrow> int option \<Rightarrow> pystr option \<Rightarrow> auth_db \<Rightarrow> auth_error + auth_db" where
  "disable_user env sk now i actor request db =
     (if map_of (ad_users db) i = None then Inl AuthenticationFailed
      else audit env sk
             (success_record ''user.disable'' ''user'' (int_text i) request ''USER_DISABLED'' actor)
             (revoke_user_sessions i now
                (set_user i (\<lambda>u. u\<lparr>au_active := False, au_updated := now\<rparr>) db)))"

definition enable_user ::
  "auth_env \<Rightarrow> sink \<Rightarrow> int \<Rightarrow> int \<Rightarrow> int option \<Rightarrow> pystr option \<Rightarrow> auth_db \<Rightarrow> auth_error + auth_db" where
  "enable_user env sk now i actor request db =
     (if map_of (ad_users db) i = None then Inl AuthenticationFailed
      else audit env sk
             (success_record ''user.enable'' ''user'' (int_text i) request ''USER_ENABLED'' actor)
             (set_user i (\<lambda>u. u\<lparr>au_active := True, au_updated := now\<rparr>) db))"

section \<open>The identity provider\<close>

datatype identity_error = AuthenticationRequired | IdentityProviderUnavailable

definition partition_space :: "pystr \<Rightarrow> pystr \<times> bool \<times> pystr" where
  "partition_space s =
     (let scheme = takeWhile (\<lambda>c. c \<noteq> 32) s; rest = dropWhile (\<lambda>c. c \<noteq> 32) s
      in (scheme, rest \<noteq> [], tl rest))"

definition bearer_token :: "auth_env \<Rightarrow> pystr option \<Rightarrow> pystr option" where
  "bearer_token env header =
     (let (scheme, separator, token) = partition_space (case header of None \<Rightarrow> [] | Some h \<Rightarrow> h)
      in if e_lower env scheme \<noteq> lit ''bearer'' \<or> \<not> separator \<or> strip token = []
         then None else Some (strip token))"

definition identity_error_of :: "auth_error \<Rightarrow> identity_error" where
  "identity_error_of e =
     (case e of SessionExpired \<Rightarrow> AuthenticationRequired | _ \<Rightarrow> IdentityProviderUnavailable)"

definition authenticate ::
  "auth_env \<Rightarrow> int \<Rightarrow> pystr option \<Rightarrow> auth_db \<Rightarrow> identity_error + (auth_context \<times> auth_db)" where
  "authenticate env now header db =
     (case bearer_token env header of
        None \<Rightarrow> Inl AuthenticationRequired
      | Some token \<Rightarrow>
         (case authenticate_session env now token db of
            Inl e \<Rightarrow> Inl (identity_error_of e) | Inr x \<Rightarrow> Inr x))"

definition authenticate_readonly ::
  "auth_env \<Rightarrow> int \<Rightarrow> pystr option \<Rightarrow> auth_db \<Rightarrow> identity_error + auth_context" where
  "authenticate_readonly env now header db =
     (case bearer_token env header of
        None \<Rightarrow> Inl AuthenticationRequired
      | Some token \<Rightarrow>
         (case authenticate_session_readonly env now token db of
            Inl e \<Rightarrow> Inl (identity_error_of e) | Inr x \<Rightarrow> Inr x))"

end
