(* ===== verification/Auth_Steps.thy ===== *)
theory Auth_Steps
  imports Auth_Service
begin

text \<open>
  The account service as a transition system: one committed transaction is one step. Every
  operation changes the database in one of six ways (\<open>effect\<close>), which is all the invariants need;
  \<open>step_effect\<close> reads the way off the operations, once.
\<close>

inductive auth_step :: "auth_env \<Rightarrow> sink \<Rightarrow> int \<Rightarrow> auth_db \<Rightarrow> auth_db \<Rightarrow> bool" for env sk now where
  login: "login env sk now fresh username password request db = (res, db') \<Longrightarrow> auth_step env sk now db db'"
| authenticate: "authenticate_session env now token db = Inr (c, db') \<Longrightarrow> auth_step env sk now db db'"
| logout: "logout env sk now token request db = Inr (b, db') \<Longrightarrow> auth_step env sk now db db'"
| change_password: "change_password env sk now salt token current new request seen db = Inr db'
    \<Longrightarrow> auth_step env sk now db db'"
| reset_password: "reset_password env sk now salt i new actor request db = Inr db'
    \<Longrightarrow> auth_step env sk now db db'"
| recover_admin: "recover_admin env sk now salt username new environment project db = Inr db'
    \<Longrightarrow> auth_step env sk now db db'"
| disable_user: "disable_user env sk now i actor request db = Inr db' \<Longrightarrow> auth_step env sk now db db'"
| enable_user: "enable_user env sk now i actor request db = Inr db' \<Longrightarrow> auth_step env sk now db db'"

inductive auth_run :: "auth_env \<Rightarrow> sink \<Rightarrow> auth_db \<Rightarrow> auth_db \<Rightarrow> bool" for env sk where
  stay: "auth_run env sk db db"
| step: "auth_run env sk db db' \<Longrightarrow> auth_step env sk now db' db'' \<Longrightarrow> auth_run env sk db db''"

section \<open>What a transaction changes\<close>

datatype effect =
    Unchanged
  | UserOnly int "user_row \<Rightarrow> user_row"
  | Opened int pystr
  | Touched pystr
  | LoggedOut pystr
  | Revoked int "user_row \<Rightarrow> user_row"

fun apply_effect :: "int \<Rightarrow> effect \<Rightarrow> auth_db \<Rightarrow> auth_db" where
  "apply_effect now Unchanged db = db"
| "apply_effect now (UserOnly i f) db = set_user i f db"
| "apply_effect now (Opened i th) db =
     set_user i (\<lambda>u. u\<lparr>au_failed := 0, au_locked_until := None\<rparr>)
       (db\<lparr>ad_sessions := ad_sessions db @ [(th, new_session i now)]\<rparr>)"
| "apply_effect now (Touched th) db =
     set_session th (\<lambda>s. s\<lparr>ss_last_seen := now,
                            ss_expires := min (now + idle_ttl) (ss_absolute s)\<rparr>) db"
| "apply_effect now (LoggedOut th) db = set_session th (\<lambda>s. s\<lparr>ss_revoked := Some now\<rparr>) db"
| "apply_effect now (Revoked i f) db = revoke_user_sessions i now (set_user i f db)"

fun user_update :: "effect \<Rightarrow> int \<Rightarrow> user_row \<Rightarrow> user_row" where
  "user_update (UserOnly i f) = (\<lambda>k. if k = i then f else id)"
| "user_update (Opened i th) = (\<lambda>k. if k = i then (\<lambda>u. u\<lparr>au_failed := 0, au_locked_until := None\<rparr>) else id)"
| "user_update (Revoked i f) = (\<lambda>k. if k = i then f else id)"
| "user_update _ = (\<lambda>k. id)"

text \<open>The changes a step may make to a user: never the name or the roles.\<close>

definition user_change :: "int \<Rightarrow> (user_row \<Rightarrow> user_row) \<Rightarrow> bool" where
  "user_change now f \<longleftrightarrow>
     f = record_failed_login now \<or> (\<exists>h m. f = new_password h m now)
     \<or> (\<exists>b. f = (\<lambda>u. u\<lparr>au_active := b, au_updated := now\<rparr>))"

fun effect_ok :: "int \<Rightarrow> auth_db \<Rightarrow> effect \<Rightarrow> bool" where
  "effect_ok now db Unchanged \<longleftrightarrow> True"
| "effect_ok now db (UserOnly i f) \<longleftrightarrow> user_change now f"
| "effect_ok now db (Opened i th) \<longleftrightarrow>
     map_of (ad_sessions db) th = None \<and> (\<exists>u. map_of (ad_users db) i = Some u)"
| "effect_ok now db (Touched th) \<longleftrightarrow> (\<exists>s u. valid_record db th now = Inr (s, u))"
| "effect_ok now db (LoggedOut th) \<longleftrightarrow> (\<exists>s. map_of (ad_sessions db) th = Some s \<and> ss_revoked s = None)"
| "effect_ok now db (Revoked i f) \<longleftrightarrow> user_change now f"

text \<open>A calm effect deactivates nobody.\<close>

definition calm :: "effect \<Rightarrow> bool" where
  "calm e \<longleftrightarrow> (\<forall>k u. au_active u \<longrightarrow> au_active (user_update e k u))"

section \<open>The effect of every operation\<close>

lemma user_change_intros [intro, simp]:
  "user_change now (record_failed_login now)"
  "user_change now (new_password h m now)"
  "user_change now (\<lambda>u. u\<lparr>au_active := b, au_updated := now\<rparr>)"
  by (auto simp: user_change_def)

lemma set_fields [simp]:
  "ad_users (set_session th g db) = ad_users db"
  "ad_roles (set_session th g db) = ad_roles db"
  "ad_audit (set_session th g db) = ad_audit db"
  "ad_sessions (set_user i f db) = ad_sessions db"
  "ad_roles (set_user i f db) = ad_roles db"
  "ad_audit (set_user i f db) = ad_audit db"
  "ad_users (revoke_user_sessions i now db) = ad_users db"
  "ad_roles (revoke_user_sessions i now db) = ad_roles db"
  "ad_audit (revoke_user_sessions i now db) = ad_audit db"
  by (simp_all add: set_session_def set_user_def revoke_user_sessions_def)

text \<open>A write to the audit adds rows and touches nothing else; with a sink it adds exactly one.\<close>

definition audited :: "sink \<Rightarrow> auth_db \<Rightarrow> auth_db \<Rightarrow> bool" where
  "audited sk db db' \<longleftrightarrow>
     (if sk = NoSink then db' = db else \<exists>r. db' = db\<lparr>ad_audit := ad_audit db @ [r]\<rparr>)"

lemma audit_audited: "audit env sk r db = Inr db' \<Longrightarrow> audited sk db db'"
  by (auto simp: audit_def make_audit_record_def write_security_audit_def persistent_write_def
      audited_def bindR_Inr_iff split: if_splits sink.splits)

text \<open>A step of the system is an effect followed by the audit of it, or changes nothing.\<close>

definition effect_step :: "sink \<Rightarrow> int \<Rightarrow> auth_db \<Rightarrow> auth_db \<Rightarrow> effect \<Rightarrow> bool" where
  "effect_step sk now db db' e \<longleftrightarrow>
     effect_ok now db e
     \<and> (audited sk (apply_effect now e db) db'
        \<or> db' = apply_effect now e db \<and> (e = Unchanged \<or> (\<exists>th. e = Touched th)))"

lemma effect_stepI:
  "effect_ok now db e \<Longrightarrow> audit env sk r (apply_effect now e db) = Inr db' \<Longrightarrow> effect_step sk now db db' e"
  by (auto simp: effect_step_def intro: audit_audited)

definition calm_step :: "sink \<Rightarrow> int \<Rightarrow> auth_db \<Rightarrow> auth_db \<Rightarrow> bool" where
  "calm_step sk now db db' \<longleftrightarrow> (\<exists>e. effect_step sk now db db' e \<and> calm e)"

lemma calm_simps [simp]:
  "calm Unchanged" "calm (Opened i th)" "calm (Touched th)" "calm (LoggedOut th)"
  "calm (UserOnly i (record_failed_login now))"
  "calm (Revoked i (new_password h m now))"
  "calm (UserOnly i (\<lambda>u. u\<lparr>au_active := True, au_updated := now\<rparr>))"
  by (simp_all add: calm_def record_failed_login_def new_password_def Let_def)

lemma effect_step_ex:
  "audit env sk r (apply_effect now e db) = Inr db' \<Longrightarrow> effect_ok now db e \<and> calm e \<Longrightarrow> calm_step sk now db db'"
  by (auto simp: calm_step_def intro: effect_stepI)

lemma effect_step_none: "calm_step sk now db db"
  unfolding calm_step_def by (rule exI [of _ Unchanged]) (simp add: effect_step_def)

lemma user_named_Some:
  assumes "user_named db name = Some (i, u)"
  shows "(i, u) \<in> set (ad_users db)" and "au_username u = name"
  using assms unfolding user_named_def by (auto dest: sel_first_Some)

lemma member_map_of: "(i, u) \<in> set t \<Longrightarrow> \<exists>u'. map_of t i = Some u'"
  by (metis option.exhaust map_of_eq_None_iff fst_conv image_eqI)

lemma refuse_login_effect:
  assumes "refuse_login env sk name request reason actor (apply_effect now e db) db = (res, db')"
    and "effect_ok now db e \<and> calm e"
  shows "calm_step sk now db db'"
  using assms
  by (auto simp: refuse_login_def split: sum.splits intro: effect_step_ex effect_step_none)

lemma accept_login_effect:
  assumes "accept_login env sk now fresh name request i u db = (res, db')"
    and "map_of (ad_users db) i \<noteq> None"
  shows "calm_step sk now db db'"
proof (cases res)
  case (Inl e)
  with assms(1) have "db' = db" by (auto simp: accept_login_def split: sum.splits prod.splits)
  then show ?thesis using effect_step_none by blast
next
  case (Inr r)
  with assms(1) obtain db1 rec where o: "open_session env now fresh i u db = Inr (r, db1)"
    and a: "audit env sk rec db1 = Inr db'"
    by (auto simp: accept_login_def bindR_Inr_iff split: sum.splits prod.splits)
  from o obtain th ss where "insert_row (\<lambda>_ _. False) th (new_session i now) (ad_sessions db) = Some ss"
    and db1: "db1 = set_user i (\<lambda>u. u\<lparr>au_failed := 0, au_locked_until := None\<rparr>) (db\<lparr>ad_sessions := ss\<rparr>)"
    by (auto simp: open_session_def bindR_Inr_iff split: option.splits)
  then have ss: "ss = ad_sessions db @ [(th, new_session i now)]"
    and th: "map_of (ad_sessions db) th = None"
    by (simp_all add: insert_row_Some(1) [of "\<lambda>_ _. False"]) (simp add: insert_row_def split: if_splits)
  have "effect_step sk now db db' (Opened i th)"
    by (rule effect_stepI [of _ _ _ env _ rec]) (use a assms(2) th in \<open>auto simp: db1 ss\<close>)
  then show ?thesis by (auto simp: calm_step_def intro: exI [of _ "Opened i th"])
qed

lemma login_effect:
  assumes "login env sk now fresh username password request db = (res, db')"
  shows "calm_step sk now db db'"
proof (cases "normalize_username env username")
  case None
  with assms show ?thesis using effect_step_none by (auto simp: login_def)
next
  case name: (Some name)
  show ?thesis
  proof (cases "user_named db name")
    case None
    with assms name have "refuse_login env sk name request ''INVALID_CREDENTIALS'' None
      (apply_effect now Unchanged db) db = (res, db')" by (simp add: login_def)
    then show ?thesis by (rule refuse_login_effect) simp
  next
    case (Some iu)
    obtain i u where iu: "iu = (i, u)" by fastforce
    have i: "map_of (ad_users db) i \<noteq> None"
      using user_named_Some(1) [OF Some [unfolded iu]] member_map_of by force
    consider "\<exists>reason. refuse_login env sk name request reason (Some i) (apply_effect now Unchanged db) db = (res, db')"
      | "db' = db"
      | "refuse_login env sk name request ''INVALID_CREDENTIALS'' (Some i)
          (apply_effect now (UserOnly i (record_failed_login now)) db) db = (res, db')"
      | "accept_login env sk now fresh name request i u db = (res, db')"
      using assms name Some unfolding iu login_def
      by (auto split: if_splits sum.splits bool.splits)
    then show ?thesis
    proof cases
      case 1
      then obtain reason where
        "refuse_login env sk name request reason (Some i) (apply_effect now Unchanged db) db = (res, db')" ..
      then show ?thesis by (rule refuse_login_effect) simp
    next
      case 2 then show ?thesis using effect_step_none by blast
    next
      case 3 then show ?thesis by (rule refuse_login_effect) simp
    next
      case 4 then show ?thesis by (rule accept_login_effect) (fact i)
    qed
  qed
qed

lemma step_calm:
  assumes "auth_step env sk now db db'"
  shows "calm_step sk now db db'
    \<or> (\<exists>i actor request. disable_user env sk now i actor request db = Inr db')"
  using assms
proof cases
  case login
  then show ?thesis by (intro disjI1 login_effect)
next
  case (authenticate token c)
  then obtain th s u where "valid_record db th now = Inr (s, u)" and "db' = apply_effect now (Touched th) db"
    by (auto simp: authenticate_session_def bindR_Inr_iff)
  then have "effect_step sk now db db' (Touched th)" by (simp add: effect_step_def)
  then show ?thesis by (auto simp: calm_step_def intro: exI [of _ "Touched th"])
next
  case (logout token request b)
  then obtain th where th: "hash_token_or_raise env token = Inr th"
    and "db' = db \<or> (\<exists>s r. map_of (ad_sessions db) th = Some s \<and> ss_revoked s = None
       \<and> audit env sk r (apply_effect now (LoggedOut th) db) = Inr db')"
    by (fastforce simp: logout_def bindR_Inr_iff split: option.splits if_splits)
  then show ?thesis
  proof (elim disjE exE conjE)
    assume "db' = db"
    then show ?thesis using effect_step_none by blast
  next
    fix s r
    assume "audit env sk r (apply_effect now (LoggedOut th) db) = Inr db'"
      and "map_of (ad_sessions db) th = Some s" "ss_revoked s = None"
    then show ?thesis by - (rule disjI1, erule effect_step_ex, simp)
  qed
next
  case (change_password salt token current new request seen)
  then obtain i h r where "audit env sk r (apply_effect now (Revoked i (new_password h False now)) db) = Inr db'"
    by (auto simp: change_password_def bindR_Inr_iff split: if_splits)
  then show ?thesis by - (rule disjI1, erule effect_step_ex, simp)
next
  case (reset_password salt i new actor request)
  then obtain h r where "audit env sk r (apply_effect now (Revoked i (new_password h True now)) db) = Inr db'"
    by (auto simp: reset_password_def bindR_Inr_iff split: if_splits)
  then show ?thesis by - (rule disjI1, erule effect_step_ex, simp)
next
  case (recover_admin salt username new environment project)
  then obtain i h r where "audit env sk r (apply_effect now (Revoked i (new_password h True now)) db) = Inr db'"
    by (auto simp: recover_admin_def bindR_Inr_iff split: if_splits option.splits)
  then show ?thesis by - (rule disjI1, erule effect_step_ex, simp)
next
  case (disable_user i actor request)
  then show ?thesis by blast
next
  case (enable_user i actor request)
  then have "audit env sk (success_record ''user.enable'' ''user'' (int_text i) request ''USER_ENABLED'' actor)
    (apply_effect now (UserOnly i (\<lambda>u. u\<lparr>au_active := True, au_updated := now\<rparr>)) db) = Inr db'"
    by (simp add: enable_user_def split: if_splits)
  then show ?thesis by - (rule disjI1, erule effect_step_ex, simp)
qed

lemma disable_effect:
  assumes "disable_user env sk now i actor request db = Inr db'"
  shows "effect_step sk now db db' (Revoked i (\<lambda>u. u\<lparr>au_active := False, au_updated := now\<rparr>))"
proof -
  from assms have "audit env sk (success_record ''user.disable'' ''user'' (int_text i) request ''USER_DISABLED'' actor)
    (apply_effect now (Revoked i (\<lambda>u. u\<lparr>au_active := False, au_updated := now\<rparr>)) db) = Inr db'"
    by (simp add: disable_user_def split: if_splits)
  then show ?thesis by - (rule effect_stepI, simp_all)
qed

lemma step_effect: "auth_step env sk now db db' \<Longrightarrow> \<exists>e. effect_step sk now db db' e"
  using step_calm disable_effect unfolding calm_step_def by blast

end
