(* ===== verification/Auth_Invariant.thy ===== *)
theory Auth_Invariant
  imports Auth_Steps
begin

text \<open>
  The invariant of the account database and the frame of every transaction: which parts of a row
  no operation touches. Both are proved on the effects and lifted to runs by rule induction.
\<close>

definition session_ok :: "session_row \<Rightarrow> bool" where
  "session_ok s \<longleftrightarrow>
     ss_absolute s = ss_created s + absolute_ttl
     \<and> ss_expires s = min (ss_last_seen s + idle_ttl) (ss_absolute s)"

definition user_ok :: "user_row \<Rightarrow> bool" where
  "user_ok u \<longleftrightarrow>
     0 \<le> au_failed u \<and> (au_failed u \<ge> max_failed_login_attempts \<longrightarrow> au_locked_until u \<noteq> None)"

definition auth_ok :: "auth_db \<Rightarrow> bool" where
  "auth_ok db \<longleftrightarrow>
     keys_ok (ad_users db) \<and> keys_ok (ad_sessions db)
     \<and> (\<forall>i u. map_of (ad_users db) i = Some u \<longrightarrow> user_ok u)
     \<and> (\<forall>th s. map_of (ad_sessions db) th = Some s
          \<longrightarrow> session_ok s \<and> map_of (ad_users db) (ss_user s) \<noteq> None)"

definition session_evolves :: "session_row \<Rightarrow> session_row \<Rightarrow> bool" where
  "session_evolves s s' \<longleftrightarrow>
     ss_user s' = ss_user s \<and> ss_created s' = ss_created s \<and> ss_absolute s' = ss_absolute s
     \<and> (ss_revoked s \<noteq> None \<longrightarrow> s' = s)"

definition identity :: "user_row \<Rightarrow> pystr \<times> pystr list" where
  "identity u = (au_username u, au_roles u)"

definition evolves :: "auth_db \<Rightarrow> auth_db \<Rightarrow> bool" where
  "evolves db db' \<longleftrightarrow>
     ad_roles db' = ad_roles db
     \<and> (\<forall>i. map_option identity (map_of (ad_users db') i) = map_option identity (map_of (ad_users db) i))
     \<and> (\<forall>th s. map_of (ad_sessions db) th = Some s
          \<longrightarrow> (\<exists>s'. map_of (ad_sessions db') th = Some s' \<and> session_evolves s s'))"

named_theorems auth_invs "the parts of the account invariant"
declare session_ok_def [auth_invs] user_ok_def [auth_invs] session_evolves_def [auth_invs]

section \<open>Tables after an effect\<close>

lemma map_of_set_user:
  "map_of (ad_users (set_user i f db)) = (map_of (ad_users db))(i := map_option f (map_of (ad_users db) i))"
  by (simp add: set_user_def map_of_upd_key)

lemma map_of_set_session:
  "map_of (ad_sessions (set_session th f db)) =
     (map_of (ad_sessions db))(th := map_option f (map_of (ad_sessions db) th))"
  by (simp add: set_session_def map_of_upd_key)

lemma map_of_revoke:
  "map_of (ad_sessions (revoke_user_sessions i now db)) th =
     map_option (\<lambda>s. if ss_user s = i \<and> ss_revoked s = None then s\<lparr>ss_revoked := Some now\<rparr> else s)
       (map_of (ad_sessions db) th)"
  by (simp add: revoke_user_sessions_def map_of_upd_where)

lemma map_of_snoc: "map_of (t @ [(k, r)]) k' = (case map_of t k' of None \<Rightarrow> [k \<mapsto> r] k' | Some x \<Rightarrow> Some x)"
  by (auto simp: map_add_def split: option.split)

lemma keys_ok_snoc: "keys_ok (t @ [(k, r)]) \<longleftrightarrow> keys_ok t \<and> map_of t k = None"
  by (auto simp: keys_ok_def map_of_eq_None_iff)

lemmas table_simps = map_of_set_user map_of_set_session map_of_revoke map_of_snoc keys_ok_snoc

lemma keys_ok_effects [simp]:
  "keys_ok (ad_users (set_user i f db)) = keys_ok (ad_users db)"
  "keys_ok (ad_sessions (set_session th g db)) = keys_ok (ad_sessions db)"
  "keys_ok (ad_sessions (revoke_user_sessions i now db)) = keys_ok (ad_sessions db)"
  by (simp_all add: set_user_def set_session_def revoke_user_sessions_def)

section \<open>Preservation\<close>

lemma user_change_ok: "user_change now f \<Longrightarrow> user_ok u \<Longrightarrow> user_ok (f u)"
  by (auto simp: user_change_def user_ok_def record_failed_login_def new_password_def Let_def
      max_failed_login_attempts_def)

lemma user_change_identity: "user_change now f \<Longrightarrow> identity (f u) = identity u"
  by (auto simp: user_change_def identity_def record_failed_login_def new_password_def Let_def)

lemma new_session_ok [simp]: "session_ok (new_session i now)" "ss_user (new_session i now) = i"
  by (simp_all add: session_ok_def new_session_def idle_ttl_def absolute_ttl_def)

lemma new_session_okD: "new_session i now = s \<Longrightarrow> session_ok s"
  using new_session_ok by blast

lemma session_ok_revoke [simp]: "session_ok (s\<lparr>ss_revoked := r\<rparr>) = session_ok s"
  by (cases s) (simp add: session_ok_def)

lemma touched_ok:
  "session_ok s \<Longrightarrow> session_ok (s\<lparr>ss_last_seen := now, ss_expires := min (now + idle_ttl) (ss_absolute s)\<rparr>)"
  by (simp add: session_ok_def)

lemma valid_record_D:
  assumes "valid_record db th now = Inr (s, u)"
  shows "map_of (ad_sessions db) th = Some s" and "ss_revoked s = None"
    and "map_of (ad_users db) (ss_user s) = Some u" and "au_active u"
    and "now < ss_expires s" and "now < ss_absolute s"
  using assms by (auto simp: valid_record_def session_expired_def split: option.splits if_splits)

lemma auth_ok_set_user:
  "(\<And>u. user_ok u \<Longrightarrow> user_ok (f u)) \<Longrightarrow> auth_ok db \<Longrightarrow> auth_ok (set_user i f db)"
  by (auto simp: auth_ok_def table_simps split: if_splits)

lemma auth_ok_set_session:
  "(\<And>s. session_ok s \<Longrightarrow> session_ok (g s)) \<Longrightarrow> (\<And>s. ss_user (g s) = ss_user s) \<Longrightarrow> auth_ok db
   \<Longrightarrow> auth_ok (set_session th g db)"
  by (auto simp: auth_ok_def table_simps split: if_splits)

lemma auth_ok_revoke:
  assumes "auth_ok db"
  shows "auth_ok (revoke_user_sessions i now db)"
  using assms by (auto simp: auth_ok_def table_simps)

lemma effect_ok_auth_ok:
  assumes "effect_ok now db e" and "auth_ok db"
  shows "auth_ok (apply_effect now e db)"
proof (cases e)
  case (Opened i th)
  with assms have "auth_ok (db\<lparr>ad_sessions := ad_sessions db @ [(th, new_session i now)]\<rparr>)"
    by (auto simp: auth_ok_def table_simps dest: new_session_okD split: if_splits option.splits)
  then show ?thesis
    by (simp add: Opened) (rule auth_ok_set_user, auto simp: user_ok_def max_failed_login_attempts_def)
next
  case (Touched th)
  show ?thesis unfolding Touched apply_effect.simps
    by (rule auth_ok_set_session) (simp_all add: touched_ok assms(2))
next
  case (LoggedOut th)
  show ?thesis unfolding LoggedOut apply_effect.simps
    by (rule auth_ok_set_session) (simp_all add: assms(2))
next
  case (UserOnly i f)
  with assms show ?thesis by (auto intro: auth_ok_set_user user_change_ok)
next
  case (Revoked i f)
  with assms show ?thesis by (auto intro: auth_ok_revoke auth_ok_set_user user_change_ok)
qed (use assms in simp)

lemma session_evolves_refl [simp]: "session_evolves s s"
  by (simp add: session_evolves_def)

lemma effect_ok_evolves:
  assumes "effect_ok now db e"
  shows "evolves db (apply_effect now e db)"
  using assms
proof (cases e)
  case (UserOnly i f)
  then show ?thesis using assms
    by (auto simp: evolves_def table_simps user_change_identity option.map_comp o_def)
next
  case (Opened i th)
  then show ?thesis using assms
    by (auto simp: evolves_def table_simps identity_def option.map_comp o_def split: option.splits)
next
  case (Touched th)
  with assms obtain s u where "valid_record db th now = Inr (s, u)" by auto
  from valid_record_D(1,2) [OF this] Touched show ?thesis
    by (auto simp: evolves_def table_simps session_evolves_def)
next
  case (LoggedOut th)
  then show ?thesis using assms
    by (auto simp: evolves_def table_simps session_evolves_def)
next
  case (Revoked i f)
  then show ?thesis using assms
    by (auto simp: evolves_def table_simps user_change_identity option.map_comp o_def session_evolves_def)
qed (simp add: evolves_def)

lemma audited_fields:
  "audited sk db db' \<Longrightarrow> ad_users db' = ad_users db \<and> ad_sessions db' = ad_sessions db \<and> ad_roles db' = ad_roles db"
  by (auto simp: audited_def split: if_splits)

lemma effect_step_fields:
  "effect_step sk now db db' e \<Longrightarrow>
     ad_users db' = ad_users (apply_effect now e db) \<and> ad_sessions db' = ad_sessions (apply_effect now e db)
     \<and> ad_roles db' = ad_roles (apply_effect now e db) \<and> effect_ok now db e"
  by (auto simp: effect_step_def dest: audited_fields)

lemma auth_ok_cong:
  "ad_users db' = ad_users db \<Longrightarrow> ad_sessions db' = ad_sessions db \<Longrightarrow> auth_ok db' = auth_ok db"
  by (simp add: auth_ok_def)

lemma evolves_cong:
  "ad_users db'' = ad_users db' \<Longrightarrow> ad_sessions db'' = ad_sessions db' \<Longrightarrow> ad_roles db'' = ad_roles db'
   \<Longrightarrow> evolves db db'' = evolves db db'"
  by (simp add: evolves_def)

lemma step_auth_ok:
  assumes "auth_step env sk now db db'" and "auth_ok db"
  shows "auth_ok db'"
proof -
  obtain e where "effect_step sk now db db' e" using step_effect [OF assms(1)] ..
  from effect_step_fields [OF this] show ?thesis
    using effect_ok_auth_ok [OF _ assms(2)] auth_ok_cong by blast
qed

lemma step_evolves:
  assumes "auth_step env sk now db db'"
  shows "evolves db db'"
proof -
  obtain e where "effect_step sk now db db' e" using step_effect [OF assms] ..
  from effect_step_fields [OF this] show ?thesis
    using effect_ok_evolves evolves_cong by blast
qed

lemma evolves_refl [simp]: "evolves db db"
  by (simp add: evolves_def)

lemma session_evolves_trans: "session_evolves s s' \<Longrightarrow> session_evolves s' s'' \<Longrightarrow> session_evolves s s''"
  by (auto simp: session_evolves_def)

lemma evolves_trans: "evolves db db' \<Longrightarrow> evolves db' db'' \<Longrightarrow> evolves db db''"
  unfolding evolves_def by (metis session_evolves_trans)

lemma run_auth_ok: "auth_run env sk db db' \<Longrightarrow> auth_ok db \<Longrightarrow> auth_ok db'"
  by (induction rule: auth_run.induct) (auto dest: step_auth_ok)

lemma run_evolves: "auth_run env sk db db' \<Longrightarrow> evolves db db'"
  by (induction rule: auth_run.induct) (auto dest: step_evolves intro: evolves_trans)

lemma evolves_session:
  assumes "evolves db db'" and "map_of (ad_sessions db) th = Some s"
  obtains s' where "map_of (ad_sessions db') th = Some s'" and "session_evolves s s'"
  using assms unfolding evolves_def by blast

lemma revoked_stays:
  assumes "evolves db db'" and "map_of (ad_sessions db) th = Some s" and "ss_revoked s \<noteq> None"
  shows "valid_record db' th now = Inl SessionExpired"
proof -
  from assms(1,2) obtain s' where "map_of (ad_sessions db') th = Some s'" and "session_evolves s s'"
    by (rule evolves_session)
  with assms(3) show ?thesis by (auto simp: valid_record_def session_evolves_def)
qed

section \<open>Concrete databases\<close>

text \<open>An environment and a database the witnesses evaluate.\<close>

definition demo_auth_env :: auth_env where
  "demo_auth_env =
     \<lparr>e_sha = (\<lambda>t. 35 # t), e_lower = (\<lambda>s. s), e_casefold = (\<lambda>s. s),
      e_verify = (\<lambda>h p. ArgonReturns (h = 64 # p)), e_hash = (\<lambda>salt p. Some (64 # p))\<rparr>"

definition demo_user :: user_row where
  "demo_user =
     \<lparr>au_username = lit ''ann'', au_hash = 64 # lit ''a-long-password'', au_active = True,
      au_must_change = False, au_failed = 0, au_locked_until = None, au_updated = 0,
      au_roles = [lit ''admin'']\<rparr>"

definition demo_auth_db :: auth_db where
  "demo_auth_db =
     \<lparr>ad_users = [(1, demo_user)],
      ad_roles = [(lit ''admin'', [lit ''admin.users'', lit ''query.execute'']),
                  (lit ''analyst'', [lit ''query.execute''])],
      ad_sessions = [], ad_audit = []\<rparr>"

lemma demo_auth_ok: "auth_ok demo_auth_db"
  by (simp add: auth_ok_def demo_auth_db_def demo_user_def keys_ok_def user_ok_def
      max_failed_login_attempts_def)

end
