(* ===== verification/Auth_Properties.thy ===== *)
theory Auth_Properties
  imports Auth_Invariant
begin

text \<open>
  What the account service promises: the sliding of a session, that a logout is for ever, the
  lock-out, the audit of every change, and the check of audit details against its specification.
\<close>

section \<open>Reading the operations\<close>

lemma hash_token_or_raise_Inr:
  "hash_token_or_raise env t = Inr th \<Longrightarrow> th = e_sha env t \<and> t \<noteq> [] \<and> encodable t"
  by (auto simp: hash_token_or_raise_def hash_token_def split: if_splits)

lemma context_for_user_Inr:
  "context_for_user db i u = Inr c \<Longrightarrow>
     ac_user c = Some i \<and> ac_must_change c = au_must_change u \<and> ac_permissions c = permissions_of db u"
  by (auto simp: context_for_user_def make_context_def split: if_splits)

lemma authenticate_session_Inr:
  assumes "authenticate_session env now token db = Inr (c, db')"
  obtains s u where "hash_token_or_raise env token = Inr (e_sha env token)"
    and "valid_record db (e_sha env token) now = Inr (s, u)"
    and "context_for_user db (ss_user s) u = Inr c"
    and "db' = set_session (e_sha env token) (\<lambda>s. s\<lparr>ss_last_seen := now,
                 ss_expires := min (now + idle_ttl) (ss_absolute s)\<rparr>) db"
  using assms by (auto simp: authenticate_session_def bindR_Inr_iff dest: hash_token_or_raise_Inr)

lemma open_session_Inr:
  assumes "open_session env now fresh i u db = Inr (r, db')"
  shows "map_of (ad_sessions db') (e_sha env (lr_token r)) = Some (new_session i now)"
    and "ac_user (lr_context r) = Some i"
  using assms
  by (auto simp: open_session_def bindR_Inr_iff hash_token_def
      dest!: insert_row_Some(2) context_for_user_Inr split: option.splits if_splits)

lemma login_Inr:
  assumes "login env sk now fresh username password request db = (Inr r, db')"
  obtains i where "map_of (ad_sessions db') (e_sha env (lr_token r)) = Some (new_session i now)"
    and "ac_user (lr_context r) = Some i"
proof -
  from assms obtain name i u where
    "accept_login env sk now fresh name request i u db = (Inr r, db')"
    by (auto simp: login_def refuse_login_def split: option.splits if_splits sum.splits bool.splits)
  then obtain db1 rec where o: "open_session env now fresh i u db = Inr (r, db1)"
    and a: "audit env sk rec db1 = Inr db'"
    by (auto simp: accept_login_def bindR_Inr_iff split: sum.splits prod.splits)
  from audit_audited [OF a] have "ad_sessions db' = ad_sessions db1"
    by (auto dest: audited_fields)
  with open_session_Inr [OF o] show ?thesis using that by metis
qed

lemma revoked_refused:
  "valid_record db (e_sha env token) now = Inl SessionExpired \<Longrightarrow>
   \<not> (\<exists>x. authenticate_session env now token db = Inr x)"
  by (auto simp: authenticate_session_def bindR_Inr_iff dest!: hash_token_or_raise_Inr)

section \<open>A concrete login\<close>

lemmas demo_eval =
  demo_auth_env_def demo_auth_db_def demo_user_def normalize_username_def strip_def py_isspace_def lit_def
  user_named_def sel_first_def locked_at_def verify_password_def accept_login_def open_session_def
  new_token_def hash_token_def hash_token_or_raise_def is_surrogate_def context_for_user_def
  make_context_def permissions_of_def insert_row_def set_user_def set_session_def upd_where_def
  audit_def make_audit_record_def write_security_audit_def contains_sensitive_details_def
  new_session_def idle_ttl_def absolute_ttl_def revoke_user_sessions_def new_password_def
  hash_password_def validate_password_def min_password_length_def record_failed_login_def
  max_failed_login_attempts_def failed_login_lock_duration_def valid_record_def session_expired_def

definition demo_login_result :: login_result where
  "demo_login_result =
     \<lparr>lr_token = lit ''tok'',
      lr_context = \<lparr>ac_subject = lit ''ann'', ac_provider = lit ''local'', ac_user = Some 1,
        ac_username = Some (lit ''ann''), ac_permissions = [lit ''admin.users'', lit ''query.execute''],
        ac_must_change = False\<rparr>\<rparr>"

definition demo_logged_in :: auth_db where
  "demo_logged_in = demo_auth_db\<lparr>ad_sessions := [(35 # lit ''tok'', new_session 1 0)]\<rparr>"

lemma demo_login:
  "login demo_auth_env NoSink 0 (Some (lit ''tok'')) (lit ''ann'') (lit ''a-long-password'') None demo_auth_db
   = (Inr demo_login_result, demo_logged_in)"
  by (simp add: login_def login_record_def demo_login_result_def demo_logged_in_def demo_eval)

definition demo_touched :: auth_db where
  "demo_touched = demo_auth_db\<lparr>ad_sessions :=
     [(35 # lit ''tok'', (new_session 1 0)\<lparr>ss_last_seen := 5, ss_expires := 5 + idle_ttl\<rparr>)]\<rparr>"

lemma demo_authenticate:
  "authenticate_session demo_auth_env 5 (lr_token demo_login_result) demo_logged_in
   = Inr (lr_context demo_login_result, demo_touched)"
  by (simp add: authenticate_session_def demo_login_result_def demo_logged_in_def demo_touched_def demo_eval)

section \<open>Life of a session\<close>

text \<open>A session is sliding: after \<open>authenticate_session\<close> at time \<open>now\<close>, the read-only check
  accepts the token at time \<open>later\<close> exactly when \<open>later\<close> is before both \<open>now\<close> plus thirty minutes
  and the absolute end of the session, and then returns the same identity.\<close>
theorem session_slides:
  assumes "authenticate_session env now token db = Inr (c, db')"
    and "map_of (ad_sessions db) (e_sha env token) = Some s"
  shows "authenticate_session_readonly env later token db' =
    (if later < min (now + idle_ttl) (ss_absolute s) then Inr c else Inl SessionExpired)"
proof -
  obtain s' u where h: "hash_token_or_raise env token = Inr (e_sha env token)"
    and v: "valid_record db (e_sha env token) now = Inr (s', u)"
    and cu: "context_for_user db (ss_user s') u = Inr c"
    and db': "db' = set_session (e_sha env token) (\<lambda>s. s\<lparr>ss_last_seen := now,
                 ss_expires := min (now + idle_ttl) (ss_absolute s)\<rparr>) db"
    using authenticate_session_Inr [OF assms(1)] .
  have s: "s' = s" using valid_record_D(1) [OF v] assms(2) by simp
  have "context_for_user db' (ss_user s) u = Inr c"
    using cu by (simp add: db' s context_for_user_def permissions_of_def)
  then show ?thesis
    using valid_record_D [OF v] h
    by (auto simp: authenticate_session_readonly_def db' s valid_record_def table_simps
        session_expired_def)
qed

lemma session_slides_witness:
  "authenticate_session_readonly demo_auth_env 7 (lr_token demo_login_result) demo_touched =
     (if 7 < min (5 + idle_ttl) (ss_absolute (new_session 1 0)) then Inr (lr_context demo_login_result)
      else Inl SessionExpired)"
proof -
  have "map_of (ad_sessions demo_logged_in) (e_sha demo_auth_env (lr_token demo_login_result)) =
    Some (new_session 1 0)" by (simp add: demo_logged_in_def demo_login_result_def demo_eval)
  from session_slides [OF demo_authenticate this] show ?thesis .
qed

section \<open>Revocation\<close>

text \<open>Logging out is final: after a \<open>logout\<close> that found the session, no later state accepts the
  token at any time.\<close>
theorem logout_is_final:
  assumes log: "logout env sk now token request db = Inr (True, db1)"
    and run: "auth_run env sk db1 db2"
  shows "\<not> (\<exists>x. authenticate_session env later token db2 = Inr x)"
proof -
  from log obtain th s r where "hash_token_or_raise env token = Inr th"
    and s: "map_of (ad_sessions db) th = Some s" "ss_revoked s = None"
    and a: "audit env sk r (set_session th (\<lambda>s. s\<lparr>ss_revoked := Some now\<rparr>) db) = Inr db1"
    by (auto simp: logout_def bindR_Inr_iff split: option.splits if_splits)
  then have th: "th = e_sha env token" by (simp add: hash_token_or_raise_Inr)
  have "map_of (ad_sessions db1) th = Some (s\<lparr>ss_revoked := Some now\<rparr>)"
    using audit_audited [OF a] s by (auto dest!: audited_fields simp: table_simps)
  from revoked_stays [OF run_evolves [OF run] this] show ?thesis
    unfolding th by (intro revoked_refused) simp
qed

definition demo_logged_out :: auth_db where
  "demo_logged_out = demo_auth_db\<lparr>ad_sessions :=
     [(35 # lit ''tok'', (new_session 1 0)\<lparr>ss_revoked := Some 9\<rparr>)]\<rparr>"

lemma logout_is_final_witness:
  "\<not> (\<exists>x. authenticate_session demo_auth_env 10 (lit ''tok'') demo_logged_out = Inr x)"
proof -
  have "logout demo_auth_env NoSink 9 (lit ''tok'') None demo_logged_in = Inr (True, demo_logged_out)"
    by (simp add: logout_def success_record_def demo_logged_in_def demo_logged_out_def demo_eval)
  from logout_is_final [OF this auth_run.stay] show ?thesis .
qed

section \<open>Lock-out\<close>

text \<open>A series of attempts on one account, each with its time, password and request id.\<close>

fun attempts ::
  "auth_env \<Rightarrow> sink \<Rightarrow> pystr \<Rightarrow> (int \<times> pystr \<times> pystr option \<times> pystr option) list \<Rightarrow> auth_db \<Rightarrow> auth_db" where
  "attempts env sk username [] db = db"
| "attempts env sk username ((now, password, fresh, request) # as) db =
     attempts env sk username as (snd (login env sk now fresh username password request db))"

definition wrong_password :: "auth_env \<Rightarrow> pystr \<Rightarrow> user_row \<Rightarrow> bool" where
  "wrong_password env p u \<longleftrightarrow> verify_password env p (au_hash u) = Inr False"

lemma user_named_map_of:
  "keys_ok (ad_users db) \<Longrightarrow> user_named db name = Some (i, u) \<Longrightarrow> map_of (ad_users db) i = Some u"
  unfolding user_named_def by (auto dest: sel_first_map_of)

lemma sel_first_upd_key:
  assumes "\<And>u. P i (f u) = P i u"
  shows "sel_first P (upd_where (\<lambda>k _. k = i) f t) =
    map_option (\<lambda>(k, r). (k, if k = i then f r else r)) (sel_first P t)"
  using assms by (induction t) (auto simp: sel_first_def upd_where_def)

lemma user_named_set_user:
  "(\<And>u. au_username (f u) = au_username u) \<Longrightarrow>
   user_named (set_user i f db) name =
     map_option (\<lambda>(k, r). (k, if k = i then f r else r)) (user_named db name)"
  unfolding user_named_def set_user_def by (simp add: sel_first_upd_key)

fun all_refused ::
  "auth_env \<Rightarrow> sink \<Rightarrow> pystr \<Rightarrow> (int \<times> pystr \<times> pystr option \<times> pystr option) list \<Rightarrow> auth_db \<Rightarrow> bool" where
  "all_refused env sk username [] db = True"
| "all_refused env sk username ((now, password, fresh, request) # as) db \<longleftrightarrow>
     fst (login env sk now fresh username password request db) = Inl AuthenticationFailed
     \<and> all_refused env sk username as (snd (login env sk now fresh username password request db))"

lemma user_named_cong: "ad_users db' = ad_users db \<Longrightarrow> user_named db' name = user_named db name"
  by (simp add: user_named_def)

lemma refuse_login_users:
  assumes "fst (refuse_login env sk name request reason actor db' db) = Inl AuthenticationFailed"
    and "\<And>r e. audit env sk r db' = Inl e \<Longrightarrow> e \<noteq> AuthenticationFailed"
  shows "ad_users (snd (refuse_login env sk name request reason actor db' db)) = ad_users db'"
  using assms by (auto simp: refuse_login_def split: sum.splits dest: audit_audited audited_fields)

lemma audit_error: "audit env sk r db = Inl e \<Longrightarrow> e \<noteq> AuthenticationFailed"
  by (auto simp: audit_def make_audit_record_def write_security_audit_def persistent_write_def
      bindR_Inl_iff split: if_splits sink.splits)

lemma wrong_attempt:
  assumes "normalize_username env username = Some name" and "user_named db name = Some (i, u)"
    and "au_active u" and "au_locked_until u = None" and "wrong_password env p u"
    and "fst (login env sk now fresh username p request db) = Inl AuthenticationFailed"
  shows "user_named (snd (login env sk now fresh username p request db)) name =
    Some (i, record_failed_login now u)"
proof -
  let ?db' = "set_user i (record_failed_login now) db"
  have l: "login env sk now fresh username p request db =
     refuse_login env sk name request ''INVALID_CREDENTIALS'' (Some i) ?db' db"
    using assms by (simp add: login_def locked_at_def wrong_password_def)
  have "user_named (snd (login env sk now fresh username p request db)) name = user_named ?db' name"
    by (rule user_named_cong) (use assms(6) audit_error refuse_login_users in \<open>auto simp: l\<close>)
  also have "\<dots> = Some (i, record_failed_login now u)"
    using assms(2) by (subst user_named_set_user) (simp_all add: record_failed_login_def Let_def)
  finally show ?thesis .
qed

lemma attempts_lock:
  assumes "normalize_username env username = Some name" and "user_named db name = Some (i, u)"
    and "au_active u" and "au_locked_until u = None"
    and "as \<noteq> []" and "au_failed u + int (length as) = max_failed_login_attempts"
    and "\<forall>(t, p, f, r) \<in> set as. wrong_password env p u"
    and "all_refused env sk username as db"
  shows "\<exists>u'. user_named (attempts env sk username as db) name = Some (i, u') \<and> au_active u'
    \<and> au_locked_until u' = Some (fst (last as) + failed_login_lock_duration)"
  using assms(2-)
proof (induction as arbitrary: db u)
  case (Cons a as)
  obtain t p f r where a: "a = (t, p, f, r)" by (cases a) auto
  let ?db = "snd (login env sk t f username p r db)"
  let ?u = "record_failed_login t u"
  have step: "user_named ?db name = Some (i, ?u)"
    using Cons.prems by (intro wrong_attempt) (auto simp: a assms(1))
  have same: "au_active ?u = au_active u" "au_hash ?u = au_hash u" "au_failed ?u = au_failed u + 1"
    by (simp_all add: record_failed_login_def Let_def)
  show ?case
  proof (cases as)
    case Nil
    with Cons.prems have "au_failed u + 1 = max_failed_login_attempts" by simp
    then have "au_locked_until ?u = Some (t + failed_login_lock_duration)"
      by (simp add: record_failed_login_def)
    with step Cons.prems(2) same show ?thesis by (simp add: Nil a)
  next
    case (Cons b bs)
    have "au_locked_until ?u = None"
      using \<open>au_locked_until u = None\<close> \<open>au_failed u + int (length (a # as)) = _\<close>
      by (simp add: record_failed_login_def Cons)
    with Cons.IH [OF step] Cons.prems same show ?thesis
      by (simp add: a wrong_password_def Cons)
  qed
qed simp

text \<open>Five wrong passwords lock an account: whatever their times, after the fifth refused attempt
  no password logs in before fifteen minutes have passed, and the refused attempts neither open a
  session nor move the account's counter or lock.\<close>
theorem lockout_holds:
  assumes "normalize_username env username = Some name" and "user_named db name = Some (i, u)"
    and "au_active u" and "au_locked_until u = None" and "au_failed u = 0"
    and "length as = 5" and "\<forall>(t, p, f, r) \<in> set as. wrong_password env p u"
    and "all_refused env sk username as db"
    and "db' = attempts env sk username as db"
    and "now < fst (last as) + failed_login_lock_duration"
    and "login env sk now fresh username password request db' = (res, db'')"
  shows "(\<exists>e. res = Inl e) \<and> ad_users db'' = ad_users db' \<and> ad_sessions db'' = ad_sessions db'"
proof -
  have "\<exists>u'. user_named db' name = Some (i, u') \<and> au_active u'
    \<and> au_locked_until u' = Some (fst (last as) + failed_login_lock_duration)"
    unfolding assms(9) by (rule attempts_lock [OF assms(1-4)])
      (use assms(5-8) in \<open>auto simp: max_failed_login_attempts_def\<close>)
  then have "refuse_login env sk name request ''LOGIN_LOCKED'' (Some i) db' db' = (res, db'')"
    using assms(1,10,11) by (auto simp: login_def locked_at_def)
  then show ?thesis
    by (auto simp: refuse_login_def split: sum.splits dest: audit_audited audited_fields)
qed

definition demo_guesses :: "(int \<times> pystr \<times> pystr option \<times> pystr option) list" where
  "demo_guesses = map (\<lambda>t. (t, lit ''guess'', None, None)) [1, 2, 3, 4, 5]"

lemma lockout_holds_witness:
  "let db' = attempts demo_auth_env NoSink (lit ''ann'') demo_guesses demo_auth_db;
       out = login demo_auth_env NoSink 6 (Some (lit ''tok'')) (lit ''ann'') (lit ''a-long-password'') None db'
   in (\<exists>e. fst out = Inl e) \<and> ad_users (snd out) = ad_users db' \<and> ad_sessions (snd out) = ad_sessions db'"
proof -
  have 1: "normalize_username demo_auth_env (lit ''ann'') = Some (lit ''ann'')" by (simp add: demo_eval)
  have 2: "user_named demo_auth_db (lit ''ann'') = Some (1, demo_user)" by (simp add: demo_eval)
  have 3: "au_active demo_user" "au_locked_until demo_user = None" "au_failed demo_user = 0"
    "length demo_guesses = 5" by (simp_all add: demo_user_def demo_guesses_def)
  have 4: "\<forall>(t, p, f, r) \<in> set demo_guesses. wrong_password demo_auth_env p demo_user"
    by (simp add: demo_guesses_def wrong_password_def demo_eval)
  have 5: "all_refused demo_auth_env NoSink (lit ''ann'') demo_guesses demo_auth_db"
    by (simp add: demo_guesses_def login_def login_record_def refuse_login_def demo_eval)
  have 6: "(6::int) < fst (last demo_guesses) + failed_login_lock_duration"
    by (simp add: demo_guesses_def failed_login_lock_duration_def)
  show ?thesis unfolding Let_def
    by (rule lockout_holds [OF 1 2 3 4 5 refl 6]) (simp add: prod_eq_iff)
qed

section \<open>Audit\<close>

text \<open>With an audit sink configured, no transaction changes an account, opens a session or revokes
  one without adding exactly one row to the audit log; the only unaudited change is the sliding of a
  session's expiry.\<close>
theorem changes_are_audited:
  assumes "auth_step env sk now db db'" and "sk \<noteq> NoSink"
  shows "(\<exists>r. ad_audit db' = ad_audit db @ [r])
    \<or> db' = db
    \<or> (\<exists>th. db' = set_session th (\<lambda>s. s\<lparr>ss_last_seen := now,
                   ss_expires := min (now + idle_ttl) (ss_absolute s)\<rparr>) db)"
proof -
  obtain e where "effect_step sk now db db' e" using step_effect [OF assms(1)] ..
  moreover have "ad_audit (apply_effect now e db) = ad_audit db"
    by (cases e) simp_all
  ultimately show ?thesis using assms(2)
    by (auto simp: effect_step_def audited_def)
qed

lemma changes_are_audited_witness:
  "let db' = snd (login demo_auth_env PersistentSink 0 (Some (lit ''tok'')) (lit ''ann'')
                    (lit ''a-long-password'') None demo_auth_db)
   in (\<exists>r. ad_audit db' = ad_audit demo_auth_db @ [r]) \<or> db' = demo_auth_db
      \<or> (\<exists>th. db' = set_session th (\<lambda>s. s\<lparr>ss_last_seen := 0,
                   ss_expires := min (0 + idle_ttl) (ss_absolute s)\<rparr>) demo_auth_db)"
  unfolding Let_def
  by (rule changes_are_audited [of demo_auth_env PersistentSink, OF auth_step.login [OF prod.collapse [symmetric]]]) simp

text \<open>The specification of the check: some key anywhere is sensitive, or some leaf is not JSON.\<close>

fun sensitive_value :: "auth_env \<Rightarrow> json \<Rightarrow> bool" where
  "sensitive_value env (JObj kvs) \<longleftrightarrow>
     (\<exists>(k, x) \<in> set kvs. sensitive_key env k \<or> sensitive_value env x)"
| "sensitive_value env (JArr xs) \<longleftrightarrow> (\<exists>x \<in> set xs. sensitive_value env x)"
| "sensitive_value env (JFloat t) \<longleftrightarrow> \<not> finite_float t"
| "sensitive_value env _ \<longleftrightarrow> False"

definition some_sensitive :: "auth_env \<Rightarrow> (json \<times> bool) list \<Rightarrow> bool" where
  "some_sensitive env pending \<longleftrightarrow> (\<exists>v. (v, False) \<in> set pending \<and> sensitive_value env v)"

lemma some_sensitive_simps [simp]:
  "\<not> some_sensitive env []"
  "some_sensitive env ((v, b) # ps) \<longleftrightarrow> (\<not> b \<and> sensitive_value env v) \<or> some_sensitive env ps"
  "some_sensitive env (ps @ qs) \<longleftrightarrow> some_sensitive env ps \<or> some_sensitive env qs"
  "some_sensitive env (rev ps) \<longleftrightarrow> some_sensitive env ps"
  "some_sensitive env (map (\<lambda>x. (x, False)) xs) \<longleftrightarrow> (\<exists>x \<in> set xs. sensitive_value env x)"
  "some_sensitive env (map (\<lambda>(k, x). (x, False)) kvs) \<longleftrightarrow> (\<exists>kx \<in> set kvs. sensitive_value env (snd kx))"
  by (auto simp: some_sensitive_def image_iff split_beta) force?

lemma sensitive_loop_iff: "sensitive_loop env pending \<longleftrightarrow> some_sensitive env pending"
proof (induction env pending rule: sensitive_loop.induct)
  case (3 env kvs pending)
  have "sensitive_value env (JObj kvs) \<longleftrightarrow>
    list_ex (\<lambda>(k, x). sensitive_key env k) kvs \<or> (\<exists>kx \<in> set kvs. sensitive_value env (snd kx))"
    by (fastforce simp: list_ex_iff)
  with 3 show ?case by (cases "list_ex (\<lambda>(k, x). sensitive_key env k) kvs") simp_all
qed simp_all

text \<open>The iterative check of audit details (an explicit stack with exit marks) terminates on every
  JSON value and finds exactly the details that are not an object, hold a sensitive key at any
  depth, or hold a number that is not finite.\<close>
theorem sensitive_details_spec:
  "contains_sensitive_details env d = (case d of JObj kvs \<Rightarrow> sensitive_value env d | _ \<Rightarrow> True)"
  by (cases d) (simp_all add: contains_sensitive_details_def sensitive_loop_iff)

end
