(* ===== verification/Query_Entry.thy ===== *)
theory Query_Entry
  imports Auth_Properties
begin

text \<open>
  The gate in front of the online query: \<open>authorization/contracts.py\<close>, \<open>authorization/rbac.py\<close>,
  \<open>authorization/query_entry.py\<close>, the sinks of \<open>authorization/audit.py\<close> and
  \<open>authorization/audit_service.py\<close>. A policy store answers with a decision or fails; an audit sink is
  a function that takes an event and its state and may raise (\<open>None\<close>). The query service is a
  function on a state of its own, so that a theorem can say it was not called.
\<close>

section \<open>Policy stores\<close>

record decision =
  de_allowed :: bool
  de_reason :: pystr
  de_version :: pystr

datatype decision_code =
  ALLOWED | SUBJECT_NOT_ALLOWED | RESOURCE_NOT_ALLOWED | ACTION_NOT_ALLOWED | MODE_NOT_ALLOWED

definition decision_text :: "decision_code \<Rightarrow> pystr" where
  "decision_text c =
     (case c of ALLOWED \<Rightarrow> lit ''AUTHORIZED'' | SUBJECT_NOT_ALLOWED \<Rightarrow> lit ''SUBJECT_NOT_ALLOWED''
      | RESOURCE_NOT_ALLOWED \<Rightarrow> lit ''RESOURCE_NOT_ALLOWED'' | ACTION_NOT_ALLOWED \<Rightarrow> lit ''ACTION_NOT_ALLOWED''
      | MODE_NOT_ALLOWED \<Rightarrow> lit ''MODE_NOT_ALLOWED'')"

definition allow :: "pystr \<Rightarrow> decision" where
  "allow version = \<lparr>de_allowed = True, de_reason = decision_text ALLOWED, de_version = version\<rparr>"

definition deny :: "decision_code \<Rightarrow> pystr \<Rightarrow> decision" where
  "deny code version = \<lparr>de_allowed = False, de_reason = decision_text code, de_version = version\<rparr>"

record scope =
  sc_resource :: pystr
  sc_action :: pystr
  sc_mode :: pystr

definition authorized_scope :: scope where
  "authorized_scope =
     \<lparr>sc_resource = lit ''mart_sales'', sc_action = lit ''query'', sc_mode = lit ''read_only''\<rparr>"

record role_policy =
  rp_version :: pystr
  rp_scope :: scope
  rp_permission :: pystr

definition local_rbac :: role_policy where
  "local_rbac = \<lparr>rp_version = lit ''local-rbac-v1'', rp_scope = authorized_scope,
                 rp_permission = lit ''query.execute''\<rparr>"

definition role_authorize :: "role_policy \<Rightarrow> auth_context \<Rightarrow> scope \<Rightarrow> decision" where
  "role_authorize p c sc =
     (if sc_resource sc \<noteq> sc_resource (rp_scope p) then deny RESOURCE_NOT_ALLOWED (rp_version p)
      else if sc_action sc \<noteq> sc_action (rp_scope p) then deny ACTION_NOT_ALLOWED (rp_version p)
      else if sc_mode sc \<noteq> sc_mode (rp_scope p) then deny MODE_NOT_ALLOWED (rp_version p)
      else if ac_must_change c then deny SUBJECT_NOT_ALLOWED (rp_version p)
      else if rp_permission p \<notin> set (ac_permissions c) then deny SUBJECT_NOT_ALLOWED (rp_version p)
      else allow (rp_version p))"

record static_policy =
  sp_subjects :: "pystr list"
  sp_version :: pystr
  sp_scope :: scope

definition make_static_policy :: "pystr list \<Rightarrow> pystr \<Rightarrow> scope \<Rightarrow> auth_error + static_policy" where
  "make_static_policy subjects version sc =
     (if strip version = [] then Inl InvalidValue
      else Inr \<lparr>sp_subjects = subjects, sp_version = version, sp_scope = sc\<rparr>)"

definition static_authorize :: "static_policy \<Rightarrow> auth_context \<Rightarrow> scope \<Rightarrow> decision" where
  "static_authorize p c sc =
     (if sc_resource sc \<noteq> sc_resource (sp_scope p) then deny RESOURCE_NOT_ALLOWED (sp_version p)
      else if sc_action sc \<noteq> sc_action (sp_scope p) then deny ACTION_NOT_ALLOWED (sp_version p)
      else if sc_mode sc \<noteq> sc_mode (sp_scope p) then deny MODE_NOT_ALLOWED (sp_version p)
      else if ac_subject c \<notin> set (sp_subjects p) then deny SUBJECT_NOT_ALLOWED (sp_version p)
      else allow (sp_version p))"

definition static_identity :: "pystr \<Rightarrow> pystr \<Rightarrow> auth_error + auth_context" where
  "static_identity provider subject = make_context subject provider None None [] False"

text \<open>What calling a policy store can do; the stores above always decide.\<close>

datatype policy_answer = PolicyUnavailable | PolicyRaises | NotADecision | Decides decision

section \<open>Audit events\<close>

record audit_event =
  ev_request :: pystr
  ev_subject :: pystr
  ev_provider :: pystr
  ev_resource :: pystr
  ev_action :: pystr
  ev_allow :: bool
  ev_reason :: pystr
  ev_version :: pystr
  ev_time :: int

definition make_audit_event :: "audit_event \<Rightarrow> audit_event option" where
  "make_audit_event e =
     (if list_ex (\<lambda>s. strip s = []) [ev_request e, ev_subject e, ev_provider e, ev_resource e, ev_action e,
                                    ev_reason e, ev_version e]
      then None else Some e)"

definition unavailable_emit :: "audit_event \<Rightarrow> 's \<Rightarrow> 's option" where
  "unavailable_emit e s = None"

definition memory_emit :: "audit_event \<Rightarrow> audit_event list \<Rightarrow> audit_event list option" where
  "memory_emit e s = Some (s @ [e])"

definition authorization_record :: "auth_db \<Rightarrow> audit_event \<Rightarrow> audit_record" where
  "authorization_record db e =
     \<lparr>ar_event = lit ''query.authorization'', ar_target_type = lit ''resource'',
      ar_target = Some (ev_resource e), ar_outcome = (if ev_allow e then lit ''allow'' else lit ''deny''),
      ar_request = Some (ev_request e), ar_reason = Some (ev_reason e),
      ar_actor = map_option fst (user_named db (ev_subject e)),
      ar_details = JObj [(lit ''identity_provider'', JStr (ev_provider e)),
                         (lit ''action'', JStr (ev_action e)),
                         (lit ''policy_version'', JStr (ev_version e))]\<rparr>"

definition persistent_emit :: "auth_env \<Rightarrow> audit_event \<Rightarrow> auth_db \<Rightarrow> auth_db option" where
  "persistent_emit env e db =
     (case bindR (make_audit_record env (authorization_record db e)) (\<lambda>r. persistent_write env r db) of
        Inl err \<Rightarrow> None | Inr db' \<Rightarrow> Some db')"

definition outcome_record :: "pystr \<Rightarrow> int option \<Rightarrow> bool \<Rightarrow> pystr \<Rightarrow> audit_record" where
  "outcome_record request actor success reason =
     \<lparr>ar_event = lit ''query.outcome'', ar_target_type = lit ''resource'',
      ar_target = Some (lit ''mart_sales''),
      ar_outcome = (if success then lit ''success'' else lit ''failure''),
      ar_request = Some request, ar_reason = Some reason, ar_actor = actor, ar_details = JObj []\<rparr>"

definition persistent_outcome ::
  "auth_env \<Rightarrow> pystr \<Rightarrow> int option \<Rightarrow> bool \<Rightarrow> pystr \<Rightarrow> auth_db \<Rightarrow> auth_db option" where
  "persistent_outcome env request actor success reason db =
     (case bindR (make_audit_record env (outcome_record request actor success reason))
             (\<lambda>r. persistent_write env r db) of
        Inl err \<Rightarrow> None | Inr db' \<Rightarrow> Some db')"

section \<open>The entry\<close>

datatype entry_code = AUTHENTICATION_REQUIRED | AUTHORIZATION_DENIED | AUTHENTICATION_UNAVAILABLE

definition entry_message :: "entry_code \<Rightarrow> pystr" where
  "entry_message c =
     (case c of
        AUTHENTICATION_REQUIRED \<Rightarrow> [38656, 35201, 26377, 25928, 30340, 36523, 20221, 35748, 35777]
      | AUTHORIZATION_DENIED \<Rightarrow> [24403, 21069, 29992, 25143, 27809, 26377, 35813, 25968, 25454, 36164, 28304, 30340, 35775, 38382, 26435, 38480]
      | AUTHENTICATION_UNAVAILABLE \<Rightarrow> [36523, 20221, 35748, 35777, 26381, 21153, 26242, 26102, 19981, 21487, 29992])"

record query_failure =
  qf_request :: pystr
  qf_code :: entry_code
  qf_message :: pystr
  qf_stage :: pystr
  qf_reason :: pystr

definition authorization_failure :: "pystr \<Rightarrow> entry_code \<Rightarrow> pystr \<Rightarrow> query_failure" where
  "authorization_failure request code reason =
     \<lparr>qf_request = request, qf_code = code, qf_message = entry_message code,
      qf_stage = lit ''authorization'', qf_reason = reason\<rparr>"

text \<open>\<open>_request_id\<close>; \<open>fresh\<close> is the text of a new \<open>uuid4()\<close>.\<close>

definition request_id_of :: "pystr option \<Rightarrow> pystr \<Rightarrow> pystr" where
  "request_id_of given fresh =
     (case given of None \<Rightarrow> fresh | Some s \<Rightarrow> if strip s \<noteq> [] then strip s else fresh)"

text \<open>The configured entry: its scope, its policy store and its sink (\<open>emit\<close>).\<close>

record 's entry =
  en_scope :: scope
  en_policy :: "auth_context \<Rightarrow> scope \<Rightarrow> policy_answer"
  en_emit :: "audit_event \<Rightarrow> 's \<Rightarrow> 's option"
  en_outcome :: "(pystr \<Rightarrow> int option \<Rightarrow> bool \<Rightarrow> pystr \<Rightarrow> 's \<Rightarrow> 's option) option"

text \<open>\<open>_emit_audit\<close>: \<open>None\<close> is the audit failure the callers close on.\<close>

definition emit_audit ::
  "'s entry \<Rightarrow> int \<Rightarrow> pystr \<Rightarrow> auth_context option \<Rightarrow> pystr option \<Rightarrow> bool \<Rightarrow> pystr \<Rightarrow> pystr \<Rightarrow> 's \<Rightarrow> 's option" where
  "emit_audit en now request ctx provider allowed reason version s =
     Option.bind (make_audit_event
       \<lparr>ev_request = request,
        ev_subject = (case ctx of Some c \<Rightarrow> ac_subject c | None \<Rightarrow> lit ''anonymous''),
        ev_provider = (case ctx of Some c \<Rightarrow> ac_provider c
                       | None \<Rightarrow> (case provider of None \<Rightarrow> lit ''unknown''
                                  | Some p \<Rightarrow> if p = [] then lit ''unknown'' else p)),
        ev_resource = sc_resource (en_scope en), ev_action = sc_action (en_scope en),
        ev_allow = allowed, ev_reason = reason, ev_version = version, ev_time = now\<rparr>)
       (\<lambda>e. en_emit en e s)"

definition audited_failure ::
  "'s entry \<Rightarrow> int \<Rightarrow> query_failure \<Rightarrow> pystr \<Rightarrow> auth_context option \<Rightarrow> pystr option \<Rightarrow> pystr \<Rightarrow> pystr \<Rightarrow> 's
   \<Rightarrow> query_failure \<times> 's" where
  "audited_failure en now result request ctx provider reason version s =
     (case emit_audit en now request ctx provider False reason version s of
        None \<Rightarrow> (authorization_failure request AUTHENTICATION_UNAVAILABLE (lit ''AUDIT_SINK_UNAVAILABLE''), s)
      | Some s' \<Rightarrow> (result, s'))"

definition refuse ::
  "'s entry \<Rightarrow> int \<Rightarrow> bool \<Rightarrow> pystr \<Rightarrow> auth_context option \<Rightarrow> entry_code \<Rightarrow> pystr \<Rightarrow> pystr \<Rightarrow> 's
   \<Rightarrow> query_failure option \<times> 's" where
  "refuse en now write_audit request ctx code reason version s =
     (let result = authorization_failure request code reason
      in if \<not> write_audit then (Some result, s)
         else let (f, s') = audited_failure en now result request ctx None reason version s in (Some f, s'))"

definition unknown_version :: pystr where
  "unknown_version = lit ''unavailable''"

definition authorize ::
  "'s entry \<Rightarrow> int \<Rightarrow> bool \<Rightarrow> pystr option \<Rightarrow> pystr \<Rightarrow> auth_context option \<Rightarrow> 's \<Rightarrow> query_failure option \<times> 's" where
  "authorize en now write_audit given fresh ctx s =
     (let request = request_id_of given fresh
      in case ctx of
           None \<Rightarrow> refuse en now write_audit request None AUTHENTICATION_REQUIRED
                     (lit ''AUTH_CONTEXT_MISSING'') unknown_version s
         | Some c \<Rightarrow>
            (case en_policy en c (en_scope en) of
               PolicyUnavailable \<Rightarrow> refuse en now write_audit request ctx AUTHENTICATION_UNAVAILABLE
                 (lit ''POLICY_STORE_UNAVAILABLE'') unknown_version s
             | PolicyRaises \<Rightarrow> refuse en now write_audit request ctx AUTHENTICATION_UNAVAILABLE
                 (lit ''POLICY_STORE_FAILURE'') unknown_version s
             | NotADecision \<Rightarrow> refuse en now write_audit request ctx AUTHENTICATION_UNAVAILABLE
                 (lit ''INVALID_POLICY_DECISION'') unknown_version s
             | Decides d \<Rightarrow>
                 if \<not> de_allowed d then
                   refuse en now write_audit request ctx AUTHORIZATION_DENIED (de_reason d) (de_version d) s
                 else if write_audit then
                   (case emit_audit en now request ctx None True (de_reason d) (de_version d) s of
                      None \<Rightarrow> (Some (authorization_failure request AUTHENTICATION_UNAVAILABLE
                                      (lit ''AUDIT_SINK_UNAVAILABLE'')), s)
                    | Some s' \<Rightarrow> (None, s'))
                 else (None, s)))"

text \<open>What the query service did: it raised (the exception's type name), failed with a code, or succeeded.\<close>

datatype 'r service_outcome = ServiceRaised pystr | ServiceFailed pystr 'r | ServiceSucceeded 'r

definition emit_query_outcome ::
  "'s entry \<Rightarrow> pystr \<Rightarrow> auth_context option \<Rightarrow> bool \<Rightarrow> pystr \<Rightarrow> 's \<Rightarrow> 's" where
  "emit_query_outcome en request ctx success reason s =
     (case en_outcome en of
        None \<Rightarrow> s
      | Some emitter \<Rightarrow>
         (case emitter request (Option.bind ctx ac_user) success reason s of None \<Rightarrow> s | Some s' \<Rightarrow> s'))"

definition execute_authorized ::
  "'s entry \<Rightarrow> ('w \<Rightarrow> 'r service_outcome \<times> 'w) \<Rightarrow> pystr \<Rightarrow> auth_context option \<Rightarrow> 's \<Rightarrow> 'w
   \<Rightarrow> 'r service_outcome \<times> 's \<times> 'w" where
  "execute_authorized en service request ctx s w =
     (let (out, w') = service w
      in (out, case out of
                 ServiceRaised n \<Rightarrow> emit_query_outcome en request ctx False n s
               | ServiceFailed code r \<Rightarrow> emit_query_outcome en request ctx False code s
               | ServiceSucceeded r \<Rightarrow> emit_query_outcome en request ctx True (lit ''QUERY_SUCCEEDED'') s, w'))"

text \<open>\<open>query\<close>: each call of \<open>_request_id\<close> draws its own \<open>uuid4()\<close> when the request has no id.\<close>

definition query ::
  "'s entry \<Rightarrow> ('w \<Rightarrow> 'r service_outcome \<times> 'w) \<Rightarrow> int \<Rightarrow> pystr option \<Rightarrow> pystr \<Rightarrow> pystr \<Rightarrow> auth_context option
   \<Rightarrow> 's \<Rightarrow> 'w \<Rightarrow> (query_failure + 'r service_outcome) \<times> 's \<times> 'w" where
  "query en service now given fresh fresh' ctx s w =
     (case authorize en now True given fresh ctx s of
        (Some f, s') \<Rightarrow> (Inl f, s', w)
      | (None, s') \<Rightarrow>
          (case execute_authorized en service (request_id_of given fresh') ctx s' w of
             (out, s'', w') \<Rightarrow> (Inr out, s'', w')))"

definition authentication_failure ::
  "'s entry \<Rightarrow> int \<Rightarrow> pystr option \<Rightarrow> pystr \<Rightarrow> entry_code \<Rightarrow> pystr \<Rightarrow> pystr \<Rightarrow> 's \<Rightarrow> query_failure \<times> 's" where
  "authentication_failure en now given fresh code reason provider s =
     (let request = request_id_of given fresh
      in audited_failure en now (authorization_failure request code reason) request None (Some provider)
           reason unknown_version s)"

section \<open>The contracts of a policy store and of a sink\<close>

text \<open>
  A store decides every request, and allows one exactly when \<open>permits\<close> holds. A sink that does not raise
  has added one entry that describes the event.
\<close>

locale policy_store =
  fixes decide :: "auth_context \<Rightarrow> scope \<Rightarrow> policy_answer"
    and permits :: "auth_context \<Rightarrow> scope \<Rightarrow> bool"
  assumes decides: "\<exists>d. decide c sc = Decides d \<and> (de_allowed d \<longleftrightarrow> permits c sc) \<and> strip (de_version d) \<noteq> []"
begin

lemma decide_cases:
  obtains (permitted) d where "decide c sc = Decides d" "de_allowed d" "permits c sc"
  | (denied) d where "decide c sc = Decides d" "\<not> de_allowed d" "\<not> permits c sc"
  using decides by blast

end

locale audit_sink =
  fixes emit :: "audit_event \<Rightarrow> 's \<Rightarrow> 's option"
    and log :: "'s \<Rightarrow> 'l list"
    and describes :: "'l \<Rightarrow> audit_event \<Rightarrow> bool"
  assumes emit_appends: "emit e s = Some s' \<Longrightarrow> \<exists>x. log s' = log s @ [x] \<and> describes x e"
begin

lemma emit_audit_appends:
  assumes "emit_audit en now request ctx provider allowed reason version s = Some s'" and "en_emit en = emit"
  shows "\<exists>x e. log s' = log s @ [x] \<and> describes x e \<and> ev_request e = request \<and> ev_allow e = allowed
    \<and> ev_reason e = reason \<and> (\<forall>c. ctx = Some c \<longrightarrow> ev_subject e = ac_subject c)"
proof -
  from assms obtain e where "emit e s = Some s'" and e: "ev_request e = request" "ev_allow e = allowed"
    "ev_reason e = reason" "ev_subject e = (case ctx of Some c \<Rightarrow> ac_subject c | None \<Rightarrow> lit ''anonymous'')"
    by (auto simp: emit_audit_def make_audit_event_def bind_eq_Some_conv split: if_splits)
  from emit_appends [OF this(1)] obtain x where "log s' = log s @ [x]" "describes x e" by blast
  with e show ?thesis by (intro exI [of _ x] exI [of _ e]) simp
qed

end

locale gate = policy_store decide permits + audit_sink emit log describes
  for decide :: "auth_context \<Rightarrow> scope \<Rightarrow> policy_answer" and permits
    and emit :: "audit_event \<Rightarrow> 's \<Rightarrow> 's option" and log :: "'s \<Rightarrow> 'l list" and describes +
  fixes en :: "'s entry"
  assumes en_policy: "en_policy en = decide"
    and en_emit: "en_emit en = emit"
begin

lemma authorize_passes:
  assumes "authorize en now True given fresh ctx s = (None, s')"
  shows "\<exists>c x e. ctx = Some c \<and> permits c (en_scope en) \<and> log s' = log s @ [x] \<and> describes x e \<and> ev_allow e
    \<and> ev_request e = request_id_of given fresh \<and> ev_subject e = ac_subject c"
proof (cases ctx)
  case None
  with assms show ?thesis by (simp add: authorize_def refuse_def Let_def split: prod.splits)
next
  case (Some c)
  show ?thesis
  proof (cases rule: decide_cases [of c "en_scope en"])
    case (permitted d)
    with assms Some have "emit_audit en now (request_id_of given fresh) ctx None True (de_reason d)
        (de_version d) s = Some s'"
      by (simp add: authorize_def en_policy Let_def split: option.splits)
    from emit_audit_appends [OF this en_emit] Some permitted(3) show ?thesis by blast
  next
    case (denied d)
    with assms Some show ?thesis
      by (simp add: authorize_def en_policy refuse_def Let_def split: prod.splits)
  qed
qed

lemma query_gated:
  assumes "query en service now given fresh fresh' ctx s w = (res, s', w')"
    and "(\<exists>out. res = Inr out) \<or> w' \<noteq> w"
  shows "\<exists>c x e s1. ctx = Some c \<and> permits c (en_scope en) \<and> log s1 = log s @ [x] \<and> describes x e \<and> ev_allow e
    \<and> ev_request e = request_id_of given fresh \<and> ev_subject e = ac_subject c
    \<and> (res, s', w') = (case execute_authorized en service (request_id_of given fresh') ctx s1 w of
         (out, s2, w2) \<Rightarrow> (Inr out, s2, w2))"
proof -
  from assms obtain s1 where a: "authorize en now True given fresh ctx s = (None, s1)"
    by (auto simp: query_def split: prod.splits option.splits)
  from authorize_passes [OF a] obtain c x e where "ctx = Some c \<and> permits c (en_scope en)
    \<and> log s1 = log s @ [x] \<and> describes x e \<and> ev_allow e
    \<and> ev_request e = request_id_of given fresh \<and> ev_subject e = ac_subject c" by blast
  with assms(1) a show ?thesis
    by (intro exI [of _ c] exI [of _ x] exI [of _ e] exI [of _ s1]) (simp add: query_def)
qed

end

section \<open>The stores and the sinks of the program\<close>

definition role_store :: "auth_context \<Rightarrow> scope \<Rightarrow> policy_answer" where
  "role_store c sc = Decides (role_authorize local_rbac c sc)"

lemma role_authorize_allowed:
  "de_allowed (role_authorize local_rbac c sc) \<longleftrightarrow> sc = authorized_scope \<and> can_execute_query c"
  by (cases sc) (auto simp: role_authorize_def local_rbac_def can_execute_query_def allow_def deny_def
      authorized_scope_def)

interpretation roles: policy_store role_store "\<lambda>c sc. sc = authorized_scope \<and> can_execute_query c"
proof unfold_locales
  fix c sc
  have "strip (de_version (role_authorize local_rbac c sc)) \<noteq> []"
    by (simp add: role_authorize_def allow_def deny_def local_rbac_def lit_def strip_eq_Nil_iff py_isspace_def)
  then show "\<exists>d. role_store c sc = Decides d \<and> de_allowed d = (sc = authorized_scope \<and> can_execute_query c)
    \<and> strip (de_version d) \<noteq> []"
    by (simp add: role_store_def role_authorize_allowed)
qed

interpretation memory: audit_sink memory_emit "\<lambda>s. s" "\<lambda>x e. x = e"
  by unfold_locales (simp add: memory_emit_def)

text \<open>A row of \<open>audit_events\<close> that tells of an authorization event.\<close>

definition tells :: "audit_record \<Rightarrow> audit_event \<Rightarrow> bool" where
  "tells r e \<longleftrightarrow> (\<exists>db. r = authorization_record db e)"

interpretation persistent: audit_sink "persistent_emit env" ad_audit tells
  by unfold_locales
    (auto simp: persistent_emit_def persistent_write_def make_audit_record_def tells_def bindR_Inr_iff
      split: sum.splits if_splits)

definition production_entry :: "auth_env \<Rightarrow> auth_db entry" where
  "production_entry env =
     \<lparr>en_scope = authorized_scope, en_policy = role_store, en_emit = persistent_emit env,
      en_outcome = Some (persistent_outcome env)\<rparr>"

interpretation production: gate role_store "\<lambda>c sc. sc = authorized_scope \<and> can_execute_query c"
    "persistent_emit env" ad_audit tells "production_entry env"
  by unfold_locales (simp_all add: production_entry_def)

end
