(* ===== verification/Entry_Properties.thy ===== *)
theory Entry_Properties
  imports Query_Entry
begin

text \<open>
  What the gate guarantees with the program's own policy store, sink and sessions. The facts come
  from the interpretations of the contracts in \<open>Query_Entry\<close>.
\<close>

lemma emit_query_outcome_appends:
  "\<exists>rs. ad_audit (emit_query_outcome (production_entry env) request ctx ok reason db) = ad_audit db @ rs"
  by (auto simp: emit_query_outcome_def production_entry_def persistent_outcome_def persistent_write_def
      bindR_def split: sum.splits option.splits if_splits)

lemma execute_authorized_appends:
  "execute_authorized (production_entry env) service request ctx db w = (out, db', w') \<Longrightarrow>
     \<exists>rs. ad_audit db' = ad_audit db @ rs"
  using emit_query_outcome_appends
  by (auto simp: execute_authorized_def split: prod.splits service_outcome.splits)

lemma tells_fields:
  "tells r e \<Longrightarrow> ev_allow e \<Longrightarrow> ar_event r = lit ''query.authorization'' \<and> ar_outcome r = lit ''allow''
     \<and> ar_request r = Some (ev_request e)"
  by (auto simp: tells_def authorization_record_def)

lemma production_gated:
  assumes "query (production_entry env) service now given fresh fresh' ctx db w = (res, db', w')"
    and "(\<exists>out. res = Inr out) \<or> w' \<noteq> w"
  shows "\<exists>c r rs. ctx = Some c \<and> can_execute_query c \<and> ad_audit db' = ad_audit db @ r # rs
    \<and> ar_event r = lit ''query.authorization'' \<and> ar_outcome r = lit ''allow''
    \<and> ar_request r = Some (request_id_of given fresh)"
proof -
  from production.query_gated [OF assms] obtain c x e db1 where
    c: "ctx = Some c" "can_execute_query c" and db1: "ad_audit db1 = ad_audit db @ [x]"
    and e: "tells x e" "ev_allow e" "ev_request e = request_id_of given fresh"
    and run: "(res, db', w') = (case execute_authorized (production_entry env) service
        (request_id_of given fresh') ctx db1 w of (out, s2, w2) \<Rightarrow> (Inr out, s2, w2))"
    by blast
  from run obtain out where "execute_authorized (production_entry env) service
      (request_id_of given fresh') ctx db1 w = (out, db', w')" by (auto split: prod.splits)
  from execute_authorized_appends [OF this] obtain rs where "ad_audit db' = ad_audit db1 @ rs" ..
  with db1 c tells_fields [OF e(1,2)] e(3) show ?thesis
    by (intro exI [of _ c] exI [of _ x] exI [of _ rs]) simp
qed

text \<open>A query reaches the query service only for an identity that carries \<open>query.execute\<close> and has
  changed its first password, and only after a row of the audit log that allows exactly this request
  was written; the rows written later follow it.\<close>
theorem query_is_gated:
  assumes "query (production_entry env) service now given fresh fresh' ctx db w = (res, db', w')"
    and "(\<exists>out. res = Inr out) \<or> w' \<noteq> w"
  shows "\<exists>c r rs. ctx = Some c \<and> \<not> ac_must_change c \<and> lit ''query.execute'' \<in> set (ac_permissions c)
    \<and> ad_audit db' = ad_audit db @ r # rs \<and> ar_event r = lit ''query.authorization''
    \<and> ar_outcome r = lit ''allow'' \<and> ar_request r = Some (request_id_of given fresh)"
  using production_gated [OF assms] by (auto simp: can_execute_query_def)

definition demo_service :: "nat \<Rightarrow> nat service_outcome \<times> nat" where
  "demo_service n = (ServiceSucceeded n, n + 1)"

lemma demo_query:
  "fst (query (production_entry demo_auth_env) demo_service 5 (Some (lit ''r'')) [] []
     (Some (lr_context demo_login_result)) demo_logged_in 0) = Inr (ServiceSucceeded 0)"
  by (simp add: query_def authorize_def production_entry_def role_store_def role_authorize_def
      local_rbac_def authorized_scope_def demo_login_result_def allow_def emit_audit_def
      make_audit_event_def strip_def py_isspace_def lit_def persistent_emit_def authorization_record_def
      make_audit_record_def persistent_write_def contains_sensitive_details_def sensitive_key_def
      sensitive_markers_def demo_auth_env_def demo_logged_in_def demo_auth_db_def user_named_def
      sel_first_def demo_user_def audit_row_fits_def request_id_of_def decision_text_def Let_def
      execute_authorized_def demo_service_def)

lemma query_is_gated_witness:
  "\<exists>(db' :: auth_db) c r rs. Some (lr_context demo_login_result) = Some c \<and> \<not> ac_must_change c
    \<and> lit ''query.execute'' \<in> set (ac_permissions c)
    \<and> ad_audit db' = ad_audit demo_logged_in @ r # rs \<and> ar_event r = lit ''query.authorization''
    \<and> ar_outcome r = lit ''allow'' \<and> ar_request r = Some (request_id_of (Some (lit ''r'')) [])"
proof -
  obtain res db' w' where q: "query (production_entry demo_auth_env) demo_service 5 (Some (lit ''r'')) [] []
     (Some (lr_context demo_login_result)) demo_logged_in 0 = (res, db', w')"
    using prod_cases3 by blast
  from demo_query q have "(\<exists>out. res = Inr out) \<or> w' \<noteq> 0" by simp
  from query_is_gated [OF q this] show ?thesis by (rule exI [of _ db'])
qed

text \<open>C9: End to end: a bearer header whose identity gets a query through belongs, at that moment, to a
  session that is neither revoked nor expired, of an active account that has changed its first password
  and holds a role granting \<open>query.execute\<close>.\<close>
theorem query_needs_live_session:
  assumes "authenticate env now header db = Inr (c, db1)"
    and "query (production_entry env) service now given fresh fresh' (Some c) db2 w = (res, db3, w')"
    and "(\<exists>out. res = Inr out) \<or> w' \<noteq> w"
  shows "\<exists>token s u r. bearer_token env header = Some token
    \<and> map_of (ad_sessions db) (e_sha env token) = Some s \<and> ss_revoked s = None
    \<and> now < ss_expires s \<and> now < ss_absolute s
    \<and> map_of (ad_users db) (ss_user s) = Some u \<and> au_active u \<and> \<not> au_must_change u
    \<and> r \<in> set (au_roles u) \<and> (\<exists>ps. map_of (ad_roles db) r = Some ps \<and> lit ''query.execute'' \<in> set ps)"
proof -
  from assms(1) obtain token where t: "bearer_token env header = Some token"
    and a: "authenticate_session env now token db = Inr (c, db1)"
    by (auto simp: authenticate_def split: option.splits sum.splits)
  obtain s u where v: "valid_record db (e_sha env token) now = Inr (s, u)"
    and cu: "context_for_user db (ss_user s) u = Inr c" using authenticate_session_Inr [OF a] .
  from production_gated [OF assms(2,3)] have "can_execute_query c" by auto
  with context_for_user_Inr [OF cu] have "\<not> au_must_change u"
    and "lit ''query.execute'' \<in> set (permissions_of db u)" by (simp_all add: can_execute_query_def)
  then obtain r ps where "r \<in> set (au_roles u)" "map_of (ad_roles db) r = Some ps" "lit ''query.execute'' \<in> set ps"
    unfolding permissions_of_def by (fastforce split: option.splits dest: sym)
  with t valid_record_D [OF v] \<open>\<not> au_must_change u\<close> show ?thesis by blast
qed

lemma query_needs_live_session_witness:
  "\<exists>token s u r. bearer_token demo_auth_env (Some (lit ''bearer tok'')) = Some token
    \<and> map_of (ad_sessions demo_logged_in) (e_sha demo_auth_env token) = Some s \<and> ss_revoked s = None
    \<and> 5 < ss_expires s \<and> 5 < ss_absolute s
    \<and> map_of (ad_users demo_logged_in) (ss_user s) = Some u \<and> au_active u \<and> \<not> au_must_change u
    \<and> r \<in> set (au_roles u)
    \<and> (\<exists>ps. map_of (ad_roles demo_logged_in) r = Some ps \<and> lit ''query.execute'' \<in> set ps)"
proof -
  have "bearer_token demo_auth_env (Some (lit ''bearer tok'')) = Some (lr_token demo_login_result)"
    by (simp add: bearer_token_def partition_space_def demo_auth_env_def demo_login_result_def lit_def
        strip_def py_isspace_def Let_def)
  then have a: "authenticate demo_auth_env 5 (Some (lit ''bearer tok'')) demo_logged_in
    = Inr (lr_context demo_login_result, demo_touched)"
    by (simp add: authenticate_def demo_authenticate)
  obtain res db' w' where q: "query (production_entry demo_auth_env) demo_service 5 (Some (lit ''r'')) [] []
     (Some (lr_context demo_login_result)) demo_logged_in 0 = (res, db', w')"
    using prod_cases3 by blast
  from demo_query q have "(\<exists>out. res = Inr out) \<or> w' \<noteq> 0" by simp
  from query_needs_live_session [OF a q this] show ?thesis .
qed

lemma refuse_closed:
  assumes "\<And>e s. en_emit en e s = None"
  shows "refuse en now True request ctx code reason version s =
    (Some (authorization_failure request AUTHENTICATION_UNAVAILABLE (lit ''AUDIT_SINK_UNAVAILABLE'')), s)"
proof -
  have "emit_audit en now request ctx None allowed reason version s = None" for allowed
    unfolding emit_audit_def by (rule bind_eq_None_conv [THEN iffD2]) (simp add: assms)
  then show ?thesis by (simp add: refuse_def audited_failure_def Let_def)
qed

text \<open>C40: The entry fails closed: when the sink raises (or none is configured), every request is answered
  \<open>AUTHENTICATION_UNAVAILABLE\<close> whatever the identity and the policy store say, the query service is not
  called and nothing is written.\<close>
theorem entry_fails_closed:
  assumes "\<And>e s. en_emit en e s = None"
  shows "query en service now given fresh fresh' ctx s w =
    (Inl (authorization_failure (request_id_of given fresh) AUTHENTICATION_UNAVAILABLE
            (lit ''AUDIT_SINK_UNAVAILABLE'')), s, w)"
proof -
  have "emit_audit en now request (Some c) None allowed reason version s = None" for request c allowed reason version
    unfolding emit_audit_def by (rule bind_eq_None_conv [THEN iffD2]) (simp add: assms)
  then show ?thesis
    by (simp add: query_def authorize_def refuse_closed [OF assms] Let_def
        split: option.splits policy_answer.splits)
qed

lemma entry_fails_closed_witness:
  "query (\<lparr>en_scope = authorized_scope, en_policy = role_store, en_emit = unavailable_emit,
           en_outcome = None\<rparr> :: unit entry) demo_service 5 (Some (lit ''r'')) [] []
     (Some (lr_context demo_login_result)) () 0 =
   (Inl (authorization_failure (request_id_of (Some (lit ''r'')) []) AUTHENTICATION_UNAVAILABLE
           (lit ''AUDIT_SINK_UNAVAILABLE'')), (), 0)"
  by (rule entry_fails_closed) (simp add: unavailable_emit_def)

end
