(* ===== verification/Admin_Users.thy ===== *)
theory Admin_Users
  imports Auth_Properties
begin

text \<open>
  Administration of accounts: \<open>chatbi_control/admin.py\<close> and the bootstrap of
  \<open>chatbi_control/bootstrap.py\<close>. The form and the session of SQLAdmin are parameters: \<open>user_form\<close> holds the
  fields the form sent, \<open>ids\<close> the primary keys of the roles, and \<open>write_form\<close> is the assignment of
  the form's fields to the row that SQLAdmin performs after \<open>on_model_change\<close> has returned.
\<close>

datatype admin_error =
    AdminPolicyError | LastAdminError | BootstrapError | BadPassword | BadUsername | RowGone
  | AdminAudit auth_error

definition fixed_roles :: "pystr list" where
  "fixed_roles = [lit ''admin'', lit ''analyst'']"

definition fixed_permissions :: "pystr list" where
  "fixed_permissions = map lit [''query.execute'', ''admin.users'', ''admin.roles'', ''admin.audit'']"

definition admin_permissions :: "pystr list" where
  "admin_permissions = map lit [''admin.users'', ''admin.roles'', ''admin.audit'']"

definition is_admin_context :: "auth_context \<Rightarrow> bool" where
  "is_admin_context c \<longleftrightarrow> list_ex (\<lambda>p. p \<in> set admin_permissions) (ac_permissions c)"

section \<open>The last administrator\<close>

definition active_admin :: "user_row \<Rightarrow> bool" where
  "active_admin u \<longleftrightarrow> au_active u \<and> lit ''admin'' \<in> set (au_roles u)"

definition validate_user_mutation :: "auth_db \<Rightarrow> int \<Rightarrow> bool \<Rightarrow> pystr list \<Rightarrow> admin_error option" where
  "validate_user_mutation db i active roles =
     (if \<not> set roles \<subseteq> set fixed_roles then Some AdminPolicyError
      else if active \<and> lit ''admin'' \<in> set roles then None
      else if map_of (ad_roles db) (lit ''admin'') = None then Some AdminPolicyError
      else if count_where (\<lambda>k u. active_admin u \<and> k \<noteq> i) (ad_users db) = 0 then Some LastAdminError
      else None)"

definition set_user_roles :: "int \<Rightarrow> pystr list \<Rightarrow> auth_db \<Rightarrow> admin_error + auth_db" where
  "set_user_roles i names db =
     (if \<not> set names \<subseteq> set fixed_roles then Inl AdminPolicyError
      else case map_of (ad_users db) i of
        None \<Rightarrow> Inl AdminPolicyError
      | Some u \<Rightarrow>
          (let roles = map fst (filter (\<lambda>(n, _). n \<in> set names) (ad_roles db))
           in case validate_user_mutation db i (au_active u) roles of
                Some e \<Rightarrow> Inl e
              | None \<Rightarrow> Inr (set_user i (\<lambda>u. u\<lparr>au_roles := roles\<rparr>) db)))"

section \<open>The user form\<close>

datatype form_value = FormRole pystr | FormInt int | FormText

record user_form =
  fm_username :: "pystr option"
  fm_password :: "pystr option"
  fm_active :: "bool option"
  fm_must_change :: "bool option"
  fm_roles :: "form_value list option"

text \<open>The form after \<open>on_model_change\<close>: the password is a hash and the roles are resolved.\<close>

record form_data =
  fd_username :: "pystr option"
  fd_hash :: "pystr option"
  fd_active :: "bool option"
  fd_must_change :: "bool option"
  fd_roles :: "pystr list option"

definition resolve_roles :: "(int \<times> pystr) list \<Rightarrow> form_value list option \<Rightarrow> pystr list \<Rightarrow> admin_error + pystr list" where
  "resolve_roles ids raw current =
     (case raw of
        None \<Rightarrow> Inr current
      | Some [] \<Rightarrow> Inr []
      | Some values \<Rightarrow>
          if list_all (\<lambda>v. \<exists>n. v = FormRole n) values
          then Inr (map (\<lambda>v. case v of FormRole n \<Rightarrow> n | _ \<Rightarrow> []) values)
          else if list_ex (\<lambda>v. case v of FormInt _ \<Rightarrow> False | _ \<Rightarrow> True) values then Inl AdminPolicyError
          else (let wanted = map (\<lambda>v. case v of FormInt k \<Rightarrow> k | _ \<Rightarrow> 0) values;
                    roles = filter (\<lambda>(k, n). k \<in> set wanted) ids
                in if length roles \<noteq> length (remdups wanted) then Inl AdminPolicyError
                   else Inr (map snd roles)))"

definition form_username :: "auth_env \<Rightarrow> user_form \<Rightarrow> admin_error + pystr option" where
  "form_username env fm =
     (case fm_username fm of
        None \<Rightarrow> Inr None
      | Some n \<Rightarrow> (case normalize_username env n of None \<Rightarrow> Inl BadUsername | Some m \<Rightarrow> Inr (Some m)))"

definition given_password :: "user_form \<Rightarrow> pystr option" where
  "given_password fm = (case fm_password fm of None \<Rightarrow> None | Some p \<Rightarrow> if p = [] then None else Some p)"

definition form_hash :: "auth_env \<Rightarrow> pystr \<Rightarrow> user_form \<Rightarrow> admin_error + pystr option" where
  "form_hash env salt fm =
     (case given_password fm of
        None \<Rightarrow> Inr None
      | Some p \<Rightarrow> (case hash_password env salt p of Inl _ \<Rightarrow> Inl BadPassword | Inr h \<Rightarrow> Inr (Some h)))"

definition user_event :: "string \<Rightarrow> int \<Rightarrow> int option \<Rightarrow> string \<Rightarrow> audit_record" where
  "user_event event i actor reason = success_record event ''user'' (int_text i) None reason actor"

definition change_events ::
  "int \<Rightarrow> int option \<Rightarrow> user_row \<Rightarrow> bool \<Rightarrow> pystr option \<Rightarrow> bool \<Rightarrow> pystr list \<Rightarrow> audit_record list" where
  "change_events i actor u active h roles_given roles =
     (if active = au_active u then []
      else if active then [user_event ''user.enable'' i actor ''USER_ENABLED'']
      else [user_event ''user.disable'' i actor ''USER_DISABLED''])
     @ (if h = None then [] else [user_event ''auth.password_reset'' i actor ''PASSWORD_RESET''])
     @ (if roles_given \<and> set roles \<noteq> set (au_roles u)
        then [user_event ''user.roles_update'' i actor ''ROLES_UPDATED''] else [])"

text \<open>The branch of \<open>on_model_change\<close> for a row that exists: the data to write, the audit records
  marked on the row, and the database with the sessions it revoked.\<close>

definition on_user_change ::
  "auth_env \<Rightarrow> int \<Rightarrow> (int \<times> pystr) list \<Rightarrow> pystr \<Rightarrow> int option \<Rightarrow> int \<Rightarrow> user_form \<Rightarrow> auth_db
   \<Rightarrow> admin_error + (form_data \<times> audit_record list \<times> auth_db)" where
  "on_user_change env now ids salt actor i fm db =
     bindR (form_username env fm) (\<lambda>name.
     bindR (form_hash env salt fm) (\<lambda>h.
       case map_of (ad_users db) i of
         None \<Rightarrow> Inl RowGone
       | Some u \<Rightarrow>
           bindR (resolve_roles ids (fm_roles fm) (au_roles u)) (\<lambda>roles.
             let active = (case fm_active fm of None \<Rightarrow> au_active u | Some b \<Rightarrow> b)
             in case validate_user_mutation db i active roles of
                  Some e \<Rightarrow> Inl e
                | None \<Rightarrow>
                    Inr (\<lparr>fd_username = name, fd_hash = h, fd_active = fm_active fm,
                          fd_must_change = (if h = None then fm_must_change fm else Some True),
                          fd_roles = (if fm_roles fm = None then None else Some roles)\<rparr>,
                         change_events i actor u active h (fm_roles fm \<noteq> None) roles,
                         (if \<not> active \<or> h \<noteq> None then revoke_user_sessions i now db else db)))))"

definition write_form :: "form_data \<Rightarrow> user_row \<Rightarrow> user_row" where
  "write_form d u =
     u\<lparr>au_username := (case fd_username d of None \<Rightarrow> au_username u | Some n \<Rightarrow> n),
       au_hash := (case fd_hash d of None \<Rightarrow> au_hash u | Some h \<Rightarrow> h),
       au_active := (case fd_active d of None \<Rightarrow> au_active u | Some b \<Rightarrow> b),
       au_must_change := (case fd_must_change d of None \<Rightarrow> au_must_change u | Some b \<Rightarrow> b),
       au_roles := (case fd_roles d of None \<Rightarrow> au_roles u | Some rs \<Rightarrow> rs)\<rparr>"

text \<open>\<open>_write_marked_admin_audit\<close>: before the flush each marked record goes to the sink.\<close>

fun write_marked :: "auth_env \<Rightarrow> sink \<Rightarrow> audit_record list \<Rightarrow> auth_db \<Rightarrow> admin_error + auth_db" where
  "write_marked env sk [] db = Inr db"
| "write_marked env sk (r # rs) db =
     (case audit env sk r db of Inl e \<Rightarrow> Inl (AdminAudit e) | Inr db' \<Rightarrow> write_marked env sk rs db')"

definition edit_user ::
  "auth_env \<Rightarrow> sink \<Rightarrow> int \<Rightarrow> (int \<times> pystr) list \<Rightarrow> pystr \<Rightarrow> int option \<Rightarrow> int \<Rightarrow> user_form \<Rightarrow> auth_db
   \<Rightarrow> admin_error + auth_db" where
  "edit_user env sk now ids salt actor i fm db =
     bindR (on_user_change env now ids salt actor i fm db) (\<lambda>(d, events, db').
       write_marked env sk events (set_user i (write_form d) db'))"

definition new_user_row :: "pystr \<Rightarrow> pystr \<Rightarrow> bool \<Rightarrow> int \<Rightarrow> pystr list \<Rightarrow> user_row" where
  "new_user_row name h active now roles =
     \<lparr>au_username = name, au_hash = h, au_active = active, au_must_change = True, au_failed = 0,
      au_locked_until = None, au_updated = now, au_roles = roles\<rparr>"

definition insert_user :: "int \<Rightarrow> user_row \<Rightarrow> auth_db \<Rightarrow> admin_error + auth_db" where
  "insert_user i u db =
     (case insert_row (\<lambda>u u'. au_username u = au_username u') i u (ad_users db) of
        None \<Rightarrow> Inl (AdminAudit DatabaseError)
      | Some us \<Rightarrow> Inr (db\<lparr>ad_users := us\<rparr>))"

definition create_user ::
  "auth_env \<Rightarrow> sink \<Rightarrow> (int \<times> pystr) list \<Rightarrow> pystr \<Rightarrow> int option \<Rightarrow> pystr \<Rightarrow> int \<Rightarrow> int \<Rightarrow> user_form \<Rightarrow> auth_db
   \<Rightarrow> admin_error + auth_db" where
  "create_user env sk ids salt actor request now i fm db =
     bindR (form_username env fm) (\<lambda>name.
     bindR (form_hash env salt fm) (\<lambda>h.
       case name of
         None \<Rightarrow> Inl AdminPolicyError
       | Some n \<Rightarrow>
          (case h of
             None \<Rightarrow> Inl AdminPolicyError
           | Some h \<Rightarrow>
               bindR (resolve_roles ids (fm_roles fm) []) (\<lambda>roles.
               bindR (insert_user i (new_user_row n h
                        (case fm_active fm of None \<Rightarrow> True | Some b \<Rightarrow> b) now roles) db) (\<lambda>db'.
                 write_marked env sk
                   [success_record ''user.create'' ''user'' n (Some request) ''USER_CREATED'' actor] db')))))"

section \<open>Bootstrap\<close>

definition put_role :: "pystr \<Rightarrow> pystr list \<Rightarrow> (pystr, pystr list) table \<Rightarrow> (pystr, pystr list) table" where
  "put_role n ps t =
     (if map_of t n = None then t @ [(n, ps)] else upd_where (\<lambda>k _. k = n) (\<lambda>_. ps) t)"

definition seed_rbac :: "auth_db \<Rightarrow> auth_db" where
  "seed_rbac db =
     db\<lparr>ad_roles := put_role (lit ''analyst'') [lit ''query.execute'']
                     (put_role (lit ''admin'') fixed_permissions (ad_roles db))\<rparr>"

definition create_first_admin ::
  "auth_env \<Rightarrow> int \<Rightarrow> pystr \<Rightarrow> int \<Rightarrow> pystr \<Rightarrow> pystr \<Rightarrow> auth_db \<Rightarrow> admin_error + auth_db" where
  "create_first_admin env now salt i username password db =
     (case normalize_username env username of
        None \<Rightarrow> Inl BadUsername
      | Some n \<Rightarrow>
          if sel_first (\<lambda>_ u. lit ''admin'' \<in> set (au_roles u)) (ad_users db) \<noteq> None
          then Inl BootstrapError
          else (case hash_password env salt password of
             Inl _ \<Rightarrow> Inl BadPassword
           | Inr h \<Rightarrow> insert_user i (new_user_row n h True now [lit ''admin'']) (seed_rbac db)))"

section \<open>The administration's own sign-in\<close>

datatype admin_reply = ReplyNo | ReplyChangePassword | ReplyForbidden | ReplyYes

text \<open>The cookie holds the token; the replies with status 403 leave it alone.\<close>

definition admin_login ::
  "auth_env \<Rightarrow> sink \<Rightarrow> int \<Rightarrow> pystr option \<Rightarrow> pystr \<Rightarrow> pystr \<Rightarrow> pystr option \<Rightarrow> auth_db
   \<Rightarrow> (auth_error + (admin_reply \<times> pystr option)) \<times> auth_db" where
  "admin_login env sk now fresh username password cookie db =
     (case login env sk now fresh username password None db of
        (Inl AuthenticationFailed, db') \<Rightarrow> (Inr (ReplyNo, cookie), db')
      | (Inl e, db') \<Rightarrow> (Inl e, db')
      | (Inr r, db') \<Rightarrow>
          (if ac_must_change (lr_context r) then (Inr (ReplyChangePassword, cookie), db')
           else if \<not> is_admin_context (lr_context r) then (Inr (ReplyForbidden, cookie), db')
           else (Inr (ReplyYes, Some (lr_token r)), db')))"

definition admin_authenticate ::
  "auth_env \<Rightarrow> int \<Rightarrow> pystr option \<Rightarrow> auth_db
   \<Rightarrow> auth_error + (admin_reply \<times> pystr option \<times> auth_context option \<times> auth_db)" where
  "admin_authenticate env now cookie db =
     (case cookie of
        None \<Rightarrow> Inr (ReplyNo, cookie, None, db)
      | Some token \<Rightarrow>
          if token = [] then Inr (ReplyNo, cookie, None, db)
          else (case authenticate_session env now token db of
             Inl SessionExpired \<Rightarrow> Inr (ReplyNo, None, None, db)
           | Inl e \<Rightarrow> Inl e
           | Inr (c, db') \<Rightarrow>
               if ac_must_change c then Inr (ReplyChangePassword, cookie, None, db')
               else if \<not> is_admin_context c then Inr (ReplyForbidden, cookie, None, db')
               else Inr (ReplyYes, cookie, Some c, db')))"

definition admin_logout ::
  "auth_env \<Rightarrow> sink \<Rightarrow> int \<Rightarrow> pystr option \<Rightarrow> auth_db \<Rightarrow> auth_error + (pystr option \<times> auth_db)" where
  "admin_logout env sk now cookie db =
     (case cookie of
        None \<Rightarrow> Inr (None, db)
      | Some token \<Rightarrow>
          if token = [] then Inr (None, db)
          else (case logout env sk now token None db of
             Inl SessionExpired \<Rightarrow> Inr (None, db)
           | Inl e \<Rightarrow> Inl e
           | Inr (_, db') \<Rightarrow> Inr (None, db')))"

end
