(* ===== verification/Admin_Properties.thy ===== *)
theory Admin_Properties
  imports Admin_Users
begin

text \<open>
  The administration never loses its last administrator. Every operation changes at most one row, so
  the proofs ask two questions of it: whose row, and is there an active administrator besides.
\<close>

definition has_admin :: "auth_db \<Rightarrow> bool" where
  "has_admin db \<longleftrightarrow> keys_ok (ad_users db) \<and> (\<exists>i u. map_of (ad_users db) i = Some u \<and> active_admin u)"

lemma has_admin_cong: "ad_users db' = ad_users db \<Longrightarrow> has_admin db' = has_admin db"
  by (simp add: has_admin_def)

lemma has_adminE:
  assumes "has_admin db"
  obtains i u where "keys_ok (ad_users db)" "map_of (ad_users db) i = Some u" "active_admin u"
  using assms unfolding has_admin_def by blast

lemma count_where_pos: "count_where P t \<noteq> 0 \<Longrightarrow> \<exists>k r. (k, r) \<in> set t \<and> P k r"
  by (auto simp: count_where_def filter_empty_conv)

lemma validated_other:
  assumes "validate_user_mutation db i active roles = None"
    and "\<not> (active \<and> lit ''admin'' \<in> set roles)" and "keys_ok (ad_users db)"
  shows "\<exists>k u. k \<noteq> i \<and> map_of (ad_users db) k = Some u \<and> active_admin u"
proof -
  from assms(1,2) have "count_where (\<lambda>k u. active_admin u \<and> k \<noteq> i) (ad_users db) \<noteq> 0"
    by (auto simp: validate_user_mutation_def split: if_splits)
  then obtain k u where "(k, u) \<in> set (ad_users db)" "active_admin u" "k \<noteq> i"
    using count_where_pos by blast
  then show ?thesis using map_of_keys_ok [OF assms(3)] by metis
qed

text \<open>A validated change of row \<open>i\<close> keeps an administrator: either the row itself or another one.\<close>

lemma validated_keeps_admin:
  assumes "validate_user_mutation db i active roles = None" and "has_admin db"
    and "map_of (ad_users db) i = Some u" and "au_active (f u) = active" and "set (au_roles (f u)) = set roles"
  shows "has_admin (set_user i f db)"
proof (cases "active \<and> lit ''admin'' \<in> set roles")
  case True
  with assms(2-) show ?thesis
    by (auto simp: has_admin_def table_simps active_admin_def)
next
  case False
  from assms(2) have k: "keys_ok (ad_users db)" by (simp add: has_admin_def)
  from validated_other [OF assms(1) False k] k show ?thesis
    by (auto simp: has_admin_def table_simps)
qed

lemma write_marked_users: "write_marked env sk rs db = Inr db' \<Longrightarrow> ad_users db' = ad_users db"
  by (induction rs arbitrary: db) (auto split: sum.splits dest!: audit_audited audited_fields)

lemma set_user_roles_keeps:
  assumes "set_user_roles i names db = Inr db'" and "has_admin db"
  shows "has_admin db'"
proof -
  from assms(1) obtain u roles where "map_of (ad_users db) i = Some u"
    and "validate_user_mutation db i (au_active u) roles = None"
    and "db' = set_user i (\<lambda>u. u\<lparr>au_roles := roles\<rparr>) db"
    by (auto simp: set_user_roles_def Let_def split: if_splits option.splits)
  with assms(2) show ?thesis by (auto intro: validated_keeps_admin)
qed

lemma edit_user_keeps:
  assumes "edit_user env sk now ids salt actor i fm db = Inr db'" and "has_admin db"
  shows "has_admin db'"
proof -
  from assms(1) obtain d events db1 where e: "on_user_change env now ids salt actor i fm db = Inr (d, events, db1)"
    and w: "write_marked env sk events (set_user i (write_form d) db1) = Inr db'"
    by (auto simp: edit_user_def bindR_Inr_iff)
  from e obtain u roles active where u: "map_of (ad_users db) i = Some u"
    and r: "resolve_roles ids (fm_roles fm) (au_roles u) = Inr roles"
    and v: "validate_user_mutation db i active roles = None"
    and d: "fd_active d = fm_active fm" "fd_roles d = (if fm_roles fm = None then None else Some roles)"
    and active: "active = (case fm_active fm of None \<Rightarrow> au_active u | Some b \<Rightarrow> b)"
    and db1: "ad_users db1 = ad_users db"
    unfolding on_user_change_def bindR_Inr_iff Let_def
    by (elim exE conjE) (auto simp: bindR_Inr_iff split: option.split_asm)
  from r have "fm_roles fm = None \<Longrightarrow> roles = au_roles u" by (simp add: resolve_roles_def)
  then have "has_admin (set_user i (write_form d) db)"
    by (intro validated_keeps_admin [OF v assms(2) u])
      (auto simp: write_form_def d active split: option.splits)
  moreover have "ad_users db' = ad_users (set_user i (write_form d) db)"
    using write_marked_users [OF w] by (simp add: set_user_def db1)
  ultimately show ?thesis using has_admin_cong by blast
qed

lemma insert_user_Inr:
  assumes "insert_user i u db = Inr db'"
  obtains "map_of (ad_users db') = (map_of (ad_users db))(i \<mapsto> u)" "map_of (ad_users db) i = None"
    "keys_ok (ad_users db) \<Longrightarrow> keys_ok (ad_users db')" "ad_roles db' = ad_roles db"
proof -
  from assms obtain us where "insert_row (\<lambda>u u'. au_username u = au_username u') i u (ad_users db) = Some us"
    and db': "db' = db\<lparr>ad_users := us\<rparr>"
    by (auto simp: insert_user_def split: option.splits)
  from that insert_row_Some(1-3) [OF this(1)] show ?thesis by (simp add: db')
qed

lemma insert_user_keeps:
  assumes "insert_user i u db = Inr db'" and "has_admin db"
  shows "has_admin db'"
proof -
  from assms(2) obtain k v where "keys_ok (ad_users db)" "map_of (ad_users db) k = Some v" "active_admin v"
    by (rule has_adminE)
  from insert_user_Inr [OF assms(1)] have "keys_ok (ad_users db')" "map_of (ad_users db') k = Some v"
    using \<open>keys_ok (ad_users db)\<close> \<open>map_of (ad_users db) k = Some v\<close>
    by (metis, metis fun_upd_other option.distinct(1))
  with \<open>active_admin v\<close> show ?thesis unfolding has_admin_def by blast
qed

lemma create_user_keeps:
  assumes "create_user env sk ids salt actor request now i fm db = Inr db'" and "has_admin db"
  shows "has_admin db'"
proof -
  from assms(1) obtain u db1 rs where "insert_user i u db = Inr db1" and "write_marked env sk rs db1 = Inr db'"
    unfolding create_user_def bindR_Inr_iff
    by (elim exE conjE) (auto simp: bindR_Inr_iff simp del: write_marked.simps split: option.split_asm)
  then show ?thesis using insert_user_keeps assms(2) write_marked_users has_admin_cong by metis
qed

lemma active_admin_calm:
  assumes "effect_ok now db e" and "calm e" and "active_admin u"
  shows "active_admin (user_update e k u)"
proof -
  have "au_roles (user_update e k u) = au_roles u"
  proof (cases e)
    case (UserOnly i f)
    with assms(1) have "identity (f u) = identity u" by (auto intro: user_change_identity)
    then show ?thesis by (simp add: UserOnly identity_def)
  next
    case (Revoked i f)
    with assms(1) have "identity (f u) = identity u" by (auto intro: user_change_identity)
    then show ?thesis by (simp add: Revoked identity_def)
  qed simp_all
  with assms(2,3) show ?thesis by (simp add: active_admin_def calm_def)
qed

lemma user_update_users:
  "map_of (ad_users (apply_effect now e db)) k = map_option (user_update e k) (map_of (ad_users db) k)"
  by (cases e) (simp_all add: table_simps option.map_id)

lemma calm_step_keeps:
  assumes "calm_step sk now db db'" and "has_admin db"
  shows "has_admin db'"
proof -
  from assms(1) obtain e where e: "effect_step sk now db db' e" and c: "calm e"
    unfolding calm_step_def by blast
  from effect_step_fields [OF e] have f: "ad_users db' = ad_users (apply_effect now e db)"
    and ok: "effect_ok now db e" by simp_all
  from assms(2) obtain i u where "keys_ok (ad_users db)" "map_of (ad_users db) i = Some u" "active_admin u"
    by (rule has_adminE)
  moreover have "keys_ok (ad_users (apply_effect now e db)) = keys_ok (ad_users db)"
    by (cases e) simp_all
  ultimately show ?thesis
    using active_admin_calm [OF ok c] user_update_users [of now e db i] by (auto simp: has_admin_def f)
qed

text \<open>The operations on accounts: the administration's, and every one of the account service but
  \<open>disable_user\<close>, which does not look at the remaining administrators.\<close>

inductive admin_step :: "auth_env \<Rightarrow> sink \<Rightarrow> int \<Rightarrow> auth_db \<Rightarrow> auth_db \<Rightarrow> bool" for env sk now where
  roles: "set_user_roles i names db = Inr db' \<Longrightarrow> admin_step env sk now db db'"
| edit: "edit_user env sk now ids salt actor i fm db = Inr db' \<Longrightarrow> admin_step env sk now db db'"
| create: "create_user env sk ids salt actor request now i fm db = Inr db' \<Longrightarrow> admin_step env sk now db db'"
| account: "auth_step env sk now db db' \<Longrightarrow>
    \<nexists>i actor request. disable_user env sk now i actor request db = Inr db' \<Longrightarrow> admin_step env sk now db db'"

inductive admin_run :: "auth_env \<Rightarrow> sink \<Rightarrow> auth_db \<Rightarrow> auth_db \<Rightarrow> bool" for env sk where
  stay: "admin_run env sk db db"
| step: "admin_run env sk db db' \<Longrightarrow> admin_step env sk now db' db'' \<Longrightarrow> admin_run env sk db db''"

lemma admin_step_keeps: "admin_step env sk now db db' \<Longrightarrow> has_admin db \<Longrightarrow> has_admin db'"
proof (induction rule: admin_step.induct)
  case (account db db')
  then show ?case using step_calm calm_step_keeps by blast
qed (blast intro: set_user_roles_keeps edit_user_keeps create_user_keeps)+

lemma admin_run_keeps: "admin_run env sk db db' \<Longrightarrow> has_admin db \<Longrightarrow> has_admin db'"
  by (induction rule: admin_run.induct) (auto intro: admin_step_keeps)

text \<open>No sequence of role changes, edits of a user in the administration, new users, logins, password
  changes or recoveries leaves the system without an active administrator.\<close>
theorem last_admin_survives:
  assumes "admin_run env sk db db'" and "keys_ok (ad_users db)"
    and "map_of (ad_users db) i = Some u" and "au_active u" and "lit ''admin'' \<in> set (au_roles u)"
  shows "\<exists>i u. map_of (ad_users db') i = Some u \<and> au_active u \<and> lit ''admin'' \<in> set (au_roles u)"
proof -
  from assms have "has_admin db" by (auto simp: has_admin_def active_admin_def)
  from admin_run_keeps [OF assms(1) this] show ?thesis by (auto simp: has_admin_def active_admin_def)
qed

definition demo_two_users :: auth_db where
  "demo_two_users = demo_auth_db\<lparr>ad_users := [(1, demo_user), (2, demo_user\<lparr>au_username := lit ''bob''\<rparr>)]\<rparr>"

definition demo_demoted :: auth_db where
  "demo_demoted = set_user 1 (\<lambda>u. u\<lparr>au_roles := [lit ''analyst'']\<rparr>) demo_two_users"

lemma last_admin_survives_witness:
  "\<exists>i u. map_of (ad_users demo_demoted) i = Some u \<and> au_active u \<and> lit ''admin'' \<in> set (au_roles u)"
proof -
  have "set_user_roles 1 [lit ''analyst''] demo_two_users = Inr demo_demoted"
    by (simp add: set_user_roles_def demo_two_users_def demo_demoted_def demo_auth_db_def demo_user_def
        fixed_roles_def validate_user_mutation_def count_where_def active_admin_def lit_def Let_def)
  then have "admin_run demo_auth_env NoSink demo_two_users demo_demoted"
    by (intro admin_run.step [OF admin_run.stay] admin_step.roles)
  then show ?thesis
    by (rule last_admin_survives [of _ _ _ _ 1 demo_user])
      (simp_all add: demo_two_users_def demo_user_def demo_auth_db_def keys_ok_def)
qed

section \<open>Bootstrap\<close>

lemma map_of_put_role: "map_of (put_role n ps t) = (map_of t)(n \<mapsto> ps)"
proof (cases "map_of t n")
  case None
  then show ?thesis by (auto simp: put_role_def fun_eq_iff map_of_snoc simp del: map_of_append split: option.splits)
qed (simp add: put_role_def map_of_upd_key)

lemma seeded_roles:
  "map_of (ad_roles (seed_rbac db)) (lit ''admin'') = Some fixed_permissions"
  "map_of (ad_roles (seed_rbac db)) (lit ''analyst'') = Some [lit ''query.execute'']"
  by (simp_all add: seed_rbac_def map_of_put_role lit_def)

lemma create_first_admin_Inr:
  assumes "create_first_admin env now salt i username password db = Inr db'" and "keys_ok (ad_users db)"
  shows "has_admin db'" and "ad_roles db' = ad_roles (seed_rbac db)"
proof -
  from assms(1) obtain n h where
    ins: "insert_user i (new_user_row n h True now [lit ''admin'']) (seed_rbac db) = Inr db'"
    by (auto simp: create_first_admin_def split: option.splits if_splits sum.splits)
  moreover have "ad_users (seed_rbac db) = ad_users db" by (simp add: seed_rbac_def)
  ultimately show "has_admin db'" and "ad_roles db' = ad_roles (seed_rbac db)"
    using assms(2) by (auto elim!: insert_user_Inr simp: has_admin_def active_admin_def new_user_row_def)
qed

text \<open>The first administrator is created once: after a successful \<open>create_first_admin\<close> the fixed
  roles carry exactly the fixed permissions, and no later state of the administration accepts another
  \<open>create_first_admin\<close>.\<close>
theorem first_admin_created_once:
  assumes "create_first_admin env now salt i username password db = Inr db1" and "keys_ok (ad_users db)"
    and "admin_run env sk db1 db2"
  shows "map_of (ad_roles db1) (lit ''admin'') = Some fixed_permissions
    \<and> map_of (ad_roles db1) (lit ''analyst'') = Some [lit ''query.execute'']
    \<and> create_first_admin env now' salt' i' username' password' db2 \<in> {Inl BadUsername, Inl BootstrapError}"
proof -
  from admin_run_keeps [OF assms(3) create_first_admin_Inr(1) [OF assms(1,2)]]
  obtain k u where "map_of (ad_users db2) k = Some u" "active_admin u" by (rule has_adminE)
  then have "lit ''admin'' \<in> set (au_roles u)" by (simp add: active_admin_def)
  then have "sel_first (\<lambda>_ u. lit ''admin'' \<in> set (au_roles u)) (ad_users db2) \<noteq> None"
    using sel_first_None_map_of [OF _ \<open>map_of (ad_users db2) k = Some u\<close>] by metis
  then have "create_first_admin env now' salt' i' username' password' db2 \<in> {Inl BadUsername, Inl BootstrapError}"
    by (cases "normalize_username env username'") (simp_all add: create_first_admin_def)
  then show ?thesis
    unfolding create_first_admin_Inr(2) [OF assms(1,2)] using seeded_roles by blast
qed

definition empty_auth_db :: auth_db where
  "empty_auth_db = \<lparr>ad_users = [], ad_roles = [], ad_sessions = [], ad_audit = []\<rparr>"

lemma first_admin_created_once_witness:
  "\<exists>db1. create_first_admin demo_auth_env 0 [] 1 (lit ''ann'') (lit ''a-long-password'') empty_auth_db = Inr db1
    \<and> map_of (ad_roles db1) (lit ''admin'') = Some fixed_permissions
    \<and> map_of (ad_roles db1) (lit ''analyst'') = Some [lit ''query.execute'']
    \<and> create_first_admin demo_auth_env 1 [] 2 (lit ''bob'') (lit ''a-long-password'') db1
        \<in> {Inl BadUsername, Inl BootstrapError}"
proof -
  obtain db1 where c: "create_first_admin demo_auth_env 0 [] 1 (lit ''ann'') (lit ''a-long-password'') empty_auth_db = Inr db1"
    by (simp add: create_first_admin_def empty_auth_db_def normalize_username_def demo_auth_env_def lit_def
        strip_def py_isspace_def sel_first_def hash_password_def validate_password_def
        min_password_length_def insert_row_def insert_user_def seed_rbac_def)
  have "keys_ok (ad_users empty_auth_db)" by (simp add: empty_auth_db_def keys_ok_def)
  from first_admin_created_once [OF c this admin_run.stay] c show ?thesis by blast
qed

end
