(* ===== verification/Account_Properties.thy ===== *)
theory Account_Properties
  imports Admin_Properties
begin

text \<open>
  Accounts and sessions under everything that writes them: the transactions of the account service, the
  user form and the role changes of the administration, and the bootstrap. Whatever runs in between, a
  session keeps its owner and its end, and a revoked one stays revoked.
\<close>

section \<open>Every transaction on accounts\<close>

inductive account_step :: "auth_env \<Rightarrow> sink \<Rightarrow> int \<Rightarrow> auth_db \<Rightarrow> auth_db \<Rightarrow> bool" for env sk now where
  service: "auth_step env sk now db db' \<Longrightarrow> account_step env sk now db db'"
| roles: "set_user_roles i names db = Inr db' \<Longrightarrow> account_step env sk now db db'"
| edit: "edit_user env sk now ids salt actor i fm db = Inr db' \<Longrightarrow> account_step env sk now db db'"
| create: "create_user env sk ids salt actor request now i fm db = Inr db' \<Longrightarrow> account_step env sk now db db'"
| seed: "account_step env sk now db (seed_rbac db)"
| first_admin: "create_first_admin env now salt i username password db = Inr db' \<Longrightarrow> account_step env sk now db db'"

inductive account_run :: "auth_env \<Rightarrow> sink \<Rightarrow> auth_db \<Rightarrow> auth_db \<Rightarrow> bool" for env sk where
  stay: "account_run env sk db db"
| step: "account_run env sk db db' \<Longrightarrow> account_step env sk now db' db'' \<Longrightarrow> account_run env sk db db''"

text \<open>No session disappears, changes its owner or its end, or comes back from a revocation.\<close>

definition sessions_evolve :: "auth_db \<Rightarrow> auth_db \<Rightarrow> bool" where
  "sessions_evolve db db' \<longleftrightarrow>
     (\<forall>th s. map_of (ad_sessions db) th = Some s \<longrightarrow>
        (\<exists>s'. map_of (ad_sessions db') th = Some s' \<and> session_evolves s s' \<and> (session_ok s \<longrightarrow> session_ok s')))"

lemma sessions_evolve_same: "ad_sessions db' = ad_sessions db \<Longrightarrow> sessions_evolve db db'"
  by (simp add: sessions_evolve_def)

lemma sessions_evolve_cong: "ad_sessions db'' = ad_sessions db' \<Longrightarrow> sessions_evolve db db'' = sessions_evolve db db'"
  by (simp add: sessions_evolve_def)

lemma sessions_evolve_trans: "sessions_evolve db db' \<Longrightarrow> sessions_evolve db' db'' \<Longrightarrow> sessions_evolve db db''"
  unfolding sessions_evolve_def by (metis session_evolves_trans)

lemma sessions_evolveE:
  assumes "sessions_evolve db db'" and "map_of (ad_sessions db) th = Some s"
  obtains s' where "map_of (ad_sessions db') th = Some s'" and "session_evolves s s'"
    and "session_ok s \<Longrightarrow> session_ok s'"
  using assms unfolding sessions_evolve_def by blast

lemma sessions_evolve_revoke: "sessions_evolve db (revoke_user_sessions i now db)"
  by (auto simp: sessions_evolve_def table_simps session_evolves_def)

lemma effect_keeps_session_ok:
  assumes "map_of (ad_sessions (apply_effect now e db)) th = Some s'" and "map_of (ad_sessions db) th = Some s"
    and "session_ok s"
  shows "session_ok s'"
  using assms by (cases e) (auto simp: table_simps touched_ok split: if_splits)

lemma service_sessions:
  assumes "auth_step env sk now db db'"
  shows "sessions_evolve db db'"
proof -
  obtain e where "effect_step sk now db db' e" using step_effect [OF assms] ..
  note f = effect_step_fields [OF this]
  from f have "evolves db (apply_effect now e db)" using effect_ok_evolves by blast
  then have "sessions_evolve db (apply_effect now e db)"
    unfolding sessions_evolve_def using effect_keeps_session_ok evolves_session by metis
  with f show ?thesis using sessions_evolve_cong by blast
qed

lemma write_marked_sessions: "write_marked env sk rs db = Inr db' \<Longrightarrow> ad_sessions db' = ad_sessions db"
  by (induction rs arbitrary: db) (auto split: sum.splits dest!: audit_audited audited_fields)

lemma insert_user_sessions: "insert_user i u db = Inr db' \<Longrightarrow> ad_sessions db' = ad_sessions db"
  by (auto simp: insert_user_def split: option.splits)

lemma on_user_change_sessions:
  assumes "on_user_change env now ids salt actor i fm db = Inr (d, events, db')"
  shows "db' = db \<or> db' = revoke_user_sessions i now db"
    and "given_password fm \<noteq> None \<or> fm_active fm = Some False \<Longrightarrow> db' = revoke_user_sessions i now db"
proof -
  from assms obtain h where h: "form_hash env salt fm = Inr h"
    and db': "db' = db \<and> h = None \<and> fm_active fm \<noteq> Some False \<or> db' = revoke_user_sessions i now db"
    unfolding on_user_change_def bindR_Inr_iff Let_def
    by (elim exE conjE) (auto simp: bindR_Inr_iff split: option.split_asm if_split_asm)
  from h have "given_password fm \<noteq> None \<Longrightarrow> h \<noteq> None"
    by (auto simp: form_hash_def split: option.splits sum.splits)
  with db' show "db' = db \<or> db' = revoke_user_sessions i now db"
    and "given_password fm \<noteq> None \<or> fm_active fm = Some False \<Longrightarrow> db' = revoke_user_sessions i now db"
    by auto
qed

lemma edit_user_sessions:
  assumes "edit_user env sk now ids salt actor i fm db = Inr db'"
  shows "ad_sessions db' = ad_sessions db \<or> ad_sessions db' = ad_sessions (revoke_user_sessions i now db)"
    and "given_password fm \<noteq> None \<or> fm_active fm = Some False \<Longrightarrow>
         ad_sessions db' = ad_sessions (revoke_user_sessions i now db)"
proof -
  from assms obtain d events db1 where e: "on_user_change env now ids salt actor i fm db = Inr (d, events, db1)"
    and "write_marked env sk events (set_user i (write_form d) db1) = Inr db'"
    by (auto simp: edit_user_def bindR_Inr_iff)
  from write_marked_sessions [OF this(2)] have "ad_sessions db' = ad_sessions db1" by simp
  with on_user_change_sessions [OF e] show
    "ad_sessions db' = ad_sessions db \<or> ad_sessions db' = ad_sessions (revoke_user_sessions i now db)" and
    "given_password fm \<noteq> None \<or> fm_active fm = Some False \<Longrightarrow>
         ad_sessions db' = ad_sessions (revoke_user_sessions i now db)" by auto
qed

lemma create_user_sessions:
  assumes "create_user env sk ids salt actor request now i fm db = Inr db'"
  shows "ad_sessions db' = ad_sessions db"
proof -
  from assms obtain u db1 rs where "insert_user i u db = Inr db1" and "write_marked env sk rs db1 = Inr db'"
    unfolding create_user_def bindR_Inr_iff
    by (elim exE conjE) (auto simp: bindR_Inr_iff simp del: write_marked.simps split: option.split_asm)
  then show ?thesis using insert_user_sessions write_marked_sessions by metis
qed

lemma step_sessions: "account_step env sk now db db' \<Longrightarrow> sessions_evolve db db'"
proof (induction rule: account_step.induct)
  case (service db db')
  then show ?case by (rule service_sessions)
next
  case (roles i names db db')
  then have "ad_sessions db' = ad_sessions db"
    by (auto simp: set_user_roles_def Let_def split: if_splits option.splits)
  then show ?case by (rule sessions_evolve_same)
next
  case (edit ids salt actor i fm db db')
  from edit_user_sessions(1) [OF this] show ?case
    using sessions_evolve_same sessions_evolve_revoke sessions_evolve_cong by metis
next
  case (create ids salt actor request i fm db db')
  then show ?case by (intro sessions_evolve_same create_user_sessions)
next
  case (seed db)
  show ?case by (rule sessions_evolve_same) (simp add: seed_rbac_def)
next
  case (first_admin salt i username password db db')
  then have "ad_sessions db' = ad_sessions (seed_rbac db)"
    by (auto simp: create_first_admin_def dest: insert_user_sessions split: option.splits if_splits sum.splits)
  then show ?case by (intro sessions_evolve_same) (simp add: seed_rbac_def)
qed

lemma run_sessions: "account_run env sk db db' \<Longrightarrow> sessions_evolve db db'"
  by (induction rule: account_run.induct) (blast intro: sessions_evolve_same sessions_evolve_trans step_sessions)+

lemma revoked_for_good:
  assumes "account_run env sk db db'" and "map_of (ad_sessions db) (e_sha env token) = Some s"
    and "ss_revoked s \<noteq> None"
  shows "\<not> (\<exists>x. authenticate_session env now token db' = Inr x)"
proof -
  obtain s' where "map_of (ad_sessions db') (e_sha env token) = Some s'" and "session_evolves s s'"
    using sessions_evolveE [OF run_sessions [OF assms(1)] assms(2)] .
  with assms(3) show ?thesis
    by (intro revoked_refused) (auto simp: valid_record_def session_evolves_def)
qed

section \<open>Life of a session\<close>

text \<open>C10: A token handed out by a successful \<open>login\<close> is accepted by \<open>authenticate_session\<close> only
  within eight hours of that login and within thirty minutes of the session's last use, and it
  always speaks for the account that logged in, whatever transactions happened in between: logins, uses
  and changes by the account service, role changes, edits and creations of users in the administration,
  and the bootstrap.\<close>
theorem session_lifetime:
  assumes log: "login env sk t0 fresh username password request db = (Inr r, db1)"
    and run: "account_run env sk db1 db2"
    and auth: "authenticate_session env now (lr_token r) db2 = Inr (c, db3)"
  shows "now < t0 + absolute_ttl \<and> ac_user c = ac_user (lr_context r)
    \<and> (\<exists>s. map_of (ad_sessions db2) (e_sha env (lr_token r)) = Some s \<and> ss_revoked s = None
          \<and> now < ss_last_seen s + idle_ttl)"
proof -
  obtain i where i: "map_of (ad_sessions db1) (e_sha env (lr_token r)) = Some (new_session i t0)"
    and c: "ac_user (lr_context r) = Some i" using login_Inr [OF log] .
  obtain s where s: "map_of (ad_sessions db2) (e_sha env (lr_token r)) = Some s"
    and e: "session_evolves (new_session i t0) s" and "session_ok s"
    using sessions_evolveE [OF run_sessions [OF run] i] new_session_ok(1) by metis
  obtain s' u where v: "valid_record db2 (e_sha env (lr_token r)) now = Inr (s', u)"
    and cu: "context_for_user db2 (ss_user s') u = Inr c" using authenticate_session_Inr [OF auth] .
  from valid_record_D [OF v] s have "s' = s" and "ss_revoked s = None" and "now < ss_expires s"
    and "now < ss_absolute s" by simp_all
  with \<open>session_ok s\<close> e s c context_for_user_Inr [OF cu] show ?thesis
    by (auto simp: session_ok_def session_evolves_def new_session_def)
qed

theorem session_lifetime_witness:
  "(5::int) < 0 + absolute_ttl \<and> ac_user (lr_context demo_login_result) = ac_user (lr_context demo_login_result)
   \<and> (\<exists>s. map_of (ad_sessions demo_logged_in) (e_sha demo_auth_env (lr_token demo_login_result)) = Some s
        \<and> ss_revoked s = None \<and> 5 < ss_last_seen s + idle_ttl)"
  by (rule session_lifetime [OF demo_login account_run.stay demo_authenticate])

section \<open>Cutting sessions\<close>

text \<open>
  The operations that cut every session of an account: a password change by its owner, the recovery from
  the command line, an edit in the administration that sets a password or disables the account, and the
  account service's own reset and disabling.
\<close>

inductive cuts_sessions :: "auth_env \<Rightarrow> sink \<Rightarrow> int \<Rightarrow> int \<Rightarrow> auth_db \<Rightarrow> auth_db \<Rightarrow> bool" for env sk now where
  changed: "change_password env sk now salt token current new request seen db = Inr db' \<Longrightarrow>
     map_of (ad_sessions db) (e_sha env token) = Some s \<Longrightarrow> ss_user s = i \<Longrightarrow> cuts_sessions env sk now i db db'"
| recovered: "recover_admin env sk now salt username new environment project db = Inr db' \<Longrightarrow>
     normalize_username env username = Some name \<Longrightarrow> user_named db name = Some (i, u) \<Longrightarrow>
     cuts_sessions env sk now i db db'"
| edited: "edit_user env sk now ids salt actor i fm db = Inr db' \<Longrightarrow>
     given_password fm \<noteq> None \<or> fm_active fm = Some False \<Longrightarrow> cuts_sessions env sk now i db db'"
| reset: "reset_password env sk now salt i new actor request db = Inr db' \<Longrightarrow> cuts_sessions env sk now i db db'"
| disabled: "disable_user env sk now i actor request db = Inr db' \<Longrightarrow> cuts_sessions env sk now i db db'"

lemma audited_revoke:
  assumes "audit env sk r (revoke_user_sessions i now (set_user i f db)) = Inr db'"
  shows "ad_sessions db' = ad_sessions (revoke_user_sessions i now db)"
  using audited_fields [OF audit_audited [OF assms]] by (simp add: revoke_user_sessions_def set_user_def)

lemma cuts_sessions_effect:
  assumes "cuts_sessions env sk now i db db'"
  shows "ad_sessions db' = ad_sessions (revoke_user_sessions i now db)"
  using assms
proof cases
  case (changed salt token current new request seen s)
  then obtain h r where "audit env sk r (revoke_user_sessions i now (set_user i (new_password h False now) db)) = Inr db'"
    by (auto simp: change_password_def bindR_Inr_iff split: if_splits
        dest!: hash_token_or_raise_Inr valid_record_D(1))
  then show ?thesis by (rule audited_revoke)
next
  case (recovered salt username new environment project name u)
  then obtain h r where "audit env sk r (revoke_user_sessions i now (set_user i (new_password h True now) db)) = Inr db'"
    by (auto simp: recover_admin_def bindR_Inr_iff split: if_splits)
  then show ?thesis by (rule audited_revoke)
next
  case (edited ids salt actor fm)
  then show ?thesis by (intro edit_user_sessions(2))
next
  case (reset salt new actor request)
  then obtain h r where "audit env sk r (revoke_user_sessions i now (set_user i (new_password h True now) db)) = Inr db'"
    by (auto simp: reset_password_def bindR_Inr_iff split: if_splits)
  then show ?thesis by (rule audited_revoke)
next
  case (disabled actor request)
  then obtain r where "audit env sk r (revoke_user_sessions i now
      (set_user i (\<lambda>u. u\<lparr>au_active := False, au_updated := now\<rparr>) db)) = Inr db'"
    by (auto simp: disable_user_def split: if_splits)
  then show ?thesis by (rule audited_revoke)
qed

text \<open>C11: Changing or recovering a password, an edit in the administration that sets a password or
  disables an account, and the account service's own reset and disabling cut off every session
  the account had: no token whose session existed before is accepted in any later state, whatever the
  account service, the administration and the bootstrap do afterwards.\<close>
theorem credential_change_cuts_sessions:
  assumes cut: "cuts_sessions env sk now i db db1"
    and s: "map_of (ad_sessions db) (e_sha env token) = Some s" "ss_user s = i"
    and run: "account_run env sk db1 db2"
  shows "\<not> (\<exists>x. authenticate_session env later token db2 = Inr x)"
proof -
  have "\<exists>s'. map_of (ad_sessions db1) (e_sha env token) = Some s' \<and> ss_revoked s' \<noteq> None"
    using s by (simp add: cuts_sessions_effect [OF cut] table_simps)
  then show ?thesis using revoked_for_good [OF run] by blast
qed

text \<open>An edit that sets the password of the logged-in user of the concrete database.\<close>

definition demo_form :: user_form where
  "demo_form =
     \<lparr>fm_username = None, fm_password = Some (lit ''another-password''), fm_active = None,
      fm_must_change = None, fm_roles = None\<rparr>"

definition demo_edited :: auth_db where
  "demo_edited =
     set_user 1 (write_form \<lparr>fd_username = None, fd_hash = Some (64 # lit ''another-password''), fd_active = None,
                             fd_must_change = Some True, fd_roles = None\<rparr>)
       (revoke_user_sessions 1 9 demo_logged_in)"

lemma demo_edit: "edit_user demo_auth_env NoSink 9 [] [] None 1 demo_form demo_logged_in = Inr demo_edited"
  by (simp add: edit_user_def on_user_change_def form_username_def form_hash_def given_password_def
      resolve_roles_def validate_user_mutation_def fixed_roles_def change_events_def user_event_def
      success_record_def int_text_def demo_form_def demo_edited_def demo_logged_in_def demo_eval Let_def)

theorem credential_change_cuts_sessions_witness:
  "\<not> (\<exists>x. authenticate_session demo_auth_env 10 (lit ''tok'') demo_edited = Inr x)"
proof -
  have "given_password demo_form \<noteq> None" by (simp add: demo_form_def given_password_def lit_def)
  with demo_edit have "cuts_sessions demo_auth_env NoSink 9 1 demo_logged_in demo_edited"
    by (blast intro: cuts_sessions.edited)
  moreover have "map_of (ad_sessions demo_logged_in) (e_sha demo_auth_env (lit ''tok'')) = Some (new_session 1 0)"
    by (simp add: demo_logged_in_def demo_eval)
  ultimately show ?thesis
    by (rule credential_change_cuts_sessions) (simp_all add: account_run.stay)
qed

end
