(* ===== verification/Stop_Control.thy ===== *)
theory Stop_Control
  imports Store_Model Events
begin

text \<open>
  The stop control of a running execution: \<open>_ExecutionStopControl\<close>, \<open>_request_stop_from_monitor\<close>,
  \<open>monitor_once\<close> and \<open>_authorization_stop_reason\<close> of \<open>query_api/execution_runtime.py\<close>. The state of
  an operation is the control and the progress channel it writes to. What the store answers to
  \<open>persist_stop\<close> and what \<open>authorize\<close> does are arguments. A callback is its identity, and
  \<open>st_called\<close> is the list of the calls made to callbacks; what a callback raises is swallowed.
\<close>

record stop_control =
  st_execution :: pystr
  st_deadline :: rat
  st_reason :: "stop_reason option"
  st_cancel :: "nat option"
  st_called :: "nat list"

type_synonym stop_state = "stop_control \<times> channel option"

datatype stop_error =
    Stopped stop_reason
  | PersistError
  | ProgressError event_error
  | UnknownReason

definition reason_text :: "stop_reason \<Rightarrow> pystr" where
  "reason_text r =
     (case r of USER_CANCELLED \<Rightarrow> lit ''user_cancelled'' | DEADLINE_EXCEEDED \<Rightarrow> lit ''deadline_exceeded''
      | AUTHORIZATION_REVOKED \<Rightarrow> lit ''authorization_revoked''
      | AUTHORIZATION_UNAVAILABLE \<Rightarrow> lit ''authorization_unavailable'')"

definition parse_reason :: "pystr \<Rightarrow> stop_error + stop_reason" where
  "parse_reason t =
     (case find (\<lambda>r. reason_text r = t)
             [USER_CANCELLED, DEADLINE_EXCEEDED, AUTHORIZATION_REVOKED, AUTHORIZATION_UNAVAILABLE] of
        None \<Rightarrow> Inl UnknownReason | Some r \<Rightarrow> Inr r)"

definition new_control :: "pystr \<Rightarrow> rat \<Rightarrow> stop_control" where
  "new_control execution deadline =
     \<lparr>st_execution = execution, st_deadline = deadline, st_reason = None, st_cancel = None, st_called = []\<rparr>"

definition stopped :: "stop_state \<Rightarrow> bool" where
  "stopped s \<longleftrightarrow> st_reason (fst s) \<noteq> None"

text \<open>The call of a callback, whatever it raises.\<close>

definition call_cancel :: "nat option \<Rightarrow> stop_control \<Rightarrow> stop_control" where
  "call_cancel cb c = (case cb of None \<Rightarrow> c | Some k \<Rightarrow> c\<lparr>st_called := st_called c @ [k]\<rparr>)"

definition signal :: "stop_reason \<Rightarrow> stop_state \<Rightarrow> (stop_error + unit) \<times> stop_state" where
  "signal reason s =
     (let (c, progress) = s
      in if st_reason c \<noteq> None then (Inr (), s)
         else
           (let c1 = c\<lparr>st_reason := Some reason\<rparr>
            in case progress of
                 None \<Rightarrow> (Inr (), (call_cancel (st_cancel c) c1, None))
               | Some ch \<Rightarrow>
                   (case set_status ''stopping'' (Some (reason_text reason)) ch of
                      (Inl e, ch1) \<Rightarrow> (Inl (ProgressError e), (c1, Some ch1))
                    | (Inr _, ch1) \<Rightarrow> (Inr (), (call_cancel (st_cancel c) c1, Some ch1)))))"

text \<open>What \<open>persist_stop\<close> does: it raises, or returns the row's status and stop reason.\<close>

datatype persisted = PersistRaises | Persisted exec_status "stop_reason option"

definition request_stop ::
  "persisted \<Rightarrow> stop_reason \<Rightarrow> stop_state \<Rightarrow> (stop_error + exec_status) \<times> stop_state" where
  "request_stop p requested s =
     (case p of
        PersistRaises \<Rightarrow> (Inl PersistError, s)
      | Persisted status reason \<Rightarrow>
          if status = Stopping then
            (case signal (case reason of None \<Rightarrow> requested | Some r \<Rightarrow> r) s of
               (Inl e, s1) \<Rightarrow> (Inl e, s1) | (Inr _, s1) \<Rightarrow> (Inr status, s1))
          else (Inr status, s))"

text \<open>\<open>request_stop\<close>, or \<open>signal\<close> when it raises: the monitor's and the checkpoint's way to stop.\<close>

definition force_stop :: "persisted \<Rightarrow> stop_reason \<Rightarrow> stop_state \<Rightarrow> (stop_error + unit) \<times> stop_state" where
  "force_stop p reason s =
     (case request_stop p reason s of
        (Inl _, s1) \<Rightarrow> signal reason s1
      | (Inr _, s1) \<Rightarrow> (Inr (), s1))"

text \<open>What \<open>authorize\<close> does: it returns, or raises an error with a status and a code.\<close>

record auth_failure =
  af_status :: "int option"
  af_code :: "pystr option"

definition authorization_stop_reason :: "auth_failure \<Rightarrow> stop_reason" where
  "authorization_stop_reason f =
     (if af_status f \<in> {Some 401, Some 403} then AUTHORIZATION_REVOKED
      else if af_code f \<in> {Some (lit ''AUTHORIZATION_DENIED''), Some (lit ''AUTHENTICATION_REQUIRED'')}
      then AUTHORIZATION_REVOKED
      else AUTHORIZATION_UNAVAILABLE)"

text \<open>\<open>raise ExecutionStopped(self._reason or reason)\<close>.\<close>

definition raise_stopped :: "stop_reason \<Rightarrow> (stop_error + unit) \<times> stop_state \<Rightarrow> (stop_error + unit) \<times> stop_state" where
  "raise_stopped reason out =
     (case out of
        (Inl e, s) \<Rightarrow> (Inl e, s)
      | (Inr _, s) \<Rightarrow> (Inl (Stopped (case st_reason (fst s) of None \<Rightarrow> reason | Some r \<Rightarrow> r)), s))"

fun signal_all :: "stop_reason list \<Rightarrow> stop_state \<Rightarrow> stop_state" where
  "signal_all [] s = s"
| "signal_all (r # rs) s = signal_all rs (snd (signal r s))"

text \<open>
  \<open>during\<close> are the signals other threads send while this one is in \<open>authorize\<close>, which runs without
  the control's lock.
\<close>

definition checkpoint ::
  "rat \<Rightarrow> auth_failure option \<Rightarrow> stop_reason list \<Rightarrow> persisted \<Rightarrow> stop_state \<Rightarrow> (stop_error + unit) \<times> stop_state" where
  "checkpoint now auth during p s =
     (case st_reason (fst s) of
        Some r \<Rightarrow> (Inl (Stopped r), s)
      | None \<Rightarrow>
          if now \<ge> st_deadline (fst s) then
            raise_stopped DEADLINE_EXCEEDED (force_stop p DEADLINE_EXCEEDED s)
          else
            (let s1 = signal_all during s
             in case auth of
                  Some f \<Rightarrow>
                    raise_stopped (authorization_stop_reason f) (force_stop p (authorization_stop_reason f) s1)
                | None \<Rightarrow>
                    (case st_reason (fst s1) of Some r \<Rightarrow> (Inl (Stopped r), s1) | None \<Rightarrow> (Inr (), s1))))"

text \<open>\<open>register_database_cancel\<close> around a body: \<open>enter_cancel\<close>, the body, \<open>leave_cancel\<close>.\<close>

definition enter_cancel :: "nat \<Rightarrow> stop_state \<Rightarrow> nat option \<times> stop_state" where
  "enter_cancel k s =
     (let (c, progress) = s; c1 = c\<lparr>st_cancel := Some k\<rparr>
      in (st_cancel c, (if st_reason c \<noteq> None then call_cancel (Some k) c1 else c1, progress)))"

definition leave_cancel :: "nat \<Rightarrow> nat option \<Rightarrow> stop_state \<Rightarrow> stop_state" where
  "leave_cancel k previous s =
     (let (c, progress) = s
      in (if st_cancel c = Some k then c\<lparr>st_cancel := previous\<rparr> else c, progress))"

definition with_database_cancel :: "nat \<Rightarrow> (stop_state \<Rightarrow> 'r \<times> stop_state) \<Rightarrow> stop_state \<Rightarrow> 'r \<times> stop_state" where
  "with_database_cancel k body s =
     (let (previous, s1) = enter_cancel k s; (r, s2) = body s1 in (r, leave_cancel k previous s2))"

section \<open>The monitor\<close>

text \<open>One pass over the controls; an exception of a \<open>signal\<close> leaves the loop.\<close>

definition monitor_one ::
  "rat \<Rightarrow> auth_failure option \<Rightarrow> persisted \<Rightarrow> stop_state \<Rightarrow> (stop_error + unit) \<times> stop_state" where
  "monitor_one now auth p s =
     (if stopped s then (Inr (), s)
      else if now \<ge> st_deadline (fst s) then force_stop p DEADLINE_EXCEEDED s
      else case auth of
             None \<Rightarrow> (Inr (), s)
           | Some f \<Rightarrow> force_stop p (authorization_stop_reason f) s)"

fun monitor_once ::
  "rat \<Rightarrow> (stop_state \<times> auth_failure option \<times> persisted) list \<Rightarrow> (stop_error + unit) \<times> stop_state list" where
  "monitor_once now [] = (Inr (), [])"
| "monitor_once now ((s, auth, p) # rest) =
     (case monitor_one now auth p s of
        (Inl e, s1) \<Rightarrow> (Inl e, s1 # map fst rest)
      | (Inr _, s1) \<Rightarrow> (let (r, ss) = monitor_once now rest in (r, s1 # ss)))"

end
