(* ===== verification/Stop_Properties.thy ===== *)
theory Stop_Properties
  imports Stop_Control
begin

text \<open>
  The threads that share a stop control: its worker (checkpoints, database statements, progress), the
  monitor and the requests that stop it. \<open>stop_step\<close> is one operation of one of them.
\<close>

inductive stop_step :: "stop_state \<Rightarrow> stop_state \<Rightarrow> bool" where
  signal: "signal r s = (out, s') \<Longrightarrow> stop_step s s'"
| request: "request_stop p r s = (out, s') \<Longrightarrow> stop_step s s'"
| checkpoint: "checkpoint now auth during p s = (out', s') \<Longrightarrow> stop_step s s'"
| monitor: "monitor_one now auth p s = (out', s') \<Longrightarrow> stop_step s s'"
| running: "set_status ''running'' None ch = (ev, ch') \<Longrightarrow> stop_step (c, Some ch) (c, Some ch')"
| stage: "set_stage stage ch = (ev, ch') \<Longrightarrow> stop_step (c, Some ch) (c, Some ch')"
| finish: "finish status err ch = (ev, ch') \<Longrightarrow> stop_step (c, Some ch) (c, Some ch')"

inductive stop_run :: "stop_state \<Rightarrow> stop_state \<Rightarrow> bool" where
  stay: "stop_run s s"
| step: "stop_run s s' \<Longrightarrow> stop_step s' s'' \<Longrightarrow> stop_run s s''"

section \<open>Every operation is a signal or nothing\<close>

text \<open>What the control's operations do to the state: nothing, or one signal.\<close>

definition signals :: "stop_state \<Rightarrow> stop_state \<Rightarrow> bool" where
  "signals s s' \<longleftrightarrow> s' = s \<or> (\<exists>r. s' = snd (signal r s))"

lemma signal_noop: "st_reason (fst s) \<noteq> None \<Longrightarrow> signal r s = (Inr (), s)"
  by (cases s) (simp add: signal_def Let_def)

lemma signal_reason:
  "st_reason (fst (snd (signal r s))) = (case st_reason (fst s) of None \<Rightarrow> Some r | Some r' \<Rightarrow> Some r')"
  by (cases s; cases "snd s")
    (auto simp: signal_def Let_def call_cancel_def split: option.splits prod.splits sum.splits)

lemma signals_refl [simp]: "signals s s"
  by (simp add: signals_def)

lemma signals_one [simp]: "signals s (snd (signal r s))"
  by (auto simp: signals_def)

lemma signals_trans: "signals s s' \<Longrightarrow> signals s' s'' \<Longrightarrow> signals s s''"
proof -
  assume a: "signals s s'" and b: "signals s' s''"
  show ?thesis
  proof (cases "s' = s")
    case False
    with a obtain r where s': "s' = snd (signal r s)" by (auto simp: signals_def)
    then have "st_reason (fst s') \<noteq> None" by (simp add: signal_reason split: option.split)
    with b have "s'' = s'" by (auto simp: signals_def signal_noop)
    with a show ?thesis by simp
  qed (use b in simp)
qed

lemma signals_signal: "signal r s = (out, s') \<Longrightarrow> signals s s'"
  using signals_one [of s r] by simp

lemma signals_request: "request_stop p r s = (out, s') \<Longrightarrow> signals s s'"
  by (auto simp: request_stop_def signals_signal split: persisted.splits if_splits prod.splits sum.splits)

lemma signals_force: "force_stop p r s = (out, s') \<Longrightarrow> signals s s'"
  by (auto simp: force_stop_def split: prod.splits sum.splits
      dest: signals_request signals_signal intro: signals_trans)

lemma signals_all: "signals s (signal_all rs s)"
proof (induction rs arbitrary: s)
  case (Cons r rs)
  show ?case using signals_trans [OF signals_one Cons.IH] by simp
qed simp

lemma snd_raise_stopped [simp]: "snd (raise_stopped r out) = snd out"
  by (simp add: raise_stopped_def split: prod.splits sum.splits)

lemma signals_checkpoint: "checkpoint now auth during p s = (out, s') \<Longrightarrow> signals s s'"
proof -
  assume c: "checkpoint now auth during p s = (out, s')"
  let ?s1 = "signal_all during s"
  consider "s' = s" | "s' = snd (force_stop p DEADLINE_EXCEEDED s)"
    | r where "s' = snd (force_stop p r ?s1)" | "s' = ?s1"
  proof -
    from c have "s' = snd (checkpoint now auth during p s)" by simp
    then show ?thesis using that
      by (simp add: checkpoint_def Let_def split: option.splits if_splits)
  qed
  then show ?thesis
  proof cases
    case 2 then show ?thesis using signals_force by (metis prod.collapse)
  next
    case 3 then show ?thesis using signals_force signals_all signals_trans by (metis prod.collapse)
  qed (simp_all add: signals_all)
qed

lemma signals_monitor: "monitor_one now auth p s = (out, s') \<Longrightarrow> signals s s'"
  by (auto simp: monitor_one_def split: if_splits option.splits dest: signals_force)

text \<open>A step is one of the control's operations, or one of the worker's on the channel alone.\<close>

lemma stop_step_cases:
  assumes "stop_step s s'"
  shows "signals s s' \<or> (\<exists>c ch ch'. s = (c, Some ch) \<and> s' = (c, Some ch')
    \<and> ((\<exists>ev. set_status ''running'' None ch = (ev, ch')) \<or> (\<exists>ev stage. set_stage stage ch = (ev, ch'))
       \<or> (\<exists>ev status err. finish status err ch = (ev, ch'))))"
  using assms
  by cases (blast dest: signals_signal signals_request signals_checkpoint signals_monitor)+

section \<open>The first reason wins\<close>

text \<open>A live channel tells the reason of its control.\<close>

definition told :: "stop_state \<Rightarrow> bool" where
  "told s \<longleftrightarrow>
     (\<forall>r ch. st_reason (fst s) = Some r \<and> snd s = Some ch \<and> \<not> ch_terminal ch
        \<longrightarrow> ch_status ch = ''stopping'' \<and> ch_stop_reason ch = Some (reason_text r))"

lemma append_locked_fields:
  "append_locked ch t payload = (out, ch') \<Longrightarrow>
     ch_status ch' = ch_status ch \<and> ch_stop_reason ch' = ch_stop_reason ch \<and> ch_terminal ch' = ch_terminal ch"
  by (auto simp: append_locked_def Let_def split: sum.splits if_splits prod.splits)

lemma set_status_stopping:
  assumes "set_status ''stopping'' (Some r) ch = (out, ch')"
  shows "ch_terminal ch' = ch_terminal ch"
    and "\<not> ch_terminal ch \<Longrightarrow> status_order (ch_status ch) \<noteq> None \<Longrightarrow>
      ch_status ch' = ''stopping'' \<and> ch_stop_reason ch' = Some r"
proof -
  have o: "status_order ''stopping'' = Some 2" by (simp add: status_order_def)
  have run: "''stopping'' \<in> running_statuses" by (simp add: running_statuses_def)
  have "\<not> ch_terminal ch \<Longrightarrow> status_order (ch_status ch) \<noteq> None \<Longrightarrow>
    append_locked (ch\<lparr>ch_status := ''stopping'', ch_stop_reason := Some r\<rparr>) ''progress''
      [(lit ''status'', JStr (lit ''stopping'')), (lit ''stop_reason'', JStr r)] = (out, ch')"
  proof -
    assume t: "\<not> ch_terminal ch" and "status_order (ch_status ch) \<noteq> None"
    then obtain n where n: "status_order (ch_status ch) = Some n" by blast
    then have "\<not> (2 < n)" by (auto simp: status_order_def split: if_splits)
    with t n assms o run show ?thesis by (simp add: set_status_def Let_def)
  qed
  with append_locked_fields show "\<not> ch_terminal ch \<Longrightarrow> status_order (ch_status ch) \<noteq> None \<Longrightarrow>
      ch_status ch' = ''stopping'' \<and> ch_stop_reason ch' = Some r" by fastforce
  from assms o run show "ch_terminal ch' = ch_terminal ch"
    by (auto simp: set_status_def Let_def split: if_splits option.splits dest!: append_locked_fields)
qed

definition live_status :: "stop_state \<Rightarrow> bool" where
  "live_status s \<longleftrightarrow> (\<forall>ch. snd s = Some ch \<and> \<not> ch_terminal ch \<longrightarrow> status_order (ch_status ch) \<noteq> None)"

lemma signal_told:
  assumes "told s" and "live_status s"
  shows "told (snd (signal r s)) \<and> live_status (snd (signal r s))"
proof (cases "st_reason (fst s)")
  case (Some r')
  with assms show ?thesis by (simp add: signal_noop)
next
  case None
  obtain c progress where s: "s = (c, progress)" by fastforce
  show ?thesis
  proof (cases progress)
    case None
    with \<open>st_reason (fst s) = None\<close> show ?thesis
      by (simp add: s signal_def Let_def told_def live_status_def)
  next
    case (Some ch)
    obtain out ch' where st: "set_status ''stopping'' (Some (reason_text r)) ch = (out, ch')" by fastforce
    with \<open>st_reason (fst s) = None\<close> have x: "snd (snd (signal r s)) = Some ch'"
      and y: "st_reason (fst (snd (signal r s))) = Some r"
      by (auto simp: s Some signal_def Let_def call_cancel_def split: sum.splits option.splits)
    from set_status_stopping [OF st] assms(2) show ?thesis
      unfolding told_def live_status_def x y
      by (auto simp: s Some live_status_def status_order_def)
  qed
qed

lemma signals_told: "signals s s' \<Longrightarrow> told s \<Longrightarrow> live_status s \<Longrightarrow> told s' \<and> live_status s'"
  unfolding signals_def using signal_told by blast

lemma channel_step_told:
  assumes "(\<exists>ev. set_status ''running'' None ch = (ev, ch')) \<or> (\<exists>ev stage. set_stage stage ch = (ev, ch'))
       \<or> (\<exists>ev status err. finish status err ch = (ev, ch'))"
    and "told (c, Some ch)" and "live_status (c, Some ch)"
  shows "told (c, Some ch') \<and> live_status (c, Some ch')"
proof -
  have "ch_terminal ch' \<or> ch' = ch
    \<or> (\<not> ch_terminal ch \<and> ch_stop_reason ch' = ch_stop_reason ch \<and> ch_status ch' = ch_status ch)
    \<or> (\<not> ch_terminal ch \<and> ch_status ch \<noteq> ''stopping'' \<and> ch_status ch' = ''running'')"
    using assms(1)
    by (elim disjE exE)
      (auto simp: set_status_def set_stage_def finish_def Let_def status_order_def clear_draft_def
        split: if_splits option.splits dest!: append_locked_fields)
  then show ?thesis
    using assms(2,3) by (auto simp: told_def live_status_def status_order_def)
qed

lemma step_told: "stop_step s s' \<Longrightarrow> told s \<Longrightarrow> live_status s \<Longrightarrow> told s' \<and> live_status s'"
  using stop_step_cases signals_told channel_step_told by blast

lemma step_reason: "stop_step s s' \<Longrightarrow> st_reason (fst s) = Some r \<Longrightarrow> st_reason (fst s') = Some r"
  by (auto dest!: stop_step_cases simp: signals_def signal_reason)

lemma run_told: "stop_run s s' \<Longrightarrow> told s \<Longrightarrow> live_status s \<Longrightarrow> told s' \<and> live_status s'"
  by (induction rule: stop_run.induct) (auto dest: step_told)

lemma run_reason: "stop_run s s' \<Longrightarrow> st_reason (fst s) = Some r \<Longrightarrow> st_reason (fst s') = Some r"
  by (induction rule: stop_run.induct) (auto dest: step_reason)

lemma run_trans: "stop_run s s' \<Longrightarrow> stop_run s' s'' \<Longrightarrow> stop_run s s''"
  by (rotate_tac 1, induction rule: stop_run.induct) (auto intro: stop_run.intros)

text \<open>The first stop reason wins: whatever the monitor, the requests and the worker do afterwards, it
  stays the control's reason, every checkpoint raises it without asking anyone again, and a channel that
  is not terminal yet says \<open>stopping\<close> with exactly this reason.\<close>
theorem first_stop_reason_wins:
  assumes "stop_run (new_control x deadline, progress) s" and "live_status (new_control x deadline, progress)"
    and "st_reason (fst s) = Some r" and "stop_run s s'"
  shows "st_reason (fst s') = Some r
    \<and> checkpoint now auth during p s' = (Inl (Stopped r), s')
    \<and> (\<forall>ch. snd s' = Some ch \<and> \<not> ch_terminal ch
          \<longrightarrow> ch_status ch = ''stopping'' \<and> ch_stop_reason ch = Some (reason_text r))"
proof -
  have "told (new_control x deadline, progress)" by (simp add: told_def new_control_def)
  with run_told [OF run_trans [OF assms(1,4)]] assms(2) have "told s'" by blast
  with run_reason [OF assms(4,3)] show ?thesis by (auto simp: checkpoint_def told_def)
qed

lemma first_stop_reason_wins_witness:
  "checkpoint 0 None [USER_CANCELLED] PersistRaises
     (snd (signal AUTHORIZATION_REVOKED (new_control [] 1, None)))
   = (Inl (Stopped AUTHORIZATION_REVOKED), snd (signal AUTHORIZATION_REVOKED (new_control [] 1, None)))"
proof -
  let ?s = "snd (signal AUTHORIZATION_REVOKED (new_control [] 1, None))"
  have "stop_run (new_control [] 1, None) ?s"
    by (rule stop_run.step [OF stop_run.stay], rule stop_step.signal [OF prod.collapse [symmetric]])
  moreover have "live_status (new_control [] 1, None)" by (simp add: live_status_def)
  moreover have "st_reason (fst ?s) = Some AUTHORIZATION_REVOKED"
    by (simp add: signal_reason new_control_def)
  ultimately show ?thesis using stop_run.stay first_stop_reason_wins by blast
qed

section \<open>A stop reaches the running statement\<close>

text \<open>The channel can take the event of a stop, whatever the reason.\<close>

definition takes_stop :: "stop_state \<Rightarrow> bool" where
  "takes_stop s \<longleftrightarrow>
     (\<forall>ch r. snd s = Some ch \<longrightarrow> fst (set_status ''stopping'' (Some (reason_text r)) ch) = Inr ())"

inductive told_run :: "stop_state \<Rightarrow> stop_state \<Rightarrow> bool" where
  stay: "told_run s s"
| step: "told_run s s' \<Longrightarrow> takes_stop s' \<Longrightarrow> stop_step s' s'' \<Longrightarrow> told_run s s''"

definition reached :: "nat \<Rightarrow> stop_state \<Rightarrow> bool" where
  "reached k s \<longleftrightarrow> st_cancel (fst s) = Some k \<and> (st_reason (fst s) = None \<or> k \<in> set (st_called (fst s)))"

lemma signal_reached:
  assumes "reached k s" and "takes_stop s"
  shows "reached k (snd (signal r s))"
proof (cases "st_reason (fst s)")
  case (Some r')
  with assms(1) show ?thesis by (simp add: signal_noop)
next
  case None
  obtain c progress where s: "s = (c, progress)" by fastforce
  show ?thesis
  proof (cases progress)
    case (Some ch)
    with assms(2) have "fst (set_status ''stopping'' (Some (reason_text r)) ch) = Inr ()"
      by (simp add: takes_stop_def s)
    then obtain ch' where "set_status ''stopping'' (Some (reason_text r)) ch = (Inr (), ch')"
      by (metis prod.collapse)
    with None assms(1) show ?thesis
      by (simp add: s Some signal_def reached_def call_cancel_def)
  qed (use None assms(1) in \<open>simp add: s signal_def reached_def call_cancel_def\<close>)
qed

lemma step_reached: "stop_step s s' \<Longrightarrow> takes_stop s \<Longrightarrow> reached k s \<Longrightarrow> reached k s'"
  by (auto dest!: stop_step_cases simp: signals_def signal_reached) (auto simp: reached_def)

lemma run_reached: "told_run s s' \<Longrightarrow> reached k s \<Longrightarrow> reached k s'"
  by (induction rule: told_run.induct) (auto dest: step_reached)

lemma enter_reached: "reached k (snd (enter_cancel k s))"
  by (cases s) (simp add: enter_cancel_def Let_def reached_def call_cancel_def)

text \<open>A stop reaches the statement that is running: while a database statement has registered its
  cancellation, it is called if the execution is stopped before the registration or at any moment until
  the statement ends, as long as the channel takes the event; afterwards the cancellation registered
  before is back in place.\<close>
theorem stop_reaches_statement:
  assumes "told_run (snd (enter_cancel k s)) s1"
    and "with_database_cancel k (\<lambda>s0. (res, s1)) s = (res, s')" and "stopped s'"
  shows "k \<in> set (st_called (fst s')) \<and> st_cancel (fst s') = st_cancel (fst s)"
proof -
  have "reached k s1" using run_reached [OF assms(1) enter_reached] .
  moreover have "fst (enter_cancel k s) = st_cancel (fst s)"
    by (cases s) (simp add: enter_cancel_def Let_def)
  ultimately show ?thesis using assms(2,3)
    by (cases s1)
      (auto simp: with_database_cancel_def leave_cancel_def reached_def stopped_def Let_def split: prod.splits)
qed

lemma stop_reaches_statement_witness:
  "let s1 = snd (signal USER_CANCELLED (snd (enter_cancel 7 (new_control [] 1, None))));
       s' = snd (with_database_cancel 7 (\<lambda>s0. ((), s1)) (new_control [] 1, None))
   in 7 \<in> set (st_called (fst s')) \<and> st_cancel (fst s') = st_cancel (fst (new_control [] 1, None))"
proof -
  let ?e = "snd (enter_cancel 7 (new_control [] 1, None))"
  let ?s1 = "snd (signal USER_CANCELLED ?e)"
  have "takes_stop ?e" by (simp add: takes_stop_def enter_cancel_def Let_def)
  then have r: "told_run ?e ?s1"
    by (rule told_run.step [OF told_run.stay]) (rule stop_step.signal [OF prod.collapse [symmetric]])
  obtain s' where w: "with_database_cancel 7 (\<lambda>s0. ((), ?s1)) (new_control [] 1, None) = ((), s')"
    by (metis prod.exhaust old.unit.exhaust)
  then have "stopped s'"
    by (auto simp: with_database_cancel_def leave_cancel_def stopped_def enter_cancel_def signal_def
        new_control_def call_cancel_def Let_def)
  from stop_reaches_statement [OF r w this] show ?thesis by (simp add: w Let_def)
qed

end
