(* ===== verification/Execution_Runtime.thy ===== *)
theory Execution_Runtime
  imports Capacity Lease_Registry Stop_Control
begin

text \<open>
  The execution runtime of \<open>query_api/execution_runtime.py\<close>: \<open>ExecutionLease\<close>, \<open>reserve\<close>,
  \<open>attach_progress\<close>, \<open>bind_stop_control\<close>, \<open>subscribe\<close>, \<open>request_stop\<close>, \<open>signal_stop\<close>, \<open>submit\<close>,
  \<open>serialize_operation\<close> and \<open>_positive_limit\<close>, on top of the quota, the two lease registries, the event
  channel and the stop control. Objects are positions in lists: \<open>xr_leases\<close>, \<open>xr_chans\<close> and
  \<open>xr_controls\<close> hold every lease, channel and control made so far, and the maps hold what the
  dictionaries of the runtime hold.
\<close>

datatype xr_error =
    XrRuntime runtime_error
  | XrHistory history_code
  | XrBusy guard_error
  | XrEvent event_error
  | XrStop stop_error
  | XrValueError
  | XrKeyError
  | XrPoolRefused

record exec_lease =
  el_capacity :: nat
  el_history :: nat
  el_analysis :: "nat option"
  el_released :: bool
  el_submitted :: bool
  el_execution :: "pystr option"
  el_channel :: "nat option"
  el_control :: "nat option"

record exec_rt =
  xr_capacity :: capacity
  xr_history :: history_rt
  xr_guard :: "guard option"
  xr_chans :: "channel list"
  xr_channel_of :: "pystr \<rightharpoonup> nat"
  xr_controls :: "(stop_control \<times> nat option) list"
  xr_control_of :: "pystr \<rightharpoonup> nat"
  xr_locks :: "(int \<times> pystr) \<rightharpoonup> nat"
  xr_leases :: "exec_lease list"

definition new_runtime ::
  "limit_arg \<Rightarrow> limit_arg \<Rightarrow> rat \<Rightarrow> history_rt \<Rightarrow> guard option \<Rightarrow> xr_error + exec_rt" where
  "new_runtime max_user max_all interval h g =
     (case new_capacity max_user max_all interval of
        Inl e \<Rightarrow> Inl (XrRuntime e)
      | Inr c \<Rightarrow> Inr \<lparr>xr_capacity = c, xr_history = h, xr_guard = g, xr_chans = [], xr_channel_of = Map.empty,
                     xr_controls = [], xr_control_of = Map.empty, xr_locks = Map.empty, xr_leases = []\<rparr>)"

text \<open>\<open>_positive_limit\<close>; the digits of \<open>str.isdigit\<close> and their values are a parameter.\<close>

definition positive_limit :: "(nat \<Rightarrow> nat option) \<Rightarrow> pystr option \<Rightarrow> xr_error + int" where
  "positive_limit digit v =
     (case v of
        None \<Rightarrow> Inl XrValueError
      | Some t \<Rightarrow>
          let s = strip t
          in if s = [] \<or> list_ex (\<lambda>c. digit c = None) s then Inl XrValueError
             else let n = foldl (\<lambda>n c. 10 * n + (case digit c of None \<Rightarrow> 0 | Some d \<Rightarrow> d)) 0 s
                  in if n < 1 then Inl XrValueError else Inr (int n))"

section \<open>Reserving and releasing\<close>

definition release_capacity :: "nat \<Rightarrow> exec_rt \<Rightarrow> (xr_error + unit) \<times> exec_rt" where
  "release_capacity i rt =
     (case cap_release (xr_capacity rt) i of
        (Inl e, c) \<Rightarrow> (Inl (XrRuntime e), rt\<lparr>xr_capacity := c\<rparr>)
      | (Inr _, c) \<Rightarrow> (Inr (), rt\<lparr>xr_capacity := c\<rparr>))"

definition release_history :: "nat \<Rightarrow> exec_rt \<Rightarrow> exec_rt" where
  "release_history i rt = rt\<lparr>xr_history := hr_release (xr_history rt) i\<rparr>"

definition release_analysis :: "nat option \<Rightarrow> exec_rt \<Rightarrow> exec_rt" where
  "release_analysis a rt =
     (case (a, xr_guard rt) of
        (Some i, Some g) \<Rightarrow> rt\<lparr>xr_guard := Some (guard_release g i)\<rparr>
      | _ \<Rightarrow> rt)"

text \<open>The handler \<open>except BaseException\<close>: it gives back what was taken and raises the error again.\<close>

definition give_back ::
  "xr_error \<Rightarrow> nat \<Rightarrow> nat option \<Rightarrow> nat option \<Rightarrow> exec_rt \<Rightarrow> (xr_error + nat) \<times> exec_rt" where
  "give_back e ci hi ai rt =
     (let rt1 = release_analysis ai rt;
          rt2 = (case hi of None \<Rightarrow> rt1 | Some i \<Rightarrow> release_history i rt1)
      in case release_capacity ci rt2 of
           (Inl e', rt3) \<Rightarrow> (Inl e', rt3)
         | (Inr _, rt3) \<Rightarrow> (Inl e, rt3))"

definition new_lease :: "nat \<Rightarrow> nat \<Rightarrow> nat option \<Rightarrow> exec_lease" where
  "new_lease ci hi ai =
     \<lparr>el_capacity = ci, el_history = hi, el_analysis = ai, el_released = False, el_submitted = False,
      el_execution = None, el_channel = None, el_control = None\<rparr>"

text \<open>The last check of \<open>reserve\<close> under the condition, and the lease.\<close>

definition conclude_reserve ::
  "nat \<Rightarrow> nat \<Rightarrow> nat option \<Rightarrow> exec_rt \<Rightarrow> (xr_error + nat) \<times> exec_rt" where
  "conclude_reserve ci hi ai rt =
     (if \<not> cap_accepting (xr_capacity rt) then give_back (XrRuntime ExecutionRuntimeClosed) ci (Some hi) ai rt
      else (Inr (length (xr_leases rt)), rt\<lparr>xr_leases := xr_leases rt @ [new_lease ci hi ai]\<rparr>))"

text \<open>
  \<open>reserve\<close>: the quota, the history, the analysis run, in this order. \<open>ping\<close> is the outcome of the
  history runtime's check of its guard connection; \<open>closing\<close> says that another thread closed the
  admission after the quota was taken.
\<close>

definition reserve_run ::
  "nat \<Rightarrow> nat \<Rightarrow> (pystr \<times> pystr) option \<Rightarrow> pystr option \<Rightarrow> exec_rt \<Rightarrow> (xr_error + nat) \<times> exec_rt" where
  "reserve_run ci hi auth run rt =
     (case run of
        None \<Rightarrow> conclude_reserve ci hi None rt
      | Some r \<Rightarrow>
         (case (xr_guard rt, auth) of
            (Some g, Some (provider, subject)) \<Rightarrow>
              (case guard_reserve g (provider, subject, r) of
                 Inl e \<Rightarrow> give_back (XrBusy e) ci (Some hi) None rt
               | Inr (g1, gi) \<Rightarrow> conclude_reserve ci hi (Some gi) (rt\<lparr>xr_guard := Some g1\<rparr>))
          | _ \<Rightarrow> give_back (XrRuntime ExecutionRuntimeClosed) ci (Some hi) None rt))"

definition reserve_history ::
  "bool \<Rightarrow> nat \<Rightarrow> pystr \<Rightarrow> (pystr \<times> pystr) option \<Rightarrow> pystr option \<Rightarrow> exec_rt \<Rightarrow> (xr_error + nat) \<times> exec_rt" where
  "reserve_history ping ci history auth run rt =
     (case hr_reserve ping (xr_history rt) history of
        (Inl e, h) \<Rightarrow> give_back (XrHistory e) ci None None (rt\<lparr>xr_history := h\<rparr>)
      | (Inr hi, h) \<Rightarrow> reserve_run ci hi auth run (rt\<lparr>xr_history := h\<rparr>))"

definition xr_reserve ::
  "bool \<Rightarrow> bool \<Rightarrow> owner_id \<Rightarrow> pystr \<Rightarrow> (pystr \<times> pystr) option \<Rightarrow> pystr option \<Rightarrow> exec_rt
   \<Rightarrow> (xr_error + nat) \<times> exec_rt" where
  "xr_reserve ping closing owner history auth run rt =
     (if \<not> (\<exists>n. owner = OwnerInt n \<and> 1 \<le> n) then (Inl XrValueError, rt)
      else case reserve_owner (xr_capacity rt) owner of
        Inl e \<Rightarrow> (Inl (XrRuntime e), rt)
      | Inr (c, ci) \<Rightarrow>
          reserve_history ping ci history auth run
            (rt\<lparr>xr_capacity := (if closing then close_admission c else c)\<rparr>))"

definition set_lease :: "nat \<Rightarrow> (exec_lease \<Rightarrow> exec_lease) \<Rightarrow> exec_rt \<Rightarrow> exec_rt" where
  "set_lease i f rt = rt\<lparr>xr_leases := (xr_leases rt)[i := f (xr_leases rt ! i)]\<rparr>"

text \<open>\<open>_release_event_channel\<close>: an exception of \<open>finish\<close> leaves the dictionary as it is.\<close>

definition release_event_channel :: "pystr \<Rightarrow> nat option \<Rightarrow> exec_rt \<Rightarrow> (xr_error + unit) \<times> exec_rt" where
  "release_event_channel x channel rt =
     (let (err, rt1) =
        (case channel of
           None \<Rightarrow> (None, rt)
         | Some k \<Rightarrow>
             if ch_terminal (xr_chans rt ! k) then (None, rt)
             else (case finish ''unconfirmed'' None (xr_chans rt ! k) of
                (Inl e, ch) \<Rightarrow> (Some e, rt\<lparr>xr_chans := (xr_chans rt)[k := ch]\<rparr>)
              | (Inr _, ch) \<Rightarrow> (None, rt\<lparr>xr_chans := (xr_chans rt)[k := ch]\<rparr>)))
      in case err of
           Some e \<Rightarrow> (Inl (XrEvent e), rt1)
         | None \<Rightarrow>
             if xr_channel_of rt1 x = channel then
               (case channel of
                  None \<Rightarrow> (Inl XrKeyError, rt1)
                | Some _ \<Rightarrow> (Inr (), rt1\<lparr>xr_channel_of := (xr_channel_of rt1)(x := None)\<rparr>))
             else (Inr (), rt1))"

text \<open>
  \<open>_release_stop_control\<close>: when no control is bound, \<open>get\<close> returns \<open>None\<close>, which \<open>is\<close> the control it is
  compared with, and \<open>del\<close> of the missing key raises.
\<close>

definition release_stop_control :: "pystr \<Rightarrow> nat option \<Rightarrow> exec_rt \<Rightarrow> (xr_error + unit) \<times> exec_rt" where
  "release_stop_control x control rt =
     (if xr_control_of rt x = control then
        (case control of
           None \<Rightarrow> (Inl XrKeyError, rt)
         | Some _ \<Rightarrow> (Inr (), rt\<lparr>xr_control_of := (xr_control_of rt)(x := None)\<rparr>))
      else (Inr (), rt))"

text \<open>\<open>try ... finally ...\<close>: the second part runs anyway; its exception hides one of the first.\<close>

definition finally_do ::
  "(exec_rt \<Rightarrow> (xr_error + unit) \<times> exec_rt) \<Rightarrow> (exec_rt \<Rightarrow> (xr_error + unit) \<times> exec_rt) \<Rightarrow> exec_rt
   \<Rightarrow> (xr_error + unit) \<times> exec_rt" where
  "finally_do body cleanup rt =
     (let (r, rt1) = body rt; (r', rt2) = cleanup rt1 in (case r' of Inl e \<Rightarrow> Inl e | Inr _ \<Rightarrow> r, rt2))"

definition release_bindings :: "exec_lease \<Rightarrow> exec_rt \<Rightarrow> (xr_error + unit) \<times> exec_rt" where
  "release_bindings l =
     (case el_execution l of
        None \<Rightarrow> (\<lambda>rt. (Inr (), rt))
      | Some x \<Rightarrow> finally_do (release_event_channel x (el_channel l)) (release_stop_control x (el_control l)))"

definition xr_release :: "nat \<Rightarrow> exec_rt \<Rightarrow> (xr_error + unit) \<times> exec_rt" where
  "xr_release i rt =
     (let l = xr_leases rt ! i
      in if el_released l then (Inr (), rt)
         else finally_do (release_bindings l)
                (finally_do (\<lambda>rt. (Inr (), release_analysis (el_analysis l) rt))
                   (finally_do (\<lambda>rt. (Inr (), release_history (el_history l) rt))
                      (release_capacity (el_capacity l))))
                (set_lease i (\<lambda>l. l\<lparr>el_released := True\<rparr>) rt))"

section \<open>Progress and stop control\<close>

text \<open>\<open>ch\<close> is the channel \<open>ExecutionEventChannel(execution)\<close> builds.\<close>

definition attach_progress :: "nat \<Rightarrow> pystr \<Rightarrow> channel \<Rightarrow> exec_rt \<Rightarrow> (xr_error + nat) \<times> exec_rt" where
  "attach_progress i x ch rt =
     (let l = xr_leases rt ! i
      in if el_released l \<or> el_submitted l then (Inl (XrRuntime ExecutionRuntimeClosed), rt)
         else if el_execution l \<noteq> None then (Inl XrValueError, rt)
         else if xr_channel_of rt x \<noteq> None then (Inl XrValueError, rt)
         else (let k = length (xr_chans rt)
               in (Inr k,
                   set_lease i (\<lambda>l. l\<lparr>el_execution := Some x, el_channel := Some k\<rparr>)
                     (rt\<lparr>xr_chans := xr_chans rt @ [ch], xr_channel_of := (xr_channel_of rt)(x \<mapsto> k)\<rparr>))))"

definition subscribe_execution ::
  "pystr \<Rightarrow> exec_rt \<Rightarrow> (event_error + event \<times> subscription) option \<times> exec_rt" where
  "subscribe_execution x rt =
     (case xr_channel_of rt x of
        None \<Rightarrow> (None, rt)
      | Some k \<Rightarrow>
          (case subscribe (xr_chans rt ! k) of
             (r, ch) \<Rightarrow> (Some r, rt\<lparr>xr_chans := (xr_chans rt)[k := ch]\<rparr>)))"

text \<open>An operation of a control, on its state and the channel it writes to.\<close>

definition control_state :: "exec_rt \<Rightarrow> nat \<Rightarrow> stop_state" where
  "control_state rt k =
     (case xr_controls rt ! k of (c, progress) \<Rightarrow> (c, map_option (\<lambda>p. xr_chans rt ! p) progress))"

definition put_control :: "nat \<Rightarrow> stop_state \<Rightarrow> exec_rt \<Rightarrow> exec_rt" where
  "put_control k s rt =
     (case (xr_controls rt ! k, s) of
        ((_, progress), (c, ch)) \<Rightarrow>
          rt\<lparr>xr_controls := (xr_controls rt)[k := (c, progress)],
             xr_chans := (case (progress, ch) of
                            (Some p, Some ch) \<Rightarrow> (xr_chans rt)[p := ch] | _ \<Rightarrow> xr_chans rt)\<rparr>)"

definition on_control ::
  "nat \<Rightarrow> (stop_state \<Rightarrow> (stop_error + 'a) \<times> stop_state) \<Rightarrow> exec_rt \<Rightarrow> (stop_error + 'a) \<times> exec_rt" where
  "on_control k f rt = (case f (control_state rt k) of (r, s) \<Rightarrow> (r, put_control k s rt))"

text \<open>
  \<open>bind_stop_control\<close>: \<open>clock\<close> is the monotonic clock, \<open>remaining\<close> the seconds to the row's deadline on
  the wall clock; \<open>status\<close> and \<open>reason\<close> are the row's. A control of a row that is already stopping is
  signalled before it is bound.
\<close>

definition bind_stop_control ::
  "nat \<Rightarrow> pystr \<Rightarrow> nat option \<Rightarrow> rat \<Rightarrow> rat \<Rightarrow> exec_status \<Rightarrow> stop_reason option \<Rightarrow> exec_rt
   \<Rightarrow> (xr_error + nat) \<times> exec_rt" where
  "bind_stop_control i x progress clock remaining status reason rt =
     (let l = xr_leases rt ! i
      in if el_released l \<or> el_submitted l \<or> el_execution l = None
         then (Inl (XrRuntime ExecutionRuntimeClosed), rt)
         else if el_control l \<noteq> None then (Inl XrValueError, rt)
         else
           (let k = length (xr_controls rt);
                rt1 = rt\<lparr>xr_controls := xr_controls rt @ [(new_control x (clock + max 0 remaining), progress)]\<rparr>;
                (r, rt2) = (if status = Stopping
                            then on_control k (signal (case reason of None \<Rightarrow> USER_CANCELLED | Some q \<Rightarrow> q)) rt1
                            else (Inr (), rt1))
            in case r of
                 Inl e \<Rightarrow> (Inl (XrStop e), rt2)
               | Inr _ \<Rightarrow>
                   (Inr k, set_lease i (\<lambda>l. l\<lparr>el_control := Some k\<rparr>)
                      (rt2\<lparr>xr_control_of := (xr_control_of rt2)(x \<mapsto> k)\<rparr>))))"

definition xr_request_stop ::
  "pystr \<Rightarrow> pystr \<Rightarrow> persisted \<Rightarrow> exec_rt \<Rightarrow> (stop_error + exec_status) option \<times> exec_rt" where
  "xr_request_stop x reason p rt =
     (case xr_control_of rt x of
        None \<Rightarrow> (None, rt)
      | Some k \<Rightarrow>
          (case parse_reason reason of
             Inl e \<Rightarrow> (Some (Inl e), rt)
           | Inr r \<Rightarrow> (case on_control k (request_stop p r) rt of (out, rt1) \<Rightarrow> (Some out, rt1))))"

definition signal_stop :: "pystr \<Rightarrow> pystr \<Rightarrow> exec_rt \<Rightarrow> (stop_error + unit) \<times> exec_rt" where
  "signal_stop x reason rt =
     (case xr_control_of rt x of
        None \<Rightarrow> (Inr (), rt)
      | Some k \<Rightarrow>
          (case parse_reason reason of
             Inl e \<Rightarrow> (Inl e, rt)
           | Inr r \<Rightarrow> on_control k (signal r) rt))"

section \<open>The worker\<close>

text \<open>\<open>submit\<close>: \<open>pool\<close> says whether the thread pool takes the task.\<close>

definition submit :: "bool \<Rightarrow> nat \<Rightarrow> exec_rt \<Rightarrow> (xr_error + unit) \<times> exec_rt" where
  "submit pool i rt =
     (let l = xr_leases rt ! i
      in if el_released l then (Inl (XrRuntime ExecutionRuntimeClosed), rt)
         else if el_submitted l then (Inl XrValueError, rt)
         else if pool then (Inr (), set_lease i (\<lambda>l. l\<lparr>el_submitted := True\<rparr>) rt)
         else (Inl XrPoolRefused, rt))"

text \<open>The task: the work, and the release whatever the work did.\<close>

definition run_task ::
  "nat \<Rightarrow> (exec_rt \<Rightarrow> (xr_error + unit) \<times> exec_rt) \<Rightarrow> exec_rt \<Rightarrow> (xr_error + unit) \<times> exec_rt" where
  "run_task i work = finally_do work (xr_release i)"

section \<open>Serialised operations\<close>

text \<open>The entry and the exit of \<open>serialize_operation\<close>; the number is the count of references to the lock.\<close>

definition enter_operation :: "int \<times> pystr \<Rightarrow> exec_rt \<Rightarrow> exec_rt" where
  "enter_operation key rt =
     rt\<lparr>xr_locks := (xr_locks rt)(key \<mapsto> (case xr_locks rt key of None \<Rightarrow> 0 | Some n \<Rightarrow> n) + 1)\<rparr>"

definition leave_operation :: "int \<times> pystr \<Rightarrow> exec_rt \<Rightarrow> xr_error + exec_rt" where
  "leave_operation key rt =
     (case xr_locks rt key of
        None \<Rightarrow> Inl XrKeyError
      | Some n \<Rightarrow>
          if n = 1 then Inr (rt\<lparr>xr_locks := (xr_locks rt)(key := None)\<rparr>)
          else Inr (rt\<lparr>xr_locks := (xr_locks rt)(key \<mapsto> n - 1)\<rparr>))"

end
