(* ===== verification/Runtime_Properties.thy ===== *)
theory Runtime_Properties
  imports Execution_Runtime
begin

text \<open>
  What an execution lease holds and gives back. \<open>rt_ok\<close> says that every lease that is not released
  holds a slot of the quota, its history and, for an analysis, its run, and shares none of them with
  another lease; the contracts of the two registries and of the quota give the rest.
\<close>

section \<open>Counting leases\<close>

lemma held_indices_snoc:
  "{i. held (ls @ [l]) i = Some k} =
     {i. held ls i = Some k} \<union> (if \<not> lease_released l \<and> lease_key l = k then {length ls} else {})"
  by (auto simp: held_append split: if_splits dest: held_Some_D)

lemma finite_held: "finite {i. held ls i = Some k}" "finite {i. held ls i \<noteq> None}"
  by (rule finite_subset [of _ "{..<length ls}"], auto dest: held_Some_D)+

lemma card_held: "card {i. held ls i = Some k} = count_list (open_leases ls) k"
proof (induction ls rule: rev_induct)
  case (snoc l ls)
  have "length ls \<notin> {i. held ls i = Some k}" by simp
  with snoc show ?case unfolding held_indices_snoc by (simp add: finite_held)
qed simp

lemma card_held_all: "card {i. held ls i \<noteq> None} = length (open_leases ls)"
proof (induction ls rule: rev_induct)
  case (snoc l ls)
  have "{i. held (ls @ [l]) i \<noteq> None} =
      {i. held ls i \<noteq> None} \<union> (if lease_released l then {} else {length ls})"
    by (auto simp: held_append split: if_splits dest: held_Some_D)
  moreover have "length ls \<notin> {i. held ls i \<noteq> None}" by simp
  ultimately show ?case using snoc finite_held(2) [of ls] by (simp del: not_None_eq)
qed simp

section \<open>The invariant\<close>

definition live :: "exec_rt \<Rightarrow> nat \<Rightarrow> bool" where
  "live rt i \<longleftrightarrow> i < length (xr_leases rt) \<and> \<not> el_released (xr_leases rt ! i)"

abbreviation lease_at :: "exec_rt \<Rightarrow> nat \<Rightarrow> exec_lease" where
  "lease_at rt i \<equiv> xr_leases rt ! i"

definition cap_held :: "exec_rt \<Rightarrow> nat \<Rightarrow> owner_id option" where
  "cap_held rt = held (cap_leases (xr_capacity rt))"

definition hist_held :: "exec_rt \<Rightarrow> nat \<Rightarrow> pystr option" where
  "hist_held rt = held (hr_leases (xr_history rt))"

definition run_held :: "exec_rt \<Rightarrow> nat \<Rightarrow> run_key option" where
  "run_held rt i = (case xr_guard rt of None \<Rightarrow> None | Some g \<Rightarrow> held (guard_leases g) i)"

definition parts_ok :: "exec_rt \<Rightarrow> bool" where
  "parts_ok rt \<longleftrightarrow> cap_ok (xr_capacity rt) \<and> hr_ok (xr_history rt)
     \<and> (\<forall>g. xr_guard rt = Some g \<longrightarrow> guard_ok g)"

definition holds :: "exec_rt \<Rightarrow> exec_lease \<Rightarrow> bool" where
  "holds rt l \<longleftrightarrow> cap_held rt (el_capacity l) \<noteq> None \<and> hist_held rt (el_history l) \<noteq> None
     \<and> (\<forall>a. el_analysis l = Some a \<longrightarrow> run_held rt a \<noteq> None)"

definition disjoint_leases :: "exec_lease \<Rightarrow> exec_lease \<Rightarrow> bool" where
  "disjoint_leases l l' \<longleftrightarrow> el_capacity l \<noteq> el_capacity l' \<and> el_history l \<noteq> el_history l'
     \<and> (el_analysis l = None \<or> el_analysis l \<noteq> el_analysis l')"

definition rt_ok :: "exec_rt \<Rightarrow> bool" where
  "rt_ok rt \<longleftrightarrow> parts_ok rt
     \<and> (\<forall>i. live rt i \<longrightarrow> holds rt (lease_at rt i))
     \<and> (\<forall>i j. live rt i \<and> live rt j \<and> i \<noteq> j \<longrightarrow> disjoint_leases (lease_at rt i) (lease_at rt j))"

definition same_holdings :: "exec_rt \<Rightarrow> exec_rt \<Rightarrow> bool" where
  "same_holdings rt rt' \<longleftrightarrow>
     xr_capacity rt' = xr_capacity rt \<and> xr_history rt' = xr_history rt \<and> xr_guard rt' = xr_guard rt"

text \<open>Operations that touch a lease's bindings only.\<close>

definition same_lease :: "exec_lease \<Rightarrow> exec_lease \<Rightarrow> bool" where
  "same_lease l l' \<longleftrightarrow> el_capacity l' = el_capacity l \<and> el_history l' = el_history l
     \<and> el_analysis l' = el_analysis l \<and> el_released l' = el_released l"

lemma rt_ok_bindings:
  assumes "rt_ok rt" and "same_holdings rt rt'"
    and "list_all2 same_lease (xr_leases rt) (xr_leases rt')"
  shows "rt_ok rt'"
proof -
  have l: "live rt' i = live rt i" for i
    using assms(3) by (auto simp: live_def list_all2_conv_all_nth same_lease_def)
  have e: "same_lease (lease_at rt i) (lease_at rt' i)" if "live rt i" for i
    using assms(3) that by (auto simp: live_def list_all2_conv_all_nth)
  have h: "holds rt' l' = holds rt l" if "same_lease l l'" for l l'
    using that assms(2)
    by (simp add: holds_def cap_held_def hist_held_def run_held_def same_holdings_def same_lease_def)
  have d: "disjoint_leases l1' l2' = disjoint_leases l1 l2" if "same_lease l1 l1'" "same_lease l2 l2'" for l1 l1' l2 l2'
    using that by (simp add: disjoint_leases_def same_lease_def)
  have "parts_ok rt'" using assms(1,2) by (simp add: rt_ok_def parts_ok_def same_holdings_def)
  moreover have "holds rt' (lease_at rt' i)" if "live rt' i" for i
    using assms(1) that h [OF e [of i]] by (simp add: l rt_ok_def)
  moreover have "disjoint_leases (lease_at rt' i) (lease_at rt' j)" if "live rt' i" "live rt' j" "i \<noteq> j" for i j
    using assms(1) that d [OF e [of i] e [of j]] by (simp add: l rt_ok_def)
  ultimately show ?thesis by (simp add: rt_ok_def)
qed

lemma same_lease_refl [simp]: "same_lease l l"
  by (simp add: same_lease_def)

lemma set_lease_bindings:
  "(\<And>l. same_lease l (f l)) \<Longrightarrow> list_all2 same_lease (xr_leases rt) (xr_leases (set_lease i f rt))"
  by (cases "i < length (xr_leases rt)")
    (auto simp: set_lease_def list_all2_conv_all_nth nth_list_update)

section \<open>Reserving\<close>

text \<open>A part of the state may grow by leases of its own without disturbing the others.\<close>

definition grows :: "exec_rt \<Rightarrow> exec_rt \<Rightarrow> bool" where
  "grows rt rt' \<longleftrightarrow> parts_ok rt' \<and> xr_leases rt' = xr_leases rt
     \<and> (\<forall>i. cap_held rt i \<noteq> None \<longrightarrow> cap_held rt' i = cap_held rt i)
     \<and> (\<forall>i. hist_held rt i \<noteq> None \<longrightarrow> hist_held rt' i = hist_held rt i)
     \<and> (\<forall>i. run_held rt i \<noteq> None \<longrightarrow> run_held rt' i = run_held rt i)"

lemma grows_rt_ok: "grows rt rt' \<Longrightarrow> rt_ok rt \<Longrightarrow> rt_ok rt'"
  unfolding grows_def rt_ok_def live_def holds_def by fastforce

text \<open>What a reservation leaves behind when it fails: nothing.\<close>

definition restored :: "exec_rt \<Rightarrow> exec_rt \<Rightarrow> bool" where
  "restored rt rt' \<longleftrightarrow> parts_ok rt' \<and> xr_leases rt' = xr_leases rt
     \<and> cap_held rt' = cap_held rt \<and> hist_held rt' = hist_held rt \<and> run_held rt' = run_held rt"

lemma restored_grows: "restored rt rt' \<Longrightarrow> grows rt rt'"
  by (simp add: restored_def grows_def)

lemma release_capacity_eff:
  assumes "parts_ok rt"
  shows "fst (release_capacity ci rt) = Inr ()"
    and "parts_ok (snd (release_capacity ci rt))"
    and "cap_held (snd (release_capacity ci rt)) = (cap_held rt)(ci := None)"
    and "hist_held (snd (release_capacity ci rt)) = hist_held rt"
    and "run_held (snd (release_capacity ci rt)) = run_held rt"
    and "xr_leases (snd (release_capacity ci rt)) = xr_leases rt"
proof -
  obtain r c where c: "cap_release (xr_capacity rt) ci = (r, c)" by fastforce
  from assms have "cap_ok (xr_capacity rt)" by (simp add: parts_ok_def)
  note rel = cap_release_ok [OF this c]
  have e: "release_capacity ci rt = (Inr (), rt\<lparr>xr_capacity := c\<rparr>)"
    using rel(2) by (simp add: release_capacity_def c)
  show "fst (release_capacity ci rt) = Inr ()"
    and "hist_held (snd (release_capacity ci rt)) = hist_held rt"
    and "run_held (snd (release_capacity ci rt)) = run_held rt"
    and "xr_leases (snd (release_capacity ci rt)) = xr_leases rt"
    by (simp_all add: e hist_held_def run_held_def fun_eq_iff)
  show "parts_ok (snd (release_capacity ci rt))" using assms rel(1) by (simp add: e parts_ok_def)
  show "cap_held (snd (release_capacity ci rt)) = (cap_held rt)(ci := None)"
    by (simp add: e cap_held_def rel(3) held_mark_released)
qed

lemma release_history_eff:
  assumes "parts_ok rt"
  shows "parts_ok (release_history hi rt)"
    and "hist_held (release_history hi rt) = (hist_held rt)(hi := None)"
    and "cap_held (release_history hi rt) = cap_held rt"
    and "run_held (release_history hi rt) = run_held rt"
    and "xr_leases (release_history hi rt) = xr_leases rt"
  using assms history.release_eff [of "xr_history rt" hi]
  by (simp_all add: release_history_def parts_ok_def hist_held_def cap_held_def run_held_def fun_eq_iff)

lemma release_analysis_eff:
  assumes "parts_ok rt"
  shows "parts_ok (release_analysis ai rt)"
    and "run_held (release_analysis ai rt) = (case ai of None \<Rightarrow> run_held rt | Some a \<Rightarrow> (run_held rt)(a := None))"
    and "cap_held (release_analysis ai rt) = cap_held rt"
    and "hist_held (release_analysis ai rt) = hist_held rt"
    and "xr_leases (release_analysis ai rt) = xr_leases rt"
  using assms run_guard.release_eff
  by (auto simp: release_analysis_def parts_ok_def hist_held_def cap_held_def run_held_def fun_eq_iff
      split: option.splits)

lemmas release_effs = release_capacity_eff release_history_eff release_analysis_eff

lemma give_back_eff:
  assumes "parts_ok rt" and "give_back e ci hi ai rt = (r, rt')"
  shows "r = Inl e" and "parts_ok rt'" and "xr_leases rt' = xr_leases rt"
    and "cap_held rt' = (cap_held rt)(ci := None)"
    and "hist_held rt' = (case hi of None \<Rightarrow> hist_held rt | Some i \<Rightarrow> (hist_held rt)(i := None))"
    and "run_held rt' = (case ai of None \<Rightarrow> run_held rt | Some a \<Rightarrow> (run_held rt)(a := None))"
proof -
  define rt1 where "rt1 = release_analysis ai rt"
  define rt2 where "rt2 = (case hi of None \<Rightarrow> rt1 | Some i \<Rightarrow> release_history i rt1)"
  have p1: "parts_ok rt1" using release_analysis_eff(1) [OF assms(1)] by (simp add: rt1_def)
  then have p2: "parts_ok rt2" using release_history_eff(1) by (auto simp: rt2_def split: option.split)
  note cap = release_capacity_eff [OF p2, of ci]
  from assms(2) have "(case release_capacity ci rt2 of (Inl e', rt3) \<Rightarrow> (Inl e', rt3)
      | (Inr _, rt3) \<Rightarrow> (Inl e, rt3)) = (r, rt')"
    unfolding give_back_def Let_def rt1_def rt2_def .
  with cap(1) have r: "r = Inl e" and rt': "rt' = snd (release_capacity ci rt2)"
    by (auto split: prod.splits sum.splits)
  show "r = Inl e" by (rule r)
  show "parts_ok rt'" by (simp add: rt' cap)
  have h: "hist_held rt2 = (case hi of None \<Rightarrow> hist_held rt1 | Some i \<Rightarrow> (hist_held rt1)(i := None))"
    "cap_held rt2 = cap_held rt1" "run_held rt2 = run_held rt1" "xr_leases rt2 = xr_leases rt1"
    using release_history_eff [OF p1] by (auto simp: rt2_def split: option.split)
  show "xr_leases rt' = xr_leases rt" "cap_held rt' = (cap_held rt)(ci := None)"
    "hist_held rt' = (case hi of None \<Rightarrow> hist_held rt | Some i \<Rightarrow> (hist_held rt)(i := None))"
    "run_held rt' = (case ai of None \<Rightarrow> run_held rt | Some a \<Rightarrow> (run_held rt)(a := None))"
    using release_analysis_eff [OF assms(1), of ai]
    by (simp_all add: rt' cap h rt1_def split: option.split)
qed

text \<open>A lease that is about to be handed out: the parts are fresh.\<close>

definition fresh_parts :: "exec_rt \<Rightarrow> exec_rt \<Rightarrow> owner_id \<Rightarrow> nat \<Rightarrow> pystr \<Rightarrow> nat \<Rightarrow> run_key option \<Rightarrow> nat option \<Rightarrow> bool" where
  "fresh_parts rt rt' owner ci history hi key ai \<longleftrightarrow>
     parts_ok rt' \<and> xr_leases rt' = xr_leases rt
     \<and> cap_held rt ci = None \<and> cap_held rt' = (cap_held rt)(ci \<mapsto> owner)
     \<and> hist_held rt hi = None \<and> hist_held rt' = (hist_held rt)(hi \<mapsto> history)
     \<and> (case (ai, key) of
          (Some a, Some k) \<Rightarrow> run_held rt a = None \<and> run_held rt' = (run_held rt)(a \<mapsto> k)
        | (None, None) \<Rightarrow> run_held rt' = run_held rt
        | _ \<Rightarrow> False)"

lemma upd_back: "f i = None \<Longrightarrow> (f(i \<mapsto> k))(i := None) = f"
  by auto

lemma conclude_reserve_eff:
  assumes "fresh_parts rt rt1 owner ci history hi key ai" and "conclude_reserve ci hi ai rt1 = (r, rt')"
  shows "(r = Inl (XrRuntime ExecutionRuntimeClosed) \<and> restored rt rt')
    \<or> (r = Inr (length (xr_leases rt)) \<and> rt' = rt1\<lparr>xr_leases := xr_leases rt @ [new_lease ci hi ai]\<rparr>)"
proof (cases "cap_accepting (xr_capacity rt1)")
  case False
  with assms(2) have g: "give_back (XrRuntime ExecutionRuntimeClosed) ci (Some hi) ai rt1 = (r, rt')"
    by (simp add: conclude_reserve_def)
  have "parts_ok rt1" using assms(1) by (simp add: fresh_parts_def)
  note b = give_back_eff [OF this g]
  have "restored rt rt'"
    using assms(1) b by (auto simp: fresh_parts_def restored_def upd_back split: option.splits)
  with b(1) show ?thesis by simp
qed (use assms in \<open>simp add: conclude_reserve_def fresh_parts_def\<close>)

text \<open>The outcome of a reservation that began in \<open>rt\<close>.\<close>

definition reserved ::
  "exec_rt \<Rightarrow> owner_id \<Rightarrow> pystr \<Rightarrow> (pystr \<times> pystr) option \<Rightarrow> pystr option \<Rightarrow> (xr_error + nat) \<times> exec_rt \<Rightarrow> bool" where
  "reserved rt owner history auth run out \<longleftrightarrow>
     (\<exists>e. fst out = Inl e) \<and> restored rt (snd out)
     \<or> fst out = Inr (length (xr_leases rt))
       \<and> (\<exists>rt1 ci hi key ai. fresh_parts rt rt1 owner ci history hi key ai
            \<and> snd out = rt1\<lparr>xr_leases := xr_leases rt @ [new_lease ci hi ai]\<rparr>
            \<and> key = (case (run, auth) of (Some q, Some (p, s)) \<Rightarrow> Some (p, s, q) | _ \<Rightarrow> None)
            \<and> (run = None \<longleftrightarrow> key = None))"

lemma reserved_fail: "r = Inl e \<Longrightarrow> restored rt rt' \<Longrightarrow> reserved rt owner history auth run (r, rt')"
  by (simp add: reserved_def)

lemma reserved_conclude:
  assumes "fresh_parts rt rt1 owner ci history hi key ai" and "conclude_reserve ci hi ai rt1 = (r, rt')"
    and "key = (case (run, auth) of (Some q, Some (p, s)) \<Rightarrow> Some (p, s, q) | _ \<Rightarrow> None)"
    and "run = None \<longleftrightarrow> key = None"
  shows "reserved rt owner history auth run (r, rt')"
  using conclude_reserve_eff [OF assms(1,2)] assms(1,3,4) unfolding reserved_def by fastforce

lemma reserve_run_eff:
  assumes "fresh_parts rt rt2 owner ci history hi None None"
    and "reserve_run ci hi auth run rt2 = (r, rt')"
  shows "reserved rt owner history auth run (r, rt')"
proof (cases run)
  case None
  with assms show ?thesis by (auto simp: reserve_run_def intro: reserved_conclude)
next
  case (Some q)
  have p2: "parts_ok rt2" using assms(1) by (simp add: fresh_parts_def)
  have undone: "reserved rt owner history auth run (r, rt')" if "give_back e ci (Some hi) None rt2 = (r, rt')" for e
  proof -
    note b = give_back_eff [OF p2 that]
    have "restored rt rt'" using b assms(1) by (auto simp: fresh_parts_def restored_def)
    with b(1) show ?thesis by (rule reserved_fail)
  qed
  show ?thesis
  proof (cases "xr_guard rt2 = None \<or> auth = None")
    case True
    with assms(2) Some show ?thesis by (intro undone) (auto simp: reserve_run_def split: option.splits)
  next
    case False
    then obtain g p s where g: "xr_guard rt2 = Some g" and a: "auth = Some (p, s)" by auto
    show ?thesis
    proof (cases "guard_reserve g (p, s, q)")
      case (Inl e)
      with assms(2) Some g a show ?thesis by (intro undone) (simp add: reserve_run_def)
    next
      case (Inr gg)
      obtain g1 gi where gg: "gg = (g1, gi)" by fastforce
      have "guard_ok g" using p2 g by (simp add: parts_ok_def)
      moreover have "guard_reserve_step () g (p, s, q) = (Inr gi, g1)"
        using Inr by (simp add: guard_reserve_step_def gg)
      ultimately have gI: "guard_ok g1 \<and> (p, s, q) \<notin> guard_running g \<and>
          guard_running g1 = insert (p, s, q) (guard_running g) \<and>
          held (guard_leases g) gi = None \<and> held (guard_leases g1) = (held (guard_leases g))(gi \<mapsto> (p, s, q))"
        by (rule run_guard.reserve_Inr)
      have "fresh_parts rt (rt2\<lparr>xr_guard := Some g1\<rparr>) owner ci history hi (Some (p, s, q)) (Some gi)"
        using assms(1) gI g
        by (auto simp: fresh_parts_def parts_ok_def cap_held_def hist_held_def run_held_def fun_eq_iff)
      moreover have "conclude_reserve ci hi (Some gi) (rt2\<lparr>xr_guard := Some g1\<rparr>) = (r, rt')"
        using assms(2) Inr g a by (simp add: reserve_run_def gg Some)
      ultimately show ?thesis by (rule reserved_conclude) (simp_all add: Some a)
    qed
  qed
qed

text \<open>Only the quota is taken.\<close>

definition slot_taken :: "exec_rt \<Rightarrow> exec_rt \<Rightarrow> owner_id \<Rightarrow> nat \<Rightarrow> bool" where
  "slot_taken rt rt1 owner ci \<longleftrightarrow> parts_ok rt1 \<and> xr_leases rt1 = xr_leases rt
     \<and> cap_held rt ci = None \<and> cap_held rt1 = (cap_held rt)(ci \<mapsto> owner)
     \<and> hist_held rt1 = hist_held rt \<and> run_held rt1 = run_held rt"

lemma reserve_history_eff:
  assumes "slot_taken rt rt1 owner ci" and "reserve_history ping ci history auth run rt1 = (r, rt')"
  shows "reserved rt owner history auth run (r, rt')"
proof -
  obtain hr h where hh: "hr_reserve ping (xr_history rt1) history = (hr, h)" by fastforce
  have hok: "hr_ok (xr_history rt1)" using assms(1) by (simp add: slot_taken_def parts_ok_def)
  show ?thesis
  proof (cases hr)
    case (Inl e)
    note hI = history.reserve_Inl [OF hok hh [unfolded Inl]]
    have g: "give_back (XrHistory e) ci None None (rt1\<lparr>xr_history := h\<rparr>) = (r, rt')"
      using assms(2) hh by (simp add: reserve_history_def Inl)
    have "parts_ok (rt1\<lparr>xr_history := h\<rparr>)" using assms(1) hI by (simp add: slot_taken_def parts_ok_def)
    note b = give_back_eff [OF this g]
    have "restored rt rt'"
      using b assms(1) hI
      by (auto simp: slot_taken_def restored_def upd_back cap_held_def hist_held_def run_held_def fun_eq_iff)
    with b(1) show ?thesis by (rule reserved_fail)
  next
    case (Inr hi)
    note hI = history.reserve_Inr [OF hok hh [unfolded Inr]]
    have "fresh_parts rt (rt1\<lparr>xr_history := h\<rparr>) owner ci history hi None None"
      using assms(1) hI
      by (auto simp: slot_taken_def fresh_parts_def parts_ok_def cap_held_def hist_held_def run_held_def fun_eq_iff)
    moreover have "reserve_run ci hi auth run (rt1\<lparr>xr_history := h\<rparr>) = (r, rt')"
      using assms(2) hh by (simp add: reserve_history_def Inr)
    ultimately show ?thesis by (rule reserve_run_eff)
  qed
qed

lemma xr_reserve_eff:
  assumes ok: "parts_ok rt" and res: "xr_reserve ping closing owner history auth run rt = (r, rt')"
  shows "reserved rt owner history auth run (r, rt')"
proof (cases "(\<exists>n. owner = OwnerInt n \<and> 1 \<le> n) \<and> (\<exists>x. reserve_owner (xr_capacity rt) owner = Inr x)")
  case False
  have "restored rt rt" using ok by (simp add: restored_def)
  with False res show ?thesis
    by (cases "reserve_owner (xr_capacity rt) owner") (auto simp: xr_reserve_def reserved_def split: if_splits)
next
  case True
  then obtain c ci where own: "\<exists>n. owner = OwnerInt n \<and> 1 \<le> n"
    and ro: "reserve_owner (xr_capacity rt) owner = Inr (c, ci)" by fastforce
  have "cap_ok (xr_capacity rt)" using ok by (simp add: parts_ok_def)
  note c = reserve_owner_ok [OF this ro]
  let ?c1 = "if closing then close_admission c else c"
  have c1: "cap_ok ?c1" "cap_leases ?c1 = cap_leases c"
    using close_admission_ok [OF c(1)] c(1) by (simp_all add: close_admission_def)
  have "slot_taken rt (rt\<lparr>xr_capacity := ?c1\<rparr>) owner ci"
    using ok c c1 by (simp add: slot_taken_def parts_ok_def cap_held_def hist_held_def run_held_def fun_eq_iff)
  moreover have "reserve_history ping ci history auth run (rt\<lparr>xr_capacity := ?c1\<rparr>) = (r, rt')"
    using res own ro by (simp add: xr_reserve_def)
  ultimately show ?thesis by (rule reserve_history_eff)
qed

end
