(* ===== verification/Runtime_Leases.thy ===== *)
theory Runtime_Leases
  imports Runtime_Properties
begin

text \<open>
  The life of execution leases: releasing one returns everything it holds whatever goes wrong on the
  way, the invariant of the runtime, and the properties of its reachable states.
\<close>

section \<open>Releasing\<close>

lemma snd_finally_do [simp]: "snd (finally_do body cleanup rt) = snd (cleanup (snd (body rt)))"
  by (simp add: finally_do_def Let_def split: prod.split)

lemma fst_finally_do:
  "fst (finally_do body cleanup rt) =
     (case fst (cleanup (snd (body rt))) of Inl e \<Rightarrow> Inl e | Inr _ \<Rightarrow> fst (body rt))"
  by (cases "body rt"; cases "cleanup (snd (body rt))") (simp add: finally_do_def split: sum.split)

definition same_leases :: "exec_rt \<Rightarrow> exec_rt \<Rightarrow> bool" where
  "same_leases rt rt' \<longleftrightarrow> same_holdings rt rt' \<and> xr_leases rt' = xr_leases rt"

lemma same_leases_trans: "same_leases a b \<Longrightarrow> same_leases b c \<Longrightarrow> same_leases a c"
  by (simp add: same_leases_def same_holdings_def)

lemma same_leases_refl [simp]: "same_leases rt rt"
  by (simp add: same_leases_def same_holdings_def)

lemma release_event_channel_same: "same_leases rt (snd (release_event_channel x k rt))"
  by (auto simp: release_event_channel_def same_leases_def same_holdings_def Let_def
      split: option.splits prod.splits sum.splits)

lemma release_stop_control_same: "same_leases rt (snd (release_stop_control x k rt))"
  by (auto simp: release_stop_control_def same_leases_def same_holdings_def split: option.splits)

lemma release_bindings_same: "same_leases rt (snd (release_bindings l rt))"
  using same_leases_trans [OF release_event_channel_same release_stop_control_same]
  by (cases "el_execution l") (simp_all add: release_bindings_def)

lemma same_leases_parts:
  assumes "same_leases rt rt'"
  shows "parts_ok rt' = parts_ok rt" and "cap_held rt' = cap_held rt" and "hist_held rt' = hist_held rt"
    and "run_held rt' = run_held rt" and "xr_leases rt' = xr_leases rt"
  using assms by (simp_all add: same_leases_def same_holdings_def parts_ok_def cap_held_def hist_held_def
      run_held_def fun_eq_iff)

lemma xr_release_eff:
  assumes "parts_ok rt" and "live rt i"
  defines "l \<equiv> lease_at rt i" and "rt' \<equiv> snd (xr_release i rt)"
  shows "parts_ok rt'" and "cap_held rt' = (cap_held rt)(el_capacity l := None)"
    and "hist_held rt' = (hist_held rt)(el_history l := None)"
    and "run_held rt' = (case el_analysis l of None \<Rightarrow> run_held rt | Some a \<Rightarrow> (run_held rt)(a := None))"
    and "xr_leases rt' = (xr_leases rt)[i := l\<lparr>el_released := True\<rparr>]"
proof -
  define rt1 where "rt1 = set_lease i (\<lambda>l. l\<lparr>el_released := True\<rparr>) rt"
  define rt2 where "rt2 = snd (release_bindings l rt1)"
  define rt3 where "rt3 = release_analysis (el_analysis l) rt2"
  define rt4 where "rt4 = release_history (el_history l) rt3"
  have rt': "rt' = snd (release_capacity (el_capacity l) rt4)"
    using assms(2) by (simp add: rt'_def xr_release_def l_def live_def Let_def rt1_def rt2_def rt3_def rt4_def)
  have p1: "parts_ok rt1" "cap_held rt1 = cap_held rt" "hist_held rt1 = hist_held rt" "run_held rt1 = run_held rt"
    "xr_leases rt1 = (xr_leases rt)[i := l\<lparr>el_released := True\<rparr>]"
    using assms(1) by (simp_all add: rt1_def set_lease_def parts_ok_def cap_held_def hist_held_def run_held_def
        fun_eq_iff l_def)
  have p2: "parts_ok rt2" "cap_held rt2 = cap_held rt1" "hist_held rt2 = hist_held rt1"
    "run_held rt2 = run_held rt1" "xr_leases rt2 = xr_leases rt1"
    using same_leases_parts [OF release_bindings_same [of rt1 l]] p1(1) by (simp_all add: rt2_def)
  note e3 = release_analysis_eff [OF p2(1), of "el_analysis l", folded rt3_def]
  note e4 = release_history_eff [OF e3(1), of "el_history l", folded rt4_def]
  note e5 = release_capacity_eff [OF e4(1), of "el_capacity l", folded rt']
  show "parts_ok rt'" "cap_held rt' = (cap_held rt)(el_capacity l := None)"
    "hist_held rt' = (hist_held rt)(el_history l := None)"
    "run_held rt' = (case el_analysis l of None \<Rightarrow> run_held rt | Some a \<Rightarrow> (run_held rt)(a := None))"
    "xr_leases rt' = (xr_leases rt)[i := l\<lparr>el_released := True\<rparr>]"
    using e3 e4 e5 p2 p1 by (simp_all split: option.split)
qed

lemma xr_release_released: "\<not> live rt i \<Longrightarrow> i < length (xr_leases rt) \<Longrightarrow> xr_release i rt = (Inr (), rt)"
  by (simp add: live_def xr_release_def Let_def)

section \<open>Steps\<close>

inductive xr_step :: "exec_rt \<Rightarrow> exec_rt \<Rightarrow> bool" where
  reserve: "xr_reserve ping closing owner history auth run rt = (r, rt') \<Longrightarrow> xr_step rt rt'"
| release: "i < length (xr_leases rt) \<Longrightarrow> xr_release i rt = (r, rt') \<Longrightarrow> xr_step rt rt'"
| attach: "attach_progress i x ch rt = (r, rt') \<Longrightarrow> xr_step rt rt'"
| bind: "bind_stop_control i x progress clock remaining status reason rt = (r, rt') \<Longrightarrow> xr_step rt rt'"
| request: "xr_request_stop x why p rt = (r, rt') \<Longrightarrow> xr_step rt rt'"
| signal: "signal_stop x why rt = (r, rt') \<Longrightarrow> xr_step rt rt'"
| subscribe: "subscribe_execution x rt = (r, rt') \<Longrightarrow> xr_step rt rt'"
| submit: "submit pool i rt = (r, rt') \<Longrightarrow> xr_step rt rt'"
| enter: "xr_step rt (enter_operation key rt)"
| leave: "leave_operation key rt = Inr rt' \<Longrightarrow> xr_step rt rt'"
| close: "xr_step rt (rt\<lparr>xr_capacity := close_admission (xr_capacity rt)\<rparr>)"
| admit: "reserve_owner (xr_capacity rt) owner = Inr (c, ci) \<Longrightarrow> xr_step rt (rt\<lparr>xr_capacity := c\<rparr>)"
| admitted: "(\<forall>j. live rt j \<longrightarrow> el_capacity (lease_at rt j) \<noteq> ci) \<Longrightarrow>
    cap_release (xr_capacity rt) ci = (r, c) \<Longrightarrow> xr_step rt (rt\<lparr>xr_capacity := c\<rparr>)"

text \<open>The last two rules are a synchronous request, which takes and returns a slot of its own.\<close>

inductive xr_reachable :: "exec_rt \<Rightarrow> bool" where
  start: "new_runtime max_user max_all interval h g = Inr rt \<Longrightarrow> hr_ok h \<Longrightarrow>
    (\<forall>g'. g = Some g' \<longrightarrow> guard_ok g') \<Longrightarrow> xr_reachable rt"
| step: "xr_reachable rt \<Longrightarrow> xr_step rt rt' \<Longrightarrow> xr_reachable rt'"

section \<open>The invariant is kept\<close>

lemma new_runtime_ok:
  "new_runtime max_user max_all interval h g = Inr rt \<Longrightarrow> hr_ok h \<Longrightarrow> (\<forall>g'. g = Some g' \<longrightarrow> guard_ok g') \<Longrightarrow> rt_ok rt"
  by (auto simp: new_runtime_def rt_ok_def parts_ok_def live_def new_capacity_ok split: sum.splits)

lemma live_snoc:
  "live (rt\<lparr>xr_leases := ls @ [l]\<rparr>) i \<longleftrightarrow> live (rt\<lparr>xr_leases := ls\<rparr>) i \<or> (i = length ls \<and> \<not> el_released l)"
  by (auto simp: live_def nth_append)

lemma fresh_parts_rt_ok:
  assumes ok: "rt_ok rt" and f: "fresh_parts rt rt1 owner ci history hi key ai"
  shows "rt_ok (rt1\<lparr>xr_leases := xr_leases rt @ [new_lease ci hi ai]\<rparr>)"
proof -
  let ?rt' = "rt1\<lparr>xr_leases := xr_leases rt @ [new_lease ci hi ai]\<rparr>"
  let ?n = "length (xr_leases rt)"
  have l: "live ?rt' i \<longleftrightarrow> live rt i \<or> i = ?n" for i
    by (auto simp: live_def nth_append new_lease_def)
  have at: "lease_at ?rt' ?n = new_lease ci hi ai" "live rt i \<Longrightarrow> lease_at ?rt' i = lease_at rt i \<and> i \<noteq> ?n" for i
    by (auto simp: live_def nth_append)
  have h: "cap_held ?rt' = (cap_held rt)(ci \<mapsto> owner)" "hist_held ?rt' = (hist_held rt)(hi \<mapsto> history)"
    "cap_held rt ci = None" "hist_held rt hi = None"
    "ai = None \<and> run_held ?rt' = run_held rt
     \<or> (\<exists>a k. ai = Some a \<and> run_held rt a = None \<and> run_held ?rt' = (run_held rt)(a \<mapsto> k))"
  proof -
    have same: "cap_held ?rt' = cap_held rt1" "hist_held ?rt' = hist_held rt1" "run_held ?rt' = run_held rt1"
      by (simp_all add: cap_held_def hist_held_def run_held_def fun_eq_iff)
    show "cap_held ?rt' = (cap_held rt)(ci \<mapsto> owner)" "hist_held ?rt' = (hist_held rt)(hi \<mapsto> history)"
      "cap_held rt ci = None" "hist_held rt hi = None"
      using f by (simp_all add: fresh_parts_def same)
    show "ai = None \<and> run_held ?rt' = run_held rt
     \<or> (\<exists>a k. ai = Some a \<and> run_held rt a = None \<and> run_held ?rt' = (run_held rt)(a \<mapsto> k))"
      using f unfolding fresh_parts_def same by (auto split: option.splits)
  qed
  have new: "holds ?rt' (new_lease ci hi ai)"
    using h by (auto simp: holds_def new_lease_def)
  have old: "holds ?rt' (lease_at rt i)" if "live rt i" for i
  proof -
    have "holds rt (lease_at rt i)" using ok that by (simp add: rt_ok_def)
    then show ?thesis using h by (auto simp: holds_def)
  qed
  have apart: "disjoint_leases (lease_at rt i) (new_lease ci hi ai)" "disjoint_leases (new_lease ci hi ai) (lease_at rt i)"
    if "live rt i" for i
  proof -
    have "holds rt (lease_at rt i)" using ok that by (simp add: rt_ok_def)
    moreover from this have "ai = None \<or> el_analysis (lease_at rt i) \<noteq> ai"
      using h(5) by (auto simp: holds_def)
    ultimately show "disjoint_leases (lease_at rt i) (new_lease ci hi ai)" "disjoint_leases (new_lease ci hi ai) (lease_at rt i)"
      using h(3,4) by (auto simp: holds_def disjoint_leases_def new_lease_def)
  qed
  have "parts_ok ?rt'" using f by (simp add: fresh_parts_def parts_ok_def)
  moreover have "\<forall>i. live ?rt' i \<longrightarrow> holds ?rt' (lease_at ?rt' i)"
    unfolding l using new old at by metis
  moreover have "\<forall>i j. live ?rt' i \<and> live ?rt' j \<and> i \<noteq> j \<longrightarrow> disjoint_leases (lease_at ?rt' i) (lease_at ?rt' j)"
    unfolding l using ok apart at unfolding rt_ok_def by metis
  ultimately show ?thesis unfolding rt_ok_def by blast
qed

lemma reserve_rt_ok:
  assumes "rt_ok rt" and "xr_reserve ping closing owner history auth run rt = (r, rt')"
  shows "rt_ok rt'"
proof -
  have p: "parts_ok rt" using assms(1) by (simp add: rt_ok_def)
  from xr_reserve_eff [OF p assms(2)] consider "restored rt rt'"
    | rt1 ci hi key ai where "fresh_parts rt rt1 owner ci history hi key ai"
      "rt' = rt1\<lparr>xr_leases := xr_leases rt @ [new_lease ci hi ai]\<rparr>"
    by (auto simp: reserved_def)
  then show ?thesis
  proof cases
    case 1 then show ?thesis using grows_rt_ok [OF restored_grows assms(1)] by blast
  next
    case 2 then show ?thesis using fresh_parts_rt_ok [OF assms(1)] by blast
  qed
qed

lemma release_rt_ok:
  assumes "rt_ok rt" and "i < length (xr_leases rt)" and "xr_release i rt = (r, rt')"
  shows "rt_ok rt'"
proof (cases "live rt i")
  case False
  with assms show ?thesis by (simp add: xr_release_released)
next
  case True
  have p: "parts_ok rt" using assms(1) by (simp add: rt_ok_def)
  have rt': "rt' = snd (xr_release i rt)" by (simp add: assms(3))
  note e = xr_release_eff [OF p True, folded rt']
  have l: "live rt' j \<longleftrightarrow> live rt j \<and> j \<noteq> i" "live rt' j \<Longrightarrow> lease_at rt' j = lease_at rt j" for j
    using True by (auto simp: live_def e(5) nth_list_update split: if_splits)
  have "holds rt' (lease_at rt j)" if "live rt j" "j \<noteq> i" for j
  proof -
    have "holds rt (lease_at rt j)" "disjoint_leases (lease_at rt j) (lease_at rt i)"
      using assms(1) that True by (auto simp: rt_ok_def)
    then show ?thesis
      using e by (auto simp: holds_def disjoint_leases_def split: option.splits)
  qed
  with e(1) l assms(1) show ?thesis unfolding rt_ok_def by metis
qed

lemma capacity_rt_ok:
  assumes "rt_ok rt" and "cap_ok c"
    and "\<And>i. held (cap_leases (xr_capacity rt)) i \<noteq> None \<Longrightarrow> live_slot i \<Longrightarrow>
           held (cap_leases c) i \<noteq> None"
    and "\<And>j. live rt j \<Longrightarrow> live_slot (el_capacity (lease_at rt j))"
  shows "rt_ok (rt\<lparr>xr_capacity := c\<rparr>)"
proof -
  have "live (rt\<lparr>xr_capacity := c\<rparr>) i = live rt i" for i by (simp add: live_def)
  moreover have "holds (rt\<lparr>xr_capacity := c\<rparr>) (lease_at rt i)" if "live rt i" for i
    using assms(1,3,4) that by (auto simp: rt_ok_def holds_def cap_held_def hist_held_def run_held_def)
  moreover have "parts_ok (rt\<lparr>xr_capacity := c\<rparr>)"
    using assms(1,2) by (simp add: rt_ok_def parts_ok_def)
  ultimately show ?thesis using assms(1) by (auto simp: rt_ok_def)
qed

lemma put_control_same: "same_leases rt (put_control k s rt)"
  by (auto simp: put_control_def same_leases_def same_holdings_def split: prod.split)

lemma on_control_same: "on_control k f rt = (r, rt') \<Longrightarrow> same_leases rt rt'"
  using put_control_same by (auto simp: on_control_def split: prod.splits)

lemma same_leases_rt_ok: "rt_ok rt \<Longrightarrow> same_leases rt rt' \<Longrightarrow> rt_ok rt'"
  by (erule rt_ok_bindings) (simp_all add: same_leases_def list.rel_refl)

lemma set_lease_rt_ok:
  assumes "rt_ok rt" and "\<And>l. same_lease l (f l)"
  shows "rt_ok (set_lease i f rt)"
  using assms(1) _ set_lease_bindings [OF assms(2)]
  by (rule rt_ok_bindings) (simp add: same_holdings_def set_lease_def)

lemma attach_rt_ok:
  assumes "rt_ok rt" and "attach_progress i x ch rt = (r, rt')"
  shows "rt_ok rt'"
proof -
  let ?rt1 = "rt\<lparr>xr_chans := xr_chans rt @ [ch], xr_channel_of := (xr_channel_of rt)(x \<mapsto> length (xr_chans rt))\<rparr>"
  have "same_leases rt ?rt1" by (simp add: same_leases_def same_holdings_def)
  then have "rt_ok ?rt1" by (rule same_leases_rt_ok [OF assms(1)])
  then have "rt_ok (set_lease i (\<lambda>l. l\<lparr>el_execution := Some x, el_channel := Some (length (xr_chans rt))\<rparr>) ?rt1)"
    by (rule set_lease_rt_ok) (simp add: same_lease_def)
  with assms show ?thesis by (auto simp: attach_progress_def Let_def split: if_splits)
qed

lemma bind_rt_ok:
  assumes "rt_ok rt" and "bind_stop_control i x progress clock remaining status reason rt = (r, rt')"
  shows "rt_ok rt'"
proof -
  let ?k = "length (xr_controls rt)"
  let ?rt1 = "rt\<lparr>xr_controls := xr_controls rt @ [(new_control x (clock + max 0 remaining), progress)]\<rparr>"
  have s1: "same_leases rt ?rt1" by (simp add: same_leases_def same_holdings_def)
  obtain r2 rt2 where e: "(if status = Stopping
      then on_control ?k (signal (case reason of None \<Rightarrow> USER_CANCELLED | Some q \<Rightarrow> q)) ?rt1
      else (Inr (), ?rt1)) = (r2, rt2)" by fastforce
  have s2: "same_leases ?rt1 rt2"
    using e on_control_same same_leases_refl by (simp split: if_splits)
  have "rt' = rt \<or> rt' = rt2 \<or>
      rt' = set_lease i (\<lambda>l. l\<lparr>el_control := Some ?k\<rparr>) (rt2\<lparr>xr_control_of := (xr_control_of rt2)(x \<mapsto> ?k)\<rparr>)"
    using assms(2) unfolding bind_stop_control_def Let_def e by (auto split: if_splits sum.splits)
  with s2 have "rt' = rt \<or> (\<exists>rt2. same_leases ?rt1 rt2 \<and> (rt' = rt2 \<or>
      rt' = set_lease i (\<lambda>l. l\<lparr>el_control := Some ?k\<rparr>) (rt2\<lparr>xr_control_of := (xr_control_of rt2)(x \<mapsto> ?k)\<rparr>)))"
    by blast
  then consider "rt' = rt" | rt2 where "same_leases ?rt1 rt2" "rt' = rt2"
    | rt2 where "same_leases ?rt1 rt2"
      "rt' = set_lease i (\<lambda>l. l\<lparr>el_control := Some ?k\<rparr>) (rt2\<lparr>xr_control_of := (xr_control_of rt2)(x \<mapsto> ?k)\<rparr>)"
    by blast
  then show ?thesis
  proof cases
    case 1 then show ?thesis using assms(1) by simp
  next
    case 2 then show ?thesis using same_leases_rt_ok [OF assms(1) same_leases_trans [OF s1]] by simp
  next
    case 3
    have "same_leases rt2 (rt2\<lparr>xr_control_of := (xr_control_of rt2)(x \<mapsto> ?k)\<rparr>)"
      by (simp add: same_leases_def same_holdings_def)
    from same_leases_rt_ok [OF assms(1) same_leases_trans [OF s1 same_leases_trans [OF 3(1) this]]]
    show ?thesis unfolding 3(2) by (rule set_lease_rt_ok) (simp add: same_lease_def)
  qed
qed

lemma xr_step_ok:
  assumes "xr_step rt rt'" and "rt_ok rt"
  shows "rt_ok rt'"
  using assms
proof cases
  case (reserve ping closing owner history auth run r)
  with assms(2) show ?thesis using reserve_rt_ok by blast
next
  case (release i r)
  with assms(2) show ?thesis using release_rt_ok by blast
next
  case (attach i x ch r)
  with assms(2) show ?thesis using attach_rt_ok by blast
next
  case (bind i x progress clock remaining status reason r)
  with assms(2) show ?thesis using bind_rt_ok by blast
next
  case (request x why p r)
  then have "same_leases rt rt'"
    by (auto simp: xr_request_stop_def split: option.splits sum.splits prod.splits dest: on_control_same)
  with assms(2) show ?thesis by (rule same_leases_rt_ok)
next
  case (signal x why r)
  then have "same_leases rt rt'"
    by (auto simp: signal_stop_def split: option.splits sum.splits prod.splits dest: on_control_same)
  with assms(2) show ?thesis by (rule same_leases_rt_ok)
next
  case (subscribe x r)
  then have "same_leases rt rt'"
    by (auto simp: subscribe_execution_def same_leases_def same_holdings_def split: option.splits prod.splits)
  with assms(2) show ?thesis by (rule same_leases_rt_ok)
next
  case (submit pool i r)
  then have "rt' = rt \<or> rt' = set_lease i (\<lambda>l. l\<lparr>el_submitted := True\<rparr>) rt"
    by (auto simp: submit_def Let_def split: if_splits)
  moreover have "rt_ok (set_lease i (\<lambda>l. l\<lparr>el_submitted := True\<rparr>) rt)"
    by (rule set_lease_rt_ok [OF assms(2)]) (simp add: same_lease_def)
  ultimately show ?thesis using assms(2) by blast
next
  case (enter key)
  then have "same_leases rt rt'" by (simp add: enter_operation_def same_leases_def same_holdings_def)
  with assms(2) show ?thesis by (rule same_leases_rt_ok)
next
  case (leave key)
  then have "same_leases rt rt'"
    by (auto simp: leave_operation_def same_leases_def same_holdings_def split: option.splits if_splits)
  with assms(2) show ?thesis by (rule same_leases_rt_ok)
next
  case close
  have "cap_ok (xr_capacity rt)" using assms(2) by (simp add: rt_ok_def parts_ok_def)
  then have "cap_ok (close_admission (xr_capacity rt))" by (rule close_admission_ok)
  then show ?thesis unfolding close
    by (rule capacity_rt_ok [OF assms(2), where live_slot = "\<lambda>_. True"]) (simp_all add: close_admission_def)
next
  case (admit owner c ci)
  have "cap_ok (xr_capacity rt)" using assms(2) by (simp add: rt_ok_def parts_ok_def)
  note r = reserve_owner_ok [OF this admit(2)]
  show ?thesis unfolding admit(1)
    by (rule capacity_rt_ok [OF assms(2) r(1), where live_slot = "\<lambda>_. True"]) (auto simp: r(3))
next
  case (admitted ci r c)
  have "cap_ok (xr_capacity rt)" using assms(2) by (simp add: rt_ok_def parts_ok_def)
  note r = cap_release_ok [OF this admitted(3)]
  show ?thesis unfolding admitted(1)
    by (rule capacity_rt_ok [OF assms(2) r(1), where live_slot = "\<lambda>i. i \<noteq> ci"])
      (use admitted(2) in \<open>auto simp: r(3) held_mark_released\<close>)
qed

lemma xr_reachable_ok: "xr_reachable rt \<Longrightarrow> rt_ok rt"
  by (induction rule: xr_reachable.induct) (auto intro: new_runtime_ok xr_step_ok)

end
