(* ===== verification/Runtime_Safety.thy ===== *)
theory Runtime_Safety
  imports Runtime_Leases
begin

text \<open>
  What the runtime promises its callers, in every reachable state.
\<close>

lemma live_finite: "finite {i. live rt i}"
  by (rule finite_subset [of _ "{..<length (xr_leases rt)}"]) (auto simp: live_def)

lemma live_slots_inj:
  "rt_ok rt \<Longrightarrow> inj_on (\<lambda>i. el_capacity (lease_at rt i)) {i. live rt i}"
  by (auto simp: rt_ok_def inj_on_def disjoint_leases_def)

lemma live_slots_held:
  "rt_ok rt \<Longrightarrow> (\<lambda>i. el_capacity (lease_at rt i)) ` {i. live rt i} \<subseteq> {i. cap_held rt i \<noteq> None}"
  by (auto simp: rt_ok_def holds_def)

lemma live_total:
  assumes "rt_ok rt"
  shows "int (card {i. live rt i}) \<le> cap_max_total (xr_capacity rt)"
proof -
  have ok: "cap_ok (xr_capacity rt)" using assms by (simp add: rt_ok_def parts_ok_def)
  have "card {i. live rt i} \<le> card {i. cap_held rt i \<noteq> None}"
    using card_mono [OF finite_held(2) live_slots_held [OF assms, unfolded cap_held_def]]
      card_image [OF live_slots_inj [OF assms]]
    unfolding cap_held_def by simp
  also have "\<dots> = length (open_leases (cap_leases (xr_capacity rt)))"
    unfolding cap_held_def by (rule card_held_all)
  finally show ?thesis using ok by (simp add: cap_ok_def)
qed

definition live_of :: "exec_rt \<Rightarrow> owner_id \<Rightarrow> nat set" where
  "live_of rt owner = {i. live rt i \<and> cap_held rt (el_capacity (lease_at rt i)) = Some owner}"

lemma live_per_owner:
  assumes "rt_ok rt"
  shows "int (card (live_of rt owner)) \<le> cap_max_per_user (xr_capacity rt)"
proof -
  have ok: "cap_ok (xr_capacity rt)" using assms by (simp add: rt_ok_def parts_ok_def)
  have inj: "inj_on (\<lambda>i. el_capacity (lease_at rt i)) (live_of rt owner)"
    using live_slots_inj [OF assms] by (rule inj_on_subset) (auto simp: live_of_def)
  have "(\<lambda>i. el_capacity (lease_at rt i)) ` live_of rt owner \<subseteq> {i. cap_held rt i = Some owner}"
    by (auto simp: live_of_def)
  then have "card (live_of rt owner) \<le> card {i. cap_held rt i = Some owner}"
    using card_mono finite_held(1) card_image [OF inj] by (metis cap_held_def)
  also have "\<dots> = open_count (xr_capacity rt) owner"
    unfolding cap_held_def open_count_def by (rule card_held)
  finally have "int (card (live_of rt owner)) \<le> int (open_count (xr_capacity rt) owner)" by simp
  also have "\<dots> \<le> cap_max_per_user (xr_capacity rt)" using ok by (simp add: cap_ok_def)
  finally show ?thesis .
qed

text \<open>In every reachable state of the runtime the executions that are not released occupy different
  histories and different analysis runs, an account has at most \<open>max_per_user\<close> of them and the process
  at most \<open>max_total\<close>.\<close>
theorem live_executions_are_exclusive:
  assumes "xr_reachable rt" and "live rt i" and "live rt j" and "i \<noteq> j"
  shows "\<exists>h h'. hist_held rt (el_history (lease_at rt i)) = Some h
      \<and> hist_held rt (el_history (lease_at rt j)) = Some h' \<and> h \<noteq> h'
    \<and> (\<forall>a b. el_analysis (lease_at rt i) = Some a \<and> el_analysis (lease_at rt j) = Some b
          \<longrightarrow> run_held rt a \<noteq> run_held rt b)
    \<and> int (card (live_of rt owner)) \<le> cap_max_per_user (xr_capacity rt)
    \<and> int (card {i. live rt i}) \<le> cap_max_total (xr_capacity rt)"
proof -
  have ok: "rt_ok rt" using assms(1) by (rule xr_reachable_ok)
  then have p: "hr_ok (xr_history rt)" "\<And>g. xr_guard rt = Some g \<Longrightarrow> guard_ok g"
    by (simp_all add: rt_ok_def parts_ok_def)
  from ok assms have hi: "holds rt (lease_at rt i)" and hj: "holds rt (lease_at rt j)"
    and d: "disjoint_leases (lease_at rt i) (lease_at rt j)" by (auto simp: rt_ok_def)
  from hi hj obtain h h' where h: "hist_held rt (el_history (lease_at rt i)) = Some h"
    and h': "hist_held rt (el_history (lease_at rt j)) = Some h'" by (auto simp: holds_def)
  have "h \<noteq> h'"
    using history.held_unique [OF p(1), of "el_history (lease_at rt i)" h "el_history (lease_at rt j)"] h h' d
    by (auto simp: hist_held_def disjoint_leases_def)
  moreover have "run_held rt a \<noteq> run_held rt b"
    if "el_analysis (lease_at rt i) = Some a" "el_analysis (lease_at rt j) = Some b" for a b
  proof -
    from hi that obtain k g where "xr_guard rt = Some g" "held (guard_leases g) a = Some k"
      by (auto simp: holds_def run_held_def split: option.splits)
    then show ?thesis
      using run_guard.held_unique [OF p(2), of g a k b] d that by (auto simp: run_held_def disjoint_leases_def)
  qed
  ultimately show ?thesis
    using h h' live_total [OF ok] live_per_owner [OF ok, of owner] by blast
qed

text \<open>Releasing an execution lease returns its slot, its history and its analysis run, and nothing of
  anybody else's, even when closing the progress channel or unbinding the stop control raises; a second
  release changes nothing.\<close>
theorem release_returns_everything:
  assumes "xr_reachable rt" and "live rt i" and "xr_release i rt = (r, rt')"
  shows "cap_held rt' = (cap_held rt)(el_capacity (lease_at rt i) := None)
    \<and> hist_held rt' = (hist_held rt)(el_history (lease_at rt i) := None)
    \<and> run_held rt' = (case el_analysis (lease_at rt i) of None \<Rightarrow> run_held rt | Some a \<Rightarrow> (run_held rt)(a := None))
    \<and> (\<forall>j. live rt' j \<longleftrightarrow> live rt j \<and> j \<noteq> i)
    \<and> xr_release i rt' = (Inr (), rt')"
proof -
  have "parts_ok rt" using xr_reachable_ok [OF assms(1)] by (simp add: rt_ok_def)
  note e = xr_release_eff [OF this assms(2), unfolded assms(3) snd_conv]
  have i: "i < length (xr_leases rt)" using assms(2) by (simp add: live_def)
  have l: "live rt' j \<longleftrightarrow> live rt j \<and> j \<noteq> i" for j
    using i by (auto simp: live_def e(5) nth_list_update split: if_splits)
  then have "xr_release i rt' = (Inr (), rt')"
    using i by (intro xr_release_released) (simp_all add: e(5))
  with e(2-4) l show ?thesis by blast
qed

text \<open>A refused execution takes nothing: when \<open>reserve\<close> raises, because of the quota, the history, the
  analysis run or an admission closed meanwhile, every slot, history and run is held as before and no
  lease was made.\<close>
theorem failed_reserve_takes_nothing:
  assumes "xr_reachable rt" and "xr_reserve ping closing owner history auth run rt = (Inl e, rt')"
  shows "cap_held rt' = cap_held rt \<and> hist_held rt' = hist_held rt \<and> run_held rt' = run_held rt
    \<and> xr_leases rt' = xr_leases rt"
proof -
  have "parts_ok rt" using xr_reachable_ok [OF assms(1)] by (simp add: rt_ok_def)
  from xr_reserve_eff [OF this assms(2)] show ?thesis by (auto simp: reserved_def restored_def)
qed

section \<open>Releasing without a stop control\<close>

text \<open>A lease that has a progress channel and no stop control cannot be released without an error: when
  \<open>bind_stop_control\<close> was not reached or failed, \<open>release\<close> raises \<open>KeyError\<close> (the missing control is
  taken for the bound one and its key deleted), although it returns the slot and the history.\<close>
theorem release_without_control_raises:
  assumes "xr_reachable rt" and "live rt i" and "el_execution (lease_at rt i) = Some x"
    and "el_control (lease_at rt i) = None" and "xr_control_of rt x = None"
  shows "fst (xr_release i rt) = Inl XrKeyError"
proof -
  let ?l = "lease_at rt i"
  define rt1 where "rt1 = set_lease i (\<lambda>l. l\<lparr>el_released := True\<rparr>) rt"
  have ok: "parts_ok rt" using xr_reachable_ok [OF assms(1)] by (simp add: rt_ok_def)
  then have "parts_ok rt1" by (simp add: rt1_def set_lease_def parts_ok_def)
  then have p2: "parts_ok (snd (release_bindings ?l rt1))"
    using same_leases_parts(1) [OF release_bindings_same] by simp
  have "xr_control_of (snd (release_event_channel x (el_channel ?l) rt1)) x = None"
    using assms(5)
    by (auto simp: release_event_channel_def rt1_def set_lease_def Let_def split: option.splits prod.splits sum.splits)
  then have "fst (release_bindings ?l rt1) = Inl XrKeyError"
    using assms(3,4) by (simp add: release_bindings_def fst_finally_do release_stop_control_def)
  moreover have "fst (xr_release i rt) = fst (release_bindings ?l rt1)"
    using assms(2) release_capacity_eff(1) release_history_eff(1) release_analysis_eff(1) p2
    by (simp add: xr_release_def live_def Let_def fst_finally_do rt1_def)
  ultimately show ?thesis by simp
qed

section \<open>A concrete runtime\<close>

definition demo_rt :: exec_rt where
  "demo_rt = \<lparr>xr_capacity = demo_capacity, xr_history = hr_init, xr_guard = Some guard_init, xr_chans = [],
     xr_channel_of = Map.empty, xr_controls = [], xr_control_of = Map.empty, xr_locks = Map.empty, xr_leases = []\<rparr>"

lemma demo_rt_reachable: "xr_reachable demo_rt"
proof (rule xr_reachable.start)
  show "new_runtime (LimitInt 1) (LimitInt 2) 1 hr_init (Some guard_init) = Inr demo_rt"
    by (simp add: new_runtime_def new_capacity_def demo_rt_def demo_capacity_def)
qed (simp_all add: hr_ok_init guard_ok_init)

definition demo_busy :: exec_rt where
  "demo_busy = snd (xr_reserve True False (OwnerInt 2) [66] None None
     (snd (xr_reserve True False (OwnerInt 1) [65] None None demo_rt)))"

lemma demo_busy_reachable: "xr_reachable demo_busy"
  unfolding demo_busy_def
  by (intro xr_reachable.step [OF _ xr_step.reserve [OF prod.collapse [symmetric]]] demo_rt_reachable)

lemma demo_busy_leases: "xr_leases demo_busy = [new_lease 0 0 None, new_lease 1 1 None]"
  by (simp add: demo_busy_def demo_rt_def demo_capacity_def xr_reserve_def reserve_owner_def owner_active_def
      reserve_history_def hr_reserve_def hr_check_def hr_init_def reserve_run_def conclude_reserve_def)

lemma demo_busy_live: "live demo_busy 0" "live demo_busy 1"
  by (simp_all add: live_def demo_busy_leases new_lease_def)

lemma live_executions_are_exclusive_witness:
  "\<exists>h h'. hist_held demo_busy (el_history (lease_at demo_busy 0)) = Some h
      \<and> hist_held demo_busy (el_history (lease_at demo_busy 1)) = Some h' \<and> h \<noteq> h'
    \<and> (\<forall>a b. el_analysis (lease_at demo_busy 0) = Some a \<and> el_analysis (lease_at demo_busy 1) = Some b
          \<longrightarrow> run_held demo_busy a \<noteq> run_held demo_busy b)
    \<and> int (card (live_of demo_busy (OwnerInt 1))) \<le> cap_max_per_user (xr_capacity demo_busy)
    \<and> int (card {i. live demo_busy i}) \<le> cap_max_total (xr_capacity demo_busy)"
  by (rule live_executions_are_exclusive [OF demo_busy_reachable demo_busy_live]) simp

lemma release_returns_everything_witness:
  "hist_held (snd (xr_release 0 demo_busy)) 0 = None \<and> live (snd (xr_release 0 demo_busy)) 1"
proof -
  have "hist_held (snd (xr_release 0 demo_busy)) = (hist_held demo_busy)(0 := None)"
    and "\<forall>j. live (snd (xr_release 0 demo_busy)) j \<longleftrightarrow> live demo_busy j \<and> j \<noteq> 0"
    using release_returns_everything [OF demo_busy_reachable demo_busy_live(1) prod.collapse [symmetric]]
    by (simp_all add: demo_busy_leases new_lease_def)
  with demo_busy_live(2) show ?thesis by simp
qed

lemma failed_reserve_takes_nothing_witness:
  "\<exists>e rt'. xr_reserve True False (OwnerInt 0) [67] None None demo_busy = (Inl e, rt')
    \<and> cap_held rt' = cap_held demo_busy \<and> hist_held rt' = hist_held demo_busy
    \<and> run_held rt' = run_held demo_busy \<and> xr_leases rt' = xr_leases demo_busy"
proof -
  have e: "xr_reserve True False (OwnerInt 0) [67] None None demo_busy = (Inl XrValueError, demo_busy)"
    by (simp add: xr_reserve_def)
  from failed_reserve_takes_nothing [OF demo_busy_reachable e] e show ?thesis by blast
qed

definition demo_attached :: exec_rt where
  "demo_attached = snd (attach_progress 0 [120] 
     (projr (new_channel [120] [104] [116] ''running'' None 64 1048576 8)) demo_busy)"

lemma release_without_control_raises_witness: "fst (xr_release 0 demo_attached) = Inl XrKeyError"
proof (rule release_without_control_raises)
  show "xr_reachable demo_attached"
    unfolding demo_attached_def
    by (rule xr_reachable.step [OF demo_busy_reachable xr_step.attach [OF prod.collapse [symmetric]]])
  have c: "xr_channel_of demo_busy = Map.empty" "xr_control_of demo_busy = Map.empty"
    by (simp_all add: demo_busy_def demo_rt_def demo_capacity_def xr_reserve_def reserve_owner_def
        owner_active_def reserve_history_def hr_reserve_def hr_check_def hr_init_def reserve_run_def
        conclude_reserve_def)
  have l: "xr_leases demo_attached =
      [(new_lease 0 0 None)\<lparr>el_execution := Some [120], el_channel := Some (length (xr_chans demo_busy))\<rparr>,
       new_lease 1 1 None]"
    by (simp add: demo_attached_def attach_progress_def demo_busy_leases c new_lease_def set_lease_def Let_def)
  show "live demo_attached 0" "el_execution (lease_at demo_attached 0) = Some [120]"
    "el_control (lease_at demo_attached 0) = None"
    by (simp_all add: live_def l new_lease_def)
  show "xr_control_of demo_attached [120] = None"
    by (simp add: demo_attached_def attach_progress_def demo_busy_leases c new_lease_def set_lease_def Let_def)
qed

end
