(* ===== verification/Join_Graph.thy ===== *)
theory Join_Graph
  imports Json
begin

text \<open>
  The relationship graph of \<open>online_query/retrieval/relationship_graph.py\<close>: parsing the published
  foreign keys, the time edge, the direct edge from the anchor to every target table, and the join
  constraints, each with the key that proves its target unique. \<open>select_anchor\<close> and
  \<open>target_tables\<close> of \<open>retrieval_selection.py\<close> choose the input. A \<open>Mapping\<close> is a JSON object; the
  graph is the published JSON document.
\<close>

datatype graph_error =
    MissingSection string
  | BadRecord nat
  | MissingText nat string
  | BadColumns nat string
  | KeyCountMismatch nat
  | TimeEdgeUnmatched
  | TimeEdgeAmbiguous
  | AmbiguousTarget pystr
  | Unreachable "pystr list"
  | NotForward
  | NoUniqueKey pystr "pystr list"

datatype graph_error_class = GraphContractError | GraphAmbiguousError | GraphUnreachableError

fun error_class :: "graph_error \<Rightarrow> graph_error_class" where
  "error_class TimeEdgeAmbiguous = GraphAmbiguousError"
| "error_class (AmbiguousTarget _) = GraphAmbiguousError"
| "error_class (Unreachable _) = GraphUnreachableError"
| "error_class NotForward = GraphUnreachableError"
| "error_class (NoUniqueKey _ _) = GraphUnreachableError"
| "error_class _ = GraphContractError"

record join_edge =
  je_id :: pystr
  je_source :: pystr
  je_target :: pystr
  je_source_columns :: "pystr list"
  je_target_columns :: "pystr list"
  je_constraint :: pystr
  je_direction :: string

record join_path =
  jp_tables :: "pystr list"
  jp_edges :: "join_edge list"

record join_resolution =
  jr_anchor :: pystr
  jr_paths :: "join_path list"
  jr_joins :: "join_edge list"
  jr_unreachable :: "pystr list"

record join_constraint =
  jc_source :: pystr
  jc_source_columns :: "pystr list"
  jc_target :: pystr
  jc_target_columns :: "pystr list"
  jc_basis :: pystr
  jc_direction :: string

record time_field =
  tf_source :: pystr
  tf_column :: pystr
  tf_target :: pystr
  tf_edge :: "pystr option"

section \<open>Reading the published graph\<close>

definition graph_text :: "(pystr \<times> json) list \<Rightarrow> string \<Rightarrow> nat \<Rightarrow> graph_error + pystr" where
  "graph_text raw key i =
     (case obj_get raw (lit key) of
        Some (JStr s) \<Rightarrow> if strip s = [] then Inl (MissingText i key) else Inr (strip s)
      | _ \<Rightarrow> Inl (MissingText i key))"

definition qualified_from_graph ::
  "(pystr \<times> json) list \<Rightarrow> string \<Rightarrow> string \<Rightarrow> nat \<Rightarrow> graph_error + pystr" where
  "qualified_from_graph raw schema_key table_key i =
     bindR (graph_text raw schema_key i) (\<lambda>schema.
     bindR (graph_text raw table_key i) (\<lambda>table. Inr (schema @ [46] @ table)))"

definition nonblank :: "json \<Rightarrow> bool" where
  "nonblank v = (case v of JStr s \<Rightarrow> strip s \<noteq> [] | _ \<Rightarrow> False)"

definition text_of :: "json \<Rightarrow> pystr" where
  "text_of v = (case v of JStr s \<Rightarrow> s | _ \<Rightarrow> [])"

definition string_tuple :: "json option \<Rightarrow> string \<Rightarrow> nat \<Rightarrow> graph_error + pystr list" where
  "string_tuple v key i =
     (case v of
        Some (JArr xs) \<Rightarrow>
          if xs = [] then Inl (BadColumns i key)
          else if list_ex (\<lambda>x. \<not> nonblank x) xs then Inl (BadColumns i key)
          else Inr (map (\<lambda>x. strip (text_of x)) xs)
      | _ \<Rightarrow> Inl (BadColumns i key))"

definition parse_edge :: "nat \<Rightarrow> json \<Rightarrow> graph_error + join_edge" where
  "parse_edge i v =
     (case v of
        JObj raw \<Rightarrow>
          bindR (graph_text raw ''constraint_name'' i) (\<lambda>eid.
          bindR (qualified_from_graph raw ''source_schema'' ''source_table'' i) (\<lambda>s.
          bindR (qualified_from_graph raw ''target_schema'' ''target_table'' i) (\<lambda>t.
          bindR (string_tuple (obj_get raw (lit ''source_columns'')) ''source_columns'' i) (\<lambda>sc.
          bindR (string_tuple (obj_get raw (lit ''target_columns'')) ''target_columns'' i) (\<lambda>tc.
          if length sc \<noteq> length tc then Inl (KeyCountMismatch i)
          else Inr \<lparr>je_id = eid, je_source = s, je_target = t, je_source_columns = sc,
                    je_target_columns = tc, je_constraint = eid, je_direction = ''forward''\<rparr>)))))
      | _ \<Rightarrow> Inl (BadRecord i))"

fun numbered :: "(nat \<Rightarrow> 'a \<Rightarrow> 'e + 'b) \<Rightarrow> nat \<Rightarrow> 'a list \<Rightarrow> 'e + 'b list" where
  "numbered f i [] = Inr []"
| "numbered f i (x # xs) = bindR (f i x) (\<lambda>y. bindR (numbered f (i + 1) xs) (\<lambda>ys. Inr (y # ys)))"

definition parse_edges :: "(pystr \<times> json) list \<Rightarrow> graph_error + join_edge list" where
  "parse_edges graph =
     (case obj_get graph (lit ''foreign_keys'') of
        Some (JArr raw) \<Rightarrow> bindR (numbered parse_edge 1 raw) (\<lambda>es. Inr (sort_key je_id es))
      | _ \<Rightarrow> Inl (MissingSection ''foreign_keys''))"

section \<open>Resolving the joins\<close>

definition validate_time_edge :: "time_field \<Rightarrow> join_edge list \<Rightarrow> graph_error + time_field" where
  "validate_time_edge tf edges =
     (case filter (\<lambda>e. je_source e = tf_source tf \<and> je_target e = tf_target tf
                       \<and> je_source_columns e = [tf_column tf]) edges of
        [] \<Rightarrow> Inl TimeEdgeUnmatched
      | [e] \<Rightarrow> Inr (tf\<lparr>tf_edge := Some (je_id e)\<rparr>)
      | _ \<Rightarrow> Inl TimeEdgeAmbiguous)"

definition select_anchor :: "pystr option \<Rightarrow> pystr list \<Rightarrow> (pystr \<times> string) option" where
  "select_anchor metric_source tables =
     (case metric_source of
        Some s \<Rightarrow> Some (s, ''metric_data_source'')
      | None \<Rightarrow> (case tables of [] \<Rightarrow> None | t # _ \<Rightarrow> Some (t, ''highest_table_score'')))"

definition target_tables :: "pystr list \<Rightarrow> pystr option \<Rightarrow> time_field option \<Rightarrow> pystr list" where
  "target_tables candidates metric_table tf =
     sort (remdups (candidates
       @ (case metric_table of None \<Rightarrow> [] | Some t \<Rightarrow> [t])
       @ (case tf of None \<Rightarrow> [] | Some f \<Rightarrow> [tf_target f])))"

definition direct_edges ::
  "pystr \<Rightarrow> join_edge list \<Rightarrow> pystr option \<Rightarrow> pystr option \<Rightarrow> pystr \<Rightarrow> join_edge list" where
  "direct_edges anchor edges time_edge time_target target =
     (let direct = filter (\<lambda>e. je_source e = anchor \<and> je_target e = target) edges
      in if Some target = time_target \<and> time_edge \<noteq> None then
           (let timed = filter (\<lambda>e. Some (je_id e) = time_edge) direct
            in if timed \<noteq> [] then timed else direct)
         else direct)"

text \<open>The loop over the targets: the paths found and the tables no edge reaches.\<close>

fun resolve_targets ::
  "pystr \<Rightarrow> join_edge list \<Rightarrow> pystr option \<Rightarrow> pystr option \<Rightarrow> pystr list
   \<Rightarrow> graph_error + join_path list \<times> pystr list" where
  "resolve_targets anchor edges te tt [] = Inr ([], [])"
| "resolve_targets anchor edges te tt (target # ts) =
     (if target = anchor then resolve_targets anchor edges te tt ts
      else case direct_edges anchor edges te tt target of
        [] \<Rightarrow> bindR (resolve_targets anchor edges te tt ts) (\<lambda>(ps, us). Inr (ps, target # us))
      | [e] \<Rightarrow> bindR (resolve_targets anchor edges te tt ts)
                 (\<lambda>(ps, us). Inr (\<lparr>jp_tables = [anchor, target], jp_edges = [e]\<rparr> # ps, us))
      | _ \<Rightarrow> Inl (AmbiguousTarget target))"

fun dedupe_edges :: "(pystr \<times> string) list \<Rightarrow> join_edge list \<Rightarrow> join_edge list" where
  "dedupe_edges seen [] = []"
| "dedupe_edges seen (e # es) =
     (if (je_id e, je_direction e) \<in> set seen then dedupe_edges seen es
      else e # dedupe_edges ((je_id e, je_direction e) # seen) es)"

definition resolve_join_paths ::
  "pystr \<Rightarrow> pystr list \<Rightarrow> join_edge list \<Rightarrow> pystr option \<Rightarrow> pystr option
   \<Rightarrow> graph_error + join_resolution" where
  "resolve_join_paths anchor targets edges te tt =
     bindR (resolve_targets anchor edges te tt targets) (\<lambda>(ps, us).
       if us \<noteq> [] then Inl (Unreachable (sort us))
       else Inr \<lparr>jr_anchor = anchor, jr_paths = ps,
                 jr_joins = dedupe_edges [] (concat (map jp_edges ps)), jr_unreachable = []\<rparr>)"

section \<open>The constraints and their uniqueness proofs\<close>

definition unique_key ::
  "string \<Rightarrow> nat \<Rightarrow> json \<Rightarrow> graph_error + (pystr \<times> pystr list) \<times> pystr" where
  "unique_key prefix i v =
     (case v of
        JObj raw \<Rightarrow>
          bindR (qualified_from_graph raw ''schema_name'' ''table_name'' i) (\<lambda>table.
          bindR (string_tuple (obj_get raw (lit ''column_names'')) ''column_names'' i) (\<lambda>columns.
          bindR (graph_text raw ''constraint_name'' i) (\<lambda>name.
          Inr ((table, columns), lit prefix @ [58] @ name))))
      | _ \<Rightarrow> Inl (BadRecord i))"

definition unique_section ::
  "(pystr \<times> json) list \<Rightarrow> string \<Rightarrow> string \<Rightarrow> graph_error + ((pystr \<times> pystr list) \<times> pystr) list" where
  "unique_section graph sec prefix =
     (case obj_get graph (lit sec) of
        Some (JArr raw) \<Rightarrow> numbered (unique_key prefix) 1 raw
      | _ \<Rightarrow> Inl (MissingSection sec))"

text \<open>The dictionary: a later record replaces an earlier one with the same key.\<close>

definition graph_unique_keys ::
  "(pystr \<times> json) list \<Rightarrow> graph_error + (pystr \<times> pystr list \<rightharpoonup> pystr)" where
  "graph_unique_keys graph =
     bindR (unique_section graph ''primary_keys'' ''primary_key'') (\<lambda>pks.
     bindR (unique_section graph ''unique_constraints'' ''unique_constraint'') (\<lambda>ucs.
     Inr (map_of (rev (pks @ ucs)))))"

fun forward_chain :: "pystr \<Rightarrow> join_edge list \<Rightarrow> bool" where
  "forward_chain current [] = True"
| "forward_chain current (e # es) =
     (if je_direction e \<noteq> ''forward'' \<or> je_source e \<noteq> current then False
      else forward_chain (je_target e) es)"

definition constraint_of ::
  "(pystr \<times> pystr list \<rightharpoonup> pystr) \<Rightarrow> join_edge \<Rightarrow> graph_error + join_constraint" where
  "constraint_of keys e =
     (case keys (je_target e, je_target_columns e) of
        None \<Rightarrow> Inl (NoUniqueKey (je_target e) (je_target_columns e))
      | Some basis \<Rightarrow>
          Inr \<lparr>jc_source = je_source e, jc_source_columns = je_source_columns e, jc_target = je_target e,
               jc_target_columns = je_target_columns e, jc_basis = basis, jc_direction = ''forward''\<rparr>)"

definition validated_join_constraints ::
  "pystr \<Rightarrow> join_resolution \<Rightarrow> (pystr \<times> json) list \<Rightarrow> graph_error + join_constraint list" where
  "validated_join_constraints anchor res graph =
     (if jr_joins res = [] then Inr []
      else bindR (graph_unique_keys graph) (\<lambda>keys.
        if list_ex (\<lambda>p. \<not> forward_chain anchor (jp_edges p)) (jr_paths res) then Inl NotForward
        else mapR (constraint_of keys) (jr_joins res)))"

text \<open>The join stage of the retrieval: anchor, edges, time edge, targets, resolution, constraints.\<close>

definition join_stage ::
  "pystr \<Rightarrow> pystr list \<Rightarrow> pystr option \<Rightarrow> time_field option \<Rightarrow> (pystr \<times> json) list
   \<Rightarrow> graph_error + join_resolution \<times> join_constraint list" where
  "join_stage anchor candidates metric_table tf graph =
     bindR (parse_edges graph) (\<lambda>edges.
     bindR (case tf of None \<Rightarrow> Inr None
            | Some f \<Rightarrow> bindR (validate_time_edge f edges) (\<lambda>g. Inr (Some g))) (\<lambda>tf'.
     bindR (resolve_join_paths anchor (target_tables candidates metric_table tf') edges
              (case tf' of None \<Rightarrow> None | Some g \<Rightarrow> tf_edge g)
              (case tf' of None \<Rightarrow> None | Some g \<Rightarrow> Some (tf_target g))) (\<lambda>res.
     bindR (validated_join_constraints anchor res graph) (\<lambda>cs. Inr (res, cs)))))"

end
