(* ===== verification/Sql_Guard.thy ===== *)
theory Sql_Guard
  imports Join_Graph
begin

text \<open>
  The SQL guard of \<open>online_query/sql_guard\<close>: the checks a candidate statement of the language model
  passes before it reaches the database. SQLGlot is a library: its parser, its tree traversal, its
  class hierarchy, its scope analysis, its column qualification and its printer are the fields of
  \<open>sqlglot\<close>; a tree is a node with its identity, its class and its arguments. \<open>str.casefold\<close>,
  \<open>str.upper\<close> and the order in which a set is iterated are fields too. Messages are not kept, the
  reason codes are.
\<close>

datatype ast = Node (node_id: nat) (node_class: string) (node_args: "(string \<times> ast_arg) list")
  and ast_arg = AOne ast | AMany "ast list" | AText pystr | AValue

record sqlglot =
  sg_parse :: "pystr \<Rightarrow> ast option list option"
  sg_parse_one :: "pystr \<Rightarrow> ast option"
  sg_isa :: "string \<Rightarrow> string \<Rightarrow> bool"
  sg_walk :: "ast \<Rightarrow> ast list"
  sg_scopes :: "ast \<Rightarrow> (ast list \<times> pystr list) list"
  sg_name :: "ast \<Rightarrow> pystr"
  sg_db :: "ast \<Rightarrow> pystr"
  sg_catalog :: "ast \<Rightarrow> pystr"
  sg_alias :: "ast \<Rightarrow> pystr"
  sg_table :: "ast \<Rightarrow> pystr"
  sg_qualify :: "ast \<Rightarrow> (pystr \<Rightarrow> pystr list option) \<Rightarrow> bool"
  sg_sql :: "ast \<Rightarrow> (nat \<times> pystr \<times> pystr \<times> pystr) list \<Rightarrow> pystr"
  py_casefold :: "pystr \<Rightarrow> pystr"
  py_upper :: "pystr \<Rightarrow> pystr"
  py_order :: "pystr list \<Rightarrow> pystr list"

datatype reject_code =
    UNCLASSIFIED | CANDIDATE_INVALID | SQL_PARSE_ERROR | STATEMENT_COUNT_INVALID | SELECT_ONLY
  | SUBQUERY_UNSUPPORTED | FORBIDDEN_OPERATION | UNSUPPORTED_FEATURE | UNAPPROVED_FUNCTION
  | TABLE_SCOPE_REJECTED | COLUMN_SCOPE_REJECTED | JOIN_CONSTRAINT_REJECTED
  | METRIC_CONSTRAINT_REJECTED | MULTI_METRIC_CONSTRAINT_REJECTED

text \<open>\<open>SQLRejectedError\<close> with its code, or another exception (a \<open>ValueError\<close> of unpacking).\<close>

datatype sql_failure = Rejected "reject_code option" | PyValueError

text \<open>A metric's data source is declared \<open>str\<close> in \<open>online_query/contracts.py\<close>, so the test of its type in
  \<open>_multi_metric_table\<close> always holds; an empty one is still skipped there.\<close>

record metric_constraint =
  mc_name :: pystr
  mc_formula :: pystr
  mc_source :: pystr
  mc_filters :: "pystr list"

record query_context =
  qc_tables :: "pystr list"
  qc_columns :: "pystr \<rightharpoonup> pystr list"
  qc_metrics :: "metric_constraint list"
  qc_joins :: "join_constraint list"

definition allowed_schema :: pystr where "allowed_schema = lit ''mart_sales''"

section \<open>Nodes\<close>

definition node_arg :: "ast \<Rightarrow> string \<Rightarrow> ast_arg option" where
  "node_arg n k = map_of (node_args n) k"

definition arg_node :: "ast \<Rightarrow> string \<Rightarrow> ast option" where
  "arg_node n k = (case node_arg n k of Some (AOne m) \<Rightarrow> Some m | _ \<Rightarrow> None)"

definition arg_nodes :: "ast \<Rightarrow> string \<Rightarrow> ast list" where
  "arg_nodes n k = (case node_arg n k of Some (AMany ms) \<Rightarrow> ms | _ \<Rightarrow> [])"

definition arg_text :: "ast \<Rightarrow> string \<Rightarrow> pystr" where
  "arg_text n k = (case node_arg n k of Some (AText t) \<Rightarrow> t | _ \<Rightarrow> [])"

definition isa :: "sqlglot \<Rightarrow> ast \<Rightarrow> string \<Rightarrow> bool" where
  "isa g n cls = sg_isa g (node_class n) cls"

definition find_all :: "sqlglot \<Rightarrow> ast \<Rightarrow> string \<Rightarrow> ast list" where
  "find_all g n cls = filter (\<lambda>m. isa g m cls) (sg_walk g n)"

definition contains :: "sqlglot \<Rightarrow> ast \<Rightarrow> string \<Rightarrow> bool" where
  "contains g n cls = list_ex (\<lambda>m. isa g m cls) (sg_walk g n)"

lemma size_arg_node: "arg_node n k = Some m \<Longrightarrow> size m < size n"
proof -
  assume "arg_node n k = Some m"
  then have "(k, AOne m) \<in> set (node_args n)"
    by (auto simp: arg_node_def node_arg_def dest: map_of_SomeD split: option.splits ast_arg.splits)
  then have "size m < size_list (size_prod (\<lambda>_. 0) size) (node_args n) + 1"
    by (auto intro!: size_list_estimation' le_imp_less_Suc)
  then show "size m < size n" by (cases n) simp
qed

text \<open>\<open>_multi_conjuncts\<close>.\<close>

function conjuncts :: "sqlglot \<Rightarrow> ast option \<Rightarrow> ast list" where
  "conjuncts g None = []"
| "conjuncts g (Some n) =
     (if isa g n ''And'' then conjuncts g (arg_node n ''this'') @ conjuncts g (arg_node n ''expression'')
      else if isa g n ''Paren'' then conjuncts g (arg_node n ''this'')
      else [n])"
  by pat_completeness auto

termination
  by (relation "measure (\<lambda>(g, n). case n of None \<Rightarrow> 0 | Some m \<Rightarrow> Suc (size m))")
    (auto dest: size_arg_node split: option.splits)

section \<open>Tables, columns and expressions\<close>

definition reject :: "sql_failure + 'a" where
  "reject = Inl (Rejected None)"

definition table_ref :: "sqlglot \<Rightarrow> ast \<Rightarrow> sql_failure + pystr" where
  "table_ref g t =
     (if sg_catalog g t \<noteq> [] \<or> sg_db g t = [] \<or> sg_name g t = [] then reject
      else Inr (sg_db g t @ [46] @ sg_name g t))"

text \<open>The dictionary of name sets, as its pairs.\<close>

type_synonym bindings = "(pystr \<times> pystr) list"

definition bindings_of :: "sqlglot \<Rightarrow> ast \<Rightarrow> sql_failure + bindings" where
  "bindings_of g t =
     bindR (table_ref g t) (\<lambda>q.
       Inr (map (\<lambda>n. (py_casefold g n, q)) ([sg_name g t, q] @ (if sg_alias g t = [] then [] else [sg_alias g t]))))"

definition table_bindings :: "sqlglot \<Rightarrow> ast \<Rightarrow> sql_failure + bindings" where
  "table_bindings g e = bindR (mapR (bindings_of g) (find_all g e ''Table'')) (\<lambda>bs. Inr (concat bs))"

definition bound_to :: "bindings \<Rightarrow> pystr \<Rightarrow> pystr list" where
  "bound_to b k = remdups (map snd (filter (\<lambda>(n, q). n = k) b))"

definition all_bound :: "bindings \<Rightarrow> pystr list" where
  "all_bound b = remdups (map snd b)"

definition allowed_columns :: "query_context \<Rightarrow> pystr \<Rightarrow> pystr list" where
  "allowed_columns ctx t = (case qc_columns ctx t of None \<Rightarrow> [] | Some cs \<Rightarrow> cs)"

definition match_table_name :: "sqlglot \<Rightarrow> pystr \<Rightarrow> pystr list \<Rightarrow> sql_failure + pystr" where
  "match_table_name g v candidates =
     (case find (\<lambda>c. py_casefold g c = py_casefold g v) (py_order g candidates) of
        None \<Rightarrow> reject | Some c \<Rightarrow> Inr c)"

text \<open>\<open>dflt\<close> is the fact table when the aliases of a certified expression stand for it.\<close>

definition physical_table ::
  "sqlglot \<Rightarrow> query_context \<Rightarrow> bindings \<Rightarrow> pystr option \<Rightarrow> ast \<Rightarrow> sql_failure + pystr" where
  "physical_table g ctx b dflt c =
     (case dflt of
        Some t \<Rightarrow> Inr t
      | None \<Rightarrow>
          if sg_db g c \<noteq> [] \<and> sg_table g c \<noteq> [] then
            match_table_name g (sg_db g c @ [46] @ sg_table g c) (all_bound b)
          else if sg_table g c \<noteq> [] then
            (case bound_to b (py_casefold g (sg_table g c)) of [t] \<Rightarrow> Inr t | _ \<Rightarrow> reject)
          else
            (case filter (\<lambda>t. sg_name g c \<in> set (allowed_columns ctx t)) (all_bound b) of
               [t] \<Rightarrow> Inr t | _ \<Rightarrow> reject))"

definition column_identity ::
  "sqlglot \<Rightarrow> query_context \<Rightarrow> bindings \<Rightarrow> pystr option \<Rightarrow> ast \<Rightarrow> sql_failure + pystr \<times> pystr" where
  "column_identity g ctx b dflt c =
     bindR (physical_table g ctx b dflt c) (\<lambda>t.
       if sg_name g c \<notin> set (allowed_columns ctx t) then reject
       else Inr (py_casefold g t, py_casefold g (sg_name g c)))"

text \<open>\<open>value.split(".", maxsplit=1)\<close> unpacked into two names.\<close>

definition split_dot :: "pystr \<Rightarrow> (pystr \<times> pystr) option" where
  "split_dot s = (case dropWhile (\<lambda>c. c \<noteq> 46) s of [] \<Rightarrow> None | _ # r \<Rightarrow> Some (takeWhile (\<lambda>c. c \<noteq> 46) s, r))"

definition column_rewrite ::
  "sqlglot \<Rightarrow> query_context \<Rightarrow> bindings \<Rightarrow> pystr option \<Rightarrow> ast \<Rightarrow> sql_failure + nat \<times> pystr \<times> pystr \<times> pystr" where
  "column_rewrite g ctx b dflt c =
     bindR (column_identity g ctx b dflt c) (\<lambda>(t, n).
       case split_dot t of None \<Rightarrow> Inl PyValueError | Some (schema, table) \<Rightarrow> Inr (node_id c, schema, table, n))"

definition canonical_sql ::
  "sqlglot \<Rightarrow> query_context \<Rightarrow> bindings \<Rightarrow> pystr option \<Rightarrow> ast \<Rightarrow> sql_failure + pystr" where
  "canonical_sql g ctx b dflt e =
     bindR (mapR (column_rewrite g ctx b dflt) (find_all g e ''Column'')) (\<lambda>rs. Inr (sg_sql g e rs))"

definition physical_tables :: "sqlglot \<Rightarrow> ast \<Rightarrow> ast list" where
  "physical_tables g e =
     concat (map (\<lambda>(ts, ctes). filter (\<lambda>t. isa g t ''Table'' \<and> sg_name g t \<noteq> [] \<and> sg_name g t \<notin> set ctes) ts)
       (sg_scopes g e))"

definition table_allowed :: "sqlglot \<Rightarrow> query_context \<Rightarrow> ast \<Rightarrow> bool" where
  "table_allowed g ctx t \<longleftrightarrow>
     sg_catalog g t = [] \<and> sg_db g t = allowed_schema \<and> sg_db g t @ [46] @ sg_name g t \<in> set (qc_tables ctx)"

definition validate_physical_tables :: "sqlglot \<Rightarrow> query_context \<Rightarrow> ast list \<Rightarrow> sql_failure + unit" where
  "validate_physical_tables g ctx ts = (if list_all (table_allowed g ctx) ts then Inr () else reject)"

definition guard_schema :: "query_context \<Rightarrow> pystr \<Rightarrow> pystr list option" where
  "guard_schema ctx t =
     (let q = allowed_schema @ [46] @ t in if q \<in> set (qc_tables ctx) then Some (allowed_columns ctx q) else None)"

definition validate_columns :: "sqlglot \<Rightarrow> query_context \<Rightarrow> ast \<Rightarrow> sql_failure + unit" where
  "validate_columns g ctx e =
     (if list_ex (\<lambda>q. split_dot q = None) (qc_tables ctx) then Inl PyValueError
      else if sg_qualify g e (guard_schema ctx) then Inr () else reject)"

section \<open>Joins\<close>

type_synonym key_pair = "(pystr \<times> pystr) \<times> (pystr \<times> pystr)"

definition sorted_pair :: "pystr \<times> pystr \<Rightarrow> pystr \<times> pystr \<Rightarrow> key_pair" where
  "sorted_pair a b =
     (if fst a < fst b \<or> fst a = fst b \<and> snd a \<le> snd b then (a, b) else (b, a))"

definition join_pair ::
  "sqlglot \<Rightarrow> query_context \<Rightarrow> bindings \<Rightarrow> ast \<Rightarrow> sql_failure + key_pair" where
  "join_pair g ctx b n =
     (if \<not> isa g n ''EQ'' then reject
      else case (arg_node n ''this'', arg_node n ''expression'') of
        (Some l, Some r) \<Rightarrow>
          if \<not> isa g l ''Column'' \<or> \<not> isa g r ''Column'' then reject
          else bindR (column_identity g ctx b None l) (\<lambda>i.
               bindR (column_identity g ctx b None r) (\<lambda>j. Inr (sorted_pair i j)))
      | _ \<Rightarrow> reject)"

definition join_pairs ::
  "sqlglot \<Rightarrow> query_context \<Rightarrow> bindings \<Rightarrow> ast \<Rightarrow> sql_failure + key_pair list" where
  "join_pairs g ctx b condition = mapR (join_pair g ctx b) (conjuncts g (Some condition))"

definition is_forward :: "sqlglot \<Rightarrow> join_constraint \<Rightarrow> bool" where
  "is_forward g c \<longleftrightarrow> py_casefold g (lit (jc_direction c)) = lit ''forward''"

definition constraint_pairs :: "sqlglot \<Rightarrow> join_constraint \<Rightarrow> key_pair list" where
  "constraint_pairs g c =
     (if \<not> is_forward g c \<or> length (jc_source_columns c) \<noteq> length (jc_target_columns c)
         \<or> jc_source_columns c = [] then []
      else map (\<lambda>(s, t). sorted_pair (py_casefold g (jc_source c), py_casefold g s)
                             (py_casefold g (jc_target c), py_casefold g t))
             (zip (jc_source_columns c) (jc_target_columns c)))"

definition join_matches ::
  "sqlglot \<Rightarrow> join_constraint list \<Rightarrow> nat list \<Rightarrow> pystr \<Rightarrow> key_pair list \<Rightarrow> nat list" where
  "join_matches g cs used target pairs =
     filter (\<lambda>i. i \<notin> set used \<and> py_casefold g (jc_target (cs ! i)) = py_casefold g target
                 \<and> set pairs = set (constraint_pairs g (cs ! i))) [0..<length cs]"

text \<open>One join of the statement: the table it joins and the key pairs of its condition.\<close>

definition read_join ::
  "sqlglot \<Rightarrow> query_context \<Rightarrow> bindings \<Rightarrow> ast \<Rightarrow> sql_failure + pystr \<times> key_pair list" where
  "read_join g ctx b j =
     (if py_upper g (arg_text j ''side'') \<noteq> lit ''LEFT'' \<or> py_upper g (arg_text j ''kind'') = lit ''CROSS'' then reject
      else case (arg_node j ''this'', arg_node j ''on'') of
        (Some t, Some condition) \<Rightarrow>
          if \<not> isa g t ''Table'' then reject
          else bindR (table_ref g t) (\<lambda>target.
               bindR (join_pairs g ctx b condition) (\<lambda>pairs. Inr (target, pairs)))
      | _ \<Rightarrow> reject)"

fun certify_joins ::
  "sqlglot \<Rightarrow> query_context \<Rightarrow> bindings \<Rightarrow> join_constraint list \<Rightarrow> nat list \<Rightarrow> ast list
   \<Rightarrow> sql_failure + nat list" where
  "certify_joins g ctx b cs used [] = Inr used"
| "certify_joins g ctx b cs used (j # js) =
     bindR (read_join g ctx b j) (\<lambda>(target, pairs).
       case join_matches g cs used target pairs of
         [i] \<Rightarrow> certify_joins g ctx b cs (used @ [i]) js
       | _ \<Rightarrow> reject)"

definition forward_constraints :: "sqlglot \<Rightarrow> query_context \<Rightarrow> join_constraint list" where
  "forward_constraints g ctx = filter (is_forward g) (qc_joins ctx)"

definition from_table :: "sqlglot \<Rightarrow> ast \<Rightarrow> ast option" where
  "from_table g e =
     (case arg_node e ''from_'' of
        None \<Rightarrow> None
      | Some f \<Rightarrow> (case arg_node f ''this'' of None \<Rightarrow> None | Some t \<Rightarrow> if isa g t ''Table'' then Some t else None))"

definition validate_join_constraints :: "sqlglot \<Rightarrow> query_context \<Rightarrow> ast \<Rightarrow> sql_failure + unit" where
  "validate_join_constraints g ctx e =
     (let joins = arg_nodes e ''joins''; cs = forward_constraints g ctx
      in if joins = [] \<or> cs = [] then reject
         else case from_table g e of
           None \<Rightarrow> reject
         | Some t \<Rightarrow>
             bindR (table_ref g t) (\<lambda>base.
             if py_casefold g base \<notin> set (map (\<lambda>c. py_casefold g (jc_source c)) cs) then reject
             else bindR (table_bindings g e) (\<lambda>b.
             bindR (mapR (table_ref g) (find_all g e ''Table'')) (\<lambda>refs.
             if length refs \<noteq> 1 + length joins then reject
             else bindR (certify_joins g ctx b cs [] joins) (\<lambda>_. Inr ())))))"

section \<open>Certified metrics\<close>

definition where_condition :: "ast \<Rightarrow> ast option" where
  "where_condition e = (case arg_node e ''where'' of None \<Rightarrow> None | Some w \<Rightarrow> arg_node w ''this'')"

definition fixed_filter ::
  "sqlglot \<Rightarrow> query_context \<Rightarrow> pystr \<Rightarrow> pystr \<Rightarrow> sql_failure + pystr list" where
  "fixed_filter g ctx source raw =
     (case sg_parse_one g (lit ''SELECT 1 WHERE '' @ raw) of
        None \<Rightarrow> reject
      | Some p \<Rightarrow>
          (case arg_node p ''where'' of
             None \<Rightarrow> reject
           | Some w \<Rightarrow>
               if \<not> isa g w ''Where'' then reject
               else mapR (canonical_sql g ctx [] (Some source)) (conjuncts g (arg_node w ''this''))))"

definition fixed_filters :: "sqlglot \<Rightarrow> query_context \<Rightarrow> sql_failure + pystr list" where
  "fixed_filters g ctx =
     bindR (mapR (\<lambda>(source, raw). fixed_filter g ctx source raw)
              (concat (map (\<lambda>m. map (Pair (mc_source m)) (mc_filters m)) (qc_metrics ctx))))
       (\<lambda>fs. Inr (concat fs))"

definition validate_metric_filters ::
  "sqlglot \<Rightarrow> query_context \<Rightarrow> bindings \<Rightarrow> ast \<Rightarrow> sql_failure + unit" where
  "validate_metric_filters g ctx b e =
     bindR (mapR (canonical_sql g ctx b None) (conjuncts g (where_condition e))) (\<lambda>actual.
     bindR (fixed_filters g ctx) (\<lambda>expected.
     if set expected \<subseteq> set actual then Inr () else reject))"

definition formula_match ::
  "sqlglot \<Rightarrow> query_context \<Rightarrow> bindings \<Rightarrow> ast \<times> metric_constraint \<Rightarrow> sql_failure + unit" where
  "formula_match g ctx b pm =
     (case sg_parse_one g (mc_formula (snd pm)) of
        None \<Rightarrow> reject
      | Some f \<Rightarrow>
          bindR (canonical_sql g ctx b None (fst pm)) (\<lambda>actual.
          bindR (canonical_sql g ctx [] (Some (mc_source (snd pm))) f) (\<lambda>expected.
          if actual \<noteq> expected then reject else Inr ())))"

definition validate_metric_formulas ::
  "sqlglot \<Rightarrow> query_context \<Rightarrow> bindings \<Rightarrow> ast list \<Rightarrow> sql_failure + unit" where
  "validate_metric_formulas g ctx b projections =
     (if length projections \<noteq> length (qc_metrics ctx) then reject
      else bindR (mapR (formula_match g ctx b) (zip projections (qc_metrics ctx))) (\<lambda>_. Inr ()))"

section \<open>Several metrics in one statement\<close>

definition multi_metric_table :: "sqlglot \<Rightarrow> metric_constraint list \<Rightarrow> sql_failure + pystr" where
  "multi_metric_table g ms =
     (let sources = remdups (map (\<lambda>m. py_casefold g (strip (mc_source m))) (filter (\<lambda>m. strip (mc_source m) \<noteq> []) ms))
      in if length sources \<noteq> 1 then reject else Inr (strip (mc_source (hd ms))))"

definition reject_multi_metric_structure :: "sqlglot \<Rightarrow> ast \<Rightarrow> sql_failure + unit" where
  "reject_multi_metric_structure g e =
     (if list_ex (contains g e) [''With'', ''Subquery'', ''Window'', ''SetOperation'', ''Having'']
         \<or> node_arg e ''distinct'' \<noteq> None then reject else Inr ())"

definition validate_multi_metric_from :: "sqlglot \<Rightarrow> query_context \<Rightarrow> ast \<Rightarrow> pystr \<Rightarrow> sql_failure + unit" where
  "validate_multi_metric_from g ctx e metric_table =
     (case (arg_node e ''from_'', from_table g e) of
        (Some f, Some t) \<Rightarrow>
          if arg_nodes f ''expressions'' \<noteq> [] then reject
          else bindR (table_ref g t) (\<lambda>base.
            if py_casefold g base \<noteq> py_casefold g metric_table then reject
            else bindR (mapR (table_ref g) (find_all g e ''Table'')) (\<lambda>refs.
              if \<not> distinct refs then reject
              else if length (filter (\<lambda>r. py_casefold g r = py_casefold g metric_table) refs) \<noteq> 1 then reject
              else if list_ex (\<lambda>r. py_casefold g r \<notin>
                       set (py_casefold g metric_table #
                            concat (map (\<lambda>c. [py_casefold g (jc_source c), py_casefold g (jc_target c)]) (qc_joins ctx)))) refs
                   then reject
              else Inr ()))
      | _ \<Rightarrow> reject)"

definition validate_multi_metric_joins ::
  "sqlglot \<Rightarrow> query_context \<Rightarrow> bindings \<Rightarrow> ast \<Rightarrow> pystr \<Rightarrow> sql_failure + unit" where
  "validate_multi_metric_joins g ctx b e metric_table =
     (let joins = arg_nodes e ''joins''; cs = forward_constraints g ctx
      in bindR (mapR (table_ref g) (find_all g e ''Table'')) (\<lambda>refs.
         if length refs \<noteq> 1 + length joins then reject
         else bindR (certify_joins g ctx b cs [] joins) (\<lambda>_.
           if list_ex (\<lambda>r. py_casefold g r \<noteq> py_casefold g metric_table
                \<and> py_casefold g r \<notin> set (map (\<lambda>c. py_casefold g (jc_target c)) cs)) refs then reject
           else Inr ())))"

definition validate_multi_metric_filters ::
  "sqlglot \<Rightarrow> query_context \<Rightarrow> bindings \<Rightarrow> ast \<Rightarrow> sql_failure + unit" where
  "validate_multi_metric_filters g ctx b e =
     (case where_condition e of
        Some c \<Rightarrow> if contains g c ''Or'' then reject else validate_metric_filters g ctx b e
      | None \<Rightarrow> validate_metric_filters g ctx b e)"

definition projection_value :: "sqlglot \<Rightarrow> ast \<Rightarrow> ast" where
  "projection_value g p =
     (if isa g p ''Alias'' then (case arg_node p ''this'' of Some v \<Rightarrow> v | None \<Rightarrow> p) else p)"

definition read_projection :: "sqlglot \<Rightarrow> bool \<Rightarrow> ast \<Rightarrow> sql_failure + ast \<times> nat list" where
  "read_projection g allow p =
     (let v = projection_value g p; aggs = map node_id (find_all g v ''AggFunc'')
      in if contains g v ''Star'' then reject
         else if aggs = [] \<and> \<not> allow \<and> \<not> isa g v ''Column'' then reject
         else Inr (v, aggs))"

definition group_expressions :: "ast \<Rightarrow> sql_failure + ast list" where
  "group_expressions e =
     (case arg_node e ''group'' of
        None \<Rightarrow> Inr []
      | Some gr \<Rightarrow>
          if list_ex (\<lambda>k. node_arg gr k \<noteq> None) [''grouping_sets'', ''rollup'', ''cube''] then reject
          else Inr (arg_nodes gr ''expressions''))"

definition validate_multi_metric_output ::
  "sqlglot \<Rightarrow> query_context \<Rightarrow> bindings \<Rightarrow> bool \<Rightarrow> ast \<Rightarrow> sql_failure + unit" where
  "validate_multi_metric_output g ctx b allow e =
     (if arg_nodes e ''expressions'' = [] then reject
      else bindR (mapR (read_projection g allow) (arg_nodes e ''expressions'')) (\<lambda>ps.
        let metrics = map fst (filter (\<lambda>(v, aggs). aggs \<noteq> []) ps);
            dims = map fst (filter (\<lambda>(v, aggs). aggs = []) ps);
            ids = concat (map snd ps)
        in if length metrics \<noteq> length (qc_metrics ctx) then reject
           else if list_ex (\<lambda>n. node_id n \<notin> set ids) (find_all g e ''AggFunc'') then reject
           else bindR (group_expressions e) (\<lambda>groups.
             if (dims = []) \<noteq> (groups = []) then reject
             else bindR (mapR (canonical_sql g ctx b None) dims) (\<lambda>ds.
                  bindR (mapR (canonical_sql g ctx b None) groups) (\<lambda>gs.
                  if set ds \<noteq> set gs then reject
                  else validate_metric_formulas g ctx b metrics)))))"

definition validate_multi_metric_expression ::
  "sqlglot \<Rightarrow> query_context \<Rightarrow> bool \<Rightarrow> ast \<Rightarrow> sql_failure + unit" where
  "validate_multi_metric_expression g ctx allow e =
     bindR (multi_metric_table g (qc_metrics ctx)) (\<lambda>metric_table.
     bindR (table_bindings g e) (\<lambda>b.
     bindR (reject_multi_metric_structure g e) (\<lambda>_.
     bindR (validate_multi_metric_from g ctx e metric_table) (\<lambda>_.
     bindR (validate_multi_metric_joins g ctx b e metric_table) (\<lambda>_.
     bindR (validate_multi_metric_filters g ctx b e) (\<lambda>_.
     validate_multi_metric_output g ctx b allow e))))))"

section \<open>The validation session\<close>

definition run_guard :: "reject_code \<Rightarrow> sql_failure + 'a \<Rightarrow> sql_failure + 'a" where
  "run_guard code r = (case r of Inl (Rejected None) \<Rightarrow> Inl (Rejected (Some code)) | _ \<Rightarrow> r)"

definition reject_with :: "reject_code \<Rightarrow> sql_failure + 'a" where
  "reject_with code = Inl (Rejected (Some code))"

definition parse_single_select :: "sqlglot \<Rightarrow> pystr \<Rightarrow> sql_failure + ast" where
  "parse_single_select g sql =
     (case sg_parse g sql of
        None \<Rightarrow> reject_with SQL_PARSE_ERROR
      | Some statements \<Rightarrow>
          (case List.map_filter (\<lambda>s. s) statements of
             [e] \<Rightarrow>
               if \<not> isa g e ''Select'' then reject_with SELECT_ONLY
               else if list_ex (\<lambda>n. node_id n \<noteq> node_id e) (find_all g e ''Select'')
                    then reject_with SUBQUERY_UNSUPPORTED
               else Inr e
           | _ \<Rightarrow> reject_with STATEMENT_COUNT_INVALID))"

record guard_session =
  gs_candidate :: pystr
  gs_context :: query_context
  gs_allow :: bool
  gs_expression :: "ast option"
  gs_scope_ok :: bool

definition new_session_guard :: "pystr \<Rightarrow> query_context \<Rightarrow> bool \<Rightarrow> guard_session" where
  "new_session_guard candidate ctx allow =
     \<lparr>gs_candidate = strip candidate, gs_context = ctx, gs_allow = allow, gs_expression = None,
      gs_scope_ok = False\<rparr>"

definition ensure_candidate :: "guard_session \<Rightarrow> sql_failure + unit" where
  "ensure_candidate s =
     (if gs_candidate s = [] \<or> gs_candidate s = lit ''CANNOT_ANSWER'' then reject_with CANDIDATE_INVALID
      else Inr ())"

definition session_parse :: "sqlglot \<Rightarrow> guard_session \<Rightarrow> (sql_failure + ast) \<times> guard_session" where
  "session_parse g s =
     (case gs_expression s of
        Some e \<Rightarrow> (Inr e, s)
      | None \<Rightarrow>
          (case parse_single_select g (gs_candidate s) of
             Inl f \<Rightarrow> (Inl f, s)
           | Inr e \<Rightarrow> (Inr e, s\<lparr>gs_expression := Some e\<rparr>)))"

definition scope_checks :: "sqlglot \<Rightarrow> query_context \<Rightarrow> ast \<Rightarrow> sql_failure + unit" where
  "scope_checks g ctx e =
     (if physical_tables g e = [] then reject_with TABLE_SCOPE_REJECTED
      else bindR (run_guard TABLE_SCOPE_REJECTED (validate_physical_tables g ctx (physical_tables g e))) (\<lambda>_.
           run_guard COLUMN_SCOPE_REJECTED (validate_columns g ctx e)))"

definition session_scope ::
  "sqlglot \<Rightarrow> ast \<Rightarrow> guard_session \<Rightarrow> (sql_failure + unit) \<times> guard_session" where
  "session_scope g e s =
     (case scope_checks g (gs_context s) e of
        Inl f \<Rightarrow> (Inl f, s) | Inr _ \<Rightarrow> (Inr (), s\<lparr>gs_scope_ok := True\<rparr>))"

definition session_candidate_scope ::
  "sqlglot \<Rightarrow> guard_session \<Rightarrow> (sql_failure + unit) \<times> guard_session" where
  "session_candidate_scope g s =
     (case ensure_candidate s of
        Inl f \<Rightarrow> (Inl f, s)
      | Inr _ \<Rightarrow>
          (case session_parse g s of
             (Inl f, s1) \<Rightarrow> (Inl f, s1)
           | (Inr e, s1) \<Rightarrow> session_scope g e s1))"

definition forbidden_classes :: "string list" where
  "forbidden_classes = [''DDL'', ''DML'', ''Copy'', ''Command'', ''Into'', ''Lock'']"

definition statement_checks :: "sqlglot \<Rightarrow> ast \<Rightarrow> sql_failure + unit" where
  "statement_checks g e =
     (if list_ex (contains g e) forbidden_classes then reject_with FORBIDDEN_OPERATION
      else if contains g e ''With'' then reject_with UNSUPPORTED_FEATURE
      else if contains g e ''Anonymous'' then reject_with UNAPPROVED_FUNCTION
      else Inr ())"

definition single_metric_checks :: "sqlglot \<Rightarrow> query_context \<Rightarrow> ast \<Rightarrow> sql_failure + unit" where
  "single_metric_checks g ctx e =
     bindR (table_bindings g e) (\<lambda>b.
     bindR (run_guard METRIC_CONSTRAINT_REJECTED (validate_metric_filters g ctx b e)) (\<lambda>_.
     run_guard METRIC_CONSTRAINT_REJECTED
       (validate_metric_formulas g ctx b
         (map (projection_value g) (filter (\<lambda>p. contains g p ''AggFunc'') (arg_nodes e ''expressions''))))))"

definition certified_checks :: "sqlglot \<Rightarrow> query_context \<Rightarrow> bool \<Rightarrow> ast \<Rightarrow> sql_failure + unit" where
  "certified_checks g ctx allow e =
     (if 2 \<le> length (qc_metrics ctx) then
        run_guard MULTI_METRIC_CONSTRAINT_REJECTED (validate_multi_metric_expression g ctx allow e)
      else
        bindR (if arg_nodes e ''joins'' \<noteq> []
               then run_guard JOIN_CONSTRAINT_REJECTED (validate_join_constraints g ctx e) else Inr ()) (\<lambda>_.
        if qc_metrics ctx \<noteq> [] then single_metric_checks g ctx e else Inr ()))"

definition session_validate_sql ::
  "sqlglot \<Rightarrow> guard_session \<Rightarrow> (sql_failure + pystr) \<times> guard_session" where
  "session_validate_sql g s =
     (case ensure_candidate s of
        Inl f \<Rightarrow> (Inl f, s)
      | Inr _ \<Rightarrow>
          (case session_parse g s of
             (Inl f, s1) \<Rightarrow> (Inl f, s1)
           | (Inr e, s1) \<Rightarrow>
               (case statement_checks g e of
                  Inl f \<Rightarrow> (Inl f, s1)
                | Inr _ \<Rightarrow>
                    (case (if gs_scope_ok s1 then (Inr (), s1) else session_scope g e s1) of
                       (Inl f, s2) \<Rightarrow> (Inl f, s2)
                     | (Inr _, s2) \<Rightarrow>
                         (bindR (certified_checks g (gs_context s2) (gs_allow s2) e) (\<lambda>_. Inr (gs_candidate s2)), s2)))))"

text \<open>What the service asks of a fresh session; \<open>validate_sql\<close> is the case without expression dimensions.\<close>

definition guard_verdict :: "sqlglot \<Rightarrow> pystr \<Rightarrow> query_context \<Rightarrow> bool \<Rightarrow> sql_failure + pystr" where
  "guard_verdict g candidate ctx allow = fst (session_validate_sql g (new_session_guard candidate ctx allow))"

definition validate_sql :: "sqlglot \<Rightarrow> pystr \<Rightarrow> query_context \<Rightarrow> sql_failure + pystr" where
  "validate_sql g candidate ctx = guard_verdict g candidate ctx False"

definition validate_candidate_scope :: "sqlglot \<Rightarrow> pystr \<Rightarrow> query_context \<Rightarrow> sql_failure + unit" where
  "validate_candidate_scope g candidate ctx =
     fst (session_candidate_scope g (new_session_guard candidate ctx False))"

definition validate_multi_metric_sql :: "sqlglot \<Rightarrow> pystr \<Rightarrow> query_context \<Rightarrow> sql_failure + unit" where
  "validate_multi_metric_sql g candidate ctx =
     (if length (qc_metrics ctx) < 2 then Inr ()
      else if strip candidate = [] \<or> strip candidate = lit ''CANNOT_ANSWER'' then reject_with CANDIDATE_INVALID
      else bindR (parse_single_select g (strip candidate)) (\<lambda>e.
           run_guard MULTI_METRIC_CONSTRAINT_REJECTED (validate_multi_metric_expression g ctx False e)))"

end
