(* ===== verification/Query_Pipeline.thy ===== *)
theory Query_Pipeline
  imports Sql_Guard Store_Model
begin

text \<open>
  One question on its way through \<open>OnlineQueryService\<close> (\<open>online_query/service.py\<close>), the SQL stages of
  \<open>service_execution.py\<close> and the read-only executor of \<open>database.py\<close>. The collaborators behind the
  ports (query understanding, retrieval, certification of restorable conditions, prompt, language
  model, database) are the fields of \<open>query_env\<close>; a call returns, raises, or raises \<open>ExecutionStopped\<close>.
  \<open>qe_stop\<close> says at which checkpoint, named by its place, the execution is found stopped. The log
  records the calls with an outside effect and the checkpoints passed, in their order.
\<close>

datatype 'a call = Returned 'a | StopCall stop_reason | RaisedExc

datatype query_code =
    INVALID_REQUEST | CONTEXT_ERROR | LLM_ERROR | CLARIFICATION_REQUIRED | CANNOT_ANSWER
  | SQL_REJECTED | DATABASE_ERROR | QUERY_TIMEOUT

datatype 'r query_outcome =
    QSuccess pystr 'r
  | QFailure query_code
  | QStopped stop_reason
  | QRaised

datatype effect =
    StageSet string
  | Understand pystr
  | Retrieve
  | Generate pystr
  | Execute pystr
  | Checked string

datatype 'c understood = Candidate 'c | ClarificationNeeded

datatype 's validation = Validated 's | CannotAnswer | StructureError

datatype retrieval_status =
    SUCCESS | NO_TABLE_HIT | NO_REQUIRED_COLUMN_HIT | NO_METRIC_HIT | PARTIAL_UNREACHABLE
  | AMBIGUOUS | OTHER_STATUS string

datatype 's certification = Certified 's json | ClarifyCondition | CertificationFailed

record rows =
  rows_columns :: "pystr list"
  rows_data :: "json list list"
  rows_truncated :: bool

datatype db_result = Rows rows | DbTimeout | DbError

datatype 's given_query = NoSemantic | BadSemantic | Semantic 's

record 's query_request =
  qr_id :: "pystr option option"
  qr_question :: "pystr option"
  qr_semantic :: "'s given_query"
  qr_restorable :: bool

record ('s, 'c) query_env =
  qe_glot :: sqlglot
  qe_observed :: bool
  qe_stage_raises :: "string \<Rightarrow> bool"
  qe_stop :: "string \<Rightarrow> stop_reason option"
  qe_static :: "query_context option"
  qe_retrieval :: "('s \<Rightarrow> (retrieval_status \<times> query_context option) call) option"
  qe_understand :: "(pystr \<Rightarrow> 'c understood call) option"
  qe_ranking_open :: "'c \<Rightarrow> bool"
  qe_validate :: "'c \<Rightarrow> pystr \<Rightarrow> 's validation"
  qe_certify :: "'s \<Rightarrow> query_context \<Rightarrow> 's certification"
  qe_prompt :: "pystr \<Rightarrow> 's option \<Rightarrow> query_context \<Rightarrow> pystr option"
  qe_generate :: "pystr \<Rightarrow> pystr call"
  qe_restoration_ok :: "pystr \<Rightarrow> 's option \<Rightarrow> json option \<Rightarrow> query_context \<Rightarrow> bool"
  qe_execute :: "pystr \<Rightarrow> db_result call"
  qe_metadata :: "pystr \<Rightarrow> rows \<Rightarrow> bool"

definition business_failures :: "retrieval_status list" where
  "business_failures = [NO_TABLE_HIT, NO_REQUIRED_COLUMN_HIT, NO_METRIC_HIT, PARTIAL_UNREACHABLE, AMBIGUOUS]"

section \<open>Steps\<close>

text \<open>A computation continues with a value and the log, or ends with an outcome and the log.\<close>

type_synonym ('r, 'a) run = "('r query_outcome \<times> effect list) + ('a \<times> effect list)"

definition checkpoint_at ::
  "('s, 'c) query_env \<Rightarrow> string \<Rightarrow> effect list \<Rightarrow> ('r, unit) run" where
  "checkpoint_at env place evs =
     (case qe_stop env place of Some r \<Rightarrow> Inl (QStopped r, evs) | None \<Rightarrow> Inr ((), evs @ [Checked place]))"

text \<open>\<open>progress_observer.set_stage\<close> inside a \<open>try\<close>: an exception becomes the outcome \<open>e\<close>.\<close>

definition set_stage_or ::
  "('s, 'c) query_env \<Rightarrow> string \<Rightarrow> 'r query_outcome \<Rightarrow> effect list \<Rightarrow> ('r, unit) run" where
  "set_stage_or env st e evs =
     (if \<not> qe_observed env then Inr ((), evs)
      else if qe_stage_raises env st then Inl (e, evs)
      else Inr ((), evs @ [StageSet st]))"

definition call_or ::
  "'a call \<Rightarrow> 'r query_outcome \<Rightarrow> effect list \<Rightarrow> ('r, 'a) run" where
  "call_or c e evs =
     (case c of Returned x \<Rightarrow> Inr (x, evs) | StopCall r \<Rightarrow> Inl (QStopped r, evs) | RaisedExc \<Rightarrow> Inl (e, evs))"

section \<open>The SQL stages\<close>

definition certify_stage ::
  "('s, 'c) query_env \<Rightarrow> bool \<Rightarrow> 's option \<Rightarrow> query_context \<Rightarrow> effect list
   \<Rightarrow> ('r, 's option \<times> json option) run" where
  "certify_stage env restorable s ctx evs =
     bindR (checkpoint_at env ''start'' evs) (\<lambda>(_, evs).
     if \<not> restorable then Inr ((s, None), evs)
     else case s of
       None \<Rightarrow> Inl (QFailure CONTEXT_ERROR, evs)
     | Some q \<Rightarrow>
         (case qe_certify env q ctx of
            Certified q' st \<Rightarrow> Inr ((Some q', Some st), evs)
          | ClarifyCondition \<Rightarrow> Inl (QFailure CLARIFICATION_REQUIRED, evs)
          | CertificationFailed \<Rightarrow> Inl (QFailure CONTEXT_ERROR, evs)))"

definition prompt_stage ::
  "('s, 'c) query_env \<Rightarrow> pystr \<Rightarrow> 's option \<Rightarrow> query_context \<Rightarrow> effect list \<Rightarrow> ('r, pystr) run" where
  "prompt_stage env question s ctx evs =
     bindR (checkpoint_at env ''prompt'' evs) (\<lambda>(_, evs).
     case qe_prompt env question s ctx of
       None \<Rightarrow> Inl (QFailure CONTEXT_ERROR, evs) | Some p \<Rightarrow> Inr (p, evs))"

definition generate_stage ::
  "('s, 'c) query_env \<Rightarrow> pystr \<Rightarrow> effect list \<Rightarrow> ('r, pystr) run" where
  "generate_stage env prompt evs =
     bindR (checkpoint_at env ''generate'' evs) (\<lambda>(_, evs).
     bindR (set_stage_or env ''sql_generation'' (QFailure LLM_ERROR) evs) (\<lambda>(_, evs).
     bindR (call_or (qe_generate env prompt) (QFailure LLM_ERROR) (evs @ [Generate prompt])) (\<lambda>(candidate, evs).
     bindR (checkpoint_at env ''generated'' evs) (\<lambda>(_, evs).
     if candidate = lit ''CANNOT_ANSWER'' then Inl (QFailure CANNOT_ANSWER, evs) else Inr (candidate, evs)))))"

definition scope_stage ::
  "('s, 'c) query_env \<Rightarrow> pystr \<Rightarrow> query_context \<Rightarrow> bool \<Rightarrow> effect list \<Rightarrow> ('r, guard_session) run" where
  "scope_stage env candidate ctx restorable evs =
     bindR (checkpoint_at env ''scope'' evs) (\<lambda>(_, evs).
     bindR (set_stage_or env ''sql_validation'' (QFailure SQL_REJECTED) evs) (\<lambda>(_, evs).
     case session_candidate_scope (qe_glot env) (new_session_guard candidate ctx restorable) of
       (Inl _, _) \<Rightarrow> Inl (QFailure SQL_REJECTED, evs)
     | (Inr _, session) \<Rightarrow> Inr (session, evs)))"

text \<open>The digest of the accepted statement is taken outside the \<open>try\<close>.\<close>

definition guard_stage ::
  "('s, 'c) query_env \<Rightarrow> guard_session \<Rightarrow> 's option \<Rightarrow> json option \<Rightarrow> query_context \<Rightarrow> bool \<Rightarrow> effect list
   \<Rightarrow> ('r, pystr) run" where
  "guard_stage env session s st ctx restorable evs =
     bindR (checkpoint_at env ''guard'' evs) (\<lambda>(_, evs).
     case fst (session_validate_sql (qe_glot env) session) of
       Inl _ \<Rightarrow> Inl (QFailure SQL_REJECTED, evs)
     | Inr sql \<Rightarrow>
         if restorable \<and> \<not> qe_restoration_ok env sql s st ctx then Inl (QFailure SQL_REJECTED, evs)
         else if \<not> encodable sql then Inl (QRaised, evs)
         else Inr (sql, evs))"

text \<open>A handler of the database stage: the checkpoint first, then the failure.\<close>

definition fail_after_checkpoint ::
  "('s, 'c) query_env \<Rightarrow> query_code \<Rightarrow> effect list \<Rightarrow> ('r, 'a) run" where
  "fail_after_checkpoint env code evs =
     bindR (checkpoint_at env ''database_failed'' evs) (\<lambda>(_, evs). Inl (QFailure code, evs))"

definition database_stage ::
  "('s, 'c) query_env \<Rightarrow> pystr \<Rightarrow> effect list \<Rightarrow> ('r, rows) run" where
  "database_stage env sql evs =
     bindR (checkpoint_at env ''database'' evs) (\<lambda>(_, evs).
     if qe_observed env \<and> qe_stage_raises env ''query_execution'' then
       fail_after_checkpoint env DATABASE_ERROR evs
     else let evs = evs @ (if qe_observed env then [StageSet ''query_execution''] else []) @ [Execute sql]
       in case qe_execute env sql of
            StopCall r \<Rightarrow> Inl (QStopped r, evs)
          | RaisedExc \<Rightarrow> fail_after_checkpoint env DATABASE_ERROR evs
          | Returned DbTimeout \<Rightarrow> fail_after_checkpoint env QUERY_TIMEOUT evs
          | Returned DbError \<Rightarrow> fail_after_checkpoint env DATABASE_ERROR evs
          | Returned (Rows d) \<Rightarrow>
              bindR (checkpoint_at env ''executed'' evs) (\<lambda>(_, evs). Inr (d, evs)))"

definition finish_run :: "('r, 'a) run \<Rightarrow> ('a \<Rightarrow> 'r query_outcome) \<Rightarrow> 'r query_outcome \<times> effect list" where
  "finish_run r f = (case r of Inl x \<Rightarrow> x | Inr (x, evs) \<Rightarrow> (f x, evs))"

text \<open>From the question to an accepted statement, and on to its rows.\<close>

definition guarded_sql ::
  "('s, 'c) query_env \<Rightarrow> pystr \<Rightarrow> 's option \<Rightarrow> query_context \<Rightarrow> bool \<Rightarrow> effect list \<Rightarrow> ('r, pystr) run" where
  "guarded_sql env question s ctx restorable evs =
     bindR (certify_stage env restorable s ctx evs) (\<lambda>((s', st), evs).
     bindR (prompt_stage env question s' ctx evs) (\<lambda>(prompt, evs).
     bindR (generate_stage env prompt evs) (\<lambda>(candidate, evs).
     bindR (scope_stage env candidate ctx restorable evs) (\<lambda>(session, evs).
     guard_stage env session s' st ctx restorable evs))))"

definition sql_stages ::
  "('s, 'c) query_env \<Rightarrow> pystr \<Rightarrow> 's option \<Rightarrow> query_context \<Rightarrow> bool \<Rightarrow> effect list
   \<Rightarrow> (rows, pystr \<times> rows) run" where
  "sql_stages env question s ctx restorable evs =
     bindR (guarded_sql env question s ctx restorable evs) (\<lambda>(sql, evs).
     bindR (database_stage env sql evs) (\<lambda>(d, evs). Inr ((sql, d), evs)))"

definition execute_query ::
  "('s, 'c) query_env \<Rightarrow> pystr \<Rightarrow> 's option \<Rightarrow> query_context \<Rightarrow> bool \<Rightarrow> effect list
   \<Rightarrow> rows query_outcome \<times> effect list" where
  "execute_query env question s ctx restorable evs =
     finish_run (sql_stages env question s ctx restorable evs)
       (\<lambda>(sql, d). if qe_metadata env sql d then QSuccess sql d else QRaised)"

section \<open>Understanding and context\<close>

definition understand_query ::
  "('s, 'c) query_env \<Rightarrow> pystr \<Rightarrow> bool \<Rightarrow> effect list \<Rightarrow> ('r, 's option) run" where
  "understand_query env question restorable evs =
     (if qe_retrieval env = None \<and> \<not> restorable then Inr (None, evs)
      else case qe_understand env of
        None \<Rightarrow> Inl (QFailure LLM_ERROR, evs)
      | Some f \<Rightarrow>
          bindR (checkpoint_at env ''understand'' evs) (\<lambda>(_, evs).
          bindR (call_or (f question) (QFailure LLM_ERROR) (evs @ [Understand question])) (\<lambda>(u, evs).
          bindR (checkpoint_at env ''understood'' evs) (\<lambda>(_, evs).
          case u of
            ClarificationNeeded \<Rightarrow> Inl (QFailure CLARIFICATION_REQUIRED, evs)
          | Candidate c \<Rightarrow>
              if restorable \<and> qe_ranking_open env c then Inl (QFailure CLARIFICATION_REQUIRED, evs)
              else (case qe_validate env c question of
                      Validated s \<Rightarrow> Inr (Some s, evs)
                    | CannotAnswer \<Rightarrow> Inl (QFailure CANNOT_ANSWER, evs)
                    | StructureError \<Rightarrow> Inl (QFailure LLM_ERROR, evs))))))"

definition retrieved_context ::
  "retrieval_status \<times> query_context option \<Rightarrow> query_code + query_context" where
  "retrieved_context r =
     (case r of
        (SUCCESS, Some ctx) \<Rightarrow> Inr ctx
      | (st, _) \<Rightarrow> Inl (if st \<in> set business_failures then CANNOT_ANSWER else CONTEXT_ERROR))"

definition resolve_context ::
  "('s, 'c) query_env \<Rightarrow> 's option \<Rightarrow> effect list \<Rightarrow> ('r, query_context) run" where
  "resolve_context env s evs =
     (case qe_retrieval env of
        None \<Rightarrow> (case qe_static env of None \<Rightarrow> Inl (QFailure CONTEXT_ERROR, evs) | Some ctx \<Rightarrow> Inr (ctx, evs))
      | Some f \<Rightarrow>
          bindR (set_stage_or env ''retrieval'' QRaised evs) (\<lambda>(_, evs).
          case s of
            None \<Rightarrow> Inl (QFailure CONTEXT_ERROR, evs)
          | Some q \<Rightarrow>
              bindR (checkpoint_at env ''retrieve'' evs) (\<lambda>(_, evs).
              bindR (call_or (f q) (QFailure CONTEXT_ERROR) (evs @ [Retrieve])) (\<lambda>(r, evs).
              bindR (checkpoint_at env ''retrieved'' evs) (\<lambda>(_, evs).
              case retrieved_context r of Inl code \<Rightarrow> Inl (QFailure code, evs) | Inr ctx \<Rightarrow> Inr (ctx, evs))))))"

definition semantic_query ::
  "('s, 'c) query_env \<Rightarrow> 's query_request \<Rightarrow> pystr \<Rightarrow> effect list \<Rightarrow> ('r, 's option) run" where
  "semantic_query env r question evs =
     (case qr_semantic r of
        BadSemantic \<Rightarrow> Inl (QFailure CONTEXT_ERROR, evs)
      | Semantic s \<Rightarrow> Inr (Some s, evs)
      | NoSemantic \<Rightarrow>
          bindR (if qe_retrieval env \<noteq> None \<or> qr_restorable r
                 then set_stage_or env ''query_understanding'' QRaised evs else Inr ((), evs)) (\<lambda>(_, evs).
          understand_query env question (qr_restorable r) evs))"

text \<open>\<open>_resolve_request_id\<close>: whether the identifier given is text; \<open>fresh\<close> is \<open>uuid4()\<close>.\<close>

definition resolve_request_id :: "pystr \<Rightarrow> pystr option option \<Rightarrow> pystr \<times> bool" where
  "resolve_request_id fresh r =
     (case r of
        None \<Rightarrow> (fresh, True)
      | Some None \<Rightarrow> (fresh, False)
      | Some (Some t) \<Rightarrow> (if strip t = [] then fresh else strip t, True))"

definition service_query ::
  "('s, 'c) query_env \<Rightarrow> pystr \<Rightarrow> 's query_request \<Rightarrow> effect list \<Rightarrow> rows query_outcome \<times> effect list" where
  "service_query env fresh r evs =
     (case qr_question r of
        None \<Rightarrow> (QFailure INVALID_REQUEST, evs)
      | Some q \<Rightarrow>
          if \<not> snd (resolve_request_id fresh (qr_id r)) \<or> strip q = [] then (QFailure INVALID_REQUEST, evs)
          else
            (case semantic_query env r (strip q) evs of
               Inl out \<Rightarrow> out
             | Inr (s, evs) \<Rightarrow>
                 (case resolve_context env s evs of
                    Inl out \<Rightarrow> out
                  | Inr (ctx, evs) \<Rightarrow> execute_query env (strip q) s ctx (qr_restorable r) evs)))"

definition service_execute ::
  "('s, 'c) query_env \<Rightarrow> pystr \<Rightarrow> 's query_request \<Rightarrow> rows query_outcome \<times> effect list" where
  "service_execute env fresh r =
     (case qe_stop env ''request'' of
        Some why \<Rightarrow> (QStopped why, [])
      | None \<Rightarrow> service_query env fresh r [Checked ''request''])"

section \<open>The read-only executor\<close>

text \<open>
  \<open>PsycopgQueryExecutor.execute_with_control\<close>: the connection is an argument. \<open>dc_rows\<close> are the
  rows the statement has, of which \<open>fetchmany(101)\<close> returns the first 101, and \<open>dc_columns\<close> the described columns (\<open>None\<close>: no result
  set); \<open>dc_canceled\<close> says that the server cancels the statement.
\<close>

datatype db_event = ReadOnly | BeginTransaction | SetTimeout | RunStatement pystr | Fetch nat

record db_connection =
  dc_connects :: bool
  dc_canceled :: "pystr \<Rightarrow> bool"
  dc_columns :: "pystr \<Rightarrow> pystr list option"
  dc_rows :: "pystr \<Rightarrow> json list list"
  dc_fails :: "pystr \<Rightarrow> bool"

definition executor_run ::
  "(string \<Rightarrow> stop_reason option) \<Rightarrow> db_connection \<Rightarrow> pystr \<Rightarrow> db_result call \<times> db_event list" where
  "executor_run stop c sql =
     (let canceled = (\<lambda>evs. (case stop ''canceled'' of Some r \<Rightarrow> StopCall r | None \<Rightarrow> Returned DbTimeout, evs))
      in case stop ''connect'' of
           Some r \<Rightarrow> (StopCall r, [])
         | None \<Rightarrow>
             if \<not> dc_connects c then (Returned DbError, [])
             else let evs = [ReadOnly, BeginTransaction]
               in case stop ''cursor'' of
                    Some r \<Rightarrow> (StopCall r, evs)
                  | None \<Rightarrow>
                      let evs = evs @ [SetTimeout, RunStatement sql]
                      in if dc_canceled c sql then canceled evs
                         else if dc_fails c sql then (Returned DbError, evs)
                         else (case dc_columns c sql of
                                 None \<Rightarrow> (Returned DbError, evs)
                               | Some cols \<Rightarrow>
                                   let fetched = take 101 (dc_rows c sql); evs = evs @ [Fetch 101]
                                   in case stop ''fetched'' of
                                        Some r \<Rightarrow> (StopCall r, evs)
                                      | None \<Rightarrow>
                                          (Returned (Rows \<lparr>rows_columns = cols, rows_data = take 100 fetched,
                                                            rows_truncated = (100 < length fetched)\<rparr>), evs)))"

end
