(* ===== verification/Join_Properties.thy ===== *)
theory Join_Properties
  imports Join_Graph
begin

text \<open>
  What the join resolution guarantees: parsed edges are well formed, every target is reached by
  exactly one direct edge of the anchor, and each constraint carries a published key of its target.
\<close>

definition edge_ok :: "join_edge \<Rightarrow> bool" where
  "edge_ok e \<longleftrightarrow>
     je_direction e = ''forward'' \<and> je_constraint e = je_id e \<and> je_source_columns e \<noteq> []
     \<and> length (je_source_columns e) = length (je_target_columns e)"

section \<open>Parsing\<close>

lemma string_tuple_nonempty: "string_tuple v key i = Inr xs \<Longrightarrow> xs \<noteq> []"
  by (auto simp: string_tuple_def split: option.splits json.splits if_splits)

lemma parse_edge_ok: "parse_edge i v = Inr e \<Longrightarrow> edge_ok e"
  by (auto simp: parse_edge_def edge_ok_def bindR_iffs dest: string_tuple_nonempty
      split: json.splits if_splits)

lemma numbered_Inr_set:
  "numbered f i xs = Inr ys \<Longrightarrow> y \<in> set ys \<Longrightarrow> \<exists>j x. x \<in> set xs \<and> f j x = Inr y"
proof (induction xs arbitrary: i ys)
  case (Cons x xs)
  then obtain z zs where "f i x = Inr z" "numbered f (i + 1) xs = Inr zs" "ys = z # zs"
    by (auto simp: bindR_iffs)
  with Cons.prems Cons.IH [of "i + 1" zs] show ?case by (cases "y = z") auto
qed simp

lemma parse_edges_ok: "parse_edges graph = Inr es \<Longrightarrow> e \<in> set es \<Longrightarrow> edge_ok e"
  by (auto simp: parse_edges_def bindR_iffs dest!: numbered_Inr_set parse_edge_ok
      split: option.splits json.splits)

lemma parse_edges_sorted: "parse_edges graph = Inr es \<Longrightarrow> sorted (map je_id es)"
  by (auto simp: parse_edges_def bindR_iffs split: option.splits json.splits)

section \<open>Direct edges\<close>

lemma direct_edges_sub:
  "e \<in> set (direct_edges anchor edges te tt target) \<Longrightarrow>
     e \<in> set edges \<and> je_source e = anchor \<and> je_target e = target"
  by (auto simp: direct_edges_def Let_def split: if_splits)

definition path_to :: "pystr \<Rightarrow> join_edge \<Rightarrow> join_path" where
  "path_to anchor e = \<lparr>jp_tables = [anchor, je_target e], jp_edges = [e]\<rparr>"

definition joined_targets :: "pystr \<Rightarrow> pystr list \<Rightarrow> pystr list" where
  "joined_targets anchor ts = filter (\<lambda>t. t \<noteq> anchor) ts"

text \<open>The loop as a function of the edges it finds.\<close>

lemma resolve_targets_Inr:
  "resolve_targets anchor edges te tt ts = Inr (ps, []) \<longleftrightarrow>
     (\<exists>es. ps = map (path_to anchor) es
       \<and> list_all2 (\<lambda>t e. direct_edges anchor edges te tt t = [e]) (joined_targets anchor ts) es)"
proof (induction ts arbitrary: ps)
  case (Cons t ts)
  show ?case
  proof (cases "t = anchor")
    case True
    then show ?thesis using Cons.IH by (simp add: joined_targets_def)
  next
    case False
    consider "direct_edges anchor edges te tt t = []" | e where "direct_edges anchor edges te tt t = [e]"
      | e e' es where "direct_edges anchor edges te tt t = e # e' # es"
      by (cases "direct_edges anchor edges te tt t" rule: remdups_adj.cases) auto
    then show ?thesis
    proof cases
      case (2 e)
      from 2 have tgt: "je_target e = t" using direct_edges_sub [of e anchor edges te tt t] by simp
      have "resolve_targets anchor edges te tt (t # ts) = Inr (ps, []) \<longleftrightarrow>
          (\<exists>qs. ps = path_to anchor e # qs \<and> resolve_targets anchor edges te tt ts = Inr (qs, []))"
        using False by (auto simp: 2 bindR_iffs path_to_def tgt)
      also have "\<dots> \<longleftrightarrow> (\<exists>es. ps = map (path_to anchor) (e # es) \<and>
          list_all2 (\<lambda>t e. direct_edges anchor edges te tt t = [e]) (joined_targets anchor ts) es)"
        by (auto simp: Cons.IH)
      also have "\<dots> \<longleftrightarrow> (\<exists>es. ps = map (path_to anchor) es \<and>
          list_all2 (\<lambda>t e. direct_edges anchor edges te tt t = [e]) (joined_targets anchor (t # ts)) es)"
        (is "(\<exists>es. ?P es) \<longleftrightarrow> (\<exists>es. ?Q es)")
      proof
        assume "\<exists>es. ?P es"
        then obtain es where "?P es" ..
        then have "?Q (e # es)" using False by (simp add: joined_targets_def 2)
        then show "\<exists>es. ?Q es" ..
      next
        assume "\<exists>es. ?Q es"
        then show "\<exists>es. ?P es" using False by (auto simp: joined_targets_def list_all2_Cons1 2)
      qed
      finally show ?thesis .
    qed (use False in \<open>auto simp: joined_targets_def list_all2_Cons1 bindR_iffs\<close>)
  qed
qed (auto simp: joined_targets_def)

lemma dedupe_edges_set: "set (dedupe_edges seen es) \<subseteq> set es"
  by (induction es arbitrary: seen) auto

lemma dedupe_edges_distinct:
  assumes "distinct (map (\<lambda>e. (je_id e, je_direction e)) es)"
    and "\<And>e. e \<in> set es \<Longrightarrow> (je_id e, je_direction e) \<notin> set seen"
  shows "dedupe_edges seen es = es"
  using assms
proof (induction es arbitrary: seen)
  case (Cons a es)
  have "dedupe_edges ((je_id a, je_direction a) # seen) es = es"
  proof (rule Cons.IH)
    fix e assume "e \<in> set es"
    then show "(je_id e, je_direction e) \<notin> set ((je_id a, je_direction a) # seen)"
      using Cons.prems(1) Cons.prems(2) [of e] by (auto simp: image_iff)
  qed (use Cons.prems(1) in simp)
  then show ?case using Cons.prems(2) [of a] by simp
qed simp

lemma dedupe_edges_Nil_iff: "dedupe_edges [] es = [] \<longleftrightarrow> es = []"
  by (cases es) auto

lemma concat_path_to: "concat (map jp_edges (map (path_to anchor) es)) = es"
  by (induction es) (simp_all add: path_to_def)

lemma resolve_join_paths_Inr:
  "resolve_join_paths anchor ts edges te tt = Inr res \<longleftrightarrow>
     (\<exists>es. list_all2 (\<lambda>t e. direct_edges anchor edges te tt t = [e]) (joined_targets anchor ts) es
       \<and> res = \<lparr>jr_anchor = anchor, jr_paths = map (path_to anchor) es,
                jr_joins = dedupe_edges [] es, jr_unreachable = []\<rparr>)"
  (is "_ \<longleftrightarrow> (\<exists>es. ?ok es \<and> res = ?res es)")
proof -
  have "resolve_join_paths anchor ts edges te tt = Inr res \<longleftrightarrow>
      (\<exists>ps. resolve_targets anchor edges te tt ts = Inr (ps, [])
        \<and> res = \<lparr>jr_anchor = anchor, jr_paths = ps, jr_joins = dedupe_edges [] (concat (map jp_edges ps)),
                 jr_unreachable = []\<rparr>)"
    by (cases "resolve_targets anchor edges te tt ts") (auto simp: resolve_join_paths_def split: if_splits)
  also have "\<dots> \<longleftrightarrow> (\<exists>es. ?ok es \<and> res = ?res es)"
    unfolding resolve_targets_Inr using concat_path_to [of anchor] by (metis (no_types))
  finally show ?thesis .
qed

section \<open>Constraints\<close>

definition needed_tables :: "pystr list \<Rightarrow> pystr option \<Rightarrow> time_field option \<Rightarrow> pystr set" where
  "needed_tables candidates metric_table tf =
     set candidates \<union> set_option metric_table \<union> tf_target ` set_option tf"

lemma set_target_tables: "set (target_tables candidates metric_table tf) = needed_tables candidates metric_table tf"
  by (auto simp: target_tables_def needed_tables_def split: option.splits)

lemma distinct_target_tables: "distinct (target_tables candidates metric_table tf)"
  by (simp add: target_tables_def)

lemma validate_time_edge_Inr:
  "validate_time_edge f edges = Inr g \<Longrightarrow> tf_target g = tf_target f"
  by (auto simp: validate_time_edge_def split: list.splits)

text \<open>What a successful join stage went through.\<close>

lemma join_stage_Inr:
  assumes "join_stage anchor candidates metric_table tf graph = Inr (res, cs)"
  obtains edges es te tt where "parse_edges graph = Inr edges"
    and "list_all2 (\<lambda>t e. direct_edges anchor edges te tt t = [e])
           (joined_targets anchor (target_tables candidates metric_table tf)) es"
    and "jr_joins res = dedupe_edges [] es" and "jr_paths res = map (path_to anchor) es"
    and "validated_join_constraints anchor res graph = Inr cs"
proof -
  from assms obtain edges tf' where edges: "parse_edges graph = Inr edges"
    and tf': "(case tf of None \<Rightarrow> Inr None | Some f \<Rightarrow> bindR (validate_time_edge f edges) (\<lambda>g. Inr (Some g))) = Inr tf'"
    and res: "resolve_join_paths anchor (target_tables candidates metric_table tf') edges
                (case tf' of None \<Rightarrow> None | Some g \<Rightarrow> tf_edge g)
                (case tf' of None \<Rightarrow> None | Some g \<Rightarrow> Some (tf_target g)) = Inr res"
    and cs: "validated_join_constraints anchor res graph = Inr cs"
    by (auto simp: join_stage_def bindR_iffs)
  from tf' have "map_option tf_target tf' = map_option tf_target tf"
    by (cases tf) (auto simp: bindR_iffs dest: validate_time_edge_Inr)
  then have tt: "target_tables candidates metric_table tf' = target_tables candidates metric_table tf"
    by (cases tf; cases tf') (simp_all add: target_tables_def)
  from res [unfolded resolve_join_paths_Inr tt] obtain es where
    "list_all2 (\<lambda>t e. direct_edges anchor edges (case tf' of None \<Rightarrow> None | Some g \<Rightarrow> tf_edge g)
        (case tf' of None \<Rightarrow> None | Some g \<Rightarrow> Some (tf_target g)) t = [e])
      (joined_targets anchor (target_tables candidates metric_table tf)) es"
    and "jr_joins res = dedupe_edges [] es" and "jr_paths res = map (path_to anchor) es" by auto
  with edges cs show ?thesis by (rule_tac that)
qed

lemma direct_list_all2:
  assumes "list_all2 (\<lambda>t e. direct_edges anchor edges te tt t = [e]) ts es"
  shows "set es \<subseteq> set edges" and "\<forall>e \<in> set es. je_source e = anchor" and "map je_target es = ts"
  using assms
proof (induction ts es rule: list_all2_induct)
  case (Cons t ts e es)
  have "e \<in> set (direct_edges anchor edges te tt t)" using Cons.hyps by simp
  from direct_edges_sub [OF this] have e: "e \<in> set edges" "je_source e = anchor" "je_target e = t" by auto
  { case 1 show ?case using Cons.IH(1) e by simp next
    case 2 show ?case using Cons.IH(2) e by simp next
    case 3 show ?case using Cons.IH(3) e by simp }
qed simp_all

lemma validated_join_constraints_Inr:
  assumes "validated_join_constraints anchor res graph = Inr cs" and "jr_joins res \<noteq> []"
  obtains keys where "graph_unique_keys graph = Inr keys"
    and "list_all2 (\<lambda>e c. constraint_of keys e = Inr c) (jr_joins res) cs"
    and "\<forall>p \<in> set (jr_paths res). forward_chain anchor (jp_edges p)"
  using assms
  by (auto simp: validated_join_constraints_def bindR_iffs mapR_Inr_iff list_ex_iff split: if_splits)

lemma constraint_of_Inr:
  "constraint_of keys e = Inr c \<Longrightarrow>
     jc_source c = je_source e \<and> jc_target c = je_target e \<and> jc_source_columns c = je_source_columns e
     \<and> jc_target_columns c = je_target_columns e \<and> jc_direction c = ''forward''
     \<and> keys (jc_target c, jc_target_columns c) = Some (jc_basis c)"
  by (auto simp: constraint_of_def split: option.splits)

lemma constraints_targets:
  "list_all2 (\<lambda>e c. constraint_of keys e = Inr c) es cs \<Longrightarrow> map jc_target cs = map je_target es"
  by (induction rule: list_all2_induct) (auto dest: constraint_of_Inr)

lemma list_all2_right: "list_all2 P xs ys \<Longrightarrow> y \<in> set ys \<Longrightarrow> \<exists>x \<in> set xs. P x y"
  by (induction rule: list_all2_induct) auto

text \<open>A published graph as the exporter writes it: one constraint name per foreign key of a table.\<close>

definition names_identify :: "pystr \<Rightarrow> join_edge list \<Rightarrow> bool" where
  "names_identify anchor edges \<longleftrightarrow> distinct (map je_id (filter (\<lambda>e. je_source e = anchor) edges))"

lemma names_identify_inj:
  "names_identify anchor edges \<Longrightarrow> e \<in> set edges \<Longrightarrow> e' \<in> set edges \<Longrightarrow> je_source e = anchor \<Longrightarrow>
   je_source e' = anchor \<Longrightarrow> je_id e = je_id e' \<Longrightarrow> e = e'"
  by (auto simp: names_identify_def distinct_map inj_on_def)

lemma stage_constraints:
  assumes "join_stage anchor candidates metric_table tf graph = Inr (res, cs)"
    and "c \<in> set cs"
  shows "jc_source c = anchor \<and> jc_direction c = ''forward''
     \<and> jc_source_columns c \<noteq> [] \<and> length (jc_source_columns c) = length (jc_target_columns c)
     \<and> (\<exists>edges e. parse_edges graph = Inr edges \<and> e \<in> set edges
          \<and> je_source e = anchor \<and> je_source_columns e = jc_source_columns c
          \<and> je_target e = jc_target c \<and> je_target_columns e = jc_target_columns c)
     \<and> (\<exists>keys. graph_unique_keys graph = Inr keys
          \<and> keys (jc_target c, jc_target_columns c) = Some (jc_basis c))"
proof -
  from assms(1) obtain edges es te tt where edges: "parse_edges graph = Inr edges"
    and direct: "list_all2 (\<lambda>t e. direct_edges anchor edges te tt t = [e])
           (joined_targets anchor (target_tables candidates metric_table tf)) es"
    and joins: "jr_joins res = dedupe_edges [] es"
    and cs: "validated_join_constraints anchor res graph = Inr cs"
    by (rule join_stage_Inr)
  from cs assms(2) have "jr_joins res \<noteq> []" by (auto simp: validated_join_constraints_def)
  with cs obtain keys where keys: "graph_unique_keys graph = Inr keys"
    and all: "list_all2 (\<lambda>e c. constraint_of keys e = Inr c) (jr_joins res) cs"
    by (rule validated_join_constraints_Inr)
  from list_all2_right [OF all assms(2)] obtain e
    where "e \<in> set (jr_joins res)" and c: "constraint_of keys e = Inr c" by blast
  then have "e \<in> set es" using dedupe_edges_set by (auto simp: joins)
  then have e: "e \<in> set edges" "je_source e = anchor" using direct_list_all2(1,2) [OF direct] by auto
  with parse_edges_ok [OF edges] have "edge_ok e" by simp
  with constraint_of_Inr [OF c] e edges keys show ?thesis by (auto simp: edge_ok_def)
qed

section \<open>Properties\<close>

text \<open>C18: Whatever the published graph contains, every join constraint the retrieval stage hands to
the SQL guard leaves the anchor, follows a foreign key of the graph column by column, and points to
columns that the graph publishes as a primary key or an unconditional unique constraint.\<close>
theorem joins_are_certified:
  assumes "join_stage anchor candidates metric_table tf graph = Inr (res, cs)"
    and "c \<in> set cs"
  shows "jc_source c = anchor \<and> jc_direction c = ''forward''
     \<and> jc_source_columns c \<noteq> [] \<and> length (jc_source_columns c) = length (jc_target_columns c)
     \<and> (\<exists>edges e. parse_edges graph = Inr edges \<and> e \<in> set edges
          \<and> je_source e = anchor \<and> je_source_columns e = jc_source_columns c
          \<and> je_target e = jc_target c \<and> je_target_columns e = jc_target_columns c)
     \<and> (\<exists>keys. graph_unique_keys graph = Inr keys
          \<and> keys (jc_target c, jc_target_columns c) = Some (jc_basis c))"
  using assms by (rule stage_constraints)

text \<open>If the constraint names identify the foreign keys of the anchor, a successful join stage
gives exactly one join constraint for every table the query needs besides the anchor, and none for
any other table.\<close>
theorem joins_cover_targets:
  assumes "join_stage anchor candidates metric_table tf graph = Inr (res, cs)"
    and "parse_edges graph = Inr edges" and "names_identify anchor edges"
  shows "distinct (map jc_target cs)
     \<and> jc_target ` set cs = needed_tables candidates metric_table tf - {anchor}"
proof -
  let ?ts = "joined_targets anchor (target_tables candidates metric_table tf)"
  from assms(1) obtain edges' es te tt where "parse_edges graph = Inr edges'"
    and "list_all2 (\<lambda>t e. direct_edges anchor edges' te tt t = [e]) ?ts es"
    and joins: "jr_joins res = dedupe_edges [] es"
    and cs: "validated_join_constraints anchor res graph = Inr cs"
    by (rule join_stage_Inr)
  with assms(2) have direct: "list_all2 (\<lambda>t e. direct_edges anchor edges te tt t = [e]) ?ts es" by simp
  have ts: "distinct ?ts" "set ?ts = needed_tables candidates metric_table tf - {anchor}"
    by (auto simp: joined_targets_def distinct_target_tables set_target_tables)
  have es: "map je_target es = ?ts" by (rule direct_list_all2(3) [OF direct])
  have "distinct es" using ts(1) by (simp flip: es add: distinct_map)
  moreover have "inj_on (\<lambda>e. (je_id e, je_direction e)) (set es)"
  proof (rule inj_onI)
    fix x y assume "x \<in> set es" "y \<in> set es" "(je_id x, je_direction x) = (je_id y, je_direction y)"
    then show "x = y" using direct_list_all2(1,2) [OF direct]
      by (intro names_identify_inj [OF assms(3)]) auto
  qed
  ultimately have "jr_joins res = es" by (simp add: joins dedupe_edges_distinct distinct_map)
  have "map jc_target cs = ?ts"
  proof (cases "es = []")
    case True
    then show ?thesis using cs es \<open>jr_joins res = es\<close> by (auto simp: validated_join_constraints_def)
  next
    case False
    with cs \<open>jr_joins res = es\<close> obtain keys where
      "list_all2 (\<lambda>e c. constraint_of keys e = Inr c) es cs"
      by (auto elim: validated_join_constraints_Inr)
    then show ?thesis by (simp add: constraints_targets es)
  qed
  then have "distinct (map jc_target cs)" "set (map jc_target cs) = set ?ts" using ts by simp_all
  then show ?thesis using ts(2) by simp
qed

section \<open>A published graph\<close>

definition sample_record :: "(string \<times> json) list \<Rightarrow> json" where
  "sample_record kvs = JObj (map (\<lambda>(k, v). (lit k, v)) kvs)"

definition sample_graph :: "(pystr \<times> json) list" where
  "sample_graph =
    [(lit ''foreign_keys'', JArr
       [sample_record [(''constraint_name'', JStr [112]), (''source_schema'', JStr (lit ''mart_sales'')), (''source_table'', JStr [102]),
          (''source_columns'', JArr [JStr [97]]), (''target_schema'', JStr (lit ''mart_sales'')), (''target_table'', JStr [103]),
          (''target_columns'', JArr [JStr [98]])],
        sample_record [(''constraint_name'', JStr [111]), (''source_schema'', JStr (lit ''mart_sales'')), (''source_table'', JStr [102]),
          (''source_columns'', JArr [JStr [99]]), (''target_schema'', JStr (lit ''mart_sales'')), (''target_table'', JStr [104]),
          (''target_columns'', JArr [JStr [98]])]]),
     (lit ''primary_keys'', JArr
       [sample_record [(''constraint_name'', JStr [113]), (''schema_name'', JStr (lit ''mart_sales'')), (''table_name'', JStr [103]),
          (''column_names'', JArr [JStr [98]])]]),
     (lit ''unique_constraints'', JArr
       [sample_record [(''constraint_name'', JStr [114]), (''schema_name'', JStr (lit ''mart_sales'')), (''table_name'', JStr [104]),
          (''column_names'', JArr [JStr [98]])]])]"

definition sample_edges :: "join_edge list" where
  "sample_edges =
    [\<lparr>je_id = [111], je_source = lit ''mart_sales.f'', je_target = lit ''mart_sales.h'', je_source_columns = [[99]],
      je_target_columns = [[98]], je_constraint = [111], je_direction = ''forward''\<rparr>,
     \<lparr>je_id = [112], je_source = lit ''mart_sales.f'', je_target = lit ''mart_sales.g'', je_source_columns = [[97]],
      je_target_columns = [[98]], je_constraint = [112], je_direction = ''forward''\<rparr>]"

lemmas graph_eval = graph_text_def qualified_from_graph_def string_tuple_def nonblank_def text_of_def obj_get_def
  sample_record_def strip_def py_isspace_def lit_def

lemma sample_edges: "parse_edges sample_graph = Inr sample_edges"
  by (simp add: parse_edges_def parse_edge_def sample_graph_def graph_eval sample_edges_def)

lemma sample_keys:
  "graph_unique_keys sample_graph =
     Inr [(lit ''mart_sales.h'', [[98]]) \<mapsto> lit ''unique_constraint'' @ [58, 114], (lit ''mart_sales.g'', [[98]]) \<mapsto> lit ''primary_key'' @ [58, 113]]"
  by (simp add: graph_unique_keys_def unique_section_def unique_key_def sample_graph_def graph_eval fun_eq_iff)

lemma sample_stage:
  "\<exists>res c c'. join_stage (lit ''mart_sales.f'') [lit ''mart_sales.g'', lit ''mart_sales.h''] None None sample_graph = Inr (res, [c, c'])
     \<and> jc_target c = lit ''mart_sales.g'' \<and> jc_target c' = lit ''mart_sales.h''"
  by (simp add: join_stage_def sample_edges sample_edges_def target_tables_def resolve_join_paths_def direct_edges_def
      validated_join_constraints_def sample_keys constraint_of_def lit_def)

theorem joins_are_certified_witness:
  "\<exists>c :: join_constraint. jc_target c = lit ''mart_sales.g'' \<and> jc_source c = lit ''mart_sales.f'' \<and> jc_direction c = ''forward''"
proof -
  from sample_stage obtain res c c' where
    "join_stage (lit ''mart_sales.f'') [lit ''mart_sales.g'', lit ''mart_sales.h''] None None sample_graph = Inr (res, [c, c'])"
    and "jc_target c = lit ''mart_sales.g''" by blast
  with joins_are_certified [OF this(1), of c]
  have "jc_target c = lit ''mart_sales.g'' \<and> jc_source c = lit ''mart_sales.f'' \<and> jc_direction c = ''forward''" by simp
  then show ?thesis by (rule exI [of _ c])
qed

theorem joins_cover_targets_witness:
  "\<exists>res cs. join_stage (lit ''mart_sales.f'') [lit ''mart_sales.g'', lit ''mart_sales.h''] None None sample_graph = Inr (res, cs)
     \<and> distinct (map jc_target cs) \<and> jc_target ` set cs = {lit ''mart_sales.g'', lit ''mart_sales.h''}"
proof -
  from sample_stage obtain res cs where
    st: "join_stage (lit ''mart_sales.f'') [lit ''mart_sales.g'', lit ''mart_sales.h''] None None sample_graph = Inr (res, cs)" by blast
  have "names_identify (lit ''mart_sales.f'') sample_edges" by (simp add: names_identify_def sample_edges_def)
  note cover = joins_cover_targets [OF st sample_edges this]
  have "needed_tables [lit ''mart_sales.g'', lit ''mart_sales.h''] None None - {lit ''mart_sales.f''} =
      {lit ''mart_sales.g'', lit ''mart_sales.h''}"
    by (simp add: needed_tables_def lit_def insert_commute)
  from cover [unfolded this] show ?thesis by (intro exI [of _ res] exI [of _ cs]) (simp add: st)
qed

end
