(* ===== verification/Sql_Guard_Properties.thy ===== *)
theory Sql_Guard_Properties
  imports Sql_Guard Join_Properties
begin

text \<open>
  What the SQL guard accepts: one \<open>SELECT\<close> over allowed tables, whose joins are certified foreign keys
  and whose outputs are the certified metrics; and the session's cache does not change a verdict.
\<close>

lemma run_guard_Inr_iff [simp]: "run_guard c r = Inr x \<longleftrightarrow> r = Inr x"
  by (cases r) (auto simp: run_guard_def split: sql_failure.splits option.splits)

lemma reject_with_neq [simp]: "reject_with c \<noteq> Inr x" "reject \<noteq> Inr x"
  by (simp_all add: reject_with_def reject_def)

lemma case_singleton: "(case xs of [i] \<Rightarrow> f i | _ \<Rightarrow> reject) = Inr y \<longleftrightarrow> (\<exists>i. xs = [i] \<and> f i = Inr y)"
  by (cases xs rule: remdups_adj.cases) auto

section \<open>An accepted statement\<close>

definition one_select :: "sqlglot \<Rightarrow> pystr \<Rightarrow> ast \<Rightarrow> bool" where
  "one_select g sql e \<longleftrightarrow>
     (\<exists>statements. sg_parse g sql = Some statements \<and> List.map_filter (\<lambda>s. s) statements = [e])
     \<and> isa g e ''Select''
     \<and> (\<forall>n \<in> set (sg_walk g e). isa g n ''Select'' \<longrightarrow> node_id n = node_id e)"

lemma parse_single_select_Inr: "parse_single_select g sql = Inr e \<Longrightarrow> one_select g sql e"
  by (auto simp: parse_single_select_def one_select_def find_all_def list_ex_iff
      split: option.splits list.splits if_splits)

definition guarded :: "sqlglot \<Rightarrow> query_context \<Rightarrow> bool \<Rightarrow> pystr \<Rightarrow> ast \<Rightarrow> bool" where
  "guarded g ctx allow sql e \<longleftrightarrow>
     one_select g sql e \<and> statement_checks g e = Inr () \<and> scope_checks g ctx e = Inr ()
     \<and> certified_checks g ctx allow e = Inr ()"

text \<open>A session as the operations leave it.\<close>

definition session_ok :: "sqlglot \<Rightarrow> guard_session \<Rightarrow> bool" where
  "session_ok g s \<longleftrightarrow>
     (\<forall>e. gs_expression s = Some e \<longrightarrow> parse_single_select g (gs_candidate s) = Inr e)
     \<and> (gs_scope_ok s \<longrightarrow> (\<exists>e. gs_expression s = Some e \<and> scope_checks g (gs_context s) e = Inr ()))"

lemma session_ok_new [simp]: "session_ok g (new_session_guard c ctx allow)"
  by (simp add: session_ok_def new_session_guard_def)

lemma session_parse_eq:
  "session_ok g s \<Longrightarrow> fst (session_parse g s) = parse_single_select g (gs_candidate s)"
  by (auto simp: session_parse_def session_ok_def split: option.splits sum.splits)

lemma session_parse_state:
  "session_ok g s \<Longrightarrow> session_parse g s = (Inr e, s') \<Longrightarrow> s' = s\<lparr>gs_expression := Some e\<rparr> \<and> session_ok g s'"
  by (auto simp: session_parse_def session_ok_def split: option.splits sum.splits)

lemma session_parse_fail: "session_parse g s = (Inl f, s') \<Longrightarrow> s' = s"
  by (auto simp: session_parse_def split: option.splits sum.splits)

lemma session_scope_eq:
  "fst (session_scope g e s) = scope_checks g (gs_context s) e"
  by (auto simp: session_scope_def split: sum.splits)

lemma session_scope_ok:
  "session_ok g s \<Longrightarrow> gs_expression s = Some e \<Longrightarrow> session_ok g (snd (session_scope g e s))"
  by (auto simp: session_scope_def session_ok_def split: sum.splits)

lemma session_scope_fields:
  "gs_context (snd (session_scope g e s)) = gs_context s"
  "gs_allow (snd (session_scope g e s)) = gs_allow s"
  "gs_candidate (snd (session_scope g e s)) = gs_candidate s"
  by (auto simp: session_scope_def split: sum.splits)

text \<open>The verdict of a session as a function of its candidate alone.\<close>

definition verdict :: "sqlglot \<Rightarrow> guard_session \<Rightarrow> sql_failure + pystr" where
  "verdict g s =
     bindR (ensure_candidate s) (\<lambda>_.
     bindR (parse_single_select g (gs_candidate s)) (\<lambda>e.
     bindR (statement_checks g e) (\<lambda>_.
     bindR (scope_checks g (gs_context s) e) (\<lambda>_.
     bindR (certified_checks g (gs_context s) (gs_allow s) e) (\<lambda>_. Inr (gs_candidate s))))))"

lemma session_validate_sql_verdict:
  assumes ok: "session_ok g s"
  shows "fst (session_validate_sql g s) = verdict g s"
proof (cases "session_parse g s")
  case (Pair r s1)
  have r: "r = parse_single_select g (gs_candidate s)" using session_parse_eq [OF ok] Pair by simp
  show ?thesis
  proof (cases r)
    case (Inl f)
    then show ?thesis using Pair r
      by (auto simp: session_validate_sql_def verdict_def split: sum.splits)
  next
    case (Inr e)
    from session_parse_state [OF ok] Pair Inr have s1: "s1 = s\<lparr>gs_expression := Some e\<rparr>" "session_ok g s1"
      by auto
    have sc: "scope_checks g (gs_context s) e = Inr ()" if "gs_scope_ok s1"
      using that s1 by (auto simp: session_ok_def)
    obtain q s2 where q: "(if gs_scope_ok s1 then (Inr (), s1) else session_scope g e s1) = (q, s2)"
      by fastforce
    have "scope_checks g (gs_context s) e = q"
      using q sc session_scope_eq [of g e s1] by (auto simp: s1(1) split: if_splits)
    moreover have "gs_context s2 = gs_context s" "gs_allow s2 = gs_allow s" "gs_candidate s2 = gs_candidate s"
      using q session_scope_fields [of g e s1] by (auto simp: s1(1) split: if_splits)
    ultimately show ?thesis using Pair Inr r q
      by (cases "ensure_candidate s"; cases "statement_checks g e"; cases q)
        (simp_all add: session_validate_sql_def verdict_def)
  qed
qed

lemma guard_verdict_eq: "guard_verdict g c ctx allow = verdict g (new_session_guard c ctx allow)"
  by (simp add: guard_verdict_def session_validate_sql_verdict)

lemma guard_verdict_guarded:
  assumes "guard_verdict g c ctx allow = Inr sql"
  obtains e where "guarded g ctx allow sql e" and "sql = strip c" and "sql \<noteq> []"
  using assms
  by (auto simp: guard_verdict_eq verdict_def bindR_iffs guarded_def ensure_candidate_def
      new_session_guard_def dest!: parse_single_select_Inr split: if_splits)

section \<open>Certified joins\<close>

definition join_certified ::
  "sqlglot \<Rightarrow> query_context \<Rightarrow> bindings \<Rightarrow> ast \<Rightarrow> join_constraint \<Rightarrow> bool" where
  "join_certified g ctx b j c \<longleftrightarrow>
     py_upper g (arg_text j ''side'') = lit ''LEFT''
     \<and> (\<exists>target pairs. read_join g ctx b j = Inr (target, pairs)
          \<and> py_casefold g (jc_target c) = py_casefold g target
          \<and> set pairs = set (constraint_pairs g c))"

lemma read_join_left: "read_join g ctx b j = Inr r \<Longrightarrow> py_upper g (arg_text j ''side'') = lit ''LEFT''"
  by (auto simp: read_join_def split: if_splits)

lemma join_matches_one:
  assumes "join_matches g cs used target pairs = [i]"
  shows "i < length cs" and "i \<notin> set used"
    and "py_casefold g (jc_target (cs ! i)) = py_casefold g target"
    and "set pairs = set (constraint_pairs g (cs ! i))"
proof -
  have "i \<in> set (join_matches g cs used target pairs)" by (simp add: assms)
  then show "i < length cs" and "i \<notin> set used"
    and "py_casefold g (jc_target (cs ! i)) = py_casefold g target"
    and "set pairs = set (constraint_pairs g (cs ! i))"
    by (simp_all add: join_matches_def)
qed

lemma certify_joins_Inr:
  assumes "certify_joins g ctx b cs used js = Inr out" and "distinct used"
  shows "\<exists>is. out = used @ is \<and> distinct (used @ is) \<and> set is \<subseteq> {..<length cs}
           \<and> list_all2 (\<lambda>j i. join_certified g ctx b j (cs ! i)) js is"
  using assms
proof (induction js arbitrary: used)
  case (Cons j js)
  from Cons.prems(1) obtain target pairs i where r: "read_join g ctx b j = Inr (target, pairs)"
    and m: "join_matches g cs used target pairs = [i]"
    and rest: "certify_joins g ctx b cs (used @ [i]) js = Inr out"
    by (auto simp: bindR_iffs case_singleton)
  note i = join_matches_one [OF m]
  have "distinct (used @ [i])" using Cons.prems(2) i(2) by simp
  from Cons.IH [OF rest this] obtain "is" where "out = (used @ [i]) @ is" "distinct ((used @ [i]) @ is)"
    "set is \<subseteq> {..<length cs}" "list_all2 (\<lambda>j i. join_certified g ctx b j (cs ! i)) js is" by blast
  moreover have "join_certified g ctx b j (cs ! i)"
    using r i read_join_left [OF r] by (auto simp: join_certified_def)
  ultimately show ?case using i(1) by (intro exI [of _ "i # is"]) simp
qed simp

lemma certified_checks_joins:
  assumes "certified_checks g ctx allow e = Inr ()" and "arg_nodes e ''joins'' \<noteq> []"
  obtains b out where "table_bindings g e = Inr b"
    and "certify_joins g ctx b (forward_constraints g ctx) [] (arg_nodes e ''joins'') = Inr out"
  using assms
  by (auto simp: certified_checks_def validate_multi_metric_expression_def validate_multi_metric_joins_def
      validate_join_constraints_def bindR_iffs Let_def split: if_splits option.splits)

lemma guarded_unique: "guarded g ctx allow sql e \<Longrightarrow> one_select g sql e' \<Longrightarrow> e' = e"
  by (auto simp: guarded_def one_select_def)

lemma guarded_joins:
  assumes "guarded g ctx allow sql e" and "arg_nodes e ''joins'' \<noteq> []"
  obtains b "is" where "table_bindings g e = Inr b" and "distinct is"
    and "set is \<subseteq> {..<length (forward_constraints g ctx)}"
    and "list_all2 (\<lambda>j i. join_certified g ctx b j (forward_constraints g ctx ! i)) (arg_nodes e ''joins'') is"
proof -
  from assms obtain b out where b: "table_bindings g e = Inr b"
    and c: "certify_joins g ctx b (forward_constraints g ctx) [] (arg_nodes e ''joins'') = Inr out"
    by (auto simp: guarded_def elim: certified_checks_joins)
  from certify_joins_Inr [OF c] that [OF b] show ?thesis by auto
qed

section \<open>Certified metrics\<close>

definition metric_projected ::
  "sqlglot \<Rightarrow> query_context \<Rightarrow> bindings \<Rightarrow> ast \<Rightarrow> metric_constraint \<Rightarrow> bool" where
  "metric_projected g ctx b p m \<longleftrightarrow>
     (\<exists>f signature. sg_parse_one g (mc_formula m) = Some f
        \<and> canonical_sql g ctx b None p = Inr signature
        \<and> canonical_sql g ctx [] (Some (mc_source m)) f = Inr signature)"

lemma formula_match_Inr: "formula_match g ctx b (p, m) = Inr u \<longleftrightarrow> metric_projected g ctx b p m"
  by (auto simp: formula_match_def metric_projected_def bindR_iffs split: option.splits if_splits)

lemma list_all2_zip_left:
  "length xs = length ys \<Longrightarrow> list_all2 (\<lambda>p u. P p) (zip xs ys) us \<Longrightarrow> list_all2 (\<lambda>x y. P (x, y)) xs ys"
  by (induction xs ys arbitrary: us rule: list_induct2) (auto simp: list_all2_Cons1)

lemma validate_metric_formulas_Inr:
  assumes "validate_metric_formulas g ctx b ps = Inr u"
  shows "list_all2 (metric_projected g ctx b) ps (qc_metrics ctx)"
proof -
  from assms obtain us :: "unit list" where len: "length ps = length (qc_metrics ctx)"
    and "list_all2 (\<lambda>pm u. formula_match g ctx b pm = Inr ()) (zip ps (qc_metrics ctx)) us"
    by (auto simp: validate_metric_formulas_def bindR_iffs mapR_Inr_iff split: if_splits)
  from list_all2_zip_left [OF this] show ?thesis by (simp add: formula_match_Inr)
qed

definition filter_enforced ::
  "sqlglot \<Rightarrow> query_context \<Rightarrow> bindings \<Rightarrow> ast \<Rightarrow> metric_constraint \<Rightarrow> pystr \<Rightarrow> bool" where
  "filter_enforced g ctx b e m raw \<longleftrightarrow>
     (\<exists>signatures. fixed_filter g ctx (mc_source m) raw = Inr signatures
        \<and> (\<forall>s \<in> set signatures. \<exists>n \<in> set (conjuncts g (where_condition e)). canonical_sql g ctx b None n = Inr s))"

lemma mapR_Inr_in: "mapR f xs = Inr ys \<Longrightarrow> x \<in> set xs \<Longrightarrow> \<exists>y \<in> set ys. f x = Inr y"
  by (induction xs arbitrary: ys) (auto simp: bindR_iffs)

lemma mapR_Inr_out: "mapR f xs = Inr ys \<Longrightarrow> y \<in> set ys \<Longrightarrow> \<exists>x \<in> set xs. f x = Inr y"
  by (induction xs arbitrary: ys) (auto simp: bindR_iffs)

lemma validate_metric_filters_Inr:
  assumes "validate_metric_filters g ctx b e = Inr u" and m: "m \<in> set (qc_metrics ctx)" "raw \<in> set (mc_filters m)"
  shows "filter_enforced g ctx b e m raw"
proof -
  from assms(1) obtain actual expected where
    actual: "mapR (canonical_sql g ctx b None) (conjuncts g (where_condition e)) = Inr actual"
    and expected: "fixed_filters g ctx = Inr expected" and sub: "set expected \<subseteq> set actual"
    by (auto simp: validate_metric_filters_def bindR_iffs split: if_splits)
  from expected obtain fss where
    fss: "mapR (\<lambda>(source, raw). fixed_filter g ctx source raw)
            (concat (map (\<lambda>m. map (Pair (mc_source m)) (mc_filters m)) (qc_metrics ctx))) = Inr fss"
    and e: "expected = concat fss"
    by (auto simp: fixed_filters_def bindR_iffs)
  from m have "(mc_source m, raw) \<in> set (concat (map (\<lambda>m. map (Pair (mc_source m)) (mc_filters m)) (qc_metrics ctx)))"
    by auto
  from mapR_Inr_in [OF fss this] obtain fs where fs: "fs \<in> set fss" "fixed_filter g ctx (mc_source m) raw = Inr fs"
    by auto
  have "\<exists>n \<in> set (conjuncts g (where_condition e)). canonical_sql g ctx b None n = Inr s" if "s \<in> set fs" for s
    using that fs(1) sub e by (intro mapR_Inr_out [OF actual]) auto
  with fs(2) show ?thesis by (auto simp: filter_enforced_def)
qed

text \<open>
  The metric projections of a statement: the expressions below an alias that contain an aggregate, all
  of them, in the order of the \<open>SELECT\<close> list. (With a single metric the aggregate is looked for in the
  whole projection, with several below the alias.)
\<close>

definition metric_projections :: "sqlglot \<Rightarrow> query_context \<Rightarrow> ast \<Rightarrow> ast list" where
  "metric_projections g ctx e =
     (if 2 \<le> length (qc_metrics ctx)
      then filter (\<lambda>v. contains g v ''AggFunc'') (map (projection_value g) (arg_nodes e ''expressions''))
      else map (projection_value g) (filter (\<lambda>p. contains g p ''AggFunc'') (arg_nodes e ''expressions'')))"

lemma find_all_contains: "find_all g v cls \<noteq> [] \<longleftrightarrow> contains g v cls"
  by (auto simp: find_all_def contains_def filter_empty_conv list_ex_iff)

lemma read_projections_metrics:
  "mapR (read_projection g allow) ps = Inr vs \<Longrightarrow>
     map fst (filter (\<lambda>(v, aggs). aggs \<noteq> []) vs)
     = filter (\<lambda>v. contains g v ''AggFunc'') (map (projection_value g) ps)"
  by (induction ps arbitrary: vs)
    (auto simp: bindR_iffs read_projection_def Let_def simp flip: find_all_contains split: if_splits)

lemma multi_metric_output_Inr:
  assumes "validate_multi_metric_output g ctx b allow e = Inr ()"
  shows "list_all2 (metric_projected g ctx b)
     (filter (\<lambda>v. contains g v ''AggFunc'') (map (projection_value g) (arg_nodes e ''expressions''))) (qc_metrics ctx)"
proof -
  from assms obtain vs where vs: "mapR (read_projection g allow) (arg_nodes e ''expressions'') = Inr vs"
    and f: "validate_metric_formulas g ctx b (map fst (filter (\<lambda>(v, aggs). aggs \<noteq> []) vs)) = Inr ()"
    by (auto simp: validate_multi_metric_output_def Let_def bindR_iffs split: if_splits)
  show ?thesis using validate_metric_formulas_Inr [OF f] by (simp only: read_projections_metrics [OF vs])
qed

lemma guarded_metrics:
  assumes "guarded g ctx allow sql e" and "qc_metrics ctx \<noteq> []"
  obtains b where "table_bindings g e = Inr b"
    and "list_all2 (metric_projected g ctx b) (metric_projections g ctx e) (qc_metrics ctx)"
    and "validate_metric_filters g ctx b e = Inr ()"
proof (cases "2 \<le> length (qc_metrics ctx)")
  case True
  with assms obtain b where "table_bindings g e = Inr b"
    and "validate_multi_metric_filters g ctx b e = Inr ()"
    and "validate_multi_metric_output g ctx b allow e = Inr ()"
    by (auto simp: guarded_def certified_checks_def validate_multi_metric_expression_def bindR_iffs)
  moreover from this(2) have "validate_metric_filters g ctx b e = Inr ()"
    by (auto simp: validate_multi_metric_filters_def split: option.splits if_splits)
  ultimately show ?thesis using True by (intro that) (simp_all add: metric_projections_def multi_metric_output_Inr)
next
  case False
  with assms have "single_metric_checks g ctx e = Inr ()"
    by (auto simp: guarded_def certified_checks_def bindR_iffs split: if_splits)
  then obtain b where "table_bindings g e = Inr b" "validate_metric_filters g ctx b e = Inr ()"
    and "validate_metric_formulas g ctx b
         (map (projection_value g) (filter (\<lambda>p. contains g p ''AggFunc'') (arg_nodes e ''expressions''))) = Inr ()"
    by (auto simp: single_metric_checks_def bindR_iffs)
  then show ?thesis using False
    by (intro that) (simp_all add: metric_projections_def validate_metric_formulas_Inr)
qed

section \<open>Properties\<close>

text \<open>C2: A statement that the SQL guard accepts is the candidate itself without surrounding white
space; it parses to one \<open>SELECT\<close> without a nested \<open>SELECT\<close>, contains no writing, schema-changing, locking
or \<open>INTO\<close> node, no CTE and no unknown function, reads at least one physical table, and every table it
reads is a table of \<open>mart_sales\<close> that the retrieval stage allowed for this question.\<close>
theorem accepted_sql_is_read_only:
  assumes "guard_verdict g c ctx allow = Inr sql"
  shows "sql = strip c \<and> sql \<noteq> [] \<and>
     (\<exists>e. one_select g sql e
        \<and> (\<forall>n \<in> set (sg_walk g e). \<forall>cls \<in> set (forbidden_classes @ [''With'', ''Anonymous'']). \<not> isa g n cls)
        \<and> physical_tables g e \<noteq> [] \<and> (\<forall>t \<in> set (physical_tables g e). table_allowed g ctx t)
        \<and> sg_qualify g e (guard_schema ctx))"
proof -
  from assms obtain e where e: "guarded g ctx allow sql e" and sql: "sql = strip c" "sql \<noteq> []"
    by (rule guard_verdict_guarded)
  from e have "statement_checks g e = Inr ()" by (simp add: guarded_def)
  then have "\<not> contains g e cls" if "cls \<in> set (forbidden_classes @ [''With'', ''Anonymous''])" for cls
    using that by (auto simp: statement_checks_def list_ex_iff split: if_splits)
  then have clean: "\<forall>n \<in> set (sg_walk g e). \<forall>cls \<in> set (forbidden_classes @ [''With'', ''Anonymous'']). \<not> isa g n cls"
    unfolding contains_def list_ex_iff by blast
  from e have "scope_checks g ctx e = Inr ()" by (simp add: guarded_def)
  then have "physical_tables g e \<noteq> []" "list_all (table_allowed g ctx) (physical_tables g e)"
    "sg_qualify g e (guard_schema ctx)"
    by (auto simp: scope_checks_def bindR_iffs validate_physical_tables_def validate_columns_def split: if_splits)
  then show ?thesis using e sql clean
    by (intro conjI exI [of _ e]) (auto simp: guarded_def list_all_iff)
qed

text \<open>C4: If the context comes from a successful join stage, every join of an accepted statement is a
\<open>LEFT JOIN\<close> on exactly the column pairs of a certified constraint; different joins use different
constraints, and each constraint leaves the anchor and ends in columns published as a primary key or
an unconditional unique constraint, so no join multiplies the anchor's rows.\<close>
theorem accepted_joins_follow_graph:
  assumes "guard_verdict g c ctx allow = Inr sql" and "one_select g sql e" and "arg_nodes e ''joins'' \<noteq> []"
    and "join_stage anchor candidates metric_table tf graph = Inr (res, qc_joins ctx)"
  shows "\<exists>b is. table_bindings g e = Inr b \<and> distinct is \<and> set is \<subseteq> {..<length (forward_constraints g ctx)}
     \<and> list_all2 (\<lambda>j i. join_certified g ctx b j (forward_constraints g ctx ! i)) (arg_nodes e ''joins'') is
     \<and> (\<forall>i \<in> set is. let k = forward_constraints g ctx ! i in
          jc_source k = anchor
          \<and> (\<exists>keys. graph_unique_keys graph = Inr keys \<and> keys (jc_target k, jc_target_columns k) = Some (jc_basis k)))"
proof -
  from assms(1) obtain e' where "guarded g ctx allow sql e'" by (rule guard_verdict_guarded)
  with guarded_unique [OF this assms(2)] have e: "guarded g ctx allow sql e" by simp
  from guarded_joins [OF e assms(3)] obtain b "is" where b: "table_bindings g e = Inr b" "distinct is"
    and sub: "set is \<subseteq> {..<length (forward_constraints g ctx)}"
    and all: "list_all2 (\<lambda>j i. join_certified g ctx b j (forward_constraints g ctx ! i)) (arg_nodes e ''joins'') is" .
  have "jc_source (forward_constraints g ctx ! i) = anchor \<and>
      (\<exists>keys. graph_unique_keys graph = Inr keys
        \<and> keys (jc_target (forward_constraints g ctx ! i), jc_target_columns (forward_constraints g ctx ! i))
            = Some (jc_basis (forward_constraints g ctx ! i)))" if "i \<in> set is" for i
  proof -
    from that sub have "forward_constraints g ctx ! i \<in> set (forward_constraints g ctx)" by (auto intro: nth_mem)
    then have "forward_constraints g ctx ! i \<in> set (qc_joins ctx)" by (simp add: forward_constraints_def)
    from stage_constraints [OF assms(4) this] show ?thesis by simp
  qed
  with b sub all show ?thesis by (intro exI [of _ b] exI [of _ "is"]) (simp add: Let_def)
qed

text \<open>C5: In an accepted statement over certified metrics the projections that contain an aggregate are,
one for one and in the order of the request, the certified formulas of the requested metrics; none is
left out, added, repeated or exchanged. Every fixed filter of every metric is enforced as a top-level
conjunct of its \<open>WHERE\<close> clause (equality of canonical SQL over physical columns).\<close>
theorem accepted_metrics_are_certified:
  assumes "guard_verdict g c ctx allow = Inr sql" and "one_select g sql e" and "qc_metrics ctx \<noteq> []"
  shows "\<exists>b. table_bindings g e = Inr b
     \<and> list_all2 (metric_projected g ctx b) (metric_projections g ctx e) (qc_metrics ctx)
     \<and> (\<forall>m \<in> set (qc_metrics ctx). \<forall>raw \<in> set (mc_filters m). filter_enforced g ctx b e m raw)"
proof -
  from assms(1) obtain e' where "guarded g ctx allow sql e'" by (rule guard_verdict_guarded)
  with guarded_unique [OF this assms(2)] have e: "guarded g ctx allow sql e" by simp
  from guarded_metrics [OF e assms(3)] obtain b where "table_bindings g e = Inr b"
    and "list_all2 (metric_projected g ctx b) (metric_projections g ctx e) (qc_metrics ctx)"
    and f: "validate_metric_filters g ctx b e = Inr ()" .
  with validate_metric_filters_Inr [OF f] show ?thesis by blast
qed

section \<open>The cache of a session\<close>

datatype session_call = CandidateScope | ValidateSql

fun do_call :: "sqlglot \<Rightarrow> session_call \<Rightarrow> guard_session \<Rightarrow> guard_session" where
  "do_call g CandidateScope s = snd (session_candidate_scope g s)"
| "do_call g ValidateSql s = snd (session_validate_sql g s)"

definition same_request :: "guard_session \<Rightarrow> guard_session \<Rightarrow> bool" where
  "same_request s s' \<longleftrightarrow>
     gs_candidate s = gs_candidate s' \<and> gs_context s = gs_context s' \<and> gs_allow s = gs_allow s'"

lemma verdict_same: "same_request s s' \<Longrightarrow> verdict g s = verdict g s'"
  by (simp add: same_request_def verdict_def ensure_candidate_def)

lemma session_parse_keeps:
  "session_ok g s \<Longrightarrow> session_parse g s = (r, s') \<Longrightarrow> session_ok g s' \<and> same_request s' s
     \<and> (\<forall>e. r = Inr e \<longrightarrow> gs_expression s' = Some e)"
  by (cases r) (auto simp: same_request_def dest: session_parse_fail session_parse_state)

lemma session_scope_keeps:
  "session_ok g s \<Longrightarrow> gs_expression s = Some e \<Longrightarrow> session_scope g e s = (r, s') \<Longrightarrow>
     session_ok g s' \<and> same_request s' s"
  using session_scope_ok [of g s e] session_scope_fields [of g e s] by (simp add: same_request_def)

lemma session_call_keeps:
  assumes ok: "session_ok g s"
  shows "session_ok g (do_call g k s) \<and> same_request (do_call g k s) s"
proof -
  obtain r s1 where p: "session_parse g s = (r, s1)" by fastforce
  from session_parse_keeps [OF ok p] have s1: "session_ok g s1" "same_request s1 s" by auto
  show ?thesis
  proof (cases r)
    case (Inl f)
    then show ?thesis using p s1 ok
      by (cases k) (auto simp: session_candidate_scope_def session_validate_sql_def same_request_def split: sum.splits)
  next
    case (Inr e)
    with session_parse_keeps [OF ok p] have e: "gs_expression s1 = Some e" by simp
    obtain q s2 where q: "session_scope g e s1 = (q, s2)" by fastforce
    from session_scope_keeps [OF s1(1) e q] s1(2) have s2: "session_ok g s2" "same_request s2 s"
      by (auto simp: same_request_def)
    show ?thesis using p q s1 s2 ok Inr
      by (cases k)
        (auto simp: session_candidate_scope_def session_validate_sql_def same_request_def split: sum.splits if_splits)
  qed
qed

text \<open>C31: The cache of a validation session never changes a verdict: after any sequence of scope checks
and validations the session accepts or refuses the candidate, with the same reason code, as a fresh
session does.\<close>
theorem session_cache_is_transparent:
  "fst (session_validate_sql g (fold (do_call g) calls (new_session_guard c ctx allow))) = guard_verdict g c ctx allow"
proof -
  have "session_ok g (fold (do_call g) calls s) \<and> same_request (fold (do_call g) calls s) s"
    if "session_ok g s" for s
    using that
  proof (induction calls arbitrary: s)
    case (Cons k calls)
    from session_call_keeps [OF Cons.prems, of k] Cons.IH [of "do_call g k s"] show ?case
      by (auto simp: same_request_def)
  qed (simp add: same_request_def)
  from this [of "new_session_guard c ctx allow"] show ?thesis
    by (simp add: guard_verdict_eq session_validate_sql_verdict verdict_same [of _ "new_session_guard c ctx allow"])
qed

end
