(* ===== verification/Sql_Guard_Sample.thy ===== *)
theory Sql_Guard_Sample
  imports Sql_Guard_Properties
begin

text \<open>
  A statement over the published graph of \<open>Join_Properties\<close> that the guard accepts,
  \<open>SELECT SUM(f.x) FROM mart_sales.f LEFT JOIN mart_sales.g ON f.a = g.b WHERE f.o\<close>, with a parser
  that knows this statement, its certified formula and its fixed filter.
\<close>

abbreviation "tf \<equiv> Node 2 ''Table'' []"
abbreviation "tg \<equiv> Node 4 ''Table'' []"
abbreviation "ca \<equiv> Node 6 ''Column'' []"
abbreviation "cb \<equiv> Node 7 ''Column'' []"
abbreviation "cx \<equiv> Node 9 ''Column'' []"
abbreviation "co \<equiv> Node 12 ''Column'' []"
abbreviation "eq_on \<equiv> Node 5 ''EQ'' [(''this'', AOne ca), (''expression'', AOne cb)]"
abbreviation "sum_x \<equiv> Node 8 ''Sum'' [(''this'', AOne cx)]"
abbreviation "join_g \<equiv> Node 3 ''Join'' [(''this'', AOne tg), (''side'', AText (lit ''LEFT'')), (''on'', AOne eq_on)]"
abbreviation "sel \<equiv> Node 0 ''Select''
   [(''expressions'', AMany [sum_x]), (''from_'', AOne (Node 40 ''From'' [(''this'', AOne tf)])),
    (''joins'', AMany [join_g]), (''where'', AOne (Node 10 ''Where'' [(''this'', AOne co)]))]"
abbreviation "formula_x \<equiv> Node 20 ''Sum'' [(''this'', AOne (Node 21 ''Column'' []))]"
abbreviation "filter_o \<equiv> Node 30 ''Select'' [(''where'', AOne (Node 31 ''Where'' [(''this'', AOne (Node 32 ''Column'' []))]))]"

definition sample_walk :: "ast \<Rightarrow> ast list" where
  "sample_walk n =
     (if node_id n = 0 then [sel, sum_x, cx, Node 40 ''From'' [(''this'', AOne tf)], tf, join_g, tg, eq_on, ca, cb, co]
      else if node_id n = 8 then [sum_x, cx]
      else if node_id n = 20 then [formula_x, Node 21 ''Column'' []]
      else [n])"

definition sample_name :: "nat \<Rightarrow> pystr" where
  "sample_name i = (if i = 2 then [102] else if i = 4 then [103] else if i = 6 then [97] else if i = 7 then [98]
     else if i = 9 \<or> i = 21 then [120] else [111])"

definition sample_glot :: sqlglot where
  "sample_glot =
     \<lparr>sg_parse = (\<lambda>_. Some [Some sel]), sg_parse_one = (\<lambda>s. if s = [115] then Some formula_x else Some filter_o),
      sg_isa = (\<lambda>c d. c = d \<or> (c = ''Sum'' \<and> d = ''AggFunc'')), sg_walk = sample_walk,
      sg_scopes = (\<lambda>_. [([tf, tg], [])]), sg_name = (\<lambda>n. sample_name (node_id n)),
      sg_db = (\<lambda>n. if node_class n = ''Table'' then allowed_schema else []), sg_catalog = (\<lambda>_. []), sg_alias = (\<lambda>_. []),
      sg_table = (\<lambda>n. if node_id n = 7 then [103] else [102]), sg_qualify = (\<lambda>_ _. True),
      sg_sql = (\<lambda>n rs. lit (node_class n) @ concat (map (\<lambda>(_, s, t, c). s @ t @ c) rs)),
      py_casefold = (\<lambda>s. s), py_upper = (\<lambda>s. s), py_order = (\<lambda>s. s)\<rparr>"

definition sample_join :: join_constraint where
  "sample_join =
     \<lparr>jc_source = lit ''mart_sales.f'', jc_source_columns = [[97]], jc_target = lit ''mart_sales.g'',
      jc_target_columns = [[98]], jc_basis = lit ''primary_key'' @ [58, 113], jc_direction = ''forward''\<rparr>"

definition sample_metric :: metric_constraint where
  "sample_metric = \<lparr>mc_name = [110], mc_formula = [115], mc_source = lit ''mart_sales.f'', mc_filters = [[119]]\<rparr>"

definition sample_context :: query_context where
  "sample_context =
     \<lparr>qc_tables = [lit ''mart_sales.f'', lit ''mart_sales.g''],
      qc_columns = [lit ''mart_sales.f'' \<mapsto> [[97], [120], [111]], lit ''mart_sales.g'' \<mapsto> [[98]]],
      qc_metrics = [sample_metric], qc_joins = [sample_join]\<rparr>"

lemma sample_graph_joins:
  "\<exists>res. join_stage (lit ''mart_sales.f'') [lit ''mart_sales.g''] None None sample_graph
           = Inr (res, qc_joins sample_context)"
  by (simp add: join_stage_def sample_edges sample_edges_def target_tables_def resolve_join_paths_def direct_edges_def
      validated_join_constraints_def sample_keys constraint_of_def lit_def sample_context_def sample_join_def)

lemma lit_tables [simp]: "lit ''mart_sales.f'' \<noteq> lit ''mart_sales.g''"
  "allowed_schema @ [46, 102] = lit ''mart_sales.f''" "allowed_schema @ [46, 103] = lit ''mart_sales.g''"
  "allowed_schema \<noteq> []"
  by (simp_all add: lit_def allowed_schema_def)

lemma split_tables [simp]:
  "split_dot (lit ''mart_sales.f'') = Some (allowed_schema, [102])"
  "split_dot (lit ''mart_sales.g'') = Some (allowed_schema, [103])"
  by (simp_all add: split_dot_def lit_def allowed_schema_def)

lemma glot_fields:
  "sg_parse sample_glot t = Some [Some sel]"
  "sg_parse_one sample_glot t = (if t = [115] then Some formula_x else Some filter_o)"
  "sg_isa sample_glot c d \<longleftrightarrow> c = d \<or> (c = ''Sum'' \<and> d = ''AggFunc'')"
  "sg_walk sample_glot = sample_walk" "sg_scopes sample_glot n = [([tf, tg], [])]"
  "sg_name sample_glot n = sample_name (node_id n)"
  "sg_db sample_glot n = (if node_class n = ''Table'' then allowed_schema else [])"
  "sg_catalog sample_glot n = []" "sg_alias sample_glot n = []"
  "sg_table sample_glot n = (if node_id n = 7 then [103] else [102])" "sg_qualify sample_glot n q"
  "sg_sql sample_glot n rs = lit (node_class n) @ concat (map (\<lambda>(_, s, t, c). s @ t @ c) rs)"
  "py_casefold sample_glot t = t" "py_upper sample_glot t = t" "py_order sample_glot ts = ts"
  by (simp_all add: sample_glot_def)

lemma where_text [simp]: "lit ''SELECT 1 WHERE '' @ t \<noteq> [115]"
  by (simp add: lit_def)

lemmas glot_simps = glot_fields sample_walk_def sample_name_def isa_def find_all_def contains_def
  arg_node_def arg_nodes_def node_arg_def arg_text_def where_condition_def

lemma sample_select: "one_select sample_glot [65] sel"
  by (simp add: one_select_def glot_simps List.map_filter_def)

lemma sample_bindings:
  "table_bindings sample_glot sel =
     Inr [([102], lit ''mart_sales.f''), (lit ''mart_sales.f'', lit ''mart_sales.f''),
          ([103], lit ''mart_sales.g''), (lit ''mart_sales.g'', lit ''mart_sales.g'')]"
  by (simp add: table_bindings_def bindings_of_def table_ref_def glot_simps)

abbreviation "sb \<equiv> [([102], lit ''mart_sales.f''), (lit ''mart_sales.f'', lit ''mart_sales.f''),
          ([103], lit ''mart_sales.g''), (lit ''mart_sales.g'', lit ''mart_sales.g'')]"

lemma sample_bound: "bound_to sb [102] = [lit ''mart_sales.f'']" "bound_to sb [103] = [lit ''mart_sales.g'']"
  by (simp_all add: bound_to_def lit_def)

lemma sample_allowed:
  "allowed_columns sample_context (lit ''mart_sales.f'') = [[97], [120], [111]]"
  "allowed_columns sample_context (lit ''mart_sales.g'') = [[98]]"
  by (simp_all add: allowed_columns_def sample_context_def)

lemma sample_metrics: "qc_metrics sample_context = [sample_metric]"
  "mc_source sample_metric = lit ''mart_sales.f''" "mc_filters sample_metric = [[119]]" "mc_formula sample_metric = [115]"
  by (simp_all add: sample_context_def sample_metric_def)

lemmas column_simps = canonical_sql_def column_rewrite_def column_identity_def physical_table_def sample_bound sample_allowed

lemma sample_columns:
  "canonical_sql sample_glot sample_context sb None sum_x = Inr (lit ''Sum'' @ allowed_schema @ [102, 120])"
  "canonical_sql sample_glot sample_context [] (Some (lit ''mart_sales.f'')) formula_x = Inr (lit ''Sum'' @ allowed_schema @ [102, 120])"
  "canonical_sql sample_glot sample_context sb None co = Inr (lit ''Column'' @ allowed_schema @ [102, 111])"
  "canonical_sql sample_glot sample_context [] (Some (lit ''mart_sales.f'')) (Node 32 ''Column'' []) = Inr (lit ''Column'' @ allowed_schema @ [102, 111])"
  by (simp_all add: column_simps glot_simps)

lemma sample_filters: "validate_metric_filters sample_glot sample_context sb sel = Inr ()"
proof -
  have "conjuncts sample_glot (where_condition sel) = [co]" by (simp add: glot_simps)
  moreover have "fixed_filter sample_glot sample_context (lit ''mart_sales.f'') [119] =
      Inr [lit ''Column'' @ allowed_schema @ [102, 111]]"
    by (simp add: fixed_filter_def glot_simps sample_columns)
  ultimately show ?thesis
    by (simp add: validate_metric_filters_def fixed_filters_def sample_columns sample_metrics)
qed

lemma sample_formulas: "validate_metric_formulas sample_glot sample_context sb [sum_x] = Inr ()"
  by (simp add: validate_metric_formulas_def formula_match_def sample_metrics sample_columns glot_fields)

lemma sample_metric_checks: "single_metric_checks sample_glot sample_context sel = Inr ()"
proof -
  have "map (projection_value sample_glot) (filter (\<lambda>p. contains sample_glot p ''AggFunc'') (arg_nodes sel ''expressions'')) = [sum_x]"
    by (simp add: glot_simps projection_value_def)
  then show ?thesis by (simp add: single_metric_checks_def sample_bindings sample_filters sample_formulas run_guard_def)
qed

lemma sample_forward: "forward_constraints sample_glot sample_context = [sample_join]"
  by (simp add: forward_constraints_def is_forward_def sample_context_def sample_join_def glot_fields)

lemma sample_certify: "certify_joins sample_glot sample_context sb [sample_join] [] [join_g] = Inr [0]"
proof -
  have "read_join sample_glot sample_context sb join_g =
      Inr (lit ''mart_sales.g'', [((lit ''mart_sales.f'', [97]), (lit ''mart_sales.g'', [98]))])"
    by (simp add: read_join_def join_pairs_def join_pair_def table_ref_def column_simps glot_simps sorted_pair_def)
      (simp add: lit_def)
  then show ?thesis
    by (simp add: join_matches_def sample_join_def constraint_pairs_def is_forward_def glot_fields sorted_pair_def)
      (simp add: lit_def)
qed

lemma sample_source: "jc_source sample_join = lit ''mart_sales.f''"
  by (simp add: sample_join_def)

lemma sample_join_checks: "validate_join_constraints sample_glot sample_context sel = Inr ()"
proof -
  have "arg_nodes sel ''joins'' = [join_g]" "from_table sample_glot sel = Some tf"
    "table_ref sample_glot tf = Inr (lit ''mart_sales.f'')"
    "mapR (table_ref sample_glot) (find_all sample_glot sel ''Table'') = Inr [lit ''mart_sales.f'', lit ''mart_sales.g'']"
    by (simp_all add: glot_simps from_table_def table_ref_def)
  then show ?thesis
    using sample_source
    by (simp add: validate_join_constraints_def sample_forward sample_bindings sample_certify glot_fields Let_def del: certify_joins.simps)
qed

lemma sample_parse: "parse_single_select sample_glot [65] = Inr sel"
  by (simp add: parse_single_select_def glot_simps List.map_filter_def)

lemma sample_scope: "scope_checks sample_glot sample_context sel = Inr ()"
  by (simp add: scope_checks_def physical_tables_def validate_physical_tables_def table_allowed_def
      validate_columns_def run_guard_def glot_simps) (simp add: sample_context_def)

lemma sample_session:
  "new_session_guard [65] sample_context False =
     \<lparr>gs_candidate = [65], gs_context = sample_context, gs_allow = False, gs_expression = None, gs_scope_ok = False\<rparr>"
  by (simp add: new_session_guard_def strip_def py_isspace_def)

lemma sample_candidate: "lit ''CANNOT_ANSWER'' \<noteq> [65]" by (simp add: lit_def)

lemma sample_accepted: "guard_verdict sample_glot [65] sample_context False = Inr [65]"
proof -
  have "statement_checks sample_glot sel = Inr ()"
    by (simp add: statement_checks_def forbidden_classes_def glot_simps)
  moreover have "certified_checks sample_glot sample_context False sel = Inr ()"
    by (simp add: certified_checks_def sample_metric_checks sample_join_checks sample_metrics run_guard_def)
  ultimately show ?thesis
    by (simp add: guard_verdict_eq verdict_def ensure_candidate_def sample_session sample_parse sample_scope
        sample_candidate [symmetric])
qed

lemma sample_scoped: "fst (session_candidate_scope sample_glot (new_session_guard [65] sample_context False)) = Inr ()"
  by (simp add: session_candidate_scope_def ensure_candidate_def sample_session session_parse_def sample_parse
      session_scope_def sample_scope sample_candidate [symmetric])

section \<open>Witnesses\<close>

theorem accepted_sql_is_read_only_witness:
  "\<exists>e. one_select sample_glot [65] e \<and> (\<forall>t \<in> set (physical_tables sample_glot e). table_allowed sample_glot sample_context t)"
  using accepted_sql_is_read_only [OF sample_accepted] by blast

theorem accepted_joins_follow_graph_witness:
  "\<exists>is. length is = 1 \<and> set is \<subseteq> {..<length (forward_constraints sample_glot sample_context)}"
proof -
  from sample_graph_joins obtain res where
    "join_stage (lit ''mart_sales.f'') [lit ''mart_sales.g''] None None sample_graph = Inr (res, qc_joins sample_context)" ..
  from accepted_joins_follow_graph [OF sample_accepted sample_select _ this]
  obtain b "is" where "set is \<subseteq> {..<length (forward_constraints sample_glot sample_context)}"
    and "list_all2 (\<lambda>j i. join_certified sample_glot sample_context b j (forward_constraints sample_glot sample_context ! i))
           (arg_nodes sel ''joins'') is"
    by (auto simp: arg_nodes_def node_arg_def)
  moreover from this(2) have "length is = 1"
    by (auto dest!: list_all2_lengthD simp: arg_nodes_def node_arg_def)
  ultimately show ?thesis by blast
qed

theorem accepted_metrics_are_certified_witness:
  "\<exists>b. list_all2 (metric_projected sample_glot sample_context b)
       (metric_projections sample_glot sample_context sel) [sample_metric]
     \<and> filter_enforced sample_glot sample_context b sel sample_metric [119]"
  using accepted_metrics_are_certified [OF sample_accepted sample_select] by (auto simp: sample_metrics)

end
