(* ===== verification/Pipeline_Properties.thy ===== *)
theory Pipeline_Properties
  imports Query_Pipeline Sql_Guard_Sample
begin

text \<open>
  Only a guarded statement reaches the database, once, and only while no checkpoint on the way was
  found stopped; the executor is read-only and bounded.
\<close>

fun executes :: "effect list \<Rightarrow> pystr list" where
  "executes [] = []"
| "executes (Execute sql # es) = sql # executes es"
| "executes (_ # es) = executes es"

lemma executes_append [simp]: "executes (es @ fs) = executes es @ executes fs"
  by (induction es rule: executes.induct) auto

lemma set_executes: "sql \<in> set (executes es) \<longleftrightarrow> Execute sql \<in> set es"
  by (induction es rule: executes.induct) auto

fun checked :: "effect list \<Rightarrow> string list" where
  "checked [] = []"
| "checked (Checked place # es) = place # checked es"
| "checked (_ # es) = checked es"

lemma checked_append [simp]: "checked (es @ fs) = checked es @ checked fs"
  by (induction es rule: checked.induct) auto

text \<open>A step that sent nothing to the database and passed the checkpoints \<open>ps\<close>.\<close>

definition logged :: "effect list \<Rightarrow> string list \<Rightarrow> effect list \<Rightarrow> bool" where
  "logged es ps es' \<longleftrightarrow> executes es' = executes es \<and> checked es' = checked es @ ps"

lemma logged_trans: "logged es ps es1 \<Longrightarrow> logged es1 qs es2 \<Longrightarrow> logged es (ps @ qs) es2"
  by (simp add: logged_def)

fun run_effects :: "('r, 'a) run \<Rightarrow> effect list" where
  "run_effects (Inl (r, es)) = es"
| "run_effects (Inr (x, es)) = es"

text \<open>A step that sends nothing to the database.\<close>

definition quiet :: "effect list \<Rightarrow> ('r, 'a) run \<Rightarrow> bool" where
  "quiet es r \<longleftrightarrow> executes (run_effects r) = executes es
     \<and> (\<forall>out es'. r = Inl (out, es') \<longrightarrow> (\<forall>sql d. out \<noteq> QSuccess sql d))"

lemma quiet_bind:
  assumes "quiet es m" and "\<And>x es'. m = Inr (x, es') \<Longrightarrow> quiet es' (f (x, es'))"
  shows "quiet es (bindR m f)"
proof (cases m)
  case (Inl a)
  then show ?thesis using assms(1) by (cases a) (simp add: quiet_def)
next
  case (Inr b)
  obtain x es' where b: "b = (x, es')" by (cases b)
  have "executes es' = executes es" using assms(1) Inr b by (simp add: quiet_def)
  then show ?thesis using assms(2) [of x es'] Inr b by (simp add: quiet_def)
qed

lemma quiet_leaf [simp]: "quiet es (Inr (x, es))" "quiet es (Inl (QFailure c, es))" "quiet es (Inl (QStopped w, es))"
  "quiet es (Inl (QRaised, es))"
  by (simp_all add: quiet_def)

lemma quiet_checkpoint: "quiet es (checkpoint_at env p es)"
  by (simp add: checkpoint_at_def quiet_def split: option.split)

lemma quiet_set_stage: "(\<forall>sql d. e \<noteq> QSuccess sql d) \<Longrightarrow> quiet es (set_stage_or env st e es)"
  by (simp add: set_stage_or_def quiet_def)

lemma quiet_call: "(\<forall>sql d. e \<noteq> QSuccess sql d) \<Longrightarrow> executes es = executes es' \<Longrightarrow> quiet es' (call_or c e es)"
  by (simp add: call_or_def quiet_def split: call.split)

lemmas quiet_steps = quiet_checkpoint quiet_set_stage quiet_call

lemma quiet_certify: "quiet es (certify_stage env restorable s ctx es)"
  by (auto simp: certify_stage_def quiet_checkpoint intro!: quiet_bind split: option.split certification.split)

lemma quiet_prompt: "quiet es (prompt_stage env q s ctx es)"
  by (auto simp: prompt_stage_def quiet_checkpoint intro!: quiet_bind split: option.split)

lemma quiet_generate: "quiet es (generate_stage env p es)"
  by (auto simp: generate_stage_def intro!: quiet_bind quiet_checkpoint quiet_set_stage quiet_call)

lemma quiet_scope: "quiet es (scope_stage env c ctx restorable es)"
  by (auto simp: scope_stage_def intro!: quiet_bind quiet_checkpoint quiet_set_stage split: prod.split sum.split)

lemma quiet_guard: "quiet es (guard_stage env session s st ctx restorable es)"
  by (auto simp: guard_stage_def intro!: quiet_bind quiet_checkpoint split: sum.split)

lemma quiet_semantic: "quiet es (semantic_query env r q es)"
  by (auto simp: semantic_query_def understand_query_def
      intro!: quiet_bind quiet_checkpoint quiet_set_stage quiet_call
      split: given_query.split option.split understood.split validation.split)

lemma quiet_context: "quiet es (resolve_context env s es)"
  by (auto simp: resolve_context_def intro!: quiet_bind quiet_checkpoint quiet_set_stage quiet_call
      split: option.split sum.split)

section \<open>What a stage that continues has passed\<close>

lemma checkpoint_Inr: "checkpoint_at env p es = Inr (u, es') \<longleftrightarrow> qe_stop env p = None \<and> es' = es @ [Checked p]"
  by (auto simp: checkpoint_at_def split: option.splits)

lemma call_or_Inr: "call_or c e es = Inr (x, es') \<longleftrightarrow> c = Returned x \<and> es' = es"
  by (cases c) (auto simp: call_or_def)

lemma set_stage_Inr: "set_stage_or env st e es = Inr (u, es') \<Longrightarrow> logged es [] es'"
  by (auto simp: set_stage_or_def logged_def split: if_splits)

lemmas stage_Inr = bindR_iffs checkpoint_Inr call_or_Inr logged_def

text \<open>
  What \<open>certify_stage\<close> hands on: for a restorable question the query and the conditions state the
  certification returned, otherwise the query it was given.
\<close>

definition certified ::
  "('s, 'c) query_env \<Rightarrow> bool \<Rightarrow> 's option \<Rightarrow> query_context \<Rightarrow> 's option \<Rightarrow> json option \<Rightarrow> bool" where
  "certified env restorable s ctx s' st \<longleftrightarrow>
     (if restorable
      then \<exists>q q' x. s = Some q \<and> qe_certify env q ctx = Certified q' x \<and> s' = Some q' \<and> st = Some x
      else s' = s \<and> st = None)"

lemma certify_Inr:
  "certify_stage env restorable s ctx es = Inr ((s', st), es') \<Longrightarrow>
     qe_stop env ''start'' = None \<and> logged es [''start''] es' \<and> certified env restorable s ctx s' st"
  by (auto simp: certify_stage_def certified_def stage_Inr split: if_splits option.splits certification.splits)

lemma prompt_Inr:
  "prompt_stage env q s ctx es = Inr (p, es') \<Longrightarrow>
     qe_stop env ''prompt'' = None \<and> logged es [''prompt''] es' \<and> qe_prompt env q s ctx = Some p"
  by (auto simp: prompt_stage_def stage_Inr split: option.splits)

lemma generate_Inr:
  "generate_stage env p es = Inr (c, es') \<Longrightarrow>
     qe_stop env ''generate'' = None \<and> qe_stop env ''generated'' = None
     \<and> logged es [''generate'', ''generated''] es' \<and> qe_generate env p = Returned c"
  by (auto simp: generate_stage_def stage_Inr split: if_splits dest!: set_stage_Inr)

lemma scope_Inr:
  assumes "scope_stage env c ctx restorable es = Inr (session, es')"
  shows "qe_stop env ''scope'' = None \<and> logged es [''scope''] es'
     \<and> session = snd (session_candidate_scope (qe_glot env) (new_session_guard c ctx restorable))"
proof (cases "session_candidate_scope (qe_glot env) (new_session_guard c ctx restorable)")
  case (Pair v t)
  with assms show ?thesis by (cases v) (auto simp: scope_stage_def stage_Inr dest!: set_stage_Inr)
qed

lemma guard_Inr:
  "guard_stage env session s st ctx restorable es = Inr (sql, es') \<Longrightarrow>
     qe_stop env ''guard'' = None \<and> logged es [''guard''] es'
     \<and> fst (session_validate_sql (qe_glot env) session) = Inr sql
     \<and> (restorable \<longrightarrow> qe_restoration_ok env sql s st ctx)"
  by (auto simp: guard_stage_def stage_Inr split: sum.splits if_splits)

lemma scoped_verdict:
  "fst (session_validate_sql g (snd (session_candidate_scope g (new_session_guard c ctx allow)))) = guard_verdict g c ctx allow"
  using session_call_keeps [of g "new_session_guard c ctx allow" CandidateScope]
  by (simp add: guard_verdict_eq session_validate_sql_verdict verdict_same [of _ "new_session_guard c ctx allow"])

text \<open>The database stage logs the statement directly after its own checkpoint, if it sends it at all.\<close>

lemma database_run:
  "executes (run_effects (database_stage env sql es)) = executes es
   \<or> qe_stop env ''database'' = None
     \<and> (\<exists>before after. run_effects (database_stage env sql es) = before @ Execute sql # after
          \<and> logged es [''database''] before \<and> executes after = [])"
proof (cases "qe_stop env ''database'' = None \<and> \<not> (qe_observed env \<and> qe_stage_raises env ''query_execution'')")
  case True
  let ?before = "es @ Checked ''database'' # (if qe_observed env then [StageSet ''query_execution''] else [])"
  have "\<exists>after. run_effects (database_stage env sql es) = ?before @ Execute sql # after \<and> executes after = []"
    using True by (auto simp: database_stage_def fail_after_checkpoint_def checkpoint_at_def Let_def
        split: option.splits call.splits db_result.splits)
  moreover have "logged es [''database''] ?before" by (simp add: logged_def)
  ultimately show ?thesis using True by blast
next
  case False
  then show ?thesis
    by (auto simp: database_stage_def fail_after_checkpoint_def checkpoint_at_def split: option.splits)
qed

lemma database_Inr:
  "database_stage env sql es = Inr (d, es') \<Longrightarrow>
     qe_stop env ''database'' = None \<and> qe_stop env ''executed'' = None \<and> qe_execute env sql = Returned (Rows d)
     \<and> executes es' = executes es @ [sql]"
  by (auto simp: database_stage_def fail_after_checkpoint_def checkpoint_Inr bindR_iffs Let_def
      split: call.splits db_result.splits if_splits)

lemma database_Inl:
  "database_stage env sql es = Inl (out, es') \<Longrightarrow> out \<noteq> QSuccess q d"
  by (auto simp: database_stage_def fail_after_checkpoint_def checkpoint_at_def Let_def
      split: option.splits call.splits db_result.splits if_splits)

section \<open>The way to the database\<close>

definition before_guard :: "string list" where
  "before_guard = [''start'', ''prompt'', ''generate'', ''generated'', ''scope'', ''guard'']"

definition cleared ::
  "('s, 'c) query_env \<Rightarrow> bool \<Rightarrow> query_context \<Rightarrow> pystr \<Rightarrow> bool" where
  "cleared env restorable ctx sql \<longleftrightarrow>
     (\<exists>prompt candidate. qe_generate env prompt = Returned candidate
        \<and> guard_verdict (qe_glot env) candidate ctx restorable = Inr sql)
     \<and> (restorable \<longrightarrow> (\<exists>s st. qe_restoration_ok env sql s st ctx))
     \<and> (\<forall>p \<in> set before_guard. qe_stop env p = None)"

lemma quiet_guarded_sql: "quiet es (guarded_sql env q s ctx restorable es)"
  by (auto simp: guarded_sql_def
      intro!: quiet_bind quiet_certify quiet_prompt quiet_generate quiet_scope quiet_guard)

text \<open>
  Where an executed statement comes from: the query \<open>s\<close> and the context \<open>ctx\<close> are certified when
  required, make the prompt, the language model answers the prompt with a candidate, the guard turns
  the candidate into \<open>sql\<close>, and the restoration check accepts it for the same certified query.
\<close>

definition derived ::
  "('s, 'c) query_env \<Rightarrow> bool \<Rightarrow> pystr \<Rightarrow> 's option \<Rightarrow> query_context \<Rightarrow> pystr \<Rightarrow> bool" where
  "derived env restorable question s ctx sql \<longleftrightarrow>
     (\<exists>s' st prompt candidate. certified env restorable s ctx s' st
        \<and> qe_prompt env question s' ctx = Some prompt \<and> qe_generate env prompt = Returned candidate
        \<and> guard_verdict (qe_glot env) candidate ctx restorable = Inr sql
        \<and> (restorable \<longrightarrow> qe_restoration_ok env sql s' st ctx))"

lemma guarded_sql_Inr:
  assumes "guarded_sql env q s ctx restorable es = (Inr (sql, es') :: ('r, pystr) run)"
  shows "derived env restorable q s ctx sql" and "logged es before_guard es'"
    and "\<forall>p \<in> set before_guard. qe_stop env p = None"
proof -
  from assms obtain s' st es1 prompt es2 candidate es3 session es4 where
    c: "certify_stage env restorable s ctx es = (Inr ((s', st), es1) :: ('r, _) run)" and
    p: "prompt_stage env q s' ctx es1 = (Inr (prompt, es2) :: ('r, _) run)" and
    g: "generate_stage env prompt es2 = (Inr (candidate, es3) :: ('r, _) run)" and
    t: "scope_stage env candidate ctx restorable es3 = (Inr (session, es4) :: ('r, _) run)" and
    v: "guard_stage env session s' st ctx restorable es4 = (Inr (sql, es') :: ('r, _) run)"
    by (auto simp: guarded_sql_def bindR_Inr_iff)
  note passed = certify_Inr [OF c] prompt_Inr [OF p] generate_Inr [OF g] scope_Inr [OF t] guard_Inr [OF v]
  show "derived env restorable q s ctx sql"
    unfolding derived_def using passed by (auto simp: scoped_verdict)
  show "logged es before_guard es'" using passed by (simp add: logged_def before_guard_def)
  show "\<forall>p \<in> set before_guard. qe_stop env p = None" using passed by (simp add: before_guard_def)
qed

lemma derived_cleared:
  assumes "derived env restorable q s ctx sql" and "\<forall>p \<in> set before_guard. qe_stop env p = None"
  shows "cleared env restorable ctx sql"
  using assms unfolding derived_def cleared_def by blast

lemma execute_query_effects:
  "executes (snd (execute_query env q s ctx restorable es)) = executes es
   \<or> (\<exists>before sql after. snd (execute_query env q s ctx restorable es) = before @ Execute sql # after
        \<and> executes before = executes es \<and> executes after = []
        \<and> checked before = checked es @ before_guard @ [''database'']
        \<and> (\<forall>p \<in> set (before_guard @ [''database'']). qe_stop env p = None)
        \<and> derived env restorable q s ctx sql)"
proof (cases "guarded_sql env q s ctx restorable es :: (rows, pystr) run")
  case (Inl a)
  then show ?thesis using quiet_guarded_sql [of es env q s ctx restorable, where 'a = rows]
    by (cases a) (simp add: execute_query_def sql_stages_def finish_run_def quiet_def)
next
  case (Inr b)
  obtain sql es1 where b: "b = (sql, es1)" by (cases b)
  note guarded = guarded_sql_Inr [OF Inr [unfolded b]]
  have eff: "snd (execute_query env q s ctx restorable es) =
      run_effects (database_stage env sql es1 :: (rows, rows) run)"
    using Inr b by (cases "database_stage env sql es1 :: (rows, rows) run")
      (auto simp: execute_query_def sql_stages_def finish_run_def)
  have logs: "executes before = executes es" "checked before = checked es @ before_guard @ [''database'']"
    if "logged es1 [''database''] before" for before
    using guarded(2) that by (simp_all add: logged_def)
  show ?thesis
    using database_run [of env sql es1, where 'a = rows]
  proof (elim disjE conjE exE)
    assume "executes (run_effects (database_stage env sql es1 :: (rows, rows) run)) = executes es1"
    then show ?thesis using guarded(2) by (simp add: eff logged_def)
  next
    fix before after
    assume "qe_stop env ''database'' = None" and "executes after = []"
      and "run_effects (database_stage env sql es1 :: (rows, rows) run) = before @ Execute sql # after"
      and "logged es1 [''database''] before"
    then show ?thesis using guarded logs by (intro disjI2 exI [of _ before] exI [of _ sql] exI [of _ after]) (simp add: eff)
  qed
qed

lemma execute_query_success:
  assumes "execute_query env q s ctx restorable es = (QSuccess sql d, es')"
  shows "cleared env restorable ctx sql \<and> qe_execute env sql = Returned (Rows d)
     \<and> executes es' = executes es @ [sql] \<and> qe_stop env ''database'' = None \<and> qe_stop env ''executed'' = None"
proof (cases "guarded_sql env q s ctx restorable es :: (rows, pystr) run")
  case (Inl a)
  then show ?thesis using assms quiet_guarded_sql [of es env q s ctx restorable, where 'a = rows]
    by (cases a) (auto simp: execute_query_def sql_stages_def finish_run_def quiet_def)
next
  case (Inr b)
  obtain sql1 es1 where b: "b = (sql1, es1)" by (cases b)
  have es1: "executes es1 = executes es"
    using quiet_guarded_sql [of es env q s ctx restorable, where 'a = rows] Inr b by (simp add: quiet_def)
  show ?thesis
  proof (cases "database_stage env sql1 es1 :: (rows, rows) run")
    case (Inl x)
    then show ?thesis using assms Inr b database_Inl [of env sql1 es1 "fst x" "snd x" sql d]
      by (simp add: execute_query_def sql_stages_def finish_run_def)
  next
    case (Inr x)
    obtain d1 es2 where x: "x = (d1, es2)" by (cases x)
    note db = database_Inr [OF Inr [unfolded x]]
    have "sql1 = sql \<and> d1 = d \<and> es2 = es'"
      using assms \<open>guarded_sql env q s ctx restorable es = Inr b\<close> b Inr x
      by (auto simp: execute_query_def sql_stages_def finish_run_def split: if_splits)
    then show ?thesis
      using db guarded_sql_Inr [OF \<open>guarded_sql env q s ctx restorable es = Inr b\<close> [unfolded b]]
      by (auto simp: es1 intro: derived_cleared)
  qed
qed

text \<open>The context a question is answered with is the static one or the one the retrieval returned.\<close>

definition supplied :: "('s, 'c) query_env \<Rightarrow> query_context \<Rightarrow> bool" where
  "supplied env ctx \<longleftrightarrow>
     (case qe_retrieval env of
        None \<Rightarrow> qe_static env = Some ctx
      | Some f \<Rightarrow> (\<exists>s. f s = Returned (SUCCESS, Some ctx)))"

text \<open>The context that belongs to a query, and the query that belongs to a request.\<close>

definition context_for :: "('s, 'c) query_env \<Rightarrow> 's option \<Rightarrow> query_context \<Rightarrow> bool" where
  "context_for env s ctx \<longleftrightarrow>
     (case qe_retrieval env of
        None \<Rightarrow> qe_static env = Some ctx
      | Some f \<Rightarrow> (\<exists>q. s = Some q \<and> f q = Returned (SUCCESS, Some ctx)))"

definition understands :: "('s, 'c) query_env \<Rightarrow> 's query_request \<Rightarrow> bool" where
  "understands env r \<longleftrightarrow> qr_semantic r = NoSemantic \<and> (qe_retrieval env \<noteq> None \<or> qr_restorable r)"

definition query_of :: "('s, 'c) query_env \<Rightarrow> 's query_request \<Rightarrow> pystr \<Rightarrow> 's option \<Rightarrow> bool" where
  "query_of env r question s \<longleftrightarrow>
     (if understands env r
      then \<exists>f c q. qe_understand env = Some f \<and> f question = Returned (Candidate c)
             \<and> \<not> (qr_restorable r \<and> qe_ranking_open env c) \<and> qe_validate env c question = Validated q \<and> s = Some q
      else qr_semantic r = NoSemantic \<and> s = None \<or> (\<exists>q. qr_semantic r = Semantic q \<and> s = Some q))"

text \<open>Every checkpoint on the way to the database, in order.\<close>

definition checkpoints_before :: "('s, 'c) query_env \<Rightarrow> 's query_request \<Rightarrow> string list" where
  "checkpoints_before env r =
     ''request'' # (if understands env r then [''understand'', ''understood''] else [])
     @ (if qe_retrieval env \<noteq> None then [''retrieve'', ''retrieved''] else [])
     @ before_guard @ [''database'']"

lemma retrieved_context_Inr: "retrieved_context r = Inr ctx \<Longrightarrow> r = (SUCCESS, Some ctx)"
  by (cases r) (auto simp: retrieved_context_def split: retrieval_status.splits option.splits)

lemma case_sum_Inr: "(case x of Inl c \<Rightarrow> Inl (f c) | Inr y \<Rightarrow> Inr (h y)) = Inr z \<longleftrightarrow> (\<exists>y. x = Inr y \<and> h y = z)"
  by (cases x) auto

lemma context_supplied: "context_for env s ctx \<Longrightarrow> supplied env ctx"
  by (auto simp: context_for_def supplied_def split: option.splits)

lemma resolve_context_Inr:
  assumes "resolve_context env s es = Inr (ctx, es')"
  shows "context_for env s ctx"
    and "logged es (if qe_retrieval env \<noteq> None then [''retrieve'', ''retrieved''] else []) es'"
    and "qe_retrieval env \<noteq> None \<Longrightarrow> qe_stop env ''retrieve'' = None \<and> qe_stop env ''retrieved'' = None"
  using assms
  by (auto simp: resolve_context_def context_for_def stage_Inr case_sum_Inr
      split: option.splits dest!: retrieved_context_Inr set_stage_Inr)

lemma understand_query_Inr:
  assumes "understand_query env question restorable es = Inr (s, es')"
    and "qe_retrieval env \<noteq> None \<or> restorable"
  shows "\<exists>f c q. qe_understand env = Some f \<and> f question = Returned (Candidate c)
           \<and> \<not> (restorable \<and> qe_ranking_open env c) \<and> qe_validate env c question = Validated q \<and> s = Some q"
    and "logged es [''understand'', ''understood''] es'"
    and "qe_stop env ''understand'' = None \<and> qe_stop env ''understood'' = None"
proof -
  from assms obtain f where f: "qe_understand env = Some f"
    by (auto simp: understand_query_def split: option.splits)
  have on: "\<not> (qe_retrieval env = None \<and> \<not> restorable)" using assms(2) by blast
  from assms(1) have stops: "qe_stop env ''understand'' = None \<and> qe_stop env ''understood'' = None"
    unfolding understand_query_def if_not_P [OF on] f option.case by (auto simp: stage_Inr)
  from assms(1) obtain u where u: "f question = Returned u"
    unfolding understand_query_def if_not_P [OF on] f option.case by (auto simp: stage_Inr)
  from assms(1) u stops obtain c where c: "u = Candidate c"
    by (cases u) (simp_all add: understand_query_def on f stage_Inr if_not_P [OF on])
  from assms(1) u stops have "\<not> (restorable \<and> qe_ranking_open env c)
      \<and> (\<exists>q. qe_validate env c question = Validated q \<and> s = Some q)
      \<and> es' = es @ [Checked ''understand'', Understand question, Checked ''understood'']"
    unfolding understand_query_def if_not_P [OF on] f option.case c
    by (cases "qe_validate env c question") (auto simp: stage_Inr split: if_splits)
  with f u c stops show "\<exists>f c q. qe_understand env = Some f \<and> f question = Returned (Candidate c)
           \<and> \<not> (restorable \<and> qe_ranking_open env c) \<and> qe_validate env c question = Validated q \<and> s = Some q"
    and "logged es [''understand'', ''understood''] es'"
    and "qe_stop env ''understand'' = None \<and> qe_stop env ''understood'' = None" by (auto simp: logged_def)
qed

lemma semantic_query_Inr:
  assumes "semantic_query env r question es = (Inr (s, es') :: ('r, 's option) run)"
  shows "query_of env r question s"
    and "logged es (if understands env r then [''understand'', ''understood''] else []) es'"
    and "understands env r \<Longrightarrow> qe_stop env ''understand'' = None \<and> qe_stop env ''understood'' = None"
proof -
  have "query_of env r question s \<and> logged es (if understands env r then [''understand'', ''understood''] else []) es'
      \<and> (understands env r \<longrightarrow> qe_stop env ''understand'' = None \<and> qe_stop env ''understood'' = None)"
  proof (cases "understands env r")
    case True
    with assms obtain u es1 where st: "set_stage_or env ''query_understanding'' QRaised es = (Inr (u, es1) :: ('r, unit) run)"
      and un: "understand_query env question (qr_restorable r) es1 = (Inr (s, es') :: ('r, 's option) run)"
      by (auto simp: semantic_query_def understands_def bindR_Inr_iff)
    from True have "qe_retrieval env \<noteq> None \<or> qr_restorable r" by (simp add: understands_def)
    note u = understand_query_Inr [OF un this]
    from set_stage_Inr [OF st] u(2) have "logged es [''understand'', ''understood''] es'" by (simp add: logged_def)
    with u True show ?thesis by (simp add: query_of_def)
  next
    case False
    with assms show ?thesis
      by (auto simp: semantic_query_def understands_def query_of_def understand_query_def logged_def
          split: given_query.splits)
  qed
  then show "query_of env r question s"
    and "logged es (if understands env r then [''understand'', ''understood''] else []) es'"
    and "understands env r \<Longrightarrow> qe_stop env ''understand'' = None \<and> qe_stop env ''understood'' = None" by blast+
qed

text \<open>A request that does not reach the SQL stages leaves the database alone.\<close>

lemma service_reaches:
  obtains (idle) "executes (snd (service_execute env fresh r)) = []"
      and "\<And>sql d. fst (service_execute env fresh r) \<noteq> QSuccess sql d"
  | (run) q s ctx es where "service_execute env fresh r = execute_query env (strip q) s ctx (qr_restorable r) es"
      and "executes es = []" and "checked es @ before_guard @ [''database''] = checkpoints_before env r"
      and "qr_question r = Some q" and "query_of env r (strip q) s" and "context_for env s ctx"
      and "\<forall>p \<in> set (checked es). qe_stop env p = None"
proof (cases "qe_stop env ''request''")
  case (Some w)
  then show ?thesis using idle by (simp add: service_execute_def)
next
  case None
  let ?es0 = "[Checked ''request'']"
  show ?thesis
  proof (cases "\<exists>q. qr_question r = Some q \<and> snd (resolve_request_id fresh (qr_id r)) \<and> strip q \<noteq> []")
    case False
    then show ?thesis using idle None by (auto simp: service_execute_def service_query_def split: option.splits)
  next
    case True
    then obtain q where q: "qr_question r = Some q" "snd (resolve_request_id fresh (qr_id r))" "strip q \<noteq> []" by blast
    let ?sem = "semantic_query env r (strip q) ?es0 :: (rows, 'a option) run"
    have sem: "quiet ?es0 ?sem" by (rule quiet_semantic)
    show ?thesis
    proof (cases ?sem)
      case (Inl a)
      then show ?thesis using idle None q sem
        by (cases a) (auto simp: service_execute_def service_query_def quiet_def)
    next
      case (Inr b)
      obtain s es1 where b: "b = (s, es1)" by (cases b)
      note semantic = semantic_query_Inr [OF \<open>?sem = Inr b\<close> [unfolded b]]
      let ?ctx = "resolve_context env s es1 :: (rows, query_context) run"
      have ctx: "quiet es1 ?ctx" by (rule quiet_context)
      show ?thesis
      proof (cases ?ctx)
        case (Inl a)
        then show ?thesis using idle None q b ctx semantic(2) \<open>?sem = Inr b\<close>
          by (cases a) (auto simp: service_execute_def service_query_def quiet_def logged_def)
      next
        case (Inr c)
        obtain cx es2 where c: "c = (cx, es2)" by (cases c)
        note resolved = resolve_context_Inr [OF Inr [unfolded c]]
        show ?thesis
        proof (rule run)
          show "service_execute env fresh r = execute_query env (strip q) s cx (qr_restorable r) es2"
            using None q b c Inr \<open>?sem = Inr b\<close> by (simp add: service_execute_def service_query_def)
          show "executes es2 = []" using semantic(2) resolved(2) by (simp add: logged_def)
          show "checked es2 @ before_guard @ [''database''] = checkpoints_before env r"
            using semantic(2) resolved(2) by (simp add: logged_def checkpoints_before_def)
          show "\<forall>p \<in> set (checked es2). qe_stop env p = None"
            using semantic(2,3) resolved(2,3) None by (auto simp: logged_def)
        qed (fact q(1) semantic(1) resolved(1))+
      qed
    qed
  qed
qed

text \<open>A successful answer.\<close>

lemma service_success:
  assumes "service_execute env fresh r = (QSuccess sql d, es)"
  shows "executes es = [sql] \<and> qe_execute env sql = Returned (Rows d)
     \<and> (\<exists>ctx. supplied env ctx \<and> cleared env (qr_restorable r) ctx sql)
     \<and> (\<forall>p \<in> set (before_guard @ [''request'', ''database'', ''executed'']). qe_stop env p = None)"
proof (rule service_reaches [where env = env and fresh = fresh and r = r])
  fix q s ctx es0
  assume run: "service_execute env fresh r = execute_query env (strip q) s ctx (qr_restorable r) es0"
    and "executes es0 = []" and "context_for env s ctx"
    and es0: "\<forall>p \<in> set (checked es0). qe_stop env p = None"
      "checked es0 @ before_guard @ [''database''] = checkpoints_before env r"
  moreover from run assms have "execute_query env (strip q) s ctx (qr_restorable r) es0 = (QSuccess sql d, es)" by simp
  from execute_query_success [OF this] have "cleared env (qr_restorable r) ctx sql \<and> qe_execute env sql = Returned (Rows d)
     \<and> executes es = executes es0 @ [sql] \<and> qe_stop env ''database'' = None \<and> qe_stop env ''executed'' = None" .
  moreover have "qe_stop env ''request'' = None"
    using es0 by (cases "checked es0") (auto simp: checkpoints_before_def before_guard_def)
  ultimately show ?thesis by (auto simp: cleared_def intro: context_supplied)
qed (use assms in auto)

section \<open>The executor\<close>

text \<open>
  The service with the read-only executor as its database: \<open>stop\<close> answers the executor's own
  checkpoints and \<open>c\<close> is the connection. \<open>executor_script\<close> is what a connection is meant to see.
\<close>

definition with_executor ::
  "(string \<Rightarrow> stop_reason option) \<Rightarrow> db_connection \<Rightarrow> ('s, 'c) query_env \<Rightarrow> ('s, 'c) query_env" where
  "with_executor stop c env = env\<lparr>qe_execute := \<lambda>sql. fst (executor_run stop c sql)\<rparr>"

definition executor_script :: "pystr \<Rightarrow> db_event list" where
  "executor_script sql = [ReadOnly, BeginTransaction, SetTimeout, RunStatement sql, Fetch 101]"

definition database_events ::
  "(string \<Rightarrow> stop_reason option) \<Rightarrow> db_connection \<Rightarrow> effect list \<Rightarrow> db_event list" where
  "database_events stop c es = concat (map (\<lambda>sql. snd (executor_run stop c sql)) (executes es))"

lemma with_executor_simps [simp]:
  "qe_execute (with_executor stop c env) = (\<lambda>sql. fst (executor_run stop c sql))"
  "qe_glot (with_executor stop c env) = qe_glot env"
  "supplied (with_executor stop c env) = supplied env"
  by (simp_all add: with_executor_def supplied_def fun_eq_iff cong: option.case_cong)

lemma executor_run_script: "\<exists>n. snd (executor_run stop c sql) = take n (executor_script sql)"
proof -
  have "snd (executor_run stop c sql) \<in> (\<lambda>n. take n (executor_script sql)) ` {0, 2, 4, 5}"
    by (simp add: executor_run_def executor_script_def Let_def split: option.splits)
  then show ?thesis by blast
qed

lemma executor_run_rows:
  assumes "fst (executor_run stop c sql) = Returned (Rows d)"
  shows "snd (executor_run stop c sql) = executor_script sql
     \<and> stop ''connect'' = None \<and> stop ''cursor'' = None \<and> stop ''fetched'' = None
     \<and> rows_data d = take 100 (dc_rows c sql) \<and> (rows_truncated d \<longleftrightarrow> 100 < length (dc_rows c sql))"
  using assms
  by (auto simp: executor_run_def executor_script_def Let_def min_def split: option.splits if_splits)

section \<open>Properties\<close>

text \<open>C1: Whatever the language model answers, a question sends at most one statement to the database.
Before it is sent, every checkpoint on the way was passed in order and found the execution running: that
of the request, those around the query understanding and the retrieval when the request uses them, and
those of the certification, the prompt, the generation, the guard and the database. The statement is the
one the SQL guard made of the language model's answer to the prompt, for the query and the context that
belong to the request; for a restorable question the restoration check accepted it for exactly the query
and conditions the certification returned.\<close>
theorem only_guarded_sql_is_executed:
  "executes (snd (service_execute env fresh r)) = []
   \<or> (\<exists>before sql after q s ctx.
        snd (service_execute env fresh r) = before @ Execute sql # after
        \<and> executes before = [] \<and> executes after = []
        \<and> checked before = checkpoints_before env r
        \<and> (\<forall>p \<in> set (checkpoints_before env r). qe_stop env p = None)
        \<and> qr_question r = Some q \<and> query_of env r (strip q) s \<and> context_for env s ctx
        \<and> derived env (qr_restorable r) (strip q) s ctx sql)"
proof (rule service_reaches [where env = env and fresh = fresh and r = r])
  fix q s ctx es
  assume run: "service_execute env fresh r = execute_query env (strip q) s ctx (qr_restorable r) es"
    and es: "executes es = []" "checked es @ before_guard @ [''database''] = checkpoints_before env r"
      "\<forall>p \<in> set (checked es). qe_stop env p = None"
    and found: "qr_question r = Some q" "query_of env r (strip q) s" "context_for env s ctx"
  have places: "set (checkpoints_before env r) = set (checked es) \<union> set (before_guard @ [''database''])"
    by (simp flip: es(2))
  show ?thesis
    using execute_query_effects [of env "strip q" s ctx "qr_restorable r" es]
  proof (elim disjE exE conjE)
    assume "executes (snd (execute_query env (strip q) s ctx (qr_restorable r) es)) = executes es"
    then show ?thesis by (simp add: run es)
  next
    fix before sql after
    assume "snd (execute_query env (strip q) s ctx (qr_restorable r) es) = before @ Execute sql # after"
      and "executes before = executes es" "executes after = []"
      and "checked before = checked es @ before_guard @ [''database'']"
      and "\<forall>p \<in> set (before_guard @ [''database'']). qe_stop env p = None"
      and "derived env (qr_restorable r) (strip q) s ctx sql"
    then show ?thesis
      using es found places
      by (intro disjI2 exI [of _ before] exI [of _ sql] exI [of _ after] exI [of _ q] exI [of _ s] exI [of _ ctx])
        (auto simp: run)
  qed
qed simp

text \<open>C21: A successful answer consists of the rows the database returned for exactly the one accepted
statement, and no checkpoint of the SQL stages, the one after the statement included, found the
execution stopped: a stop is never answered with a result.\<close>
theorem stopped_query_never_succeeds:
  assumes "service_execute env fresh r = (QSuccess sql d, es)"
  shows "executes es = [sql] \<and> qe_execute env sql = Returned (Rows d)
     \<and> (\<exists>ctx. supplied env ctx \<and> cleared env (qr_restorable r) ctx sql)
     \<and> (\<forall>p \<in> set (before_guard @ [''request'', ''database'', ''executed'']). qe_stop env p = None)"
  using assms by (rule service_success)

text \<open>C20: When the questions are executed by the read-only executor, a question makes the database
connection see a prefix of one script: the connection is made read-only, a transaction is begun, the
statement timeout is set, one statement the SQL guard accepted is run, and at most 101 of its rows are
fetched, once. A successful answer was preceded by the whole script and by no stop at the executor's
checkpoints; its rows are the first 100 rows of the statement, and it reports truncation exactly when
the statement had more than 100.\<close>
theorem executor_is_read_only_and_bounded:
  "case service_execute (with_executor stop c env) fresh r of (out, es) \<Rightarrow>
     (database_events stop c es = []
      \<or> (\<exists>n sql ctx candidate. database_events stop c es = take n (executor_script sql)
           \<and> supplied env ctx \<and> guard_verdict (qe_glot env) candidate ctx (qr_restorable r) = Inr sql))
     \<and> (\<forall>sql d. out = QSuccess sql d \<longrightarrow>
          database_events stop c es = executor_script sql
          \<and> stop ''connect'' = None \<and> stop ''cursor'' = None \<and> stop ''fetched'' = None
          \<and> rows_data d = take 100 (dc_rows c sql)
          \<and> (rows_truncated d \<longleftrightarrow> 100 < length (dc_rows c sql)))"
proof -
  let ?env = "with_executor stop c env"
  obtain out es where run: "service_execute ?env fresh r = (out, es)" by fastforce
  have "database_events stop c es = []
      \<or> (\<exists>n sql ctx candidate. database_events stop c es = take n (executor_script sql)
           \<and> supplied env ctx \<and> guard_verdict (qe_glot env) candidate ctx (qr_restorable r) = Inr sql)"
  proof (rule service_reaches [where env = ?env and fresh = fresh and r = r])
    fix q s ctx es0
    assume reached: "service_execute ?env fresh r = execute_query ?env (strip q) s ctx (qr_restorable r) es0"
      and "executes es0 = []" and "context_for ?env s ctx"
    have "snd (execute_query ?env (strip q) s ctx (qr_restorable r) es0) = es"
      by (simp flip: reached add: run)
    with \<open>executes es0 = []\<close> consider "executes es = []"
      | sql where "executes es = [sql]" and "derived ?env (qr_restorable r) (strip q) s ctx sql"
      using execute_query_effects [of ?env "strip q" s ctx "qr_restorable r" es0] by auto
    then show ?thesis
    proof cases
      case 1
      then show ?thesis by (simp add: database_events_def)
    next
      case (2 sql)
      have "supplied env ctx" using \<open>context_for ?env s ctx\<close> by (auto dest: context_supplied)
      moreover obtain n where "database_events stop c es = take n (executor_script sql)"
        using executor_run_script [of stop c sql] 2(1) by (auto simp: database_events_def)
      moreover obtain candidate where "guard_verdict (qe_glot env) candidate ctx (qr_restorable r) = Inr sql"
        using 2(2) by (auto simp: derived_def)
      ultimately show ?thesis by blast
    qed
  qed (use run in \<open>simp add: database_events_def\<close>)
  moreover have "database_events stop c es = executor_script sql
      \<and> stop ''connect'' = None \<and> stop ''cursor'' = None \<and> stop ''fetched'' = None
      \<and> rows_data d = take 100 (dc_rows c sql) \<and> (rows_truncated d \<longleftrightarrow> 100 < length (dc_rows c sql))"
    if "out = QSuccess sql d" for sql d
  proof -
    from service_success [OF run [unfolded that]] have "executes es = [sql]"
      and "fst (executor_run stop c sql) = Returned (Rows d)" by simp_all
    with executor_run_rows [OF this(2)] show ?thesis by (simp add: database_events_def)
  qed
  ultimately show ?thesis unfolding run prod.case by blast
qed

section \<open>A run\<close>

definition sample_rows :: rows where
  "sample_rows = \<lparr>rows_columns = [[120]], rows_data = [[JInt 7]], rows_truncated = False\<rparr>"

definition sample_env :: "(unit, unit) query_env" where
  "sample_env =
     \<lparr>qe_glot = sample_glot, qe_observed = True, qe_stage_raises = (\<lambda>_. False), qe_stop = (\<lambda>_. None),
      qe_static = Some sample_context, qe_retrieval = None, qe_understand = None, qe_ranking_open = (\<lambda>_. False),
      qe_validate = (\<lambda>_ _. StructureError), qe_certify = (\<lambda>_ _. CertificationFailed), qe_prompt = (\<lambda>q _ _. Some q),
      qe_generate = (\<lambda>_. Returned [65]), qe_restoration_ok = (\<lambda>_ _ _ _. True),
      qe_execute = (\<lambda>_. Returned (Rows sample_rows)), qe_metadata = (\<lambda>_ _. True)\<rparr>"

definition sample_request :: "unit query_request" where
  "sample_request = \<lparr>qr_id = None, qr_question = Some [81], qr_semantic = NoSemantic, qr_restorable = False\<rparr>"

lemma sample_run:
  "\<exists>es. service_execute sample_env [] sample_request = (QSuccess [65] sample_rows, es)"
proof -
  let ?s = "snd (session_candidate_scope sample_glot (new_session_guard [65] sample_context False))"
  have v: "fst (session_validate_sql sample_glot ?s) = Inr [65]"
    by (simp add: scoped_verdict sample_accepted)
  have scope: "\<exists>es'. scope_stage sample_env [65] sample_context False es = Inr (?s, es')" for es
    using sample_scoped
    by (cases "session_candidate_scope sample_glot (new_session_guard [65] sample_context False)")
      (simp add: scope_stage_def sample_env_def checkpoint_at_def set_stage_or_def)
  have guard: "\<exists>es'. guard_stage sample_env ?s s st sample_context False es = Inr ([65], es')" for s st es
    using v by (simp add: guard_stage_def checkpoint_at_def sample_env_def encodable_def is_surrogate_def)
  have gen: "\<exists>es'. generate_stage sample_env p es = Inr ([65], es')" for p es
    by (simp add: generate_stage_def checkpoint_at_def set_stage_or_def call_or_def sample_env_def lit_def)
  have db: "\<exists>es'. database_stage sample_env [65] es = Inr (sample_rows, es')" for es
    by (simp add: database_stage_def checkpoint_at_def sample_env_def)
  have sql: "\<exists>es'. sql_stages sample_env q s sample_context False es = Inr (([65], sample_rows), es')" for q s es
  proof -
    let ?e0 = "es @ [Checked ''start'']" and ?ep = "es @ [Checked ''start'', Checked ''prompt'']"
    have cert: "certify_stage sample_env False s sample_context es = Inr ((s, None), ?e0)"
      and pr: "prompt_stage sample_env q s sample_context ?e0 = Inr (q, ?ep)"
      by (simp_all add: certify_stage_def prompt_stage_def checkpoint_at_def sample_env_def)
    from gen [of q ?ep] obtain e1 where "(generate_stage sample_env q ?ep :: (rows, pystr) run) = Inr ([65], e1)" by blast
    moreover from scope [of e1] obtain e2 where "(scope_stage sample_env [65] sample_context False e1 :: (rows, guard_session) run) = Inr (?s, e2)" by blast
    moreover from guard [of s None e2] obtain e3 where "(guard_stage sample_env ?s s None sample_context False e2 :: (rows, pystr) run) = Inr ([65], e3)" by blast
    moreover from db [of e3] obtain e4 where "(database_stage sample_env [65] e3 :: (rows, rows) run) = Inr (sample_rows, e4)" by blast
    ultimately show ?thesis by (simp add: sql_stages_def guarded_sql_def cert pr)
  qed
  have sem: "semantic_query sample_env sample_request [81] es = Inr (None, es)" for es
    by (simp add: sample_env_def sample_request_def semantic_query_def understand_query_def)
  have ctx: "resolve_context sample_env None es = Inr (sample_context, es)" for es
    by (simp add: sample_env_def resolve_context_def)
  have "qe_stop sample_env ''request'' = None" "qr_question sample_request = Some [81]" "strip [81] = [81]"
    "\<not> qr_restorable sample_request" "snd (resolve_request_id [] (qr_id sample_request))"
    "qe_metadata sample_env [65] sample_rows"
    by (simp_all add: sample_env_def sample_request_def strip_def py_isspace_def resolve_request_id_def)
  then show ?thesis using sql [of "[81]" None "[Checked ''request'']"]
    by (auto simp: service_execute_def service_query_def execute_query_def finish_run_def sem ctx)
qed

theorem only_guarded_sql_is_executed_witness:
  "\<exists>before sql after. snd (service_execute sample_env [] sample_request) = before @ Execute sql # after
     \<and> checked before = ''request'' # before_guard @ [''database'']
     \<and> derived sample_env False [81] None sample_context sql"
proof -
  from sample_run obtain es where es: "service_execute sample_env [] sample_request = (QSuccess [65] sample_rows, es)" ..
  with service_success [OF this] have "executes (snd (service_execute sample_env [] sample_request)) \<noteq> []" by simp
  moreover have "strip [81] = [81]" by (simp add: strip_def py_isspace_def)
  ultimately show ?thesis
    using only_guarded_sql_is_executed [where env = sample_env and fresh = "[]" and r = sample_request]
    by (fastforce simp: sample_env_def sample_request_def checkpoints_before_def understands_def query_of_def
        context_for_def)
qed

theorem stopped_query_never_succeeds_witness:
  "\<exists>es. executes es = [[65]] \<and> qe_execute sample_env [65] = Returned (Rows sample_rows)"
proof -
  from sample_run obtain es where es: "service_execute sample_env [] sample_request = (QSuccess [65] sample_rows, es)" ..
  from stopped_query_never_succeeds [OF es] show ?thesis by blast
qed

definition sample_connection :: db_connection where
  "sample_connection =
     \<lparr>dc_connects = True, dc_canceled = (\<lambda>_. False), dc_columns = (\<lambda>_. Some [[120]]), dc_rows = (\<lambda>_. [[JInt 7]]),
      dc_fails = (\<lambda>_. False)\<rparr>"

theorem executor_is_read_only_and_bounded_witness:
  "\<exists>es. service_execute (with_executor (\<lambda>_. None) sample_connection sample_env) [] sample_request
       = (QSuccess [65] sample_rows, es)
     \<and> database_events (\<lambda>_. None) sample_connection es = executor_script [65]"
proof -
  have same: "with_executor (\<lambda>_. None) sample_connection sample_env = sample_env"
    by (simp add: with_executor_def sample_env_def executor_run_def sample_connection_def sample_rows_def)
  from sample_run obtain es where es: "service_execute sample_env [] sample_request = (QSuccess [65] sample_rows, es)" ..
  with executor_is_read_only_and_bounded [where stop = "\<lambda>_. None" and c = sample_connection and env = sample_env
      and fresh = "[]" and r = sample_request]
  show ?thesis by (simp add: same)
qed

end
