(* ===== verification/Time_Resolution.thy ===== *)
theory Time_Resolution
  imports Planning
begin

text \<open>
  Relative and absolute time expressions, \<open>_resolve_dates\<close> and its helpers in
  \<open>online_query/query_understanding.py\<close>. A \<open>date\<close> of the result is its ordinal (\<open>date.toordinal\<close>), so that
  \<open>timedelta\<close> arithmetic is integer arithmetic; today is given by its fields. The regular expressions
  are written out as matchers. Texts are code points: the source's words are named in English.
\<close>

section \<open>Dates\<close>

datatype time_error = CannotNormalize string | PyDateError

record date =
  d_year :: int
  d_month :: int
  d_day :: int

definition leap_year :: "int \<Rightarrow> bool" where
  "leap_year y \<longleftrightarrow> y mod 4 = 0 \<and> (y mod 100 \<noteq> 0 \<or> y mod 400 = 0)"

definition days_in_month :: "int \<Rightarrow> int \<Rightarrow> int" where
  "days_in_month y m =
     (if m = 2 then (if leap_year y then 29 else 28) else if m \<in> {4, 6, 9, 11} then 30 else 31)"

definition days_before_year :: "int \<Rightarrow> int" where
  "days_before_year y = (y - 1) * 365 + (y - 1) div 4 - (y - 1) div 100 + (y - 1) div 400"

definition days_before_month :: "int \<Rightarrow> int \<Rightarrow> int" where
  "days_before_month y m =
     [0, 0, 31, 59, 90, 120, 151, 181, 212, 243, 273, 304, 334] ! nat m + (if 2 < m \<and> leap_year y then 1 else 0)"

definition ordinal_of :: "int \<Rightarrow> int \<Rightarrow> int \<Rightarrow> int" where
  "ordinal_of y m d = days_before_year y + days_before_month y m + d"

definition valid_ymd :: "int \<Rightarrow> int \<Rightarrow> int \<Rightarrow> bool" where
  "valid_ymd y m d \<longleftrightarrow> 1 \<le> y \<and> y \<le> 9999 \<and> 1 \<le> m \<and> m \<le> 12 \<and> 1 \<le> d \<and> d \<le> days_in_month y m"

text \<open>The constructor \<open>date(y, m, d)\<close> raises on a date that does not exist.\<close>

definition make_date :: "int \<Rightarrow> int \<Rightarrow> int \<Rightarrow> time_error + int" where
  "make_date y m d = (if valid_ymd y m d then Inr (ordinal_of y m d) else Inl PyDateError)"

definition max_ordinal :: int where "max_ordinal = 3652059"

text \<open>\<open>date + timedelta(days=n)\<close>; a \<open>timedelta\<close> has at most 999999999 days.\<close>

definition add_days :: "int \<Rightarrow> int \<Rightarrow> time_error + int" where
  "add_days o1 n =
     (if \<bar>n\<bar> \<le> 999999999 \<and> 1 \<le> o1 + n \<and> o1 + n \<le> max_ordinal then Inr (o1 + n) else Inl PyDateError)"

definition ordinal :: "date \<Rightarrow> int" where
  "ordinal d = ordinal_of (d_year d) (d_month d) (d_day d)"

definition valid_date :: "date \<Rightarrow> bool" where
  "valid_date d \<longleftrightarrow> valid_ymd (d_year d) (d_month d) (d_day d)"

definition weekday :: "int \<Rightarrow> int" where
  "weekday o1 = (o1 + 6) mod 7"

text \<open>\<open>_shift_month\<close> of the first day of a month.\<close>

definition shift_month :: "int \<Rightarrow> int \<Rightarrow> int \<Rightarrow> time_error + int" where
  "shift_month y m offset =
     (let a = y * 12 + m - 1 + offset in make_date (a div 12) (a mod 12 + 1) 1)"

text \<open>The year and month \<open>_shift_month\<close> lands in, for the calls that shift its result again.\<close>

definition month_after :: "int \<Rightarrow> int \<Rightarrow> int \<Rightarrow> int \<times> int" where
  "month_after y m offset = (let a = y * 12 + m - 1 + offset in (a div 12, a mod 12 + 1))"

definition quarter_start_month :: "int \<Rightarrow> int" where
  "quarter_start_month m = ((m - 1) div 3) * 3 + 1"

text \<open>A branch inside \<open>try: ... except (ValueError, OverflowError)\<close>.\<close>

definition normalizable :: "time_error + 'a \<Rightarrow> time_error + 'a" where
  "normalizable r = (case r of Inl PyDateError \<Rightarrow> Inl (CannotNormalize ''DATE_NOT_NORMALIZABLE'') | _ \<Rightarrow> r)"

section \<open>Numbers and patterns\<close>

definition is_digit :: "nat \<Rightarrow> bool" where
  "is_digit c \<longleftrightarrow> 48 \<le> c \<and> c \<le> 57"

definition digits_value :: "pystr \<Rightarrow> int" where
  "digits_value ds = foldl (\<lambda>n c. 10 * n + (int c - 48)) 0 ds"

text \<open>\<open>int(text)\<close> of ASCII digits; CPython refuses more than 4300 of them.\<close>

definition py_int :: "pystr \<Rightarrow> time_error + int" where
  "py_int ds = (if length ds \<le> 4300 then Inr (digits_value ds) else Inl PyDateError)"

definition drop_prefix :: "pystr \<Rightarrow> pystr \<Rightarrow> pystr option" where
  "drop_prefix p s = (if take (length p) s = p then Some (drop (length p) s) else None)"

definition drop_suffix :: "pystr \<Rightarrow> pystr \<Rightarrow> pystr option" where
  "drop_suffix p s = map_option rev (drop_prefix (rev p) (rev s))"

definition cn_digit :: "nat \<Rightarrow> int option" where
  "cn_digit c = map_of (zip [19968, 20108, 19977, 22235, 20116, 20845, 19971, 20843, 20061] [1, 2, 3, 4, 5, 6, 7, 8, 9]) c"

text \<open>\<open>_parse_positive_number\<close>: ASCII digits, or one to ninety-nine in Chinese numerals (21313 is ten).\<close>

definition parse_positive_number :: "pystr \<Rightarrow> time_error + int option" where
  "parse_positive_number v =
     (if v \<noteq> [] \<and> list_all is_digit v then
        bindR (py_int v) (\<lambda>n. Inr (if 0 < n then Some n else None))
      else Inr
        (case v of
           [c] \<Rightarrow> if c = 21313 then Some 10 else cn_digit c
         | [c, d] \<Rightarrow>
             if c = 21313 then map_option (\<lambda>n. 10 + n) (cn_digit d)
             else if d = 21313 then map_option (\<lambda>n. n * 10) (cn_digit c)
             else None
         | [a, t, b] \<Rightarrow>
             (if a = 21313 then None else if b = 21313 then None
              else if t = 21313 then
                (case (cn_digit a, cn_digit b) of (Some x, Some y) \<Rightarrow> Some (x * 10 + y) | _ \<Rightarrow> None)
              else None)
         | _ \<Rightarrow> None))"

text \<open>\<open>[1-9][0-9]*\<close>.\<close>

definition positive_digits :: "pystr \<Rightarrow> bool" where
  "positive_digits ds \<longleftrightarrow> ds \<noteq> [] \<and> hd ds \<noteq> 48 \<and> list_all is_digit ds"

definition recent_days_match :: "pystr \<Rightarrow> pystr option" where
  "recent_days_match s =
     (case drop_prefix [26368, 36817] s of
        None \<Rightarrow> None
      | Some r \<Rightarrow>
          (case drop_suffix [22825] r of
             None \<Rightarrow> None | Some ds \<Rightarrow> if positive_digits ds then Some ds else None))"

definition recent_months_match :: "pystr \<Rightarrow> pystr option" where
  "recent_months_match s =
     (case drop_prefix [26368, 36817] s of
        None \<Rightarrow> None
      | Some r \<Rightarrow>
          (case drop_suffix [20010, 26376] r of
             None \<Rightarrow> None
           | Some ds \<Rightarrow>
               if positive_digits ds \<or> (ds \<noteq> [] \<and> set ds \<subseteq> set [19968, 20108, 19977, 22235, 20116, 20845, 19971, 20843, 20061, 21313, 30334]) then Some ds else None))"

text \<open>\<open>[0-9]{4}\<close> at the start: the year and the rest.\<close>

definition four_digits :: "pystr \<Rightarrow> (int \<times> pystr) option" where
  "four_digits s =
     (if 4 \<le> length s \<and> list_all is_digit (take 4 s) then Some (digits_value (take 4 s), drop 4 s) else None)"

definition opt_drop :: "nat \<Rightarrow> pystr \<Rightarrow> pystr" where
  "opt_drop c s = (case s of x # r \<Rightarrow> if x = c then r else s | [] \<Rightarrow> [])"

definition quarter_digit :: "nat \<Rightarrow> int option" where
  "quarter_digit c =
     (if 49 \<le> c \<and> c \<le> 52 then Some (int c - 48)
      else map_of (zip [19968, 20108, 19977, 22235] [1, 2, 3, 4]) c)"

definition year_quarter_match :: "pystr \<Rightarrow> (int \<times> int) option" where
  "year_quarter_match s =
     (case four_digits s of
        None \<Rightarrow> None
      | Some (y, r) \<Rightarrow>
          (case opt_drop 24180 r of
             [c, d] \<Rightarrow> if c \<in> {81, 113} \<and> 49 \<le> d \<and> d \<le> 52 then Some (y, int d - 48) else None
           | t \<Rightarrow>
               (case opt_drop 31532 t of
                  [c, a, b] \<Rightarrow>
                    if [a, b] = [23395, 24230] then map_option (Pair y) (quarter_digit c) else None
                | _ \<Rightarrow> None)))"

text \<open>\<open>[0-9]{1,2}\<close> as a whole text.\<close>

definition small_number :: "pystr \<Rightarrow> int option" where
  "small_number s = (if s \<noteq> [] \<and> length s \<le> 2 \<and> list_all is_digit s then Some (digits_value s) else None)"

definition split_at_char :: "nat set \<Rightarrow> pystr \<Rightarrow> (pystr \<times> pystr) option" where
  "split_at_char cs s =
     (case dropWhile (\<lambda>c. c \<notin> cs) s of [] \<Rightarrow> None | _ # r \<Rightarrow> Some (takeWhile (\<lambda>c. c \<notin> cs) s, r))"

definition month_day :: "pystr \<Rightarrow> pystr \<Rightarrow> (int \<times> int) option" where
  "month_day m d =
     (case (small_number m, small_number d) of (Some x, Some y) \<Rightarrow> Some (x, y) | _ \<Rightarrow> None)"

definition strip_suffix_char :: "nat \<Rightarrow> pystr \<Rightarrow> pystr" where
  "strip_suffix_char c s = (if s \<noteq> [] \<and> last s = c then butlast s else s)"

definition date_match :: "pystr \<Rightarrow> (int \<times> int \<times> int) option" where
  "date_match s =
     (case four_digits s of
        Some (y, c # r) \<Rightarrow>
          if c = 24180 then
            (case split_at_char {26376} r of
               None \<Rightarrow> None | Some (m, d) \<Rightarrow> map_option (Pair y) (month_day m (strip_suffix_char 26085 d)))
          else if c \<in> {45, 47} then
            (case split_at_char {45, 47} r of None \<Rightarrow> None | Some (m, d) \<Rightarrow> map_option (Pair y) (month_day m d))
          else None
      | _ \<Rightarrow> None)"

definition year_month_match :: "pystr \<Rightarrow> (int \<times> int) option" where
  "year_month_match s =
     (case four_digits s of
        Some (y, c # r) \<Rightarrow>
          if c = 24180 then map_option (Pair y) (small_number (strip_suffix_char 26376 r))
          else if c \<in> {45, 47} then map_option (Pair y) (small_number r)
          else None
      | _ \<Rightarrow> None)"

definition year_match :: "pystr \<Rightarrow> int option" where
  "year_match s =
     (case four_digits s of
        None \<Rightarrow> None | Some (y, r) \<Rightarrow> if r = [] \<or> r = [24180] then Some y else None)"

definition range_separators :: "nat set" where
  "range_separators = set [33267, 21040, 126]"

text \<open>\<open>(.+?)(?:...)(.+)$\<close>: the first separator with text on both sides.\<close>

definition date_range_match :: "pystr \<Rightarrow> (pystr \<times> pystr) option" where
  "date_range_match s =
     map_option (\<lambda>i. (take i s, drop (Suc i) s))
       (find (\<lambda>i. s ! i \<in> range_separators) [1..<length s - 1])"

section \<open>Resolution\<close>

datatype interval = Interval granularity int int

definition parse_absolute_day :: "pystr \<Rightarrow> time_error + int" where
  "parse_absolute_day v =
     (case date_match (strip v) of
        None \<Rightarrow> Inl (CannotNormalize ''DATE_NOT_NORMALIZABLE'')
      | Some (y, m, d) \<Rightarrow> normalizable (make_date y m d))"

definition relative_day :: "pystr \<Rightarrow> int option" where
  "relative_day s = map_of (zip [[20170, 22825], [26152, 26085], [26152, 22825], [21069, 22825]] [0, - 1, - 1, - 2]) s"

text \<open>Whether a text names the current (\<open>True\<close>) or the previous (\<open>False\<close>) period of a granularity.\<close>

definition relative_period :: "pystr \<Rightarrow> (granularity \<times> bool) option" where
  "relative_period s =
     map_of (zip [[26412, 21608], [19978, 21608], [26412, 26376], [19978, 26376], [26412, 23395, 24230], [19978, 23395, 24230], [20170, 24180], [21435, 24180]]
       [(GWeek, True), (GWeek, False), (GMonth, True), (GMonth, False), (GQuarter, True), (GQuarter, False),
        (GYear, True), (GYear, False)]) s"

definition resolve_period :: "date \<Rightarrow> granularity \<Rightarrow> bool \<Rightarrow> time_error + interval" where
  "resolve_period today g current =
     (case g of
        GWeek \<Rightarrow>
          bindR (add_days (ordinal today) (- weekday (ordinal today))) (\<lambda>c.
          bindR (if current then Inr c else add_days c (- 7)) (\<lambda>s.
          bindR (add_days s 7) (\<lambda>e. Inr (Interval GWeek s e))))
      | GMonth \<Rightarrow>
          (let (y, m) = (if current then (d_year today, d_month today) else month_after (d_year today) (d_month today) (- 1))
           in bindR (make_date (d_year today) (d_month today) 1) (\<lambda>_.
              bindR (make_date y m 1) (\<lambda>s.
              bindR (shift_month y m 1) (\<lambda>e. Inr (Interval GMonth s e)))))
      | GQuarter \<Rightarrow>
          (let q = quarter_start_month (d_month today);
               (y, m) = (if current then (d_year today, q) else month_after (d_year today) q (- 3))
           in bindR (make_date (d_year today) q 1) (\<lambda>_.
              bindR (make_date y m 1) (\<lambda>s.
              bindR (shift_month y m 3) (\<lambda>e. Inr (Interval GQuarter s e)))))
      | GYear \<Rightarrow>
          (let y = (if current then d_year today else d_year today - 1)
           in bindR (make_date y 1 1) (\<lambda>s.
              bindR (make_date (y + 1) 1 1) (\<lambda>e. Inr (Interval GYear s e))))
      | GDay \<Rightarrow> Inl PyDateError)"

definition resolve_quarter :: "int \<times> int \<Rightarrow> time_error + interval" where
  "resolve_quarter yq =
     (let (y, q) = yq; m = (q - 1) * 3 + 1
      in normalizable
           (bindR (make_date y m 1) (\<lambda>s. bindR (shift_month y m 3) (\<lambda>e. Inr (Interval GQuarter s e)))))"

text \<open>The number is read, and tomorrow is computed, outside the \<open>try\<close>.\<close>

definition resolve_recent_days :: "date \<Rightarrow> pystr \<Rightarrow> time_error + interval" where
  "resolve_recent_days today ds =
     bindR (py_int ds) (\<lambda>n.
     bindR (normalizable (add_days (ordinal today) (- (n - 1)))) (\<lambda>s.
     bindR (add_days (ordinal today) 1) (\<lambda>e. Inr (Interval GDay s e))))"

definition resolve_recent_months :: "date \<Rightarrow> pystr \<Rightarrow> time_error + interval" where
  "resolve_recent_months today ds =
     bindR (parse_positive_number ds) (\<lambda>n.
     case n of
       None \<Rightarrow> Inl (CannotNormalize ''DATE_NOT_NORMALIZABLE'')
     | Some n \<Rightarrow>
         normalizable
           (bindR (make_date (d_year today) (d_month today) 1) (\<lambda>_.
            bindR (shift_month (d_year today) (d_month today) (- (n - 1))) (\<lambda>s.
            bindR (shift_month (d_year today) (d_month today) 1) (\<lambda>e. Inr (Interval GMonth s e))))))"

definition resolve_range :: "pystr \<times> pystr \<Rightarrow> time_error + interval" where
  "resolve_range ab =
     bindR (parse_absolute_day (fst ab)) (\<lambda>s.
     bindR (parse_absolute_day (snd ab)) (\<lambda>last_day.
     bindR (add_days last_day 1) (\<lambda>e.
     if last_day < s then Inl (CannotNormalize ''DATE_RANGE_REVERSED'') else Inr (Interval GDay s e))))"

definition resolve_day :: "int \<times> int \<times> int \<Rightarrow> time_error + interval" where
  "resolve_day ymd =
     (case ymd of (y, m, d) \<Rightarrow>
        bindR (normalizable (make_date y m d)) (\<lambda>s. bindR (add_days s 1) (\<lambda>e. Inr (Interval GDay s e))))"

definition resolve_month :: "int \<times> int \<Rightarrow> time_error + interval" where
  "resolve_month ym =
     (case ym of (y, m) \<Rightarrow>
        normalizable (bindR (make_date y m 1) (\<lambda>s. bindR (shift_month y m 1) (\<lambda>e. Inr (Interval GMonth s e)))))"

text \<open>The end of the year is computed outside the \<open>try\<close>.\<close>

definition resolve_year :: "int \<Rightarrow> time_error + interval" where
  "resolve_year y =
     bindR (normalizable (make_date y 1 1)) (\<lambda>s. bindR (make_date (y + 1) 1 1) (\<lambda>e. Inr (Interval GYear s e)))"

definition resolve_dates :: "pystr \<Rightarrow> date \<Rightarrow> time_error + interval" where
  "resolve_dates s today =
     (case relative_day s of
        Some off \<Rightarrow>
          bindR (add_days (ordinal today) off) (\<lambda>a. bindR (add_days a 1) (\<lambda>e. Inr (Interval GDay a e)))
      | None \<Rightarrow>
     (case relative_period s of
        Some (g, current) \<Rightarrow> resolve_period today g current
      | None \<Rightarrow>
     (case year_quarter_match s of
        Some yq \<Rightarrow> resolve_quarter yq
      | None \<Rightarrow>
     (case recent_days_match s of
        Some ds \<Rightarrow> resolve_recent_days today ds
      | None \<Rightarrow>
     (case recent_months_match s of
        Some ds \<Rightarrow> resolve_recent_months today ds
      | None \<Rightarrow>
     (case date_range_match s of
        Some ab \<Rightarrow> resolve_range ab
      | None \<Rightarrow>
     (case date_match s of
        Some ymd \<Rightarrow> resolve_day ymd
      | None \<Rightarrow>
     (case year_month_match s of
        Some ym \<Rightarrow> resolve_month ym
      | None \<Rightarrow>
     (case year_match s of
        Some y \<Rightarrow> resolve_year y
      | None \<Rightarrow> Inl (CannotNormalize ''DATE_NOT_NORMALIZABLE''))))))))))"

end
