(* ===== verification/Time_Properties.thy ===== *)
theory Time_Properties
  imports Time_Resolution
begin

text \<open>
  The intervals that time expressions resolve to: they are never empty, are aligned with the calendar
  according to their granularity, and the current and the previous period of a granularity meet at the
  start of the period that contains today. Months are counted from year 0, so that shifting a month is
  adding to its number.
\<close>

section \<open>The calendar\<close>

lemma div_pred: "(0::int) < k \<Longrightarrow> y div k = (y - 1) div k + (if y mod k = 0 then 1 else 0)"
proof -
  assume k: "0 < k"
  have y: "y = k * (y div k) + y mod k" "0 \<le> y mod k" "y mod k < k" using k by simp_all
  show ?thesis
  proof (cases "y mod k = 0")
    case True
    have "(y - 1) div k = y div k - 1" using k y True
      by (intro int_div_pos_eq [where r = "k - 1"]) (auto simp: algebra_simps)
    then show ?thesis using True by simp
  next
    case False
    have "(y - 1) div k = y div k" using k y False
      by (intro int_div_pos_eq [where r = "y mod k - 1"]) auto
    then show ?thesis using False by simp
  qed
qed

lemma leap_year_alt: "leap_year y \<longleftrightarrow> (y mod 4 = 0) \<and> (y mod 100 = 0 \<longrightarrow> y mod 400 = 0)"
  by (auto simp: leap_year_def)

lemma leap_day_count:
  assumes "r \<longrightarrow> q" and "q \<longrightarrow> p"
  shows "y * 365 + (a + (if p then 1 else 0)) - (b + (if q then 1 else 0)) + (c + (if r then 1 else 0))
    = (y - 1) * 365 + a - b + c + (if p \<and> (\<not> q \<or> r) then 366 else 365 :: int)"
  using assms by (cases p; cases q; cases r) simp_all

lemma days_before_year_Suc:
  "days_before_year (y + 1) = days_before_year y + (if leap_year y then 366 else 365)"
proof -
  have "400 dvd y \<Longrightarrow> 100 dvd y" by (rule dvd_trans [of 100 400 y]) simp_all
  moreover have "100 dvd y \<Longrightarrow> 4 dvd y" by (rule dvd_trans [of 4 100 y]) simp_all
  ultimately have d: "(y mod 400 = 0 \<longrightarrow> y mod 100 = 0) \<and> (y mod 100 = 0 \<longrightarrow> y mod 4 = 0)"
    unfolding dvd_eq_mod_eq_0 by blast
  define a b c where "a = (y - 1) div 4" and "b = (y - 1) div 100" and "c = (y - 1) div 400"
  have "y div 4 = a + (if y mod 4 = 0 then 1 else 0)" "y div 100 = b + (if y mod 100 = 0 then 1 else 0)"
    "y div 400 = c + (if y mod 400 = 0 then 1 else 0)"
    unfolding a_def b_def c_def by (rule div_pred, simp)+
  moreover have "days_before_year (y + 1) = y * 365 + y div 4 - y div 100 + y div 400"
    and "days_before_year y = (y - 1) * 365 + a - b + c"
    by (simp_all add: days_before_year_def a_def b_def c_def)
  ultimately show ?thesis
    unfolding leap_year_def using leap_day_count [of "y mod 400 = 0" "y mod 100 = 0" "y mod 4 = 0" y a b c] d by metis
qed

lemma month_cases:
  assumes "1 \<le> (m::int)" "m \<le> 12"
  obtains "m = 1" | "m = 2" | "m = 3" | "m = 4" | "m = 5" | "m = 6" | "m = 7" | "m = 8" | "m = 9" | "m = 10"
    | "m = 11" | "m = 12"
proof -
  have "m = 1 \<or> m = 2 \<or> m = 3 \<or> m = 4 \<or> m = 5 \<or> m = 6 \<or> m = 7 \<or> m = 8 \<or> m = 9 \<or> m = 10 \<or> m = 11 \<or> m = 12"
    using assms by arith
  with that show thesis by blast
qed

lemma days_before_month_Suc:
  "1 \<le> m \<Longrightarrow> m < 12 \<Longrightarrow> days_before_month y (m + 1) = days_before_month y m + days_in_month y m"
  by (rule month_cases [of m]) (auto simp: days_before_month_def days_in_month_def numeral_eq_Suc)

lemma december: "days_before_month y 12 + 31 = (if leap_year y then 366 else 365)"
  by (simp add: days_before_month_def numeral_eq_Suc)

lemma days_in_month_ge: "28 \<le> days_in_month y m"
  by (simp add: days_in_month_def)

definition month_no :: "int \<Rightarrow> int \<Rightarrow> int" where
  "month_no y m = y * 12 + m - 1"

definition first_of :: "int \<Rightarrow> int" where
  "first_of a = ordinal_of (a div 12) (a mod 12 + 1) 1"

definition month_days :: "int \<Rightarrow> int" where
  "month_days a = days_in_month (a div 12) (a mod 12 + 1)"

lemma div_mod_12: "a = 12 * q + r \<Longrightarrow> 0 \<le> r \<Longrightarrow> r < 12 \<Longrightarrow> a div 12 = (q::int) \<and> a mod 12 = r"
  by (simp add: int_div_pos_eq int_mod_pos_eq)

lemma month_no_div: "1 \<le> m \<Longrightarrow> m \<le> 12 \<Longrightarrow> month_no y m div 12 = y"
  and month_no_mod: "1 \<le> m \<Longrightarrow> m \<le> 12 \<Longrightarrow> month_no y m mod 12 = m - 1"
  using div_mod_12 [of "month_no y m" y "m - 1"] by (simp_all add: month_no_def)

lemma first_of_month_no: "1 \<le> m \<Longrightarrow> m \<le> 12 \<Longrightarrow> first_of (month_no y m) = ordinal_of y m 1"
  by (simp add: first_of_def month_no_div month_no_mod)

lemma first_of_Suc: "first_of (a + 1) = first_of a + month_days a"
proof (cases "a mod 12 = 11")
  case True
  have "a + 1 = 12 * (a div 12 + 1) + 0" using True mult_div_mod_eq [of 12 a] by simp
  from div_mod_12 [OF this] have "(a + 1) div 12 = a div 12 + 1" "(a + 1) mod 12 = 0" by simp_all
  then show ?thesis using True december [of "a div 12"]
    by (simp add: first_of_def month_days_def ordinal_of_def days_before_year_Suc days_in_month_def)
      (simp add: days_before_month_def)
next
  case False
  have r: "0 \<le> a mod 12" "a mod 12 < 11" using False pos_mod_bound [of 12 a] by simp_all
  have "a + 1 = 12 * (a div 12) + (a mod 12 + 1)" using mult_div_mod_eq [of 12 a] by simp
  from div_mod_12 [OF this] r have "(a + 1) div 12 = a div 12" "(a + 1) mod 12 = a mod 12 + 1" by simp_all
  then show ?thesis using r days_before_month_Suc [of "a mod 12 + 1" "a div 12"]
    by (simp add: first_of_def month_days_def ordinal_of_def)
qed

lemma first_of_less: "a < b \<Longrightarrow> first_of a < first_of b"
proof (induction b rule: int_gr_induct)
  case base
  show ?case using days_in_month_ge [of "a div 12" "a mod 12 + 1"] by (simp add: first_of_Suc month_days_def)
next
  case (step b)
  then show ?case using days_in_month_ge [of "b div 12" "b mod 12 + 1"] by (simp add: first_of_Suc month_days_def)
qed

lemma first_of_mono: "a \<le> b \<Longrightarrow> first_of a \<le> first_of b"
  using first_of_less [of a b] by (cases "a = b") auto

lemma first_of_bounds: "first_of 12 = 1" "first_of 120000 = max_ordinal + 1"
  by (simp_all add: first_of_def ordinal_of_def days_before_year_def days_before_month_def max_ordinal_def)

lemma valid_month: "valid_ymd y m d \<Longrightarrow> 1 \<le> m \<and> m \<le> 12 \<and> 12 \<le> month_no y m \<and> month_no y m < 120000"
  by (auto simp: valid_ymd_def month_no_def)

lemma ordinal_in_month:
  assumes "valid_ymd y m d"
  shows "first_of (month_no y m) \<le> ordinal_of y m d" and "ordinal_of y m d < first_of (month_no y m + 1)"
  using assms valid_month [OF assms]
  by (auto simp: first_of_Suc month_days_def month_no_div month_no_mod first_of_month_no ordinal_of_def valid_ymd_def)

lemma ordinal_range: "valid_ymd y m d \<Longrightarrow> 1 \<le> ordinal_of y m d \<and> ordinal_of y m d \<le> max_ordinal"
  using ordinal_in_month [of y m d] valid_month [of y m d] first_of_mono [of 12 "month_no y m"]
    first_of_mono [of "month_no y m + 1" 120000]
  by (auto simp: first_of_bounds)

lemma make_date_Inr: "make_date y m d = Inr x \<longleftrightarrow> valid_ymd y m d \<and> x = ordinal_of y m d"
  by (auto simp: make_date_def)

lemma make_date_first:
  "make_date y m 1 = Inr x \<Longrightarrow> x = first_of (month_no y m) \<and> 1 \<le> m \<and> m \<le> 12 \<and> 1 \<le> x \<and> x \<le> max_ordinal"
  using valid_month [of y m 1] ordinal_range [of y m 1] by (auto simp: make_date_Inr first_of_month_no)

lemma shift_month_first:
  "shift_month y m k = Inr x \<Longrightarrow> x = first_of (month_no y m + k) \<and> 1 \<le> x \<and> x \<le> max_ordinal"
proof -
  assume "shift_month y m k = Inr x"
  then have "make_date ((month_no y m + k) div 12) ((month_no y m + k) mod 12 + 1) 1 = Inr x"
    by (simp add: shift_month_def month_no_def Let_def algebra_simps)
  from make_date_first [OF this] show ?thesis
    by (simp add: month_no_def algebra_simps)
qed

lemma month_after_no: "month_after y m k = (y', m') \<Longrightarrow> month_no y' m' = month_no y m + k"
  by (auto simp: month_after_def month_no_def Let_def algebra_simps)

lemma add_days_Inr: "add_days a n = Inr x \<longleftrightarrow> \<bar>n\<bar> \<le> 999999999 \<and> x = a + n \<and> 1 \<le> x \<and> x \<le> max_ordinal"
  by (auto simp: add_days_def)

lemma normalizable_Inr [simp]: "normalizable r = Inr x \<longleftrightarrow> r = Inr x"
  by (cases r) (auto simp: normalizable_def split: time_error.splits)

section \<open>Aligned intervals\<close>

fun aligned :: "interval \<Rightarrow> bool" where
  "aligned (Interval g a e) \<longleftrightarrow>
     1 \<le> a \<and> a < e \<and> e \<le> max_ordinal \<and>
     (case g of
        GDay \<Rightarrow> True
      | GWeek \<Rightarrow> weekday a = 0 \<and> e = a + 7
      | GMonth \<Rightarrow> (\<exists>i j. a = first_of i \<and> e = first_of j)
      | GQuarter \<Rightarrow> (\<exists>i. i mod 3 = 0 \<and> a = first_of i \<and> e = first_of (i + 3))
      | GYear \<Rightarrow> (\<exists>i. i mod 12 = 0 \<and> a = first_of i \<and> e = first_of (i + 12)))"

lemma aligned_months:
  assumes "i < j" and "1 \<le> first_of i" and "first_of j \<le> max_ordinal"
  shows "aligned (Interval GMonth (first_of i) (first_of j))"
    and "i mod 3 = 0 \<Longrightarrow> j = i + 3 \<Longrightarrow> aligned (Interval GQuarter (first_of i) (first_of j))"
    and "i mod 12 = 0 \<Longrightarrow> j = i + 12 \<Longrightarrow> aligned (Interval GYear (first_of i) (first_of j))"
proof -
  have less: "first_of i < first_of j" using assms(1) by (rule first_of_less)
  show "aligned (Interval GMonth (first_of i) (first_of j))" using assms less by auto
  show "i mod 3 = 0 \<Longrightarrow> j = i + 3 \<Longrightarrow> aligned (Interval GQuarter (first_of i) (first_of j))"
    using assms less by (auto intro!: exI [of _ i])
  show "i mod 12 = 0 \<Longrightarrow> j = i + 12 \<Longrightarrow> aligned (Interval GYear (first_of i) (first_of j))"
    using assms less by (auto intro!: exI [of _ i])
qed

lemma quarter_start_month: "quarter_start_month m mod 3 = 1" "(month_no y (quarter_start_month m)) mod 3 = 0"
  unfolding quarter_start_month_def month_no_def by presburger+

lemma monday: "weekday (a - weekday a) = 0" "weekday (a - weekday a - 7) = 0"
  unfolding weekday_def by presburger+

lemma resolve_period_week:
  "resolve_period today GWeek cur = Inr i \<longleftrightarrow>
     (\<exists>c. c = ordinal today - weekday (ordinal today) \<and> add_days (ordinal today) (- weekday (ordinal today)) = Inr c
        \<and> (let s = (if cur then c else c - 7) in
             (cur \<or> add_days c (- 7) = Inr s) \<and> add_days s 7 = Inr (s + 7) \<and> i = Interval GWeek s (s + 7)))"
  by (auto simp: resolve_period_def bindR_iffs add_days_Inr Let_def split: if_splits)

definition previous :: "bool \<Rightarrow> int \<Rightarrow> int" where
  "previous current k = (if current then 0 else - k)"

lemma resolve_period_month:
  assumes "resolve_period today GMonth cur = Inr i"
  shows "i = Interval GMonth (first_of (month_no (d_year today) (d_month today) + previous cur 1))
      (first_of (month_no (d_year today) (d_month today) + previous cur 1 + 1)) \<and> aligned i"
proof -
  obtain y m where ym: "(if cur then (d_year today, d_month today) else month_after (d_year today) (d_month today) (- 1)) = (y, m)"
    by fastforce
  then have no: "month_no y m = month_no (d_year today) (d_month today) + previous cur 1"
    by (auto simp: previous_def dest: month_after_no split: if_splits)
  from assms ym obtain s e where "make_date y m 1 = Inr s" "shift_month y m 1 = Inr e" "i = Interval GMonth s e"
    by (auto simp: resolve_period_def bindR_iffs)
  with make_date_first [OF this(1)] shift_month_first [OF this(2)] aligned_months(1) [of "month_no y m" "month_no y m + 1"]
  show ?thesis by (simp add: no)
qed

lemma resolve_period_quarter:
  assumes "resolve_period today GQuarter cur = Inr i"
  shows "i = Interval GQuarter (first_of (month_no (d_year today) (quarter_start_month (d_month today)) + previous cur 3))
      (first_of (month_no (d_year today) (quarter_start_month (d_month today)) + previous cur 3 + 3)) \<and> aligned i"
proof -
  let ?q = "quarter_start_month (d_month today)"
  obtain y m where ym: "(if cur then (d_year today, ?q) else month_after (d_year today) ?q (- 3)) = (y, m)"
    by fastforce
  then have no: "month_no y m = month_no (d_year today) ?q + previous cur 3"
    by (auto simp: previous_def dest: month_after_no split: if_splits)
  from assms ym obtain s e where "make_date y m 1 = Inr s" "shift_month y m 3 = Inr e" "i = Interval GQuarter s e"
    by (auto simp: resolve_period_def bindR_iffs)
  moreover have "(month_no (d_year today) ?q + previous cur 3) mod 3 = 0"
    using quarter_start_month(2) [of "d_year today" "d_month today"]
    by (cases cur) (simp_all add: previous_def mod_diff_eq [symmetric, of _ 3 3])
  ultimately show ?thesis
    using make_date_first [of y m s] shift_month_first [of y m 3 e]
      aligned_months(2) [of "month_no y m" "month_no y m + 3"]
    by (simp add: no)
qed

lemma year_interval:
  assumes "make_date y 1 1 = Inr s" and "make_date (y + 1) 1 1 = Inr e"
  shows "s = first_of (12 * y)" and "e = first_of (12 * y + 12)" and "aligned (Interval GYear s e)"
proof -
  have no: "month_no y 1 = 12 * y" "month_no (y + 1) 1 = 12 * y + 12" by (simp_all add: month_no_def)
  from make_date_first [OF assms(1)] make_date_first [OF assms(2)]
  show "s = first_of (12 * y)" and "e = first_of (12 * y + 12)" by (simp_all add: no)
  moreover from calculation make_date_first [OF assms(1)] make_date_first [OF assms(2)]
  have "1 \<le> first_of (12 * y)" "first_of (12 * y + 12) \<le> max_ordinal" by simp_all
  ultimately show "aligned (Interval GYear s e)" using aligned_months(3) [of "12 * y" "12 * y + 12"] by simp
qed

section \<open>Every branch of the resolution\<close>

lemma resolve_period_aligned: "resolve_period today g cur = Inr i \<Longrightarrow> aligned i"
proof (cases g)
  case GWeek
  assume "resolve_period today g cur = Inr i"
  then show ?thesis using monday [of "ordinal today"]
    by (auto simp: GWeek resolve_period_week add_days_Inr Let_def split: if_splits)
next
  case GYear
  assume "resolve_period today g cur = Inr i"
  then show ?thesis using year_interval(3)
    by (auto simp: GYear resolve_period_def bindR_iffs Let_def simp del: aligned.simps)
next
  case GDay
  assume "resolve_period today g cur = Inr i"
  then show ?thesis by (simp add: GDay resolve_period_def)
qed (use resolve_period_month resolve_period_quarter in blast)+

lemma resolve_quarter_aligned: "resolve_quarter yq = Inr i \<Longrightarrow> aligned i"
proof -
  assume r: "resolve_quarter yq = Inr i"
  obtain y q where yq: "yq = (y, q)" by (cases yq)
  define m where "m = (q - 1) * 3 + 1"
  from r obtain s e where s: "make_date y m 1 = Inr s" and e: "shift_month y m 3 = Inr e" and i: "i = Interval GQuarter s e"
    by (auto simp: resolve_quarter_def yq bindR_iffs m_def Let_def)
  have "month_no y m = 3 * (4 * y + q - 1)" by (simp add: month_no_def m_def)
  then have "month_no y m mod 3 = 0" by simp
  then show ?thesis
    using make_date_first [OF s] shift_month_first [OF e] aligned_months(2) [of "month_no y m" "month_no y m + 3"]
    by (simp add: i)
qed

lemma digits_value_ge: "list_all is_digit ds \<Longrightarrow> 0 \<le> n \<Longrightarrow> n \<le> foldl (\<lambda>n c. 10 * n + (int c - 48)) n ds"
proof (induction ds arbitrary: n)
  case (Cons c ds)
  from Cons.prems have "0 \<le> int c - 48" by (simp add: is_digit_def)
  then have "n \<le> 10 * n + (int c - 48)" using Cons.prems by simp
  also have "\<dots> \<le> foldl (\<lambda>n c. 10 * n + (int c - 48)) (10 * n + (int c - 48)) ds"
    using Cons.prems \<open>0 \<le> int c - 48\<close> by (intro Cons.IH) auto
  finally show ?case by simp
qed simp

lemma positive_digits_value: "positive_digits ds \<Longrightarrow> 1 \<le> digits_value ds"
proof (cases ds)
  case (Cons c r)
  assume "positive_digits ds"
  then have "1 \<le> int c - 48" "list_all is_digit r" by (auto simp: positive_digits_def Cons is_digit_def)
  then show ?thesis using digits_value_ge [of r "int c - 48"] by (simp add: digits_value_def Cons)
qed (simp add: positive_digits_def)

lemma recent_days_positive: "recent_days_match s = Some ds \<Longrightarrow> positive_digits ds"
  by (auto simp: recent_days_match_def split: option.splits if_splits)

lemma resolve_recent_days_aligned:
  "resolve_recent_days today ds = Inr i \<Longrightarrow> positive_digits ds \<Longrightarrow>
     aligned i \<and> i = Interval GDay (ordinal today + 1 - digits_value ds) (ordinal today + 1)"
  using positive_digits_value [of ds]
  by (auto simp: resolve_recent_days_def bindR_iffs py_int_def add_days_Inr split: if_splits)

lemma cn_digit_pos: "cn_digit c = Some n \<Longrightarrow> 1 \<le> n"
  by (auto simp: cn_digit_def split: if_splits)

lemma parse_positive_number_pos: "parse_positive_number v = Inr (Some n) \<Longrightarrow> 1 \<le> n"
  by (auto simp: parse_positive_number_def bindR_iffs dest!: cn_digit_pos split: if_splits list.splits option.splits)

lemma resolve_recent_months_aligned:
  assumes "resolve_recent_months today ds = Inr i"
  shows "\<exists>n. parse_positive_number ds = Inr (Some n) \<and> 1 \<le> n \<and> aligned i
     \<and> i = Interval GMonth (first_of (month_no (d_year today) (d_month today) + 1 - n))
             (first_of (month_no (d_year today) (d_month today) + 1))"
proof -
  let ?m = "month_no (d_year today) (d_month today)"
  from assms obtain n s e where n: "parse_positive_number ds = Inr (Some n)"
    and s: "shift_month (d_year today) (d_month today) (- (n - 1)) = Inr s"
    and e: "shift_month (d_year today) (d_month today) 1 = Inr e" and i: "i = Interval GMonth s e"
    by (auto simp: resolve_recent_months_def bindR_iffs split: option.splits)
  have "1 \<le> n" using n by (rule parse_positive_number_pos)
  have "s = first_of (?m + 1 - n)" "1 \<le> s" using shift_month_first [OF s] by (simp_all add: algebra_simps)
  then show ?thesis using n i \<open>1 \<le> n\<close> shift_month_first [OF e] aligned_months(1) [of "?m + 1 - n" "?m + 1"] by simp
qed

lemma parse_absolute_day_range: "parse_absolute_day v = Inr a \<Longrightarrow> 1 \<le> a \<and> a \<le> max_ordinal"
  by (auto simp: parse_absolute_day_def make_date_Inr dest: ordinal_range split: option.splits)

lemma resolve_range_aligned: "resolve_range ab = Inr i \<Longrightarrow> aligned i"
  by (auto simp: resolve_range_def bindR_iffs add_days_Inr dest: parse_absolute_day_range split: if_splits)

lemma resolve_day_aligned: "resolve_day ymd = Inr i \<Longrightarrow> aligned i"
  by (auto simp: resolve_day_def bindR_iffs make_date_Inr add_days_Inr dest: ordinal_range split: prod.splits)

lemma resolve_month_aligned: "resolve_month ym = Inr i \<Longrightarrow> aligned i"
  using aligned_months(1) [of "month_no (fst ym) (snd ym)" "month_no (fst ym) (snd ym) + 1"]
  by (cases ym) (auto simp: resolve_month_def bindR_iffs simp del: aligned.simps dest!: make_date_first shift_month_first)

lemma resolve_year_aligned: "resolve_year y = Inr i \<Longrightarrow> aligned i"
  by (auto simp: resolve_year_def bindR_iffs simp del: aligned.simps intro: year_interval)

lemma relative_day_aligned:
  "bindR (add_days (ordinal today) off) (\<lambda>a. bindR (add_days a 1) (\<lambda>e. Inr (Interval GDay a e))) = Inr i \<Longrightarrow> aligned i"
  by (auto simp: bindR_iffs add_days_Inr)

lemma recent_days_aligned:
  "resolve_recent_days today ds = Inr i \<Longrightarrow> recent_days_match s = Some ds \<Longrightarrow> aligned i"
  using resolve_recent_days_aligned [OF _ recent_days_positive] by blast

lemma recent_months_aligned: "resolve_recent_months today ds = Inr i \<Longrightarrow> aligned i"
  using resolve_recent_months_aligned by blast

lemmas branches_aligned = relative_day_aligned resolve_period_aligned resolve_quarter_aligned recent_days_aligned
  recent_months_aligned resolve_range_aligned resolve_day_aligned resolve_month_aligned resolve_year_aligned

section \<open>Properties\<close>

text \<open>C19: An accepted time expression always denotes a non-empty interval of existing days; a week
starts on a Monday and has seven days, a month interval starts and ends with a month, a quarter covers
the three months of a calendar quarter and a year the twelve months of a calendar year.\<close>
theorem resolved_time_is_aligned:
  assumes "resolve_dates s today = Inr i"
  shows "aligned i"
  using assms unfolding resolve_dates_def by (auto split: option.splits prod.splits intro: branches_aligned)

definition week_of :: "int \<Rightarrow> int" where "week_of a = a - weekday a"

lemma weekday_bounds: "0 \<le> weekday a" "weekday a < 7"
  by (simp_all add: weekday_def)

lemma quarter_contains:
  assumes "valid_date d"
  shows "first_of (month_no (d_year d) (quarter_start_month (d_month d))) \<le> ordinal d"
    and "ordinal d < first_of (month_no (d_year d) (quarter_start_month (d_month d)) + 3)"
proof -
  let ?n = "month_no (d_year d) (d_month d)" and ?q = "month_no (d_year d) (quarter_start_month (d_month d))"
  have "?q \<le> ?n" "?n < ?q + 3" unfolding month_no_def quarter_start_month_def by presburger+
  then show "first_of ?q \<le> ordinal d" "ordinal d < first_of (?q + 3)"
    using ordinal_in_month [of "d_year d" "d_month d" "d_day d"] assms
      first_of_mono [of ?q ?n] first_of_mono [of "?n + 1" "?q + 3"]
    by (auto simp: valid_date_def ordinal_def)
qed

lemma year_contains:
  assumes "valid_date d"
  shows "first_of (12 * d_year d) \<le> ordinal d" and "ordinal d < first_of (12 * d_year d + 12)"
proof -
  let ?n = "month_no (d_year d) (d_month d)"
  have "12 * d_year d \<le> ?n" "?n + 1 \<le> 12 * d_year d + 12"
    using assms by (auto simp: month_no_def valid_date_def valid_ymd_def)
  then show "first_of (12 * d_year d) \<le> ordinal d" "ordinal d < first_of (12 * d_year d + 12)"
    using ordinal_in_month [of "d_year d" "d_month d" "d_day d"] assms
      first_of_mono [of "12 * d_year d" ?n] first_of_mono [of "?n + 1" "12 * d_year d + 12"]
    by (auto simp: valid_date_def ordinal_def)
qed

lemma resolve_year_period:
  "resolve_period today GYear cur = Inr (Interval h a e) \<Longrightarrow>
     h = GYear \<and> a = first_of (12 * d_year today + previous cur 12) \<and> e = first_of (12 * d_year today + previous cur 12 + 12)"
  using year_interval(1,2) [of "d_year today"] year_interval(1,2) [of "d_year today - 1"]
  by (auto simp: resolve_period_def bindR_iffs Let_def previous_def algebra_simps split: if_splits)

text \<open>The current week, month, quarter or year contains today, and the previous one is the period of
the same granularity that ends exactly where the current one starts.\<close>
theorem periods_meet_at_today:
  assumes "valid_date today"
    and "resolve_period today g True = Inr (Interval h a e)"
    and "resolve_period today g False = Inr (Interval h' a' e')"
  shows "h = g \<and> h' = g \<and> e' = a \<and> a \<le> ordinal today \<and> ordinal today < e"
proof (cases g)
  case GDay
  then show ?thesis using assms by (simp add: resolve_period_def)
next
  case GWeek
  then show ?thesis using assms(2,3) weekday_bounds [of "ordinal today"]
    by (auto simp: resolve_period_week Let_def)
next
  case GMonth
  then show ?thesis
    using resolve_period_month [of today True] resolve_period_month [of today False] assms
      ordinal_in_month [of "d_year today" "d_month today" "d_day today"]
    by (auto simp: previous_def valid_date_def ordinal_def)
next
  case GQuarter
  then show ?thesis
    using resolve_period_quarter [of today True] resolve_period_quarter [of today False] assms
      quarter_contains [OF assms(1)]
    by (auto simp: previous_def)
next
  case GYear
  then show ?thesis
    using resolve_year_period [of today True] resolve_year_period [of today False] assms year_contains [OF assms(1)]
    by (auto simp: previous_def)
qed

text \<open>The end of the last year and the day after the last day leave the handlers of the resolution.\<close>

lemma last_year_escapes: "resolve_dates [57, 57, 57, 57, 24180] today = Inl PyDateError"
  by (simp add: resolve_dates_def relative_day_def relative_period_def year_quarter_match_def four_digits_def
      is_digit_def digits_value_def opt_drop_def recent_days_match_def recent_months_match_def drop_prefix_def
      date_range_match_def range_separators_def date_match_def split_at_char_def year_month_match_def small_number_def
      strip_suffix_char_def year_match_def resolve_year_def normalizable_def make_date_def valid_ymd_def
      days_in_month_def upt_rec)

section \<open>Witnesses\<close>

definition a_friday :: date where "a_friday = \<lparr>d_year = 2025, d_month = 2, d_day = 28\<rparr>"

lemmas calendar_simps = a_friday_def ordinal_def ordinal_of_def days_before_year_def days_before_month_def leap_year_def
  weekday_def add_days_def max_ordinal_def make_date_def valid_ymd_def days_in_month_def shift_month_def month_after_def

lemma friday_week:
  "resolve_period a_friday GWeek True = Inr (Interval GWeek 739306 739313)"
  "resolve_period a_friday GWeek False = Inr (Interval GWeek 739299 739306)"
  by (simp_all add: resolve_period_def calendar_simps)

theorem resolved_time_is_aligned_witness: "aligned (Interval GWeek 739306 739313)"
proof (rule resolved_time_is_aligned [of "[26412, 21608]" a_friday])
  show "resolve_dates [26412, 21608] a_friday = Inr (Interval GWeek 739306 739313)"
    by (simp add: resolve_dates_def relative_day_def relative_period_def friday_week)
qed

theorem periods_meet_at_today_witness: "(739306::int) \<le> ordinal a_friday \<and> ordinal a_friday < 739313"
  using periods_meet_at_today [OF _ friday_week] by (simp add: valid_date_def calendar_simps)

end
