(* ===== verification/Run_Store.thy ===== *)
theory Run_Store
  imports History_Store Irreversible
begin

text \<open>
  \<open>PostgresAnalysisRunStore\<close> of \<open>business_analysis/run_store.py\<close>: who owns the ID of an analysis run,
  how long it may be resumed, and when its checkpoints are removed. The checkpoint tables of the graph
  library are lists of the thread IDs of their rows. \<open>moment\<close> is the caller's clock, \<open>dbnow\<close> the
  database's (\<open>DEFAULT CURRENT_TIMESTAMP\<close> of \<open>updated_at\<close>). Every method is one transaction. \<open>ROW_MISSING\<close>
  is the failure of \<open>one()\<close> on the row just inserted or found, which never happens.
\<close>

datatype run_conflict = OWNER_MISMATCH | QUESTION_MISMATCH | RUN_EXPIRED | STATE_CONFLICT | ROW_MISSING

datatype claim_status = RunNew | RunFound run_status

record run_store =
  rs_runs :: "(uid, run_row) table"
  rs_checkpoints :: "uid list"
  rs_blobs :: "uid list"
  rs_writes :: "uid list"

definition run_ttl :: int where "run_ttl = 24 * 3600 * 1000000"

definition new_run :: "pystr \<Rightarrow> pystr \<Rightarrow> time \<Rightarrow> time \<Rightarrow> run_row" where
  "new_run owner qhash dbnow moment =
     \<lparr>run_owner = owner, run_question_hash = qhash, run_status_of = RunActive, run_updated_at = dbnow,
      run_expires_at = moment + run_ttl\<rparr>"

text \<open>\<open>INSERT ... ON CONFLICT DO NOTHING\<close>, with the row count.\<close>

definition insert_run :: "uid \<Rightarrow> run_row \<Rightarrow> run_store \<Rightarrow> nat \<times> run_store" where
  "insert_run run row st =
     (case insert_row (\<lambda>_ _. False) run row (rs_runs st) of
        None \<Rightarrow> (0, st) | Some rows \<Rightarrow> (1, st\<lparr>rs_runs := rows\<rparr>))"

definition claim ::
  "(pystr \<Rightarrow> pystr) \<Rightarrow> time \<Rightarrow> time \<Rightarrow> uid \<Rightarrow> pystr \<Rightarrow> pystr \<Rightarrow> run_store
   \<Rightarrow> run_conflict + claim_status \<times> run_store" where
  "claim qsha dbnow moment run owner question st =
     (let qh = qsha (strip question);
          (n, st1) = insert_run run (new_run owner qh dbnow moment) st
      in case map_of (rs_runs st1) run of
           None \<Rightarrow> Inl ROW_MISSING
         | Some row \<Rightarrow>
             if run_owner row \<noteq> owner then Inl OWNER_MISMATCH
             else if run_question_hash row \<noteq> qh then Inl QUESTION_MISMATCH
             else if run_status_of row = RunExpired \<or> run_expires_at row \<le> moment then Inl RUN_EXPIRED
             else Inr (if n = 1 then RunNew else RunFound (run_status_of row), st1))"

definition completable :: "uid \<Rightarrow> uid \<Rightarrow> run_row \<Rightarrow> bool" where
  "completable run k r \<longleftrightarrow> k = run \<and> run_status_of r = RunActive"

definition mark_completed :: "time \<Rightarrow> uid \<Rightarrow> run_store \<Rightarrow> run_conflict + run_store" where
  "mark_completed now run st =
     (if count_where (completable run) (rs_runs st) \<noteq> 1 then Inl STATE_CONFLICT
      else Inr (st\<lparr>rs_runs := upd_where (completable run)
             (\<lambda>r. r\<lparr>run_status_of := RunCompleted, run_updated_at := now\<rparr>) (rs_runs st)\<rparr>))"

definition has_checkpoint :: "run_store \<Rightarrow> uid \<Rightarrow> bool" where
  "has_checkpoint st k \<longleftrightarrow> k \<in> set (rs_checkpoints st) \<or> k \<in> set (rs_blobs st) \<or> k \<in> set (rs_writes st)"

definition overdue :: "time \<Rightarrow> run_store \<Rightarrow> uid \<Rightarrow> run_row \<Rightarrow> bool" where
  "overdue now st k r \<longleftrightarrow> run_expires_at r \<le> now \<and> (run_status_of r \<noteq> RunExpired \<or> has_checkpoint st k)"

definition cleanup_expired :: "time \<Rightarrow> run_store \<Rightarrow> nat \<times> run_store" where
  "cleanup_expired now st =
     (let ids = map fst (filter (\<lambda>(k, r). overdue now st k r) (rs_runs st));
          gone = (\<lambda>ks. filter (\<lambda>k. k \<notin> set ids) ks)
      in (length ids,
          st\<lparr>rs_runs := upd_where (overdue now st)
                          (\<lambda>r. r\<lparr>run_status_of := RunExpired, run_updated_at := now\<rparr>) (rs_runs st),
             rs_checkpoints := gone (rs_checkpoints st), rs_blobs := gone (rs_blobs st),
             rs_writes := gone (rs_writes st)\<rparr>))"

text \<open>What the history store does to the table of runs (\<open>_expire_cancelled_analysis_run\<close> and the first
  statement of \<open>delete_history\<close>): it expires the row, or inserts an expired one. A deletion also moves the
  end of the row's life to the present.\<close>

definition cancel_run :: "time \<Rightarrow> time \<Rightarrow> uid \<Rightarrow> pystr \<Rightarrow> pystr \<Rightarrow> run_store \<Rightarrow> run_store option" where
  "cancel_run now created run owner qhash st =
     (case map_of (rs_runs st) run of
        None \<Rightarrow> Some (st\<lparr>rs_runs := rs_runs st @
          [(run, \<lparr>run_owner = owner, run_question_hash = qhash, run_status_of = RunExpired, run_updated_at = now,
                  run_expires_at = created + run_ttl\<rparr>)]\<rparr>)
      | Some row \<Rightarrow>
          if run_owner row \<noteq> owner \<or> run_question_hash row \<noteq> qhash then None
          else Some (st\<lparr>rs_runs := upd_where (\<lambda>k _. k = run)
                 (\<lambda>r. r\<lparr>run_status_of := RunExpired, run_updated_at := now\<rparr>) (rs_runs st)\<rparr>))"

definition delete_run :: "time \<Rightarrow> uid \<Rightarrow> pystr \<Rightarrow> pystr \<Rightarrow> run_store \<Rightarrow> run_store" where
  "delete_run now run owner qhash st =
     (case map_of (rs_runs st) run of
        None \<Rightarrow> st\<lparr>rs_runs := rs_runs st @
          [(run, \<lparr>run_owner = owner, run_question_hash = qhash, run_status_of = RunExpired, run_updated_at = now,
                  run_expires_at = now\<rparr>)]\<rparr>
      | Some _ \<Rightarrow> st\<lparr>rs_runs := upd_where (\<lambda>k _. k = run)
          (\<lambda>r. r\<lparr>run_status_of := RunExpired, run_expires_at := now, run_updated_at := now\<rparr>) (rs_runs st)\<rparr>)"

text \<open>They are what the transactions of the history store do to this table.\<close>

lemma delete_history_runs:
  assumes "delete_history qsha locked now d own h revision subject = Inr (u, d')"
    and "owned d own h = Inr r"
  shows "rs_runs (case (hs_kind r, hs_run r) of
            (Analysis, Some run) \<Rightarrow> delete_run now run subject (qsha (hs_question r)) (st\<lparr>rs_runs := db_runs d\<rparr>)
          | _ \<Rightarrow> st\<lparr>rs_runs := db_runs d\<rparr>) = db_runs d'"
  using assms
  by (auto simp: delete_history_def owned_nowait_def bindR_iffs Let_def delete_run_def
      split: if_splits option.splits kind.splits)

lemma expire_cancelled_run_runs:
  assumes "expire_cancelled_run qsha now d r subject = Inr d'"
  shows "\<exists>run s st'. hs_run r = Some run \<and> subject = Some s
     \<and> cancel_run now (hs_created_at r) run s (qsha (strip (hs_question r))) (st\<lparr>rs_runs := db_runs d\<rparr>) = Some st'
     \<and> rs_runs st' = db_runs d'"
  using assms
  by (auto simp: expire_cancelled_run_def cancel_run_def run_ttl_def Let_def split: if_splits option.splits)

text \<open>The transactions on the table, the store's own and the history store's, and what the graph library
  does to its own tables.\<close>

inductive run_step :: "(pystr \<Rightarrow> pystr) \<Rightarrow> run_store \<Rightarrow> run_store \<Rightarrow> bool" for qsha where
  step_claim: "claim qsha dbnow moment run owner question st = Inr (s, st') \<Longrightarrow> run_step qsha st st'"
| step_complete: "mark_completed now run st = Inr st' \<Longrightarrow> run_step qsha st st'"
| step_cleanup: "run_step qsha st (snd (cleanup_expired now st))"
| step_cancel: "cancel_run now created run owner qhash st = Some st' \<Longrightarrow> run_step qsha st st'"
| step_delete: "run_step qsha st (delete_run now run owner qhash st)"
| step_graph: "run_step qsha st (st\<lparr>rs_checkpoints := cs, rs_blobs := bs, rs_writes := ws\<rparr>)"

section \<open>What the operations do to a row\<close>

definition row_evolves :: "run_row \<Rightarrow> run_row \<Rightarrow> bool" where
  "row_evolves r r' \<longleftrightarrow> run_owner r' = run_owner r \<and> run_question_hash r' = run_question_hash r
     \<and> (run_expires_at r' = run_expires_at r \<or> run_status_of r' = RunExpired) \<and> (run_status_of r = RunExpired \<longrightarrow> run_status_of r' = RunExpired)
     \<and> (run_status_of r = RunCompleted \<longrightarrow> run_status_of r' \<noteq> RunActive)"

lemma row_evolves_refl [simp]: "row_evolves r r"
  by (simp add: row_evolves_def)

lemma row_evolves_trans: "row_evolves r r' \<Longrightarrow> row_evolves r' r'' \<Longrightarrow> row_evolves r r''"
  by (cases "run_status_of r'") (auto simp: row_evolves_def)

lemma insert_run_row:
  "map_of (rs_runs st) run = Some r \<Longrightarrow> insert_run run row st = (0, st)"
  "map_of (rs_runs st) run = None \<Longrightarrow>
     \<exists>st1. insert_run run row st = (1, st1) \<and> map_of (rs_runs st1) = (map_of (rs_runs st))(run \<mapsto> row)"
proof -
  assume "map_of (rs_runs st) run = Some r"
  then have "list_ex (\<lambda>(k', r'). k' = run \<or> False) (rs_runs st)"
    by (force simp: list_ex_iff dest: map_of_SomeD)
  then show "insert_run run row st = (0, st)" by (simp add: insert_run_def insert_row_def)
next
  assume n: "map_of (rs_runs st) run = None"
  then have "\<not> list_ex (\<lambda>(k', r'). k' = run \<or> False) (rs_runs st)"
    by (force simp: list_ex_iff map_of_eq_None_iff)
  then have i: "insert_row (\<lambda>_ _. False) run row (rs_runs st) = Some (rs_runs st @ [(run, row)])"
    by (simp add: insert_row_def)
  show "\<exists>st1. insert_run run row st = (1, st1) \<and> map_of (rs_runs st1) = (map_of (rs_runs st))(run \<mapsto> row)"
    using insert_row_Some(2) [OF i] by (simp add: insert_run_def i)
qed

lemma claim_Inr:
  assumes "claim qsha dbnow moment run owner question st = Inr (s, st')"
  obtains (fresh) "map_of (rs_runs st) run = None" "s = RunNew"
      "map_of (rs_runs st') = (map_of (rs_runs st))(run \<mapsto> new_run owner (qsha (strip question)) dbnow moment)"
  | (known) r where "map_of (rs_runs st) run = Some r" "s = RunFound (run_status_of r)" "st' = st"
      "run_owner r = owner" "run_question_hash r = qsha (strip question)" "run_status_of r \<noteq> RunExpired"
      "moment < run_expires_at r"
proof (cases "map_of (rs_runs st) run")
  case None
  obtain st1 where i: "insert_run run (new_run owner (qsha (strip question)) dbnow moment) st = (1, st1)"
    and m: "map_of (rs_runs st1) = (map_of (rs_runs st))(run \<mapsto> new_run owner (qsha (strip question)) dbnow moment)"
    using insert_run_row(2) [OF None] by blast
  from assms have "s = RunNew \<and> st' = st1"
    using i m by (simp add: claim_def new_run_def run_ttl_def Let_def)
  with None m show ?thesis by (intro fresh) simp_all
next
  case (Some r)
  from assms show ?thesis
    by (intro known [OF Some]) (simp_all add: claim_def insert_run_row(1) [OF Some] Some split: if_splits)
qed

lemma map_of_append_left: "map_of t k = Some r \<Longrightarrow> map_of (t @ xs) k = Some r"
  by (simp add: map_add_def)

lemma run_step_row:
  assumes "run_step qsha st st'" and "map_of (rs_runs st) k = Some r"
  shows "\<exists>r'. map_of (rs_runs st') k = Some r' \<and> row_evolves r r'"
  using assms
proof (induction rule: run_step.induct)
  case (step_claim dbnow moment run owner question st s st')
  from step_claim(1) show ?case by (cases rule: claim_Inr) (use step_claim in auto)
next
  case (step_complete now run st st')
  then show ?case
    by (auto simp: mark_completed_def map_of_upd_where completable_def row_evolves_def split: if_splits)
next
  case (step_cleanup st now)
  then show ?case by (auto simp: cleanup_expired_def Let_def map_of_upd_where row_evolves_def)
next
  case (step_cancel now created run owner qhash st st')
  then show ?case
    by (auto simp: cancel_run_def map_of_upd_where row_evolves_def map_of_append_left split: option.splits if_splits)
next
  case (step_delete st now run owner qhash)
  then show ?case
    by (auto simp: delete_run_def map_of_upd_where row_evolves_def map_of_append_left split: option.splits)
next
  case (step_graph st cs bs ws)
  then show ?case by auto
qed

text \<open>A row bound to an owner and a question, and a row that has expired.\<close>

definition run_bound :: "uid \<times> pystr \<times> pystr \<Rightarrow> run_store \<Rightarrow> bool" where
  "run_bound k st \<longleftrightarrow> (case k of (run, owner, qh) \<Rightarrow>
     \<exists>r. map_of (rs_runs st) run = Some r \<and> run_owner r = owner \<and> run_question_hash r = qh)"

definition run_rebound :: "uid \<times> pystr \<times> pystr \<Rightarrow> run_store \<Rightarrow> bool" where
  "run_rebound k st \<longleftrightarrow> \<not> run_bound k st"

definition run_closed :: "uid \<Rightarrow> run_store \<Rightarrow> bool" where
  "run_closed run st \<longleftrightarrow> (\<exists>r. map_of (rs_runs st) run = Some r \<and> run_status_of r = RunExpired)"

definition run_reopened :: "uid \<Rightarrow> run_store \<Rightarrow> bool" where
  "run_reopened run st \<longleftrightarrow>
     (case map_of (rs_runs st) run of None \<Rightarrow> True | Some r \<Rightarrow> run_status_of r \<noteq> RunExpired)"

interpretation binding: irreversible "run_step qsha" run_bound run_rebound
  by unfold_locales
    (auto simp: run_bound_def run_rebound_def row_evolves_def dest!: run_step_row split: prod.splits)

interpretation closing: irreversible "run_step qsha" run_closed run_reopened
  by unfold_locales
    (auto simp: run_closed_def run_reopened_def row_evolves_def dest!: run_step_row)

lemma claim_binds:
  assumes "claim qsha dbnow moment run owner question st = Inr (s, st')"
  shows "run_bound (run, owner, qsha (strip question)) st'"
  using assms by (cases rule: claim_Inr) (auto simp: run_bound_def new_run_def)

lemma bound_claim:
  assumes "run_bound (run, owner, qh) st" and "claim qsha dbnow moment run owner' question st = Inr (s, st')"
  shows "owner' = owner \<and> qsha (strip question) = qh"
  using assms(2) by (cases rule: claim_Inr) (use assms(1) in \<open>auto simp: run_bound_def\<close>)

lemma closed_claim:
  "run_closed run st \<Longrightarrow> claim qsha dbnow moment run owner question st \<noteq> Inr (s, st')"
  using claim_Inr [of qsha dbnow moment run owner question st s st'] unfolding run_closed_def by fastforce

section \<open>Properties\<close>

text \<open>C39: An analysis run belongs to the owner and the question of its first claim for ever: whatever is
claimed, completed, cleaned up, cancelled or deleted with its history in between, a later claim of the
same run ID succeeds only for the same owner and the same question (its fingerprint), and never reports
the run as new.\<close>
theorem run_claims_are_exclusive:
  assumes "claim qsha dbnow moment run owner question st = Inr (s, st1)"
    and "(run_step qsha)\<^sup>*\<^sup>* st1 st2"
    and "claim qsha dbnow' moment' run owner' question' st2 = Inr (s', st3)"
  shows "owner' = owner \<and> qsha (strip question') = qsha (strip question) \<and> s' \<noteq> RunNew"
proof -
  have "run_bound (run, owner, qsha (strip question)) st2"
    by (rule binding.sealed_steps [OF assms(2) claim_binds [OF assms(1)]])
  then show ?thesis
    using bound_claim [OF _ assms(3)] claim_Inr [OF assms(3)] by (fastforce simp: run_bound_def)
qed

text \<open>Once a run has expired (by cleanup, by deleting its history or by cancelling it) no later claim
of its ID succeeds, so an expired analysis is never resumed.\<close>
theorem expired_run_is_never_resumed:
  assumes "run_closed run st" and "(run_step qsha)\<^sup>*\<^sup>* st st2"
  shows "claim qsha dbnow moment run owner question st2 \<noteq> Inr (s, st3)"
  by (rule closed_claim [OF closing.sealed_steps [OF assms(2,1)]])

text \<open>Cleanup removes the checkpoints of the runs whose time is over and no others.\<close>

lemma overdue_ids:
  assumes "keys_ok t"
  shows "k \<in> set (map fst (filter (\<lambda>(k, r). P k r) t)) \<longleftrightarrow> (\<exists>r. map_of t k = Some r \<and> P k r)"
  using map_of_keys_ok [OF assms] by (auto simp: image_iff)

lemma cleanup_is_exact:
  assumes "keys_ok (rs_runs st)"
  shows "has_checkpoint (snd (cleanup_expired now st)) k \<longleftrightarrow>
     has_checkpoint st k \<and> (\<forall>r. map_of (rs_runs st) k = Some r \<longrightarrow> now < run_expires_at r)"
proof -
  have "has_checkpoint (snd (cleanup_expired now st)) k \<longleftrightarrow>
      has_checkpoint st k \<and> k \<notin> set (map fst (filter (\<lambda>(k, r). overdue now st k r) (rs_runs st)))"
    by (simp add: cleanup_expired_def Let_def has_checkpoint_def conj_disj_distribR)
  also have "\<dots> \<longleftrightarrow> has_checkpoint st k \<and> \<not> (\<exists>r. map_of (rs_runs st) k = Some r \<and> overdue now st k r)"
    by (simp only: overdue_ids [OF assms])
  also have "\<dots> \<longleftrightarrow> has_checkpoint st k \<and> (\<forall>r. map_of (rs_runs st) k = Some r \<longrightarrow> now < run_expires_at r)"
    by (auto simp: overdue_def not_le [symmetric])
  finally show ?thesis .
qed

section \<open>An example run\<close>

definition sample_runs :: run_store where
  "sample_runs = \<lparr>rs_runs = [], rs_checkpoints = [lit ''r'', lit ''q''], rs_blobs = [], rs_writes = []\<rparr>"

definition sample_claimed :: run_store where
  "sample_claimed = sample_runs\<lparr>rs_runs := [(lit ''r'', new_run (lit ''u'') (strip (lit ''why'')) 5 7)]\<rparr>"

lemmas run_eval = claim_def insert_run_def insert_row_def new_run_def run_ttl_def sample_runs_def
  sample_claimed_def Let_def

lemma sample_claim: "claim (\<lambda>q. q) 5 7 (lit ''r'') (lit ''u'') (lit ''why'') sample_runs = Inr (RunNew, sample_claimed)"
  by (simp add: run_eval)

lemma sample_again:
  "claim (\<lambda>q. q) 5 9 (lit ''r'') (lit ''u'') (lit ''why'') sample_claimed = Inr (RunFound RunActive, sample_claimed)"
  by (simp add: run_eval)

theorem run_claims_are_exclusive_witness:
  "lit ''u'' = lit ''u'' \<and> strip (lit ''why'') = strip (lit ''why'') \<and> RunFound RunActive \<noteq> RunNew"
  by (rule run_claims_are_exclusive [OF sample_claim rtranclp.rtrancl_refl sample_again])

definition sample_expired :: run_store where
  "sample_expired = snd (cleanup_expired (8 + run_ttl) sample_claimed)"

lemma sample_expired_closed: "run_closed (lit ''r'') sample_expired"
  by (simp add: run_closed_def sample_expired_def cleanup_expired_def overdue_def upd_where_def run_eval)

theorem expired_run_is_never_resumed_witness:
  "claim (\<lambda>q. q) 5 9 (lit ''r'') (lit ''u'') (lit ''why'') sample_expired \<noteq> Inr (RunNew, sample_claimed)"
  by (rule expired_run_is_never_resumed [OF sample_expired_closed rtranclp.rtrancl_refl])

end
