(* ===== verification/Conversation.thy ===== *)
theory Conversation
  imports Table Irreversible
begin

text \<open>
  \<open>InMemoryConversationStore\<close> of \<open>query_api/conversation.py\<close>: conversations held in the process, at most
  one turn of each in progress. A text argument that is not a \<open>str\<close> is \<open>None\<close>; so is a clock reading
  without a time zone. A method body under the lock is one function. \<open>create\<close> draws identifiers until
  one is free: the draws are a list, and the result is \<open>None\<close> while all of them are taken.
\<close>

datatype conv_error =
  ConversationUnavailable | ConversationConflict | ConversationValueError | ConversationClockError

record 'q conversation =
  cv_id :: pystr
  cv_subject :: pystr
  cv_success :: int
  cv_state :: "'q option"

record 'q conv_entry =
  ce_record :: "'q conversation"
  ce_token :: "pystr option"

record 'q conv_lease =
  cl_record :: "'q conversation"
  cl_token :: pystr

record 'q conv_store =
  cs_ttl :: int
  cs_entries :: "(pystr, 'q conv_entry) table"

definition new_conv_store :: "int \<Rightarrow> conv_error + 'q conv_store" where
  "new_conv_store ttl =
     (if ttl \<le> 0 then Inl ConversationValueError else Inr \<lparr>cs_ttl = ttl, cs_entries = []\<rparr>)"

definition conv_required_text :: "pystr option \<Rightarrow> conv_error + pystr" where
  "conv_required_text v =
     (case v of
        None \<Rightarrow> Inl ConversationValueError
      | Some s \<Rightarrow> if strip s = [] then Inl ConversationValueError else Inr (strip s))"

definition conv_now :: "int option \<Rightarrow> conv_error + int" where
  "conv_now clock = (case clock of None \<Rightarrow> Inl ConversationClockError | Some t \<Rightarrow> Inr t)"

definition conv_expired :: "'q conversation \<Rightarrow> int \<Rightarrow> int \<Rightarrow> bool" where
  "conv_expired r now ttl \<longleftrightarrow> ttl \<le> now - cv_success r"

definition purge_expired :: "int \<Rightarrow> 'q conv_store \<Rightarrow> 'q conv_store" where
  "purge_expired now s =
     s\<lparr>cs_entries := del_where (\<lambda>_ e. conv_expired (ce_record e) now (cs_ttl s)) (cs_entries s)\<rparr>"

definition conv_put :: "pystr \<Rightarrow> 'q conv_entry \<Rightarrow> 'q conv_store \<Rightarrow> 'q conv_store" where
  "conv_put k e s = s\<lparr>cs_entries := upd_where (\<lambda>k' _. k' = k) (\<lambda>_. e) (cs_entries s)\<rparr>"

definition conv_create ::
  "pystr option \<Rightarrow> 'q option \<Rightarrow> int option \<Rightarrow> pystr list \<Rightarrow> 'q conv_store
   \<Rightarrow> ((conv_error + 'q conversation) \<times> 'q conv_store) option" where
  "conv_create subject state clock draws s =
     (case bindR (conv_required_text subject) (\<lambda>u. bindR (conv_now clock) (\<lambda>now. Inr (u, now))) of
        Inl e \<Rightarrow> Some (Inl e, s)
      | Inr (u, now) \<Rightarrow>
          (let s1 = purge_expired now s
           in case find (\<lambda>i. i \<notin> fst ` set (cs_entries s1)) draws of
                None \<Rightarrow> None
              | Some i \<Rightarrow>
                  (let r = \<lparr>cv_id = i, cv_subject = u, cv_success = now, cv_state = state\<rparr>
                   in Some (Inr r, s1\<lparr>cs_entries := cs_entries s1 @ [(i, \<lparr>ce_record = r, ce_token = None\<rparr>)]\<rparr>))))"

definition conv_lookup ::
  "pystr \<Rightarrow> pystr \<Rightarrow> int \<Rightarrow> pystr \<Rightarrow> 'q conv_store \<Rightarrow> (conv_error + 'q conv_lease) \<times> 'q conv_store" where
  "conv_lookup i u now token s =
     (case map_of (cs_entries s) i of
        None \<Rightarrow> (Inl ConversationUnavailable, s)
      | Some e \<Rightarrow>
          if cv_subject (ce_record e) \<noteq> u then (Inl ConversationUnavailable, s)
          else if conv_expired (ce_record e) now (cs_ttl s) then
            (Inl ConversationUnavailable, s\<lparr>cs_entries := del_where (\<lambda>k _. k = i) (cs_entries s)\<rparr>)
          else if ce_token e \<noteq> None then (Inl ConversationConflict, s)
          else (Inr \<lparr>cl_record = ce_record e, cl_token = token\<rparr>, conv_put i (e\<lparr>ce_token := Some token\<rparr>) s))"

definition conv_acquire ::
  "pystr option \<Rightarrow> pystr option \<Rightarrow> int option \<Rightarrow> pystr \<Rightarrow> 'q conv_store
   \<Rightarrow> (conv_error + 'q conv_lease) \<times> 'q conv_store" where
  "conv_acquire cid subject clock token s =
     (case cid of
        None \<Rightarrow> (Inl ConversationUnavailable, s)
      | Some i \<Rightarrow>
          if strip i = [] then (Inl ConversationUnavailable, s)
          else (case bindR (conv_required_text subject) (\<lambda>u. bindR (conv_now clock) (\<lambda>now. Inr (u, now))) of
                  Inl e \<Rightarrow> (Inl e, s)
                | Inr (u, now) \<Rightarrow> conv_lookup (strip i) u now token s))"

definition entry_for_lease :: "'q conv_lease \<Rightarrow> 'q conv_store \<Rightarrow> conv_error + 'q conv_entry" where
  "entry_for_lease l s =
     (case map_of (cs_entries s) (cv_id (cl_record l)) of
        None \<Rightarrow> Inl ConversationUnavailable
      | Some e \<Rightarrow>
          if ce_token e \<noteq> Some (cl_token l) then Inl ConversationUnavailable
          else if cv_subject (ce_record e) \<noteq> cv_subject (cl_record l) then Inl ConversationUnavailable
          else Inr e)"

definition conv_commit ::
  "'q conv_lease \<Rightarrow> 'q option \<Rightarrow> int option \<Rightarrow> 'q conv_store
   \<Rightarrow> (conv_error + 'q conversation) \<times> 'q conv_store" where
  "conv_commit l state clock s =
     (case bindR (conv_now clock) (\<lambda>now. bindR (entry_for_lease l s) (\<lambda>e. Inr (now, e))) of
        Inl e \<Rightarrow> (Inl e, s)
      | Inr (now, e) \<Rightarrow>
          (let r = (ce_record e)\<lparr>cv_success := now, cv_state := state\<rparr>
           in (Inr r, conv_put (cv_id (cl_record l)) \<lparr>ce_record = r, ce_token = None\<rparr> s)))"

definition conv_abort :: "'q conv_lease \<Rightarrow> 'q conv_store \<Rightarrow> 'q conv_store" where
  "conv_abort l s =
     (case map_of (cs_entries s) (cv_id (cl_record l)) of
        None \<Rightarrow> s
      | Some e \<Rightarrow>
          if ce_token e = Some (cl_token l) then conv_put (cv_id (cl_record l)) (e\<lparr>ce_token := None\<rparr>) s else s)"

section \<open>Runs\<close>

text \<open>The second component collects the tokens drawn so far: \<open>uuid4\<close> never repeats one. A step may use
  any lease, also one that was committed or aborted before.\<close>

inductive conv_step :: "'q conv_store \<times> pystr set \<Rightarrow> 'q conv_store \<times> pystr set \<Rightarrow> bool" where
  step_create: "conv_create subject state clock draws s = Some (r, s') \<Longrightarrow> conv_step (s, used) (s', used)"
| step_acquire: "token \<notin> used \<Longrightarrow> conv_acquire cid subject clock token s = (r, s') \<Longrightarrow>
     conv_step (s, used) (s', insert token used)"
| step_commit: "conv_commit l state clock s = (r, s') \<Longrightarrow> conv_step (s, used) (s', used)"
| step_abort: "conv_step (s, used) (conv_abort l s, used)"

definition conv_ok :: "'q conv_store \<Rightarrow> bool" where
  "conv_ok s \<longleftrightarrow> keys_ok (cs_entries s) \<and> (\<forall>(k, e) \<in> set (cs_entries s). cv_id (ce_record e) = k)"

abbreviation conv_at :: "'q conv_store \<Rightarrow> pystr \<Rightarrow> 'q conv_entry option" where
  "conv_at s \<equiv> map_of (cs_entries s)"

text \<open>How one operation treats one entry: it keeps it, drops it, makes a new one without a turn, gives a
  free entry to the drawn token, or ends the turn of the entry.\<close>

definition entry_step :: "pystr option \<Rightarrow> 'q conv_entry option \<Rightarrow> 'q conv_entry option \<Rightarrow> bool" where
  "entry_step drawn e e' \<longleftrightarrow> e' = e \<or> e' = None \<or> (\<exists>x. e' = Some x \<and> ce_token x = None)
     \<or> (\<exists>x y. e = Some x \<and> e' = Some y \<and> ce_token x = None \<and> drawn \<noteq> None
            \<and> y = x\<lparr>ce_token := drawn\<rparr>)"

lemma ids_ok: "conv_ok s \<longleftrightarrow> keys_ok (cs_entries s) \<and> (\<forall>k e. conv_at s k = Some e \<longrightarrow> cv_id (ce_record e) = k)"
  unfolding conv_ok_def using map_of_keys_ok [of "cs_entries s"] by fastforce

lemma entry_step_refl [simp]: "entry_step d e e"
  by (simp add: entry_step_def)

lemma conv_ok_put:
  "conv_ok s \<Longrightarrow> cv_id (ce_record e) = k \<Longrightarrow> conv_ok (conv_put k e s)"
  unfolding ids_ok conv_put_def by (auto simp: map_of_upd_key split: if_splits)

lemma conv_ok_del: "conv_ok s \<Longrightarrow> conv_ok (s\<lparr>cs_entries := del_where P (cs_entries s)\<rparr>)"
  unfolding ids_ok by (auto simp: keys_ok_del_where map_of_del_where split: option.splits if_splits)

lemma conv_at_put: "conv_at (conv_put k e s) = (conv_at s)(k := map_option (\<lambda>_. e) (conv_at s k))"
  by (simp add: conv_put_def map_of_upd_key)

lemma find_Some_mem: "find P xs = Some x \<Longrightarrow> P x"
  by (auto simp: find_Some_iff)

lemma conv_create_step:
  assumes "conv_create subject state clock draws s = Some (r, s')" and "conv_ok s"
  shows "conv_ok s' \<and> entry_step d (conv_at s k) (conv_at s' k)"
proof (cases r)
  case (Inl e)
  with assms(1) have "s' = s"
    by (auto simp: conv_create_def Let_def split: sum.splits option.splits prod.splits)
  with assms(2) show ?thesis by (simp add: entry_step_def)
next
  case (Inr c)
  with assms(1) obtain now i where
    i: "find (\<lambda>i. i \<notin> fst ` set (cs_entries (purge_expired now s))) draws = Some i"
    and s': "s' = (purge_expired now s)\<lparr>cs_entries := cs_entries (purge_expired now s) @ [(i, \<lparr>ce_record = c, ce_token = None\<rparr>)]\<rparr>"
    and c: "cv_id c = i"
    by (auto simp: conv_create_def Let_def split: sum.splits option.splits prod.splits)
  have ok: "conv_ok (purge_expired now s)"
    using conv_ok_del [OF assms(2)] by (simp add: purge_expired_def)
  have "i \<notin> fst ` set (cs_entries (purge_expired now s))" using find_Some_mem [OF i] by simp
  with ok c have "conv_ok s'" by (auto simp: s' conv_ok_def keys_ok_def)
  moreover have "conv_at (purge_expired now s) k = conv_at s k \<or> conv_at (purge_expired now s) k = None"
    using assms(2) by (auto simp: ids_ok purge_expired_def map_of_del_where split: option.splits)
  ultimately show ?thesis by (auto simp: s' entry_step_def map_add_def split: option.splits)
qed

lemma conv_lookup_step:
  assumes "conv_lookup i u now token s = (r, s')" and "conv_ok s"
  shows "conv_ok s' \<and> entry_step (Some token) (conv_at s k) (conv_at s' k)"
proof (cases "conv_at s i")
  case None
  with assms show ?thesis by (simp add: conv_lookup_def entry_step_def)
next
  case (Some e)
  have del: "entry_step (Some token) (conv_at s k) (conv_at (s\<lparr>cs_entries := del_where (\<lambda>k _. k = i) (cs_entries s)\<rparr>) k)"
    using assms(2) by (auto simp: ids_ok map_of_del_where entry_step_def split: option.splits)
  have put: "ce_token e = None \<Longrightarrow> entry_step (Some token) (conv_at s k) (conv_at (conv_put i (e\<lparr>ce_token := Some token\<rparr>) s) k)"
    by (auto simp: conv_at_put Some entry_step_def)
  have "conv_ok (conv_put i (e\<lparr>ce_token := Some token\<rparr>) s)"
    using assms(2) Some by (intro conv_ok_put) (auto simp: ids_ok)
  with assms Some del put show ?thesis
    by (auto simp: conv_lookup_def conv_ok_del split: if_splits)
qed

lemma conv_acquire_step:
  assumes "conv_acquire cid subject clock token s = (r, s')" and "conv_ok s"
  shows "conv_ok s' \<and> entry_step (Some token) (conv_at s k) (conv_at s' k)"
proof -
  consider "s' = s" | i u now where "conv_lookup i u now token s = (r, s')"
    using assms(1) by (auto simp: conv_acquire_def split: option.splits sum.splits prod.splits if_splits)
  then show ?thesis
  proof cases
    case 2
    show ?thesis using conv_lookup_step [OF 2 assms(2)] .
  qed (use assms(2) in simp)
qed

lemma entry_for_lease_Inr:
  "entry_for_lease l s = Inr e \<longleftrightarrow> conv_at s (cv_id (cl_record l)) = Some e
     \<and> ce_token e = Some (cl_token l) \<and> cv_subject (ce_record e) = cv_subject (cl_record l)"
  by (auto simp: entry_for_lease_def split: option.splits)

lemma conv_commit_Inr:
  "conv_commit l state clock s = (Inr c, s') \<longleftrightarrow> (\<exists>now e. clock = Some now \<and> entry_for_lease l s = Inr e
     \<and> c = (ce_record e)\<lparr>cv_success := now, cv_state := state\<rparr>
     \<and> s' = conv_put (cv_id (cl_record l)) \<lparr>ce_record = c, ce_token = None\<rparr> s)"
  by (auto simp: conv_commit_def conv_now_def Let_def bindR_iffs split: option.splits sum.splits)

lemma conv_commit_step:
  assumes "conv_commit l state clock s = (r, s')" and "conv_ok s"
  shows "conv_ok s' \<and> entry_step d (conv_at s k) (conv_at s' k)"
proof (cases r)
  case (Inl x)
  with assms(1) have "s' = s" by (auto simp: conv_commit_def Let_def split: sum.splits)
  with assms(2) show ?thesis by (simp add: entry_step_def)
next
  case (Inr c)
  with assms(1) obtain e where e: "conv_at s (cv_id (cl_record l)) = Some e"
    and s': "s' = conv_put (cv_id (cl_record l)) \<lparr>ce_record = c, ce_token = None\<rparr> s"
    and c: "cv_id c = cv_id (ce_record e)"
    by (auto simp: conv_commit_Inr entry_for_lease_Inr)
  have "conv_ok s'" unfolding s' using assms(2) e c by (intro conv_ok_put) (auto simp: ids_ok)
  with e show ?thesis by (auto simp: s' conv_at_put entry_step_def)
qed

lemma conv_abort_step:
  assumes "conv_ok s"
  shows "conv_ok (conv_abort l s) \<and> entry_step d (conv_at s k) (conv_at (conv_abort l s) k)"
proof (cases "conv_at s (cv_id (cl_record l))")
  case (Some e)
  have "conv_ok (conv_put (cv_id (cl_record l)) (e\<lparr>ce_token := None\<rparr>) s)"
    using assms Some by (intro conv_ok_put) (auto simp: ids_ok)
  with assms Some show ?thesis by (auto simp: conv_abort_def conv_at_put entry_step_def)
qed (use assms in \<open>simp add: conv_abort_def entry_step_def\<close>)

lemma conv_step_entry:
  assumes "conv_step a b" and "conv_ok (fst a)"
  shows "conv_ok (fst b) \<and> snd a \<subseteq> snd b
     \<and> (\<exists>d. (\<forall>t. d = Some t \<longrightarrow> t \<notin> snd a \<and> t \<in> snd b) \<and> (\<forall>k. entry_step d (conv_at (fst a) k) (conv_at (fst b) k)))"
  using assms
proof (induction rule: conv_step.induct)
  case (step_create subject state clock draws s r s' used)
  then show ?case using conv_create_step [of subject state clock draws s r s' None] by auto
next
  case (step_acquire token used cid subject clock s r s')
  then show ?case
    using conv_acquire_step [of cid subject clock token s r s']
    by (intro conjI exI [of _ "Some token"]) auto
next
  case (step_commit l state clock s r s' used)
  then show ?case using conv_commit_step [of l state clock s r s' None] by auto
next
  case (step_abort s used l)
  then show ?case using conv_abort_step [of s l None] by auto
qed

section \<open>Leases\<close>

text \<open>While a lease is pending its conversation still holds the record the lease was given; a spent lease
  is never honoured again.\<close>

definition lease_pending :: "'q conv_lease \<Rightarrow> 'q conv_store \<times> pystr set \<Rightarrow> bool" where
  "lease_pending l a \<longleftrightarrow> conv_ok (fst a) \<and> cl_token l \<in> snd a
     \<and> (\<forall>e. conv_at (fst a) (cv_id (cl_record l)) = Some e \<and> ce_token e = Some (cl_token l)
          \<longrightarrow> ce_record e = cl_record l)"

definition overwritten :: "'q conv_lease \<Rightarrow> 'q conv_store \<times> pystr set \<Rightarrow> bool" where
  "overwritten l a \<longleftrightarrow> (\<exists>e. entry_for_lease l (fst a) = Inr e \<and> ce_record e \<noteq> cl_record l)"

definition lease_spent :: "'q conv_lease \<Rightarrow> 'q conv_store \<times> pystr set \<Rightarrow> bool" where
  "lease_spent l a \<longleftrightarrow> conv_ok (fst a) \<and> cl_token l \<in> snd a
     \<and> (\<forall>e. conv_at (fst a) (cv_id (cl_record l)) = Some e \<longrightarrow> ce_token e \<noteq> Some (cl_token l))"

definition honoured :: "'q conv_lease \<Rightarrow> 'q conv_store \<times> pystr set \<Rightarrow> bool" where
  "honoured l a \<longleftrightarrow> (\<exists>e. entry_for_lease l (fst a) = Inr e)"

lemma entry_step_token:
  assumes "entry_step d e e'" and "e' = Some y" and "ce_token y = Some t" and "d \<noteq> Some t"
  shows "e = Some y"
  using assms by (auto simp: entry_step_def)

lemma conv_step_token:
  assumes "conv_step a b" and "conv_ok (fst a)" and "t \<in> snd a"
    and "conv_at (fst b) k = Some y" and "ce_token y = Some t"
  shows "conv_at (fst a) k = Some y"
  using conv_step_entry [OF assms(1,2)] assms(3,4,5) by (blast dest: entry_step_token)

interpretation pending: irreversible conv_step lease_pending overwritten
proof unfold_locales
  fix l :: "'q conv_lease" and a b assume "lease_pending l a" "conv_step a b"
  then show "lease_pending l b"
    unfolding lease_pending_def using conv_step_token [of a b] conv_step_entry [of a b] by blast
qed (auto simp: lease_pending_def overwritten_def entry_for_lease_Inr)

interpretation spent: irreversible conv_step lease_spent honoured
proof unfold_locales
  fix l :: "'q conv_lease" and a b assume "lease_spent l a" "conv_step a b"
  then show "lease_spent l b"
    unfolding lease_spent_def using conv_step_token [of a b] conv_step_entry [of a b] by blast
qed (auto simp: lease_spent_def honoured_def entry_for_lease_Inr)

lemma conv_steps_ok: "conv_step\<^sup>*\<^sup>* a b \<Longrightarrow> conv_ok (fst a) \<Longrightarrow> conv_ok (fst b)"
  by (induction rule: rtranclp_induct) (use conv_step_entry in blast)+

lemma new_store_ok: "new_conv_store ttl = Inr s \<Longrightarrow> conv_ok s"
  by (auto simp: new_conv_store_def conv_ok_def keys_ok_def split: if_splits)

text \<open>An acquisition succeeds for the owner only, before the conversation goes idle for too long, and
  with no other turn in progress.\<close>

lemma conv_lookup_Inr:
  "conv_lookup i u now token s = (Inr l, s') \<longleftrightarrow>
     (\<exists>e. conv_at s i = Some e \<and> cv_subject (ce_record e) = u \<and> now < cv_success (ce_record e) + cs_ttl s
        \<and> ce_token e = None \<and> l = \<lparr>cl_record = ce_record e, cl_token = token\<rparr>
        \<and> s' = conv_put i (e\<lparr>ce_token := Some token\<rparr>) s)"
  by (auto simp: conv_lookup_def conv_expired_def split: option.splits)

lemma conv_arguments:
  "bindR (conv_required_text subject) (\<lambda>u. bindR (conv_now clock) (\<lambda>now. Inr (u, now))) = Inr (v, t) \<longleftrightarrow>
     (\<exists>u. subject = Some u \<and> strip u \<noteq> [] \<and> v = strip u) \<and> clock = Some t"
  by (auto simp: conv_required_text_def conv_now_def bindR_iffs split: option.splits if_splits)

lemma conv_acquire_Inr:
  assumes "conv_acquire cid subject clock token s = (Inr l, s')"
  obtains i u now e where "cid = Some i" "subject = Some u" "clock = Some now"
    "conv_at s (strip i) = Some e" "ce_token e = None" "cv_subject (ce_record e) = strip u"
    "now < cv_success (ce_record e) + cs_ttl s"
    "l = \<lparr>cl_record = ce_record e, cl_token = token\<rparr>"
    "s' = conv_put (strip i) (e\<lparr>ce_token := Some token\<rparr>) s"
proof -
  let ?arg = "bindR (conv_required_text subject) (\<lambda>u. bindR (conv_now clock) (\<lambda>now. Inr (u, now)))"
  obtain i where i: "cid = Some i" using assms by (cases cid) (simp_all add: conv_acquire_def)
  have "(case ?arg of Inl e \<Rightarrow> (Inl e, s) | Inr (u, now) \<Rightarrow> conv_lookup (strip i) u now token s) = (Inr l, s')"
    using assms by (simp add: conv_acquire_def i split: if_splits)
  then obtain v t where v: "?arg = Inr (v, t)" and "conv_lookup (strip i) v t token s = (Inr l, s')"
    by (cases ?arg) (simp_all split: prod.splits)
  then obtain e where "conv_at s (strip i) = Some e" "cv_subject (ce_record e) = v"
    "t < cv_success (ce_record e) + cs_ttl s" "ce_token e = None"
    "l = \<lparr>cl_record = ce_record e, cl_token = token\<rparr>" "s' = conv_put (strip i) (e\<lparr>ce_token := Some token\<rparr>) s"
    unfolding conv_lookup_Inr by blast
  moreover from v obtain u where "subject = Some u" "v = strip u" "clock = Some t"
    unfolding conv_arguments by blast
  ultimately show ?thesis using i by (intro that) simp_all
qed

lemma acquired_pending:
  assumes "conv_acquire cid subject clock token s = (Inr l, s')" and "conv_ok s"
  shows "lease_pending l (s', insert token used)"
proof -
  have ok: "conv_ok s'" using conv_acquire_step [OF assms] by simp
  from assms(1) obtain i e where l: "l = \<lparr>cl_record = ce_record e, cl_token = token\<rparr>"
    and e: "conv_at s (strip i) = Some e" and s': "s' = conv_put (strip i) (e\<lparr>ce_token := Some token\<rparr>) s"
    by (rule conv_acquire_Inr)
  have "cv_id (ce_record e) = strip i" using assms(2) e by (simp add: ids_ok)
  with ok e show ?thesis by (simp add: lease_pending_def l s' conv_at_put)
qed

lemma committed_spent:
  assumes "conv_commit l state clock s = (Inr c, s')" and "conv_ok s" and "cl_token l \<in> used"
  shows "lease_spent l (s', used)"
  using assms conv_commit_step [OF assms(1,2), of None]
  by (auto simp: lease_spent_def conv_commit_Inr conv_at_put)

section \<open>Properties\<close>

text \<open>The turns of a conversation are serial: a turn is given only to the owner of a conversation that
is not idle and has no turn in progress; whatever other requests do in between, a commit that succeeds
writes over exactly the record the turn was started with, so no turn's result is lost or overwritten
unseen, and the same turn is never committed a second time.\<close>
theorem conversation_turns_are_serial:
  assumes "new_conv_store ttl = Inr s0" and "conv_step\<^sup>*\<^sup>* (s0, {}) (s, used)" and "token \<notin> used"
    and "conv_acquire cid subject clock token s = (Inr l, s1)"
    and "conv_step\<^sup>*\<^sup>* (s1, insert token used) (s2, used2)"
    and "conv_commit l state clock2 s2 = (Inr c, s3)"
  shows "conv_at s2 (cv_id c) = Some \<lparr>ce_record = cl_record l, ce_token = Some token\<rparr>
    \<and> conv_at s3 (cv_id c) = Some \<lparr>ce_record = c, ce_token = None\<rparr>
    \<and> subject \<noteq> None \<and> cv_subject c = strip (the subject)
    \<and> (\<forall>s4 used4. conv_step\<^sup>*\<^sup>* (s3, used2) (s4, used4) \<longrightarrow>
         (\<exists>e. conv_commit l state' clock4 s4 = (Inl e, s4)))"
proof -
  have ok: "conv_ok s" using conv_steps_ok [OF assms(2)] new_store_ok [OF assms(1)] by simp
  from assms(4) obtain i u now e where l: "l = \<lparr>cl_record = ce_record e, cl_token = token\<rparr>"
    and e: "conv_at s (strip i) = Some e" "cv_subject (ce_record e) = strip u" "subject = Some u"
    by (rule conv_acquire_Inr)
  have p: "lease_pending l (s2, used2)"
    by (rule pending.sealed_steps [OF assms(5) acquired_pending [OF assms(4) ok]])
  from assms(6) obtain now2 x where x: "entry_for_lease l s2 = Inr x"
    and c: "c = (ce_record x)\<lparr>cv_success := now2, cv_state := state\<rparr>"
    and s3: "s3 = conv_put (cv_id (cl_record l)) \<lparr>ce_record = c, ce_token = None\<rparr> s2"
    by (auto simp: conv_commit_Inr)
  have same: "ce_record x = cl_record l" and at: "conv_at s2 (cv_id (cl_record l)) = Some x"
    and t: "ce_token x = Some token" and ok2: "conv_ok s2"
    using p x by (auto simp: lease_pending_def entry_for_lease_Inr l)
  have x_eq: "x = \<lparr>ce_record = cl_record l, ce_token = Some token\<rparr>" using same t by (cases x) simp
  have id: "cv_id c = cv_id (cl_record l)" by (simp add: c same)
  have sp: "lease_spent l (s3, used2)"
    using committed_spent [OF assms(6) ok2] p by (simp add: lease_pending_def)
  have "\<exists>e. conv_commit l state' clock4 s4 = (Inl e, s4)" if "conv_step\<^sup>*\<^sup>* (s3, used2) (s4, used4)" for s4 used4
    using spent.never_breached [OF sp that]
    by (auto simp: honoured_def conv_commit_def Let_def bindR_def split: sum.splits)
  then show ?thesis using at e by (simp add: x_eq id s3 conv_at_put c l same)
qed

section \<open>An example\<close>

definition sample_conv :: "nat conversation" where
  "sample_conv = \<lparr>cv_id = lit ''c'', cv_subject = lit ''ann'', cv_success = 0, cv_state = Some 1\<rparr>"

definition sample_convs :: "pystr option \<Rightarrow> nat conversation \<Rightarrow> nat conv_store" where
  "sample_convs t r = \<lparr>cs_ttl = 100, cs_entries = [(lit ''c'', \<lparr>ce_record = r, ce_token = t\<rparr>)]\<rparr>"

definition sample_lease :: "nat conv_lease" where
  "sample_lease = \<lparr>cl_record = sample_conv, cl_token = lit ''t''\<rparr>"

lemmas conv_eval = sample_conv_def sample_convs_def sample_lease_def conv_required_text_def conv_now_def
  lit_def strip_def py_isspace_def Let_def

lemma sample_create:
  "conv_create (Some (lit ''ann '')) (Some 1) (Some 0) [lit ''c''] \<lparr>cs_ttl = 100, cs_entries = []\<rparr>
   = Some (Inr sample_conv, sample_convs None sample_conv)"
  by (simp add: conv_create_def purge_expired_def del_where_def conv_eval)

lemma sample_acquire:
  "conv_acquire (Some (lit ''c'')) (Some (lit ''ann'')) (Some 5) (lit ''t'') (sample_convs None sample_conv)
   = (Inr sample_lease, sample_convs (Some (lit ''t'')) sample_conv)"
  by (simp add: conv_acquire_def conv_lookup_def conv_expired_def conv_put_def upd_where_def conv_eval)

lemma sample_commit:
  "conv_commit sample_lease (Some 2) (Some 7) (sample_convs (Some (lit ''t'')) sample_conv)
   = (Inr (sample_conv\<lparr>cv_success := 7, cv_state := Some 2\<rparr>),
      sample_convs None (sample_conv\<lparr>cv_success := 7, cv_state := Some 2\<rparr>))"
  by (simp add: conv_commit_def entry_for_lease_def conv_put_def upd_where_def conv_eval)

lemma conversation_turns_are_serial_witness:
  "conv_at (sample_convs (Some (lit ''t'')) sample_conv) (lit ''c'')
     = Some \<lparr>ce_record = sample_conv, ce_token = Some (lit ''t'')\<rparr>"
proof -
  have new: "new_conv_store 100 = Inr \<lparr>cs_ttl = 100, cs_entries = ([] :: (pystr, nat conv_entry) table)\<rparr>"
    by (simp add: new_conv_store_def)
  have run: "conv_step\<^sup>*\<^sup>* (\<lparr>cs_ttl = 100, cs_entries = []\<rparr>, {}) (sample_convs None sample_conv, {})"
    by (rule r_into_rtranclp) (rule step_create [OF sample_create])
  show ?thesis
    using conversation_turns_are_serial [OF new run _ sample_acquire rtranclp.rtrancl_refl sample_commit]
    by (simp add: sample_conv_def sample_lease_def)
qed

end
