(* ===== verification/Actions.thy ===== *)
theory Actions
  imports Prelude
begin

text \<open>
  Actions: functions of a state that return a result or an exception, and the state they leave.
\<close>

definition okA :: "'a \<Rightarrow> 'w \<Rightarrow> ('e + 'a) \<times> 'w" where
  "okA x w = (Inr x, w)"

definition failA :: "'e \<Rightarrow> 'w \<Rightarrow> ('e + 'a) \<times> 'w" where
  "failA e w = (Inl e, w)"

definition thenA :: "('w \<Rightarrow> ('e + 'a) \<times> 'w) \<Rightarrow> ('a \<Rightarrow> 'w \<Rightarrow> ('e + 'b) \<times> 'w) \<Rightarrow> 'w \<Rightarrow> ('e + 'b) \<times> 'w" where
  "thenA m f w = (case m w of (Inl e, w1) \<Rightarrow> (Inl e, w1) | (Inr x, w1) \<Rightarrow> f x w1)"

definition replyA :: "'e + 'a \<Rightarrow> 'w \<Rightarrow> ('e + 'a) \<times> 'w" where
  "replyA r w = (r, w)"

text \<open>A transaction's commit is acknowledged, refused, or done with its reply lost.\<close>

datatype link = Acknowledged | Refused | LostReply

text \<open>\<open>try\<close> with one handler for everything but the exceptions \<open>passes\<close> selects.\<close>

definition rescueA :: "('e \<Rightarrow> bool) \<Rightarrow> ('w \<Rightarrow> ('e + 'a) \<times> 'w) \<Rightarrow> ('e \<Rightarrow> 'w \<Rightarrow> ('e + 'a) \<times> 'w) \<Rightarrow> 'w \<Rightarrow> ('e + 'a) \<times> 'w" where
  "rescueA passes m h w =
     (case m w of (Inl e, w1) \<Rightarrow> if passes e then (Inl e, w1) else h e w1 | (Inr x, w1) \<Rightarrow> (Inr x, w1))"

lemma thenA_okA: "thenA (okA x) f = f x" "thenA (failA e) f = failA e"
  by (simp_all add: thenA_def okA_def failA_def fun_eq_iff)

lemma thenA_iff: "thenA m f w = (Inr y, w') \<longleftrightarrow> (\<exists>x w1. m w = (Inr x, w1) \<and> f x w1 = (Inr y, w'))"
  by (auto simp: thenA_def split: prod.split sum.split)

end
