(* ===== verification/Attempt.thy ===== *)
theory Attempt
  imports Actions History_Store Stop_Control
begin

text \<open>
  One accepted attempt from its first checkpoint to the transaction that stores its outcome:
  \<open>_execute_attempt\<close> and \<open>_complete_attempt\<close> of \<open>HistoryApplication\<close> (\<open>query_api/history.py\<close>). The state
  of an attempt (\<open>world\<close>) is the control database and the progress channel of the execution. The calls
  into query and analysis services, the identity provider and the codec are the fields of \<open>attempt_env\<close>;
  each returns or raises. \<open>at_others\<close> is what other requests and threads do to the world before the step
  named, \<open>at_stop\<close> the outcome of a checkpoint, \<open>at_link\<close> that of a transaction's commit. Without a stop
  control \<open>at_stop\<close> is \<open>None\<close> everywhere, without an observer \<open>at_observed\<close> is false. The texts of messages
  are a parameter.
\<close>

datatype attempt_exc =
  XStopped stop_reason | XHistory string pystr | XRevision string pystr | XOther

datatype 'r delivered = DFailure public_error | DAnalysis 'r | DQuery 'r

type_synonym world = "db \<times> channel"
type_synonym 'a act = "world \<Rightarrow> (attempt_exc + 'a) \<times> world"
type_synonym 'a reply = "attempt_exc + 'a"

record ('s, 'r) attempt_env =
  at_others :: "string \<Rightarrow> world \<Rightarrow> world"
  at_now :: "string \<Rightarrow> time"
  at_link :: "string \<Rightarrow> link"
  at_stop :: "string \<Rightarrow> stop_reason option"
  at_observed :: bool
  at_text :: "string \<Rightarrow> pystr"
  at_guard_busy :: bool
  at_public :: "unit reply"
  at_restore :: "json \<Rightarrow> 's reply"
  at_revise :: "'s \<Rightarrow> pystr \<Rightarrow> 's reply"
  at_analyze :: "(pystr \<Rightarrow> 'r delivered reply) option"
  at_query :: "pystr \<Rightarrow> 's option \<Rightarrow> 'r delivered reply"
  at_reauth :: "int reply"
  at_authorize :: "unit reply"
  at_check :: "unit reply"
  at_encode :: "'r \<Rightarrow> snapshot reply"

section \<open>Steps\<close>

definition error_named :: "('s, 'r) attempt_env \<Rightarrow> string \<Rightarrow> attempt_exc" where
  "error_named env code = XHistory code (at_text env code)"

definition checkA :: "('s, 'r) attempt_env \<Rightarrow> string \<Rightarrow> unit act" where
  "checkA env place w =
     (case at_stop env place of
        Some r \<Rightarrow> (Inl (XStopped r), at_others env place w) | None \<Rightarrow> (Inr (), at_others env place w))"

definition stageA :: "('s, 'r) attempt_env \<Rightarrow> string \<Rightarrow> unit act" where
  "stageA env stage w =
     (if \<not> at_observed env then (Inr (), w)
      else case set_stage stage (snd w) of
        (Inl _, ch) \<Rightarrow> (Inl XOther, (fst w, ch)) | (Inr _, ch) \<Rightarrow> (Inr (), (fst w, ch)))"

text \<open>\<open>_database_errors\<close>: a lost reply looks like a refused transaction.\<close>

definition store_call :: "link \<Rightarrow> (db \<Rightarrow> 'a tx) \<Rightarrow> db \<Rightarrow> (store_error + 'a) \<times> db" where
  "store_call l f d =
     (case l of
        Refused \<Rightarrow> (Inl storage_unavailable, d)
      | Acknowledged \<Rightarrow> (case f d of Inl e \<Rightarrow> (Inl e, d) | Inr (x, d') \<Rightarrow> (Inr x, d'))
      | LostReply \<Rightarrow> (Inl storage_unavailable, case f d of Inl _ \<Rightarrow> d | Inr (_, d') \<Rightarrow> d'))"

definition store_exc :: "('s, 'r) attempt_env \<Rightarrow> store_error \<Rightarrow> attempt_exc" where
  "store_exc env e =
     (case e of
        HistoryError code \<Rightarrow> error_named env code
      | ExecutionStopped r \<Rightarrow> XStopped r
      | StopReasonValueError \<Rightarrow> XOther)"

definition storeA :: "('s, 'r) attempt_env \<Rightarrow> string \<Rightarrow> (time \<Rightarrow> db \<Rightarrow> 'a tx) \<Rightarrow> 'a act" where
  "storeA env place f w =
     (case at_others env place w of
        (d, ch) \<Rightarrow>
          (case store_call (at_link env place) (f (at_now env place)) d of
             (Inl e, d') \<Rightarrow> (Inl (store_exc env e), (d', ch))
           | (Inr x, d') \<Rightarrow> (Inr x, (d', ch))))"

text \<open>\<open>_finish_attempt\<close>, with or without an execution row.\<close>

definition finishA ::
  "('s, 'r) attempt_env \<Rightarrow> string \<Rightarrow> int \<Rightarrow> token \<Rightarrow> uid option \<Rightarrow> snapshot option \<Rightarrow> public_error option
   \<Rightarrow> turn_row act" where
  "finishA env place own tok x snap err = storeA env place (\<lambda>now d. finish_attempt now d own tok snap err x)"

section \<open>Completing an attempt\<close>

text \<open>The semantic query a follow-up question continues from.\<close>

definition base_query ::
  "('s, 'r) attempt_env \<Rightarrow> bool \<Rightarrow> pystr \<Rightarrow> json option \<Rightarrow> 's option act" where
  "base_query env requery question base =
     (case base of
        None \<Rightarrow> okA None
      | Some b \<Rightarrow>
          thenA (checkA env ''restore'') (\<lambda>_.
          thenA (if requery then okA () else stageA env ''query_understanding'') (\<lambda>_.
          thenA (replyA (at_restore env b)) (\<lambda>previous.
          thenA (if requery then okA previous
                 else replyA (case at_revise env previous question of
                        Inl (XRevision code m) \<Rightarrow> Inl (XHistory code m) | r \<Rightarrow> r)) (\<lambda>s.
          thenA (checkA env ''revised'') (\<lambda>_. okA (Some s)))))))"

definition produce ::
  "('s, 'r) attempt_env \<Rightarrow> kind \<Rightarrow> bool \<Rightarrow> pystr \<Rightarrow> accepted \<Rightarrow> 'r delivered act" where
  "produce env k requery question acc =
     thenA (checkA env ''begin'') (\<lambda>_.
     thenA (if requery \<and> k = Query then
              thenA (replyA (at_public env)) (\<lambda>_.
                if acc_base acc = None then failA (error_named env ''HISTORY_CONTEXT_INCOMPATIBLE'') else okA ())
            else okA ()) (\<lambda>_.
     thenA (base_query env requery question (acc_base acc)) (\<lambda>s.
     if k = Analysis then
       (case at_analyze env of
          None \<Rightarrow> failA (error_named env ''CONTEXT_ERROR'') | Some f \<Rightarrow> replyA (f question))
     else replyA (at_query env question s))))"

text \<open>The caller is identified and authorised again before anything is stored.\<close>

definition confirm :: "('s, 'r) attempt_env \<Rightarrow> int \<Rightarrow> unit act" where
  "confirm env own =
     thenA (checkA env ''delivered'') (\<lambda>_.
     thenA (replyA (at_reauth env)) (\<lambda>user.
     if user \<noteq> own then failA (error_named env ''AUTHORIZATION_DENIED'')
     else thenA (replyA (at_authorize env)) (\<lambda>_. replyA (at_check env))))"

definition outcome_of ::
  "('s, 'r) attempt_env \<Rightarrow> kind \<Rightarrow> 'r delivered \<Rightarrow> (snapshot option \<times> public_error option) act" where
  "outcome_of env k r =
     (case r of
        DFailure e \<Rightarrow> okA (None, Some e)
      | DAnalysis x \<Rightarrow>
          if k = Analysis then thenA (replyA (at_encode env x)) (\<lambda>s. okA (Some s, None))
          else failA (error_named env ''HISTORY_SNAPSHOT_UNAVAILABLE'')
      | DQuery x \<Rightarrow>
          if k = Query then thenA (replyA (at_encode env x)) (\<lambda>s. okA (Some s, None))
          else failA (error_named env ''HISTORY_SNAPSHOT_UNAVAILABLE''))"

definition business ::
  "('s, 'r) attempt_env \<Rightarrow> int \<Rightarrow> kind \<Rightarrow> bool \<Rightarrow> pystr \<Rightarrow> accepted \<Rightarrow> (snapshot option \<times> public_error option) act" where
  "business env own k requery question acc =
     thenA (produce env k requery question acc) (\<lambda>r.
     thenA (confirm env own) (\<lambda>_. outcome_of env k r))"

definition save ::
  "('s, 'r) attempt_env \<Rightarrow> int \<Rightarrow> token \<Rightarrow> uid option \<Rightarrow> snapshot option \<times> public_error option \<Rightarrow> turn_row act" where
  "save env own tok x out =
     thenA (checkA env ''saving'') (\<lambda>_.
     thenA (stageA env ''result_saving'') (\<lambda>_. finishA env ''commit'' own tok x (fst out) (snd out)))"

text \<open>The handlers: after the outcome is known (\<open>finishing\<close>) every error is an unconfirmed result; before,
  an error is stored as the outcome unless storing is what failed.\<close>

definition report_error ::
  "('s, 'r) attempt_env \<Rightarrow> int \<Rightarrow> token \<Rightarrow> uid option \<Rightarrow> pystr \<Rightarrow> string \<Rightarrow> pystr \<Rightarrow> turn_row act" where
  "report_error env own tok x request code m w =
     (let unconfirmed = error_named env ''HISTORY_SAVE_UNCONFIRMED''
      in if code = ''HISTORY_STORAGE_UNAVAILABLE'' then (Inl unconfirmed, w)
         else if code = ''HISTORY_SAVE_UNCONFIRMED'' then (Inl (XHistory code m), w)
         else case finishA env ''report'' own tok x None
                     (Some \<lparr>pe_request = request, pe_code = code, pe_message = m\<rparr>) w of
                (Inl (XHistory _ _), w1) \<Rightarrow> (Inl unconfirmed, w1)
              | (Inl e, w1) \<Rightarrow> (Inl e, w1)
              | (Inr _, w1) \<Rightarrow> (Inl (XHistory code m), w1))"

definition complete_attempt ::
  "('s, 'r) attempt_env \<Rightarrow> int \<Rightarrow> kind \<Rightarrow> bool \<Rightarrow> pystr \<Rightarrow> pystr \<Rightarrow> accepted \<Rightarrow> token \<Rightarrow> uid option
   \<Rightarrow> turn_row act" where
  "complete_attempt env own k requery question request acc tok x w =
     (let unconfirmed = error_named env ''HISTORY_SAVE_UNCONFIRMED''
      in case business env own k requery question acc w of
           (Inl (XStopped r), w1) \<Rightarrow> (Inl (XStopped r), w1)
         | (Inl (XHistory code m), w1) \<Rightarrow> report_error env own tok x request code m w1
         | (Inl _, w1) \<Rightarrow> (Inl unconfirmed, w1)
         | (Inr out, w1) \<Rightarrow>
             (case save env own tok x out w1 of
                (Inl (XStopped r), w2) \<Rightarrow> (Inl (XStopped r), w2)
              | (Inl _, w2) \<Rightarrow> (Inl unconfirmed, w2)
              | (Inr t, w2) \<Rightarrow> (Inr t, w2)))"

text \<open>\<open>preowned\<close>: the lease of the execution already holds the analysis run.\<close>

definition execute_attempt ::
  "('s, 'r) attempt_env \<Rightarrow> int \<Rightarrow> kind \<Rightarrow> bool \<Rightarrow> bool \<Rightarrow> pystr \<Rightarrow> pystr \<Rightarrow> accepted \<Rightarrow> uid option
   \<Rightarrow> turn_row act" where
  "execute_attempt env own k requery preowned question request acc x w =
     (case acc_token acc of
        None \<Rightarrow> (Inr (snd (acc_turn acc)), w)
      | Some tok \<Rightarrow>
          if k = Analysis \<and> \<not> preowned \<and> at_guard_busy env then
            (case finishA env ''busy'' own tok x None
                    (Some \<lparr>pe_request = request, pe_code = ''HISTORY_BUSY'', pe_message = at_text env ''HISTORY_BUSY''\<rparr>) w of
               (Inl e, w1) \<Rightarrow> (Inl e, w1)
             | (Inr _, w1) \<Rightarrow> (Inl (error_named env ''HISTORY_BUSY''), w1))
          else
            (case complete_attempt env own k requery question request acc tok x w of
               (Inl (XStopped r), w1) \<Rightarrow>
                 if x \<noteq> None \<or> r \<noteq> DEADLINE_EXCEEDED then (Inl (XStopped r), w1)
                 else (case finishA env ''timeout'' own tok None None
                          (Some \<lparr>pe_request = request, pe_code = ''QUERY_TIMEOUT'', pe_message = at_text env ''QUERY_TIMEOUT''\<rparr>) w1 of
                         (Inl (XHistory _ _), w2) \<Rightarrow> (Inl (error_named env ''HISTORY_SAVE_UNCONFIRMED''), w2)
                       | r2 \<Rightarrow> r2)
             | r1 \<Rightarrow> r1))"

end
