(* ===== verification/Worker.thy ===== *)
theory Worker
  imports Attempt
begin

text \<open>
  The background worker of \<open>ExecutionApplication\<close> (\<open>query_api/execution.py\<close>): \<open>work_body\<close> with its
  handlers, \<open>_persist_worker_failure\<close>, \<open>_persist_stopped\<close>, \<open>_finish_worker_failure\<close> and
  \<open>_finish_from_persistence\<close>, on the world of an attempt. \<open>close_channel\<close> is what the release of the lease
  does to the channel afterwards. Tracing is left out.
\<close>

definition status_text :: "exec_status \<Rightarrow> string" where
  "status_text s =
     (case s of Accepted \<Rightarrow> ''accepted'' | Running \<Rightarrow> ''running'' | Stopping \<Rightarrow> ''stopping''
      | Succeeded \<Rightarrow> ''succeeded'' | Failed \<Rightarrow> ''failed'' | Cancelled \<Rightarrow> ''cancelled''
      | TimedOut \<Rightarrow> ''timed_out'' | Unconfirmed \<Rightarrow> ''unconfirmed'')"

definition turn_status_text :: "turn_status \<Rightarrow> string" where
  "turn_status_text s =
     (case s of TurnAccepted \<Rightarrow> ''accepted'' | TurnSucceeded \<Rightarrow> ''succeeded'' | TurnFailed \<Rightarrow> ''failed''
      | TurnUnconfirmed \<Rightarrow> ''unconfirmed'')"

definition error_payload :: "public_error \<Rightarrow> (pystr \<times> json) list" where
  "error_payload e =
     [(lit ''request_id'', JStr (pe_request e)), (lit ''error_code'', JStr (lit (pe_code e))),
      (lit ''error_message'', JStr (pe_message e))]"

definition progressA :: "(channel \<Rightarrow> (event_error + unit) \<times> channel) \<Rightarrow> unit act" where
  "progressA f w =
     (case f (snd w) of (Inl _, ch) \<Rightarrow> (Inl XOther, (fst w, ch)) | (Inr _, ch) \<Rightarrow> (Inr (), (fst w, ch)))"

definition finish_progress :: "string \<Rightarrow> public_error option \<Rightarrow> unit act" where
  "finish_progress status err = progressA (finish status (map_option error_payload err))"

text \<open>Who runs what: the execution, its token and the request.\<close>

record job =
  jb_owner :: int
  jb_kind :: kind
  jb_requery :: bool
  jb_question :: pystr
  jb_request :: pystr
  jb_accepted :: accepted
  jb_token :: token
  jb_execution :: uid

text \<open>Status, error code and message key of a stopped execution.\<close>

definition stop_outcome :: "stop_reason \<Rightarrow> exec_status \<times> string \<times> string" where
  "stop_outcome r =
     (case r of
        USER_CANCELLED \<Rightarrow> (Cancelled, ''EXECUTION_CANCELLED'', ''EXECUTION_CANCELLED'')
      | DEADLINE_EXCEEDED \<Rightarrow> (TimedOut, ''EXECUTION_TIMEOUT'', ''EXECUTION_TIMEOUT'')
      | AUTHORIZATION_REVOKED \<Rightarrow> (Failed, ''AUTHORIZATION_DENIED'', ''STOP_AUTHORIZATION_DENIED'')
      | AUTHORIZATION_UNAVAILABLE \<Rightarrow> (Failed, ''AUTHENTICATION_UNAVAILABLE'', ''STOP_AUTHENTICATION_UNAVAILABLE''))"

text \<open>Catching \<open>HistoryError\<close>.\<close>

definition ignore_history :: "'a act \<Rightarrow> unit act" where
  "ignore_history m w =
     (case m w of
        (Inl (XHistory _ _), w1) \<Rightarrow> (Inr (), w1) | (Inl e, w1) \<Rightarrow> (Inl e, w1) | (Inr _, w1) \<Rightarrow> (Inr (), w1))"

definition persist_stopped :: "('s, 'r) attempt_env \<Rightarrow> job \<Rightarrow> stop_reason \<Rightarrow> unit act" where
  "persist_stopped env j reason =
     ignore_history
       (thenA (storeA env ''request_stop''
                (\<lambda>now d. request_execution_stop (\<lambda>q. q) now d (jb_owner j) (jb_execution j) reason None)) (\<lambda>current.
        if ex_status current \<noteq> Stopping then okA ()
        else
          (case stop_outcome (case ex_stop_reason current of None \<Rightarrow> reason | Some r \<Rightarrow> r) of
             (status, code, key) \<Rightarrow>
               thenA (storeA env ''stop''
                 (\<lambda>now d. finish_execution_stopped now d (jb_owner j) (jb_token j) (jb_execution j) status
                    \<lparr>pe_request = jb_request j, pe_code = code, pe_message = at_text env key\<rparr>)) (\<lambda>_. okA ()))))"

definition persist_worker_failure ::
  "('s, 'r) attempt_env \<Rightarrow> job \<Rightarrow> string \<Rightarrow> pystr \<Rightarrow> unit act" where
  "persist_worker_failure env j code m w =
     (case finishA env ''failure'' (jb_owner j) (jb_token j) (Some (jb_execution j)) None
             (Some \<lparr>pe_request = jb_request j, pe_code = code, pe_message = m\<rparr>) w of
        (Inl (XStopped r), w1) \<Rightarrow> persist_stopped env j r w1
      | (Inl (XHistory _ _), w1) \<Rightarrow> (Inr (), w1)
      | (Inl e, w1) \<Rightarrow> (Inl e, w1)
      | (Inr _, w1) \<Rightarrow> (Inr (), w1))"

definition terminal_statuses :: "exec_status list" where
  "terminal_statuses = [Succeeded, Failed, Cancelled, TimedOut]"

definition finish_from_persistence :: "('s, 'r) attempt_env \<Rightarrow> job \<Rightarrow> unit act" where
  "finish_from_persistence env j w =
     (case storeA env ''read'' (\<lambda>now d. map_sum id (\<lambda>e. (e, d)) (get_execution d (jb_owner j) (jb_execution j))) w of
        (Inl (XHistory _ _), w1) \<Rightarrow> finish_progress ''unconfirmed'' None w1
      | (Inl e, w1) \<Rightarrow> (Inl e, w1)
      | (Inr current, w1) \<Rightarrow>
          if ex_status current \<in> set terminal_statuses
          then finish_progress (status_text (ex_status current)) (ex_error current) w1
          else finish_progress ''unconfirmed'' (ex_error current) w1)"

text \<open>\<open>_persist_worker_failure\<close> handles \<open>ExecutionStopped\<close> itself; one that its handler raises is handled
  here.\<close>

definition finish_worker_failure :: "('s, 'r) attempt_env \<Rightarrow> job \<Rightarrow> string \<Rightarrow> pystr \<Rightarrow> unit act" where
  "finish_worker_failure env j code m w =
     (case (case persist_worker_failure env j code m w of
              (Inl (XStopped r), w1) \<Rightarrow> persist_stopped env j r w1 | out \<Rightarrow> out) of
        (Inl e, w1) \<Rightarrow> (Inl e, w1) | (Inr _, w1) \<Rightarrow> finish_from_persistence env j w1)"

definition work_run :: "('s, 'r) attempt_env \<Rightarrow> job \<Rightarrow> unit act" where
  "work_run env j =
     thenA (storeA env ''running'' (\<lambda>now d. mark_running now d (jb_owner j) (jb_execution j))) (\<lambda>_.
     thenA (progressA (set_status ''running'' None)) (\<lambda>_.
     thenA (checkA env ''start'') (\<lambda>_.
     thenA (execute_attempt env (jb_owner j) (jb_kind j) (jb_requery j) True (jb_question j) (jb_request j)
              (jb_accepted j) (Some (jb_execution j))) (\<lambda>turn.
     finish_progress (turn_status_text (tn_status turn)) (tn_error turn)))))"

definition work_body :: "('s, 'r) attempt_env \<Rightarrow> job \<Rightarrow> unit act" where
  "work_body env j w =
     (case work_run env j w of
        (Inl (XStopped r), w1) \<Rightarrow>
          thenA (persist_stopped env j r) (\<lambda>_. finish_from_persistence env j) w1
      | (Inl (XHistory code m), w1) \<Rightarrow> finish_worker_failure env j code m w1
      | (Inl _, w1) \<Rightarrow> finish_worker_failure env j ''EXECUTION_FAILED'' (at_text env ''EXECUTION_FAILED'') w1
      | (Inr _, w1) \<Rightarrow> (Inr (), w1))"

definition close_channel :: "channel \<Rightarrow> channel" where
  "close_channel ch = (if ch_terminal ch then ch else snd (finish ''unconfirmed'' None ch))"

text \<open>The task of the thread pool: the body, and the release of the lease whatever it did.\<close>

definition worker_task :: "('s, 'r) attempt_env \<Rightarrow> job \<Rightarrow> world \<Rightarrow> world" where
  "worker_task env j w =
     (case at_others env ''release'' (snd (work_body env j w)) of (d, ch) \<Rightarrow> (d, close_channel ch))"

end
