(* ===== verification/Worker_Properties.thy ===== *)
theory Worker_Properties
  imports Worker Store_Properties
begin

text \<open>
  What a background worker guarantees whatever its services return, whatever other requests do to the
  database meanwhile (any run of \<open>store_step\<close>) and whichever commits fail or lose their reply.
  \<open>holds\<close> is the contract of an action of the worker: it moves the database by store steps only, and the
  channel reports only an end that is stored.
\<close>

section \<open>The environment and the contract\<close>

definition chan_same :: "channel \<Rightarrow> channel \<Rightarrow> bool" where
  "chan_same ch ch' \<longleftrightarrow> ch_terminal ch' = ch_terminal ch \<and> (ch_terminal ch \<longrightarrow> ch_status ch' = ch_status ch)"

definition fair_others :: "('s, 'r) attempt_env \<Rightarrow> bool" where
  "fair_others env \<longleftrightarrow> (\<forall>p w. store_step\<^sup>*\<^sup>* (fst w) (fst (at_others env p w))
     \<and> chan_same (snd w) (snd (at_others env p w)))"

definition job_in :: "job \<Rightarrow> db \<Rightarrow> bool" where
  "job_in j d \<longleftrightarrow> db_ok d \<and> (history_gone (tk_history (jb_token j)) (tables_of d)
     \<or> (\<exists>e. map_of (db_execs d) (jb_execution j) = Some e \<and> ex_owner e = jb_owner j
          \<and> ex_history e = tk_history (jb_token j) \<and> ex_turn e = tk_turn (jb_token j)))"

definition row_ended :: "job \<Rightarrow> string \<Rightarrow> db \<Rightarrow> bool" where
  "row_ended j status d \<longleftrightarrow> history_gone (tk_history (jb_token j)) (tables_of d)
     \<or> (\<exists>e. map_of (db_execs d) (jb_execution j) = Some e \<and> \<not> exec_live (ex_status e)
          \<and> ex_history e = tk_history (jb_token j) \<and> status_text (ex_status e) = status)"

definition truthful :: "job \<Rightarrow> world \<Rightarrow> bool" where
  "truthful j w \<longleftrightarrow> job_in j (fst w)
     \<and> (ch_terminal (snd w) \<longrightarrow> ch_status (snd w) = ''unconfirmed'' \<or> row_ended j (ch_status (snd w)) (fst w))"

definition reaches :: "job \<Rightarrow> world \<Rightarrow> world \<Rightarrow> bool" where
  "reaches j w w' \<longleftrightarrow> (truthful j w \<longrightarrow> truthful j w' \<and> store_step\<^sup>*\<^sup>* (fst w) (fst w'))"

definition holds :: "job \<Rightarrow> 'a act \<Rightarrow> bool" where
  "holds j m \<longleftrightarrow> (\<forall>w. reaches j w (snd (m w)))"

lemma reaches_refl [simp]: "reaches j w w"
  by (simp add: reaches_def)

lemma reaches_trans: "reaches j w w' \<Longrightarrow> reaches j w' w'' \<Longrightarrow> reaches j w w''"
  by (auto simp: reaches_def)

lemma holds_snd: "holds j m \<Longrightarrow> reaches j w (snd (m w))"
  unfolding holds_def by blast

lemma holdsD: "holds j m \<Longrightarrow> m w = (r, w') \<Longrightarrow> reaches j w w'"
  by (metis holds_def snd_conv)

section \<open>The rows of the job\<close>

lemma job_in_steps:
  assumes "job_in j d" and "store_step\<^sup>*\<^sup>* d d'"
  shows "job_in j d'"
proof -
  have ok: "db_ok d" and ok': "db_ok d'"
    using assms store_steps_refine [OF assms(2)] refined_ok by (auto simp: job_in_def)
  note st = store_steps_ok [OF assms(2) ok]
  show ?thesis
  proof (cases "history_gone (tk_history (jb_token j)) (tables_of d')")
    case False
    then have "\<not> history_gone (tk_history (jb_token j)) (tables_of d)"
      using deletion.sealed_steps [OF st] by blast
    with assms(1) obtain e where e: "map_of (db_execs d) (jb_execution j) = Some e" "ex_owner e = jb_owner j"
      "ex_history e = tk_history (jb_token j)" "ex_turn e = tk_turn (jb_token j)"
      by (auto simp: job_in_def)
    obtain e' where "map_of (db_execs d') (jb_execution j) = Some e'" "same_exec e e'"
      using exec_persists [OF st, of "jb_execution j" e] e False by (auto simp: tables_of_def)
    with e ok' show ?thesis by (auto simp: job_in_def same_exec_def)
  qed (use ok' in \<open>simp add: job_in_def\<close>)
qed

lemma row_ended_steps:
  assumes "db_ok d" and "row_ended j status d" and "store_step\<^sup>*\<^sup>* d d'"
  shows "row_ended j status d'"
proof (cases "history_gone (tk_history (jb_token j)) (tables_of d)")
  case True
  then show ?thesis using deletion.sealed_steps [OF store_steps_ok [OF assms(3,1)]] by (simp add: row_ended_def)
next
  case False
  with assms(2) obtain e where e: "map_of (db_execs d) (jb_execution j) = Some e" "\<not> exec_live (ex_status e)"
    "ex_history e = tk_history (jb_token j)" "status_text (ex_status e) = status"
    by (auto simp: row_ended_def)
  then have "exec_fixed (jb_execution j, e) (tables_of d)"
    using assms(1) by (simp add: tables_of_def db_ok_def)
  then have "exec_fixed (jb_execution j, e) (tables_of d')"
    using execution.sealed_steps [OF store_steps_ok [OF assms(3,1)]] by blast
  with e show ?thesis by (auto simp: row_ended_def tables_of_def)
qed

lemma gone_not_owned: "history_gone h (tables_of d) \<Longrightarrow> owned d own h \<noteq> Inr r"
  by (auto simp: owned_Inr tables_of_def)

lemma job_paired:
  assumes "job_in j d" and "\<not> history_gone (tk_history (jb_token j)) (tables_of d)"
  shows "paired d (jb_token j) (Some (jb_execution j))"
proof -
  have inv: "hist_inv (map_of (db_records d)) (map_of (db_turns d)) (map_of (db_execs d))"
    using assms(1) by (simp add: job_in_def db_ok_def)
  from assms obtain e where "map_of (db_execs d) (jb_execution j) = Some e" "ex_turn e = tk_turn (jb_token j)"
    by (auto simp: job_in_def)
  then show ?thesis
    using inv_exec_unique [OF inv] by (auto simp: paired_def)
qed

lemma finish_is_step:
  assumes "job_in j d" and "finish_attempt now d own (jb_token j) snap err (Some (jb_execution j)) = Inr (t, d')"
  shows "store_step d d'"
proof -
  have "owned d own (tk_history (jb_token j)) = Inr r \<Longrightarrow> \<not> history_gone (tk_history (jb_token j)) (tables_of d)" for r
    using gone_not_owned by blast
  moreover obtain r where "owned d own (tk_history (jb_token j)) = Inr r"
    using assms(2) by (cases "owned d own (tk_history (jb_token j))") (auto simp: finish_attempt_def)
  ultimately show ?thesis using st_finish [OF assms(2) job_paired [OF assms(1)]] by blast
qed

lemma finish_ends_row:
  assumes "job_in j d" and "finish_attempt now d own (jb_token j) snap err (Some (jb_execution j)) = Inr (t, d')"
  shows "row_ended j (turn_status_text (tn_status t)) d'"
proof -
  have ok: "db_ok d" using assms(1) by (simp add: job_in_def)
  obtain r where r: "owned d own (tk_history (jb_token j)) = Inr r" and t: "tn_status t = (if snap \<noteq> None then TurnSucceeded else TurnFailed)"
    and ex: "\<exists>e. map_of (db_execs d) (jb_execution j) = Some e \<and> ex_owner e = own
       \<and> map_of (db_execs d') (jb_execution j) = Some (e\<lparr>ex_status := (if snap \<noteq> None then Succeeded else Failed),
            ex_error := err, ex_finished_at := Some now\<rparr>)"
    using ok assms(2) by (rule finish_attempt_Inr) (auto simp: settled_turn_def)
  have "\<exists>e. map_of (db_execs d) (jb_execution j) = Some e \<and> ex_history e = tk_history (jb_token j)"
    using assms(1) gone_not_owned [of "tk_history (jb_token j)" d] r by (auto simp: job_in_def)
  with ex t show ?thesis
    by (auto simp: row_ended_def exec_live_def status_text_def turn_status_text_def)
qed

section \<open>The actions keep the contract\<close>

lemma truthful_steps:
  assumes "truthful j w" and "store_step\<^sup>*\<^sup>* (fst w) (fst w')" and "chan_same (snd w) (snd w')"
  shows "truthful j w'"
  using assms job_in_steps [of j "fst w" "fst w'"] row_ended_steps [of "fst w" j "ch_status (snd w)" "fst w'"]
  by (auto simp: truthful_def chan_same_def job_in_def)

lemma reaches_quiet: "store_step\<^sup>*\<^sup>* (fst w) (fst w') \<Longrightarrow> chan_same (snd w) (snd w') \<Longrightarrow> reaches j w w'"
  using truthful_steps by (auto simp: reaches_def)

lemma chan_same_refl [simp]: "chan_same ch ch"
  by (simp add: chan_same_def)

lemma others_reach: "fair_others env \<Longrightarrow> reaches j w (at_others env p w)"
  unfolding fair_others_def by (blast intro: reaches_quiet)

lemma append_terminal:
  "ch_terminal (snd (append_locked ch t p)) = ch_terminal ch \<and> ch_status (snd (append_locked ch t p)) = ch_status ch"
  by (auto simp: append_locked_def Let_def split: sum.splits prod.splits)

lemma set_stage_same: "chan_same ch (snd (set_stage st ch))"
  by (auto simp: set_stage_def chan_same_def append_terminal Let_def)

lemma set_status_same: "chan_same ch (snd (set_status st r ch))"
  by (auto simp: set_status_def chan_same_def append_terminal Let_def split: option.splits)

lemma holds_return [simp]: "holds j (okA x)" "holds j (failA e)" "holds j (replyA r)"
  by (simp_all add: holds_def okA_def failA_def replyA_def)

lemma holds_then:
  assumes "holds j m" and "\<And>x. holds j (f x)"
  shows "holds j (thenA m f)"
  unfolding holds_def
proof
  fix w
  obtain r w1 where m: "m w = (r, w1)" by (cases "m w")
  have "reaches j w w1" using holdsD [OF assms(1) m] .
  then show "reaches j w (snd (thenA m f w))"
  proof (cases r)
    case (Inr x)
    from reaches_trans [OF \<open>reaches j w w1\<close> holds_snd [OF assms(2) [of x], of w1]] show ?thesis
      by (simp add: thenA_def m Inr)
  qed (simp add: thenA_def m)
qed

lemma holds_check: "fair_others env \<Longrightarrow> holds j (checkA env p)"
  by (simp add: holds_def checkA_def others_reach split: option.splits)

lemma holds_stage: "holds j (stageA env st)"
  unfolding holds_def stageA_def
  using set_stage_same [of "snd w" st for w]
  by (auto intro!: reaches_quiet split: prod.splits sum.splits) (metis snd_conv)+

lemma store_call_steps:
  assumes "\<And>x d'. f d = Inr (x, d') \<Longrightarrow> store_step\<^sup>*\<^sup>* d d'"
  shows "store_step\<^sup>*\<^sup>* d (snd (store_call l f d))"
  using assms by (cases l; cases "f d") (auto simp: store_call_def)

lemma storeA_reaches:
  assumes "fair_others env"
    and "\<And>d x d'. job_in j d \<Longrightarrow> f (at_now env p) d = Inr (x, d') \<Longrightarrow> store_step\<^sup>*\<^sup>* d d'"
  shows "holds j (storeA env p f)"
  unfolding holds_def
proof
  fix w
  obtain d ch where w1: "at_others env p w = (d, ch)" by fastforce
  have r: "reaches j w (d, ch)" using others_reach [OF assms(1), of j w p] by (simp add: w1)
  obtain o' d' where c: "store_call (at_link env p) (f (at_now env p)) d = (o', d')" by fastforce
  have "snd (storeA env p f w) = (d', ch)"
    by (cases o') (simp_all add: storeA_def w1 c)
  moreover have "reaches j (d, ch) (d', ch)"
  proof (cases "job_in j d")
    case True
    have "store_step\<^sup>*\<^sup>* d d'"
      using store_call_steps [of "f (at_now env p)" d "at_link env p"] assms(2) [OF True] c by simp
    then show ?thesis by (intro reaches_quiet) simp_all
  qed (simp add: reaches_def truthful_def)
  ultimately show "reaches j w (snd (storeA env p f w))" using r by (auto intro: reaches_trans)
qed

lemma holds_finish:
  "fair_others env \<Longrightarrow> holds j (finishA env p own (jb_token j) (Some (jb_execution j)) snap err)"
  unfolding finishA_def by (rule storeA_reaches) (auto dest: finish_is_step)

lemma finishA_ends_row:
  assumes "fair_others env" and "truthful j w"
    and "finishA env p own (jb_token j) (Some (jb_execution j)) snap err w = (Inr t, w')"
  shows "row_ended j (turn_status_text (tn_status t)) (fst w')"
proof -
  obtain d ch where w1: "at_others env p w = (d, ch)" by fastforce
  have "truthful j (d, ch)" using others_reach [OF assms(1), of j w p] assms(2) by (simp add: w1 reaches_def)
  then have "job_in j d" by (simp add: truthful_def)
  moreover obtain d' where "finish_attempt (at_now env p) d own (jb_token j) snap err (Some (jb_execution j)) = Inr (t, d')"
    and "w' = (d', ch)"
    using assms(3)
    by (cases "at_link env p"; cases "finish_attempt (at_now env p) d own (jb_token j) snap err (Some (jb_execution j))")
      (auto simp: finishA_def storeA_def w1 store_call_def)
  ultimately show ?thesis using finish_ends_row by auto
qed

lemma holds_progress: "(\<And>ch. chan_same ch (snd (f ch))) \<Longrightarrow> holds j (progressA f)"
  unfolding holds_def
proof
  fix w :: world assume "\<And>ch. chan_same ch (snd (f ch))"
  then have "chan_same (snd w) (snd (f (snd w)))" .
  then show "reaches j w (snd (progressA f w))"
    by (cases "f (snd w)"; cases "fst (f (snd w))") (auto simp: progressA_def intro: reaches_quiet)
qed

lemma holds_map: "holds j m \<Longrightarrow> (\<And>w. snd (f w) = snd (m w)) \<Longrightarrow> holds j f"
  by (simp add: holds_def)

text \<open>A handler: another action in the world an action has left.\<close>

lemma holds_handle:
  assumes "holds j m" and "\<And>e. holds j (h e)" and "\<And>x. holds j (k x)"
  shows "holds j (\<lambda>w. case m w of (Inl e, w1) \<Rightarrow> h e w1 | (Inr x, w1) \<Rightarrow> k x w1)"
  unfolding holds_def
proof
  fix w
  obtain r w1 where m: "m w = (r, w1)" by (cases "m w")
  show "reaches j w (snd (case m w of (Inl e, w1) \<Rightarrow> h e w1 | (Inr x, w1) \<Rightarrow> k x w1))"
    using reaches_trans [OF holdsD [OF assms(1) m] holds_snd [OF assms(2)]]
      reaches_trans [OF holdsD [OF assms(1) m] holds_snd [OF assms(3)]]
    by (cases r) (simp_all add: m)
qed

lemmas holds_rules = holds_then holds_check holds_stage holds_finish holds_return

lemma holds_base_query: "fair_others env \<Longrightarrow> holds j (base_query env requery question base)"
  unfolding base_query_def by (cases base) (auto intro!: holds_rules)

lemma holds_business: "fair_others env \<Longrightarrow> holds j (business env own k requery question acc)"
  unfolding business_def produce_def confirm_def outcome_of_def
  by (auto intro!: holds_rules holds_base_query split: option.splits delivered.splits)

lemma holds_save: "fair_others env \<Longrightarrow> holds j (save env own (jb_token j) (Some (jb_execution j)) out)"
  unfolding save_def by (intro holds_rules)

text \<open>An attempt that returns a turn has stored its end.\<close>

lemma save_ends_row:
  assumes "fair_others env" and "truthful j w"
    and "save env own (jb_token j) (Some (jb_execution j)) out w = (Inr t, w')"
  shows "row_ended j (turn_status_text (tn_status t)) (fst w')"
proof -
  obtain w1 w2 where w1: "checkA env ''saving'' w = (Inr (), w1)" and w2: "stageA env ''result_saving'' w1 = (Inr (), w2)"
    and f: "finishA env ''commit'' own (jb_token j) (Some (jb_execution j)) (fst out) (snd out) w2 = (Inr t, w')"
    using assms(3) by (auto simp: save_def thenA_def split: prod.splits sum.splits)
  have "truthful j w2"
    using reaches_trans [OF holdsD [OF holds_check [OF assms(1)] w1] holdsD [OF holds_stage w2]] assms(2)
    by (simp add: reaches_def)
  then show ?thesis using finishA_ends_row [OF assms(1) _ f] by blast
qed

lemma holds_report:
  assumes "fair_others env"
  shows "holds j (report_error env own (jb_token j) (Some (jb_execution j)) request code m)"
proof -
  have "snd (report_error env own (jb_token j) (Some (jb_execution j)) request code m w)
      = snd ((if code = ''HISTORY_STORAGE_UNAVAILABLE'' \<or> code = ''HISTORY_SAVE_UNCONFIRMED'' then failA XOther
              else thenA (finishA env ''report'' own (jb_token j) (Some (jb_execution j)) None
                     (Some \<lparr>pe_request = request, pe_code = code, pe_message = m\<rparr>)) (\<lambda>_. okA ())) w)" for w
    by (auto simp: report_error_def Let_def failA_def thenA_def okA_def split: prod.splits sum.splits attempt_exc.splits)
  moreover have "holds j (if code = ''HISTORY_STORAGE_UNAVAILABLE'' \<or> code = ''HISTORY_SAVE_UNCONFIRMED'' then failA XOther
              else thenA (finishA env ''report'' own (jb_token j) (Some (jb_execution j)) None
                     (Some \<lparr>pe_request = request, pe_code = code, pe_message = m\<rparr>)) (\<lambda>_. okA ()))"
    using assms by (auto intro!: holds_rules)
  ultimately show ?thesis unfolding holds_def by metis
qed

lemma reaches_via: "holds j m \<Longrightarrow> m w = (r, w1) \<Longrightarrow> reaches j w1 w2 \<Longrightarrow> reaches j w w2"
  by (rule reaches_trans [OF holdsD])

lemma holds_complete:
  assumes fair: "fair_others env"
  shows "holds j (complete_attempt env own k requery question request acc (jb_token j) (Some (jb_execution j)))"
    (is "holds j ?m")
  unfolding holds_def
proof
  fix w :: world
  obtain r w1 where b: "business env own k requery question acc w = (r, w1)" by (cases "business env own k requery question acc w")
  show "reaches j w (snd (?m w))"
  proof (cases r)
    case (Inl e)
    show ?thesis
      by (rule reaches_via [OF holds_business [OF fair] b])
        (use holds_snd [OF holds_report [OF fair]] in \<open>simp add: complete_attempt_def b Inl Let_def split: attempt_exc.split\<close>)
  next
    case (Inr out)
    obtain r2 w2 where s: "save env own (jb_token j) (Some (jb_execution j)) out w1 = (r2, w2)"
      by (cases "save env own (jb_token j) (Some (jb_execution j)) out w1")
    have "snd (?m w) = w2"
      by (cases r2) (simp_all add: complete_attempt_def b Inr s Let_def split: attempt_exc.split)
    then show ?thesis
      using reaches_via [OF holds_business [OF fair] b holdsD [OF holds_save [OF fair] s]] by simp
  qed
qed

lemma complete_Inr:
  assumes "complete_attempt env own k requery question request acc tok x w = (Inr t, w')"
  obtains out w1 where "business env own k requery question acc w = (Inr out, w1)"
    "save env own tok x out w1 = (Inr t, w')"
proof -
  obtain r w1 where b: "business env own k requery question acc w = (r, w1)" by (cases "business env own k requery question acc w")
  have "\<exists>out. r = Inr out"
  proof (cases r)
    case (Inl e)
    have "fst (report_error env own tok x request c m w1) \<noteq> Inr t" for c m
      by (simp add: report_error_def Let_def split: prod.split sum.split attempt_exc.split)
    then have "complete_attempt env own k requery question request acc tok x w \<noteq> (Inr t, w')"
      unfolding complete_attempt_def b Inl Let_def
      by (cases e) (auto dest: arg_cong [of _ _ fst])
    with assms show ?thesis by simp
  qed simp
  then obtain out where r: "r = Inr out" ..
  obtain r2 w2 where s: "save env own tok x out w1 = (r2, w2)" by (cases "save env own tok x out w1")
  have "r2 = Inr t \<and> w2 = w'"
    using assms by (cases r2) (auto simp: complete_attempt_def b r s Let_def split: attempt_exc.splits)
  then show ?thesis using that [of out w1] b r s by simp
qed

lemma holds_execute:
  assumes fair: "fair_others env" and tok: "acc_token acc = Some (jb_token j)"
  shows "holds j (execute_attempt env own k requery True question request acc (Some (jb_execution j)))"
proof -
  have "snd (execute_attempt env own k requery True question request acc (Some (jb_execution j)) w)
     = snd (complete_attempt env own k requery question request acc (jb_token j) (Some (jb_execution j)) w)" for w
    by (simp add: execute_attempt_def tok split: prod.split sum.split attempt_exc.split)
  then show ?thesis using holds_complete [OF fair] by (rule holds_map [rotated])
qed

lemma execute_Inr:
  assumes "acc_token acc = Some tok"
    and "execute_attempt env own k requery True question request acc (Some x) w = (Inr t, w')"
  shows "complete_attempt env own k requery question request acc tok (Some x) w = (Inr t, w')"
  using assms(2) by (simp add: execute_attempt_def assms(1) split: prod.splits sum.splits attempt_exc.splits)

lemma execute_ends_row:
  assumes fair: "fair_others env" and tok: "acc_token acc = Some (jb_token j)" and w: "truthful j w"
    and "execute_attempt env own k requery True question request acc (Some (jb_execution j)) w = (Inr t, w')"
  shows "row_ended j (turn_status_text (tn_status t)) (fst w')"
proof -
  obtain out w1 where b: "business env own k requery question acc w = (Inr out, w1)"
    and s: "save env own (jb_token j) (Some (jb_execution j)) out w1 = (Inr t, w')"
    using execute_Inr [OF tok assms(4)] by (rule complete_Inr)
  have "truthful j w1" using holdsD [OF holds_business [OF fair] b] w by (simp add: reaches_def)
  then show ?thesis by (rule save_ends_row [OF fair _ s])
qed

section \<open>The worker\<close>

lemma finish_channel:
  "ch_terminal ch \<Longrightarrow> snd (finish status p ch) = ch"
  "\<not> ch_terminal ch \<Longrightarrow> ch_terminal (snd (finish status p ch)) \<Longrightarrow> ch_status (snd (finish status p ch)) = status"
  "status \<in> final_statuses \<Longrightarrow> ch_terminal (snd (finish status p ch))"
  by (auto simp: finish_def append_terminal clear_draft_def Let_def)

lemma finish_progress_snd:
  "snd (finish_progress status err w) = (fst w, snd (finish status (map_option error_payload err) (snd w)))"
  by (simp add: finish_progress_def progressA_def split: prod.split sum.split)

lemma finish_progress_reaches:
  assumes "status = ''unconfirmed'' \<or> row_ended j status (fst w)"
  shows "reaches j w (snd (finish_progress status err w))"
  using assms finish_channel(1,2) [of "snd w" status "map_option error_payload err"]
  by (cases "ch_terminal (snd w)") (auto simp: reaches_def truthful_def finish_progress_snd)

lemma stop_outcome_status: "stop_outcome r = (status, code, key) \<Longrightarrow> status \<in> {Cancelled, TimedOut, Failed}"
  by (cases r) (auto simp: stop_outcome_def)

lemma holds_ignore: "holds j m \<Longrightarrow> holds j (ignore_history m)"
  by (erule holds_map) (simp add: ignore_history_def split: prod.split sum.split attempt_exc.split)

lemma holds_request_stop:
  "fair_others env \<Longrightarrow> holds j (storeA env p (\<lambda>now d. request_execution_stop qsha now d own x r subj))"
  by (rule storeA_reaches) (auto intro: st_request_stop)

lemma holds_finish_stopped:
  "fair_others env \<Longrightarrow> status \<in> {Cancelled, TimedOut, Failed} \<Longrightarrow>
     holds j (storeA env p (\<lambda>now d. finish_execution_stopped now d own tok x status err))"
  by (rule storeA_reaches) (auto intro: st_finish_stopped)

lemma holds_persist_stopped: "fair_others env \<Longrightarrow> holds j (persist_stopped env j r)"
  unfolding persist_stopped_def
  by (intro holds_ignore holds_then holds_request_stop)
    (auto intro!: holds_then holds_finish_stopped split: prod.split dest: stop_outcome_status)

text \<open>What the handlers of a failing action do keeps the contract when the action does.\<close>

lemma holds_catch:
  assumes "holds j m" and "\<And>w w1 r. m w = (r, w1) \<Longrightarrow> reaches j w1 (snd (f w))"
  shows "holds j f"
  unfolding holds_def
proof
  fix w
  obtain r w1 where m: "m w = (r, w1)" by (cases "m w")
  show "reaches j w (snd (f w))" by (rule reaches_via [OF assms(1) m assms(2) [OF m]])
qed

lemma holds_persist_failure:
  assumes fair: "fair_others env"
  shows "holds j (persist_worker_failure env j code m)"
  by (rule holds_catch [of j, OF holds_finish [OF fair, where p = "''failure''" and own = "jb_owner j" and snap = None
        and err = "Some \<lparr>pe_request = jb_request j, pe_code = code, pe_message = m\<rparr>"]])
    (simp add: persist_worker_failure_def holds_snd [OF holds_persist_stopped [OF fair]]
      split: sum.split attempt_exc.split)


text \<open>What the worker reads back is what it reports.\<close>

lemma read_reaches:
  assumes fair: "fair_others env" and "truthful j w"
    and "storeA env p (\<lambda>now d. map_sum id (\<lambda>e. (e, d)) (get_execution d (jb_owner j) (jb_execution j))) w = (r, w1)"
  shows "truthful j w1"
    and "r = Inr e \<Longrightarrow> ex_status e \<in> set terminal_statuses \<Longrightarrow> row_ended j (status_text (ex_status e)) (fst w1)"
proof -
  obtain d ch where w1: "at_others env p w = (d, ch)" by fastforce
  have t: "truthful j (d, ch)" using others_reach [OF fair, of j w p] assms(2) by (simp add: w1 reaches_def)
  have w: "w1 = (d, ch)"
    using assms(3) by (cases "at_link env p"; cases "get_execution d (jb_owner j) (jb_execution j)")
      (auto simp: storeA_def w1 store_call_def)
  then show "truthful j w1" using t by simp
  show "row_ended j (status_text (ex_status e)) (fst w1)"
    if r: "r = Inr e" and e: "ex_status e \<in> set terminal_statuses"
  proof -
    have g: "get_execution d (jb_owner j) (jb_execution j) = Inr e"
      using assms(3) r by (cases "at_link env p"; cases "get_execution d (jb_owner j) (jb_execution j)")
        (auto simp: storeA_def w1 store_call_def)
    then have m: "map_of (db_execs d) (jb_execution j) = Some e"
      using t by (auto simp: get_execution_def locked_execution_Inr truthful_def job_in_def)
    have "\<not> exec_live (ex_status e)"
      using e by (auto simp: terminal_statuses_def exec_live_def)
    then show ?thesis
      using t m by (auto simp: truthful_def job_in_def row_ended_def w)
  qed
qed

lemma holds_from_persistence:
  assumes fair: "fair_others env"
  shows "holds j (finish_from_persistence env j)"
  unfolding holds_def
proof
  fix w
  define rd where "rd = storeA env ''read'' (\<lambda>now d. map_sum id (\<lambda>e. (e, d)) (get_execution d (jb_owner j) (jb_execution j)))"
  obtain r w1 where m: "rd w = (r, w1)" by (cases "rd w")
  have "holds j rd" unfolding rd_def
    by (rule storeA_reaches [OF fair]) (auto simp: map_sum_def split: sum.splits)
  then have w1: "reaches j w w1" using m by (rule holdsD)
  note f = reaches_trans [OF w1 finish_progress_reaches]
  show "reaches j w (snd (finish_from_persistence env j w))"
  proof (cases "truthful j w")
    case True
    show ?thesis
    proof (cases r)
      case (Inr e)
      note rr = read_reaches(2) [OF fair True m [unfolded rd_def] Inr]
      show ?thesis
        by (simp add: finish_from_persistence_def rd_def [symmetric] m Inr f rr)
    next
      case (Inl e)
      show ?thesis
        by (cases e) (simp_all add: finish_from_persistence_def rd_def [symmetric] m Inl w1 f)
    qed
  qed (simp add: reaches_def)
qed

lemma holds_finish_failure:
  assumes fair: "fair_others env"
  shows "holds j (finish_worker_failure env j code m)"
proof -
  let ?f = "\<lambda>w. case persist_worker_failure env j code m w of
              (Inl (XStopped r), w1) \<Rightarrow> persist_stopped env j r w1 | out \<Rightarrow> out"
  have "holds j ?f"
    by (rule holds_catch [OF holds_persist_failure [OF fair, of j code m]])
      (simp add: holds_snd [OF holds_persist_stopped [OF fair]] split: sum.split attempt_exc.split)
  then show ?thesis
    by (rule holds_catch)
      (simp add: finish_worker_failure_def holds_snd [OF holds_from_persistence [OF fair]] split: sum.split)
qed

lemma holds_work_run:
  assumes fair: "fair_others env" and tok: "acc_token (jb_accepted j) = Some (jb_token j)"
  shows "holds j (work_run env j)"
proof -
  define body where "body = execute_attempt env (jb_owner j) (jb_kind j) (jb_requery j) True (jb_question j)
    (jb_request j) (jb_accepted j) (Some (jb_execution j))"
  have "holds j (thenA body (\<lambda>turn. finish_progress (turn_status_text (tn_status turn)) (tn_error turn)))"
    unfolding holds_def
  proof
    fix w
    obtain r w1 where m: "body w = (r, w1)" by (cases "body w")
    have w1: "reaches j w w1"
      by (rule holdsD [OF holds_execute [OF fair tok]]) (rule m [unfolded body_def])
    show "reaches j w (snd (thenA body (\<lambda>turn. finish_progress (turn_status_text (tn_status turn)) (tn_error turn)) w))"
    proof (cases "truthful j w")
      case True
      show ?thesis
      proof (cases r)
        case (Inr t)
        have "row_ended j (turn_status_text (tn_status t)) (fst w1)"
          using execute_ends_row [OF fair tok True] m by (simp add: body_def Inr)
        then show ?thesis
          using reaches_trans [OF w1 finish_progress_reaches] by (simp add: thenA_def m Inr)
      qed (simp add: thenA_def m w1)
    qed (simp add: reaches_def)
  qed
  then show ?thesis
    unfolding work_run_def body_def
    by (intro holds_then [where f = "\<lambda>_. thenA _ _"] holds_check holds_progress set_status_same storeA_reaches fair)
      (auto intro: st_running)
qed

lemma holds_work_body:
  assumes fair: "fair_others env" and tok: "acc_token (jb_accepted j) = Some (jb_token j)"
  shows "holds j (work_body env j)"
  by (rule holds_catch [OF holds_work_run [OF fair tok]])
    (simp add: work_body_def holds_snd [OF holds_finish_failure [OF fair]]
       holds_snd [OF holds_then [OF holds_persist_stopped [OF fair] holds_from_persistence [OF fair]]]
     split: sum.split attempt_exc.split)

lemma close_channel_terminal:
  "ch_terminal (close_channel ch)" "ch_terminal ch \<Longrightarrow> close_channel ch = ch"
  "\<not> ch_terminal ch \<Longrightarrow> ch_status (close_channel ch) = ''unconfirmed''"
  using finish_channel(2,3) [where ch = ch and status = "''unconfirmed''" and p = None]
  by (auto simp: close_channel_def final_statuses_def)

text \<open>C14: a background worker never reports an end that is not stored. Whatever the services, the
  identity provider and the checkpoints return, whatever other requests do to the database between its
  steps, and whether a commit is acknowledged, refused or done with its reply lost: when the task is over
  its channel is terminal, the database is reached by store steps, and the status the observers have seen
  is either \<open>unconfirmed\<close> or the status of the execution row, which is final (or the history is
  deleted).\<close>

theorem worker_reports_what_is_stored:
  assumes "fair_others env" and "job_in j d" and "\<not> ch_terminal ch"
    and "acc_token (jb_accepted j) = Some (jb_token j)" and "worker_task env j (d, ch) = (d', ch')"
  shows "ch_terminal ch' \<and> store_step\<^sup>*\<^sup>* d d'
    \<and> (ch_status ch' = ''unconfirmed'' \<or> row_ended j (ch_status ch') d')"
proof -
  obtain r d1 ch1 where b: "work_body env j (d, ch) = (r, (d1, ch1))" by (metis prod_cases3)
  obtain d2 ch2 where o: "at_others env ''release'' (d1, ch1) = (d2, ch2)" by fastforce
  have "reaches j (d, ch) (d2, ch2)"
    using reaches_trans [OF holdsD [OF holds_work_body [OF assms(1,4)] b] others_reach [OF assms(1), of j "(d1, ch1)"]] o
    by metis
  then have t: "truthful j (d2, ch2)" "store_step\<^sup>*\<^sup>* d d2"
    using assms(2,3) by (simp_all add: reaches_def truthful_def)
  have "d' = d2" "ch' = close_channel ch2" using assms(5) by (simp_all add: worker_task_def b o)
  then show ?thesis
    using t close_channel_terminal [of ch2] by (cases "ch_terminal ch2") (auto simp: truthful_def)
qed


text \<open>The database refuses the first transaction and accepts the later ones; nobody else acts.\<close>

definition demo_env :: "(unit, unit) attempt_env" where
  "demo_env =
     \<lparr>at_others = (\<lambda>_ w. w), at_now = (\<lambda>_. 30), at_link = (\<lambda>p. if p = ''running'' then Refused else Acknowledged), at_stop = (\<lambda>_. None),
      at_observed = True, at_text = (\<lambda>_. []), at_guard_busy = False, at_public = Inr (),
      at_restore = (\<lambda>_. Inr ()), at_revise = (\<lambda>_ _. Inr ()), at_analyze = None,
      at_query = (\<lambda>_ _. Inr (DQuery ())), at_reauth = Inr 7, at_authorize = Inr (), at_check = Inr (),
      at_encode = (\<lambda>_. Inr [])\<rparr>"

definition demo_job :: job where
  "demo_job =
     \<lparr>jb_owner = 7, jb_kind = Query, jb_requery = False, jb_question = [65], jb_request = [8],
      jb_accepted = \<lparr>acc_token = Some demo_token, acc_turn = (demo_turn, demo_turn_row), acc_base = None,
                     acc_source = None\<rparr>,
      jb_token = demo_token, jb_execution = demo_exec\<rparr>"

definition demo_channel :: channel where
  "demo_channel = projr (new_channel demo_exec demo_history demo_turn ''accepted'' None 8 4096 2)"

lemma demo_fair: "fair_others demo_env"
  by (simp add: fair_others_def demo_env_def)

lemma demo_job_in: "job_in demo_job demo_db"
  using demo_db_ok by (simp add: job_in_def) (simp add: demo_job_def demo_defs)

definition demo_error :: public_error where
  "demo_error = \<lparr>pe_request = [8], pe_code = ''HISTORY_STORAGE_UNAVAILABLE'', pe_message = []\<rparr>"

definition demo_failed :: db where
  "demo_failed = projr (map_sum id snd (finish_attempt 30 demo_db 7 demo_token None (Some demo_error) (Some demo_exec)))"

lemma demo_fail:
  "finish_attempt 30 demo_db 7 demo_token None (Some demo_error) (Some demo_exec)
     = Inr (settled_turn 30 None (Some demo_error) demo_turn_row, demo_failed)"
  "get_execution demo_failed 7 demo_exec
     = Inr (demo_exec_row\<lparr>ex_status := Failed, ex_error := Some demo_error, ex_finished_at := Some 30\<rparr>)"
  by (simp_all add: finish_attempt_unfold demo_failed_def demo_defs store_defs settled_turn_def settled_record_def
      get_execution_def locked_execution_def)

lemma demo_work:
  "worker_task demo_env demo_job (demo_db, demo_channel)
     = (demo_failed, close_channel (snd (finish ''failed'' (Some (error_payload demo_error)) demo_channel)))"
proof -
  have run: "work_run demo_env demo_job (demo_db, demo_channel)
     = (Inl (XHistory ''HISTORY_STORAGE_UNAVAILABLE'' []), (demo_db, demo_channel))"
    by (simp add: work_run_def thenA_def storeA_def store_call_def store_exc_def error_named_def
        demo_env_def)
  have fin: "persist_worker_failure demo_env demo_job ''HISTORY_STORAGE_UNAVAILABLE'' [] (demo_db, demo_channel)
     = (Inr (), (demo_failed, demo_channel))"
    using demo_fail(1)
    by (simp add: persist_worker_failure_def finishA_def storeA_def store_call_def demo_env_def demo_job_def demo_error_def)
  have read: "finish_from_persistence demo_env demo_job (demo_failed, demo_channel)
     = finish_progress ''failed'' (Some demo_error) (demo_failed, demo_channel)"
    using demo_fail(2)
    by (simp add: finish_from_persistence_def storeA_def store_call_def demo_env_def demo_job_def terminal_statuses_def
        status_text_def demo_exec_row_def)
  have "snd (work_body demo_env demo_job (demo_db, demo_channel))
     = (demo_failed, snd (finish ''failed'' (Some (error_payload demo_error)) demo_channel))"
    by (simp add: work_body_def run finish_worker_failure_def fin read finish_progress_snd)
  then show ?thesis by (simp add: worker_task_def) (simp add: demo_env_def)
qed

lemma worker_reports_what_is_stored_witness:
  "ch_status (snd (worker_task demo_env demo_job (demo_db, demo_channel))) = ''failed''
   \<and> row_ended demo_job ''failed'' (fst (worker_task demo_env demo_job (demo_db, demo_channel)))"
proof -
  have live: "\<not> ch_terminal demo_channel" by (simp add: demo_channel_def new_channel_def final_statuses_def)
  have "ch_status (snd (worker_task demo_env demo_job (demo_db, demo_channel))) = ''failed''"
    using finish_channel [where ch = demo_channel and status = "''failed''" and p = "Some (error_payload demo_error)"] live
    by (simp add: demo_work close_channel_def final_statuses_def)
  moreover have "acc_token (jb_accepted demo_job) = Some (jb_token demo_job)" by (simp add: demo_job_def)
  ultimately show ?thesis
    using worker_reports_what_is_stored [OF demo_fair demo_job_in live, of
      "fst (worker_task demo_env demo_job (demo_db, demo_channel))"
      "snd (worker_task demo_env demo_job (demo_db, demo_channel))"] by simp
qed


section \<open>What a delivered result has passed\<close>

lemma thenA_Inr: "thenA m f w = (Inr x, w') \<longleftrightarrow> (\<exists>y w1. m w = (Inr y, w1) \<and> f y w1 = (Inr x, w'))"
  by (auto simp: thenA_def split: prod.splits sum.splits)

lemma checkA_Inr: "checkA env p w = (Inr u, w') \<longleftrightarrow> at_stop env p = None \<and> w' = at_others env p w"
  by (auto simp: checkA_def split: option.splits)

lemma storeA_Inr: "storeA env p f w = (Inr x, w') \<Longrightarrow> at_link env p = Acknowledged"
  by (cases "at_link env p") (auto simp: storeA_def store_call_def split: prod.splits)

text \<open>C32: an execution returns a turn only after every gate of the attempt was passed: no stop at the
  first checkpoint, after the answer was produced or before it is saved; the caller was identified again,
  as the owner, and is still authorised; the runtime still holds its epoch; and the commit of the turn was
  acknowledged.\<close>

theorem result_needs_confirmation:
  assumes "acc_token acc = Some tok"
    and "execute_attempt env own k requery True question request acc (Some x) w = (Inr t, w')"
  shows "at_reauth env = Inr own \<and> at_authorize env = Inr () \<and> at_check env = Inr ()
    \<and> (\<forall>p\<in>{''begin'', ''delivered'', ''saving''}. at_stop env p = None) \<and> at_link env ''commit'' = Acknowledged"
proof -
  obtain out w1 where b: "business env own k requery question acc w = (Inr out, w1)"
    and s: "save env own tok (Some x) out w1 = (Inr t, w')"
    using execute_Inr [OF assms] by (rule complete_Inr)
  have "at_stop env ''saving'' = None" "at_link env ''commit'' = Acknowledged"
    using s by (auto simp: save_def thenA_Inr checkA_Inr finishA_def dest: storeA_Inr)
  moreover have "at_stop env ''begin'' = None"
    using b by (auto simp: business_def produce_def thenA_Inr checkA_Inr)
  moreover obtain u w2 w3 where "confirm env own w2 = (Inr u, w3)"
    using b by (auto simp: business_def thenA_Inr)
  then have "at_stop env ''delivered'' = None \<and> at_reauth env = Inr own \<and> at_authorize env = Inr ()
      \<and> at_check env = Inr ()"
    by (auto simp: confirm_def thenA_Inr checkA_Inr replyA_def failA_def split: if_splits)
  ultimately show ?thesis by simp
qed

lemma result_needs_confirmation_witness:
  "at_reauth demo_env = Inr 7 \<and> at_authorize demo_env = Inr () \<and> at_check demo_env = Inr ()
    \<and> at_stop demo_env ''begin'' = None \<and> at_stop demo_env ''delivered'' = None
    \<and> at_stop demo_env ''saving'' = None \<and> at_link demo_env ''commit'' = Acknowledged"
proof -
  let ?env = "demo_env\<lparr>at_observed := False\<rparr>"
  have "business ?env 7 Query False [65] (jb_accepted demo_job) (demo_db, demo_channel)
     = (Inr (Some [], None), (demo_db, demo_channel))"
    by (simp add: business_def produce_def confirm_def outcome_of_def base_query_def thenA_def checkA_def okA_def replyA_def
        demo_env_def demo_job_def)
  moreover have "save ?env 7 demo_token (Some demo_exec) (Some [], None) (demo_db, demo_channel)
     = (Inr (settled_turn 30 (Some []) None demo_turn_row), (demo_done, demo_channel))"
    using demo_finish by (simp add: save_def thenA_def checkA_def stageA_def finishA_def storeA_def store_call_def demo_env_def)
  ultimately have "execute_attempt ?env 7 Query False True [65] [8] (jb_accepted demo_job) (Some demo_exec)
     (demo_db, demo_channel) = (Inr (settled_turn 30 (Some []) None demo_turn_row), (demo_done, demo_channel))"
    by (simp add: execute_attempt_def complete_attempt_def demo_job_def Let_def)
  from result_needs_confirmation [OF _ this, of demo_token] show ?thesis
    by (simp add: demo_job_def demo_env_def)
qed

end
