(* ===== verification/Requery_Properties.thy ===== *)
theory Requery_Properties
  imports Store_Properties "HOL-Library.List_Lexorder"
begin

text \<open>
  What repeating a question and listing guarantee: an operation id opens at most one history, the source
  is not touched, and reading a list page by page loses and repeats nothing.
\<close>

section \<open>One history per operation\<close>

fun op_taken :: "int \<times> uid \<Rightarrow> tables \<Rightarrow> bool" where
  "op_taken (own, op) (R, T, E) = (\<exists>h r. R h = Some r \<and> hs_owner r = own \<and> hs_creation_op r = op)"

fun op_free :: "int \<times> uid \<Rightarrow> tables \<Rightarrow> bool" where
  "op_free k s = (\<not> op_taken k s)"

lemma op_taken_upd:
  assumes "op_taken k (R, T, E)"
    and "\<And>r. R h = Some r \<Longrightarrow> hs_owner r' = hs_owner r \<and> hs_creation_op r' = hs_creation_op r"
  shows "op_taken k (R(h \<mapsto> r'), T', E')"
proof -
  obtain own op where k: "k = (own, op)" by (cases k)
  with assms(1) obtain g r where g: "R g = Some r" "hs_owner r = own" "hs_creation_op r = op" by auto
  show ?thesis
  proof (cases "g = h")
    case True
    with g assms(2) [of r] show ?thesis by (auto simp: k)
  next
    case False
    with g show ?thesis by (auto simp: k)
  qed
qed

lemma op_taken_step: "hstep s s' \<Longrightarrow> op_taken k s \<Longrightarrow> op_taken k s'"
proof (induction rule: hstep.induct)
  case (recover R T E now)
  then obtain h r where h: "R h = Some r" "hs_owner r = fst k" "hs_creation_op r = snd k" by (cases k) auto
  then have "(map_option (free_record now) \<circ> R) h = Some (free_record now r)"
    "hs_creation_op (free_record now r) = hs_creation_op r"
    by (simp_all add: free_record_def clear_active_def)
  with h show ?case by (cases k) (metis free_record_simps(3) op_taken.simps fst_conv snd_conv)
next
  case (schedule_exec E x T e tr R)
  then show ?case by (cases k) simp
next
  case (advance_exec E x e e' R T)
  then show ?case by (cases k) simp
qed (erule op_taken_upd; simp)+

interpretation operation: irreversible ok_step op_taken op_free
  by unfold_locales (auto simp: ok_step_def intro: op_taken_step)

lemma map_sum_Inr [simp]: "map_sum f id r = Inr x \<longleftrightarrow> r = Inr x"
  by (cases r) simp_all

lemma begin_requery_created:
  assumes "begin_requery sha codec public ba locked slocked now d own src op rq ep ids xd = Inr (r, d')"
  obtains (known) "\<not> rr_created r" "d' = d"
  | (new) s q where "op_free (own, op) (tables_of d)" "read_source slocked d own src = Inr s" "sr_question s = Some q"
      "sr_kind s = Query \<or> (\<exists>x. src = FromSaved x) \<Longrightarrow> \<exists>u. public (sr_snapshot s) = Inr u"
      "open_requery sha codec now d own src op rq ep ids xd s q = Inr (r, d')"
proof -
  obtain again where again: "replay_execution d own op xd = Inr again"
    using assms by (auto simp: begin_requery_def bindR_iffs store_rq_Inr)
  show thesis
  proof (cases again)
    case (Some x)
    then show thesis using assms again
      by (intro known) (auto simp: begin_requery_def replay_execution_def store_rq_def bindR_iffs split: option.splits)
  next
    case None
    obtain old where old: "replay_history sha locked d own src op xd = Inr old"
      using assms again None by (auto simp: begin_requery_def bindR_iffs store_rq_Inr)
    show thesis
    proof (cases old)
      case (Some x)
      then show thesis using assms again None old
        by (intro known) (auto simp: begin_requery_def replay_history_def store_rq_def bindR_iffs split: option.splits if_splits)
    next
      case no: None
      have "sel_first (\<lambda>_ r. hs_owner r = own \<and> hs_creation_op r = op) (db_records d) = None"
        using old no by (auto simp: replay_history_def split: option.splits if_splits)
      then have "op_free (own, op) (tables_of d)"
        by (auto simp: tables_of_def dest: sel_first_None_map_of)
      moreover obtain s q where "read_source slocked d own src = Inr s" "sr_question s = Some q"
        "sr_kind s = Query \<or> (\<exists>x. src = FromSaved x) \<longrightarrow> (\<exists>u. public (sr_snapshot s) = Inr u)"
        "open_requery sha codec now d own src op rq ep ids xd s q = Inr (r, d')"
        using assms again None old no
        by (auto simp: begin_requery_def bindR_iffs store_rq_Inr split: option.splits if_splits)
      ultimately show thesis by (intro new) auto
    qed
  qed
qed

lemma open_takes:
  assumes "db_ok d" and "open_requery sha codec now d own src op rq ep ids xd s q = Inr (r, d')"
  shows "op_taken (own, op) (tables_of d')"
  using assms by (rule open_requery_Inr) (auto simp: tables_of_def)

text \<open>C26: An operation id opens at most one history: once a request to repeat a question has created one,
  no later request of the same user with the same id creates another or changes anything, whatever it asks
  for, and even when the history has been deleted since.\<close>

theorem requery_creates_once:
  assumes ok: "db_ok d"
    and first: "begin_requery sha codec public ba locked slocked now d own src op rq ep ids xd = Inr (r, d1)"
    and made: "rr_created r" and later: "store_step\<^sup>*\<^sup>* d1 d2"
    and again: "begin_requery sha2 codec2 public2 ba2 locked2 slocked2 now2 d2 own src2 op rq2 ep2 ids2 xd2
                  = Inr (r2, d3)"
  shows "\<not> rr_created r2 \<and> d3 = d2"
  using first
proof (cases rule: begin_requery_created)
  case (new s q)
  have ok1: "db_ok d1" using begin_requery_refines [OF ok first] by (rule refined_ok)
  have "op_taken (own, op) (tables_of d2)"
    using operation.sealed_steps [OF store_steps_ok [OF later ok1] open_takes [OF ok new(5)]] .
  then show ?thesis
    by - (rule begin_requery_created [OF again]; simp)
qed (use made in simp)

definition demo_xd :: execution_data where
  "demo_xd = \<lparr>xd_hash = [6], xd_kind = OpHistoryRequery, xd_deadline = 180, xd_run = None\<rparr>"

definition demo_ids :: requery_ids where
  "demo_ids = \<lparr>ri_history = [11], ri_turn = [12], ri_execution = [13], ri_run = [14]\<rparr>"

definition demo_rq :: "bool \<Rightarrow> time \<Rightarrow> db \<Rightarrow> requery_result rq_tx" where
  "demo_rq locked now d = begin_requery demo_sha (\<lambda>_. Inr ()) (\<lambda>_. Inr ()) (\<lambda>_. None) locked False now d 7
     (FromHistory demo_history (Some demo_turn)) [21] [8] demo_epoch demo_ids (Some demo_xd)"

definition demo_rq_db :: db where "demo_rq_db = snd (projr (demo_rq False 50 demo_done))"

lemma demo_rq_first: "\<exists>r. demo_rq False 50 demo_done = Inr (r, demo_rq_db) \<and> rr_created r"
  and demo_rq_again: "\<exists>r. demo_rq True 60 demo_rq_db = Inr (r, demo_rq_db) \<and> \<not> rr_created r"
  by (simp_all add: demo_rq_db_def demo_rq_def demo_xd_def demo_ids_def demo_done_def demo_defs store_defs
      begin_requery_def replay_execution_def replay_history_def read_source_def history_source_def store_rq_def
      open_requery_def requery_record_def strip_def py_isspace_def settled_turn_def settled_record_def
      dict_get_def owned_def)

lemma requery_creates_once_witness:
  "\<exists>r. demo_rq True 60 demo_rq_db = Inr (r, demo_rq_db) \<and> \<not> rr_created r"
proof -
  obtain r r2 where first: "demo_rq False 50 demo_done = Inr (r, demo_rq_db)" "rr_created r"
    and again: "demo_rq True 60 demo_rq_db = Inr (r2, demo_rq_db)"
    using demo_rq_first demo_rq_again by auto
  have "\<not> rr_created r2"
    using requery_creates_once [OF demo_done_ok first(1) [unfolded demo_rq_def] first(2) rtranclp.rtrancl_refl
        again [unfolded demo_rq_def]] by blast
  with again show ?thesis by blast
qed

text \<open>Repeating a question opens a history of its own and touches nothing else: the new history belongs
  to the caller, its one turn is accepted under a valid token and carries the snapshot that is repeated
  (which the codec accepted when it is a stored result); every other history, turn, saved result and
  analysis run is as it was.\<close>

theorem requery_is_separate:
  assumes ok: "db_ok d" and made: "rr_created r"
    and res: "begin_requery sha codec public ba locked slocked now d own src op rq ep ids xd = Inr (r, d')"
  shows "\<exists>s z t. read_source slocked d own src = Inr s \<and> map_of (db_records d) (ri_history ids) = None
    \<and> map_of (db_records d') = (map_of (db_records d))(ri_history ids \<mapsto> z)
    \<and> map_of (db_turns d') = (map_of (db_turns d))(ri_turn ids \<mapsto> t)
    \<and> db_saved d' = db_saved d \<and> db_runs d' = db_runs d
    \<and> hs_owner z = own \<and> hs_kind z = sr_kind s \<and> tn_input t = Some (sr_snapshot s)
    \<and> (\<exists>tok. acc_token (rr_attempt r) = Some tok \<and> token_valid tok (tables_of d') \<and> tk_turn tok = ri_turn ids)"
  using res
proof (cases rule: begin_requery_created)
  case (new s q)
  show ?thesis
    using ok new(5) by (rule open_requery_Inr) (use new(2) in \<open>auto simp: tables_of_def\<close>)
qed (use made in simp)

lemma requery_is_separate_witness:
  "\<exists>z. map_of (db_records demo_rq_db) = (map_of (db_records demo_done))([11] \<mapsto> z) \<and> hs_owner z = 7
     \<and> db_saved demo_rq_db = db_saved demo_done"
proof -
  obtain r where r: "demo_rq False 50 demo_done = Inr (r, demo_rq_db)" "rr_created r"
    using demo_rq_first by blast
  show ?thesis
    using requery_is_separate [OF demo_done_ok r(2) r(1) [unfolded demo_rq_def]] by (auto simp: demo_ids_def)
qed

section \<open>Lists\<close>

text \<open>The rows of a list below a cursor, newest first.\<close>

definition rows_below ::
  "(uid \<Rightarrow> uid \<Rightarrow> bool) \<Rightarrow> ('r \<Rightarrow> time) \<Rightarrow> (uid \<Rightarrow> 'r \<Rightarrow> bool) \<Rightarrow> (uid, 'r) table \<Rightarrow> list_cursor option
   \<Rightarrow> (uid \<times> 'r) list" where
  "rows_below lt upd visible rows cursor =
     order_desc lt upd (filter (\<lambda>(k, r). visible k r
       \<and> (case cursor of None \<Rightarrow> True | Some c \<Rightarrow> before_boundary lt (upd r, k) (lc_updated c, lc_id c))) rows)"

definition newer :: "(uid \<Rightarrow> uid \<Rightarrow> bool) \<Rightarrow> ('r \<Rightarrow> time) \<Rightarrow> uid \<times> 'r \<Rightarrow> uid \<times> 'r \<Rightarrow> bool" where
  "newer lt upd x y \<longleftrightarrow> before_boundary lt (upd (snd y), fst y) (upd (snd x), fst x)"

definition strict_order :: "('a \<Rightarrow> 'a \<Rightarrow> bool) \<Rightarrow> bool" where
  "strict_order lt \<longleftrightarrow> (\<forall>a. \<not> lt a a) \<and> (\<forall>a b c. lt a b \<longrightarrow> lt b c \<longrightarrow> lt a c)
     \<and> (\<forall>a b. a \<noteq> b \<longrightarrow> lt a b \<or> lt b a)"

lemma before_boundary_order:
  assumes "strict_order lt"
  shows "strict_order (before_boundary lt)"
proof -
  have irr: "\<not> lt a a" and tot: "a \<noteq> b \<Longrightarrow> lt a b \<or> lt b a" for a b using assms by (simp_all add: strict_order_def)
  have tr: "lt a b \<Longrightarrow> lt b c \<Longrightarrow> lt a c" for a b c using assms unfolding strict_order_def by blast
  have "\<not> before_boundary lt a a" for a by (simp add: before_boundary_def irr)
  moreover have "before_boundary lt a b \<Longrightarrow> before_boundary lt b c \<Longrightarrow> before_boundary lt a c" for a b c
    using tr [of "snd a" "snd b" "snd c"] unfolding before_boundary_def by auto
  moreover have "a \<noteq> b \<Longrightarrow> before_boundary lt a b \<or> before_boundary lt b a" for a b
    using tot [of "snd a" "snd b"] unfolding before_boundary_def by (cases a; cases b) auto
  ultimately show ?thesis unfolding strict_order_def by blast
qed

lemma newer_rules:
  assumes "strict_order lt"
  shows "newer lt upd x y \<Longrightarrow> \<not> newer lt upd y x"
    and "newer lt upd x y \<Longrightarrow> newer lt upd y z \<Longrightarrow> newer lt upd x z"
    and "fst x \<noteq> fst y \<Longrightarrow> \<not> newer lt upd y x \<Longrightarrow> newer lt upd x y"
  using before_boundary_order [OF assms] unfolding newer_def strict_order_def
  by (metis, metis, metis prod.inject)

lemma set_insert_desc: "set (insert_desc lt upd r xs) = insert r (set xs)"
  by (induction xs) auto

lemma set_order_desc: "set (order_desc lt upd rows) = set rows"
  by (induction rows) (auto simp: order_desc_def set_insert_desc)

lemma insert_desc_sorted:
  assumes so: "strict_order lt"
  shows "sorted_wrt (newer lt upd) xs \<Longrightarrow> fst r \<notin> fst ` set xs \<Longrightarrow> sorted_wrt (newer lt upd) (insert_desc lt upd r xs)"
proof (induction xs)
  case (Cons x xs)
  show ?case
  proof (cases "newer lt upd x r")
    case True
    with Cons show ?thesis by (auto simp: newer_def [symmetric] set_insert_desc)
  next
    case False
    then have "newer lt upd r x" using Cons.prems(2) by (intro newer_rules(3) [OF so]) auto
    with False Cons.prems newer_rules(2) [OF so, of upd r x] show ?thesis by (auto simp: newer_def [symmetric])
  qed
qed simp

lemma order_desc_sorted:
  "strict_order lt \<Longrightarrow> distinct (map fst rows) \<Longrightarrow> sorted_wrt (newer lt upd) (order_desc lt upd rows)"
  by (induction rows) (auto simp: order_desc_def intro!: insert_desc_sorted simp: set_order_desc [unfolded order_desc_def])

lemma filter_order_desc:
  assumes "strict_order lt" and "distinct (map fst rows)"
  shows "filter P (order_desc lt upd rows) = order_desc lt upd (filter P rows)"
proof (rule strictly_sorted_unique [where R = "newer lt upd"])
  show "sorted_wrt (newer lt upd) (filter P (order_desc lt upd rows))"
    by (rule sorted_wrt_filter [OF order_desc_sorted [OF assms]])
  show "sorted_wrt (newer lt upd) (order_desc lt upd (filter P rows))"
    using assms by (intro order_desc_sorted) (simp_all add: distinct_map_filter)
qed (auto simp: set_order_desc dest: newer_rules(1) [OF assms(1)])

lemma list_page_fits:
  assumes "case cursor of None \<Rightarrow> True | Some c \<Rightarrow> lc_filter c = fsha flt"
  shows "list_page lt fsha upd visible rows flt limit (map_option Some cursor) =
    (let l = rows_below lt upd visible rows cursor; items = take limit l
     in if length l > limit then (case last items of
          (k, r) \<Rightarrow> Inr (items, Some \<lparr>lc_updated = upd r, lc_id = k, lc_filter = fsha flt\<rparr>))
        else Inr (items, None))"
  using assms by (cases cursor) (auto simp: list_page_def rows_below_def Let_def min_def)

lemma list_page_fitting:
  "list_page lt fsha upd visible rows flt limit (map_option Some cursor) = Inr p \<Longrightarrow>
     case cursor of None \<Rightarrow> True | Some c \<Rightarrow> lc_filter c = fsha flt"
  by (auto simp: list_page_def bindR_iffs split: option.splits if_splits)

lemma list_page_complete:
  assumes so: "strict_order lt" and keys: "keys_ok rows" and pos: "0 < limit"
    and res: "list_page lt fsha upd visible rows flt limit (map_option Some cursor) = Inr (items, next_cursor)"
  shows "length items \<le> limit \<and> sorted_wrt (newer lt upd) items
    \<and> rows_below lt upd visible rows cursor = items @ (case next_cursor of None \<Rightarrow> []
        | Some c \<Rightarrow> rows_below lt upd visible rows (Some c))
    \<and> (\<forall>c. next_cursor = Some c \<longrightarrow> lc_filter c = fsha flt \<and> length items = limit)
    \<and> sorted_wrt (newer lt upd) (rows_below lt upd visible rows cursor)"
proof -
  let ?L = "rows_below lt upd visible rows cursor"
  let ?P = "\<lambda>c (k, r). visible k r \<and> (case c of None \<Rightarrow> True
     | Some c \<Rightarrow> before_boundary lt (upd r, k) (lc_updated c, lc_id c))"
  have dist: "distinct (map fst rows)" using keys by (simp add: keys_ok_def)
  have sorted: "sorted_wrt (newer lt upd) ?L"
    unfolding rows_below_def using so dist by (intro order_desc_sorted) (simp_all add: distinct_map_filter)
  note r = res [unfolded list_page_fits [where cursor = cursor and fsha = fsha and flt = flt, OF list_page_fitting [OF res]] Let_def]
  have "last (take limit ?L) = ?L ! (limit - 1)" if "length ?L > limit"
    using that pos by (subst last_conv_nth) (auto simp: min_def)
  with r have page: "items = take limit ?L"
    and nxt: "next_cursor = (if length ?L > limit
      then Some \<lparr>lc_updated = upd (snd (?L ! (limit - 1))), lc_id = fst (?L ! (limit - 1)), lc_filter = fsha flt\<rparr> else None)"
    by (auto simp: case_prod_beta split: if_splits)
  have "?L = items @ (case next_cursor of None \<Rightarrow> [] | Some c \<Rightarrow> rows_below lt upd visible rows (Some c))"
  proof (cases "length ?L > limit")
    case True
    let ?x = "?L ! (limit - 1)"
    define c where "c = \<lparr>lc_updated = upd (snd ?x), lc_id = fst ?x, lc_filter = fsha flt\<rparr>"
    have c: "before_boundary lt (upd r, k) (lc_updated c, lc_id c) \<longleftrightarrow> newer lt upd ?x (k, r)" for k r
      by (simp add: c_def newer_def)
    have "?x \<in> set ?L" using True by (intro nth_mem) simp
    then have x: "?P cursor ?x" by (auto simp: rows_below_def set_order_desc)
    have "drop (Suc (limit - 1)) ?L = filter (newer lt upd ?x) ?L"
      using True by (intro filter_after_drop [OF sorted _ newer_rules(1) [OF so], symmetric]) auto
    also have "\<dots> = order_desc lt upd (filter (newer lt upd ?x) (filter (?P cursor) rows))"
      unfolding rows_below_def using so dist by (intro filter_order_desc) (simp_all add: distinct_map_filter)
    also have "filter (newer lt upd ?x) (filter (?P cursor) rows) = filter (?P (Some c)) rows"
      unfolding filter_filter
    proof (rule filter_cong [OF refl])
      fix p assume "p \<in> set rows"
      show "(?P cursor p \<and> newer lt upd ?x p) = ?P (Some c) p"
      proof (cases cursor)
        case (Some a)
        have "newer lt upd ?x p \<Longrightarrow> before_boundary lt (upd (snd p), fst p) (lc_updated a, lc_id a)"
          using x before_boundary_order [OF so] by (auto simp: Some newer_def strict_order_def)
        then show ?thesis by (cases p) (auto simp: Some c)
      qed (cases p, simp add: c conj_commute)
    qed
    finally have "rows_below lt upd visible rows (Some c) = drop limit ?L"
      using pos by (simp add: rows_below_def)
    moreover have "next_cursor = Some c" using True by (simp add: nxt c_def)
    ultimately show ?thesis by (simp add: page)
  qed (simp add: nxt page)
  then show ?thesis
    using sorted by (auto simp: page nxt sorted_wrt_take split: if_splits)
qed

text \<open>
  What a list has to show: the caller's undeleted histories, of the wanted kind and with the wanted text
  in the title (as an \<open>ILIKE\<close> pattern); and the part of it below a cursor.
\<close>

definition wanted_histories ::
  "(pystr \<Rightarrow> pystr \<Rightarrow> bool) \<Rightarrow> db \<Rightarrow> int \<Rightarrow> kind option \<Rightarrow> pystr \<Rightarrow> (uid \<times> history_row) set" where
  "wanted_histories ilike d own knd q =
     {(k, r). map_of (db_records d) k = Some r \<and> hs_owner r = own \<and> hs_deleted r = None
        \<and> (knd = None \<or> knd = Some (hs_kind r)) \<and> (q = [] \<or> ilike (hs_title r) (37 # escape_like q @ [37]))}"

definition below_cursor ::
  "(uid \<Rightarrow> uid \<Rightarrow> bool) \<Rightarrow> list_cursor option \<Rightarrow> (uid \<times> history_row) set \<Rightarrow> (uid \<times> history_row) set" where
  "below_cursor lt cursor rows =
     (case cursor of
        None \<Rightarrow> rows
      | Some c \<Rightarrow> {(k, r) \<in> rows. hs_updated_at r < lc_updated c \<or> hs_updated_at r = lc_updated c \<and> lt k (lc_id c)})"

lemma set_rows_below:
  assumes "keys_ok (db_records d)"
  shows "set (rows_below lt hs_updated_at
      (\<lambda>_ r. hs_owner r = own \<and> hs_deleted r = None \<and> (case knd of None \<Rightarrow> True | Some k \<Rightarrow> hs_kind r = k)
          \<and> (q = [] \<or> ilike (hs_title r) (like_pattern q))) (db_records d) cursor)
    = below_cursor lt cursor (wanted_histories ilike d own knd q)"
  using map_of_keys_ok [OF assms]
  by (cases knd) (auto simp: rows_below_def set_order_desc below_cursor_def wanted_histories_def
      before_boundary_def like_pattern_def split: option.splits)

text \<open>C28: Reading the list of histories page by page loses and repeats nothing. A page holds at most
  \<open>limit\<close> of the caller's undeleted histories of the wanted kind and title, newest first in strictly
  descending order; together with the wanted histories below the returned cursor, which are others, they
  are exactly the wanted histories below the given cursor. Without a returned cursor nothing is left;
  with one the page is full and the next call accepts the cursor.\<close>

theorem listing_is_complete:
  assumes "strict_order lt" and "db_ok d" and "0 < limit"
    and "list_histories lt fsha ilike d own knd limit (map_option Some cursor) q = Inr (items, next_cursor)"
  shows "length items \<le> limit
    \<and> sorted_wrt (\<lambda>(k, r) (k', r'). hs_updated_at r' < hs_updated_at r \<or> hs_updated_at r' = hs_updated_at r \<and> lt k' k) items
    \<and> (case next_cursor of
         None \<Rightarrow> below_cursor lt cursor (wanted_histories ilike d own knd q) = set items
       | Some c \<Rightarrow>
           length items = limit
           \<and> below_cursor lt cursor (wanted_histories ilike d own knd q)
             = set items \<union> below_cursor lt (Some c) (wanted_histories ilike d own knd q)
           \<and> set items \<inter> below_cursor lt (Some c) (wanted_histories ilike d own knd q) = {}
           \<and> (\<exists>page. list_histories lt fsha ilike d own knd limit (Some (Some c)) q = Inr page))"
proof -
  let ?v = "\<lambda>_ r. hs_owner r = own \<and> hs_deleted r = None \<and> (case knd of None \<Rightarrow> True | Some k \<Rightarrow> hs_kind r = k)
          \<and> (q = [] \<or> ilike (hs_title r) (like_pattern q))"
  let ?flt = "\<lparr>lf_kind = knd, lf_text = q, lf_saved = False\<rparr>"
  let ?below = "rows_below lt hs_updated_at ?v (db_records d)"
  have keys: "keys_ok (db_records d)" using assms(2) by (simp add: db_ok_def)
  note page = list_page_complete [OF assms(1) keys assms(3) assms(4) [unfolded list_histories_def]]
  note sets = set_rows_below [OF keys, of lt own knd q ilike]
  have descending: "newer lt hs_updated_at
      = (\<lambda>(k, r) (k', r'). hs_updated_at r' < hs_updated_at r \<or> hs_updated_at r' = hs_updated_at r \<and> lt k' k)"
    by (auto simp: newer_def before_boundary_def fun_eq_iff)
  show ?thesis
  proof (cases next_cursor)
    case None
    with page have "set (?below cursor) = set items" by simp
    then have "below_cursor lt cursor (wanted_histories ilike d own knd q) = set items" by (simp only: sets)
    with page None show ?thesis by (simp add: descending)
  next
    case (Some c)
    with page have split: "?below cursor = items @ ?below (Some c)" and full: "length items = limit"
      and fits: "lc_filter c = fsha ?flt" by simp_all
    have "x \<notin> set (?below (Some c))" if "x \<in> set items" for x
      using page that newer_rules(1) [OF assms(1), of hs_updated_at x x] by (auto simp: split sorted_wrt_append)
    then have disjoint: "set items \<inter> set (?below (Some c)) = {}" by blast
    have union: "set (?below cursor) = set items \<union> set (?below (Some c))" by (simp add: split)
    have "\<exists>p. list_page lt fsha hs_updated_at ?v (db_records d) ?flt limit (map_option Some (Some c)) = Inr p"
      by (subst list_page_fits) (simp_all add: fits Let_def case_prod_beta)
    then have "\<exists>page. list_histories lt fsha ilike d own knd limit (Some (Some c)) q = Inr page"
      by (simp add: list_histories_def)
    moreover have "sorted_wrt (newer lt hs_updated_at) items" using page by blast
    ultimately show ?thesis using disjoint [unfolded sets] union [unfolded sets] full
      by (simp only: Some option.case descending) simp
  qed
qed

lemma listing_is_complete_witness:
  "wanted_histories (\<lambda>_ _. False) demo_db 7 None [] = set (db_records demo_db)
   \<and> list_histories (<) (\<lambda>_. []) (\<lambda>_ _. False) demo_db 7 None 1 None [] = Inr (db_records demo_db, None)"
proof -
  have so: "strict_order ((<) :: nat list \<Rightarrow> nat list \<Rightarrow> bool)" by (auto simp: strict_order_def)
  have l: "list_histories (<) (\<lambda>_. []) (\<lambda>_ _. False) demo_db 7 None 1 (map_option Some None) []
     = Inr (db_records demo_db, None)"
    by (simp add: list_histories_def list_page_def order_desc_def demo_defs)
  show ?thesis using listing_is_complete [OF so demo_db_ok _ l] l by (simp add: below_cursor_def)
qed

end
