(* ===== verification/Submission.thy ===== *)
theory Submission
  imports Worker Execution_Runtime History_Requery
begin

text \<open>
  The calls of \<open>ExecutionApplication\<close> (\<open>query_api/execution.py\<close>) and of \<open>HistoryApplication\<close>
  (\<open>query_api/history.py\<close>) around the attempts: submit, requery, get, subscribe, cancel, and the dispatch
  of the background worker. A call acts on the database and on the execution runtime; other requests may
  change the database between its steps (\<open>at_others\<close> of the attempt's environment), a commit may fail or
  lose its reply (\<open>at_link\<close>). The runtime's own steps are whole critical sections.
\<close>

record sys =
  sy_db :: db
  sy_rt :: exec_rt

datatype app_exc = AppAttempt attempt_exc | AppRuntime xr_error

type_synonym 'a app = "sys \<Rightarrow> (app_exc + 'a) \<times> sys"

record caller =
  cl_user :: "int option"
  cl_provider :: pystr
  cl_subject :: pystr

text \<open>\<open>sb_answer\<close>: the refusal code of the authorisation at a place. \<open>sb_ready\<close>: no readiness check, or its
  outcome. \<open>sb_ping\<close>: the guard connection answers. \<open>sb_locked\<close>: the row is locked by another transaction.
  \<open>sb_admit\<close>: the refusal of the admission of a synchronous attempt.\<close>

datatype request_value =
    SubmitValue kind uid "pystr option" "int option" "int option"
  | RequeryValue requery_source

record ('s, 'r) app_env =
  sb_attempt :: "('s, 'r) attempt_env"
  sb_answer :: "string \<Rightarrow> string option"
  sb_ready :: "bool option"
  sb_ping :: "string \<Rightarrow> bool"
  sb_locked :: "string \<Rightarrow> bool"
  sb_closing :: bool
  sb_pool :: bool
  sb_clock :: rat
  sb_epoch :: uid
  sb_sha :: "op_value \<Rightarrow> pystr"
  sb_digest :: "request_value \<Rightarrow> pystr"
  sb_question_sha :: "pystr \<Rightarrow> pystr"
  sb_codec :: "snapshot \<Rightarrow> string + unit"
  sb_public :: "snapshot \<Rightarrow> string + unit"
  sb_admit :: "kind \<Rightarrow> store_error option"
  sb_ids :: requery_ids

section \<open>Steps\<close>

definition app_error :: "('s, 'r) app_env \<Rightarrow> string \<Rightarrow> app_exc" where
  "app_error env code = AppAttempt (error_named (sb_attempt env) code)"

text \<open>A new channel has room for 64 events, one mebibyte and 8 subscribers.\<close>

definition execution_channel :: "uid \<Rightarrow> exec_row \<Rightarrow> channel" where
  "execution_channel x e =
     projr (new_channel x (ex_history e) (ex_turn e) (status_text (ex_status e))
              (map_option reason_text (ex_stop_reason e)) 64 (1024 * 1024) 8)"

definition spare_channel :: channel where
  "spare_channel = projr (new_channel [] [] [] ''accepted'' None 64 (1024 * 1024) 8)"

text \<open>An action on the database alone, and one on the database and a channel of the runtime.\<close>

definition on_db :: "'a act \<Rightarrow> 'a app" where
  "on_db m s =
     (case m (sy_db s, spare_channel) of (r, (d, _)) \<Rightarrow> (map_sum AppAttempt id r, s\<lparr>sy_db := d\<rparr>))"

definition on_world :: "nat \<Rightarrow> 'a act \<Rightarrow> 'a app" where
  "on_world k m s =
     (case m (sy_db s, xr_chans (sy_rt s) ! k) of
        (r, (d, ch)) \<Rightarrow>
          (map_sum AppAttempt id r,
           s\<lparr>sy_db := d, sy_rt := (sy_rt s)\<lparr>xr_chans := (xr_chans (sy_rt s))[k := ch]\<rparr>\<rparr>))"

definition on_rt :: "(exec_rt \<Rightarrow> (xr_error + 'a) \<times> exec_rt) \<Rightarrow> 'a app" where
  "on_rt f s = (case f (sy_rt s) of (r, rt) \<Rightarrow> (map_sum AppRuntime id r, s\<lparr>sy_rt := rt\<rparr>))"

definition storeS :: "('s, 'r) app_env \<Rightarrow> string \<Rightarrow> (time \<Rightarrow> db \<Rightarrow> 'a tx) \<Rightarrow> 'a app" where
  "storeS env place f = on_db (storeA (sb_attempt env) place f)"

definition readS :: "('s, 'r) app_env \<Rightarrow> string \<Rightarrow> (time \<Rightarrow> db \<Rightarrow> store_error + 'a) \<Rightarrow> 'a app" where
  "readS env place f = storeS env place (\<lambda>now d. map_sum id (\<lambda>x. (x, d)) (f now d))"

text \<open>An exception with a given code is handled.\<close>

definition on_code :: "string \<Rightarrow> 'a app \<Rightarrow> 'a app \<Rightarrow> 'a app" where
  "on_code code handler m s =
     (case m s of
        (Inl (AppAttempt (XHistory c t)), s1) \<Rightarrow>
          if c = code then handler s1 else (Inl (AppAttempt (XHistory c t)), s1)
      | out \<Rightarrow> out)"

section \<open>Reading through the application\<close>

definition authorizeS :: "('s, 'r) app_env \<Rightarrow> caller \<Rightarrow> string \<Rightarrow> unit app" where
  "authorizeS env c place =
     (case cl_user c of
        None \<Rightarrow> failA (app_error env ''AUTHENTICATION_REQUIRED'')
      | Some _ \<Rightarrow> (case sb_answer env place of None \<Rightarrow> okA () | Some code \<Rightarrow> failA (app_error env code)))"

definition user_of :: "caller \<Rightarrow> int" where
  "user_of c = (case cl_user c of None \<Rightarrow> 0 | Some u \<Rightarrow> u)"

definition subject_of :: "caller \<Rightarrow> pystr" where
  "subject_of c = cl_provider c @ lit '':'' @ cl_subject c"

definition checkR :: "('s, 'r) app_env \<Rightarrow> string \<Rightarrow> unit app" where
  "checkR env place s =
     (case hr_check (sb_ping env place) (xr_history (sy_rt s)) of
        (r, h) \<Rightarrow> (map_sum (app_error env) id r, s\<lparr>sy_rt := (sy_rt s)\<lparr>xr_history := h\<rparr>\<rparr>))"

text \<open>\<open>HistoryRuntime.reconcile\<close>: not while this process runs the history.\<close>

definition reconcileS :: "('s, 'r) app_env \<Rightarrow> uid \<Rightarrow> unit app" where
  "reconcileS env h =
     thenA (checkR env ''reconcile'') (\<lambda>_ s.
       storeS env ''reconcile''
         (\<lambda>now d. map_sum id (\<lambda>d'. ((), d'))
            (reconcile (h \<in> hr_running (xr_history (sy_rt s))) (sb_locked env ''reconcile'') now (sb_epoch env) d h)) s)"

definition headerS :: "('s, 'r) app_env \<Rightarrow> caller \<Rightarrow> uid \<Rightarrow> (history_row \<times> bool) app" where
  "headerS env c h =
     thenA (authorizeS env c ''header'') (\<lambda>_.
     thenA (readS env ''header'' (\<lambda>now d. history_header now d (user_of c) h)) (\<lambda>_.
     thenA (on_code ''HISTORY_STORAGE_UNAVAILABLE'' (okA ()) (reconcileS env h)) (\<lambda>_.
     readS env ''header again'' (\<lambda>now d. history_header now d (user_of c) h))))"

definition turnS :: "('s, 'r) app_env \<Rightarrow> caller \<Rightarrow> uid \<Rightarrow> uid \<Rightarrow> (turn_row \<times> uid option) app" where
  "turnS env c h t =
     thenA (authorizeS env c ''turn'') (\<lambda>_. readS env ''turn'' (\<lambda>_ d. read_turn d (user_of c) h t))"

record view =
  vw_execution :: "uid \<times> exec_row"
  vw_history :: "history_row \<times> bool"
  vw_turn :: "turn_row \<times> uid option"

definition viewS :: "('s, 'r) app_env \<Rightarrow> caller \<Rightarrow> uid \<times> exec_row \<Rightarrow> view app" where
  "viewS env c xe =
     thenA (headerS env c (ex_history (snd xe))) (\<lambda>h.
     thenA (turnS env c (ex_history (snd xe)) (ex_turn (snd xe))) (\<lambda>t.
     thenA (readS env ''view'' (\<lambda>_ d. get_execution d (user_of c) (fst xe))) (\<lambda>e.
     okA \<lparr>vw_execution = (fst xe, e), vw_history = h, vw_turn = t\<rparr>)))"

definition get_record :: "('s, 'r) app_env \<Rightarrow> caller \<Rightarrow> uid \<Rightarrow> exec_row app" where
  "get_record env c x =
     on_code ''HISTORY_UNAVAILABLE'' (failA (app_error env ''EXECUTION_UNAVAILABLE''))
       (readS env ''record'' (\<lambda>_ d. get_execution d (user_of c) x))"

definition getS :: "('s, 'r) app_env \<Rightarrow> caller \<Rightarrow> uid \<Rightarrow> view app" where
  "getS env c x =
     thenA (authorizeS env c ''get'') (\<lambda>_. thenA (get_record env c x) (\<lambda>e. viewS env c (x, e)))"

definition subscribeS ::
  "('s, 'r) app_env \<Rightarrow> caller \<Rightarrow> uid \<Rightarrow> (view \<times> (event \<times> subscription) option) app" where
  "subscribeS env c x =
     thenA (getS env c x) (\<lambda>v s.
       case subscribe_execution x (sy_rt s) of
         (None, rt) \<Rightarrow> (Inr (v, None), s\<lparr>sy_rt := rt\<rparr>)
       | (Some (Inl SubscriberLimit), rt) \<Rightarrow> (Inl (app_error env ''EXECUTION_SUBSCRIBER_LIMIT''), s\<lparr>sy_rt := rt\<rparr>)
       | (Some (Inl e), rt) \<Rightarrow> (Inl (AppRuntime (XrEvent e)), s\<lparr>sy_rt := rt\<rparr>)
       | (Some (Inr sub), rt) \<Rightarrow> (Inr (v, Some sub), s\<lparr>sy_rt := rt\<rparr>))"

definition authorize_observer :: "('s, 'r) app_env \<Rightarrow> caller \<Rightarrow> uid \<Rightarrow> exec_row app" where
  "authorize_observer env c x = thenA (authorizeS env c ''observe'') (\<lambda>_. get_record env c x)"

definition cancelS :: "('s, 'r) app_env \<Rightarrow> caller \<Rightarrow> uid \<Rightarrow> view app" where
  "cancelS env c x =
     thenA (authorizeS env c ''cancel'') (\<lambda>_.
     thenA (storeS env ''cancel''
              (\<lambda>now d. request_execution_stop (sb_question_sha env) now d (user_of c) x USER_CANCELLED
                         (Some (subject_of c)))) (\<lambda>e.
     thenA (if ex_status e = Stopping
            then on_rt (\<lambda>rt. case signal_stop x (case ex_stop_reason e of None \<Rightarrow> [] | Some r \<Rightarrow> reason_text r) rt of
                               (r, rt') \<Rightarrow> (map_sum XrStop id r, rt'))
            else okA ()) (\<lambda>_.
     viewS env c (x, e))))"

definition by_operationS :: "('s, 'r) app_env \<Rightarrow> caller \<Rightarrow> uid \<Rightarrow> view app" where
  "by_operationS env c op =
     thenA (authorizeS env c ''operation'') (\<lambda>_.
     thenA (readS env ''operation'' (\<lambda>_ d. execution_by_operation d (user_of c) op None)) (\<lambda>found.
     case found of None \<Rightarrow> failA (app_error env ''EXECUTION_UNAVAILABLE'') | Some xe \<Rightarrow> viewS env c xe))"

section \<open>Reserving\<close>

definition reserve_error :: "('s, 'r) app_env \<Rightarrow> xr_error \<Rightarrow> app_exc" where
  "reserve_error env e =
     (case e of
        XrRuntime (ExecutionCapacityExceeded _) \<Rightarrow> app_error env ''EXECUTION_LIMIT_REACHED''
      | XrRuntime ExecutionRuntimeClosed \<Rightarrow> app_error env ''EXECUTION_UNAVAILABLE''
      | XrBusy _ \<Rightarrow> app_error env ''HISTORY_BUSY''
      | XrHistory code \<Rightarrow> app_error env code
      | _ \<Rightarrow> AppRuntime e)"

definition reserveS :: "('s, 'r) app_env \<Rightarrow> caller \<Rightarrow> uid \<Rightarrow> uid option \<Rightarrow> nat app" where
  "reserveS env c h run s =
     (if sb_ready env = Some False then (Inl (app_error env ''SERVICE_NOT_READY''), s)
      else case xr_reserve (sb_ping env ''reserve'') (sb_closing env) (OwnerInt (user_of c)) h
                  (if run = None then None else Some (cl_provider c, cl_subject c)) run (sy_rt s) of
             (r, rt) \<Rightarrow> (map_sum (reserve_error env) id r, s\<lparr>sy_rt := rt\<rparr>))"

text \<open>\<open>except BaseException: lease.release(); raise\<close>: an exception of the release takes the place of the
  one that is handled.\<close>

definition releaseS :: "nat \<Rightarrow> unit app" where
  "releaseS i = on_rt (xr_release i)"

definition release_on_error :: "nat \<Rightarrow> 'a app \<Rightarrow> 'a app" where
  "release_on_error i m s =
     (case m s of
        (Inl e, s1) \<Rightarrow> (case releaseS i s1 of (Inl e', s2) \<Rightarrow> (Inl e', s2) | (Inr _, s2) \<Rightarrow> (Inl e, s2))
      | (Inr x, s1) \<Rightarrow> (Inr x, s1))"

section \<open>Dispatching the worker\<close>

text \<open>\<open>except (RuntimeError, ValueError)\<close>: every error of the services but a missing key or index.\<close>

definition lookup_error :: "event_error \<Rightarrow> bool" where
  "lookup_error e \<longleftrightarrow> e \<in> {KeyMissing, RingUnderflow}"

definition dispatch_catches :: "app_exc \<Rightarrow> bool" where
  "dispatch_catches e =
     (case e of
        AppAttempt x \<Rightarrow> x \<noteq> XOther
      | AppRuntime XrKeyError \<Rightarrow> False
      | AppRuntime (XrEvent v) \<Rightarrow> \<not> lookup_error v
      | AppRuntime (XrStop (ProgressError v)) \<Rightarrow> \<not> lookup_error v
      | AppRuntime _ \<Rightarrow> True)"

definition job_of ::
  "caller \<Rightarrow> kind \<Rightarrow> bool \<Rightarrow> pystr \<Rightarrow> pystr \<Rightarrow> accepted \<Rightarrow> token \<Rightarrow> uid \<Rightarrow> job" where
  "job_of c k requery question request acc tok x =
     \<lparr>jb_owner = user_of c, jb_kind = k, jb_requery = requery, jb_question = question, jb_request = request,
      jb_accepted = acc, jb_token = tok, jb_execution = x\<rparr>"

definition seconds_left :: "time \<Rightarrow> exec_row \<Rightarrow> rat" where
  "seconds_left now e = of_int (ex_deadline_at e - now) / 1000000"

definition start_worker :: "('s, 'r) app_env \<Rightarrow> nat \<Rightarrow> job \<Rightarrow> nat \<Rightarrow> unit app" where
  "start_worker env i j k =
     thenA (readS env ''control'' (\<lambda>_ d. get_execution d (jb_owner j) (jb_execution j))) (\<lambda>current.
     thenA (on_rt (bind_stop_control i (jb_execution j) (Some k) (sb_clock env)
                     (seconds_left (at_now (sb_attempt env) ''deadline'') current) (ex_status current)
                     (ex_stop_reason current))) (\<lambda>_.
     on_rt (submit (sb_pool env) i)))"

text \<open>The handler: the execution is stored as failed when that is still possible; with a channel attached its
  observers are told what is stored.\<close>

definition dispatch_failed :: "('s, 'r) app_env \<Rightarrow> job \<Rightarrow> nat option \<Rightarrow> unit app" where
  "dispatch_failed env j progress =
     (let failed = persist_worker_failure (sb_attempt env) j ''EXECUTION_UNAVAILABLE''
                     (at_text (sb_attempt env) ''DISPATCH_FAILED'')
      in thenA (case progress of
           None \<Rightarrow> on_db failed
         | Some k \<Rightarrow> thenA (on_world k failed) (\<lambda>_. on_world k (finish_from_persistence (sb_attempt env) j)))
         (\<lambda>_. failA (app_error env ''EXECUTION_UNAVAILABLE'')))"

definition dispatchS :: "('s, 'r) app_env \<Rightarrow> nat \<Rightarrow> job \<Rightarrow> exec_row \<Rightarrow> unit app" where
  "dispatchS env i j e s =
     (case on_rt (attach_progress i (jb_execution j) (execution_channel (jb_execution j) e)) s of
        (Inl x, s1) \<Rightarrow> if dispatch_catches x then dispatch_failed env j None s1 else (Inl x, s1)
      | (Inr k, s1) \<Rightarrow>
          (case start_worker env i j k s1 of
             (Inl x, s2) \<Rightarrow> if dispatch_catches x then dispatch_failed env j (Some k) s2 else (Inl x, s2)
           | (Inr _, s2) \<Rightarrow> (Inr (), s2)))"

section \<open>Submitting\<close>

text \<open>\<open>serialize_operation\<close> around a method.\<close>

definition serializedS :: "int \<times> uid \<Rightarrow> 'a app \<Rightarrow> 'a app" where
  "serializedS key m s =
     (case m (s\<lparr>sy_rt := enter_operation key (sy_rt s)\<rparr>) of
        (r, s1) \<Rightarrow>
          (case leave_operation key (sy_rt s1) of
             Inl e \<Rightarrow> (Inl (AppRuntime e), s1) | Inr rt \<Rightarrow> (r, s1\<lparr>sy_rt := rt\<rparr>)))"

text \<open>The question is used in query mode, where the API requires one.\<close>

record submission =
  sm_caller :: caller
  sm_request :: pystr
  sm_history :: uid
  sm_op :: uid
  sm_mode :: kind
  sm_question :: pystr
  sm_context_revision :: "int option"
  sm_record_revision :: "int option"

definition submission_value :: "submission \<Rightarrow> request_value" where
  "submission_value q =
     SubmitValue (sm_mode q) (sm_history q) (if sm_mode q = Query then Some (sm_question q) else None)
       (sm_context_revision q) (sm_record_revision q)"

definition deadline_seconds :: "kind \<Rightarrow> int" where
  "deadline_seconds k = (if k = Query then 180 else 1200)"

text \<open>The checks before anything is reserved.\<close>

definition admit_submission :: "('s, 'r) app_env \<Rightarrow> submission \<Rightarrow> history_row app" where
  "admit_submission env q =
     thenA (checkR env ''submit'') (\<lambda>_.
     thenA (readS env ''submit'' (\<lambda>now d. history_header now d (user_of (sm_caller q)) (sm_history q))) (\<lambda>(r, recovery).
     if hs_kind r \<noteq> sm_mode q then failA (app_error env ''INVALID_REQUEST'')
     else if sm_mode q = Analysis \<and> hs_last_success r \<noteq> None then failA (app_error env ''HISTORY_RESULT_NOT_SAVABLE'')
     else if sm_mode q = Analysis \<and> \<not> recovery then failA (app_error env ''HISTORY_CONTEXT_INCOMPATIBLE'')
     else okA r))"

definition accept_submission :: "('s, 'r) app_env \<Rightarrow> submission \<Rightarrow> history_row \<Rightarrow> acceptance app" where
  "accept_submission env q r =
     storeS env ''accept''
       (\<lambda>now d. begin_execution_attempt (sb_sha env) (sb_codec env) (sb_locked env ''accept'') now d
          (user_of (sm_caller q)) (sm_history q)
          (if sm_mode q = Query then sm_question q else hs_question r)
          (sm_op q) (sb_digest env (submission_value q)) (sm_context_revision q) (sm_request q) (sb_epoch env)
          (sm_mode q) (if sm_mode q = Query then OpQuery else OpAnalysisResume) (deadline_seconds (sm_mode q))
          (sm_record_revision q) (ri_turn (sb_ids env)) (ri_execution (sb_ids env)))"

definition run_accepted ::
  "('s, 'r) app_env \<Rightarrow> caller \<Rightarrow> pystr \<Rightarrow> kind \<Rightarrow> bool \<Rightarrow> nat \<Rightarrow> uid \<times> exec_row \<Rightarrow> accepted option \<Rightarrow> bool \<Rightarrow> view app" where
  "run_accepted env c request k requery i xe acc created =
     (case (created, acc) of
        (True, Some a) \<Rightarrow>
          (case acc_token a of
             None \<Rightarrow> failA (AppAttempt XOther)
           | Some tok \<Rightarrow>
               thenA (dispatchS env i (job_of c k requery (tn_question (snd (acc_turn a))) request a tok (fst xe)) (snd xe))
                 (\<lambda>_. viewS env c xe))
      | _ \<Rightarrow> thenA (releaseS i) (\<lambda>_. viewS env c xe))"

definition submit_new :: "('s, 'r) app_env \<Rightarrow> submission \<Rightarrow> view app" where
  "submit_new env q =
     thenA (admit_submission env q) (\<lambda>r.
     thenA (reserveS env (sm_caller q) (sm_history q) (if sm_mode q = Analysis then hs_run r else None)) (\<lambda>i.
     release_on_error i
       (thenA (accept_submission env q r) (\<lambda>out.
          case out of ExecutionAcceptance xe acc created \<Rightarrow>
            run_accepted env (sm_caller q) (sm_request q) (sm_mode q) False i xe acc created))))"

definition submitS :: "('s, 'r) app_env \<Rightarrow> submission \<Rightarrow> view app" where
  "submitS env q =
     serializedS (user_of (sm_caller q), sm_op q)
       (thenA (authorizeS env (sm_caller q) ''submit'') (\<lambda>_.
        thenA (readS env ''replay'' (\<lambda>_ d. execution_by_operation d (user_of (sm_caller q)) (sm_op q)
                 (Some (sb_digest env (submission_value q))))) (\<lambda>existing.
        case existing of Some xe \<Rightarrow> viewS env (sm_caller q) xe | None \<Rightarrow> submit_new env q)))"

section \<open>Repeating a question\<close>

text \<open>The kind of the source decides the deadline and whether an analysis run is reserved.\<close>

definition source_kind :: "('s, 'r) app_env \<Rightarrow> caller \<Rightarrow> requery_source \<Rightarrow> kind app" where
  "source_kind env c src =
     (case src of
        FromHistory h _ \<Rightarrow>
          thenA (readS env ''source'' (\<lambda>now d. history_header now d (user_of c) h)) (\<lambda>(r, _). okA (hs_kind r))
      | FromSaved x \<Rightarrow> thenA (readS env ''source'' (\<lambda>_ d. saved_result d (user_of c) x)) (\<lambda>r. okA (sv_kind r)))"

text \<open>An error that is no \<open>HistoryError\<close> leaves the transaction as any other exception does.\<close>

definition plain_error :: "requery_error + 'a \<Rightarrow> store_error + 'a" where
  "plain_error r = map_sum (\<lambda>e. case e of RqStore x \<Rightarrow> x | RqSnapshot \<Rightarrow> StopReasonValueError) id r"

definition accept_requery ::
  "('s, 'r) app_env \<Rightarrow> caller \<Rightarrow> requery_source \<Rightarrow> uid \<Rightarrow> pystr \<Rightarrow> kind \<Rightarrow> requery_result app" where
  "accept_requery env c src op request k =
     storeS env ''accept''
       (\<lambda>now d. plain_error (begin_execution_requery (sb_sha env) (sb_codec env) (sb_public env)
          (sb_locked env ''accept'') (sb_locked env ''source'') now d (user_of c) src op request (sb_epoch env)
          (sb_ids env)
          \<lparr>xd_hash = sb_digest env (RequeryValue src),
           xd_kind = (case src of FromHistory _ _ \<Rightarrow> OpHistoryRequery | FromSaved _ \<Rightarrow> OpSavedResultRequery),
           xd_deadline = deadline_seconds k,
           xd_run = (if k = Analysis then Some (ri_run (sb_ids env)) else None)\<rparr>))"

definition requery_new ::
  "('s, 'r) app_env \<Rightarrow> caller \<Rightarrow> requery_source \<Rightarrow> uid \<Rightarrow> pystr \<Rightarrow> view app" where
  "requery_new env c src op request =
     thenA (source_kind env c src) (\<lambda>k.
     thenA (reserveS env c (ri_history (sb_ids env)) (if k = Analysis then Some (ri_run (sb_ids env)) else None)) (\<lambda>i.
     release_on_error i
       (thenA (accept_requery env c src op request k) (\<lambda>out.
          case rr_execution out of
            None \<Rightarrow> failA (AppAttempt XOther)
          | Some xe \<Rightarrow> run_accepted env c request k True i xe (Some (rr_attempt out)) (rr_created out)))))"

definition requeryS ::
  "('s, 'r) app_env \<Rightarrow> caller \<Rightarrow> requery_source \<Rightarrow> uid \<Rightarrow> pystr \<Rightarrow> view app" where
  "requeryS env c src op request =
     serializedS (user_of c, op)
       (thenA (authorizeS env c ''requery'') (\<lambda>_.
        thenA (readS env ''replay'' (\<lambda>_ d. execution_by_operation d (user_of c) op
                 (Some (sb_digest env (RequeryValue src))))) (\<lambda>existing.
        case existing of Some xe \<Rightarrow> viewS env c xe | None \<Rightarrow> requery_new env c src op request)))"

section \<open>The synchronous history application\<close>

definition createS :: "('s, 'r) app_env \<Rightarrow> caller \<Rightarrow> kind \<Rightarrow> pystr \<Rightarrow> uid \<Rightarrow> (uid \<times> history_row) app" where
  "createS env c k question op =
     thenA (authorizeS env c ''create'') (\<lambda>_. thenA (checkR env ''create'') (\<lambda>_.
     storeS env ''create'' (\<lambda>now d. create_history (sb_sha env) now d (user_of c) k question op
       (ri_history (sb_ids env)) (ri_run (sb_ids env)))))"

definition export_sourceS ::
  "(snapshot \<Rightarrow> string + (pystr \<times> json) list) \<Rightarrow> ('s, 'r) app_env \<Rightarrow> caller \<Rightarrow> export_request \<Rightarrow> export_source app" where
  "export_sourceS public env c req =
     thenA (authorizeS env c ''export'') (\<lambda>_. readS env ''export'' (\<lambda>_ d. export_snapshot public d (user_of c) req))"

definition deleteS :: "('s, 'r) app_env \<Rightarrow> caller \<Rightarrow> uid \<Rightarrow> int \<Rightarrow> unit app" where
  "deleteS env c h revision =
     thenA (authorizeS env c ''delete'') (\<lambda>_. thenA (checkR env ''delete'') (\<lambda>_.
     thenA (readS env ''delete header'' (\<lambda>now d. history_header now d (user_of c) h)) (\<lambda>(r, _).
     if hs_kind r = Analysis \<and> at_guard_busy (sb_attempt env) then failA (app_error env ''HISTORY_BUSY'')
     else storeS env ''delete'' (\<lambda>now d. delete_history (sb_question_sha env) (sb_locked env ''delete'') now d
            (user_of c) h revision (subject_of c)))))"

text \<open>\<open>with self.runtime.executing(history_id)\<close>.\<close>

definition executingS :: "('s, 'r) app_env \<Rightarrow> uid \<Rightarrow> 'a app \<Rightarrow> 'a app" where
  "executingS env h m s =
     (case hr_reserve (sb_ping env ''executing'') (xr_history (sy_rt s)) h of
        (Inl code, hr) \<Rightarrow> (Inl (app_error env code), s\<lparr>sy_rt := (sy_rt s)\<lparr>xr_history := hr\<rparr>\<rparr>)
      | (Inr i, hr) \<Rightarrow>
          (case m (s\<lparr>sy_rt := (sy_rt s)\<lparr>xr_history := hr\<rparr>\<rparr>) of
             (r, s1) \<Rightarrow> (r, s1\<lparr>sy_rt := (sy_rt s1)\<lparr>xr_history := hr_release (xr_history (sy_rt s1)) i\<rparr>\<rparr>)))"

definition attemptS ::
  "('s, 'r) app_env \<Rightarrow> caller \<Rightarrow> kind \<Rightarrow> bool \<Rightarrow> pystr \<Rightarrow> pystr \<Rightarrow> accepted \<Rightarrow> turn_row app" where
  "attemptS env c k requery question request acc =
     on_db (execute_attempt ((sb_attempt env)\<lparr>at_observed := False\<rparr>) (user_of c) k requery False question request acc None)"

definition submit_queryS ::
  "('s, 'r) app_env \<Rightarrow> caller \<Rightarrow> pystr \<Rightarrow> uid \<Rightarrow> pystr \<Rightarrow> uid \<Rightarrow> int \<Rightarrow> turn_row app" where
  "submit_queryS env c request h question op revision =
     thenA (authorizeS env c ''submit'') (\<lambda>_.
     thenA (readS env ''submit'' (\<lambda>now d. history_header now d (user_of c) h)) (\<lambda>(r, _).
     if hs_kind r \<noteq> Query then failA (app_error env ''INVALID_REQUEST'')
     else executingS env h
       (thenA (storeS env ''accept'' (\<lambda>now d. begin_attempt (sb_sha env) (sb_codec env) (sb_admit env)
                 (sb_locked env ''accept'') now d (user_of c) h question op revision request (sb_epoch env)
                 (ri_turn (sb_ids env))))
          (\<lambda>acc. attemptS env c Query False question request acc))))"

definition resume_analysisS ::
  "('s, 'r) app_env \<Rightarrow> caller \<Rightarrow> pystr \<Rightarrow> uid \<Rightarrow> uid \<Rightarrow> int \<Rightarrow> turn_row app" where
  "resume_analysisS env c request h op revision =
     thenA (authorizeS env c ''submit'') (\<lambda>_.
     thenA (readS env ''submit'' (\<lambda>now d. history_header now d (user_of c) h)) (\<lambda>(r, recovery).
     if hs_kind r \<noteq> Analysis then failA (app_error env ''INVALID_REQUEST'')
     else case hs_last_success r of
       Some t \<Rightarrow> thenA (readS env ''done'' (\<lambda>_ d. read_turn d (user_of c) h t)) (\<lambda>(y, _). okA y)
     | None \<Rightarrow>
         if \<not> recovery then failA (app_error env ''HISTORY_CONTEXT_INCOMPATIBLE'')
         else executingS env h
           (thenA (storeS env ''accept'' (\<lambda>now d. begin_analysis_attempt (sb_sha env) (sb_codec env) (sb_admit env)
                     (sb_locked env ''accept'') now d (user_of c) h op revision request (sb_epoch env)
                     (ri_turn (sb_ids env))))
              (\<lambda>acc. attemptS env c Analysis False (hs_question r) request acc))))"

definition requery_syncS ::
  "('s, 'r) app_env \<Rightarrow> caller \<Rightarrow> pystr \<Rightarrow> requery_source \<Rightarrow> uid \<Rightarrow> ((history_row \<times> bool) \<times> turn_row) app" where
  "requery_syncS env c request src op =
     thenA (authorizeS env c ''requery'') (\<lambda>_.
     executingS env (ri_history (sb_ids env))
       (thenA (storeS env ''accept'' (\<lambda>now d. plain_error (begin_requery (sb_sha env) (sb_codec env) (sb_public env)
                 (sb_admit env) (sb_locked env ''accept'') (sb_locked env ''source'') now d (user_of c) src op request
                 (sb_epoch env) (sb_ids env) None))) (\<lambda>out.
        thenA (attemptS env c (hs_kind (snd (rr_history out))) True (tn_question (snd (acc_turn (rr_attempt out))))
                 request (rr_attempt out)) (\<lambda>t.
        thenA (readS env ''result'' (\<lambda>now d. history_header now d (user_of c) (fst (rr_history out)))) (\<lambda>h.
        okA (h, t))))))"

end
