(* ===== verification/Submission_Properties.thy ===== *)
theory Submission_Properties
  imports Submission Runtime_Safety Requery_Properties Worker_Properties
begin

text \<open>
  What the calls of the application do to the leases of the runtime. \<open>quiet\<close>: nothing is taken and nothing
  given back.
\<close>

section \<open>Calls that hold and release nothing\<close>

definition quiet :: "exec_rt \<Rightarrow> exec_rt \<Rightarrow> bool" where
  "quiet rt rt' \<longleftrightarrow> (parts_ok rt \<longrightarrow> parts_ok rt') \<and> cap_held rt' = cap_held rt \<and> hist_held rt' = hist_held rt
     \<and> run_held rt' = run_held rt \<and> list_all2 same_lease (xr_leases rt) (xr_leases rt')"

lemma same_lease_trans: "same_lease a b \<Longrightarrow> same_lease b c \<Longrightarrow> same_lease a c"
  by (simp add: same_lease_def)

lemma quiet_trans: "quiet a b \<Longrightarrow> quiet b c \<Longrightarrow> quiet a c"
  by (auto simp: quiet_def intro: list_all2_trans [OF same_lease_trans])

lemma quiet_same: "same_leases rt rt' \<Longrightarrow> quiet rt rt'"
  using same_leases_parts [of rt rt'] by (simp add: quiet_def list.rel_refl)

lemma quiet_refl [simp]: "quiet rt rt"
  by (simp add: quiet_same)

lemma quiet_set_lease: "(\<And>l. same_lease l (f l)) \<Longrightarrow> quiet rt (set_lease i f rt)"
  using set_lease_bindings [of f rt i]
  by (simp add: quiet_def set_lease_def parts_ok_def cap_held_def hist_held_def run_held_def fun_eq_iff)

lemma quiet_live: "quiet rt rt' \<Longrightarrow> live rt' i = live rt i"
  by (auto simp: quiet_def live_def list_all2_conv_all_nth same_lease_def)

definition abides :: "(exec_rt \<Rightarrow> exec_rt \<Rightarrow> bool) \<Rightarrow> 'a app \<Rightarrow> bool" where
  "abides R m \<longleftrightarrow> (\<forall>s. R (sy_rt s) (sy_rt (snd (m s))))"

lemma abides_snd: "abides R m \<Longrightarrow> R (sy_rt s) (sy_rt (snd (m s)))"
  by (simp add: abides_def)

lemma abidesD: "abides R m \<Longrightarrow> m s = (r, s') \<Longrightarrow> R (sy_rt s) (sy_rt s')"
  by (metis abides_def snd_conv)

lemma abides_rt: "(\<And>rt. R rt (snd (f rt))) \<Longrightarrow> abides R (on_rt f)"
  by (simp add: abides_def on_rt_def case_prod_beta)

text \<open>An effect on the runtime that reading calls have.\<close>

locale call_effect =
  fixes R :: "exec_rt \<Rightarrow> exec_rt \<Rightarrow> bool"
  assumes R_refl: "R rt rt"
    and R_trans: "R a b \<Longrightarrow> R b c \<Longrightarrow> R a c"
    and R_chans: "R rt (rt\<lparr>xr_chans := cs\<rparr>)"
    and R_check: "hr_check ping (xr_history rt) = (r, h) \<Longrightarrow> R rt (rt\<lparr>xr_history := h\<rparr>)"
begin

lemma return [simp]: "abides R (okA x)" "abides R (failA e)"
  by (simp_all add: abides_def okA_def failA_def R_refl)

lemma andthen:
  assumes "abides R m" and "\<And>x. abides R (f x)"
  shows "abides R (thenA m f)"
  unfolding abides_def
proof
  fix s
  obtain r s1 where m: "m s = (r, s1)" by (cases "m s")
  show "R (sy_rt s) (sy_rt (snd (thenA m f s)))"
    using R_trans [OF abidesD [OF assms(1) m] abides_snd [OF assms(2)]] abidesD [OF assms(1) m]
    by (cases r) (simp_all add: thenA_def m)
qed

lemma db [simp]: "abides R (on_db m)"
  by (simp add: abides_def on_db_def R_refl split: prod.split)

lemma world [simp]: "abides R (on_world k m)"
  by (simp add: abides_def on_world_def R_chans split: prod.split)

lemma store [simp]: "abides R (storeS env p f)" "abides R (readS env p g)"
  by (simp_all add: storeS_def readS_def)

lemma code:
  assumes "abides R h" and "abides R m"
  shows "abides R (on_code c h m)"
  unfolding abides_def
proof
  fix s
  obtain r s1 where e: "m s = (r, s1)" by (cases "m s")
  have m: "R (sy_rt s) (sy_rt s1)" using abidesD [OF assms(2) e] .
  moreover have "R (sy_rt s) (sy_rt (snd (h s1)))" using R_trans [OF m abides_snd [OF assms(1)]] .
  ultimately show "R (sy_rt s) (sy_rt (snd (on_code c h m s)))"
    by (simp add: on_code_def e split: sum.split app_exc.split attempt_exc.split)
qed

lemma authorize [simp]: "abides R (authorizeS env c p)"
  by (simp add: authorizeS_def split: option.split)

lemma check [simp]: "abides R (checkR env p)"
  unfolding abides_def
proof
  fix s :: sys
  obtain r h where e: "hr_check (sb_ping env p) (xr_history (sy_rt s)) = (r, h)" by fastforce
  from R_check [OF e] show "R (sy_rt s) (sy_rt (snd (checkR env p s)))" by (simp add: checkR_def e)
qed

lemma reconcile [simp]: "abides R (reconcileS env h)"
proof -
  have "abides R (\<lambda>s. storeS env ''reconcile'' (f s) s)" for f :: "sys \<Rightarrow> time \<Rightarrow> db \<Rightarrow> unit tx"
    unfolding abides_def using abides_snd [OF store(1)] by blast
  then show ?thesis unfolding reconcileS_def by (intro andthen) simp_all
qed

lemma view [simp]: "abides R (viewS env c xe)"
  unfolding viewS_def turnS_def headerS_def by (intro andthen code) simp_all

lemma admit [simp]: "abides R (admit_submission env q)"
  unfolding admit_submission_def by (intro andthen) (auto split: prod.split)

lemma source [simp]: "abides R (source_kind env c src)"
  unfolding source_kind_def by (auto intro!: andthen split: requery_source.split prod.split)

lemma failed [simp]: "abides R (dispatch_failed env j p)"
  unfolding dispatch_failed_def Let_def by (intro andthen) (auto intro: andthen split: option.split)

lemma start:
  assumes "\<And>i x p a b st r rt. R rt (snd (bind_stop_control i x p a b st r rt))" and "\<And>q i rt. R rt (snd (submit q i rt))"
  shows "abides R (start_worker env i j k)"
  unfolding start_worker_def using assms by (intro andthen abides_rt) simp_all

lemma dispatch:
  assumes "\<And>i x p a b st r rt. R rt (snd (bind_stop_control i x p a b st r rt))" and "\<And>q i rt. R rt (snd (submit q i rt))"
    and "\<And>i x ch rt. R rt (snd (attach_progress i x ch rt))"
  shows "abides R (dispatchS env i j e)"
  unfolding abides_def
proof
  fix s
  let ?a = "on_rt (attach_progress i (jb_execution j) (execution_channel (jb_execution j) e))"
  obtain r s1 where a: "?a s = (r, s1)" by (cases "?a s")
  have q1: "R (sy_rt s) (sy_rt s1)" using abidesD [OF abides_rt [where R = R, OF assms(3)] a] .
  show "R (sy_rt s) (sy_rt (snd (dispatchS env i j e s)))"
  proof (cases r)
    case (Inl x)
    then show ?thesis
      using q1 R_trans [OF q1 abides_snd [OF failed [of env j None]]] by (simp add: dispatchS_def a)
  next
    case (Inr k)
    obtain r2 s2 where b: "start_worker env i j k s1 = (r2, s2)" by (cases "start_worker env i j k s1")
    have q2: "R (sy_rt s) (sy_rt s2)" using R_trans [OF q1 abidesD [OF start [OF assms(1,2)] b]] .
    then show ?thesis
      using R_trans [OF q2 abides_snd [OF failed [of env j "Some k"]]]
      by (cases r2) (simp_all add: dispatchS_def a Inr b)
  qed
qed

end

interpretation quiet: call_effect quiet
proof
  show "quiet rt (rt\<lparr>xr_chans := cs\<rparr>)" for rt cs
    by (rule quiet_same) (simp add: same_leases_def same_holdings_def)
  show "quiet rt (rt\<lparr>xr_history := h\<rparr>)" if "hr_check ping (xr_history rt) = (r, h)" for ping rt r h
    using hr_check_cases [OF that]
    by (simp add: quiet_def parts_ok_def hr_ok_def cap_held_def hist_held_def run_held_def fun_eq_iff list.rel_refl)
qed (auto intro: quiet_trans)

definition leases_kept :: "exec_rt \<Rightarrow> exec_rt \<Rightarrow> bool" where
  "leases_kept rt rt' \<longleftrightarrow> xr_leases rt' = xr_leases rt"

definition locks_kept :: "exec_rt \<Rightarrow> exec_rt \<Rightarrow> bool" where
  "locks_kept rt rt' \<longleftrightarrow> xr_locks rt' = xr_locks rt"

interpretation leases: call_effect leases_kept
  by unfold_locales (simp_all add: leases_kept_def)

interpretation locks: call_effect locks_kept
  by unfold_locales (simp_all add: locks_kept_def)

lemma quiet_attach: "quiet rt (snd (attach_progress i x ch rt))"
proof -
  let ?rt1 = "rt\<lparr>xr_chans := xr_chans rt @ [ch], xr_channel_of := (xr_channel_of rt)(x \<mapsto> length (xr_chans rt))\<rparr>"
  let ?rt2 = "set_lease i (\<lambda>l. l\<lparr>el_execution := Some x, el_channel := Some (length (xr_chans rt))\<rparr>) ?rt1"
  have 1: "quiet rt ?rt1" by (rule quiet_same) (simp add: same_leases_def same_holdings_def)
  have 2: "quiet ?rt1 ?rt2" by (rule quiet_set_lease) (simp add: same_lease_def)
  have "snd (attach_progress i x ch rt) \<in> {rt, ?rt2}"
    by (simp add: attach_progress_def Let_def)
  then have "snd (attach_progress i x ch rt) = rt \<or> snd (attach_progress i x ch rt) = ?rt2"
    by (simp only: insert_iff empty_iff simp_thms)
  then show ?thesis by (elim disjE) (simp_all only: quiet_refl quiet_trans [OF 1 2])
qed

lemma quiet_submit: "quiet rt (snd (submit pool i rt))"
  by (auto simp: submit_def Let_def intro: quiet_set_lease simp: same_lease_def)

lemma quiet_bind_control: "quiet rt (snd (bind_stop_control i x p clock left status reason rt))"
proof -
  let ?k = "length (xr_controls rt)"
  let ?rt1 = "rt\<lparr>xr_controls := xr_controls rt @ [(new_control x (clock + max 0 left), p)]\<rparr>"
  obtain r2 rt2 where e: "(if status = Stopping
      then on_control ?k (signal (case reason of None \<Rightarrow> USER_CANCELLED | Some q \<Rightarrow> q)) ?rt1
      else (Inr (), ?rt1)) = (r2, rt2)" by fastforce
  have "quiet rt ?rt1" by (rule quiet_same) (simp add: same_leases_def same_holdings_def)
  moreover have "same_leases ?rt1 rt2"
    using e on_control_same same_leases_refl by (simp split: if_splits)
  ultimately have q2: "quiet rt rt2" using quiet_same quiet_trans by blast
  have "quiet rt2 (rt2\<lparr>xr_control_of := (xr_control_of rt2)(x \<mapsto> ?k)\<rparr>)"
    by (rule quiet_same) (simp add: same_leases_def same_holdings_def)
  from quiet_trans [OF this quiet_set_lease [of "\<lambda>l. l\<lparr>el_control := Some ?k\<rparr>" _ i]]
  have "quiet rt2 (set_lease i (\<lambda>l. l\<lparr>el_control := Some ?k\<rparr>) (rt2\<lparr>xr_control_of := (xr_control_of rt2)(x \<mapsto> ?k)\<rparr>))"
    by (simp add: same_lease_def)
  then show ?thesis
    using q2 quiet_trans [OF q2] unfolding bind_stop_control_def Let_def e by (auto split: sum.split)
qed

lemmas quiet_dispatch = quiet.dispatch [OF quiet_bind_control quiet_submit quiet_attach]

section \<open>The operation locks\<close>

lemma locks_release: "locks_kept rt (snd (xr_release i rt))"
proof -
  have bind: "locks_kept rt (snd (release_bindings l rt))" for l rt
    by (auto simp: release_bindings_def locks_kept_def release_event_channel_def release_stop_control_def Let_def
        split: option.splits prod.splits sum.splits)
  have cap: "locks_kept rt (snd (release_capacity k rt))" for k rt
    by (auto simp: release_capacity_def locks_kept_def split: prod.splits sum.splits)
  have an: "locks_kept rt (release_analysis a rt)" for a rt
    by (auto simp: release_analysis_def locks_kept_def split: option.splits)
  have "locks_kept rt (set_lease i f rt)" "locks_kept rt (release_history k rt)" for f k rt
    by (simp_all add: set_lease_def release_history_def locks_kept_def)
  then show ?thesis using bind cap an by (simp add: xr_release_def Let_def locks_kept_def)
qed

lemma locks_give_back: "locks_kept rt (snd (give_back e ci hi ai rt))"
proof -
  have cap: "locks_kept rt (snd (release_capacity k rt))" for k rt
    by (auto simp: release_capacity_def locks_kept_def split: prod.splits sum.splits)
  have an: "locks_kept rt (release_analysis a rt)" for a rt
    by (auto simp: release_analysis_def locks_kept_def split: option.splits)
  let ?rt2 = "case hi of None \<Rightarrow> release_analysis ai rt | Some i \<Rightarrow> release_history i (release_analysis ai rt)"
  have "locks_kept rt ?rt2" using an by (simp add: release_history_def locks_kept_def split: option.split)
  moreover have "snd (give_back e ci hi ai rt) = snd (release_capacity ci ?rt2)"
    by (simp add: give_back_def Let_def split: prod.split sum.split)
  ultimately show ?thesis using cap [of ?rt2 ci] by (simp add: locks_kept_def)
qed

lemma locks_reserve: "locks_kept rt (snd (xr_reserve ping closing owner h auth run rt))"
proof -
  have conclude: "locks_kept rt (snd (conclude_reserve ci hi ai rt))" for ci hi ai rt
    using locks_give_back by (simp add: conclude_reserve_def locks_kept_def)
  have step: "locks_kept (rt\<lparr>xr_guard := g\<rparr>) rt' \<Longrightarrow> locks_kept rt rt'"
    "locks_kept (rt\<lparr>xr_history := hr\<rparr>) rt' \<Longrightarrow> locks_kept rt rt'"
    "locks_kept (rt\<lparr>xr_capacity := c\<rparr>) rt' \<Longrightarrow> locks_kept rt rt'" for rt rt' g hr c
    by (simp_all add: locks_kept_def)
  have run: "locks_kept rt (snd (reserve_run ci hi auth run rt))" for ci hi rt
    by (auto simp: reserve_run_def conclude locks_give_back intro: step(1) [OF conclude]
        split: option.split sum.split prod.split)
  have hist: "locks_kept rt (snd (reserve_history ping ci h auth run rt))" for ci rt
    by (auto simp: reserve_history_def intro: step(2) [OF run] step(2) [OF locks_give_back]
        split: sum.split prod.split)
  show ?thesis
    by (auto simp: xr_reserve_def locks.R_refl intro: step(3) [OF hist] split: sum.split prod.split)
qed

lemma locks_bindings:
  "locks_kept rt (snd (attach_progress i x ch rt))" "locks_kept rt (snd (submit pool i rt))"
  "locks_kept rt (snd (bind_stop_control i x p clock left status reason rt))"
  by (auto simp: attach_progress_def submit_def bind_stop_control_def on_control_def put_control_def locks_kept_def
      Let_def set_lease_def split: sum.split prod.split)


lemmas locks_dispatch = locks.dispatch [OF locks_bindings(3,2,1)]

lemma locks_accepted: "abides locks_kept (run_accepted env c request k requery i xe acc created)"
proof -
  have "abides locks_kept (releaseS i)" unfolding releaseS_def by (rule abides_rt) (rule locks_release)
  then show ?thesis
    unfolding run_accepted_def by (auto intro!: locks.andthen locks_dispatch split: option.split bool.split)
qed

lemma locks_release_on_error: "abides locks_kept m \<Longrightarrow> abides locks_kept (release_on_error i m)"
  unfolding abides_def
proof
  fix s assume m: "\<forall>s. locks_kept (sy_rt s) (sy_rt (snd (m s)))"
  obtain r s1 where e: "m s = (r, s1)" by (cases "m s")
  have "abides locks_kept (releaseS i)" unfolding releaseS_def by (rule abides_rt) (rule locks_release)
  then have "locks_kept (sy_rt s1) (sy_rt (snd (releaseS i s1)))" by (rule abides_snd)
  then show "locks_kept (sy_rt s) (sy_rt (snd (release_on_error i m s)))"
    using m [rule_format, of s] by (auto simp: release_on_error_def e locks_kept_def split: sum.split prod.split)
qed

lemma locks_reserveS: "abides locks_kept (reserveS env c h run)"
proof -
  have "locks_kept (sy_rt s) (sy_rt (snd (reserveS env c h run s)))" for s :: sys
    using locks_reserve [of "sy_rt s" "sb_ping env ''reserve''" "sb_closing env" "OwnerInt (user_of c)" h
        "if run = None then None else Some (cl_provider c, cl_subject c)" run]
    by (auto simp: reserveS_def locks_kept_def split: prod.split)
  then show ?thesis by (simp add: abides_def)
qed

lemma locks_submit_new: "abides locks_kept (submit_new env q)"
  unfolding submit_new_def accept_submission_def
  by (intro locks.andthen locks.admit locks_reserveS locks_release_on_error locks.store)
    (auto intro: locks_accepted split: acceptance.split)

lemma locks_requery_new: "abides locks_kept (requery_new env c src op request)"
  unfolding requery_new_def accept_requery_def
  by (intro locks.andthen locks.source locks_reserveS locks_release_on_error locks.store)
    (auto intro: locks_accepted split: option.split)

text \<open>So leaving the operation lock never fails, and leaves the rest of the runtime alone.\<close>

lemma serialized_call:
  assumes "abides locks_kept m" and "serializedS key m s = (r, s')"
  obtains s0 s1 where "m s0 = (r, s1)" "sy_rt s0 = enter_operation key (sy_rt s)" "sy_db s0 = sy_db s"
    "same_leases (sy_rt s1) (sy_rt s')" "sy_db s' = sy_db s1"
proof -
  let ?s0 = "s\<lparr>sy_rt := enter_operation key (sy_rt s)\<rparr>"
  obtain r1 s1 where m: "m ?s0 = (r1, s1)" by (cases "m ?s0")
  have "xr_locks (sy_rt s1) = xr_locks (enter_operation key (sy_rt s))"
    using abidesD [OF assms(1) m] by (simp add: locks_kept_def)
  then have "\<exists>rt. leave_operation key (sy_rt s1) = Inr rt"
    by (simp add: leave_operation_def enter_operation_def)
  then obtain rt where l: "leave_operation key (sy_rt s1) = Inr rt" ..
  then have "same_leases (sy_rt s1) rt"
    by (auto simp: leave_operation_def same_leases_def same_holdings_def split: option.splits if_splits)
  then show thesis using assms(2) m l by (intro that [of ?s0 s1]) (auto simp: serializedS_def)
qed

section \<open>Leases are balanced\<close>

definition gave_back :: "exec_rt \<Rightarrow> exec_rt \<Rightarrow> bool" where
  "gave_back rt rt' \<longleftrightarrow> parts_ok rt' \<and> cap_held rt' = cap_held rt \<and> hist_held rt' = hist_held rt
     \<and> run_held rt' = run_held rt \<and> (\<forall>j. live rt' j \<longleftrightarrow> live rt j)"

definition handed_over :: "exec_rt \<Rightarrow> exec_rt \<Rightarrow> bool" where
  "handed_over rt rt' \<longleftrightarrow> parts_ok rt' \<and> el_submitted (lease_at rt' (length (xr_leases rt)))
     \<and> (\<forall>j. live rt' j \<longleftrightarrow> live rt j \<or> j = length (xr_leases rt))"

lemma quiet_gave_back: "parts_ok rt \<Longrightarrow> quiet rt rt' \<Longrightarrow> gave_back rt rt'"
  using quiet_live by (auto simp: quiet_def gave_back_def)

lemma gave_back_trans: "gave_back a b \<Longrightarrow> gave_back b c \<Longrightarrow> gave_back a c"
  by (auto simp: gave_back_def)

lemma restored_gave_back: "restored rt rt' \<Longrightarrow> gave_back rt rt'"
  by (simp add: restored_def gave_back_def live_def)

lemma reserved_lease:
  assumes "parts_ok rt" and "xr_reserve ping closing owner h auth run rt = (Inr i, rt1)" and "quiet rt1 rt2"
  shows "i = length (xr_leases rt)" "parts_ok rt2" "live rt2 j \<longleftrightarrow> live rt j \<or> j = i"
    and "gave_back rt (snd (xr_release i rt2))"
    and "\<And>rt3. quiet (snd (xr_release i rt2)) rt3 \<Longrightarrow> gave_back rt rt3 \<and> xr_release i rt3 = (Inr (), rt3)"
proof -
  obtain rta ci hi key ai where i: "i = length (xr_leases rt)"
    and f: "fresh_parts rt rta owner ci h hi key ai" and rt1: "rt1 = rta\<lparr>xr_leases := xr_leases rt @ [new_lease ci hi ai]\<rparr>"
    using xr_reserve_eff [OF assms(1,2)] by (auto simp: reserved_def)
  have same: "cap_held rt1 = cap_held rta" "hist_held rt1 = hist_held rta" "run_held rt1 = run_held rta" "parts_ok rt1"
    using f by (simp_all add: rt1 cap_held_def hist_held_def run_held_def fun_eq_iff fresh_parts_def parts_ok_def)
  show "i = length (xr_leases rt)" by (rule i)
  show ok2: "parts_ok rt2" using assms(3) same(4) by (simp add: quiet_def)
  have l1: "live rt1 j \<longleftrightarrow> live rt j \<or> j = i" for j
    by (auto simp: rt1 live_def nth_append i new_lease_def)
  then show l2: "live rt2 j \<longleftrightarrow> live rt j \<or> j = i" for j using quiet_live [OF assms(3)] by simp
  have li: "live rt2 i" by (simp add: l2)
  have "same_lease (lease_at rt1 i) (lease_at rt2 i)"
    using assms(3) li by (auto simp: quiet_def list_all2_conv_all_nth live_def)
  then have le: "same_lease (new_lease ci hi ai) (lease_at rt2 i)" by (simp add: rt1 i)
  note e = xr_release_eff [OF ok2 li]
  have "\<not> live rt i" by (simp add: i live_def)
  moreover have "live (snd (xr_release i rt2)) j \<longleftrightarrow> live rt2 j \<and> j \<noteq> i" for j
    using li by (auto simp: live_def e(5) nth_list_update split: if_splits)
  ultimately have lj: "live (snd (xr_release i rt2)) j \<longleftrightarrow> live rt j" for j
    using l2 [of j] by auto
  show gb: "gave_back rt (snd (xr_release i rt2))"
    using e(1-4) lj le f assms(3) same
    by (auto simp: gave_back_def quiet_def same_lease_def new_lease_def fresh_parts_def upd_back split: option.splits)
  fix rt3 assume q: "quiet (snd (xr_release i rt2)) rt3"
  have "gave_back rt rt3" using gave_back_trans [OF gb quiet_gave_back [OF e(1) q]] .
  moreover have "i < length (xr_leases rt3)"
    using q li by (auto simp: quiet_def live_def e(5) dest: list_all2_lengthD)
  moreover have "\<not> live rt3 i" using \<open>gave_back rt rt3\<close> by (simp add: gave_back_def i live_def)
  ultimately show "gave_back rt rt3 \<and> xr_release i rt3 = (Inr (), rt3)" by (simp add: xr_release_released)
qed


lemma quiet_length: "quiet rt rt' \<Longrightarrow> length (xr_leases rt') = length (xr_leases rt)"
  by (auto simp: quiet_def dest: list_all2_lengthD)

lemma thenA_cases:
  assumes "thenA m f s = (r, s')"
  obtains (fails) e where "m s = (Inl e, s')" "r = Inl e" | (goes_on) x s1 where "m s = (Inr x, s1)" "f x s1 = (r, s')"
  using assms by (cases "m s"; cases "fst (m s)") (auto simp: thenA_def)

lemma dispatch_failed_Inl: "dispatch_failed env j p s = (r, s') \<Longrightarrow> \<exists>e. r = Inl e"
  unfolding dispatch_failed_def Let_def by (erule thenA_cases) (auto simp: failA_def)

lemma dispatch_submits:
  assumes "i < length (xr_leases (sy_rt s))" and "dispatchS env i j e s = (Inr u, s')"
  shows "el_submitted (lease_at (sy_rt s') i)"
proof -
  let ?a = "on_rt (attach_progress i (jb_execution j) (execution_channel (jb_execution j) e))"
  obtain r s1 where a: "?a s = (r, s1)" by (cases "?a s")
  obtain k where k: "r = Inr k"
    using assms(2) dispatch_failed_Inl [of env j None s1] by (cases r) (auto simp: dispatchS_def a split: if_splits)
  obtain r2 s2 where b: "start_worker env i j k s1 = (r2, s2)" by (cases "start_worker env i j k s1")
  have fin: "r2 = Inr () \<and> s' = s2"
    using assms(2) dispatch_failed_Inl [of env j "Some k" s2] by (cases r2) (auto simp: dispatchS_def a b k split: if_splits)
  have i1: "i < length (xr_leases (sy_rt s1))"
    using quiet_length [OF abidesD [OF abides_rt [where R = quiet, OF quiet_attach] a]] assms(1) by simp
  from b fin obtain current s3 c s4 where r3: "readS env ''control'' (\<lambda>_ d. get_execution d (jb_owner j) (jb_execution j)) s1 = (Inr current, s3)"
    and b4: "on_rt (bind_stop_control i (jb_execution j) (Some k) (sb_clock env)
      (seconds_left (at_now (sb_attempt env) ''deadline'') current) (ex_status current) (ex_stop_reason current)) s3 = (Inr c, s4)"
    and s2: "on_rt (submit (sb_pool env) i) s4 = (Inr (), s2)"
    unfolding start_worker_def by (auto elim!: thenA_cases)
  have "i < length (xr_leases (sy_rt s4))"
    using quiet_length [OF abidesD [OF quiet.store(2) r3]] quiet_length [OF abidesD [OF abides_rt [where R = quiet, OF quiet_bind_control] b4]] i1
    by simp
  then show ?thesis
    using s2 fin by (auto simp: on_rt_def submit_def Let_def set_lease_def split: if_splits)
qed

definition balanced_body :: "nat \<Rightarrow> 'a app \<Rightarrow> bool" where
  "balanced_body i m \<longleftrightarrow> (\<forall>s r s'. i < length (xr_leases (sy_rt s)) \<longrightarrow> m s = (r, s') \<longrightarrow>
     quiet (sy_rt s) (sy_rt s') \<and> (\<forall>v. r = Inr v \<longrightarrow> el_submitted (lease_at (sy_rt s') i))
     \<or> (\<exists>rt. quiet (sy_rt s) rt \<and> quiet (snd (xr_release i rt)) (sy_rt s')))"

lemma run_accepted_balanced: "balanced_body i (run_accepted env c request k requery i xe acc created)"
  unfolding balanced_body_def
proof (intro allI impI)
  fix s r s' assume i: "i < length (xr_leases (sy_rt s))"
    and run: "run_accepted env c request k requery i xe acc created s = (r, s')"
  show "quiet (sy_rt s) (sy_rt s') \<and> (\<forall>v. r = Inr v \<longrightarrow> el_submitted (lease_at (sy_rt s') i))
     \<or> (\<exists>rt. quiet (sy_rt s) rt \<and> quiet (snd (xr_release i rt)) (sy_rt s'))"
  proof (cases "created \<and> acc \<noteq> None")
    case True
    then obtain a where a: "acc = Some a" by auto
    show ?thesis
    proof (cases "acc_token a")
      case None
      then have "s' = s" and "r = Inl (AppAttempt XOther)"
        using run True a by (auto simp: run_accepted_def failA_def)
      then show ?thesis by simp
    next
      case (Some tok)
      let ?j = "job_of c k requery (tn_question (snd (acc_turn a))) request a tok (fst xe)"
      have "thenA (dispatchS env i ?j (snd xe)) (\<lambda>_. viewS env c xe) s = (r, s')"
        using run True a Some by (simp add: run_accepted_def)
      then show ?thesis
      proof (cases rule: thenA_cases)
        case (fails e)
        then show ?thesis using abidesD [OF quiet_dispatch fails(1)] by simp
      next
        case (goes_on u s1)
        have "xr_leases (sy_rt s') = xr_leases (sy_rt s1)"
          using abidesD [OF leases.view goes_on(2)] by (simp add: leases_kept_def)
        then show ?thesis
          using quiet_trans [OF abidesD [OF quiet_dispatch goes_on(1)] abidesD [OF quiet.view goes_on(2)]]
            dispatch_submits [OF i goes_on(1)] by simp
      qed
    qed
  next
    case False
    then have "thenA (releaseS i) (\<lambda>_. viewS env c xe) s = (r, s')"
      using run by (cases created; cases acc) (auto simp: run_accepted_def)
    then have "quiet (snd (xr_release i (sy_rt s))) (sy_rt s')"
    proof (cases rule: thenA_cases)
      case (fails e)
      then have "sy_rt s' = snd (xr_release i (sy_rt s))" by (auto simp: releaseS_def on_rt_def split: prod.splits)
      then show ?thesis by simp
    next
      case (goes_on u s1)
      then have "sy_rt s1 = snd (xr_release i (sy_rt s))" by (auto simp: releaseS_def on_rt_def split: prod.splits)
      then show ?thesis using abidesD [OF quiet.view goes_on(2)] by simp
    qed
    then show ?thesis using quiet_refl [of "sy_rt s"] by blast
  qed
qed

lemma balanced_after:
  assumes "abides quiet m" and "\<And>x. balanced_body i (f x)"
  shows "balanced_body i (thenA m f)"
  unfolding balanced_body_def
proof (intro allI impI)
  fix s r s' assume i: "i < length (xr_leases (sy_rt s))" and run: "thenA m f s = (r, s')"
  from run show "quiet (sy_rt s) (sy_rt s') \<and> (\<forall>v. r = Inr v \<longrightarrow> el_submitted (lease_at (sy_rt s') i))
     \<or> (\<exists>rt. quiet (sy_rt s) rt \<and> quiet (snd (xr_release i rt)) (sy_rt s'))"
  proof (cases rule: thenA_cases)
    case (fails e)
    then show ?thesis using abidesD [OF assms(1) fails(1)] by simp
  next
    case (goes_on x s1)
    have q: "quiet (sy_rt s) (sy_rt s1)" using abidesD [OF assms(1) goes_on(1)] .
    then have "i < length (xr_leases (sy_rt s1))" using i quiet_length by simp
    then show ?thesis
      using assms(2) [unfolded balanced_body_def, rule_format, OF _ goes_on(2)] quiet_trans [OF q] by blast
  qed
qed

lemma reserve_and_run:
  assumes ok: "parts_ok (sy_rt s)" and body: "\<And>i. balanced_body i (body i)"
    and run: "thenA (reserveS env c h q) (\<lambda>i. release_on_error i (body i)) s = (r, s')"
  shows "gave_back (sy_rt s) (sy_rt s') \<or> (\<exists>v. r = Inr v) \<and> handed_over (sy_rt s) (sy_rt s')"
proof -
  let ?auth = "if q = None then None else Some (cl_provider c, cl_subject c)"
  obtain x rt1 where x: "xr_reserve (sb_ping env ''reserve'') (sb_closing env) (OwnerInt (user_of c)) h ?auth q (sy_rt s) = (x, rt1)"
    by fastforce
  have self: "gave_back (sy_rt s) (sy_rt s)" using ok by (simp add: quiet_gave_back)
  from run show ?thesis
  proof (cases rule: thenA_cases)
    case (fails e)
    show ?thesis
    proof (cases "sb_ready env = Some False")
      case False
      then have "\<exists>d. x = Inl d" "sy_rt s' = rt1"
        using fails x by (cases x; auto simp: reserveS_def)+
      then have "restored (sy_rt s) rt1" using xr_reserve_eff [OF ok x] by (auto simp: reserved_def)
      then show ?thesis using \<open>sy_rt s' = rt1\<close> restored_gave_back by simp
    qed (use fails self in \<open>simp add: reserveS_def\<close>)
  next
    case (goes_on i s1)
    then have xi: "x = Inr i" and s1: "sy_rt s1 = rt1"
      using x by (cases x; auto simp: reserveS_def split: if_splits)+
    note lease = reserved_lease [OF ok x [unfolded xi]]
    have i: "i < length (xr_leases (sy_rt s1))" using lease(3) [OF quiet_refl, of i] by (simp add: s1 live_def)
    obtain r2 s2 where b: "body i s1 = (r2, s2)" by (cases "body i s1")
    have fin: "case r2 of Inl _ \<Rightarrow> sy_rt s' = snd (xr_release i (sy_rt s2)) | Inr v \<Rightarrow> r = Inr v \<and> s' = s2"
      using goes_on(2) b by (auto simp: release_on_error_def releaseS_def on_rt_def split: sum.splits prod.splits)
    from body [unfolded balanced_body_def, rule_format, OF i b]
    consider "quiet rt1 (sy_rt s2)" "\<And>v. r2 = Inr v \<Longrightarrow> el_submitted (lease_at (sy_rt s2) i)"
      | rt where "quiet rt1 rt" "quiet (snd (xr_release i rt)) (sy_rt s2)" unfolding s1 by blast
    then show ?thesis
    proof cases
      case 1
      then show ?thesis
        using fin lease(1) [OF 1(1)] lease(2,3) [OF 1(1)] lease(4) [OF 1(1)] by (cases r2) (auto simp: handed_over_def)
    next
      case 2
      from lease(5) [OF 2] fin show ?thesis by (cases r2) auto
    qed
  qed
qed


text \<open>What runs under the operation lock keeps the leases balanced.\<close>

lemma serialized_balanced:
  assumes ok: "parts_ok (sy_rt s)" and locks: "abides locks_kept new" and first: "abides quiet m" "abides quiet n"
    and new: "\<And>s r s'. parts_ok (sy_rt s) \<Longrightarrow> new s = (r, s') \<Longrightarrow>
      gave_back (sy_rt s) (sy_rt s') \<or> (\<exists>v. r = Inr v) \<and> handed_over (sy_rt s) (sy_rt s')"
    and view: "\<And>x. abides quiet (shown x)" "\<And>x. abides locks_kept (shown x)" "abides locks_kept m" "abides locks_kept n"
    and run: "serializedS key (thenA m (\<lambda>_. thenA n (\<lambda>e. case e of Some x \<Rightarrow> shown x | None \<Rightarrow> new))) s = (r, s')"
  shows "gave_back (sy_rt s) (sy_rt s') \<or> (\<exists>v. r = Inr v) \<and> handed_over (sy_rt s) (sy_rt s')"
proof -
  let ?body = "thenA m (\<lambda>_. thenA n (\<lambda>e. case e of Some x \<Rightarrow> shown x | None \<Rightarrow> new))"
  have "abides locks_kept (case e of Some x \<Rightarrow> shown x | None \<Rightarrow> new)" for e
    using view(2) locks by (simp split: option.split)
  then have "abides locks_kept ?body" by (intro locks.andthen view(3,4))
  from serialized_call [OF this run] obtain s0 s1 where b: "?body s0 = (r, s1)"
    and s0: "sy_rt s0 = enter_operation key (sy_rt s)" and s1: "same_leases (sy_rt s1) (sy_rt s')" by metis
  have q0: "quiet (sy_rt s) (sy_rt s0)"
    unfolding s0 by (rule quiet_same) (simp add: enter_operation_def same_leases_def same_holdings_def)
  have q1: "quiet (sy_rt s1) (sy_rt s')" using s1 by (rule quiet_same)
  have calm: ?thesis if "quiet (sy_rt s0) (sy_rt s1)"
    using quiet_gave_back [OF ok quiet_trans [OF quiet_trans [OF q0 that] q1]] by simp
  from b show ?thesis
  proof (cases rule: thenA_cases)
    case (fails e)
    then show ?thesis using calm abidesD [OF first(1) fails(1)] by simp
  next
    case (goes_on u s2)
    have q2: "quiet (sy_rt s0) (sy_rt s2)" using abidesD [OF first(1) goes_on(1)] .
    from goes_on(2) show ?thesis
    proof (cases rule: thenA_cases)
      case (fails e)
      then show ?thesis using calm quiet_trans [OF q2 abidesD [OF first(2) fails(1)]] by simp
    next
      case (goes_on e s3)
      have q3: "quiet (sy_rt s) (sy_rt s3)" using quiet_trans [OF q0 quiet_trans [OF q2 abidesD [OF first(2) goes_on(1)]]] .
      show ?thesis
      proof (cases e)
        case (Some x)
        then have "quiet (sy_rt s3) (sy_rt s1)" using goes_on(2) abidesD [OF view(1)] by simp
        then show ?thesis using quiet_gave_back [OF ok quiet_trans [OF quiet_trans [OF q3 _] q1]] by simp
      next
        case None
        have "parts_ok (sy_rt s3)" using q3 ok by (simp add: quiet_def)
        from new [OF this] goes_on(2) None
        have "gave_back (sy_rt s3) (sy_rt s1) \<or> (\<exists>v. r = Inr v) \<and> handed_over (sy_rt s3) (sy_rt s1)" by simp
        moreover have "gave_back (sy_rt s) (sy_rt s')" if "gave_back (sy_rt s3) (sy_rt s1)"
          using gave_back_trans [OF gave_back_trans [OF quiet_gave_back [OF ok q3] that]] quiet_gave_back [OF _ q1] that
          by (simp add: gave_back_def)
        moreover have "handed_over (sy_rt s) (sy_rt s')" if h: "handed_over (sy_rt s3) (sy_rt s1)"
        proof -
          have n: "length (xr_leases (sy_rt s3)) = length (xr_leases (sy_rt s))" using q3 quiet_length by simp
          have "parts_ok (sy_rt s')" using h q1 by (simp add: handed_over_def quiet_def)
          moreover have "live (sy_rt s') j \<longleftrightarrow> live (sy_rt s) j \<or> j = length (xr_leases (sy_rt s))" for j
            using h quiet_live [OF q1] quiet_live [OF q3] by (simp add: handed_over_def n)
          moreover have "xr_leases (sy_rt s') = xr_leases (sy_rt s1)" using s1 by (simp add: same_leases_def)
          ultimately show ?thesis using h n by (simp add: handed_over_def)
        qed
        ultimately show ?thesis by blast
      qed
    qed
  qed
qed

lemma submit_new_balanced:
  assumes "parts_ok (sy_rt s)" and "submit_new env q s = (r, s')"
  shows "gave_back (sy_rt s) (sy_rt s') \<or> (\<exists>v. r = Inr v) \<and> handed_over (sy_rt s) (sy_rt s')"
  using assms(2) unfolding submit_new_def
proof (cases rule: thenA_cases)
  case (fails e)
  then show ?thesis using quiet_gave_back [OF assms(1) abidesD [OF quiet.admit fails(1)]] by simp
next
  case (goes_on x s1)
  have q: "quiet (sy_rt s) (sy_rt s1)" using abidesD [OF quiet.admit goes_on(1)] .
  have ok: "parts_ok (sy_rt s1)" using q assms(1) by (simp add: quiet_def)
  have body: "balanced_body i (thenA (accept_submission env q x) (\<lambda>out.
          case out of ExecutionAcceptance xe acc created \<Rightarrow>
            run_accepted env (sm_caller q) (sm_request q) (sm_mode q) False i xe acc created))" for i
    unfolding accept_submission_def
    by (rule balanced_after) (simp_all add: run_accepted_balanced split: acceptance.split)
  from reserve_and_run [OF ok body goes_on(2)] show ?thesis
    using quiet_gave_back [OF assms(1) q] quiet_length [OF q] quiet_live [OF q]
    by (auto simp: handed_over_def intro: gave_back_trans)
qed

lemma requery_new_balanced:
  assumes "parts_ok (sy_rt s)" and "requery_new env c src op request s = (r, s')"
  shows "gave_back (sy_rt s) (sy_rt s') \<or> (\<exists>v. r = Inr v) \<and> handed_over (sy_rt s) (sy_rt s')"
  using assms(2) unfolding requery_new_def
proof (cases rule: thenA_cases)
  case (fails e)
  then show ?thesis using quiet_gave_back [OF assms(1) abidesD [OF quiet.source fails(1)]] by simp
next
  case (goes_on k s1)
  have q: "quiet (sy_rt s) (sy_rt s1)" using abidesD [OF quiet.source goes_on(1)] .
  have ok: "parts_ok (sy_rt s1)" using q assms(1) by (simp add: quiet_def)
  have fail: "balanced_body i (failA e)" for i and e :: app_exc
    by (auto simp: balanced_body_def failA_def)
  have body: "balanced_body i (thenA (accept_requery env c src op request k) (\<lambda>out.
          case rr_execution out of
            None \<Rightarrow> failA (AppAttempt XOther)
          | Some xe \<Rightarrow> run_accepted env c request k True i xe (Some (rr_attempt out)) (rr_created out)))" for i
    unfolding accept_requery_def
    by (rule balanced_after) (simp_all add: run_accepted_balanced fail split: option.split)
  from reserve_and_run [OF ok body goes_on(2)] show ?thesis
    using quiet_gave_back [OF assms(1) q] quiet_length [OF q] quiet_live [OF q]
    by (auto simp: handed_over_def intro: gave_back_trans)
qed

text \<open>C15: Every way out of \<open>submit\<close> and \<open>requery\<close> settles the lease they reserve. Whatever is refused,
  whatever transaction fails or loses its reply and whatever else changes the database meanwhile, the
  capacity slots, the histories and the analysis runs end up held by exactly whom they were held before
  the call; or the call returned a view and left one more live lease, whose worker was submitted.\<close>
theorem submission_balances_leases:
  assumes "xr_reachable (sy_rt s)"
    and "submitS env q s = (r, s') \<or> requeryS env c src op request s = (r, s')"
  shows "gave_back (sy_rt s) (sy_rt s') \<or> (\<exists>v. r = Inr v) \<and> handed_over (sy_rt s) (sy_rt s')"
proof -
  have ok: "parts_ok (sy_rt s)" using xr_reachable_ok [OF assms(1)] by (simp add: rt_ok_def)
  from assms(2) show ?thesis
  proof
    assume "submitS env q s = (r, s')"
    then show ?thesis unfolding submitS_def
      by (rule serialized_balanced [where m = "authorizeS env (sm_caller q) ''submit''", rotated -1])
        (simp_all add: ok locks_submit_new submit_new_balanced)
  next
    assume "requeryS env c src op request s = (r, s')"
    then show ?thesis unfolding requeryS_def
      by (rule serialized_balanced [where m = "authorizeS env c ''requery''", rotated -1])
        (simp_all add: ok locks_requery_new requery_new_balanced)
  qed
qed


definition demo_app :: "(unit, unit) app_env" where
  "demo_app =
     \<lparr>sb_attempt = demo_env, sb_answer = (\<lambda>p. if p = ''header'' then Some ''SERVICE_NOT_READY'' else None),
      sb_ready = Some True, sb_ping = (\<lambda>_. True), sb_locked = (\<lambda>_. False), sb_closing = False, sb_pool = True,
      sb_clock = 0, sb_epoch = demo_epoch, sb_sha = demo_sha, sb_digest = (\<lambda>_. [6]),
      sb_question_sha = id, sb_codec = (\<lambda>_. Inr ()), sb_public = (\<lambda>_. Inr ()), sb_admit = (\<lambda>_. None),
      sb_ids = \<lparr>ri_history = [21], ri_turn = demo_turn, ri_execution = demo_exec, ri_run = [22]\<rparr>\<rparr>"

definition demo_caller :: caller where
  "demo_caller = \<lparr>cl_user = Some 7, cl_provider = [108], cl_subject = [117]\<rparr>"

definition demo_submission :: submission where
  "demo_submission =
     \<lparr>sm_caller = demo_caller, sm_request = [8], sm_history = demo_history, sm_op = [5], sm_mode = Query,
      sm_question = [65], sm_context_revision = Some 0, sm_record_revision = Some 0\<rparr>"

lemmas app_defs = demo_app_def demo_env_def demo_caller_def demo_submission_def authorizeS_def checkR_def on_db_def
  storeS_def readS_def storeA_def store_call_def user_of_def app_error_def error_named_def okA_def failA_def

lemma submission_balances_leases_witness:
  "fst (submitS (demo_app\<lparr>sb_ready := Some False\<rparr>) demo_submission \<lparr>sy_db = idle_db, sy_rt = demo_rt\<rparr>)
     = Inl (app_error demo_app ''SERVICE_NOT_READY'')
   \<and> cap_held (sy_rt (snd (submitS (demo_app\<lparr>sb_ready := Some False\<rparr>) demo_submission
       \<lparr>sy_db = idle_db, sy_rt = demo_rt\<rparr>))) = cap_held demo_rt"
proof -
  let ?env = "demo_app\<lparr>sb_ready := Some False\<rparr>" and ?s = "\<lparr>sy_db = idle_db, sy_rt = demo_rt\<rparr>"
  obtain r s' where run: "submitS ?env demo_submission ?s = (r, s')" by fastforce
  have r: "r = Inl (app_error demo_app ''SERVICE_NOT_READY'')"
    using run by (simp add: submitS_def serializedS_def thenA_def app_defs submit_new_def admit_submission_def
        execution_by_operation_def history_header_def reserveS_def hr_check_def demo_rt_def hr_init_def
        leave_operation_def enter_operation_def demo_defs store_defs)
  have "gave_back demo_rt (sy_rt s')"
    using submission_balances_leases [where s = ?s and env = ?env and q = demo_submission] demo_rt_reachable run r
    by fastforce
  then show ?thesis using run r by (simp add: gave_back_def)
qed

text \<open>A view that fails after the worker was submitted.\<close>

lemma failed_view_run:
  assumes "acc_token a = Some tok"
    and "dispatchS env i (job_of c k requery (tn_question (snd (acc_turn a))) request a tok (fst xe)) (snd xe) s = (Inr (), s1)"
    and "viewS env c xe s1 = (Inl e, s2)"
  shows "run_accepted env c request k requery i xe (Some a) True s = (Inl e, s2)"
  using assms by (simp add: run_accepted_def thenA_def)

text \<open>C16: The occupation is not kept until the worker exits: when the worker was submitted and the view of
  the accepted execution cannot be read afterwards, because the authorisation or the database fails, the
  handler of \<open>submit\<close> and \<open>requery\<close> releases the lease. The call raises, the worker is in the pool, and its
  capacity slot and its history are free for another execution.\<close>
theorem failed_view_frees_running_worker:
  assumes "xr_reachable (sy_rt s)" and "live (sy_rt s) i" and "acc_token a = Some tok"
    and "dispatchS env i (job_of c k requery (tn_question (snd (acc_turn a))) request a tok (fst xe)) (snd xe) s = (Inr (), s1)"
    and "viewS env c xe s1 = (Inl e, s2)"
    and "release_on_error i (run_accepted env c request k requery i xe (Some a) True) s = (r, s')"
  shows "(\<exists>e'. r = Inl e') \<and> el_submitted (lease_at (sy_rt s') i) \<and> \<not> live (sy_rt s') i
    \<and> cap_held (sy_rt s') (el_capacity (lease_at (sy_rt s') i)) = None
    \<and> hist_held (sy_rt s') (el_history (lease_at (sy_rt s') i)) = None"
proof -
  have "parts_ok (sy_rt s)" using xr_reachable_ok [OF assms(1)] by (simp add: rt_ok_def)
  moreover have q: "quiet (sy_rt s) (sy_rt s2)"
    using quiet_trans [OF abidesD [OF quiet_dispatch assms(4)] abidesD [OF quiet.view assms(5)]] .
  ultimately have ok: "parts_ok (sy_rt s2)" by (simp add: quiet_def)
  have l: "live (sy_rt s2) i" using quiet_live [OF q] assms(2) by simp
  have "el_submitted (lease_at (sy_rt s1) i)" using dispatch_submits [OF _ assms(4)] assms(2) by (simp add: live_def)
  moreover have "xr_leases (sy_rt s2) = xr_leases (sy_rt s1)"
    using abidesD [OF leases.view assms(5)] by (simp add: leases_kept_def)
  ultimately have sub: "el_submitted (lease_at (sy_rt s2) i)" by simp
  have "(\<exists>e'. r = Inl e') \<and> sy_rt s' = snd (xr_release i (sy_rt s2))"
    using assms(6) failed_view_run [OF assms(3-5)]
    by (auto simp: release_on_error_def releaseS_def on_rt_def split: sum.splits prod.splits)
  then show ?thesis
    using xr_release_eff [OF ok l] sub l by (simp add: live_def)
qed


definition demo_at :: sys where
  "demo_at = \<lparr>sy_db = demo_db, sy_rt = demo_busy\<rparr>"

lemma failed_view_frees_running_worker_witness:
  "(let s' = snd (release_on_error 0 (run_accepted demo_app demo_caller [8] Query False 0 (demo_exec, demo_exec_row)
        (Some (jb_accepted demo_job)) True) demo_at)
    in el_submitted (lease_at (sy_rt s') 0) \<and> \<not> live (sy_rt s') 0)"
proof -
  let ?a = "jb_accepted demo_job"
  let ?run = "run_accepted demo_app demo_caller [8] Query False 0 (demo_exec, demo_exec_row) (Some ?a) True"
  let ?j = "job_of demo_caller Query False (tn_question (snd (acc_turn ?a))) [8] ?a demo_token demo_exec"
  have tok: "acc_token ?a = Some demo_token" by (simp add: demo_job_def)
  have "xr_channel_of demo_busy = Map.empty"
    by (simp add: demo_busy_def demo_rt_def demo_capacity_def xr_reserve_def reserve_owner_def owner_active_def
        reserve_history_def hr_reserve_def hr_check_def hr_init_def reserve_run_def conclude_reserve_def)
  then have "fst (dispatchS demo_app 0 ?j demo_exec_row demo_at) = Inr ()"
    by (simp add: dispatchS_def start_worker_def demo_at_def on_rt_def attach_progress_def bind_stop_control_def
        submit_def thenA_def app_defs demo_busy_leases new_lease_def set_lease_def Let_def job_of_def
        get_execution_def demo_defs store_defs)
  then obtain s1 where d: "dispatchS demo_app 0 ?j demo_exec_row demo_at = (Inr (), s1)" by (metis prod.collapse)
  have "\<exists>e s2. viewS demo_app demo_caller (demo_exec, demo_exec_row) s1 = (Inl e, s2)"
    by (simp add: viewS_def headerS_def thenA_def app_defs)
  then obtain e s2 where v: "viewS demo_app demo_caller (demo_exec, demo_exec_row) s1 = (Inl e, s2)" by blast
  have "xr_reachable (sy_rt demo_at)" "live (sy_rt demo_at) 0"
    by (simp_all add: demo_at_def demo_busy_reachable demo_busy_live)
  from failed_view_frees_running_worker [OF this tok _ v prod.collapse [symmetric], of Query False "[8]"] d
  show ?thesis by (simp add: Let_def)
qed

end
