(* ===== verification/Decimal.thy ===== *)
theory Decimal
  imports Prelude
begin

text \<open>
  Python's \<open>decimal\<close> numbers in the default context, as far as the program uses them: the finite values
  are rationals, an operation is the exact one rounded to 28 significant digits, half to even, with the
  context's range of exponents. The number of trailing zeros, which only the text of a number shows, is
  not kept. Building a number from a text is exact.
\<close>

section \<open>Powers of ten\<close>

definition pow10 :: "int \<Rightarrow> rat" where
  "pow10 e = (if 0 \<le> e then 10 ^ nat e else 1 / 10 ^ nat (- e))"

lemma pow10_pos [simp]: "0 < pow10 e"
  by (simp add: pow10_def)

lemma pow10_nonzero [simp]: "pow10 e \<noteq> 0" "0 \<le> pow10 e"
  using pow10_pos [of e] by (simp_all del: pow10_pos)

lemma pow10_add: "pow10 (a + b) = pow10 a * pow10 b"
proof -
  have split: "pow10 e = 10 powi e" for e
    by (simp add: pow10_def power_int_def field_simps)
  show ?thesis unfolding split by (rule power_int_add) simp
qed

lemma pow10_one: "pow10 0 = 1" "pow10 1 = 10"
  by (simp_all add: pow10_def)

lemma pow10_Suc: "pow10 (e + 1) = 10 * pow10 e"
  by (simp add: pow10_add pow10_one)

lemma pow10_ge_one: "0 \<le> e \<Longrightarrow> 1 \<le> pow10 e"
  by (simp add: pow10_def)

lemma pow10_mono: "a \<le> b \<Longrightarrow> pow10 a \<le> pow10 b"
  using pow10_add [of a "b - a"] pow10_ge_one [of "b - a"] mult_left_mono [of 1 "pow10 (b - a)" "pow10 a"]
  by simp

section \<open>Rounding\<close>

datatype dec_error = DecOverflow | DecDivision

fun digit_count :: "nat \<Rightarrow> nat" where
  "digit_count n = (if n < 10 then 1 else Suc (digit_count (n div 10)))"

declare digit_count.simps [simp del]

text \<open>The exponent of the leading digit of a number that is not zero.\<close>

definition adjusted :: "rat \<Rightarrow> int" where
  "adjusted x =
     (let (n, d) = quotient_of \<bar>x\<bar>;
          k = int (digit_count (nat n)) - int (digit_count (nat d))
      in if pow10 k \<le> \<bar>x\<bar> then k else k - 1)"

definition half_even :: "rat \<Rightarrow> int" where
  "half_even x =
     (let f = \<lfloor>x\<rfloor>; r = x - of_int f
      in if r < 1 / 2 then f else if 1 / 2 < r then f + 1 else if even f then f else f + 1)"

text \<open>The precision, the largest adjusted exponent, and the exponent of the smallest subnormal number.\<close>

definition dec_precision :: int where "dec_precision = 28"
definition dec_emax :: int where "dec_emax = 999999"
definition dec_etiny :: int where "dec_etiny = - 999999 - 27"

definition dec_fix :: "rat \<Rightarrow> dec_error + rat" where
  "dec_fix x =
     (if x = 0 then Inr 0
      else let q = max (adjusted x - (dec_precision - 1)) dec_etiny;
               y = of_int (half_even (x / pow10 q)) * pow10 q
           in if y \<noteq> 0 \<and> dec_emax < adjusted y then Inl DecOverflow else Inr y)"

definition dec_add :: "rat \<Rightarrow> rat \<Rightarrow> dec_error + rat" where "dec_add x y = dec_fix (x + y)"
definition dec_sub :: "rat \<Rightarrow> rat \<Rightarrow> dec_error + rat" where "dec_sub x y = dec_fix (x - y)"
definition dec_mul :: "rat \<Rightarrow> rat \<Rightarrow> dec_error + rat" where "dec_mul x y = dec_fix (x * y)"
definition dec_div :: "rat \<Rightarrow> rat \<Rightarrow> dec_error + rat" where
  "dec_div x y = (if y = 0 then Inl DecDivision else dec_fix (x / y))"
definition dec_neg :: "rat \<Rightarrow> dec_error + rat" where "dec_neg x = dec_fix (- x)"
definition dec_abs :: "rat \<Rightarrow> dec_error + rat" where "dec_abs x = dec_fix \<bar>x\<bar>"

text \<open>\<open>sum(values, start=Decimal(0))\<close>.\<close>

fun dec_sum :: "rat \<Rightarrow> rat list \<Rightarrow> dec_error + rat" where
  "dec_sum acc [] = Inr acc"
| "dec_sum acc (x # xs) = bindR (dec_add acc x) (\<lambda>s. dec_sum s xs)"

lemmas dec_ops = dec_add_def dec_sub_def dec_mul_def dec_neg_def dec_abs_def

section \<open>Numbers from texts\<close>

text \<open>\<open>Decimal(text)\<close> where it is finite. \<open>du\<close> is the decimal value Unicode gives a character.\<close>

definition ascii_char :: "(nat \<Rightarrow> nat option) \<Rightarrow> nat \<Rightarrow> nat option" where
  "ascii_char du c =
     (if c < 128 then Some c else if py_isspace c then Some 32 else map_option (\<lambda>d. 48 + d) (du c))"

definition ascii_digit :: "nat \<Rightarrow> bool" where
  "ascii_digit c \<longleftrightarrow> 48 \<le> c \<and> c \<le> 57"

definition digits_int :: "pystr \<Rightarrow> int" where
  "digits_int ds = foldl (\<lambda>n d. 10 * n + (int d - 48)) 0 ds"

definition parse_sign :: "pystr \<Rightarrow> bool \<times> pystr" where
  "parse_sign s = (case s of c # t \<Rightarrow> if c = 45 then (True, t) else if c = 43 then (False, t) else (False, s) | [] \<Rightarrow> (False, []))"

definition parse_exponent :: "pystr \<Rightarrow> int option" where
  "parse_exponent s =
     (case s of
        [] \<Rightarrow> Some 0
      | c # t \<Rightarrow>
          (let (neg, ds) = parse_sign t
           in if (c = 69 \<or> c = 101) \<and> ds \<noteq> [] \<and> list_all ascii_digit ds
              then Some (if neg then - digits_int ds else digits_int ds) else None))"

definition parse_number :: "pystr \<Rightarrow> rat option" where
  "parse_number s =
     (let (neg, body) = parse_sign s;
          whole = takeWhile ascii_digit body;
          rest = dropWhile ascii_digit body;
          (frac, tail) = (case rest of c # t \<Rightarrow> if c = 46 then (takeWhile ascii_digit t, dropWhile ascii_digit t) else ([], rest)
                          | [] \<Rightarrow> ([], []))
      in if whole @ frac = [] then None
         else map_option (\<lambda>e. (if neg then -1 else 1) * of_int (digits_int (whole @ frac)) * pow10 (e - int (length frac)))
                (parse_exponent tail))"

definition decimal_of :: "(nat \<Rightarrow> nat option) \<Rightarrow> pystr \<Rightarrow> rat option" where
  "decimal_of du s = Option.bind (those (map (ascii_char du) (filter (\<lambda>c. c \<noteq> 95) (strip s)))) parse_number"

end
