(* ===== verification/Attribution.thy ===== *)
theory Attribution
  imports Decimal Task_Executor "HOL-Library.AList" "HOL-Library.Product_Lexorder"
begin

text \<open>
  The attribution of a change between two periods, \<open>business_analysis/attribution.py\<close>: the numbers of the
  four fixed tasks, their reconciliation, the contribution of every product and of the factors behind it,
  and the products named first. A cell of a result row is kept with the type the code distinguishes:
  \<open>CText\<close> a \<open>str\<close>, \<open>COther\<close> any other value, given by its \<open>str()\<close>. The payload for the report, texts of the
  same numbers, is not modelled.
\<close>

section \<open>Data\<close>

datatype cell = CNone | CBool bool | CText pystr | COther pystr

datatype attr_error = Attribution string | Signal dec_error

datatype classification = NewProduct | ExitedProduct | Continuing

datatype factor = ProductEntry | ProductExit | UnitPrice | Quantity | UnitCost

record product_period =
  pp_sales :: rat
  pp_quantity :: rat
  pp_cost :: "rat option"

record contribution =
  pc_name :: pystr
  pc_change :: rat
  pc_class :: classification
  pc_factors :: "(factor \<times> rat) list"

record attribution =
  bt_metric :: pystr
  bt_current_period :: pystr
  bt_comparison_period :: pystr
  bt_comparison :: rat
  bt_current :: rat
  bt_change :: rat
  bt_products :: "contribution list"
  bt_top :: "contribution list"

type_synonym 'a att = "attr_error + 'a"

definition arith :: "dec_error + 'a \<Rightarrow> 'a att" where
  "arith r = map_sum Signal id r"

text \<open>A millionth.\<close>

definition tolerance :: rat where "tolerance = pow10 (- 6)"

section \<open>Reading the results\<close>

definition direction :: "attribution \<Rightarrow> string" where
  "direction a = (if 0 < bt_change a then ''increase'' else if bt_change a < 0 then ''decrease'' else ''unchanged'')"

definition metric_effect :: "rat \<Rightarrow> string" where
  "metric_effect x = (if 0 < x then ''increases_target_metric'' else if x < 0 then ''decreases_target_metric''
     else ''no_change_to_target_metric'')"

definition product_columns :: "pystr list" where
  "product_columns = [[20135, 21697], [20135, 21697, 21517, 31216], lit ''product'', lit ''product_name'']"

definition metric_aliases :: "pystr \<Rightarrow> pystr list" where
  "metric_aliases m =
     (if m = net_sales then
        [[20154, 27665, 24065, 20928, 38144, 21806, 39069], [20928, 38144, 21806, 39069],
         [20154, 27665, 24065, 38144, 21806, 39069], [38144, 21806, 39069], lit ''net_sales_cny'',
         lit ''net_sales_amount_cny'']
      else if m = sales_quantity then
        [[24050, 23436, 25104, 38144, 21806, 25968, 37327], [38144, 21806, 25968, 37327], [38144, 37327],
         lit ''completed_sales_quantity'', lit ''sales_quantity'', lit ''quantity'']
      else if m = sales_cost then
        [[20154, 27665, 24065, 38144, 21806, 25104, 26412], [38144, 21806, 25104, 26412],
         [20154, 27665, 24065, 25104, 26412], [25104, 26412], lit ''sales_cost_cny'', lit ''sales_cost_amount_cny'']
      else [[20154, 27665, 24065, 27611, 21033], [27611, 21033], [20154, 27665, 24065, 27611, 21033, 28070],
            lit ''gross_profit_cny''])"

definition column_char :: "nat \<Rightarrow> bool" where
  "column_char c \<longleftrightarrow> (97 \<le> c \<and> c \<le> 122) \<or> (48 \<le> c \<and> c \<le> 57) \<or> (19968 \<le> c \<and> c \<le> 40959)"

definition normalize_column :: "unicode \<Rightarrow> pystr \<Rightarrow> pystr" where
  "normalize_column u s = filter column_char (u_casefold u s)"

definition decimal_cell :: "(nat \<Rightarrow> nat option) \<Rightarrow> cell \<Rightarrow> rat att" where
  "decimal_cell du c =
     (let bad = Inl (Attribution ''NUMERIC_VALUE_INVALID'');
          number = (\<lambda>s. case decimal_of du s of None \<Rightarrow> bad | Some x \<Rightarrow> Inr x)
      in case c of CNone \<Rightarrow> bad | CBool _ \<Rightarrow> bad | CText s \<Rightarrow> number s | COther s \<Rightarrow> number s)"

definition overall_value :: "(nat \<Rightarrow> nat option) \<Rightarrow> cell task_result \<Rightarrow> rat att" where
  "overall_value du r =
     (case (res_columns r, res_rows r) of
        ([_], [[c]]) \<Rightarrow> decimal_cell du c
      | _ \<Rightarrow> Inl (Attribution ''OVERALL_RESULT_SHAPE_INVALID''))"

text \<open>The columns, from the left: the index of the product column and of each metric.\<close>

fun add_indexes :: "unicode \<Rightarrow> pystr \<Rightarrow> nat \<Rightarrow> pystr list \<Rightarrow> (pystr \<times> nat) list \<Rightarrow> (pystr \<times> nat) list att" where
  "add_indexes u col i [] found = Inr found"
| "add_indexes u col i (m # ms) found =
     (if normalize_column u col \<in> set (map (normalize_column u) (metric_aliases m)) then
        if m \<in> fst ` set found then Inl (Attribution ''METRIC_COLUMN_AMBIGUOUS'')
        else add_indexes u col i ms (found @ [(m, i)])
      else add_indexes u col i ms found)"

fun find_columns ::
  "unicode \<Rightarrow> pystr list \<Rightarrow> nat \<Rightarrow> pystr list \<Rightarrow> nat option \<Rightarrow> (pystr \<times> nat) list \<Rightarrow> (nat option \<times> (pystr \<times> nat) list) att" where
  "find_columns u ms i [] product found = Inr (product, found)"
| "find_columns u ms i (col # cols) product found =
     (let named = normalize_column u col \<in> set (map (normalize_column u) product_columns)
      in if named \<and> product \<noteq> None then Inl (Attribution ''PRODUCT_COLUMN_AMBIGUOUS'')
         else bindR (add_indexes u col i ms found)
                (find_columns u ms (i + 1) cols (if named then Some i else product)))"

definition product_row ::
  "(nat \<Rightarrow> nat option) \<Rightarrow> nat \<Rightarrow> nat \<Rightarrow> (pystr \<times> nat) list \<Rightarrow> cell list \<Rightarrow> (pystr \<times> product_period) att" where
  "product_row du width product found row =
     (if length row \<noteq> width then Inl (Attribution ''PRODUCT_RESULT_SHAPE_INVALID'')
      else case row ! product of
        CText raw \<Rightarrow>
          if strip raw = [] then Inl (Attribution ''PRODUCT_NAME_INVALID'')
          else bindR (decimal_cell du (row ! the (map_of found net_sales))) (\<lambda>sales.
               bindR (decimal_cell du (row ! the (map_of found sales_quantity))) (\<lambda>quantity.
               bindR (case map_of found sales_cost of
                        None \<Rightarrow> Inr None | Some i \<Rightarrow> map_sum id Some (decimal_cell du (row ! i))) (\<lambda>cost.
               if quantity \<le> 0 then Inl (Attribution ''PRODUCT_QUANTITY_INVALID'')
               else Inr (strip raw, \<lparr>pp_sales = sales, pp_quantity = quantity, pp_cost = cost\<rparr>))))
      | _ \<Rightarrow> Inl (Attribution ''PRODUCT_NAME_INVALID''))"

definition combine :: "product_period \<Rightarrow> product_period \<Rightarrow> product_period att" where
  "combine a b =
     bindR (case (pp_cost a, pp_cost b) of
              (Some x, Some y) \<Rightarrow> map_sum id Some (arith (dec_add x y)) | _ \<Rightarrow> Inr None) (\<lambda>cost.
     bindR (arith (dec_add (pp_sales a) (pp_sales b))) (\<lambda>sales.
     bindR (arith (dec_add (pp_quantity a) (pp_quantity b))) (\<lambda>quantity.
     Inr \<lparr>pp_sales = sales, pp_quantity = quantity, pp_cost = cost\<rparr>)))"

type_synonym products = "(pystr \<times> product_period) list"

definition add_product :: "pystr \<times> product_period \<Rightarrow> products \<Rightarrow> products att" where
  "add_product np ps =
     (case map_of ps (fst np) of
        None \<Rightarrow> Inr (ps @ [np])
      | Some old \<Rightarrow> map_sum id (\<lambda>p. AList.update (fst np) p ps) (combine old (snd np)))"

fun product_rows ::
  "(nat \<Rightarrow> nat option) \<Rightarrow> nat \<Rightarrow> nat \<Rightarrow> (pystr \<times> nat) list \<Rightarrow> cell list list \<Rightarrow> products \<Rightarrow> products att" where
  "product_rows du width product found [] ps = Inr ps"
| "product_rows du width product found (row # rows) ps =
     bindR (product_row du width product found row) (\<lambda>np.
     bindR (add_product np ps) (product_rows du width product found rows))"

definition product_values ::
  "unicode \<Rightarrow> (nat \<Rightarrow> nat option) \<Rightarrow> pystr \<Rightarrow> cell task_result \<Rightarrow> products att" where
  "product_values u du metric r =
     bindR (find_columns u (product_metrics metric) 0 (res_columns r) None []) (\<lambda>(product, found).
     case product of
       None \<Rightarrow> Inl (Attribution ''PRODUCT_RESULT_COLUMNS_INVALID'')
     | Some p \<Rightarrow>
         if set (map fst found) \<noteq> set (product_metrics metric)
         then Inl (Attribution ''PRODUCT_RESULT_COLUMNS_INVALID'')
         else product_rows du (length (res_columns r)) p found (res_rows r) [])"

section \<open>Contributions\<close>

definition gross :: "product_period \<Rightarrow> rat option att" where
  "gross p = (case pp_cost p of None \<Rightarrow> Inr None | Some c \<Rightarrow> map_sum id Some (arith (dec_sub (pp_sales p) c)))"

definition reconciles :: "rat \<Rightarrow> rat \<Rightarrow> string \<Rightarrow> unit att" where
  "reconciles x y reason =
     bindR (arith (dec_sub x y)) (\<lambda>d. bindR (arith (dec_abs d)) (\<lambda>a.
     if tolerance < a then Inl (Attribution reason) else Inr ()))"

definition period_total :: "products \<Rightarrow> pystr \<Rightarrow> rat att" where
  "period_total ps metric =
     (if metric = gross_profit then
        bindR (mapR (\<lambda>(_, p). map_sum id (\<lambda>g. case g of None \<Rightarrow> 0 | Some x \<Rightarrow> x) (gross p)) ps) (\<lambda>xs. arith (dec_sum 0 xs))
      else arith (dec_sum 0 (map (\<lambda>(_, p). pp_sales p) ps)))"

definition reconcile_period :: "products \<Rightarrow> rat \<Rightarrow> pystr \<Rightarrow> unit att" where
  "reconcile_period ps overall metric =
     bindR (period_total ps metric) (\<lambda>total. reconciles total overall ''PERIOD_TOTAL_RECONCILIATION_FAILED'')"

definition period_metric :: "product_period option \<Rightarrow> pystr \<Rightarrow> rat att" where
  "period_metric p metric =
     (case p of
        None \<Rightarrow> Inr 0
      | Some p \<Rightarrow>
          if metric = gross_profit then
            bindR (gross p) (\<lambda>g. case g of None \<Rightarrow> Inl (Attribution ''PRODUCT_COST_MISSING'') | Some x \<Rightarrow> Inr x)
          else Inr (pp_sales p))"

definition price_factor :: "rat \<Rightarrow> rat \<Rightarrow> rat \<Rightarrow> dec_error + rat" where
  "price_factor new old mean = bindR (dec_sub new old) (\<lambda>d. dec_mul d mean)"

definition quantity_factor :: "rat \<Rightarrow> rat \<Rightarrow> rat \<Rightarrow> dec_error + rat" where
  "quantity_factor old_quantity new_quantity margins =
     bindR (dec_sub new_quantity old_quantity) (\<lambda>d. bindR (dec_mul d margins) (\<lambda>p. dec_div p 2))"

definition sales_factors :: "product_period \<Rightarrow> product_period \<Rightarrow> rat \<Rightarrow> rat \<Rightarrow> rat \<Rightarrow> (factor \<times> rat) list att" where
  "sales_factors a b old_price new_price mean =
     bindR (arith (price_factor new_price old_price mean)) (\<lambda>price.
     bindR (arith (bindR (dec_add old_price new_price) (quantity_factor (pp_quantity a) (pp_quantity b)))) (\<lambda>quantity.
     Inr [(UnitPrice, price), (Quantity, quantity)]))"

definition profit_factors :: "product_period \<Rightarrow> product_period \<Rightarrow> rat \<Rightarrow> rat \<Rightarrow> rat \<Rightarrow> (factor \<times> rat) list att" where
  "profit_factors a b old_price new_price mean =
     (case (pp_cost a, pp_cost b) of
        (Some old_cost, Some new_cost) \<Rightarrow>
          bindR (arith (dec_div old_cost (pp_quantity a))) (\<lambda>old_unit.
          bindR (arith (dec_div new_cost (pp_quantity b))) (\<lambda>new_unit.
          bindR (arith (price_factor new_price old_price mean)) (\<lambda>price.
          bindR (arith (bindR (dec_sub old_price old_unit) (\<lambda>m. bindR (dec_sub new_price new_unit) (\<lambda>n.
            bindR (dec_add m n) (quantity_factor (pp_quantity a) (pp_quantity b)))))) (\<lambda>quantity.
          bindR (arith (bindR (dec_sub new_unit old_unit) (\<lambda>d. bindR (dec_neg d) (\<lambda>n. dec_mul n mean)))) (\<lambda>cost.
          Inr [(UnitPrice, price), (Quantity, quantity), (UnitCost, cost)])))))
      | _ \<Rightarrow> Inl (Attribution ''PRODUCT_COST_MISSING''))"

definition continuing_contribution :: "pystr \<Rightarrow> product_period \<Rightarrow> product_period \<Rightarrow> pystr \<Rightarrow> contribution att" where
  "continuing_contribution name a b metric =
     bindR (arith (dec_div (pp_sales a) (pp_quantity a))) (\<lambda>old_price.
     bindR (arith (dec_div (pp_sales b) (pp_quantity b))) (\<lambda>new_price.
     bindR (arith (bindR (dec_add (pp_quantity a) (pp_quantity b)) (\<lambda>s. dec_div s 2))) (\<lambda>mean.
     bindR ((if metric = net_sales then sales_factors else profit_factors) a b old_price new_price mean) (\<lambda>factors.
     bindR (period_metric (Some b) metric) (\<lambda>now.
     bindR (period_metric (Some a) metric) (\<lambda>before.
     bindR (arith (dec_sub now before)) (\<lambda>change.
     bindR (arith (dec_sum 0 (map snd factors))) (\<lambda>total.
     bindR (reconciles total change ''PRODUCT_FACTOR_RECONCILIATION_FAILED'') (\<lambda>_.
     Inr \<lparr>pc_name = name, pc_change = change, pc_class = Continuing, pc_factors = factors\<rparr>)))))))))"

definition product_contribution ::
  "pystr \<Rightarrow> product_period option \<Rightarrow> product_period option \<Rightarrow> pystr \<Rightarrow> contribution att" where
  "product_contribution name comparison current metric =
     (case (comparison, current) of
        (None, _) \<Rightarrow>
          bindR (period_metric current metric) (\<lambda>change.
          Inr \<lparr>pc_name = name, pc_change = change, pc_class = NewProduct, pc_factors = [(ProductEntry, change)]\<rparr>)
      | (Some _, None) \<Rightarrow>
          bindR (period_metric comparison metric) (\<lambda>x. bindR (arith (dec_neg x)) (\<lambda>change.
          Inr \<lparr>pc_name = name, pc_change = change, pc_class = ExitedProduct, pc_factors = [(ProductExit, change)]\<rparr>))
      | (Some a, Some b) \<Rightarrow> continuing_contribution name a b metric)"

definition top_products :: "contribution list \<Rightarrow> rat \<Rightarrow> contribution list att" where
  "top_products ps change =
     (if 0 < change then
        bindR (mapR (\<lambda>p. bindR (arith (dec_neg (pc_change p))) (\<lambda>k. Inr ((k, pc_name p), p)))
                 (filter (\<lambda>p. 0 < pc_change p) ps))
          (\<lambda>keyed. Inr (take 3 (map snd (sort_key fst keyed))))
      else if change < 0 then
        Inr (take 3 (sort_key (\<lambda>p. (pc_change p, pc_name p)) (filter (\<lambda>p. pc_change p < 0) ps)))
      else Inr [])"

section \<open>The attribution\<close>

definition expected_ids :: "pystr list" where
  "expected_ids = [lit ''comparison-overall'', lit ''current-overall'', lit ''comparison-products'', lit ''current-products'']"

definition results_of :: "cell task_result list \<Rightarrow> pystr \<rightharpoonup> cell task_result" where
  "results_of rs = map_of (rev (map (\<lambda>r. (res_id r, r)) rs))"

definition complete_results :: "cell task_result list \<Rightarrow> unit att" where
  "complete_results rs =
     (if length (remdups (map res_id rs)) \<noteq> length rs \<or> list_ex (\<lambda>k. results_of rs k = None) expected_ids
      then Inl (Attribution ''TASK_RESULTS_INCOMPLETE'')
      else if list_ex (\<lambda>k. case results_of rs k of None \<Rightarrow> False
                 | Some r \<Rightarrow> res_status r \<noteq> TaskCompleted \<or> res_truncated r) expected_ids
      then Inl (Attribution ''TASK_RESULT_INCOMPLETE'')
      else Inr ())"

definition contributions :: "products \<Rightarrow> products \<Rightarrow> pystr \<Rightarrow> contribution list att" where
  "contributions old new metric =
     mapR (\<lambda>n. product_contribution n (map_of old n) (map_of new n) metric)
       (sorted_list_of_set (set (map fst old) \<union> set (map fst new)))"

definition product_attribution ::
  "unicode \<Rightarrow> (nat \<Rightarrow> nat option) \<Rightarrow> analysis_request \<Rightarrow> cell task_result list \<Rightarrow> attribution att" where
  "product_attribution u du req rs =
     (let metric = ar_metric req; result = (\<lambda>k. the (results_of rs (lit k)))
      in if metric \<noteq> gross_profit \<and> metric \<noteq> net_sales then Inl (Attribution ''METRIC_UNSUPPORTED'')
         else
           bindR (complete_results rs) (\<lambda>_.
           bindR (overall_value du (result ''comparison-overall'')) (\<lambda>before.
           bindR (overall_value du (result ''current-overall'')) (\<lambda>now.
           bindR (product_values u du metric (result ''comparison-products'')) (\<lambda>old.
           bindR (product_values u du metric (result ''current-products'')) (\<lambda>new.
           bindR (reconcile_period old before metric) (\<lambda>_.
           bindR (reconcile_period new now metric) (\<lambda>_.
           bindR (contributions old new metric) (\<lambda>ps.
           bindR (arith (dec_sub now before)) (\<lambda>change.
           bindR (arith (dec_sum 0 (map pc_change ps))) (\<lambda>total.
           bindR (reconciles total change ''TOTAL_CHANGE_RECONCILIATION_FAILED'') (\<lambda>_.
           bindR (top_products ps change) (\<lambda>top.
           Inr \<lparr>bt_metric = metric, bt_current_period = tr_text (ar_current req),
                bt_comparison_period = tr_text (ar_comparison req), bt_comparison = before, bt_current = now,
                bt_change = change, bt_products = ps, bt_top = top\<rparr>)))))))))))))"

end
