(* ===== verification/Attribution_Properties.thy ===== *)
theory Attribution_Properties
  imports Attribution
begin

text \<open>
  What the attribution promises. The rounding error of the decimal arithmetic is bounded, which shows that
  the reconciliation of a product's factors never refuses amounts of ordinary size.
\<close>

section \<open>The error of one rounding\<close>

lemma digit_count_bounds: "0 < n \<Longrightarrow> 10 ^ (digit_count n - 1) \<le> n \<and> n < 10 ^ digit_count n \<and> 0 < digit_count n"
proof (induction n rule: digit_count.induct)
  case (1 n)
  show ?case
  proof (cases "n < 10")
    case True
    then show ?thesis using 1(2) by (simp add: digit_count.simps [of n])
  next
    case False
    then have ih: "10 ^ (digit_count (n div 10) - 1) \<le> n div 10 \<and> n div 10 < 10 ^ digit_count (n div 10) \<and> 0 < digit_count (n div 10)"
      using 1(1) by simp
    then obtain k where k: "digit_count (n div 10) = Suc k" by (cases "digit_count (n div 10)") auto
    have "10 ^ Suc k \<le> n" "n < 10 ^ Suc (Suc k)" using ih k by (simp_all add: div_less_iff_less_mult) linarith+
    then show ?thesis using False k by (simp add: digit_count.simps [of n])
  qed
qed

lemma digit_count_pow10: "0 < n \<Longrightarrow> pow10 (int (digit_count n) - 1) \<le> of_nat n \<and> of_nat n < pow10 (int (digit_count n))"
proof -
  assume "0 < n"
  from digit_count_bounds [OF this] have b: "10 ^ (digit_count n - 1) \<le> n" "n < 10 ^ digit_count n" "0 < digit_count n" by auto
  have "pow10 (int (digit_count n) - 1) = of_nat (10 ^ (digit_count n - 1))"
    using b(3) by (simp add: pow10_def nat_diff_distrib)
  moreover have "pow10 (int (digit_count n)) = of_nat (10 ^ digit_count n)" by (simp add: pow10_def)
  ultimately show ?thesis using b(1,2) by (simp only: of_nat_le_iff of_nat_less_iff)
qed

lemma adjusted_bounds:
  assumes "x \<noteq> 0"
  shows "pow10 (adjusted x) \<le> \<bar>x\<bar>" "\<bar>x\<bar> < pow10 (adjusted x + 1)"
proof -
  obtain n d where q: "quotient_of \<bar>x\<bar> = (n, d)" by fastforce
  have d: "0 < d" using quotient_of_denom_pos [OF q] .
  have x: "\<bar>x\<bar> = of_int n / of_int d" using quotient_of_div [OF q] .
  have "0 < of_int n / (of_int d :: rat)" using assms x by (metis zero_less_abs_iff)
  then have n: "0 < n" using d by (simp add: zero_less_divide_iff)
  define i where "i = int (digit_count (nat n))"
  define j where "j = int (digit_count (nat d))"
  have bn: "pow10 (i - 1) \<le> of_int n" "of_int n < pow10 i" "pow10 (j - 1) \<le> of_int d" "of_int d < pow10 j"
    using digit_count_pow10 [of "nat n"] digit_count_pow10 [of "nat d"] n d by (simp_all add: i_def j_def)
  have lo: "pow10 (i - j - 1) < \<bar>x\<bar>"
  proof -
    have "pow10 (i - j - 1) * of_int d < pow10 (i - j - 1) * pow10 j" using bn(4) by simp
    also have "\<dots> = pow10 (i - 1)" by (simp add: pow10_add [symmetric])
    finally show ?thesis using bn(1) d by (simp add: x field_simps)
  qed
  have hi: "\<bar>x\<bar> < pow10 (i - j + 1)"
  proof -
    have "pow10 i = pow10 (i - j + 1) * pow10 (j - 1)" by (simp add: pow10_add [symmetric])
    also have "\<dots> \<le> pow10 (i - j + 1) * of_int d" using bn(3) by simp
    finally show ?thesis using bn(2) d by (simp add: x field_simps)
  qed
  have a: "adjusted x = (if pow10 (i - j) \<le> \<bar>x\<bar> then i - j else i - j - 1)"
    by (simp add: adjusted_def q i_def j_def)
  show "pow10 (adjusted x) \<le> \<bar>x\<bar>" "\<bar>x\<bar> < pow10 (adjusted x + 1)"
    using lo hi by (auto simp: a)
qed

lemma half_even_error: "\<bar>of_int (half_even x) - x\<bar> \<le> 1 / 2"
proof -
  have "of_int \<lfloor>x\<rfloor> \<le> x" "x < of_int \<lfloor>x\<rfloor> + 1" by linarith+
  then show ?thesis unfolding half_even_def Let_def abs_if by (simp split: if_split) linarith
qed

text \<open>The unit of the error: one part in \<open>10\<^sup>2\<^sup>7\<close>.\<close>

definition dec_unit :: rat where "dec_unit = pow10 (- 27)"

lemma dec_fix_near:
  assumes "\<bar>x\<bar> \<le> X" and "pow10 (- 60) \<le> X" and "X \<le> pow10 60"
  shows "\<exists>y. dec_fix x = Inr y \<and> \<bar>y - x\<bar> \<le> X * dec_unit"
proof (cases "x = 0")
  case True
  then show ?thesis using order.trans [OF _ assms(2)] by (simp add: dec_fix_def dec_unit_def)
next
  case False
  define q where "q = max (adjusted x - (dec_precision - 1)) dec_etiny"
  define y where "y = of_int (half_even (x / pow10 q)) * pow10 q"
  have "y - x = (of_int (half_even (x / pow10 q)) - x / pow10 q) * pow10 q"
    by (simp add: y_def left_diff_distrib)
  then have "\<bar>y - x\<bar> = \<bar>of_int (half_even (x / pow10 q)) - x / pow10 q\<bar> * pow10 q"
    by (simp add: abs_mult)
  also have "\<dots> \<le> 1 / 2 * pow10 q" by (rule mult_right_mono [OF half_even_error]) simp
  also have "\<dots> \<le> pow10 q" by simp
  also have "pow10 q \<le> X * dec_unit"
  proof (cases "q = dec_etiny")
    case True
    have "pow10 q \<le> pow10 (- 60 + - 27)" unfolding True by (rule pow10_mono) (simp add: dec_etiny_def)
    also have "\<dots> \<le> X * dec_unit" unfolding pow10_add dec_unit_def using assms(2) by simp
    finally show ?thesis .
  next
    case False
    then have "pow10 q = pow10 (adjusted x) * dec_unit"
      by (auto simp: q_def dec_precision_def dec_unit_def max_def pow10_add [symmetric])
    also have "\<dots> \<le> X * dec_unit"
      using adjusted_bounds(1) [OF \<open>x \<noteq> 0\<close>] assms(1) by (simp add: dec_unit_def)
    finally show ?thesis .
  qed
  finally have near: "\<bar>y - x\<bar> \<le> X * dec_unit" .
  have "dec_unit \<le> pow10 0" unfolding dec_unit_def by (rule pow10_mono) simp
  then have "X * dec_unit \<le> X * 1" using assms(1) by (intro mult_left_mono) (auto simp: pow10_one)
  then have "\<bar>y\<bar> \<le> 2 * pow10 60" using near assms(1,3) by linarith
  also have "\<dots> < pow10 (60 + 1)" unfolding pow10_Suc using pow10_pos [of 60] by linarith
  also have "\<dots> \<le> pow10 (dec_emax + 1)" by (rule pow10_mono) (simp add: dec_emax_def)
  finally have "\<bar>y\<bar> < pow10 (dec_emax + 1)" .
  then have "\<not> (y \<noteq> 0 \<and> dec_emax < adjusted y)"
    using adjusted_bounds(1) [of y] pow10_mono [of "dec_emax + 1" "adjusted y"] by fastforce
  then have "dec_fix x = Inr y" using False by (simp add: dec_fix_def Let_def q_def y_def)
  then show ?thesis using near by blast
qed


section \<open>The error of the factors\<close>

text \<open>\<open>P\<close> bounds the prices and unit costs, \<open>Q\<close> the quantities.\<close>

definition wide :: "rat \<Rightarrow> bool" where
  "wide X \<longleftrightarrow> pow10 (- 50) \<le> X \<and> X \<le> pow10 50"

definition scale :: "rat \<Rightarrow> bool" where
  "scale X \<longleftrightarrow> pow10 (- 20) \<le> X \<and> X \<le> pow10 25"

lemma unit_small: "0 < dec_unit" "100 * dec_unit \<le> 1"
  by (simp_all add: dec_unit_def pow10_def)

lemma scale_pos: "scale X \<Longrightarrow> 0 < X"
  unfolding scale_def using pow10_pos [of "-20"] by linarith

lemma scale_wide: "scale X \<Longrightarrow> wide X"
  using pow10_mono [of "-50" "-20"] pow10_mono [of 25 50] by (auto simp: scale_def wide_def)

lemma scale_mult_wide:
  assumes "scale P" and "scale Q"
  shows "wide (P * Q)"
proof -
  have "pow10 (- 20 + - 20) \<le> P * Q" "P * Q \<le> pow10 (25 + 25)"
    unfolding pow10_add using assms scale_pos [of P] scale_pos [of Q]
    by (auto simp: scale_def intro!: mult_mono)
  then show ?thesis using pow10_mono [of "-50" "-40"] by (simp add: wide_def)
qed

text \<open>One operation on numbers that are near the exact ones.\<close>

lemma near_fix:
  assumes "wide X" and "\<bar>x' - x\<bar> \<le> e" and "\<bar>x'\<bar> \<le> k * X" and "1 \<le> k" and "k \<le> 1000"
  shows "\<exists>y. dec_fix x' = Inr y \<and> \<bar>y - x\<bar> \<le> e + k * (X * dec_unit)"
proof -
  have "0 < X" using assms(1) pow10_pos [of "-50"] unfolding wide_def by linarith
  then have "1 * X \<le> k * X" "k * X \<le> 1000 * X" using assms(4,5) by (intro mult_right_mono; simp)+
  moreover have "pow10 (- 60) \<le> pow10 (- 50)" "1000 * pow10 50 \<le> pow10 60" by (simp_all add: pow10_def)
  ultimately have "pow10 (- 60) \<le> k * X" "k * X \<le> pow10 60" using assms(1) unfolding wide_def by linarith+
  from dec_fix_near [OF assms(3) this]
  obtain y where y: "dec_fix x' = Inr y" "\<bar>y - x'\<bar> \<le> k * X * dec_unit" by blast
  then have "\<bar>y - x\<bar> \<le> e + k * (X * dec_unit)" using assms(2) by (simp add: mult.assoc)
  with y(1) show ?thesis by blast
qed

lemma near_mult:
  fixes a a' b b' :: rat
  assumes "\<bar>a' - a\<bar> \<le> ea" and "\<bar>b' - b\<bar> \<le> eb" and "\<bar>b'\<bar> \<le> B" and "\<bar>a\<bar> \<le> A"
  shows "\<bar>a' * b' - a * b\<bar> \<le> ea * B + A * eb"
proof -
  have "a' * b' - a * b = (a' - a) * b' + a * (b' - b)" by (simp add: algebra_simps)
  then have "\<bar>a' * b' - a * b\<bar> \<le> \<bar>a' - a\<bar> * \<bar>b'\<bar> + \<bar>a\<bar> * \<bar>b' - b\<bar>"
    by (metis abs_triangle_ineq abs_mult)
  also have "\<dots> \<le> ea * B + A * eb"
    using assms by (intro add_mono mult_mono) auto
  finally show ?thesis .
qed

lemma abs_mult_le: "\<bar>a\<bar> \<le> A \<Longrightarrow> \<bar>b\<bar> \<le> B \<Longrightarrow> \<bar>a * b\<bar> \<le> A * (B :: rat)"
  by (auto simp: abs_mult intro: mult_mono)

lemma near_mult_fix:
  assumes sc: "scale P" "scale Q"
    and a: "\<bar>a' - a\<bar> \<le> i * (P * dec_unit)" "\<bar>a'\<bar> \<le> j * P" "\<bar>a\<bar> \<le> j * P"
    and b: "\<bar>b' - b\<bar> \<le> k * (Q * dec_unit)" "\<bar>b'\<bar> \<le> l * Q"
    and n: "1 \<le> j * l" "j * l \<le> 1000"
  shows "\<exists>y. dec_mul a' b' = Inr y \<and> \<bar>y - a * b\<bar> \<le> (i * l + j * k + j * l) * (P * Q * dec_unit) \<and> \<bar>a * b\<bar> \<le> j * P * \<bar>b\<bar>"
proof -
  have "\<bar>a' * b' - a * b\<bar> \<le> (i * l + j * k) * (P * Q * dec_unit)"
    using near_mult [OF a(1) b(1,2) a(3)] by (simp add: algebra_simps)
  moreover have "\<bar>a' * b'\<bar> \<le> j * l * (P * Q)"
    using abs_mult_le [OF a(2) b(2)] by (simp add: mult_ac)
  ultimately obtain y where "dec_fix (a' * b') = Inr y"
      "\<bar>y - a * b\<bar> \<le> (i * l + j * k) * (P * Q * dec_unit) + j * l * (P * Q * dec_unit)"
    using near_fix [OF scale_mult_wide [OF sc] _ _ n] by blast
  moreover have "\<bar>a * b\<bar> \<le> j * P * \<bar>b\<bar>" using a(3) by (simp add: abs_mult mult_right_mono)
  ultimately show ?thesis by (simp add: dec_mul_def algebra_simps)
qed

text \<open>The numbers of a continuing product: exact prices, unit costs and quantities, and what the code
  computes for them.\<close>

lemma unit_scaled: "scale X \<Longrightarrow> 0 \<le> X * dec_unit \<and> 100 * (X * dec_unit) \<le> X"
  using mult_left_mono [OF unit_small(2), of X] unit_small(1) scale_pos [of X] by simp

lemma difference_near:
  assumes "scale P" and "\<bar>a' - a\<bar> \<le> i * (P * dec_unit)" and "\<bar>a\<bar> \<le> j * P" and "\<bar>b' - b\<bar> \<le> i * (P * dec_unit)" and "\<bar>b\<bar> \<le> j * P"
    and "1 \<le> 2 * j + 1" "2 * j + 1 \<le> 1000" "0 \<le> i" "i \<le> 50"
  shows "\<exists>d. dec_sub b' a' = Inr d \<and> \<bar>d - (b - a)\<bar> \<le> (2 * i + 2 * j + 1) * (P * dec_unit)"
    "\<exists>d. dec_add a' b' = Inr d \<and> \<bar>d - (a + b)\<bar> \<le> (2 * i + 2 * j + 1) * (P * dec_unit)"
proof -
  note w = unit_scaled [OF assms(1)]
  have "i * (P * dec_unit) \<le> 50 * (P * dec_unit)" using w assms(9) by (intro mult_right_mono) auto
  then have e: "2 * (i * (P * dec_unit)) \<le> P" using w by linarith
  have "\<bar>(b' - a') - (b - a)\<bar> \<le> 2 * (i * (P * dec_unit))" "\<bar>b' - a'\<bar> \<le> (2 * j + 1) * P"
    using assms(2-5) e by (simp_all add: algebra_simps)
  from near_fix [OF scale_wide [OF assms(1)] this assms(6,7)]
  show "\<exists>d. dec_sub b' a' = Inr d \<and> \<bar>d - (b - a)\<bar> \<le> (2 * i + 2 * j + 1) * (P * dec_unit)"
    by (simp add: dec_sub_def algebra_simps)
  have "\<bar>(a' + b') - (a + b)\<bar> \<le> 2 * (i * (P * dec_unit))" "\<bar>a' + b'\<bar> \<le> (2 * j + 1) * P"
    using assms(2-5) e by (simp_all add: algebra_simps)
  from near_fix [OF scale_wide [OF assms(1)] this assms(6,7)]
  show "\<exists>d. dec_add a' b' = Inr d \<and> \<bar>d - (a + b)\<bar> \<le> (2 * i + 2 * j + 1) * (P * dec_unit)"
    by (simp add: dec_add_def algebra_simps)
qed


definition rounds :: "dec_error + rat \<Rightarrow> rat \<Rightarrow> rat \<Rightarrow> bool" where
  "rounds r x e \<longleftrightarrow> (\<exists>y. r = Inr y \<and> \<bar>y - x\<bar> \<le> e)"

lemma rounds_bind:
  assumes "rounds r x e" and "\<And>y. \<bar>y - x\<bar> \<le> e \<Longrightarrow> rounds (f y) z e'"
  shows "rounds (bindR r f) z e'"
  using assms by (auto simp: rounds_def bindR_def)

lemma rounds_weaken: "rounds r x e \<Longrightarrow> e \<le> e' \<Longrightarrow> rounds r x e'"
  by (auto simp: rounds_def)

lemmas rounds_sub = difference_near(1) [folded rounds_def]
lemmas rounds_add = difference_near(2) [folded rounds_def]

lemma rounds_mul:
  assumes "scale P" "scale Q"
    and "\<bar>a' - a\<bar> \<le> i * (P * dec_unit)" "\<bar>a'\<bar> \<le> j * P" "\<bar>a\<bar> \<le> j * P"
    and "\<bar>b' - b\<bar> \<le> k * (Q * dec_unit)" "\<bar>b'\<bar> \<le> l * Q"
    and "1 \<le> j * l" "j * l \<le> 1000"
  shows "rounds (dec_mul a' b') (a * b) ((i * l + j * k + j * l) * (P * Q * dec_unit))"
  using near_mult_fix [OF assms] by (auto simp: rounds_def)

lemma rounds_price_factor:
  assumes sc: "scale P" "scale Q"
    and a: "\<bar>old' - old\<bar> \<le> P * dec_unit" "\<bar>old\<bar> \<le> P"
    and b: "\<bar>new' - new\<bar> \<le> P * dec_unit" "\<bar>new\<bar> \<le> P"
    and m: "\<bar>mean' - mean\<bar> \<le> 4 * (Q * dec_unit)" "\<bar>mean\<bar> \<le> Q"
  shows "rounds (price_factor new' old' mean') ((new - old) * mean) (28 * (P * Q * dec_unit))"
  unfolding price_factor_def
proof (rule rounds_bind)
  show "rounds (dec_sub new' old') (new - old) (5 * (P * dec_unit))"
    using rounds_sub [OF sc(1), of old' old 1 1 new' new] a b by simp
  fix d assume d: "\<bar>d - (new - old)\<bar> \<le> 5 * (P * dec_unit)"
  note w = unit_scaled [OF sc(1)] unit_scaled [OF sc(2)]
  have 1: "\<bar>new - old\<bar> \<le> 2 * P" using a(2) b(2) by linarith
  have 2: "\<bar>new - old\<bar> \<le> 3 * P" using 1 scale_pos [OF sc(1)] by linarith
  have 3: "\<bar>d\<bar> \<le> 3 * P" using d 1 w by linarith
  have 4: "\<bar>mean'\<bar> \<le> 2 * Q" using m w by linarith
  show "rounds (dec_mul d mean') ((new - old) * mean) (28 * (P * Q * dec_unit))"
    using rounds_mul [OF sc d 3 2 m(1) 4] by simp
qed

lemma rounds_half:
  assumes "wide X" and "\<bar>p - x\<bar> \<le> e" and "\<bar>p\<bar> \<le> k * X" and "2 \<le> k" and "k \<le> 1000"
  shows "rounds (dec_div p 2) (x / 2) (e / 2 + k / 2 * (X * dec_unit))"
  using near_fix [of X "p / 2" "x / 2" "e / 2" "k / 2"] assms
  by (simp add: rounds_def dec_div_def diff_divide_distrib [symmetric])

lemma rounds_quantity_factor:
  assumes sc: "scale P" "scale Q"
    and q: "0 \<le> old" "old \<le> Q" "0 \<le> new" "new \<le> Q"
    and m: "\<bar>m' - m\<bar> \<le> 15 * (P * dec_unit)" "\<bar>m\<bar> \<le> 4 * P"
  shows "rounds (quantity_factor old new m') ((new - old) * m / 2) (40 * (P * Q * dec_unit))"
  unfolding quantity_factor_def
proof (rule rounds_bind)
  show "rounds (dec_sub new old) (new - old) (3 * (Q * dec_unit))"
    using rounds_sub [OF sc(2), of old old 0 1 new new] q by simp
  fix d assume d: "\<bar>d - (new - old)\<bar> \<le> 3 * (Q * dec_unit)"
  note w = unit_scaled [OF sc(1)] unit_scaled [OF sc(2)]
  have 1: "\<bar>new - old\<bar> \<le> Q" using q by linarith
  have 2: "\<bar>new - old\<bar> \<le> 2 * Q" using 1 by linarith
  have 3: "\<bar>d\<bar> \<le> 2 * Q" using d 1 w by linarith
  have 4: "\<bar>m'\<bar> \<le> 5 * P" using m w by linarith
  have u: "0 \<le> P * Q * dec_unit \<and> 100 * (P * Q * dec_unit) \<le> P * Q"
    using mult_left_mono [OF unit_small(2), of "P * Q"] unit_small(1) scale_pos [OF sc(1)] scale_pos [OF sc(2)] by simp
  show "rounds (bindR (dec_mul d m') (\<lambda>p. dec_div p 2)) ((new - old) * m / 2) (40 * (P * Q * dec_unit))"
  proof (rule rounds_bind)
    show "rounds (dec_mul d m') ((new - old) * m) (55 * (P * Q * dec_unit))"
      using rounds_mul [OF sc(2,1) d 3 2 m(1) 4] by (simp add: mult_ac)
    fix p assume p: "\<bar>p - (new - old) * m\<bar> \<le> 55 * (P * Q * dec_unit)"
    have "\<bar>(new - old) * m\<bar> \<le> Q * (4 * P)" by (rule abs_mult_le [OF 1 m(2)])
    then have "\<bar>(new - old) * m\<bar> \<le> 4 * (P * Q)" by (simp add: mult_ac)
    then have "\<bar>p\<bar> \<le> 5 * (P * Q)" using p u by linarith
    from rounds_half [OF scale_mult_wide [OF sc] p this]
    have "rounds (dec_div p 2) ((new - old) * m / 2) (55 * (P * Q * dec_unit) / 2 + 5 / 2 * (P * Q * dec_unit))" by simp
    then show "rounds (dec_div p 2) ((new - old) * m / 2) (40 * (P * Q * dec_unit))"
      by (rule rounds_weaken) (use u in linarith)
  qed
qed

lemma rounds_cost_factor:
  assumes sc: "scale P" "scale Q"
    and a: "\<bar>old' - old\<bar> \<le> P * dec_unit" "\<bar>old\<bar> \<le> P"
    and b: "\<bar>new' - new\<bar> \<le> P * dec_unit" "\<bar>new\<bar> \<le> P"
    and m: "\<bar>mean' - mean\<bar> \<le> 4 * (Q * dec_unit)" "\<bar>mean\<bar> \<le> Q"
  shows "rounds (bindR (dec_sub new' old') (\<lambda>d. bindR (dec_neg d) (\<lambda>n. dec_mul n mean')))
    (- (new - old) * mean) (40 * (P * Q * dec_unit))"
proof (rule rounds_bind)
  show "rounds (dec_sub new' old') (new - old) (5 * (P * dec_unit))"
    using rounds_sub [OF sc(1), of old' old 1 1 new' new] a b by simp
  fix d assume d: "\<bar>d - (new - old)\<bar> \<le> 5 * (P * dec_unit)"
  note w = unit_scaled [OF sc(1)] unit_scaled [OF sc(2)]
  have 1: "\<bar>new - old\<bar> \<le> 2 * P" using a(2) b(2) by linarith
  have 2: "\<bar>- (new - old)\<bar> \<le> 3 * P" using 1 scale_pos [OF sc(1)] by linarith
  have 4: "\<bar>mean'\<bar> \<le> 2 * Q" using m w by linarith
  have "\<bar>- d - - (new - old)\<bar> \<le> 5 * (P * dec_unit)" "\<bar>- d\<bar> \<le> 3 * P" using d 1 w by linarith+
  from near_fix [OF scale_wide [OF sc(1)] this]
  have n: "rounds (dec_neg d) (- (new - old)) (8 * (P * dec_unit))"
    by (simp add: rounds_def dec_neg_def mult.commute)
  show "rounds (bindR (dec_neg d) (\<lambda>n. dec_mul n mean')) (- (new - old) * mean) (40 * (P * Q * dec_unit))"
  proof (rule rounds_bind [OF n])
    fix n assume n: "\<bar>n - - (new - old)\<bar> \<le> 8 * (P * dec_unit)"
    have 3: "\<bar>n\<bar> \<le> 3 * P" using n 1 w by linarith
    have "rounds (dec_mul n mean') (- (new - old) * mean) (34 * (P * Q * dec_unit))"
      using rounds_mul [OF sc n 3 2 m(1) 4] by simp
    then show "rounds (dec_mul n mean') (- (new - old) * mean) (40 * (P * Q * dec_unit))"
      by (rule rounds_weaken) (use scale_pos [OF sc(1)] scale_pos [OF sc(2)] unit_small(1) in simp)
  qed
qed


section \<open>The exact decomposition\<close>

definition cost_of :: "product_period \<Rightarrow> rat" where
  "cost_of p = (case pp_cost p of None \<Rightarrow> 0 | Some c \<Rightarrow> c)"

definition price_of :: "product_period \<Rightarrow> rat" where
  "price_of p = pp_sales p / pp_quantity p"

definition unit_cost :: "product_period \<Rightarrow> rat" where
  "unit_cost p = cost_of p / pp_quantity p"

definition exact_factors :: "product_period \<Rightarrow> product_period \<Rightarrow> pystr \<Rightarrow> (factor \<times> rat) list" where
  "exact_factors a b metric =
     (let m = (pp_quantity a + pp_quantity b) / 2; dq = pp_quantity b - pp_quantity a
      in if metric = net_sales
         then [(UnitPrice, (price_of b - price_of a) * m), (Quantity, dq * (price_of a + price_of b) / 2)]
         else [(UnitPrice, (price_of b - price_of a) * m),
               (Quantity, dq * ((price_of a - unit_cost a) + (price_of b - unit_cost b)) / 2),
               (UnitCost, - (unit_cost b - unit_cost a) * m)])"

definition exact_metric :: "product_period \<Rightarrow> pystr \<Rightarrow> rat" where
  "exact_metric p metric = (if metric = net_sales then pp_sales p else pp_sales p - cost_of p)"

lemma exact_factors_add_up:
  assumes "0 < pp_quantity a" and "0 < pp_quantity b"
  shows "sum_list (map snd (exact_factors a b metric)) = exact_metric b metric - exact_metric a metric"
  using assms by (simp add: exact_factors_def exact_metric_def price_of_def unit_cost_def Let_def field_simps)

text \<open>Numbers of ordinary size: amounts up to \<open>10\<^sup>1\<^sup>2\<close>, quantities from \<open>10\<^sup>-\<^sup>6\<close> to \<open>10\<^sup>1\<^sup>2\<close>, and a quantity that
  changes by a factor of at most \<open>10\<^sup>6\<close>.\<close>

definition ordinary :: "product_period \<Rightarrow> bool" where
  "ordinary p \<longleftrightarrow> pow10 (- 6) \<le> pp_quantity p \<and> pp_quantity p \<le> pow10 12
     \<and> \<bar>pp_sales p\<bar> \<le> pow10 12 \<and> \<bar>cost_of p\<bar> \<le> pow10 12"

definition comparable :: "product_period \<Rightarrow> product_period \<Rightarrow> bool" where
  "comparable a b \<longleftrightarrow> ordinary a \<and> ordinary b \<and> pp_quantity b \<le> pow10 6 * pp_quantity a
     \<and> pp_quantity a \<le> pow10 6 * pp_quantity b"

lemma comparable_scales:
  assumes "comparable a b"
  obtains P Q where "scale P" "scale Q" "P * Q = pow10 18" "pp_quantity a \<le> Q" "pp_quantity b \<le> Q"
    "\<bar>price_of a\<bar> \<le> P" "\<bar>price_of b\<bar> \<le> P" "\<bar>unit_cost a\<bar> \<le> P" "\<bar>unit_cost b\<bar> \<le> P"
    "0 < pp_quantity a" "0 < pp_quantity b"
proof -
  define Q where "Q = max (pp_quantity a) (pp_quantity b)"
  define P where "P = pow10 18 / Q"
  have q: "pow10 (- 6) \<le> Q" "Q \<le> pow10 12" using assms by (auto simp: Q_def comparable_def ordinary_def)
  have pos: "0 < Q" using q(1) pow10_pos [of "-6"] by linarith
  have qa: "0 < pp_quantity a" "0 < pp_quantity b"
    using assms pow10_pos [of "-6"] unfolding comparable_def ordinary_def by linarith+
  have r: "Q \<le> pow10 6 * pp_quantity a" "Q \<le> pow10 6 * pp_quantity b"
    using assms qa pow10_ge_one [of 6] mult_right_mono [of 1 "pow10 6" "pp_quantity a"]
      mult_right_mono [of 1 "pow10 6" "pp_quantity b"] by (auto simp: Q_def comparable_def)
  have per_unit: "\<bar>x / k\<bar> \<le> P" if "\<bar>x\<bar> \<le> pow10 12" "0 < k" "Q \<le> pow10 6 * k" for x k :: rat
  proof -
    have "\<bar>x\<bar> * Q \<le> pow10 12 * (pow10 6 * k)" using that pos by (intro mult_mono) auto
    also have "\<dots> = pow10 18 * k" by (simp add: pow10_add [of 12 6, simplified])
    finally show ?thesis using that(2) pos by (simp add: P_def field_simps)
  qed
  have sQ: "scale Q" using q pow10_mono [of "-20" "-6"] pow10_mono [of 12 25] by (auto simp: scale_def)
  have "pow10 6 * Q \<le> pow10 18" "pow10 18 \<le> pow10 24 * Q"
    using q pow10_add [of 6 12] pow10_add [of 24 "-6"] mult_left_mono [of Q "pow10 12" "pow10 6"]
      mult_left_mono [of "pow10 (-6)" Q "pow10 24"] by simp_all
  then have "pow10 6 \<le> P" "P \<le> pow10 24" using pos by (simp_all add: P_def field_simps)
  then have sP: "scale P" using pow10_mono [of "-20" 6] pow10_mono [of 24 25] by (auto simp: scale_def)
  show thesis
  proof (rule that [OF sP sQ])
    show "P * Q = pow10 18" using pos by (simp add: P_def)
    show "\<bar>price_of a\<bar> \<le> P" "\<bar>price_of b\<bar> \<le> P" "\<bar>unit_cost a\<bar> \<le> P" "\<bar>unit_cost b\<bar> \<le> P"
      unfolding price_of_def unit_cost_def using assms
      by (intro per_unit qa r; simp add: comparable_def ordinary_def)+
  qed (auto simp: Q_def qa)
qed

lemma rounds_price:
  assumes "scale P" and "\<bar>x / k\<bar> \<le> P" and "0 < k"
  shows "rounds (dec_div x k) (x / k) (P * dec_unit)"
  using near_fix [OF scale_wide [OF assms(1)], of "x / k" "x / k" 0 1] assms(2,3)
  by (simp add: rounds_def dec_div_def)

lemma rounds_mean:
  assumes sc: "scale Q" and q: "0 < a" "a \<le> Q" "0 < b" "b \<le> Q"
  shows "rounds (bindR (dec_add a b) (\<lambda>s. dec_div s 2)) ((a + b) / 2) (4 * (Q * dec_unit))"
proof (rule rounds_bind)
  show "rounds (dec_add a b) (a + b) (3 * (Q * dec_unit))"
    using rounds_add [OF sc, of a a 0 1 b b] q by simp
  fix s assume s: "\<bar>s - (a + b)\<bar> \<le> 3 * (Q * dec_unit)"
  note w = unit_scaled [OF sc]
  have "\<bar>s\<bar> \<le> 3 * Q" using s q w by linarith
  from rounds_half [OF scale_wide [OF sc] s this]
  have "rounds (dec_div s 2) ((a + b) / 2) (3 * (Q * dec_unit) / 2 + 3 / 2 * (Q * dec_unit))" by simp
  then show "rounds (dec_div s 2) ((a + b) / 2) (4 * (Q * dec_unit))"
    by (rule rounds_weaken) (use w in linarith)
qed


lemma scaled_product: "scale P \<Longrightarrow> scale Q \<Longrightarrow> 0 \<le> P * Q * dec_unit \<and> 100 * (P * Q * dec_unit) \<le> P * Q"
  using mult_left_mono [OF unit_small(2), of "P * Q"] unit_small(1) scale_pos [of P] scale_pos [of Q] by simp

lemma amount_bound: "\<bar>x / k\<bar> \<le> P \<Longrightarrow> 0 < k \<Longrightarrow> k \<le> Q \<Longrightarrow> \<bar>x\<bar> \<le> P * (Q :: rat)"
  using mult_mono [of "\<bar>x / k\<bar>" P k Q] order.trans [OF abs_ge_zero, of "x / k" P] by (simp add: abs_divide)

lemma period_metric_near:
  assumes sc: "scale P" "scale Q" and q: "0 < pp_quantity p" "pp_quantity p \<le> Q"
    and b: "\<bar>price_of p\<bar> \<le> P" "\<bar>unit_cost p\<bar> \<le> P"
    and m: "metric = gross_profit \<and> pp_cost p \<noteq> None \<or> metric = net_sales"
  shows "\<exists>y. period_metric (Some p) metric = Inr y \<and> \<bar>y - exact_metric p metric\<bar> \<le> 2 * (P * Q * dec_unit)
    \<and> \<bar>exact_metric p metric\<bar> \<le> 2 * (P * Q)"
proof -
  note w = scaled_product [OF sc]
  have s: "\<bar>pp_sales p\<bar> \<le> P * Q" "\<bar>cost_of p\<bar> \<le> P * Q"
    using amount_bound b q by (auto simp: price_of_def unit_cost_def)
  have other: "gross_profit \<noteq> net_sales" by (simp add: gross_profit_def net_sales_def)
  from m show ?thesis
  proof
    assume g: "metric = gross_profit \<and> pp_cost p \<noteq> None"
    then obtain c where c: "pp_cost p = Some c" by auto
    have "\<bar>(pp_sales p - c) - (pp_sales p - c)\<bar> \<le> 0" "\<bar>pp_sales p - c\<bar> \<le> 2 * (P * Q)"
      using s by (auto simp: cost_of_def c)
    from near_fix [OF scale_mult_wide [OF sc] this] obtain y
      where "dec_fix (pp_sales p - c) = Inr y" "\<bar>y - (pp_sales p - c)\<bar> \<le> 2 * (P * Q * dec_unit)" by auto
    then show ?thesis
      using g s other by (auto simp: period_metric_def gross_def c exact_metric_def cost_of_def dec_sub_def arith_def bindR_def)
  next
    assume "metric = net_sales"
    then show ?thesis using s(1) w other by (auto simp: period_metric_def exact_metric_def)
  qed
qed

lemma dec_sum_near:
  assumes sc: "scale P" "scale Q"
  shows "list_all2 (\<lambda>x y. \<bar>x - y\<bar> \<le> 40 * (P * Q * dec_unit) \<and> \<bar>y\<bar> \<le> 2 * (P * Q)) xs ys \<Longrightarrow>
    \<bar>acc - acc'\<bar> \<le> i * (P * Q * dec_unit) \<Longrightarrow> \<bar>acc'\<bar> \<le> j * (P * Q) \<Longrightarrow> 0 \<le> i \<Longrightarrow> 0 \<le> j \<Longrightarrow>
    i + 60 * of_nat (length xs) \<le> 200 \<Longrightarrow> j + 2 * of_nat (length xs) \<le> 10 \<Longrightarrow>
    rounds (dec_sum acc xs) (acc' + sum_list ys) ((i + 60 * of_nat (length xs)) * (P * Q * dec_unit))"
proof (induction xs ys arbitrary: acc acc' i j rule: list_all2_induct)
  case Nil
  then show ?case by (simp add: rounds_def)
next
  case (Cons x xs y ys)
  note w = scaled_product [OF sc]
  have sum: "\<bar>acc + x - (acc' + y)\<bar> \<le> (i + 40) * (P * Q * dec_unit)"
    using Cons.hyps(1) Cons.prems(1) unfolding distrib_right [of i 40] by linarith
  have exact: "\<bar>acc' + y\<bar> \<le> (j + 2) * (P * Q)"
    using Cons.hyps(1) Cons.prems(2) unfolding distrib_right [of j 2] by linarith
  have "(i + 40) * (P * Q * dec_unit) \<le> 240 * (P * Q * dec_unit)"
    using Cons.prems(5) w by (intro mult_right_mono) (simp_all add: ring_distribs)
  moreover have "(j + 2) * (P * Q) \<le> 10 * (P * Q)"
    using Cons.prems(6) w by (intro mult_right_mono) (simp_all add: ring_distribs)
  ultimately have "\<bar>acc + x\<bar> \<le> 15 * (P * Q)" using sum exact w by linarith
  from near_fix [OF scale_mult_wide [OF sc] sum this] obtain s where s: "dec_add acc x = Inr s"
    and near: "\<bar>s - (acc' + y)\<bar> \<le> (i + 40) * (P * Q * dec_unit) + 15 * (P * Q * dec_unit)"
    by (auto simp: dec_add_def)
  have "\<bar>s - (acc' + y)\<bar> \<le> (i + 60) * (P * Q * dec_unit)" using near w
    unfolding distrib_right [of i 40] distrib_right [of i 60] by linarith
  from Cons.IH [OF this exact] Cons.prems
  have "rounds (dec_sum s xs) (acc' + y + sum_list ys) ((i + 60 + 60 * of_nat (length xs)) * (P * Q * dec_unit))" by simp
  then show ?case by (simp add: s bindR_def add_ac ring_distribs)
qed

lemma exact_factors_bound:
  assumes q: "0 < pp_quantity a" "pp_quantity a \<le> Q" "0 < pp_quantity b" "pp_quantity b \<le> Q"
    and b: "\<bar>price_of a\<bar> \<le> P" "\<bar>price_of b\<bar> \<le> P" "\<bar>unit_cost a\<bar> \<le> P" "\<bar>unit_cost b\<bar> \<le> P"
    and x: "x \<in> set (map snd (exact_factors a b metric))"
  shows "\<bar>x\<bar> \<le> 2 * (P * Q)"
proof -
  let ?m = "(pp_quantity a + pp_quantity b) / 2" and ?dq = "pp_quantity b - pp_quantity a"
  have m: "\<bar>?m\<bar> \<le> Q" "\<bar>?dq\<bar> \<le> Q" using q by (simp_all add: abs_le_iff)
  have d: "\<bar>price_of b - price_of a\<bar> \<le> 2 * P" "\<bar>- (unit_cost b - unit_cost a)\<bar> \<le> 2 * P"
    "\<bar>(price_of a + price_of b) / 2\<bar> \<le> 2 * P"
    "\<bar>((price_of a - unit_cost a) + (price_of b - unit_cost b)) / 2\<bar> \<le> 2 * P"
    using b by (simp_all add: abs_le_iff)
  have half: "\<bar>?dq * t / 2\<bar> \<le> 2 * (P * Q)" if "\<bar>t / 2\<bar> \<le> 2 * P" for t
    using abs_mult_le [OF m(2) that] by (simp add: mult_ac)
  have whole: "\<bar>t * ?m\<bar> \<le> 2 * (P * Q)" if "\<bar>t\<bar> \<le> 2 * P" for t
    using abs_mult_le [OF that m(1)] by (simp add: mult_ac)
  from x consider "x = (price_of b - price_of a) * ?m" | "x = ?dq * (price_of a + price_of b) / 2"
    | "x = ?dq * ((price_of a - unit_cost a) + (price_of b - unit_cost b)) / 2" | "x = - (unit_cost b - unit_cost a) * ?m"
    by (auto simp: exact_factors_def Let_def split: if_splits)
  then show ?thesis
    by cases (simp_all only: half [OF d(3)] half [OF d(4)] whole [OF d(1)] whole [OF d(2)])
qed


text \<open>The factors the code computes, near the exact ones.\<close>

definition near_factors :: "rat \<Rightarrow> (factor \<times> rat) list \<Rightarrow> (factor \<times> rat) list \<Rightarrow> bool" where
  "near_factors e = list_all2 (\<lambda>x y. fst x = fst y \<and> \<bar>snd x - snd y\<bar> \<le> e)"

lemma roundsE:
  assumes "rounds r x e"
  obtains y where "r = Inr y" "\<bar>y - x\<bar> \<le> e"
  using assms by (auto simp: rounds_def)

lemma factors_near:
  assumes sc: "scale P" "scale Q" and q: "0 < pp_quantity a" "pp_quantity a \<le> Q" "0 < pp_quantity b" "pp_quantity b \<le> Q"
    and b: "\<bar>price_of a\<bar> \<le> P" "\<bar>price_of b\<bar> \<le> P" "\<bar>unit_cost a\<bar> \<le> P" "\<bar>unit_cost b\<bar> \<le> P"
    and p: "\<bar>old - price_of a\<bar> \<le> P * dec_unit" "\<bar>new - price_of b\<bar> \<le> P * dec_unit"
    and m: "\<bar>mean - (pp_quantity a + pp_quantity b) / 2\<bar> \<le> 4 * (Q * dec_unit)"
    and metric: "metric = gross_profit \<and> pp_cost a \<noteq> None \<and> pp_cost b \<noteq> None \<or> metric = net_sales"
  shows "\<exists>fs. (if metric = net_sales then sales_factors else profit_factors) a b old new mean = Inr fs
    \<and> near_factors (40 * (P * Q * dec_unit)) fs (exact_factors a b metric)"
proof -
  note w = scaled_product [OF sc] unit_scaled [OF sc(1)]
  have mean: "\<bar>(pp_quantity a + pp_quantity b) / 2\<bar> \<le> Q" using q by (simp add: abs_le_iff)
  obtain f where f: "price_factor new old mean = Inr f"
    and fe: "\<bar>f - (price_of b - price_of a) * ((pp_quantity a + pp_quantity b) / 2)\<bar> \<le> 28 * (P * Q * dec_unit)"
    using rounds_price_factor [OF sc p(1) b(1) p(2) b(2) m mean] by (rule roundsE)
  have near1: "\<bar>f - (price_of b - price_of a) * ((pp_quantity a + pp_quantity b) / 2)\<bar> \<le> 40 * (P * Q * dec_unit)"
    using fe w by linarith
  have other: "gross_profit \<noteq> net_sales" by (simp add: gross_profit_def net_sales_def)
  from metric show ?thesis
  proof
    assume n: "metric = net_sales"
    obtain s where s: "dec_add old new = Inr s" and se: "\<bar>s - (price_of a + price_of b)\<bar> \<le> 5 * (P * dec_unit)"
      using rounds_add [OF sc(1), of old "price_of a" 1 1 new "price_of b"] p b by (auto elim: roundsE)
    have "\<bar>s - (price_of a + price_of b)\<bar> \<le> 15 * (P * dec_unit)" "\<bar>price_of a + price_of b\<bar> \<le> 4 * P"
      using se w b by linarith+
    from rounds_quantity_factor [OF sc _ q(2) _ q(4) this] q obtain g
      where g: "quantity_factor (pp_quantity a) (pp_quantity b) s = Inr g"
        and "\<bar>g - (pp_quantity b - pp_quantity a) * (price_of a + price_of b) / 2\<bar> \<le> 40 * (P * Q * dec_unit)"
      by (auto elim: roundsE)
    then show ?thesis using near1
      by (simp add: n sales_factors_def f s g arith_def bindR_def exact_factors_def Let_def near_factors_def)
  next
    assume n: "metric = gross_profit \<and> pp_cost a \<noteq> None \<and> pp_cost b \<noteq> None"
    then obtain ca cb where c: "pp_cost a = Some ca" "pp_cost b = Some cb" by auto
    have cost: "unit_cost a = ca / pp_quantity a" "unit_cost b = cb / pp_quantity b"
      by (simp_all add: unit_cost_def cost_of_def c)
    obtain ou where ou: "dec_div ca (pp_quantity a) = Inr ou" and oe: "\<bar>ou - unit_cost a\<bar> \<le> P * dec_unit"
      using rounds_price [OF sc(1) b(3) [unfolded cost] q(1)] by (auto simp: cost elim: roundsE)
    obtain nu where nu: "dec_div cb (pp_quantity b) = Inr nu" and ne: "\<bar>nu - unit_cost b\<bar> \<le> P * dec_unit"
      using rounds_price [OF sc(1) b(4) [unfolded cost] q(3)] by (auto simp: cost elim: roundsE)
    obtain x where x: "dec_sub old ou = Inr x" and xe: "\<bar>x - (price_of a - unit_cost a)\<bar> \<le> 5 * (P * dec_unit)"
      using rounds_sub [OF sc(1), of ou "unit_cost a" 1 1 old "price_of a"] oe p b by (auto elim: roundsE)
    obtain y where y: "dec_sub new nu = Inr y" and ye: "\<bar>y - (price_of b - unit_cost b)\<bar> \<le> 5 * (P * dec_unit)"
      using rounds_sub [OF sc(1), of nu "unit_cost b" 1 1 new "price_of b"] ne p b by (auto elim: roundsE)
    have "\<bar>price_of a - unit_cost a\<bar> \<le> 2 * P" "\<bar>price_of b - unit_cost b\<bar> \<le> 2 * P" using b by linarith+
    then obtain s where s: "dec_add x y = Inr s"
      and se: "\<bar>s - (price_of a - unit_cost a + (price_of b - unit_cost b))\<bar> \<le> 15 * (P * dec_unit)"
      using rounds_add [OF sc(1) xe _ ye, of 2] by (auto elim: roundsE)
    have "\<bar>price_of a - unit_cost a + (price_of b - unit_cost b)\<bar> \<le> 4 * P" using b by linarith
    from rounds_quantity_factor [OF sc _ q(2) _ q(4) se this] q obtain g
      where g: "quantity_factor (pp_quantity a) (pp_quantity b) s = Inr g"
        and ge: "\<bar>g - (pp_quantity b - pp_quantity a) * (price_of a - unit_cost a + (price_of b - unit_cost b)) / 2\<bar>
          \<le> 40 * (P * Q * dec_unit)"
      by (auto elim: roundsE)
    obtain h where h: "bindR (dec_sub nu ou) (\<lambda>d. bindR (dec_neg d) (\<lambda>n. dec_mul n mean)) = Inr h"
      and he: "\<bar>h - (- (unit_cost b - unit_cost a) * ((pp_quantity a + pp_quantity b) / 2))\<bar> \<le> 40 * (P * Q * dec_unit)"
      using rounds_cost_factor [OF sc oe b(3) ne b(4) m mean] by (rule roundsE)
    have "profit_factors a b old new mean = Inr [(UnitPrice, f), (Quantity, g), (UnitCost, h)]"
      by (simp only: profit_factors_def c option.case prod.case ou nu f h x y s g arith_def map_sum.simps bindR_simps id_apply)
    then show ?thesis using near1 ge he n other
      by (simp add: exact_factors_def Let_def near_factors_def)
  qed
qed


lemma reconciles_near:
  assumes sc: "scale P" "scale Q" and t: "P * Q * dec_unit \<le> pow10 (- 9)"
    and x: "\<bar>x - y\<bar> \<le> 190 * (P * Q * dec_unit)"
  shows "reconciles x y reason = Inr ()"
proof -
  note w = scaled_product [OF sc]
  have "\<bar>(x - y) - 0\<bar> \<le> 190 * (P * Q * dec_unit)" "\<bar>x - y\<bar> \<le> 2 * (P * Q)" using x w by linarith+
  from near_fix [OF scale_mult_wide [OF sc] this] obtain d where d: "dec_sub x y = Inr d"
    and de: "\<bar>d\<bar> \<le> 192 * (P * Q * dec_unit)" by (auto simp: dec_sub_def mult.commute)
  have "\<bar>\<bar>d\<bar> - 0\<bar> \<le> 192 * (P * Q * dec_unit)" "\<bar>\<bar>d\<bar>\<bar> \<le> 2 * (P * Q)" using de w by simp_all
  from near_fix [OF scale_mult_wide [OF sc] this] obtain a where a: "dec_abs d = Inr a"
    and ae: "\<bar>a\<bar> \<le> 194 * (P * Q * dec_unit)" by (auto simp: dec_abs_def mult.commute)
  have "194 * pow10 (- 9) \<le> tolerance" by (simp add: tolerance_def pow10_def)
  then have "a \<le> tolerance" using ae t by linarith
  then show ?thesis by (simp add: reconciles_def arith_def d a)
qed

text \<open>C33: A product sold in both periods is never refused for its arithmetic. For amounts up to a trillion,
  quantities from a millionth to a trillion that change by at most a factor of a million, and whatever the
  target metric, the price, quantity and cost factors computed with 28-digit decimals pass the
  reconciliation with the product's change; the change and every factor are within 10 to the power -7 of
  the exact decomposition, whose factors add up to the exact change.\<close>
theorem factors_reconcile:
  assumes "comparable a b"
    and "metric = gross_profit \<and> pp_cost a \<noteq> None \<and> pp_cost b \<noteq> None \<or> metric = net_sales"
  shows "\<exists>c. product_contribution name (Some a) (Some b) metric = Inr c \<and> pc_class c = Continuing
    \<and> \<bar>pc_change c - (exact_metric b metric - exact_metric a metric)\<bar> \<le> pow10 (- 7)
    \<and> near_factors (pow10 (- 7)) (pc_factors c) (exact_factors a b metric)
    \<and> sum_list (map snd (exact_factors a b metric)) = exact_metric b metric - exact_metric a metric"
proof -
  obtain P Q where sc: "scale P" "scale Q" and pq: "P * Q = pow10 18" and le: "pp_quantity a \<le> Q" "pp_quantity b \<le> Q"
    and bd: "\<bar>price_of a\<bar> \<le> P" "\<bar>price_of b\<bar> \<le> P" "\<bar>unit_cost a\<bar> \<le> P" "\<bar>unit_cost b\<bar> \<le> P"
    and pos: "0 < pp_quantity a" "0 < pp_quantity b" using comparable_scales [OF assms(1)] .
  have unit: "P * Q * dec_unit = pow10 (- 9)" unfolding pq dec_unit_def pow10_add [symmetric] by simp
  have small: "40 * pow10 (- 9) \<le> pow10 (- 7)" "9 * pow10 (- 9) \<le> pow10 (- 7)" by (simp_all add: pow10_def)
  note w = scaled_product [OF sc]
  obtain old where old: "dec_div (pp_sales a) (pp_quantity a) = Inr old" and oe: "\<bar>old - price_of a\<bar> \<le> P * dec_unit"
    using rounds_price [OF sc(1) _ pos(1), of "pp_sales a"] bd(1) by (auto simp: price_of_def elim: roundsE)
  obtain new where new: "dec_div (pp_sales b) (pp_quantity b) = Inr new" and ne: "\<bar>new - price_of b\<bar> \<le> P * dec_unit"
    using rounds_price [OF sc(1) _ pos(2), of "pp_sales b"] bd(2) by (auto simp: price_of_def elim: roundsE)
  obtain mean where mean: "bindR (dec_add (pp_quantity a) (pp_quantity b)) (\<lambda>s. dec_div s 2) = Inr mean"
    and me: "\<bar>mean - (pp_quantity a + pp_quantity b) / 2\<bar> \<le> 4 * (Q * dec_unit)"
    using rounds_mean [OF sc(2) pos(1) le(1) pos(2) le(2)] by (rule roundsE)
  obtain fs where fs: "(if metric = net_sales then sales_factors else profit_factors) a b old new mean = Inr fs"
    and fe: "near_factors (40 * (P * Q * dec_unit)) fs (exact_factors a b metric)"
    using factors_near [OF sc pos(1) le(1) pos(2) le(2) bd oe ne me assms(2)] by blast
  obtain now where now: "period_metric (Some b) metric = Inr now"
    and nowe: "\<bar>now - exact_metric b metric\<bar> \<le> 2 * (P * Q * dec_unit)" "\<bar>exact_metric b metric\<bar> \<le> 2 * (P * Q)"
    using period_metric_near [OF sc pos(2) le(2) bd(2,4)] assms(2) by blast
  obtain before where before: "period_metric (Some a) metric = Inr before"
    and bfe: "\<bar>before - exact_metric a metric\<bar> \<le> 2 * (P * Q * dec_unit)" "\<bar>exact_metric a metric\<bar> \<le> 2 * (P * Q)"
    using period_metric_near [OF sc pos(1) le(1) bd(1,3)] assms(2) by blast
  let ?x = "exact_metric b metric - exact_metric a metric"
  have "\<bar>(now - before) - ?x\<bar> \<le> 4 * (P * Q * dec_unit)" "\<bar>now - before\<bar> \<le> 5 * (P * Q)" using nowe bfe w by linarith+
  from near_fix [OF scale_mult_wide [OF sc] this] obtain change where change: "dec_sub now before = Inr change"
    and ce: "\<bar>change - ?x\<bar> \<le> 9 * (P * Q * dec_unit)" by (auto simp: dec_sub_def mult.commute)
  have len: "length fs \<le> 3"
    using fe by (auto simp: near_factors_def exact_factors_def Let_def dest!: list_all2_lengthD split: if_splits)
  have "list_all2 (\<lambda>x y. \<bar>x - y\<bar> \<le> 40 * (P * Q * dec_unit) \<and> \<bar>y\<bar> \<le> 2 * (P * Q)) (map snd fs)
      (map snd (exact_factors a b metric))"
    unfolding list.rel_map
    by (rule list.rel_mono_strong [OF fe [unfolded near_factors_def]])
      (use exact_factors_bound [OF pos(1) le(1) pos(2) le(2) bd] in auto)
  from dec_sum_near [OF sc this, of 0 0 0 0] len
  obtain total where total: "dec_sum 0 (map snd fs) = Inr total"
    and te: "\<bar>total - ?x\<bar> \<le> 60 * of_nat (length fs) * (P * Q * dec_unit)"
    by (auto simp: exact_factors_add_up [OF pos] elim: roundsE)
  have "60 * of_nat (length fs) * (P * Q * dec_unit) \<le> 180 * (P * Q * dec_unit)"
    using len w by (intro mult_right_mono) auto
  then have "\<bar>total - change\<bar> \<le> 190 * (P * Q * dec_unit)" using te ce w by linarith
  from reconciles_near [OF sc _ this] unit
  have rec: "reconciles total change ''PRODUCT_FACTOR_RECONCILIATION_FAILED'' = Inr ()" by simp
  have "product_contribution name (Some a) (Some b) metric
      = Inr \<lparr>pc_name = name, pc_change = change, pc_class = Continuing, pc_factors = fs\<rparr>"
    by (simp add: product_contribution_def continuing_contribution_def old new mean fs [simplified] now before change
        total rec arith_def)
  moreover have "\<bar>change - ?x\<bar> \<le> pow10 (- 7)" using ce unit small by linarith
  moreover have "near_factors (pow10 (- 7)) fs (exact_factors a b metric)"
    unfolding near_factors_def
    by (rule list.rel_mono_strong [OF fe [unfolded near_factors_def]]) (use small unit in auto)
  ultimately show ?thesis using exact_factors_add_up [OF pos, of metric] by simp
qed


definition demo_before :: product_period where
  "demo_before = \<lparr>pp_sales = 100, pp_quantity = 3, pp_cost = Some 70\<rparr>"

definition demo_now :: product_period where
  "demo_now = \<lparr>pp_sales = 120, pp_quantity = 7, pp_cost = Some 65\<rparr>"

lemma factors_reconcile_witness:
  "\<exists>c. product_contribution [65] (Some demo_before) (Some demo_now) gross_profit = Inr c
    \<and> \<bar>pc_change c - 25\<bar> \<le> pow10 (- 7)"
proof -
  have "comparable demo_before demo_now"
    by (simp add: comparable_def ordinary_def demo_before_def demo_now_def cost_of_def pow10_def)
  moreover have "gross_profit \<noteq> net_sales" by (simp add: gross_profit_def net_sales_def)
  ultimately show ?thesis
    using factors_reconcile [of demo_before demo_now gross_profit "[65]"]
    by (auto simp: demo_before_def demo_now_def exact_metric_def cost_of_def)
qed

section \<open>The products named first\<close>

text \<open>The key of the ranking: the negated change is rounded when it is computed.\<close>

definition rank_key :: "rat \<Rightarrow> contribution \<Rightarrow> rat \<times> pystr" where
  "rank_key change p = (if 0 < change then projr (dec_neg (pc_change p)) else pc_change p, pc_name p)"

lemma take_sorted:
  assumes "ys = sort_key f xs" and "x \<in> set xs" and "x \<notin> set (take n ys)"
  shows "length (take n ys) = n \<and> (\<forall>y \<in> set (take n ys). f y \<le> f x)"
proof -
  have s: "sorted (map f ys)" by (simp add: assms(1))
  have "x \<in> set (take n ys) \<union> set (drop n ys)"
    using assms(1,2) by (simp add: set_append [symmetric] del: set_append)
  then have d: "x \<in> set (drop n ys)" using assms(3) by blast
  then have "drop n ys \<noteq> []" by auto
  then have "length (take n ys) = n" by simp
  moreover have "sorted (map f (take n ys @ drop n ys))" using s by simp
  then have "\<forall>y \<in> set (take n ys). \<forall>z \<in> set (drop n ys). f y \<le> f z"
    by (simp only: map_append sorted_append) auto
  ultimately show ?thesis using d by blast
qed

lemma top_products_Inr:
  assumes "top_products ps change = Inr best"
  shows "best = take 3 (sort_key (rank_key change)
    (filter (\<lambda>p. (0 < change \<and> 0 < pc_change p) \<or> (change < 0 \<and> pc_change p < 0)) ps))"
proof (cases "0 < change")
  case True
  let ?f = "\<lambda>p. bindR (arith (dec_neg (pc_change p))) (\<lambda>k. Inr ((k, pc_name p), p))"
  obtain keyed where m: "mapR ?f (filter (\<lambda>p. 0 < pc_change p) ps) = Inr keyed"
    and best: "best = take 3 (map snd (sort_key fst keyed))"
    using assms True by (auto simp: top_products_def bindR_Inr_iff)
  have "keyed = map (\<lambda>p. (rank_key change p, p)) qs" if "mapR ?f qs = Inr keyed" for qs keyed
    using that
  proof (induction qs arbitrary: keyed)
    case (Cons q qs)
    then show ?case
      using True by (cases "dec_neg (pc_change q)") (auto simp: bindR_Inr_iff rank_key_def arith_def)
  qed simp
  from this [OF m] have k: "keyed = map (\<lambda>p. (rank_key change p, p)) (filter (\<lambda>p. 0 < pc_change p) ps)" .
  have "map snd (sort_key fst (map (\<lambda>p. (rank_key change p, p)) qs)) = sort_key (rank_key change) qs" for qs :: "contribution list"
  proof -
    have ins: "insort_key fst (rank_key change q, q) (map (\<lambda>p. (rank_key change p, p)) rs)
        = map (\<lambda>p. (rank_key change p, p)) (insort_key (rank_key change) q rs)" for q rs
      by (induction rs) auto
    have "sort_key fst (map (\<lambda>p. (rank_key change p, p)) qs) = map (\<lambda>p. (rank_key change p, p)) (sort_key (rank_key change) qs)"
      by (induction qs) (simp_all add: sort_key_def ins)
    then show ?thesis by (simp add: comp_def)
  qed
  then show ?thesis using True by (simp add: best k)
next
  case False
  then show ?thesis
    using assms by (auto simp: top_products_def rank_key_def [abs_def] split: if_splits)
qed


lemma contributions_Inr:
  assumes "contributions old new metric = Inr ps"
  shows "map pc_name ps = sorted_list_of_set (set (map fst old) \<union> set (map fst new))"
    and "p \<in> set ps \<Longrightarrow> product_contribution (pc_name p) (map_of old (pc_name p)) (map_of new (pc_name p)) metric = Inr p"
proof -
  have name: "pc_name p = n" if "product_contribution n x y metric = Inr p" for n x y p
    using that by (auto simp: product_contribution_def continuing_contribution_def bindR_Inr_iff split: option.splits)
  have all: "map pc_name ps = ns \<and> (\<forall>p \<in> set ps. product_contribution (pc_name p) (map_of old (pc_name p)) (map_of new (pc_name p)) metric = Inr p)"
    if "mapR (\<lambda>n. product_contribution n (map_of old n) (map_of new n) metric) ns = Inr ps" for ns ps
    using that
  proof (induction ns arbitrary: ps)
    case (Cons n ns)
    then obtain p qs where "product_contribution n (map_of old n) (map_of new n) metric = Inr p"
      and "mapR (\<lambda>n. product_contribution n (map_of old n) (map_of new n) metric) ns = Inr qs" and "ps = p # qs"
      by (auto simp: bindR_Inr_iff)
    then show ?case using Cons.IH [of qs] name [of n "map_of old n" "map_of new n" p] by simp
  qed simp
  from all [OF assms [unfolded contributions_def]]
  show "map pc_name ps = sorted_list_of_set (set (map fst old) \<union> set (map fst new))"
    and "p \<in> set ps \<Longrightarrow> product_contribution (pc_name p) (map_of old (pc_name p)) (map_of new (pc_name p)) metric = Inr p"
    by auto
qed

text \<open>The names a product result shows: the texts in its product column, without surrounding white space.\<close>

definition names_products :: "unicode \<Rightarrow> pystr \<Rightarrow> bool" where
  "names_products u col \<longleftrightarrow> normalize_column u col \<in> normalize_column u ` set product_columns"

definition product_names :: "unicode \<Rightarrow> cell task_result \<Rightarrow> pystr set" where
  "product_names u r =
     {strip raw | row i raw. row \<in> set (res_rows r) \<and> i < length (res_columns r)
        \<and> names_products u (res_columns r ! i) \<and> row ! i = CText raw}"

lemma find_columns_product:
  assumes "find_columns u ms i cols product found = Inr (res, found')"
  shows "case product of
      Some p \<Rightarrow> res = Some p \<and> (\<forall>k < length cols. \<not> names_products u (cols ! k))
    | None \<Rightarrow> (\<forall>k < length cols. names_products u (cols ! k) \<longleftrightarrow> res = Some (i + k))
        \<and> (\<forall>p. res = Some p \<longrightarrow> i \<le> p \<and> p < i + length cols)"
  using assms
proof (induction cols arbitrary: i product found)
  case (Cons col cols)
  let ?named = "names_products u col"
  from Cons.prems obtain f where free: "\<not> (?named \<and> product \<noteq> None)"
    and rest: "find_columns u ms (i + 1) cols (if ?named then Some i else product) f = Inr (res, found')"
    by (auto simp: Let_def names_products_def bindR_Inr_iff split: if_splits)
  note IH = Cons.IH [OF rest]
  show ?case
  proof (cases product)
    case None
    show ?thesis
    proof (cases ?named)
      case True
      with IH None show ?thesis by (auto simp: nth_Cons split: nat.splits)
    next
      case False
      with IH None have "\<forall>k < length cols. names_products u (cols ! k) \<longleftrightarrow> res = Some (i + 1 + k)"
        "\<forall>p. res = Some p \<longrightarrow> i + 1 \<le> p \<and> p < i + 1 + length cols" by simp_all
      moreover from this(2) have "res \<noteq> Some i" by auto
      ultimately show ?thesis using None False by (auto simp: nth_Cons split: nat.splits)
    qed
  next
    case (Some p)
    with IH free show ?thesis by (auto simp: nth_Cons split: nat.splits)
  qed
qed (auto split: option.split)

lemma product_row_name:
  "product_row du width p found row = Inr np \<Longrightarrow> \<exists>raw. row ! p = CText raw \<and> fst np = strip raw"
  by (auto simp: product_row_def bindR_Inr_iff split: if_splits cell.splits)

lemma add_product_names: "add_product np ps = Inr ps' \<Longrightarrow> fst ` set ps' = insert (fst np) (fst ` set ps)"
proof (cases "map_of ps (fst np)")
  case None
  assume "add_product np ps = Inr ps'"
  with None show ?thesis by (simp add: add_product_def) (metis Un_commute image_Un image_empty image_insert insert_is_Un list.set(1) list.simps(15) set_append)
next
  case (Some old)
  assume "add_product np ps = Inr ps'"
  with Some obtain p where ps': "ps' = AList.update (fst np) p ps"
    by (cases "combine old (snd np)") (auto simp: add_product_def)
  have "fst ` set ps' = dom (map_of ps')" by (simp add: dom_map_of_conv_image_fst)
  also have "\<dots> = insert (fst np) (fst ` set ps)" by (simp add: ps' update_conv' dom_map_of_conv_image_fst)
  finally show ?thesis .
qed

lemma product_rows_names:
  "product_rows du width p found rows ps = Inr ps' \<Longrightarrow>
     fst ` set ps' = fst ` set ps \<union> {strip raw | row raw. row \<in> set rows \<and> row ! p = CText raw}"
proof (induction rows arbitrary: ps)
  case (Cons row rows)
  then obtain np qs where np: "product_row du width p found row = Inr np" and qs: "add_product np ps = Inr qs"
    and rest: "product_rows du width p found rows qs = Inr ps'"
    by (auto simp: bindR_Inr_iff)
  obtain raw where "row ! p = CText raw" "fst np = strip raw" using product_row_name [OF np] by blast
  with Cons.IH [OF rest] add_product_names [OF qs] show ?case by auto
qed simp

lemma product_values_names:
  assumes "product_values u du metric r = Inr ps"
  shows "fst ` set ps = product_names u r"
proof -
  from assms obtain p found where f: "find_columns u (product_metrics metric) 0 (res_columns r) None [] = Inr (Some p, found)"
    and rows: "product_rows du (length (res_columns r)) p found (res_rows r) [] = Inr ps"
    by (auto simp: product_values_def bindR_Inr_iff split: option.splits if_splits)
  from find_columns_product [OF f] have "\<forall>k < length (res_columns r). names_products u (res_columns r ! k) \<longleftrightarrow> p = k"
    and "p < length (res_columns r)" by auto
  then have "product_names u r = {strip raw | row raw. row \<in> set (res_rows r) \<and> row ! p = CText raw}"
    unfolding product_names_def by blast
  with product_rows_names [OF rows] show ?thesis by simp
qed

text \<open>Rounding is the same on both sides of zero.\<close>

lemma half_even_minus: "half_even (- x) = - half_even x"
proof (cases "x = of_int \<lfloor>x\<rfloor>")
  case True
  define n where "n = \<lfloor>x\<rfloor>"
  have x: "x = of_int n" using True by (simp add: n_def)
  have "\<lfloor>- x\<rfloor> = - n" unfolding x by (simp flip: of_int_minus)
  moreover have "\<lfloor>x\<rfloor> = n" by (simp add: n_def)
  ultimately show ?thesis by (simp add: half_even_def Let_def x)
next
  case False
  define n where "n = \<lfloor>x\<rfloor>"
  have "of_int n \<le> x" "x < of_int n + 1" using floor_correct [of x] by (simp_all add: n_def)
  moreover have "x \<noteq> of_int n" using False by (simp add: n_def)
  ultimately have n: "of_int n < x" "x < of_int n + 1" by linarith+
  have "\<lfloor>- x\<rfloor> = - n - 1" using n by (intro floor_unique) simp_all
  moreover have "\<lfloor>x\<rfloor> = n" by (simp add: n_def)
  ultimately show ?thesis by (auto simp: half_even_def Let_def)
qed

lemma dec_fix_minus: "dec_fix (- x) = map_sum id uminus (dec_fix x)"
proof -
  have "adjusted (- y) = adjusted y" for y by (simp add: adjusted_def)
  then show ?thesis by (simp add: dec_fix_def half_even_minus Let_def)
qed

text \<open>
  How far a product moved, as the ranking sees it: the changes of a rise are compared after rounding to 28
  digits, those of a fall as they are. Only the change of a new product can have more digits.
\<close>

definition moved :: "rat \<Rightarrow> contribution \<Rightarrow> rat" where
  "moved change p = (if 0 < change then projr (dec_fix (pc_change p)) else - pc_change p)"

definition exact :: "contribution \<Rightarrow> bool" where
  "exact p \<longleftrightarrow> dec_fix (pc_change p) = Inr (pc_change p)"

lemma mapR_ran: "mapR f xs = Inr ys \<Longrightarrow> x \<in> set xs \<Longrightarrow> \<exists>y. f x = Inr y"
  by (induction xs arbitrary: ys) (auto simp: bindR_Inr_iff)

lemma rank_key_moved:
  assumes "top_products ps change = Inr best" and "p \<in> set ps" and "0 < change \<Longrightarrow> 0 < pc_change p"
  shows "rank_key change p = (- moved change p, pc_name p)"
proof (cases "0 < change")
  case True
  with assms have "\<exists>k. dec_neg (pc_change p) = Inr k"
    by (auto simp: top_products_def bindR_Inr_iff dest!: mapR_ran [where x = p] split: sum.splits)
      (auto simp: arith_def map_sum_def split: sum.splits)
  then show ?thesis using True
    by (cases "dec_fix (pc_change p)") (auto simp: rank_key_def moved_def dec_neg_def dec_fix_minus)
qed (simp add: rank_key_def moved_def)

text \<open>C34: An attribution names every product of either period and no other, once, in the order of the
  names. The products it shows first are the ones that matter: at most three, each moving in the
  direction of the total change, in the order of how far they moved (names break ties); a product that
  moves in that direction and is not shown moved no further than each of the three that are. For a rise
  this compares the changes rounded to 28 digits, which for changes of at most 28 digits are the changes
  themselves; for a fall it compares the changes themselves.\<close>
theorem top_products_are_the_largest:
  assumes "product_attribution u du req rs = Inr a"
  defines "moves p \<equiv> (0 < bt_change a \<and> 0 < pc_change p) \<or> (bt_change a < 0 \<and> pc_change p < 0)"
    and "before q p \<equiv> moved (bt_change a) p < moved (bt_change a) q
           \<or> moved (bt_change a) p = moved (bt_change a) q \<and> pc_name q < pc_name p"
  shows "sorted_wrt (<) (map pc_name (bt_products a))
    \<and> pc_name ` set (bt_products a) = product_names u (the (results_of rs (lit ''comparison-products'')))
        \<union> product_names u (the (results_of rs (lit ''current-products'')))
    \<and> length (bt_top a) \<le> 3 \<and> sorted_wrt before (bt_top a)
    \<and> set (bt_top a) \<subseteq> {p \<in> set (bt_products a). moves p}
    \<and> (\<forall>p \<in> set (bt_products a). moves p \<longrightarrow> p \<notin> set (bt_top a) \<longrightarrow>
         length (bt_top a) = 3
         \<and> (\<forall>q \<in> set (bt_top a). before q p
               \<and> (bt_change a < 0 \<or> exact p \<and> exact q \<longrightarrow> \<bar>pc_change p\<bar> \<le> \<bar>pc_change q\<bar>)))"
proof -
  obtain old new where vals: "product_values u du (ar_metric req) (the (results_of rs (lit ''comparison-products''))) = Inr old"
      "product_values u du (ar_metric req) (the (results_of rs (lit ''current-products''))) = Inr new"
    and ps: "contributions old new (ar_metric req) = Inr (bt_products a)"
    and best: "top_products (bt_products a) (bt_change a) = Inr (bt_top a)"
    using assms(1) by (auto simp: product_attribution_def Let_def bindR_Inr_iff split: if_splits)
  let ?ms = "filter moves (bt_products a)" and ?key = "rank_key (bt_change a)"
  have t: "bt_top a = take 3 (sort_key ?key ?ms)"
    using top_products_Inr [OF best] unfolding moves_def [abs_def] .
  have names: "sorted_wrt (<) (map pc_name (bt_products a))"
    unfolding contributions_Inr(1) [OF ps] by (rule strict_sorted_list_of_set)
  have "pc_name ` set (bt_products a) = set (map fst old) \<union> set (map fst new)"
    using contributions_Inr(1) [OF ps] by (metis List.finite_set finite_UnI set_map set_sorted_list_of_set)
  then have complete: "pc_name ` set (bt_products a) = product_names u (the (results_of rs (lit ''comparison-products'')))
        \<union> product_names u (the (results_of rs (lit ''current-products'')))"
    by (simp add: product_values_names [OF vals(1)] product_values_names [OF vals(2)])
  have key: "?key p = (- moved (bt_change a) p, pc_name p)" if "p \<in> set ?ms" for p
    using rank_key_moved [OF best] that by (auto simp: moves_def)
  have dist: "distinct (map pc_name ?ms)"
    using names by (simp add: strict_sorted_iff distinct_map_filter)
  have less: "before q p" if "q \<in> set ?ms" "p \<in> set ?ms" "?key q \<le> ?key p" "q \<noteq> p" for q p
  proof -
    have "pc_name q \<noteq> pc_name p" using that dist by (auto simp: distinct_map dest: inj_onD)
    with that(3) key [OF that(1)] key [OF that(2)] show ?thesis by (auto simp: before_def less_eq_prod_def)
  qed
  have sub: "set (bt_top a) \<subseteq> set ?ms"
    using set_take_subset [of 3 "sort_key ?key ?ms"] by (simp add: t)
  have "sorted_wrt (\<lambda>q p. ?key q \<le> ?key p) (bt_top a)"
    unfolding t by (rule sorted_wrt_take, rule sorted_sort_key [of ?key, unfolded sorted_map])
  moreover have "distinct (bt_top a)" using dist by (simp add: t distinct_map)
  ultimately have "sorted_wrt before (bt_top a)"
    using sub less by (auto simp: sorted_wrt_iff_nth_less nth_eq_iff_index_eq subset_code(1))
  moreover have "length (bt_top a) = 3 \<and> (\<forall>q \<in> set (bt_top a). before q p
        \<and> (bt_change a < 0 \<or> exact p \<and> exact q \<longrightarrow> \<bar>pc_change p\<bar> \<le> \<bar>pc_change q\<bar>))"
    if p: "p \<in> set (bt_products a)" "moves p" "p \<notin> set (bt_top a)" for p
  proof -
    have pm: "p \<in> set ?ms" using p by simp
    from take_sorted [of "sort_key ?key ?ms" ?key ?ms p 3] p have "length (bt_top a) = 3"
      and le: "\<forall>q \<in> set (bt_top a). ?key q \<le> ?key p" by (simp_all add: t)
    moreover have "before q p" if "q \<in> set (bt_top a)" for q
      using less [of q p] le that sub pm p(3) by blast
    moreover have "\<bar>pc_change p\<bar> \<le> \<bar>pc_change q\<bar>"
      if "before q p" "q \<in> set (bt_top a)" "bt_change a < 0 \<or> exact p \<and> exact q" for q
    proof -
      have "q \<in> set ?ms" using that(2) sub by blast
      with that p(2) show ?thesis
        by (auto simp: before_def moved_def exact_def moves_def)
    qed
    ultimately show ?thesis by blast
  qed
  ultimately show ?thesis using names complete sub by (auto simp: t)
qed


definition demo_result :: "string \<Rightarrow> pystr list \<Rightarrow> cell list list \<Rightarrow> cell task_result" where
  "demo_result i cols rows = \<lparr>res_id = lit i, res_status = TaskCompleted, res_columns = cols, res_rows = rows,
     res_row_count = int (length rows), res_truncated = False, res_error = None\<rparr>"

definition demo_columns :: "pystr list" where
  "demo_columns = [lit ''product'', lit ''net_sales_cny'', lit ''quantity'']"

definition demo_results :: "cell task_result list" where
  "demo_results =
     [demo_result ''comparison-overall'' [[65]] [[COther (lit ''0'')]],
      demo_result ''current-overall'' [[65]] [[COther (lit ''4.5'')]],
      demo_result ''comparison-products'' demo_columns [],
      demo_result ''current-products'' demo_columns [[CText (lit ''b''), COther (lit ''4.5''), COther (lit ''1'')]]]"

definition demo_request :: analysis_request where
  "demo_request = \<lparr>ar_metric = net_sales, ar_current = \<lparr>tr_text = [66], tr_granularity = GMonth\<rparr>,
     ar_comparison = \<lparr>tr_text = [65], tr_granularity = GMonth\<rparr>\<rparr>"

definition demo_folding :: unicode where
  "demo_folding = \<lparr>u_casefold = id, u_digit = \<lambda>c. False\<rparr>"

lemma adjusted_unique: "pow10 k \<le> \<bar>x\<bar> \<Longrightarrow> \<bar>x\<bar> < pow10 (k + 1) \<Longrightarrow> adjusted x = k"
proof -
  assume x: "pow10 k \<le> \<bar>x\<bar>" "\<bar>x\<bar> < pow10 (k + 1)"
  then have "x \<noteq> 0" using pow10_pos [of k] by fastforce
  note b = adjusted_bounds [OF this]
  have "\<not> adjusted x < k" using x(1) b(2) pow10_mono [of "adjusted x + 1" k] by linarith
  moreover have "\<not> k < adjusted x" using x(2) b(1) pow10_mono [of "k + 1" "adjusted x"] by linarith
  ultimately show ?thesis by simp
qed

lemma demo_adjusted: "adjusted (9 / 2) = 0" "adjusted (- (9 / 2)) = 0"
  by (rule adjusted_unique; simp add: pow10_def)+

lemma demo_fix: "dec_fix (9 / 2) = Inr (9 / 2)" "dec_fix (- (9 / 2)) = Inr (- (9 / 2))" "dec_fix 0 = Inr 0"
  by (simp_all add: dec_fix_def demo_adjusted dec_precision_def dec_etiny_def dec_emax_def half_even_def Let_def pow10_def)

lemmas decimal_defs = decimal_of_def parse_number_def parse_sign_def parse_exponent_def digits_int_def ascii_digit_def
  ascii_char_def lit_def strip_def py_isspace_def pow10_def Let_def

lemma demo_decimal: "decimal_of (\<lambda>_. None) (lit ''0'') = Some 0" "decimal_of (\<lambda>_. None) (lit ''4.5'') = Some (9 / 2)"
  "decimal_of (\<lambda>_. None) (lit ''1'') = Some 1"
  by (simp_all add: decimal_defs)

lemma demo_found: "find_columns demo_folding (product_metrics net_sales) 0 demo_columns None []
    = Inr (Some 0, [(net_sales, 1), (sales_quantity, 2)])"
  by (simp add: demo_columns_def demo_folding_def product_metrics_def product_columns_def metric_aliases_def
      normalize_column_def column_char_def net_sales_def sales_quantity_def gross_profit_def sales_cost_def lit_def)


definition demo_product :: contribution where
  "demo_product = \<lparr>pc_name = lit ''b'', pc_change = 9 / 2, pc_class = NewProduct, pc_factors = [(ProductEntry, 9 / 2)]\<rparr>"

lemma demo_top: "top_products [demo_product] (9 / 2) = Inr [demo_product]"
  by (simp add: top_products_def demo_product_def dec_neg_def demo_fix arith_def sort_key_def)

lemma demo_results_of:
  "results_of demo_results (lit ''comparison-overall'') = Some (demo_result ''comparison-overall'' [[65]] [[COther (lit ''0'')]])"
  "results_of demo_results (lit ''current-overall'') = Some (demo_result ''current-overall'' [[65]] [[COther (lit ''4.5'')]])"
  "results_of demo_results (lit ''comparison-products'') = Some (demo_result ''comparison-products'' demo_columns [])"
  "results_of demo_results (lit ''current-products'') = Some (demo_result ''current-products'' demo_columns
     [[CText (lit ''b''), COther (lit ''4.5''), COther (lit ''1'')]])"
  by (simp_all add: results_of_def demo_results_def demo_result_def lit_def)

lemma demo_complete: "complete_results demo_results = Inr ()"
proof -
  have "distinct (map res_id demo_results)" by (simp add: demo_results_def demo_result_def lit_def)
  then have "length (remdups (map res_id demo_results)) = length demo_results" by (simp add: distinct_remdups_id)
  then show ?thesis
    by (simp add: complete_results_def expected_ids_def demo_results_of) (simp add: demo_result_def)
qed

lemma demo_values:
  "product_values demo_folding (\<lambda>_. None) net_sales (demo_result i demo_columns []) = Inr []"
  "product_values demo_folding (\<lambda>_. None) net_sales (demo_result i demo_columns
     [[CText (lit ''b''), COther (lit ''4.5''), COther (lit ''1'')]])
   = Inr [(lit ''b'', \<lparr>pp_sales = 9 / 2, pp_quantity = 1, pp_cost = None\<rparr>)]"
proof -
  have d: "net_sales \<noteq> sales_quantity" "net_sales \<noteq> sales_cost" "sales_quantity \<noteq> sales_cost" "gross_profit \<noteq> net_sales"
    by (simp_all add: net_sales_def sales_quantity_def sales_cost_def gross_profit_def)
  have c: "res_columns (demo_result i demo_columns rs) = demo_columns" "res_rows (demo_result i demo_columns rs) = rs" for i rs
    by (simp_all add: demo_result_def)
  have b: "strip (lit ''b'') = lit ''b''" "lit ''b'' \<noteq> []" by (simp_all add: strip_def py_isspace_def lit_def)
  have n: "length demo_columns = 3" by (simp add: demo_columns_def)
  have m: "set (product_metrics net_sales) = {net_sales, sales_quantity}" using d by (simp add: product_metrics_def)
  show "product_values demo_folding (\<lambda>_. None) net_sales (demo_result i demo_columns []) = Inr []"
    "product_values demo_folding (\<lambda>_. None) net_sales (demo_result i demo_columns
       [[CText (lit ''b''), COther (lit ''4.5''), COther (lit ''1'')]])
     = Inr [(lit ''b'', \<lparr>pp_sales = 9 / 2, pp_quantity = 1, pp_cost = None\<rparr>)]"
    using d by (simp_all add: product_values_def demo_found c n m product_row_def b decimal_cell_def demo_decimal add_product_def)
qed

lemma demo_contribution: "contributions [] [(lit ''b'', \<lparr>pp_sales = 9 / 2, pp_quantity = 1, pp_cost = None\<rparr>)] net_sales = Inr [demo_product]"
  by (simp add: contributions_def product_contribution_def period_metric_def demo_product_def)
    (simp add: net_sales_def gross_profit_def)

lemma demo_attribution:
  "product_attribution demo_folding (\<lambda>_. None) demo_request demo_results
   = Inr \<lparr>bt_metric = net_sales, bt_current_period = [66], bt_comparison_period = [65], bt_comparison = 0,
       bt_current = 9 / 2, bt_change = 9 / 2, bt_products = [demo_product], bt_top = [demo_product]\<rparr>"
proof -
  have o: "overall_value (\<lambda>_. None) (demo_result i [[65]] [[COther (lit t)]]) = Inr x"
    if "decimal_of (\<lambda>_. None) (lit t) = Some x" for i t x
    using that by (simp add: overall_value_def demo_result_def decimal_cell_def)
  have small: "\<not> tolerance < 0" by (simp add: tolerance_def pow10_def)
  have r: "reconciles x x reason = Inr ()" for x reason
    using small by (simp add: reconciles_def dec_sub_def dec_abs_def demo_fix arith_def)
  have "net_sales \<noteq> gross_profit" by (simp add: net_sales_def gross_profit_def)
  then show ?thesis
    by (simp add: product_attribution_def demo_request_def Let_def demo_complete demo_results_of o [OF demo_decimal(1)]
        o [OF demo_decimal(2)] demo_values demo_contribution reconcile_period_def period_total_def arith_def dec_sub_def
        dec_add_def demo_fix r demo_top) (simp add: demo_product_def demo_fix r)
qed

lemma top_products_are_the_largest_witness:
  "\<exists>a. product_attribution demo_folding (\<lambda>_. None) demo_request demo_results = Inr a \<and> length (bt_top a) \<le> 3
    \<and> pc_name ` set (bt_products a) = product_names demo_folding (the (results_of demo_results (lit ''comparison-products'')))
        \<union> product_names demo_folding (the (results_of demo_results (lit ''current-products'')))
    \<and> pc_change (hd (bt_top a)) = 9 / 2"
  using top_products_are_the_largest [OF demo_attribution] by (simp add: demo_attribution demo_product_def)

end
