(* ===== verification/Analysis_Graph.thy ===== *)
theory Analysis_Graph
  imports Actions Attribution Executor_Properties Run_Store
begin

text \<open>
  The analysis application, \<open>business_analysis/application.py\<close> and \<open>decomposer.py\<close>: the five nodes of the
  graph, its edges, and \<open>analyze\<close> around it. A node reads the state of the run and returns it updated. The
  state \<open>'s\<close> stands for everything outside: the model, the query service, the observers. The graph library
  runs one node after the other along the edges and, with a checkpointer, keeps states of the run under its
  ID; which of the states a run leaves is kept is an argument (\<open>ga_kept\<close>). Messages with fixed Chinese
  texts, spans and log lines are left out.
\<close>

section \<open>Data\<close>

datatype node_exc = NodeStopped string | NodeRaises

type_synonym ('s, 'a) nact = "'s \<Rightarrow> (node_exc + 'a) \<times> 's"

record failure =
  fl_request :: pystr
  fl_code :: string
  fl_reason :: string

record 'r analysis_state =
  as_question :: pystr
  as_context :: "(json list \<times> pystr list) option"
  as_catalog :: "catalog option"
  as_candidate :: "request_candidate option"
  as_request :: "analysis_request option"
  as_plan :: "analysis_task list option"
  as_results :: "cell task_result list"
  as_attribution :: "attribution option"
  as_report :: "'r option"
  as_failure :: "failure option"

text \<open>What a call of the summarizer comes to.\<close>

datatype 'r summary = Report 'r | ReportError string string | SummaryStopped string | SummaryRaises

text \<open>\<open>ga_tasks\<close>: the task executor's world, with the checkpoints of the execution control. \<open>ga_stage\<close> and
  \<open>ga_progress\<close>: the progress observer. \<open>ga_model\<close>: one call of the model, \<open>None\<close> an answer without text.
  \<open>ga_streams\<close>: a report observer is given; \<open>ga_controlled\<close>: the summarizer has a controlled method.\<close>

record ('s, 'q, 'r) analysis_env =
  ga_unicode :: unicode
  ga_digit :: "nat \<Rightarrow> nat option"
  ga_loads :: "pystr \<Rightarrow> json option"
  ga_tasks :: "('s, 'q, cell) world"
  ga_bind :: "'s \<Rightarrow> bool \<times> 's"
  ga_stage :: "string \<Rightarrow> ('s, unit) nact"
  ga_progress :: "nat \<Rightarrow> nat \<Rightarrow> ('s, unit) nact"
  ga_context :: "('s, json list \<times> pystr list) nact"
  ga_model :: "pystr \<Rightarrow> ('s, pystr option) nact"
  ga_prompt :: "pystr \<Rightarrow> json list \<times> pystr list \<Rightarrow> pystr option"
  ga_streams :: bool
  ga_controlled :: bool
  ga_summary :: "pystr \<Rightarrow> cell task_result list \<Rightarrow> attribution \<Rightarrow> 's \<Rightarrow> 'r summary \<times> 's"

definition stopped :: "node_exc \<Rightarrow> bool" where
  "stopped e \<longleftrightarrow> e \<noteq> NodeRaises"

definition pauseA :: "('s, 'q, 'r) analysis_env \<Rightarrow> ('s, unit) nact" where
  "pauseA env s = (case w_checkpoint (ga_tasks env) s of (Some r, s1) \<Rightarrow> (Inl (NodeStopped r), s1) | (None, s1) \<Rightarrow> (Inr (), s1))"

definition failing :: "pystr \<Rightarrow> string \<Rightarrow> string \<Rightarrow> 'r analysis_state \<Rightarrow> 'r analysis_state" where
  "failing request code reason st = st\<lparr>as_failure := Some \<lparr>fl_request = request, fl_code = code, fl_reason = reason\<rparr>\<rparr>"

definition planned :: "'r analysis_state \<Rightarrow> bool" where
  "planned st \<longleftrightarrow> as_request st \<noteq> None \<and> as_plan st \<noteq> None"

section \<open>Extracting the request\<close>

text \<open>\<open>_invoke_with_retry\<close>: the model is asked at most twice.\<close>

definition ask_once :: "('s, 'q, 'r) analysis_env \<Rightarrow> pystr \<Rightarrow> ('s, pystr option) nact" where
  "ask_once env prompt = thenA (pauseA env) (\<lambda>_. thenA (ga_model env prompt) (\<lambda>text. thenA (pauseA env) (\<lambda>_. okA text)))"

definition ask_model :: "('s, 'q, 'r) analysis_env \<Rightarrow> pystr \<Rightarrow> ('s, string + pystr option) nact" where
  "ask_model env prompt =
     rescueA stopped (thenA (ask_once env prompt) (\<lambda>t. okA (Inr t))) (\<lambda>_.
     rescueA stopped (thenA (ask_once env prompt) (\<lambda>t. okA (Inr t))) (\<lambda>_. okA (Inl ''PROVIDER_CALL_FAILED'')))"

definition plan_reason :: "plan_error \<Rightarrow> string" where
  "plan_reason e =
     (case e of StructureError r \<Rightarrow> r | CannotAnswer r \<Rightarrow> r | ClarificationRequired r \<Rightarrow> r | PlanLimitsInvalid \<Rightarrow> ''REQUEST_STRUCTURE_INVALID'')"

text \<open>\<open>decompose_with_control\<close>: \<open>Inl\<close> the reason of an \<open>AnalysisRequestExtractionError\<close>.\<close>

definition decompose :: "('s, 'q, 'r) analysis_env \<Rightarrow> pystr \<Rightarrow> json list \<times> pystr list \<Rightarrow> ('s, string + request_candidate) nact" where
  "decompose env question ctx =
     (case ga_prompt env question ctx of
        None \<Rightarrow> failA NodeRaises
      | Some prompt \<Rightarrow>
          thenA (ask_model env prompt) (\<lambda>answer.
          okA (case answer of
                 Inl e \<Rightarrow> Inl e
               | Inr None \<Rightarrow> Inl ''RESPONSE_NOT_TEXT''
               | Inr (Some t) \<Rightarrow>
                   if strip t = [] then Inl ''RESPONSE_NOT_TEXT''
                   else (case ga_loads env (strip t) of
                           None \<Rightarrow> Inl ''RESPONSE_NOT_JSON''
                         | Some v \<Rightarrow> map_sum plan_reason id (request_from_payload v)))))"

definition extraction_context :: "('s, 'q, 'r) analysis_env \<Rightarrow> ('s, (json list \<times> pystr list) \<times> catalog) nact" where
  "extraction_context env =
     thenA (pauseA env) (\<lambda>_. thenA (ga_context env) (\<lambda>ctx. thenA (pauseA env) (\<lambda>_.
     case catalog_from_records (ga_unicode env) (fst ctx) (snd ctx) of
       Inl _ \<Rightarrow> failA NodeRaises | Inr cat \<Rightarrow> okA (ctx, cat))))"

definition extract_node :: "('s, 'q, 'r) analysis_env \<Rightarrow> pystr \<Rightarrow> 'r analysis_state \<Rightarrow> ('s, 'r analysis_state) nact" where
  "extract_node env rid st =
     (if planned st then okA (st\<lparr>as_failure := None\<rparr>)
      else
        thenA (pauseA env) (\<lambda>_.
        thenA (ga_stage env ''analysis_understanding'') (\<lambda>_.
        thenA (rescueA stopped (thenA (extraction_context env) (\<lambda>c. okA (Some c))) (\<lambda>_. okA None)) (\<lambda>found.
        case found of
          None \<Rightarrow> okA (failing rid ''CONTEXT_ERROR'' ''ANALYSIS_CONTEXT_UNAVAILABLE'' st)
        | Some (ctx, cat) \<Rightarrow>
            rescueA stopped
              (thenA (decompose env (as_question st) ctx) (\<lambda>out.
               case out of
                 Inl reason \<Rightarrow> okA (failing rid ''LLM_ERROR'' reason st)
               | Inr cand \<Rightarrow>
                   thenA (pauseA env) (\<lambda>_.
                   okA (st\<lparr>as_context := Some ctx, as_catalog := Some cat, as_candidate := Some cand\<rparr>))))
              (\<lambda>_. okA (failing rid ''LLM_ERROR'' ''DECOMPOSER_FAILURE'' st))))))"

section \<open>Validating the request\<close>

definition plan_failure :: "pystr \<Rightarrow> plan_error \<Rightarrow> 'r analysis_state \<Rightarrow> 'r analysis_state" where
  "plan_failure rid e =
     (case e of
        ClarificationRequired r \<Rightarrow> failing rid ''CLARIFICATION_REQUIRED'' r
      | CannotAnswer r \<Rightarrow> failing rid ''CANNOT_ANSWER'' r
      | StructureError r \<Rightarrow> failing rid ''CONTEXT_ERROR'' r
      | PlanLimitsInvalid \<Rightarrow> failing rid ''CONTEXT_ERROR'' ''PLAN_VALIDATION_FAILURE'')"

definition validate_node :: "('s, 'q, 'r) analysis_env \<Rightarrow> pystr \<Rightarrow> 'r analysis_state \<Rightarrow> ('s, 'r analysis_state) nact" where
  "validate_node env rid st =
     (if as_failure st \<noteq> None then okA st
      else if planned st then okA (st\<lparr>as_failure := None\<rparr>)
      else
        thenA (pauseA env) (\<lambda>_.
        thenA (ga_stage env ''analysis_plan_validation'') (\<lambda>_.
        case (as_candidate st, as_catalog st) of
          (Some cand, Some cat) \<Rightarrow>
            (case build_comparison_plan (ga_unicode env) cand cat (as_question st) of
               Inl e \<Rightarrow> okA (plan_failure rid e st)
             | Inr (req, plan) \<Rightarrow>
                 thenA (pauseA env) (\<lambda>_. okA (st\<lparr>as_request := Some req, as_plan := Some plan\<rparr>)))
        | _ \<Rightarrow> okA (failing rid ''CONTEXT_ERROR'' ''PLAN_VALIDATION_FAILURE'' st))))"

section \<open>Running a task\<close>

definition task_done :: "cell task_result \<Rightarrow> bool" where
  "task_done r \<longleftrightarrow> res_status r = TaskCompleted \<and> \<not> res_truncated r"

definition retryable_result :: "cell task_result \<Rightarrow> bool" where
  "retryable_result r \<longleftrightarrow>
     (case res_error r of
        None \<Rightarrow> False | Some e \<Rightarrow> te_code e \<in> {''CONTEXT_ERROR'', ''DATABASE_ERROR'', ''LLM_ERROR'', ''QUERY_TIMEOUT''})"

definition pending_task :: "(pystr \<rightharpoonup> cell task_result) \<Rightarrow> analysis_task \<Rightarrow> bool" where
  "pending_task previous t \<longleftrightarrow> (case previous (at_id t) of None \<Rightarrow> True | Some r \<Rightarrow> \<not> task_done r)"

definition execute_one :: "('s, 'q, 'r) analysis_env \<Rightarrow> pystr \<Rightarrow> analysis_task \<Rightarrow> ('s, cell task_result) nact" where
  "execute_one env rid t s =
     (case execute_task (ga_tasks env) (Some rid) t s of
        (Inl (ExecStopped r), s1) \<Rightarrow> (Inl (NodeStopped r), s1)
      | (Inl _, s1) \<Rightarrow> (Inl NodeRaises, s1)
      | (Inr x, s1) \<Rightarrow> (Inr x, s1))"

definition execute_with_retry :: "('s, 'q, 'r) analysis_env \<Rightarrow> pystr \<Rightarrow> analysis_task \<Rightarrow> ('s, cell task_result) nact" where
  "execute_with_retry env rid t =
     thenA (execute_one env rid t) (\<lambda>r.
     if res_status r = TaskFailed \<and> retryable_result r
     then thenA (pauseA env) (\<lambda>_. execute_one env rid t) else okA r)"

definition done_count :: "(pystr \<rightharpoonup> cell task_result) \<Rightarrow> pystr list \<Rightarrow> nat" where
  "done_count previous ids =
     length (filter (\<lambda>i. case previous i of None \<Rightarrow> False | Some r \<Rightarrow> task_done r) ids)"

definition plan_results :: "(pystr \<rightharpoonup> cell task_result) \<Rightarrow> analysis_task list \<Rightarrow> cell task_result list" where
  "plan_results previous plan = map (\<lambda>t. the (previous (at_id t))) (filter (\<lambda>t. previous (at_id t) \<noteq> None) plan)"

definition record_result :: "pystr \<Rightarrow> cell task_result \<Rightarrow> cell task_result list \<Rightarrow> 'r analysis_state \<Rightarrow> 'r analysis_state" where
  "record_result rid r results st =
     (if task_done r then st\<lparr>as_results := results, as_failure := None\<rparr>
      else failing rid ''CANNOT_ANSWER'' (if res_truncated r then ''ANALYSIS_TASK_TRUNCATED'' else ''ANALYSIS_TASK_FAILED'')
             (st\<lparr>as_results := results\<rparr>))"

definition run_next_task ::
  "('s, 'q, 'r) analysis_env \<Rightarrow> pystr \<Rightarrow> analysis_task list \<Rightarrow> 'r analysis_state \<Rightarrow> ('s, 'r analysis_state) nact" where
  "run_next_task env rid plan st =
     (let previous = results_of (as_results st)
      in thenA (pauseA env) (\<lambda>_.
         case find (pending_task previous) plan of
           None \<Rightarrow> okA (st\<lparr>as_results := map (\<lambda>t. the (previous (at_id t))) plan\<rparr>)
         | Some t \<Rightarrow>
             thenA (ga_stage env ''analysis_query_tasks'') (\<lambda>_.
             thenA (ga_progress env (done_count previous (remdups (map res_id (as_results st)))) (length plan)) (\<lambda>_.
             thenA (execute_with_retry env rid t) (\<lambda>r.
             thenA (pauseA env) (\<lambda>_.
             let results = plan_results (previous(at_id t \<mapsto> r)) plan
             in thenA (ga_progress env (length (filter task_done results)) (length plan)) (\<lambda>_.
                okA (record_result rid r results st))))))))"

definition execute_node :: "('s, 'q, 'r) analysis_env \<Rightarrow> pystr \<Rightarrow> 'r analysis_state \<Rightarrow> ('s, 'r analysis_state) nact" where
  "execute_node env rid st s =
     (case ga_bind env s of
        (False, s1) \<Rightarrow> (Inr (failing rid ''CONTEXT_ERROR'' ''ANALYSIS_EXECUTION_FAILURE'' st), s1)
      | (True, s1) \<Rightarrow>
          (case as_plan st of
             None \<Rightarrow> (case pauseA env s1 of (Inl e, s2) \<Rightarrow> (Inl e, s2) | (Inr _, s2) \<Rightarrow> (Inl NodeRaises, s2))
           | Some plan \<Rightarrow> run_next_task env rid plan st s1))"

section \<open>Attribution and report\<close>

definition attribute_node :: "('s, 'q, 'r) analysis_env \<Rightarrow> pystr \<Rightarrow> 'r analysis_state \<Rightarrow> ('s, 'r analysis_state) nact" where
  "attribute_node env rid st =
     rescueA stopped
       (thenA (pauseA env) (\<lambda>_.
        thenA (ga_stage env ''analysis_attribution'') (\<lambda>_.
        case as_request st of
          None \<Rightarrow> failA NodeRaises
        | Some req \<Rightarrow>
            (case product_attribution (ga_unicode env) (ga_digit env) req (as_results st) of
               Inl (Signal _) \<Rightarrow> failA NodeRaises
             | Inl (Attribution reason) \<Rightarrow> okA (failing rid ''CANNOT_ANSWER'' reason st)
             | Inr a \<Rightarrow> thenA (pauseA env) (\<lambda>_. okA (st\<lparr>as_attribution := Some a\<rparr>))))))
       (\<lambda>_. okA (failing rid ''CANNOT_ANSWER'' ''ATTRIBUTION_FAILURE'' st))"

definition report_error_code :: "string \<Rightarrow> string" where
  "report_error_code c = (if c = ''LLM_ERROR'' then ''LLM_ERROR'' else ''CANNOT_ANSWER'')"

definition summarize_call :: "('s, 'q, 'r) analysis_env \<Rightarrow> 'r analysis_state \<Rightarrow> ('s, (string \<times> string) + 'r) nact" where
  "summarize_call env st s =
     (case as_attribution st of
        None \<Rightarrow> (Inl NodeRaises, s)
      | Some a \<Rightarrow>
          (case ga_summary env (as_question st) (as_results st) a s of
             (Report r, s1) \<Rightarrow> (Inr (Inr r), s1)
           | (ReportError code reason, s1) \<Rightarrow> (Inr (Inl (code, reason)), s1)
           | (SummaryStopped r, s1) \<Rightarrow> (Inl (NodeStopped r), s1)
           | (SummaryRaises, s1) \<Rightarrow> (Inl NodeRaises, s1)))"

definition summarize_node :: "('s, 'q, 'r) analysis_env \<Rightarrow> pystr \<Rightarrow> 'r analysis_state \<Rightarrow> ('s, 'r analysis_state) nact" where
  "summarize_node env rid st =
     rescueA stopped
       (thenA (pauseA env) (\<lambda>_.
        thenA (ga_stage env ''analysis_report_generation'') (\<lambda>_.
        if ga_streams env \<and> \<not> ga_controlled env
        then okA (failing rid (report_error_code ''LLM_ERROR'') ''PROVIDER_STREAM_UNAVAILABLE'' st)
        else
          thenA (summarize_call env st) (\<lambda>out.
          case out of
            Inl (code, reason) \<Rightarrow> okA (failing rid (report_error_code code) reason st)
          | Inr r \<Rightarrow> thenA (pauseA env) (\<lambda>_. okA (st\<lparr>as_report := Some r\<rparr>))))))
       (\<lambda>_. okA (failing rid ''CONTEXT_ERROR'' ''ANALYSIS_SUMMARY_FAILURE'' st))"


section \<open>The graph\<close>

text \<open>The result of a run of the graph: the exception or the last state, the states after each completed node,
  and the outside. \<open>step_then\<close> follows an edge after a node.\<close>

type_synonym ('s, 'r) graph_run = "(node_exc + 'r analysis_state) \<times> 'r analysis_state list \<times> 's"

definition step_then ::
  "('s, 'r analysis_state) nact \<Rightarrow> ('r analysis_state \<Rightarrow> 's \<Rightarrow> ('s, 'r) graph_run) \<Rightarrow> 's \<Rightarrow> ('s, 'r) graph_run" where
  "step_then node next s =
     (case node s of
        (Inl e, s1) \<Rightarrow> (Inl e, [], s1)
      | (Inr st, s1) \<Rightarrow> (case next st s1 of (r, states, s2) \<Rightarrow> (r, st # states, s2)))"

definition finish_graph :: "'r analysis_state \<Rightarrow> 's \<Rightarrow> ('s, 'r) graph_run" where
  "finish_graph st s = (Inr st, [], s)"

text \<open>\<open>_route_after_task\<close>.\<close>

definition all_tasks_run :: "'r analysis_state \<Rightarrow> bool" where
  "all_tasks_run st \<longleftrightarrow> (case as_plan st of None \<Rightarrow> False | Some plan \<Rightarrow> length (as_results st) = length plan)"

definition after_tasks :: "('s, 'q, 'r) analysis_env \<Rightarrow> pystr \<Rightarrow> 'r analysis_state \<Rightarrow> 's \<Rightarrow> ('s, 'r) graph_run" where
  "after_tasks env rid st =
     step_then (attribute_node env rid st) (\<lambda>st1.
     if as_failure st1 \<noteq> None then finish_graph st1
     else step_then (summarize_node env rid st1) finish_graph)"

definition pending_count :: "'r analysis_state \<Rightarrow> nat" where
  "pending_count st =
     (case as_plan st of None \<Rightarrow> 0 | Some plan \<Rightarrow> length (filter (pending_task (results_of (as_results st))) plan))"

text \<open>A node \<open>execute\<close> that asks for another round has completed one more task.\<close>

lemma results_of_plan_results:
  assumes "t \<in> set plan" and "\<And>i r. previous i = Some r \<Longrightarrow> res_id r = i"
  shows "results_of (plan_results previous plan) (at_id t) = previous (at_id t)"
proof -
  have keyed: "map_of (map (\<lambda>r. (res_id r, r)) (plan_results previous ps)) i
      = (if i \<in> at_id ` set ps then previous i else None)" for ps i
    by (induction ps) (auto simp: plan_results_def assms(2))
  have "rev (map (\<lambda>r. (res_id r, r)) (plan_results previous plan)) = map (\<lambda>r. (res_id r, r)) (plan_results previous (rev plan))"
    by (simp add: plan_results_def rev_map rev_filter)
  then show ?thesis
    using assms(1) by (simp only: results_of_def keyed) auto
qed

lemma results_of_id: "results_of rs i = Some r \<Longrightarrow> res_id r = i"
  by (auto simp: results_of_def dest!: map_of_SomeD)

lemma record_result_simps [simp]:
  "as_plan (record_result rid r results st) = as_plan st"
  "as_results (record_result rid r results st) = results"
  "as_failure (record_result rid r results st) = None \<longleftrightarrow> task_done r"
  by (simp_all add: record_result_def failing_def)


lemma execute_one_id: "execute_one env rid t s = (Inr r, s') \<Longrightarrow> res_id r = at_id t"
  by (auto simp: execute_one_def split: prod.splits sum.splits exec_error.splits dest!: execute_task_result)

lemma execute_with_retry_id: "execute_with_retry env rid t s = (Inr r, s') \<Longrightarrow> res_id r = at_id t"
  by (auto simp: execute_with_retry_def thenA_iff okA_def dest!: execute_one_id split: if_splits)

lemma run_next_task_cases:
  assumes "run_next_task env rid plan st s = (Inr st1, s1)"
  obtains (idle) "find (pending_task (results_of (as_results st))) plan = None"
      "st1 = st\<lparr>as_results := map (\<lambda>t. the (results_of (as_results st) (at_id t))) plan\<rparr>"
  | (ran) t r where "find (pending_task (results_of (as_results st))) plan = Some t" "res_id r = at_id t"
      "st1 = record_result rid r (plan_results ((results_of (as_results st))(at_id t \<mapsto> r)) plan) st"
proof (cases "find (pending_task (results_of (as_results st))) plan")
  case None
  then have "st1 = st\<lparr>as_results := map (\<lambda>t. the (results_of (as_results st) (at_id t))) plan\<rparr>"
    using assms by (auto simp: run_next_task_def Let_def thenA_iff okA_def)
  with None show thesis by (rule idle)
next
  case (Some t)
  then show thesis
    using assms by (auto simp: run_next_task_def Let_def thenA_iff okA_def intro: ran [OF Some] dest!: execute_with_retry_id)
qed

lemma results_after_task:
  assumes "u \<in> set plan" and "res_id r = at_id t"
  shows "results_of (plan_results ((results_of rs)(at_id t \<mapsto> r)) plan) (at_id u) = ((results_of rs)(at_id t \<mapsto> r)) (at_id u)"
  by (rule results_of_plan_results [OF assms(1)]) (use assms(2) results_of_id in \<open>auto split: if_splits\<close>)

lemma filter_length_less:
  assumes "\<And>x. x \<in> set xs \<Longrightarrow> P x \<Longrightarrow> Q x" and "y \<in> set xs" and "Q y" and "\<not> P y"
  shows "length (filter P xs) < length (filter Q xs)"
proof -
  have "length (filter P ys) \<le> length (filter Q ys)" if "set ys \<subseteq> set xs" for ys
    using that assms(1) by (induction ys) auto
  moreover obtain as bs where xs: "xs = as @ y # bs" using assms(2) by (meson split_list)
  ultimately have "length (filter P as) \<le> length (filter Q as)" "length (filter P bs) \<le> length (filter Q bs)"
    by auto
  then show ?thesis using assms(3,4) by (simp add: xs)
qed

lemma execute_node_progress:
  assumes "execute_node env rid st s = (Inr st1, s1)" and "as_failure st1 = None" and "\<not> all_tasks_run st1"
  shows "pending_count st1 < pending_count st"
proof -
  obtain plan s2 where plan: "as_plan st = Some plan" and run: "run_next_task env rid plan st s2 = (Inr st1, s1)"
    using assms(1,2) by (auto simp: execute_node_def failing_def split: prod.splits bool.splits option.splits sum.splits)
  let ?prev = "results_of (as_results st)"
  from run show ?thesis
  proof (cases rule: run_next_task_cases)
    case idle
    then show ?thesis using assms(3) plan by (simp add: all_tasks_run_def)
  next
    case (ran t r)
    then have good: "task_done r" using assms(2) by simp
    have t: "t \<in> set plan" "pending_task ?prev t" using ran(1) by (auto simp: find_Some_iff in_set_conv_nth)
    have after: "results_of (as_results st1) (at_id u) = (?prev(at_id t \<mapsto> r)) (at_id u)" if "u \<in> set plan" for u
      using results_after_task [OF that ran(2)] ran(3) by simp
    have "length (filter (pending_task (results_of (as_results st1))) plan) < length (filter (pending_task ?prev) plan)"
    proof (rule filter_length_less [where y = t])
      fix u assume u: "u \<in> set plan" "pending_task (results_of (as_results st1)) u"
      show "pending_task ?prev u"
        using u(2) after [OF u(1)] good by (auto simp: pending_task_def split: if_splits)
    qed (use after [OF t(1)] good t in \<open>simp_all add: pending_task_def\<close>)
    then show ?thesis using plan ran(3) by (simp add: pending_count_def)
  qed
qed

function run_tasks :: "('s, 'q, 'r) analysis_env \<Rightarrow> pystr \<Rightarrow> 'r analysis_state \<Rightarrow> 's \<Rightarrow> ('s, 'r) graph_run" where
  "run_tasks env rid st s =
     (case execute_node env rid st s of
        (Inl e, s1) \<Rightarrow> (Inl e, [], s1)
      | (Inr st1, s1) \<Rightarrow>
          (case (if as_failure st1 \<noteq> None then finish_graph st1 s1
                 else if all_tasks_run st1 then after_tasks env rid st1 s1
                 else run_tasks env rid st1 s1) of
             (r, states, s2) \<Rightarrow> (r, st1 # states, s2)))"
  by pat_completeness auto
termination
  by (relation "measure (\<lambda>(env, rid, st, s). pending_count st)") (auto intro: execute_node_progress [OF sym])

declare run_tasks.simps [simp del]

definition run_graph :: "('s, 'q, 'r) analysis_env \<Rightarrow> pystr \<Rightarrow> 'r analysis_state \<Rightarrow> 's \<Rightarrow> ('s, 'r) graph_run" where
  "run_graph env rid st =
     step_then (extract_node env rid st) (\<lambda>st1.
     step_then (validate_node env rid st1) (\<lambda>st2.
     if as_failure st2 \<noteq> None then finish_graph st2 else run_tasks env rid st2))"

end
