(* ===== verification/Analysis_App.thy ===== *)
theory Analysis_App
  imports Analysis_Graph
begin

text \<open>
  \<open>BusinessAnalysisApplication.analyze\<close> (\<open>business_analysis/application.py\<close>): one call claims the run, runs
  the graph from the state kept for it, and closes the run unless its failure may be retried. The state
  holds the table of runs, the states the checkpointer keeps, and the outside.
\<close>

section \<open>Data\<close>

record ('s, 'r) app_state =
  ap_runs :: run_store
  ap_saved :: "uid \<Rightarrow> 'r analysis_state option"
  ap_outside :: 's

record 'r success =
  su_request :: pystr
  su_report :: 'r
  su_results :: "cell task_result list"
  su_run :: "uid option"
  su_attribution :: attribution
  su_plan :: "analysis_task list option"

datatype 'r analysis_result = Analysis "'r success" | AnalysisFailed failure

text \<open>\<open>ac_stored\<close>: a run store and a checkpointer are configured. \<open>ac_uuid\<close>: the canonical text of a UUID.
  \<open>ac_link\<close>: what becomes of a transaction's commit. \<open>ac_readable\<close>: the checkpointer answers. \<open>ac_kept\<close>: the
  state it keeps of those the run has left.\<close>

record 'r call_env =
  ac_stored :: bool
  ac_uuid :: "pystr \<Rightarrow> uid option"
  ac_fresh :: uid
  ac_sha :: "pystr \<Rightarrow> pystr"
  ac_now :: "string \<Rightarrow> time"
  ac_dbnow :: "string \<Rightarrow> time"
  ac_link :: "string \<Rightarrow> link"
  ac_readable :: bool
  ac_kept :: "'r analysis_state list \<Rightarrow> 'r analysis_state option"

record analysis_call =
  an_question :: pystr
  an_request :: pystr
  an_owner :: pystr
  an_run :: "pystr option"

type_synonym ('s, 'r, 'a) aact = "('s, 'r) app_state \<Rightarrow> (node_exc + 'a) \<times> ('s, 'r) app_state"

definition blank_state :: "'r analysis_state" where
  "blank_state = \<lparr>as_question = [], as_context = None, as_catalog = None, as_candidate = None, as_request = None,
     as_plan = None, as_results = [], as_attribution = None, as_report = None, as_failure = None\<rparr>"

definition failure_of :: "pystr \<Rightarrow> string \<Rightarrow> string \<Rightarrow> failure" where
  "failure_of rid code reason = \<lparr>fl_request = rid, fl_code = code, fl_reason = reason\<rparr>"

definition conflict_reason :: "run_conflict \<Rightarrow> string" where
  "conflict_reason c =
     (case c of OWNER_MISMATCH \<Rightarrow> ''ANALYSIS_RUN_OWNER_MISMATCH''
      | QUESTION_MISMATCH \<Rightarrow> ''ANALYSIS_RUN_QUESTION_MISMATCH'' | RUN_EXPIRED \<Rightarrow> ''ANALYSIS_RUN_EXPIRED''
      | STATE_CONFLICT \<Rightarrow> ''ANALYSIS_RUN_STATE_CONFLICT'' | ROW_MISSING \<Rightarrow> ''ROW_MISSING'')"

section \<open>Steps\<close>

definition outsideA :: "('s, 'a) nact \<Rightarrow> ('s, 'r, 'a) aact" where
  "outsideA m ap = (case m (ap_outside ap) of (r, s1) \<Rightarrow> (r, ap\<lparr>ap_outside := s1\<rparr>))"

text \<open>A step that returns a value whatever happens, and what follows it.\<close>

definition withA :: "('w \<Rightarrow> 'x \<times> 'w) \<Rightarrow> ('x \<Rightarrow> 'w \<Rightarrow> ('e + 'a) \<times> 'w) \<Rightarrow> 'w \<Rightarrow> ('e + 'a) \<times> 'w" where
  "withA m f w = (case m w of (x, w1) \<Rightarrow> f x w1)"

text \<open>A transaction on the table of runs: \<open>Inl None\<close> the database is unavailable, \<open>Inl (Some c)\<close> a conflict.\<close>

definition run_tx ::
  "link \<Rightarrow> (run_store \<Rightarrow> run_conflict + 'a \<times> run_store) \<Rightarrow> ('s, 'r) app_state \<Rightarrow> (run_conflict option + 'a) \<times> ('s, 'r) app_state" where
  "run_tx l f ap =
     (case l of
        Refused \<Rightarrow> (Inl None, ap)
      | Acknowledged \<Rightarrow> (case f (ap_runs ap) of Inl c \<Rightarrow> (Inl (Some c), ap) | Inr (x, rs) \<Rightarrow> (Inr x, ap\<lparr>ap_runs := rs\<rparr>))
      | LostReply \<Rightarrow> (case f (ap_runs ap) of Inl c \<Rightarrow> (Inl (Some c), ap) | Inr (x, rs) \<Rightarrow> (Inl None, ap\<lparr>ap_runs := rs\<rparr>)))"

definition run_uuid :: "unicode \<Rightarrow> 'r call_env \<Rightarrow> pystr option \<Rightarrow> uid option" where
  "run_uuid u cenv given =
     (case given of
        None \<Rightarrow> Some (ac_fresh cenv)
      | Some v \<Rightarrow> (case ac_uuid cenv v of None \<Rightarrow> None | Some k \<Rightarrow> if k = u_casefold u v then Some k else None))"

text \<open>Claiming the run: \<open>Inl\<close> the failure to answer with.\<close>

definition unavailable :: "analysis_call \<Rightarrow> ('s, 'r, failure + claim_status) aact" where
  "unavailable c = okA (Inl (failure_of (an_request c) ''CONTEXT_ERROR'' ''ANALYSIS_RUN_STORE_UNAVAILABLE''))"

definition cleanup_runs :: "'r call_env \<Rightarrow> ('s, 'r) app_state \<Rightarrow> (run_conflict option + unit) \<times> ('s, 'r) app_state" where
  "cleanup_runs cenv = run_tx (ac_link cenv ''cleanup'')
     (\<lambda>rs. case cleanup_expired (ac_now cenv ''cleanup'') rs of (n, rs1) \<Rightarrow> Inr ((), rs1))"

definition claim_run ::
  "('s, 'q, 'r) analysis_env \<Rightarrow> 'r call_env \<Rightarrow> analysis_call \<Rightarrow> uid \<Rightarrow> ('s, 'r, failure + claim_status) aact" where
  "claim_run env cenv c run =
     withA (run_tx (ac_link cenv ''claim'')
             (claim (ac_sha cenv) (ac_dbnow cenv ''claim'') (ac_now cenv ''claim'') run (an_owner c) (an_question c)))
       (\<lambda>r. case r of
          Inl None \<Rightarrow> unavailable c
        | Inl (Some ROW_MISSING) \<Rightarrow> unavailable c
        | Inl (Some conflict) \<Rightarrow> okA (Inl (failure_of (an_request c) ''CANNOT_ANSWER'' (conflict_reason conflict)))
        | Inr status \<Rightarrow> thenA (outsideA (pauseA env)) (\<lambda>_. okA (Inr status)))"

definition open_run ::
  "('s, 'q, 'r) analysis_env \<Rightarrow> 'r call_env \<Rightarrow> analysis_call \<Rightarrow> uid \<Rightarrow> ('s, 'r, failure + claim_status) aact" where
  "open_run env cenv c run =
     thenA (outsideA (pauseA env)) (\<lambda>_.
     withA (cleanup_runs cenv) (\<lambda>r. case r of Inl _ \<Rightarrow> unavailable c | Inr _ \<Rightarrow> claim_run env cenv c run))"

definition saved_state :: "uid \<Rightarrow> ('s, 'r) app_state \<Rightarrow> 'r analysis_state option" where
  "saved_state run ap = (if run \<in> set (rs_checkpoints (ap_runs ap)) then ap_saved ap run else None)"

definition keep_state :: "'r call_env \<Rightarrow> uid \<Rightarrow> 'r analysis_state list \<Rightarrow> ('s, 'r) app_state \<Rightarrow> ('s, 'r) app_state" where
  "keep_state cenv run states ap =
     (case ac_kept cenv states of
        None \<Rightarrow> ap
      | Some st \<Rightarrow>
          if ac_stored cenv
          then ap\<lparr>ap_saved := (ap_saved ap)(run := Some st),
                  ap_runs := (ap_runs ap)\<lparr>rs_checkpoints := List.insert run (rs_checkpoints (ap_runs ap))\<rparr>\<rparr>
          else ap)"

text \<open>\<open>invoke\<close>, and the checkpoint after it: \<open>None\<close> for any exception but a stop.\<close>

definition invoke_graph ::
  "('s, 'q, 'r) analysis_env \<Rightarrow> 'r call_env \<Rightarrow> analysis_call \<Rightarrow> uid \<Rightarrow> ('s, 'r, 'r analysis_state option) aact" where
  "invoke_graph env cenv c run ap =
     (if ac_stored cenv \<and> \<not> ac_readable cenv then (Inr None, ap)
      else
        (let start = (case if ac_stored cenv then saved_state run ap else None of None \<Rightarrow> blank_state | Some st \<Rightarrow> st)
         in case run_graph env (an_request c) (start\<lparr>as_question := an_question c\<rparr>) (ap_outside ap) of
              (r, states, s1) \<Rightarrow>
                (let ap1 = keep_state cenv run states (ap\<lparr>ap_outside := s1\<rparr>)
                 in case r of
                      Inl (NodeStopped x) \<Rightarrow> (Inl (NodeStopped x), ap1)
                    | Inl NodeRaises \<Rightarrow> (Inr None, ap1)
                    | Inr st \<Rightarrow> thenA (outsideA (pauseA env)) (\<lambda>_. okA (Some st)) ap1)))"

definition completed_result ::
  "'r call_env \<Rightarrow> analysis_call \<Rightarrow> uid \<Rightarrow> ('s, 'r) app_state \<Rightarrow> 'r analysis_result" where
  "completed_result cenv c run ap =
     (if \<not> ac_readable cenv
      then AnalysisFailed (failure_of (an_request c) ''CONTEXT_ERROR'' ''ANALYSIS_CHECKPOINT_UNAVAILABLE'')
      else
        (let st = (case saved_state run ap of None \<Rightarrow> blank_state | Some st \<Rightarrow> st)
         in case as_failure st of
              Some f \<Rightarrow> AnalysisFailed (f\<lparr>fl_request := an_request c\<rparr>)
            | None \<Rightarrow>
                (case (as_report st, as_attribution st) of
                   (Some r, Some a) \<Rightarrow>
                     Analysis \<lparr>su_request = an_request c, su_report = r, su_results = as_results st, su_run = Some run,
                               su_attribution = a, su_plan = as_plan st\<rparr>
                 | _ \<Rightarrow> AnalysisFailed (failure_of (an_request c) ''CONTEXT_ERROR'' ''ANALYSIS_CHECKPOINT_OUTPUT_INVALID''))))"

definition retryable_failure :: "failure \<Rightarrow> cell task_result list \<Rightarrow> bool" where
  "retryable_failure f results \<longleftrightarrow>
     list_ex retryable_result results
     \<or> fl_code f \<in> {''CONTEXT_ERROR'', ''DATABASE_ERROR'', ''LLM_ERROR'', ''QUERY_TIMEOUT''}"

definition complete_run ::
  "'r call_env \<Rightarrow> uid \<Rightarrow> ('s, 'r) app_state \<Rightarrow> (run_conflict option + unit) \<times> ('s, 'r) app_state" where
  "complete_run cenv run = run_tx (ac_link cenv ''complete'')
     (\<lambda>rs. map_sum id (\<lambda>rs1. ((), rs1)) (mark_completed (ac_now cenv ''complete'') run rs))"

text \<open>The answer from the graph's last state. When a failure closes the run, nothing catches an error of
  \<open>mark_completed\<close>.\<close>

definition close_run ::
  "('s, 'q, 'r) analysis_env \<Rightarrow> 'r call_env \<Rightarrow> analysis_call \<Rightarrow> uid \<Rightarrow> 'r analysis_state \<Rightarrow> ('s, 'r, 'r analysis_result) aact" where
  "close_run env cenv c run st =
     (case as_failure st of
        Some f \<Rightarrow>
          if ac_stored cenv \<and> \<not> retryable_failure f (as_results st)
          then thenA (outsideA (pauseA env)) (\<lambda>_. withA (complete_run cenv run) (\<lambda>r.
               case r of Inl _ \<Rightarrow> failA NodeRaises | Inr _ \<Rightarrow> okA (AnalysisFailed f)))
          else okA (AnalysisFailed f)
      | None \<Rightarrow>
          (case (as_plan st, as_attribution st, as_report st) of
             (Some plan, Some a, Some r) \<Rightarrow>
               (let answer = Analysis \<lparr>su_request = an_request c, su_report = r, su_results = as_results st, su_run = Some run,
                               su_attribution = a, su_plan = Some plan\<rparr>
                in if ac_stored cenv
                   then thenA (outsideA (pauseA env)) (\<lambda>_. withA (complete_run cenv run) (\<lambda>r.
                        case r of
                          Inl _ \<Rightarrow> okA (AnalysisFailed (failure_of (an_request c) ''CONTEXT_ERROR'' ''ANALYSIS_RUN_STORE_UNAVAILABLE''))
                        | Inr _ \<Rightarrow> okA answer))
                   else okA answer)
           | _ \<Rightarrow> okA (AnalysisFailed (failure_of (an_request c) ''CONTEXT_ERROR'' ''ANALYSIS_GRAPH_OUTPUT_INVALID''))))"

definition analyze_claimed ::
  "('s, 'q, 'r) analysis_env \<Rightarrow> 'r call_env \<Rightarrow> analysis_call \<Rightarrow> uid \<Rightarrow> ('s, 'r, 'r analysis_result) aact" where
  "analyze_claimed env cenv c run =
     thenA (invoke_graph env cenv c run) (\<lambda>out.
     case out of
       None \<Rightarrow> okA (AnalysisFailed (failure_of (an_request c) ''CONTEXT_ERROR'' ''ANALYSIS_GRAPH_FAILURE''))
     | Some st \<Rightarrow> close_run env cenv c run st)"

definition analyze ::
  "('s, 'q, 'r) analysis_env \<Rightarrow> 'r call_env \<Rightarrow> analysis_call \<Rightarrow> ('s, 'r, 'r analysis_result) aact" where
  "analyze env cenv c =
     thenA (outsideA (pauseA env)) (\<lambda>_.
     case run_uuid (ga_unicode env) cenv (an_run c) of
       None \<Rightarrow> okA (AnalysisFailed (failure_of (an_request c) ''INVALID_REQUEST'' ''ANALYSIS_RUN_ID_INVALID''))
     | Some run \<Rightarrow>
         if ac_stored cenv then
           thenA (open_run env cenv c run) (\<lambda>claimed.
           case claimed of
             Inl f \<Rightarrow> okA (AnalysisFailed f)
           | Inr (RunFound RunCompleted) \<Rightarrow> (\<lambda>ap. (Inr (completed_result cenv c run ap), ap))
           | Inr _ \<Rightarrow> analyze_claimed env cenv c run)
         else analyze_claimed env cenv c run)"

end
