(* ===== verification/Analysis_Invariant.thy ===== *)
theory Analysis_Invariant
  imports Analysis_App Plan_Properties
begin

text \<open>
  The invariant of an analysis run: the results are those of a prefix of the plan, in its order, and only the
  last may be unfinished; an attribution is the one computed from the results of the whole plan; a report
  has an attribution. Every node keeps it, so do the graph and \<open>analyze\<close>.
\<close>

section \<open>Rules for actions\<close>

definition yields :: "('w \<Rightarrow> ('e + 'a) \<times> 'w) \<Rightarrow> ('a \<Rightarrow> bool) \<Rightarrow> bool" where
  "yields m P \<longleftrightarrow> (\<forall>w x w'. m w = (Inr x, w') \<longrightarrow> P x)"

lemma yields_basic [simp]: "yields (okA x) P \<longleftrightarrow> P x" "yields (failA e) P"
  by (simp_all add: yields_def okA_def failA_def)

lemma yieldsD: "yields m P \<Longrightarrow> m w = (Inr x, w') \<Longrightarrow> P x"
  by (auto simp: yields_def)

lemma yields_True [intro!, simp]: "yields m (\<lambda>_. True)"
  by (simp add: yields_def)

lemma yields_then: "yields m Q \<Longrightarrow> (\<And>x. Q x \<Longrightarrow> yields (f x) P) \<Longrightarrow> yields (thenA m f) P"
  by (fastforce simp: yields_def thenA_iff)

lemma yields_then_any: "(\<And>x. yields (f x) P) \<Longrightarrow> yields (thenA m f) P"
  by (rule yields_then) auto

lemma yields_rescue: "yields m P \<Longrightarrow> (\<And>e. yields (h e) P) \<Longrightarrow> yields (rescueA passes m h) P"
  unfolding yields_def rescueA_def by (fastforce split: prod.splits sum.splits if_splits)

lemmas yields_rules = yields_then_any yields_rescue

section \<open>The invariant\<close>

definition run_prefix :: "analysis_task list \<Rightarrow> cell task_result list \<Rightarrow> bool" where
  "run_prefix plan rs \<longleftrightarrow> distinct (map at_id plan) \<and> map res_id rs = take (length rs) (map at_id plan)
     \<and> list_all task_done (butlast rs)"

definition attributed :: "('s, 'q, 'r) analysis_env \<Rightarrow> 'r analysis_state \<Rightarrow> attribution \<Rightarrow> bool" where
  "attributed env st a \<longleftrightarrow>
     (\<exists>req plan. as_request st = Some req \<and> as_plan st = Some plan \<and> map res_id (as_results st) = map at_id plan
        \<and> list_all task_done (as_results st)
        \<and> product_attribution (ga_unicode env) (ga_digit env) req (as_results st) = Inr a)"

definition state_ok :: "('s, 'q, 'r) analysis_env \<Rightarrow> 'r analysis_state \<Rightarrow> bool" where
  "state_ok env st \<longleftrightarrow>
     (case as_plan st of None \<Rightarrow> as_results st = [] | Some plan \<Rightarrow> as_request st \<noteq> None \<and> run_prefix plan (as_results st))
     \<and> (\<forall>a. as_attribution st = Some a \<longrightarrow> attributed env st a)
     \<and> (as_report st \<noteq> None \<longrightarrow> as_attribution st \<noteq> None)"

lemma state_ok_simps [simp]:
  "state_ok env (failing rid code reason st) = state_ok env st"
  "state_ok env (st\<lparr>as_failure := f\<rparr>) = state_ok env st"
  "state_ok env (st\<lparr>as_question := q\<rparr>) = state_ok env st"
  "state_ok env (st\<lparr>as_context := x, as_catalog := y, as_candidate := z\<rparr>) = state_ok env st"
  "state_ok env (plan_failure rid e st) = state_ok env st"
  "state_ok env blank_state"
  by (simp_all add: state_ok_def attributed_def failing_def plan_failure_def blank_state_def split: plan_error.split option.split)

lemma failing_simps [simp]:
  "as_failure (failing a b c st) = Some \<lparr>fl_request = a, fl_code = b, fl_reason = c\<rparr>"
  "as_plan (failing a b c st) = as_plan st" "as_results (failing a b c st) = as_results st"
  by (simp_all add: failing_def)

section \<open>Results in the order of the plan\<close>

lemma results_of_iff: "distinct (map res_id rs) \<Longrightarrow> results_of rs i = Some r \<longleftrightarrow> r \<in> set rs \<and> res_id r = i"
  by (auto simp: results_of_def map_of_eq_Some_iff rev_map [symmetric] o_def)

lemma results_of_None: "results_of rs i = None \<longleftrightarrow> i \<notin> set (map res_id rs)"
  by (auto simp: results_of_def map_of_eq_None_iff image_image)

lemma run_prefix_split:
  assumes "run_prefix plan rs"
  obtains ps qs where "plan = ps @ qs" "map res_id rs = map at_id ps" "list_all task_done (butlast rs)"
proof -
  have "map res_id rs = map at_id (take (length rs) plan)"
    using assms by (simp add: run_prefix_def take_map)
  then show thesis using assms by (intro that [of "take (length rs) plan" "drop (length rs) plan"]) (simp_all add: run_prefix_def)
qed

lemma run_prefix_append:
  "run_prefix (ps @ qs) rs \<longleftrightarrow> distinct (map at_id (ps @ qs)) \<and> map res_id rs = map at_id ps \<and> list_all task_done (butlast rs)"
  if "length rs = length ps"
  using that by (simp add: run_prefix_def)

lemma results_of_prefix:
  assumes "distinct (map at_id (ps @ qs))" and ids: "map res_id rs = map at_id ps"
  shows "map (\<lambda>t. results_of rs (at_id t)) ps = map Some rs" "u \<in> set qs \<Longrightarrow> results_of rs (at_id u) = None"
proof -
  have len: "length rs = length ps" using ids by (metis length_map)
  have nth: "res_id (rs ! i) = at_id (ps ! i)" if "i < length ps" for i
    using ids len that by (metis nth_map)
  have "distinct (map res_id rs)" using assms by simp
  then show "map (\<lambda>t. results_of rs (at_id t)) ps = map Some rs"
    by (intro nth_equalityI) (simp_all add: len results_of_iff nth)
  show "results_of rs (at_id u) = None" if "u \<in> set qs"
    using assms(1) that unfolding results_of_None ids by auto
qed

lemma plan_results_append: "plan_results prev (ps @ qs) = plan_results prev ps @ plan_results prev qs"
  by (simp add: plan_results_def)

lemma plan_results_all: "map (\<lambda>t. prev (at_id t)) ps = map Some rs \<Longrightarrow> plan_results prev ps = rs"
  by (induction ps arbitrary: rs) (auto simp: plan_results_def)

lemma plan_results_none: "(\<And>u. u \<in> set qs \<Longrightarrow> prev (at_id u) = None) \<Longrightarrow> plan_results prev qs = []"
  by (simp add: plan_results_def filter_empty_conv)

lemma not_pending: "\<not> pending_task prev t \<longleftrightarrow> (\<exists>r. prev (at_id t) = Some r \<and> task_done r)"
  by (auto simp: pending_task_def split: option.splits)

lemma finished_results:
  "map (\<lambda>t. prev (at_id t)) ps = map Some rs \<Longrightarrow> \<forall>u \<in> set ps. \<not> pending_task prev u \<Longrightarrow> list_all task_done rs"
  by (induction ps arbitrary: rs) (auto simp: not_pending)

lemma find_split:
  "find P xs = Some x \<Longrightarrow> \<exists>as bs. xs = as @ x # bs \<and> P x \<and> (\<forall>a \<in> set as. \<not> P a)"
proof (induction xs)
  case (Cons y ys)
  show ?case
  proof (cases "P y")
    case True
    then have "y # ys = [] @ x # ys \<and> P x \<and> (\<forall>a \<in> set []. \<not> P a)" using Cons.prems by simp
    then show ?thesis by blast
  next
    case False
    then obtain as bs where "ys = as @ x # bs" "P x" "\<forall>a \<in> set as. \<not> P a" using Cons by auto
    then have "y # ys = (y # as) @ x # bs \<and> P x \<and> (\<forall>a \<in> set (y # as). \<not> P a)" using False by simp
    then show ?thesis by blast
  qed
qed simp

text \<open>The next task extends the finished results, or replaces the unfinished last one.\<close>

lemma next_position:
  assumes ok: "run_prefix (ps @ t # qs) rs" and old: "\<forall>u \<in> set ps. \<not> pending_task (results_of rs) u"
    and pend: "pending_task (results_of rs) t"
  obtains (fresh) "map res_id rs = map at_id ps" "list_all task_done rs"
  | (again) rs1 rt where "rs = rs1 @ [rt]" "map res_id rs1 = map at_id ps" "list_all task_done rs1" "\<not> task_done rt"
proof -
  obtain ps' qs' where plan: "ps @ t # qs = ps' @ qs'" and ids: "map res_id rs = map at_id ps'"
    and finished: "list_all task_done (butlast rs)"
    using run_prefix_split [OF ok] by metis
  have dist: "distinct (map at_id (ps' @ qs'))" using ok plan by (simp add: run_prefix_def)
  note found = results_of_prefix(1) [OF dist ids] and missing = results_of_prefix(2) [OF dist ids]
  from plan consider us where "ps' @ us = ps" "qs' = us @ t # qs" | "ps' = ps" "qs' = t # qs"
    | vs where "ps' = ps @ t # vs" "vs @ qs' = qs"
    by (auto simp: append_eq_append_conv2 Cons_eq_append_conv)
  then show thesis
  proof cases
    case (1 us)
    have "us = []"
    proof (rule ccontr)
      assume "us \<noteq> []"
      then obtain u where u: "u \<in> set us" by (cases us) auto
      then have "results_of rs (at_id u) = None" using 1 by (intro missing) simp
      moreover have "\<not> pending_task (results_of rs) u" using old u 1 by auto
      ultimately show False by (simp add: pending_task_def)
    qed
    then have "ps' = ps" using 1 by simp
    then show thesis using ids finished_results [of "results_of rs", OF found] old by (intro fresh) auto
  next
    case 2
    then show thesis using ids finished_results [of "results_of rs", OF found] old by (intro fresh) auto
  next
    case (3 vs)
    then obtain ra rt rc where rs: "rs = ra @ rt # rc" and ra: "map res_id ra = map at_id ps"
      using ids by (auto simp: map_eq_append_conv map_eq_Cons_conv)
    have len: "length ra = length ps" using ra by (metis length_map)
    have "results_of rs (at_id t) = Some rt"
      using found 3(1) rs len by (simp add: append_eq_append_conv)
    then have notdone: "\<not> task_done rt" using pend not_pending by fastforce
    then have "rc = []" using finished rs by (cases rc) (auto simp: butlast_append)
    then show thesis using finished rs ra notdone by (intro again) simp_all
  qed
qed

lemma next_result:
  assumes ok: "run_prefix plan rs" and first: "find (pending_task (results_of rs)) plan = Some t" and id: "res_id r = at_id t"
  obtains ps qs rs1 where "plan = ps @ t # qs" "plan_results ((results_of rs)(at_id t \<mapsto> r)) plan = rs1 @ [r]"
    "map res_id rs1 = map at_id ps" "list_all task_done rs1" "filter task_done rs = rs1"
proof -
  obtain ps qs where plan: "plan = ps @ t # qs" and old: "\<forall>u \<in> set ps. \<not> pending_task (results_of rs) u"
    and pend: "pending_task (results_of rs) t"
    using find_split [OF first] by blast
  have dist: "distinct (map at_id (ps @ t # qs))" using ok plan by (simp add: run_prefix_def)
  have "\<exists>rs1. map res_id rs1 = map at_id ps \<and> list_all task_done rs1 \<and> filter task_done rs = rs1
      \<and> map (\<lambda>u. results_of rs (at_id u)) ps = map Some rs1 \<and> (\<forall>u \<in> set qs. results_of rs (at_id u) = None)"
    using ok [unfolded plan] old pend
  proof (cases rule: next_position)
    case fresh
    have "filter task_done rs = rs" using fresh(2) by (simp add: list_all_iff)
    then show ?thesis using fresh results_of_prefix [OF dist fresh(1)] by (intro exI [of _ rs]) simp
  next
    case (again rs1 rt)
    have "length rs1 = length ps" using again(2) by (metis length_map)
    then have ids: "map res_id rs = map at_id (ps @ [t])"
      using again ok by (simp add: plan run_prefix_def)
    have "filter task_done rs = rs1" using again by (simp add: list_all_iff)
    moreover have "map (\<lambda>u. results_of rs (at_id u)) (ps @ [t]) = map Some rs" "\<forall>u \<in> set qs. results_of rs (at_id u) = None"
      using results_of_prefix [of "ps @ [t]" qs rs] dist ids by simp_all
    ultimately show ?thesis using again by (intro exI [of _ rs1]) simp
  qed
  then obtain rs1 where rs1: "map res_id rs1 = map at_id ps" "list_all task_done rs1" "filter task_done rs = rs1"
    "map (\<lambda>u. results_of rs (at_id u)) ps = map Some rs1" "\<forall>u \<in> set qs. results_of rs (at_id u) = None"
    by blast
  let ?prev = "(results_of rs)(at_id t \<mapsto> r)"
  have "map (\<lambda>u. ?prev (at_id u)) ps = map (\<lambda>u. results_of rs (at_id u)) ps"
    using dist by (intro map_cong) (force simp: image_iff)+
  then have "plan_results ?prev ps = rs1" using rs1(4) by (intro plan_results_all) simp
  moreover have "plan_results ?prev qs = []"
    using dist rs1(5) by (intro plan_results_none) (auto simp: image_iff)
  ultimately have "plan_results ?prev plan = rs1 @ [r]"
    using plan_results_append [of ?prev ps "t # qs"] plan_results_append [of ?prev "[t]" qs]
    by (simp add: plan) (simp add: plan_results_def)
  with plan rs1 that show thesis by blast
qed

section \<open>The nodes keep it\<close>

lemma state_ok_unplanned:
  "state_ok env st \<Longrightarrow> \<not> planned st \<Longrightarrow>
     as_plan st = None \<and> as_results st = [] \<and> as_attribution st = None \<and> as_report st = None"
  by (auto simp: state_ok_def planned_def attributed_def split: option.splits)

lemma extract_keeps:
  assumes "state_ok env st" shows "yields (extract_node env rid st) (state_ok env)"
  using assms by (auto simp: extract_node_def split: option.split sum.split intro!: yields_rules)

lemma validate_keeps:
  assumes "state_ok env st" shows "yields (validate_node env rid st) (state_ok env)"
proof -
  have "state_ok env (st\<lparr>as_request := Some req, as_plan := Some plan\<rparr>)"
    if "\<not> planned st" and "build_comparison_plan u cand cat q = Inr (req, plan)" for u cand cat q req plan
    using state_ok_unplanned [OF assms that(1)] generated_plan_is_safe [OF that(2)]
    by (auto simp: state_ok_def run_prefix_def simp del: distinct_map)
  then show ?thesis
    using assms by (auto simp: validate_node_def split: option.split sum.split intro!: yields_rules)
qed

definition all_done :: "'r analysis_state \<Rightarrow> bool" where
  "all_done st \<longleftrightarrow> (\<exists>plan. as_plan st = Some plan \<and> map res_id (as_results st) = map at_id plan) \<and> list_all task_done (as_results st)"

lemma prefix_all_run:
  assumes "state_ok env st" and "all_tasks_run st" and "list_all task_done (as_results st)"
  shows "all_done st"
  using assms by (auto simp: all_done_def all_tasks_run_def state_ok_def run_prefix_def split: option.splits)

lemma run_prefix_complete:
  assumes ok: "run_prefix plan rs" and none: "find (pending_task (results_of rs)) plan = None"
  shows "map (\<lambda>t. the (results_of rs (at_id t))) plan = rs" "list_all task_done rs" "map res_id rs = map at_id plan"
proof -
  have all: "\<forall>u \<in> set plan. \<not> pending_task (results_of rs) u" using none by (auto simp: find_None_iff)
  obtain ps qs where plan: "plan = ps @ qs" and ids: "map res_id rs = map at_id ps" using run_prefix_split [OF ok] by metis
  have dist: "distinct (map at_id (ps @ qs))" using ok plan by (simp add: run_prefix_def)
  have "qs = []"
  proof (rule ccontr)
    assume "qs \<noteq> []"
    then have "results_of rs (at_id (hd qs)) = None" "hd qs \<in> set plan"
      using results_of_prefix(2) [OF dist ids] plan by auto
    then show False using all by (auto simp: pending_task_def)
  qed
  then have found: "map (\<lambda>t. results_of rs (at_id t)) plan = map Some rs" and "map res_id rs = map at_id plan"
    using results_of_prefix(1) [OF dist ids] plan ids by simp_all
  from arg_cong [OF found, of "map the"] show "map (\<lambda>t. the (results_of rs (at_id t))) plan = rs"
    by (simp add: o_def)
  show "list_all task_done rs" by (rule finished_results [where prev = "results_of rs", OF found all])
  show "map res_id rs = map at_id plan" by fact
qed

lemma next_task_keeps:
  assumes ok: "state_ok env st" and plan: "as_plan st = Some plan"
    and run: "run_next_task env rid plan st s = (Inr st1, s1)"
  shows "state_ok env st1 \<and> as_plan st1 = Some plan \<and> set (filter task_done (as_results st)) \<subseteq> set (as_results st1)
    \<and> (as_failure st1 = None \<longrightarrow> list_all task_done (as_results st1))"
proof -
  have pre: "run_prefix plan (as_results st)" and req: "as_request st \<noteq> None" using ok plan by (simp_all add: state_ok_def)
  from run show ?thesis
  proof (cases rule: run_next_task_cases)
    case idle
    note full = run_prefix_complete [OF pre idle(1)]
    have "st1 = st" using idle(2) full(1) by simp
    then show ?thesis using ok plan full(2) by auto
  next
    case (ran t r)
    obtain ps qs rs1 where split: "plan = ps @ t # qs"
      and results: "plan_results ((results_of (as_results st))(at_id t \<mapsto> r)) plan = rs1 @ [r]"
      and ids: "map res_id rs1 = map at_id ps" and good: "list_all task_done rs1" and kept: "filter task_done (as_results st) = rs1"
      using next_result [OF pre ran(1,2)] by metis
    have len: "length rs1 = length ps" using ids by (metis length_map)
    have "as_attribution st = None"
    proof (rule ccontr)
      assume "as_attribution st \<noteq> None"
      then have "map res_id (as_results st) = map at_id plan" "list_all task_done (as_results st)"
        using ok plan by (auto simp: state_ok_def attributed_def)
      then have "map (\<lambda>u. results_of (as_results st) (at_id u)) plan = map Some (as_results st)"
        using results_of_prefix(1) [of plan "[]" "as_results st"] pre by (simp add: run_prefix_def)
      then have "results_of (as_results st) (at_id t) \<in> Some ` set (as_results st)"
        using split by (metis (no_types, lifting) imageI list.set_map in_set_conv_decomp)
      moreover have "pending_task (results_of (as_results st)) t" using ran(1) by (auto simp: find_Some_iff)
      ultimately show False
        using \<open>list_all task_done (as_results st)\<close> by (auto simp: pending_task_def list_all_iff)
    qed
    moreover from this have "as_report st = None" using ok by (auto simp: state_ok_def)
    moreover have "run_prefix plan (rs1 @ [r])"
      using pre split ids good len ran(2) by (simp add: run_prefix_def)
    ultimately have "state_ok env st1"
      using plan req by (auto simp: ran(3) results state_ok_def record_result_def failing_def)
    then show ?thesis
      using plan good kept by (auto simp: ran(3) results)
  qed
qed

lemma execute_keeps:
  assumes ok: "state_ok env st" and run: "execute_node env rid st s = (Inr st1, s1)"
  shows "state_ok env st1 \<and> as_plan st1 = as_plan st \<and> set (filter task_done (as_results st)) \<subseteq> set (as_results st1)
    \<and> (as_failure st1 = None \<longrightarrow> list_all task_done (as_results st1))"
proof -
  from run consider "st1 = failing rid ''CONTEXT_ERROR'' ''ANALYSIS_EXECUTION_FAILURE'' st"
    | plan s2 where "as_plan st = Some plan" "run_next_task env rid plan st s2 = (Inr st1, s1)"
    by (auto simp: execute_node_def split: prod.splits bool.splits option.splits sum.splits)
  then show ?thesis
  proof cases
    case 1
    have "as_results st1 = as_results st" "as_plan st1 = as_plan st" "as_failure st1 \<noteq> None" by (simp_all add: 1 failing_def)
    then show ?thesis using ok 1 by auto
  next
    case (2 plan s2)
    then show ?thesis using next_task_keeps [OF ok 2] by simp
  qed
qed

lemma attribute_keeps:
  assumes "state_ok env st" and "all_done st" shows "yields (attribute_node env rid st) (state_ok env)"
proof -
  have "state_ok env (st\<lparr>as_attribution := Some a\<rparr>)"
    if "as_request st = Some req" "product_attribution (ga_unicode env) (ga_digit env) req (as_results st) = Inr a" for req a
    using assms that by (auto simp: state_ok_def attributed_def all_done_def)
  then show ?thesis
    using assms by (auto simp: attribute_node_def split: option.split sum.split attr_error.split intro!: yields_rules)
qed

lemma summarize_keeps:
  assumes "state_ok env st"
  shows "yields (summarize_node env rid st) (\<lambda>st1. state_ok env st1 \<and> (as_failure st1 = None \<longrightarrow> as_report st1 \<noteq> None))"
proof -
  have call: "yields (summarize_call env st) (\<lambda>out. \<forall>r. out = Inr r \<longrightarrow> as_attribution st \<noteq> None)"
    by (auto simp: yields_def summarize_call_def split: option.splits)
  have "state_ok env (st\<lparr>as_report := Some r\<rparr>)" if "as_attribution st \<noteq> None" for r
    using assms that by (auto simp: state_ok_def attributed_def)
  then show ?thesis
    unfolding summarize_node_def
    using assms by (auto split: sum.split intro!: yields_rescue yields_then_any yields_then [OF call])
qed

end
