(* ===== verification/Analysis_Steps.thy ===== *)
theory Analysis_Steps
  imports Analysis_Invariant
begin

text \<open>
  What the graph and the application keep of an analysis run, from one call to the next: every state the
  graph leaves satisfies the invariant and keeps the plan and its finished results, few nodes are passed, a
  failure before the plan is never cleared, and nothing but a final answer completes the run.
\<close>

section \<open>The graph\<close>

text \<open>What holds of every state the graph leaves, and of the last.\<close>

definition run_ok :: "('r analysis_state \<Rightarrow> bool) \<Rightarrow> ('s, 'r) graph_run \<Rightarrow> bool" where
  "run_ok P run \<longleftrightarrow>
     (case run of (r, states, s) \<Rightarrow>
        list_all P states \<and> (\<forall>st. r = Inr st \<longrightarrow> P st \<and> (as_failure st = None \<longrightarrow> as_report st \<noteq> None)))"

lemma run_ok_finish: "run_ok P (finish_graph st s) \<longleftrightarrow> P st \<and> (as_failure st = None \<longrightarrow> as_report st \<noteq> None)"
  by (simp add: run_ok_def finish_graph_def)

lemma run_ok_step:
  assumes "\<And>st1 s1. node s = (Inr st1, s1) \<Longrightarrow> P st1 \<and> run_ok P (next st1 s1)"
  shows "run_ok P (step_then node next s)"
  using assms by (auto simp: step_then_def run_ok_def split: prod.splits sum.splits)

text \<open>The plan stays, and so do the results \<open>D\<close> of finished tasks.\<close>

definition keeps :: "('s, 'q, 'r) analysis_env \<Rightarrow> cell task_result set \<Rightarrow> analysis_task list option \<Rightarrow> 'r analysis_state \<Rightarrow> bool" where
  "keeps env D plan st \<longleftrightarrow> state_ok env st \<and> as_plan st = plan \<and> D \<subseteq> set (filter task_done (as_results st))"

lemma attribute_same: "yields (attribute_node env rid st) (\<lambda>st1. as_plan st1 = as_plan st \<and> as_results st1 = as_results st)"
  by (auto simp: attribute_node_def split: option.split sum.split attr_error.split intro!: yields_rules)

lemma summarize_same: "yields (summarize_node env rid st) (\<lambda>st1. as_plan st1 = as_plan st \<and> as_results st1 = as_results st)"
  by (auto simp: summarize_node_def split: option.split sum.split intro!: yields_rules)

lemma extract_same: "yields (extract_node env rid st) (\<lambda>st1. as_plan st1 = as_plan st \<and> as_results st1 = as_results st
    \<and> as_request st1 = as_request st \<and> (as_failure st1 = None \<longrightarrow> planned st \<or> as_failure st = None))"
  by (auto simp: extract_node_def failing_def split: option.split sum.split intro!: yields_rules)

lemma validate_same: "yields (validate_node env rid st) (\<lambda>st1. as_results st1 = as_results st \<and> (planned st \<longrightarrow> as_plan st1 = as_plan st))"
  by (auto simp: validate_node_def plan_failure_def failing_def split: option.split sum.split plan_error.split intro!: yields_rules)

lemma after_tasks_ok:
  assumes "keeps env D plan st" and "all_done st"
  shows "run_ok (keeps env D plan) (after_tasks env rid st s)"
  unfolding after_tasks_def
proof (rule run_ok_step, intro conjI)
  fix st1 s1
  assume node: "attribute_node env rid st s = (Inr st1, s1)"
  have "state_ok env st" using assms(1) by (simp add: keeps_def)
  from yieldsD [OF attribute_keeps [OF this assms(2)] node] yieldsD [OF attribute_same node]
  show ok: "keeps env D plan st1" using assms(1) by (simp add: keeps_def)
  then have ok1: "state_ok env st1" by (simp add: keeps_def)
  have summary: "keeps env D plan st2 \<and> (as_failure st2 = None \<longrightarrow> as_report st2 \<noteq> None)"
    if "summarize_node env rid st1 s = (Inr st2, s2)" for s st2 s2
    using yieldsD [OF summarize_keeps [OF ok1] that] yieldsD [OF summarize_same that] ok by (simp add: keeps_def)
  show "run_ok (keeps env D plan) ((if as_failure st1 \<noteq> None then finish_graph st1
      else step_then (summarize_node env rid st1) finish_graph) s1)"
    using ok summary by (auto simp: run_ok_finish intro!: run_ok_step)
qed

lemma execute_kept:
  assumes "keeps env D plan st" and "execute_node env rid st s = (Inr st1, s1)"
  shows "keeps env D plan st1" "as_failure st1 = None \<Longrightarrow> list_all task_done (as_results st1)"
  using execute_keeps [OF _ assms(2)] assms(1) by (auto simp: keeps_def)

lemma run_tasks_ok: "keeps env D plan st \<Longrightarrow> run_ok (keeps env D plan) (run_tasks env rid st s)"
proof (induction env rid st s rule: run_tasks.induct)
  case (1 env rid st s)
  show ?case
  proof (cases "execute_node env rid st s")
    case (Pair r s1)
    show ?thesis
    proof (cases r)
      case (Inl e)
      then show ?thesis by (simp add: run_tasks.simps [of env rid st s] Pair run_ok_def)
    next
      case (Inr st1)
      note kept = execute_kept [OF "1.prems" Pair [unfolded Inr]]
      let ?rest = "if as_failure st1 \<noteq> None then finish_graph st1 s1
          else if all_tasks_run st1 then after_tasks env rid st1 s1 else run_tasks env rid st1 s1"
      have "run_ok (keeps env D plan) ?rest"
      proof (cases "as_failure st1 = None \<and> all_tasks_run st1")
        case True
        then have "all_done st1" using kept by (intro prefix_all_run) (auto simp: keeps_def)
        then show ?thesis using True after_tasks_ok [OF kept(1)] by simp
      next
        case False
        then show ?thesis using kept "1.IH" Pair Inr by (auto simp: run_ok_finish)
      qed
      then show ?thesis
        using kept(1) by (cases ?rest) (simp add: run_tasks.simps [of env rid st s] Pair Inr run_ok_def)
    qed
  qed
qed

lemma run_ok_mono: "run_ok P run \<Longrightarrow> (\<And>st. P st \<Longrightarrow> Q st) \<Longrightarrow> run_ok Q run"
  by (auto simp: run_ok_def list_all_iff split: prod.splits)

lemma run_graph_ok:
  assumes ok: "state_ok env st"
  shows "run_ok (state_ok env) (run_graph env rid st s)"
    and "planned st \<Longrightarrow> run_ok (keeps env (set (filter task_done (as_results st))) (as_plan st)) (run_graph env rid st s)"
proof -
  let ?D = "set (filter task_done (as_results st))"
  have "run_ok (\<lambda>st'. state_ok env st' \<and> (planned st \<longrightarrow> keeps env ?D (as_plan st) st')) (run_graph env rid st s)" (is "run_ok ?P _")
    unfolding run_graph_def
  proof (rule run_ok_step, intro conjI)
    fix st1 s1
    assume node: "extract_node env rid st s = (Inr st1, s1)"
    note ok1 = yieldsD [OF extract_keeps [OF ok] node] and same = yieldsD [OF extract_same node]
    show "state_ok env st1" by (fact ok1)
    show "planned st \<longrightarrow> keeps env ?D (as_plan st) st1" using ok1 same by (simp add: keeps_def)
    show "run_ok ?P (step_then (validate_node env rid st1) (\<lambda>st2.
        if as_failure st2 \<noteq> None then finish_graph st2 else run_tasks env rid st2) s1)"
    proof (rule run_ok_step)
      fix st2 s2
      assume node2: "validate_node env rid st1 s1 = (Inr st2, s2)"
      note ok2 = yieldsD [OF validate_keeps [OF ok1] node2] and same2 = yieldsD [OF validate_same node2]
      have plan2: "planned st \<longrightarrow> as_plan st2 = as_plan st" using same same2 by (simp add: planned_def)
      have kept: "keeps env ?D (as_plan st2) st2" using ok2 same same2 by (simp add: keeps_def)
      have "run_ok ?P (run_tasks env rid st2 s2)"
        by (rule run_ok_mono [OF run_tasks_ok [OF kept]]) (use plan2 in \<open>auto simp: keeps_def\<close>)
      then show "?P st2 \<and> run_ok ?P ((if as_failure st2 \<noteq> None then finish_graph st2 else run_tasks env rid st2) s2)"
        using ok2 kept plan2 by (auto simp: run_ok_finish)
    qed
  qed
  from run_ok_mono [OF this] show "run_ok (state_ok env) (run_graph env rid st s)"
    and "planned st \<Longrightarrow> run_ok (keeps env ?D (as_plan st)) (run_graph env rid st s)" by simp_all
qed

text \<open>The number of nodes a run passes.\<close>

lemma pending_or_run:
  assumes "state_ok env st" and "as_plan st = Some plan" and "\<not> all_tasks_run st"
  shows "1 \<le> pending_count st"
proof (rule ccontr)
  assume "\<not> 1 \<le> pending_count st"
  then have "pending_count st = 0" by simp
  then have "find (pending_task (results_of (as_results st))) plan = None"
    using assms(2) by (auto simp: pending_count_def filter_empty_conv find_None_iff)
  then have "map res_id (as_results st) = map at_id plan"
    using assms by (intro run_prefix_complete(3)) (simp_all add: state_ok_def)
  then show False using assms(2,3) by (metis all_tasks_run_def length_map option.simps(5))
qed

lemma step_then_bound:
  assumes "\<And>st s1. node s = (Inr st, s1) \<Longrightarrow> length (fst (snd (next st s1))) \<le> n"
  shows "length (fst (snd (step_then node next s))) \<le> Suc n"
proof (cases "node s")
  case (Pair r s1)
  then show ?thesis
    using assms by (cases r) (simp_all add: step_then_def case_prod_beta)
qed

lemma validate_plan:
  "yields (validate_node env rid st) (\<lambda>st1. as_plan st1 = as_plan st \<or> (\<exists>plan. as_plan st1 = Some plan \<and> length plan = 4))"
proof -
  have "length plan = 4" if "build_comparison_plan u cand cat q = Inr (req, plan)" for u cand cat q req plan
  proof -
    have "length (map at_id plan) = 4" using generated_plan_is_safe [OF that] by (simp only: list.size length_map)
    then show ?thesis by simp
  qed
  then show ?thesis
    by (auto simp: validate_node_def plan_failure_def split: option.split sum.split plan_error.split intro!: yields_rules)
qed

lemma after_tasks_length: "length (fst (snd (after_tasks env rid st s))) \<le> 2"
proof -
  have "length (fst (snd (step_then (summarize_node env rid st1) finish_graph s1))) \<le> Suc 0" for st1 s1
    by (rule step_then_bound) (simp add: finish_graph_def)
  then show ?thesis
    unfolding after_tasks_def numeral_2_eq_2 by (intro step_then_bound) (simp add: finish_graph_def)
qed

lemma run_tasks_length:
  "state_ok env st \<Longrightarrow> as_plan st = Some plan \<Longrightarrow>
     length (fst (snd (run_tasks env rid st s))) \<le> max 1 (pending_count st) + 2"
proof (induction env rid st s rule: run_tasks.induct)
  case (1 env rid st s)
  show ?case
  proof (cases "execute_node env rid st s")
    case (Pair r s1)
    show ?thesis
    proof (cases r)
      case (Inl e)
      then show ?thesis by (simp add: run_tasks.simps [of env rid st s] Pair)
    next
      case (Inr st1)
      note kept = execute_keeps [OF "1.prems"(1) Pair [unfolded Inr]]
      let ?rest = "if as_failure st1 \<noteq> None then finish_graph st1 s1
          else if all_tasks_run st1 then after_tasks env rid st1 s1 else run_tasks env rid st1 s1"
      have "length (fst (snd ?rest)) \<le> max 1 (pending_count st) + 1"
      proof (cases "as_failure st1 = None \<and> \<not> all_tasks_run st1")
        case True
        have "1 \<le> pending_count st1" using kept "1.prems" True by (intro pending_or_run) auto
        moreover have "pending_count st1 < pending_count st"
          using execute_node_progress [OF Pair [unfolded Inr]] True by simp
        moreover have "length (fst (snd (run_tasks env rid st1 s1))) \<le> max 1 (pending_count st1) + 2"
          using "1.IH" Pair Inr True kept "1.prems" by auto
        ultimately show ?thesis using True by simp
      next
        case False
        then show ?thesis
          using after_tasks_length [of env rid st1 s1] by (auto simp: finish_graph_def)
      qed
      then show ?thesis by (cases ?rest) (simp add: run_tasks.simps [of env rid st s] Pair Inr)
    qed
  qed
qed

section \<open>Steps of the application\<close>

definition kept_from_run :: "'r call_env \<Rightarrow> bool" where
  "kept_from_run cenv \<longleftrightarrow> (\<forall>states st. ac_kept cenv states = Some st \<longrightarrow> st \<in> set states)"

definition saved_ok :: "('s, 'q, 'r) analysis_env \<Rightarrow> ('s, 'r) app_state \<Rightarrow> bool" where
  "saved_ok env ap \<longleftrightarrow> (\<forall>run st. ap_saved ap run = Some st \<longrightarrow> state_ok env st)"

text \<open>A triple: from states that are kept well, a step leaves states kept well and a result with \<open>Q\<close>.\<close>

definition triple :: "('w \<Rightarrow> bool) \<Rightarrow> ('w \<Rightarrow> ('e + 'a) \<times> 'w) \<Rightarrow> ('a \<Rightarrow> bool) \<Rightarrow> bool" where
  "triple I m Q \<longleftrightarrow> (\<forall>w. I w \<longrightarrow> (case m w of (r, w1) \<Rightarrow> I w1 \<and> (\<forall>x. r = Inr x \<longrightarrow> Q x)))"

lemma triple_okA [simp]: "triple I (okA x) Q \<longleftrightarrow> (\<forall>w. I w \<longrightarrow> Q x)"
  by (simp add: triple_def okA_def)

lemma tripleI:
  "(\<And>w r w1. I w \<Longrightarrow> m w = (r, w1) \<Longrightarrow> I w1 \<and> (\<forall>x. r = Inr x \<longrightarrow> Q x)) \<Longrightarrow> triple I m Q"
  by (auto simp: triple_def split: prod.split)

lemma tripleD: "triple I m Q \<Longrightarrow> I w \<Longrightarrow> m w = (r, w1) \<Longrightarrow> I w1 \<and> (\<forall>x. r = Inr x \<longrightarrow> Q x)"
  by (auto simp: triple_def)

lemma triple_failA [simp]: "triple I (failA e) Q"
  by (simp add: triple_def failA_def)

lemma triple_then:
  assumes "triple I m R" and "\<And>x. R x \<Longrightarrow> triple I (f x) Q"
  shows "triple I (thenA m f) Q"
proof (rule tripleI)
  fix w r w2
  assume w: "I w" and run: "thenA m f w = (r, w2)"
  obtain r1 w1 where m: "m w = (r1, w1)" by (cases "m w")
  show "I w2 \<and> (\<forall>x. r = Inr x \<longrightarrow> Q x)"
  proof (cases r1)
    case (Inl e)
    then show ?thesis using run m tripleD [OF assms(1) w m] by (auto simp: thenA_def)
  next
    case (Inr x)
    then have "f x w1 = (r, w2)" "I w1" "R x" using run m tripleD [OF assms(1) w m] by (simp_all add: thenA_def)
    then show ?thesis using tripleD [OF assms(2)] by blast
  qed
qed

lemma triple_with: "(\<And>w x w1. I w \<Longrightarrow> m w = (x, w1) \<Longrightarrow> I w1) \<Longrightarrow> (\<And>x. triple I (f x) Q) \<Longrightarrow> triple I (withA m f) Q"
  by (rule tripleI) (simp add: withA_def split: prod.splits, metis tripleD)

lemma triple_outside: "triple (saved_ok env) (outsideA m) (\<lambda>_. True)"
  by (auto simp: triple_def outsideA_def saved_ok_def split: prod.splits)

lemma triple_after_outside: "(\<And>x. triple (saved_ok env) (f x) Q) \<Longrightarrow> triple (saved_ok env) (thenA (outsideA m) f) Q"
  by (rule triple_then [OF triple_outside])

lemma run_tx_saved: "run_tx l f ap = (r, ap1) \<Longrightarrow> ap_saved ap1 = ap_saved ap"
  by (auto simp: run_tx_def split: link.splits sum.splits prod.splits)

lemma saved_ok_cong: "ap_saved ap1 = ap_saved ap \<Longrightarrow> saved_ok env ap1 = saved_ok env ap"
  by (simp add: saved_ok_def)

definition full_answer :: "('s, 'q, 'r) analysis_env \<Rightarrow> 'r analysis_result \<Rightarrow> bool" where
  "full_answer env answer \<longleftrightarrow>
     (case answer of AnalysisFailed f \<Rightarrow> True | Analysis su \<Rightarrow>
        \<exists>req plan. su_plan su = Some plan \<and> map res_id (su_results su) = map at_id plan
          \<and> list_all task_done (su_results su)
          \<and> product_attribution (ga_unicode env) (ga_digit env) req (su_results su) = Inr (su_attribution su))"

lemma triple_tx:
  "(\<And>x. triple (saved_ok env) (f x) Q) \<Longrightarrow> triple (saved_ok env) (withA (run_tx l g) f) Q"
  by (rule triple_with) (auto dest: run_tx_saved saved_ok_cong)

lemma open_run_triple: "triple (saved_ok env) (open_run env cenv c run) (\<lambda>_. True)"
  by (auto simp: open_run_def claim_run_def cleanup_runs_def unavailable_def split: sum.split option.split run_conflict.split intro!: triple_after_outside triple_tx)

lemma saved_state_ok: "saved_ok env ap \<Longrightarrow> state_ok env (case saved_state run ap of None \<Rightarrow> blank_state | Some st \<Rightarrow> st)"
  by (auto simp: saved_ok_def saved_state_def split: option.splits)

lemma completed_full:
  assumes "saved_ok env ap" shows "full_answer env (completed_result cenv c run ap)"
  using saved_state_ok [OF assms, of run]
  by (auto simp: completed_result_def full_answer_def Let_def state_ok_def attributed_def
      split: option.splits if_splits)

definition answerable :: "('s, 'q, 'r) analysis_env \<Rightarrow> 'r analysis_state \<Rightarrow> bool" where
  "answerable env st \<longleftrightarrow> state_ok env st \<and> (as_failure st = None \<longrightarrow> as_report st \<noteq> None)"

lemma keep_state_ok:
  assumes "kept_from_run cenv" and "list_all (state_ok env) states" and "saved_ok env ap"
  shows "saved_ok env (keep_state cenv run states ap)"
  using assms by (auto simp: keep_state_def saved_ok_def kept_from_run_def list_all_iff split: option.splits)

lemma invoke_triple:
  assumes "kept_from_run cenv"
  shows "triple (saved_ok env) (invoke_graph env cenv c run) (\<lambda>out. \<forall>st. out = Some st \<longrightarrow> answerable env st)"
proof (rule tripleI)
  fix ap r ap'
  assume ok: "saved_ok env ap" and run': "invoke_graph env cenv c run ap = (r, ap')"
  let ?start = "case if ac_stored cenv then saved_state run ap else None of None \<Rightarrow> blank_state | Some st \<Rightarrow> st"
  obtain g states s1 where graph: "run_graph env (an_request c) (?start\<lparr>as_question := an_question c\<rparr>) (ap_outside ap) = (g, states, s1)"
    by (cases "run_graph env (an_request c) (?start\<lparr>as_question := an_question c\<rparr>) (ap_outside ap)")
  have "state_ok env (?start\<lparr>as_question := an_question c\<rparr>)" using saved_state_ok [OF ok, of run] by simp
  from run_graph_ok(1) [OF this, of "an_request c" "ap_outside ap"]
  have states: "list_all (state_ok env) states" and last: "\<And>st. g = Inr st \<Longrightarrow> answerable env st"
    by (auto simp: graph run_ok_def answerable_def)
  let ?ap1 = "keep_state cenv run states (ap\<lparr>ap_outside := s1\<rparr>)"
  have ap1: "saved_ok env ?ap1"
    by (rule keep_state_ok [OF assms states]) (use ok in \<open>simp add: saved_ok_def\<close>)
  show "saved_ok env ap' \<and> (\<forall>out. r = Inr out \<longrightarrow> (\<forall>st. out = Some st \<longrightarrow> answerable env st))"
  proof (cases "ac_stored cenv \<and> \<not> ac_readable cenv")
    case True
    then show ?thesis using run' ok by (auto simp: invoke_graph_def)
  next
    case False
    then have eq: "invoke_graph env cenv c run ap =
        (case g of Inl (NodeStopped x) \<Rightarrow> (Inl (NodeStopped x), ?ap1) | Inl NodeRaises \<Rightarrow> (Inr None, ?ap1)
         | Inr st \<Rightarrow> thenA (outsideA (pauseA env)) (\<lambda>_. okA (Some st)) ?ap1)"
      by (simp only: invoke_graph_def graph Let_def if_False split_conv)
    show ?thesis
    proof (cases g)
      case (Inl e)
      then show ?thesis using run' ap1 by (cases e) (auto simp: eq)
    next
      case (Inr st)
      have "triple (saved_ok env) (thenA (outsideA (pauseA env)) (\<lambda>_. okA (Some st))) (\<lambda>out. out = Some st)"
        by (rule triple_after_outside) simp
      from tripleD [OF this ap1] show ?thesis using run' last [OF Inr] by (auto simp: eq Inr)
    qed
  qed
qed

lemma close_triple:
  assumes "answerable env st"
  shows "triple (saved_ok env) (close_run env cenv c run st) (full_answer env)"
proof -
  have "full_answer env (Analysis su)"
    if "as_plan st = Some plan" "as_attribution st = Some a" "su_plan su = Some plan" "su_results su = as_results st"
      "su_attribution su = a" for plan a su
    using assms that by (auto simp: full_answer_def answerable_def state_ok_def attributed_def)
  moreover have "full_answer env (AnalysisFailed f)" for f by (simp add: full_answer_def)
  ultimately show ?thesis
    unfolding close_run_def complete_run_def Let_def
    by (auto split: option.split sum.split intro!: triple_after_outside triple_tx)
qed

lemma claimed_triple:
  assumes "kept_from_run cenv"
  shows "triple (saved_ok env) (analyze_claimed env cenv c run) (full_answer env)"
  unfolding analyze_claimed_def
  by (rule triple_then [OF invoke_triple [OF assms]])
    (auto simp: full_answer_def split: option.split intro!: close_triple)

lemma completed_triple: "triple (saved_ok env) (\<lambda>ap. (Inr (completed_result cenv c run ap), ap)) (full_answer env)"
  by (rule tripleI) (auto simp: completed_full)

lemma analyze_triple:
  assumes "kept_from_run cenv"
  shows "triple (saved_ok env) (analyze env cenv c) (full_answer env)"
  unfolding analyze_def
  by (auto simp: claimed_triple [OF assms] completed_triple full_answer_def
      split: option.split sum.split claim_status.split run_status.split
      intro!: triple_after_outside triple_then [OF open_run_triple])

section \<open>A failure before the plan\<close>

definition stuck :: "'r analysis_state \<Rightarrow> bool" where
  "stuck st \<longleftrightarrow> as_failure st \<noteq> None \<and> \<not> planned st"

lemma stuck_question [simp]: "stuck (st\<lparr>as_question := q\<rparr>) = stuck st"
  by (simp add: stuck_def planned_def)

lemma stuck_extract: "stuck st \<Longrightarrow> yields (extract_node env rid st) stuck"
  by (auto simp: extract_node_def stuck_def failing_def planned_def split: option.split sum.split intro!: yields_rules)

lemma stuck_graph:
  assumes "stuck st" and "run_graph env rid st s = (r, states, s')"
  shows "list_all stuck states \<and> (\<forall>st'. r = Inr st' \<longrightarrow> stuck st')"
proof (cases "extract_node env rid st s")
  case (Pair r1 s1)
  show ?thesis
  proof (cases r1)
    case (Inl e)
    then show ?thesis using assms(2) Pair by (auto simp: run_graph_def step_then_def)
  next
    case (Inr st1)
    then have st1: "stuck st1" using yieldsD [OF stuck_extract [OF assms(1)] Pair [unfolded Inr]] by blast
    then have "validate_node env rid st1 = okA st1" by (auto simp: validate_node_def stuck_def)
    then show ?thesis
      using assms(2) Pair Inr st1 by (auto simp: run_graph_def step_then_def okA_def finish_graph_def stuck_def)
  qed
qed

text \<open>A run whose kept state is such a failure, and one whose kept states the cleanup leaves.\<close>

definition stuck_run :: "uid \<Rightarrow> ('s, 'r) app_state \<Rightarrow> bool" where
  "stuck_run run ap \<longleftrightarrow> (\<exists>st. saved_state run ap = Some st \<and> stuck st)"

definition unexpired :: "time \<Rightarrow> uid \<Rightarrow> ('s, 'r) app_state \<Rightarrow> bool" where
  "unexpired now run ap \<longleftrightarrow> (\<forall>row. (run, row) \<in> set (rs_runs (ap_runs ap)) \<longrightarrow> now < run_expires_at row)"

lemma stuck_run_iff:
  "stuck_run run ap \<longleftrightarrow> run \<in> set (rs_checkpoints (ap_runs ap)) \<and> (\<exists>st. ap_saved ap run = Some st \<and> stuck st)"
  by (auto simp: stuck_run_def saved_state_def)

lemma outside_same: "outsideA m ap = (r, ap1) \<Longrightarrow> ap_runs ap1 = ap_runs ap \<and> ap_saved ap1 = ap_saved ap"
  by (auto simp: outsideA_def split: prod.splits)

lemma stuck_run_cong:
  "ap_saved ap1 = ap_saved ap \<Longrightarrow> rs_checkpoints (ap_runs ap1) = rs_checkpoints (ap_runs ap) \<Longrightarrow> stuck_run run ap1 = stuck_run run ap"
  by (simp add: stuck_run_def saved_state_def)

lemma claim_checkpoints:
  "claim qsha dbnow moment run owner question rs = Inr (x, rs1) \<Longrightarrow> rs_checkpoints rs1 = rs_checkpoints rs"
  by (auto simp: claim_def insert_run_def Let_def split: option.splits if_splits)

lemma complete_checkpoints: "mark_completed now run rs = Inr rs1 \<Longrightarrow> rs_checkpoints rs1 = rs_checkpoints rs"
  by (auto simp: mark_completed_def split: if_splits)

lemma cleanup_checkpoints:
  assumes "\<forall>row. (run, row) \<in> set (rs_runs rs) \<longrightarrow> now < run_expires_at row" and "cleanup_expired now rs = (n, rs1)"
  shows "run \<in> set (rs_checkpoints rs1) \<longleftrightarrow> run \<in> set (rs_checkpoints rs)"
  using assms by (fastforce simp: cleanup_expired_def Let_def overdue_def)

lemma run_tx_checkpoints:
  assumes "\<And>x rs1. f (ap_runs ap) = Inr (x, rs1) \<Longrightarrow> run \<in> set (rs_checkpoints rs1) \<longleftrightarrow> run \<in> set (rs_checkpoints (ap_runs ap))"
    and "run_tx l f ap = (r, ap1)"
  shows "stuck_run run ap1 = stuck_run run ap"
  using assms by (auto simp: run_tx_def stuck_run_def saved_state_def split: link.splits sum.splits prod.splits)

lemma outside_keeps_stuck: "stuck_run run ap \<Longrightarrow> outsideA m ap = (r, ap1) \<Longrightarrow> stuck_run run ap1"
  by (drule outside_same) (simp add: stuck_run_iff)

lemma stuck_outside: "(\<And>x. triple (stuck_run run) (f x) Q) \<Longrightarrow> triple (stuck_run run) (thenA (outsideA m) f) Q"
  by (rule triple_then [where R = "\<lambda>_. True"]) (auto intro!: tripleI dest: outside_keeps_stuck)

lemma stuck_tx:
  assumes "\<And>rs x rs1. g rs = Inr (x, rs1) \<Longrightarrow> rs_checkpoints rs1 = rs_checkpoints rs"
    and "\<And>x. triple (stuck_run run) (f x) Q"
  shows "triple (stuck_run run) (withA (run_tx l g) f) Q"
proof (rule triple_with [OF _ assms(2)])
  fix ap x ap1
  assume "stuck_run run ap" and tx: "run_tx l g ap = (x, ap1)"
  then show "stuck_run run ap1"
    using run_tx_checkpoints [of g ap run, OF _ tx] assms(1) by metis
qed

lemma stuck_open:
  assumes st: "stuck_run run ap" and live: "unexpired (ac_now cenv ''cleanup'') run ap"
    and opened: "open_run env cenv c run ap = (r, ap')"
  shows "stuck_run run ap'"
proof -
  obtain r1 ap1 where out: "outsideA (pauseA env) ap = (r1, ap1)" by (cases "outsideA (pauseA env) ap")
  then have st1: "stuck_run run ap1" and live1: "unexpired (ac_now cenv ''cleanup'') run ap1"
    using outside_same [OF out] outside_keeps_stuck [OF st out] live by (simp_all add: unexpired_def)
  obtain x ap2 where clean: "cleanup_runs cenv ap1 = (x, ap2)" by (cases "cleanup_runs cenv ap1")
  have "run \<in> set (rs_checkpoints rs1) \<longleftrightarrow> run \<in> set (rs_checkpoints (ap_runs ap1))"
    if "(case cleanup_expired (ac_now cenv ''cleanup'') (ap_runs ap1) of (n, rs1) \<Rightarrow> Inr (u, rs1)) = Inr (v, rs1)" for u v rs1
    using that cleanup_checkpoints [OF live1 [unfolded unexpired_def]] by (auto split: prod.splits)
  from run_tx_checkpoints [OF this clean [unfolded cleanup_runs_def]] have "stuck_run run ap2" using st1 by simp
  moreover have "triple (stuck_run run) (case x of Inl _ \<Rightarrow> unavailable c | Inr _ \<Rightarrow> claim_run env cenv c run) (\<lambda>_. True)"
    by (auto simp: claim_run_def unavailable_def split: sum.split option.split run_conflict.split
        intro!: stuck_tx stuck_outside dest: claim_checkpoints)
  ultimately show ?thesis
    using opened st1 tripleD by (cases r1) (fastforce simp: open_run_def thenA_def withA_def out clean)+
qed

lemma stuck_invoke:
  assumes "kept_from_run cenv" and "ac_stored cenv"
  shows "triple (stuck_run run) (invoke_graph env cenv c run) (\<lambda>out. \<forall>st. out = Some st \<longrightarrow> stuck st)"
proof (rule tripleI)
  fix ap r ap'
  assume stuck: "stuck_run run ap" and run': "invoke_graph env cenv c run ap = (r, ap')"
  obtain start where start: "saved_state run ap = Some start" "stuck start" using stuck by (auto simp: stuck_run_def)
  obtain g states s1 where graph: "run_graph env (an_request c) (start\<lparr>as_question := an_question c\<rparr>) (ap_outside ap) = (g, states, s1)"
    by (cases "run_graph env (an_request c) (start\<lparr>as_question := an_question c\<rparr>) (ap_outside ap)")
  have states: "list_all stuck states" and last: "\<And>st. g = Inr st \<Longrightarrow> stuck st"
    using stuck_graph [OF _ graph] start(2) by simp_all
  let ?ap1 = "keep_state cenv run states (ap\<lparr>ap_outside := s1\<rparr>)"
  have ap1: "stuck_run run ?ap1"
    using assms states stuck
    by (auto simp: keep_state_def stuck_run_iff kept_from_run_def list_all_iff split: option.splits)
  show "stuck_run run ap' \<and> (\<forall>out. r = Inr out \<longrightarrow> (\<forall>st. out = Some st \<longrightarrow> stuck st))"
  proof (cases "ac_readable cenv")
    case False
    then show ?thesis using run' stuck assms(2) by (auto simp: invoke_graph_def)
  next
    case True
    then have eq: "invoke_graph env cenv c run ap =
        (case g of Inl (NodeStopped x) \<Rightarrow> (Inl (NodeStopped x), ?ap1) | Inl NodeRaises \<Rightarrow> (Inr None, ?ap1)
         | Inr st \<Rightarrow> thenA (outsideA (pauseA env)) (\<lambda>_. okA (Some st)) ?ap1)"
      using assms(2) by (simp add: invoke_graph_def start(1) graph Let_def)
    show ?thesis
    proof (cases g)
      case (Inl e)
      then show ?thesis using run' ap1 by (cases e) (auto simp: eq)
    next
      case (Inr st)
      have "triple (stuck_run run) (thenA (outsideA (pauseA env)) (\<lambda>_. okA (Some st))) (\<lambda>out. out = Some st)"
        by (rule stuck_outside) simp
      from tripleD [OF this ap1] show ?thesis using run' last [OF Inr] by (auto simp: eq Inr)
    qed
  qed
qed

definition refused :: "'r analysis_result \<Rightarrow> bool" where
  "refused answer \<longleftrightarrow> (\<forall>su. answer \<noteq> Analysis su)"

lemma refused_simps [simp]: "refused (AnalysisFailed f)" "\<not> refused (Analysis su)"
  by (simp_all add: refused_def)

lemma stuck_complete: "(\<And>x. triple (stuck_run run) (f x) Q) \<Longrightarrow> triple (stuck_run run) (withA (complete_run cenv run') f) Q"
  unfolding complete_run_def
  by (rule stuck_tx) (auto simp: map_sum_def split: sum.splits dest: complete_checkpoints)

lemma stuck_close: "stuck st \<Longrightarrow> triple (stuck_run run) (close_run env cenv c run' st) refused"
  by (auto simp: close_run_def stuck_def split: option.split sum.split intro!: stuck_outside stuck_complete)

lemma stuck_claimed:
  assumes "kept_from_run cenv" and "ac_stored cenv"
  shows "triple (stuck_run run) (analyze_claimed env cenv c run) refused"
  unfolding analyze_claimed_def
  by (rule triple_then [OF stuck_invoke [OF assms]]) (auto split: option.split intro!: stuck_close)

lemma stuck_completed: "triple (stuck_run run) (\<lambda>ap. (Inr (completed_result cenv c run ap), ap)) refused"
  by (rule tripleI) (auto simp: completed_result_def stuck_run_def stuck_def)

section \<open>Completing the run\<close>

definition completed_runs :: "('s, 'r) app_state \<Rightarrow> uid set" where
  "completed_runs ap = {k. \<exists>row. (k, row) \<in> set (rs_runs (ap_runs ap)) \<and> run_status_of row = RunCompleted}"

text \<open>A step completes no run at all, or none when it is stopped.\<close>

definition completes_none :: "(('s, 'r) app_state \<Rightarrow> 'x \<times> ('s, 'r) app_state) \<Rightarrow> bool" where
  "completes_none m \<longleftrightarrow> (\<forall>ap r ap1. m ap = (r, ap1) \<longrightarrow> completed_runs ap1 \<subseteq> completed_runs ap)"

definition stops_open :: "('s, 'r, 'a) aact \<Rightarrow> bool" where
  "stops_open m \<longleftrightarrow> (\<forall>ap x ap1. m ap = (Inl (NodeStopped x), ap1) \<longrightarrow> completed_runs ap1 \<subseteq> completed_runs ap)"

lemma completesD: "completes_none m \<Longrightarrow> m ap = (r, ap1) \<Longrightarrow> completed_runs ap1 \<subseteq> completed_runs ap"
  by (auto simp: completes_none_def)

lemma stops_okA [simp]: "stops_open (okA x)" "stops_open (failA e)" "completes_none (okA x)" "completes_none (failA e)"
  by (auto simp: stops_open_def completes_none_def okA_def failA_def)

lemma stops_then: "completes_none m \<Longrightarrow> (\<And>x. stops_open (f x)) \<Longrightarrow> stops_open (thenA m f)"
  by (fastforce simp: stops_open_def completes_none_def thenA_def split: prod.splits sum.splits)

lemma none_then: "completes_none m \<Longrightarrow> (\<And>x. completes_none (f x)) \<Longrightarrow> completes_none (thenA m f)"
  by (fastforce simp: completes_none_def thenA_def split: prod.splits sum.splits)

lemma none_with: "completes_none m \<Longrightarrow> (\<And>x. completes_none (f x)) \<Longrightarrow> completes_none (withA m f)"
  by (fastforce simp: completes_none_def withA_def split: prod.splits)

lemma answers_with: "(\<And>x w. \<forall>y w1. f x w \<noteq> (Inl (NodeStopped y), w1)) \<Longrightarrow> stops_open (withA m f)"
  by (auto simp: stops_open_def withA_def split: prod.splits)

lemma none_outside: "completes_none (outsideA m)"
  by (auto simp: completes_none_def completed_runs_def dest!: outside_same)

lemma none_tx:
  assumes "\<And>rs x rs1. g rs = Inr (x, rs1) \<Longrightarrow>
    (\<forall>k row. (k, row) \<in> set (rs_runs rs1) \<longrightarrow> run_status_of row = RunCompleted \<longrightarrow> (k, row) \<in> set (rs_runs rs))"
  shows "completes_none (run_tx l g)"
  using assms
  by (fastforce simp: completes_none_def run_tx_def completed_runs_def split: link.splits sum.splits prod.splits)

lemma cleanup_none: "completes_none (cleanup_runs cenv)"
  unfolding cleanup_runs_def
  by (rule none_tx) (auto simp: cleanup_expired_def Let_def upd_where_def split: if_splits)

lemma insert_row_set: "insert_row c k r t = Some t1 \<Longrightarrow> set t1 = insert (k, r) (set t)"
  by (auto simp: insert_row_def split: if_splits)

lemma claim_none: "completes_none (run_tx l (claim qsha dbnow moment run owner question))"
  by (rule none_tx)
    (auto simp: claim_def insert_run_def new_run_def Let_def split: option.splits if_splits dest!: insert_row_set)

lemma open_none: "completes_none (open_run env cenv c run)"
  unfolding open_run_def claim_run_def unavailable_def
  by (auto split: sum.split option.split run_conflict.split intro!: none_then none_with none_outside cleanup_none claim_none)

lemma invoke_none: "completes_none (invoke_graph env cenv c run)"
proof -
  have kept: "completed_runs (keep_state cenv run states ap) = completed_runs ap" for states ap
    by (auto simp: keep_state_def completed_runs_def split: option.split)
  have outside: "completed_runs (ap\<lparr>ap_outside := s\<rparr>) = completed_runs ap" for ap :: "('a, 'b) app_state" and s
    by (simp add: completed_runs_def)
  have pause: "completed_runs ap1 \<subseteq> completed_runs ap"
    if "thenA (outsideA (pauseA env)) (\<lambda>_. okA (Some st)) ap = (r, ap1)" for st ap r ap1
    by (rule completesD [where m = "thenA (outsideA (pauseA env)) (\<lambda>_. okA (Some st))"])
      (intro none_then none_outside stops_okA, rule that)
  show ?thesis
    unfolding completes_none_def
  proof (intro allI impI)
    fix ap r ap1
    assume "invoke_graph env cenv c run ap = (r, ap1)"
    then show "completed_runs ap1 \<subseteq> completed_runs ap"
      by (auto simp: invoke_graph_def Let_def kept outside split: if_splits prod.splits sum.splits node_exc.splits
          dest!: pause)
  qed
qed

lemma close_stops: "stops_open (close_run env cenv c run st)"
  unfolding close_run_def Let_def
  by (auto simp: okA_def failA_def split: option.split sum.splits intro!: stops_then none_outside answers_with)

lemma claimed_stops: "stops_open (analyze_claimed env cenv c run)"
  unfolding analyze_claimed_def by (auto split: option.split intro!: stops_then invoke_none close_stops)

lemma completed_stops: "stops_open (\<lambda>ap. (Inr (completed_result cenv c run ap), ap))"
  by (simp add: stops_open_def)

lemma analyze_stops: "stops_open (analyze env cenv c)"
  unfolding analyze_def
  by (auto split: option.split sum.split claim_status.split run_status.split
      intro!: stops_then none_outside open_none claimed_stops completed_stops)

end
