(* ===== verification/Analysis_Properties.thy ===== *)
theory Analysis_Properties
  imports Analysis_Steps Attribution_Properties
begin

text \<open>
  The properties of an analysis: a report is answered only for a complete plan, finished tasks are never
  run again, a run of the graph ends after few steps, a failure to understand the question is final, and a
  stopped analysis stays open.
\<close>

section \<open>A run to apply them to\<close>

definition demo_graph :: "(unit, unit, nat) analysis_env" where
  "demo_graph =
     \<lparr>ga_unicode = demo_folding, ga_digit = \<lambda>_. None, ga_loads = \<lambda>_. None,
      ga_tasks = \<lparr>w_checkpoint = \<lambda>s. (None, s), w_validate = \<lambda>_ _. NotValidated, w_query = \<lambda>_ s. (QueryRaises, s)\<rparr>,
      ga_bind = \<lambda>s. (True, s), ga_stage = \<lambda>_. okA (), ga_progress = \<lambda>_ _. okA (), ga_context = failA NodeRaises,
      ga_model = \<lambda>_. okA None, ga_prompt = \<lambda>_ _. None, ga_streams = False, ga_controlled = False,
      ga_summary = \<lambda>_ _ _ s. (Report 7, s)\<rparr>"

definition demo_tasks :: "analysis_task list" where
  "demo_tasks = comparison_plan net_sales (ar_current Attribution_Properties.demo_request)
     (ar_comparison Attribution_Properties.demo_request)"

text \<open>The state after the four tasks, stopped before the attribution.\<close>

definition demo_saved :: "nat analysis_state" where
  "demo_saved = blank_state\<lparr>as_request := Some Attribution_Properties.demo_request, as_plan := Some demo_tasks,
     as_results := demo_results\<rparr>"

text \<open>The state after a failure of the model.\<close>

definition demo_failed :: "nat analysis_state" where
  "demo_failed = blank_state\<lparr>as_failure := Some (failure_of [1] ''LLM_ERROR'' ''PROVIDER_CALL_FAILED'')\<rparr>"

definition demo_call_env :: "nat call_env" where
  "demo_call_env =
     \<lparr>ac_stored = True, ac_uuid = Some, ac_fresh = [9], ac_sha = id, ac_now = \<lambda>_. 0, ac_dbnow = \<lambda>_. 0,
      ac_link = \<lambda>_. Acknowledged, ac_readable = True, ac_kept = \<lambda>states. if states = [] then None else Some (last states)\<rparr>"

definition demo_analysis :: analysis_call where
  "demo_analysis = \<lparr>an_question = [63], an_request = [2], an_owner = [3], an_run = None\<rparr>"

definition demo_store :: "nat analysis_state \<Rightarrow> (unit, nat) app_state" where
  "demo_store st = \<lparr>ap_runs = \<lparr>rs_runs = [], rs_checkpoints = [[9]], rs_blobs = [], rs_writes = []\<rparr>,
     ap_saved = \<lambda>_. Some st, ap_outside = ()\<rparr>"

lemma demo_ids: "map res_id demo_results = map at_id demo_tasks"
  by (simp add: demo_results_def demo_result_def demo_tasks_def comparison_plan_def comparison_task_def)

lemma demo_tasks_done: "list_all task_done demo_results"
  by (simp add: demo_results_def demo_result_def task_done_def)

lemma demo_saved_ok: "state_ok demo_graph demo_saved"
proof -
  have "distinct (map at_id demo_tasks)"
    by (simp add: demo_tasks_def comparison_plan_def comparison_task_def lit_def)
  moreover have "length demo_results = length demo_tasks" using demo_ids by (metis length_map)
  moreover have "list_all task_done (butlast demo_results)"
    using demo_tasks_done by (auto simp: list_all_iff dest: in_set_butlastD)
  ultimately have "run_prefix demo_tasks demo_results" by (simp add: run_prefix_def demo_ids)
  then show ?thesis by (simp add: state_ok_def demo_saved_def blank_state_def)
qed

lemma demo_kept: "kept_from_run demo_call_env"
  by (auto simp: kept_from_run_def demo_call_env_def split: if_splits)

lemma demo_store_ok: "state_ok demo_graph st \<Longrightarrow> saved_ok demo_graph (demo_store st)"
  by (simp add: saved_ok_def demo_store_def)

lemma demo_pause [simp]: "pauseA demo_graph = okA ()"
  by (simp add: pauseA_def demo_graph_def okA_def fun_eq_iff)

lemma demo_graph_simps [simp]:
  "ga_bind demo_graph s = (True, s)" "ga_stage demo_graph x = okA ()" "ga_progress demo_graph m n = okA ()"
  "ga_unicode demo_graph = demo_folding" "ga_digit demo_graph = (\<lambda>_. None)" "\<not> ga_streams demo_graph"
  "ga_summary demo_graph q rs a s = (Report 7, s)"
  by (simp_all add: demo_graph_def)

lemma demo_next: "find (pending_task (results_of demo_results)) demo_tasks = None"
  by (simp add: demo_tasks_def comparison_plan_def comparison_task_def pending_task_def demo_results_of)
    (simp add: demo_result_def task_done_def)

lemma demo_graph_run:
  "\<exists>st states. run_graph demo_graph [2] (demo_saved\<lparr>as_question := [63]\<rparr>) () = (Inr st, states, ())
     \<and> states \<noteq> [] \<and> last states = st \<and> as_failure st = None \<and> as_plan st = Some demo_tasks \<and> as_report st = Some 7
     \<and> as_attribution st \<noteq> None \<and> as_results st = demo_results \<and> length states = 5"
proof -
  have all: "map (\<lambda>t. the (results_of demo_results (at_id t))) demo_tasks = demo_results"
    using run_prefix_complete(1) [OF _ demo_next] demo_saved_ok by (simp add: state_ok_def demo_saved_def)
  have len: "length demo_results = length demo_tasks" using demo_ids by (metis length_map)
  show ?thesis
    by (simp add: run_graph_def step_then_def extract_node_def validate_node_def planned_def demo_saved_def blank_state_def
        okA_def run_tasks.simps execute_node_def run_next_task_def thenA_def demo_next all all_tasks_run_def len
        after_tasks_def attribute_node_def rescueA_def demo_attribution summarize_node_def summarize_call_def
        finish_graph_def)
qed

lemma demo_analyze:
  "\<exists>su ap'. analyze demo_graph demo_call_env demo_analysis (demo_store demo_saved) = (Inr (Analysis su), ap')
     \<and> su_results su = demo_results \<and> su_plan su = Some demo_tasks \<and> su_report su = 7"
proof -
  obtain st states where run: "run_graph demo_graph [2] (demo_saved\<lparr>as_question := [63]\<rparr>) () = (Inr st, states, ())"
    "states \<noteq> []" "last states = st" "as_failure st = None" "as_plan st = Some demo_tasks" "as_report st = Some 7"
    "as_attribution st \<noteq> None" "as_results st = demo_results"
    using demo_graph_run by blast
  then obtain a where a: "as_attribution st = Some a" by auto
  have claimed: "claim id 0 0 [9] [3] [63] \<lparr>rs_runs = [], rs_checkpoints = [[9]], rs_blobs = [], rs_writes = []\<rparr>
      = Inr (RunNew, \<lparr>rs_runs = [([9], new_run [3] (strip [63]) 0 0)], rs_checkpoints = [[9]], rs_blobs = [], rs_writes = []\<rparr>)"
    by (simp add: claim_def insert_run_def insert_row_def new_run_def run_ttl_def)
  show ?thesis
    by (simp add: analyze_def thenA_def outsideA_def okA_def demo_store_def demo_call_env_def demo_analysis_def run_uuid_def
        open_run_def withA_def cleanup_runs_def claim_run_def run_tx_def cleanup_expired_def upd_where_def claimed
        analyze_claimed_def invoke_graph_def saved_state_def run(1) keep_state_def run(2-8) a close_run_def complete_run_def
        mark_completed_def count_where_def completable_def new_run_def Let_def)
qed

section \<open>Properties\<close>

text \<open>C13: An analysis that answers with a report answers for the whole plan. Whatever states earlier calls of the
  run have left behind (failed tasks, a stop between two nodes, a lost reply of the database), a success
  carries one result for every task of the plan, in its order, each completed and none cut off, and the
  attribution computed from exactly these results; and the states the call keeps are again such that
  this holds of the next call.\<close>

theorem analysis_success_is_complete:
  assumes "saved_ok env ap" and "kept_from_run cenv" and "analyze env cenv c ap = (r, ap')"
  shows "saved_ok env ap' \<and> (\<forall>su. r = Inr (Analysis su) \<longrightarrow>
    (\<exists>req plan. su_plan su = Some plan \<and> map res_id (su_results su) = map at_id plan
       \<and> list_all task_done (su_results su)
       \<and> product_attribution (ga_unicode env) (ga_digit env) req (su_results su) = Inr (su_attribution su)))"
  using tripleD [OF analyze_triple [OF assms(2)] assms(1,3)] by (auto simp: full_answer_def)

lemma analysis_success_is_complete_witness:
  "\<exists>su ap' req. analyze demo_graph demo_call_env demo_analysis (demo_store demo_saved) = (Inr (Analysis su), ap')
     \<and> saved_ok demo_graph ap'
     \<and> product_attribution demo_folding (\<lambda>_. None) req demo_results = Inr (su_attribution su)"
proof -
  obtain su ap' where run: "analyze demo_graph demo_call_env demo_analysis (demo_store demo_saved) = (Inr (Analysis su), ap')"
    "su_results su = demo_results"
    using demo_analyze by blast
  from analysis_success_is_complete [OF demo_store_ok [OF demo_saved_ok] demo_kept run(1)] show ?thesis
    using run by auto
qed

text \<open>C22: A run that is resumed never repeats a finished task: in every state the graph leaves, the plan is
  the one it started with and every task finished before is still finished, with the same result, and the
  next task to be executed is one without a finished result.\<close>

theorem finished_tasks_are_kept:
  assumes "state_ok env st" and "planned st" and "run_graph env rid st s = (r, states, s')" and "st' \<in> set states"
  shows "as_plan st' = as_plan st
    \<and> (\<forall>x \<in> set (as_results st). task_done x \<longrightarrow> x \<in> set (as_results st'))
    \<and> (\<forall>plan t. as_plan st' = Some plan \<longrightarrow> find (pending_task (results_of (as_results st'))) plan = Some t \<longrightarrow>
         (\<forall>x \<in> set (as_results st). task_done x \<longrightarrow> res_id x \<noteq> at_id t))"
proof -
  have kept: "keeps env (set (filter task_done (as_results st))) (as_plan st) st'"
    using run_graph_ok(2) [OF assms(1,2), of rid s] assms(3,4) by (auto simp: run_ok_def list_all_iff)
  have "res_id x \<noteq> at_id t"
    if plan: "as_plan st' = Some plan" and t: "find (pending_task (results_of (as_results st'))) plan = Some t"
      and x: "x \<in> set (as_results st)" "task_done x" for plan t x
  proof
    assume id: "res_id x = at_id t"
    have pre: "run_prefix plan (as_results st')" using kept plan by (simp add: keeps_def state_ok_def)
    then have "distinct (map res_id (as_results st'))" by (metis distinct_take run_prefix_def)
    then have "results_of (as_results st') (at_id t) = Some x"
      using kept x id by (auto simp: keeps_def results_of_iff)
    moreover have "pending_task (results_of (as_results st')) t" using t by (auto simp: find_Some_iff)
    ultimately show False using x by (simp add: pending_task_def)
  qed
  then show ?thesis using kept by (auto simp: keeps_def)
qed

lemma finished_tasks_are_kept_witness:
  "\<exists>st states. run_graph demo_graph [2] (demo_saved\<lparr>as_question := [63]\<rparr>) () = (Inr st, states, ())
     \<and> (\<forall>st' \<in> set states. as_plan st' = Some demo_tasks \<and> set demo_results \<subseteq> set (as_results st'))"
proof -
  let ?st = "demo_saved\<lparr>as_question := [63]\<rparr>"
  obtain st states where run: "run_graph demo_graph [2] ?st () = (Inr st, states, ())" using demo_graph_run by blast
  have ok: "state_ok demo_graph ?st" "planned ?st" "as_plan ?st = Some demo_tasks" "as_results ?st = demo_results"
    using demo_saved_ok by (simp_all add: planned_def demo_saved_def)
  have "as_plan st' = Some demo_tasks \<and> set demo_results \<subseteq> set (as_results st')" if "st' \<in> set states" for st'
    using finished_tasks_are_kept [OF ok(1,2) run that] demo_tasks_done ok(3,4) by (auto simp: list_all_iff)
  then show ?thesis using run by blast
qed

text \<open>C37: A run of the graph always ends, and soon: extraction, validation, at most one round for each task
  of the plan, attribution and report. With the plans of four tasks that validation builds these are at
  most eight nodes, so the limit of 25 steps of the graph library is never reached.\<close>

theorem graph_passes_few_nodes:
  assumes "state_ok env st" and "\<forall>plan. as_plan st = Some plan \<longrightarrow> length plan \<le> 4"
    and "run_graph env rid st s = (r, states, s')"
  shows "length states \<le> 8"
proof -
  have run: "length (fst (snd (run_tasks env rid st2 s2))) \<le> 6"
    if "state_ok env st2" "as_plan st2 = Some plan" "length plan \<le> 4" for st2 s2 plan
  proof -
    have "pending_count st2 \<le> length plan" using that(2) by (simp add: pending_count_def)
    then show ?thesis using run_tasks_length [OF that(1,2), of rid s2] that(3) by linarith
  qed
  have idle: "length (fst (snd (run_tasks env rid st2 s2))) \<le> 6" if "as_plan st2 = None" for st2 s2
    using that by (auto simp: run_tasks.simps [of env rid st2 s2] execute_node_def finish_graph_def
        split: prod.split bool.split sum.split)
  have "length (fst (snd (run_graph env rid st s))) \<le> Suc (Suc 6)"
    unfolding run_graph_def
  proof (rule step_then_bound)
    fix st1 s1
    assume node: "extract_node env rid st s = (Inr st1, s1)"
    note ok1 = yieldsD [OF extract_keeps [OF assms(1)] node] and same1 = yieldsD [OF extract_same node]
    show "length (fst (snd (step_then (validate_node env rid st1) (\<lambda>st2.
        if as_failure st2 \<noteq> None then finish_graph st2 else run_tasks env rid st2) s1))) \<le> Suc 6"
    proof (rule step_then_bound)
      fix st2 s2
      assume node2: "validate_node env rid st1 s1 = (Inr st2, s2)"
      have "\<forall>plan. as_plan st2 = Some plan \<longrightarrow> length plan \<le> 4"
        using yieldsD [OF validate_plan node2] same1 assms(2) by auto
      then show "length (fst (snd ((if as_failure st2 \<noteq> None then finish_graph st2 else run_tasks env rid st2) s2))) \<le> 6"
        using run [OF yieldsD [OF validate_keeps [OF ok1] node2]] idle by (cases "as_plan st2") (auto simp: finish_graph_def)
    qed
  qed
  then show ?thesis using assms(3) by simp
qed

lemma graph_passes_few_nodes_witness:
  "\<exists>st states. run_graph demo_graph [2] (demo_saved\<lparr>as_question := [63]\<rparr>) () = (Inr st, states, ())
     \<and> length states = 5 \<and> length states \<le> 8"
proof -
  let ?st = "demo_saved\<lparr>as_question := [63]\<rparr>"
  obtain st states where run: "run_graph demo_graph [2] ?st () = (Inr st, states, ())" "length states = 5"
    using demo_graph_run by blast
  have "state_ok demo_graph ?st" "\<forall>plan. as_plan ?st = Some plan \<longrightarrow> length plan \<le> 4"
    using demo_saved_ok by (simp_all add: demo_saved_def demo_tasks_def comparison_plan_def)
  from graph_passes_few_nodes [OF this run(1)] run show ?thesis by blast
qed

text \<open>C17: A failure to understand the question is final, although it should not be. When extraction fails (the
  context cannot be read, the model fails or gives no JSON) the run stays open so that the user may try again,
  and the failure is part of the state kept for the run. On the next call extraction may succeed, but a
  success does not clear the failure of the call before, validation does nothing where there is a failure,
  and the old failure is answered: as long as the run has not expired, no call of it succeeds, whatever the
  model and the database do now.\<close>

theorem failed_understanding_is_sticky:
  assumes "ac_stored cenv" and "kept_from_run cenv"
    and "run_uuid (ga_unicode env) cenv (an_run c) = Some run"
    and "saved_state run ap = Some st" and "as_failure st = Some f" and "as_plan st = None"
    and "unexpired (ac_now cenv ''cleanup'') run ap"
    and "analyze env cenv c ap = (r, ap')"
  shows "(\<forall>su. r \<noteq> Inr (Analysis su))
    \<and> (\<exists>st' f'. saved_state run ap' = Some st' \<and> as_failure st' = Some f' \<and> \<not> planned st')"
proof -
  let ?rest = "thenA (open_run env cenv c run) (\<lambda>claimed.
      case claimed of Inl f \<Rightarrow> okA (AnalysisFailed f)
      | Inr (RunFound RunCompleted) \<Rightarrow> (\<lambda>ap. (Inr (completed_result cenv c run ap), ap))
      | Inr _ \<Rightarrow> analyze_claimed env cenv c run)"
  have stuck: "stuck_run run ap" using assms(4-6) by (simp add: stuck_run_def stuck_def planned_def)
  obtain r1 ap1 where out: "outsideA (pauseA env) ap = (r1, ap1)" by (cases "outsideA (pauseA env) ap")
  have st1: "stuck_run run ap1" by (rule outside_keeps_stuck [OF stuck out])
  have live1: "unexpired (ac_now cenv ''cleanup'') run ap1"
    using outside_same [OF out] assms(7) by (simp add: unexpired_def)
  obtain r2 ap2 where opened: "open_run env cenv c run ap1 = (r2, ap2)" by (cases "open_run env cenv c run ap1")
  have st2: "stuck_run run ap2" by (rule stuck_open [OF st1 live1 opened])
  have "triple (stuck_run run)
      (case x of Inl f \<Rightarrow> okA (AnalysisFailed f)
       | Inr (RunFound RunCompleted) \<Rightarrow> (\<lambda>ap. (Inr (completed_result cenv c run ap), ap))
       | Inr _ \<Rightarrow> analyze_claimed env cenv c run) refused" for x
    by (auto split: sum.split claim_status.split run_status.split
        intro!: stuck_claimed [OF assms(2,1)] stuck_completed)
  from tripleD [OF this st2] have "stuck_run run ap' \<and> (\<forall>a. r = Inr a \<longrightarrow> refused a)"
    if "r1 = Inr u" "r2 = Inr x" for u x
    using assms(8) that by (simp add: analyze_def thenA_def out assms(1,3) opened)
  moreover have "stuck_run run ap' \<and> (\<forall>a. r = Inr a \<longrightarrow> refused a)" if "r1 = Inl e" for e
    using assms(8) that st1 by (auto simp: analyze_def thenA_def out)
  moreover have "stuck_run run ap' \<and> (\<forall>a. r = Inr a \<longrightarrow> refused a)" if "r1 = Inr u" "r2 = Inl e" for u e
    using assms(8) that st2 by (auto simp: analyze_def thenA_def out assms(1,3) opened)
  ultimately have "stuck_run run ap' \<and> (\<forall>a. r = Inr a \<longrightarrow> refused a)"
    by (cases r1; cases r2) auto
  then show ?thesis by (auto simp: stuck_run_def stuck_def refused_def)
qed

lemma failed_understanding_is_sticky_witness:
  "\<exists>r ap'. analyze demo_graph demo_call_env demo_analysis (demo_store demo_failed) = (r, ap')
     \<and> (\<forall>su. r \<noteq> Inr (Analysis su)) \<and> saved_state [9] ap' \<noteq> None"
proof -
  obtain r ap' where run: "analyze demo_graph demo_call_env demo_analysis (demo_store demo_failed) = (r, ap')"
    by (cases "analyze demo_graph demo_call_env demo_analysis (demo_store demo_failed)")
  have "ac_stored demo_call_env" "run_uuid (ga_unicode demo_graph) demo_call_env (an_run demo_analysis) = Some [9]"
    "saved_state [9] (demo_store demo_failed) = Some demo_failed"
    "as_failure demo_failed = Some (failure_of [1] ''LLM_ERROR'' ''PROVIDER_CALL_FAILED'')" "as_plan demo_failed = None"
    "unexpired (ac_now demo_call_env ''cleanup'') [9] (demo_store demo_failed)"
    by (simp_all add: demo_call_env_def run_uuid_def demo_analysis_def saved_state_def demo_store_def demo_failed_def
        blank_state_def unexpired_def)
  from failed_understanding_is_sticky [OF this(1) demo_kept this(2-6) run] run show ?thesis by auto
qed

text \<open>C23: A stopped analysis stays open. When a call ends because the execution was stopped (the user, the session
  or the deadline), at whichever checkpoint, no run has become completed by it, so its finished tasks can
  be resumed.\<close>

theorem stopped_analysis_stays_open:
  assumes "analyze env cenv c ap = (Inl (NodeStopped reason), ap')"
    and "(k, row) \<in> set (rs_runs (ap_runs ap'))" and "run_status_of row = RunCompleted"
  shows "\<exists>row0. (k, row0) \<in> set (rs_runs (ap_runs ap)) \<and> run_status_of row0 = RunCompleted"
  using analyze_stops [of env cenv c] assms by (fastforce simp: stops_open_def completed_runs_def)

definition demo_stopped :: "(unit, unit, nat) analysis_env" where
  "demo_stopped = demo_graph\<lparr>ga_tasks := (ga_tasks demo_graph)\<lparr>w_checkpoint := \<lambda>s. (Some ''user'', s)\<rparr>\<rparr>"

definition demo_table :: "(unit, nat) app_state" where
  "demo_table = (demo_store demo_saved)\<lparr>ap_runs := \<lparr>rs_runs = [([8], (new_run [3] [] 0 0)\<lparr>run_status_of := RunCompleted\<rparr>)],
     rs_checkpoints = [], rs_blobs = [], rs_writes = []\<rparr>\<rparr>"

lemma stopped_analysis_stays_open_witness:
  "analyze demo_stopped demo_call_env demo_analysis demo_table = (Inl (NodeStopped ''user''), demo_table)
     \<and> (\<exists>row0. ([8], row0) \<in> set (rs_runs (ap_runs demo_table)) \<and> run_status_of row0 = RunCompleted)"
proof -
  have "analyze demo_stopped demo_call_env demo_analysis demo_table = (Inl (NodeStopped ''user''), demo_table)"
    by (simp add: analyze_def thenA_def outsideA_def pauseA_def demo_stopped_def demo_graph_def demo_table_def demo_store_def)
  moreover have "([8], (new_run [3] [] 0 0)\<lparr>run_status_of := RunCompleted\<rparr>) \<in> set (rs_runs (ap_runs demo_table))"
    by (simp add: demo_table_def)
  ultimately show ?thesis using stopped_analysis_stays_open [of demo_stopped demo_call_env demo_analysis] by fastforce
qed

end
