(* ===== verification/Spec2Isabelle.thy ===== *)
theory Spec2Isabelle
  imports Store_Properties Lease_Registry Capacity Events_Properties Report_Publish Executor_Properties
    Entry_Properties Account_Properties Stop_Properties Runtime_Safety Pipeline_Properties Time_Properties
    Run_Store Conversation Worker_Properties Requery_Properties Submission_Properties
    Attribution_Properties Analysis_Properties
begin

text \<open>
  A model of the back end of \<open>chatbi\<close> (Python, \<open>src/src\<close>) and the theorems that make it correct.

  \<^bold>\<open>The program.\<close> A signed-in user asks a business question. The entry (\<open>authorization/query_entry.py\<close>)
  checks session, permission and audit, then hands the question to \<open>OnlineQueryService\<close>
  (\<open>online_query/service.py\<close>): a language model turns it into a candidate, dates are resolved, retrieval
  supplies the tables, columns and certified joins, a language model writes one SQL statement, the SQL
  guard accepts or refuses it, and a read-only executor runs it. A question about causes becomes an
  analysis: a plan of tasks (\<open>business_analysis/planning.py\<close>), executed in the order of its dependencies,
  and a report streamed to the browser. Every question is an attempt stored in the history
  (\<open>chatbi_control/history.py\<close>), runs under a lease of \<open>ExecutionRuntime\<close> and reports through an event
  channel; the user, the session check and shutdown can stop it.

  \<^bold>\<open>Theories, in the order of the code's layers.\<close>
  \<^item> \<open>Prelude\<close>, \<open>Table\<close>, \<open>Json\<close>: texts as lists of code points (\<open>pystr\<close>), results as sums (\<open>Inl\<close> an error),
    \<open>bindR\<close>/\<open>mapR\<close> for code that raises, tables as association lists with the effect of \<open>INSERT\<close>, \<open>UPDATE ...
    WHERE\<close> and \<open>SELECT\<close>, and JSON values.
  \<^item> \<open>Store_Model\<close>, \<open>History_Store\<close> (\<open>chatbi_control/history.py\<close>, \<open>execution.py\<close>,
    \<open>query_api/history_contracts.py\<close>, \<open>history_runtime.py\<close>): one definition per transaction, from a database
    to an error or a result and the new database. \<open>Store_Invariant\<close> and \<open>Store_Steps\<close> prove the invariant for
    every transaction, \<open>Store_Abstract\<close> gives the abstract machine (an execution's life cycle, spent tokens)
    that the transactions refine, \<open>Store_Properties\<close> the properties.
  \<^item> \<open>Lease_Registry\<close>, \<open>Capacity\<close>, \<open>Runtime_Leases\<close>, \<open>Stop_Control\<close>, \<open>Execution_Runtime\<close>
    (\<open>business_analysis/run_execution.py\<close>, \<open>query_api/history_runtime.py\<close>, \<open>execution_runtime.py\<close>,
    \<open>admission.py\<close>): guards, the quota, execution leases, the stop control and the monitor. One body under
    the lock is one step. \<open>Runtime_Properties\<close>, \<open>Runtime_Safety\<close> and \<open>Stop_Properties\<close> hold their lemmas.
  \<^item> \<open>Events\<close> (\<open>query_api/execution_events.py\<close>): the ring of events, drafts, subscriptions.
    \<open>Events_Ring\<close>, \<open>Events_Draft\<close>, \<open>Events_Run\<close>, \<open>Events_Properties\<close>: the account of the draft, the bounds of
    the ring, and that a subscriber who reads again and again reaches the state of the channel, whatever calls were
    accepted or refused, but for the refused calls that change the state and publish nothing.
  \<^item> \<open>Report_Stream\<close>, \<open>Report_Chunks\<close>, \<open>Report_Roundtrip\<close>, \<open>Report_Properties\<close>, \<open>Report_Publish\<close>
    (\<open>business_analysis/report_stream.py\<close>): the incremental JSON decoder of a report and its deltas.
  \<^item> \<open>Planning\<close>, \<open>Plan_Check\<close>, \<open>Plan_Properties\<close>, \<open>Task_Executor\<close>, \<open>Executor_Properties\<close>
    (\<open>business_analysis/planning.py\<close>, \<open>contracts.py\<close>, \<open>execution.py\<close>): parsing and validating a plan, the
    generated comparison plan, and the execution of its tasks.
  \<^item> \<open>Auth_Model\<close>, \<open>Auth_Service\<close>, \<open>Auth_Invariant\<close>, \<open>Auth_Steps\<close>, \<open>Auth_Properties\<close>, \<open>Query_Entry\<close>,
    \<open>Entry_Properties\<close>, \<open>Admin_Users\<close>, \<open>Admin_Properties\<close>, \<open>Account_Properties\<close> (\<open>authorization/\<close>,
    \<open>chatbi_control/admin.py\<close>, \<open>bootstrap.py\<close>): accounts, sessions, lockout, roles, audit and the gate before
    every query. \<open>Account_Properties\<close> speaks of all transactions that write users, roles and sessions, those
    of the service, of the administration form and of the start-up alike.
  \<^item> \<open>Join_Graph\<close>, \<open>Join_Properties\<close> (\<open>online_query/retrieval/relationship_graph.py\<close> and the join stage),
    \<open>Sql_Guard\<close>, \<open>Sql_Guard_Properties\<close>, \<open>Sql_Guard_Sample\<close> (\<open>online_query/sql_guard/\<close>), \<open>Time_Resolution\<close>,
    \<open>Time_Properties\<close> (\<open>query_understanding.py\<close>), \<open>Query_Pipeline\<close>, \<open>Pipeline_Properties\<close> (\<open>service.py\<close>,
    \<open>service_execution.py\<close>, \<open>database.py\<close>): one question from its text to the rows of the answer. The model keeps a log of the effects in their order: every
    checkpoint of the control, the statement sent, and what the executor does on its connection.
  \<^item> \<open>Run_Store\<close> (\<open>business_analysis/run_store.py\<close>): the table of analysis runs, who may resume one and
    when it expires; the cancellation of an analysis and the deletion of a history
    (\<open>chatbi_control/history.py\<close>) write this table too and are steps of the relation. \<open>Conversation\<close> (\<open>query_api/conversation.py\<close>): the follow-up context of the older API.
  \<^item> \<open>Attempt\<close>, \<open>Worker\<close>, \<open>Worker_Properties\<close> (\<open>query_api/history.py\<close>, \<open>execution.py\<close>): one attempt from
    its first checkpoint to the transaction that stores its outcome, and the background task around it,
    over the database and the event channel; commits may fail or lose their reply. The properties say what
    the observers are told, for every environment.
  \<^item> \<open>History_Requery\<close>, \<open>Requery_Properties\<close> (\<open>chatbi_control/history.py\<close>): repeating a question as a new history,
    the paged lists and the source of an export. \<open>Submission\<close>, \<open>Submission_Properties\<close>
    (\<open>query_api/execution.py\<close>, \<open>history.py\<close>): every call of \<open>ExecutionApplication\<close> and
    \<open>HistoryApplication\<close> over the database and the execution runtime together: authorisation, reservation, the
    accepting transaction, the dispatch of the worker and the release of the lease on every way out.
  \<^item> \<open>Decimal\<close>, \<open>Attribution\<close>, \<open>Attribution_Properties\<close> (\<open>business_analysis/attribution.py\<close>): the contribution of
    every product and factor to a change, over Python's 28-digit decimals. The rounding error is bounded,
    so the reconciliation refuses no amounts of ordinary size; the products of both periods are named, and
    the ones shown first are the ones that moved most.
  \<^item> \<open>Actions\<close>: functions of a state that return a result or an exception and the new state.
    \<open>Analysis_Graph\<close>, \<open>Analysis_App\<close> (\<open>business_analysis/application.py\<close>, \<open>decomposer.py\<close>): the nodes and edges of
    the analysis graph, and \<open>analyze\<close>, which claims the run, resumes it from the state kept for it and closes
    it. \<open>Analysis_Invariant\<close>, \<open>Analysis_Steps\<close>, \<open>Analysis_Properties\<close>: the invariant of a run's state, what the
    graph and the application keep of it, and the properties.

  \<^bold>\<open>Conventions.\<close> Times are integers in microseconds and a call takes the current time as an argument.
  Identifiers a call draws at random are arguments. Code that is not in the repository is a parameter: an
  argument or a record of functions (\<open>sqlglot\<close>, \<open>auth_env\<close>, \<open>query_env\<close>, \<open>db_connection\<close>). A call that may
  raise is an argument with its outcome, so the theorems hold for every behaviour of the environment.
  Interleaving is a list or a step relation over whole critical sections, since each runs under one lock or
  in one transaction.

  \<^bold>\<open>Termination and bounds.\<close> No fuel is used: every loop is a total function with its measure. Each round
  of the executor and of the analysis graph leaves fewer tasks pending (a round that settles none ends the
  run), the
  depth of a plan enlarges the set of tasks being visited, the chunks of a draft delta get shorter, and the
  audit check counts the values still to be inspected; the other loops are structural.

  \<^bold>\<open>Locales.\<close> \<open>exclusive_lease\<close> states what a registry of leases promises and is interpreted on the
  analysis guard and the history runtime; \<open>irreversible\<close> states that a fact of the store, once true, rules an
  event out for ever (theory \<open>Irreversible\<close>), and is interpreted for spent tokens, deleted histories, finished
  turns and executions, stop requests, the binding and the end of an analysis run, the pending and the
  spent lease of a conversation, and a used operation id; \<open>call_effect\<close> states an effect on the runtime that
  the reading calls of the application have, and is interpreted for the holdings, the leases and the locks; \<open>policy_store\<close>, \<open>audit_sink\<close> and \<open>gate\<close> state what the query entry needs of its
  collaborators and are interpreted on the role store and the two audit sinks.

  \<^bold>\<open>Not modelled.\<close> HTTP routes, exports (a browser process renders them), language model prompts, vector
  search and the ranking of its hits, the offline index build, observability, database DDL, start-up wiring
  and the development tools: they move data between modelled parts and third-party code, or are pure
  input and output. The note of each component says what a modelled part leaves out.
\<close>

end
